(* ===== verification/Prelude.thy ===== *)
theory Prelude
  imports Main "HOL-Library.AList" "HOL-Library.Multiset" "HOL-Library.List_Lexorder"
    "HOL-Library.Char_ord" "HOL-Library.Sublist"
begin

text \<open>
  What every component of the model shares: Go maps, the order in which Go ranges over
  a map, Go's \<open>(value, error)\<close> results, and a few lemmas on lists and
  association lists that carry the component proofs.

  A Go map with entries of type \<open>'v\<close> is an association list with distinct keys;
  reading a missing key is \<open>map_of m k = None\<close>. A nil map is the empty map, which
  is how Go reads it. Strings are byte lists, compared bytewise like Go's strings.
\<close>

section \<open>Fact collections\<close>

named_theorems go_simps \<open>equations that evaluate the model's operations\<close>
named_theorems wf_intros \<open>well-formedness facts of the model's states\<close>

section \<open>Go maps\<close>

type_synonym ('k, 'v) gomap = "('k \<times> 'v) list"

abbreviation keys :: "('k, 'v) gomap \<Rightarrow> 'k list" where
  "keys m \<equiv> map fst m"

abbreviation lookup :: "('k, 'v) gomap \<Rightarrow> 'k \<Rightarrow> 'v option" where
  "lookup m k \<equiv> map_of m k"

definition wf_map :: "('k, 'v) gomap \<Rightarrow> bool" where
  "wf_map m \<longleftrightarrow> distinct (keys m)"

abbreviation put :: "'k \<Rightarrow> 'v \<Rightarrow> ('k, 'v) gomap \<Rightarrow> ('k, 'v) gomap" where
  "put k v m \<equiv> AList.update k v m"

abbreviation del :: "'k \<Rightarrow> ('k, 'v) gomap \<Rightarrow> ('k, 'v) gomap" where
  "del k m \<equiv> AList.delete k m"

definition has_key :: "('k, 'v) gomap \<Rightarrow> 'k \<Rightarrow> bool" where
  "has_key m k \<longleftrightarrow> lookup m k \<noteq> None"

text \<open>The entries of \<open>from\<close> copied onto \<open>into\<close>, as the code's
  \<open>for k, v := range from\<close> loops do: the later entry wins.\<close>

fun copy_into :: "('k, 'v) gomap \<Rightarrow> ('k, 'v) gomap \<Rightarrow> ('k, 'v) gomap" where
  "copy_into [] into = into"
| "copy_into ((k, v) # from) into = copy_into from (put k v into)"

lemma wf_map_Nil [simp, wf_intros]: "wf_map []"
  by (simp add: wf_map_def)

lemma wf_map_put [simp, wf_intros]: "wf_map m \<Longrightarrow> wf_map (put k v m)"
  by (simp add: wf_map_def distinct_update)

lemma wf_map_del [simp, wf_intros]: "wf_map m \<Longrightarrow> wf_map (del k m)"
  by (simp add: wf_map_def distinct_delete)

lemma lookup_put: "lookup (put k v m) = (lookup m)(k \<mapsto> v)"
  by (rule update_conv')

lemma lookup_put_same [simp]: "lookup (put k v m) k = Some v"
  by (simp add: lookup_put)

lemma lookup_put_other [simp]: "k' \<noteq> k \<Longrightarrow> lookup (put k v m) k' = lookup m k'"
  by (simp add: lookup_put)

lemma lookup_del: "lookup (del k m) = (lookup m)(k := None)"
  by (rule delete_conv')

lemma lookup_del_same [simp]: "lookup (del k m) k = None"
  by (simp add: lookup_del)

lemma lookup_del_other [simp]: "k' \<noteq> k \<Longrightarrow> lookup (del k m) k' = lookup m k'"
  by (simp add: lookup_del)

lemma keys_put [simp]: "fst ` set (put k v m) = insert k (fst ` set m)"
  using dom_update [of k v m] by simp

lemma keys_put_present: "k \<in> fst ` set m \<Longrightarrow> keys (put k v m) = keys m"
  by (induction m) auto

lemma keys_put_absent: "k \<notin> fst ` set m \<Longrightarrow> put k v m = m @ [(k, v)]"
  by (induction m) auto

lemma keys_del [simp]: "fst ` set (del k m) = fst ` set m - {k}"
  by (force simp: AList.delete_eq)

lemma has_key_iff: "has_key m k \<longleftrightarrow> k \<in> fst ` set m"
  by (auto simp: has_key_def map_of_eq_None_iff)

lemma has_key_put [simp]: "has_key (put k v m) k' \<longleftrightarrow> k' = k \<or> has_key m k'"
  by (auto simp: has_key_def lookup_put)

lemma has_key_del [simp]: "has_key (del k m) k' \<longleftrightarrow> k' \<noteq> k \<and> has_key m k'"
  by (auto simp: has_key_def lookup_del)

lemma lookup_in_keys: "lookup m k = Some v \<Longrightarrow> k \<in> fst ` set m"
  by (metis map_of_eq_None_iff option.distinct(1))

lemma lookup_in_keys': "Some v = lookup m k \<Longrightarrow> k \<in> fst ` set m"
  by (metis lookup_in_keys)

lemma in_keys_lookup: "k \<in> fst ` set m \<Longrightarrow> \<exists>v. lookup m k = Some v"
  by (metis map_of_eq_None_iff not_None_eq)

lemma wf_map_lookup_iff: "wf_map m \<Longrightarrow> lookup m k = Some v \<longleftrightarrow> (k, v) \<in> set m"
  by (simp add: wf_map_def)

lemma lookup_copy_into:
  "wf_map from \<Longrightarrow> lookup (copy_into from into) k =
     (case lookup from k of Some v \<Rightarrow> Some v | None \<Rightarrow> lookup into k)"
proof (induction "from" into rule: copy_into.induct)
  case (1 into)
  then show ?case by simp
next
  case (2 k' v "from" into)
  then have "wf_map from" and "lookup from k' = None"
    by (auto simp: wf_map_def map_of_eq_None_iff)
  with 2 show ?case by (auto simp: lookup_put split: option.splits)
qed

lemma wf_map_copy_into [simp, wf_intros]: "wf_map into \<Longrightarrow> wf_map (copy_into from into)"
  by (induction "from" into rule: copy_into.induct) auto

lemma lookup_copy_into_miss: "lookup from k = None \<Longrightarrow> lookup (copy_into from into) k = lookup into k"
  by (induction "from" into rule: copy_into.induct) (auto split: if_splits)

lemma has_key_copy_into:
  "has_key (copy_into from into) k \<longleftrightarrow> has_key from k \<or> has_key into k"
proof (induction "from" into rule: copy_into.induct)
  case (1 into)
  then show ?case by (simp add: has_key_def)
next
  case (2 k' v "from" into)
  then show ?case by (auto simp: has_key_def)
qed

section \<open>The order of a range loop\<close>

text \<open>
  Go visits the entries of a map in an order the language leaves open, and two loops
  over the same map may use different orders. Each loop of the model takes its order
  from \<open>ord n\<close>, where \<open>n\<close> numbers the loop; \<open>fair_range\<close> is what the
  language promises: every key is visited exactly once.
\<close>

type_synonym range_order = "nat \<Rightarrow> string list \<Rightarrow> string list"

definition fair_range :: "range_order \<Rightarrow> bool" where
  "fair_range ord \<longleftrightarrow> (\<forall>n ks. mset (ord n ks) = mset ks)"

lemma fair_range_set: "fair_range ord \<Longrightarrow> set (ord n ks) = set ks"
  unfolding fair_range_def by (metis set_mset_mset)

lemma fair_range_distinct: "fair_range ord \<Longrightarrow> distinct (ord n ks) = distinct ks"
  unfolding fair_range_def by (metis mset_eq_imp_distinct_iff)

lemma fair_range_length: "fair_range ord \<Longrightarrow> length (ord n ks) = length ks"
  unfolding fair_range_def by (metis mset_eq_length)

lemmas fair_range_facts = fair_range_set fair_range_distinct fair_range_length

lemma fair_range_id: "fair_range (\<lambda>n ks. ks)"
  by (simp add: fair_range_def)

lemma fair_range_rev: "fair_range (\<lambda>n ks. rev ks)"
  by (simp add: fair_range_def)

section \<open>Results\<close>

text \<open>A \<open>(value, error)\<close> result is \<open>Inl error\<close> or \<open>Inr value\<close>.\<close>

fun bind_result :: "'e + 'a \<Rightarrow> ('a \<Rightarrow> 'e + 'b) \<Rightarrow> 'e + 'b" where
  "bind_result (Inl e) f = Inl e"
| "bind_result (Inr a) f = f a"

lemma bind_result_Inr:
  "bind_result r f = Inr b \<longleftrightarrow> (\<exists>a. r = Inr a \<and> f a = Inr b)"
  by (cases r) auto

lemma bind_result_Inl:
  "bind_result r f = Inl e \<longleftrightarrow> r = Inl e \<or> (\<exists>a. r = Inr a \<and> f a = Inl e)"
  by (cases r) auto

definition is_ok :: "'e + 'a \<Rightarrow> bool" where
  "is_ok r \<longleftrightarrow> (case r of Inl _ \<Rightarrow> False | Inr _ \<Rightarrow> True)"

lemma is_ok_simps [simp]: "\<not> is_ok (Inl e)" "is_ok (Inr a)"
  by (simp_all add: is_ok_def)

section \<open>Strings\<close>

definition replace_char :: "char \<Rightarrow> char \<Rightarrow> string \<Rightarrow> string" where
  "replace_char a b s = map (\<lambda>c. if c = a then b else c) s"

definition join :: "string \<Rightarrow> string list \<Rightarrow> string" where
  "join sep ss = (case ss of [] \<Rightarrow> [] | s # rest \<Rightarrow> foldl (\<lambda>acc t. acc @ sep @ t) s rest)"

text \<open>\<open>split_on\<close> is \<open>strings.Split\<close> with a one-byte separator: it never
  returns an empty list.\<close>

fun split_on :: "char \<Rightarrow> string \<Rightarrow> string list" where
  "split_on c [] = [[]]"
| "split_on c (x # xs) =
     (if x = c then [] # split_on c xs
      else (case split_on c xs of [] \<Rightarrow> [[x]] | t # ts \<Rightarrow> (x # t) # ts))"

lemma split_on_not_Nil [simp]: "split_on c s \<noteq> []"
  by (induction s) (auto split: list.splits)

lemma split_on_no_sep: "t \<in> set (split_on c s) \<Longrightarrow> c \<notin> set t"
proof (induction s arbitrary: t)
  case Nil
  then show ?case by simp
next
  case (Cons x s)
  obtain u us where us: "split_on c s = u # us" by (cases "split_on c s") auto
  with Cons show ?case by (auto split: if_splits)
qed

lemma split_on_join: "split_on c s = t # ts \<Longrightarrow> s = t @ concat (map (\<lambda>u. c # u) ts)"
proof (induction s arbitrary: t ts)
  case Nil
  then show ?case by simp
next
  case (Cons x s)
  obtain u us where us: "split_on c s = u # us" by (cases "split_on c s") auto
  have s: "s = u @ concat (map (\<lambda>u. c # u) us)" by (rule Cons.IH [OF us])
  show ?case
  proof (cases "x = c")
    case True
    with Cons.prems us have "t = []" "ts = u # us" by auto
    with True show ?thesis by (subst s) simp
  next
    case False
    with Cons.prems us have "t = x # u" "ts = us" by auto
    then show ?thesis by (subst s) simp
  qed
qed

lemma replace_char_absent: "a \<noteq> b \<Longrightarrow> a \<notin> set (replace_char a b s)"
  by (auto simp: replace_char_def)

text \<open>Decimal digits, and Go's text of an integer.\<close>

fun nat_text :: "nat \<Rightarrow> string" where
  "nat_text n = (if n < 10 then [char_of (48 + n)] else nat_text (n div 10) @ [char_of (48 + n mod 10)])"

declare nat_text.simps [simp del]

definition int_text :: "int \<Rightarrow> string" where
  "int_text i = (if i < 0 then CHR ''-'' # nat_text (nat (- i)) else nat_text (nat i))"

section \<open>Lists\<close>

text \<open>\<open>before xs a b\<close>: both occur in \<open>xs\<close> and \<open>a\<close> stands before
  \<open>b\<close>.\<close>

definition before :: "'a list \<Rightarrow> 'a \<Rightarrow> 'a \<Rightarrow> bool" where
  "before xs a b \<longleftrightarrow> (\<exists>i j. i < j \<and> j < length xs \<and> xs ! i = a \<and> xs ! j = b)"

lemma before_append_new: "a \<in> set xs \<Longrightarrow> before (xs @ b # ys) a b"
proof -
  assume "a \<in> set xs"
  then obtain i where i: "i < length xs" "xs ! i = a" by (auto simp: in_set_conv_nth)
  then have "(xs @ b # ys) ! i = a" "(xs @ b # ys) ! length xs = b"
    by (auto simp: nth_append)
  moreover have "length xs < length (xs @ b # ys)" by simp
  ultimately show ?thesis unfolding before_def using i(1) by blast
qed

lemma before_rev: "before (rev xs) a b \<longleftrightarrow> before xs b a"
proof -
  have *: "before (rev ys) a b" if "before ys b a" for ys :: "'a list" and a b
  proof -
    from that obtain i j where ij: "i < j" "j < length ys" "ys ! i = b" "ys ! j = a"
      by (auto simp: before_def)
    let ?i = "length ys - Suc j" and ?j = "length ys - Suc i"
    have "?i < ?j" "?j < length (rev ys)" "rev ys ! ?i = a" "rev ys ! ?j = b"
      using ij by (auto simp: rev_nth)
    then show ?thesis unfolding before_def by blast
  qed
  show ?thesis using *[of xs b a] *[of "rev xs" a b] by auto
qed

lemma before_in_set: "before xs a b \<Longrightarrow> a \<in> set xs \<and> b \<in> set xs"
  by (auto simp: before_def)

lemma before_prefix_sets:
  "xs = ys @ b # zs \<Longrightarrow> distinct xs \<Longrightarrow> before xs a b \<Longrightarrow> a \<in> set ys"
proof -
  assume xs: "xs = ys @ b # zs" and d: "distinct xs" and "before xs a b"
  then obtain i j where ij: "i < j" "j < length xs" "xs ! i = a" "xs ! j = b"
    by (auto simp: before_def)
  have "xs ! length ys = b" "length ys < length xs" using xs by auto
  with ij d have "j = length ys" by (metis nth_eq_iff_index_eq)
  with ij xs show ?thesis by (metis nth_append nth_mem)
qed

end
