(* ===== verification/Go_Errors.thy ===== *)
theory Go_Errors
  imports Prelude
begin

text \<open>
  The error values of the program: \<open>common/types/errors.go\<close> (the recoverable,
  client and fatal classes, their constructors and classifiers) on top of what the code
  uses of Go's \<open>errors\<close> and \<open>fmt\<close> packages: \<open>errors.New\<close>,
  \<open>fmt.Errorf\<close> with \<open>%w\<close>, \<open>errors.Join\<close>, \<open>errors.Is\<close> and
  \<open>errors.As\<close>. A message argument is the already formatted text.

  \<open>Sentinel n\<close> is an exported error variable of a library the sources compare
  with (for example \<open>jetstream.ErrKeyNotFound\<close> or \<open>context.Canceled\<close>);
  \<open>APIError code text\<close> is a \<open>*jetstream.APIError\<close>. \<open>StatusError\<close> is the error of an HTTP
  client for an unexpected status (\<open>common/httpx/status.go\<close>), which classifies itself.
\<close>

datatype go_error =
    ErrorString string
  | Sentinel string
  | APIError nat string
  | WrapError string go_error
  | JoinError "go_error list"
  | GeneralRecoverableError string "go_error option"
  | BadRequestError string "go_error option"
  | SystemError string "go_error option"
  | StatusError string int string

text \<open>\<open>Error()\<close>: the text of an error.\<close>

fun error_text :: "go_error \<Rightarrow> string" where
  "error_text (ErrorString s) = s"
| "error_text (Sentinel s) = s"
| "error_text (APIError n s) = s"
| "error_text (WrapError s e) = s"
| "error_text (JoinError es) = join [CHR 0x0A] (map error_text es)"
| "error_text (GeneralRecoverableError s c) = s"
| "error_text (BadRequestError s c) = s"
| "error_text (SystemError s c) = s"
| "error_text (StatusError operation code body) =
     operation @ '': received status code '' @ int_text code @ (if body = [] then [] else '', body: '' @ body)"

text \<open>
  The tree walk of \<open>errors.Is\<close> and \<open>errors.As\<close>: the error itself, then
  what it unwraps to. \<open>chain_has P e\<close> says that some error of the tree satisfies
  \<open>P\<close>.
\<close>

fun chain_has :: "(go_error \<Rightarrow> bool) \<Rightarrow> go_error \<Rightarrow> bool" where
  "chain_has P (WrapError s e) = (P (WrapError s e) \<or> chain_has P e)"
| "chain_has P (JoinError es) = (P (JoinError es) \<or> (\<exists>e\<in>set es. chain_has P e))"
| "chain_has P (GeneralRecoverableError s (Some c)) =
     (P (GeneralRecoverableError s (Some c)) \<or> chain_has P c)"
| "chain_has P (BadRequestError s (Some c)) =
     (P (BadRequestError s (Some c)) \<or> chain_has P c)"
| "chain_has P (SystemError s (Some c)) = (P (SystemError s (Some c)) \<or> chain_has P c)"
| "chain_has P e = P e"

text \<open>The error that \<open>errors.As\<close> finds: the first of the tree, in preorder, with a property.\<close>

fun first_some :: "'a option list \<Rightarrow> 'a option" where
  "first_some [] = None"
| "first_some (x # xs) = (case x of Some a \<Rightarrow> Some a | None \<Rightarrow> first_some xs)"

fun errors_As :: "(go_error \<Rightarrow> bool) \<Rightarrow> go_error \<Rightarrow> go_error option" where
  "errors_As P (WrapError s e) = (if P (WrapError s e) then Some (WrapError s e) else errors_As P e)"
| "errors_As P (JoinError es) =
     (if P (JoinError es) then Some (JoinError es) else first_some (map (errors_As P) es))"
| "errors_As P (GeneralRecoverableError s (Some c)) =
     (if P (GeneralRecoverableError s (Some c)) then Some (GeneralRecoverableError s (Some c)) else errors_As P c)"
| "errors_As P (BadRequestError s (Some c)) =
     (if P (BadRequestError s (Some c)) then Some (BadRequestError s (Some c)) else errors_As P c)"
| "errors_As P (SystemError s (Some c)) =
     (if P (SystemError s (Some c)) then Some (SystemError s (Some c)) else errors_As P c)"
| "errors_As P e = (if P e then Some e else None)"

text \<open>\<open>errors.Is\<close> compares with \<open>==\<close>; the error classes of
  \<open>types\<close> are structs, so this is equality of their fields.\<close>

definition errors_Is :: "go_error \<Rightarrow> go_error \<Rightarrow> bool" where
  "errors_Is e target \<longleftrightarrow> chain_has (\<lambda>x. x = target) e"

text \<open>The statuses that may clear up on their own: a server error, a request timeout, rate limiting.\<close>

definition IsTransientStatus :: "int \<Rightarrow> bool" where
  "IsTransientStatus statusCode \<longleftrightarrow> 500 \<le> statusCode \<or> statusCode = 408 \<or> statusCode = 429"

text \<open>The methods of the three error interfaces: what they return, \<open>None\<close> for an error without the method.\<close>

fun recoverable_method :: "go_error \<Rightarrow> bool option" where
  "recoverable_method (GeneralRecoverableError s c) = Some True"
| "recoverable_method (StatusError operation code body) = Some (IsTransientStatus code)"
| "recoverable_method _ = None"

fun client_method :: "go_error \<Rightarrow> bool option" where
  "client_method (BadRequestError s c) = Some True"
| "client_method (StatusError operation code body) = Some (\<not> IsTransientStatus code)"
| "client_method _ = None"

fun fatal_method :: "go_error \<Rightarrow> bool option" where
  "fatal_method (SystemError s c) = Some True"
| "fatal_method _ = None"

definition NewRecoverableError :: "string \<Rightarrow> go_error" where
  "NewRecoverableError message = GeneralRecoverableError message None"

definition NewClientError :: "string \<Rightarrow> go_error" where
  "NewClientError message = BadRequestError message None"

definition NewFatalError :: "string \<Rightarrow> go_error" where
  "NewFatalError message = SystemError message None"

definition wrapped_message :: "go_error option \<Rightarrow> string \<Rightarrow> string" where
  "wrapped_message cause message =
     (case cause of None \<Rightarrow> message | Some c \<Rightarrow> message @ '': '' @ error_text c)"

definition NewRecoverableWrappedError :: "go_error option \<Rightarrow> string \<Rightarrow> go_error" where
  "NewRecoverableWrappedError cause message =
     GeneralRecoverableError (wrapped_message cause message) cause"

definition NewClientWrappedError :: "go_error option \<Rightarrow> string \<Rightarrow> go_error" where
  "NewClientWrappedError cause message = BadRequestError (wrapped_message cause message) cause"

definition NewFatalWrappedError :: "go_error option \<Rightarrow> string \<Rightarrow> go_error" where
  "NewFatalWrappedError cause message = SystemError (wrapped_message cause message) cause"

definition NewValidationError :: "string \<Rightarrow> string \<Rightarrow> go_error" where
  "NewValidationError path message =
     BadRequestError (''Validation error at path ['' @ path @ '']: '' @ message) None"

definition ErrConflict :: go_error where
  "ErrConflict = NewClientError ''conflict''"

definition ErrNotFound :: go_error where
  "ErrNotFound = NewClientError ''not found''"

definition ErrInvalidInput :: go_error where
  "ErrInvalidInput = NewClientError ''invalid input''"

definition classified :: "(go_error \<Rightarrow> bool option) \<Rightarrow> go_error \<Rightarrow> bool" where
  "classified method e \<longleftrightarrow>
     (case errors_As (\<lambda>x. method x \<noteq> None) e of Some x \<Rightarrow> method x = Some True | None \<Rightarrow> False)"

definition IsRecoverable :: "go_error \<Rightarrow> bool" where
  "IsRecoverable e \<longleftrightarrow> classified recoverable_method e"

definition IsClientError :: "go_error \<Rightarrow> bool" where
  "IsClientError e \<longleftrightarrow> classified client_method e"

definition IsFatal :: "go_error \<Rightarrow> bool" where
  "IsFatal e \<longleftrightarrow> classified fatal_method e"

text \<open>\<open>errors.Join\<close> of a list without nil errors: nil when the list is empty.\<close>

definition errors_Join :: "go_error list \<Rightarrow> go_error option" where
  "errors_Join es = (if es = [] then None else Some (JoinError es))"

lemmas error_defs = NewRecoverableError_def NewClientError_def NewFatalError_def
  NewRecoverableWrappedError_def NewClientWrappedError_def NewFatalWrappedError_def
  NewValidationError_def wrapped_message_def ErrConflict_def ErrNotFound_def ErrInvalidInput_def

lemmas error_class_defs = IsRecoverable_def IsClientError_def IsFatal_def classified_def errors_Is_def

lemma chain_has_root: "P e \<Longrightarrow> chain_has P e"
  by (induction P e rule: chain_has.induct) auto

lemma chain_has_mono: "chain_has P e \<Longrightarrow> (\<And>x. P x \<Longrightarrow> Q x) \<Longrightarrow> chain_has Q e"
  by (induction P e rule: chain_has.induct) auto

lemma chain_has_cause:
  "chain_has P (GeneralRecoverableError s c) \<longleftrightarrow>
     P (GeneralRecoverableError s c) \<or> (\<exists>d. c = Some d \<and> chain_has P d)"
  "chain_has P (BadRequestError s c) \<longleftrightarrow>
     P (BadRequestError s c) \<or> (\<exists>d. c = Some d \<and> chain_has P d)"
  "chain_has P (SystemError s c) \<longleftrightarrow>
     P (SystemError s c) \<or> (\<exists>d. c = Some d \<and> chain_has P d)"
  by (cases c; simp)+

lemma first_some_None: "first_some xs = None \<longleftrightarrow> (\<forall>x\<in>set xs. x = None)"
  by (induction xs) (auto split: option.splits)

lemma first_some_Some: "first_some xs = Some a \<Longrightarrow> Some a \<in> set xs"
  by (induction xs) (auto split: option.splits)

lemma errors_As_None: "errors_As P e = None \<longleftrightarrow> \<not> chain_has P e"
  by (induction P e rule: errors_As.induct) (simp_all add: first_some_None)

lemma errors_As_Some: "errors_As P e = Some x \<Longrightarrow> P x"
  by (induction P e rule: errors_As.induct) (auto dest!: first_some_Some split: if_splits)

lemma errors_As_cause:
  "errors_As P (GeneralRecoverableError s c) =
     (if P (GeneralRecoverableError s c) then Some (GeneralRecoverableError s c) else Option.bind c (errors_As P))"
  "errors_As P (BadRequestError s c) =
     (if P (BadRequestError s c) then Some (BadRequestError s c) else Option.bind c (errors_As P))"
  "errors_As P (SystemError s c) =
     (if P (SystemError s c) then Some (SystemError s c) else Option.bind c (errors_As P))"
  by (cases c; simp)+

lemma errors_Is_refl [simp]: "errors_Is e e"
  unfolding errors_Is_def by (rule chain_has_root) simp

lemma errors_Is_wrap [simp]:
  "errors_Is (WrapError m e) (BadRequestError t c) = errors_Is e (BadRequestError t c)"
  by (simp add: errors_Is_def)

text \<open>The first classified error decides: what wraps it keeps its class.\<close>

lemma classified_simps [simp]:
  "classified method (WrapError m e) = (case method (WrapError m e) of Some b \<Rightarrow> b | None \<Rightarrow> classified method e)"
  "classified method (ErrorString t) \<longleftrightarrow> method (ErrorString t) = Some True"
  "classified method (Sentinel t) \<longleftrightarrow> method (Sentinel t) = Some True"
  "classified method (APIError n t) \<longleftrightarrow> method (APIError n t) = Some True"
  "classified method (StatusError t k b) \<longleftrightarrow> method (StatusError t k b) = Some True"
  by (auto simp: classified_def split: option.splits)

lemma classified_cause [simp]:
  "classified method (GeneralRecoverableError s c) =
     (case method (GeneralRecoverableError s c) of Some b \<Rightarrow> b | None \<Rightarrow> (case c of Some d \<Rightarrow> classified method d | None \<Rightarrow> False))"
  "classified method (BadRequestError s c) =
     (case method (BadRequestError s c) of Some b \<Rightarrow> b | None \<Rightarrow> (case c of Some d \<Rightarrow> classified method d | None \<Rightarrow> False))"
  "classified method (SystemError s c) =
     (case method (SystemError s c) of Some b \<Rightarrow> b | None \<Rightarrow> (case c of Some d \<Rightarrow> classified method d | None \<Rightarrow> False))"
  by (auto simp: classified_def errors_As_cause split: option.splits)

lemma classified_join:
  "es \<noteq> [] \<Longrightarrow> list_all (classified method) es \<Longrightarrow> method (JoinError es) = None \<Longrightarrow> classified method (JoinError es)"
  by (cases es) (auto simp: classified_def split: option.splits)

lemma IsClientError_join: "es \<noteq> [] \<Longrightarrow> list_all IsClientError es \<Longrightarrow> IsClientError (JoinError es)"
  using classified_join [of es client_method] by (simp add: IsClientError_def [abs_def])

lemma wrapped_classes [simp]:
  "IsRecoverable (NewRecoverableWrappedError c m)"
  "IsClientError (NewClientWrappedError c m)"
  "IsFatal (NewFatalWrappedError c m)"
  "IsRecoverable (NewRecoverableError m)"
  "IsClientError (NewClientError m)"
  "IsFatal (NewFatalError m)"
  "IsClientError (NewValidationError p m)"
  by (simp_all add: error_defs IsRecoverable_def IsClientError_def IsFatal_def)

text \<open>A class is kept by every wrapper: what is recoverable stays recoverable.\<close>

lemma IsRecoverable_wrap [simp]:
  "IsRecoverable (WrapError m e) = IsRecoverable e"
  "IsRecoverable (NewFatalWrappedError (Some e) m) = IsRecoverable e"
  "IsRecoverable (NewClientWrappedError (Some e) m) = IsRecoverable e"
  by (simp_all add: error_defs IsRecoverable_def)

lemma IsClientError_wrap [simp]: "IsClientError (WrapError m e) = IsClientError e"
  by (simp add: IsClientError_def)

lemma IsFatal_wrap [simp]: "IsFatal (WrapError m e) = IsFatal e"
  by (simp add: IsFatal_def)

text \<open>The class of a status: a transient one is recoverable, any other a client error.\<close>

lemma StatusError_class [simp]:
  "IsRecoverable (StatusError t code b) \<longleftrightarrow> IsTransientStatus code"
  "IsClientError (StatusError t code b) \<longleftrightarrow> \<not> IsTransientStatus code"
  "\<not> IsFatal (StatusError t code b)"
  by (simp_all add: IsRecoverable_def IsClientError_def IsFatal_def)

lemma plain_error_class [simp]:
  "\<not> IsRecoverable (ErrorString t)" "\<not> IsClientError (ErrorString t)" "\<not> IsFatal (ErrorString t)"
  by (simp_all add: IsRecoverable_def IsClientError_def IsFatal_def)

text \<open>The three sentinels are permanent: client errors that are not recoverable.\<close>

lemma sentinels_permanent [simp]:
  "IsClientError ErrConflict" "IsClientError ErrNotFound" "IsClientError ErrInvalidInput"
  "\<not> IsRecoverable ErrConflict" "\<not> IsRecoverable ErrNotFound" "\<not> IsRecoverable ErrInvalidInput"
  by (simp_all add: error_defs IsRecoverable_def IsClientError_def)

end
