(* ===== verification/Model.thy ===== *)
theory Model
  imports Go_Errors
begin

text \<open>
  The messages and shared constants of \<open>common/model/model.go\<close>, and the JSON values
  that travel in them.

  A value of Go's type \<open>any\<close> that comes from or goes to JSON is a \<open>json\<close>. The
  sources store and copy such values but do not compute with the numbers, which are
  integers here. A struct that is put into a payload is stored as the JSON object it
  marshals to.
\<close>

datatype json =
    JNull
  | JBool bool
  | JNum int
  | JStr string
  | JArr "json list"
  | JObj "(string \<times> json) list"

type_synonym props = "(string, json) gomap"

fun json_as_object :: "json \<Rightarrow> props option" where
  "json_as_object (JObj m) = Some m"
| "json_as_object _ = None"

fun json_as_string :: "json \<Rightarrow> string option" where
  "json_as_string (JStr s) = Some s"
| "json_as_string _ = None"

fun json_as_array :: "json \<Rightarrow> json list option" where
  "json_as_array (JArr xs) = Some xs"
| "json_as_array _ = None"

text \<open>\<open>s, _ := v.(string)\<close>: the zero value when the assertion fails.\<close>

definition string_or_empty :: "json option \<Rightarrow> string" where
  "string_or_empty v = (case v of Some (JStr s) \<Rightarrow> s | _ \<Rightarrow> [])"

section \<open>Constants\<close>

definition ConnectorType :: string where "ConnectorType = ''cfm.connector''"
definition CredentialServiceType :: string where "CredentialServiceType = ''cfm.credentialservice''"
definition DataPlaneType :: string where "DataPlaneType = ''cfm.dataplane''"
definition IssuerServiceType :: string where "IssuerServiceType = ''cfm.issuer''"
definition ParticipantIdentifier :: string where "ParticipantIdentifier = ''cfm.participant.id''"
definition VPADeployType :: string where "VPADeployType = ''cfm.orchestration.vpa.deploy''"
definition VPADisposeType :: string where "VPADisposeType = ''cfm.orchestration.vpa.dispose''"
definition VPAData :: string where "VPAData = ''cfm.vpa.data''"
definition CredentialData :: string where "CredentialData = ''cfm.vpa.credentials''"
definition VPAStateData :: string where "VPAStateData = ''cfm.vpa.state''"

lemmas model_constants = ConnectorType_def CredentialServiceType_def DataPlaneType_def
  IssuerServiceType_def ParticipantIdentifier_def VPADeployType_def VPADisposeType_def
  VPAData_def CredentialData_def VPAStateData_def

lemma model_constants_distinct [simp]:
  "VPADeployType \<noteq> VPADisposeType" "VPADisposeType \<noteq> VPADeployType"
  "VPAData \<noteq> CredentialData" "CredentialData \<noteq> VPAData"
  "VPAData \<noteq> VPAStateData" "VPAStateData \<noteq> VPAData"
  "CredentialData \<noteq> VPAStateData" "VPAStateData \<noteq> CredentialData"
  "ParticipantIdentifier \<noteq> VPAData" "VPAData \<noteq> ParticipantIdentifier"
  "ParticipantIdentifier \<noteq> CredentialData" "CredentialData \<noteq> ParticipantIdentifier"
  "ParticipantIdentifier \<noteq> VPAStateData" "VPAStateData \<noteq> ParticipantIdentifier"
  by (simp_all add: model_constants)

section \<open>Messages\<close>

record orchestration_manifest =
  om_ID :: string
  om_CorrelationID :: string
  om_OrchestrationType :: string
  om_Payload :: props
  om_CompensatedManifestID :: string

record orchestration_response =
  or_ID :: string
  or_ManifestID :: string
  or_CorrelationID :: string
  or_OrchestrationType :: string
  or_Success :: bool
  or_ErrorDetail :: string
  or_Properties :: props
  or_CompensatedManifestID :: string

record vpa_manifest =
  vm_ID :: string
  vm_VPAType :: string
  vm_CellID :: string
  vm_ExternalCellID :: string
  vm_Properties :: props

record credential_spec =
  cs_Id :: string
  cs_Type :: string
  cs_Issuer :: string
  cs_Format :: string
  cs_ParticipantRole :: string

text \<open>The JSON objects of the structs that are put into a payload.\<close>

definition vpa_manifest_json :: "vpa_manifest \<Rightarrow> json" where
  "vpa_manifest_json m = JObj ([(''id'', JStr (vm_ID m)), (''vpaType'', JStr (vm_VPAType m)),
     (''cellId'', JStr (vm_CellID m)), (''externalCellId'', JStr (vm_ExternalCellID m))] @
     (if vm_Properties m = [] then [] else [(''properties'', JObj (vm_Properties m))]))"

definition credential_spec_json :: "credential_spec \<Rightarrow> json" where
  "credential_spec_json c = JObj [(''id'', JStr (cs_Id c)), (''type'', JStr (cs_Type c)),
     (''issuer'', JStr (cs_Issuer c)), (''format'', JStr (cs_Format c)),
     (''role'', JStr (cs_ParticipantRole c))]"

text \<open>
  What a manifest looks like to its receiver: the field tagged \<open>json:"-"\<close> is
  dropped, so a manifest from outside never claims to compensate an orchestration.
\<close>

definition manifest_over_wire :: "orchestration_manifest \<Rightarrow> orchestration_manifest" where
  "manifest_over_wire m = m\<lparr>om_CompensatedManifestID := []\<rparr>"

section \<open>Validation\<close>

definition is_alnum :: "char \<Rightarrow> bool" where
  "is_alnum c \<longleftrightarrow> (CHR ''a'' \<le> c \<and> c \<le> CHR ''z'') \<or> (CHR ''A'' \<le> c \<and> c \<le> CHR ''Z'') \<or>
     (CHR ''0'' \<le> c \<and> c \<le> CHR ''9'')"

text \<open>The regular expression \<open>^[a-zA-Z0-9_-]{1,128}$\<close>.\<close>

definition ValidateParticipantContextID :: "string \<Rightarrow> bool" where
  "ValidateParticipantContextID s \<longleftrightarrow>
     1 \<le> length s \<and> length s \<le> 128 \<and>
     list_all (\<lambda>c. is_alnum c \<or> c = CHR ''_'' \<or> c = CHR ''-'') s"

text \<open>The \<open>modeltype\<close> check, \<open>^[a-zA-Z0-9._-]+$\<close>.\<close>

definition valid_modeltype :: "string \<Rightarrow> bool" where
  "valid_modeltype s \<longleftrightarrow>
     s \<noteq> [] \<and> list_all (\<lambda>c. is_alnum c \<or> c = CHR ''.'' \<or> c = CHR ''_'' \<or> c = CHR ''-'') s"

lemma context_id_safe:
  assumes "ValidateParticipantContextID s"
  shows "CHR ''/'' \<notin> set s" "CHR ''.'' \<notin> set s" "CHR ''%'' \<notin> set s"
    "CHR ''?'' \<notin> set s" "CHR ''#'' \<notin> set s" "s \<noteq> []"
  using assms by (auto simp: ValidateParticipantContextID_def list_all_iff is_alnum_def
      less_eq_char_def)

end
