(* ===== verification/Dag.thy ===== *)
theory Dag
  imports Prelude
begin

text \<open>
  The directed graph of \<open>common/dag/dag.go\<close>: its data, the operations that build
  it, the depth-first cycle detection, Kahn's topological sort and the grouping into
  parallel levels. The proofs about the traversals are in \<open>Dag_Cycle\<close> and
  \<open>Dag_Sort\<close>.

  A \<open>*Vertex\<close> is represented by the ID of the vertex it points to: every pointer
  the code stores in \<open>Edges\<close>, in a queue or in a result is taken from the graph's
  \<open>Vertices\<close> map, which never drops or replaces a vertex. Dereferencing is a lookup
  in that map.

  Recursion and loops whose end depends on the graph carry fuel, the number of vertices
  plus one; \<open>None\<close> means that the fuel ran out or that Go would dereference a nil
  pointer, and the theorems show that neither happens on a graph built by the operations.
\<close>

section \<open>Data\<close>

record 'a vertex =
  v_ID :: string
  v_Value :: 'a
  v_Edges :: "string list"

record 'a graph =
  Vertices :: "(string, 'a vertex) gomap"

record parallel_level =
  Level :: nat
  LevelVertices :: "string list"

record sort_result =
  SortedOrder :: "string list"
  HasCycle :: bool
  CyclePath :: "string list"

record parallel_sort_result = sort_result +
  ParallelLevels :: "parallel_level list"

section \<open>Building a graph\<close>

definition NewVertex :: "string \<Rightarrow> 'a \<Rightarrow> 'a vertex" where
  "NewVertex vid v = \<lparr>v_ID = vid, v_Value = v, v_Edges = []\<rparr>"

definition NewGraph :: "'a graph" where
  "NewGraph = \<lparr>Vertices = []\<rparr>"

definition GetVertex :: "'a graph \<Rightarrow> string \<Rightarrow> 'a vertex option" where
  "GetVertex g vid = lookup (Vertices g) vid"

definition AddVertex :: "string \<Rightarrow> 'a \<Rightarrow> 'a graph \<Rightarrow> 'a graph" where
  "AddVertex vid v g =
     (if has_key (Vertices g) vid then g
      else g\<lparr>Vertices := put vid (NewVertex vid v) (Vertices g)\<rparr>)"

definition AddEdge :: "string \<Rightarrow> string \<Rightarrow> 'a graph \<Rightarrow> 'a graph" where
  "AddEdge fromID toID g =
     (case (lookup (Vertices g) fromID, lookup (Vertices g) toID) of
        (Some u, Some v) \<Rightarrow>
          if toID \<in> set (v_Edges u) then g
          else g\<lparr>Vertices := put fromID (u\<lparr>v_Edges := v_Edges u @ [toID]\<rparr>) (Vertices g)\<rparr>
      | _ \<Rightarrow> g)"

definition GetValue :: "'a graph \<Rightarrow> string \<Rightarrow> 'a option" where
  "GetValue g vid = map_option v_Value (lookup (Vertices g) vid)"

definition GetDependents :: "'a vertex \<Rightarrow> string list" where
  "GetDependents v = sort (v_Edges v)"

text \<open>The vertex IDs, and the edges of a vertex (what \<open>vertex.Edges\<close> reads).\<close>

abbreviation vids :: "'a graph \<Rightarrow> string list" where
  "vids g \<equiv> keys (Vertices g)"

definition edges_of :: "'a graph \<Rightarrow> string \<Rightarrow> string list" where
  "edges_of g k = (case lookup (Vertices g) k of Some v \<Rightarrow> v_Edges v | None \<Rightarrow> [])"

section \<open>Cycle detection\<close>

definition unvisited :: nat where "unvisited = 0"
definition visiting :: nat where "visiting = 1"
definition visited :: nat where "visited = 2"

text \<open>The loop that walks the parents back from the current vertex to the start of the
  cycle.\<close>

fun traceBack :: "nat \<Rightarrow> (string \<Rightarrow> string) \<Rightarrow> string \<Rightarrow> string \<Rightarrow> string list \<Rightarrow> string list option"
where
  "traceBack 0 parent current start cycle =
     (if current = start then Some cycle else None)"
| "traceBack (Suc n) parent current start cycle =
     (if current = start then Some cycle
      else traceBack n parent (parent current) start (cycle @ [current]))"

text \<open>
  \<open>detectCycle\<close> visits a vertex, \<open>detectLoop\<close> is its loop over the vertex's
  edges. Both return the answer with the two maps they mutate; a missing key of either
  map reads as its zero value, so the maps are total functions.
\<close>

fun detectCycle :: "nat \<Rightarrow> 'a graph \<Rightarrow> string \<Rightarrow> (string \<Rightarrow> nat) \<Rightarrow> (string \<Rightarrow> string) \<Rightarrow>
      ((bool \<times> string list) \<times> (string \<Rightarrow> nat) \<times> (string \<Rightarrow> string)) option"
and detectLoop :: "nat \<Rightarrow> 'a graph \<Rightarrow> string \<Rightarrow> string list \<Rightarrow> (string \<Rightarrow> nat) \<Rightarrow> (string \<Rightarrow> string) \<Rightarrow>
      ((bool \<times> string list) \<times> (string \<Rightarrow> nat) \<times> (string \<Rightarrow> string)) option"
where
  "detectCycle 0 g vertexID visitState parent = None"
| "detectCycle (Suc fuel) g vertexID visitState parent =
     (case lookup (Vertices g) vertexID of
        None \<Rightarrow> None
      | Some vertex \<Rightarrow>
          detectLoop fuel g vertexID (v_Edges vertex) (visitState(vertexID := visiting)) parent)"
| "detectLoop fuel g vertexID [] visitState parent =
     Some ((False, []), visitState(vertexID := visited), parent)"
| "detectLoop fuel g vertexID (neighborID # rest) visitState parent =
     (if visitState neighborID = visiting then
        (case traceBack (length (Vertices g)) parent vertexID neighborID [neighborID] of
           None \<Rightarrow> None
         | Some cycle \<Rightarrow> Some ((True, rev (cycle @ [neighborID])), visitState, parent))
      else if visitState neighborID = unvisited then
        (case detectCycle fuel g neighborID visitState (parent(neighborID := vertexID)) of
           None \<Rightarrow> None
         | Some ((hasCycle, cyclePath), visitState', parent') \<Rightarrow>
             if hasCycle then Some ((True, cyclePath), visitState', parent')
             else detectLoop fuel g vertexID rest visitState' parent')
      else detectLoop fuel g vertexID rest visitState parent)"

fun detectFrom :: "nat \<Rightarrow> 'a graph \<Rightarrow> string list \<Rightarrow> (string \<Rightarrow> nat) \<Rightarrow> (string \<Rightarrow> string) \<Rightarrow>
      (bool \<times> string list) option" where
  "detectFrom fuel g [] visitState parent = Some (False, [])"
| "detectFrom fuel g (vid # ids) visitState parent =
     (if visitState vid = unvisited then
        (case detectCycle fuel g vid visitState parent of
           None \<Rightarrow> None
         | Some ((hasCycle, cyclePath), visitState', parent') \<Rightarrow>
             if hasCycle then Some (True, cyclePath)
             else detectFrom fuel g ids visitState' parent')
      else detectFrom fuel g ids visitState parent)"

definition detectCycleWithPath :: "range_order \<Rightarrow> 'a graph \<Rightarrow> (bool \<times> string list) option" where
  "detectCycleWithPath ord g =
     detectFrom (Suc (length (Vertices g))) g (ord 0 (vids g)) (\<lambda>_. unvisited) (\<lambda>_. [])"

section \<open>Topological sort\<close>

definition countEdges :: "string list \<Rightarrow> (string \<Rightarrow> int) \<Rightarrow> (string \<Rightarrow> int)" where
  "countEdges es d = fold (\<lambda>e d. d(e := d e + 1)) es d"

definition inDegrees :: "'a graph \<Rightarrow> string list \<Rightarrow> (string \<Rightarrow> int)" where
  "inDegrees g ids = fold (\<lambda>u. countEdges (edges_of g u)) ids (\<lambda>_. 0)"

fun relax :: "string list \<Rightarrow> (string \<Rightarrow> int) \<Rightarrow> string list \<Rightarrow> (string \<Rightarrow> int) \<times> string list" where
  "relax [] inDegree queue = (inDegree, queue)"
| "relax (v # vs) inDegree queue =
     (let inDegree' = inDegree(v := inDegree v - 1)
      in relax vs inDegree' (if inDegree' v = 0 then queue @ [v] else queue))"

fun kahn :: "nat \<Rightarrow> 'a graph \<Rightarrow> (string \<Rightarrow> int) \<Rightarrow> string list \<Rightarrow> string list \<Rightarrow> nat \<Rightarrow>
      (string list \<times> nat) option" where
  "kahn fuel g inDegree [] ordered n = Some (ordered, n)"
| "kahn 0 g inDegree (u # queue) ordered n = None"
| "kahn (Suc fuel) g inDegree (u # queue) ordered n =
     (let (inDegree', queue') = relax (edges_of g u) inDegree queue
      in kahn fuel g inDegree' queue' (ordered @ [u]) (Suc n))"

definition TopologicalSort :: "range_order \<Rightarrow> 'a graph \<Rightarrow> sort_result option" where
  "TopologicalSort ord g =
     (case detectCycleWithPath ord g of
        None \<Rightarrow> None
      | Some (hasCycle, cyclePath) \<Rightarrow>
          if hasCycle then
            Some \<lparr>SortedOrder = [], HasCycle = hasCycle, CyclePath = cyclePath\<rparr>
          else
            (let inDegree = inDegrees g (ord 1 (vids g));
                 queue = filter (\<lambda>vid. inDegree vid = 0) (ord 2 (vids g))
             in case kahn (Suc (length (Vertices g))) g inDegree queue [] 0 of
                  None \<Rightarrow> None
                | Some (ordered, n) \<Rightarrow>
                    if n \<noteq> length (Vertices g) then
                      Some \<lparr>SortedOrder = [], HasCycle = True, CyclePath = cyclePath\<rparr>
                    else
                      Some \<lparr>SortedOrder = ordered, HasCycle = False, CyclePath = cyclePath\<rparr>))"

section \<open>Parallel levels\<close>

fun removeProcessed :: "'a graph \<Rightarrow> string list \<Rightarrow> string list \<Rightarrow> (string \<Rightarrow> int) \<Rightarrow>
      string list \<times> (string \<Rightarrow> int)" where
  "removeProcessed g [] remaining inDegree = (remaining, inDegree)"
| "removeProcessed g (v # vs) remaining inDegree =
     (let remaining' = filter (\<lambda>x. x \<noteq> v) remaining;
          inDegree' = fold (\<lambda>e d. if e \<in> set remaining' then d(e := d e - 1) else d)
                        (edges_of g v) inDegree
      in removeProcessed g vs remaining' inDegree')"

fun levelLoop :: "nat \<Rightarrow> range_order \<Rightarrow> 'a graph \<Rightarrow> (string \<Rightarrow> int) \<Rightarrow> string list \<Rightarrow> nat \<Rightarrow>
      parallel_level list \<Rightarrow> (bool \<times> parallel_level list) option" where
  "levelLoop fuel ord g inDegree [] levelIndex levels = Some (False, levels)"
| "levelLoop 0 ord g inDegree (r # rs) levelIndex levels = None"
| "levelLoop (Suc fuel) ord g inDegree (r # rs) levelIndex levels =
     (let currentLevel = filter (\<lambda>v. inDegree v = 0) (ord (3 + levelIndex) (r # rs))
      in if currentLevel = [] then Some (True, levels)
         else
           (let ordered = sort currentLevel;
                (remaining', inDegree') = removeProcessed g ordered (r # rs) inDegree
            in levelLoop fuel ord g inDegree' remaining' (Suc levelIndex)
                 (levels @ [\<lparr>Level = levelIndex, LevelVertices = ordered\<rparr>])))"

text \<open>The cycle check and the sort that \<open>ParallelTopologicalSort\<close> calls range over
  the maps on their own, so each gets orders of its own.\<close>

definition ParallelTopologicalSort :: "range_order \<Rightarrow> 'a graph \<Rightarrow> parallel_sort_result option" where
  "ParallelTopologicalSort ord g =
     (case detectCycleWithPath (\<lambda>n. ord (3 * n)) g of
        None \<Rightarrow> None
      | Some (hasCycle, cyclePath) \<Rightarrow>
          if hasCycle then
            Some \<lparr>SortedOrder = [], HasCycle = hasCycle, CyclePath = cyclePath, ParallelLevels = []\<rparr>
          else
            (case TopologicalSort (\<lambda>n. ord (3 * n + 1)) g of
               None \<Rightarrow> None
             | Some sortResult \<Rightarrow>
                 if HasCycle sortResult then
                   Some \<lparr>SortedOrder = SortedOrder sortResult, HasCycle = True,
                         CyclePath = CyclePath sortResult, ParallelLevels = []\<rparr>
                 else
                   (case levelLoop (Suc (length (Vertices g))) (\<lambda>n. ord (3 * n + 2)) g
                           (inDegrees g (SortedOrder sortResult)) (SortedOrder sortResult) 0 [] of
                      None \<Rightarrow> None
                    | Some (stuck, levels) \<Rightarrow>
                        Some \<lparr>SortedOrder = SortedOrder sortResult, HasCycle = stuck,
                              CyclePath = CyclePath sortResult, ParallelLevels = levels\<rparr>)))"

definition GetDependencies :: "range_order \<Rightarrow> 'a graph \<Rightarrow> string \<Rightarrow> string list option" where
  "GetDependencies ord g vertexID =
     map_option (\<lambda>r. sort (concat (map (\<lambda>v. map (\<lambda>_. v) (filter (\<lambda>e. e = vertexID) (edges_of g v)))
                                    (SortedOrder r))))
       (TopologicalSort ord g)"

section \<open>Well-formed graphs\<close>

text \<open>
  The invariant of the data structure: a vertex is stored under its own ID, its edges
  point to vertices of the graph and no edge occurs twice.
\<close>

definition wf_graph :: "'a graph \<Rightarrow> bool" where
  "wf_graph g \<longleftrightarrow> wf_map (Vertices g) \<and>
     (\<forall>k v. lookup (Vertices g) k = Some v \<longrightarrow>
        v_ID v = k \<and> distinct (v_Edges v) \<and> set (v_Edges v) \<subseteq> set (vids g))"

text \<open>The edge relation, and what it means that the graph has a cycle.\<close>

definition edge_rel :: "'a graph \<Rightarrow> (string \<times> string) set" where
  "edge_rel g = {(u, v). v \<in> set (edges_of g u)}"

definition has_cycle :: "'a graph \<Rightarrow> bool" where
  "has_cycle g \<longleftrightarrow> \<not> acyclic (edge_rel g)"

text \<open>A path of IDs that starts and ends at the same vertex and follows edges.\<close>

definition is_cycle_path :: "'a graph \<Rightarrow> string list \<Rightarrow> bool" where
  "is_cycle_path g p \<longleftrightarrow>
     length p \<ge> 2 \<and> hd p = last p \<and> successively (\<lambda>u v. (u, v) \<in> edge_rel g) p"

lemma wf_NewGraph [wf_intros]: "wf_graph NewGraph"
  by (simp add: wf_graph_def NewGraph_def)

lemma wf_AddVertex [wf_intros]: "wf_graph g \<Longrightarrow> wf_graph (AddVertex vid v g)"
  by (auto simp: wf_graph_def AddVertex_def NewVertex_def keys_put lookup_put split: if_splits)

lemma wf_AddEdge [wf_intros]:
  assumes "wf_graph g"
  shows "wf_graph (AddEdge u v g)"
proof (cases "lookup (Vertices g) u")
  case None
  with assms show ?thesis by (simp add: AddEdge_def)
next
  case (Some x)
  note u = this
  show ?thesis
  proof (cases "lookup (Vertices g) v")
    case None
    with assms u show ?thesis by (simp add: AddEdge_def)
  next
    case (Some y)
    with u have "u \<in> set (vids g)" "v \<in> set (vids g)" by (auto dest: lookup_in_keys lookup_in_keys')
    moreover from assms u have "v_ID x = u" "distinct (v_Edges x)" "set (v_Edges x) \<subseteq> set (vids g)"
      by (auto simp: wf_graph_def)
    ultimately show ?thesis
      using assms u Some by (auto simp: AddEdge_def wf_graph_def keys_put lookup_put split: if_splits)
  qed
qed

lemma wf_graph_vertex:
  assumes "wf_graph g" and "lookup (Vertices g) k = Some v"
  shows "v_ID v = k" "distinct (v_Edges v)" "set (v_Edges v) \<subseteq> fst ` set (Vertices g)"
  using assms by (auto simp: wf_graph_def)

lemma wf_edges_of:
  assumes "wf_graph g"
  shows "distinct (edges_of g k)" "set (edges_of g k) \<subseteq> set (vids g)"
proof -
  show "distinct (edges_of g k)"
    by (cases "lookup (Vertices g) k") (auto simp: edges_of_def wf_graph_vertex [OF assms])
  show "set (edges_of g k) \<subseteq> set (vids g)"
    using wf_graph_vertex(3) [OF assms]
    by (cases "lookup (Vertices g) k") (auto simp: edges_of_def)
qed

lemma wf_vids_distinct: "wf_graph g \<Longrightarrow> distinct (vids g)"
  by (simp add: wf_graph_def wf_map_def)

lemma edges_of_vertex: "v \<in> set (edges_of g u) \<Longrightarrow> u \<in> set (vids g)"
  by (auto simp: edges_of_def split: option.splits dest: lookup_in_keys lookup_in_keys')

lemma edge_rel_iff [simp]: "(u, v) \<in> edge_rel g \<longleftrightarrow> v \<in> set (edges_of g u)"
  by (simp add: edge_rel_def)

lemma edge_rel_vids: "wf_graph g \<Longrightarrow> edge_rel g \<subseteq> set (vids g) \<times> set (vids g)"
  using wf_edges_of(2) edges_of_vertex by fastforce

lemma finite_edge_rel: "wf_graph g \<Longrightarrow> finite (edge_rel g)"
  by (rule finite_subset [OF edge_rel_vids]) auto

lemma vids_AddVertex: "set (vids (AddVertex vid v g)) = insert vid (set (vids g))"
  by (auto simp: AddVertex_def keys_put has_key_iff)

lemma edges_of_AddVertex [simp]: "edges_of (AddVertex vid v g) k = edges_of g k"
  by (auto simp: AddVertex_def edges_of_def NewVertex_def lookup_put has_key_def split: option.splits)

lemma vids_AddEdge [simp]: "vids (AddEdge u v g) = vids g"
  by (auto simp: AddEdge_def keys_put_present lookup_in_keys split: option.splits)

lemma edges_of_AddEdge:
  "set (edges_of (AddEdge u v g) k) =
     set (edges_of g k) \<union> (if k = u \<and> u \<in> set (vids g) \<and> v \<in> set (vids g) then {v} else {})"
proof (cases "u \<in> set (vids g) \<and> v \<in> set (vids g)")
  case True
  then obtain x y where "lookup (Vertices g) u = Some x" "lookup (Vertices g) v = Some y"
    using in_keys_lookup [of u "Vertices g"] in_keys_lookup [of v "Vertices g"] by auto
  with True show ?thesis by (auto simp: AddEdge_def edges_of_def lookup_put split: option.splits)
next
  case False
  then have "lookup (Vertices g) u = None \<or> lookup (Vertices g) v = None"
    by (metis map_of_eq_None_iff set_map)
  with False show ?thesis by (auto simp: AddEdge_def split: option.splits)
qed

text \<open>Values: \<open>AddVertex\<close> stores the value of a new ID, keeps that of a known one;
  \<open>AddEdge\<close> changes none.\<close>

lemma GetValue_AddVertex:
  "GetValue (AddVertex vid v g) k =
     (if k = vid \<and> GetValue g vid = None then Some v else GetValue g k)"
  by (auto simp: GetValue_def AddVertex_def NewVertex_def has_key_def lookup_put)

lemma GetValue_AddEdge [simp]: "GetValue (AddEdge u v g) k = GetValue g k"
  by (auto simp: GetValue_def AddEdge_def lookup_put split: option.splits)

lemma GetValue_vids: "k \<in> set (vids g) \<longleftrightarrow> GetValue g k \<noteq> None"
  by (auto simp: GetValue_def map_of_eq_None_iff dest: in_keys_lookup lookup_in_keys lookup_in_keys')

end
