(* ===== verification/Dag_Cycle.thy ===== *)
theory Dag_Cycle
  imports Dag
begin

text \<open>
  The depth-first search of \<open>detectCycleWithPath\<close> is correct: with the fuel the
  model gives it, it always returns, it answers \<open>True\<close> exactly when the graph has a
  cycle, and the path it then reports is a cycle of the graph.

  The proof keeps the search stack as a ghost list: its head is the vertex being visited,
  each vertex on it is in state \<open>visiting\<close>, and the parent map links it to the next.
\<close>

lemma state_codes_distinct [simp]:
  "unvisited \<noteq> visiting" "visiting \<noteq> unvisited" "unvisited \<noteq> visited"
  "visited \<noteq> unvisited" "visiting \<noteq> visited" "visited \<noteq> visiting"
  by (simp_all add: unvisited_def visiting_def visited_def)

definition unvisited_set :: "'a graph \<Rightarrow> (string \<Rightarrow> nat) \<Rightarrow> string set" where
  "unvisited_set g vs = {u \<in> set (vids g). vs u = unvisited}"

definition dfs_inv :: "'a graph \<Rightarrow> (string \<Rightarrow> nat) \<Rightarrow> (string \<Rightarrow> string) \<Rightarrow> string list \<Rightarrow> bool" where
  "dfs_inv g vs pa st \<longleftrightarrow>
     distinct st \<and> set st \<subseteq> set (vids g) \<and> (\<forall>x. vs x = visiting \<longleftrightarrow> x \<in> set st) \<and>
     (\<forall>x. vs x = unvisited \<or> vs x = visiting \<or> vs x = visited) \<and>
     successively (\<lambda>x y. pa x = y \<and> (y, x) \<in> edge_rel g) st \<and>
     (\<forall>u w. vs u = visited \<longrightarrow> (u, w) \<in> edge_rel g \<longrightarrow> vs w = visited) \<and>
     (\<forall>u. vs u = visited \<longrightarrow> (u, u) \<notin> (edge_rel g)\<^sup>+)"

lemma dfs_invI:
  assumes "distinct st" "set st \<subseteq> set (vids g)" "\<And>x. vs x = visiting \<longleftrightarrow> x \<in> set st"
    "\<And>x. vs x = unvisited \<or> vs x = visiting \<or> vs x = visited"
    "successively (\<lambda>x y. pa x = y \<and> (y, x) \<in> edge_rel g) st"
    "\<And>u w. vs u = visited \<Longrightarrow> (u, w) \<in> edge_rel g \<Longrightarrow> vs w = visited"
    "\<And>u. vs u = visited \<Longrightarrow> (u, u) \<notin> (edge_rel g)\<^sup>+"
  shows "dfs_inv g vs pa st"
  using assms unfolding dfs_inv_def by blast

lemma dfs_invD:
  assumes "dfs_inv g vs pa st"
  shows "distinct st" "set st \<subseteq> set (vids g)" "vs x = visiting \<longleftrightarrow> x \<in> set st"
    "vs x = unvisited \<or> vs x = visiting \<or> vs x = visited"
    "successively (\<lambda>x y. pa x = y \<and> (y, x) \<in> edge_rel g) st"
    "vs u = visited \<Longrightarrow> (u, w) \<in> edge_rel g \<Longrightarrow> vs w = visited"
    "vs u = visited \<Longrightarrow> (u, u) \<notin> (edge_rel g)\<^sup>+"
  using assms unfolding dfs_inv_def by blast+

text \<open>What a call answers: a cycle, or the stack it was called with and its vertex
  visited, with nothing visited before forgotten.\<close>

definition dfs_post :: "'a graph \<Rightarrow> string list \<Rightarrow> string \<Rightarrow> (string \<Rightarrow> nat) \<Rightarrow>
    ((bool \<times> string list) \<times> (string \<Rightarrow> nat) \<times> (string \<Rightarrow> string)) option \<Rightarrow> bool" where
  "dfs_post g st x vs r \<longleftrightarrow>
     (\<exists>c p vs' pa'. r = Some ((c, p), vs', pa') \<and>
        (c \<longrightarrow> is_cycle_path g p) \<and>
        (\<not> c \<longrightarrow> p = [] \<and> dfs_inv g vs' pa' st \<and> vs' x = visited \<and>
           (\<forall>y. vs y = visited \<longrightarrow> vs' y = visited) \<and>
           (\<forall>y. vs' y = unvisited \<longrightarrow> vs y = unvisited)))"

lemma dfs_post_earlier:
  assumes "dfs_post g st x vs' r" "\<forall>y. vs y = visited \<longrightarrow> vs' y = visited"
    "\<forall>y. vs' y = unvisited \<longrightarrow> vs y = unvisited"
  shows "dfs_post g st x vs r"
  using assms unfolding dfs_post_def by metis

lemma finite_unvisited_set [simp]: "finite (unvisited_set g vs)"
  by (simp add: unvisited_set_def)

lemma unvisited_set_mono:
  "(\<And>y. vs' y = unvisited \<Longrightarrow> vs y = unvisited) \<Longrightarrow>
   card (unvisited_set g vs') \<le> card (unvisited_set g vs)"
  by (rule card_mono) (auto simp: unvisited_set_def)

lemma unvisited_set_mark:
  assumes "x \<in> set (vids g)" "vs x = unvisited"
  shows "Suc (card (unvisited_set g (vs(x := visiting)))) = card (unvisited_set g vs)"
proof -
  have "unvisited_set g vs = insert x (unvisited_set g (vs(x := visiting)))"
    using assms by (auto simp: unvisited_set_def)
  moreover have "x \<notin> unvisited_set g (vs(x := visiting))"
    by (simp add: unvisited_set_def)
  ultimately show ?thesis by simp
qed

lemma traceBack_stack:
  assumes "successively (\<lambda>x y. pa x = y) (xs @ [n])" "n \<notin> set xs" "length xs \<le> fuel"
  shows "traceBack fuel pa (hd (xs @ [n])) n acc = Some (acc @ xs)"
  using assms
proof (induction xs arbitrary: fuel acc)
  case Nil
  then show ?case by (cases fuel) auto
next
  case (Cons x xs)
  then obtain f where f: "fuel = Suc f" "length xs \<le> f" by (cases fuel) auto
  have "pa x = hd (xs @ [n])" "successively (\<lambda>x y. pa x = y) (xs @ [n])"
    using Cons.prems(1) by (auto simp: successively_Cons)
  with Cons f show ?case by auto
qed

lemma stack_cycle_path:
  assumes "successively (\<lambda>x y. (y, x) \<in> edge_rel g) (xs @ [n])"
    and "(hd (xs @ [n]), n) \<in> edge_rel g"
  shows "is_cycle_path g (rev ((n # xs) @ [n]))"
proof -
  let ?E = "\<lambda>u v. (u, v) \<in> edge_rel g"
  have "successively ?E (rev (xs @ [n]))"
    using assms(1) by (simp only: successively_rev)
  then have "successively ?E (rev (xs @ [n]) @ [n])"
    using assms(2) by (subst successively_append_iff) (cases xs; simp add: last_rev)
  then show ?thesis by (simp add: is_cycle_path_def)
qed

lemma back_edge_cycle:
  assumes inv: "dfs_inv g vs pa (v # st)" and wf: "wf_graph g"
    and n: "vs n = visiting" and e: "(v, n) \<in> edge_rel g"
  shows "\<exists>c. traceBack (length (Vertices g)) pa v n [n] = Some c \<and>
             is_cycle_path g (rev (c @ [n]))"
proof -
  note I = dfs_invD [OF inv]
  from I(3) n have "n \<in> set (v # st)" by blast
  then obtain xs ys where split: "v # st = xs @ n # ys" "n \<notin> set xs"
    by (meson split_list_first)
  then have split': "v # st = (xs @ [n]) @ ys" by simp
  have hd: "hd (xs @ [n]) = v" using split by (cases xs) auto
  have succ: "successively (\<lambda>x y. pa x = y \<and> (y, x) \<in> edge_rel g) (xs @ [n])"
    using I(5) unfolding split' successively_append_iff by blast
  have "card (set (v # st)) \<le> card (set (vids g))" by (rule card_mono) (use I(2) in auto)
  then have "length (v # st) \<le> card (set (vids g))" using I(1) distinct_card by metis
  also have "\<dots> = length (Vertices g)"
    using wf_vids_distinct [OF wf] by (metis distinct_card length_map)
  finally have len: "length xs \<le> length (Vertices g)" using split(1) by simp
  have "successively (\<lambda>x y. pa x = y) (xs @ [n])" using succ by (rule successively_mono) blast
  then have "traceBack (length (Vertices g)) pa v n [n] = Some ([n] @ xs)"
    using traceBack_stack [OF _ split(2) len, of pa "[n]"] by (simp only: hd)
  moreover have "successively (\<lambda>x y. (y, x) \<in> edge_rel g) (xs @ [n])"
    using succ by (rule successively_mono) blast
  then have "is_cycle_path g (rev ((n # xs) @ [n]))"
    by (rule stack_cycle_path) (use e hd in simp)
  ultimately show ?thesis by auto
qed

lemma dfs_inv_push:
  assumes inv: "dfs_inv g vs pa st" and x: "x \<in> set (vids g)" "vs x = unvisited"
    and top: "st = [] \<or> (hd st, x) \<in> edge_rel g \<and> pa x = hd st"
  shows "dfs_inv g (vs(x := visiting)) pa (x # st)"
proof (rule dfs_invI)
  note I = dfs_invD [OF inv]
  show "distinct (x # st)" using I(1) I(3) [of x] x(2) by simp
  show "set (x # st) \<subseteq> set (vids g)" using I(2) x(1) by simp
  show "(vs(x := visiting)) y = visiting \<longleftrightarrow> y \<in> set (x # st)" for y using I(3) by simp
  show "(vs(x := visiting)) y = unvisited \<or> (vs(x := visiting)) y = visiting \<or>
        (vs(x := visiting)) y = visited" for y using I(4) by simp
  show "successively (\<lambda>x y. pa x = y \<and> (y, x) \<in> edge_rel g) (x # st)"
    using I(5) top by (auto simp: successively_Cons)
  show "(vs(x := visiting)) w = visited" if "(vs(x := visiting)) u = visited" "(u, w) \<in> edge_rel g" for u w
    using that I(6) [of u w] x(2) by (auto split: if_splits)
  show "(u, u) \<notin> (edge_rel g)\<^sup>+" if "(vs(x := visiting)) u = visited" for u
    using that I(7) [of u] by (auto split: if_splits)
qed

lemma visited_closed:
  assumes "(u, w) \<in> (edge_rel g)\<^sup>*" "vs u = visited" "dfs_inv g vs pa st"
  shows "vs w = visited"
  using assms(1,2) by (induction rule: rtrancl_induct) (use dfs_invD(6) [OF assms(3)] in blast)+

lemma dfs_inv_pop:
  assumes inv: "dfs_inv g vs pa (v # st)"
    and succs: "\<And>w. (v, w) \<in> edge_rel g \<Longrightarrow> vs w = visited"
  shows "dfs_inv g (vs(v := visited)) pa st"
proof (rule dfs_invI)
  note I = dfs_invD [OF inv]
  have v: "vs v = visiting" using I(3) by simp
  have acyc: "(v, v) \<notin> (edge_rel g)\<^sup>+"
  proof
    assume "(v, v) \<in> (edge_rel g)\<^sup>+"
    then obtain w where w: "(v, w) \<in> edge_rel g" "(w, v) \<in> (edge_rel g)\<^sup>*"
      by (meson tranclD)
    from visited_closed [OF w(2) succs [OF w(1)] inv] v show False by simp
  qed
  show "distinct st" "set st \<subseteq> set (vids g)" using I(1,2) by simp_all
  show "(vs(v := visited)) x = visiting \<longleftrightarrow> x \<in> set st" for x using I(1) I(3) [of x] by auto
  show "(vs(v := visited)) x = unvisited \<or> (vs(v := visited)) x = visiting \<or>
        (vs(v := visited)) x = visited" for x using I(4) by simp
  show "successively (\<lambda>x y. pa x = y \<and> (y, x) \<in> edge_rel g) st"
    using I(5) by (cases st) (auto simp: successively_Cons)
  show "(vs(v := visited)) w = visited" if "(vs(v := visited)) u = visited" "(u, w) \<in> edge_rel g" for u w
    using that I(6) [of u w] succs by (auto split: if_splits)
  show "(u, u) \<notin> (edge_rel g)\<^sup>+" if "(vs(v := visited)) u = visited" for u
    using that I(7) [of u] acyc by (auto split: if_splits)
qed

lemma dfs_inv_parent:
  assumes inv: "dfs_inv g vs pa st" and n: "vs n = unvisited"
  shows "dfs_inv g vs (pa(n := p)) st"
proof (rule dfs_invI)
  note I = dfs_invD [OF inv]
  have "n \<notin> set st" using I(3) [of n] n by simp
  then have "x \<noteq> n" if "x \<in> set st" for x using that by blast
  then show "successively (\<lambda>x y. (pa(n := p)) x = y \<and> (y, x) \<in> edge_rel g) st"
    using I(5) by (simp cong: successively_cong)
qed (use dfs_invD [OF inv] in blast)+

lemma detectCycle_correct:
  fixes g :: "'a graph"
  shows "\<And>st. \<lbrakk>wf_graph g; dfs_inv g vs pa st; x \<in> set (vids g); vs x = unvisited;
            st = [] \<or> (hd st, x) \<in> edge_rel g \<and> pa x = hd st;
            card (unvisited_set g vs) \<le> fuel\<rbrakk>
          \<Longrightarrow> dfs_post g st x vs (detectCycle fuel g x vs pa)"
    and "\<And>st seen. \<lbrakk>wf_graph g; dfs_inv g vs pa (x # st); edges_of g x = seen @ es;
            \<forall>w\<in>set seen. vs w = visited; card (unvisited_set g vs) \<le> fuel\<rbrakk>
          \<Longrightarrow> dfs_post g st x vs (detectLoop fuel g x es vs pa)"
proof (induction fuel g x vs pa and fuel g x es vs pa rule: detectCycle_detectLoop.induct)
  case (1 g x vs pa)
  then have "unvisited_set g vs = {}" by simp
  with 1 show ?case by (auto simp: unvisited_set_def)
next
  case (2 fuel g x vs pa)
  then obtain v where v: "lookup (Vertices g) x = Some v" using in_keys_lookup by fastforce
  let ?vs = "vs(x := visiting)"
  have "dfs_post g st x ?vs (detectLoop fuel g x (v_Edges v) ?vs pa)"
  proof (rule "2.IH" [OF v])
    show "dfs_inv g ?vs pa (x # st)" by (rule dfs_inv_push) (use 2 in auto)
    show "edges_of g x = [] @ v_Edges v" using v by (simp add: edges_of_def)
    show "card (unvisited_set g ?vs) \<le> fuel"
      using unvisited_set_mark [of x g vs] "2.prems" by simp
  qed (use "2.prems" in simp_all)
  then show ?case
    using v "2.prems"(4) by (auto simp: dfs_post_def split: if_splits)
next
  case (3 fuel g x vs pa)
  have "dfs_inv g (vs(x := visited)) pa st"
    by (rule dfs_inv_pop [OF "3.prems"(2)]) (use "3.prems"(3,4) in simp)
  then show ?case by (auto simp: dfs_post_def)
next
  case (4 fuel g x n es vs pa)
  have e: "(x, n) \<in> edge_rel g" using "4.prems"(3) by simp
  consider "vs n = visiting" | "vs n = unvisited" | "vs n = visited"
    using dfs_invD(4) [OF "4.prems"(2)] by blast
  then show ?case
  proof cases
    case 1
    with back_edge_cycle [OF "4.prems"(2,1) _ e] show ?thesis by (auto simp: dfs_post_def)
  next
    case 2
    let ?pa = "pa(n := x)"
    have "dfs_post g (x # st) n vs (detectCycle fuel g n vs ?pa)"
    proof (rule "4.IH"(1))
      show "dfs_inv g vs ?pa (x # st)" by (rule dfs_inv_parent) (use "4.prems" 2 in auto)
      show "n \<in> set (vids g)" using e wf_edges_of(2) [OF "4.prems"(1), of x] by auto
    qed (use 2 e "4.prems" in auto)
    then obtain c p vs' pa' where r: "detectCycle fuel g n vs ?pa = Some ((c, p), vs', pa')"
      and rc: "c \<longrightarrow> is_cycle_path g p"
      and rn: "\<not> c \<longrightarrow> p = [] \<and> dfs_inv g vs' pa' (x # st) \<and> vs' n = visited \<and>
           (\<forall>y. vs y = visited \<longrightarrow> vs' y = visited) \<and> (\<forall>y. vs' y = unvisited \<longrightarrow> vs y = unvisited)"
      unfolding dfs_post_def by blast
    show ?thesis
    proof (cases c)
      case True
      with r rc 2 show ?thesis by (auto simp: dfs_post_def)
    next
      case False
      have n: "vs n \<noteq> visiting" using 2 by simp
      have inv': "dfs_inv g vs' pa' (x # st)" using rn False by blast
      have seen: "\<forall>w\<in>set (seen @ [n]). vs' w = visited" using rn False "4.prems"(4) by auto
      have card: "card (unvisited_set g vs') \<le> fuel"
        using unvisited_set_mono [of vs' vs g] rn False "4.prems"(5) by fastforce
      have "dfs_post g st x vs' (detectLoop fuel g x es vs' pa')"
        by (rule "4.IH"(2) [OF n 2 r refl refl refl False "4.prems"(1) inv' _ seen card])
          (use "4.prems"(3) in simp)
      then have "dfs_post g st x vs (detectLoop fuel g x es vs' pa')"
        by (rule dfs_post_earlier) (use rn False in blast)+
      with n 2 r False show ?thesis by simp
    qed
  next
    case 3
    have "dfs_post g st x vs (detectLoop fuel g x es vs pa)"
      by (rule "4.IH"(3) [where seen = "seen @ [n]"]) (use 3 "4.prems" in auto)
    with 3 show ?thesis by simp
  qed
qed

section \<open>The search from every vertex\<close>

lemma detectFrom_correct:
  assumes wf: "wf_graph g"
  shows "\<lbrakk>dfs_inv g vs pa []; set ids \<subseteq> set (vids g); card (unvisited_set g vs) \<le> fuel;
          \<forall>x\<in>set (vids g). x \<in> set ids \<or> vs x = visited\<rbrakk>
    \<Longrightarrow> \<exists>c p. detectFrom fuel g ids vs pa = Some (c, p) \<and> (c \<longrightarrow> is_cycle_path g p) \<and>
           (\<not> c \<longrightarrow> p = [] \<and> acyclic (edge_rel g))"
proof (induction ids arbitrary: vs pa)
  case Nil
  have "acyclic (edge_rel g)"
  proof (rule acyclicI, intro allI notI)
    fix u assume u: "(u, u) \<in> (edge_rel g)\<^sup>+"
    then have "u \<in> set (vids g)"
      using trancl_subset_Sigma [OF edge_rel_vids [OF wf]] by blast
    with Nil.prems(4) have "vs u = visited" by auto
    with dfs_invD(7) [OF Nil.prems(1)] u show False by blast
  qed
  then show ?case by (intro exI [of _ False] exI [of _ "[]"]) simp
next
  case (Cons x ids)
  show ?case
  proof (cases "vs x = unvisited")
    case False
    then have v: "vs x = visited" using dfs_invD(3,4) [OF Cons.prems(1), of x] by simp
    have "\<exists>c p. detectFrom fuel g ids vs pa = Some (c, p) \<and>
        (c \<longrightarrow> is_cycle_path g p) \<and> (\<not> c \<longrightarrow> p = [] \<and> acyclic (edge_rel g))"
    proof (rule Cons.IH [OF Cons.prems(1) _ Cons.prems(3)])
      show "\<forall>y\<in>set (vids g). y \<in> set ids \<or> vs y = visited" using Cons.prems(4) v by auto
    qed (use Cons.prems(2) in simp)
    with False show ?thesis by simp
  next
    case True
    have "dfs_post g [] x vs (detectCycle fuel g x vs pa)"
      by (rule detectCycle_correct(1) [OF wf Cons.prems(1) _ True]) (use Cons.prems in auto)
    then obtain c p vs' pa' where r: "detectCycle fuel g x vs pa = Some ((c, p), vs', pa')"
      and rc: "c \<longrightarrow> is_cycle_path g p"
      and rn: "\<not> c \<longrightarrow> p = [] \<and> dfs_inv g vs' pa' [] \<and> vs' x = visited \<and>
           (\<forall>y. vs y = visited \<longrightarrow> vs' y = visited) \<and> (\<forall>y. vs' y = unvisited \<longrightarrow> vs y = unvisited)"
      unfolding dfs_post_def by blast
    show ?thesis
    proof (cases c)
      case c: True
      with r rc True show ?thesis by auto
    next
      case False
      have "card (unvisited_set g vs') \<le> fuel"
        using unvisited_set_mono [of vs' vs g] rn False Cons.prems(3) by fastforce
      then have "\<exists>c p. detectFrom fuel g ids vs' pa' = Some (c, p) \<and>
          (c \<longrightarrow> is_cycle_path g p) \<and> (\<not> c \<longrightarrow> p = [] \<and> acyclic (edge_rel g))"
      proof (rule Cons.IH [rotated 2])
        show "\<forall>y\<in>set (vids g). y \<in> set ids \<or> vs' y = visited"
          using Cons.prems(4) rn False by (metis set_ConsD)
      qed (use Cons.prems(2) rn False in auto)
      with r False True show ?thesis by simp
    qed
  qed
qed

text \<open>A cycle path is a cycle of the edge relation.\<close>

lemma successively_trancl:
  "successively (\<lambda>u v. (u, v) \<in> R) (x # xs) \<Longrightarrow> xs \<noteq> [] \<Longrightarrow> (x, last xs) \<in> R\<^sup>+"
proof (induction xs arbitrary: x)
  case Nil
  then show ?case by simp
next
  case (Cons y ys)
  then have xy: "(x, y) \<in> R" and s: "successively (\<lambda>u v. (u, v) \<in> R) (y # ys)" by auto
  show ?case
  proof (cases "ys = []")
    case True
    with xy show ?thesis by auto
  next
    case False
    with Cons.IH [OF s] xy show ?thesis by (auto intro: trancl_into_trancl2)
  qed
qed

lemma cycle_path_has_cycle: "is_cycle_path g p \<Longrightarrow> has_cycle g"
proof -
  assume p: "is_cycle_path g p"
  then obtain x xs where xs: "p = x # xs" "xs \<noteq> []"
    by (cases p; cases "tl p") (auto simp: is_cycle_path_def)
  with p have "x = last xs" "successively (\<lambda>u v. (u, v) \<in> edge_rel g) (x # xs)"
    by (auto simp: is_cycle_path_def)
  with successively_trancl [of "edge_rel g" x xs] xs(2) have "(x, x) \<in> (edge_rel g)\<^sup>+" by simp
  then show ?thesis by (auto simp: has_cycle_def acyclic_def)
qed

text \<open>The search as a whole, for the other theories: it returns, and its answer is right.\<close>

lemma detectCycleWithPath_cases:
  assumes wf: "wf_graph g" and ord: "fair_range ord"
  obtains p where "detectCycleWithPath ord g = Some (True, p)" "is_cycle_path g p" "has_cycle g"
  | "detectCycleWithPath ord g = Some (False, [])" "acyclic (edge_rel g)"
proof -
  let ?vs = "\<lambda>_ :: string. unvisited" and ?pa = "\<lambda>_ :: string. [] :: string"
  have inv: "dfs_inv g ?vs ?pa []" by (rule dfs_invI) auto
  have "card (unvisited_set g ?vs) \<le> card (set (vids g))"
    by (rule card_mono) (auto simp: unvisited_set_def)
  also have "\<dots> \<le> Suc (length (Vertices g))" using card_length [of "vids g"] by simp
  finally have card: "card (unvisited_set g ?vs) \<le> Suc (length (Vertices g))" .
  have "\<exists>c p. detectCycleWithPath ord g = Some (c, p) \<and> (c \<longrightarrow> is_cycle_path g p) \<and>
           (\<not> c \<longrightarrow> p = [] \<and> acyclic (edge_rel g))"
    unfolding detectCycleWithPath_def
    by (rule detectFrom_correct [OF wf inv _ card]) (use fair_range_set [OF ord] in auto)
  then show ?thesis using that cycle_path_has_cycle by (metis (full_types))
qed

text \<open>
  C39. Cycle detection always returns on a graph built by the operations, whatever order
  the map is ranged over in: it reports a cycle exactly when there is one, and the path it
  reports then starts and ends at the same vertex and follows edges of the graph.
\<close>

theorem detectCycleWithPath_correct:
  assumes "wf_graph g" and "fair_range ord"
  shows "\<exists>hasCycle path. detectCycleWithPath ord g = Some (hasCycle, path) \<and>
           (hasCycle \<longleftrightarrow> has_cycle g) \<and>
           (if hasCycle then is_cycle_path g path else path = [])"
  by (rule detectCycleWithPath_cases [OF assms]) (auto simp: has_cycle_def)

definition ring :: "nat graph" where
  "ring = AddEdge ''c'' ''a'' (AddEdge ''b'' ''c'' (AddEdge ''a'' ''b''
     (AddVertex ''c'' 3 (AddVertex ''b'' 2 (AddVertex ''a'' 1 NewGraph)))))"

lemma ring_wf: "wf_graph ring"
  by (simp add: ring_def wf_intros)

lemma ring_detected:
  "detectCycleWithPath (\<lambda>n ks. rev ks) ring = Some (True, [''c'', ''a'', ''b'', ''c''])"
  by code_simp

theorem detectCycleWithPath_witness:
  "has_cycle ring \<and> is_cycle_path ring [''c'', ''a'', ''b'', ''c'']"
  using detectCycleWithPath_correct [OF ring_wf fair_range_rev] ring_detected by auto

end
