(* ===== verification/Dag_Sort.thy ===== *)
theory Dag_Sort
  imports Dag_Cycle
begin

text \<open>
  The two sorts of \<open>common/dag/dag.go\<close>. Kahn's algorithm returns every vertex of
  an acyclic graph once, each before the vertices it has edges to; the level grouping
  partitions the vertices into levels such that every edge leads to a later level, and no
  vertex stands in a later level than its predecessors force it to.
\<close>

section \<open>Counting predecessors\<close>

definition preds_in :: "'a graph \<Rightarrow> string set \<Rightarrow> string \<Rightarrow> string set" where
  "preds_in g R v = {u \<in> R. (u, v) \<in> edge_rel g}"

definition topo_ordered :: "'a graph \<Rightarrow> string list \<Rightarrow> bool" where
  "topo_ordered g s \<longleftrightarrow> (\<forall>u v. (u, v) \<in> edge_rel g \<longrightarrow> v \<in> set s \<longrightarrow> before s u v)"

lemma finite_preds_in [simp]: "finite R \<Longrightarrow> finite (preds_in g R v)"
  by (simp add: preds_in_def)

lemma card_preds_in_remove:
  assumes "finite R" "u \<in> R"
  shows "int (card (preds_in g (R - {u}) v)) =
           int (card (preds_in g R v)) - (if v \<in> set (edges_of g u) then 1 else 0)"
proof (cases "v \<in> set (edges_of g u)")
  case True
  then have "preds_in g R v = insert u (preds_in g (R - {u}) v)" "u \<notin> preds_in g (R - {u}) v"
    using assms(2) by (auto simp: preds_in_def)
  with True assms(1) show ?thesis by simp
next
  case False
  then have "preds_in g (R - {u}) v = preds_in g R v" by (auto simp: preds_in_def)
  with False show ?thesis by simp
qed

lemma countEdges_eq:
  "distinct es \<Longrightarrow> countEdges es d v = d v + (if v \<in> set es then 1 else 0)"
  unfolding countEdges_def by (induction es arbitrary: d) auto

lemma inDegrees_fold:
  assumes "wf_graph g" "distinct ids"
  shows "fold (\<lambda>u. countEdges (edges_of g u)) ids d v = d v + int (card (preds_in g (set ids) v))"
  using assms(2)
proof (induction ids arbitrary: d)
  case Nil
  then show ?case by (simp add: preds_in_def)
next
  case (Cons u ids)
  have "preds_in g (insert u (set ids) - {u}) v = preds_in g (set ids) v"
    using Cons.prems by (auto simp: preds_in_def)
  then have "int (card (preds_in g (set ids) v)) =
      int (card (preds_in g (insert u (set ids)) v)) - (if v \<in> set (edges_of g u) then 1 else 0)"
    using card_preds_in_remove [of "insert u (set ids)" u g v] by simp
  then show ?case
    using Cons countEdges_eq [OF wf_edges_of(1) [OF assms(1)], of u d v] by simp
qed

lemma inDegrees_eq:
  "wf_graph g \<Longrightarrow> distinct ids \<Longrightarrow> inDegrees g ids v = int (card (preds_in g (set ids) v))"
  unfolding inDegrees_def by (simp add: inDegrees_fold)

lemma relax_eq:
  "distinct vs \<Longrightarrow> relax vs d q =
     (\<lambda>v. d v - (if v \<in> set vs then 1 else 0), q @ filter (\<lambda>v. d v = 1) vs)"
proof (induction vs d q rule: relax.induct)
  case (1 d q)
  then show ?case by simp
next
  case (2 v vs d q)
  define d' where "d' = d(v := d v - 1)"
  have IH: "relax vs d' (if d' v = 0 then q @ [v] else q) =
      (\<lambda>x. d' x - (if x \<in> set vs then 1 else 0),
       (if d' v = 0 then q @ [v] else q) @ filter (\<lambda>x. d' x = 1) vs)"
    unfolding d'_def by (rule "2.IH" [OF refl]) (use "2.prems" in simp)
  have f: "filter (\<lambda>x. d' x = 1) vs = filter (\<lambda>x. d x = 1) vs"
    by (rule filter_cong) (use "2.prems" in \<open>auto simp: d'_def\<close>)
  have d: "(\<lambda>x. d' x - (if x \<in> set vs then 1 else 0)) =
      (\<lambda>x. d x - (if x \<in> set (v # vs) then 1 else 0))"
    using "2.prems" by (auto simp: d'_def)
  have "relax (v # vs) d q = relax vs d' (if d' v = 0 then q @ [v] else q)"
    by (simp add: Let_def d'_def)
  also have "\<dots> = (\<lambda>x. d x - (if x \<in> set (v # vs) then 1 else 0),
      (if d' v = 0 then q @ [v] else q) @ filter (\<lambda>x. d x = 1) vs)"
    by (simp only: IH f d)
  also have "\<dots> = (\<lambda>x. d x - (if x \<in> set (v # vs) then 1 else 0),
      q @ filter (\<lambda>x. d x = 1) (v # vs))"
    by (simp add: d'_def)
  finally show ?case .
qed

section \<open>Kahn's algorithm\<close>

definition kahn_inv :: "'a graph \<Rightarrow> (string \<Rightarrow> int) \<Rightarrow> string list \<Rightarrow> string list \<Rightarrow> bool" where
  "kahn_inv g d q s \<longleftrightarrow>
     distinct (s @ q) \<and> set (s @ q) \<subseteq> set (vids g) \<and> topo_ordered g s \<and>
     (\<forall>v\<in>set (vids g). d v = int (card (preds_in g (set (vids g) - set s) v)) \<and>
        (v \<in> set (s @ q) \<longleftrightarrow> d v = 0))"

lemma before_append: "before xs a b \<Longrightarrow> before (xs @ ys) a b"
  unfolding before_def by (metis (no_types) length_append less_trans nth_append trans_less_add1)

lemma kahn_inv_step:
  assumes wf: "wf_graph g" and inv: "kahn_inv g d (u # q) s"
  shows "kahn_inv g (\<lambda>v. d v - (if v \<in> set (edges_of g u) then 1 else 0))
           (q @ filter (\<lambda>v. d v = 1) (edges_of g u)) (s @ [u])"
proof -
  let ?V = "set (vids g)" and ?es = "edges_of g u"
  let ?d = "\<lambda>v. d v - (if v \<in> set ?es then 1 else 0)"
  let ?new = "filter (\<lambda>v. d v = 1) ?es"
  have dist: "distinct (s @ u # q)" and sub: "set (s @ u # q) \<subseteq> ?V" and topo: "topo_ordered g s"
    and deg: "\<And>v. v \<in> ?V \<Longrightarrow> d v = int (card (preds_in g (?V - set s) v))"
    and zero: "\<And>v. v \<in> ?V \<Longrightarrow> v \<in> set (s @ u # q) \<longleftrightarrow> d v = 0"
    using inv unfolding kahn_inv_def by blast+
  have u: "u \<in> ?V - set s" using dist sub by auto
  have rest: "?V - set (s @ [u]) = ?V - set s - {u}" by auto
  have deg': "?d v = int (card (preds_in g (?V - set (s @ [u])) v))" if "v \<in> ?V" for v
    unfolding rest using card_preds_in_remove [of "?V - set s" u g v] u deg [OF that] by simp
  have pos: "d v \<noteq> 0" if "v \<in> set ?es" for v
  proof -
    have "v \<in> ?V" using that wf_edges_of(2) [OF wf] by blast
    moreover have "u \<in> preds_in g (?V - set s) v" using that u by (simp add: preds_in_def)
    ultimately show ?thesis using deg by (auto simp: card_gt_0_iff)
  qed
  have zero': "v \<in> set ((s @ [u]) @ q @ ?new) \<longleftrightarrow> ?d v = 0" if "v \<in> ?V" for v
  proof -
    have "v \<in> set ((s @ [u]) @ q @ ?new) \<longleftrightarrow> d v = 0 \<or> v \<in> set ?new"
      unfolding zero [OF that, symmetric] by auto
    then show ?thesis using pos [of v] by (cases "v \<in> set ?es") simp_all
  qed
  have new: "set ?new \<inter> set (s @ u # q) = {}"
  proof (rule equals0I)
    fix v assume v: "v \<in> set ?new \<inter> set (s @ u # q)"
    then have "d v = 1" "v \<in> ?V" using wf_edges_of(2) [OF wf, of u] by auto
    moreover from this v have "d v = 0" using zero by blast
    ultimately show False by simp
  qed
  have "preds_in g (?V - set s) u = {}"
  proof -
    have "int (card (preds_in g (?V - set s) u)) = 0" using deg [of u] zero [of u] u by auto
    then show ?thesis by (simp add: preds_in_def)
  qed
  then have preds: "p \<in> set s" if "(p, u) \<in> edge_rel g" for p
    using that edges_of_vertex [of u g p] by (auto simp: preds_in_def)
  have "topo_ordered g (s @ [u])"
    unfolding topo_ordered_def
  proof (intro allI impI)
    fix p v assume pv: "(p, v) \<in> edge_rel g" "v \<in> set (s @ [u])"
    then consider "v \<in> set s" | "v = u" by auto
    then show "before (s @ [u]) p v"
    proof cases
      case 1
      with topo pv show ?thesis by (auto simp: topo_ordered_def intro: before_append)
    next
      case 2
      with preds pv(1) show ?thesis by (auto intro: before_append_new)
    qed
  qed
  moreover have "distinct ((s @ [u]) @ q @ ?new)"
    using dist new wf_edges_of(1) [OF wf, of u] by auto
  moreover have "set ((s @ [u]) @ q @ ?new) \<subseteq> ?V"
    using sub wf_edges_of(2) [OF wf, of u] by auto
  ultimately show ?thesis unfolding kahn_inv_def using deg' zero' by blast
qed

lemma kahn_returns:
  "\<lbrakk>wf_graph g; kahn_inv g d q s; n = length s; length (Vertices g) \<le> fuel + length s\<rbrakk>
   \<Longrightarrow> \<exists>d' s'. kahn fuel g d q s n = Some (s', length s') \<and> kahn_inv g d' [] s'"
proof (induction fuel g d q s n rule: kahn.induct)
  case (1 fuel g d s n)
  then show ?case by auto
next
  case (2 g d u q s n)
  then have "length (s @ u # q) \<le> length (Vertices g)"
    by (metis (no_types, lifting) card_mono distinct_card finite_set kahn_inv_def length_map
        wf_vids_distinct)
  with 2 show ?case by simp
next
  case (3 fuel g d u q s n)
  have r: "relax (edges_of g u) d q =
      (\<lambda>v. d v - (if v \<in> set (edges_of g u) then 1 else 0),
       q @ filter (\<lambda>v. d v = 1) (edges_of g u))"
    by (rule relax_eq [OF wf_edges_of(1) [OF "3.prems"(1)]])
  show ?case
    using "3.IH" [OF r [symmetric] refl "3.prems"(1) kahn_inv_step [OF "3.prems"(1,2)]] "3.prems"(3,4)
    by (simp add: r)
qed

lemma acyclic_minimal:
  assumes "wf_graph g" "acyclic (edge_rel g)" "R \<noteq> {}"
  shows "\<exists>z\<in>R. preds_in g R z = {}"
proof -
  have "wf (edge_rel g)" by (rule finite_acyclic_wf [OF finite_edge_rel [OF assms(1)] assms(2)])
  with assms(3) obtain z where "z \<in> R" "\<And>y. (y, z) \<in> edge_rel g \<Longrightarrow> y \<notin> R"
    by (metis wfE_min ex_in_conv)
  then show ?thesis by (auto simp: preds_in_def)
qed

lemma kahn_complete:
  assumes wf: "wf_graph g" and acyc: "acyclic (edge_rel g)" and inv: "kahn_inv g d [] s"
  shows "set s = set (vids g)"
proof (rule ccontr)
  let ?R = "set (vids g) - set s"
  assume "set s \<noteq> set (vids g)"
  then have "?R \<noteq> {}" using inv by (auto simp: kahn_inv_def)
  from acyclic_minimal [OF wf acyc this] obtain z where z: "z \<in> ?R" "preds_in g ?R z = {}" by blast
  with inv have "d z = 0" unfolding kahn_inv_def by (metis DiffD1 card.empty of_nat_0)
  with inv z(1) show False by (auto simp: kahn_inv_def)
qed

lemma kahn_inv_start:
  assumes wf: "wf_graph g" and ord: "fair_range ord"
  shows "kahn_inv g (inDegrees g (ord 1 (vids g)))
           (filter (\<lambda>x. inDegrees g (ord 1 (vids g)) x = 0) (ord 2 (vids g))) []"
proof -
  note facts = fair_range_set [OF ord] fair_range_distinct [OF ord] wf_vids_distinct [OF wf]
  have "inDegrees g (ord 1 (vids g)) v = int (card (preds_in g (set (vids g)) v))" for v
    using inDegrees_eq [OF wf, of "ord 1 (vids g)" v] facts by simp
  then show ?thesis using facts by (auto simp: kahn_inv_def topo_ordered_def)
qed

lemma TopologicalSort_cases:
  assumes wf: "wf_graph g" and ord: "fair_range ord"
  obtains p where "TopologicalSort ord g = Some \<lparr>SortedOrder = [], HasCycle = True, CyclePath = p\<rparr>"
      "has_cycle g" "is_cycle_path g p"
  | s where "TopologicalSort ord g = Some \<lparr>SortedOrder = s, HasCycle = False, CyclePath = []\<rparr>"
      "\<not> has_cycle g" "distinct s" "set s = set (vids g)" "topo_ordered g s"
proof (rule detectCycleWithPath_cases [OF assms])
  fix p assume "detectCycleWithPath ord g = Some (True, p)" "is_cycle_path g p" "has_cycle g"
  then show thesis using that(1) by (simp add: TopologicalSort_def)
next
  assume d: "detectCycleWithPath ord g = Some (False, [])" and acyc: "acyclic (edge_rel g)"
  let ?d = "inDegrees g (ord 1 (vids g))"
  obtain d' s where k: "kahn (Suc (length (Vertices g))) g ?d
      (filter (\<lambda>x. ?d x = 0) (ord 2 (vids g))) [] 0 = Some (s, length s)" "kahn_inv g d' [] s"
    using kahn_returns [OF wf kahn_inv_start [OF assms], of 0 "Suc (length (Vertices g))"] by auto
  have s: "set s = set (vids g)" by (rule kahn_complete [OF wf acyc k(2)])
  moreover have "distinct s" "topo_ordered g s" using k(2) by (auto simp: kahn_inv_def)
  moreover from this s have "length s = length (Vertices g)"
    using wf_vids_distinct [OF wf] by (metis distinct_card length_map)
  moreover from this have "TopologicalSort ord g =
      Some \<lparr>SortedOrder = s, HasCycle = False, CyclePath = []\<rparr>"
    using d k(1) by (simp add: TopologicalSort_def Let_def)
  ultimately show thesis using that(2) acyc by (simp add: has_cycle_def)
qed

text \<open>
  The topological sort always returns; it reports a cycle exactly when the graph has
  one, and otherwise its order holds every vertex of the graph exactly once, each vertex
  before every vertex it has an edge to.
\<close>

theorem TopologicalSort_correct:
  assumes "wf_graph g" and "fair_range ord"
  shows "\<exists>r. TopologicalSort ord g = Some r \<and> (HasCycle r \<longleftrightarrow> has_cycle g) \<and>
           (if HasCycle r then SortedOrder r = [] \<and> is_cycle_path g (CyclePath r)
            else mset (SortedOrder r) = mset (vids g) \<and>
                 (\<forall>u v. (u, v) \<in> edge_rel g \<longrightarrow> before (SortedOrder r) u v))"
proof (rule TopologicalSort_cases [OF assms])
  fix p
  assume "TopologicalSort ord g = Some \<lparr>SortedOrder = [], HasCycle = True, CyclePath = p\<rparr>"
    "has_cycle g" "is_cycle_path g p"
  then show ?thesis by simp
next
  fix s
  assume r: "TopologicalSort ord g = Some \<lparr>SortedOrder = s, HasCycle = False, CyclePath = []\<rparr>"
    "\<not> has_cycle g" and s: "distinct s" "set s = set (vids g)" "topo_ordered g s"
  have "mset s = mset (vids g)"
    using set_eq_iff_mset_eq_distinct [OF s(1) wf_vids_distinct [OF assms(1)]] s(2) by simp
  moreover have "before s u v" if "(u, v) \<in> edge_rel g" for u v
    using that s edge_rel_vids [OF assms(1)] unfolding topo_ordered_def by blast
  ultimately show ?thesis using r by simp
qed

definition diamond :: "nat graph" where
  "diamond = AddEdge ''c'' ''d'' (AddEdge ''b'' ''d'' (AddEdge ''a'' ''c'' (AddEdge ''a'' ''b''
     (AddVertex ''d'' 4 (AddVertex ''c'' 3 (AddVertex ''b'' 2 (AddVertex ''a'' 1 NewGraph)))))))"

lemma diamond_wf: "wf_graph diamond"
  by (simp add: diamond_def wf_intros)

lemma diamond_sorted:
  "TopologicalSort (\<lambda>n ks. rev ks) diamond =
     Some \<lparr>SortedOrder = [''a'', ''b'', ''c'', ''d''], HasCycle = False, CyclePath = []\<rparr>"
  by code_simp

theorem TopologicalSort_witness:
  "\<not> has_cycle diamond \<and> before [''a'', ''b'', ''c'', ''d''] ''a'' ''c''"
proof -
  have "''c'' \<in> set (edges_of diamond ''a'')" by code_simp
  then have "(''a'', ''c'') \<in> edge_rel diamond" by simp
  then show ?thesis
    using TopologicalSort_correct [OF diamond_wf fair_range_rev] diamond_sorted by auto
qed

section \<open>Parallel levels\<close>

text \<open>What the grouping promises, level by level: level \<open>idx\<close> holds exactly the
  remaining vertices that no remaining vertex has an edge to, in the order of their IDs.\<close>

fun levels_ok :: "'a graph \<Rightarrow> string set \<Rightarrow> nat \<Rightarrow> parallel_level list \<Rightarrow> bool" where
  "levels_ok g R idx [] \<longleftrightarrow> R = {}"
| "levels_ok g R idx (l # ls) \<longleftrightarrow>
     Level l = idx \<and> LevelVertices l \<noteq> [] \<and> sorted (LevelVertices l) \<and> distinct (LevelVertices l) \<and>
     set (LevelVertices l) = {v \<in> R. preds_in g R v = {}} \<and>
     levels_ok g (R - set (LevelVertices l)) (Suc idx) ls"

lemma fold_guarded_dec:
  "distinct es \<Longrightarrow> fold (\<lambda>e d. if e \<in> A then d(e := d e - 1) else d) es d x =
     d x - (if x \<in> set es \<and> x \<in> A then 1 else (0 :: int))"
  by (induction es arbitrary: d) auto

definition level_inv :: "'a graph \<Rightarrow> string list \<Rightarrow> (string \<Rightarrow> int) \<Rightarrow> bool" where
  "level_inv g rs d \<longleftrightarrow> distinct rs \<and> set rs \<subseteq> set (vids g) \<and>
     (\<forall>v\<in>set rs. d v = int (card (preds_in g (set rs) v)))"

lemma removeProcessed_inv:
  "\<lbrakk>wf_graph g; level_inv g rs d; distinct vs; set vs \<subseteq> set rs\<rbrakk>
   \<Longrightarrow> \<exists>rs' d'. removeProcessed g vs rs d = (rs', d') \<and> level_inv g rs' d' \<and>
         set rs' = set rs - set vs"
proof (induction g vs rs d rule: removeProcessed.induct)
  case (1 g rs d)
  then show ?case by simp
next
  case (2 g v vs rs d)
  let ?rs = "filter (\<lambda>x. x \<noteq> v) rs"
  let ?d = "fold (\<lambda>e d. if e \<in> set ?rs then d(e := d e - 1) else d) (edges_of g v) d"
  have rs: "set ?rs = set rs - {v}" by auto
  have "?d x = int (card (preds_in g (set ?rs) x))" if x: "x \<in> set ?rs" for x
  proof -
    have v: "v \<in> set rs" using "2.prems"(4) by simp
    have dx: "d x = int (card (preds_in g (set rs) x))"
      using "2.prems"(2) x by (simp add: level_inv_def)
    have "?d x = d x - (if x \<in> set (edges_of g v) \<and> x \<in> set ?rs then 1 else 0)"
      by (rule fold_guarded_dec [OF wf_edges_of(1) [OF "2.prems"(1)]])
    also have "\<dots> = d x - (if x \<in> set (edges_of g v) then 1 else 0)" by (simp only: x simp_thms)
    also have "\<dots> = int (card (preds_in g (set rs - {v}) x))"
      unfolding dx by (rule card_preds_in_remove [OF finite_set v, symmetric])
    finally show ?thesis by (simp only: rs)
  qed
  then have inv: "level_inv g ?rs ?d" using "2.prems"(2) by (auto simp: level_inv_def)
  have "\<exists>rs' d'. removeProcessed g vs ?rs ?d = (rs', d') \<and> level_inv g rs' d' \<and>
      set rs' = set ?rs - set vs"
    by (rule "2.IH" [OF refl refl "2.prems"(1) inv]) (use "2.prems"(3,4) in auto)
  then obtain rs' d' where r: "removeProcessed g vs ?rs ?d = (rs', d')" "level_inv g rs' d'"
    and "set rs' = set ?rs - set vs" by blast
  then have "set rs' = set rs - set (v # vs)" by auto
  with r show ?case by (simp only: removeProcessed.simps Let_def) blast
qed

lemma level_loop_correct:
  "\<lbrakk>wf_graph g; acyclic (edge_rel g); fair_range ord; level_inv g rs d; length rs \<le> fuel\<rbrakk>
   \<Longrightarrow> \<exists>ls. levelLoop fuel ord g d rs idx levels = Some (False, levels @ ls) \<and>
         levels_ok g (set rs) idx ls"
proof (induction fuel ord g d rs idx levels rule: levelLoop.induct)
  case (1 fuel ord g d idx levels)
  then show ?case by auto
next
  case (2 ord g d r rs idx levels)
  then show ?case by simp
next
  case (3 fuel ord g d r rs idx levels)
  let ?rem = "r # rs"
  let ?cur = "filter (\<lambda>v. d v = 0) (ord (3 + idx) ?rem)"
  note inv = "3.prems"(4)
  have ordset: "set (ord (3 + idx) ?rem) = set ?rem" by (rule fair_range_set [OF "3.prems"(3)])
  have cur: "set ?cur = {v \<in> set ?rem. preds_in g (set ?rem) v = {}}"
    unfolding set_filter ordset using inv by (auto simp: level_inv_def)
  have dist: "distinct ?cur"
    using inv fair_range_distinct [OF "3.prems"(3), of "3 + idx" ?rem] by (simp add: level_inv_def)
  have ne: "?cur \<noteq> []"
  proof -
    obtain z where "z \<in> set ?rem" "preds_in g (set ?rem) z = {}"
      using acyclic_minimal [OF "3.prems"(1,2), of "set ?rem"] by auto
    with cur have "z \<in> set ?cur" by blast
    then show ?thesis by (metis list.set_intros(1) empty_iff list.set(1))
  qed
  obtain rs' d' where rm: "removeProcessed g (sort ?cur) ?rem d = (rs', d')"
    and inv': "level_inv g rs' d'" and rs': "set rs' = set ?rem - set ?cur"
    using removeProcessed_inv [OF "3.prems"(1) inv, of "sort ?cur"] dist cur by auto
  let ?l = "\<lparr>Level = idx, LevelVertices = sort ?cur\<rparr>"
  have ne': "sort ?cur \<noteq> []" using ne by (metis set_empty set_sort)
  obtain c where "c \<in> set ?cur" using ne by (metis list.set_sel(1))
  then have "set rs' \<subset> set ?rem" using rs' cur by blast
  then have "card (set rs') < card (set ?rem)" by (rule psubset_card_mono [rotated]) simp
  then have "length rs' < length ?rem"
    using inv inv' unfolding level_inv_def by (metis distinct_card)
  then have len: "length rs' \<le> fuel" using "3.prems"(5) by simp
  obtain ls where ls: "levelLoop fuel ord g d' rs' (Suc idx) (levels @ [?l]) =
        Some (False, (levels @ [?l]) @ ls)" "levels_ok g (set rs') (Suc idx) ls"
    using "3.IH" [OF refl ne refl rm [symmetric] refl "3.prems"(1-3) inv' len] by blast
  have "levelLoop (Suc fuel) ord g d ?rem idx levels = Some (False, levels @ ?l # ls)"
    using ls(1) rm ne by (simp add: Let_def)
  moreover have "levels_ok g (set ?rem) idx (?l # ls)"
    using ls(2) rs' cur dist ne' by simp
  ultimately show ?case by blast
qed

lemma levels_ok_ConsD:
  assumes "levels_ok g R idx (l # ls)"
  shows "distinct (LevelVertices l)" "set (LevelVertices l) \<subseteq> R"
    "levels_ok g (R - set (LevelVertices l)) (Suc idx) ls"
    "v \<in> set (LevelVertices l) \<longleftrightarrow> v \<in> R \<and> preds_in g R v = {}"
proof -
  show "distinct (LevelVertices l)"
    using assms unfolding levels_ok.simps by (elim conjE)
  show "levels_ok g (R - set (LevelVertices l)) (Suc idx) ls"
    using assms unfolding levels_ok.simps by (elim conjE)
  have eq: "set (LevelVertices l) = {v \<in> R. preds_in g R v = {}}"
    using assms unfolding levels_ok.simps by (elim conjE)
  show "set (LevelVertices l) \<subseteq> R" "v \<in> set (LevelVertices l) \<longleftrightarrow> v \<in> R \<and> preds_in g R v = {}"
    unfolding eq by simp_all
qed

lemma levels_ok_concat:
  "levels_ok g R idx ls \<Longrightarrow>
     set (concat (map LevelVertices ls)) = R \<and> distinct (concat (map LevelVertices ls))"
proof (induction g R idx ls rule: levels_ok.induct)
  case (1 g R idx)
  then show ?case by simp
next
  case (2 g R idx l ls)
  note D = levels_ok_ConsD [OF "2.prems"]
  have IH: "set (concat (map LevelVertices ls)) = R - set (LevelVertices l)"
    "distinct (concat (map LevelVertices ls))" using "2.IH" [OF D(3)] by blast+
  have "set (LevelVertices l) \<inter> set (concat (map LevelVertices ls)) = {}" unfolding IH(1) by blast
  moreover have "set (LevelVertices l) \<union> set (concat (map LevelVertices ls)) = R"
    unfolding IH(1) using D(2) by blast
  ultimately show ?case using D(1) IH(2) by simp
qed

lemma levels_ok_member:
  "levels_ok g R idx ls \<Longrightarrow> i < length ls \<Longrightarrow> v \<in> set (LevelVertices (ls ! i)) \<Longrightarrow> v \<in> R"
  using levels_ok_concat by (metis (no_types, opaque_lifting) UN_I nth_mem set_concat set_map imageI)

lemma levels_ok_nth:
  "levels_ok g R idx ls \<Longrightarrow> i < length ls \<Longrightarrow>
     Level (ls ! i) = idx + i \<and> LevelVertices (ls ! i) \<noteq> [] \<and> sorted (LevelVertices (ls ! i))"
proof (induction g R idx ls arbitrary: i rule: levels_ok.induct)
  case (1 g R idx)
  then show ?case by simp
next
  case (2 g R idx l ls)
  then show ?case by (cases i) auto
qed

lemma levels_ok_edges:
  "\<lbrakk>levels_ok g R idx ls; i < length ls; j < length ls; u \<in> set (LevelVertices (ls ! i));
    v \<in> set (LevelVertices (ls ! j)); (u, v) \<in> edge_rel g\<rbrakk> \<Longrightarrow> i < j"
proof (induction g R idx ls arbitrary: i j rule: levels_ok.induct)
  case (1 g R idx)
  then show ?case by simp
next
  case (2 g R idx l ls)
  show ?case
  proof (cases j)
    case 0
    then have "preds_in g R v = {}" using "2.prems"(5) levels_ok_ConsD(4) [OF "2.prems"(1)] by simp
    moreover have "u \<in> R" by (rule levels_ok_member [OF "2.prems"(1,2,4)])
    ultimately show ?thesis using "2.prems"(6) by (auto simp: preds_in_def)
  next
    case (Suc j')
    then show ?thesis
      using "2.IH" [OF levels_ok_ConsD(3) [OF "2.prems"(1)], of "i - 1" j'] "2.prems"(2-6)
      by (cases i) auto
  qed
qed

lemma levels_ok_earliest:
  "\<lbrakk>levels_ok g R idx ls; Suc j < length ls; v \<in> set (LevelVertices (ls ! Suc j))\<rbrakk>
   \<Longrightarrow> \<exists>u\<in>set (LevelVertices (ls ! j)). (u, v) \<in> edge_rel g"
proof (induction g R idx ls arbitrary: j rule: levels_ok.induct)
  case (1 g R idx)
  then show ?case by simp
next
  case (2 g R idx l ls)
  let ?L = "set (LevelVertices l)"
  note D = levels_ok_ConsD [OF "2.prems"(1)]
  note rest = D(3)
  show ?case
  proof (cases j)
    case (Suc j')
    then show ?thesis using "2.IH" [OF rest, of j'] "2.prems"(2,3) by auto
  next
    case 0
    with "2.prems" obtain l' ls' where ls: "ls = l' # ls'" by (cases ls) auto
    with 0 "2.prems"(3) have v: "v \<in> set (LevelVertices l')" by simp
    have m: "v \<in> R - ?L" "preds_in g (R - ?L) v = {}"
      using levels_ok_ConsD(4) [of g "R - ?L" "Suc idx" l' ls' v] rest ls v by auto
    from m(1) D(4) [of v] have "preds_in g R v \<noteq> {}" by blast
    then obtain u where "u \<in> R" "(u, v) \<in> edge_rel g" by (auto simp: preds_in_def)
    with m(2) have "u \<in> ?L" by (auto simp: preds_in_def)
    with \<open>(u, v) \<in> edge_rel g\<close> 0 show ?thesis by auto
  qed
qed

lemma ParallelTopologicalSort_cases:
  assumes wf: "wf_graph g" and ord: "fair_range ord"
  obtains r where "ParallelTopologicalSort ord g = Some r" "HasCycle r" "has_cycle g"
      "is_cycle_path g (CyclePath r)"
  | r where "ParallelTopologicalSort ord g = Some r" "\<not> HasCycle r" "\<not> has_cycle g"
      "levels_ok g (set (vids g)) 0 (ParallelLevels r)"
proof -
  let ?o1 = "\<lambda>n. ord (3 * n)" and ?o2 = "\<lambda>n. ord (3 * n + 1)" and ?o3 = "\<lambda>n. ord (3 * n + 2)"
  have o: "fair_range ?o1" "fair_range ?o2" "fair_range ?o3"
    using ord by (auto simp: fair_range_def)
  show thesis
  proof (rule detectCycleWithPath_cases [OF wf o(1)])
    fix p assume "detectCycleWithPath ?o1 g = Some (True, p)" "is_cycle_path g p" "has_cycle g"
    then show thesis using that(1) by (simp add: ParallelTopologicalSort_def)
  next
    assume d: "detectCycleWithPath ?o1 g = Some (False, [])" and acyc: "acyclic (edge_rel g)"
    then have nc: "\<not> has_cycle g" by (simp add: has_cycle_def)
    with TopologicalSort_cases [OF wf o(2)] obtain s where
      t: "TopologicalSort ?o2 g = Some \<lparr>SortedOrder = s, HasCycle = False, CyclePath = []\<rparr>"
      and s: "distinct s" "set s = set (vids g)" by metis
    have inv: "level_inv g s (inDegrees g s)"
      using s inDegrees_eq [OF wf s(1)] by (simp add: level_inv_def)
    have "length s = length (Vertices g)"
      using s wf_vids_distinct [OF wf] by (metis distinct_card length_map)
    then obtain ls where "levelLoop (Suc (length (Vertices g))) ?o3 g (inDegrees g s) s 0 [] =
        Some (False, ls)" "levels_ok g (set s) 0 ls"
      using level_loop_correct [OF wf acyc o(3) inv, of "Suc (length (Vertices g))" 0 "[]"] by auto
    with d t s(2) nc show thesis using that(2) by (simp add: ParallelTopologicalSort_def)
  qed
qed

text \<open>
  C11. The parallel sort always returns and reports a cycle exactly when there is one.
  Otherwise its levels are numbered from 0, are not empty, list their vertices by ID and
  hold every vertex exactly once between them; an edge always leads to a strictly later
  level, and every vertex after level 0 has a predecessor in the level right before it,
  so no vertex waits longer than it has to.
\<close>

theorem ParallelTopologicalSort_correct:
  assumes "wf_graph g" and "fair_range ord"
  shows "\<exists>r. ParallelTopologicalSort ord g = Some r \<and> (HasCycle r \<longleftrightarrow> has_cycle g) \<and>
    (let ls = ParallelLevels r; verts = (\<lambda>i. set (LevelVertices (ls ! i))) in
     \<not> HasCycle r \<longrightarrow>
       mset (concat (map LevelVertices ls)) = mset (vids g) \<and>
       (\<forall>i < length ls. Level (ls ! i) = i \<and> verts i \<noteq> {} \<and> sorted (LevelVertices (ls ! i))) \<and>
       (\<forall>i j u v. i < length ls \<longrightarrow> j < length ls \<longrightarrow> u \<in> verts i \<longrightarrow> v \<in> verts j \<longrightarrow>
          (u, v) \<in> edge_rel g \<longrightarrow> i < j) \<and>
       (\<forall>i v. Suc i < length ls \<longrightarrow> v \<in> verts (Suc i) \<longrightarrow>
          (\<exists>u\<in>verts i. (u, v) \<in> edge_rel g)))"
proof (rule ParallelTopologicalSort_cases [OF assms])
  fix r assume "ParallelTopologicalSort ord g = Some r" "HasCycle r" "has_cycle g"
  then show ?thesis by simp
next
  fix r assume r: "ParallelTopologicalSort ord g = Some r" "\<not> HasCycle r" "\<not> has_cycle g"
    and ok: "levels_ok g (set (vids g)) 0 (ParallelLevels r)"
  let ?ls = "ParallelLevels r"
  note c = levels_ok_concat [OF ok]
  have "mset (concat (map LevelVertices ?ls)) = mset (vids g)"
    using set_eq_iff_mset_eq_distinct [OF conjunct2 [OF c] wf_vids_distinct [OF assms(1)]] c by blast
  then show ?thesis
    unfolding Let_def
    using r levels_ok_nth [OF ok] levels_ok_edges [OF ok] levels_ok_earliest [OF ok]
    by (intro exI [of _ r]) (auto simp del: mset_concat mset_map)
qed

lemma diamond_levels:
  "ParallelTopologicalSort (\<lambda>n ks. rev ks) diamond = Some \<lparr>SortedOrder = [''a'', ''b'', ''c'', ''d''],
     HasCycle = False, CyclePath = [],
     ParallelLevels = [\<lparr>Level = 0, LevelVertices = [''a'']\<rparr>,
       \<lparr>Level = 1, LevelVertices = [''b'', ''c'']\<rparr>, \<lparr>Level = 2, LevelVertices = [''d'']\<rparr>]\<rparr>"
  by code_simp

theorem ParallelTopologicalSort_witness:
  "\<exists>r. ParallelTopologicalSort (\<lambda>n ks. rev ks) diamond = Some r \<and> \<not> HasCycle r \<and>
     length (ParallelLevels r) = 3 \<and> \<not> has_cycle diamond"
  using ParallelTopologicalSort_correct [OF diamond_wf fair_range_rev] diamond_levels by auto

section \<open>Dependencies and dependents\<close>

text \<open>\<open>GetDependents\<close> lists the edges of a vertex in order, \<open>GetDependencies\<close>
  the vertices with an edge to it (of an acyclic graph).\<close>

lemma GetDependents_eq:
  "sorted (GetDependents v)" "mset (GetDependents v) = mset (v_Edges v)"
  by (simp_all add: GetDependents_def)

lemma filter_eq_distinct: "distinct es \<Longrightarrow> filter (\<lambda>e. e = x) es = (if x \<in> set es then [x] else [])"
  by (induction es) auto

lemma GetDependencies_eq:
  assumes wf: "wf_graph g" and ord: "fair_range ord" and acyc: "\<not> has_cycle g"
  shows "\<exists>ds. GetDependencies ord g v = Some ds \<and> sorted ds \<and> set ds = {u. (u, v) \<in> edge_rel g}"
proof (rule TopologicalSort_cases [OF wf ord])
  fix s assume s: "TopologicalSort ord g = Some \<lparr>SortedOrder = s, HasCycle = False, CyclePath = []\<rparr>"
    "set s = set (vids g)"
  have "u \<in> set s" if "v \<in> set (edges_of g u)" for u using edges_of_vertex [OF that] s(2) by simp
  then show ?thesis
    using s(1) by (auto simp: GetDependencies_def filter_eq_distinct [OF wf_edges_of(1) [OF wf]])
qed (use acyc in simp)

end
