(* ===== verification/Orchestration_Types.thy ===== *)
theory Orchestration_Types
  imports Model Dag_Sort
begin

text \<open>
  The orchestration of the Provision Manager (\<open>pmanager/api/types.go\<close>): its state,
  the merge of the engine's bookkeeping, the step lookups that decide what runs next, and
  \<open>InstantiateOrchestration\<close>, which turns a definition's activities into steps with
  the dependency graph of \<open>Dag\<close>. A timestamp is an integer.
\<close>

section \<open>Data\<close>

text \<open>\<open>OrchestrationState\<close> is an unsigned integer with four named values; any other
  code is \<open>OrchestrationStateUnknown\<close>.\<close>

datatype orchestration_state =
    OrchestrationStateInitialized
  | OrchestrationStateRunning
  | OrchestrationStateCompleted
  | OrchestrationStateErrored
  | OrchestrationStateUnknown nat

record activity =
  a_ID :: string
  a_Type :: string
  a_Discriminator :: string
  a_DependsOn :: "string list"

record activity_message =
  am_OrchestrationID :: string
  am_Activity :: activity

record engine_state =
  TraceContext :: string
  Attempts :: "(string, int) gomap"
  Retries :: "(string, int) gomap"
  EngineError :: string

record orchestration =
  o_ID :: string
  o_CorrelationID :: string
  o_DefinitionID :: string
  o_State :: orchestration_state
  o_StateTimestamp :: int
  o_CreatedTimestamp :: int
  o_OrchestrationType :: string
  o_Steps :: "activity list list"
  o_ProcessingData :: props
  o_OutputData :: props
  o_Completed :: "(string, unit) gomap"
  o_EngineState :: engine_state
  o_OriginTraceContext :: "(string, string) gomap"
  o_CompensatedOrchestrationID :: string

record orchestration_definition =
  od_Type :: string
  od_TemplateRef :: string
  od_Version :: int
  od_Description :: string
  od_Active :: bool
  od_Schema :: props
  od_Activities :: "activity list"

record activity_definition =
  ad_Type :: string
  ad_Version :: int
  ad_Description :: string
  ad_InputSchema :: props
  ad_OutputSchema :: props

record orchestration_entry =
  oe_ID :: string
  oe_Version :: int
  oe_CorrelationID :: string
  oe_State :: orchestration_state
  oe_StateTimestamp :: int
  oe_CreatedTimestamp :: int
  oe_OrchestrationType :: string
  oe_DefinitionID :: string

definition empty_engine_state :: engine_state where
  "empty_engine_state = \<lparr>TraceContext = [], Attempts = [], Retries = [], EngineError = []\<rparr>"

section \<open>Operations\<close>

definition EngineState_Merge :: "engine_state \<Rightarrow> engine_state \<Rightarrow> engine_state" where
  "EngineState_Merge s from =
     \<lparr>TraceContext = TraceContext from,
      Attempts = copy_into (Attempts from) (Attempts s),
      Retries = copy_into (Retries from) (Retries s),
      EngineError = (if EngineError from \<noteq> [] then EngineError from else EngineError s)\<rparr>"

definition SetState :: "int \<Rightarrow> orchestration_state \<Rightarrow> orchestration \<Rightarrow> orchestration" where
  "SetState now state o' = o'\<lparr>o_State := state, o_StateTimestamp := now\<rparr>"

fun GetStepForActivity :: "activity list list \<Rightarrow> string \<Rightarrow> go_error + activity list" where
  "GetStepForActivity [] activityId =
     Inl (ErrorString (''step not found for activity: '' @ activityId))"
| "GetStepForActivity (step # steps) activityId =
     (if \<exists>a\<in>set step. a_ID a = activityId then Inr step else GetStepForActivity steps activityId)"

definition CanProceedToNextStep :: "orchestration \<Rightarrow> string \<Rightarrow> go_error + bool" where
  "CanProceedToNextStep o' activityId =
     (case GetStepForActivity (o_Steps o') activityId of
        Inl err \<Rightarrow> Inl err
      | Inr step \<Rightarrow>
          Inr (\<forall>a\<in>set step. a_ID a = activityId \<or> has_key (o_Completed o') (a_ID a)))"

fun GetNextStepActivities :: "activity list list \<Rightarrow> string \<Rightarrow> activity list" where
  "GetNextStepActivities [] currentActivity = []"
| "GetNextStepActivities (step # steps) currentActivity =
     (if \<exists>a\<in>set step. a_ID a = currentActivity
      then (case steps of [] \<Rightarrow> [] | next_step # _ \<Rightarrow> next_step)
      else GetNextStepActivities steps currentActivity)"

definition add_vertices :: "activity list \<Rightarrow> activity graph \<Rightarrow> activity graph" where
  "add_vertices activities g = fold (\<lambda>a g. AddVertex (a_ID a) a g) activities g"

fun add_dependencies :: "string \<Rightarrow> string list \<Rightarrow> activity graph \<Rightarrow> go_error + activity graph" where
  "add_dependencies aid [] g = Inr g"
| "add_dependencies aid (d # ds) g =
     (if has_key (Vertices g) d then add_dependencies aid ds (AddEdge aid d g)
      else Inl (ErrorString (''dependency not found: '' @ d)))"

fun add_edges :: "activity list \<Rightarrow> activity graph \<Rightarrow> go_error + activity graph" where
  "add_edges [] g = Inr g"
| "add_edges (a # as) g = bind_result (add_dependencies (a_ID a) (a_DependsOn a) g) (add_edges as)"

definition step_of_level :: "activity graph \<Rightarrow> parallel_level \<Rightarrow> activity list" where
  "step_of_level g l = List.map_filter (GetValue g) (LevelVertices l)"

definition InstantiateOrchestration ::
  "range_order \<Rightarrow> int \<Rightarrow> string \<Rightarrow> string \<Rightarrow> string \<Rightarrow> string \<Rightarrow> activity list \<Rightarrow> props \<Rightarrow>
   (go_error + orchestration) option" where
  "InstantiateOrchestration ord now oid correlationID orchestrationType definitionID activities data =
     (if definitionID = [] then
        Some (Inl (NewValidationError ''definitionID'' ''cannot be empty''))
      else
        (case add_edges activities (add_vertices activities NewGraph) of
           Inl err \<Rightarrow> Some (Inl err)
         | Inr g \<Rightarrow>
             (case ParallelTopologicalSort ord g of
                None \<Rightarrow> None
              | Some r \<Rightarrow>
                  if HasCycle r then
                    Some (Inl (ErrorString (''cycle detected in orchestration definition: ['' @
                      join '' '' (CyclePath r) @ '']'')))
                  else
                    Some (Inr \<lparr>o_ID = oid, o_CorrelationID = correlationID,
                      o_DefinitionID = definitionID, o_State = OrchestrationStateInitialized,
                      o_StateTimestamp = now, o_CreatedTimestamp = now,
                      o_OrchestrationType = orchestrationType,
                      o_Steps = map (step_of_level g) (rev (ParallelLevels r)),
                      o_ProcessingData = copy_into data [], o_OutputData = [], o_Completed = [],
                      o_EngineState = empty_engine_state, o_OriginTraceContext = [],
                      o_CompensatedOrchestrationID = []\<rparr>))))"

section \<open>Engine bookkeeping\<close>

lemma Merge_lookup:
  assumes "wf_map (Attempts from)" "wf_map (Retries from)"
  shows "lookup (Attempts (EngineState_Merge s from)) k =
           (case lookup (Attempts from) k of Some n \<Rightarrow> Some n | None \<Rightarrow> lookup (Attempts s) k)"
    "lookup (Retries (EngineState_Merge s from)) k =
           (case lookup (Retries from) k of Some n \<Rightarrow> Some n | None \<Rightarrow> lookup (Retries s) k)"
  using assms by (simp_all add: EngineState_Merge_def lookup_copy_into)

section \<open>Steps\<close>

text \<open>The steps of an orchestration hold each activity ID once.\<close>

definition step_ids :: "activity list list \<Rightarrow> string list" where
  "step_ids steps = map a_ID (concat steps)"

definition in_step :: "activity list list \<Rightarrow> nat \<Rightarrow> string \<Rightarrow> bool" where
  "in_step steps i aid \<longleftrightarrow> i < length steps \<and> (\<exists>a\<in>set (steps ! i). a_ID a = aid)"

lemma in_step_unique:
  "distinct (step_ids steps) \<Longrightarrow> in_step steps i aid \<Longrightarrow> in_step steps j aid \<Longrightarrow> i = j"
proof (induction steps arbitrary: i j)
  case Nil
  then show ?case by (simp add: in_step_def)
next
  case (Cons s steps)
  have disj: "a_ID ` set s \<inter> a_ID ` set (concat steps) = {}" and d: "distinct (step_ids steps)"
    using Cons.prems(1) by (auto simp: step_ids_def)
  have later: "aid \<in> a_ID ` set (concat steps)" if "in_step (s # steps) (Suc k) aid" for k
  proof -
    from that obtain a where "k < length steps" "a \<in> set (steps ! k)" "a_ID a = aid"
      by (auto simp: in_step_def)
    then show ?thesis by (auto intro!: image_eqI [where x = a] bexI [where x = "steps ! k"])
  qed
  have first: "aid \<in> a_ID ` set s" if "in_step (s # steps) 0 aid"
    using that by (auto simp: in_step_def)
  have both: False if "in_step (s # steps) 0 aid" "in_step (s # steps) (Suc k) aid" for k
    using first [OF that(1)] later [OF that(2)] disj by blast
  show ?case
  proof (cases i)
    case 0
    show ?thesis
    proof (cases j)
      case (Suc j')
      with Cons.prems 0 both [of j'] show ?thesis by simp
    qed (simp add: 0)
  next
    case i: (Suc i')
    show ?thesis
    proof (cases j)
      case 0
      with Cons.prems i both [of i'] show ?thesis by simp
    next
      case (Suc j')
      have "in_step steps i' aid" "in_step steps j' aid"
        using Cons.prems i Suc by (auto simp: in_step_def)
      from Cons.IH [OF d this] show ?thesis by (simp add: i Suc)
    qed
  qed
qed

lemma GetStepForActivity_in_step:
  assumes "distinct (step_ids steps)" "in_step steps i aid"
  shows "GetStepForActivity steps aid = Inr (steps ! i)"
    "GetNextStepActivities steps aid = (if Suc i < length steps then steps ! Suc i else [])"
proof -
  have "GetStepForActivity steps aid = Inr (steps ! i) \<and>
    GetNextStepActivities steps aid = (if Suc i < length steps then steps ! Suc i else [])"
    using assms
  proof (induction steps arbitrary: i)
    case Nil
    then show ?case by (simp add: in_step_def)
  next
    case (Cons s steps)
    show ?case
    proof (cases i)
      case 0
      with Cons.prems show ?thesis by (auto simp: in_step_def split: list.splits)
    next
      case (Suc i')
      have "\<not> in_step (s # steps) 0 aid"
        using in_step_unique [OF Cons.prems(1)] Cons.prems(2) Suc by blast
      moreover have "distinct (step_ids steps)" "in_step steps i' aid"
        using Cons.prems Suc by (auto simp: step_ids_def in_step_def)
      ultimately show ?thesis using Cons.IH [of i'] Suc by (auto simp: in_step_def)
    qed
  qed
  then show "GetStepForActivity steps aid = Inr (steps ! i)"
    "GetNextStepActivities steps aid = (if Suc i < length steps then steps ! Suc i else [])"
    by blast+
qed

lemma GetStepForActivity_absent:
  "(\<nexists>i. in_step steps i aid) \<Longrightarrow> \<not> is_ok (GetStepForActivity steps aid)"
proof (induction steps)
  case Nil
  then show ?case by simp
next
  case (Cons s steps)
  have "\<not> in_step (s # steps) 0 aid" using Cons.prems by blast
  moreover have "\<nexists>i. in_step steps i aid"
    using Cons.prems by (metis in_step_def length_Cons nth_Cons_Suc not_less_eq)
  ultimately show ?case using Cons.IH by (auto simp: in_step_def)
qed

text \<open>
  In an orchestration whose steps hold each activity ID once: the engine may go on from
  an activity exactly when all other activities of its step are completed; what comes next
  is the following step (nothing after the last one); and an activity of no step is an error.
\<close>

theorem step_progress:
  assumes "distinct (step_ids (o_Steps orch))"
  shows "(\<forall>i. in_step (o_Steps orch) i aid \<longrightarrow>
           CanProceedToNextStep orch aid =
             Inr (\<forall>a\<in>set (o_Steps orch ! i) - {a. a_ID a = aid}. has_key (o_Completed orch) (a_ID a)) \<and>
           GetNextStepActivities (o_Steps orch) aid =
             (if Suc i < length (o_Steps orch) then o_Steps orch ! Suc i else [])) \<and>
         ((\<nexists>i. in_step (o_Steps orch) i aid) \<longrightarrow> \<not> is_ok (CanProceedToNextStep orch aid))"
proof (intro conjI allI impI)
  fix i assume i: "in_step (o_Steps orch) i aid"
  show "CanProceedToNextStep orch aid =
      Inr (\<forall>a\<in>set (o_Steps orch ! i) - {a. a_ID a = aid}. has_key (o_Completed orch) (a_ID a))"
    using GetStepForActivity_in_step(1) [OF assms i] by (auto simp: CanProceedToNextStep_def)
  show "GetNextStepActivities (o_Steps orch) aid =
      (if Suc i < length (o_Steps orch) then o_Steps orch ! Suc i else [])"
    by (rule GetStepForActivity_in_step(2) [OF assms i])
next
  assume "\<nexists>i. in_step (o_Steps orch) i aid"
  then show "\<not> is_ok (CanProceedToNextStep orch aid)"
    using GetStepForActivity_absent [of "o_Steps orch" aid]
    by (auto simp: CanProceedToNextStep_def is_ok_def split: sum.splits)
qed

text \<open>Two activities that may run in parallel, then one that needs both.\<close>

definition two_step_orchestration :: orchestration where
  "two_step_orchestration =
     \<lparr>o_ID = ''o1'', o_CorrelationID = ''c1'', o_DefinitionID = ''d1'',
      o_State = OrchestrationStateRunning, o_StateTimestamp = 5, o_CreatedTimestamp = 5,
      o_OrchestrationType = VPADeployType,
      o_Steps = [[\<lparr>a_ID = ''a'', a_Type = ''t'', a_Discriminator = [], a_DependsOn = []\<rparr>,
                  \<lparr>a_ID = ''b'', a_Type = ''t'', a_Discriminator = [], a_DependsOn = []\<rparr>],
                 [\<lparr>a_ID = ''c'', a_Type = ''t'', a_Discriminator = [], a_DependsOn = [''a'', ''b'']\<rparr>]],
      o_ProcessingData = [], o_OutputData = [], o_Completed = [(''a'', ())],
      o_EngineState = empty_engine_state, o_OriginTraceContext = [],
      o_CompensatedOrchestrationID = []\<rparr>"

theorem step_progress_witness:
  "CanProceedToNextStep two_step_orchestration ''b'' = Inr True \<and>
   CanProceedToNextStep two_step_orchestration ''a'' = Inr False \<and>
   map a_ID (GetNextStepActivities (o_Steps two_step_orchestration) ''b'') = [''c''] \<and>
   \<not> is_ok (CanProceedToNextStep two_step_orchestration ''x'')"
proof -
  have d: "distinct (step_ids (o_Steps two_step_orchestration))"
    by (simp add: two_step_orchestration_def step_ids_def)
  have a: "in_step (o_Steps two_step_orchestration) 0 ''a''"
    and b: "in_step (o_Steps two_step_orchestration) 0 ''b''"
    by (simp_all add: two_step_orchestration_def in_step_def)
  have x: "\<nexists>i. in_step (o_Steps two_step_orchestration) i ''x''"
    by (simp add: two_step_orchestration_def in_step_def nth_Cons split: nat.splits)
  show ?thesis
    using step_progress [OF d, THEN conjunct1, rule_format, OF a]
      step_progress [OF d, THEN conjunct1, rule_format, OF b]
      step_progress [OF d, THEN conjunct2, rule_format, OF x]
    by (auto simp add: two_step_orchestration_def has_key_def)
qed

section \<open>The activity graph\<close>

definition dep_rel :: "activity list \<Rightarrow> (string \<times> string) set" where
  "dep_rel activities = {(aid, d). \<exists>a\<in>set activities. a_ID a = aid \<and> d \<in> set (a_DependsOn a)}"

definition deps_known :: "activity list \<Rightarrow> bool" where
  "deps_known activities \<longleftrightarrow> (\<forall>(aid, d)\<in>dep_rel activities. d \<in> a_ID ` set activities)"

lemma add_vertices_simps:
  "add_vertices [] g = g"
  "add_vertices (a # as) g = add_vertices as (AddVertex (a_ID a) a g)"
  by (simp_all add: add_vertices_def)

lemma add_vertices_facts:
  "wf_graph g \<Longrightarrow> wf_graph (add_vertices as g)"
  "set (vids (add_vertices as g)) = set (vids g) \<union> a_ID ` set as"
  "edges_of (add_vertices as g) k = edges_of g k"
  "GetValue (add_vertices as g) k =
     (case GetValue g k of Some v \<Rightarrow> Some v | None \<Rightarrow> find (\<lambda>a. a_ID a = k) as)"
proof (induction as arbitrary: g)
  case Nil
  { case 1 then show ?case by (simp add: add_vertices_simps) }
  { case 2 then show ?case by (simp add: add_vertices_simps) }
  { case 3 then show ?case by (simp add: add_vertices_simps) }
  { case 4 then show ?case by (simp add: add_vertices_simps split: option.splits) }
next
  case (Cons a as)
  { case 1 then show ?case using Cons.IH(1) by (simp add: add_vertices_simps wf_AddVertex) }
  { case 2 then show ?case using Cons.IH(2) vids_AddVertex [of "a_ID a" a g]
      by (simp add: add_vertices_simps) }
  { case 3 then show ?case using Cons.IH(3) by (simp add: add_vertices_simps) }
  { case 4 then show ?case using Cons.IH(4)
      by (auto simp: add_vertices_simps GetValue_AddVertex split: option.splits) }
qed

text \<open>What the loops over the dependencies do to the graph.\<close>

definition with_edges :: "activity graph \<Rightarrow> (string \<times> string) set \<Rightarrow> activity graph \<Rightarrow> bool" where
  "with_edges g E g' \<longleftrightarrow> wf_graph g' \<and> vids g' = vids g \<and> edge_rel g' = edge_rel g \<union> E \<and>
     (\<forall>k. GetValue g' k = GetValue g k)"

lemma with_edges_trans:
  "with_edges g E g' \<Longrightarrow> with_edges g' F g'' \<Longrightarrow> with_edges g (E \<union> F) g''"
  unfolding with_edges_def by (metis sup_assoc)

lemma with_edges_AddEdge:
  assumes "wf_graph g" "u \<in> set (vids g)" "v \<in> set (vids g)"
  shows "with_edges g {(u, v)} (AddEdge u v g)"
proof -
  have "edge_rel (AddEdge u v g) = edge_rel g \<union> {(u, v)}"
    unfolding edge_rel_def edges_of_AddEdge using assms(2,3) by (auto split: if_splits)
  then show ?thesis using assms(1) by (simp add: with_edges_def wf_AddEdge)
qed

lemma add_dependencies_cases:
  "wf_graph g \<Longrightarrow> aid \<in> set (vids g) \<Longrightarrow>
     (\<exists>g'. add_dependencies aid ds g = Inr g' \<and> set ds \<subseteq> set (vids g) \<and>
        with_edges g ({aid} \<times> set ds) g') \<or>
     (\<exists>d. add_dependencies aid ds g = Inl (ErrorString (''dependency not found: '' @ d)) \<and>
        d \<in> set ds \<and> d \<notin> set (vids g))"
proof (induction ds arbitrary: g)
  case Nil
  then show ?case by (simp add: with_edges_def)
next
  case (Cons d ds)
  show ?case
  proof (cases "d \<in> set (vids g)")
    case False
    then show ?thesis by (auto simp: has_key_iff)
  next
    case True
    let ?g = "AddEdge aid d g"
    have w: "with_edges g {(aid, d)} ?g" by (rule with_edges_AddEdge [OF Cons.prems True])
    then have "wf_graph ?g" "vids ?g = vids g" by (simp_all add: with_edges_def)
    with Cons.IH [of ?g] Cons.prems(2)
    consider g' where "add_dependencies aid ds ?g = Inr g'" "set ds \<subseteq> set (vids g)"
        "with_edges ?g ({aid} \<times> set ds) g'"
      | d' where "add_dependencies aid ds ?g = Inl (ErrorString (''dependency not found: '' @ d'))"
        "d' \<in> set ds" "d' \<notin> set (vids g)" by fastforce
    then show ?thesis
    proof cases
      case 1
      have "{aid} \<times> set (d # ds) = {(aid, d)} \<union> {aid} \<times> set ds" by auto
      with with_edges_trans [OF w 1(3)] 1 True show ?thesis by (auto simp: has_key_iff)
    next
      case 2
      with True show ?thesis by (auto simp: has_key_iff)
    qed
  qed
qed

lemma dep_rel_Cons: "dep_rel (a # as) = ({a_ID a} \<times> set (a_DependsOn a)) \<union> dep_rel as"
  by (auto simp: dep_rel_def)

lemma dep_rel_Nil: "dep_rel [] = {}"
  by (simp add: dep_rel_def)

lemma add_edges_cases:
  "wf_graph g \<Longrightarrow> a_ID ` set as \<subseteq> set (vids g) \<Longrightarrow>
     (\<exists>g'. add_edges as g = Inr g' \<and> snd ` dep_rel as \<subseteq> set (vids g) \<and>
        with_edges g (dep_rel as) g') \<or>
     (\<exists>d. add_edges as g = Inl (ErrorString (''dependency not found: '' @ d)) \<and>
        d \<in> snd ` dep_rel as \<and> d \<notin> set (vids g))"
proof (induction as arbitrary: g)
  case Nil
  then show ?case by (simp add: with_edges_def dep_rel_Nil)
next
  case (Cons a as)
  then have "a_ID a \<in> set (vids g)" by simp
  from add_dependencies_cases [OF Cons.prems(1) this, of "a_DependsOn a"]
  consider g' where "add_dependencies (a_ID a) (a_DependsOn a) g = Inr g'"
      "set (a_DependsOn a) \<subseteq> set (vids g)" "with_edges g ({a_ID a} \<times> set (a_DependsOn a)) g'"
    | d where "add_dependencies (a_ID a) (a_DependsOn a) g =
        Inl (ErrorString (''dependency not found: '' @ d))"
      "d \<in> set (a_DependsOn a)" "d \<notin> set (vids g)" by blast
  then show ?case
  proof cases
    case 2
    then have "d \<in> snd ` dep_rel (a # as)" by (force simp: dep_rel_Cons)
    with 2 show ?thesis by auto
  next
    case 1
    then have g': "wf_graph g'" "vids g' = vids g" by (simp_all add: with_edges_def)
    have sub: "a_ID ` set as \<subseteq> set (vids g')" using Cons.prems(2) g'(2) by simp
    from Cons.IH [OF g'(1) sub] show ?thesis
    proof (elim disjE exE conjE)
      fix g2 assume g2: "add_edges as g' = Inr g2" "snd ` dep_rel as \<subseteq> set (vids g')"
        "with_edges g' (dep_rel as) g2"
      have "with_edges g (dep_rel (a # as)) g2"
        unfolding dep_rel_Cons by (rule with_edges_trans [OF 1(3) g2(3)])
      moreover have "snd ` dep_rel (a # as) \<subseteq> set (vids g)"
        using g2(2) g'(2) 1(2) unfolding dep_rel_Cons by auto
      ultimately show ?thesis using 1(1) g2(1) by simp
    next
      fix d assume d: "add_edges as g' = Inl (ErrorString (''dependency not found: '' @ d))"
        "d \<in> snd ` dep_rel as" "d \<notin> set (vids g')"
      then have "d \<in> snd ` dep_rel (a # as)" unfolding dep_rel_Cons by auto
      with d 1(1) g'(2) show ?thesis by auto
    qed
  qed
qed

text \<open>The graph of a definition's activities: what the sort is run on.\<close>

lemma activity_graph_cases:
  obtains g where "add_edges as (add_vertices as NewGraph) = Inr g" "deps_known as" "wf_graph g"
      "set (vids g) = a_ID ` set as" "edge_rel g = dep_rel as"
      "\<And>k. GetValue g k = find (\<lambda>a. a_ID a = k) as"
  | d where "add_edges as (add_vertices as NewGraph) =
        Inl (ErrorString (''dependency not found: '' @ d))"
      "d \<in> snd ` dep_rel as" "d \<notin> a_ID ` set as" "\<not> deps_known as"
proof -
  let ?g = "add_vertices as NewGraph"
  have wf: "wf_graph ?g" by (simp add: add_vertices_facts(1) wf_NewGraph)
  have v: "set (vids ?g) = a_ID ` set as" using add_vertices_facts(2) [of as NewGraph]
    by (simp add: NewGraph_def)
  have e: "edge_rel ?g = {}"
    by (auto simp: edge_rel_def add_vertices_facts(3)) (simp add: edges_of_def NewGraph_def)
  have val: "GetValue ?g k = find (\<lambda>a. a_ID a = k) as" for k
    by (simp add: add_vertices_facts(4)) (simp add: GetValue_def NewGraph_def)
  have "a_ID ` set as \<subseteq> set (vids ?g)" using v by simp
  from add_edges_cases [OF wf this] show thesis
  proof (elim disjE exE conjE)
    fix g assume g: "add_edges as ?g = Inr g" "snd ` dep_rel as \<subseteq> set (vids ?g)"
      "with_edges ?g (dep_rel as) g"
    then have known: "deps_known as" using v by (force simp: deps_known_def)
    from g(3) e v val show thesis by (intro that(1) [OF g(1) known]) (auto simp: with_edges_def)
  next
    fix d assume d: "add_edges as ?g = Inl (ErrorString (''dependency not found: '' @ d))"
      "d \<in> snd ` dep_rel as" "d \<notin> set (vids ?g)"
    from d(2) obtain a where "(a, d) \<in> dep_rel as" by auto
    then have "\<not> deps_known as" using d(3) v by (force simp: deps_known_def)
    then show thesis using d v by (intro that(2) [OF d(1,2)]) auto
  qed
qed

section \<open>Instantiation\<close>

lemma map_filter_total: "\<forall>x\<in>set xs. f x = Some (h x) \<Longrightarrow> List.map_filter f xs = map h xs"
  by (induction xs) (auto simp: List.map_filter_simps)

lemma mset_concat_rev: "mset (concat (rev xss)) = mset (concat xss)"
  by (induction xss) simp_all

lemma find_SomeD: "find P xs = Some x \<Longrightarrow> P x \<and> x \<in> set xs"
  by (induction xs) (auto split: if_splits)

lemma find_first_ID: "k \<in> a_ID ` set as \<Longrightarrow> \<exists>a. find (\<lambda>a. a_ID a = k) as = Some a \<and> a_ID a = k"
  by (induction as) auto

lemma step_of_level_facts:
  assumes val: "\<And>k. GetValue g k = find (\<lambda>a. a_ID a = k) as"
    and sub: "set (LevelVertices l) \<subseteq> a_ID ` set as"
  shows "map a_ID (step_of_level g l) = LevelVertices l"
    "a \<in> set (step_of_level g l) \<Longrightarrow> find (\<lambda>x. a_ID x = a_ID a) as = Some a"
proof -
  let ?h = "\<lambda>k. the (find (\<lambda>a. a_ID a = k) as)"
  have h: "find (\<lambda>a. a_ID a = k) as = Some (?h k) \<and> a_ID (?h k) = k"
    if "k \<in> set (LevelVertices l)" for k
  proof -
    from sub that have "k \<in> a_ID ` set as" by blast
    from find_first_ID [OF this] show ?thesis by auto
  qed
  have s: "step_of_level g l = map ?h (LevelVertices l)"
    unfolding step_of_level_def by (rule map_filter_total) (use h val in auto)
  show "map a_ID (step_of_level g l) = LevelVertices l"
    unfolding s map_map by (rule map_idI) (use h in simp)
  show "find (\<lambda>x. a_ID x = a_ID a) as = Some a" if "a \<in> set (step_of_level g l)"
    using that h unfolding s by auto
qed

lemma steps_of_levels:
  assumes val: "\<And>k. GetValue g k = find (\<lambda>a. a_ID a = k) as"
    and sub: "\<forall>l\<in>set ls. set (LevelVertices l) \<subseteq> a_ID ` set as"
  shows "step_ids (map (step_of_level g) (rev ls)) = concat (map LevelVertices (rev ls))"
    "in_step (map (step_of_level g) (rev ls)) i k \<longleftrightarrow>
       i < length ls \<and> k \<in> set (LevelVertices (ls ! (length ls - Suc i)))"
    "a \<in> set (concat (map (step_of_level g) (rev ls))) \<Longrightarrow>
       find (\<lambda>x. a_ID x = a_ID a) as = Some a"
proof -
  have f: "map a_ID (step_of_level g l) = LevelVertices l" if "l \<in> set ls" for l
    by (rule step_of_level_facts(1) [OF val]) (use sub that in auto)
  show "step_ids (map (step_of_level g) (rev ls)) = concat (map LevelVertices (rev ls))"
    unfolding step_ids_def map_concat map_map
    by (rule arg_cong [where f = concat]) (simp add: f)
  show "in_step (map (step_of_level g) (rev ls)) i k \<longleftrightarrow>
       i < length ls \<and> k \<in> set (LevelVertices (ls ! (length ls - Suc i)))"
  proof (cases "i < length ls")
    case True
    then have "map a_ID (step_of_level g (ls ! (length ls - Suc i))) =
        LevelVertices (ls ! (length ls - Suc i))" using f by simp
    then have "a_ID ` set (step_of_level g (ls ! (length ls - Suc i))) =
        set (LevelVertices (ls ! (length ls - Suc i)))" by (metis set_map)
    moreover have "(\<exists>a\<in>S. a_ID a = k) \<longleftrightarrow> k \<in> a_ID ` S" for S :: "activity set" by blast
    ultimately show ?thesis using True by (simp add: in_step_def rev_nth)
  qed (simp add: in_step_def)
  show "find (\<lambda>x. a_ID x = a_ID a) as = Some a"
    if "a \<in> set (concat (map (step_of_level g) (rev ls)))"
  proof -
    from that obtain l where "l \<in> set ls" "a \<in> set (step_of_level g l)" by auto
    with sub show ?thesis by (intro step_of_level_facts(2) [OF val]) auto
  qed
qed

text \<open>What the steps of an instantiated orchestration promise.\<close>

definition steps_ok :: "activity list \<Rightarrow> activity list list \<Rightarrow> bool" where
  "steps_ok as steps \<longleftrightarrow>
     distinct (step_ids steps) \<and> set (step_ids steps) = a_ID ` set as \<and> [] \<notin> set steps \<and>
     (\<forall>a\<in>set (concat steps). find (\<lambda>x. a_ID x = a_ID a) as = Some a) \<and>
     (\<forall>i j aid d. in_step steps i aid \<longrightarrow> in_step steps j d \<longrightarrow> (aid, d) \<in> dep_rel as \<longrightarrow> j < i) \<and>
     (\<forall>i d. Suc i < length steps \<longrightarrow> in_step steps i d \<longrightarrow>
        (\<exists>aid. in_step steps (Suc i) aid \<and> (aid, d) \<in> dep_rel as))"

lemma steps_ok_of_levels:
  assumes val: "\<And>k. GetValue g k = find (\<lambda>a. a_ID a = k) as"
    and v: "set (vids g) = a_ID ` set as" and e: "edge_rel g = dep_rel as"
    and ok: "levels_ok g (set (vids g)) 0 ls"
  shows "steps_ok as (map (step_of_level g) (rev ls))"
proof -
  note c = levels_ok_concat [OF ok, unfolded v]
  have "\<forall>l\<in>set ls. set (LevelVertices l) \<subseteq> a_ID ` set as" using c by auto
  note s = steps_of_levels [OF val this]
  let ?steps = "map (step_of_level g) (rev ls)"
  have rc: "concat (map LevelVertices (rev ls)) = concat (rev (map LevelVertices ls))"
    by (simp add: rev_map)
  have "mset (step_ids ?steps) = mset (concat (map LevelVertices ls))"
    unfolding s(1) rc by (rule mset_concat_rev)
  then have 1: "distinct (step_ids ?steps)" "set (step_ids ?steps) = a_ID ` set as"
    using c by (metis mset_eq_imp_distinct_iff, metis set_mset_mset)
  have 2: "j < i" if "in_step ?steps i aid" "in_step ?steps j d" "(aid, d) \<in> dep_rel as" for i j aid d
  proof -
    from that(1,2) have "i < length ls" "j < length ls" by (simp_all add: s(2))
    moreover have "length ls - Suc i < length ls - Suc j"
      by (rule levels_ok_edges [OF ok]) (use that in \<open>auto simp: s(2) e\<close>)
    ultimately show ?thesis by simp
  qed
  have 3: "\<exists>aid. in_step ?steps (Suc i) aid \<and> (aid, d) \<in> dep_rel as"
    if "Suc i < length ls" "in_step ?steps i d" for i d
  proof -
    have k: "length ls - Suc i = Suc (length ls - Suc (Suc i))" using that(1) by simp
    from that(2) have "d \<in> set (LevelVertices (ls ! Suc (length ls - Suc (Suc i))))"
      unfolding s(2) k by blast
    moreover have "Suc (length ls - Suc (Suc i)) < length ls" using that(1) by simp
    ultimately have "\<exists>u\<in>set (LevelVertices (ls ! (length ls - Suc (Suc i)))). (u, d) \<in> edge_rel g"
      by (intro levels_ok_earliest [OF ok])
    with that(1) e show ?thesis by (auto simp: s(2))
  qed
  have "map a_ID (step_of_level g l) = LevelVertices l" "LevelVertices l \<noteq> []" if "l \<in> set ls" for l
  proof -
    from that c show "map a_ID (step_of_level g l) = LevelVertices l"
      by (intro step_of_level_facts(1) [OF val]) auto
    from that levels_ok_nth [OF ok] show "LevelVertices l \<noteq> []" by (metis in_set_conv_nth)
  qed
  then have 4: "[] \<notin> set ?steps" by fastforce
  show ?thesis unfolding steps_ok_def using 1 s(3) 2 3 4 by auto
qed

lemma InstantiateOrchestration_cases:
  assumes "fair_range ord"
  obtains "InstantiateOrchestration ord now oid cid ty did as data =
        Some (Inl (NewValidationError ''definitionID'' ''cannot be empty''))" "did = []"
  | d where "InstantiateOrchestration ord now oid cid ty did as data =
        Some (Inl (ErrorString (''dependency not found: '' @ d)))" "did \<noteq> []"
      "d \<in> snd ` dep_rel as - a_ID ` set as"
  | err where "InstantiateOrchestration ord now oid cid ty did as data = Some (Inl err)" "did \<noteq> []"
      "deps_known as" "\<not> acyclic (dep_rel as)"
  | orch where "InstantiateOrchestration ord now oid cid ty did as data = Some (Inr orch)" "did \<noteq> []"
      "deps_known as" "acyclic (dep_rel as)" "steps_ok as (o_Steps orch)" "o_ID orch = oid"
      "o_CorrelationID orch = cid" "o_DefinitionID orch = did" "o_OrchestrationType orch = ty"
      "o_State orch = OrchestrationStateInitialized" "o_Completed orch = []" "o_OutputData orch = []"
      "o_ProcessingData orch = copy_into data []"
proof (cases "did = []")
  case True
  then show thesis by (intro that(1)) (simp_all add: InstantiateOrchestration_def)
next
  case did: False
  show thesis
  proof (rule activity_graph_cases [of as])
    fix d assume "add_edges as (add_vertices as NewGraph) =
        Inl (ErrorString (''dependency not found: '' @ d))"
      "d \<in> snd ` dep_rel as" "d \<notin> a_ID ` set as"
    then show thesis using did by (intro that(2)) (simp_all add: InstantiateOrchestration_def)
  next
    fix g assume g: "add_edges as (add_vertices as NewGraph) = Inr g" "deps_known as"
      and wf: "wf_graph g" and v: "set (vids g) = a_ID ` set as" and e: "edge_rel g = dep_rel as"
      and val: "\<And>k. GetValue g k = find (\<lambda>a. a_ID a = k) as"
    have cyc: "has_cycle g \<longleftrightarrow> \<not> acyclic (dep_rel as)" by (simp add: has_cycle_def e)
    show thesis
    proof (rule ParallelTopologicalSort_cases [OF wf assms])
      fix r assume "ParallelTopologicalSort ord g = Some r" "HasCycle r" "has_cycle g"
      then obtain err where "InstantiateOrchestration ord now oid cid ty did as data = Some (Inl err)"
        "\<not> acyclic (dep_rel as)"
        using did g cyc by (simp add: InstantiateOrchestration_def)
      then show thesis by (intro that(3) [OF _ did g(2)])
    next
      fix r assume r: "ParallelTopologicalSort ord g = Some r" "\<not> HasCycle r" "\<not> has_cycle g"
        and ok: "levels_ok g (set (vids g)) 0 (ParallelLevels r)"
      obtain orch where "InstantiateOrchestration ord now oid cid ty did as data = Some (Inr orch)"
        "acyclic (dep_rel as)" "steps_ok as (o_Steps orch)" "o_ID orch = oid"
        "o_CorrelationID orch = cid" "o_DefinitionID orch = did" "o_OrchestrationType orch = ty"
        "o_State orch = OrchestrationStateInitialized" "o_Completed orch = []" "o_OutputData orch = []"
        "o_ProcessingData orch = copy_into data []"
        using did g cyc r steps_ok_of_levels [OF val v e ok]
        by (simp add: InstantiateOrchestration_def)
      then show thesis by (intro that(4) [OF _ did g(2)])
    qed
  qed
qed

text \<open>
  C10. Instantiating a definition always returns. It fails with the first of: an empty
  definition ID, a dependency that no activity has as its ID, a cycle in the dependencies;
  and in no other case. Otherwise the orchestration is initialized with nothing completed, and
  its steps are not empty and hold each activity ID exactly once, each time with the first
  activity that has it; what an activity depends on is in a strictly earlier step; and no activity waits to
  start later than needed by the step after it: something in the next step depends on it.
\<close>

theorem InstantiateOrchestration_correct:
  assumes "fair_range ord"
  shows "(case InstantiateOrchestration ord now oid cid ty did as data of
            None \<Rightarrow> False
          | Some (Inl err) \<Rightarrow>
              did = [] \<and> err = NewValidationError ''definitionID'' ''cannot be empty'' \<or>
              did \<noteq> [] \<and> (\<exists>d\<in>snd ` dep_rel as - a_ID ` set as.
                 err = ErrorString (''dependency not found: '' @ d)) \<or>
              did \<noteq> [] \<and> deps_known as \<and> \<not> acyclic (dep_rel as)
          | Some (Inr orch) \<Rightarrow>
              did \<noteq> [] \<and> deps_known as \<and> acyclic (dep_rel as) \<and> steps_ok as (o_Steps orch) \<and>
              o_ID orch = oid \<and> o_CorrelationID orch = cid \<and> o_DefinitionID orch = did \<and>
              o_OrchestrationType orch = ty \<and> o_State orch = OrchestrationStateInitialized \<and>
              o_Completed orch = [] \<and> o_OutputData orch = [] \<and>
              (wf_map data \<longrightarrow> lookup (o_ProcessingData orch) = lookup data))"
proof -
  have "wf_map data \<longrightarrow> lookup (copy_into data []) = lookup data"
    by (auto simp: fun_eq_iff lookup_copy_into split: option.splits)
  then show ?thesis
    by (rule_tac InstantiateOrchestration_cases [OF assms, of now oid cid ty did as data]) auto
qed

definition two_step_activities :: "activity list" where
  "two_step_activities =
     [\<lparr>a_ID = ''c'', a_Type = ''t'', a_Discriminator = [], a_DependsOn = [''b'', ''a'']\<rparr>,
      \<lparr>a_ID = ''a'', a_Type = ''t'', a_Discriminator = [], a_DependsOn = []\<rparr>,
      \<lparr>a_ID = ''b'', a_Type = ''t'', a_Discriminator = [], a_DependsOn = []\<rparr>]"

lemma two_step_instantiated:
  "(case InstantiateOrchestration (\<lambda>n ks. rev ks) 5 ''o1'' ''c1'' VPADeployType ''d1''
       two_step_activities [] of
     Some (Inr orch) \<Rightarrow> map (map a_ID) (o_Steps orch) = [[''a'', ''b''], [''c'']] | _ \<Rightarrow> False)"
  by code_simp

theorem InstantiateOrchestration_witness:
  "\<exists>orch. InstantiateOrchestration (\<lambda>n ks. rev ks) 5 ''o1'' ''c1'' VPADeployType ''d1''
       two_step_activities [] = Some (Inr orch) \<and>
     map (map a_ID) (o_Steps orch) = [[''a'', ''b''], [''c'']] \<and>
     steps_ok two_step_activities (o_Steps orch)"
  using InstantiateOrchestration_correct [OF fair_range_rev, where now = 5 and oid = "''o1''" and
      cid = "''c1''" and ty = VPADeployType and did = "''d1''" and as = two_step_activities and
      data = "[]"] two_step_instantiated
  by (auto split: option.splits sum.splits)

end
