(* ===== verification/Activity_Context.thy ===== *)
theory Activity_Context
  imports Orchestration_Types
begin

text \<open>
  What an activity sees of its orchestration (\<open>pmanager/api/provision.go\<close>): the values it
  reads and writes, the VPA properties it looks up, and the results it can return. The
  context shares its two maps with the orchestration that the executor holds, so the
  operations are functions on the maps.
\<close>

record activity_context =
  ctx_Activity :: activity
  ctx_OID :: string
  ctx_ProcessingData :: props
  ctx_OutputData :: props

definition NewActivityContext :: "string \<Rightarrow> activity \<Rightarrow> props \<Rightarrow> props \<Rightarrow> activity_context" where
  "NewActivityContext oID a processingData outputData =
     \<lparr>ctx_Activity = a, ctx_OID = oID, ctx_ProcessingData = processingData, ctx_OutputData = outputData\<rparr>"

definition SetValue :: "string \<Rightarrow> json \<Rightarrow> activity_context \<Rightarrow> activity_context" where
  "SetValue k v d = d\<lparr>ctx_ProcessingData := put k v (ctx_ProcessingData d)\<rparr>"

definition Value :: "activity_context \<Rightarrow> string \<Rightarrow> json option" where
  "Value d k = lookup (ctx_ProcessingData d) k"

definition ctx_Delete :: "string \<Rightarrow> activity_context \<Rightarrow> activity_context" where
  "ctx_Delete k d = d\<lparr>ctx_ProcessingData := del k (ctx_ProcessingData d)\<rparr>"

definition SetOutputValue :: "string \<Rightarrow> json \<Rightarrow> activity_context \<Rightarrow> activity_context" where
  "SetOutputValue k v d = d\<lparr>ctx_OutputData := put k v (ctx_OutputData d)\<rparr>"

text \<open>The loop of \<open>VpaProperties\<close> over the VPA entries: what is not an object is skipped,
  the first entry of the type decides.\<close>

fun find_vpa :: "string \<Rightarrow> json list \<Rightarrow> props option" where
  "find_vpa vpaType [] = None"
| "find_vpa vpaType (item # items) =
     (case json_as_object item of
        None \<Rightarrow> find_vpa vpaType items
      | Some vpaEntry \<Rightarrow>
          if lookup vpaEntry ''vpaType'' = Some (JStr vpaType) then
            (case lookup vpaEntry ''properties'' of
               Some (JObj properties) \<Rightarrow> Some properties
             | _ \<Rightarrow> Some [])
          else find_vpa vpaType items)"

definition VpaProperties :: "activity_context \<Rightarrow> string \<Rightarrow> go_error + props option" where
  "VpaProperties d vpaType =
     (case lookup (ctx_ProcessingData d) VPAData of
        None \<Rightarrow> Inr None
      | Some JNull \<Rightarrow> Inr None
      | Some (JArr vpaList) \<Rightarrow> Inr (find_vpa vpaType vpaList)
      | Some _ \<Rightarrow> Inl (ErrorString ''vpa data is not a slice''))"

section \<open>Results\<close>

definition ActivityResultWait :: int where "ActivityResultWait = 0"
definition ActivityResultComplete :: int where "ActivityResultComplete = 1"
definition ActivityResultSchedule :: int where "ActivityResultSchedule = 2"
definition ActivityResultRetryError :: int where "ActivityResultRetryError = -1"
definition ActivityResultFatalError :: int where "ActivityResultFatalError = -2"

lemmas activity_result_defs = ActivityResultWait_def ActivityResultComplete_def
  ActivityResultSchedule_def ActivityResultRetryError_def ActivityResultFatalError_def

record activity_result =
  ar_Result :: int
  ar_WaitOnReschedule :: int
  ar_Error :: "go_error option"

definition DeployDiscriminator :: string where "DeployDiscriminator = VPADeployType"
definition DisposeDiscriminator :: string where "DisposeDiscriminator = VPADisposeType"

definition BaseActivityProcessor_Process :: "activity_context \<Rightarrow> activity_result" where
  "BaseActivityProcessor_Process d =
     \<lparr>ar_Result = ActivityResultFatalError, ar_WaitOnReschedule = 0,
      ar_Error = Some (ErrorString (''the '' @ [CHR 0x27] @ a_Discriminator (ctx_Activity d) @
        [CHR 0x27] @ '' discriminator is not supported''))\<rparr>"

section \<open>Behaviour\<close>

lemma context_values [simp]:
  "Value (SetValue k v d) k' = (if k' = k then Some v else Value d k')"
  "Value (ctx_Delete k d) k' = (if k' = k then None else Value d k')"
  "Value (SetOutputValue k v d) k' = Value d k'"
  by (simp_all add: Value_def SetValue_def ctx_Delete_def SetOutputValue_def lookup_put lookup_del)

lemma find_vpa_first:
  "find_vpa t items =
     map_option (\<lambda>m. case lookup m ''properties'' of Some (JObj p) \<Rightarrow> p | _ \<Rightarrow> [])
       (find (\<lambda>m. lookup m ''vpaType'' = Some (JStr t)) (List.map_filter json_as_object items))"
  by (induction items) (auto simp: List.map_filter_simps split: option.splits json.splits)

end
