(* ===== verification/Nats_Subjects.thy ===== *)
theory Nats_Subjects
  imports Go_Errors
begin

text \<open>
  Subjects and streams (\<open>common/natsclient/stream.go\<close>): when one subject filter covers
  another, when two collide, and the merge of an agent's subjects into a stream.

  A subject is split at its dots into tokens. \<open>matches\<close> is the meaning of a filter in
  NATS: \<open>*\<close> stands for one token, \<open>>\<close> for one or more tokens up to the end.
\<close>

definition star :: string where "star = ''*''"
definition rest_wildcard :: string where "rest_wildcard = ''>''"

lemma wildcards_distinct [simp]: "star \<noteq> rest_wildcard" "rest_wildcard \<noteq> star"
  by (simp_all add: star_def rest_wildcard_def)

section \<open>Covering and colliding\<close>

fun tokens_cover :: "string list \<Rightarrow> string list \<Rightarrow> bool" where
  "tokens_cover [] ft \<longleftrightarrow> ft = []"
| "tokens_cover (s # st) ft \<longleftrightarrow>
     (if s = rest_wildcard then ft \<noteq> []
      else (case ft of
              [] \<Rightarrow> False
            | f # ft' \<Rightarrow>
                if s = star then (if f = rest_wildcard then False else tokens_cover st ft')
                else if s \<noteq> f then False
                else tokens_cover st ft'))"

definition subjectCovers :: "string \<Rightarrow> string \<Rightarrow> bool" where
  "subjectCovers super sub \<longleftrightarrow> tokens_cover (split_on (CHR ''.'') super) (split_on (CHR ''.'') sub)"

fun tokens_collide :: "string list \<Rightarrow> string list \<Rightarrow> bool" where
  "tokens_collide [] [] \<longleftrightarrow> True"
| "tokens_collide [] (b # bt) \<longleftrightarrow> False"
| "tokens_collide (a # at) [] \<longleftrightarrow> False"
| "tokens_collide (a # at) (b # bt) \<longleftrightarrow>
     (if a = rest_wildcard \<or> b = rest_wildcard then True
      else if a \<noteq> star \<and> b \<noteq> star \<and> a \<noteq> b then False
      else tokens_collide at bt)"

definition subjectsCollide :: "string \<Rightarrow> string \<Rightarrow> bool" where
  "subjectsCollide a b \<longleftrightarrow> tokens_collide (split_on (CHR ''.'') a) (split_on (CHR ''.'') b)"

definition anySubjectCovers :: "string list \<Rightarrow> string \<Rightarrow> bool" where
  "anySubjectCovers subjects subject \<longleftrightarrow> list_ex (\<lambda>s. subjectCovers s subject) subjects"

section \<open>Merging\<close>

fun keep_disjoint :: "string \<Rightarrow> string list \<Rightarrow> go_error + string list" where
  "keep_disjoint a [] = Inr []"
| "keep_disjoint a (e # es) =
     (if subjectCovers a e then keep_disjoint a es
      else if subjectsCollide a e then
        Inl (ErrorString (''subject '' @ a @ '' partially overlaps existing stream subject '' @ e @
          '' and cannot be merged''))
      else bind_result (keep_disjoint a es) (\<lambda>kept. Inr (e # kept)))"

fun merge_subjects :: "string list \<Rightarrow> string list \<Rightarrow> bool \<Rightarrow> go_error + string list \<times> bool" where
  "merge_subjects [] result changed = Inr (result, changed)"
| "merge_subjects (a # additional) result changed =
     (if anySubjectCovers result a then merge_subjects additional result changed
      else bind_result (keep_disjoint a result)
             (\<lambda>kept. merge_subjects additional (kept @ [a]) True))"

definition mergeStreamSubjects :: "string list \<Rightarrow> string list \<Rightarrow> go_error + string list \<times> bool" where
  "mergeStreamSubjects existing additional = merge_subjects additional existing False"

text \<open>The subject a component listens on for an activity or orchestration type.\<close>

definition CFMSubjectPrefix :: string where "CFMSubjectPrefix = ''event''"
definition CFMOrchestration :: string where "CFMOrchestration = ''cfm-orchestration''"
definition CFMOrchestrationSubject :: string where
  "CFMOrchestrationSubject = CFMSubjectPrefix @ ''.'' @ CFMOrchestration"
definition CFMOrchestrationResponse :: string where
  "CFMOrchestrationResponse = ''cfm-orchestration-response''"
definition CFMOrchestrationResponseSubject :: string where
  "CFMOrchestrationResponseSubject = CFMSubjectPrefix @ ''.'' @ CFMOrchestrationResponse"

definition sanitized_subject :: "string \<Rightarrow> string" where
  "sanitized_subject subject = replace_char (CHR ''.'') (CHR ''-'') subject"

record consumer_config =
  Durable :: string
  FilterSubject :: string
  ConsumerMaxDeliver :: int

definition setupSubjectConsumer :: "string \<Rightarrow> int \<Rightarrow> consumer_config" where
  "setupSubjectConsumer subject maxDeliver =
     \<lparr>Durable = sanitized_subject subject,
      FilterSubject = CFMSubjectPrefix @ ''.'' @ sanitized_subject subject,
      ConsumerMaxDeliver = maxDeliver\<rparr>"

section \<open>The meaning of a filter\<close>

fun matches :: "string list \<Rightarrow> string list \<Rightarrow> bool" where
  "matches [] ts \<longleftrightarrow> ts = []"
| "matches (p # ps) ts \<longleftrightarrow>
     (if p = rest_wildcard then ts \<noteq> []
      else (case ts of [] \<Rightarrow> False | t # ts' \<Rightarrow> (p = star \<or> p = t) \<and> matches ps ts'))"

definition concrete :: "string list \<Rightarrow> bool" where
  "concrete ts \<longleftrightarrow> (\<forall>t\<in>set ts. t \<noteq> star \<and> t \<noteq> rest_wildcard)"

lemma concrete_Cons [simp]: "concrete (t # ts) \<longleftrightarrow> t \<noteq> star \<and> t \<noteq> rest_wildcard \<and> concrete ts"
  by (auto simp: concrete_def)

lemma concrete_Nil [simp]: "concrete []"
  by (simp add: concrete_def)

text \<open>The concrete subjects that a filter stands for.\<close>

definition subject_set :: "string \<Rightarrow> string list set" where
  "subject_set s = {ts. concrete ts \<and> matches (split_on (CHR ''.'') s) ts}"

text \<open>Every filter matches some concrete subject.\<close>

fun instance_of :: "string \<Rightarrow> string list \<Rightarrow> string list" where
  "instance_of x [] = []"
| "instance_of x (p # ps) = (if p = star \<or> p = rest_wildcard then x else p) # instance_of x ps"

lemma instance_of_concrete: "x \<noteq> star \<Longrightarrow> x \<noteq> rest_wildcard \<Longrightarrow> concrete (instance_of x ps)"
  by (induction ps) auto

lemma instance_of_matches: "matches ps (instance_of x ps)"
  by (induction ps) auto

definition tok_a :: string where "tok_a = ''a''"
definition tok_b :: string where "tok_b = ''b''"

lemma fresh_tokens [simp]:
  "tok_a \<noteq> star" "tok_a \<noteq> rest_wildcard" "tok_b \<noteq> star" "tok_b \<noteq> rest_wildcard" "tok_a \<noteq> tok_b"
  by (simp_all add: tok_a_def tok_b_def star_def rest_wildcard_def)

lemma some_instance: "\<exists>ts. concrete ts \<and> matches ps ts"
  using instance_of_concrete [of tok_a ps] instance_of_matches [of ps tok_a] by auto

lemma cover_sound: "tokens_cover st ft \<Longrightarrow> matches ft ts \<Longrightarrow> matches st ts"
proof (induction st ft arbitrary: ts rule: tokens_cover.induct)
  case (1 ft)
  then show ?case by simp
next
  case (2 s st ft)
  show ?case
  proof (cases "s = rest_wildcard")
    case True
    with 2 show ?thesis by (cases ft) (auto split: list.splits if_splits)
  next
    case False
    with "2.prems" obtain f ft' where ft: "ft = f # ft'" by (auto split: list.splits)
    have f: "f \<noteq> rest_wildcard" "s = star \<or> s = f" "tokens_cover st ft'"
      using "2.prems"(1) False ft by (auto split: if_splits)
    with "2.prems"(2) ft obtain t ts' where ts: "ts = t # ts'" "f = star \<or> f = t" "matches ft' ts'"
      by (auto split: list.splits)
    have "matches st ts'"
      using "2.IH" False ft f ts(3) by (cases "s = star") auto
    moreover have "s = star \<or> s = t" using f(2) ts(2) by auto
    ultimately show ?thesis using ts(1) False by simp
  qed
qed

lemma cover_complete: "\<not> tokens_cover st ft \<Longrightarrow> \<exists>ts. concrete ts \<and> matches ft ts \<and> \<not> matches st ts"
proof (induction st ft rule: tokens_cover.induct)
  case (1 ft)
  then obtain f ft' where "ft = f # ft'" by (cases ft) auto
  with instance_of_concrete [of tok_a ft] instance_of_matches [of ft tok_a] show ?case
    by (intro exI [of _ "instance_of tok_a ft"]) auto
next
  case (2 s st ft)
  show ?case
  proof (cases "s = rest_wildcard")
    case True
    with 2 show ?thesis by (auto intro!: exI [of _ "[]"])
  next
    case s: False
    show ?thesis
    proof (cases ft)
      case Nil
      with s show ?thesis by (auto intro!: exI [of _ "[]"])
    next
      case ft: (Cons f ft')
      obtain us where us: "concrete us" "matches ft' us" using some_instance by blast
      consider "s = star" "f = rest_wildcard" | "s \<noteq> star" "f = rest_wildcard"
        | "s \<noteq> star" "s \<noteq> f" "f \<noteq> rest_wildcard"
        | "s = star \<or> s = f" "f \<noteq> rest_wildcard" "\<not> tokens_cover st ft'"
        using "2.prems" s ft by (auto split: if_splits)
      then show ?thesis
      proof cases
        case 1
        show ?thesis
        proof (cases "matches st [tok_a]")
          case True
          then have "\<not> matches st []" by (cases st) (auto split: if_splits)
          with 1 ft show ?thesis by (intro exI [of _ "[tok_a]"]) auto
        next
          case False
          with 1 ft show ?thesis by (intro exI [of _ "[tok_a, tok_a]"]) auto
        qed
      next
        case 2
        define x where "x = (if s = tok_a then tok_b else tok_a)"
        have "x \<noteq> s" "x \<noteq> star" "x \<noteq> rest_wildcard" by (auto simp: x_def dest: sym)
        with 2 ft s show ?thesis by (intro exI [of _ "[x]"]) auto
      next
        case 3
        define x where "x = (if f \<noteq> star then f else if s = tok_a then tok_b else tok_a)"
        have "x \<noteq> s" "x \<noteq> star" "x \<noteq> rest_wildcard" "f = star \<or> f = x"
          using 3 by (auto simp: x_def dest: sym)
        with 3 ft s us show ?thesis by (intro exI [of _ "x # us"]) auto
      next
        case 4
        have "\<exists>ts. concrete ts \<and> matches ft' ts \<and> \<not> matches st ts"
          using "2.IH" 4 s ft by (cases "s = star") auto
        then obtain ts where ts: "concrete ts" "matches ft' ts" "\<not> matches st ts" by blast
        define x where "x = (if f = star then tok_a else f)"
        have "x \<noteq> star" "x \<noteq> rest_wildcard" "f = star \<or> f = x" using 4 by (auto simp: x_def)
        with 4 ft s ts show ?thesis by (intro exI [of _ "x # ts"]) auto
      qed
    qed
  qed
qed

lemma collide_sound: "matches at ts \<Longrightarrow> matches bt ts \<Longrightarrow> concrete ts \<Longrightarrow> tokens_collide at bt"
proof (induction at bt arbitrary: ts rule: tokens_collide.induct)
  case (4 a at b bt)
  then show ?case by (auto split: list.splits if_splits)
qed (auto split: list.splits if_splits)

lemma collide_complete: "tokens_collide at bt \<Longrightarrow> \<exists>ts. concrete ts \<and> matches at ts \<and> matches bt ts"
proof (induction at bt rule: tokens_collide.induct)
  case 1
  show ?case by (auto intro!: exI [of _ "[]"])
next
  case (4 a at b bt)
  consider "a = rest_wildcard" | "b = rest_wildcard"
    | "a \<noteq> rest_wildcard" "b \<noteq> rest_wildcard" "a = star \<or> b = star \<or> a = b" "tokens_collide at bt"
    using "4.prems" by (auto split: if_splits)
  then show ?case
  proof cases
    case 1
    with instance_of_concrete [of tok_a "b # bt"] instance_of_matches [of "b # bt" tok_a]
    show ?thesis by (intro exI [of _ "instance_of tok_a (b # bt)"]) (simp del: matches.simps(2), simp)
  next
    case 2
    with instance_of_concrete [of tok_a "a # at"] instance_of_matches [of "a # at" tok_a]
    show ?thesis by (intro exI [of _ "instance_of tok_a (a # at)"]) (simp del: matches.simps(2), simp)
  next
    case 3
    then obtain ts where ts: "concrete ts" "matches at ts" "matches bt ts" using "4.IH" by auto
    define x where "x = (if a \<noteq> star then a else if b \<noteq> star then b else tok_a)"
    have "x \<noteq> star" "x \<noteq> rest_wildcard" "a = star \<or> a = x" "b = star \<or> b = x"
      using 3 by (auto simp: x_def)
    with 3 ts show ?thesis by (intro exI [of _ "x # ts"]) auto
  qed
qed simp_all

lemma covers_iff: "subjectCovers super sub \<longleftrightarrow> subject_set sub \<subseteq> subject_set super"
  unfolding subjectCovers_def subject_set_def using cover_sound cover_complete by blast

lemma collide_iff: "subjectsCollide a b \<longleftrightarrow> subject_set a \<inter> subject_set b \<noteq> {}"
  unfolding subjectsCollide_def subject_set_def using collide_sound collide_complete by blast

text \<open>
  One subject covers another exactly when every concrete subject of the second is one of
  the first, and two subjects collide exactly when some concrete subject matches both.
\<close>

theorem subject_relations:
  "(subjectCovers super sub \<longleftrightarrow> subject_set sub \<subseteq> subject_set super) \<and>
   (subjectsCollide super sub \<longleftrightarrow> subject_set super \<inter> subject_set sub \<noteq> {})"
  by (simp add: covers_iff collide_iff)

section \<open>What a merge carries\<close>

definition carried :: "string list \<Rightarrow> string list set" where
  "carried subjects = \<Union> (subject_set ` set subjects)"

definition non_overlapping :: "string list \<Rightarrow> bool" where
  "non_overlapping subjects \<longleftrightarrow>
     sorted_wrt (\<lambda>a b. subject_set a \<inter> subject_set b = {}) subjects"

definition partial_overlap :: "string \<Rightarrow> string \<Rightarrow> bool" where
  "partial_overlap a e \<longleftrightarrow> subject_set a \<inter> subject_set e \<noteq> {} \<and>
     \<not> subject_set a \<subseteq> subject_set e \<and> \<not> subject_set e \<subseteq> subject_set a"

lemma carried_simps [simp]:
  "carried [] = {}" "carried (s # ss) = subject_set s \<union> carried ss"
  "carried (ss @ ss') = carried ss \<union> carried ss'"
  by (auto simp: carried_def)

lemma anySubjectCovers_iff:
  "anySubjectCovers subjects a \<longleftrightarrow> (\<exists>s\<in>set subjects. subject_set a \<subseteq> subject_set s)"
  by (simp add: anySubjectCovers_def list_ex_iff covers_iff)

lemma keep_disjoint_ok:
  "keep_disjoint a es = Inr kept \<Longrightarrow>
     carried es \<subseteq> subject_set a \<union> carried kept \<and> carried kept \<subseteq> carried es \<and>
     set kept \<subseteq> set es \<and> (\<forall>e\<in>set kept. subject_set e \<inter> subject_set a = {}) \<and>
     (non_overlapping es \<longrightarrow> non_overlapping kept)"
proof (induction es arbitrary: kept)
  case Nil
  then show ?case by (simp add: non_overlapping_def)
next
  case (Cons e es)
  show ?case
  proof (cases "subjectCovers a e")
    case True
    with Cons.IH [of kept] Cons.prems show ?thesis by (auto simp: covers_iff non_overlapping_def)
  next
    case False
    with Cons.prems obtain k where k: "keep_disjoint a es = Inr k" "kept = e # k"
      and nc: "\<not> subjectsCollide a e" by (auto simp: bind_result_Inr split: if_splits)
    from Cons.IH [OF k(1)] nc k(2) show ?thesis
      by (auto simp: collide_iff non_overlapping_def)
  qed
qed

lemma keep_disjoint_error:
  "keep_disjoint a es = Inl err \<Longrightarrow> \<not> anySubjectCovers es a \<Longrightarrow> \<exists>e\<in>set es. partial_overlap a e"
proof (induction es)
  case Nil
  then show ?case by simp
next
  case (Cons e es)
  have n: "\<not> subject_set a \<subseteq> subject_set e" "\<not> anySubjectCovers es a"
    using Cons.prems(2) by (auto simp: anySubjectCovers_iff)
  show ?case
  proof (cases "subjectCovers a e \<or> \<not> subjectsCollide a e")
    case True
    with Cons.prems(1) have "keep_disjoint a es = Inl err" by (auto simp: bind_result_Inl split: if_splits)
    with Cons.IH n(2) show ?thesis by auto
  next
    case False
    with n(1) show ?thesis by (auto simp: partial_overlap_def covers_iff collide_iff)
  qed
qed

definition merge_post :: "string list \<Rightarrow> string list \<Rightarrow> bool \<Rightarrow> string list \<Rightarrow> bool \<Rightarrow> bool" where
  "merge_post existing additional was merged changed \<longleftrightarrow>
     carried merged = carried existing \<union> carried additional \<and>
     (non_overlapping existing \<longrightarrow> non_overlapping merged) \<and>
     (\<not> changed \<longleftrightarrow> \<not> was \<and> list_all (anySubjectCovers existing) additional) \<and>
     (\<not> changed \<longrightarrow> merged = existing)"

lemma merge_subjects_ok:
  "merge_subjects additional result was = Inr (merged, changed) \<Longrightarrow>
     merge_post result additional was merged changed"
proof (induction additional result was rule: merge_subjects.induct)
  case (1 result changed)
  then show ?case by (simp add: merge_post_def)
next
  case (2 a additional result was)
  show ?case
  proof (cases "anySubjectCovers result a")
    case True
    then have "subject_set a \<subseteq> carried result" by (auto simp: anySubjectCovers_iff carried_def)
    moreover have "merge_post result additional was merged changed" using 2 True by simp
    ultimately show ?thesis using True by (auto simp: merge_post_def)
  next
    case False
    with "2.prems" obtain kept where kept: "keep_disjoint a result = Inr kept"
      and m: "merge_subjects additional (kept @ [a]) True = Inr (merged, changed)"
      by (auto simp: bind_result_Inr)
    note k = keep_disjoint_ok [OF kept]
    have "merge_post (kept @ [a]) additional True merged changed"
      using "2.IH"(2) [OF False] m by blast
    moreover have "non_overlapping result \<longrightarrow> non_overlapping (kept @ [a])"
      using k by (auto simp: non_overlapping_def sorted_wrt_append)
    moreover have "carried (kept @ [a]) = carried result \<union> subject_set a" using k by auto
    ultimately show ?thesis using False by (auto simp: merge_post_def)
  qed
qed

lemma merge_subjects_error:
  "merge_subjects additional result was = Inl err \<Longrightarrow>
     \<exists>a\<in>set additional. \<exists>e\<in>set result \<union> set additional. partial_overlap a e"
proof (induction additional result was rule: merge_subjects.induct)
  case (1 result changed)
  then show ?case by simp
next
  case (2 a additional result was)
  show ?case
  proof (cases "anySubjectCovers result a")
    case True
    with 2 show ?thesis by auto
  next
    case False
    show ?thesis
    proof (cases "keep_disjoint a result")
      case (Inl e)
      with keep_disjoint_error [OF Inl False] show ?thesis by auto
    next
      case (Inr kept)
      with "2.prems" False have "merge_subjects additional (kept @ [a]) True = Inl err" by simp
      with "2.IH"(2) [OF False] keep_disjoint_ok [OF Inr] show ?thesis by fastforce
    qed
  qed
qed

text \<open>
  A merge that succeeds carries exactly the concrete subjects of the existing and the
  additional filters, keeps filters that do not overlap free of overlaps, and reports a
  change exactly when some additional filter was not covered by a single existing one (the
  list is untouched otherwise). It fails only if an additional filter partially overlaps an
  existing or another additional one.
\<close>

theorem mergeStreamSubjects_correct:
  "case mergeStreamSubjects existing additional of
     Inl err \<Rightarrow> \<exists>a\<in>set additional. \<exists>e\<in>set existing \<union> set additional. partial_overlap a e
   | Inr (merged, changed) \<Rightarrow>
       carried merged = carried existing \<union> carried additional \<and>
       (non_overlapping existing \<longrightarrow> non_overlapping merged) \<and>
       (\<not> changed \<longleftrightarrow> list_all (anySubjectCovers existing) additional) \<and>
       (\<not> changed \<longrightarrow> merged = existing)"
  unfolding mergeStreamSubjects_def
  using merge_subjects_ok [of additional existing False] merge_subjects_error [of additional existing False]
  by (auto simp: merge_post_def split: sum.splits)

theorem mergeStreamSubjects_witness:
  "mergeStreamSubjects [''event.a'', ''event.b'', ''x.y''] [''event.*'', ''x.y''] =
     Inr ([''x.y'', ''event.*''], True) \<and>
   non_overlapping [''x.y'', ''event.*'']"
proof -
  have m: "mergeStreamSubjects [''event.a'', ''event.b'', ''x.y''] [''event.*'', ''x.y''] =
      Inr ([''x.y'', ''event.*''], True)" by code_simp
  have "\<not> subjectsCollide ''event.a'' ''event.b''" "\<not> subjectsCollide ''event.a'' ''x.y''"
    "\<not> subjectsCollide ''event.b'' ''x.y''" by code_simp+
  then have "non_overlapping [''event.a'', ''event.b'', ''x.y'']"
    by (simp add: non_overlapping_def collide_iff)
  with mergeStreamSubjects_correct [where existing = "[''event.a'', ''event.b'', ''x.y'']"
      and additional = "[''event.*'', ''x.y'']"] m
  show ?thesis by simp
qed

text \<open>The subject of a consumer is a single filter with exactly two tokens.\<close>

lemma split_on_absent: "c \<notin> set s \<Longrightarrow> split_on c s = [s]"
  by (induction s) auto

lemma split_on_append: "c \<notin> set s \<Longrightarrow> split_on c (s @ c # t) = s # split_on c t"
  by (induction s) auto

lemma setupSubjectConsumer_tokens:
  "split_on (CHR ''.'') (FilterSubject (setupSubjectConsumer subject n)) =
     [CFMSubjectPrefix, sanitized_subject subject]"
proof -
  have "CHR ''.'' \<notin> set (sanitized_subject subject)"
    unfolding sanitized_subject_def by (rule replace_char_absent) simp
  moreover have "CHR ''.'' \<notin> set CFMSubjectPrefix" by (simp add: CFMSubjectPrefix_def)
  ultimately show ?thesis
    by (simp add: setupSubjectConsumer_def split_on_append split_on_absent)
qed

end
