(* ===== verification/Nats_Messages.thy ===== *)
theory Nats_Messages
  imports Nats_Subjects
begin

text \<open>
  How a component consumes messages (\<open>common/natsclient/retry.go\<close>, \<open>processor.go\<close>,
  \<open>loop.go\<close>, \<open>jetstream.go\<close>): the retry schedule, the processor that acknowledges,
  retries or dead-letters each message, and the fetch loop with its backoff.

  A duration is a number of nanoseconds. The server is outside the program: a message carries
  the answers the server will give to an acknowledgment, and the deliveries it has counted.
\<close>

section \<open>Durations\<close>

definition second :: int where "second = 1000000000"
definition minute :: int where "minute = 60 * second"

text \<open>\<open>Duration.String\<close>: hours, minutes and seconds, or a smaller unit below a second.\<close>

definition pad_left :: "nat \<Rightarrow> string \<Rightarrow> string" where
  "pad_left n s = replicate (n - length s) (CHR ''0'') @ s"

definition frac_text :: "nat \<Rightarrow> nat \<Rightarrow> string" where
  "frac_text prec v =
     (let digits = rev (dropWhile (\<lambda>c. c = CHR ''0'') (rev (pad_left prec (nat_text v))))
      in if v = 0 then [] else CHR ''.'' # digits)"

definition duration_nat_text :: "nat \<Rightarrow> string" where
  "duration_nat_text n =
     (if n = 0 then ''0s''
      else if n < 1000 then nat_text n @ ''ns''
      else if n < 1000000 then nat_text (n div 1000) @ frac_text 3 (n mod 1000) @
        [CHR 0xC2, CHR 0xB5] @ ''s''
      else if n < 1000000000 then
        nat_text (n div 1000000) @ frac_text 6 (n mod 1000000) @ ''ms''
      else
        (let secs = n div 1000000000; frac = frac_text 9 (n mod 1000000000);
             s = nat_text (secs mod 60) @ frac @ ''s''; mins = secs div 60
         in if mins = 0 then s
            else (let m = nat_text (mins mod 60) @ ''m'' @ s; hours = mins div 60
                  in if hours = 0 then m else nat_text hours @ ''h'' @ m)))"

definition duration_text :: "int \<Rightarrow> string" where
  "duration_text d = (if d < 0 then CHR ''-'' # duration_nat_text (nat (- d)) else duration_nat_text (nat d))"

section \<open>Retries\<close>

definition DefaultMaxDeliver :: int where "DefaultMaxDeliver = 10"
definition ActivityMaxDeliver :: int where "ActivityMaxDeliver = 1000"
definition DefaultAckWait :: int where "DefaultAckWait = 30 * second"
definition DefaultDispatchTimeout :: int where "DefaultDispatchTimeout = 5 * minute"

definition retryDelays :: "int list" where
  "retryDelays = [second, 2 * second, 5 * second, 10 * second, 30 * second, minute]"

definition RetryDelay :: "int \<Rightarrow> int" where
  "RetryDelay attempt =
     (let idx = attempt - 1;
          idx = (if idx < 0 then 0 else idx);
          idx = (if idx \<ge> int (length retryDelays) then int (length retryDelays) - 1 else idx)
      in retryDelays ! nat idx)"

text \<open>\<open>NumDelivered\<close>, the metadata \<open>md\<close> below, is \<open>None\<close> for a message without
  JetStream metadata. The other fields are the server's answers to \<open>Ack\<close>, \<open>NakWithDelay\<close> and \<open>Term\<close>.\<close>

record delivery =
  Subject :: string
  NumDelivered :: "nat option"
  ack_result :: "go_error option"
  nak_result :: "go_error option"
  term_result :: "go_error option"

definition deliveryCount :: "nat option \<Rightarrow> int" where
  "deliveryCount md = (case md of None \<Rightarrow> 1 | Some n \<Rightarrow> if n = 0 then 1 else int n)"

definition IsFinalDelivery :: "nat option \<Rightarrow> int \<Rightarrow> bool" where
  "IsFinalDelivery md maxDeliver \<longleftrightarrow> maxDeliver > 0 \<and> deliveryCount md \<ge> maxDeliver"

text \<open>What the processor asks of the server for a message.\<close>

datatype disposition = DoAck | DoNak int | DoTerm

definition NakWithBackoff :: "delivery \<Rightarrow> disposition list \<times> go_error option" where
  "NakWithBackoff m = ([DoNak (RetryDelay (deliveryCount (NumDelivered m)))], nak_result m)"

definition AckMessage :: "delivery \<Rightarrow> disposition list \<times> go_error option" where
  "AckMessage m = ([DoAck], map_option (\<lambda>err.
     WrapError (''failed to ACK message: '' @ error_text err) err) (ack_result m))"

definition NakError :: "delivery \<Rightarrow> go_error \<Rightarrow> disposition list \<times> go_error" where
  "NakError m err =
     (case NakWithBackoff m of
        (ds, None) \<Rightarrow> (ds, err)
      | (ds, Some err2) \<Rightarrow> (ds, JoinError [err, err2]))"

definition shouldRetry :: "go_error \<Rightarrow> bool" where
  "shouldRetry err \<longleftrightarrow> IsRecoverable err \<or> (\<not> IsClientError err \<and> \<not> IsFatal err)"

section \<open>Processing a message\<close>

text \<open>
  A run of the dispatcher: a panic with its text, or its error together with the state of the
  deadline's context and of the caller's when it returned.
\<close>

datatype dispatcher_run =
    Panicked string
  | Returned "go_error option" (deadline_exceeded: bool) (caller_done: bool)

record processor =
  MaxDeliver :: int
  DispatchTimeout :: int

definition maxDeliver :: "processor \<Rightarrow> int" where
  "maxDeliver n = (if MaxDeliver n = 0 then DefaultMaxDeliver else MaxDeliver n)"

definition dispatch_error ::
  "processor \<Rightarrow> delivery \<Rightarrow> go_error option \<Rightarrow> bool \<Rightarrow> bool \<Rightarrow> go_error option" where
  "dispatch_error n m err exceeded callerDone =
     (let timeout = (if DispatchTimeout n \<le> 0 then DefaultDispatchTimeout else DispatchTimeout n)
      in case err of
           None \<Rightarrow> None
         | Some e \<Rightarrow>
             if exceeded \<and> \<not> callerDone then
               Some (NewRecoverableWrappedError (Some e)
                 (''dispatching message on '' @ Subject m @ '' did not finish within '' @ duration_text timeout))
             else Some e)"

definition TermOnPanic :: "delivery \<Rightarrow> string \<Rightarrow> disposition list \<times> go_error option" where
  "TermOnPanic m p =
     (let err = ErrorString (''panic while processing message: '' @ p)
      in ([DoTerm], Some (case term_result m of
            None \<Rightarrow> err
          | Some termErr \<Rightarrow> JoinError [err,
              WrapError (''failed to TERM message: '' @ error_text termErr) termErr])))"

text \<open>\<open>payload\<close> is the decoded message; the dispatcher is a parameter.\<close>

definition ProcessMessage ::
  "processor \<Rightarrow> ('p \<Rightarrow> delivery \<Rightarrow> dispatcher_run) \<Rightarrow> delivery \<Rightarrow> go_error + 'p \<Rightarrow>
   disposition list \<times> go_error option" where
  "ProcessMessage n dispatcher m payload =
     (case payload of
        Inl err \<Rightarrow>
          (fst (AckMessage m),
           Some (WrapError (''failed to unmarshal message: '' @ error_text err) err))
      | Inr p \<Rightarrow>
          (case dispatcher p m of
             Panicked txt \<Rightarrow> TermOnPanic m txt
           | Returned runErr exceeded callerDone \<Rightarrow>
               (case dispatch_error n m runErr exceeded callerDone of
                  None \<Rightarrow> AckMessage m
                | Some resultErr \<Rightarrow>
                    if shouldRetry resultErr \<and> IsFinalDelivery (NumDelivered m) (maxDeliver n) then
                      ([DoTerm], Some (case term_result m of
                         Some err \<Rightarrow> WrapError
                           (''retriable failure on final delivery and TERM response (errors: '' @
                            error_text resultErr @ '', '' @ error_text err @ '')'') resultErr
                       | None \<Rightarrow> WrapError
                           (''retriable failure on final delivery, message dead-lettered: '' @
                            error_text resultErr) resultErr))
                    else if shouldRetry resultErr then
                      (case NakWithBackoff m of
                         (ds, Some err) \<Rightarrow> (ds, Some (WrapError
                           (''retriable failure when dispatching message and NAK response (errors: '' @
                            error_text resultErr @ '', '' @ error_text err @ '')'') resultErr))
                       | (ds, None) \<Rightarrow> (ds, Some (WrapError
                           (''retriable failure when dispatching message: '' @ error_text resultErr) resultErr)))
                    else
                      ([DoAck], Some (case ack_result m of
                         Some err \<Rightarrow> WrapError
                           (''fatal failure when dispatching message (errors: '' @
                            error_text resultErr @ '', '' @ error_text err @ '')'') resultErr
                       | None \<Rightarrow> WrapError
                           (''fatal failure when dispatching message: '' @ error_text resultErr) resultErr)))))"

section \<open>The fetch loop\<close>

definition isConsumerGone :: "go_error \<Rightarrow> bool" where
  "isConsumerGone err \<longleftrightarrow>
     errors_Is err (Sentinel ''jetstream.ErrConsumerDeleted'') \<or>
     errors_Is err (Sentinel ''nats.ErrNoResponders'') \<or>
     errors_Is err (Sentinel ''jetstream.ErrConsumerNotFound'') \<or>
     errors_Is err (Sentinel ''jetstream.ErrStreamNotFound'')"

record fetch_loop =
  CanRecreate :: bool
  RetryBackoff :: int
  MaxBackoff :: int

text \<open>What happens in one round: the state of the context when it is checked, the errors of
  the fetch and of recreating the consumer.\<close>

record loop_round =
  done_before :: bool
  fetch_error :: "go_error option"
  done_after :: bool
  recreate_error :: "go_error option"
  done_waiting :: bool

datatype loop_step = Stop | Continue (next_backoff: int) (waited: "int option")

definition initial_backoff :: "fetch_loop \<Rightarrow> int" where
  "initial_backoff l = (if RetryBackoff l \<le> 0 then second else RetryBackoff l)"

definition max_backoff :: "fetch_loop \<Rightarrow> int" where
  "max_backoff l = (if MaxBackoff l \<le> 0 then 30 * second else MaxBackoff l)"

definition loop_round_step :: "fetch_loop \<Rightarrow> int \<Rightarrow> loop_round \<Rightarrow> loop_step" where
  "loop_round_step l backoff r =
     (if done_before r then Stop
      else case fetch_error r of
             None \<Rightarrow> Continue (initial_backoff l) None
           | Some err \<Rightarrow>
               if done_after r then Stop
               else if CanRecreate l \<and> isConsumerGone err \<and> recreate_error r = None then
                 Continue (initial_backoff l) None
               else if done_waiting r then Stop
               else Continue (min (backoff * 2) (max_backoff l)) (Some backoff))"

text \<open>The waits of a run, and whether it returned.\<close>

fun run_rounds :: "fetch_loop \<Rightarrow> int \<Rightarrow> loop_round list \<Rightarrow> int list \<times> bool" where
  "run_rounds l backoff [] = ([], False)"
| "run_rounds l backoff (r # rs) =
     (case loop_round_step l backoff r of
        Stop \<Rightarrow> ([], True)
      | Continue backoff' w \<Rightarrow>
          (let (ws, stopped) = run_rounds l backoff' rs
           in (case w of None \<Rightarrow> ws | Some d \<Rightarrow> d # ws, stopped)))"

definition FetchLoop_Run :: "fetch_loop \<Rightarrow> loop_round list \<Rightarrow> int list \<times> bool" where
  "FetchLoop_Run l rounds = run_rounds l (initial_backoff l) rounds"

text \<open>The health of a loop: \<open>lastFetch\<close> is the time of the last completed fetch, 0 before
  the first.\<close>

definition FetchLoop_Check :: "bool \<Rightarrow> int \<Rightarrow> int \<Rightarrow> int \<Rightarrow> go_error option" where
  "FetchLoop_Check inFlight lastFetch now maxAge =
     (if inFlight then None
      else if lastFetch = 0 then Some (ErrorString ''consumer loop is not running'')
      else if now - lastFetch > maxAge then
        Some (ErrorString (''consumer loop has not fetched successfully for '' @
          duration_text ((now - lastFetch + second div 2) div second * second)))
      else None)"

section \<open>Resources\<close>

record jetstream_config =
  Replicas :: int
  StreamMaxAge :: int
  StreamMaxBytes :: int
  KVMaxBytes :: int

definition maxReplicas :: int where "maxReplicas = 5"

definition JetStreamConfig_Validate :: "jetstream_config \<Rightarrow> go_error option" where
  "JetStreamConfig_Validate c =
     (if Replicas c < 0 \<or> Replicas c > maxReplicas then
        Some (ErrorString (''nats.jetstream.replicas must be between 1 and '' @ int_text maxReplicas @
          '', got '' @ int_text (Replicas c)))
      else if StreamMaxAge c < 0 then
        Some (ErrorString (''nats.jetstream.stream.maxAge must not be negative, got '' @
          duration_text (StreamMaxAge c)))
      else if StreamMaxBytes c < 0 then
        Some (ErrorString (''nats.jetstream.stream.maxBytes must not be negative, got '' @
          int_text (StreamMaxBytes c)))
      else if KVMaxBytes c < 0 then
        Some (ErrorString (''nats.jetstream.kv.maxBytes must not be negative, got '' @
          int_text (KVMaxBytes c)))
      else None)"

definition replicas :: "jetstream_config \<Rightarrow> int" where
  "replicas c = (if Replicas c = 0 then 1 else Replicas c)"

definition streamMaxBytes :: "jetstream_config \<Rightarrow> int" where
  "streamMaxBytes c = (if StreamMaxBytes c = 0 then -1 else StreamMaxBytes c)"

lemma valid_config_iff:
  "JetStreamConfig_Validate c = None \<longleftrightarrow>
     Replicas c \<ge> 0 \<and> Replicas c \<le> 5 \<and> StreamMaxAge c \<ge> 0 \<and> StreamMaxBytes c \<ge> 0 \<and> KVMaxBytes c \<ge> 0"
  by (simp add: JetStreamConfig_Validate_def maxReplicas_def not_less)

lemma valid_config_resources:
  "JetStreamConfig_Validate c = None \<Longrightarrow>
     1 \<le> replicas c \<and> replicas c \<le> 5 \<and> (streamMaxBytes c = -1 \<or> streamMaxBytes c > 0)"
  unfolding valid_config_iff replicas_def streamMaxBytes_def by auto

section \<open>The retry schedule\<close>

lemma RetryDelay_cases:
  "RetryDelay n = (if n \<le> 1 then second else if n = 2 then 2 * second else if n = 3 then 5 * second
     else if n = 4 then 10 * second else if n = 5 then 30 * second else minute)"
proof -
  consider "n \<le> 1" | "n = 2" | "n = 3" | "n = 4" | "n = 5" | "n \<ge> 6" by linarith
  then show ?thesis by cases (auto simp: RetryDelay_def retryDelays_def numeral_eq_Suc)
qed

lemma RetryDelay_bounds: "second \<le> RetryDelay n" "RetryDelay n \<le> minute"
  by (auto simp: RetryDelay_cases second_def minute_def)

lemma RetryDelay_mono: "m \<le> n \<Longrightarrow> RetryDelay m \<le> RetryDelay n"
  by (auto simp: RetryDelay_cases second_def minute_def)

lemma deliveryCount_pos: "deliveryCount md \<ge> 1"
  by (auto simp: deliveryCount_def split: option.splits)

section \<open>Dispositions\<close>

text \<open>An error that the processor retries: one that is not permanent, or any error of a
  dispatcher that ran out of time while its caller had not.\<close>

definition transient_run :: "dispatcher_run \<Rightarrow> bool" where
  "transient_run run \<longleftrightarrow> (case run of
     Panicked _ \<Rightarrow> False
   | Returned None _ _ \<Rightarrow> False
   | Returned (Some e) exceeded callerDone \<Rightarrow> shouldRetry e \<or> exceeded \<and> \<not> callerDone)"

definition disposition_of :: "processor \<Rightarrow> delivery \<Rightarrow> go_error + dispatcher_run \<Rightarrow> disposition" where
  "disposition_of n m outcome =
     (case outcome of
        Inl _ \<Rightarrow> DoAck
      | Inr (Panicked _) \<Rightarrow> DoTerm
      | Inr run \<Rightarrow>
          if \<not> transient_run run then DoAck
          else if IsFinalDelivery (NumDelivered m) (maxDeliver n) then DoTerm
          else DoNak (RetryDelay (deliveryCount (NumDelivered m))))"

lemma shouldRetry_recoverable [simp]: "shouldRetry (NewRecoverableWrappedError c t)"
  by (simp add: shouldRetry_def)

lemma ProcessMessage_disposition:
  "fst (ProcessMessage n dispatcher m payload) =
     [disposition_of n m (map_sum (\<lambda>e. e) (\<lambda>p. dispatcher p m) payload)]"
proof (cases payload)
  case (Inl e)
  then show ?thesis by (simp add: ProcessMessage_def disposition_of_def AckMessage_def)
next
  case (Inr p)
  show ?thesis
  proof (cases "dispatcher p m")
    case (Panicked t)
    with Inr show ?thesis by (simp add: ProcessMessage_def disposition_of_def TermOnPanic_def Let_def)
  next
    case (Returned err ex cd)
    show ?thesis
    proof (cases err)
      case None
      with Inr Returned show ?thesis
        by (simp add: ProcessMessage_def disposition_of_def dispatch_error_def AckMessage_def
            transient_run_def Let_def)
    next
      case (Some e)
      let ?t = "transient_run (dispatcher p m)"
      obtain re where re: "dispatch_error n m (Some e) ex cd = Some re" "shouldRetry re = ?t"
        using Some Returned by (cases "ex \<and> \<not> cd")
          (auto simp: dispatch_error_def transient_run_def Let_def)
      show ?thesis
        using Inr Returned Some re
        by (simp add: ProcessMessage_def disposition_of_def NakWithBackoff_def split: option.splits)
    qed
  qed
qed

text \<open>
  C24. The processor disposes of every delivery exactly once. A message is redelivered (after the
  delay of its delivery count) only when the dispatcher failed with a transient error, or ran
  out of time, before the last allowed delivery; on the last one it is terminated, as it is
  after a panic; every other message, an undecodable one included, is acknowledged. Success
  is reported exactly when the payload decoded, the dispatcher succeeded and the
  acknowledgment did.
\<close>

theorem ProcessMessage_correct:
  "\<exists>d err. ProcessMessage n dispatcher m payload = ([d], err) \<and>
     (case payload of
        Inl _ \<Rightarrow> d = DoAck \<and> err \<noteq> None
      | Inr p \<Rightarrow>
          (d = DoNak (RetryDelay (deliveryCount (NumDelivered m))) \<longleftrightarrow>
             transient_run (dispatcher p m) \<and> \<not> IsFinalDelivery (NumDelivered m) (maxDeliver n)) \<and>
          (d = DoTerm \<longleftrightarrow> (\<exists>t. dispatcher p m = Panicked t) \<or>
             transient_run (dispatcher p m) \<and> IsFinalDelivery (NumDelivered m) (maxDeliver n)) \<and>
          (d = DoAck \<longleftrightarrow> (\<nexists>t. dispatcher p m = Panicked t) \<and> \<not> transient_run (dispatcher p m)) \<and>
          (err = None \<longleftrightarrow> (\<exists>x y. dispatcher p m = Returned None x y) \<and> ack_result m = None))"
proof -
  obtain ds e where r: "ProcessMessage n dispatcher m payload = (ds, e)" by fastforce
  have ds: "ds = [disposition_of n m (map_sum (\<lambda>e. e) (\<lambda>p. dispatcher p m) payload)]"
    using ProcessMessage_disposition [of n dispatcher m payload] r by simp
  show ?thesis
  proof (cases payload)
    case (Inl x)
    with ds r show ?thesis by (auto simp: ProcessMessage_def disposition_of_def)
  next
    case (Inr p)
    have "e = None \<longleftrightarrow> (\<exists>x y. dispatcher p m = Returned None x y) \<and> ack_result m = None"
      using Inr r by (auto simp: ProcessMessage_def TermOnPanic_def AckMessage_def NakWithBackoff_def
          dispatch_error_def Let_def split: dispatcher_run.splits option.splits if_splits)
    moreover have "\<not> transient_run (Panicked t)" for t by (simp add: transient_run_def)
    ultimately show ?thesis unfolding r using ds Inr
      by (intro exI conjI, simp) (cases "dispatcher p m"; simp add: disposition_of_def split: if_splits)
  qed
qed

text \<open>
  A message whose dispatcher keeps failing: the server counts the deliveries from 1, the
  processor asks for each redelivery with the delay of the schedule and terminates the
  message on the last allowed delivery.
\<close>

definition nth_delivery :: "delivery \<Rightarrow> nat \<Rightarrow> delivery" where
  "nth_delivery m k = m\<lparr>NumDelivered := Some k\<rparr>"

lemma failing_message_retried:
  assumes "maxDeliver n > 0" "transient_run (dispatcher p (nth_delivery m k))"
    "1 \<le> k" "int k \<le> maxDeliver n"
  shows "fst (ProcessMessage n dispatcher (nth_delivery m k) (Inr p)) =
     [if int k < maxDeliver n then DoNak (RetryDelay (int k)) else DoTerm]"
proof -
  have "deliveryCount (NumDelivered (nth_delivery m k)) = int k"
    using assms(3) by (simp add: deliveryCount_def nth_delivery_def)
  moreover have "\<nexists>t. dispatcher p (nth_delivery m k) = Panicked t"
    using assms(2) by (auto simp: transient_run_def)
  ultimately show ?thesis
    using assms unfolding ProcessMessage_disposition
    by (auto simp: disposition_of_def IsFinalDelivery_def split: dispatcher_run.splits)
qed

text \<open>
  A message whose dispatcher fails with a transient error every time is redelivered on
  each delivery before the last one, with delays that never shrink, and is terminated on the
  last: with the default settings after 1, 2, 5, 10, 30 and then four times 60 seconds.
\<close>

theorem failing_message_schedule:
  assumes "\<And>k. transient_run (dispatcher p (nth_delivery m k))" "maxDeliver n = int lim" "lim > 0"
  shows "concat (map (\<lambda>k. fst (ProcessMessage n dispatcher (nth_delivery m k) (Inr p))) [1..<Suc lim]) =
           map (\<lambda>k. DoNak (RetryDelay (int k))) [1..<lim] @ [DoTerm] \<and>
         sorted (map (\<lambda>k. RetryDelay (int k)) [1..<lim])"
proof
  have "concat (map (\<lambda>k. fst (ProcessMessage n dispatcher (nth_delivery m k) (Inr p))) [1..<Suc lim]) =
      concat (map (\<lambda>k. [if int k < maxDeliver n then DoNak (RetryDelay (int k)) else DoTerm]) [1..<Suc lim])"
    by (intro arg_cong [where f = concat] map_cong refl failing_message_retried) (use assms in auto)
  also have "\<dots> = map (\<lambda>k. DoNak (RetryDelay (int k))) [1..<lim] @ [DoTerm]"
    using assms(2,3) by (auto simp: upt_Suc_append map_concat intro!: concat_map_singleton)
  finally show "concat (map (\<lambda>k. fst (ProcessMessage n dispatcher (nth_delivery m k) (Inr p)))
      [1..<Suc lim]) = map (\<lambda>k. DoNak (RetryDelay (int k))) [1..<lim] @ [DoTerm]" .
  show "sorted (map (\<lambda>k. RetryDelay (int k)) [1..<lim])"
    by (auto simp: sorted_iff_nth_mono intro!: RetryDelay_mono)
qed

definition default_processor :: processor where
  "default_processor = \<lparr>MaxDeliver = 0, DispatchTimeout = 0\<rparr>"

definition sample_delivery :: delivery where
  "sample_delivery = \<lparr>Subject = ''event.x'', NumDelivered = None, ack_result = None,
     nak_result = None, term_result = None\<rparr>"

theorem failing_message_schedule_witness:
  "concat (map (\<lambda>k. fst (ProcessMessage default_processor
      (\<lambda>p m. Returned (Some (ErrorString p)) False False) (nth_delivery sample_delivery k) (Inr ''down'')))
      [1..<11]) =
    map DoNak [second, 2 * second, 5 * second, 10 * second, 30 * second, minute, minute, minute, minute] @
    [DoTerm]"
proof -
  have "\<And>k. transient_run ((\<lambda>p m. Returned (Some (ErrorString p)) False False) ''down''
      (nth_delivery sample_delivery k))"
    by (simp add: transient_run_def shouldRetry_def error_class_defs)
  moreover have "maxDeliver default_processor = int 10"
    by (simp add: maxDeliver_def default_processor_def DefaultMaxDeliver_def)
  ultimately show ?thesis
    using failing_message_schedule [of "\<lambda>p m. Returned (Some (ErrorString p)) False False" "''down''"
        sample_delivery default_processor 10]
    by (simp add: upt_rec RetryDelay_cases)
qed

section \<open>The backoff of the fetch loop\<close>

definition failed_round :: "fetch_loop \<Rightarrow> loop_round \<Rightarrow> bool" where
  "failed_round l r \<longleftrightarrow> \<not> done_before r \<and> \<not> done_after r \<and> \<not> done_waiting r \<and>
     (\<exists>err. fetch_error r = Some err \<and>
        \<not> (CanRecreate l \<and> isConsumerGone err \<and> recreate_error r = None))"

lemma failed_round_step:
  "failed_round l r \<Longrightarrow> loop_round_step l b r = Continue (min (b * 2) (max_backoff l)) (Some b)"
  by (auto simp: failed_round_def loop_round_step_def)

fun backoff_at :: "fetch_loop \<Rightarrow> nat \<Rightarrow> int" where
  "backoff_at l 0 = initial_backoff l"
| "backoff_at l (Suc k) = min (backoff_at l k * 2) (max_backoff l)"

lemma max_backoff_pos: "max_backoff l > 0" and initial_backoff_pos: "initial_backoff l > 0"
  by (auto simp: max_backoff_def initial_backoff_def second_def)

lemma backoff_at_pos: "backoff_at l k > 0"
  by (induction k) (simp_all add: max_backoff_pos initial_backoff_pos)

lemma backoff_at_eq: "k > 0 \<Longrightarrow> backoff_at l k = min (initial_backoff l * 2 ^ k) (max_backoff l)"
proof (induction k)
  case (Suc k)
  then show ?case using max_backoff_pos [of l] by (cases k) auto
qed simp

lemma backoff_at_le: "backoff_at l k \<le> max (initial_backoff l) (max_backoff l)"
  by (cases k) auto

lemma failed_rounds_wait:
  "list_all (failed_round l) rs \<Longrightarrow>
     run_rounds l (backoff_at l k) rs = (map (backoff_at l) [k..<k + length rs], False)"
proof (induction rs arbitrary: k)
  case (Cons r rs)
  then have "run_rounds l (backoff_at l (Suc k)) rs = (map (backoff_at l) [Suc k..<Suc k + length rs], False)"
    by (intro Cons.IH) simp
  moreover have "[k..<k + length (r # rs)] = k # [Suc k..<Suc k + length rs]"
    by (subst upt_conv_Cons) auto
  ultimately show ?case using Cons.prems by (simp add: failed_round_step del: upt_Suc)
qed simp

lemma run_rounds_bounded:
  "0 < b \<Longrightarrow> b \<le> max (initial_backoff l) (max_backoff l) \<Longrightarrow>
     \<forall>w\<in>set (fst (run_rounds l b rs)). 0 < w \<and> w \<le> max (initial_backoff l) (max_backoff l)"
proof (induction rs arbitrary: b)
  case (Cons r rs)
  show ?case
  proof (cases "loop_round_step l b r")
    case (Continue b' w)
    then have b': "b' = initial_backoff l \<and> w = None \<or>
        b' = min (b * 2) (max_backoff l) \<and> w = Some b"
      by (auto simp: loop_round_step_def split: if_splits option.splits)
    then have "0 < b'" "b' \<le> max (initial_backoff l) (max_backoff l)"
      using Cons.prems max_backoff_pos [of l] initial_backoff_pos [of l] by auto
    with Cons.IH [of b'] Continue b' Cons.prems show ?thesis
      by (auto simp: split_beta Let_def)
  qed simp
qed simp

lemma run_rounds_stop:
  "snd (run_rounds l b rs) \<Longrightarrow> \<exists>r\<in>set rs. done_before r \<or> done_after r \<or> done_waiting r"
proof (induction rs arbitrary: b)
  case (Cons r rs)
  then show ?case
    by (auto simp: loop_round_step_def split_beta Let_def split: if_splits option.splits)
qed simp

text \<open>
  The fetch loop returns only when its context is done, never on an error. Its waits are
  always positive and within the larger of its initial and its maximal backoff; after a
  successful fetch, consecutive failures wait the initial backoff first and then its doubles,
  capped at the maximal backoff.
\<close>

theorem FetchLoop_Run_correct:
  "(snd (FetchLoop_Run l rs) \<longrightarrow> (\<exists>r\<in>set rs. done_before r \<or> done_after r \<or> done_waiting r)) \<and>
   (\<forall>w\<in>set (fst (FetchLoop_Run l rs)). 0 < w \<and> w \<le> max (initial_backoff l) (max_backoff l)) \<and>
   (list_all (failed_round l) rs \<longrightarrow>
      fst (FetchLoop_Run l rs) =
        map (\<lambda>k. if k = 0 then initial_backoff l
                  else min (initial_backoff l * 2 ^ k) (max_backoff l)) [0..<length rs])"
proof (intro conjI impI)
  show "snd (FetchLoop_Run l rs) \<Longrightarrow> \<exists>r\<in>set rs. done_before r \<or> done_after r \<or> done_waiting r"
    unfolding FetchLoop_Run_def by (rule run_rounds_stop)
  show "\<forall>w\<in>set (fst (FetchLoop_Run l rs)). 0 < w \<and> w \<le> max (initial_backoff l) (max_backoff l)"
    unfolding FetchLoop_Run_def by (rule run_rounds_bounded) (simp_all add: initial_backoff_pos)
  assume "list_all (failed_round l) rs"
  from failed_rounds_wait [OF this, of 0] show "fst (FetchLoop_Run l rs) =
      map (\<lambda>k. if k = 0 then initial_backoff l
                else min (initial_backoff l * 2 ^ k) (max_backoff l)) [0..<length rs]"
    by (auto simp: FetchLoop_Run_def backoff_at_eq)
qed

definition broken_round :: loop_round where
  "broken_round = \<lparr>done_before = False, fetch_error = Some (ErrorString ''leader election''),
     done_after = False, recreate_error = None, done_waiting = False\<rparr>"

theorem FetchLoop_Run_witness:
  "fst (FetchLoop_Run \<lparr>CanRecreate = True, RetryBackoff = 0, MaxBackoff = 0\<rparr> (replicate 7 broken_round)) =
     [second, 2 * second, 4 * second, 8 * second, 16 * second, 30 * second, 30 * second]"
proof -
  let ?l = "\<lparr>CanRecreate = True, RetryBackoff = 0, MaxBackoff = 0\<rparr>"
  have "list_all (failed_round ?l) (replicate 7 broken_round)"
    by (simp add: list_all_iff failed_round_def broken_round_def isConsumerGone_def error_class_defs)
  with FetchLoop_Run_correct [of ?l "replicate 7 broken_round"] show ?thesis
    by (simp add: initial_backoff_def max_backoff_def second_def upt_rec)
qed

end
