(* ===== verification/Nats_Client.thy ===== *)
theory Nats_Client
  imports Activity_Context Nats_Messages
begin

text \<open>
  The engine's access to NATS (\<open>pmanager/natsorchestration/client.go\<close>): enqueueing
  activities, reading an orchestration from the key-value store and updating it with
  optimistic concurrency.

  NATS, the clock and the activity processors are outside the program. They are the parameter
  \<open>env\<close>: what a call answers, as a function of the log of everything that the process
  has done before (newest first). Other processes change the store between two calls of this
  one, so nothing relates the answers to each other unless a theorem assumes it. Each call
  records itself with its answer in the log, which is what the theorems speak about.

  A value in the store is JSON, an orchestration or something that does not decode.
\<close>

section \<open>The outside world\<close>

datatype kv_value = Stored orchestration | Garbled go_error

datatype handler = ProcessDeploy | ProcessDispose | Process

datatype activity_run =
    RunPanicked string
  | Ran activity_result props props (run_deadline_exceeded: bool) (run_caller_done: bool)

datatype event =
    EvGet string "go_error + kv_value \<times> nat"
  | EvUpdate orchestration nat "go_error + nat"
  | EvActivity string string activity_message "go_error option"
  | EvResponse orchestration_response "go_error option"
  | EvRun handler activity activity_run
  | EvAck "go_error option"
  | EvNak int "go_error option"
  | EvTerm "go_error option"

type_synonym log = "event list"

record env =
  e_get :: "log \<Rightarrow> string \<Rightarrow> go_error + kv_value \<times> nat"
  e_update :: "log \<Rightarrow> orchestration \<Rightarrow> nat \<Rightarrow> go_error + nat"
  e_activity :: "log \<Rightarrow> string \<Rightarrow> string \<Rightarrow> activity_message \<Rightarrow> go_error option"
  e_response :: "log \<Rightarrow> orchestration_response \<Rightarrow> go_error option"
  e_run :: "log \<Rightarrow> handler \<Rightarrow> activity_context \<Rightarrow> activity_run"
  e_ack :: "log \<Rightarrow> go_error option"
  e_nak :: "log \<Rightarrow> int \<Rightarrow> go_error option"
  e_term :: "log \<Rightarrow> go_error option"
  e_now :: "log \<Rightarrow> int"
  e_uuid :: "log \<Rightarrow> string"
  e_inject :: "log \<Rightarrow> (string, string) gomap"

text \<open>The \<open>traceparent\<close> that the propagator injects into an empty carrier.\<close>

definition traceparent :: "env \<Rightarrow> log \<Rightarrow> string" where
  "traceparent env w = (case lookup (e_inject env w) ''traceparent'' of None \<Rightarrow> [] | Some s \<Rightarrow> s)"

section \<open>Enqueueing activities\<close>

definition ActivityMessageID :: "string \<Rightarrow> string \<Rightarrow> string" where
  "ActivityMessageID orchestrationID activityID = orchestrationID @ ''.'' @ activityID"

definition activity_subject :: "activity \<Rightarrow> string" where
  "activity_subject a = CFMSubjectPrefix @ ''.'' @ replace_char (CHR ''.'') (CHR ''-'') (a_Type a)"

fun EnqueueActivityMessages :: "env \<Rightarrow> string \<Rightarrow> activity list \<Rightarrow> log \<Rightarrow> go_error option \<times> log" where
  "EnqueueActivityMessages env orchestrationID [] w = (None, w)"
| "EnqueueActivityMessages env orchestrationID (a # activities) w =
     (let subject = activity_subject a;
          msgID = ActivityMessageID orchestrationID (a_ID a);
          msg = \<lparr>am_OrchestrationID = orchestrationID, am_Activity = a\<rparr>;
          r = e_activity env w subject msgID msg;
          w = EvActivity subject msgID msg r # w
      in case r of
           Some err \<Rightarrow> (Some (WrapError (''error publishing to stream: '' @ error_text err) err), w)
         | None \<Rightarrow> EnqueueActivityMessages env orchestrationID activities w)"

section \<open>Reading and updating\<close>

definition ReadOrchestration :: "env \<Rightarrow> string \<Rightarrow> log \<Rightarrow> (go_error + orchestration \<times> nat) \<times> log" where
  "ReadOrchestration env orchestrationID w =
     (let r = e_get env w orchestrationID; w = EvGet orchestrationID r # w
      in (case r of
            Inl err \<Rightarrow> Inl (WrapError (''failed to get orchestration state '' @ orchestrationID @ '': '' @
              error_text err) err)
          | Inr (Garbled err, revision) \<Rightarrow> Inl (WrapError (''failed to unmarshal orchestration '' @
              orchestrationID @ '': '' @ error_text err) err)
          | Inr (Stored orchestration, revision) \<Rightarrow> Inr (orchestration, revision), w))"

definition maxUpdateConflicts :: nat where "maxUpdateConflicts = 50"

text \<open>The codes of the API errors in an error's chain, in the order in which
  \<open>errors.As\<close> meets them; it takes the first. \<open>JSErrCodeStreamWrongLastSequence\<close>
  is 10071.\<close>

fun api_codes :: "go_error \<Rightarrow> nat list" where
  "api_codes (APIError c s) = [c]"
| "api_codes (WrapError s e) = api_codes e"
| "api_codes (JoinError es) = concat (map api_codes es)"
| "api_codes (GeneralRecoverableError s (Some e)) = api_codes e"
| "api_codes (BadRequestError s (Some e)) = api_codes e"
| "api_codes (SystemError s (Some e)) = api_codes e"
| "api_codes _ = []"

definition isRevisionConflict :: "go_error \<Rightarrow> bool" where
  "isRevisionConflict err \<longleftrightarrow> (case api_codes err of [] \<Rightarrow> False | c # _ \<Rightarrow> c = 10071)"

text \<open>
  The loop of \<open>UpdateOrchestration\<close>. \<open>conflicts\<close> counts down the conflicts that may
  still be retried. The update function reads the clock, so it takes the log; the first
  component of the result is the value it was last applied to (closures of the callers keep
  it).
\<close>

fun update_loop :: "nat \<Rightarrow> env \<Rightarrow> (log \<Rightarrow> orchestration \<Rightarrow> orchestration) \<Rightarrow> orchestration \<Rightarrow> nat \<Rightarrow> log \<Rightarrow>
    (orchestration \<times> (go_error + orchestration \<times> nat)) \<times> log" where
  "update_loop conflicts env updateFn orchestration revision w =
     (let applied = updateFn w orchestration;
          r = e_update env w applied revision;
          w = EvUpdate applied revision r # w
      in case r of
           Inr newRevision \<Rightarrow> ((applied, Inr (applied, newRevision)), w)
         | Inl err \<Rightarrow>
             if \<not> isRevisionConflict err then
               ((applied, Inl (WrapError (''failed to update orchestration '' @ o_ID applied @ '': '' @
                  error_text err) err)), w)
             else (case conflicts of
                 0 \<Rightarrow> ((applied, Inl (WrapError (''failed to update orchestration '' @ o_ID applied @
                    '' after '' @ nat_text maxUpdateConflicts @ '' conflicting updates: '' @ error_text err) err)), w)
               | Suc conflicts' \<Rightarrow>
                   (case ReadOrchestration env (o_ID applied) w of
                      (Inl err, w) \<Rightarrow> ((applied, Inl (WrapError
                        (''failed to read orchestration data for update: '' @ error_text err) err)), w)
                    | (Inr (read, readRevision), w) \<Rightarrow>
                        update_loop conflicts' env updateFn read readRevision w)))"

declare update_loop.simps [simp del]

definition UpdateOrchestration :: "env \<Rightarrow> (log \<Rightarrow> orchestration \<Rightarrow> orchestration) \<Rightarrow> orchestration \<Rightarrow> nat \<Rightarrow> log \<Rightarrow>
    (orchestration \<times> (go_error + orchestration \<times> nat)) \<times> log" where
  "UpdateOrchestration env updateFn orchestration revision w =
     update_loop (maxUpdateConflicts - 1) env updateFn orchestration revision w"

section \<open>What the calls of a handler did\<close>

text \<open>The events a call added to the log, oldest first.\<close>

definition added :: "log \<Rightarrow> log \<Rightarrow> event list" where
  "added w w' = rev (take (length w' - length w) w')"

definition extends :: "log \<Rightarrow> log \<Rightarrow> bool" where
  "extends w w' \<longleftrightarrow> (\<exists>es. w' = es @ w)"

lemma extends_refl [simp, intro!]: "extends w w"
  by (simp add: extends_def)

lemma extends_Cons [intro]: "extends w w' \<Longrightarrow> extends w (e # w')"
  by (auto simp: extends_def)

lemma extends_trans [trans]: "extends u v \<Longrightarrow> extends v w \<Longrightarrow> extends u w"
  by (auto simp: extends_def)

lemma added_refl [simp]: "added w w = []"
  by (simp add: added_def)

lemma added_append [simp]: "added w (es @ w) = rev es"
  by (simp add: added_def)

lemma added_Cons [simp]: "added w (e # w) = [e]"
  using added_append [of w "[e]"] by simp

lemma added_trans: "extends u v \<Longrightarrow> extends v w \<Longrightarrow> added u w = added u v @ added v w"
  by (auto simp: extends_def) (metis added_append append.assoc rev_append)

lemma ReadOrchestration_added:
  "snd (ReadOrchestration env k w) = EvGet k (e_get env w k) # w"
  by (simp add: ReadOrchestration_def Let_def)

lemma ReadOrchestration_Inr:
  "ReadOrchestration env k w = (Inr (orch, rv), w') \<longleftrightarrow>
     e_get env w k = Inr (Stored orch, rv) \<and> w' = EvGet k (Inr (Stored orch, rv)) # w"
  by (auto simp: ReadOrchestration_def Let_def split: sum.splits prod.splits kv_value.splits)

lemma ReadOrchestration_cases:
  obtains orch r where "ReadOrchestration env k w = (Inr (orch, r), EvGet k (Inr (Stored orch, r)) # w)"
      "e_get env w k = Inr (Stored orch, r)"
  | err x where "ReadOrchestration env k w = (Inl err, EvGet k x # w)" "e_get env w k = x"
      "\<nexists>orch r. x = Inr (Stored orch, r)"
proof (cases "e_get env w k")
  case (Inl err)
  then show thesis by (intro that(2)) (auto simp: ReadOrchestration_def)
next
  case (Inr p)
  obtain v n where p: "p = (v, n)" by (cases p)
  show thesis
  proof (cases v)
    case (Stored orch)
    with Inr p show thesis by (intro that(1)) (auto simp: ReadOrchestration_def)
  next
    case (Garbled err)
    with Inr p show thesis by (intro that(2)) (auto simp: ReadOrchestration_def)
  qed
qed

section \<open>Optimistic concurrency\<close>

text \<open>
  What the events of an update say. The first write is the update function's value for the
  orchestration and revision the caller holds; every further write is its value for the
  orchestration that was just read, at the revision it was read at; a new attempt is made only
  after a conflict; and only the last write can have been accepted.
\<close>

fun update_trace :: "(log \<Rightarrow> orchestration \<Rightarrow> orchestration) \<Rightarrow> orchestration \<Rightarrow> nat \<Rightarrow> event list \<Rightarrow> log \<Rightarrow> bool" where
  "update_trace f orch rv [EvUpdate v rv' r] w \<longleftrightarrow> v = f w orch \<and> rv' = rv"
| "update_trace f orch rv [EvUpdate v rv' r, EvGet k x] w \<longleftrightarrow>
     v = f w orch \<and> rv' = rv \<and> (\<exists>err. r = Inl err \<and> isRevisionConflict err) \<and> k = o_ID v \<and>
     (\<nexists>y n. x = Inr (Stored y, n))"
| "update_trace f orch rv (EvUpdate v rv' r # EvGet k x # es) w \<longleftrightarrow>
     v = f w orch \<and> rv' = rv \<and> (\<exists>err. r = Inl err \<and> isRevisionConflict err) \<and> k = o_ID v \<and>
     (\<exists>y n. x = Inr (Stored y, n) \<and> update_trace f y n es (EvGet k x # EvUpdate v rv' r # w))"
| "update_trace f orch rv es w \<longleftrightarrow> False"

lemma update_trace_nonempty: "update_trace f orch r es w \<Longrightarrow> es \<noteq> []"
  by auto

lemma update_trace_retry:
  "update_trace f y n es (EvGet k (Inr (Stored y, n)) # EvUpdate v rv' r # w) \<Longrightarrow>
   v = f w orch \<Longrightarrow> rv' = rv \<Longrightarrow> r = Inl err \<Longrightarrow> isRevisionConflict err \<Longrightarrow> k = o_ID v \<Longrightarrow>
   update_trace f orch rv (EvUpdate v rv' r # EvGet k (Inr (Stored y, n)) # es) w"
  by (cases es) auto

text \<open>How often an update wrote.\<close>

definition writes :: "event list \<Rightarrow> nat" where
  "writes es = length (filter (\<lambda>e. case e of EvUpdate _ _ _ \<Rightarrow> True | _ \<Rightarrow> False) es)"

lemma update_loop_correct:
  "update_loop c env f orch rv w = ((applied, res), w') \<Longrightarrow>
     extends w w' \<and> update_trace f orch rv (added w w') w \<and> writes (added w w') \<le> Suc c \<and>
     (\<forall>o' rv'. res = Inr (o', rv') \<longrightarrow>
        applied = o' \<and> (\<exists>r ws. w' = EvUpdate o' r (Inr rv') # ws \<and> e_update env ws o' r = Inr rv')) \<and>
     (\<forall>err. res = Inl err \<longrightarrow> (\<forall>v r n. EvUpdate v r (Inr n) \<notin> set (added w w')))"
proof (induction c arbitrary: orch rv w)
  case 0
  then show ?case
    by (auto simp: update_loop.simps [of 0] Let_def writes_def split: sum.splits if_splits)
next
  case (Suc c)
  let ?v = "f w orch" and ?r = "e_update env w (f w orch) rv"
  let ?w1 = "EvUpdate ?v rv ?r # w"
  show ?case
  proof (cases "\<exists>err. ?r = Inl err \<and> isRevisionConflict err")
    case False
    with Suc.prems show ?thesis
      by (auto simp: update_loop.simps [of "Suc c"] Let_def writes_def split: sum.splits if_splits)
  next
    case True
    then obtain err where err: "?r = Inl err" "isRevisionConflict err" by blast
    show ?thesis
    proof (rule ReadOrchestration_cases [of env "o_ID ?v" ?w1])
      fix e x assume r: "ReadOrchestration env (o_ID ?v) ?w1 = (Inl e, EvGet (o_ID ?v) x # ?w1)"
        "\<nexists>orch r. x = Inr (Stored orch, r)"
      let ?w2 = "[EvGet (o_ID ?v) x, EvUpdate ?v rv ?r] @ w"
      from r Suc.prems err have res: "w' = ?w2" "\<exists>e. res = Inl e"
        by (auto simp: update_loop.simps [of "Suc c"] Let_def)
      have "added w w' = [EvUpdate ?v rv ?r, EvGet (o_ID ?v) x]" "extends w w'"
        unfolding res(1) by (subst added_append, simp, auto simp: extends_def)
      with res r err show ?thesis by (auto simp: writes_def)
    next
      fix y n assume r: "ReadOrchestration env (o_ID ?v) ?w1 =
          (Inr (y, n), EvGet (o_ID ?v) (Inr (Stored y, n)) # ?w1)"
      let ?w2 = "EvGet (o_ID ?v) (Inr (Stored y, n)) # ?w1"
      from r Suc.prems err have "update_loop c env f y n ?w2 = ((applied, res), w')"
        by (simp add: update_loop.simps [of "Suc c"] Let_def)
      note IH = Suc.IH [OF this]
      have e: "extends w ?w2" by auto
      have "added w ?w2 = [EvUpdate ?v rv ?r, EvGet (o_ID ?v) (Inr (Stored y, n))]"
        using added_append [of w "[EvGet (o_ID ?v) (Inr (Stored y, n)), EvUpdate ?v rv ?r]"] by simp
      with IH added_trans [OF e, of w'] have a: "added w w' =
          EvUpdate ?v rv ?r # EvGet (o_ID ?v) (Inr (Stored y, n)) # added ?w2 w'" by simp
      have "update_trace f orch rv (added w w') w"
        unfolding a by (rule update_trace_retry) (use IH err in auto)
      with IH a e err show ?thesis by (auto simp: writes_def intro: extends_trans)
    qed
  qed
qed

text \<open>
  C5. An update writes at most 50 times. Its first write is the update function's value for
  the orchestration and revision it was given, every later one is its value for the
  orchestration just read, at the revision it was read at, after the store answered a write
  with a conflict. It succeeds exactly when the store accepted its last write, returns that
  value and its new revision, and otherwise nothing it wrote was accepted. So an accepted
  update never overwrites a state that the update function was not applied to.
\<close>

theorem UpdateOrchestration_correct:
  "\<exists>applied res w'. UpdateOrchestration env f orch rv w = ((applied, res), w') \<and>
     extends w w' \<and> update_trace f orch rv (added w w') w \<and> writes (added w w') \<le> 50 \<and>
     (case res of
        Inr (stored, rv') \<Rightarrow> applied = stored \<and> (\<exists>r. last (added w w') = EvUpdate stored r (Inr rv'))
      | Inl err \<Rightarrow> filter (\<lambda>e. \<exists>v r n. e = EvUpdate v r (Inr n)) (added w w') = [])"
proof -
  obtain applied res w' where u: "UpdateOrchestration env f orch rv w = ((applied, res), w')"
    by (metis surj_pair)
  then have l: "update_loop 49 env f orch rv w = ((applied, res), w')"
    by (simp add: UpdateOrchestration_def maxUpdateConflicts_def)
  note c = update_loop_correct [OF l]
  show ?thesis
  proof (cases res)
    case (Inl err)
    with c have "\<forall>v r n. EvUpdate v r (Inr n) \<notin> set (added w w')" by blast
    then have "filter (\<lambda>e. \<exists>v r n. e = EvUpdate v r (Inr n)) (added w w') = []"
      by (auto simp: filter_empty_conv)
    with c u Inl show ?thesis by auto
  next
    case (Inr p)
    obtain stored rv' where p: "p = (stored, rv')" by (cases p)
    with Inr c obtain r ws where w': "w' = EvUpdate stored r (Inr rv') # ws" "applied = stored" by blast
    from c have e: "extends w w'" and tr: "update_trace f orch rv (added w w') w" by blast+
    from e obtain es where es: "w' = es @ w" by (auto simp: extends_def)
    with update_trace_nonempty [OF tr] have "es \<noteq> []" by auto
    with es w'(1) have "hd es = EvUpdate stored r (Inr rv')" by (cases es) auto
    with es \<open>es \<noteq> []\<close> have "last (added w w') = EvUpdate stored r (Inr rv')" by (simp add: last_rev)
    with c u Inr p w'(2) show ?thesis by auto
  qed
qed

text \<open>What an enqueue did: it published the messages of the activities in order, up to the
  first failure.\<close>

lemma EnqueueActivityMessages_cases:
  "EnqueueActivityMessages env oid activities w = (err, w') \<Longrightarrow>
     extends w w' \<and>
     (case err of
        None \<Rightarrow> added w w' = map (\<lambda>a. EvActivity (activity_subject a) (ActivityMessageID oid (a_ID a))
          \<lparr>am_OrchestrationID = oid, am_Activity = a\<rparr> None) activities
      | Some e \<Rightarrow> (\<exists>as a bs cause. activities = as @ a # bs \<and> chain_has (\<lambda>x. x = cause) e \<and>
          added w w' = map (\<lambda>a. EvActivity (activity_subject a) (ActivityMessageID oid (a_ID a))
            \<lparr>am_OrchestrationID = oid, am_Activity = a\<rparr> None) as @
          [EvActivity (activity_subject a) (ActivityMessageID oid (a_ID a))
            \<lparr>am_OrchestrationID = oid, am_Activity = a\<rparr> (Some cause)]))"
proof (induction activities arbitrary: w)
  case Nil
  then show ?case by simp
next
  case (Cons a as)
  let ?ev = "\<lambda>r a. EvActivity (activity_subject a) (ActivityMessageID oid (a_ID a))
    \<lparr>am_OrchestrationID = oid, am_Activity = a\<rparr> r"
  define r where "r = e_activity env w (activity_subject a) (ActivityMessageID oid (a_ID a))
    \<lparr>am_OrchestrationID = oid, am_Activity = a\<rparr>"
  show ?case
  proof (cases r)
    case (Some cause)
    then have "w' = ?ev (Some cause) a # w" "\<exists>m. err = Some (WrapError m cause)"
      using Cons.prems by (auto simp: Let_def r_def [symmetric])
    then show ?thesis using chain_has_root [of "\<lambda>x. x = cause" cause] by fastforce
  next
    case None
    then have rest: "EnqueueActivityMessages env oid as (?ev None a # w) = (err, w')"
      using Cons.prems by (simp add: Let_def r_def [symmetric])
    note IH = Cons.IH [OF rest]
    have e: "extends w (?ev None a # w)" by auto
    have ext: "extends w w'" using IH extends_trans [OF e] by blast
    have add: "added w w' = ?ev None a # added (?ev None a # w) w'"
      using added_trans [OF e, of w'] IH by simp
    show ?thesis
    proof (cases err)
      case None
      with IH ext add show ?thesis by simp
    next
      case (Some x)
      with IH obtain as' b bs cause where b: "as = as' @ b # bs" "chain_has (\<lambda>x. x = cause) x"
        "added (?ev None a # w) w' = map (?ev None) as' @ [?ev (Some cause) b]" by auto
      then have "added w w' = map (?ev None) (a # as') @ [?ev (Some cause) b]" using add by simp
      moreover have "a # as = (a # as') @ b # bs" using b(1) by simp
      ultimately show ?thesis using ext Some b(2) by (simp only: option.case) blast
    qed
  qed
qed

end
