(* ===== verification/Activity_Executor.thy ===== *)
theory Activity_Executor
  imports Nats_Client
begin

text \<open>
  The activity executor (\<open>pmanager/natsorchestration/activity.go\<close>): what an agent does
  with one activity message. Every handler returns what the Go function returns, or the text
  of a panic, together with the log of the calls it made. Logging, spans and metrics are left
  out; the trace context is kept, since it is part of the stored state.
\<close>

record executor =
  MaxActivityRetries :: int
  ActivityTimeout :: int

definition DefaultActivityTimeout :: int where "DefaultActivityTimeout = 5 * minute"

definition maxActivityRetries :: "executor \<Rightarrow> int" where
  "maxActivityRetries e = (if MaxActivityRetries e \<le> 0 then DefaultMaxDeliver else MaxActivityRetries e)"

definition activityTimeout :: "executor \<Rightarrow> int" where
  "activityTimeout e = (if ActivityTimeout e \<le> 0 then DefaultActivityTimeout else ActivityTimeout e)"

type_synonym outcome = "string + go_error option"

section \<open>Answering the message\<close>

definition msg_Ack :: "env \<Rightarrow> log \<Rightarrow> go_error option \<times> log" where
  "msg_Ack env w = (let r = e_ack env w in (r, EvAck r # w))"

definition msg_NakWithDelay :: "env \<Rightarrow> int \<Rightarrow> log \<Rightarrow> go_error option \<times> log" where
  "msg_NakWithDelay env d w = (let r = e_nak env w d in (r, EvNak d r # w))"

definition msg_Term :: "env \<Rightarrow> log \<Rightarrow> go_error option \<times> log" where
  "msg_Term env w = (let r = e_term env w in (r, EvTerm r # w))"

definition io_AckMessage :: "env \<Rightarrow> log \<Rightarrow> go_error option \<times> log" where
  "io_AckMessage env w =
     (let (r, w) = msg_Ack env w
      in (map_option (\<lambda>err. WrapError (''failed to ACK message: '' @ error_text err) err) r, w))"

definition io_NakError :: "env \<Rightarrow> nat option \<Rightarrow> go_error \<Rightarrow> log \<Rightarrow> go_error \<times> log" where
  "io_NakError env md err w =
     (let (r, w) = msg_NakWithDelay env (RetryDelay (deliveryCount md)) w
      in (case r of None \<Rightarrow> err | Some err2 \<Rightarrow> JoinError [err, err2], w))"

section \<open>Errors that are stored\<close>

definition maxPersistedErrorBytes :: nat where "maxPersistedErrorBytes = 2048"

definition truncation_marker :: string where "truncation_marker = '' (truncated)''"

text \<open>\<open>utf8.RuneStart\<close>: every byte that is not of the form 10xxxxxx.\<close>

definition RuneStart :: "char \<Rightarrow> bool" where
  "RuneStart c \<longleftrightarrow> (of_char c :: nat) div 64 \<noteq> 2"

fun cut_back :: "string \<Rightarrow> nat \<Rightarrow> nat" where
  "cut_back message 0 = 0"
| "cut_back message (Suc n) =
     (if RuneStart (message ! Suc n) then Suc n else cut_back message n)"

definition truncateError :: "string \<Rightarrow> string" where
  "truncateError message =
     (if length message \<le> maxPersistedErrorBytes then message
      else take (cut_back message (maxPersistedErrorBytes - length truncation_marker)) message @
        truncation_marker)"

section \<open>Running the activity\<close>

definition select_handler :: "string \<Rightarrow> handler" where
  "select_handler d =
     (if d = DeployDiscriminator then ProcessDeploy
      else if d = DisposeDiscriminator then ProcessDispose else Process)"

definition timed_out_result :: "executor \<Rightarrow> activity \<Rightarrow> activity_result \<Rightarrow> activity_result" where
  "timed_out_result e a result =
     (let resultErr = (case ar_Error result of
            None \<Rightarrow> Sentinel ''context.DeadlineExceeded'' | Some err \<Rightarrow> err)
      in \<lparr>ar_Result = ActivityResultRetryError, ar_WaitOnReschedule = 0,
          ar_Error = Some (WrapError (''activity '' @ a_ID a @ '' did not finish within '' @
            duration_text (activityTimeout e) @ '': '' @ error_text resultErr) resultErr)\<rparr>)"

text \<open>The processor works on the orchestration's own data maps, so its writes are in the
  orchestration that is returned.\<close>

definition runActivity :: "executor \<Rightarrow> env \<Rightarrow> orchestration \<Rightarrow> activity \<Rightarrow> log \<Rightarrow>
    (string + activity_result \<times> orchestration) \<times> log" where
  "runActivity e env orch a w =
     (let h = select_handler (a_Discriminator a);
          r = e_run env w h (NewActivityContext (o_ID orch) a (o_ProcessingData orch) (o_OutputData orch));
          w = EvRun h a r # w
      in (case r of
            RunPanicked txt \<Rightarrow> Inl txt
          | Ran result processingData outputData exceeded callerDone \<Rightarrow>
              Inr (if ar_Result result = ActivityResultFatalError \<and> exceeded \<and> \<not> callerDone
                   then timed_out_result e a result else result,
                   orch\<lparr>o_ProcessingData := processingData, o_OutputData := outputData\<rparr>), w))"

section \<open>Saving state\<close>

definition merge_data :: "props \<Rightarrow> props \<Rightarrow> engine_state \<Rightarrow> orchestration \<Rightarrow> orchestration" where
  "merge_data values outputs engineState o' =
     o'\<lparr>o_ProcessingData := copy_into values (o_ProcessingData o'),
        o_OutputData := copy_into outputs (o_OutputData o'),
        o_EngineState := EngineState_Merge (o_EngineState o') engineState\<rparr>"

definition persistState :: "env \<Rightarrow> orchestration \<Rightarrow> nat \<Rightarrow> log \<Rightarrow> go_error option \<times> log" where
  "persistState env orch revision w =
     (let ((_, r), w) = UpdateOrchestration env
            (\<lambda>_. merge_data (o_ProcessingData orch) (o_OutputData orch) (o_EngineState orch))
            orch revision w
      in (case r of
            Inr _ \<Rightarrow> None
          | Inl err \<Rightarrow> Some (WrapError (''failed to persist orchestration state for '' @ o_ID orch @ '': '' @
              error_text err) err), w))"

section \<open>Responses\<close>

definition publishResponse :: "env \<Rightarrow> orchestration \<Rightarrow> log \<Rightarrow> go_error option \<times> log" where
  "publishResponse env orch w =
     (let response = \<lparr>or_ID = e_uuid env w, or_ManifestID = o_ID orch,
            or_CorrelationID = o_CorrelationID orch, or_OrchestrationType = o_OrchestrationType orch,
            or_Success = (o_State orch \<noteq> OrchestrationStateErrored), or_ErrorDetail = [],
            or_Properties = o_OutputData orch,
            or_CompensatedManifestID = o_CompensatedOrchestrationID orch\<rparr>;
          r = e_response env w response
      in (r, EvResponse response r # w))"

section \<open>Failing\<close>

definition mark_errored :: "env \<Rightarrow> orchestration \<Rightarrow> string \<Rightarrow> log \<Rightarrow> orchestration \<Rightarrow> orchestration" where
  "mark_errored env orch message w o' =
     (let o' = SetState (e_now env w) OrchestrationStateErrored
                 (merge_data (o_ProcessingData orch) (o_OutputData orch) (o_EngineState orch) o')
      in o'\<lparr>o_EngineState := (o_EngineState o')\<lparr>EngineError := truncateError message\<rparr>\<rparr>)"

definition nil_dereference :: string where
  "nil_dereference = ''runtime error: invalid memory address or nil pointer dereference''"

text \<open>A fatal result without an error makes the update function panic on
  \<open>resultErr.Error()\<close>, before anything is written.\<close>

definition handleFatalError :: "env \<Rightarrow> orchestration \<Rightarrow> nat \<Rightarrow> go_error option \<Rightarrow> log \<Rightarrow> outcome \<times> log" where
  "handleFatalError env orch revision resultErr w =
     (case resultErr of
        None \<Rightarrow> (Inl nil_dereference, w)
      | Some err \<Rightarrow>
          (let ((applied, _), w) = UpdateOrchestration env (mark_errored env orch (error_text err)) orch revision w;
               (r, w) = publishResponse env applied w
           in case r of
                Some e \<Rightarrow> (Inr (Some e), w)
              | None \<Rightarrow>
                  (let (r, w) = msg_Ack env w
                   in (Inr (Some (case r of
                         Some ackErr \<Rightarrow> WrapError (''fatal failure while executing activity '' @ o_ID applied @
                           '' (errors: '' @ error_text err @ '', '' @ error_text ackErr @ '')'') err
                       | None \<Rightarrow> WrapError (''fatal failure while executing activity '' @ o_ID applied @
                           '': '' @ error_text err) err)), w))))"

definition retries_of :: "orchestration \<Rightarrow> string \<Rightarrow> int" where
  "retries_of orch activityID =
     (case lookup (Retries (o_EngineState orch)) activityID of None \<Rightarrow> 0 | Some n \<Rightarrow> n)"

definition handleRetryError :: "executor \<Rightarrow> env \<Rightarrow> orchestration \<Rightarrow> nat \<Rightarrow> string \<Rightarrow> activity_result \<Rightarrow> log \<Rightarrow>
    outcome \<times> log" where
  "handleRetryError e env orch revision activityID result w =
     (let resultErr = (case ar_Error result of
            None \<Rightarrow> ErrorString ''activity requested a retry'' | Some err \<Rightarrow> err);
          retries = retries_of orch activityID + 1;
          orch = orch\<lparr>o_EngineState := (o_EngineState orch)
                   \<lparr>Retries := put activityID retries (Retries (o_EngineState orch))\<rparr>\<rparr>
      in if retries \<ge> maxActivityRetries e then
           handleFatalError env orch revision
             (Some (WrapError (''activity '' @ activityID @ '' failed '' @ int_text retries @ '' times: '' @
               error_text resultErr) resultErr)) w
         else
           (let delay = (if ar_WaitOnReschedule result \<le> 0 then RetryDelay retries
                         else ar_WaitOnReschedule result);
                (_, w) = persistState env orch revision w;
                (r, w) = msg_NakWithDelay env delay w
            in (Inr (Some (case r of
                  Some nakErr \<Rightarrow> WrapError
                    (''retriable failure when executing activity message and NAK response '' @ o_ID orch @
                     '' (errors: '' @ error_text resultErr @ '', '' @ error_text nakErr @ '')'') resultErr
                | None \<Rightarrow> WrapError (''retriable failure when executing activity '' @ o_ID orch @ '': '' @
                    error_text resultErr) resultErr)), w)))"

section \<open>Completing\<close>

definition handleOrchestrationCompletion :: "env \<Rightarrow> nat option \<Rightarrow> orchestration \<Rightarrow> nat \<Rightarrow> log \<Rightarrow> outcome \<times> log" where
  "handleOrchestrationCompletion env md orch revision w =
     (let ((_, r), w) = UpdateOrchestration env
            (\<lambda>w. SetState (e_now env w) OrchestrationStateCompleted) orch revision w
      in case r of
           Inl err \<Rightarrow>
             (let (err, w) = io_NakError env md err w
              in (Inr (Some (ErrorString (''failed to mark orchestration '' @ o_ID orch @
                    '' as completed: '' @ error_text err))), w))
         | Inr _ \<Rightarrow>
             (let (r, w) = publishResponse env orch w
              in case r of
                   Some err \<Rightarrow> (Inr (Some err), w)
                 | None \<Rightarrow> (let (r, w) = io_AckMessage env w in (Inr r, w))))"

definition mark_activity_completed :: "orchestration \<Rightarrow> string \<Rightarrow> orchestration \<Rightarrow> orchestration" where
  "mark_activity_completed orch activityID o' =
     (let o' = merge_data (o_ProcessingData orch) (o_OutputData orch) (o_EngineState orch) o'
      in o'\<lparr>o_Completed := put activityID () (o_Completed o')\<rparr>)"

definition processOnActivityCompletion :: "env \<Rightarrow> nat option \<Rightarrow> orchestration \<Rightarrow> nat \<Rightarrow> activity_message \<Rightarrow> log \<Rightarrow>
    outcome \<times> log" where
  "processOnActivityCompletion env md orch revision oMessage w =
     (let activityID = a_ID (am_Activity oMessage);
          ((_, r), w) = UpdateOrchestration env (\<lambda>_. mark_activity_completed orch activityID) orch revision w
      in case r of
           Inl err \<Rightarrow> (let (err, w) = io_NakError env md err w in (Inr (Some err), w))
         | Inr (orch, revision) \<Rightarrow>
             if o_State orch = OrchestrationStateErrored then
               (let (r, w) = io_AckMessage env w in (Inr r, w))
             else (case CanProceedToNextStep orch activityID of
                 Inl err \<Rightarrow>
                   (let (err, w) = io_NakError env md err w
                    in (Inr (Some (WrapError (''failed to proceed with orchestration '' @
                          am_OrchestrationID oMessage @ '': '' @ error_text err) err)), w))
               | Inr canProceed \<Rightarrow>
                   if \<not> canProceed then (let (r, w) = io_AckMessage env w in (Inr r, w))
                   else (case GetNextStepActivities (o_Steps orch) activityID of
                       [] \<Rightarrow> handleOrchestrationCompletion env md orch revision w
                     | a # rest \<Rightarrow>
                         (let (r, w) = EnqueueActivityMessages env (o_ID orch) (a # rest) w
                          in case r of
                               Some err \<Rightarrow>
                                 (let (err, w) = io_NakError env md err w
                                  in (Inr (Some (WrapError
                                        (''failed to enqueue next orchestration activities '' @
                                         am_OrchestrationID oMessage @ '': '' @ error_text err) err)), w))
                             | None \<Rightarrow> (let (r, w) = io_AckMessage env w in (Inr r, w))))))"

section \<open>Processing a message\<close>

definition attempts_of :: "orchestration \<Rightarrow> string \<Rightarrow> int" where
  "attempts_of orch activityID =
     (case lookup (Attempts (o_EngineState orch)) activityID of None \<Rightarrow> 0 | Some n \<Rightarrow> n)"

text \<open>The switch over the activity's result.\<close>

definition handleResult :: "executor \<Rightarrow> env \<Rightarrow> nat option \<Rightarrow> orchestration \<Rightarrow> nat \<Rightarrow> activity_message \<Rightarrow>
    activity_result \<Rightarrow> log \<Rightarrow> outcome \<times> log" where
  "handleResult e env md orch revision oMessage result w =
     (if ar_Result result = ActivityResultRetryError then
        handleRetryError e env orch revision (a_ID (am_Activity oMessage)) result w
      else if ar_Result result = ActivityResultFatalError then
        handleFatalError env orch revision (ar_Error result) w
      else if ar_Result result = ActivityResultWait then
        (let (r, w) = persistState env orch revision w
         in case r of
              Some err \<Rightarrow> (let (err, w) = io_NakError env md err w in (Inr (Some err), w))
            | None \<Rightarrow> (let (r, w) = io_AckMessage env w in (Inr r, w)))
      else if ar_Result result = ActivityResultSchedule then
        (let orch = orch\<lparr>o_EngineState := (o_EngineState orch)\<lparr>TraceContext := traceparent env w\<rparr>\<rparr>;
             (r, w) = persistState env orch revision w
         in case r of
              Some err \<Rightarrow> (let (err, w) = io_NakError env md err w in (Inr (Some err), w))
            | None \<Rightarrow>
                (let (r, w) = msg_NakWithDelay env (ar_WaitOnReschedule result) w
                 in (Inr (map_option (\<lambda>err. WrapError (''failed to reschedule schedule activity '' @
                       am_OrchestrationID oMessage @ '': '' @ error_text err) err) r), w)))
      else processOnActivityCompletion env md orch revision oMessage w)"

definition processRead :: "executor \<Rightarrow> env \<Rightarrow> nat option \<Rightarrow> orchestration \<Rightarrow> nat \<Rightarrow> activity_message \<Rightarrow> log \<Rightarrow>
    outcome \<times> log" where
  "processRead e env md orch revision oMessage w =
     (let finalDelivery = IsFinalDelivery md ActivityMaxDeliver;
          a = am_Activity oMessage;
          orch = orch\<lparr>o_EngineState := (o_EngineState orch)\<lparr>TraceContext := []\<rparr>\<rparr>
      in if has_key (o_Completed orch) (a_ID a) \<and> \<not> finalDelivery then
           (if o_State orch = OrchestrationStateCompleted \<or> o_State orch = OrchestrationStateErrored then
              (let (r, w) = io_AckMessage env w in (Inr r, w))
            else processOnActivityCompletion env md orch revision oMessage w)
         else
           (let orch = orch\<lparr>o_EngineState := (o_EngineState orch)
                  \<lparr>Attempts := put (a_ID a) (attempts_of orch (a_ID a) + 1) (Attempts (o_EngineState orch))\<rparr>\<rparr>
            in if finalDelivery then
                 handleFatalError env orch revision
                   (Some (ErrorString (''activity '' @ a_ID a @ '' was delivered '' @
                     int_text ActivityMaxDeliver @ '' times without completing''))) w
               else
                 (case runActivity e env orch a w of
                    (Inl txt, w) \<Rightarrow> (Inl txt, w)
                  | (Inr (result, orch), w) \<Rightarrow> handleResult e env md orch revision oMessage result w)))"

definition processMessage_inner :: "executor \<Rightarrow> env \<Rightarrow> nat option \<Rightarrow> go_error + activity_message \<Rightarrow> log \<Rightarrow>
    outcome \<times> log" where
  "processMessage_inner e env md data w =
     (case data of
        Inl err \<Rightarrow>
          (let (_, w) = io_AckMessage env w
           in (Inr (Some (WrapError (''failed to unmarshal orchestration message: '' @ error_text err) err)), w))
      | Inr oMessage \<Rightarrow>
          (case ReadOrchestration env (am_OrchestrationID oMessage) w of
             (Inl err, w) \<Rightarrow>
               (let (err, w) =
                      (if IsFinalDelivery md ActivityMaxDeliver then
                         (let (r, w) = msg_Term env w
                          in (case r of
                                None \<Rightarrow> err
                              | Some termErr \<Rightarrow> JoinError [err,
                                  WrapError (''failed to TERM message: '' @ error_text termErr) termErr], w))
                       else (err, w))
                in (Inr (Some (WrapError (''failed to read orchestration data: '' @ error_text err) err)), w))
           | (Inr (orch, revision), w) \<Rightarrow> processRead e env md orch revision oMessage w))"

text \<open>With the deferred \<open>TermOnPanic\<close>.\<close>

definition processMessage :: "executor \<Rightarrow> env \<Rightarrow> nat option \<Rightarrow> go_error + activity_message \<Rightarrow> log \<Rightarrow>
    go_error option \<times> log" where
  "processMessage e env md data w =
     (case processMessage_inner e env md data w of
        (Inr r, w) \<Rightarrow> (r, w)
      | (Inl txt, w) \<Rightarrow>
          (let err = ErrorString (''panic while processing message: '' @ txt);
               (r, w) = msg_Term env w
           in (Some (case r of
                 None \<Rightarrow> err
               | Some termErr \<Rightarrow> JoinError [err,
                   WrapError (''failed to TERM message: '' @ error_text termErr) termErr]), w)))"

end
