(* ===== verification/Executor_Safety.thy ===== *)
theory Executor_Safety
  imports Activity_Executor
begin

text \<open>
  What the activity executor guarantees, call by call: the effects of each handler as a
  condition on the events it adds to the log, what must be in the store before a message is
  acknowledged or a next activity is published, and how an accepted write may change the
  orchestration.
\<close>

section \<open>Updates\<close>

text \<open>What an update does, in the form the handlers use: it adds only reads and rejected
  writes, up to an accepted last one whose value is the update function's value for
  \<open>y\<close>, which is what the caller held or what the store held at that revision.\<close>

fun kv_event :: "event \<Rightarrow> bool" where
  "kv_event (EvGet _ _) = True"
| "kv_event (EvUpdate _ _ _) = True"
| "kv_event _ = False"

fun accepted :: "event \<Rightarrow> bool" where
  "accepted (EvUpdate _ _ (Inr _)) = True"
| "accepted _ = False"

definition quiet :: "event list \<Rightarrow> bool" where
  "quiet es \<longleftrightarrow> list_all (\<lambda>e. kv_event e \<and> \<not> accepted e) es"

lemma quiet_simps [simp]:
  "quiet []" "quiet (e # es) \<longleftrightarrow> kv_event e \<and> \<not> accepted e \<and> quiet es"
  "quiet (es @ es') \<longleftrightarrow> quiet es \<and> quiet es'"
  by (auto simp: quiet_def)

definition held_or_read :: "orchestration \<Rightarrow> nat \<Rightarrow> event list \<Rightarrow> orchestration \<Rightarrow> nat \<Rightarrow> bool" where
  "held_or_read orch rv es y n \<longleftrightarrow>
     (es = [] \<and> y = orch \<and> n = rv) \<or> (\<exists>k es'. es = EvGet k (Inr (Stored y, n)) # es')"

lemma update_loop_applied:
  "update_loop c env f orch rv w = ((applied, res), w') \<Longrightarrow> \<exists>y ws. applied = f ws y"
proof (induction c arbitrary: orch rv w)
  case 0
  then show ?case by (auto simp: update_loop.simps [of 0] Let_def split: sum.splits if_splits)
next
  case (Suc c)
  from Suc.prems have "applied = f w orch \<or> (\<exists>y n w2. update_loop c env f y n w2 = ((applied, res), w'))"
    by (auto simp: update_loop.simps [of "Suc c"] Let_def split: sum.splits if_splits prod.splits)
  with Suc.IH show ?case by blast
qed

definition update_shape :: "(log \<Rightarrow> orchestration \<Rightarrow> orchestration) \<Rightarrow> orchestration \<Rightarrow> nat \<Rightarrow> log \<Rightarrow>
    orchestration \<times> (go_error + orchestration \<times> nat) \<Rightarrow> log \<Rightarrow> bool" where
  "update_shape f orch rv w r w' \<longleftrightarrow>
     (case snd r of
        Inl err \<Rightarrow> (\<exists>es. w' = es @ w \<and> quiet es)
      | Inr (stored, rv') \<Rightarrow> fst r = stored \<and>
          (\<exists>es y n. w' = EvUpdate stored n (Inr rv') # es @ w \<and> quiet es \<and>
             stored = f (es @ w) y \<and> held_or_read orch rv es y n))"

lemma update_shape_failed: "quiet es \<Longrightarrow> update_shape f orch rv w (applied, Inl err) (es @ w)"
  by (auto simp: update_shape_def)

lemma update_shape_stored:
  "quiet es \<Longrightarrow> v = f (es @ w) y \<Longrightarrow> held_or_read orch rv es y n \<Longrightarrow>
   update_shape f orch rv w (v, Inr (v, rv')) (EvUpdate v n (Inr rv') # es @ w)"
  by (auto simp: update_shape_def)

lemma update_shape_retry:
  assumes "update_shape f y n (EvGet k (Inr (Stored y, n)) # EvUpdate v m (Inl err) # w) r w'"
  shows "update_shape f orch rv w r w'"
proof -
  let ?es = "[EvGet k (Inr (Stored y, n)), EvUpdate v m (Inl err)]"
  have q: "quiet ?es" by simp
  obtain applied res where r: "r = (applied, res)" by (cases r)
  show ?thesis
  proof (cases res)
    case (Inl e)
    with assms r obtain es where "w' = (es @ ?es) @ w" "quiet (es @ ?es)"
      by (auto simp: update_shape_def)
    with update_shape_failed [of "es @ ?es"] r Inl show ?thesis by blast
  next
    case (Inr p)
    obtain stored rv' where p: "p = (stored, rv')" by (cases p)
    with assms r Inr obtain es y' n' where *: "applied = stored"
      "w' = EvUpdate stored n' (Inr rv') # (es @ ?es) @ w" "quiet (es @ ?es)"
      "stored = f ((es @ ?es) @ w) y'" "held_or_read y n es y' n'"
      by (auto simp: update_shape_def)
    have "held_or_read orch rv (es @ ?es) y' n'" using *(5) by (auto simp: held_or_read_def)
    with *(3,4) have "update_shape f orch rv w (stored, Inr (stored, rv'))
        (EvUpdate stored n' (Inr rv') # (es @ ?es) @ w)" by (intro update_shape_stored)
    then show ?thesis using r Inr p *(1,2) by simp
  qed
qed

lemma update_loop_single:
  assumes "update_loop c env f orch rv w = (r, w')"
    and "\<not> (\<exists>err. e_update env w (f w orch) rv = Inl err \<and> isRevisionConflict err \<and> c \<noteq> 0)"
  shows "update_shape f orch rv w r w'"
proof (cases "e_update env w (f w orch) rv")
  case (Inr rv')
  with assms have "r = (f w orch, Inr (f w orch, rv'))"
    "w' = EvUpdate (f w orch) rv (Inr rv') # [] @ w"
    by (auto simp: update_loop.simps [of c] Let_def)
  then show ?thesis using update_shape_stored [of "[]" "f w orch" f w orch orch rv rv rv']
    by (simp add: held_or_read_def)
next
  case (Inl err)
  with assms have "\<exists>e. r = (f w orch, Inl e)" "w' = [EvUpdate (f w orch) rv (Inl err)] @ w"
    by (auto simp: update_loop.simps [of c] Let_def split: if_splits nat.splits)
  then show ?thesis using update_shape_failed [of "[EvUpdate (f w orch) rv (Inl err)]" f orch rv w]
    by auto
qed

lemma update_loop_shape:
  "update_loop c env f orch rv w = (r, w') \<Longrightarrow> update_shape f orch rv w r w'"
proof (induction c arbitrary: orch rv w)
  case 0
  then show ?case by (rule update_loop_single) simp
next
  case (Suc c)
  let ?v = "f w orch" and ?r = "e_update env w (f w orch) rv"
  let ?w1 = "EvUpdate ?v rv ?r # w"
  show ?case
  proof (cases "\<exists>err. ?r = Inl err \<and> isRevisionConflict err")
    case False
    with Suc.prems show ?thesis by (intro update_loop_single) auto
  next
    case True
    then obtain err where err: "?r = Inl err" "isRevisionConflict err" by blast
    show ?thesis
    proof (rule ReadOrchestration_cases [of env "o_ID ?v" ?w1])
      fix e x assume "ReadOrchestration env (o_ID ?v) ?w1 = (Inl e, EvGet (o_ID ?v) x # ?w1)"
      with Suc.prems err have "w' = [EvGet (o_ID ?v) x, EvUpdate ?v rv (Inl err)] @ w"
        "\<exists>e. r = (?v, Inl e)" by (auto simp: update_loop.simps [of "Suc c"] Let_def)
      then show ?thesis
        using update_shape_failed [of "[EvGet (o_ID ?v) x, EvUpdate ?v rv (Inl err)]" f orch rv w] by auto
    next
      fix y n assume r: "ReadOrchestration env (o_ID ?v) ?w1 =
          (Inr (y, n), EvGet (o_ID ?v) (Inr (Stored y, n)) # ?w1)"
      with Suc.prems err have "update_loop c env f y n
          (EvGet (o_ID ?v) (Inr (Stored y, n)) # EvUpdate ?v rv (Inl err) # w) = (r, w')"
        by (simp add: update_loop.simps [of "Suc c"] Let_def)
      then show ?thesis by (intro update_shape_retry [OF Suc.IH])
    qed
  qed
qed

lemma UpdateOrchestration_cases:
  obtains applied err es y ws where
      "UpdateOrchestration env f orch rv w = ((applied, Inl err), es @ w)" "quiet es" "applied = f ws y"
  | stored rv' es y n where
      "UpdateOrchestration env f orch rv w =
         ((stored, Inr (stored, rv')), EvUpdate stored n (Inr rv') # es @ w)"
      "quiet es" "stored = f (es @ w) y" "held_or_read orch rv es y n"
proof -
  obtain applied res w' where u: "UpdateOrchestration env f orch rv w = ((applied, res), w')"
    by (metis surj_pair)
  note l = u [unfolded UpdateOrchestration_def]
  show thesis
  proof (cases res)
    case (Inl err)
    from update_loop_applied [OF l] obtain ws y where "applied = f ws y" by blast
    with u Inl update_loop_shape [OF l] that(1) show thesis by (auto simp: update_shape_def)
  next
    case (Inr p)
    with u update_loop_shape [OF l] that(2) show thesis by (cases p) (auto simp: update_shape_def)
  qed
qed

section \<open>Steps of the stored orchestration\<close>

text \<open>
  How one accepted write of the engine may change an orchestration: its identity, its steps
  and its origin never change; \<open>Completed\<close> only gains the activity at hand; the state
  becomes errored, or completed once the completion of the last step was seen in the store.
\<close>

definition same_identity :: "orchestration \<Rightarrow> orchestration \<Rightarrow> bool" where
  "same_identity a b \<longleftrightarrow>
     o_ID b = o_ID a \<and> o_CorrelationID b = o_CorrelationID a \<and> o_DefinitionID b = o_DefinitionID a \<and>
     o_CreatedTimestamp b = o_CreatedTimestamp a \<and> o_OrchestrationType b = o_OrchestrationType a \<and>
     o_Steps b = o_Steps a \<and> o_OriginTraceContext b = o_OriginTraceContext a \<and>
     o_CompensatedOrchestrationID b = o_CompensatedOrchestrationID a"

definition same_core :: "orchestration \<Rightarrow> orchestration \<Rightarrow> bool" where
  "same_core a b \<longleftrightarrow> same_identity a b \<and> o_Completed b = o_Completed a \<and> o_State b = o_State a \<and>
     o_StateTimestamp b = o_StateTimestamp a"

lemma same_core_refl [simp, intro!]: "same_core a a"
  by (simp add: same_core_def same_identity_def)

lemma same_identity_trans: "same_identity a b \<Longrightarrow> same_identity b c \<Longrightarrow> same_identity a c"
  by (simp add: same_identity_def)

lemma same_core_trans: "same_core a b \<Longrightarrow> same_core b c \<Longrightarrow> same_core a c"
  by (auto simp: same_core_def intro: same_identity_trans)

definition stored_by :: "event list \<Rightarrow> orchestration \<Rightarrow> bool" where
  "stored_by ws x \<longleftrightarrow> (\<exists>n m. EvUpdate x n (Inr m) \<in> set ws)"

definition step_complete :: "orchestration \<Rightarrow> string \<Rightarrow> bool" where
  "step_complete x activityID \<longleftrightarrow> CanProceedToNextStep x activityID = Inr True \<and>
     has_key (o_Completed x) activityID \<and> o_State x \<noteq> OrchestrationStateErrored"

inductive kv_step :: "string \<Rightarrow> (orchestration \<Rightarrow> bool) \<Rightarrow> orchestration \<Rightarrow> orchestration \<Rightarrow> bool"
  for activityID seen a b where
  data: "same_core a b \<Longrightarrow> kv_step activityID seen a b"
| activity_done: "same_identity a b \<Longrightarrow> o_Completed b = put activityID () (o_Completed a) \<Longrightarrow>
    o_State b = o_State a \<Longrightarrow> kv_step activityID seen a b"
| errored: "same_identity a b \<Longrightarrow> o_Completed b = o_Completed a \<Longrightarrow>
    o_State b = OrchestrationStateErrored \<Longrightarrow> kv_step activityID seen a b"
| completed: "same_identity a b \<Longrightarrow> o_Completed b = o_Completed a \<Longrightarrow>
    o_State b = OrchestrationStateCompleted \<Longrightarrow> seen x \<Longrightarrow> step_complete x activityID \<Longrightarrow>
    GetNextStepActivities (o_Steps x) activityID = [] \<Longrightarrow> kv_step activityID seen a b"

lemma stored_by_append [simp]: "stored_by (es @ ws) x \<longleftrightarrow> stored_by es x \<or> stored_by ws x"
  by (auto simp: stored_by_def)

lemma kv_step_mono:
  "kv_step aid seen a b \<Longrightarrow> (\<And>x. seen x \<Longrightarrow> seen' x) \<Longrightarrow> kv_step aid seen' a b"
  by (induction rule: kv_step.induct) (auto intro: kv_step.intros)

lemma kv_step_core: "kv_step aid seen a b \<Longrightarrow> same_core y a \<Longrightarrow> kv_step aid seen y b"
proof (induction rule: kv_step.induct)
  case data
  then show ?case by (blast intro: kv_step.data same_core_trans)
next
  case activity_done
  then show ?case by (auto simp: same_core_def intro: kv_step.activity_done same_identity_trans)
next
  case errored
  then show ?case by (auto simp: same_core_def intro: kv_step.errored same_identity_trans)
next
  case (completed x)
  then show ?case by (auto simp: same_core_def intro: kv_step.completed same_identity_trans)
qed

section \<open>Events that respect the protocol\<close>

text \<open>The value that the process knows to be the one at a revision.\<close>

definition knows :: "event list \<Rightarrow> orchestration \<Rightarrow> nat \<Rightarrow> bool" where
  "knows ws y n \<longleftrightarrow> (\<exists>k. EvGet k (Inr (Stored y, n)) \<in> set ws) \<or> (\<exists>m. EvUpdate y m (Inr n) \<in> set ws)"

lemma knows_append [simp]: "knows (es @ ws) y n \<longleftrightarrow> knows es y n \<or> knows ws y n"
  by (auto simp: knows_def)

text \<open>An activity of the orchestration is settled when it is recorded as completed in an
  orchestration that is finished.\<close>

definition settled :: "event list \<Rightarrow> string \<Rightarrow> bool" where
  "settled ws aid \<longleftrightarrow> (\<exists>k y n. EvGet k (Inr (Stored y, n)) \<in> set ws \<and> has_key (o_Completed y) aid \<and>
     (o_State y = OrchestrationStateCompleted \<or> o_State y = OrchestrationStateErrored))"

definition not_completed_yet :: "event list \<Rightarrow> string \<Rightarrow> bool" where
  "not_completed_yet ws aid \<longleftrightarrow>
     (\<exists>k y n. ws = [EvGet k (Inr (Stored y, n))] \<and> \<not> has_key (o_Completed y) aid)"

fun ok_event :: "activity_message \<Rightarrow> event list \<Rightarrow> event \<Rightarrow> bool" where
  "ok_event msg ws (EvGet k r) \<longleftrightarrow> True"
| "ok_event msg ws (EvUpdate b n (Inl err)) \<longleftrightarrow> True"
| "ok_event msg ws (EvUpdate b n (Inr n')) \<longleftrightarrow>
     (\<exists>y. knows ws y n \<and> kv_step (a_ID (am_Activity msg)) (stored_by ws) y b)"
| "ok_event msg ws (EvActivity subject msgID m r) \<longleftrightarrow>
     (\<exists>x. stored_by ws x \<and> step_complete x (a_ID (am_Activity msg)) \<and> am_OrchestrationID m = o_ID x \<and>
        am_Activity m \<in> set (GetNextStepActivities (o_Steps x) (a_ID (am_Activity msg))) \<and>
        subject = activity_subject (am_Activity m) \<and>
        msgID = ActivityMessageID (o_ID x) (a_ID (am_Activity m)))"
| "ok_event msg ws (EvRun h a r) \<longleftrightarrow>
     a = am_Activity msg \<and> h = select_handler (a_Discriminator a) \<and> not_completed_yet ws (a_ID a)"
| "ok_event msg ws (EvResponse resp r) \<longleftrightarrow>
     (or_Success resp \<longrightarrow> (\<exists>x. stored_by ws x \<and> o_State x = OrchestrationStateCompleted))"
| "ok_event msg ws (EvAck r) \<longleftrightarrow>
     settled ws (a_ID (am_Activity msg)) \<or> (\<exists>x. stored_by ws x) \<or>
     (\<exists>resp. EvResponse resp None \<in> set ws \<and> \<not> or_Success resp)"
| "ok_event msg ws (EvNak d r) \<longleftrightarrow> True"
| "ok_event msg ws (EvTerm r) \<longleftrightarrow> True"

fun ok_events :: "activity_message \<Rightarrow> event list \<Rightarrow> bool" where
  "ok_events msg [] \<longleftrightarrow> True"
| "ok_events msg (e # ws) \<longleftrightarrow> ok_event msg ws e \<and> ok_events msg ws"

lemma quiet_event_cases:
  assumes "kv_event e" "\<not> accepted e"
  obtains k r where "e = EvGet k r" | b n err where "e = EvUpdate b n (Inl err)"
proof (cases e)
  case (EvUpdate b n r)
  with assms that(2) show thesis by (cases r) auto
qed (use assms that in auto)

lemma quiet_ok: "quiet es \<Longrightarrow> ok_events msg ws \<Longrightarrow> ok_events msg (es @ ws)"
proof (induction es)
  case (Cons e es)
  then have "kv_event e" "\<not> accepted e" by simp_all
  then have "ok_event msg (es @ ws) e" by (rule quiet_event_cases) simp_all
  with Cons show ?case by simp
qed simp

lemma quiet_not_stored: "quiet es \<Longrightarrow> \<not> stored_by es x"
  by (auto simp: quiet_def stored_by_def list_all_iff)

section \<open>The handlers keep to the protocol\<close>

text \<open>\<open>good msg es w w'\<close>: from a call that has made the events \<open>es\<close> on top of the log
  \<open>w\<close>, the log becomes \<open>w'\<close>, with every further event respecting the protocol.\<close>

definition good :: "activity_message \<Rightarrow> event list \<Rightarrow> log \<Rightarrow> log \<Rightarrow> bool" where
  "good msg es w w' \<longleftrightarrow> (\<exists>es'. w' = es' @ w \<and> suffix es es' \<and> ok_events msg es')"

lemma goodI: "suffix es es' \<Longrightarrow> ok_events msg es' \<Longrightarrow> good msg es w (es' @ w)"
  by (auto simp: good_def)

lemma good_step: "ok_events msg es \<Longrightarrow> ok_event msg es e \<Longrightarrow> good msg es w (e # es @ w)"
  using goodI [of es "e # es" msg w] by (simp add: suffix_ConsI)

lemma good_suffix: "good msg es w w' \<Longrightarrow> suffix es0 es \<Longrightarrow> good msg es0 w w'"
  by (auto simp: good_def intro: suffix_order.trans)

lemma stored_by_suffix: "stored_by es x \<Longrightarrow> suffix es es' \<Longrightarrow> stored_by es' x"
  by (auto simp: suffix_def)

lemma knows_suffix: "knows es y n \<Longrightarrow> suffix es es' \<Longrightarrow> knows es' y n"
  by (auto simp: suffix_def)

lemma stored_by_Cons: "stored_by (e # es) x \<longleftrightarrow> (\<exists>n m. e = EvUpdate x n (Inr m)) \<or> stored_by es x"
  by (auto simp: stored_by_def)

text \<open>Answers to the message.\<close>

lemma Nak_log: "snd (io_NakError env md err w) = EvNak (RetryDelay (deliveryCount md)) (e_nak env w (RetryDelay (deliveryCount md))) # w"
  by (simp add: io_NakError_def msg_NakWithDelay_def Let_def)

lemma Ack_log: "snd (io_AckMessage env w) = EvAck (e_ack env w) # w"
  by (simp add: io_AckMessage_def msg_Ack_def Let_def)

lemma nak_good: "ok_events msg es \<Longrightarrow> good msg es w (snd (io_NakError env md err (es @ w)))"
  by (simp add: Nak_log good_step)

lemma nak_delay_good: "ok_events msg es \<Longrightarrow> good msg es w (snd (msg_NakWithDelay env d (es @ w)))"
  by (simp add: msg_NakWithDelay_def Let_def good_step)

lemma ack_good:
  "ok_events msg es \<Longrightarrow> ok_event msg es (EvAck (e_ack env (es @ w))) \<Longrightarrow>
     good msg es w (snd (io_AckMessage env (es @ w)))"
  by (simp only: Ack_log good_step)

lemma Update_ok:
  assumes es0: "ok_events msg es0" and base: "knows es0 y rv" "same_core y orch"
    and f: "\<And>ws z. kv_step (a_ID (am_Activity msg)) (stored_by es0) z (f ws z)"
  obtains applied err es where
      "UpdateOrchestration env f orch rv (es0 @ w) = ((applied, Inl err), es @ w)"
      "ok_events msg es" "suffix es0 es" "\<exists>z ws. applied = f ws z"
  | stored rv' es where
      "UpdateOrchestration env f orch rv (es0 @ w) = ((stored, Inr (stored, rv')), es @ w)"
      "ok_events msg es" "suffix es0 es" "stored_by es stored" "knows es stored rv'"
      "\<exists>z ws. stored = f ws z"
proof (rule UpdateOrchestration_cases [of env f orch rv "es0 @ w"])
  fix applied err es z ws
  assume u: "UpdateOrchestration env f orch rv (es0 @ w) = ((applied, Inl err), es @ es0 @ w)"
    "quiet es" "applied = f ws z"
  show thesis
    by (rule that(1) [of applied err "es @ es0"]) (use u quiet_ok [OF u(2) es0] in \<open>auto simp: suffix_def\<close>)
next
  fix stored rv' es z n
  assume u: "UpdateOrchestration env f orch rv (es0 @ w) =
      ((stored, Inr (stored, rv')), EvUpdate stored n (Inr rv') # es @ es0 @ w)"
    "quiet es" "stored = f (es @ es0 @ w) z" "held_or_read orch rv es z n"
  let ?es = "EvUpdate stored n (Inr rv') # es @ es0"
  have step: "kv_step (a_ID (am_Activity msg)) (stored_by (es @ es0)) z stored"
    unfolding u(3) by (rule kv_step_mono [OF f]) simp
  have "\<exists>y. knows (es @ es0) y n \<and> kv_step (a_ID (am_Activity msg)) (stored_by (es @ es0)) y stored"
  proof (cases "es = []")
    case True
    with u(4) have "z = orch" "n = rv" by (auto simp: held_or_read_def)
    with base step kv_step_core show ?thesis by fastforce
  next
    case False
    with u(4) have "knows es z n" by (auto simp: held_or_read_def knows_def)
    with step show ?thesis by auto
  qed
  then have ok: "ok_events msg ?es" using quiet_ok [OF u(2) es0] by simp
  show thesis
    by (rule that(2) [of stored rv' ?es]) (use u ok in \<open>auto simp: suffix_def stored_by_def knows_def\<close>)
qed

text \<open>The update functions of the handlers.\<close>

lemma merge_data_core: "same_core z (merge_data values outputs es z)"
  by (simp add: merge_data_def same_core_def same_identity_def)

lemma mark_errored_step: "kv_step aid seen z (mark_errored env orch m w z)"
  by (rule kv_step.errored)
    (simp_all add: mark_errored_def Let_def SetState_def merge_data_def same_identity_def)

lemma mark_errored_state: "o_State (mark_errored env orch m w z) = OrchestrationStateErrored"
  by (simp add: mark_errored_def Let_def SetState_def merge_data_def)

lemma mark_activity_completed_step: "kv_step aid seen z (mark_activity_completed orch aid z)"
  by (rule kv_step.activity_done)
    (simp_all add: mark_activity_completed_def Let_def merge_data_def same_identity_def)

lemma mark_activity_completed_has: "has_key (o_Completed (mark_activity_completed orch aid z)) aid"
  by (simp add: mark_activity_completed_def Let_def)

lemma SetState_completed_step:
  "seen x \<Longrightarrow> step_complete x aid \<Longrightarrow> GetNextStepActivities (o_Steps x) aid = [] \<Longrightarrow>
     kv_step aid seen z (SetState t OrchestrationStateCompleted z)"
  by (rule kv_step.completed) (simp_all add: SetState_def same_identity_def)

lemma persist_good:
  assumes "ok_events msg es0" "knows es0 y rv" "same_core y orch"
  obtains es err where "persistState env orch rv (es0 @ w) = (Some err, es @ w)" "ok_events msg es" "suffix es0 es"
  | es x where "persistState env orch rv (es0 @ w) = (None, es @ w)" "ok_events msg es" "suffix es0 es"
      "stored_by es x"
proof (rule Update_ok [OF assms, of "\<lambda>_. merge_data (o_ProcessingData orch) (o_OutputData orch) (o_EngineState orch)" env w])
  show "kv_step (a_ID (am_Activity msg)) (stored_by es0) z
      (merge_data (o_ProcessingData orch) (o_OutputData orch) (o_EngineState orch) z)" for z
    by (rule kv_step.data) (rule merge_data_core)
next
  fix applied err es
  assume "UpdateOrchestration env (\<lambda>_. merge_data (o_ProcessingData orch) (o_OutputData orch)
      (o_EngineState orch)) orch rv (es0 @ w) = ((applied, Inl err), es @ w)"
    "ok_events msg es" "suffix es0 es"
  then show thesis by (intro that(1)) (auto simp: persistState_def)
next
  fix stored rv' es
  assume "UpdateOrchestration env (\<lambda>_. merge_data (o_ProcessingData orch) (o_OutputData orch)
      (o_EngineState orch)) orch rv (es0 @ w) = ((stored, Inr (stored, rv')), es @ w)"
    "ok_events msg es" "suffix es0 es" "stored_by es stored"
  then show thesis by (intro that(2)) (auto simp: persistState_def)
qed

text \<open>Failing: the response of a failed orchestration is never a success.\<close>

lemma fatal_good:
  assumes es0: "ok_events msg es0" "knows es0 y rv" "same_core y orch"
  shows "good msg es0 w (snd (handleFatalError env orch rv err (es0 @ w)))"
proof (cases err)
  case None
  with es0(1) goodI [of es0 es0 msg w] show ?thesis by (simp add: handleFatalError_def)
next
  case (Some e)
  let ?f = "mark_errored env orch (error_text e)"
  have core: ?thesis
    if u: "UpdateOrchestration env ?f orch rv (es0 @ w) = ((applied, r), es @ w)"
      and es: "ok_events msg es" "suffix es0 es" and app: "\<exists>z ws. applied = ?f ws z" for applied r es
  proof -
    have st: "o_State applied = OrchestrationStateErrored" using app mark_errored_state by auto
    obtain resp where resp: "publishResponse env applied (es @ w) =
        (e_response env (es @ w) resp, EvResponse resp (e_response env (es @ w) resp) # es @ w)"
      "\<not> or_Success resp"
      using st by (auto simp: publishResponse_def Let_def)
    let ?es1 = "EvResponse resp (e_response env (es @ w) resp) # es"
    have ok1: "ok_events msg ?es1" using es resp(2) by simp
    show ?thesis
    proof (cases "e_response env (es @ w) resp")
      case (Some e')
      then show ?thesis
        using u resp goodI [OF _ ok1, of es0 w] es(2) \<open>err = Some e\<close>
        by (simp add: handleFatalError_def Let_def suffix_ConsI)
    next
      case None
      let ?es2 = "EvAck (e_ack env (?es1 @ w)) # ?es1"
      have "ok_events msg ?es2" using ok1 None resp(2) by auto
      then show ?thesis
        using u resp goodI [of es0 ?es2 msg w] es(2) \<open>err = Some e\<close> None
        by (simp add: handleFatalError_def Let_def suffix_ConsI msg_Ack_def)
    qed
  qed
  show ?thesis
    by (rule Update_ok [OF es0, of ?f env w]) (auto intro: core mark_errored_step)
qed

lemma same_core_engine: "same_core y orch \<Longrightarrow> same_core y (orch\<lparr>o_EngineState := es\<rparr>)"
  by (simp add: same_core_def same_identity_def)

lemma same_core_data: "same_core y orch \<Longrightarrow>
    same_core y (orch\<lparr>o_ProcessingData := pd, o_OutputData := od\<rparr>)"
  by (simp add: same_core_def same_identity_def)

lemma snd_let_pair: "snd (let (r, w) = x in (f r w, g r w)) = g (fst x) (snd x)"
  by (simp add: split_beta Let_def)

lemma retry_good:
  assumes es0: "ok_events msg es0" "knows es0 y rv" "same_core y orch"
  shows "good msg es0 w (snd (handleRetryError e env orch rv aid result (es0 @ w)))"
proof -
  let ?orch = "orch\<lparr>o_EngineState := (o_EngineState orch)
    \<lparr>Retries := put aid (retries_of orch aid + 1) (Retries (o_EngineState orch))\<rparr>\<rparr>"
  have c: "same_core y ?orch" by (rule same_core_engine [OF es0(3)])
  show ?thesis
  proof (cases "retries_of orch aid + 1 \<ge> maxActivityRetries e")
    case True
    then show ?thesis
      using fatal_good [OF es0(1,2) c] by (simp add: handleRetryError_def Let_def)
  next
    case False
    let ?d = "if ar_WaitOnReschedule result \<le> 0 then RetryDelay (retries_of orch aid + 1)
      else ar_WaitOnReschedule result"
    obtain es r where p: "persistState env ?orch rv (es0 @ w) = (r, es @ w)" "ok_events msg es" "suffix es0 es"
      by (rule persist_good [OF es0(1,2) c, of env w]) auto
    from False p(1) have "snd (handleRetryError e env orch rv aid result (es0 @ w)) =
        snd (msg_NakWithDelay env ?d (es @ w))"
      by (simp add: handleRetryError_def Let_def split_beta)
    with good_suffix [OF nak_delay_good [OF p(2)] p(3)] show ?thesis by simp
  qed
qed

lemma completion_good:
  assumes es0: "ok_events msg es0" "knows es0 y rv" "same_core y orch"
    and x: "stored_by es0 x" "step_complete x (a_ID (am_Activity msg))"
      "GetNextStepActivities (o_Steps x) (a_ID (am_Activity msg)) = []"
  shows "good msg es0 w (snd (handleOrchestrationCompletion env md orch rv (es0 @ w)))"
proof (rule Update_ok [OF es0, of "\<lambda>w. SetState (e_now env w) OrchestrationStateCompleted" env w])
  show "kv_step (a_ID (am_Activity msg)) (stored_by es0) z (SetState (e_now env ws) OrchestrationStateCompleted z)" for ws z
    by (rule SetState_completed_step [of "stored_by es0", OF x])
next
  fix applied err es
  assume u: "UpdateOrchestration env (\<lambda>w. SetState (e_now env w) OrchestrationStateCompleted) orch rv
      (es0 @ w) = ((applied, Inl err), es @ w)" "ok_events msg es" "suffix es0 es"
  then have "snd (handleOrchestrationCompletion env md orch rv (es0 @ w)) =
      snd (io_NakError env md err (es @ w))"
    by (simp add: handleOrchestrationCompletion_def split_beta Let_def)
  with good_suffix [OF nak_good [OF u(2)] u(3)] show ?thesis by simp
next
  fix stored rv' es
  assume u: "UpdateOrchestration env (\<lambda>w. SetState (e_now env w) OrchestrationStateCompleted) orch rv
      (es0 @ w) = ((stored, Inr (stored, rv')), es @ w)" "ok_events msg es" "suffix es0 es"
      "stored_by es stored" "\<exists>z ws. stored = SetState (e_now env ws) OrchestrationStateCompleted z"
  then have st: "o_State stored = OrchestrationStateCompleted" by (auto simp: SetState_def)
  obtain resp r where resp: "publishResponse env orch (es @ w) = (r, EvResponse resp r # es @ w)"
    by (simp add: publishResponse_def Let_def)
  let ?es1 = "EvResponse resp r # es"
  have ok1: "ok_events msg ?es1" using u(2,4) st by auto
  have s1: "suffix es0 ?es1" using u(3) by (simp add: suffix_ConsI)
  show ?thesis
  proof (cases r)
    case (Some e')
    with u(1) resp have "snd (handleOrchestrationCompletion env md orch rv (es0 @ w)) = ?es1 @ w"
      by (simp add: handleOrchestrationCompletion_def split_beta Let_def)
    with goodI [OF s1 ok1] show ?thesis by simp
  next
    case None
    with u(1) resp have "snd (handleOrchestrationCompletion env md orch rv (es0 @ w)) =
        snd (io_AckMessage env (?es1 @ w))"
      by (simp add: handleOrchestrationCompletion_def split_beta Let_def)
    moreover have "ok_event msg ?es1 (EvAck (e_ack env (?es1 @ w)))"
      using u(4) by (auto simp: stored_by_Cons)
    ultimately show ?thesis using good_suffix [OF ack_good [OF ok1] s1] by simp
  qed
qed

lemma enqueue_good:
  assumes es0: "ok_events msg es0" and x: "stored_by es0 x" "step_complete x (a_ID (am_Activity msg))"
    and sub: "set activities \<subseteq> set (GetNextStepActivities (o_Steps x) (a_ID (am_Activity msg)))"
  shows "good msg es0 w (snd (EnqueueActivityMessages env (o_ID x) activities (es0 @ w)))"
  using es0 x(1) sub
proof (induction activities arbitrary: es0)
  case Nil
  with goodI [of es0 es0 msg w] show ?case by simp
next
  case (Cons a as)
  define r where "r = e_activity env (es0 @ w) (activity_subject a) (ActivityMessageID (o_ID x) (a_ID a))
    \<lparr>am_OrchestrationID = o_ID x, am_Activity = a\<rparr>"
  let ?ev = "EvActivity (activity_subject a) (ActivityMessageID (o_ID x) (a_ID a))
    \<lparr>am_OrchestrationID = o_ID x, am_Activity = a\<rparr> r"
  have "ok_event msg es0 ?ev" using Cons.prems x(2) by auto
  then have ok1: "ok_events msg (?ev # es0)" using Cons.prems(1) by simp
  have s: "suffix es0 (?ev # es0)" by (simp add: suffix_ConsI)
  show ?case
  proof (cases r)
    case (Some e)
    then show ?thesis using goodI [OF s ok1, of w] by (simp add: Let_def r_def [symmetric])
  next
    case None
    have "good msg (?ev # es0) w (snd (EnqueueActivityMessages env (o_ID x) as ((?ev # es0) @ w)))"
      by (rule Cons.IH [OF ok1]) (use Cons.prems in \<open>auto simp: stored_by_Cons\<close>)
    from good_suffix [OF this s] None show ?thesis by (simp add: Let_def r_def [symmetric])
  qed
qed

lemma activity_completion_good:
  assumes es0: "ok_events msg es0" "knows es0 y rv" "same_core y orch"
  shows "good msg es0 w (snd (processOnActivityCompletion env md orch rv msg (es0 @ w)))"
proof -
  let ?aid = "a_ID (am_Activity msg)"
  let ?f = "\<lambda>_. mark_activity_completed orch ?aid"
  let ?h = "processOnActivityCompletion env md orch rv msg (es0 @ w)"
  show ?thesis
  proof (rule Update_ok [OF es0, of ?f env w])
    show "kv_step ?aid (stored_by es0) z (mark_activity_completed orch ?aid z)" for z
      by (rule mark_activity_completed_step)
  next
    fix applied err es
    assume u: "UpdateOrchestration env ?f orch rv (es0 @ w) = ((applied, Inl err), es @ w)"
      "ok_events msg es" "suffix es0 es"
    then have "snd ?h = snd (io_NakError env md err (es @ w))"
      by (simp add: processOnActivityCompletion_def split_beta Let_def)
    with good_suffix [OF nak_good [OF u(2)] u(3)] show ?thesis by simp
  next
    fix x rv' es
    assume u: "UpdateOrchestration env ?f orch rv (es0 @ w) = ((x, Inr (x, rv')), es @ w)"
      and es: "ok_events msg es" "suffix es0 es" "stored_by es x" "knows es x rv'"
      and app: "\<exists>z ws. x = mark_activity_completed orch ?aid z"
    note unf = processOnActivityCompletion_def split_beta Let_def
    have ack: "ok_event msg es (EvAck r)" for r using es(3) by auto
    note acked = good_suffix [OF ack_good [OF es(1) ack] es(2)]
    note nak = good_suffix [OF nak_good [OF es(1)] es(2)]
    show ?thesis
    proof (cases "o_State x = OrchestrationStateErrored")
      case True
      with u have "snd ?h = snd (io_AckMessage env (es @ w))" by (simp add: unf)
      with acked show ?thesis by simp
    next
      case st: False
      show ?thesis
      proof (cases "CanProceedToNextStep x ?aid")
        case (Inl err)
        with u st have "snd ?h = snd (io_NakError env md err (es @ w))" by (simp add: unf)
        with nak show ?thesis by simp
      next
        case (Inr canProceed)
        show ?thesis
        proof (cases canProceed)
          case False
          with u st Inr have "snd ?h = snd (io_AckMessage env (es @ w))" by (simp add: unf)
          with acked show ?thesis by simp
        next
          case True
          then have sc: "step_complete x ?aid"
            using Inr st app mark_activity_completed_has by (auto simp: step_complete_def)
          show ?thesis
          proof (cases "GetNextStepActivities (o_Steps x) ?aid")
            case Nil
            with u st Inr True have "?h = handleOrchestrationCompletion env md x rv' (es @ w)"
              by (simp add: unf)
            with good_suffix [OF completion_good [OF es(1,4) same_core_refl es(3) sc Nil] es(2)]
            show ?thesis by simp
          next
            case (Cons a as)
            obtain r w2 where q: "EnqueueActivityMessages env (o_ID x) (a # as) (es @ w) = (r, w2)"
              by (meson surj_pair)
            have "good msg es w w2"
              using enqueue_good [OF es(1,3) sc, of "a # as" w env] Cons q by simp
            then obtain es2 where es2: "w2 = es2 @ w" "suffix es es2" "ok_events msg es2"
              by (auto simp: good_def)
            then have s2: "suffix es0 es2" using es(2) suffix_order.trans by blast
            show ?thesis
            proof (cases r)
              case None
              with u st Inr True Cons q have "snd ?h = snd (io_AckMessage env w2)"
                by (simp add: unf)
              moreover have "ok_event msg es2 (EvAck r')" for r'
                using stored_by_suffix [OF es(3) es2(2)] by auto
              ultimately show ?thesis using good_suffix [OF ack_good [OF es2(3)] s2] es2(1) by simp
            next
              case (Some err)
              with u st Inr True Cons q have "snd ?h = snd (io_NakError env md err w2)"
                by (simp add: unf)
              with good_suffix [OF nak_good [OF es2(3)] s2] es2(1) show ?thesis by simp
            qed
          qed
        qed
      qed
    qed
  qed
qed

lemma result_good:
  assumes es0: "ok_events msg es0" "knows es0 y rv" "same_core y orch"
  shows "good msg es0 w (snd (handleResult e env md orch rv msg result (es0 @ w)))"
proof -
  let ?h = "handleResult e env md orch rv msg result (es0 @ w)"
  let ?trace = "orch\<lparr>o_EngineState := (o_EngineState orch)\<lparr>TraceContext := traceparent env (es0 @ w)\<rparr>\<rparr>"
  note defs = handleResult_def activity_result_defs Let_def
  consider "ar_Result result = ActivityResultRetryError" | "ar_Result result = ActivityResultFatalError"
    | "ar_Result result = ActivityResultWait" | "ar_Result result = ActivityResultSchedule"
    | "ar_Result result \<noteq> ActivityResultRetryError" "ar_Result result \<noteq> ActivityResultFatalError"
      "ar_Result result \<noteq> ActivityResultWait" "ar_Result result \<noteq> ActivityResultSchedule" by blast
  then show ?thesis
  proof cases
    case 1
    with retry_good [OF es0] show ?thesis by (simp add: handleResult_def)
  next
    case 2
    with fatal_good [OF es0] show ?thesis by (simp add: defs)
  next
    case 3
    show ?thesis
    proof (rule persist_good [OF es0, of env w])
      fix es err assume p: "persistState env orch rv (es0 @ w) = (Some err, es @ w)"
        "ok_events msg es" "suffix es0 es"
      with 3 have "snd ?h = snd (io_NakError env md err (es @ w))" by (simp add: defs split_beta)
      with good_suffix [OF nak_good [OF p(2)] p(3)] show ?thesis by simp
    next
      fix es x assume p: "persistState env orch rv (es0 @ w) = (None, es @ w)"
        "ok_events msg es" "suffix es0 es" "stored_by es x"
      with 3 have "snd ?h = snd (io_AckMessage env (es @ w))" by (simp add: defs split_beta)
      moreover have "ok_event msg es (EvAck r)" for r using p(4) by auto
      ultimately show ?thesis using good_suffix [OF ack_good [OF p(2)] p(3)] by simp
    qed
  next
    case 4
    show ?thesis
    proof (rule persist_good [OF es0(1,2) same_core_engine [OF es0(3)], of env
          "(o_EngineState orch)\<lparr>TraceContext := traceparent env (es0 @ w)\<rparr>" w])
      fix es err assume p: "persistState env ?trace rv (es0 @ w) = (Some err, es @ w)"
        "ok_events msg es" "suffix es0 es"
      with 4 have "snd ?h = snd (io_NakError env md err (es @ w))" by (simp add: defs split_beta)
      with good_suffix [OF nak_good [OF p(2)] p(3)] show ?thesis by simp
    next
      fix es x assume p: "persistState env ?trace rv (es0 @ w) = (None, es @ w)"
        "ok_events msg es" "suffix es0 es" "stored_by es x"
      with 4 have "snd ?h = snd (msg_NakWithDelay env (ar_WaitOnReschedule result) (es @ w))"
        by (simp add: defs split_beta)
      with good_suffix [OF nak_delay_good [OF p(2)] p(3)] show ?thesis by simp
    qed
  next
    case 5
    with activity_completion_good [OF es0] show ?thesis by (simp add: handleResult_def)
  qed
qed

lemma read_good:
  assumes es: "es0 = [EvGet k (Inr (Stored y, rv))]"
  shows "good msg es0 w (snd (processRead e env md y rv msg (es0 @ w)))"
proof -
  let ?aid = "a_ID (am_Activity msg)"
  let ?o1 = "y\<lparr>o_EngineState := (o_EngineState y)\<lparr>TraceContext := []\<rparr>\<rparr>"
  let ?o2 = "?o1\<lparr>o_EngineState := (o_EngineState ?o1)
    \<lparr>Attempts := put ?aid (attempts_of ?o1 ?aid + 1) (Attempts (o_EngineState ?o1))\<rparr>\<rparr>"
  let ?h = "processRead e env md y rv msg (es0 @ w)"
  let ?final = "IsFinalDelivery md ActivityMaxDeliver"
  have ok0: "ok_events msg es0" "knows es0 y rv" using es by (auto simp: knows_def)
  have c1: "same_core y ?o1" by (rule same_core_engine) simp
  have c2: "same_core y ?o2" by (rule same_core_engine [OF c1])
  show ?thesis
  proof (cases "has_key (o_Completed y) ?aid \<and> \<not> ?final")
    case completed: True
    show ?thesis
    proof (cases "o_State y = OrchestrationStateCompleted \<or> o_State y = OrchestrationStateErrored")
      case True
      with completed have "snd ?h = snd (io_AckMessage env (es0 @ w))"
        by (auto simp: processRead_def Let_def split_beta)
      moreover have "ok_event msg es0 (EvAck r)" for r
        using es completed True by (auto simp: settled_def)
      ultimately show ?thesis using ack_good [OF ok0(1)] by simp
    next
      case False
      with completed have "?h = processOnActivityCompletion env md ?o1 rv msg (es0 @ w)"
        by (simp add: processRead_def Let_def)
      with activity_completion_good [OF ok0 c1] show ?thesis by simp
    qed
  next
    case pending: False
    show ?thesis
    proof (cases ?final)
      case True
      then have "\<exists>err. ?h = handleFatalError env ?o2 rv err (es0 @ w)"
        by (auto simp: processRead_def Let_def)
      with fatal_good [OF ok0 c2] show ?thesis by auto
    next
      case False
      with pending have nk: "\<not> has_key (o_Completed y) ?aid" by simp
      obtain r where r: "snd (runActivity e env ?o2 (am_Activity msg) (es0 @ w)) =
          EvRun (select_handler (a_Discriminator (am_Activity msg))) (am_Activity msg) r # es0 @ w"
        by (simp add: runActivity_def Let_def)
      let ?es1 = "EvRun (select_handler (a_Discriminator (am_Activity msg))) (am_Activity msg) r # es0"
      have ok1: "ok_events msg ?es1" "knows ?es1 y rv"
        using ok0 nk es by (auto simp: not_completed_yet_def knows_def)
      have s: "suffix es0 ?es1" by (simp add: suffix_ConsI)
      obtain res where run: "runActivity e env ?o2 (am_Activity msg) (es0 @ w) = (res, ?es1 @ w)"
        using r by (cases "runActivity e env ?o2 (am_Activity msg) (es0 @ w)") simp
      show ?thesis
      proof (cases res)
        case (Inl panic)
        with run False nk have "snd ?h = ?es1 @ w" by (simp add: processRead_def Let_def)
        with goodI [OF s ok1(1)] show ?thesis by simp
      next
        case (Inr p)
        obtain result o3 where p: "p = (result, o3)" by (cases p)
        with Inr run have "\<exists>pd od. o3 = ?o2\<lparr>o_ProcessingData := pd, o_OutputData := od\<rparr>"
          by (auto simp: runActivity_def Let_def split: activity_run.splits)
        then have c3: "same_core y o3" using same_core_data [OF c2] by auto
        from run Inr p False nk have "?h = handleResult e env md o3 rv msg result (?es1 @ w)"
          by (simp add: processRead_def Let_def)
        with good_suffix [OF result_good [OF ok1 c3] s] show ?thesis by simp
      qed
    qed
  qed
qed

lemma processMessage_events:
  "\<exists>es. snd (processMessage e env md (Inr msg) w) = es @ w \<and> ok_events msg es"
proof -
  obtain r w1 where inner: "processMessage_inner e env md (Inr msg) w = (r, w1)" by (meson surj_pair)
  have "\<exists>es. w1 = es @ w \<and> ok_events msg es"
  proof (rule ReadOrchestration_cases [of env "am_OrchestrationID msg" w])
    fix y n assume "ReadOrchestration env (am_OrchestrationID msg) w =
        (Inr (y, n), EvGet (am_OrchestrationID msg) (Inr (Stored y, n)) # w)"
    with inner have "processRead e env md y n msg ([EvGet (am_OrchestrationID msg) (Inr (Stored y, n))] @ w) = (r, w1)"
      by (simp add: processMessage_inner_def)
    with read_good [OF refl, where msg = msg and w = w and e = e and env = env and md = md and
        y = y and rv = n and k = "am_OrchestrationID msg"] show ?thesis
      by (auto simp: good_def)
  next
    fix err x assume rd: "ReadOrchestration env (am_OrchestrationID msg) w =
        (Inl err, EvGet (am_OrchestrationID msg) x # w)"
    let ?w = "EvGet (am_OrchestrationID msg) x # w"
    from rd inner have "w1 = ?w \<or> w1 = EvTerm (e_term env ?w) # ?w"
      by (auto simp: processMessage_inner_def msg_Term_def Let_def split: if_splits)
    then show ?thesis
      by (auto intro: exI [of _ "[EvGet (am_OrchestrationID msg) x]"]
          exI [of _ "[EvTerm (e_term env ?w), EvGet (am_OrchestrationID msg) x]"])
  qed
  then obtain es where es: "w1 = es @ w" "ok_events msg es" by blast
  show ?thesis
  proof (cases r)
    case (Inr err)
    with inner es show ?thesis by (auto simp: processMessage_def)
  next
    case (Inl panic)
    with inner have "snd (processMessage e env md (Inr msg) w) = (EvTerm (e_term env w1) # es) @ w"
      using es by (simp add: processMessage_def msg_Term_def Let_def)
    moreover have "ok_events msg (EvTerm (e_term env w1) # es)" using es by simp
    ultimately show ?thesis by blast
  qed
qed

text \<open>
  A message that cannot be decoded is acknowledged and nothing else happens. For any other,
  whatever NATS answers and whatever the activity does, the events respect the protocol: the
  activity is run at most once, right after the orchestration was read, and only if it is not
  recorded as completed; every accepted write is one step of the engine from the value
  stored at the revision it replaces; a next activity is published only after a write was
  accepted in which the whole step is completed, and belongs to the step that follows; a
  successful response is sent only after the orchestration was stored as completed; and the
  message is acknowledged only when the outcome is in the store, the failure was reported, or
  there was nothing left to do.
\<close>

theorem processMessage_protocol:
  "\<exists>r es. processMessage e env md data w = (r, es @ w) \<and>
     (case data of
        Inl err \<Rightarrow> es = [EvAck (e_ack env w)] \<and> r \<noteq> None
      | Inr msg \<Rightarrow> ok_events msg es)"
proof (cases data)
  case (Inl err)
  then show ?thesis
    by (simp add: processMessage_def processMessage_inner_def Ack_log split_beta Let_def)
next
  case (Inr msg)
  with processMessage_events [of e env md msg w] show ?thesis
    by (metis prod.collapse sum.case(2))
qed

end
