(* ===== verification/Nats_Orchestrator.thy ===== *)
theory Nats_Orchestrator
  imports Executor_Safety
begin

text \<open>
  The orchestrator (\<open>pmanager/natsorchestration/orchestration.go\<close>): storing a new
  orchestration, publishing its first activities and marking it running, in such a way that
  a call that failed half-way can be repeated.
\<close>

fun initial_of :: "activity list list \<Rightarrow> activity list" where
  "initial_of [] = []"
| "initial_of (step # steps) = (if step \<noteq> [] then step else initial_of steps)"

definition getInitialActivities :: "orchestration \<Rightarrow> activity list" where
  "getInitialActivities orch = initial_of (o_Steps orch)"

definition GetOrchestration :: "env \<Rightarrow> string \<Rightarrow> log \<Rightarrow> (go_error + orchestration option) \<times> log" where
  "GetOrchestration env oid w =
     (case ReadOrchestration env oid w of
        (Inl err, w) \<Rightarrow>
          (if errors_Is err (Sentinel ''jetstream.ErrKeyNotFound'') then Inr None
           else Inl (WrapError (''error reading orchestration '' @ oid @ '': '' @ error_text err) err), w)
      | (Inr (orch, revision), w) \<Rightarrow> (Inr (Some orch), w))"

definition mark_running :: "env \<Rightarrow> log \<Rightarrow> orchestration \<Rightarrow> orchestration" where
  "mark_running env w orch =
     (if o_State orch = OrchestrationStateInitialized
      then SetState (e_now env w) OrchestrationStateRunning orch else orch)"

definition start :: "env \<Rightarrow> orchestration \<Rightarrow> nat \<Rightarrow> log \<Rightarrow> go_error option \<times> log" where
  "start env orch revision w =
     (let (r, w) = EnqueueActivityMessages env (o_ID orch) (getInitialActivities orch) w
      in case r of
           Some err \<Rightarrow> (Some (NewRecoverableWrappedError (Some err)
             (''error enqueueing activities of orchestration '' @ o_ID orch)), w)
         | None \<Rightarrow>
             (let ((_, r), w) = UpdateOrchestration env (mark_running env) orch revision w
              in (case r of
                    Inl err \<Rightarrow> Some (NewRecoverableWrappedError (Some err)
                      (''error marking orchestration '' @ o_ID orch @ '' as running''))
                  | Inr _ \<Rightarrow> None, w)))"

text \<open>\<open>Execute\<close> sets the origin's trace context, also in the caller's orchestration.\<close>

definition with_origin :: "env \<Rightarrow> log \<Rightarrow> orchestration \<Rightarrow> orchestration" where
  "with_origin env w orch =
     (if o_OriginTraceContext orch = [] then orch\<lparr>o_OriginTraceContext := e_inject env w\<rparr> else orch)"

definition Execute :: "env \<Rightarrow> orchestration \<Rightarrow> log \<Rightarrow> go_error option \<times> log" where
  "Execute env orch w =
     (if getInitialActivities orch = [] then
        (Some (ErrorString (''orchestration has no activities: '' @ o_ID orch)), w)
      else
        (let orch = with_origin env w orch;
             r = e_update env w orch 0;
             w = EvUpdate orch 0 r # w
         in case r of
              Inr revision \<Rightarrow> start env orch revision w
            | Inl err \<Rightarrow>
                if \<not> isRevisionConflict err then
                  (Some (WrapError (''error storing orchestration: '' @ error_text err) err), w)
                else (case ReadOrchestration env (o_ID orch) w of
                    (Inl err, w) \<Rightarrow> (Some (NewRecoverableWrappedError (Some err)
                      (''error reading existing orchestration '' @ o_ID orch)), w)
                  | (Inr (existing, existingRevision), w) \<Rightarrow>
                      if o_State existing \<noteq> OrchestrationStateInitialized then (None, w)
                      else start env existing existingRevision w)))"

section \<open>Starting\<close>

definition publishes :: "orchestration \<Rightarrow> activity list \<Rightarrow> event list" where
  "publishes orch activities = map (\<lambda>a. EvActivity (activity_subject a) (ActivityMessageID (o_ID orch) (a_ID a))
     \<lparr>am_OrchestrationID = o_ID orch, am_Activity = a\<rparr> None) activities"

lemma start_cases:
  obtains err w' where "start env orch rv w = (Some err, w')" "IsRecoverable err" "extends w w'"
      "\<forall>e\<in>set (added w w'). \<not> accepted e"
  | es y b n n' where "start env orch rv w = (None, EvUpdate b n (Inr n') # es @ rev (publishes orch (getInitialActivities orch)) @ w)"
      "quiet es" "b = mark_running env (es @ rev (publishes orch (getInitialActivities orch)) @ w) y"
      "held_or_read orch rv es y n"
proof -
  obtain r w1 where q: "EnqueueActivityMessages env (o_ID orch) (getInitialActivities orch) w = (r, w1)"
    by (meson surj_pair)
  note c = EnqueueActivityMessages_cases [OF q]
  show thesis
  proof (cases r)
    case (Some err)
    with c have "\<forall>e\<in>set (added w w1). \<not> accepted e" by auto
    with c q Some show thesis
      by (intro that(1) [of _ w1]) (simp_all add: start_def Let_def, simp)
  next
    case None
    with c have add: "added w w1 = publishes orch (getInitialActivities orch)" and ext: "extends w w1"
      by (simp_all add: publishes_def)
    from ext obtain ps where ps: "w1 = ps @ w" by (auto simp: extends_def)
    with add have "ps = rev (publishes orch (getInitialActivities orch))" by (auto simp: rev_swap)
    with ps have w1: "w1 = rev (publishes orch (getInitialActivities orch)) @ w" by simp
    have na: "\<not> accepted e" if "e \<in> set (publishes orch as)" for e as
      using that by (auto simp: publishes_def)
    show thesis
    proof (rule UpdateOrchestration_cases [of env "mark_running env" orch rv w1])
      fix applied err es assume u: "UpdateOrchestration env (mark_running env) orch rv w1 =
          ((applied, Inl err), es @ w1)" "quiet es"
      have "\<forall>e\<in>set (added w (es @ w1)). \<not> accepted e"
        using u(2) na unfolding w1 append_assoc [symmetric] added_append
        by (auto simp: quiet_def list_all_iff)
      moreover have "extends w (es @ w1)" using ext by (auto simp: extends_def)
      ultimately show thesis using u q None
        by (intro that(1) [of _ "es @ w1"]) (simp_all add: start_def Let_def, simp)
    next
      fix stored rv' es y n
      assume "UpdateOrchestration env (mark_running env) orch rv w1 =
          ((stored, Inr (stored, rv')), EvUpdate stored n (Inr rv') # es @ w1)"
        "quiet es" "stored = mark_running env (es @ w1) y" "held_or_read orch rv es y n"
      with q None show thesis
        by (intro that(2) [of stored n rv' es y]) (simp_all add: start_def Let_def w1)
    qed
  qed
qed

lemma mark_running_state: "o_State (mark_running env w y) \<noteq> OrchestrationStateInitialized"
  by (simp add: mark_running_def SetState_def)

text \<open>A start that succeeded, newest event first: \<open>stored\<close> was just created from the
  caller's orchestration or just read as still initialized, its first activities were
  published in order, and then a value that is not initialized was accepted.\<close>

definition started :: "orchestration \<Rightarrow> event list \<Rightarrow> bool" where
  "started mine es \<longleftrightarrow>
     (\<exists>stored b n n' pre post.
        es = EvUpdate b n (Inr n') # pre @ rev (publishes stored (getInitialActivities stored)) @ post \<and>
        quiet pre \<and> o_State b \<noteq> OrchestrationStateInitialized \<and>
        (stored = mine \<and> (\<exists>m. post = [EvUpdate mine 0 (Inr m)]) \<or>
         o_State stored = OrchestrationStateInitialized \<and>
           (\<exists>k m cause. post = [EvGet k (Inr (Stored stored, m)), EvUpdate mine 0 (Inl cause)] \<and>
              isRevisionConflict cause)))"

definition already_started :: "orchestration \<Rightarrow> event list \<Rightarrow> bool" where
  "already_started mine es \<longleftrightarrow>
     (\<exists>k x m cause. es = [EvGet k (Inr (Stored x, m)), EvUpdate mine 0 (Inl cause)] \<and>
        isRevisionConflict cause \<and> o_State x \<noteq> OrchestrationStateInitialized)"

definition only_created :: "orchestration \<Rightarrow> event list \<Rightarrow> bool" where
  "only_created mine es \<longleftrightarrow> set (filter accepted es) \<subseteq> {e. \<exists>m. e = EvUpdate mine 0 (Inr m)}"

lemma start_outcome:
  assumes "post = [EvUpdate mine 0 (Inr m)] \<and> stored = mine \<or>
      o_State stored = OrchestrationStateInitialized \<and>
      (\<exists>k m cause. post = [EvGet k (Inr (Stored stored, m)), EvUpdate mine 0 (Inl cause)] \<and>
         isRevisionConflict cause)"
  shows "\<exists>r es. start env stored rv (post @ w) = (r, es @ w) \<and>
     (case r of None \<Rightarrow> started mine es | Some err \<Rightarrow> IsRecoverable err \<and> only_created mine es)"
proof -
  have post: "only_created mine post" using assms by (auto simp: only_created_def)
  show ?thesis
  proof (rule start_cases [of env stored rv "post @ w"])
    fix err w' assume s: "start env stored rv (post @ w) = (Some err, w')" "IsRecoverable err"
      "extends (post @ w) w'" "\<forall>e\<in>set (added (post @ w) w'). \<not> accepted e"
    then obtain es where es: "w' = es @ post @ w" by (auto simp: extends_def)
    with s(4) have "\<forall>e\<in>set es. \<not> accepted e" by (simp only: added_append set_rev)
    then have "filter accepted es = []" by (simp add: filter_empty_conv)
    with post have "only_created mine (es @ post)" by (simp add: only_created_def)
    with s(1,2) es show ?thesis by (intro exI [of _ "Some err"] exI [of _ "es @ post"]) simp
  next
    fix es y b n n'
    assume s: "start env stored rv (post @ w) =
        (None, EvUpdate b n (Inr n') # es @ rev (publishes stored (getInitialActivities stored)) @ post @ w)"
      "quiet es" "b = mark_running env (es @ rev (publishes stored (getInitialActivities stored)) @ post @ w) y"
    have "o_State b \<noteq> OrchestrationStateInitialized" unfolding s(3) by (rule mark_running_state)
    with s(2) assms have "started mine (EvUpdate b n (Inr n') # es @
        rev (publishes stored (getInitialActivities stored)) @ post)"
      unfolding started_def by blast
    with s(1) show ?thesis
      by (intro exI [of _ None] exI [of _ "EvUpdate b n (Inr n') # es @
            rev (publishes stored (getInitialActivities stored)) @ post"]) simp
  qed
qed

lemma Execute_outcome:
  "\<exists>r es. Execute env orch w = (r, es @ w) \<and>
     (case r of
        None \<Rightarrow> getInitialActivities orch \<noteq> [] \<and>
          (started (with_origin env w orch) es \<or> already_started (with_origin env w orch) es)
      | Some err \<Rightarrow>
          (getInitialActivities orch = [] \<and> es = []) \<or>
          (\<exists>cause. es = [EvUpdate (with_origin env w orch) 0 (Inl cause)]) \<or>
          (IsRecoverable err \<and> only_created (with_origin env w orch) es))"
proof (cases "getInitialActivities orch = []")
  case True
  then show ?thesis by (auto simp: Execute_def)
next
  case acts: False
  let ?mine = "with_origin env w orch"
  let ?k = "o_ID ?mine"
  show ?thesis
  proof (cases "e_update env w ?mine 0")
    case (Inr m)
    let ?post = "[EvUpdate ?mine 0 (Inr m)]"
    obtain r es where "start env ?mine m (?post @ w) = (r, es @ w)"
      "case r of None \<Rightarrow> started ?mine es | Some err \<Rightarrow> IsRecoverable err \<and> only_created ?mine es"
      using start_outcome [of ?post ?mine m ?mine env m w] by auto
    with acts Inr show ?thesis by (auto simp: Execute_def Let_def split: option.splits)
  next
    case (Inl cause)
    show ?thesis
    proof (cases "isRevisionConflict cause")
      case False
      with acts Inl show ?thesis by (auto simp: Execute_def Let_def)
    next
      case conflict: True
      let ?w1 = "EvUpdate ?mine 0 (Inl cause) # w"
      show ?thesis
      proof (rule ReadOrchestration_cases [of env ?k ?w1])
        fix err x assume "ReadOrchestration env ?k ?w1 = (Inl err, EvGet ?k x # ?w1)"
        with acts Inl conflict have "Execute env orch w = (Some (NewRecoverableWrappedError (Some err)
            (''error reading existing orchestration '' @ ?k)),
            [EvGet ?k x, EvUpdate ?mine 0 (Inl cause)] @ w)"
          by (simp add: Execute_def Let_def)
        then show ?thesis by (fastforce simp: only_created_def)
      next
        fix x m assume rd: "ReadOrchestration env ?k ?w1 =
            (Inr (x, m), EvGet ?k (Inr (Stored x, m)) # ?w1)"
        let ?post = "[EvGet ?k (Inr (Stored x, m)), EvUpdate ?mine 0 (Inl cause)]"
        show ?thesis
        proof (cases "o_State x = OrchestrationStateInitialized")
          case False
          with rd acts Inl conflict have "Execute env orch w = (None, ?post @ w)"
            by (simp add: Execute_def Let_def)
          moreover have "already_started ?mine ?post" using False conflict by (auto simp: already_started_def)
          ultimately show ?thesis using acts by auto
        next
          case True
          have "\<exists>r es. start env x m (?post @ w) = (r, es @ w) \<and>
              (case r of None \<Rightarrow> started ?mine es | Some err \<Rightarrow> IsRecoverable err \<and> only_created ?mine es)"
            by (rule start_outcome) (use True conflict in auto)
          then obtain r es where s: "start env x m (?post @ w) = (r, es @ w)"
            "case r of None \<Rightarrow> started ?mine es | Some err \<Rightarrow> IsRecoverable err \<and> only_created ?mine es"
            by blast
          have "Execute env orch w = (r, es @ w)"
            using rd acts Inl conflict True s(1) by (simp add: Execute_def Let_def)
          with s(2) acts show ?thesis by (intro exI [of _ r] exI [of _ es]) (cases r; simp)
        qed
      qed
    qed
  qed
qed

text \<open>
  \<open>Execute\<close> succeeds only if the orchestration is started: either it exists and is past
  its initial state, or its first activities were published, all and in order, and then it
  was stored as no longer initialized. Otherwise the orchestration has no activities and
  nothing was done, or it could not be stored, or the error is recoverable and the only write
  that can have been accepted is its creation: it is still initialized, so that calling
  \<open>Execute\<close> again starts it.
\<close>

theorem Execute_correct:
  "\<exists>r es. Execute env orch w = (r, es @ w) \<and>
     (case r of
        None \<Rightarrow> getInitialActivities orch \<noteq> [] \<and>
          (started (with_origin env w orch) es \<or> already_started (with_origin env w orch) es)
      | Some err \<Rightarrow>
          (getInitialActivities orch = [] \<and> es = []) \<or>
          (\<exists>cause. es = [EvUpdate (with_origin env w orch) 0 (Inl cause)]) \<or>
          (IsRecoverable err \<and> only_created (with_origin env w orch) es))"
  by (rule Execute_outcome)

end
