(* ===== verification/Engine_System.thy ===== *)
theory Engine_System
  imports Nats_Orchestrator
begin

text \<open>
  The engine as a whole. Any number of executors and orchestrators work on one orchestration,
  through the key-value store and the activity queues. The state of this system is the
  history of the orchestration in the store, newest first and each value with its revision,
  and the set of activity IDs whose message has been published. Its steps are an abstract
  specification: what any process may do to the store and to the queues. The section on
  refinement shows that \<open>processMessage\<close> does nothing else.
\<close>

record engine =
  hist :: "(orchestration \<times> nat) list"
  pub :: "string set"

definition current :: "engine \<Rightarrow> orchestration" where
  "current s = fst (hd (hist s))"

definition in_hist :: "engine \<Rightarrow> orchestration \<Rightarrow> bool" where
  "in_hist s x \<longleftrightarrow> x \<in> fst ` set (hist s)"

inductive engine_step :: "engine \<Rightarrow> engine \<Rightarrow> bool" where
  stored: "hist s = (a, n) # h \<Longrightarrow> n < n' \<Longrightarrow> aid \<in> pub s \<Longrightarrow> kv_step aid (in_hist s) a b \<Longrightarrow>
    engine_step s (s\<lparr>hist := (b, n') # hist s\<rparr>)"
| run: "hist s = (a, n) # h \<Longrightarrow> n < n' \<Longrightarrow> o_State a = OrchestrationStateInitialized \<Longrightarrow>
    engine_step s (s\<lparr>hist := (SetState t OrchestrationStateRunning a, n') # hist s\<rparr>)"
| publish_first: "x \<in> set (getInitialActivities (current s)) \<Longrightarrow>
    engine_step s (s\<lparr>pub := insert (a_ID x) (pub s)\<rparr>)"
| publish_next: "aid \<in> pub s \<Longrightarrow> in_hist s x \<Longrightarrow> step_complete x aid \<Longrightarrow>
    b \<in> set (GetNextStepActivities (o_Steps x) aid) \<Longrightarrow>
    engine_step s (s\<lparr>pub := insert (a_ID b) (pub s)\<rparr>)"

definition engine_start :: "orchestration \<Rightarrow> nat \<Rightarrow> engine" where
  "engine_start o0 n = \<lparr>hist = [(o0, n)], pub = {}\<rparr>"

inductive reachable :: "orchestration \<Rightarrow> engine \<Rightarrow> bool" for o0 where
  start: "reachable o0 (engine_start o0 n)"
| step: "reachable o0 s \<Longrightarrow> engine_step s s' \<Longrightarrow> reachable o0 s'"

section \<open>The invariant\<close>

definition all_done :: "orchestration \<Rightarrow> activity list list \<Rightarrow> nat \<Rightarrow> bool" where
  "all_done x steps i \<longleftrightarrow> (\<forall>k. in_step steps i k \<longrightarrow> has_key (o_Completed x) k)"

definition completed_mono :: "orchestration \<Rightarrow> orchestration \<Rightarrow> bool" where
  "completed_mono x y \<longleftrightarrow> (\<forall>k. has_key (o_Completed x) k \<longrightarrow> has_key (o_Completed y) k)"

definition engine_inv :: "orchestration \<Rightarrow> engine \<Rightarrow> bool" where
  "engine_inv o0 s \<longleftrightarrow> hist s \<noteq> [] \<and>
     (\<forall>x. in_hist s x \<longrightarrow> o_Steps x = o_Steps o0 \<and> o_ID x = o_ID o0 \<and> completed_mono x (current s)) \<and>
     (\<forall>aid\<in>pub s. \<exists>i. in_step (o_Steps o0) i aid \<and> (\<forall>j<i. all_done (current s) (o_Steps o0) j)) \<and>
     (\<forall>aid. has_key (o_Completed (current s)) aid \<longrightarrow> aid \<in> pub s) \<and>
     (\<forall>x. in_hist s x \<longrightarrow> o_State x = OrchestrationStateCompleted \<longrightarrow>
        (\<forall>i<length (o_Steps o0). all_done (current s) (o_Steps o0) i)) \<and>
     sorted_wrt (\<lambda>p q. snd q < snd p) (hist s)"

definition fresh_orchestration :: "orchestration \<Rightarrow> bool" where
  "fresh_orchestration o0 \<longleftrightarrow> distinct (step_ids (o_Steps o0)) \<and> [] \<notin> set (o_Steps o0) \<and>
     o_Completed o0 = [] \<and> o_State o0 = OrchestrationStateInitialized"

lemma engine_invD:
  assumes "engine_inv o0 s"
  shows "hist s \<noteq> []"
    "in_hist s x \<Longrightarrow> o_Steps x = o_Steps o0"
    "in_hist s x \<Longrightarrow> o_ID x = o_ID o0"
    "in_hist s x \<Longrightarrow> has_key (o_Completed x) k \<Longrightarrow> has_key (o_Completed (current s)) k"
    "aid \<in> pub s \<Longrightarrow> \<exists>i. in_step (o_Steps o0) i aid \<and> (\<forall>j<i. all_done (current s) (o_Steps o0) j)"
    "has_key (o_Completed (current s)) aid \<Longrightarrow> aid \<in> pub s"
    "in_hist s x \<Longrightarrow> o_State x = OrchestrationStateCompleted \<Longrightarrow> i < length (o_Steps o0) \<Longrightarrow>
       all_done (current s) (o_Steps o0) i"
    "sorted_wrt (\<lambda>p q. snd q < snd p) (hist s)"
  using assms unfolding engine_inv_def completed_mono_def by blast+

lemma current_in_hist: "hist s \<noteq> [] \<Longrightarrow> in_hist s (current s)"
  by (simp add: in_hist_def current_def)

lemma all_done_mono: "completed_mono x y \<Longrightarrow> all_done x steps i \<Longrightarrow> all_done y steps i"
  by (auto simp: all_done_def completed_mono_def)

lemma step_complete_facts:
  assumes S: "o_Steps x = S" and d: "distinct (step_ids S)" and c: "step_complete x aid"
  obtains i where "in_step S i aid" "all_done x S i"
    "GetNextStepActivities S aid = (if Suc i < length S then S ! Suc i else [])"
proof -
  have p: "CanProceedToNextStep x aid = Inr True" and k: "has_key (o_Completed x) aid"
    using c by (simp_all add: step_complete_def)
  have "\<exists>i. in_step S i aid"
  proof (rule ccontr)
    assume "\<nexists>i. in_step S i aid"
    from GetStepForActivity_absent [OF this] p S show False
      by (auto simp: CanProceedToNextStep_def is_ok_def split: sum.splits)
  qed
  then obtain i where i: "in_step S i aid" by blast
  note g = GetStepForActivity_in_step [OF d i]
  have "all_done x S i"
    using p k g(1) S by (auto simp: CanProceedToNextStep_def all_done_def in_step_def)
  from that [OF i this g(2)] show thesis .
qed

text \<open>What a write may do to an orchestration.\<close>

lemma kv_step_facts:
  "kv_step aid seen a b \<Longrightarrow>
     o_Steps b = o_Steps a \<and> o_ID b = o_ID a \<and>
     (\<forall>k. has_key (o_Completed b) k \<longleftrightarrow> has_key (o_Completed a) k \<or>
        k = aid \<and> has_key (o_Completed b) aid) \<and>
     (o_State b = OrchestrationStateCompleted \<longrightarrow> o_State a = OrchestrationStateCompleted \<or>
        (\<exists>x. seen x \<and> step_complete x aid \<and> GetNextStepActivities (o_Steps x) aid = []))"
  by (induction rule: kv_step.induct) (auto simp: same_core_def same_identity_def)

lemma push_current [simp]: "current (s\<lparr>hist := (b, n') # h\<rparr>) = b"
  by (simp add: current_def)

lemma push_in_hist [simp]: "in_hist (s\<lparr>hist := (b, n') # hist s\<rparr>) x \<longleftrightarrow> x = b \<or> in_hist s x"
  by (auto simp: in_hist_def)

lemma pub_simps [simp]:
  "current (s\<lparr>pub := P\<rparr>) = current s" "in_hist (s\<lparr>pub := P\<rparr>) = in_hist s"
  by (simp_all add: current_def in_hist_def fun_eq_iff)

text \<open>Pushing a value that keeps the steps and only adds published activities.\<close>

lemma push_inv:
  assumes inv: "engine_inv o0 s" and h: "hist s = (a, n) # h" "n < n'"
    and b: "o_Steps b = o_Steps a" "o_ID b = o_ID a" "completed_mono a b"
    and new: "\<And>k. has_key (o_Completed b) k \<Longrightarrow> has_key (o_Completed a) k \<or> k \<in> pub s"
    and st: "o_State b = OrchestrationStateCompleted \<Longrightarrow> o_State a = OrchestrationStateCompleted \<or>
      (\<forall>i<length (o_Steps o0). all_done a (o_Steps o0) i)"
  shows "engine_inv o0 (s\<lparr>hist := (b, n') # hist s\<rparr>)"
proof -
  note D = engine_invD [OF inv]
  have cur: "current s = a" "in_hist s a" using h by (simp_all add: current_def in_hist_def)
  have mono: "completed_mono x b" if "in_hist s x" for x
    using D(4) [OF that] b(3) cur(1) by (auto simp: completed_mono_def)
  have finished: "all_done b (o_Steps o0) i"
    if "in_hist s x \<or> x = b" "o_State x = OrchestrationStateCompleted" "i < length (o_Steps o0)" for x i
  proof -
    have "all_done a (o_Steps o0) i"
    proof (cases "in_hist s x")
      case True
      from D(7) [OF this that(2,3)] cur(1) show ?thesis by simp
    next
      case False
      with that have "o_State b = OrchestrationStateCompleted" by simp
      with st D(7) [OF cur(2) _ that(3)] that(3) cur(1) show ?thesis by blast
    qed
    then show ?thesis by (rule all_done_mono [OF b(3)])
  qed
  have pubs: "\<exists>i. in_step (o_Steps o0) i aid \<and> (\<forall>j<i. all_done b (o_Steps o0) j)" if "aid \<in> pub s" for aid
    using D(5) [OF that] cur(1) all_done_mono [OF b(3)] by blast
  have "\<forall>p\<in>set (hist s). snd p < n'" using D(8) h by auto
  then have sorted: "sorted_wrt (\<lambda>p q. snd q < snd p) ((b, n') # hist s)" using D(8) by simp
  have keys: "aid \<in> pub s" if "has_key (o_Completed b) aid" for aid
    using new [OF that] D(6) cur(1) by auto
  have steps: "o_Steps x = o_Steps o0 \<and> o_ID x = o_ID o0" if "in_hist s x \<or> x = b" for x
    using that b(1,2) D(2,3) [OF cur(2)] D(2,3) [of x] by auto
  show ?thesis
    unfolding engine_inv_def push_current push_in_hist
  proof (intro conjI allI impI ballI)
    fix x assume x: "x = b \<or> in_hist s x"
    with steps show "o_Steps x = o_Steps o0" "o_ID x = o_ID o0" by blast+
    show "completed_mono x b" using x mono by (auto simp: completed_mono_def)
  next
    fix aid assume "aid \<in> pub (s\<lparr>hist := (b, n') # hist s\<rparr>)"
    with pubs show "\<exists>i. in_step (o_Steps o0) i aid \<and> (\<forall>j<i. all_done b (o_Steps o0) j)" by simp
  next
    fix aid assume "has_key (o_Completed b) aid"
    with keys show "aid \<in> pub (s\<lparr>hist := (b, n') # hist s\<rparr>)" by simp
  next
    fix x i assume "x = b \<or> in_hist s x" "o_State x = OrchestrationStateCompleted" "i < length (o_Steps o0)"
    with finished show "all_done b (o_Steps o0) i" by blast
  qed (use sorted in simp_all)
qed

lemma engine_step_inv:
  assumes fresh: "fresh_orchestration o0" and inv: "engine_inv o0 s" and step: "engine_step s s'"
  shows "engine_inv o0 s'"
  using step
proof cases
  case (stored a n h n' aid b)
  note D = engine_invD [OF inv]
  note F = kv_step_facts [OF stored(5)]
  have "\<forall>i<length (o_Steps o0). all_done a (o_Steps o0) i"
    if x: "in_hist s x" "step_complete x aid" "GetNextStepActivities (o_Steps x) aid = []" for x
  proof -
    have sx: "o_Steps x = o_Steps o0" by (rule D(2) [OF x(1)])
    have d: "distinct (step_ids (o_Steps o0))" using fresh by (simp add: fresh_orchestration_def)
    obtain i where i: "in_step (o_Steps o0) i aid" "all_done x (o_Steps o0) i"
      "(if Suc i < length (o_Steps o0) then o_Steps o0 ! Suc i else []) = []"
      by (rule step_complete_facts [OF sx d x(2)]) (use x(3) sx in simp)
    have last: "\<not> Suc i < length (o_Steps o0)"
      using i(3) fresh by (auto simp: fresh_orchestration_def split: if_splits dest: nth_mem)
    have a: "current s = a" using stored(2) by (simp add: current_def)
    obtain i' where i': "in_step (o_Steps o0) i' aid" "\<forall>j<i'. all_done a (o_Steps o0) j"
      using D(5) [OF stored(4)] a by auto
    have "i' = i" using in_step_unique i(1) i'(1) fresh by (auto simp: fresh_orchestration_def)
    moreover have "all_done a (o_Steps o0) i"
      using i(2) D(4) [OF x(1)] a by (auto simp: all_done_def)
    moreover have "j < i \<or> j = i" if "j < length (o_Steps o0)" for j using that last by linarith
    ultimately show ?thesis using i'(2) by blast
  qed
  note last_done = this
  show ?thesis
    unfolding stored(1)
  proof (rule push_inv [OF inv stored(2,3)])
    show "o_Steps b = o_Steps a" "o_ID b = o_ID a" using F by blast+
    show "completed_mono a b" unfolding completed_mono_def using F by blast
    show "has_key (o_Completed a) k \<or> k \<in> pub s" if "has_key (o_Completed b) k" for k
      using F stored(4) that by blast
    show "o_State a = OrchestrationStateCompleted \<or> (\<forall>i<length (o_Steps o0). all_done a (o_Steps o0) i)"
      if "o_State b = OrchestrationStateCompleted" using F that last_done by blast
  qed
next
  case (run a n h n' t)
  show ?thesis
    unfolding run(1) by (rule push_inv [OF inv run(2,3)]) (simp_all add: SetState_def completed_mono_def)
next
  case (publish_first x)
  note D = engine_invD [OF inv]
  have "o_Steps (current s) = o_Steps o0" by (rule D(2) [OF current_in_hist [OF D(1)]])
  then have "in_step (o_Steps o0) 0 (a_ID x)"
    using publish_first(2) fresh
    by (cases "o_Steps o0") (auto simp: getInitialActivities_def in_step_def fresh_orchestration_def)
  then show ?thesis using inv unfolding publish_first(1) engine_inv_def by auto
next
  case (publish_next aid x b)
  note D = engine_invD [OF inv]
  have sx: "o_Steps x = o_Steps o0" by (rule D(2) [OF publish_next(3)])
  have d: "distinct (step_ids (o_Steps o0))" using fresh by (simp add: fresh_orchestration_def)
  obtain i where i: "in_step (o_Steps o0) i aid" "all_done x (o_Steps o0) i"
    "b \<in> set (if Suc i < length (o_Steps o0) then o_Steps o0 ! Suc i else [])"
    by (rule step_complete_facts [OF sx d publish_next(4)]) (use publish_next(5) sx in simp)
  obtain i' where i': "in_step (o_Steps o0) i' aid" "\<forall>j<i'. all_done (current s) (o_Steps o0) j"
    using D(5) [OF publish_next(2)] by auto
  have "i' = i" using in_step_unique i(1) i'(1) fresh by (auto simp: fresh_orchestration_def)
  moreover have "all_done (current s) (o_Steps o0) i"
    using i(2) D(4) [OF publish_next(3)] by (auto simp: all_done_def)
  ultimately have "\<forall>j<Suc i. all_done (current s) (o_Steps o0) j" using i'(2) by (auto simp: less_Suc_eq)
  moreover have "in_step (o_Steps o0) (Suc i) (a_ID b)"
    using i(3) by (auto simp: in_step_def split: if_splits)
  ultimately show ?thesis using inv unfolding publish_next(1) engine_inv_def by auto
qed

lemma reachable_inv: "reachable o0 s \<Longrightarrow> fresh_orchestration o0 \<Longrightarrow> engine_inv o0 s"
proof (induction rule: reachable.induct)
  case (start n)
  then show ?case
    by (auto simp: engine_inv_def engine_start_def in_hist_def current_def completed_mono_def
        fresh_orchestration_def has_key_def)
next
  case (step s s')
  then show ?case by (blast intro: engine_step_inv)
qed

section \<open>Safety\<close>

lemma instantiated_fresh:
  assumes "InstantiateOrchestration ord now oid cid ty did as data = Some (Inr o0)" "fair_range ord"
  shows "fresh_orchestration o0" "steps_ok as (o_Steps o0)" "deps_known as"
  using assms(1)
  by (rule_tac [!] InstantiateOrchestration_cases [OF assms(2), of now oid cid ty did as data])
    (auto simp: fresh_orchestration_def steps_ok_def)

lemma step_of_activity:
  "k \<in> set (step_ids steps) \<Longrightarrow> \<exists>i. in_step steps i k"
  by (auto simp: step_ids_def in_step_def in_set_conv_nth) (metis nth_mem)

text \<open>
  C1. For an orchestration instantiated from a definition, in every state that the engine can
  reach, with any number of processes and any interleaving, redelivery or repetition: no
  activity is published before everything it depends on is completed; what is completed
  stays completed and the steps never change; every completed activity had been published;
  and once the orchestration was stored as completed, every activity of the definition is.
\<close>

theorem engine_safety:
  assumes inst: "InstantiateOrchestration ord now oid cid ty did as data = Some (Inr o0)"
    and ord: "fair_range ord" and reach: "reachable o0 s"
  shows "(\<forall>(aid, d)\<in>dep_rel as. aid \<in> pub s \<longrightarrow> has_key (o_Completed (current s)) d) \<and>
     (\<forall>x. in_hist s x \<longrightarrow> o_Steps x = o_Steps o0 \<and> completed_mono x (current s)) \<and>
     (\<forall>aid. has_key (o_Completed (current s)) aid \<longrightarrow> aid \<in> pub s) \<and>
     (\<forall>x. in_hist s x \<longrightarrow> o_State x = OrchestrationStateCompleted \<longrightarrow>
        (\<forall>a\<in>set as. has_key (o_Completed (current s)) (a_ID a)))"
proof (intro conjI allI impI ballI)
  note f = instantiated_fresh [OF inst ord]
  note D = engine_invD [OF reachable_inv [OF reach f(1)]]
  note S = f(2) [unfolded steps_ok_def]
  have in_some: "\<exists>i. in_step (o_Steps o0) i (a_ID a)" if "a \<in> set as" for a
    using S that by (intro step_of_activity) auto
  { fix p assume p: "p \<in> dep_rel as"
    obtain aid d where ad: "p = (aid, d)" by (cases p)
    have "has_key (o_Completed (current s)) d" if aid: "aid \<in> pub s"
    proof -
      have "d \<in> a_ID ` set as" using f(3) p ad by (auto simp: deps_known_def)
      then obtain j where j: "in_step (o_Steps o0) j d" using in_some by auto
      obtain i where i: "in_step (o_Steps o0) i aid" "\<forall>j<i. all_done (current s) (o_Steps o0) j"
        using D(5) [OF aid] by auto
      have "j < i" using S p ad i(1) j by blast
      with i(2) j show ?thesis by (auto simp: all_done_def)
    qed
    then show "case p of (aid, d) \<Rightarrow> aid \<in> pub s \<longrightarrow> has_key (o_Completed (current s)) d"
      using ad by simp
  }
  { fix x assume "in_hist s x"
    then show "o_Steps x = o_Steps o0" "completed_mono x (current s)"
      using D(2,4) by (auto simp: completed_mono_def)
  }
  { fix aid assume "has_key (o_Completed (current s)) aid"
    then show "aid \<in> pub s" by (rule D(6))
  }
  { fix x a assume x: "in_hist s x" "o_State x = OrchestrationStateCompleted" "a \<in> set as"
    obtain i where i: "in_step (o_Steps o0) i (a_ID a)" using in_some x(3) by blast
    then have "i < length (o_Steps o0)" by (simp add: in_step_def)
    from D(7) [OF x(1,2) this] i show "has_key (o_Completed (current s)) (a_ID a)"
      by (simp add: all_done_def)
  }
qed

text \<open>Two activities, then one that needs both, up to the publication of the last one.\<close>

definition two_step_fresh :: orchestration where
  "two_step_fresh = two_step_orchestration\<lparr>o_State := OrchestrationStateInitialized,
     o_Completed := [],
     o_Steps := [[two_step_activities ! 1, two_step_activities ! 2], [two_step_activities ! 0]]\<rparr>"

lemma two_step_fresh_instantiated:
  "InstantiateOrchestration (\<lambda>n ks. rev ks) 5 ''o1'' ''c1'' VPADeployType ''d1'' two_step_activities [] =
     Some (Inr two_step_fresh)"
  by code_simp

definition after_a :: orchestration where
  "after_a = two_step_fresh\<lparr>o_Completed := [(''a'', ())]\<rparr>"

definition after_b :: orchestration where
  "after_b = two_step_fresh\<lparr>o_Completed := [(''a'', ()), (''b'', ())]\<rparr>"

definition two_step_engine :: engine where
  "two_step_engine = \<lparr>hist = [(after_b, 3), (after_a, 2), (two_step_fresh, 1)], pub = {''a'', ''b'', ''c''}\<rparr>"

lemmas two_step_defs = two_step_fresh_def after_a_def after_b_def two_step_orchestration_def
  two_step_activities_def

lemma two_step_reachable: "reachable two_step_fresh two_step_engine"
proof -
  let ?s0 = "engine_start two_step_fresh 1"
  let ?s1 = "?s0\<lparr>pub := {''a''}\<rparr>" and ?s2 = "?s0\<lparr>pub := {''a'', ''b''}\<rparr>"
  let ?s3 = "?s2\<lparr>hist := (after_a, 2) # hist ?s2\<rparr>"
  let ?s4 = "?s3\<lparr>hist := (after_b, 3) # hist ?s3\<rparr>"
  have e1: "engine_step ?s0 ?s1"
    using engine_step.publish_first [of "two_step_activities ! 1" ?s0]
    by (simp add: engine_start_def current_def getInitialActivities_def two_step_defs)
  have e2: "engine_step ?s1 ?s2"
    using engine_step.publish_first [of "two_step_activities ! 2" ?s1]
    by (simp add: engine_start_def current_def getInitialActivities_def two_step_defs insert_commute)
  have e3: "engine_step ?s2 ?s3"
    by (rule engine_step.stored [of _ two_step_fresh 1 "[]" _ "''a''"])
      (auto simp: engine_start_def two_step_defs same_identity_def intro!: kv_step.activity_done)
  have e4: "engine_step ?s3 ?s4"
    by (rule engine_step.stored [of _ after_a 2 "[(two_step_fresh, 1)]" _ "''b''"])
      (auto simp: engine_start_def two_step_defs same_identity_def intro!: kv_step.activity_done)
  have e5: "engine_step ?s4 two_step_engine"
  proof -
    have "engine_step ?s4 (?s4\<lparr>pub := insert (a_ID (two_step_activities ! 0)) (pub ?s4)\<rparr>)"
    proof (rule engine_step.publish_next [where aid = "''b''" and x = after_b])
      show "step_complete after_b ''b''"
        by (simp add: step_complete_def CanProceedToNextStep_def has_key_def two_step_defs)
      show "two_step_activities ! 0 \<in> set (GetNextStepActivities (o_Steps after_b) ''b'')"
        by (simp add: two_step_defs)
    qed (simp_all add: in_hist_def)
    moreover have "?s4\<lparr>pub := insert (a_ID (two_step_activities ! 0)) (pub ?s4)\<rparr> = two_step_engine"
      by (auto simp: two_step_engine_def engine_start_def two_step_activities_def)
    ultimately show ?thesis by simp
  qed
  from reachable.step [OF reachable.step [OF reachable.step [OF reachable.step [OF reachable.step
    [OF reachable.start e1] e2] e3] e4] e5] show ?thesis .
qed

theorem engine_safety_witness:
  "(''c'', ''a'') \<in> dep_rel two_step_activities \<and> ''c'' \<in> pub two_step_engine \<and>
   has_key (o_Completed (current two_step_engine)) ''a''"
proof -
  have d: "(''c'', ''a'') \<in> dep_rel two_step_activities"
    by (auto simp: dep_rel_def two_step_activities_def)
  have c: "''c'' \<in> pub two_step_engine" by (simp add: two_step_engine_def)
  show ?thesis
    using engine_safety [OF two_step_fresh_instantiated fair_range_rev two_step_reachable,
        THEN conjunct1, rule_format, OF d] d c by simp
qed

section \<open>Refinement\<close>

text \<open>
  \<open>interleaved s0 es s\<close>: a process makes the calls \<open>es\<close> (newest first) while other
  processes take steps of the engine in between, and the system goes from \<open>s0\<close> to
  \<open>s\<close>. This is how the key-value store and the queues behave: a read returns the
  current value and its revision, a write is accepted only at the current revision and makes a
  higher one, a write that is answered with an error is not applied, and a published message is
  in its queue (after an error it may or may not be).
\<close>

inductive interleaved :: "engine \<Rightarrow> event list \<Rightarrow> engine \<Rightarrow> bool" for s0 where
  nothing: "interleaved s0 [] s0"
| others: "interleaved s0 es s \<Longrightarrow> engine_step s s' \<Longrightarrow> interleaved s0 es s'"
| got: "interleaved s0 es s \<Longrightarrow> hist s = (y, n) # h \<Longrightarrow> interleaved s0 (EvGet k (Inr (Stored y, n)) # es) s"
| not_got: "interleaved s0 es s \<Longrightarrow> \<nexists>y n. r = Inr (Stored y, n) \<Longrightarrow> interleaved s0 (EvGet k r # es) s"
| accepted_write: "interleaved s0 es s \<Longrightarrow> hist s = (a, n) # h \<Longrightarrow> n < n' \<Longrightarrow>
    interleaved s0 (EvUpdate b n (Inr n') # es) (s\<lparr>hist := (b, n') # hist s\<rparr>)"
| rejected_write: "interleaved s0 es s \<Longrightarrow> interleaved s0 (EvUpdate b n (Inl err) # es) s"
| published: "interleaved s0 es s \<Longrightarrow>
    interleaved s0 (EvActivity subject msgID m r # es) (s\<lparr>pub := insert (a_ID (am_Activity m)) (pub s)\<rparr>)"
| not_published: "interleaved s0 es s \<Longrightarrow> interleaved s0 (EvActivity subject msgID m (Some err) # es) s"
| response: "interleaved s0 es s \<Longrightarrow> interleaved s0 (EvResponse resp r # es) s"
| activity_ran: "interleaved s0 es s \<Longrightarrow> interleaved s0 (EvRun hd' a run # es) s"
| acked: "interleaved s0 es s \<Longrightarrow> interleaved s0 (EvAck r # es) s"
| naked: "interleaved s0 es s \<Longrightarrow> interleaved s0 (EvNak d r # es) s"
| termed: "interleaved s0 es s \<Longrightarrow> interleaved s0 (EvTerm r # es) s"

text \<open>The process knows what it read or wrote.\<close>

definition knows_history :: "event list \<Rightarrow> engine \<Rightarrow> bool" where
  "knows_history es s \<longleftrightarrow> (\<forall>y n. knows es y n \<longrightarrow> (y, n) \<in> set (hist s)) \<and>
     (\<forall>x. stored_by es x \<longrightarrow> in_hist s x)"

lemma knows_Cons:
  "knows (e # es) y n \<longleftrightarrow> (\<exists>k. e = EvGet k (Inr (Stored y, n))) \<or> (\<exists>m. e = EvUpdate y m (Inr n)) \<or> knows es y n"
  by (auto simp: knows_def)

lemma engine_step_grows:
  "engine_step s s' \<Longrightarrow> set (hist s) \<subseteq> set (hist s') \<and> pub s \<subseteq> pub s'"
  by (induction rule: engine_step.induct) auto

lemma knows_history_mono:
  "knows_history es s \<Longrightarrow> set (hist s) \<subseteq> set (hist s') \<Longrightarrow> knows_history es s'"
  unfolding knows_history_def in_hist_def using image_mono [of "set (hist s)" "set (hist s')" fst] by blast

lemma interleaved_refines:
  "interleaved s0 es s \<Longrightarrow> ok_events msg es \<Longrightarrow> reachable o0 s0 \<Longrightarrow> fresh_orchestration o0 \<Longrightarrow>
     a_ID (am_Activity msg) \<in> pub s0 \<Longrightarrow>
     reachable o0 s \<and> knows_history es s \<and> a_ID (am_Activity msg) \<in> pub s"
proof (induction rule: interleaved.induct)
  case nothing
  then show ?case by (simp add: knows_history_def knows_def stored_by_def)
next
  case (others es s s')
  then show ?case
    using engine_step_grows [of s s'] knows_history_mono by (blast intro: reachable.step)
next
  case (accepted_write es s a n h n' b)
  then have IH: "reachable o0 s" "knows_history es s" "a_ID (am_Activity msg) \<in> pub s" by simp_all
  from accepted_write.prems obtain y where y: "knows es y n"
    "kv_step (a_ID (am_Activity msg)) (stored_by es) y b" by auto
  have "sorted_wrt (\<lambda>p q. snd q < snd p) (hist s)"
    by (rule engine_invD(8) [OF reachable_inv [OF IH(1) accepted_write.prems(3)]])
  moreover have "(y, n) \<in> set (hist s)" using y(1) IH(2) by (simp add: knows_history_def)
  ultimately have "y = a" using accepted_write.hyps(2) by auto
  moreover have "kv_step (a_ID (am_Activity msg)) (in_hist s) y b"
    by (rule kv_step_mono [OF y(2)]) (use IH(2) in \<open>simp add: knows_history_def\<close>)
  ultimately have "engine_step s (s\<lparr>hist := (b, n') # hist s\<rparr>)"
    using accepted_write.hyps(2,3) IH(3) by (intro engine_step.stored) auto
  moreover have "knows_history (EvUpdate b n (Inr n') # es) (s\<lparr>hist := (b, n') # hist s\<rparr>)"
    using IH(2) by (auto simp: knows_history_def knows_Cons stored_by_Cons)
  ultimately show ?case using IH by (auto intro: reachable.step)
next
  case (published es s subject msgID m r)
  then have IH: "reachable o0 s" "knows_history es s" "a_ID (am_Activity msg) \<in> pub s" by simp_all
  from published.prems obtain x where x: "stored_by es x" "step_complete x (a_ID (am_Activity msg))"
    "am_Activity m \<in> set (GetNextStepActivities (o_Steps x) (a_ID (am_Activity msg)))" by auto
  then have "in_hist s x" using IH(2) by (simp add: knows_history_def)
  from engine_step.publish_next [OF IH(3) this x(2,3)] have "reachable o0
      (s\<lparr>pub := insert (a_ID (am_Activity m)) (pub s)\<rparr>)"
    by (rule reachable.step [OF IH(1)])
  with IH show ?case by (simp add: knows_history_def knows_Cons stored_by_Cons)
next
  case (got es s y n h k)
  then show ?case by (auto simp: knows_history_def knows_Cons stored_by_Cons)
next
  case (not_got es s r k)
  then show ?case by (auto simp: knows_history_def knows_Cons stored_by_Cons)
qed (auto simp: knows_history_def knows_Cons stored_by_Cons)

text \<open>
  C3. Processing the message of a published activity refines the engine: whatever other
  processes do in between, the calls that \<open>processMessage\<close> makes take the system from a
  reachable state only to reachable states. So everything that holds of all reachable states
  holds of a system whose processes run this code.
\<close>

theorem processMessage_refines_engine:
  assumes "fresh_orchestration o0" "reachable o0 s0" "a_ID (am_Activity msg) \<in> pub s0"
    and "snd (processMessage e env md (Inr msg) w) = es @ w" "interleaved s0 es s"
  shows "reachable o0 s"
proof -
  obtain es' where "snd (processMessage e env md (Inr msg) w) = es' @ w" "ok_events msg es'"
    using processMessage_events by blast
  with assms(4) have "ok_events msg es" by simp
  from interleaved_refines [OF assms(5) this assms(2,1,3)] show ?thesis by blast
qed

text \<open>An executor that completes activity \<open>a\<close> while nobody else does anything.\<close>

definition quiet_env :: "orchestration \<Rightarrow> env" where
  "quiet_env o' = \<lparr>e_get = \<lambda>w k. Inr (Stored o', 1), e_update = \<lambda>w v n. Inr (Suc n),
     e_activity = \<lambda>w s i m. None, e_response = \<lambda>w r. None,
     e_run = \<lambda>w h c. Ran \<lparr>ar_Result = ActivityResultComplete, ar_WaitOnReschedule = 0, ar_Error = None\<rparr>
       (ctx_ProcessingData c) (ctx_OutputData c) False False,
     e_ack = \<lambda>w. None, e_nak = \<lambda>w d. None, e_term = \<lambda>w. None, e_now = \<lambda>w. 7,
     e_uuid = \<lambda>w. ''u'', e_inject = \<lambda>w. []\<rparr>"

definition default_executor :: executor where
  "default_executor = \<lparr>MaxActivityRetries = 0, ActivityTimeout = 0\<rparr>"

definition message_a :: activity_message where
  "message_a = \<lparr>am_OrchestrationID = ''o1'', am_Activity = two_step_activities ! 1\<rparr>"

definition stored_after_a :: orchestration where
  "stored_after_a = mark_activity_completed (two_step_fresh\<lparr>o_EngineState :=
     empty_engine_state\<lparr>Attempts := [(''a'', 1)]\<rparr>\<rparr>) ''a'' two_step_fresh"

definition events_a :: "event list" where
  "events_a = [EvAck None, EvUpdate stored_after_a 1 (Inr 2),
     EvRun Process (two_step_activities ! 1) (Ran \<lparr>ar_Result = ActivityResultComplete,
       ar_WaitOnReschedule = 0, ar_Error = None\<rparr> [] [] False False),
     EvGet ''o1'' (Inr (Stored two_step_fresh, 1))]"

lemma process_a:
  "snd (processMessage default_executor (quiet_env two_step_fresh) (Some 1) (Inr message_a) []) = events_a @ []"
  by code_simp

theorem processMessage_refines_engine_witness:
  "reachable two_step_fresh \<lparr>hist = [(stored_after_a, 2), (two_step_fresh, 1)], pub = {''a'', ''b''}\<rparr> \<and>
   has_key (o_Completed stored_after_a) ''a''"
proof -
  let ?s0 = "(engine_start two_step_fresh 1)\<lparr>pub := {''a'', ''b''}\<rparr>"
  have e1: "engine_step (engine_start two_step_fresh 1) ((engine_start two_step_fresh 1)\<lparr>pub := {''a''}\<rparr>)"
    using engine_step.publish_first [of "two_step_activities ! 1" "engine_start two_step_fresh 1"]
    by (simp add: engine_start_def current_def getInitialActivities_def two_step_defs)
  have e2: "engine_step ((engine_start two_step_fresh 1)\<lparr>pub := {''a''}\<rparr>) ?s0"
    using engine_step.publish_first [of "two_step_activities ! 2"
        "(engine_start two_step_fresh 1)\<lparr>pub := {''a''}\<rparr>"]
    by (simp add: engine_start_def current_def getInitialActivities_def two_step_defs insert_commute)
  have r: "reachable two_step_fresh ?s0"
    by (rule reachable.step [OF reachable.step [OF reachable.start e1] e2])
  have "fresh_orchestration two_step_fresh" by (rule instantiated_fresh(1) [OF two_step_fresh_instantiated fair_range_rev])
  moreover have "a_ID (am_Activity message_a) \<in> pub ?s0" by (simp add: message_a_def two_step_activities_def)
  moreover have "interleaved ?s0 events_a (?s0\<lparr>hist := (stored_after_a, 2) # hist ?s0\<rparr>)"
    unfolding events_a_def
    by (intro interleaved.acked interleaved.accepted_write [where a = two_step_fresh and n = 1 and h = "[]"]
        interleaved.activity_ran interleaved.got [where h = "[]"] interleaved.nothing)
      (simp_all add: engine_start_def)
  ultimately have "reachable two_step_fresh (?s0\<lparr>hist := (stored_after_a, 2) # hist ?s0\<rparr>)"
    using processMessage_refines_engine [OF _ r _ process_a] by blast
  then show ?thesis by (simp add: engine_start_def stored_after_a_def mark_activity_completed_has)
qed

end
