(* ===== verification/Executor_Results.thy ===== *)
theory Executor_Results
  imports Engine_System
begin

text \<open>
  The outcomes of the activity executor beyond the protocol: the bound on retries, the error
  that is stored, and what a redelivery does once an activity is completed.
\<close>

section \<open>Stored errors\<close>

lemma cut_back_le: "cut_back m n \<le> n"
  by (induction n) auto

lemma cut_back_start: "cut_back m n = 0 \<or> RuneStart (m ! cut_back m n)"
  by (induction n) auto

lemma cut_back_skipped: "cut_back m n < k \<Longrightarrow> k \<le> n \<Longrightarrow> \<not> RuneStart (m ! k)"
  by (induction n) (auto split: if_splits simp: le_Suc_eq)

text \<open>
  The error that is stored has at most 2048 bytes. A shorter message is stored as it is; a
  longer one is cut to a prefix with a marker at the end, at the last position up to byte 2036
  where a character starts, so no character is split.
\<close>

theorem truncateError_correct:
  "length (truncateError m) \<le> 2048 \<and>
   (if length m \<le> 2048 then truncateError m = m
    else \<exists>n\<le>2036. truncateError m = take n m @ truncation_marker \<and> (n = 0 \<or> RuneStart (m ! n)) \<and>
      list_all (\<lambda>k. \<not> RuneStart (m ! k)) [Suc n..<2037])"
proof (cases "length m \<le> 2048")
  case True
  then show ?thesis by (simp add: truncateError_def maxPersistedErrorBytes_def)
next
  case False
  let ?n = "cut_back m 2036"
  have t: "truncateError m = take ?n m @ truncation_marker"
    using False by (simp add: truncateError_def maxPersistedErrorBytes_def truncation_marker_def)
  have "length truncation_marker = 12" by (simp add: truncation_marker_def)
  moreover have "list_all (\<lambda>k. \<not> RuneStart (m ! k)) [Suc ?n..<2037]"
    using cut_back_skipped [of m 2036] by (auto simp: list_all_iff)
  ultimately show ?thesis
    using False t cut_back_le [of m 2036] cut_back_start [of m 2036] by auto
qed

section \<open>Retries\<close>

lemma update_loop_writes:
  "update_loop c env f orch rv w = (r, w') \<Longrightarrow>
     \<exists>es. w' = es @ w \<and> (\<forall>e\<in>set es. kv_event e \<and> (\<forall>v n x. e = EvUpdate v n x \<longrightarrow> (\<exists>ws z. v = f ws z)))"
proof (induction c arbitrary: orch rv w)
  case 0
  then have "w' = [EvUpdate (f w orch) rv (e_update env w (f w orch) rv)] @ w"
    by (auto simp: update_loop.simps [of 0] Let_def split: sum.splits if_splits)
  then show ?case by fastforce
next
  case (Suc c)
  let ?v = "f w orch" and ?r = "e_update env w (f w orch) rv"
  let ?w1 = "EvUpdate ?v rv ?r # w"
  show ?case
  proof (cases "\<exists>err. ?r = Inl err \<and> isRevisionConflict err")
    case False
    with Suc.prems have "w' = [EvUpdate ?v rv ?r] @ w"
      by (auto simp: update_loop.simps [of "Suc c"] Let_def split: sum.splits if_splits)
    then show ?thesis by fastforce
  next
    case True
    then obtain err where err: "?r = Inl err" "isRevisionConflict err" by blast
    show ?thesis
    proof (rule ReadOrchestration_cases [of env "o_ID ?v" ?w1])
      fix e x assume "ReadOrchestration env (o_ID ?v) ?w1 = (Inl e, EvGet (o_ID ?v) x # ?w1)"
      with Suc.prems err have "w' = [EvGet (o_ID ?v) x, EvUpdate ?v rv (Inl err)] @ w"
        by (auto simp: update_loop.simps [of "Suc c"] Let_def)
      then show ?thesis by (intro exI [of _ "[EvGet (o_ID ?v) x, EvUpdate ?v rv (Inl err)]"]) auto
    next
      fix y n assume r: "ReadOrchestration env (o_ID ?v) ?w1 =
          (Inr (y, n), EvGet (o_ID ?v) (Inr (Stored y, n)) # ?w1)"
      let ?es = "[EvGet (o_ID ?v) (Inr (Stored y, n)), EvUpdate ?v rv ?r]"
      from r Suc.prems err have "update_loop c env f y n (?es @ w) = (r, w')"
        by (simp add: update_loop.simps [of "Suc c"] Let_def)
      from Suc.IH [OF this] obtain es where es: "w' = (es @ ?es) @ w"
        "\<forall>e\<in>set es. kv_event e \<and> (\<forall>v n x. e = EvUpdate v n x \<longrightarrow> (\<exists>ws z. v = f ws z))" by auto
      then show ?thesis by (intro exI [of _ "es @ ?es"]) auto
    qed
  qed
qed

definition writes_only :: "(orchestration \<Rightarrow> bool) \<Rightarrow> event list \<Rightarrow> bool" where
  "writes_only P es \<longleftrightarrow> (\<forall>v n r. EvUpdate v n r \<in> set es \<longrightarrow> P v)"

definition naks :: "event list \<Rightarrow> int list" where
  "naks es = List.map_filter (\<lambda>e. case e of EvNak d r \<Rightarrow> Some d | _ \<Rightarrow> None) es"

lemma naks_simps [simp]: "naks [] = []" "naks (es @ es') = naks es @ naks es'"
  "naks (e # es) = (case e of EvNak d r \<Rightarrow> [d] | _ \<Rightarrow> []) @ naks es"
  by (auto simp: naks_def List.map_filter_def split: event.splits)

lemma naks_kv: "list_all kv_event es \<Longrightarrow> naks es = []"
proof (induction es)
  case (Cons e es)
  then show ?case by (cases e) auto
qed simp

lemma Update_writes_only:
  assumes "\<And>ws z. P (f ws z)"
  obtains r es where "UpdateOrchestration env f orch rv w = (r, es @ w)" "writes_only P es" "naks es = []"
    "\<exists>ws z. fst r = f ws z"
proof -
  obtain applied res w' where u: "update_loop 49 env f orch rv w = ((applied, res), w')"
    by (metis surj_pair)
  from update_loop_writes [OF u] obtain es where es: "w' = es @ w"
    "\<forall>e\<in>set es. kv_event e \<and> (\<forall>v n x. e = EvUpdate v n x \<longrightarrow> (\<exists>ws z. v = f ws z))" by blast
  have "writes_only P es" unfolding writes_only_def using es(2) assms by fastforce
  moreover have "naks es = []" using es(2) by (intro naks_kv) (simp add: list_all_iff)
  ultimately show thesis
    using u es(1) update_loop_applied [OF u] that
    by (simp add: UpdateOrchestration_def maxUpdateConflicts_def) blast
qed

lemma fatal_writes:
  obtains r es where "handleFatalError env orch rv err w = (r, es @ w)"
    "writes_only (\<lambda>v. o_State v = OrchestrationStateErrored) es" "naks es = []"
    "err = None \<longrightarrow> es = [] \<and> r = Inl nil_dereference"
    "err \<noteq> None \<longrightarrow> r \<noteq> Inr None"
proof (cases err)
  case None
  then show thesis by (intro that [of _ "[]"]) (auto simp: handleFatalError_def writes_only_def)
next
  case (Some e)
  obtain r es where u: "UpdateOrchestration env (mark_errored env orch (error_text e)) orch rv w = (r, es @ w)"
    "writes_only (\<lambda>v. o_State v = OrchestrationStateErrored) es" "naks es = []"
    by (rule Update_writes_only [of "\<lambda>v. o_State v = OrchestrationStateErrored"
          "mark_errored env orch (error_text e)" env orch rv w]) (auto simp: mark_errored_state)
  obtain applied x where r: "r = (applied, x)" by (cases r)
  obtain resp q where q: "publishResponse env applied (es @ w) = (q, EvResponse resp q # es @ w)"
    by (simp add: publishResponse_def Let_def)
  show thesis
  proof (cases q)
    case (Some e')
    with u r q \<open>err = Some e\<close> show thesis
      by (intro that [of _ "EvResponse resp q # es"]) (auto simp: handleFatalError_def Let_def writes_only_def)
  next
    case None
    with u r q \<open>err = Some e\<close> show thesis
      by (intro that [of _ "EvAck (e_ack env (EvResponse resp q # es @ w)) # EvResponse resp q # es"])
        (auto simp: handleFatalError_def Let_def writes_only_def msg_Ack_def)
  qed
qed

definition counts_retry :: "string \<Rightarrow> int \<Rightarrow> orchestration \<Rightarrow> bool" where
  "counts_retry aid n v \<longleftrightarrow> lookup (Retries (o_EngineState v)) aid = Some n"

lemma persist_writes:
  assumes wf: "wf_map (Retries (o_EngineState orch))" "counts_retry aid n orch"
  obtains r es where "persistState env orch rv w = (r, es @ w)"
    "writes_only (counts_retry aid n) es" "naks es = []"
proof -
  let ?f = "\<lambda>_. merge_data (o_ProcessingData orch) (o_OutputData orch) (o_EngineState orch)"
  have "counts_retry aid n (?f ws z)" for ws z
    using assms by (simp add: counts_retry_def merge_data_def EngineState_Merge_def lookup_copy_into)
  then obtain r es where u: "UpdateOrchestration env ?f orch rv w = (r, es @ w)"
    "writes_only (counts_retry aid n) es" "naks es = []"
    by (rule Update_writes_only [of "counts_retry aid n" ?f env orch rv w])
  then show thesis by (intro that [of _ es]) (auto simp: persistState_def split_beta Let_def)
qed

text \<open>
  After a retriable failure of an activity that has failed fewer times than allowed, the
  message is asked for again exactly once, after the activity's own delay or else the delay of
  the schedule, and every state written records one more retry. Once the limit is reached
  the message is not asked for again, and every state written is errored. The delay is never
  zero or negative.
\<close>

theorem handleRetryError_correct:
  assumes "wf_map (Retries (o_EngineState orch))"
  shows "\<exists>r es. handleRetryError e env orch rv aid result w = (Inr (Some r), es @ w) \<and>
     (let n = retries_of orch aid + 1;
          delay = (if ar_WaitOnReschedule result \<le> 0 then RetryDelay n else ar_WaitOnReschedule result)
      in if n < maxActivityRetries e
         then naks es = [delay] \<and> writes_only (counts_retry aid n) es
         else naks es = [] \<and> writes_only (\<lambda>v. o_State v = OrchestrationStateErrored) es) \<and>
     list_all (\<lambda>d. 0 < d) (naks es)"
proof -
  let ?n = "retries_of orch aid + 1"
  let ?orch = "orch\<lparr>o_EngineState := (o_EngineState orch)
    \<lparr>Retries := put aid ?n (Retries (o_EngineState orch))\<rparr>\<rparr>"
  let ?d = "if ar_WaitOnReschedule result \<le> 0 then RetryDelay ?n else ar_WaitOnReschedule result"
  have pos: "0 < RetryDelay ?n" using RetryDelay_bounds(1) [of ?n] by (simp add: second_def)
  show ?thesis
  proof (cases "?n < maxActivityRetries e")
    case False
    define re where "re = (case ar_Error result of
      None \<Rightarrow> ErrorString ''activity requested a retry'' | Some err \<Rightarrow> err)"
    define msg where "msg = WrapError (''activity '' @ aid @ '' failed '' @ int_text ?n @ '' times: '' @
      error_text re) re"
    have h: "handleRetryError e env orch rv aid result w = handleFatalError env ?orch rv (Some msg) w"
      using False by (simp add: handleRetryError_def Let_def msg_def re_def)
    show ?thesis
    proof (rule fatal_writes [of env ?orch rv "Some msg" w])
      fix r es assume f: "handleFatalError env ?orch rv (Some msg) w = (r, es @ w)"
        "writes_only (\<lambda>v. o_State v = OrchestrationStateErrored) es" "naks es = []"
        "Some msg \<noteq> None \<longrightarrow> r \<noteq> Inr None"
      have "\<exists>x. r = Inr (Some x)"
        using f(1,4) by (cases r) (auto simp: handleFatalError_def Let_def split_beta split: option.splits)
      with f h False show ?thesis by (auto simp: Let_def)
    qed
  next
    case True
    have "wf_map (Retries (o_EngineState ?orch))" "counts_retry aid ?n ?orch"
      using assms by (simp_all add: counts_retry_def)
    then obtain r es where p: "persistState env ?orch rv w = (r, es @ w)"
      "writes_only (counts_retry aid ?n) es" "naks es = []"
      by (rule persist_writes [of ?orch aid ?n env rv w])
    let ?ev = "EvNak ?d (e_nak env (es @ w) ?d)"
    have "\<exists>x. handleRetryError e env orch rv aid result w = (Inr (Some x), (?ev # es) @ w)"
      using True p(1) by (simp add: handleRetryError_def Let_def msg_NakWithDelay_def)
    moreover have "writes_only (counts_retry aid ?n) (?ev # es)" using p(2) by (simp add: writes_only_def)
    ultimately show ?thesis using True p(3) pos by (auto simp: Let_def)
  qed
qed

theorem handleRetryError_witness:
  "\<exists>r es. handleRetryError default_executor (quiet_env two_step_fresh) two_step_fresh 1 ''a''
     \<lparr>ar_Result = ActivityResultRetryError, ar_WaitOnReschedule = 0, ar_Error = None\<rparr> [] =
       (Inr (Some r), es @ []) \<and> naks es = [second]"
proof -
  have "wf_map (Retries (o_EngineState two_step_fresh))"
    by (simp add: two_step_defs empty_engine_state_def)
  from handleRetryError_correct [OF this, of default_executor "quiet_env two_step_fresh" 1 "''a''"
      "\<lparr>ar_Result = ActivityResultRetryError, ar_WaitOnReschedule = 0, ar_Error = None\<rparr>" "[]"]
  show ?thesis
    by (auto simp: Let_def retries_of_def two_step_defs empty_engine_state_def maxActivityRetries_def
        default_executor_def DefaultMaxDeliver_def RetryDelay_cases)
qed

section \<open>Panics and redeliveries\<close>

text \<open>
  An activity that reports a fatal failure without an error makes the executor panic before
  it writes anything: the message is terminated, so it is never delivered again, no response is
  sent, and the stored orchestration is neither errored nor completed.
\<close>

theorem fatal_without_error_panics:
  assumes read: "e_get env w (am_OrchestrationID msg) = Inr (Stored orch, rv)"
    and pending: "\<not> has_key (o_Completed orch) (a_ID (am_Activity msg))"
    and md: "\<not> IsFinalDelivery md ActivityMaxDeliver"
    and run: "\<And>w h c. e_run env w h c = Ran \<lparr>ar_Result = ActivityResultFatalError,
      ar_WaitOnReschedule = d, ar_Error = None\<rparr> pd od False cd"
  shows "\<exists>r h run t. processMessage e env md (Inr msg) w =
     (Some r, [EvTerm t, EvRun h (am_Activity msg) run,
        EvGet (am_OrchestrationID msg) (Inr (Stored orch, rv))] @ w)"
proof -
  have "ReadOrchestration env (am_OrchestrationID msg) w =
      (Inr (orch, rv), EvGet (am_OrchestrationID msg) (Inr (Stored orch, rv)) # w)"
    using read by (simp add: ReadOrchestration_Inr)
  with pending md run show ?thesis
    by (simp add: processMessage_def processMessage_inner_def processRead_def runActivity_def
        handleResult_def activity_result_defs handleFatalError_def msg_Term_def Let_def split_beta)
qed

definition silent_env :: "orchestration \<Rightarrow> env" where
  "silent_env o' = (quiet_env o')\<lparr>e_run := \<lambda>w h c. Ran \<lparr>ar_Result = ActivityResultFatalError,
     ar_WaitOnReschedule = 0, ar_Error = None\<rparr> [] [] False False\<rparr>"

theorem fatal_without_error_witness:
  "\<exists>r h run t. processMessage default_executor (silent_env two_step_fresh) (Some 1) (Inr message_a) [] =
     (Some r, [EvTerm t, EvRun h (am_Activity message_a) run,
        EvGet ''o1'' (Inr (Stored two_step_fresh, 1))] @ [])"
proof -
  have 1: "e_get (silent_env two_step_fresh) [] (am_OrchestrationID message_a) = Inr (Stored two_step_fresh, 1)"
    by (simp add: silent_env_def quiet_env_def)
  have 2: "\<not> has_key (o_Completed two_step_fresh) (a_ID (am_Activity message_a))"
    by (simp add: two_step_defs has_key_def)
  have 3: "\<not> IsFinalDelivery (Some 1) ActivityMaxDeliver"
    by (simp add: IsFinalDelivery_def deliveryCount_def ActivityMaxDeliver_def)
  have 4: "e_run (silent_env two_step_fresh) w h c = Ran \<lparr>ar_Result = ActivityResultFatalError,
      ar_WaitOnReschedule = 0, ar_Error = None\<rparr> [] [] False False" for w h c
    by (simp add: silent_env_def)
  show ?thesis
    using fatal_without_error_panics [OF 1 2 3 4, of default_executor]
    by (simp add: message_a_def)
qed

text \<open>
  When the response of a completed orchestration cannot be published, the message is
  neither acknowledged nor rejected; and when it is delivered again, the executor finds the
  activity recorded in a finished orchestration and only acknowledges it. So the response is
  never sent.
\<close>

theorem completion_response_lost:
  assumes "\<And>w r. e_response env w r = Some err"
    and "UpdateOrchestration env (\<lambda>w. SetState (e_now env w) OrchestrationStateCompleted) orch rv w =
      ((v, Inr (v, rv')), w1)"
    and "e_get env w2 (am_OrchestrationID msg) = Inr (Stored later, rv2)"
      "has_key (o_Completed later) (a_ID (am_Activity msg))"
      "o_State later = OrchestrationStateCompleted" "\<not> IsFinalDelivery md2 ActivityMaxDeliver"
  shows "(\<exists>resp. handleOrchestrationCompletion env md orch rv w =
            (Inr (Some err), EvResponse resp (Some err) # w1)) \<and>
     (\<exists>a. snd (processMessage e env md2 (Inr msg) w2) =
            [EvAck a, EvGet (am_OrchestrationID msg) (Inr (Stored later, rv2))] @ w2)"
proof
  show "\<exists>resp. handleOrchestrationCompletion env md orch rv w =
      (Inr (Some err), EvResponse resp (Some err) # w1)"
    using assms(1,2) by (simp add: handleOrchestrationCompletion_def publishResponse_def Let_def)
  have "ReadOrchestration env (am_OrchestrationID msg) w2 =
      (Inr (later, rv2), EvGet (am_OrchestrationID msg) (Inr (Stored later, rv2)) # w2)"
    using assms(3) by (simp add: ReadOrchestration_Inr)
  with assms(4-6) show "\<exists>a. snd (processMessage e env md2 (Inr msg) w2) =
      [EvAck a, EvGet (am_OrchestrationID msg) (Inr (Stored later, rv2))] @ w2"
    by (simp add: processMessage_def processMessage_inner_def processRead_def io_AckMessage_def
        msg_Ack_def Let_def split_beta)
qed

definition finished_o :: orchestration where
  "finished_o = two_step_fresh\<lparr>o_State := OrchestrationStateCompleted,
     o_Completed := [(''a'', ()), (''b'', ()), (''c'', ())]\<rparr>"

definition unreachable_env :: env where
  "unreachable_env = (quiet_env finished_o)\<lparr>e_response := \<lambda>w r. Some (ErrorString ''no stream'')\<rparr>"

theorem completion_response_lost_witness:
  "\<exists>a. snd (processMessage default_executor unreachable_env (Some 2) (Inr message_a) []) =
     [EvAck a, EvGet ''o1'' (Inr (Stored finished_o, 1))] @ []"
proof -
  let ?v = "SetState 7 OrchestrationStateCompleted finished_o"
  have 1: "e_response unreachable_env w r = Some (ErrorString ''no stream'')" for w r
    by (simp add: unreachable_env_def)
  have 2: "UpdateOrchestration unreachable_env
      (\<lambda>w. SetState (e_now unreachable_env w) OrchestrationStateCompleted) finished_o 1 [] =
      ((?v, Inr (?v, 2)), [EvUpdate ?v 1 (Inr 2)])"
    by (simp add: UpdateOrchestration_def maxUpdateConflicts_def update_loop.simps unreachable_env_def
        quiet_env_def Let_def numeral_2_eq_2)
  have 3: "e_get unreachable_env [] (am_OrchestrationID message_a) = Inr (Stored finished_o, 1)"
    by (simp add: unreachable_env_def quiet_env_def)
  have 4: "has_key (o_Completed finished_o) (a_ID (am_Activity message_a))"
    by (simp add: finished_o_def has_key_def message_a_def two_step_activities_def)
  have 5: "o_State finished_o = OrchestrationStateCompleted" by (simp add: finished_o_def)
  have 6: "\<not> IsFinalDelivery (Some 2) ActivityMaxDeliver"
    by (simp add: IsFinalDelivery_def deliveryCount_def ActivityMaxDeliver_def)
  from completion_response_lost [OF 1 2 3 4 5 6, of None default_executor] show ?thesis
    by (simp add: message_a_def)
qed

end
