(* ===== verification/Query.thy ===== *)
theory Query
  imports Model
begin

text \<open>
  Predicates and their evaluation in memory (\<open>common/query/predicate.go\<close> and
  \<open>reflect.go\<close>), and their JSON form.

  A Go value, as reflection sees it, is a \<open>gval\<close>. \<open>VIface\<close> is a field or a map
  element whose static type is \<open>any\<close>; \<open>VPtr None\<close> is a nil pointer; a struct lists its
  fields together with those promoted from embedded structs. Numbers of all of Go's types are
  integers that a float64 represents exactly. What \<open>%v\<close> prints for a value that is not a
  string contains memory addresses, so it is the parameter \<open>fmt_v\<close>.
\<close>

datatype gval =
    VNil
  | VBool bool
  | VInt int
  | VStr string
  | VSlice "gval list"
  | VStruct "(string \<times> gval) list"
  | VMap "(string \<times> gval) list"
  | VPtr "gval option"
  | VIface gval

datatype operator =
    OpEqual | OpNotEqual | OpGreater | OpGreaterEqual | OpLess | OpLessEqual
  | OpIn | OpNotIn | OpLike | OpNotLike | OpIsNull | OpIsNotNull
  | OpContains | OpStartsWith | OpEndsWith | OpOther string

text \<open>A compound's operator is a free string; the constructors \<open>And\<close> and \<open>Or\<close> set it.\<close>

datatype predicate =
    AtomicPredicate string operator gval
  | CompoundPredicate string "predicate list"
  | MatchAllPredicate

definition And :: "predicate list \<Rightarrow> predicate" where "And ps = CompoundPredicate ''AND'' ps"
definition Or :: "predicate list \<Rightarrow> predicate" where "Or ps = CompoundPredicate ''OR'' ps"
definition Eq :: "string \<Rightarrow> gval \<Rightarrow> predicate" where "Eq f v = AtomicPredicate f OpEqual v"
definition Neq :: "string \<Rightarrow> gval \<Rightarrow> predicate" where "Neq f v = AtomicPredicate f OpNotEqual v"
definition In :: "string \<Rightarrow> gval list \<Rightarrow> predicate" where "In f vs = AtomicPredicate f OpIn (VSlice (map VIface vs))"
definition NotIn :: "string \<Rightarrow> gval list \<Rightarrow> predicate" where "NotIn f vs = AtomicPredicate f OpNotIn (VSlice (map VIface vs))"

section \<open>Field access\<close>

definition to_lower :: "char \<Rightarrow> char" where
  "to_lower c = (if CHR ''A'' \<le> c \<and> c \<le> CHR ''Z'' then char_of (of_char c + 32 :: nat) else c)"

definition EqualFold :: "string \<Rightarrow> string \<Rightarrow> bool" where
  "EqualFold s t \<longleftrightarrow> map to_lower s = map to_lower t"

text \<open>\<open>FieldByNameFunc\<close> finds a field only if exactly one name matches.\<close>

definition getFieldValueCaseInsensitive :: "(string \<times> gval) list \<Rightarrow> string \<Rightarrow> go_error + gval" where
  "getFieldValueCaseInsensitive fs name =
     (case filter (\<lambda>(n, v). EqualFold n name) fs of
        [(n, v)] \<Rightarrow> Inr v
      | _ \<Rightarrow> Inl (ErrorString (''field '' @ name @ '' not found'')))"

definition deref :: "gval \<Rightarrow> gval" where
  "deref v = (case v of VPtr None \<Rightarrow> VNil | VPtr (Some x) \<Rightarrow> x | _ \<Rightarrow> v)"

definition Interface :: "gval \<Rightarrow> gval" where
  "Interface v = (case v of VIface x \<Rightarrow> x | _ \<Rightarrow> v)"

definition ok_values :: "(go_error + gval) list \<Rightarrow> gval list" where
  "ok_values rs = List.map_filter (\<lambda>r. case r of Inr v \<Rightarrow> if v = VNil then None else Some v | Inl _ \<Rightarrow> None) rs"

text \<open>The walk along the parts of a path. \<open>VNil\<close> also stands for reflection's invalid value.\<close>

fun get_path :: "gval \<Rightarrow> string list \<Rightarrow> go_error + gval" where
  "get_path val [] = Inr (Interface val)"
| "get_path val (part # rest) =
     (case deref val of
        VNil \<Rightarrow> Inl (ErrorString (''invalid Value at Field '' @ part))
      | VMap m \<Rightarrow>
          (case lookup m part of
             None \<Rightarrow> Inl (ErrorString (''key '' @ part @ '' not found in map''))
           | Some v \<Rightarrow> get_path v rest)
      | VStruct fs \<Rightarrow>
          (case getFieldValueCaseInsensitive fs part of
             Inl err \<Rightarrow> Inl (WrapError (''error getting Field '' @ part @ '' not found '' @ error_text err) err)
           | Inr v \<Rightarrow>
               if rest = [] then get_path v rest
               else (case deref v of
                   VSlice elems \<Rightarrow>
                     (let results = ok_values (map (\<lambda>e. get_path (Interface e) rest) elems)
                      in if results \<noteq> [] then Inr (VSlice results)
                         else Inl (ErrorString (''no matching values found in slice for path '' @ join ''.'' rest)))
                 | v' \<Rightarrow> get_path v' rest))
      | _ \<Rightarrow> Inl (ErrorString (''cannot access Field '' @ part @ '' on non-struct type'')))"

definition GetFieldValue :: "gval \<Rightarrow> string \<Rightarrow> go_error + gval" where
  "GetFieldValue obj fieldPath = get_path obj (split_on (CHR ''.'') fieldPath)"

section \<open>Comparison\<close>

definition toFloat64 :: "gval \<Rightarrow> int option" where
  "toFloat64 v = (case v of VInt n \<Rightarrow> Some n | VPtr (Some (VInt n)) \<Rightarrow> Some n | _ \<Rightarrow> None)"

definition toString :: "(gval \<Rightarrow> string) \<Rightarrow> gval \<Rightarrow> string" where
  "toString fmt_v v = (case v of VStr s \<Rightarrow> s | _ \<Rightarrow> fmt_v v)"

definition compare :: "(gval \<Rightarrow> string) \<Rightarrow> gval \<Rightarrow> gval \<Rightarrow> int" where
  "compare fmt_v a b =
     (case (toFloat64 a, toFloat64 b) of
        (Some m, Some n) \<Rightarrow> if m < n then -1 else if m > n then 1 else 0
      | _ \<Rightarrow> (let s = toString fmt_v a; t = toString fmt_v b
              in if s < t then -1 else if t < s then 1 else 0))"

text \<open>\<open>==\<close> on interface values. The values of a predicate are never pointers or of a type that
  cannot be compared, so equality of the values is meant.\<close>

definition equal_values :: "gval \<Rightarrow> gval \<Rightarrow> bool" where
  "equal_values a b =
     (case (toFloat64 a, toFloat64 b) of (Some m, Some n) \<Rightarrow> m = n | _ \<Rightarrow> a = b)"

definition inSlice :: "gval \<Rightarrow> gval \<Rightarrow> bool" where
  "inSlice value slice =
     (case slice of VSlice items \<Rightarrow> list_ex (\<lambda>item. equal_values value (Interface item)) items | _ \<Rightarrow> False)"

fun prefix_of :: "string \<Rightarrow> string \<Rightarrow> bool" where
  "prefix_of [] s \<longleftrightarrow> True"
| "prefix_of (c # p) [] \<longleftrightarrow> False"
| "prefix_of (c # p) (d # s) \<longleftrightarrow> c = d \<and> prefix_of p s"

fun contains_string :: "string \<Rightarrow> string \<Rightarrow> bool" where
  "contains_string [] sub \<longleftrightarrow> sub = []"
| "contains_string (c # s) sub \<longleftrightarrow> prefix_of sub (c # s) \<or> contains_string s sub"

definition compareValueForSingleElement :: "(gval \<Rightarrow> string) \<Rightarrow> operator \<Rightarrow> gval \<Rightarrow> gval \<Rightarrow> bool" where
  "compareValueForSingleElement fmt_v op fieldValue compareValue =
     (case op of
        OpEqual \<Rightarrow> equal_values fieldValue compareValue
      | OpNotEqual \<Rightarrow> \<not> equal_values fieldValue compareValue
      | OpGreater \<Rightarrow> compare fmt_v fieldValue compareValue > 0
      | OpGreaterEqual \<Rightarrow> compare fmt_v fieldValue compareValue \<ge> 0
      | OpLess \<Rightarrow> compare fmt_v fieldValue compareValue < 0
      | OpLessEqual \<Rightarrow> compare fmt_v fieldValue compareValue \<le> 0
      | OpIn \<Rightarrow> inSlice fieldValue compareValue
      | OpNotIn \<Rightarrow> \<not> inSlice fieldValue compareValue
      | OpLike \<Rightarrow> contains_string (toString fmt_v fieldValue) (toString fmt_v compareValue)
      | OpContains \<Rightarrow> contains_string (toString fmt_v fieldValue) (toString fmt_v compareValue)
      | OpStartsWith \<Rightarrow> prefix_of (toString fmt_v compareValue) (toString fmt_v fieldValue)
      | OpEndsWith \<Rightarrow> prefix_of (rev (toString fmt_v compareValue)) (rev (toString fmt_v fieldValue))
      | OpIsNull \<Rightarrow> fieldValue = VNil
      | OpIsNotNull \<Rightarrow> fieldValue \<noteq> VNil
      | _ \<Rightarrow> False)"

definition CompareValues :: "(gval \<Rightarrow> string) \<Rightarrow> operator \<Rightarrow> gval \<Rightarrow> gval \<Rightarrow> bool" where
  "CompareValues fmt_v op fieldValue compareValue =
     (case fieldValue of
        VSlice elems \<Rightarrow>
          list_ex (\<lambda>e. compareValueForSingleElement fmt_v op (Interface e) compareValue) elems
      | _ \<Rightarrow> compareValueForSingleElement fmt_v op fieldValue compareValue)"

section \<open>Matching\<close>

record field_matcher =
  fm_get :: "gval \<Rightarrow> string \<Rightarrow> go_error + gval"
  fm_compare :: "operator \<Rightarrow> gval \<Rightarrow> gval \<Rightarrow> bool"

definition DefaultFieldMatcher :: "(gval \<Rightarrow> string) \<Rightarrow> field_matcher" where
  "DefaultFieldMatcher fmt_v = \<lparr>fm_get = GetFieldValue, fm_compare = CompareValues fmt_v\<rparr>"

text \<open>The loop over the predicates of a compound, with the result of each.\<close>

fun compound_loop :: "string \<Rightarrow> bool list \<Rightarrow> bool" where
  "compound_loop operator [] \<longleftrightarrow> operator = ''AND''"
| "compound_loop operator (matches # rest) \<longleftrightarrow>
     (if operator = ''AND'' \<and> \<not> matches then False
      else if operator = ''OR'' \<and> matches then True
      else compound_loop operator rest)"

fun Matches :: "field_matcher \<Rightarrow> gval \<Rightarrow> predicate \<Rightarrow> bool" where
  "Matches fm obj MatchAllPredicate \<longleftrightarrow> True"
| "Matches fm obj (AtomicPredicate field op v) \<longleftrightarrow>
     (case fm_get fm obj field of
        Inl err \<Rightarrow> op = OpIsNull
      | Inr fieldValue \<Rightarrow> fm_compare fm op fieldValue v)"
| "Matches fm obj (CompoundPredicate operator ps) \<longleftrightarrow>
     (if ps = [] then True else compound_loop operator (map (Matches fm obj) ps))"

section \<open>JSON\<close>

definition operator_text :: "operator \<Rightarrow> string" where
  "operator_text op =
     (case op of OpEqual \<Rightarrow> ''='' | OpNotEqual \<Rightarrow> ''!='' | OpGreater \<Rightarrow> ''>'' | OpGreaterEqual \<Rightarrow> ''>=''
      | OpLess \<Rightarrow> ''<'' | OpLessEqual \<Rightarrow> ''<='' | OpIn \<Rightarrow> ''IN'' | OpNotIn \<Rightarrow> ''NOT IN''
      | OpLike \<Rightarrow> ''LIKE'' | OpNotLike \<Rightarrow> ''NOT LIKE'' | OpIsNull \<Rightarrow> ''IS NULL''
      | OpIsNotNull \<Rightarrow> ''IS NOT NULL'' | OpContains \<Rightarrow> ''CONTAINS'' | OpStartsWith \<Rightarrow> ''STARTS_WITH''
      | OpEndsWith \<Rightarrow> ''ENDS_WITH'' | OpOther s \<Rightarrow> s)"

definition known_operators :: "operator list" where
  "known_operators = [OpEqual, OpNotEqual, OpGreater, OpGreaterEqual, OpLess, OpLessEqual, OpIn, OpNotIn,
     OpLike, OpNotLike, OpIsNull, OpIsNotNull, OpContains, OpStartsWith, OpEndsWith]"

definition operator_of :: "string \<Rightarrow> operator" where
  "operator_of s = (case find (\<lambda>op. operator_text op = s) known_operators of
      Some op \<Rightarrow> op | None \<Rightarrow> OpOther s)"

definition to_upper :: "char \<Rightarrow> char" where
  "to_upper c = (if CHR ''a'' \<le> c \<and> c \<le> CHR ''z'' then char_of (of_char c - 32 :: nat) else c)"

definition ToUpper :: "string \<Rightarrow> string" where
  "ToUpper s = map to_upper s"

fun gval_json :: "gval \<Rightarrow> json" where
  "gval_json VNil = JNull"
| "gval_json (VBool b) = JBool b"
| "gval_json (VInt n) = JNum n"
| "gval_json (VStr s) = JStr s"
| "gval_json (VSlice vs) = JArr (map gval_json vs)"
| "gval_json (VStruct fs) = JObj (map (\<lambda>(k, v). (k, gval_json v)) fs)"
| "gval_json (VMap fs) = JObj (map (\<lambda>(k, v). (k, gval_json v)) fs)"
| "gval_json (VPtr None) = JNull"
| "gval_json (VPtr (Some v)) = gval_json v"
| "gval_json (VIface v) = gval_json v"

text \<open>What \<open>json.Unmarshal\<close> makes of a value of static type \<open>any\<close>.\<close>

fun json_gval :: "json \<Rightarrow> gval" where
  "json_gval JNull = VNil"
| "json_gval (JBool b) = VBool b"
| "json_gval (JNum n) = VInt n"
| "json_gval (JStr s) = VStr s"
| "json_gval (JArr js) = VSlice (map (\<lambda>j. VIface (json_gval j)) js)"
| "json_gval (JObj m) = VMap (map (\<lambda>(k, j). (k, VIface (json_gval j))) m)"

fun predicate_json :: "predicate \<Rightarrow> json" where
  "predicate_json MatchAllPredicate = JObj [(''type'', JStr ''matchAll'')]"
| "predicate_json (AtomicPredicate field op v) =
     JObj [(''field'', JStr field), (''operator'', JStr (operator_text op)), (''value'', gval_json v)]"
| "predicate_json (CompoundPredicate operator ps) =
     JObj [(''operator'', JStr operator), (''predicates'', JArr (map predicate_json ps))]"

definition atomic_of_json :: "props \<Rightarrow> predicate" where
  "atomic_of_json m =
     AtomicPredicate (string_or_empty (lookup m ''field''))
       (case lookup m ''operator'' of Some (JStr s) \<Rightarrow> operator_of (ToUpper s) | _ \<Rightarrow> OpOther [])
       (case lookup m ''value'' of None \<Rightarrow> VNil | Some j \<Rightarrow> json_gval j)"

text \<open>The loop over the elements: it stops at the first error, with its index.\<close>

fun collect_predicates :: "nat \<Rightarrow> (go_error + predicate) list \<Rightarrow> go_error + predicate list" where
  "collect_predicates i [] = Inr []"
| "collect_predicates i (Inl err # rs) =
     Inl (WrapError (''failed to unmarshal predicate at index '' @ nat_text i @ '': '' @ error_text err) err)"
| "collect_predicates i (Inr p # rs) = bind_result (collect_predicates (Suc i) rs) (\<lambda>ps. Inr (p # ps))"

definition type_matchAll :: "props \<Rightarrow> bool" where
  "type_matchAll m \<longleftrightarrow> lookup m ''type'' = Some (JStr ''matchAll'') \<and>
     list_all (\<lambda>(k, j). case j of JStr s \<Rightarrow> True | JNull \<Rightarrow> True | _ \<Rightarrow> False) m"

definition unmarshal_error :: "string \<Rightarrow> go_error" where
  "unmarshal_error what = ErrorString (''json: cannot unmarshal '' @ what)"

lemma element_size:
  assumes "map_of m k = Some (JArr js)" "x \<in> set js"
  shows "size x < size (JObj m)"
proof -
  have "size x \<le> size_list size js" using assms(2) by (rule size_list_estimation') simp
  then have "size x \<le> size_prod (\<lambda>x. 0) size (k, JArr js)" by simp
  also have "\<dots> \<le> size_list (size_prod (\<lambda>x. 0) size) m"
    using map_of_SomeD [OF assms(1)] by (rule size_list_estimation') simp
  finally show ?thesis by simp
qed

function UnmarshalPredicate :: "json \<Rightarrow> go_error + predicate" where
  "UnmarshalPredicate (JObj m) =
     (if type_matchAll m then Inr MatchAllPredicate
      else if has_key m ''predicates'' then
        (case map_of m ''operator'' of
           Some (JBool _) \<Rightarrow> Inl (unmarshal_error ''operator'')
         | Some (JNum _) \<Rightarrow> Inl (unmarshal_error ''operator'')
         | Some (JArr _) \<Rightarrow> Inl (unmarshal_error ''operator'')
         | Some (JObj _) \<Rightarrow> Inl (unmarshal_error ''operator'')
         | operator \<Rightarrow>
             (case map_of m ''predicates'' of
                Some (JArr js) \<Rightarrow>
                  bind_result (collect_predicates 0 (map UnmarshalPredicate js))
                    (\<lambda>ps. Inr (CompoundPredicate (string_or_empty operator) ps))
              | Some JNull \<Rightarrow> Inr (CompoundPredicate (string_or_empty operator) [])
              | _ \<Rightarrow> Inl (unmarshal_error ''predicates'')))
      else Inr (atomic_of_json m))"
| "UnmarshalPredicate JNull = Inr (AtomicPredicate [] (OpOther []) VNil)"
| "UnmarshalPredicate (JBool b) = Inl (ErrorString ''failed to unmarshal predicate'')"
| "UnmarshalPredicate (JNum n) = Inl (ErrorString ''failed to unmarshal predicate'')"
| "UnmarshalPredicate (JStr s) = Inl (ErrorString ''failed to unmarshal predicate'')"
| "UnmarshalPredicate (JArr js) = Inl (ErrorString ''failed to unmarshal predicate'')"
  by pat_completeness auto

termination UnmarshalPredicate
  by (relation "measure size") (simp_all only: wf_measure in_measure element_size)

section \<open>What a predicate means\<close>

lemma compound_loop_And: "compound_loop ''AND'' bs \<longleftrightarrow> list_all (\<lambda>b. b) bs"
  by (induction bs) auto

lemma compound_loop_Or: "compound_loop ''OR'' bs \<longleftrightarrow> list_ex (\<lambda>b. b) bs"
  by (induction bs) auto

lemma compound_loop_other: "op \<noteq> ''AND'' \<Longrightarrow> op \<noteq> ''OR'' \<Longrightarrow> \<not> compound_loop op bs"
  by (induction bs) auto

lemma Matches_And: "Matches fm obj (And ps) \<longleftrightarrow> list_all (Matches fm obj) ps"
  by (simp add: And_def compound_loop_And list.pred_map comp_def)

lemma Matches_Or: "Matches fm obj (Or ps) \<longleftrightarrow> ps = [] \<or> list_ex (Matches fm obj) ps"
  by (simp add: Or_def compound_loop_Or list_ex_iff)

text \<open>
  A conjunction holds exactly when every predicate does and a disjunction when some
  predicate does, except that the empty disjunction holds; nesting one connective in itself
  changes nothing, and a compound with any other connective never holds unless it is empty.
  A field that cannot be read satisfies IS NULL only.
\<close>

theorem Matches_correct:
  "(Matches fm obj (And ps) \<longleftrightarrow> list_all (Matches fm obj) ps) \<and>
   (Matches fm obj (Or ps) \<longleftrightarrow> ps = [] \<or> list_ex (Matches fm obj) ps) \<and>
   (Matches fm obj (And (ps @ And qs # rs)) \<longleftrightarrow> Matches fm obj (And (ps @ qs @ rs))) \<and>
   (Matches fm obj (Or (ps @ Or (q # qs) # rs)) \<longleftrightarrow> Matches fm obj (Or (ps @ q # qs @ rs))) \<and>
   (Matches fm obj (CompoundPredicate op ps) = (ps = [] \<or>
      op = ''AND'' \<and> list_all (Matches fm obj) ps \<or> op = ''OR'' \<and> list_ex (Matches fm obj) ps)) \<and>
   (Matches (fm\<lparr>fm_get := \<lambda>x y. Inl err\<rparr>) obj (AtomicPredicate f rel v) \<longleftrightarrow> rel = OpIsNull)"
proof (intro conjI)
  show "Matches fm obj (CompoundPredicate op ps) = (ps = [] \<or>
      op = ''AND'' \<and> list_all (Matches fm obj) ps \<or> op = ''OR'' \<and> list_ex (Matches fm obj) ps)"
  proof (cases "op = ''AND'' \<or> op = ''OR''")
    case True
    then show ?thesis using Matches_And [of fm obj ps] Matches_Or [of fm obj ps]
      by (auto simp: And_def Or_def simp del: Matches.simps)
  next
    case False
    then show ?thesis by (simp add: compound_loop_other)
  qed
next
  show "Matches (fm\<lparr>fm_get := \<lambda>x y. Inl err\<rparr>) obj (AtomicPredicate f rel v) \<longleftrightarrow> rel = OpIsNull"
    by simp
qed (simp_all del: Matches.simps add: Matches_And Matches_Or disj_ac)

lemma toFloat64_string: "toFloat64 (VStr s) = None"
  by (simp add: toFloat64_def)

lemma equal_values_compare:
  "toFloat64 a \<noteq> None \<and> toFloat64 b \<noteq> None \<or> a = VStr s \<and> b = VStr t
     \<Longrightarrow> equal_values a b \<longleftrightarrow> compare fmt_v a b = 0"
  by (cases "toFloat64 a"; cases "toFloat64 b")
    (auto simp: equal_values_def compare_def toString_def Let_def toFloat64_string split: if_splits)

definition single :: "gval \<Rightarrow> bool" where
  "single v = (case v of VSlice vs \<Rightarrow> False | _ \<Rightarrow> True)"

lemma CompareValues_single:
  "single v \<Longrightarrow> CompareValues fmt_v op v w = compareValueForSingleElement fmt_v op v w"
  by (cases v) (simp_all add: CompareValues_def single_def)

lemma compare_swap: "compare fmt_v a b < 0 \<longleftrightarrow> compare fmt_v b a > 0"
  by (auto simp: compare_def Let_def split: option.split)

text \<open>
  The in-memory operators on a single value: each comparison is the negation of its
  opposite, \<open>=\<close> agrees with the order on two numbers and on two strings, reversing the
  operands reverses the order, and IN is a disjunction of equalities. On the values collected
  from a slice every operator is existential, so \<open>!=\<close> there is not the negation of \<open>=\<close>:
  both hold as soon as two elements differ. NOT LIKE is accepted by the query language and
  never matches anything.
\<close>

theorem CompareValues_correct:
  assumes "single v" and "single w"
  shows "(CompareValues fmt_v OpNotEqual v w \<longleftrightarrow> \<not> CompareValues fmt_v OpEqual v w) \<and>
    (CompareValues fmt_v OpGreaterEqual v w \<longleftrightarrow> \<not> CompareValues fmt_v OpLess v w) \<and>
    (CompareValues fmt_v OpLessEqual v w \<longleftrightarrow> \<not> CompareValues fmt_v OpGreater v w) \<and>
    (CompareValues fmt_v OpNotIn v w' \<longleftrightarrow> \<not> CompareValues fmt_v OpIn v w') \<and>
    (CompareValues fmt_v OpLess v w \<longleftrightarrow> CompareValues fmt_v OpGreater w v) \<and>
    (toFloat64 v \<noteq> None \<and> toFloat64 w \<noteq> None \<or> v = VStr s \<and> w = VStr t \<longrightarrow>
       (CompareValues fmt_v OpEqual v w \<longleftrightarrow>
          CompareValues fmt_v OpLessEqual v w \<and> CompareValues fmt_v OpGreaterEqual v w)) \<and>
    (CompareValues fmt_v OpIn v (VSlice (map VIface ws)) \<longleftrightarrow>
       list_ex (\<lambda>u. CompareValues fmt_v OpEqual v u) ws) \<and>
    (CompareValues fmt_v op (VSlice vs) w' \<longleftrightarrow>
       list_ex (\<lambda>u. compareValueForSingleElement fmt_v op (Interface u) w') vs) \<and>
    \<not> CompareValues fmt_v OpNotLike u w'"
proof (intro conjI impI)
  note simps = CompareValues_single [OF assms(1)] CompareValues_single [OF assms(2)]
    compareValueForSingleElement_def
  show "CompareValues fmt_v OpLess v w \<longleftrightarrow> CompareValues fmt_v OpGreater w v"
    by (simp add: simps compare_swap)
  show "CompareValues fmt_v OpEqual v w \<longleftrightarrow>
      CompareValues fmt_v OpLessEqual v w \<and> CompareValues fmt_v OpGreaterEqual v w"
    if "toFloat64 v \<noteq> None \<and> toFloat64 w \<noteq> None \<or> v = VStr s \<and> w = VStr t"
    using that by (simp add: simps equal_values_compare [of v w s t fmt_v]) linarith
  show "CompareValues fmt_v OpIn v (VSlice (map VIface ws)) \<longleftrightarrow>
      list_ex (\<lambda>u. CompareValues fmt_v OpEqual v u) ws"
    by (simp add: simps inSlice_def list_ex_iff Interface_def)
  show "CompareValues fmt_v op (VSlice vs) w' \<longleftrightarrow>
      list_ex (\<lambda>u. compareValueForSingleElement fmt_v op (Interface u) w') vs"
    by (simp add: CompareValues_def)
  show "\<not> CompareValues fmt_v OpNotLike u w'"
    by (simp add: CompareValues_def compareValueForSingleElement_def list_ex_iff split: gval.split)
qed (simp_all add: CompareValues_single [OF assms(1)] compareValueForSingleElement_def not_less)

theorem CompareValues_witness:
  "(CompareValues (\<lambda>x. ''?'') OpGreaterEqual (VInt 7) (VInt 5)
      \<longleftrightarrow> \<not> CompareValues (\<lambda>x. ''?'') OpLess (VInt 7) (VInt 5)) \<and>
   \<not> CompareValues (\<lambda>x. ''?'') OpNotLike (VStr ''a'') (VStr ''b'')"
  using CompareValues_correct [of "VInt 7" "VInt 5" "\<lambda>x. ''?''" "VStr ''b''" "[]" "[]" "[]" OpEqual "[]" "VStr ''a''"]
  by (simp add: single_def)

section \<open>JSON round trip\<close>

text \<open>The values that \<open>json.Unmarshal\<close> produces, and predicates over them.\<close>

definition json_value :: "gval \<Rightarrow> bool" where
  "json_value v \<longleftrightarrow> json_gval (gval_json v) = v"

definition json_operator :: "operator \<Rightarrow> bool" where
  "json_operator op \<longleftrightarrow> operator_of (ToUpper (operator_text op)) = op"

fun json_predicate :: "predicate \<Rightarrow> bool" where
  "json_predicate MatchAllPredicate \<longleftrightarrow> True"
| "json_predicate (AtomicPredicate field op v) \<longleftrightarrow> json_operator op \<and> json_value v"
| "json_predicate (CompoundPredicate op ps) \<longleftrightarrow> list_all json_predicate ps"

lemma collect_predicates_ok: "collect_predicates i (map Inr ps) = Inr ps"
  by (induction ps arbitrary: i) simp_all

lemma known_operators_all: "list_all json_operator known_operators"
  by code_simp

lemma known_operators_json: "op \<in> set known_operators \<Longrightarrow> json_operator op"
  using known_operators_all by (simp add: list_all_iff)

text \<open>
  Encoding a predicate as JSON and reading it back gives the predicate, whatever the
  nesting of its connectives, if its values are JSON values and its operators are the known
  ones (or upper-case names).
\<close>

theorem UnmarshalPredicate_roundtrip:
  "json_predicate p \<Longrightarrow> UnmarshalPredicate (predicate_json p) = Inr p"
proof (induction p)
  case (AtomicPredicate field op v)
  then show ?case
    by (simp add: type_matchAll_def has_key_def atomic_of_json_def string_or_empty_def
        json_operator_def json_value_def)
next
  case (CompoundPredicate op ps)
  then have "map UnmarshalPredicate (map predicate_json ps) = map Inr ps"
    by (simp add: list_all_iff)
  then have "collect_predicates 0 (map UnmarshalPredicate (map predicate_json ps)) = Inr ps"
    by (simp only: collect_predicates_ok)
  then show ?case
    by (simp add: type_matchAll_def has_key_def string_or_empty_def)
qed (simp add: type_matchAll_def)

theorem UnmarshalPredicate_roundtrip_witness:
  "UnmarshalPredicate (predicate_json (Or [Eq ''a'' (VInt 1), And [NotIn ''b'' [VStr ''x''], MatchAllPredicate]]))
     = Inr (Or [Eq ''a'' (VInt 1), And [NotIn ''b'' [VStr ''x''], MatchAllPredicate]])"
  by (rule UnmarshalPredicate_roundtrip)
    (simp add: Or_def And_def Eq_def NotIn_def json_value_def known_operators_json known_operators_def)

end
