(* ===== verification/Query_Parser.thy ===== *)
theory Query_Parser
  imports Query
begin

text \<open>
  From the text of a query to a predicate (\<open>common/query/parser.go\<close>): the parse trees of the
  grammar \<open>Query.g4\<close>, and the listener that builds a predicate from one on a stack.

  The recognizer is generated code on the ANTLR runtime. It is the parameter \<open>antlr\<close>, which
  gives the messages of the syntax errors and the tree. \<open>parse_float\<close> is what
  \<open>strconv.ParseFloat\<close> makes of a number with a fraction.
\<close>

section \<open>Parse trees\<close>

datatype value_ctx = StringCtx string | NumberCtx string | BoolCtx string | NullCtx

datatype atomic_ctx =
    ComparisonCtx "string list" string value_ctx
  | IsNullCtx "string list"
  | IsNotNullCtx "string list"
  | InCtx "string list" "value_ctx list"
  | NotInCtx "string list" "value_ctx list"

datatype connective = AND_token | OR_token

datatype compound_ctx =
    AtomicsCtx atomic_ctx "(connective \<times> atomic_ctx) list"
  | ParenCtx compound_ctx

datatype predicate_ctx =
    CompoundRoot compound_ctx
  | AtomicRoot atomic_ctx
  | TrueRoot

section \<open>Values and operators\<close>

text \<open>\<open>strings.ReplaceAll(s, "''", "'")\<close>: the occurrences from the left that do not overlap.\<close>

fun unescape_quotes :: "string \<Rightarrow> string" where
  "unescape_quotes (c # d # s) =
     (if c = CHR 0x27 \<and> d = CHR 0x27 then c # unescape_quotes s else c # unescape_quotes (d # s))"
| "unescape_quotes s = s"

definition parseStringValue :: "string \<Rightarrow> string" where
  "parseStringValue s =
     unescape_quotes (if 2 \<le> length s \<and> hd s = CHR 0x27 \<and> last s = CHR 0x27
                      then butlast (tl s) else s)"

definition digit_value :: "char \<Rightarrow> int option" where
  "digit_value c = (if CHR ''0'' \<le> c \<and> c \<le> CHR ''9'' then Some (of_char c - 48) else None)"

fun digits_value :: "int \<Rightarrow> string \<Rightarrow> int option" where
  "digits_value acc [] = Some acc"
| "digits_value acc (c # s) =
     (case digit_value c of None \<Rightarrow> None | Some d \<Rightarrow> digits_value (10 * acc + d) s)"

text \<open>\<open>strconv.ParseInt(s, 10, 64)\<close>: an optional sign, digits, and a value of 64 bits.\<close>

definition ParseInt :: "string \<Rightarrow> int option" where
  "ParseInt s =
     (let digits = (if s \<noteq> [] \<and> (hd s = CHR ''-'' \<or> hd s = CHR ''+'') then tl s else s)
      in if digits = [] then None
         else case digits_value 0 digits of
             None \<Rightarrow> None
           | Some n \<Rightarrow> (let i = (if hd s = CHR ''-'' then - n else n)
                        in if - (2 ^ 63) \<le> i \<and> i < 2 ^ 63 then Some i else None))"

definition parseNumericValue :: "(string \<Rightarrow> gval option) \<Rightarrow> string \<Rightarrow> gval" where
  "parseNumericValue parse_float s =
     (case ParseInt s of
        Some i \<Rightarrow> VInt i
      | None \<Rightarrow> (case parse_float s of Some f \<Rightarrow> f | None \<Rightarrow> VStr s))"

definition parseBooleanValue :: "string \<Rightarrow> bool" where
  "parseBooleanValue s \<longleftrightarrow> ToUpper s = ''TRUE''"

definition parseOperator :: "string \<Rightarrow> operator" where
  "parseOperator opStr =
     (let opUpper = ToUpper opStr
      in if opUpper = ''='' then OpEqual
         else if opUpper = ''!='' then OpNotEqual
         else if opUpper = ''>'' then OpGreater
         else if opUpper = ''>='' then OpGreaterEqual
         else if opUpper = ''<'' then OpLess
         else if opUpper = ''<='' then OpLessEqual
         else if opUpper = ''LIKE'' then OpLike
         else if opUpper = ''NOT LIKE'' then OpNotLike
         else if opUpper = ''CONTAINS'' then OpContains
         else if opUpper = ''STARTS_WITH'' then OpStartsWith
         else if opUpper = ''ENDS_WITH'' then OpEndsWith
         else OpOther opUpper)"

definition getFieldPath :: "string list \<Rightarrow> string" where
  "getFieldPath idents = join ''.'' idents"

definition getValue :: "(string \<Rightarrow> gval option) \<Rightarrow> value_ctx \<Rightarrow> gval" where
  "getValue parse_float v =
     (case v of
        StringCtx s \<Rightarrow> VStr (parseStringValue s)
      | NumberCtx s \<Rightarrow> parseNumericValue parse_float s
      | BoolCtx s \<Rightarrow> VBool (parseBooleanValue s)
      | NullCtx \<Rightarrow> VNil)"

definition getValueList :: "(string \<Rightarrow> gval option) \<Rightarrow> value_ctx list \<Rightarrow> gval" where
  "getValueList parse_float vs = VSlice (map (\<lambda>v. VIface (getValue parse_float v)) vs)"

section \<open>The predicate builder\<close>

text \<open>The end of the list is the top of the stack; popping an empty stack gives nil.\<close>

record builder =
  pb_stack :: "predicate option list"
  pb_err :: "go_error option"

definition newPredicateBuilder :: builder where
  "newPredicateBuilder = \<lparr>pb_stack = [], pb_err = None\<rparr>"

definition Push :: "predicate option \<Rightarrow> builder \<Rightarrow> builder" where
  "Push p pb = pb\<lparr>pb_stack := pb_stack pb @ [p]\<rparr>"

definition Pop :: "builder \<Rightarrow> predicate option \<times> builder" where
  "Pop pb = (if pb_stack pb = [] then (None, pb)
             else (last (pb_stack pb), pb\<lparr>pb_stack := butlast (pb_stack pb)\<rparr>))"

definition GetPredicate :: "builder \<Rightarrow> go_error + predicate option" where
  "GetPredicate pb =
     (case pb_err pb of
        Some err \<Rightarrow> Inl err
      | None \<Rightarrow>
          (case pb_stack pb of
             [p] \<Rightarrow> Inr p
           | st \<Rightarrow> Inl (ErrorString (''invalid parse state: expected 1 predicate, got '' @ nat_text (length st)))))"

definition ExitPredicate :: "predicate_ctx \<Rightarrow> builder \<Rightarrow> builder" where
  "ExitPredicate ctx pb =
     (if pb_err pb \<noteq> None then pb
      else (case ctx of TrueRoot \<Rightarrow> Push (Some MatchAllPredicate) pb | _ \<Rightarrow> pb))"

definition atomic_of_ctx :: "(string \<Rightarrow> gval option) \<Rightarrow> atomic_ctx \<Rightarrow> predicate" where
  "atomic_of_ctx parse_float ctx =
     (case ctx of
        IsNotNullCtx f \<Rightarrow> AtomicPredicate (getFieldPath f) OpIsNotNull VNil
      | IsNullCtx f \<Rightarrow> AtomicPredicate (getFieldPath f) OpIsNull VNil
      | NotInCtx f vs \<Rightarrow> AtomicPredicate (getFieldPath f) OpNotIn (getValueList parse_float vs)
      | InCtx f vs \<Rightarrow> AtomicPredicate (getFieldPath f) OpIn (getValueList parse_float vs)
      | ComparisonCtx f op v \<Rightarrow> AtomicPredicate (getFieldPath f) (parseOperator op) (getValue parse_float v))"

definition ExitAtomicPredicate :: "(string \<Rightarrow> gval option) \<Rightarrow> atomic_ctx \<Rightarrow> builder \<Rightarrow> builder" where
  "ExitAtomicPredicate parse_float ctx pb =
     (if pb_err pb \<noteq> None then pb else Push (Some (atomic_of_ctx parse_float ctx)) pb)"

text \<open>The loop that pops the operands, last one first.\<close>

fun pop_operands :: "nat \<Rightarrow> builder \<Rightarrow> predicate option list \<times> builder" where
  "pop_operands 0 pb = ([], pb)"
| "pop_operands (Suc n) pb =
     (let (p, pb) = Pop pb; (ps, pb) = pop_operands n pb in (ps @ [p], pb))"

text \<open>A compound keeps its operands as they come from the stack; no operand is nil when the
  builder walks a tree, which \<open>walk_compound\<close> below shows.\<close>

definition operands :: "predicate option list \<Rightarrow> predicate list" where
  "operands ps = List.map_filter id ps"

definition compound_operator :: "connective list \<Rightarrow> string option" where
  "compound_operator tokens =
     (let allANDs = filter (\<lambda>t. t = AND_token) tokens; allORs = filter (\<lambda>t. t = OR_token) tokens
      in if length allANDs > 0 then Some ''AND''
         else if length allORs > 0 then Some ''OR''
         else None)"

definition ExitCompoundPredicate :: "compound_ctx \<Rightarrow> builder \<Rightarrow> builder" where
  "ExitCompoundPredicate ctx pb =
     (if pb_err pb \<noteq> None then pb
      else (case ctx of
          ParenCtx inner \<Rightarrow> pb
        | AtomicsCtx a rest \<Rightarrow>
            (let numAtomics = length (a # map snd rest)
             in if numAtomics \<le> 1 then pb
                else (let (predicates, pb) = pop_operands numAtomics pb
                      in case compound_operator (map fst rest) of
                           None \<Rightarrow> pb\<lparr>pb_err := Some (ErrorString ''no operator found in compound predicate'')\<rparr>
                         | Some operator \<Rightarrow>
                             Push (Some (CompoundPredicate operator (operands predicates))) pb))))"

text \<open>The walk: children first, in order, then the exit of the node.\<close>

fun walk_compound :: "(string \<Rightarrow> gval option) \<Rightarrow> compound_ctx \<Rightarrow> builder \<Rightarrow> builder" where
  "walk_compound parse_float (ParenCtx inner) pb =
     ExitCompoundPredicate (ParenCtx inner) (walk_compound parse_float inner pb)"
| "walk_compound parse_float (AtomicsCtx a rest) pb =
     ExitCompoundPredicate (AtomicsCtx a rest)
       (fold (ExitAtomicPredicate parse_float) (a # map snd rest) pb)"

definition walk_predicate :: "(string \<Rightarrow> gval option) \<Rightarrow> predicate_ctx \<Rightarrow> builder \<Rightarrow> builder" where
  "walk_predicate parse_float ctx pb =
     ExitPredicate ctx
       (case ctx of
          CompoundRoot c \<Rightarrow> walk_compound parse_float c pb
        | AtomicRoot a \<Rightarrow> ExitAtomicPredicate parse_float a pb
        | TrueRoot \<Rightarrow> pb)"

definition ParsePredicate ::
    "(string \<Rightarrow> string list \<times> predicate_ctx) \<Rightarrow> (string \<Rightarrow> gval option) \<Rightarrow> string \<Rightarrow> go_error + predicate option" where
  "ParsePredicate antlr parse_float input =
     (case antlr input of
        (msg # msgs, tree) \<Rightarrow> Inl (ErrorString (''parse error: '' @ msg))
      | ([], tree) \<Rightarrow> GetPredicate (walk_predicate parse_float tree newPredicateBuilder))"

section \<open>What the builder builds\<close>

fun compound_meaning :: "(string \<Rightarrow> gval option) \<Rightarrow> compound_ctx \<Rightarrow> predicate" where
  "compound_meaning parse_float (ParenCtx inner) = compound_meaning parse_float inner"
| "compound_meaning parse_float (AtomicsCtx a rest) =
     (let ps = map (atomic_of_ctx parse_float) (a # map snd rest)
      in if rest = [] then hd ps
         else if list_ex (\<lambda>(t, x). t = AND_token) rest then And ps else Or ps)"

definition tree_meaning :: "(string \<Rightarrow> gval option) \<Rightarrow> predicate_ctx \<Rightarrow> predicate" where
  "tree_meaning parse_float ctx =
     (case ctx of CompoundRoot c \<Rightarrow> compound_meaning parse_float c
      | AtomicRoot a \<Rightarrow> atomic_of_ctx parse_float a
      | TrueRoot \<Rightarrow> MatchAllPredicate)"

lemma ExitAtomicPredicate_ok:
  "pb_err pb = None \<Longrightarrow> ExitAtomicPredicate pf a pb = pb\<lparr>pb_stack := pb_stack pb @ [Some (atomic_of_ctx pf a)]\<rparr>"
  by (simp add: ExitAtomicPredicate_def Push_def)

lemma fold_atomics:
  "pb_err pb = None \<Longrightarrow> fold (ExitAtomicPredicate pf) as pb
     = pb\<lparr>pb_stack := pb_stack pb @ map (\<lambda>a. Some (atomic_of_ctx pf a)) as\<rparr>"
  by (induction as arbitrary: pb) (simp_all add: ExitAtomicPredicate_ok)

lemma pop_operands_append:
  "length ps = n \<Longrightarrow> pop_operands n (pb\<lparr>pb_stack := st @ ps\<rparr>) = (ps, pb\<lparr>pb_stack := st\<rparr>)"
proof (induction n arbitrary: ps)
  case (Suc n)
  then obtain qs q where ps: "ps = qs @ [q]" "length qs = n" by (cases ps rule: rev_cases) auto
  have "Pop (pb\<lparr>pb_stack := st @ ps\<rparr>) = (q, pb\<lparr>pb_stack := st @ qs\<rparr>)"
    by (simp add: Pop_def ps(1) butlast_append)
  with Suc.IH [OF ps(2)] show ?case by (simp add: ps(1))
qed simp

lemma operands_Some: "operands (map (\<lambda>a. Some (f a)) as) = map f as"
  by (induction as) (simp_all add: operands_def List.map_filter_simps)

lemma compound_operator_some:
  "rest \<noteq> [] \<Longrightarrow> compound_operator (map fst rest) =
     Some (if list_ex (\<lambda>(t, x). t = AND_token) rest then ''AND'' else ''OR'')"
proof -
  assume "rest \<noteq> []"
  then obtain t x rest' where rest: "rest = (t, x) # rest'" by (cases rest) auto
  have "filter (\<lambda>t. t = AND_token) (map fst rest) = [] \<longleftrightarrow> \<not> list_ex (\<lambda>(t, x). t = AND_token) rest"
    by (auto simp: filter_empty_conv list_ex_iff)
  then show ?thesis
    by (cases t) (simp_all add: compound_operator_def rest Let_def)
qed

lemma walk_compound_meaning:
  "pb_err pb = None \<Longrightarrow> walk_compound pf c pb = pb\<lparr>pb_stack := pb_stack pb @ [Some (compound_meaning pf c)]\<rparr>"
proof (induction c arbitrary: pb)
  case (AtomicsCtx a rest)
  show ?case
  proof (cases "rest = []")
    case True
    then show ?thesis using AtomicsCtx
      by (simp add: ExitCompoundPredicate_def ExitAtomicPredicate_ok)
  next
    case False
    let ?as = "a # map snd rest"
    let ?ps = "map (\<lambda>a. Some (atomic_of_ctx pf a)) ?as"
    have pop: "pop_operands (length ?as) (pb\<lparr>pb_stack := pb_stack pb @ ?ps\<rparr>) = (?ps, pb\<lparr>pb_stack := pb_stack pb\<rparr>)"
      by (rule pop_operands_append) simp
    show ?thesis using False AtomicsCtx
      unfolding walk_compound.simps fold_atomics [OF AtomicsCtx] ExitCompoundPredicate_def
      by (simp only: compound_ctx.case pop Let_def prod.case compound_operator_some option.case
          operands_Some compound_meaning.simps)
        (simp add: Push_def And_def Or_def compound_operator_some)
  qed
qed (simp add: ExitCompoundPredicate_def)


text \<open>
  A query without parentheses that uses AND anywhere is the conjunction of all its
  comparisons: \<open>a OR b AND c\<close> means \<open>a AND b AND c\<close>, in whatever order the connectives come.
  Only a query whose connectives are all OR is a disjunction.
\<close>

theorem mixed_connectives:
  "Matches fm obj (compound_meaning pf (AtomicsCtx a rest)) \<longleftrightarrow>
     (if list_ex (\<lambda>(t, x). t = AND_token) rest
      then list_all (\<lambda>x. Matches fm obj (atomic_of_ctx pf x)) (a # map snd rest)
      else list_ex (\<lambda>x. Matches fm obj (atomic_of_ctx pf x)) (a # map snd rest))"
proof (cases "rest = []")
  case False
  then show ?thesis
    by (simp add: Let_def Matches_And Matches_Or list.pred_map list_ex_iff comp_def del: Matches.simps)
qed (simp add: atomic_of_ctx_def)

fun escape_quotes :: "string \<Rightarrow> string" where
  "escape_quotes [] = []"
| "escape_quotes (c # s) = (if c = CHR 0x27 then [c, c] else [c]) @ escape_quotes s"

lemma unescape_escape: "unescape_quotes (escape_quotes s) = s"
proof (induction s)
  case (Cons c s)
  show ?case
  proof (cases "c = CHR 0x27")
    case False
    then show ?thesis using Cons by (cases "escape_quotes s") auto
  qed (use Cons in simp)
qed simp

text \<open>
  A string literal is read as the text it quotes: doubling every quote of a text and
  putting it in quotes gives a literal whose value is the text.
\<close>

theorem parseStringValue_roundtrip:
  "parseStringValue (CHR 0x27 # escape_quotes s @ [CHR 0x27]) = s"
  by (simp add: parseStringValue_def unescape_escape)

end
