(* ===== verification/Store.thy ===== *)
theory Store
  imports Query Go_Errors
begin

text \<open>
  What every store of the program has in common: the outcome of a call, sequences and their
  collection (\<open>common/collection/collections.go\<close>), pagination options and transaction contexts
  (\<open>common/store/store.go\<close>, \<open>common/sqlstore/transaction.go\<close>).

  A sequence \<open>iter.Seq2[T, error]\<close> is the list of what it yields to a consumer that does not
  stop; a consumer that stops early sees a prefix of it.
\<close>

section \<open>Outcomes\<close>

text \<open>A call returns a value, returns an error, or panics.\<close>

datatype 'a call_result = Returns 'a | Fails go_error | Panics string

definition bind_outcome :: "'a call_result \<times> 's \<Rightarrow> ('a \<Rightarrow> 's \<Rightarrow> 'b call_result \<times> 's) \<Rightarrow> 'b call_result \<times> 's" where
  "bind_outcome r f =
     (case r of (Returns a, s) \<Rightarrow> f a s | (Fails err, s) \<Rightarrow> (Fails err, s) | (Panics txt, s) \<Rightarrow> (Panics txt, s))"

lemma bind_outcome_simps [simp, go_simps]:
  "bind_outcome (Returns a, s) f = f a s"
  "bind_outcome (Fails err, s) f = (Fails err, s)"
  "bind_outcome (Panics txt, s) f = (Panics txt, s)"
  by (simp_all add: bind_outcome_def)

definition of_result :: "(go_error + 'a) \<times> 's \<Rightarrow> 'a call_result \<times> 's" where
  "of_result r = (case r of (Inl err, s) \<Rightarrow> (Fails err, s) | (Inr a, s) \<Rightarrow> (Returns a, s))"

lemma of_result_simps [simp, go_simps]:
  "of_result (Inl err, s) = (Fails err, s)"
  "of_result (Inr a, s) = (Returns a, s)"
  by (simp_all add: of_result_def)

definition is_success :: "'a call_result \<Rightarrow> bool" where
  "is_success r = (case r of Returns a \<Rightarrow> True | _ \<Rightarrow> False)"

lemma is_success_simps [simp]: "is_success (Returns a)" "\<not> is_success (Fails err)" "\<not> is_success (Panics txt)"
  by (simp_all add: is_success_def)

section \<open>Sequences\<close>

fun CollectAll :: "(go_error + 'a) list \<Rightarrow> go_error + 'a list" where
  "CollectAll [] = Inr []"
| "CollectAll (Inl err # seq) = Inl err"
| "CollectAll (Inr item # seq) = bind_result (CollectAll seq) (\<lambda>result. Inr (item # result))"

text \<open>A pointer is an option; dereferencing nil panics.\<close>

fun CollectAllDeref :: "(go_error + 'a option) list \<Rightarrow> 'a list call_result" where
  "CollectAllDeref [] = Returns []"
| "CollectAllDeref (Inl err # seq) = Fails err"
| "CollectAllDeref (Inr None # seq) = Panics ''nil pointer dereference''"
| "CollectAllDeref (Inr (Some item) # seq) =
     (case CollectAllDeref seq of Returns result \<Rightarrow> Returns (item # result) | r \<Rightarrow> r)"

definition DerefSlice :: "'a option list \<Rightarrow> 'a list" where
  "DerefSlice ptrs = List.map_filter (\<lambda>p. p) ptrs"

definition Map :: "('a \<Rightarrow> 'b) \<Rightarrow> 'a list \<Rightarrow> 'b list" where
  "Map fn seq = map fn seq"

definition FlatMap :: "('a \<Rightarrow> 'b list) \<Rightarrow> 'a list \<Rightarrow> 'b list" where
  "FlatMap fn seq = concat (map fn seq)"

fun distinct_from :: "'a set \<Rightarrow> 'a list \<Rightarrow> 'a list" where
  "distinct_from seen [] = []"
| "distinct_from seen (v # seq) =
     (if v \<in> seen then distinct_from seen seq else v # distinct_from (insert v seen) seq)"

definition Distinct :: "'a list \<Rightarrow> 'a list" where
  "Distinct seq = distinct_from {} seq"

lemma CollectAll_ok [simp]: "CollectAll (map Inr xs) = Inr xs"
  by (induction xs) simp_all

lemma CollectAll_InrD: "CollectAll seq = Inr xs \<Longrightarrow> seq = map Inr xs"
proof (induction seq arbitrary: xs rule: CollectAll.induct)
  case (3 item seq)
  then show ?case by (cases "CollectAll seq") auto
qed simp_all

lemma CollectAll_Inr: "CollectAll seq = Inr xs \<longleftrightarrow> seq = map Inr xs"
  using CollectAll_InrD by fastforce

text \<open>The first error of the sequence is the result.\<close>

lemma CollectAll_Inl: "CollectAll (map Inr xs @ Inl err # rest) = Inl err"
  by (induction xs) simp_all

lemma distinct_from_props:
  "distinct (distinct_from seen seq) \<and> set (distinct_from seen seq) = set seq - seen"
  by (induction seen seq rule: distinct_from.induct) auto

lemma distinct_from_prefix:
  "distinct_from seen (xs @ ys) = distinct_from seen xs @ distinct_from (seen \<union> set xs) ys"
  by (induction xs arbitrary: seen) (auto simp: insert_absorb)

section \<open>Pagination\<close>

record pagination =
  pg_Offset :: int
  pg_Limit :: int

definition DefaultPaginationOptions :: pagination where
  "DefaultPaginationOptions = \<lparr>pg_Offset = 0, pg_Limit = 0\<rparr>"

text \<open>\<open>int64\<close> arithmetic wraps around.\<close>

definition wrap64 :: "int \<Rightarrow> int" where
  "wrap64 i = (i + 2 ^ 63) mod 2 ^ 64 - 2 ^ 63"

definition int64 :: "int \<Rightarrow> bool" where
  "int64 i \<longleftrightarrow> - (2 ^ 63) \<le> i \<and> i < 2 ^ 63"

lemma wrap64_id: "int64 i \<Longrightarrow> wrap64 i = i"
  by (simp add: wrap64_def int64_def)

lemma wrap64_over: "2 ^ 63 \<le> i \<Longrightarrow> i < 2 ^ 64 \<Longrightarrow> wrap64 i = i - 2 ^ 64"
proof -
  assume "2 ^ 63 \<le> i" "i < 2 ^ 64"
  then have "(i + 2 ^ 63) mod 2 ^ 64 = (i + 2 ^ 63) - 2 ^ 64"
    using int_mod_pos_eq [of "i + 2 ^ 63" "2 ^ 64" 1 "i + 2 ^ 63 - 2 ^ 64"] by simp
  then show ?thesis by (simp add: wrap64_def)
qed

section \<open>Transactions\<close>

text \<open>\<open>Execute\<close> of a transaction context, for callbacks with a result of type \<open>'a\<close>.\<close>

type_synonym ('s, 'a) trx = "('s \<Rightarrow> 'a call_result \<times> 's) \<Rightarrow> 's \<Rightarrow> 'a call_result \<times> 's"

text \<open>\<open>NoOpTransactionContext.Execute\<close>, and \<open>Trx.AndReturn\<close>, which returns what the callback
  returned if the transaction succeeded and its error otherwise.\<close>

definition NoOp_Execute :: "('s \<Rightarrow> 'a call_result \<times> 's) \<Rightarrow> 's \<Rightarrow> 'a call_result \<times> 's" where
  "NoOp_Execute callback s = callback s"

text \<open>
  The SQL transaction. The database is a parameter: its data are a value, which a transaction
  works on a copy of, and \<open>db_env\<close> tells whether beginning, committing and rolling back fail, as
  a function of the number of such calls so far. As \<open>database/sql\<close> documents, the work of a
  transaction is discarded unless its commit succeeds. \<open>db_tx\<close> is the transaction that the
  context carries. A component whose calls also reach other systems extends the record with what
  they did, which no rollback undoes.
\<close>

record 'd db =
  db_committed :: 'd
  db_tx :: "'d option"
  db_calls :: nat

record db_env =
  be_begin :: "nat \<Rightarrow> go_error option"
  be_commit :: "nat \<Rightarrow> go_error option"
  be_rollback :: "nat \<Rightarrow> go_error option"

definition tx_begin :: "('d, 'x) db_scheme \<Rightarrow> ('d, 'x) db_scheme" where
  "tx_begin s = s\<lparr>db_tx := Some (db_committed s), db_calls := Suc (db_calls s)\<rparr>"

definition tx_rollback :: "('d, 'x) db_scheme \<Rightarrow> ('d, 'x) db_scheme" where
  "tx_rollback s = s\<lparr>db_tx := None, db_calls := Suc (db_calls s)\<rparr>"

definition tx_commit :: "db_env \<Rightarrow> ('d, 'x) db_scheme \<Rightarrow> ('d, 'x) db_scheme" where
  "tx_commit env s =
     (if be_commit env (db_calls s) = None
      then s\<lparr>db_committed := the (db_tx s), db_tx := None, db_calls := Suc (db_calls s)\<rparr>
      else s\<lparr>db_tx := None, db_calls := Suc (db_calls s)\<rparr>)"

definition SQL_Execute ::
    "db_env \<Rightarrow> (('d, 'x) db_scheme \<Rightarrow> 'a call_result \<times> ('d, 'x) db_scheme) \<Rightarrow> ('d, 'x) db_scheme \<Rightarrow>
     'a call_result \<times> ('d, 'x) db_scheme" where
  "SQL_Execute env operation s =
     (if db_tx s \<noteq> None then operation s
      else (case be_begin env (db_calls s) of
          Some err \<Rightarrow> (Fails (WrapError (''failed to begin transaction: '' @ error_text err) err),
                       s\<lparr>db_calls := Suc (db_calls s)\<rparr>)
        | None \<Rightarrow>
            (case operation (tx_begin s) of
               (Panics txt, s) \<Rightarrow> (Panics txt, tx_rollback s)
             | (Fails err, s) \<Rightarrow>
                 (case be_rollback env (db_calls s) of
                    Some rbErr \<Rightarrow> Fails (ErrorString (''operation failed: '' @ error_text err @
                      '', rollback failed: '' @ error_text rbErr))
                  | None \<Rightarrow> Fails err, tx_rollback s)
             | (Returns a, s) \<Rightarrow>
                 (case be_commit env (db_calls s) of
                    Some err \<Rightarrow> Fails (WrapError (''failed to commit transaction: '' @ error_text err) err)
                  | None \<Rightarrow> Returns a, tx_commit env s))))"

text \<open>
  An operation of a store runs in a transaction: it needs one, works on its data, and neither
  commits nor rolls back.
\<close>

definition tx_local :: "(('d, 'x) db_scheme \<Rightarrow> 'a call_result \<times> ('d, 'x) db_scheme) \<Rightarrow> bool" where
  "tx_local operation \<longleftrightarrow>
     (\<forall>s. db_tx s \<noteq> None \<longrightarrow> db_committed (snd (operation s)) = db_committed s \<and> db_tx (snd (operation s)) \<noteq> None)"

section \<open>The contract of a transaction context\<close>

text \<open>
  What a client may rely on. \<open>enter s\<close> is the state the callback runs in and \<open>data\<close> what is
  stored; \<open>admissible\<close> are the callbacks that the context can run. A context whose failed
  callbacks leave no trace is \<open>atomic\<close>.
\<close>

locale transaction_context =
  fixes execute :: "('s \<Rightarrow> 'a call_result \<times> 's) \<Rightarrow> 's \<Rightarrow> 'a call_result \<times> 's"
    and enter :: "'s \<Rightarrow> 's"
    and stored :: "'s \<Rightarrow> 'd"
    and seen :: "'s \<Rightarrow> 'd"
    and admissible :: "('s \<Rightarrow> 'a call_result \<times> 's) \<Rightarrow> bool"
    and outside :: "'s \<Rightarrow> bool"
  assumes seen_enter: "outside s \<Longrightarrow> seen (enter s) = stored s"
    and success: "admissible f \<Longrightarrow> outside s \<Longrightarrow> execute f s = (Returns a, s') \<Longrightarrow>
      fst (f (enter s)) = Returns a \<and> stored s' = seen (snd (f (enter s))) \<and> outside s'"
begin

text \<open>A law of the callback's successful runs is a law of the transaction's.\<close>

lemma success_rule:
  assumes "admissible f" "outside s" "execute f s = (Returns a, s')"
    and "\<And>t. f (enter s) = (Returns a, t) \<Longrightarrow> P (seen (enter s)) (seen t)"
  shows "P (stored s) (stored s')"
proof -
  have "f (enter s) = (Returns a, snd (f (enter s)))"
    using success [OF assms(1-3)] by (metis prod.collapse)
  from assms(4) [OF this] success [OF assms(1-3)] seen_enter [OF assms(2)] show ?thesis by simp
qed

end

locale atomic_transaction_context = transaction_context +
  assumes failure: "admissible f \<Longrightarrow> outside s \<Longrightarrow> \<not> is_success (fst (execute f s)) \<Longrightarrow>
      stored (snd (execute f s)) = stored s \<and> outside (snd (execute f s))"
begin

text \<open>All or nothing, and repeatable: an invariant of the callback is one of the transaction.\<close>

lemma atomic:
  assumes "admissible f" "outside s"
  shows "stored (snd (execute f s)) = (if is_success (fst (execute f s)) then seen (snd (f (enter s))) else stored s)"
proof (cases "fst (execute f s)")
  case (Returns a)
  then have "execute f s = (Returns a, snd (execute f s))" by (metis prod.collapse)
  from success [OF assms this] Returns show ?thesis by simp
qed (use failure [OF assms] in simp_all)

lemma stays_outside:
  assumes "admissible f" "outside s"
  shows "outside (snd (execute f s))"
proof (cases "fst (execute f s)")
  case (Returns a)
  then have "execute f s = (Returns a, snd (execute f s))" by (metis prod.collapse)
  from success [OF assms this] show ?thesis by simp
qed (use failure [OF assms] in simp_all)

lemma invariant:
  assumes "admissible f" "outside s" "Inv (stored s)"
    and "Inv (seen (enter s)) \<Longrightarrow> Inv (seen (snd (f (enter s))))"
  shows "Inv (stored (snd (execute f s)))"
  using assms atomic [OF assms(1,2)] seen_enter [OF assms(2)] by simp

end

interpretation noop: transaction_context NoOp_Execute "\<lambda>s. s" "\<lambda>s. s" "\<lambda>s. s" "\<lambda>f. True" "\<lambda>s. True"
  by unfold_locales (auto simp: NoOp_Execute_def)

lemma SQL_Execute_outer:
  assumes "tx_local f" "db_tx s = None" "be_begin env (db_calls s) = None"
  obtains r t where "f (tx_begin s) = (r, t)" "db_committed t = db_committed s" "db_tx t \<noteq> None"
proof -
  obtain r t where rt: "f (tx_begin s) = (r, t)" by fastforce
  from assms(1) have "db_committed (snd (f (tx_begin s))) = db_committed (tx_begin s)"
    "db_tx (snd (f (tx_begin s))) \<noteq> None"
    by (simp_all add: tx_local_def tx_begin_def)
  with rt that show thesis by (simp add: tx_begin_def)
qed

interpretation sql: atomic_transaction_context
    "SQL_Execute env :: (('d, 'x) db_scheme \<Rightarrow> 'a call_result \<times> ('d, 'x) db_scheme) \<Rightarrow> _" tx_begin db_committed
    "\<lambda>s. case db_tx s of None \<Rightarrow> db_committed s | Some d \<Rightarrow> d" tx_local "\<lambda>s. db_tx s = None"
proof unfold_locales
  fix f :: "('d, 'x) db_scheme \<Rightarrow> 'a call_result \<times> ('d, 'x) db_scheme" and s s' a
  assume f: "tx_local f" and s: "db_tx s = None" and e: "SQL_Execute env f s = (Returns a, s')"
  show "fst (f (tx_begin s)) = Returns a \<and>
      db_committed s' = (case db_tx (snd (f (tx_begin s))) of None \<Rightarrow> db_committed (snd (f (tx_begin s))) | Some d \<Rightarrow> d) \<and>
      db_tx s' = None"
  proof (cases "be_begin env (db_calls s)")
    case None
    then obtain r t where "f (tx_begin s) = (r, t)" "db_committed t = db_committed s" "db_tx t \<noteq> None"
      using SQL_Execute_outer [OF f s] by blast
    with e s None show ?thesis
      by (auto simp: SQL_Execute_def tx_commit_def split: call_result.splits option.splits)
  qed (use e s in \<open>simp add: SQL_Execute_def\<close>)
next
  fix f :: "('d, 'x) db_scheme \<Rightarrow> 'a call_result \<times> ('d, 'x) db_scheme" and s
  assume f: "tx_local f" and s: "db_tx s = None" and r: "\<not> is_success (fst (SQL_Execute env f s))"
  show "db_committed (snd (SQL_Execute env f s)) = db_committed s \<and> db_tx (snd (SQL_Execute env f s)) = None"
  proof (cases "be_begin env (db_calls s)")
    case None
    then obtain r t where "f (tx_begin s) = (r, t)" "db_committed t = db_committed s" "db_tx t \<noteq> None"
      using SQL_Execute_outer [OF f s] by blast
    with s None r show ?thesis
      by (auto simp: SQL_Execute_def tx_commit_def tx_rollback_def split: call_result.splits option.splits)
  qed (use s in \<open>auto simp: SQL_Execute_def\<close>)
qed (simp_all add: tx_begin_def)

text \<open>
  C9. An SQL transaction is all or nothing: what is committed afterwards is what the operation
  left if the call succeeded, and what was committed before if it failed, panicked or could not
  begin or commit. Inside another transaction the operation just runs there: it neither commits
  nor rolls back, and its result is the caller's to handle.
\<close>

theorem SQL_Execute_atomic:
  assumes "tx_local operation"
  shows "if db_tx s = None
    then db_tx (snd (SQL_Execute env operation s)) = None \<and>
      db_committed (snd (SQL_Execute env operation s)) =
        (if is_success (fst (SQL_Execute env operation s))
         then the (db_tx (snd (operation (tx_begin s)))) else db_committed s)
    else SQL_Execute env operation s = operation s"
proof (cases "db_tx s = None")
  case True
  have "db_tx (snd (operation (tx_begin s))) \<noteq> None"
    using assms by (simp add: tx_local_def tx_begin_def)
  then show ?thesis
    using True sql.atomic [OF assms True, of env] sql.stays_outside [OF assms True, of env] by auto
next
  case False
  then have "SQL_Execute env operation s = operation s" by (auto simp: SQL_Execute_def)
  with False show ?thesis by (simp only: if_False simp_thms)
qed

definition sample_operation :: "nat db \<Rightarrow> unit call_result \<times> nat db" where
  "sample_operation s = (Fails ErrConflict, s\<lparr>db_tx := map_option Suc (db_tx s)\<rparr>)"

definition reliable_db :: db_env where
  "reliable_db = \<lparr>be_begin = \<lambda>n. None, be_commit = \<lambda>n. None, be_rollback = \<lambda>n. None\<rparr>"

theorem SQL_Execute_atomic_witness:
  "db_committed (snd (SQL_Execute reliable_db sample_operation \<lparr>db_committed = 7, db_tx = None, db_calls = 0\<rparr>)) = 7"
proof -
  have "tx_local sample_operation" by (simp add: tx_local_def sample_operation_def)
  from SQL_Execute_atomic [OF this, of "\<lparr>db_committed = 7, db_tx = None, db_calls = 0\<rparr>" reliable_db] show ?thesis
    by (simp add: SQL_Execute_def sample_operation_def reliable_db_def tx_begin_def)
qed

end
