(* ===== verification/Entity_Store.thy ===== *)
theory Entity_Store
  imports Store Orchestration_Types
begin

text \<open>
  The entity store interface (\<open>common/store/store.go\<close>) and the in-memory store that implements
  it (\<open>common/memorystore/memorystore.go\<close>).

  The type parameter of the store comes with the methods of its constraint: the ID, the version
  increment, the value that reflection sees, and the copy through JSON, which fails if the entity
  cannot be encoded. The cache is a map, so Go ranges over it in some order: the order of the
  association list, about which nothing is known. The locks serialize the operations.
\<close>

record 'e entity_type =
  GetID :: "'e \<Rightarrow> string"
  IncrementVersion :: "'e \<Rightarrow> 'e"
  entity_value :: "'e \<Rightarrow> gval"
  copyEntity :: "'e \<Rightarrow> go_error + 'e"

type_synonym 'e cache = "(string, 'e) gomap"

section \<open>The in-memory store\<close>

definition FindByID :: "'e entity_type \<Rightarrow> string \<Rightarrow> 'e cache \<Rightarrow> go_error + 'e" where
  "FindByID T eid c = (case lookup c eid of None \<Rightarrow> Inl ErrNotFound | Some entity \<Rightarrow> copyEntity T entity)"

definition FindByIDAndLock :: "'e entity_type \<Rightarrow> string \<Rightarrow> 'e cache \<Rightarrow> go_error + 'e" where
  "FindByIDAndLock T eid c = FindByID T eid c"

definition Exists :: "string \<Rightarrow> 'e cache \<Rightarrow> bool" where
  "Exists eid c = has_key c eid"

definition Create :: "'e entity_type \<Rightarrow> 'e \<Rightarrow> 'e cache \<Rightarrow> (go_error + 'e) \<times> 'e cache" where
  "Create T entity c =
     (if GetID T entity = [] then (Inl ErrInvalidInput, c)
      else if has_key c (GetID T entity) then (Inl ErrConflict, c)
      else (case copyEntity T entity of
          Inl err \<Rightarrow> (Inl err, c)
        | Inr copied \<Rightarrow> (Inr entity, put (GetID T copied) copied c)))"

text \<open>The version of the caller's entity is incremented even when nothing is updated.\<close>

definition Update :: "'e entity_type \<Rightarrow> 'e \<Rightarrow> 'e cache \<Rightarrow> go_error option \<times> 'e \<times> 'e cache" where
  "Update T entity c =
     (if GetID T entity = [] then (Some ErrInvalidInput, entity, c)
      else (let entity = IncrementVersion T entity in
        if \<not> has_key c (GetID T entity) then (Some ErrNotFound, entity, c)
        else (case copyEntity T entity of
            Inl err \<Rightarrow> (Some (WrapError (''error copying entity: '' @ error_text err) err), entity, c)
          | Inr copied \<Rightarrow> (None, entity, put (GetID T copied) copied c))))"

definition Delete :: "string \<Rightarrow> 'e cache \<Rightarrow> go_error option \<times> 'e cache" where
  "Delete eid c =
     (if eid = [] then (Some ErrInvalidInput, c)
      else if \<not> has_key c eid then (Some ErrNotFound, c)
      else (None, del eid c))"

text \<open>The entities that match a predicate, in the order of the range; nil matches everything.\<close>

definition selected :: "(gval \<Rightarrow> string) \<Rightarrow> 'e entity_type \<Rightarrow> predicate option \<Rightarrow> 'e \<Rightarrow> bool" where
  "selected fmt_v T p e =
     (case p of None \<Rightarrow> True | Some p \<Rightarrow> Matches (DefaultFieldMatcher fmt_v) (entity_value T e) p)"

text \<open>Copies are yielded until one fails, which ends the sequence without an error.\<close>

fun yield_copies :: "'e entity_type \<Rightarrow> 'e list \<Rightarrow> (go_error + 'e) list" where
  "yield_copies T [] = []"
| "yield_copies T (e # es) =
     (case copyEntity T e of Inl err \<Rightarrow> [] | Inr copied \<Rightarrow> Inr copied # yield_copies T es)"

definition FindByPredicate :: "(gval \<Rightarrow> string) \<Rightarrow> 'e entity_type \<Rightarrow> predicate \<Rightarrow> 'e cache \<Rightarrow> (go_error + 'e) list" where
  "FindByPredicate fmt_v T p c = yield_copies T (filter (selected fmt_v T (Some p)) (map snd c))"

text \<open>
  \<open>done i\<close> is the error of the context before the entity at index \<open>i\<close> is yielded, if it is done
  by then.
\<close>

fun yield_range :: "'e entity_type \<Rightarrow> (int \<Rightarrow> go_error option) \<Rightarrow> int \<Rightarrow> 'e list \<Rightarrow> (go_error + 'e) list" where
  "yield_range T ctx_done i [] = []"
| "yield_range T ctx_done i (e # es) =
     (case ctx_done i of
        Some err \<Rightarrow> [Inl err]
      | None \<Rightarrow>
          (case copyEntity T e of
             Inl err \<Rightarrow> []
           | Inr copied \<Rightarrow> Inr copied # yield_range T ctx_done (i + 1) es))"

definition range_end :: "pagination \<Rightarrow> int \<Rightarrow> int \<Rightarrow> int" where
  "range_end opts start len =
     (if pg_Limit opts > 0
      then (let requestedEnd = wrap64 (start + pg_Limit opts) in if requestedEnd < len then requestedEnd else len)
      else len)"

definition paginateEntities ::
    "(gval \<Rightarrow> string) \<Rightarrow> 'e entity_type \<Rightarrow> (int \<Rightarrow> go_error option) \<Rightarrow> predicate option \<Rightarrow> pagination \<Rightarrow>
     'e cache \<Rightarrow> (go_error + 'e) list" where
  "paginateEntities fmt_v T ctx_done p opts c =
     (let filtered = filter (selected fmt_v T p) (map snd c);
          start = (if pg_Offset opts < 0 then 0 else pg_Offset opts);
          len = int (length filtered)
      in if start \<ge> len then []
         else yield_range T ctx_done start
           (take (nat (range_end opts start len - start)) (drop (nat start) filtered)))"

definition GetAllPaginated ::
    "(gval \<Rightarrow> string) \<Rightarrow> 'e entity_type \<Rightarrow> (int \<Rightarrow> go_error option) \<Rightarrow> pagination \<Rightarrow> 'e cache \<Rightarrow> (go_error + 'e) list" where
  "GetAllPaginated fmt_v T ctx_done opts c = paginateEntities fmt_v T ctx_done None opts c"

definition GetAll ::
    "(gval \<Rightarrow> string) \<Rightarrow> 'e entity_type \<Rightarrow> (int \<Rightarrow> go_error option) \<Rightarrow> 'e cache \<Rightarrow> (go_error + 'e) list" where
  "GetAll fmt_v T ctx_done c = GetAllPaginated fmt_v T ctx_done DefaultPaginationOptions c"

definition FindByPredicatePaginated ::
    "(gval \<Rightarrow> string) \<Rightarrow> 'e entity_type \<Rightarrow> (int \<Rightarrow> go_error option) \<Rightarrow> predicate \<Rightarrow> pagination \<Rightarrow>
     'e cache \<Rightarrow> (go_error + 'e) list" where
  "FindByPredicatePaginated fmt_v T ctx_done p opts c = paginateEntities fmt_v T ctx_done (Some p) opts c"

definition GetAllCount :: "'e cache \<Rightarrow> int" where
  "GetAllCount c = int (length c)"

definition FindFirstByPredicate :: "(gval \<Rightarrow> string) \<Rightarrow> 'e entity_type \<Rightarrow> predicate \<Rightarrow> 'e cache \<Rightarrow> go_error + 'e" where
  "FindFirstByPredicate fmt_v T p c =
     (case find (selected fmt_v T (Some p)) (map snd c) of
        None \<Rightarrow> Inl ErrNotFound
      | Some entity \<Rightarrow> copyEntity T entity)"

definition CountByPredicate :: "(gval \<Rightarrow> string) \<Rightarrow> 'e entity_type \<Rightarrow> predicate \<Rightarrow> 'e cache \<Rightarrow> int" where
  "CountByPredicate fmt_v T p c = int (length (filter (selected fmt_v T (Some p)) (map snd c)))"

definition DeleteByPredicate :: "(gval \<Rightarrow> string) \<Rightarrow> 'e entity_type \<Rightarrow> predicate \<Rightarrow> 'e cache \<Rightarrow> 'e cache" where
  "DeleteByPredicate fmt_v T p c = filter (\<lambda>(eid, e). \<not> selected fmt_v T (Some p) e) c"

section \<open>The contract of an entity store\<close>

text \<open>
  What the services of the program rely on, whichever store they run on. \<open>contents s\<close> is the map
  that the store stands for and \<open>inv\<close> its invariant; \<open>updated\<close> is what an update makes of an
  entity; \<open>valid\<close> are the entities that can be stored and \<open>full\<close> those that replace the one that
  is stored. The stores differ in what a creation does with an ID that is taken; a store that
  reports it as a conflict, and leaves everything as it is, is an \<open>entity_store\<close>.
\<close>

locale basic_entity_store =
  fixes find_by_id :: "string \<Rightarrow> 's \<Rightarrow> go_error + 'e"
    and create :: "'e \<Rightarrow> 's \<Rightarrow> (go_error + 'e) \<times> 's"
    and update :: "'e \<Rightarrow> 's \<Rightarrow> go_error option \<times> 's"
    and delete :: "string \<Rightarrow> 's \<Rightarrow> go_error option \<times> 's"
    and id_of :: "'e \<Rightarrow> string"
    and updated :: "'e \<Rightarrow> 'e"
    and valid :: "'e \<Rightarrow> bool"
    and full :: "'e \<Rightarrow> bool"
    and contents :: "'s \<Rightarrow> string \<Rightarrow> 'e option"
    and inv :: "'s \<Rightarrow> bool"
  assumes find_by_id: "inv s \<Longrightarrow>
      find_by_id eid s = (case contents s eid of None \<Rightarrow> Inl ErrNotFound | Some e \<Rightarrow> Inr e)"
    and create: "inv s \<Longrightarrow> valid e \<Longrightarrow> id_of e \<noteq> [] \<Longrightarrow> contents s (id_of e) = None \<Longrightarrow>
      fst (create e s) = Inr e \<and> contents (snd (create e s)) = (contents s)(id_of e \<mapsto> e) \<and> inv (snd (create e s))"
    and update: "inv s \<Longrightarrow> valid e \<Longrightarrow> full e \<Longrightarrow> id_of e \<noteq> [] \<Longrightarrow> contents s (id_of e) \<noteq> None \<Longrightarrow>
      fst (update e s) = None \<and> contents (snd (update e s)) = (contents s)(id_of e \<mapsto> updated e) \<and>
      inv (snd (update e s))"
    and update_missing: "inv s \<Longrightarrow> valid e \<Longrightarrow> full e \<Longrightarrow> id_of e \<noteq> [] \<Longrightarrow> contents s (id_of e) = None \<Longrightarrow>
      update e s = (Some ErrNotFound, s)"
    and delete: "inv s \<Longrightarrow> eid \<noteq> [] \<Longrightarrow> contents s eid \<noteq> None \<Longrightarrow>
      fst (delete eid s) = None \<and> contents (snd (delete eid s)) = (contents s)(eid := None) \<and> inv (snd (delete eid s))"
    and delete_missing: "inv s \<Longrightarrow> eid \<noteq> [] \<Longrightarrow> contents s eid = None \<Longrightarrow> delete eid s = (Some ErrNotFound, s)"
    and id_updated: "id_of (updated e) = id_of e"
begin

lemma find_created:
  "inv s \<Longrightarrow> valid e \<Longrightarrow> id_of e \<noteq> [] \<Longrightarrow> contents s (id_of e) = None \<Longrightarrow>
     find_by_id (id_of e) (snd (create e s)) = Inr e"
  using create [of s e] by (subst find_by_id) auto

lemma find_updated:
  "inv s \<Longrightarrow> valid e \<Longrightarrow> full e \<Longrightarrow> id_of e \<noteq> [] \<Longrightarrow> contents s (id_of e) \<noteq> None \<Longrightarrow>
     find_by_id (id_of e) (snd (update e s)) = Inr (updated e)"
  using update [of s e] by (subst find_by_id) auto

lemma find_deleted:
  "inv s \<Longrightarrow> eid \<noteq> [] \<Longrightarrow> contents s eid \<noteq> None \<Longrightarrow> find_by_id eid (snd (delete eid s)) = Inl ErrNotFound"
  using delete [of s eid] by (subst find_by_id) auto

text \<open>An entity that was deleted can be created again.\<close>

lemma create_deleted:
  "inv s \<Longrightarrow> valid e \<Longrightarrow> id_of e \<noteq> [] \<Longrightarrow> contents s (id_of e) \<noteq> None \<Longrightarrow>
     fst (create e (snd (delete (id_of e) s))) = Inr e"
  using delete [of s "id_of e"] by (intro create [THEN conjunct1]) simp_all

end

locale entity_store = basic_entity_store +
  assumes create_conflict: "inv s \<Longrightarrow> valid e \<Longrightarrow> contents s (id_of e) \<noteq> None \<Longrightarrow> id_of e \<noteq> [] \<Longrightarrow>
      create e s = (Inl ErrConflict, s)"
begin

text \<open>Creating twice is a conflict.\<close>

lemma create_twice:
  "inv s \<Longrightarrow> valid e \<Longrightarrow> id_of e \<noteq> [] \<Longrightarrow> contents s (id_of e) = None \<Longrightarrow>
     create e (snd (create e s)) = (Inl ErrConflict, snd (create e s))"
  using create [of s e] by (intro create_conflict) simp_all

end

text \<open>The methods of an entity type that make sense: a copy is equal and the ID is stable.\<close>

definition sound_entity :: "'e entity_type \<Rightarrow> 'e \<Rightarrow> bool" where
  "sound_entity T e \<longleftrightarrow> copyEntity T e = Inr e"

definition mem_update :: "'e entity_type \<Rightarrow> 'e \<Rightarrow> 'e cache \<Rightarrow> go_error option \<times> 'e cache" where
  "mem_update T e c = (case Update T e c of (r, e', c') \<Rightarrow> (r, c'))"

definition sound_cache :: "'e entity_type \<Rightarrow> 'e cache \<Rightarrow> bool" where
  "sound_cache T c \<longleftrightarrow> (\<forall>eid e. lookup c eid = Some e \<longrightarrow> sound_entity T e)"

lemma mem_entity_store:
  assumes "\<And>e. GetID T (IncrementVersion T e) = GetID T e"
    and "\<And>e. sound_entity T e \<Longrightarrow> sound_entity T (IncrementVersion T e)"
  shows "entity_store (FindByID T) (Create T) (mem_update T) Delete (GetID T) (IncrementVersion T) (sound_entity T)
    (\<lambda>e. True) lookup (sound_cache T)"
proof
  fix s and e :: 'a
  assume e: "sound_entity T e" and s: "sound_cache T s"
  have e': "copyEntity T (IncrementVersion T e) = Inr (IncrementVersion T e)"
    using assms(2) [OF e] by (simp add: sound_entity_def)
  show "GetID T e \<noteq> [] \<Longrightarrow> lookup s (GetID T e) \<noteq> None \<Longrightarrow>
      fst (mem_update T e s) = None \<and> lookup (snd (mem_update T e s)) = (lookup s)(GetID T e \<mapsto> IncrementVersion T e) \<and>
      sound_cache T (snd (mem_update T e s))"
    using s assms(2) [OF e] e' assms(1) by (auto simp: mem_update_def Update_def has_key_def sound_cache_def lookup_put Let_def)
qed (use assms(1) in \<open>auto simp: FindByID_def Create_def mem_update_def Update_def Delete_def sound_entity_def sound_cache_def
      has_key_def lookup_put lookup_del Let_def split: option.splits\<close>)

section \<open>The store as a map\<close>

datatype 'e store_op = SCreate 'e | SUpdate 'e | SDelete string

text \<open>The operations on the map that the store stands for, with the errors they give.\<close>

fun spec_op :: "'e entity_type \<Rightarrow> 'e store_op \<Rightarrow> (string \<Rightarrow> 'e option) \<Rightarrow> go_error option \<times> (string \<Rightarrow> 'e option)" where
  "spec_op T (SCreate e) m =
     (if GetID T e = [] then (Some ErrInvalidInput, m)
      else if m (GetID T e) \<noteq> None then (Some ErrConflict, m)
      else (None, m(GetID T e \<mapsto> e)))"
| "spec_op T (SUpdate e) m =
     (if GetID T e = [] then (Some ErrInvalidInput, m)
      else if m (GetID T e) = None then (Some ErrNotFound, m)
      else (None, m(GetID T e \<mapsto> IncrementVersion T e)))"
| "spec_op T (SDelete eid) m =
     (if eid = [] then (Some ErrInvalidInput, m)
      else if m eid = None then (Some ErrNotFound, m)
      else (None, m(eid := None)))"

definition error_of :: "go_error + 'a \<Rightarrow> go_error option" where
  "error_of r = (case r of Inl err \<Rightarrow> Some err | Inr a \<Rightarrow> None)"

fun mem_op :: "'e entity_type \<Rightarrow> 'e store_op \<Rightarrow> 'e cache \<Rightarrow> go_error option \<times> 'e cache" where
  "mem_op T (SCreate e) c = (let (r, c) = Create T e c in (error_of r, c))"
| "mem_op T (SUpdate e) c = mem_update T e c"
| "mem_op T (SDelete eid) c = Delete eid c"

fun run_ops :: "('op \<Rightarrow> 's \<Rightarrow> go_error option \<times> 's) \<Rightarrow> 'op list \<Rightarrow> 's \<Rightarrow> go_error option list \<times> 's" where
  "run_ops step [] s = ([], s)"
| "run_ops step (x # xs) s = (let (r, s) = step x s; (rs, s) = run_ops step xs s in (r # rs, s))"

lemma mem_op_refines:
  assumes "\<And>e. GetID T (IncrementVersion T e) = GetID T e" "\<And>e. copyEntity T e = Inr e"
  shows "fst (mem_op T x c) = fst (spec_op T x (lookup c)) \<and> lookup (snd (mem_op T x c)) = snd (spec_op T x (lookup c))"
  using assms
  by (cases x) (auto simp: Create_def mem_update_def Update_def Delete_def has_key_def error_of_def lookup_put lookup_del
      Let_def split: option.splits)

lemma mem_op_wf: "wf_map c \<Longrightarrow> wf_map (snd (mem_op T x c))"
  by (cases x) (auto simp: Create_def mem_update_def Update_def Delete_def Let_def split: sum.splits option.splits)

lemma run_mem_ops_refine:
  assumes "\<And>e. GetID T (IncrementVersion T e) = GetID T e" "\<And>e. copyEntity T e = Inr e"
  shows "fst (run_ops (mem_op T) xs c) = fst (run_ops (spec_op T) xs (lookup c)) \<and>
    lookup (snd (run_ops (mem_op T) xs c)) = snd (run_ops (spec_op T) xs (lookup c))"
proof (induction xs arbitrary: c)
  case (Cons x xs)
  show ?case
    using Cons [of "snd (mem_op T x c)"] mem_op_refines [OF assms, where x = x and c = c]
    by (simp add: case_prod_beta' Let_def)
qed simp

lemma run_mem_ops_wf: "wf_map c \<Longrightarrow> wf_map (snd (run_ops (mem_op T) xs c))"
proof (induction xs arbitrary: c)
  case (Cons x xs)
  then show ?case using mem_op_wf [of c T x] by (simp add: case_prod_beta' Let_def)
qed simp

section \<open>The index of the Provision Manager\<close>

text \<open>
  The entity of the orchestration index (\<open>pmanager/api/store.go\<close>). A timestamp appears to
  queries as a struct, which they can only format. Encoding an entry and decoding it gives the
  entry.
\<close>

definition state_code :: "orchestration_state \<Rightarrow> nat" where
  "state_code st =
     (case st of OrchestrationStateInitialized \<Rightarrow> 0 | OrchestrationStateRunning \<Rightarrow> 1
      | OrchestrationStateCompleted \<Rightarrow> 2 | OrchestrationStateErrored \<Rightarrow> 3 | OrchestrationStateUnknown n \<Rightarrow> n)"

definition time_value :: "int \<Rightarrow> gval" where
  "time_value t = VStruct [(''ticks'', VInt t)]"

definition entry_type :: "orchestration_entry entity_type" where
  "entry_type = \<lparr>GetID = oe_ID, IncrementVersion = (\<lambda>e. e\<lparr>oe_Version := wrap64 (oe_Version e + 1)\<rparr>),
     entity_value = (\<lambda>e. VStruct [(''ID'', VStr (oe_ID e)), (''Version'', VInt (oe_Version e)),
        (''CorrelationID'', VStr (oe_CorrelationID e)), (''State'', VInt (int (state_code (oe_State e)))),
        (''StateTimestamp'', time_value (oe_StateTimestamp e)), (''CreatedTimestamp'', time_value (oe_CreatedTimestamp e)),
        (''OrchestrationType'', VStr (oe_OrchestrationType e)), (''DefinitionID'', VStr (oe_DefinitionID e))]),
     copyEntity = Inr\<rparr>"

lemma entry_type_simps [simp]:
  "GetID entry_type e = oe_ID e" "copyEntity entry_type e = Inr e"
  "oe_ID (IncrementVersion entry_type e) = oe_ID e" "oe_State (IncrementVersion entry_type e) = oe_State e"
  by (simp_all add: entry_type_def)

interpretation index_store: entity_store "FindByID entry_type" "Create entry_type" "mem_update entry_type" Delete
    oe_ID "IncrementVersion entry_type" "\<lambda>e. True" "\<lambda>e. True" lookup "\<lambda>c. True"
proof -
  have g: "GetID entry_type = oe_ID" by (simp add: entry_type_def)
  have v: "sound_entity entry_type = (\<lambda>e. True)" by (rule ext) (simp add: sound_entity_def)
  have c: "sound_cache entry_type = (\<lambda>c. True)" by (rule ext) (simp add: sound_cache_def v)
  show "entity_store (FindByID entry_type) (Create entry_type) (mem_update entry_type) Delete
      oe_ID (IncrementVersion entry_type) (\<lambda>e. True) (\<lambda>e. True) lookup (\<lambda>c. True)"
    using mem_entity_store [of entry_type] unfolding g v c by simp
qed

text \<open>
  C29. The in-memory store behaves as a map from IDs to entities, whatever sequence of creations,
  updates and deletions it serves: every call gives the error that the map gives (an empty ID is
  invalid input, creating what exists is a conflict, changing or deleting what does not is not
  found), an update stores the next version, a failed call changes nothing, and a read returns
  what the map holds.
\<close>

theorem InMemoryEntityStore_refines_map:
  assumes "\<And>e. GetID T (IncrementVersion T e) = GetID T e" and "\<And>e. copyEntity T e = Inr e"
  shows "fst (run_ops (mem_op T) xs c) = fst (run_ops (spec_op T) xs (lookup c)) \<and>
    FindByID T eid (snd (run_ops (mem_op T) xs c)) =
      (case snd (run_ops (spec_op T) xs (lookup c)) eid of None \<Rightarrow> Inl ErrNotFound | Some e \<Rightarrow> Inr e)"
proof -
  have "lookup (snd (run_ops (mem_op T) xs c)) eid = snd (run_ops (spec_op T) xs (lookup c)) eid"
    using run_mem_ops_refine [OF assms, where xs = xs and c = c] by simp
  then show ?thesis using run_mem_ops_refine [OF assms, where xs = xs and c = c]
    by (simp add: FindByID_def assms(2) split: option.split)
qed

definition sample_entry :: orchestration_entry where
  "sample_entry = \<lparr>oe_ID = ''o1'', oe_Version = 0, oe_CorrelationID = ''p1'', oe_State = OrchestrationStateRunning,
     oe_StateTimestamp = 5, oe_CreatedTimestamp = 1, oe_OrchestrationType = VPADeployType, oe_DefinitionID = ''d1''\<rparr>"

theorem InMemoryEntityStore_refines_map_witness:
  "FindByID entry_type ''o1'' (snd (run_ops (mem_op entry_type) [SCreate sample_entry, SCreate sample_entry, SUpdate sample_entry] []))
     = Inr (sample_entry\<lparr>oe_Version := 1\<rparr>)"
proof -
  have e: "oe_ID sample_entry = ''o1''" "IncrementVersion entry_type sample_entry = sample_entry\<lparr>oe_Version := 1\<rparr>"
    by (simp_all add: sample_entry_def entry_type_def wrap64_def)
  show ?thesis
    using InMemoryEntityStore_refines_map [of entry_type "[SCreate sample_entry, SCreate sample_entry, SUpdate sample_entry]" "[]" "''o1''"]
    by (simp add: e Let_def)
qed

section \<open>Pagination\<close>

lemma yield_range_all:
  assumes "\<And>i. ctx_done i = None" "\<And>e. copyEntity T e = Inr e"
  shows "yield_range T ctx_done i es = map Inr es"
  using assms by (induction es arbitrary: i) simp_all

text \<open>
  A page is the slice of the matching entities that its offset and limit name, in the order in
  which the cache is ranged over: a limit that is not positive means no limit, and a negative
  offset none. The pages of one range therefore partition the result. Only when offset plus limit
  exceeds an int64 the sum wraps around, and the page is empty, whatever there is to return.
\<close>

theorem paginateEntities_correct:
  assumes "\<And>i. ctx_done i = None" and "\<And>e. copyEntity T e = Inr e"
    and "int64 (pg_Offset opts)" and "int64 (pg_Limit opts)" and "int64 (int (length c))"
  shows "paginateEntities fmt_v T ctx_done p opts c =
    (let es = filter (selected fmt_v T p) (map snd c); start = nat (pg_Offset opts); limit = pg_Limit opts
     in if limit \<le> 0 then map Inr (drop start es)
        else if int start + limit < 2 ^ 63 then map Inr (take (nat limit) (drop start es))
        else [])"
proof -
  let ?es = "filter (selected fmt_v T p) (map snd c)"
  let ?start = "if pg_Offset opts < 0 then 0 else pg_Offset opts"
  have start: "?start = int (nat (pg_Offset opts))" by simp
  have len: "int (length ?es) < 2 ^ 63"
  proof -
    have "length ?es \<le> length (map snd c)" by (rule length_filter_le)
    then have "int (length ?es) \<le> int (length c)" by (simp only: length_map of_nat_le_iff)
    then show ?thesis using assms(5) by (simp only: int64_def) linarith
  qed
  have yr: "yield_range T ctx_done i es = map Inr es" for i es
    using yield_range_all [OF assms(1,2)] .
  show ?thesis
  proof (cases "?start \<ge> int (length ?es)")
    case True
    then have "drop (nat (pg_Offset opts)) ?es = []" by (simp split: if_splits)
    with True show ?thesis by (simp only: paginateEntities_def Let_def if_True) (simp add: Let_def)
  next
    case False
    consider "pg_Limit opts \<le> 0" | "0 < pg_Limit opts" "?start + pg_Limit opts < 2 ^ 63"
      | "0 < pg_Limit opts" "2 ^ 63 \<le> ?start + pg_Limit opts" by linarith
    then show ?thesis
    proof cases
      case 1
      then show ?thesis using False start
        by (simp only: paginateEntities_def Let_def yr range_end_def if_False) (simp add: nat_diff_distrib')
    next
      case 2
      then have "wrap64 (?start + pg_Limit opts) = ?start + pg_Limit opts"
        by (intro wrap64_id) (simp add: int64_def split: if_splits)
      with 2 False show ?thesis
        by (simp only: paginateEntities_def Let_def yr range_end_def if_False if_True) (auto simp: start min_def not_less)
    next
      case 3
      then have "wrap64 (?start + pg_Limit opts) = ?start + pg_Limit opts - 2 ^ 64"
        using assms(3,4) by (intro wrap64_over) (simp_all add: int64_def split: if_splits)
      moreover have "?start + pg_Limit opts - 2 ^ 64 < 0" using assms(3,4) by (simp add: int64_def split: if_splits)
      ultimately show ?thesis using 3 False
        by (simp only: paginateEntities_def Let_def yr range_end_def if_False if_True) (auto simp: start)
    qed
  qed
qed

definition sample_page :: pagination where
  "sample_page = \<lparr>pg_Offset = 1, pg_Limit = 2 ^ 63 - 1\<rparr>"

theorem paginateEntities_witness:
  "paginateEntities (\<lambda>v. []) entry_type (\<lambda>i. None) None sample_page
     [(''o1'', sample_entry), (''o2'', sample_entry)] = []"
  using paginateEntities_correct [of "\<lambda>i. None" entry_type sample_page "[(''o1'', sample_entry), (''o2'', sample_entry)]"
      "\<lambda>v. []" None]
  by (simp add: sample_page_def int64_def Let_def)

section \<open>Queries\<close>

lemma yield_copies_all: "(\<And>e. copyEntity T e = Inr e) \<Longrightarrow> yield_copies T es = map Inr es"
  by (induction es) simp_all

lemma find_filter: "find P xs = (case filter P xs of [] \<Rightarrow> None | x # _ \<Rightarrow> Some x)"
  by (induction xs) simp_all

text \<open>
  The predicate operations agree with each other: the count is the number of entities that
  the query yields, the first match is the first it yields and is missing when it yields none,
  and deleting keeps exactly the other entities, in place, so that the count is zero afterwards
  and the counts of the rest are those of before.
\<close>

theorem predicate_operations_agree:
  assumes "\<And>e. copyEntity T e = Inr e"
  shows "CountByPredicate fmt_v T p c = int (length (FindByPredicate fmt_v T p c)) \<and>
    FindFirstByPredicate fmt_v T p c =
      (case FindByPredicate fmt_v T p c of [] \<Rightarrow> Inl ErrNotFound | r # _ \<Rightarrow> r) \<and>
    CountByPredicate fmt_v T p (DeleteByPredicate fmt_v T p c) = 0 \<and>
    FindByPredicate fmt_v T q (DeleteByPredicate fmt_v T p c) =
      filter (\<lambda>r. \<not> selected fmt_v T (Some p) (projr r)) (FindByPredicate fmt_v T q c)"
proof -
  have find: "FindByPredicate fmt_v T q c = map Inr (filter (selected fmt_v T (Some q)) (map snd c))" for q c
    by (simp add: FindByPredicate_def yield_copies_all [OF assms])
  have kept: "map snd (DeleteByPredicate fmt_v T p c) = filter (\<lambda>e. \<not> selected fmt_v T (Some p) e) (map snd c)"
    by (simp add: DeleteByPredicate_def filter_map comp_def case_prod_beta')
  have projr: "filter (\<lambda>r. \<not> P (projr r)) (map Inr es) = map Inr (filter (\<lambda>e. \<not> P e) es)" for P and es :: "'a list"
    by (induction es) simp_all
  show ?thesis
    unfolding find projr kept
    by (simp add: kept CountByPredicate_def FindFirstByPredicate_def find_filter assms conj_commute
        del: map_map filter_map split: list.split)
qed

theorem predicate_operations_witness:
  "FindFirstByPredicate (\<lambda>v. []) entry_type (Eq ''correlationId'' (VStr ''p2'')) [(''o1'', sample_entry)] =
     (case FindByPredicate (\<lambda>v. []) entry_type (Eq ''correlationId'' (VStr ''p2'')) [(''o1'', sample_entry)] of
        [] \<Rightarrow> Inl ErrNotFound | r # _ \<Rightarrow> r)"
  using predicate_operations_agree [of entry_type "\<lambda>v. []" "Eq ''correlationId'' (VStr ''p2'')" "[(''o1'', sample_entry)]"
      "Eq ''correlationId'' (VStr ''p2'')"]
  by (simp del: Matches.simps)

end
