(* ===== verification/Tenant_Types.thy ===== *)
theory Tenant_Types
  imports Entity_Store
begin

text \<open>
  The entities of the Tenant Manager and what is computed on them without a store:
  \<open>tmanager/api/types.go\<close>, the access of a caller (\<open>api/access.go\<close>), references between entities
  (\<open>core/references.go\<close>), the selection of a cell and the generation of a participant profile
  (\<open>core/generation.go\<close>, \<open>core/generation_vpa.go\<close>), and the orchestration that a profile waits for
  (\<open>core/service_participant.go\<close>).

  A deployment state is a string. Properties are a map that may be nil. Embedded structs are
  flattened, as field names promoted by Go are.
\<close>

section \<open>Entities\<close>

record tenant =
  tn_ID :: string
  tn_Version :: int
  tn_Owner :: string
  tn_Properties :: "props option"

record vpa =
  vpa_ID :: string
  vpa_Version :: int
  vpa_State :: string
  vpa_StateTimestamp :: int
  vpa_Type :: string
  vpa_CellID :: string
  vpa_ExternalCellID :: string
  vpa_Properties :: props

record participant_profile =
  pp_ID :: string
  pp_Version :: int
  pp_Identifier :: string
  pp_TenantID :: string
  pp_Owner :: string
  pp_DataspaceProfileIDs :: "string list"
  pp_ParticipantRoles :: "(string, string list) gomap"
  pp_VPAs :: "vpa list"
  pp_Properties :: "props option"
  pp_Error :: bool
  pp_ErrorDetail :: string

record dataspace_deployment =
  dd_ID :: string
  dd_Version :: int
  dd_State :: string
  dd_StateTimestamp :: int
  dd_CellID :: string
  dd_ExternalCellID :: string
  dd_Properties :: props

record dataspace_profile =
  dp_ID :: string
  dp_Version :: int
  dp_ProtocolStack :: "string list"
  dp_CredentialSpecs :: "credential_spec list"
  dp_Artifacts :: "string list"
  dp_Deployments :: "dataspace_deployment list"
  dp_Properties :: "props option"

record cell =
  ce_ID :: string
  ce_Version :: int
  ce_State :: string
  ce_StateTimestamp :: int
  ce_ExternalID :: string
  ce_Properties :: "props option"

record participant_deployment =
  pd_Identifier :: string
  pd_CellID :: string
  pd_DataspaceProfileIDs :: "string list"
  pd_ParticipantRoles :: "(string, string list) gomap"
  pd_VPAProperties :: "(string, props) gomap"
  pd_Properties :: "props option"

definition DeploymentStateInitial :: string where "DeploymentStateInitial = ''initial''"
definition DeploymentStatePending :: string where "DeploymentStatePending = ''pending''"
definition DeploymentStateActive :: string where "DeploymentStateActive = ''active''"
definition DeploymentStateDisposing :: string where "DeploymentStateDisposing = ''disposing''"
definition DeploymentStateDisposed :: string where "DeploymentStateDisposed = ''disposed''"
definition DeploymentStateLocked :: string where "DeploymentStateLocked = ''locked''"
definition DeploymentStateOffline :: string where "DeploymentStateOffline = ''offline''"
definition DeploymentStateError :: string where "DeploymentStateError = ''error''"

lemmas deployment_states = DeploymentStateInitial_def DeploymentStatePending_def DeploymentStateActive_def
  DeploymentStateDisposing_def DeploymentStateDisposed_def DeploymentStateLocked_def DeploymentStateOffline_def
  DeploymentStateError_def

definition IsValid :: "string \<Rightarrow> bool" where
  "IsValid c \<longleftrightarrow> c \<in> {DeploymentStateInitial, DeploymentStatePending, DeploymentStateActive, DeploymentStateOffline,
     DeploymentStateError, DeploymentStateLocked, DeploymentStateDisposing, DeploymentStateDisposed}"

definition ToDeploymentState :: "string \<Rightarrow> go_error + string" where
  "ToDeploymentState state =
     (let deploymentState = map to_lower state
      in if \<not> IsValid deploymentState then Inl (ErrorString (''invalid deployment state: '' @ state))
         else Inr deploymentState)"

text \<open>Decoding a state from JSON accepts the empty string too.\<close>

definition UnmarshalState :: "string \<Rightarrow> go_error + string" where
  "UnmarshalState s =
     (if s = [] then Inr []
      else if \<not> IsValid s then Inl (ErrorString (''invalid deployment state: '' @ s)) else Inr s)"

definition Properties_Get :: "props option \<Rightarrow> string \<Rightarrow> json option" where
  "Properties_Get p key = (case p of None \<Rightarrow> None | Some m \<Rightarrow> lookup m key)"

definition Properties_GetString :: "props option \<Rightarrow> string \<Rightarrow> string option" where
  "Properties_GetString p key = (case Properties_Get p key of Some v \<Rightarrow> json_as_string v | None \<Rightarrow> None)"

definition Properties_Set :: "string \<Rightarrow> json \<Rightarrow> props option \<Rightarrow> props option" where
  "Properties_Set key v p = Some (put key v (case p of None \<Rightarrow> [] | Some m \<Rightarrow> m))"

definition ToProperties :: "props option \<Rightarrow> props" where
  "ToProperties p = (case p of None \<Rightarrow> [] | Some m \<Rightarrow> copy_into m [])"

section \<open>The access of a caller\<close>

record tenant_access =
  ta_subject :: string
  ta_all :: bool

definition AllTenantsAccess :: "string \<Rightarrow> tenant_access" where
  "AllTenantsAccess subject = \<lparr>ta_subject = subject, ta_all = True\<rparr>"

definition OwnedTenantsAccess :: "string \<Rightarrow> tenant_access" where
  "OwnedTenantsAccess subject = \<lparr>ta_subject = subject, ta_all = False\<rparr>"

definition Allows :: "tenant_access \<Rightarrow> string \<Rightarrow> bool" where
  "Allows a owner \<longleftrightarrow> ta_all a \<or> (ta_subject a \<noteq> [] \<and> owner = ta_subject a)"

definition Restrict :: "tenant_access \<Rightarrow> predicate option \<Rightarrow> predicate option" where
  "Restrict a p =
     (if ta_all a then p
      else (let ownerPredicate = Eq ''owner'' (VStr (ta_subject a))
            in case p of None \<Rightarrow> Some ownerPredicate | Some p \<Rightarrow> Some (And [p, ownerPredicate])))"

definition IsRestricted :: "tenant_access \<Rightarrow> bool" where
  "IsRestricted a \<longleftrightarrow> \<not> ta_all a"

text \<open>The access that a context carries, if it carries one.\<close>

definition TenantAccessFromContext :: "tenant_access option \<Rightarrow> go_error + tenant_access" where
  "TenantAccessFromContext ctx =
     (case ctx of None \<Rightarrow> Inl (NewFatalError ''no tenant access in context'') | Some access \<Rightarrow> Inr access)"

text \<open>\<open>checkTenantAccess\<close> and \<open>checkProfileAccess\<close>, on the owner of the entity.\<close>

definition checkAccess :: "tenant_access option \<Rightarrow> string \<Rightarrow> go_error option" where
  "checkAccess ctx owner =
     (case TenantAccessFromContext ctx of
        Inl err \<Rightarrow> Some err
      | Inr access \<Rightarrow> if \<not> Allows access owner then Some ErrNotFound else None)"

section \<open>References\<close>

definition participantUsesCell :: "participant_profile \<Rightarrow> string \<Rightarrow> bool" where
  "participantUsesCell profile cellID \<longleftrightarrow>
     list_ex (\<lambda>v. vpa_CellID v = cellID \<and> vpa_State v \<noteq> DeploymentStateDisposed) (pp_VPAs profile)"

definition participantIsDisposed :: "participant_profile \<Rightarrow> bool" where
  "participantIsDisposed profile \<longleftrightarrow>
     (if length (pp_VPAs profile) = 0 then False
      else list_all (\<lambda>v. vpa_State v = DeploymentStateDisposed) (pp_VPAs profile))"

definition dataspaceProfileUsesCell :: "dataspace_profile \<Rightarrow> string \<Rightarrow> bool" where
  "dataspaceProfileUsesCell profile cellID \<longleftrightarrow>
     list_ex (\<lambda>d. dd_CellID d = cellID \<and> dd_State d \<noteq> DeploymentStateDisposed) (dp_Deployments profile)"

section \<open>Selecting a cell and generating a profile\<close>

fun defaultCellSelector :: "string \<Rightarrow> cell list \<Rightarrow> dataspace_profile list \<Rightarrow> go_error + cell" where
  "defaultCellSelector ty [] dProfiles = Inl (ErrorString ''no active cell found'')"
| "defaultCellSelector ty (cell # cells) dProfiles =
     (if ce_State cell = DeploymentStateActive \<and>
         list_ex (\<lambda>dProfile. list_ex (\<lambda>d. dd_State d = DeploymentStateActive \<and> dd_CellID d = ce_ID cell)
           (dp_Deployments dProfile)) dProfiles
      then Inr cell
      else defaultCellSelector ty cells dProfiles)"

definition generateVPA :: "string \<Rightarrow> int \<Rightarrow> string \<Rightarrow> (string, props) gomap \<Rightarrow> cell \<Rightarrow> vpa" where
  "generateVPA uuid now vpaType vpaProperties cell =
     \<lparr>vpa_ID = uuid, vpa_Version = 0, vpa_State = DeploymentStatePending, vpa_StateTimestamp = now,
      vpa_Type = vpaType, vpa_CellID = ce_ID cell, vpa_ExternalCellID = ce_ExternalID cell,
      vpa_Properties = (case lookup vpaProperties vpaType of None \<Rightarrow> [] | Some props \<Rightarrow> copy_into props [])\<rparr>"

text \<open>\<open>uuids n\<close> is the \<open>n\<close>-th UUID that a call asks for and \<open>now\<close> its clock.\<close>

definition Generate ::
    "(string \<Rightarrow> cell list \<Rightarrow> dataspace_profile list \<Rightarrow> go_error + cell) \<Rightarrow> (nat \<Rightarrow> string) \<Rightarrow> int \<Rightarrow>
     string \<Rightarrow> string \<Rightarrow> (string, string list) gomap \<Rightarrow> (string, props) gomap \<Rightarrow> props option \<Rightarrow>
     cell list \<Rightarrow> dataspace_profile list \<Rightarrow> go_error + participant_profile" where
  "Generate selector uuids now identifier tenantID participantRoles vpaProperties properties cells dProfiles =
     (case selector VPADeployType cells dProfiles of
        Inl err \<Rightarrow> Inl err
      | Inr cell \<Rightarrow> Inr \<lparr>pp_ID = uuids 4, pp_Version = 0, pp_Identifier = identifier, pp_TenantID = tenantID,
          pp_Owner = [], pp_DataspaceProfileIDs = map dp_ID dProfiles, pp_ParticipantRoles = participantRoles,
          pp_VPAs = [generateVPA (uuids 0) now ConnectorType vpaProperties cell,
             generateVPA (uuids 1) now CredentialServiceType vpaProperties cell,
             generateVPA (uuids 2) now DataPlaneType vpaProperties cell,
             generateVPA (uuids 3) now IssuerServiceType vpaProperties cell],
          pp_Properties = properties, pp_Error = False, pp_ErrorDetail = []\<rparr>)"

definition credentials_of :: "(string, string list) gomap \<Rightarrow> dataspace_profile \<Rightarrow> credential_spec list" where
  "credentials_of participantRoles profile =
     filter (\<lambda>spec. cs_ParticipantRole spec = [] \<or>
       (case lookup participantRoles (dp_ID profile) of
          None \<Rightarrow> False | Some roles \<Rightarrow> list_ex (\<lambda>role. role = cs_ParticipantRole spec) roles))
       (dp_CredentialSpecs profile)"

definition generateCredentialSpecs :: "(string, string list) gomap \<Rightarrow> dataspace_profile list \<Rightarrow> credential_spec list" where
  "generateCredentialSpecs participantRoles dProfiles = concat (map (credentials_of participantRoles) dProfiles)"

section \<open>The orchestration that a profile waits for\<close>

definition pendingOrchestrationKey :: string where "pendingOrchestrationKey = ''cfm.orchestration.pending''"

definition setPendingOrchestration :: "orchestration_manifest \<Rightarrow> participant_profile \<Rightarrow> participant_profile" where
  "setPendingOrchestration manifest profile =
     profile\<lparr>pp_Properties := Some (put pendingOrchestrationKey
       (JObj [(''manifestId'', JStr (om_ID manifest)), (''orchestrationType'', JStr (om_OrchestrationType manifest))])
       (case pp_Properties profile of None \<Rightarrow> [] | Some m \<Rightarrow> m))\<rparr>"

definition pending_of :: "participant_profile \<Rightarrow> props option" where
  "pending_of profile =
     (case Properties_Get (pp_Properties profile) pendingOrchestrationKey of
        None \<Rightarrow> None | Some v \<Rightarrow> json_as_object v)"

definition isPendingOrchestration :: "participant_profile \<Rightarrow> orchestration_response \<Rightarrow> bool" where
  "isPendingOrchestration profile response =
     (case pending_of profile of
        None \<Rightarrow> False
      | Some pending \<Rightarrow>
          let manifestID = string_or_empty (lookup pending ''manifestId'');
              orchestrationType = string_or_empty (lookup pending ''orchestrationType'')
          in if manifestID = [] then False
             else if manifestID = or_ManifestID response then orchestrationType = or_OrchestrationType response
             else manifestID = or_CompensatedManifestID response \<and> orchestrationType = VPADeployType \<and>
               or_OrchestrationType response = VPADisposeType)"

end
