(* ===== verification/Tenant_Stores.thy ===== *)
theory Tenant_Stores
  imports Tenant_Types
begin

text \<open>
  The stores of the Tenant Manager (\<open>tmanager/api/store.go\<close>): the entity store interface as its
  services use it, the in-memory stores of \<open>tmanager/memorystore\<close> as values of it, and what the
  predicates of the services select.
\<close>

section \<open>Entities as stores see them\<close>

text \<open>A copy goes through JSON: a deployment state is checked when it is decoded.\<close>

definition copy_states :: "string list \<Rightarrow> 'e \<Rightarrow> go_error + 'e" where
  "copy_states states e =
     (case List.find (\<lambda>s. s \<noteq> [] \<and> \<not> IsValid s) states of
        Some s \<Rightarrow> Inl (ErrorString (''invalid deployment state: '' @ s))
      | None \<Rightarrow> Inr e)"

definition props_value :: "props \<Rightarrow> gval" where
  "props_value m = VMap (map (\<lambda>(k, j). (k, VIface (json_gval j))) m)"

definition opt_props_value :: "props option \<Rightarrow> gval" where
  "opt_props_value p = (case p of None \<Rightarrow> VMap [] | Some m \<Rightarrow> props_value m)"

definition tenant_type :: "tenant entity_type" where
  "tenant_type = \<lparr>GetID = tn_ID, IncrementVersion = (\<lambda>e. e\<lparr>tn_Version := wrap64 (tn_Version e + 1)\<rparr>),
     entity_value = (\<lambda>e. VStruct [(''Entity'', VStruct []), (''ID'', VStr (tn_ID e)), (''Version'', VInt (tn_Version e)),
       (''Owner'', VStr (tn_Owner e)), (''Properties'', opt_props_value (tn_Properties e))]),
     copyEntity = Inr\<rparr>"

definition vpa_value :: "vpa \<Rightarrow> gval" where
  "vpa_value v = VStruct [(''DeployableEntity'', VStruct []), (''Entity'', VStruct []), (''ID'', VStr (vpa_ID v)),
     (''Version'', VInt (vpa_Version v)), (''State'', VStr (vpa_State v)),
     (''StateTimestamp'', time_value (vpa_StateTimestamp v)), (''Type'', VStr (vpa_Type v)),
     (''CellID'', VStr (vpa_CellID v)), (''ExternalCellID'', VStr (vpa_ExternalCellID v)),
     (''Properties'', props_value (vpa_Properties v))]"

definition participant_type :: "participant_profile entity_type" where
  "participant_type = \<lparr>GetID = pp_ID, IncrementVersion = (\<lambda>e. e\<lparr>pp_Version := wrap64 (pp_Version e + 1)\<rparr>),
     entity_value = (\<lambda>e. VStruct [(''Entity'', VStruct []), (''ID'', VStr (pp_ID e)), (''Version'', VInt (pp_Version e)),
       (''Identifier'', VStr (pp_Identifier e)), (''TenantID'', VStr (pp_TenantID e)), (''Owner'', VStr (pp_Owner e)),
       (''DataspaceProfileIDs'', VSlice (map VStr (pp_DataspaceProfileIDs e))),
       (''ParticipantRoles'', VMap (map (\<lambda>(k, rs). (k, VSlice (map VStr rs))) (pp_ParticipantRoles e))),
       (''VPAs'', VSlice (map vpa_value (pp_VPAs e))), (''Properties'', opt_props_value (pp_Properties e)),
       (''Error'', VBool (pp_Error e)), (''ErrorDetail'', VStr (pp_ErrorDetail e))]),
     copyEntity = (\<lambda>e. copy_states (map vpa_State (pp_VPAs e)) e)\<rparr>"

definition deployment_value :: "dataspace_deployment \<Rightarrow> gval" where
  "deployment_value d = VStruct [(''DeployableEntity'', VStruct []), (''Entity'', VStruct []), (''ID'', VStr (dd_ID d)),
     (''Version'', VInt (dd_Version d)), (''State'', VStr (dd_State d)),
     (''StateTimestamp'', time_value (dd_StateTimestamp d)), (''CellID'', VStr (dd_CellID d)),
     (''ExternalCellID'', VStr (dd_ExternalCellID d)), (''Properties'', props_value (dd_Properties d))]"

definition credential_spec_value :: "credential_spec \<Rightarrow> gval" where
  "credential_spec_value c = VStruct [(''Id'', VStr (cs_Id c)), (''Type'', VStr (cs_Type c)), (''Issuer'', VStr (cs_Issuer c)),
     (''Format'', VStr (cs_Format c)), (''ParticipantRole'', VStr (cs_ParticipantRole c))]"

definition dataspace_type :: "dataspace_profile entity_type" where
  "dataspace_type = \<lparr>GetID = dp_ID, IncrementVersion = (\<lambda>e. e\<lparr>dp_Version := wrap64 (dp_Version e + 1)\<rparr>),
     entity_value = (\<lambda>e. VStruct [(''Entity'', VStruct []), (''ID'', VStr (dp_ID e)), (''Version'', VInt (dp_Version e)),
       (''DataspaceSpec'', VStruct [(''ProtocolStack'', VSlice (map VStr (dp_ProtocolStack e))),
          (''CredentialSpecs'', VSlice (map credential_spec_value (dp_CredentialSpecs e)))]),
       (''Artifacts'', VSlice (map VStr (dp_Artifacts e))),
       (''Deployments'', VSlice (map deployment_value (dp_Deployments e))),
       (''Properties'', opt_props_value (dp_Properties e))]),
     copyEntity = (\<lambda>e. copy_states (map dd_State (dp_Deployments e)) e)\<rparr>"

definition cell_type :: "cell entity_type" where
  "cell_type = \<lparr>GetID = ce_ID, IncrementVersion = (\<lambda>e. e\<lparr>ce_Version := wrap64 (ce_Version e + 1)\<rparr>),
     entity_value = (\<lambda>e. VStruct [(''DeployableEntity'', VStruct []), (''Entity'', VStruct []), (''ID'', VStr (ce_ID e)),
       (''Version'', VInt (ce_Version e)), (''State'', VStr (ce_State e)),
       (''StateTimestamp'', time_value (ce_StateTimestamp e)), (''ExternalID'', VStr (ce_ExternalID e)),
       (''Properties'', opt_props_value (ce_Properties e))]),
     copyEntity = (\<lambda>e. copy_states [ce_State e] e)\<rparr>"

section \<open>The interface\<close>

text \<open>
  Iterators are the list of what they yield. \<open>FindByIDAndLock\<close> takes the strength of its lock
  as a flag: shared or exclusive.
\<close>

record ('e, 's) entity_ops =
  eo_FindByID :: "string \<Rightarrow> 's \<Rightarrow> go_error + 'e"
  eo_FindByIDAndLock :: "string \<Rightarrow> bool \<Rightarrow> 's \<Rightarrow> go_error + 'e"
  eo_GetAll :: "'s \<Rightarrow> (go_error + 'e) list"
  eo_GetAllPaginated :: "pagination \<Rightarrow> 's \<Rightarrow> (go_error + 'e) list"
  eo_GetAllCount :: "'s \<Rightarrow> go_error + int"
  eo_FindByPredicate :: "predicate \<Rightarrow> 's \<Rightarrow> (go_error + 'e) list"
  eo_FindByPredicatePaginated :: "predicate \<Rightarrow> pagination \<Rightarrow> 's \<Rightarrow> (go_error + 'e) list"
  eo_CountByPredicate :: "predicate \<Rightarrow> 's \<Rightarrow> go_error + int"
  eo_Create :: "'e \<Rightarrow> 's \<Rightarrow> (go_error + 'e) \<times> 's"
  eo_Update :: "'e \<Rightarrow> 's \<Rightarrow> go_error option \<times> 's"
  eo_Delete :: "string \<Rightarrow> 's \<Rightarrow> go_error option \<times> 's"

definition memory_entity_ops ::
    "(gval \<Rightarrow> string) \<Rightarrow> (int \<Rightarrow> go_error option) \<Rightarrow> 'e entity_type \<Rightarrow> ('s \<Rightarrow> 'e cache) \<Rightarrow> ('e cache \<Rightarrow> 's \<Rightarrow> 's) \<Rightarrow>
     ('e, 's) entity_ops" where
  "memory_entity_ops fmt_v ctx_done T get_c set_c =
     \<lparr>eo_FindByID = \<lambda>k s. FindByID T k (get_c s),
      eo_FindByIDAndLock = \<lambda>k exclusive s. FindByIDAndLock T k (get_c s),
      eo_GetAll = \<lambda>s. GetAll fmt_v T ctx_done (get_c s),
      eo_GetAllPaginated = \<lambda>opts s. GetAllPaginated fmt_v T ctx_done opts (get_c s),
      eo_GetAllCount = \<lambda>s. Inr (GetAllCount (get_c s)),
      eo_FindByPredicate = \<lambda>p s. FindByPredicate fmt_v T p (get_c s),
      eo_FindByPredicatePaginated = \<lambda>p opts s. FindByPredicatePaginated fmt_v T ctx_done p opts (get_c s),
      eo_CountByPredicate = \<lambda>p s. Inr (CountByPredicate fmt_v T p (get_c s)),
      eo_Create = \<lambda>e s. (let (r, c) = Create T e (get_c s) in (r, set_c c s)),
      eo_Update = \<lambda>e s. (let (r, c) = mem_update T e (get_c s) in (r, set_c c s)),
      eo_Delete = \<lambda>k s. (let (r, c) = Delete k (get_c s) in (r, set_c c s))\<rparr>"

section \<open>What the predicates of the services select\<close>

lemma equal_strings: "CompareValues fmt_v OpEqual (VStr s) (VStr t) \<longleftrightarrow> s = t"
  by (simp add: CompareValues_def compareValueForSingleElement_def equal_values_def toFloat64_def)

lemma equal_string_slice:
  "CompareValues fmt_v OpEqual (VSlice (map (\<lambda>e. VStr (f e)) elems)) (VStr t) \<longleftrightarrow> (\<exists>e\<in>set elems. f e = t)"
  by (auto simp: CompareValues_def compareValueForSingleElement_def equal_values_def toFloat64_def Interface_def
      list_ex_iff)

lemma selected_Eq:
  "selected fmt_v T (Some (Eq field v)) e \<longleftrightarrow>
     (case GetFieldValue (entity_value T e) field of Inl err \<Rightarrow> False | Inr x \<Rightarrow> CompareValues fmt_v OpEqual x v)"
  by (simp add: selected_def Eq_def DefaultFieldMatcher_def split: sum.split)

lemma path_parts:
  "split_on (CHR ''.'') ''tenantId'' = [''tenantId'']" "split_on (CHR ''.'') ''owner'' = [''owner'']"
  "split_on (CHR ''.'') ''externalId'' = [''externalId'']"
  "split_on (CHR ''.'') ''dataspaceProfileIds'' = [''dataspaceProfileIds'']"
  "split_on (CHR ''.'') ''vpas.cellId'' = [''vpas'', ''cellId'']"
  "split_on (CHR ''.'') ''deployments.cellId'' = [''deployments'', ''cellId'']"
  by code_simp+

text \<open>Which names of fields agree with the names that the predicates use.\<close>

lemma lower_letters:
  "to_lower CHR ''A'' = CHR ''a''" "to_lower CHR ''C'' = CHR ''c''" "to_lower CHR ''D'' = CHR ''d''"
  "to_lower CHR ''E'' = CHR ''e''" "to_lower CHR ''I'' = CHR ''i''" "to_lower CHR ''O'' = CHR ''o''"
  "to_lower CHR ''P'' = CHR ''p''" "to_lower CHR ''R'' = CHR ''r''" "to_lower CHR ''S'' = CHR ''s''"
  "to_lower CHR ''T'' = CHR ''t''" "to_lower CHR ''V'' = CHR ''v''" "to_lower CHR ''a'' = CHR ''a''"
  "to_lower CHR ''b'' = CHR ''b''" "to_lower CHR ''c'' = CHR ''c''" "to_lower CHR ''d'' = CHR ''d''"
  "to_lower CHR ''e'' = CHR ''e''" "to_lower CHR ''f'' = CHR ''f''" "to_lower CHR ''i'' = CHR ''i''"
  "to_lower CHR ''l'' = CHR ''l''" "to_lower CHR ''m'' = CHR ''m''" "to_lower CHR ''n'' = CHR ''n''"
  "to_lower CHR ''o'' = CHR ''o''" "to_lower CHR ''p'' = CHR ''p''" "to_lower CHR ''r'' = CHR ''r''"
  "to_lower CHR ''s'' = CHR ''s''" "to_lower CHR ''t'' = CHR ''t''" "to_lower CHR ''v'' = CHR ''v''"
  "to_lower CHR ''w'' = CHR ''w''" "to_lower CHR ''x'' = CHR ''x''" "to_lower CHR ''y'' = CHR ''y''"
  by (simp_all add: to_lower_def less_eq_char_def char_of_def bit_iff_odd drop_bit_eq_div)

lemma field_names_checked:
  "list_all (\<lambda>(f, q). EqualFold f q)
   [(''Owner'', ''owner''), (''TenantID'', ''tenantId''), (''DataspaceProfileIDs'', ''dataspaceProfileIds''),
    (''VPAs'', ''vpas''), (''ExternalID'', ''externalId''), (''Deployments'', ''deployments''),
    (''CellID'', ''cellId'')] \<and>
   list_all (\<lambda>(f, q). \<not> EqualFold f q)
   [(''Entity'', ''owner''), (''ID'', ''owner''), (''Version'', ''owner''), (''Identifier'', ''owner''),
    (''TenantID'', ''owner''), (''DataspaceProfileIDs'', ''owner''), (''ParticipantRoles'', ''owner''),
    (''VPAs'', ''owner''), (''Properties'', ''owner''), (''Error'', ''owner''), (''ErrorDetail'', ''owner''),
    (''Entity'', ''tenantId''), (''ID'', ''tenantId''), (''Version'', ''tenantId''),
    (''Identifier'', ''tenantId''), (''Owner'', ''tenantId''), (''DataspaceProfileIDs'', ''tenantId''),
    (''ParticipantRoles'', ''tenantId''), (''VPAs'', ''tenantId''), (''Properties'', ''tenantId''),
    (''Error'', ''tenantId''), (''ErrorDetail'', ''tenantId''), (''Entity'', ''dataspaceProfileIds''),
    (''ID'', ''dataspaceProfileIds''), (''Version'', ''dataspaceProfileIds''),
    (''Identifier'', ''dataspaceProfileIds''), (''TenantID'', ''dataspaceProfileIds''),
    (''Owner'', ''dataspaceProfileIds''), (''ParticipantRoles'', ''dataspaceProfileIds''),
    (''VPAs'', ''dataspaceProfileIds''), (''Properties'', ''dataspaceProfileIds''),
    (''Error'', ''dataspaceProfileIds''), (''ErrorDetail'', ''dataspaceProfileIds''), (''Entity'', ''vpas''),
    (''ID'', ''vpas''), (''Version'', ''vpas''), (''Identifier'', ''vpas''), (''TenantID'', ''vpas''),
    (''Owner'', ''vpas''), (''DataspaceProfileIDs'', ''vpas''), (''ParticipantRoles'', ''vpas''),
    (''Properties'', ''vpas''), (''Error'', ''vpas''), (''ErrorDetail'', ''vpas''),
    (''DeployableEntity'', ''externalId''), (''Entity'', ''externalId''), (''ID'', ''externalId''),
    (''Version'', ''externalId''), (''State'', ''externalId''), (''StateTimestamp'', ''externalId''),
    (''Properties'', ''externalId''), (''Entity'', ''deployments''), (''ID'', ''deployments''),
    (''Version'', ''deployments''), (''DataspaceSpec'', ''deployments''), (''Artifacts'', ''deployments''),
    (''Properties'', ''deployments''), (''DeployableEntity'', ''cellId''), (''Entity'', ''cellId''),
    (''ID'', ''cellId''), (''Version'', ''cellId''), (''State'', ''cellId''), (''StateTimestamp'', ''cellId''),
    (''Type'', ''cellId''), (''ExternalCellID'', ''cellId''), (''Properties'', ''cellId'')]"
  by (simp add: EqualFold_def lower_letters)

lemmas field_names = field_names_checked [unfolded list.pred_inject prod.case]

lemmas field_defs = field_names deref_def getFieldValueCaseInsensitive_def Interface_def

lemma selected_tenant_owner: "selected fmt_v tenant_type (Some (Eq ''owner'' (VStr s))) e \<longleftrightarrow> tn_Owner e = s"
  by (simp add: selected_Eq GetFieldValue_def path_parts field_defs tenant_type_def equal_strings)

lemma selected_participant_owner: "selected fmt_v participant_type (Some (Eq ''owner'' (VStr s))) e \<longleftrightarrow> pp_Owner e = s"
  by (simp add: selected_Eq GetFieldValue_def path_parts field_defs participant_type_def equal_strings)

lemma selected_participant_tenant:
  "selected fmt_v participant_type (Some (Eq ''tenantId'' (VStr s))) e \<longleftrightarrow> pp_TenantID e = s"
  by (simp add: selected_Eq GetFieldValue_def path_parts field_defs participant_type_def equal_strings)

lemma selected_participant_dataspace:
  "selected fmt_v participant_type (Some (Eq ''dataspaceProfileIds'' (VStr s))) e \<longleftrightarrow> s \<in> set (pp_DataspaceProfileIDs e)"
  using equal_string_slice [of fmt_v "\<lambda>x. x" "pp_DataspaceProfileIDs e" s]
  by (simp add: selected_Eq GetFieldValue_def path_parts field_defs participant_type_def)

lemma selected_cell_external:
  "selected fmt_v cell_type (Some (Eq ''externalId'' (VStr s))) e \<longleftrightarrow> ce_ExternalID e = s"
  by (simp add: selected_Eq GetFieldValue_def path_parts field_defs cell_type_def equal_strings)

lemma vpa_cell_field: "get_path (Interface (vpa_value v)) [''cellId''] = Inr (VStr (vpa_CellID v))"
  by (simp add: vpa_value_def field_defs)

lemma deployment_cell_field: "get_path (Interface (deployment_value d)) [''cellId''] = Inr (VStr (dd_CellID d))"
  by (simp add: deployment_value_def field_defs)

lemma get_slice_of_structs:
  assumes "filter (\<lambda>(n, v). EqualFold n name) fs = [(n, VSlice (map g xs))]"
    and "\<And>x. get_path (Interface (g x)) [field] = Inr (VStr (f x))"
  shows "(case get_path (VStruct fs) [name, field] of Inl err \<Rightarrow> False
     | Inr x \<Rightarrow> CompareValues fmt_v OpEqual x (VStr t)) \<longleftrightarrow> (\<exists>x\<in>set xs. f x = t)"
proof -
  have ok: "ok_values (map (\<lambda>e. get_path (Interface e) [field]) (map g xs)) = map (\<lambda>x. VStr (f x)) xs"
    using assms(2) by (induction xs) (simp_all add: ok_values_def List.map_filter_def del: get_path.simps)
  have "get_path (VStruct fs) [name, field] =
      (if xs = [] then Inl (ErrorString (''no matching values found in slice for path '' @ field))
       else Inr (VSlice (map (\<lambda>x. VStr (f x)) xs)))"
    unfolding get_path.simps(2) [of "VStruct fs" name "[field]"]
    using assms(1) ok by (simp add: deref_def getFieldValueCaseInsensitive_def Let_def join_def del: get_path.simps)
  then show ?thesis using equal_string_slice [of fmt_v f xs t] by auto
qed

lemma selected_participant_cell:
  "selected fmt_v participant_type (Some (Eq ''vpas.cellId'' (VStr s))) e \<longleftrightarrow> (\<exists>v\<in>set (pp_VPAs e). vpa_CellID v = s)"
  unfolding selected_Eq GetFieldValue_def path_parts participant_type_def entity_type.simps
  by (rule get_slice_of_structs [where n = "''VPAs''" and g = vpa_value])
    (simp_all add: field_names vpa_cell_field del: get_path.simps)

lemma selected_dataspace_cell:
  "selected fmt_v dataspace_type (Some (Eq ''deployments.cellId'' (VStr s))) e \<longleftrightarrow> (\<exists>d\<in>set (dp_Deployments e). dd_CellID d = s)"
  unfolding selected_Eq GetFieldValue_def path_parts dataspace_type_def entity_type.simps
  by (rule get_slice_of_structs [where n = "''Deployments''" and g = deployment_value])
    (simp_all add: field_names deployment_cell_field del: get_path.simps)

lemma selected_And:
  "selected fmt_v T (Some (And [p, q])) e \<longleftrightarrow> selected fmt_v T (Some p) e \<and> selected fmt_v T (Some q) e"
  by (simp add: selected_def And_def)

end
