(* ===== verification/Tenant_Services.thy ===== *)
theory Tenant_Services
  imports Tenant_Stores
begin

text \<open>
  The services of the Tenant Manager for tenants, cells and dataspace profiles
  (\<open>tmanager/core/service_tenant.go\<close>, \<open>service_cell.go\<close>, \<open>service_dataspace.go\<close>), on any stores and
  transaction context. The access that the request's context carries is \<open>ctx\<close>.
\<close>

record 's tm =
  tm_tenants :: "(tenant, 's) entity_ops"
  tm_participants :: "(participant_profile, 's) entity_ops"
  tm_cells :: "(cell, 's) entity_ops"
  tm_dataspaces :: "(dataspace_profile, 's) entity_ops"
  tm_send :: "orchestration_manifest \<Rightarrow> 's \<Rightarrow> go_error option \<times> 's"

definition of_error :: "go_error option \<times> 's \<Rightarrow> unit call_result \<times> 's" where
  "of_error r = (case r of (None, s) \<Rightarrow> (Returns (), s) | (Some err, s) \<Rightarrow> (Fails err, s))"

lemma of_error_simps [simp, go_simps]:
  "of_error (None, s) = (Returns (), s)" "of_error (Some err, s) = (Fails err, s)"
  by (simp_all add: of_error_def)

section \<open>Tenants\<close>

definition GetTenant :: "('s, tenant) trx \<Rightarrow> 's tm \<Rightarrow> tenant_access option \<Rightarrow> string \<Rightarrow> 's \<Rightarrow> tenant call_result \<times> 's" where
  "GetTenant execute t ctx tenantID =
     execute (\<lambda>s.
       (case eo_FindByID (tm_tenants t) tenantID s of
          Inl err \<Rightarrow> (Fails err, s)
        | Inr tenant \<Rightarrow>
            (case checkAccess ctx (tn_Owner tenant) of
               Some err \<Rightarrow> (Fails err, s) | None \<Rightarrow> (Returns tenant, s))))"

definition CreateTenant :: "('s, tenant) trx \<Rightarrow> 's tm \<Rightarrow> tenant_access option \<Rightarrow> tenant \<Rightarrow> 's \<Rightarrow> tenant call_result \<times> 's" where
  "CreateTenant execute t ctx tenant s =
     (case TenantAccessFromContext ctx of
        Inl err \<Rightarrow> (Fails err, s)
      | Inr access \<Rightarrow>
          execute (\<lambda>s. of_result (eo_Create (tm_tenants t) (tenant\<lparr>tn_Owner := ta_subject access\<rparr>) s)) s)"

text \<open>Storing into a nil map panics; deleting from one does nothing.\<close>

definition patch_properties :: "props \<Rightarrow> string list \<Rightarrow> props option \<Rightarrow> props option call_result" where
  "patch_properties properties remove p =
     (case p of
        None \<Rightarrow> if properties = [] then Returns None else Panics ''assignment to entry in nil map''
      | Some m \<Rightarrow> Returns (Some (fold del remove (copy_into properties m))))"

definition PatchTenant ::
    "('s, unit) trx \<Rightarrow> 's tm \<Rightarrow> tenant_access option \<Rightarrow> string \<Rightarrow> props \<Rightarrow> string list \<Rightarrow> 's \<Rightarrow> unit call_result \<times> 's" where
  "PatchTenant execute t ctx tid properties remove =
     execute (\<lambda>s.
       (case eo_FindByID (tm_tenants t) tid s of
          Inl err \<Rightarrow>
            (Fails (if errors_Is err ErrNotFound then err
               else WrapError (''tenant '' @ tid @ '' not found: '' @ error_text err) err), s)
        | Inr tenant \<Rightarrow>
            (case checkAccess ctx (tn_Owner tenant) of
               Some err \<Rightarrow> (Fails err, s)
             | None \<Rightarrow>
                 (case patch_properties properties remove (tn_Properties tenant) of
                    Panics reason \<Rightarrow> (Panics reason, s)
                  | Fails err \<Rightarrow> (Fails err, s)
                  | Returns p \<Rightarrow>
                      (case eo_Update (tm_tenants t) (tenant\<lparr>tn_Properties := p\<rparr>) s of
                         (Some err, s) \<Rightarrow> (Fails (WrapError (''unable to patch tenant '' @ tid @ '': '' @ error_text err) err), s)
                       | (None, s) \<Rightarrow> (Returns (), s))))))"

definition DeleteTenant :: "('s, unit) trx \<Rightarrow> 's tm \<Rightarrow> tenant_access option \<Rightarrow> string \<Rightarrow> 's \<Rightarrow> unit call_result \<times> 's" where
  "DeleteTenant execute t ctx tenantID =
     execute (\<lambda>s.
       (case eo_FindByIDAndLock (tm_tenants t) tenantID True s of
          Inl err \<Rightarrow> (Fails err, s)
        | Inr tenant \<Rightarrow>
            (case checkAccess ctx (tn_Owner tenant) of
               Some err \<Rightarrow> (Fails err, s)
             | None \<Rightarrow>
                 (case eo_CountByPredicate (tm_participants t) (Eq ''tenantId'' (VStr (tn_ID tenant))) s of
                    Inl err \<Rightarrow> (Fails err, s)
                  | Inr n \<Rightarrow>
                      if n > 0 then (Fails (NewClientError ''cannot delete tenant with participants''), s)
                      else of_error (eo_Delete (tm_tenants t) (tn_ID tenant) s)))))"

text \<open>
  An iterator over a store in a transaction, for a consumer that takes everything: what the store
  yields, then the error of the transaction.
\<close>

definition executeStoreIterator ::
    "('s, (go_error + 'e) list) trx \<Rightarrow> ('s \<Rightarrow> (go_error + 'e) list) \<Rightarrow> 's \<Rightarrow> (go_error + 'e) list call_result \<times> 's" where
  "executeStoreIterator execute storeOp s =
     (case execute (\<lambda>s. (Returns (storeOp s), s)) s of
        (Returns seq, s) \<Rightarrow> (Returns seq, s)
      | (Fails err, s) \<Rightarrow> (Returns (if errors_Is err (Sentinel ''context.Canceled'') then [] else [Inl err]), s)
      | (Panics reason, s) \<Rightarrow> (Panics reason, s))"

definition restricted :: "tenant_access \<Rightarrow> predicate \<Rightarrow> predicate" where
  "restricted access p = the (Restrict access (Some p))"

definition QueryTenants ::
    "('s, (go_error + tenant) list) trx \<Rightarrow> 's tm \<Rightarrow> tenant_access option \<Rightarrow> predicate \<Rightarrow> pagination \<Rightarrow> 's \<Rightarrow>
     (go_error + tenant) list call_result \<times> 's" where
  "QueryTenants execute t ctx p opts s =
     (case TenantAccessFromContext ctx of
        Inl err \<Rightarrow> (Returns [Inl err], s)
      | Inr access \<Rightarrow>
          executeStoreIterator execute (eo_FindByPredicatePaginated (tm_tenants t) (restricted access p) opts) s)"

definition GetTenants ::
    "('s, (go_error + tenant) list) trx \<Rightarrow> 's tm \<Rightarrow> tenant_access option \<Rightarrow> pagination \<Rightarrow> 's \<Rightarrow>
     (go_error + tenant) list call_result \<times> 's" where
  "GetTenants execute t ctx opts s =
     (case TenantAccessFromContext ctx of
        Inl err \<Rightarrow> (Returns [Inl err], s)
      | Inr access \<Rightarrow>
          executeStoreIterator execute
            (if IsRestricted access
             then eo_FindByPredicatePaginated (tm_tenants t) (the (Restrict access None)) opts
             else eo_GetAllPaginated (tm_tenants t) opts) s)"

definition GetTenantsCount :: "'s tm \<Rightarrow> tenant_access option \<Rightarrow> 's \<Rightarrow> go_error + int" where
  "GetTenantsCount t ctx s =
     (case TenantAccessFromContext ctx of
        Inl err \<Rightarrow> Inl err
      | Inr access \<Rightarrow>
          if IsRestricted access then eo_CountByPredicate (tm_tenants t) (the (Restrict access None)) s
          else eo_GetAllCount (tm_tenants t) s)"

definition QueryTenantsCount ::
    "('s, int) trx \<Rightarrow> 's tm \<Rightarrow> tenant_access option \<Rightarrow> predicate \<Rightarrow> 's \<Rightarrow> int call_result \<times> 's" where
  "QueryTenantsCount execute t ctx p s =
     (case TenantAccessFromContext ctx of
        Inl err \<Rightarrow> (Fails err, s)
      | Inr access \<Rightarrow>
          execute (\<lambda>s. of_result (eo_CountByPredicate (tm_tenants t) (restricted access p) s, s)) s)"

section \<open>Cells\<close>

definition RecordExternalDeployment :: "('s, cell) trx \<Rightarrow> 's tm \<Rightarrow> cell \<Rightarrow> 's \<Rightarrow> cell call_result \<times> 's" where
  "RecordExternalDeployment execute t cell =
     execute (\<lambda>s.
       if ce_ExternalID cell \<noteq> [] then
         (case eo_CountByPredicate (tm_cells t) (Eq ''externalId'' (VStr (ce_ExternalID cell))) s of
            Inl err \<Rightarrow> (Fails err, s)
          | Inr n \<Rightarrow> if n > 0 then (Fails ErrConflict, s) else of_result (eo_Create (tm_cells t) cell s))
       else of_result (eo_Create (tm_cells t) cell s))"

text \<open>The loops of the deletions: the first error or the first entity that is in the way ends them.\<close>

fun first_blocker :: "('e \<Rightarrow> bool) \<Rightarrow> ('e \<Rightarrow> go_error) \<Rightarrow> (go_error + 'e) list \<Rightarrow> go_error option" where
  "first_blocker uses refuse [] = None"
| "first_blocker uses refuse (Inl err # seq) = Some err"
| "first_blocker uses refuse (Inr e # seq) = (if uses e then Some (refuse e) else first_blocker uses refuse seq)"

definition DeleteCell :: "('s, unit) trx \<Rightarrow> 's tm \<Rightarrow> string \<Rightarrow> 's \<Rightarrow> unit call_result \<times> 's" where
  "DeleteCell execute t cellID =
     execute (\<lambda>s.
       (case eo_FindByIDAndLock (tm_cells t) cellID True s of
          Inl err \<Rightarrow> (Fails err, s)
        | Inr cell \<Rightarrow>
            (case first_blocker (\<lambda>profile. participantUsesCell profile cellID)
                (\<lambda>profile. NewClientError (''cannot delete cell '' @ cellID @ '': participant profile '' @ pp_ID profile @
                   '' has VPAs in it''))
                (eo_FindByPredicate (tm_participants t) (Eq ''vpas.cellId'' (VStr cellID)) s) of
               Some err \<Rightarrow> (Fails err, s)
             | None \<Rightarrow>
                 (case first_blocker (\<lambda>profile. dataspaceProfileUsesCell profile cellID)
                     (\<lambda>profile. NewClientError (''cannot delete cell '' @ cellID @ '': dataspace profile '' @ dp_ID profile @
                        '' is deployed to it''))
                     (eo_FindByPredicate (tm_dataspaces t) (Eq ''deployments.cellId'' (VStr cellID)) s) of
                    Some err \<Rightarrow> (Fails err, s)
                  | None \<Rightarrow> of_error (eo_Delete (tm_cells t) cellID s)))))"

definition deref_all :: "(go_error + 'e) list \<Rightarrow> 'e list call_result" where
  "deref_all seq = CollectAllDeref (map (map_sum (\<lambda>err. err) Some) seq)"

definition ListCells :: "('s, cell list) trx \<Rightarrow> 's tm \<Rightarrow> 's \<Rightarrow> cell list call_result \<times> 's" where
  "ListCells execute t = execute (\<lambda>s. (deref_all (eo_GetAll (tm_cells t) s), s))"

section \<open>Dataspace profiles\<close>

definition Dataspace_GetProfile ::
    "('s, dataspace_profile) trx \<Rightarrow> 's tm \<Rightarrow> string \<Rightarrow> 's \<Rightarrow> dataspace_profile call_result \<times> 's" where
  "Dataspace_GetProfile execute t profileID =
     execute (\<lambda>s. of_result (eo_FindByID (tm_dataspaces t) profileID s, s))"

definition Dataspace_CreateProfile ::
    "('s, dataspace_profile) trx \<Rightarrow> 's tm \<Rightarrow> dataspace_profile \<Rightarrow> 's \<Rightarrow> dataspace_profile call_result \<times> 's" where
  "Dataspace_CreateProfile execute t profile =
     execute (\<lambda>s. of_result (eo_Create (tm_dataspaces t) profile s))"

definition Dataspace_DeleteProfile :: "('s, unit) trx \<Rightarrow> 's tm \<Rightarrow> string \<Rightarrow> 's \<Rightarrow> unit call_result \<times> 's" where
  "Dataspace_DeleteProfile execute t profileID =
     execute (\<lambda>s.
       (case eo_FindByIDAndLock (tm_dataspaces t) profileID True s of
          Inl err \<Rightarrow> (Fails err, s)
        | Inr profile \<Rightarrow>
            (case first_blocker (\<lambda>participant. \<not> participantIsDisposed participant)
                (\<lambda>participant. NewClientError (''cannot delete dataspace profile '' @ profileID @
                   '': participant profile '' @ pp_ID participant @ '' uses it''))
                (eo_FindByPredicate (tm_participants t) (Eq ''dataspaceProfileIds'' (VStr profileID)) s) of
               Some err \<Rightarrow> (Fails err, s)
             | None \<Rightarrow> of_error (eo_Delete (tm_dataspaces t) profileID s))))"

definition new_deployment :: "string \<Rightarrow> cell \<Rightarrow> dataspace_deployment" where
  "new_deployment uuid cell = \<lparr>dd_ID = uuid, dd_Version = 0, dd_State = DeploymentStateActive, dd_StateTimestamp = 0,
     dd_CellID = ce_ID cell, dd_ExternalCellID = ce_ExternalID cell, dd_Properties = []\<rparr>"

definition Dataspace_DeployProfile ::
    "('s, unit) trx \<Rightarrow> 's tm \<Rightarrow> string \<Rightarrow> string \<Rightarrow> string \<Rightarrow> 's \<Rightarrow> unit call_result \<times> 's" where
  "Dataspace_DeployProfile execute t uuid profileID cellID =
     execute (\<lambda>s.
       (case eo_FindByID (tm_dataspaces t) profileID s of
          Inl err \<Rightarrow> (Fails err, s)
        | Inr profile \<Rightarrow>
            (case eo_FindByIDAndLock (tm_cells t) cellID False s of
               Inl err \<Rightarrow> (Fails err, s)
             | Inr cell \<Rightarrow>
                 of_error (eo_Update (tm_dataspaces t)
                   (profile\<lparr>dp_Deployments := dp_Deployments profile @ [new_deployment uuid cell]\<rparr>) s))))"

definition Dataspace_ListProfiles ::
    "('s, dataspace_profile list) trx \<Rightarrow> 's tm \<Rightarrow> 's \<Rightarrow> dataspace_profile list call_result \<times> 's" where
  "Dataspace_ListProfiles execute t = execute (\<lambda>s. (deref_all (eo_GetAll (tm_dataspaces t) s), s))"

end
