(* ===== verification/Participant_Service.thy ===== *)
theory Participant_Service
  imports Tenant_Services
begin

text \<open>
  The participant service and the handler of orchestration responses
  (\<open>tmanager/core/service_participant.go\<close>): deploying and disposing participant profiles across a
  transaction and a message to the Provision Manager, and applying the response.
\<close>

section \<open>Reading\<close>

definition GetProfile ::
    "('s, participant_profile) trx \<Rightarrow> 's tm \<Rightarrow> tenant_access option \<Rightarrow> string \<Rightarrow> string \<Rightarrow> 's \<Rightarrow>
     participant_profile call_result \<times> 's" where
  "GetProfile execute t ctx tenantID participantID =
     execute (\<lambda>s.
       (case eo_FindByID (tm_participants t) participantID s of
          Inl err \<Rightarrow> (Fails err, s)
        | Inr profile \<Rightarrow>
            if pp_TenantID profile \<noteq> tenantID then (Fails ErrNotFound, s)
            else (case checkAccess ctx (pp_Owner profile) of
                Some err \<Rightarrow> (Fails err, s) | None \<Rightarrow> (Returns profile, s))))"

definition QueryProfilesCount ::
    "('s, int) trx \<Rightarrow> 's tm \<Rightarrow> tenant_access option \<Rightarrow> predicate \<Rightarrow> 's \<Rightarrow> int call_result \<times> 's" where
  "QueryProfilesCount execute t ctx p s =
     (case TenantAccessFromContext ctx of
        Inl err \<Rightarrow> (Fails err, s)
      | Inr access \<Rightarrow>
          execute (\<lambda>s. of_result (eo_CountByPredicate (tm_participants t) (restricted access p) s, s)) s)"

definition QueryProfiles ::
    "('s, (go_error + participant_profile) list) trx \<Rightarrow> 's tm \<Rightarrow> tenant_access option \<Rightarrow> predicate \<Rightarrow> pagination \<Rightarrow>
     's \<Rightarrow> (go_error + participant_profile) list call_result \<times> 's" where
  "QueryProfiles execute t ctx p opts s =
     (case TenantAccessFromContext ctx of
        Inl err \<Rightarrow> (Returns [Inl err], s)
      | Inr access \<Rightarrow>
          executeStoreIterator execute (eo_FindByPredicatePaginated (tm_participants t) (restricted access p) opts) s)"

section \<open>Deploying\<close>

definition getFilteredProfiles :: "'s tm \<Rightarrow> string list \<Rightarrow> 's \<Rightarrow> dataspace_profile list call_result \<times> 's" where
  "getFilteredProfiles t dataspaceProfileIDs s =
     bind_outcome (deref_all (eo_GetAll (tm_dataspaces t) s), s) (\<lambda>dProfiles s.
       let dProfiles = (if length dataspaceProfileIDs > 0
             then filter (\<lambda>profile. dp_ID profile \<in> set dataspaceProfileIDs) dProfiles else dProfiles)
       in if length dProfiles = 0 then (Fails (ErrorString ''no dataspace profiles found''), s)
          else (Returns dProfiles, s))"

text \<open>
  \<open>lockReferences\<close> reads the cells of the VPAs in the order of a map, without the empty ID, and
  then the dataspace profiles. A read of a store does not change the state.
\<close>

fun lock_all :: "(string \<Rightarrow> go_error + 'e) \<Rightarrow> string \<Rightarrow> string list \<Rightarrow> go_error option" where
  "lock_all find_and_lock what [] = None"
| "lock_all find_and_lock what (k # ks) =
     (case find_and_lock k of
        Inl err \<Rightarrow> Some (if errors_Is err ErrNotFound then NewClientError (what @ '' '' @ k @ '' was deleted'') else err)
      | Inr _ \<Rightarrow> lock_all find_and_lock what ks)"

definition lockReferences :: "'s tm \<Rightarrow> (string list \<Rightarrow> string list) \<Rightarrow> participant_profile \<Rightarrow> 's \<Rightarrow> go_error option" where
  "lockReferences t ord profile s =
     (let cellIDs = ord (remdups (filter (\<lambda>c. c \<noteq> []) (map vpa_CellID (pp_VPAs profile))))
      in case lock_all (\<lambda>k. eo_FindByIDAndLock (tm_cells t) k False s) ''cell'' cellIDs of
           Some err \<Rightarrow> Some err
         | None \<Rightarrow> lock_all (\<lambda>k. eo_FindByIDAndLock (tm_dataspaces t) k False s) ''dataspace profile''
                     (pp_DataspaceProfileIDs profile))"

definition vpa_manifest_of :: "vpa \<Rightarrow> vpa_manifest" where
  "vpa_manifest_of v = \<lparr>vm_ID = vpa_ID v, vm_VPAType = vpa_Type v, vm_CellID = vpa_CellID v,
     vm_ExternalCellID = vpa_ExternalCellID v, vm_Properties = vpa_Properties v\<rparr>"

definition deploy_manifest :: "string \<Rightarrow> participant_profile \<Rightarrow> dataspace_profile list \<Rightarrow> orchestration_manifest" where
  "deploy_manifest uuid profile dProfiles =
     \<lparr>om_ID = uuid, om_CorrelationID = pp_ID profile, om_OrchestrationType = VPADeployType,
      om_Payload = put CredentialData (JArr (map credential_spec_json
          (generateCredentialSpecs (pp_ParticipantRoles profile) dProfiles)))
        (put VPAData (JArr (map (\<lambda>v. vpa_manifest_json (vpa_manifest_of v)) (pp_VPAs profile)))
        (put ParticipantIdentifier (JStr (pp_Identifier profile)) [])),
      om_CompensatedManifestID = []\<rparr>"

text \<open>The callback of the transaction returns the profile and the manifest it leaves in \<open>oManifest\<close>.\<close>

definition deploy_callback ::
    "'s tm \<Rightarrow> (string \<Rightarrow> cell list \<Rightarrow> dataspace_profile list \<Rightarrow> go_error + cell) \<Rightarrow> (string list \<Rightarrow> string list) \<Rightarrow>
     (nat \<Rightarrow> string) \<Rightarrow> int \<Rightarrow> tenant_access option \<Rightarrow> string \<Rightarrow> participant_deployment \<Rightarrow> 's \<Rightarrow>
     (participant_profile \<times> orchestration_manifest) call_result \<times> 's" where
  "deploy_callback t selector ord uuids now ctx tenantID deployment s =
     (case eo_FindByIDAndLock (tm_tenants t) tenantID False s of
        Inl err \<Rightarrow> (Fails err, s)
      | Inr tenant \<Rightarrow>
          (case checkAccess ctx (tn_Owner tenant) of
             Some err \<Rightarrow> (Fails err, s)
           | None \<Rightarrow>
               bind_outcome (deref_all (eo_GetAll (tm_cells t) s), s) (\<lambda>cells s.
               bind_outcome (getFilteredProfiles t (pd_DataspaceProfileIDs deployment) s) (\<lambda>dProfiles s.
                 (case Generate selector uuids now (pd_Identifier deployment) tenantID (pd_ParticipantRoles deployment)
                     (pd_VPAProperties deployment) (pd_Properties deployment) cells dProfiles of
                    Inl err \<Rightarrow> (Fails err, s)
                  | Inr generated \<Rightarrow>
                      (let profile = generated\<lparr>pp_Owner := tn_Owner tenant\<rparr>;
                           oManifest = deploy_manifest (uuids 5) profile dProfiles
                       in case lockReferences t ord profile s of
                            Some err \<Rightarrow> (Fails err, s)
                          | None \<Rightarrow>
                              (case eo_Create (tm_participants t) (setPendingOrchestration oManifest profile) s of
                                 (Inl err, s) \<Rightarrow> (Fails (WrapError (''error creating participant '' @
                                     pd_Identifier deployment @ '': '' @ error_text err) err), s)
                               | (Inr result, s) \<Rightarrow> (Returns (result, oManifest), s))))))))"

definition DeployProfile ::
    "('s, participant_profile \<times> orchestration_manifest) trx \<Rightarrow> ('s, unit) trx \<Rightarrow> 's tm \<Rightarrow>
     (string \<Rightarrow> cell list \<Rightarrow> dataspace_profile list \<Rightarrow> go_error + cell) \<Rightarrow> (string list \<Rightarrow> string list) \<Rightarrow>
     (nat \<Rightarrow> string) \<Rightarrow> int \<Rightarrow> tenant_access option \<Rightarrow> string \<Rightarrow> participant_deployment \<Rightarrow> 's \<Rightarrow>
     participant_profile call_result \<times> 's" where
  "DeployProfile execute execute_delete t selector ord uuids now ctx tenantID deployment s =
     bind_outcome (execute (deploy_callback t selector ord uuids now ctx tenantID deployment) s)
       (\<lambda>(result, oManifest) s.
         (case tm_send t oManifest s of
            (None, s) \<Rightarrow> (Returns result, s)
          | (Some err, s) \<Rightarrow>
              (let sendErr = WrapError (''error deploying participant '' @ pd_Identifier deployment @ '': '' @ error_text err) err
               in case execute_delete (\<lambda>s. of_error (eo_Delete (tm_participants t) (pp_ID result) s)) s of
                    (Returns u, s) \<Rightarrow> (Fails sendErr, s)
                  | (Panics reason, s) \<Rightarrow> (Panics reason, s)
                  | (Fails err, s) \<Rightarrow> (Fails (JoinError [sendErr, WrapError (''error removing participant profile '' @
                        pp_ID result @ '': '' @ error_text err) err]), s))))"

section \<open>Disposing\<close>

definition dispose_manifest :: "string \<Rightarrow> string \<Rightarrow> json \<Rightarrow> participant_profile \<Rightarrow> dataspace_profile list \<Rightarrow> orchestration_manifest" where
  "dispose_manifest uuid participantID stateData profile dProfiles =
     \<lparr>om_ID = uuid, om_CorrelationID = participantID, om_OrchestrationType = VPADisposeType,
      om_Payload = put CredentialData (JArr (map credential_spec_json
          (generateCredentialSpecs (pp_ParticipantRoles profile) dProfiles)))
        (put VPAData (JArr (map (\<lambda>v. vpa_manifest_json (vpa_manifest_of v)) (pp_VPAs profile)))
        (put VPAStateData stateData
        (put ParticipantIdentifier (JStr (pp_Identifier profile)) []))),
      om_CompensatedManifestID = []\<rparr>"

definition set_states :: "string \<Rightarrow> participant_profile \<Rightarrow> participant_profile" where
  "set_states st profile = profile\<lparr>pp_VPAs := map (\<lambda>v. v\<lparr>vpa_State := st\<rparr>) (pp_VPAs profile)\<rparr>"

definition dispose_callback ::
    "'s tm \<Rightarrow> string \<Rightarrow> tenant_access option \<Rightarrow> string \<Rightarrow> string \<Rightarrow> 's \<Rightarrow> orchestration_manifest call_result \<times> 's" where
  "dispose_callback t uuid ctx tenantID participantID s =
     (case eo_FindByID (tm_participants t) participantID s of
        Inl err \<Rightarrow> (Fails err, s)
      | Inr profile \<Rightarrow>
          if pp_TenantID profile \<noteq> tenantID then (Fails ErrNotFound, s)
          else (case checkAccess ctx (pp_Owner profile) of
              Some err \<Rightarrow> (Fails err, s)
            | None \<Rightarrow>
                (let states = map (\<lambda>v. vpa_ID v @ '':'' @ vpa_State v)
                       (filter (\<lambda>v. vpa_State v \<noteq> DeploymentStateActive) (pp_VPAs profile))
                 in if length states > 0 then
                      (Fails (ErrorString (''cannot dispose VPAs '' @ participantID @ '' in states: '' @ join '','' states)), s)
                    else (case Properties_Get (pp_Properties profile) VPAStateData of
                        None \<Rightarrow> (Fails (ErrorString (''profile is not deployed or is missing state data: '' @ participantID)), s)
                      | Some stateData \<Rightarrow>
                          bind_outcome (getFilteredProfiles t (pp_DataspaceProfileIDs profile) s) (\<lambda>dProfiles s.
                            let oManifest = dispose_manifest uuid participantID stateData profile dProfiles
                            in case eo_Update (tm_participants t)
                                 (setPendingOrchestration oManifest (set_states DeploymentStateDisposing profile)) s of
                                 (Some err, s) \<Rightarrow> (Fails (WrapError (''error disposing participant '' @ participantID @
                                     '': '' @ error_text err) err), s)
                               | (None, s) \<Rightarrow> (Returns oManifest, s))))))"

text \<open>The response that \<open>revertDispose\<close> asks \<open>isPendingOrchestration\<close> about.\<close>

definition response_for :: "orchestration_manifest \<Rightarrow> orchestration_response" where
  "response_for manifest = \<lparr>or_ID = [], or_ManifestID = om_ID manifest, or_CorrelationID = [],
     or_OrchestrationType = om_OrchestrationType manifest, or_Success = False, or_ErrorDetail = [],
     or_Properties = [], or_CompensatedManifestID = []\<rparr>"

definition remove_pending :: "participant_profile \<Rightarrow> participant_profile" where
  "remove_pending profile = profile\<lparr>pp_Properties := map_option (del pendingOrchestrationKey) (pp_Properties profile)\<rparr>"

definition revertDispose :: "('s, unit) trx \<Rightarrow> 's tm \<Rightarrow> string \<Rightarrow> orchestration_manifest \<Rightarrow> 's \<Rightarrow> unit call_result \<times> 's" where
  "revertDispose execute t participantID manifest =
     execute (\<lambda>s.
       (case eo_FindByID (tm_participants t) participantID s of
          Inl err \<Rightarrow> (Fails (WrapError (''error reverting dispose of participant '' @ participantID @ '': '' @ error_text err) err), s)
        | Inr profile \<Rightarrow>
            if \<not> isPendingOrchestration profile (response_for manifest) then (Returns (), s)
            else (case eo_Update (tm_participants t) (set_states DeploymentStateActive (remove_pending profile)) s of
                (Some err, s) \<Rightarrow> (Fails (WrapError (''error reverting dispose of participant '' @ participantID @ '': '' @
                    error_text err) err), s)
              | (None, s) \<Rightarrow> (Returns (), s))))"

definition DisposeProfile ::
    "('s, orchestration_manifest) trx \<Rightarrow> ('s, unit) trx \<Rightarrow> 's tm \<Rightarrow> string \<Rightarrow> tenant_access option \<Rightarrow> string \<Rightarrow> string \<Rightarrow>
     's \<Rightarrow> unit call_result \<times> 's" where
  "DisposeProfile execute execute_revert t uuid ctx tenantID participantID s =
     bind_outcome (execute (dispose_callback t uuid ctx tenantID participantID) s) (\<lambda>oManifest s.
       (case tm_send t oManifest s of
          (None, s) \<Rightarrow> (Returns (), s)
        | (Some err, s) \<Rightarrow>
            (let sendErr = WrapError (''error disposing participant '' @ participantID @ '': '' @ error_text err) err
             in case revertDispose execute_revert t participantID oManifest s of
                  (Returns u, s) \<Rightarrow> (Fails sendErr, s)
                | (Fails err, s) \<Rightarrow> (Fails (JoinError [sendErr, err]), s)
                | (Panics reason, s) \<Rightarrow> (Panics reason, s))))"

section \<open>Responses\<close>

text \<open>\<open>profileUpdater\<close> of \<open>handleDeploy\<close>: storing into nil properties panics.\<close>

definition deploy_updater :: "orchestration_response \<Rightarrow> participant_profile \<Rightarrow> participant_profile call_result" where
  "deploy_updater resp profile =
     (case pp_Properties profile of
        None \<Rightarrow> Panics ''assignment to entry in nil map''
      | Some m \<Rightarrow>
          Returns (set_states (if \<not> or_Success resp then DeploymentStateError else DeploymentStateActive)
            (profile\<lparr>pp_Properties := Some (put VPAStateData (JObj (copy_into (or_Properties resp) [])) m)\<rparr>)))"

definition dispose_updater :: "orchestration_response \<Rightarrow> participant_profile \<Rightarrow> participant_profile call_result" where
  "dispose_updater resp profile = Returns (set_states DeploymentStateDisposed profile)"

definition apply_response ::
    "(orchestration_response \<Rightarrow> participant_profile \<Rightarrow> participant_profile call_result) \<Rightarrow>
     orchestration_response \<Rightarrow> participant_profile \<Rightarrow> participant_profile call_result" where
  "apply_response handler response profile =
     (if or_Success response then handler response (remove_pending profile)
      else handler response (profile\<lparr>pp_Error := True, pp_ErrorDetail := or_ErrorDetail response\<rparr>))"

definition handle ::
    "('s, unit) trx \<Rightarrow> 's tm \<Rightarrow> (orchestration_response \<Rightarrow> participant_profile \<Rightarrow> participant_profile call_result) \<Rightarrow>
     orchestration_response \<Rightarrow> 's \<Rightarrow> unit call_result \<times> 's" where
  "handle execute t handler response =
     execute (\<lambda>s.
       (case eo_FindByID (tm_participants t) (or_CorrelationID response) s of
          Inl err \<Rightarrow> (Returns (), s)
        | Inr profile \<Rightarrow>
            if \<not> isPendingOrchestration profile response then (Returns (), s)
            else (case apply_response handler response profile of
                Panics reason \<Rightarrow> (Panics reason, s)
              | Fails err \<Rightarrow> (Fails err, s)
              | Returns updated \<Rightarrow>
                  (case eo_Update (tm_participants t) updated s of
                     (Some err, s) \<Rightarrow> (Fails (WrapError (''error updating participant profile '' @ or_CorrelationID response @
                         '' processing VPA response for manifest '' @ or_ManifestID response @ '': '' @ error_text err) err), s)
                   | (None, s) \<Rightarrow> (Returns (), s)))))"

definition handleDeploy :: "('s, unit) trx \<Rightarrow> 's tm \<Rightarrow> orchestration_response \<Rightarrow> 's \<Rightarrow> unit call_result \<times> 's" where
  "handleDeploy execute t = handle execute t deploy_updater"

definition handleDispose :: "('s, unit) trx \<Rightarrow> 's tm \<Rightarrow> orchestration_response \<Rightarrow> 's \<Rightarrow> unit call_result \<times> 's" where
  "handleDispose execute t = handle execute t dispose_updater"

end
