(* ===== verification/Tenant_Memory.thy ===== *)
theory Tenant_Memory
  imports Participant_Service
begin

text \<open>
  The Tenant Manager with its stores in memory and without transactions
  (\<open>tmanager/memorystore/assembly.go\<close>): a world of four caches and the manifests that were sent,
  and what the store operations do on caches that are well-formed.
\<close>

section \<open>The world\<close>

record tm_world =
  tw_tenants :: "tenant cache"
  tw_participants :: "participant_profile cache"
  tw_cells :: "cell cache"
  tw_dataspaces :: "dataspace_profile cache"
  tw_sent :: "(orchestration_manifest \<times> go_error option) list"

text \<open>\<open>net\<close> is the answer of NATS to a publish, given what was published so far.\<close>

type_synonym net = "(orchestration_manifest \<times> go_error option) list \<Rightarrow> orchestration_manifest \<Rightarrow> go_error option"

definition mem_tm :: "(gval \<Rightarrow> string) \<Rightarrow> (int \<Rightarrow> go_error option) \<Rightarrow> net \<Rightarrow> tm_world tm" where
  "mem_tm fmt_v ctx_done net =
     \<lparr>tm_tenants = memory_entity_ops fmt_v ctx_done tenant_type tw_tenants (\<lambda>c s. s\<lparr>tw_tenants := c\<rparr>),
      tm_participants = memory_entity_ops fmt_v ctx_done participant_type tw_participants (\<lambda>c s. s\<lparr>tw_participants := c\<rparr>),
      tm_cells = memory_entity_ops fmt_v ctx_done cell_type tw_cells (\<lambda>c s. s\<lparr>tw_cells := c\<rparr>),
      tm_dataspaces = memory_entity_ops fmt_v ctx_done dataspace_type tw_dataspaces (\<lambda>c s. s\<lparr>tw_dataspaces := c\<rparr>),
      tm_send = \<lambda>m s. (let r = net (tw_sent s) m in (r, s\<lparr>tw_sent := (m, r) # tw_sent s\<rparr>))\<rparr>"

lemmas mem_tm_simps = mem_tm_def memory_entity_ops_def NoOp_Execute_def

section \<open>Well-formed caches\<close>

text \<open>A cache is keyed by the IDs of its entities, which are not empty, and its entities can be copied.\<close>

definition cache_ok :: "'e entity_type \<Rightarrow> 'e cache \<Rightarrow> bool" where
  "cache_ok T c \<longleftrightarrow> wf_map c \<and> (\<forall>k e. lookup c k = Some e \<longrightarrow> GetID T e = k \<and> k \<noteq> [] \<and> copyEntity T e = Inr e)"

lemma cache_ok_Nil [simp]: "cache_ok T []"
  by (simp add: cache_ok_def)

lemma cache_okD:
  assumes "cache_ok T c" "lookup c k = Some e"
  shows "GetID T e = k" "k \<noteq> []" "copyEntity T e = Inr e"
  using assms by (auto simp: cache_ok_def)

lemma cache_ok_snd: "cache_ok T c \<Longrightarrow> e \<in> snd ` set c \<longleftrightarrow> (\<exists>k. lookup c k = Some e)"
  by (force simp: cache_ok_def wf_map_lookup_iff)

lemma cache_ok_copy: "cache_ok T c \<Longrightarrow> e \<in> snd ` set c \<Longrightarrow> copyEntity T e = Inr e"
  by (auto simp: cache_ok_snd dest: cache_okD)

lemma FindByID_ok:
  "cache_ok T c \<Longrightarrow> FindByID T k c = (case lookup c k of None \<Rightarrow> Inl ErrNotFound | Some e \<Rightarrow> Inr e)"
  by (auto simp: FindByID_def split: option.split dest: cache_okD)

lemma yield_copies_sound: "Inr x \<in> set (yield_copies T es) \<Longrightarrow> \<exists>e\<in>set es. copyEntity T e = Inr x"
  by (induction es) (auto split: sum.splits)

lemma yield_range_sound: "Inr x \<in> set (yield_range T ctx_done i es) \<Longrightarrow> \<exists>e\<in>set es. copyEntity T e = Inr x"
  by (induction es arbitrary: i) (auto split: sum.splits option.splits)

lemma paginate_sound:
  assumes "cache_ok T c" "Inr x \<in> set (paginateEntities fmt_v T ctx_done p opts c)"
  shows "(\<exists>k. lookup c k = Some x) \<and> selected fmt_v T p x"
proof -
  let ?es = "filter (selected fmt_v T p) (map snd c)"
  from assms(2) obtain m n i where "Inr x \<in> set (yield_range T ctx_done i (take m (drop n ?es)))"
    by (auto simp: paginateEntities_def Let_def split: if_splits)
  then obtain e where e: "e \<in> set ?es" "copyEntity T e = Inr x"
    by (auto dest!: yield_range_sound in_set_takeD in_set_dropD)
  then have "e \<in> snd ` set c" "selected fmt_v T p e" by auto
  with cache_ok_copy [OF assms(1)] e(2) cache_ok_snd [OF assms(1)] show ?thesis by auto
qed

lemma GetAll_sound: "cache_ok T c \<Longrightarrow> Inr x \<in> set (GetAll fmt_v T ctx_done c) \<Longrightarrow> \<exists>k. lookup c k = Some x"
  by (auto simp: GetAll_def GetAllPaginated_def dest: paginate_sound)

lemma FindByPredicate_ok:
  assumes "cache_ok T c"
  shows "FindByPredicate fmt_v T p c = map Inr (filter (selected fmt_v T (Some p)) (map snd c))"
proof -
  have "yield_copies T es = map Inr es" if "set es \<subseteq> snd ` set c" for es
    using that cache_ok_copy [OF assms] by (induction es) auto
  then show ?thesis by (simp add: FindByPredicate_def image_subset_iff)
qed

lemma CountByPredicate_pos:
  assumes "cache_ok T c"
  shows "CountByPredicate fmt_v T p c > 0 \<longleftrightarrow> (\<exists>k e. lookup c k = Some e \<and> selected fmt_v T (Some p) e)"
proof -
  have "CountByPredicate fmt_v T p c > 0 \<longleftrightarrow> (\<exists>e \<in> snd ` set c. selected fmt_v T (Some p) e)"
    by (auto simp: CountByPredicate_def filter_empty_conv)
  then show ?thesis using cache_ok_snd [OF assms] by blast
qed

text \<open>The copies of an entity type are exact, and the version is not part of the identity.\<close>

definition exact :: "'e entity_type \<Rightarrow> bool" where
  "exact T \<longleftrightarrow> (\<forall>e x. copyEntity T e = Inr x \<longrightarrow> x = e) \<and> (\<forall>e. GetID T (IncrementVersion T e) = GetID T e)"

lemma copy_states_exact: "copy_states ss e = Inr x \<Longrightarrow> x = e"
  by (auto simp: copy_states_def split: option.splits)

lemma exact_types [simp]: "exact tenant_type" "exact participant_type" "exact dataspace_type" "exact cell_type"
  by (auto simp: exact_def tenant_type_def participant_type_def dataspace_type_def cell_type_def dest: copy_states_exact)

lemma GetID_types [simp]:
  "GetID tenant_type = tn_ID" "GetID participant_type = pp_ID" "GetID dataspace_type = dp_ID" "GetID cell_type = ce_ID"
  by (simp_all add: tenant_type_def participant_type_def dataspace_type_def cell_type_def)

lemma cache_ok_put:
  assumes "cache_ok T c" "GetID T e \<noteq> []" "copyEntity T e = Inr e"
  shows "cache_ok T (put (GetID T e) e c)"
  using assms by (simp add: cache_ok_def lookup_put)

lemma cache_ok_del: "cache_ok T c \<Longrightarrow> cache_ok T (del k c)"
  by (simp add: cache_ok_def lookup_del)

lemma Create_cases:
  assumes "exact T" "cache_ok T c" "Create T e c = (r, c')"
  obtains err where "r = Inl err" "c' = c"
  | "r = Inr e" "GetID T e \<noteq> []" "lookup c (GetID T e) = None" "c' = put (GetID T e) e c" "cache_ok T c'"
proof (cases "GetID T e = [] \<or> has_key c (GetID T e)")
  case True
  with assms(3) have "(\<exists>err. r = Inl err) \<and> c' = c" by (auto simp: Create_def split: if_splits)
  with that(1) show thesis by blast
next
  case False
  then have none: "lookup c (GetID T e) = None" by (simp add: has_key_def)
  show thesis
  proof (cases "copyEntity T e")
    case (Inl err)
    with assms(3) False show thesis by (intro that(1) [of err]) (simp_all add: Create_def)
  next
    case (Inr x)
    with assms(1) have x: "x = e" by (simp add: exact_def)
    with Inr assms(3) False have "r = Inr e" "c' = put (GetID T e) e c" by (simp_all add: Create_def)
    with cache_ok_put [OF assms(2)] Inr x False none show thesis by (intro that(2)) simp_all
  qed
qed

lemma update_cases:
  assumes "exact T" "cache_ok T c" "mem_update T e c = (r, c')"
  obtains err where "r = Some err" "c' = c"
  | old where "r = None" "lookup c (GetID T e) = Some old" "c' = put (GetID T e) (IncrementVersion T e) c" "cache_ok T c'"
proof -
  let ?e = "IncrementVersion T e"
  have same: "GetID T ?e = GetID T e" using assms(1) by (simp add: exact_def)
  show thesis
  proof (cases "GetID T e = [] \<or> \<not> has_key c (GetID T e)")
    case True
    with assms(3) same have "(\<exists>err. r = Some err) \<and> c' = c"
      by (auto simp: mem_update_def Update_def Let_def split: if_splits)
    with that(1) show thesis by blast
  next
    case False
    then obtain old where old: "lookup c (GetID T e) = Some old" by (auto simp: has_key_def)
    show thesis
    proof (cases "copyEntity T ?e")
      case (Inl err)
      with assms(3) same False have "(\<exists>err. r = Some err) \<and> c' = c"
        by (auto simp: mem_update_def Update_def Let_def)
      with that(1) show thesis by blast
    next
      case (Inr x)
      with assms(1) have x: "x = ?e" by (simp add: exact_def)
      with Inr assms(3) False same have "r = None" "c' = put (GetID T e) ?e c"
        by (simp_all add: mem_update_def Update_def Let_def)
      with cache_ok_put [OF assms(2), of ?e] Inr x False old same show thesis by (intro that(2)) simp_all
    qed
  qed
qed

lemma delete_cases:
  assumes "cache_ok T c" "Delete k c = (r, c')"
  obtains err where "r = Some err" "c' = c" | "r = None" "c' = del k c" "cache_ok T c'"
proof (cases "k = [] \<or> \<not> has_key c k")
  case True
  with assms(2) have "(\<exists>err. r = Some err) \<and> c' = c" by (auto simp: Delete_def split: if_splits)
  with that(1) show thesis by blast
next
  case False
  with assms(2) have "r = None" "c' = del k c" by (simp_all add: Delete_def)
  with that(2) cache_ok_del [OF assms(1)] show thesis by blast
qed

lemma deref_all_Inr [simp]: "deref_all (map Inr xs) = Returns xs"
  by (induction xs) (simp_all add: deref_all_def)

lemma deref_all_Returns: "deref_all seq = Returns xs \<Longrightarrow> seq = map Inr xs"
proof (induction seq arbitrary: xs)
  case (Cons r seq)
  obtain e ys where r: "r = Inr e" "deref_all seq = Returns ys" "xs = e # ys"
    using Cons.prems by (cases r) (auto simp: deref_all_def split: call_result.splits)
  with Cons.IH show ?case by simp
qed (simp add: deref_all_def)

lemma first_blocker_None:
  "first_blocker uses refuse (map Inr es) = None \<longleftrightarrow> (\<forall>e\<in>set es. \<not> uses e)"
  by (induction es) auto

end
