(* ===== verification/Tenant_Integrity.thy ===== *)
theory Tenant_Integrity
  imports Tenant_Memory
begin

text \<open>
  The references between the entities of the Tenant Manager: an invariant of every operation of
  its services and of the responses it applies, in memory, and the response that breaks it.
\<close>

section \<open>The invariant\<close>

text \<open>
  \<open>T\<close>, \<open>C\<close> and \<open>D\<close> tell which tenants, cells and dataspace profiles exist. What is not disposed
  has its cell, and a profile that has disposed VPAs waits for no response.
\<close>

definition profile_ok :: "(string \<Rightarrow> bool) \<Rightarrow> (string \<Rightarrow> bool) \<Rightarrow> (string \<Rightarrow> bool) \<Rightarrow> participant_profile \<Rightarrow> bool" where
  "profile_ok T C D p \<longleftrightarrow>
     T (pp_TenantID p) \<and>
     (\<forall>v\<in>set (pp_VPAs p). vpa_State v \<noteq> DeploymentStateDisposed \<longrightarrow> C (vpa_CellID v)) \<and>
     (\<not> participantIsDisposed p \<longrightarrow> (\<forall>d\<in>set (pp_DataspaceProfileIDs p). D d)) \<and>
     ((\<exists>v\<in>set (pp_VPAs p). vpa_State v = DeploymentStateDisposed) \<longrightarrow> pending_of p = None)"

definition dataspace_ok :: "(string \<Rightarrow> bool) \<Rightarrow> dataspace_profile \<Rightarrow> bool" where
  "dataspace_ok C d \<longleftrightarrow> (\<forall>x\<in>set (dp_Deployments d). dd_State x \<noteq> DeploymentStateDisposed \<longrightarrow> C (dd_CellID x))"

definition tm_intact :: "tm_world \<Rightarrow> bool" where
  "tm_intact s \<longleftrightarrow>
     cache_ok tenant_type (tw_tenants s) \<and> cache_ok participant_type (tw_participants s) \<and>
     cache_ok cell_type (tw_cells s) \<and> cache_ok dataspace_type (tw_dataspaces s) \<and>
     (\<forall>k p. lookup (tw_participants s) k = Some p \<longrightarrow>
        profile_ok (has_key (tw_tenants s)) (has_key (tw_cells s)) (has_key (tw_dataspaces s)) p) \<and>
     (\<forall>k d. lookup (tw_dataspaces s) k = Some d \<longrightarrow> dataspace_ok (has_key (tw_cells s)) d)"

lemma profile_ok_mono:
  "profile_ok T C D p \<Longrightarrow> (\<And>k. T k \<Longrightarrow> T' k) \<Longrightarrow> (\<And>k. C k \<Longrightarrow> C' k) \<Longrightarrow> (\<And>k. D k \<Longrightarrow> D' k) \<Longrightarrow> profile_ok T' C' D' p"
  by (auto simp: profile_ok_def)

lemma dataspace_ok_mono: "dataspace_ok C d \<Longrightarrow> (\<And>k. C k \<Longrightarrow> C' k) \<Longrightarrow> dataspace_ok C' d"
  by (auto simp: dataspace_ok_def)

lemma has_key_put_del:
  "has_key (put k v m) j \<longleftrightarrow> j = k \<or> has_key m j" "has_key (del k m) j \<longleftrightarrow> j \<noteq> k \<and> has_key m j"
  by (auto simp: has_key_def lookup_put lookup_del)

lemma lookup_put_Some: "lookup (put k v m) j = Some x \<longleftrightarrow> (if j = k then x = v else lookup m j = Some x)"
  by (auto simp: lookup_put)

lemma lookup_del_Some: "lookup (del k m) j = Some x \<longleftrightarrow> j \<noteq> k \<and> lookup m j = Some x"
  by (auto simp: lookup_del)

lemmas key_simps = has_key_put_del lookup_put_Some lookup_del_Some

lemma intactD:
  assumes "tm_intact s"
  shows "cache_ok tenant_type (tw_tenants s)" "cache_ok participant_type (tw_participants s)"
    "cache_ok cell_type (tw_cells s)" "cache_ok dataspace_type (tw_dataspaces s)"
    "lookup (tw_participants s) k = Some p \<Longrightarrow>
       profile_ok (has_key (tw_tenants s)) (has_key (tw_cells s)) (has_key (tw_dataspaces s)) p"
    "lookup (tw_dataspaces s) k = Some d \<Longrightarrow> dataspace_ok (has_key (tw_cells s)) d"
  using assms by (auto simp: tm_intact_def)

lemma intact_sent [simp]: "tm_intact (s\<lparr>tw_sent := l\<rparr>) = tm_intact s"
  by (simp add: tm_intact_def)

lemma intact_put_tenant:
  "tm_intact s \<Longrightarrow> cache_ok tenant_type (put k e (tw_tenants s)) \<Longrightarrow> tm_intact (s\<lparr>tw_tenants := put k e (tw_tenants s)\<rparr>)"
  by (auto simp: tm_intact_def key_simps intro: profile_ok_mono [of "has_key (tw_tenants s)" "has_key (tw_cells s)"
        "has_key (tw_dataspaces s)"])

lemma intact_put_cell:
  "tm_intact s \<Longrightarrow> cache_ok cell_type (put k e (tw_cells s)) \<Longrightarrow> tm_intact (s\<lparr>tw_cells := put k e (tw_cells s)\<rparr>)"
  by (auto simp: tm_intact_def key_simps intro: profile_ok_mono [of "has_key (tw_tenants s)" "has_key (tw_cells s)"
        "has_key (tw_dataspaces s)"] dataspace_ok_mono [of "has_key (tw_cells s)"])

lemma intact_put_dataspace:
  "tm_intact s \<Longrightarrow> cache_ok dataspace_type (put k e (tw_dataspaces s)) \<Longrightarrow> dataspace_ok (has_key (tw_cells s)) e \<Longrightarrow>
   tm_intact (s\<lparr>tw_dataspaces := put k e (tw_dataspaces s)\<rparr>)"
  by (auto simp: tm_intact_def key_simps intro: profile_ok_mono [of "has_key (tw_tenants s)" "has_key (tw_cells s)"
        "has_key (tw_dataspaces s)"] split: if_splits)

lemma intact_put_participant:
  "tm_intact s \<Longrightarrow> cache_ok participant_type (put k p (tw_participants s)) \<Longrightarrow>
   profile_ok (has_key (tw_tenants s)) (has_key (tw_cells s)) (has_key (tw_dataspaces s)) p \<Longrightarrow>
   tm_intact (s\<lparr>tw_participants := put k p (tw_participants s)\<rparr>)"
  by (auto simp: tm_intact_def key_simps split: if_splits)

lemma intact_del_participant: "tm_intact s \<Longrightarrow> tm_intact (s\<lparr>tw_participants := del k (tw_participants s)\<rparr>)"
  by (auto simp: tm_intact_def key_simps cache_ok_del)

lemma intact_del_tenant:
  assumes "tm_intact s" "\<And>j p. lookup (tw_participants s) j = Some p \<Longrightarrow> pp_TenantID p \<noteq> k"
  shows "tm_intact (s\<lparr>tw_tenants := del k (tw_tenants s)\<rparr>)"
  using assms by (auto simp: tm_intact_def key_simps cache_ok_del profile_ok_def)

lemma intact_del_cell:
  assumes "tm_intact s" "\<And>j p. lookup (tw_participants s) j = Some p \<Longrightarrow> \<not> participantUsesCell p k"
    "\<And>j d. lookup (tw_dataspaces s) j = Some d \<Longrightarrow> \<not> dataspaceProfileUsesCell d k"
  shows "tm_intact (s\<lparr>tw_cells := del k (tw_cells s)\<rparr>)"
  using assms
  by (fastforce simp: tm_intact_def key_simps cache_ok_del profile_ok_def dataspace_ok_def participantUsesCell_def
      dataspaceProfileUsesCell_def list_ex_iff)

lemma intact_del_dataspace:
  assumes "tm_intact s"
    "\<And>j p. lookup (tw_participants s) j = Some p \<Longrightarrow> k \<in> set (pp_DataspaceProfileIDs p) \<Longrightarrow> participantIsDisposed p"
  shows "tm_intact (s\<lparr>tw_dataspaces := del k (tw_dataspaces s)\<rparr>)"
  using assms by (fastforce simp: tm_intact_def key_simps cache_ok_del profile_ok_def)

section \<open>The store operations keep it\<close>

abbreviation pr_ok :: "tm_world \<Rightarrow> participant_profile \<Rightarrow> bool" where
  "pr_ok s \<equiv> profile_ok (has_key (tw_tenants s)) (has_key (tw_cells s)) (has_key (tw_dataspaces s))"

lemma version_irrelevant [simp]:
  "profile_ok T C D (IncrementVersion participant_type p) = profile_ok T C D p"
  "dataspace_ok C (IncrementVersion dataspace_type d) = dataspace_ok C d"
  by (simp_all add: profile_ok_def dataspace_ok_def participant_type_def dataspace_type_def participantIsDisposed_def
      pending_of_def Properties_Get_def)

lemma create_tenant_intact:
  assumes "tm_intact s" "eo_Create (tm_tenants (mem_tm fmt_v cd net)) e s = (r, s')"
  shows "tm_intact s'"
proof -
  obtain c where c: "Create tenant_type e (tw_tenants s) = (r, c)" "s' = s\<lparr>tw_tenants := c\<rparr>"
    using assms(2) by (auto simp: mem_tm_simps split: prod.splits)
  show ?thesis
    by (rule Create_cases [OF exact_types(1) intactD(1) [OF assms(1)] c(1)])
      (use c assms(1) intact_put_tenant in auto)
qed

lemma update_tenant_intact:
  assumes "tm_intact s" "eo_Update (tm_tenants (mem_tm fmt_v cd net)) e s = (r, s')"
  shows "tm_intact s'"
proof -
  obtain c where c: "mem_update tenant_type e (tw_tenants s) = (r, c)" "s' = s\<lparr>tw_tenants := c\<rparr>"
    using assms(2) by (auto simp: mem_tm_simps split: prod.splits)
  show ?thesis
    by (rule update_cases [OF exact_types(1) intactD(1) [OF assms(1)] c(1)])
      (use c assms(1) intact_put_tenant in auto)
qed

lemma create_cell_intact:
  assumes "tm_intact s" "eo_Create (tm_cells (mem_tm fmt_v cd net)) e s = (r, s')"
  shows "tm_intact s'"
proof -
  obtain c where c: "Create cell_type e (tw_cells s) = (r, c)" "s' = s\<lparr>tw_cells := c\<rparr>"
    using assms(2) by (auto simp: mem_tm_simps split: prod.splits)
  show ?thesis
    by (rule Create_cases [OF exact_types(4) intactD(3) [OF assms(1)] c(1)])
      (use c assms(1) intact_put_cell in auto)
qed

lemma create_dataspace_intact:
  assumes "tm_intact s" "dataspace_ok (has_key (tw_cells s)) e"
    "eo_Create (tm_dataspaces (mem_tm fmt_v cd net)) e s = (r, s')"
  shows "tm_intact s'"
proof -
  obtain c where c: "Create dataspace_type e (tw_dataspaces s) = (r, c)" "s' = s\<lparr>tw_dataspaces := c\<rparr>"
    using assms(3) by (auto simp: mem_tm_simps split: prod.splits)
  show ?thesis
    by (rule Create_cases [OF exact_types(3) intactD(4) [OF assms(1)] c(1)])
      (use c assms(1,2) intact_put_dataspace in auto)
qed

lemma update_dataspace_intact:
  assumes "tm_intact s" "dataspace_ok (has_key (tw_cells s)) e"
    "eo_Update (tm_dataspaces (mem_tm fmt_v cd net)) e s = (r, s')"
  shows "tm_intact s'"
proof -
  obtain c where c: "mem_update dataspace_type e (tw_dataspaces s) = (r, c)" "s' = s\<lparr>tw_dataspaces := c\<rparr>"
    using assms(3) by (auto simp: mem_tm_simps split: prod.splits)
  show ?thesis
    by (rule update_cases [OF exact_types(3) intactD(4) [OF assms(1)] c(1)])
      (use c assms(1,2) intact_put_dataspace in auto)
qed

lemma create_participant_intact:
  assumes "tm_intact s" "pr_ok s e" "eo_Create (tm_participants (mem_tm fmt_v cd net)) e s = (r, s')"
  shows "tm_intact s'"
proof -
  obtain c where c: "Create participant_type e (tw_participants s) = (r, c)" "s' = s\<lparr>tw_participants := c\<rparr>"
    using assms(3) by (auto simp: mem_tm_simps split: prod.splits)
  show ?thesis
    by (rule Create_cases [OF exact_types(2) intactD(2) [OF assms(1)] c(1)])
      (use c assms(1,2) intact_put_participant in auto)
qed

lemma update_participant_intact:
  assumes "tm_intact s" "pr_ok s e" "eo_Update (tm_participants (mem_tm fmt_v cd net)) e s = (r, s')"
  shows "tm_intact s'"
proof -
  obtain c where c: "mem_update participant_type e (tw_participants s) = (r, c)" "s' = s\<lparr>tw_participants := c\<rparr>"
    using assms(3) by (auto simp: mem_tm_simps split: prod.splits)
  show ?thesis
    by (rule update_cases [OF exact_types(2) intactD(2) [OF assms(1)] c(1)])
      (use c assms(1,2) intact_put_participant in auto)
qed

lemma delete_participant_intact:
  assumes "tm_intact s" "eo_Delete (tm_participants (mem_tm fmt_v cd net)) k s = (r, s')"
  shows "tm_intact s'"
proof -
  obtain c where c: "Delete k (tw_participants s) = (r, c)" "s' = s\<lparr>tw_participants := c\<rparr>"
    using assms(2) by (auto simp: mem_tm_simps split: prod.splits)
  show ?thesis
    by (rule delete_cases [OF intactD(2) [OF assms(1)] c(1)]) (use c assms(1) intact_del_participant in auto)
qed

lemma find_in_memory:
  assumes "tm_intact s"
  shows "eo_FindByID (tm_tenants (mem_tm fmt_v cd net)) k s = (case lookup (tw_tenants s) k of None \<Rightarrow> Inl ErrNotFound | Some e \<Rightarrow> Inr e)"
    "eo_FindByID (tm_participants (mem_tm fmt_v cd net)) k s = (case lookup (tw_participants s) k of None \<Rightarrow> Inl ErrNotFound | Some p \<Rightarrow> Inr p)"
    "eo_FindByID (tm_dataspaces (mem_tm fmt_v cd net)) k s = (case lookup (tw_dataspaces s) k of None \<Rightarrow> Inl ErrNotFound | Some d \<Rightarrow> Inr d)"
    "eo_FindByIDAndLock (tm_tenants (mem_tm fmt_v cd net)) k x s = (case lookup (tw_tenants s) k of None \<Rightarrow> Inl ErrNotFound | Some e \<Rightarrow> Inr e)"
    "eo_FindByIDAndLock (tm_cells (mem_tm fmt_v cd net)) k x s = (case lookup (tw_cells s) k of None \<Rightarrow> Inl ErrNotFound | Some ce \<Rightarrow> Inr ce)"
    "eo_FindByIDAndLock (tm_dataspaces (mem_tm fmt_v cd net)) k x s = (case lookup (tw_dataspaces s) k of None \<Rightarrow> Inl ErrNotFound | Some d \<Rightarrow> Inr d)"
  using intactD(1-4) [OF assms] by (simp_all add: mem_tm_simps FindByIDAndLock_def FindByID_ok)

section \<open>The services keep it\<close>

lemma of_error_split: "of_error x = (r, s') \<Longrightarrow> \<exists>e. x = (e, s')"
  by (cases x; cases "fst x") auto

lemma of_result_split: "of_result x = (r, s') \<Longrightarrow> \<exists>e. x = (e, s')"
  by (cases x; cases "fst x") auto

lemmas service_splits = sum.splits option.splits prod.splits call_result.splits if_splits

lemma CreateTenant_intact:
  "tm_intact s \<Longrightarrow> CreateTenant NoOp_Execute (mem_tm fmt_v cd net) ctx e s = (r, s') \<Longrightarrow> tm_intact s'"
  by (auto simp: CreateTenant_def NoOp_Execute_def split: service_splits dest!: of_result_split dest: create_tenant_intact)

lemma PatchTenant_intact:
  "tm_intact s \<Longrightarrow> PatchTenant NoOp_Execute (mem_tm fmt_v cd net) ctx tid ps rs s = (r, s') \<Longrightarrow> tm_intact s'"
  by (auto simp: PatchTenant_def NoOp_Execute_def split: service_splits dest: update_tenant_intact)

lemma DeleteTenant_intact:
  assumes "tm_intact s" "DeleteTenant NoOp_Execute (mem_tm fmt_v cd net) ctx tid s = (r, s')"
  shows "tm_intact s'"
proof (rule ccontr)
  assume broken: "\<not> tm_intact s'"
  with assms obtain tn where tn: "lookup (tw_tenants s) tid = Some tn"
    "\<not> CountByPredicate fmt_v participant_type (Eq ''tenantId'' (VStr (tn_ID tn))) (tw_participants s) > 0"
    "of_error (eo_Delete (tm_tenants (mem_tm fmt_v cd net)) (tn_ID tn) s) = (r, s')"
    by (auto simp: DeleteTenant_def NoOp_Execute_def find_in_memory split: service_splits)
      (auto simp: mem_tm_simps)
  have "tn_ID tn = tid" using cache_okD(1) [OF intactD(1) [OF assms(1)] tn(1)] by simp
  with tn(2) have free: "lookup (tw_participants s) j = Some p \<Longrightarrow> pp_TenantID p \<noteq> tid" for j p
    using CountByPredicate_pos [OF intactD(2) [OF assms(1)]] by (auto simp: selected_participant_tenant)
  obtain e c where c: "Delete (tn_ID tn) (tw_tenants s) = (e, c)" "s' = s\<lparr>tw_tenants := c\<rparr>"
    using of_error_split [OF tn(3)] by (auto simp: mem_tm_simps split: prod.splits)
  have "tm_intact s'"
    by (rule delete_cases [OF intactD(1) [OF assms(1)] c(1)])
      (use c assms(1) free \<open>tn_ID tn = tid\<close> intact_del_tenant [OF assms(1), of tid] in auto)
  with broken show False by simp
qed

lemma RecordExternalDeployment_intact:
  "tm_intact s \<Longrightarrow> RecordExternalDeployment NoOp_Execute (mem_tm fmt_v cd net) e s = (r, s') \<Longrightarrow> tm_intact s'"
  by (auto simp: RecordExternalDeployment_def NoOp_Execute_def split: service_splits dest!: of_result_split
      dest: create_cell_intact)

lemma DeleteCell_intact:
  assumes "tm_intact s" "DeleteCell NoOp_Execute (mem_tm fmt_v cd net) k s = (r, s')"
  shows "tm_intact s'"
proof (rule ccontr)
  let ?ps = "filter (selected fmt_v participant_type (Some (Eq ''vpas.cellId'' (VStr k)))) (map snd (tw_participants s))"
  let ?ds = "filter (selected fmt_v dataspace_type (Some (Eq ''deployments.cellId'' (VStr k)))) (map snd (tw_dataspaces s))"
  assume broken: "\<not> tm_intact s'"
  have find: "eo_FindByPredicate (tm_participants (mem_tm fmt_v cd net)) (Eq ''vpas.cellId'' (VStr k)) s = map Inr ?ps"
    "eo_FindByPredicate (tm_dataspaces (mem_tm fmt_v cd net)) (Eq ''deployments.cellId'' (VStr k)) s = map Inr ?ds"
    using FindByPredicate_ok intactD(2,4) [OF assms(1)] by (simp_all add: mem_tm_simps)
  from assms broken have no: "\<forall>p\<in>set ?ps. \<not> participantUsesCell p k" "\<forall>d\<in>set ?ds. \<not> dataspaceProfileUsesCell d k"
    "of_error (eo_Delete (tm_cells (mem_tm fmt_v cd net)) k s) = (r, s')"
    by (auto simp: DeleteCell_def NoOp_Execute_def find first_blocker_None split: service_splits)
  have "\<not> participantUsesCell p k" if "lookup (tw_participants s) j = Some p" for j p
  proof
    assume u: "participantUsesCell p k"
    then have "selected fmt_v participant_type (Some (Eq ''vpas.cellId'' (VStr k))) p"
      by (auto simp: participantUsesCell_def list_ex_iff selected_participant_cell)
    moreover have "p \<in> snd ` set (tw_participants s)" using that cache_ok_snd [OF intactD(2) [OF assms(1)]] by auto
    ultimately show False using no(1) u by auto
  qed
  moreover have "\<not> dataspaceProfileUsesCell d k" if "lookup (tw_dataspaces s) j = Some d" for j d
  proof
    assume u: "dataspaceProfileUsesCell d k"
    then have "selected fmt_v dataspace_type (Some (Eq ''deployments.cellId'' (VStr k))) d"
      by (auto simp: dataspaceProfileUsesCell_def list_ex_iff selected_dataspace_cell)
    moreover have "d \<in> snd ` set (tw_dataspaces s)" using that cache_ok_snd [OF intactD(4) [OF assms(1)]] by auto
    ultimately show False using no(2) u by auto
  qed
  ultimately have del: "tm_intact (s\<lparr>tw_cells := del k (tw_cells s)\<rparr>)" by (rule intact_del_cell [OF assms(1)])
  obtain e c where c: "Delete k (tw_cells s) = (e, c)" "s' = s\<lparr>tw_cells := c\<rparr>"
    using of_error_split [OF no(3)] by (auto simp: mem_tm_simps split: prod.splits)
  have "tm_intact s'"
    by (rule delete_cases [OF intactD(3) [OF assms(1)] c(1)]) (use c assms(1) del in auto)
  with broken show False by simp
qed

lemma Dataspace_CreateProfile_intact:
  "tm_intact s \<Longrightarrow> dp_Deployments e = [] \<Longrightarrow>
   Dataspace_CreateProfile NoOp_Execute (mem_tm fmt_v cd net) e s = (r, s') \<Longrightarrow> tm_intact s'"
  by (auto simp: Dataspace_CreateProfile_def NoOp_Execute_def dest!: of_result_split
      intro: create_dataspace_intact [of s e fmt_v cd net] simp: dataspace_ok_def)

lemma Dataspace_DeleteProfile_intact:
  assumes "tm_intact s" "Dataspace_DeleteProfile NoOp_Execute (mem_tm fmt_v cd net) k s = (r, s')"
  shows "tm_intact s'"
proof (rule ccontr)
  let ?ps = "filter (selected fmt_v participant_type (Some (Eq ''dataspaceProfileIds'' (VStr k)))) (map snd (tw_participants s))"
  assume broken: "\<not> tm_intact s'"
  have find: "eo_FindByPredicate (tm_participants (mem_tm fmt_v cd net)) (Eq ''dataspaceProfileIds'' (VStr k)) s = map Inr ?ps"
    using FindByPredicate_ok intactD(2) [OF assms(1)] by (simp add: mem_tm_simps)
  from assms broken have no: "\<forall>p\<in>set ?ps. participantIsDisposed p"
    "of_error (eo_Delete (tm_dataspaces (mem_tm fmt_v cd net)) k s) = (r, s')"
    by (auto simp: Dataspace_DeleteProfile_def NoOp_Execute_def find first_blocker_None split: service_splits)
  have "participantIsDisposed p" if "lookup (tw_participants s) j = Some p" "k \<in> set (pp_DataspaceProfileIDs p)" for j p
  proof -
    have "p \<in> snd ` set (tw_participants s)" using that(1) cache_ok_snd [OF intactD(2) [OF assms(1)]] by auto
    with no(1) that(2) show ?thesis by (auto simp: selected_participant_dataspace)
  qed
  then have del: "tm_intact (s\<lparr>tw_dataspaces := del k (tw_dataspaces s)\<rparr>)" by (rule intact_del_dataspace [OF assms(1)])
  obtain e c where c: "Delete k (tw_dataspaces s) = (e, c)" "s' = s\<lparr>tw_dataspaces := c\<rparr>"
    using of_error_split [OF no(2)] by (auto simp: mem_tm_simps split: prod.splits)
  have "tm_intact s'"
    by (rule delete_cases [OF intactD(4) [OF assms(1)] c(1)]) (use c assms(1) del in auto)
  with broken show False by simp
qed

lemma Dataspace_DeployProfile_intact:
  assumes "tm_intact s" "Dataspace_DeployProfile NoOp_Execute (mem_tm fmt_v cd net) uuid k cid s = (r, s')"
  shows "tm_intact s'"
proof (cases "lookup (tw_dataspaces s) k = None \<or> lookup (tw_cells s) cid = None")
  case True
  with assms show ?thesis
    by (auto simp: Dataspace_DeployProfile_def NoOp_Execute_def find_in_memory split: service_splits)
next
  case False
  then obtain d ce where d: "lookup (tw_dataspaces s) k = Some d" and ce: "lookup (tw_cells s) cid = Some ce" by auto
  have "ce_ID ce = cid" using cache_okD(1) [OF intactD(3) [OF assms(1)] ce] by simp
  with ce intactD(6) [OF assms(1) d] have ok: "dataspace_ok (has_key (tw_cells s))
      (d\<lparr>dp_Deployments := dp_Deployments d @ [new_deployment uuid ce]\<rparr>)"
    by (auto simp: dataspace_ok_def new_deployment_def has_key_def)
  from assms(2) d ce have "of_error (eo_Update (tm_dataspaces (mem_tm fmt_v cd net))
      (d\<lparr>dp_Deployments := dp_Deployments d @ [new_deployment uuid ce]\<rparr>) s) = (r, s')"
    by (simp add: Dataspace_DeployProfile_def NoOp_Execute_def find_in_memory [OF assms(1)])
  from of_error_split [OF this] obtain e where "eo_Update (tm_dataspaces (mem_tm fmt_v cd net))
      (d\<lparr>dp_Deployments := dp_Deployments d @ [new_deployment uuid ce]\<rparr>) s = (e, s')" by blast
  then show ?thesis by (rule update_dataspace_intact [OF assms(1) ok])
qed

section \<open>Participants keep it\<close>

lemma send_intact: "tm_intact s \<Longrightarrow> tm_send (mem_tm fmt_v cd net) m s = (r, s') \<Longrightarrow> tm_intact s'"
  by (auto simp: mem_tm_simps Let_def)

lemma all_dataspaces_exist:
  assumes "tm_intact s" "getFilteredProfiles (mem_tm fmt_v cd net) ks s = (Returns ds, s')"
  shows "s' = s \<and> (\<forall>d\<in>set ds. has_key (tw_dataspaces s) (dp_ID d))"
proof -
  let ?seq = "eo_GetAll (tm_dataspaces (mem_tm fmt_v cd net)) s"
  obtain all where all: "deref_all ?seq = Returns all" "s' = s" "set ds \<subseteq> set all"
    using assms(2) by (cases "deref_all ?seq") (auto simp: getFilteredProfiles_def Let_def split: if_splits)
  have "has_key (tw_dataspaces s) (dp_ID d)" if "d \<in> set all" for d
  proof -
    have "Inr d \<in> set (GetAll fmt_v dataspace_type cd (tw_dataspaces s))"
      using that deref_all_Returns [OF all(1)] by (simp add: mem_tm_simps)
    then obtain k where "lookup (tw_dataspaces s) k = Some d" using GetAll_sound [OF intactD(4) [OF assms(1)]] by blast
    with cache_okD(1) [OF intactD(4) [OF assms(1)] this] show ?thesis by (simp add: has_key_def)
  qed
  with all show ?thesis by auto
qed

lemma filtered_profiles_state:
  "getFilteredProfiles t ks s = (r, s') \<Longrightarrow> s' = s"
  by (cases "deref_all (eo_GetAll (tm_dataspaces t) s)") (auto simp: getFilteredProfiles_def Let_def split: if_splits)

lemma selected_cell_exists: "defaultCellSelector ty cells ds = Inr ce \<Longrightarrow> ce \<in> set cells"
  by (induction ty cells ds rule: defaultCellSelector.induct) (auto split: if_splits)

lemma generated_vpas:
  "Generate sel uuids now i tid roles vps ps cells ds = Inr p \<Longrightarrow>
   \<exists>ce. sel VPADeployType cells ds = Inr ce \<and> (\<forall>v\<in>set (pp_VPAs p). vpa_CellID v = ce_ID ce \<and> vpa_State v = DeploymentStatePending) \<and>
     pp_TenantID p = tid \<and> pp_DataspaceProfileIDs p = map dp_ID ds \<and> length (pp_VPAs p) = 4 \<and> pp_Properties p = ps \<and>
     pp_ID p = uuids 4"
  by (auto simp: Generate_def generateVPA_def split: sum.splits)

lemma states_distinct [simp]:
  "DeploymentStatePending \<noteq> DeploymentStateDisposed" "DeploymentStateActive \<noteq> DeploymentStateDisposed"
  "DeploymentStateDisposing \<noteq> DeploymentStateDisposed" "DeploymentStateError \<noteq> DeploymentStateDisposed"
  "DeploymentStateDisposed \<noteq> DeploymentStatePending" "DeploymentStateDisposed \<noteq> DeploymentStateActive"
  "DeploymentStateDisposed \<noteq> DeploymentStateDisposing" "DeploymentStateDisposed \<noteq> DeploymentStateError"
  "DeploymentStateActive \<noteq> DeploymentStateError" "DeploymentStateError \<noteq> DeploymentStateActive"
  "DeploymentStateActive \<noteq> DeploymentStatePending" "DeploymentStatePending \<noteq> DeploymentStateActive"
  "DeploymentStateActive \<noteq> DeploymentStateDisposing" "DeploymentStateDisposing \<noteq> DeploymentStateActive"
  by (simp_all add: deployment_states)

lemma generated_ok:
  assumes "tm_intact s" "has_key (tw_tenants s) tid"
    and "deref_all (eo_GetAll (tm_cells (mem_tm fmt_v cd net)) s) = Returns cells"
    and "getFilteredProfiles (mem_tm fmt_v cd net) ks s = (Returns ds, s)"
    and "Generate defaultCellSelector uuids now i tid roles vps ps cells ds = Inr p"
  shows "pr_ok s (setPendingOrchestration m (p\<lparr>pp_Owner := u\<rparr>))"
proof -
  obtain ce where ce: "ce \<in> set cells" and vs: "\<forall>v\<in>set (pp_VPAs p). vpa_CellID v = ce_ID ce \<and> vpa_State v = DeploymentStatePending"
    and p: "pp_TenantID p = tid" "pp_DataspaceProfileIDs p = map dp_ID ds"
    using generated_vpas [OF assms(5)] selected_cell_exists by blast
  have "Inr ce \<in> set (GetAll fmt_v cell_type cd (tw_cells s))"
    using ce deref_all_Returns [OF assms(3)] by (simp add: mem_tm_simps)
  then obtain k where k: "lookup (tw_cells s) k = Some ce" using GetAll_sound [OF intactD(3) [OF assms(1)]] by blast
  with cache_okD(1) [OF intactD(3) [OF assms(1)] k] have "has_key (tw_cells s) (ce_ID ce)" by (simp add: has_key_def)
  with vs p assms(2) all_dataspaces_exist [OF assms(1,4)] show ?thesis
    by (auto simp: profile_ok_def setPendingOrchestration_def)
qed

lemma deploy_callback_intact:
  assumes "tm_intact s" "deploy_callback (mem_tm fmt_v cd net) defaultCellSelector ord uuids now ctx tid d s = (r, s')"
  shows "tm_intact s'"
proof (rule ccontr)
  let ?t = "mem_tm fmt_v cd net"
  assume broken: "\<not> tm_intact s'"
  then have ne: "s' \<noteq> s" using assms(1) by auto
  from assms(2) ne obtain tn cells ds p q where x:
    "lookup (tw_tenants s) tid = Some tn" "deref_all (eo_GetAll (tm_cells ?t) s) = Returns cells"
    "getFilteredProfiles ?t (pd_DataspaceProfileIDs d) s = (Returns ds, s)"
    "Generate defaultCellSelector uuids now (pd_Identifier d) tid (pd_ParticipantRoles d) (pd_VPAProperties d)
       (pd_Properties d) cells ds = Inr p"
    "eo_Create (tm_participants ?t) (setPendingOrchestration (deploy_manifest (uuids 5) (p\<lparr>pp_Owner := tn_Owner tn\<rparr>) ds)
       (p\<lparr>pp_Owner := tn_Owner tn\<rparr>)) s = (q, s')"
    by (auto simp: deploy_callback_def find_in_memory [OF assms(1)] bind_outcome_def Let_def
        dest: filtered_profiles_state split: service_splits)
  have "has_key (tw_tenants s) tid" using x(1) by (simp add: has_key_def)
  from create_participant_intact [OF assms(1) generated_ok [OF assms(1) this x(2-4)] x(5)] broken show False by simp
qed

lemma DeployProfile_intact:
  assumes "tm_intact s" "DeployProfile NoOp_Execute NoOp_Execute (mem_tm fmt_v cd net) defaultCellSelector ord uuids now ctx tid d s = (r, s')"
  shows "tm_intact s'"
proof -
  let ?t = "mem_tm fmt_v cd net"
  obtain q s1 where q: "deploy_callback ?t defaultCellSelector ord uuids now ctx tid d s = (q, s1)" by fastforce
  note i1 = deploy_callback_intact [OF assms(1) q]
  show ?thesis
  proof (cases q)
    case (Returns x)
    obtain p m where x: "x = (p, m)" by (cases x)
    obtain e s2 where e: "tm_send ?t m s1 = (e, s2)" by fastforce
    note i2 = send_intact [OF i1 e]
    obtain y s3 where y: "eo_Delete (tm_participants ?t) (pp_ID p) s2 = (y, s3)" by fastforce
    note i3 = delete_participant_intact [OF i2 y]
    from assms(2) Returns x q e y i2 i3 show ?thesis
      by (cases e; cases y) (auto simp: DeployProfile_def NoOp_Execute_def)
  qed (use assms(2) q i1 in \<open>auto simp: DeployProfile_def NoOp_Execute_def\<close>)
qed

text \<open>A profile whose VPAs are not disposed may change their states, as long as its references stay.\<close>

lemma set_states_ok:
  assumes "profile_ok T C D p" "\<forall>v\<in>set (pp_VPAs p). vpa_State v \<noteq> DeploymentStateDisposed" "st \<noteq> DeploymentStateDisposed"
    "pp_TenantID q = pp_TenantID p" "pp_VPAs q = map (\<lambda>v. v\<lparr>vpa_State := st\<rparr>) (pp_VPAs p)"
    "pp_DataspaceProfileIDs q = pp_DataspaceProfileIDs p"
  shows "profile_ok T C D q"
proof -
  have "\<not> participantIsDisposed p"
    using assms(2) by (cases "pp_VPAs p") (auto simp: participantIsDisposed_def)
  with assms show ?thesis by (auto simp: profile_ok_def)
qed

lemma pending_not_disposed:
  "profile_ok T C D p \<Longrightarrow> isPendingOrchestration p resp \<Longrightarrow> \<forall>v\<in>set (pp_VPAs p). vpa_State v \<noteq> DeploymentStateDisposed"
  by (auto simp: profile_ok_def isPendingOrchestration_def)

lemma dispose_callback_intact:
  assumes "tm_intact s" "dispose_callback (mem_tm fmt_v cd net) uuid ctx tid pid s = (r, s')"
  shows "tm_intact s'"
proof (rule ccontr)
  let ?t = "mem_tm fmt_v cd net"
  assume broken: "\<not> tm_intact s'"
  then have ne: "s' \<noteq> s" using assms(1) by auto
  from assms(2) ne obtain p m q where x: "lookup (tw_participants s) pid = Some p"
    "\<forall>v\<in>set (pp_VPAs p). vpa_State v = DeploymentStateActive"
    "eo_Update (tm_participants ?t) (setPendingOrchestration m (set_states DeploymentStateDisposing p)) s = (q, s')"
    by (auto simp: dispose_callback_def find_in_memory [OF assms(1)] bind_outcome_def Let_def filter_empty_conv
        dest: filtered_profiles_state split: service_splits)
  have "pr_ok s (setPendingOrchestration m (set_states DeploymentStateDisposing p))"
    by (rule set_states_ok [OF intactD(5) [OF assms(1) x(1)], where st = DeploymentStateDisposing])
      (use x(2) in \<open>auto simp: setPendingOrchestration_def set_states_def\<close>)
  from update_participant_intact [OF assms(1) this x(3)] broken show False by simp
qed

lemma revertDispose_intact:
  assumes "tm_intact s" "revertDispose NoOp_Execute (mem_tm fmt_v cd net) pid m s = (r, s')"
  shows "tm_intact s'"
proof (rule ccontr)
  let ?t = "mem_tm fmt_v cd net"
  assume broken: "\<not> tm_intact s'"
  then have ne: "s' \<noteq> s" using assms(1) by auto
  from assms(2) ne obtain p q where x: "lookup (tw_participants s) pid = Some p"
    "isPendingOrchestration p (response_for m)"
    "eo_Update (tm_participants ?t) (set_states DeploymentStateActive (remove_pending p)) s = (q, s')"
    by (auto simp: revertDispose_def NoOp_Execute_def find_in_memory [OF assms(1)] split: service_splits)
  note ok = intactD(5) [OF assms(1) x(1)]
  have "pr_ok s (set_states DeploymentStateActive (remove_pending p))"
    by (rule set_states_ok [OF ok pending_not_disposed [OF ok x(2)], where st = DeploymentStateActive])
      (simp_all add: remove_pending_def set_states_def)
  from update_participant_intact [OF assms(1) this x(3)] broken show False by simp
qed

lemma DisposeProfile_intact:
  assumes "tm_intact s" "DisposeProfile NoOp_Execute NoOp_Execute (mem_tm fmt_v cd net) uuid ctx tid pid s = (r, s')"
  shows "tm_intact s'"
proof -
  let ?t = "mem_tm fmt_v cd net"
  obtain q s1 where q: "dispose_callback ?t uuid ctx tid pid s = (q, s1)" by fastforce
  note i1 = dispose_callback_intact [OF assms(1) q]
  show ?thesis
  proof (cases q)
    case (Returns m)
    obtain e s2 where e: "tm_send ?t m s1 = (e, s2)" by fastforce
    note i2 = send_intact [OF i1 e]
    obtain y s3 where y: "revertDispose NoOp_Execute ?t pid m s2 = (y, s3)" by fastforce
    note i3 = revertDispose_intact [OF i2 y]
    from assms(2) Returns q e y i2 i3 show ?thesis
      by (cases e; cases y) (auto simp: DisposeProfile_def NoOp_Execute_def)
  qed (use assms(2) q i1 in \<open>auto simp: DisposeProfile_def NoOp_Execute_def\<close>)
qed

lemma handle_run:
  assumes "tm_intact s" "handle NoOp_Execute (mem_tm fmt_v cd net) h resp s = (r, s')"
  obtains "s' = s"
  | p q e where "lookup (tw_participants s) (or_CorrelationID resp) = Some p" "isPendingOrchestration p resp"
      "apply_response h resp p = Returns q" "eo_Update (tm_participants (mem_tm fmt_v cd net)) q s = (e, s')"
  using assms by (auto simp: handle_def NoOp_Execute_def find_in_memory split: service_splits)

lemma handleDeploy_intact:
  assumes "tm_intact s" "handleDeploy NoOp_Execute (mem_tm fmt_v cd net) resp s = (r, s')"
  shows "tm_intact s'"
proof (rule handle_run [OF assms(1) assms(2) [unfolded handleDeploy_def]])
  fix p q e assume x: "lookup (tw_participants s) (or_CorrelationID resp) = Some p" "isPendingOrchestration p resp"
    "apply_response deploy_updater resp p = Returns q" "eo_Update (tm_participants (mem_tm fmt_v cd net)) q s = (e, s')"
  note ok = intactD(5) [OF assms(1) x(1)]
  have "pr_ok s q"
    by (rule set_states_ok [OF ok pending_not_disposed [OF ok x(2)],
        where st = "if \<not> or_Success resp then DeploymentStateError else DeploymentStateActive"])
      (use x(3) in \<open>auto simp: apply_response_def deploy_updater_def remove_pending_def set_states_def split: if_splits option.splits\<close>)
  from update_participant_intact [OF assms(1) this x(4)] show ?thesis .
qed (use assms(1) in simp)

text \<open>A successful disposal disposes of every VPA and ends the waiting.\<close>

lemma removed_not_pending: "pending_of (remove_pending p) = None"
  by (auto simp: pending_of_def remove_pending_def Properties_Get_def lookup_del split: option.splits)

lemma handleDispose_intact:
  assumes "tm_intact s" "or_Success resp" "handleDispose NoOp_Execute (mem_tm fmt_v cd net) resp s = (r, s')"
  shows "tm_intact s'"
proof (rule handle_run [OF assms(1) assms(3) [unfolded handleDispose_def]])
  fix p q e assume x: "lookup (tw_participants s) (or_CorrelationID resp) = Some p" "isPendingOrchestration p resp"
    "apply_response dispose_updater resp p = Returns q" "eo_Update (tm_participants (mem_tm fmt_v cd net)) q s = (e, s')"
  from x(3) assms(2) have q: "q = set_states DeploymentStateDisposed (remove_pending p)"
    by (simp add: apply_response_def dispose_updater_def)
  have "pending_of q = None"
    using removed_not_pending [of p] unfolding q by (simp add: pending_of_def set_states_def)
  moreover have "participantIsDisposed q \<or> \<not> participantIsDisposed p"
    unfolding q by (cases "pp_VPAs p") (auto simp: participantIsDisposed_def set_states_def remove_pending_def list_all_iff)
  ultimately have "pr_ok s q"
    using intactD(5) [OF assms(1) x(1)] unfolding q by (auto simp: profile_ok_def set_states_def remove_pending_def)
  from update_participant_intact [OF assms(1) this x(4)] show ?thesis .
qed (use assms(1) in simp)

section \<open>Every reachable state\<close>

text \<open>
  The calls of the Tenant Manager, with any arguments, any answer of NATS and any response. New
  dataspace profiles have no deployments, as the API creates them. Disposals succeed.
\<close>

inductive tm_step :: "(gval \<Rightarrow> string) \<Rightarrow> (int \<Rightarrow> go_error option) \<Rightarrow> tm_world \<Rightarrow> tm_world \<Rightarrow> bool"
  for fmt_v cd where
  create_tenant: "tm_step fmt_v cd s (snd (CreateTenant NoOp_Execute (mem_tm fmt_v cd net) ctx tn s))"
| patch_tenant: "tm_step fmt_v cd s (snd (PatchTenant NoOp_Execute (mem_tm fmt_v cd net) ctx tid ps rs s))"
| delete_tenant: "tm_step fmt_v cd s (snd (DeleteTenant NoOp_Execute (mem_tm fmt_v cd net) ctx tid s))"
| record_cell: "tm_step fmt_v cd s (snd (RecordExternalDeployment NoOp_Execute (mem_tm fmt_v cd net) ce s))"
| delete_cell: "tm_step fmt_v cd s (snd (DeleteCell NoOp_Execute (mem_tm fmt_v cd net) cid s))"
| create_dataspace: "dp_Deployments d = [] \<Longrightarrow>
    tm_step fmt_v cd s (snd (Dataspace_CreateProfile NoOp_Execute (mem_tm fmt_v cd net) d s))"
| delete_dataspace: "tm_step fmt_v cd s (snd (Dataspace_DeleteProfile NoOp_Execute (mem_tm fmt_v cd net) did s))"
| deploy_dataspace: "tm_step fmt_v cd s (snd (Dataspace_DeployProfile NoOp_Execute (mem_tm fmt_v cd net) uuid did cid s))"
| deploy_profile: "tm_step fmt_v cd s (snd (DeployProfile NoOp_Execute NoOp_Execute (mem_tm fmt_v cd net) defaultCellSelector
    ord uuids now ctx tid pd s))"
| dispose_profile: "tm_step fmt_v cd s (snd (DisposeProfile NoOp_Execute NoOp_Execute (mem_tm fmt_v cd net) uuid ctx tid pid s))"
| deploy_response: "tm_step fmt_v cd s (snd (handleDeploy NoOp_Execute (mem_tm fmt_v cd net) resp s))"
| dispose_response: "or_Success resp \<Longrightarrow>
    tm_step fmt_v cd s (snd (handleDispose NoOp_Execute (mem_tm fmt_v cd net) resp s))"

inductive_cases tm_stepE: "tm_step fmt_v cd s s'"

lemma tm_step_intact:
  assumes "tm_step fmt_v cd s s'" "tm_intact s"
  shows "tm_intact s'"
  using assms(1)
proof (cases rule: tm_step.cases)
  case (create_tenant net ctx tn)
  with CreateTenant_intact [OF assms(2)] show ?thesis by (metis prod.collapse)
next
  case (patch_tenant net ctx tid ps rs)
  with PatchTenant_intact [OF assms(2)] show ?thesis by (metis prod.collapse)
next
  case (delete_tenant net ctx tid)
  with DeleteTenant_intact [OF assms(2)] show ?thesis by (metis prod.collapse)
next
  case (record_cell net ce)
  with RecordExternalDeployment_intact [OF assms(2)] show ?thesis by (metis prod.collapse)
next
  case (delete_cell net cid)
  with DeleteCell_intact [OF assms(2)] show ?thesis by (metis prod.collapse)
next
  case (create_dataspace d net)
  with Dataspace_CreateProfile_intact [OF assms(2)] show ?thesis by (metis prod.collapse)
next
  case (delete_dataspace net did)
  with Dataspace_DeleteProfile_intact [OF assms(2)] show ?thesis by (metis prod.collapse)
next
  case (deploy_dataspace net uuid did cid)
  with Dataspace_DeployProfile_intact [OF assms(2)] show ?thesis by (metis prod.collapse)
next
  case (deploy_profile net ord uuids now ctx tid pd)
  with DeployProfile_intact [OF assms(2)] show ?thesis by (metis prod.collapse)
next
  case (dispose_profile net uuid ctx tid pid)
  with DisposeProfile_intact [OF assms(2)] show ?thesis by (metis prod.collapse)
next
  case (deploy_response net resp)
  with handleDeploy_intact [OF assms(2)] show ?thesis by (metis prod.collapse)
next
  case (dispose_response resp net)
  with handleDispose_intact [OF assms(2)] show ?thesis by (metis prod.collapse)
qed

definition empty_world :: tm_world where
  "empty_world = \<lparr>tw_tenants = [], tw_participants = [], tw_cells = [], tw_dataspaces = [], tw_sent = []\<rparr>"

lemma reachable_intact: "(tm_step fmt_v cd)\<^sup>*\<^sup>* empty_world s \<Longrightarrow> tm_intact s"
proof (induction rule: rtranclp_induct)
  case base
  show ?case by (simp add: tm_intact_def empty_world_def)
qed (auto intro: tm_step_intact)


definition sample_cell :: cell where
  "sample_cell = \<lparr>ce_ID = ''c1'', ce_Version = 0, ce_State = DeploymentStateActive, ce_StateTimestamp = 0,
     ce_ExternalID = [], ce_Properties = Some []\<rparr>"

definition cell_world :: tm_world where
  "cell_world = snd (RecordExternalDeployment NoOp_Execute (mem_tm (\<lambda>v. []) (\<lambda>i. None) (\<lambda>w m. None)) sample_cell empty_world)"


section \<open>A failed disposal\<close>

text \<open>
  A profile whose deployment failed waits for its compensation. When that fails too, its VPAs are
  marked as disposed all the same.
\<close>

definition failed_profile :: participant_profile where
  "failed_profile = \<lparr>pp_ID = ''p1'', pp_Version = 0, pp_Identifier = ''did:web:p1'', pp_TenantID = ''t1'', pp_Owner = [],
     pp_DataspaceProfileIDs = [], pp_ParticipantRoles = [],
     pp_VPAs = [\<lparr>vpa_ID = ''v1'', vpa_Version = 0, vpa_State = DeploymentStateError, vpa_StateTimestamp = 0,
       vpa_Type = ConnectorType, vpa_CellID = ''c1'', vpa_ExternalCellID = [], vpa_Properties = []\<rparr>],
     pp_Properties = Some [(pendingOrchestrationKey, JObj [(''manifestId'', JStr ''m1''),
       (''orchestrationType'', JStr VPADeployType)])], pp_Error = True, pp_ErrorDetail = ''failed''\<rparr>"

definition failed_world :: tm_world where
  "failed_world = \<lparr>tw_tenants = [(''t1'', \<lparr>tn_ID = ''t1'', tn_Version = 0, tn_Owner = [], tn_Properties = Some []\<rparr>)],
     tw_participants = [(''p1'', failed_profile)], tw_cells = [(''c1'', sample_cell)], tw_dataspaces = [], tw_sent = []\<rparr>"

definition failed_compensation :: orchestration_response where
  "failed_compensation = \<lparr>or_ID = ''r'', or_ManifestID = ''m1-compensation'', or_CorrelationID = ''p1'',
     or_OrchestrationType = VPADisposeType, or_Success = False, or_ErrorDetail = ''dispose failed'', or_Properties = [],
     or_CompensatedManifestID = ''m1''\<rparr>"

definition late_deployment :: orchestration_response where
  "late_deployment = \<lparr>or_ID = ''r'', or_ManifestID = ''m1'', or_CorrelationID = ''p1'',
     or_OrchestrationType = VPADeployType, or_Success = False, or_ErrorDetail = ''failed'', or_Properties = [],
     or_CompensatedManifestID = []\<rparr>"

lemma failed_world_intact: "tm_intact failed_world"
  by (auto simp: tm_intact_def failed_world_def cache_ok_def wf_map_def failed_profile_def sample_cell_def tenant_type_def
      participant_type_def cell_type_def copy_states_def IsValid_def profile_ok_def has_key_def participantIsDisposed_def)

text \<open>
  The response of a failed disposal marks the VPAs as disposed, although their resources may be left.
  So the cell can be deleted, and as the profile still waits, a repeated response of the deployment
  leaves it with VPAs in a cell that does not exist.
\<close>

theorem failed_disposal_dangles:
  "let t = mem_tm (\<lambda>v. []) (\<lambda>i. None) (\<lambda>w m. None);
       s1 = snd (handleDispose NoOp_Execute t failed_compensation failed_world);
       s2 = snd (DeleteCell NoOp_Execute t ''c1'' s1);
       s3 = snd (handleDeploy NoOp_Execute t late_deployment s2)
   in tm_intact failed_world \<and> tw_cells s2 = [] \<and>
      \<not> (\<forall>k p. lookup (tw_participants s3) k = Some p \<longrightarrow>
           profile_ok (has_key (tw_tenants s3)) (has_key (tw_cells s3)) (has_key (tw_dataspaces s3)) p)"
proof -
  define t where "t = mem_tm (\<lambda>v. []) (\<lambda>i. None) (\<lambda>w m. None)"
  define s2 where "s2 = snd (DeleteCell NoOp_Execute t ''c1'' (snd (handleDispose NoOp_Execute t failed_compensation failed_world)))"
  define s3 where "s3 = snd (handleDeploy NoOp_Execute t late_deployment s2)"
  have run: "tw_cells s2 = [] \<and> tw_cells s3 = [] \<and> (case lookup (tw_participants s3) ''p1'' of None \<Rightarrow> False
     | Some p \<Rightarrow> list_ex (\<lambda>v. vpa_State v \<noteq> DeploymentStateDisposed) (pp_VPAs p))"
    unfolding s3_def s2_def t_def by code_simp
  note failed_world_intact
  moreover from run obtain p v where p: "lookup (tw_participants s3) ''p1'' = Some p" and v: "v \<in> set (pp_VPAs p)"
    "vpa_State v \<noteq> DeploymentStateDisposed"
    by (auto simp: list_ex_iff split: option.splits)
  moreover have "\<not> profile_ok (has_key (tw_tenants s3)) (has_key (tw_cells s3)) (has_key (tw_dataspaces s3)) p"
    using run v by (auto simp: profile_ok_def has_key_def)
  ultimately show ?thesis using run unfolding Let_def t_def [symmetric] s2_def [symmetric] s3_def [symmetric] by blast
qed

end
