(* ===== verification/Definition_Store.thy ===== *)
theory Definition_Store
  imports Store Orchestration_Types
begin

text \<open>
  The definitions of orchestrations and activities: the store interface
  (\<open>pmanager/api/store.go\<close>), the in-memory store (\<open>pmanager/memorystore/store.go\<close>) and the
  contract that the definition manager relies on.

  A value of the Go interface is a record of operations on a state \<open>'s\<close>. The locks of the
  in-memory store serialize its operations; the copies it makes protect the stored structs.
\<close>

section \<open>Definitions as queries see them\<close>

definition activity_value :: "activity \<Rightarrow> gval" where
  "activity_value a = VStruct [(''ID'', VStr (a_ID a)), (''Type'', VStr (a_Type a)),
     (''Discriminator'', VStr (a_Discriminator a)), (''DependsOn'', VSlice (map VStr (a_DependsOn a)))]"

definition definition_value :: "orchestration_definition \<Rightarrow> gval" where
  "definition_value d = VPtr (Some (VStruct [(''Type'', VStr (od_Type d)), (''TemplateRef'', VStr (od_TemplateRef d)),
     (''Version'', VInt (od_Version d)), (''Description'', VStr (od_Description d)), (''Active'', VBool (od_Active d)),
     (''Schema'', VMap (map (\<lambda>(k, j). (k, VIface (json_gval j))) (od_Schema d))),
     (''Activities'', VSlice (map activity_value (od_Activities d)))]))"

section \<open>The in-memory store\<close>

record definition_store =
  orchestrationDefinitions :: "(string, orchestration_definition) gomap"
  activityDefinitions :: "(string, activity_definition) gomap"

definition NewDefinitionStore :: definition_store where
  "NewDefinitionStore = \<lparr>orchestrationDefinitions = [], activityDefinitions = []\<rparr>"

definition FindOrchestrationDefinition :: "string \<Rightarrow> definition_store \<Rightarrow> go_error + orchestration_definition" where
  "FindOrchestrationDefinition orchestrationType d =
     (case lookup (orchestrationDefinitions d) orchestrationType of None \<Rightarrow> Inl ErrNotFound | Some def \<Rightarrow> Inr def)"

text \<open>\<open>findDefinitionsByPredicate\<close>, for the orchestration definitions.\<close>

definition FindOrchestrationDefinitionsByPredicate ::
    "(gval \<Rightarrow> string) \<Rightarrow> predicate \<Rightarrow> definition_store \<Rightarrow> (go_error + orchestration_definition) list" where
  "FindOrchestrationDefinitionsByPredicate fmt_v p d =
     map Inr (filter (\<lambda>def. Matches (DefaultFieldMatcher fmt_v) (definition_value def) p) (map snd (orchestrationDefinitions d)))"

definition ExistsOrchestrationDefinition :: "string \<Rightarrow> definition_store \<Rightarrow> bool" where
  "ExistsOrchestrationDefinition orchestrationType d = has_key (orchestrationDefinitions d) orchestrationType"

definition FindActivityDefinition :: "string \<Rightarrow> definition_store \<Rightarrow> go_error + activity_definition" where
  "FindActivityDefinition activityType d =
     (case lookup (activityDefinitions d) activityType of None \<Rightarrow> Inl ErrNotFound | Some def \<Rightarrow> Inr def)"

definition ExistsActivityDefinition :: "string \<Rightarrow> definition_store \<Rightarrow> bool" where
  "ExistsActivityDefinition activityType d = has_key (activityDefinitions d) activityType"

definition StoreOrchestrationDefinition ::
    "orchestration_definition \<Rightarrow> definition_store \<Rightarrow> (go_error + orchestration_definition) \<times> definition_store" where
  "StoreOrchestrationDefinition def d =
     (if has_key (orchestrationDefinitions d) (od_Type def) then (Inl ErrConflict, d)
      else (Inr def, d\<lparr>orchestrationDefinitions := put (od_Type def) def (orchestrationDefinitions d)\<rparr>))"

definition StoreActivityDefinition ::
    "activity_definition \<Rightarrow> definition_store \<Rightarrow> (go_error + activity_definition) \<times> definition_store" where
  "StoreActivityDefinition def d =
     (if has_key (activityDefinitions d) (ad_Type def) then (Inl ErrConflict, d)
      else (Inr def, d\<lparr>activityDefinitions := put (ad_Type def) def (activityDefinitions d)\<rparr>))"

definition DeleteOrchestrationDefinition :: "string \<Rightarrow> definition_store \<Rightarrow> bool \<times> definition_store" where
  "DeleteOrchestrationDefinition orchestrationType d =
     (if has_key (orchestrationDefinitions d) orchestrationType
      then (True, d\<lparr>orchestrationDefinitions := del orchestrationType (orchestrationDefinitions d)\<rparr>)
      else (False, d))"

definition ActivityDefinitionReferences :: "string \<Rightarrow> definition_store \<Rightarrow> string list" where
  "ActivityDefinitionReferences activityType d =
     map od_Type (filter (\<lambda>def. list_ex (\<lambda>a. a_Type a = activityType) (od_Activities def))
       (map snd (orchestrationDefinitions d)))"

definition DeleteActivityDefinition :: "string \<Rightarrow> definition_store \<Rightarrow> bool \<times> definition_store" where
  "DeleteActivityDefinition activityType d =
     (if has_key (activityDefinitions d) activityType
      then (True, d\<lparr>activityDefinitions := del activityType (activityDefinitions d)\<rparr>)
      else (False, d))"

definition ListOrchestrationDefinitions :: "definition_store \<Rightarrow> orchestration_definition list" where
  "ListOrchestrationDefinitions d = map snd (orchestrationDefinitions d)"

definition ListActivityDefinitions :: "definition_store \<Rightarrow> activity_definition list" where
  "ListActivityDefinitions d = map snd (activityDefinitions d)"

section \<open>The interface\<close>

record 's definition_store_ops =
  dso_FindOrchestrationDefinition :: "string \<Rightarrow> 's \<Rightarrow> go_error + orchestration_definition"
  dso_FindOrchestrationDefinitionsByPredicate :: "predicate \<Rightarrow> 's \<Rightarrow> (go_error + orchestration_definition) list"
  dso_FindActivityDefinition :: "string \<Rightarrow> 's \<Rightarrow> go_error + activity_definition"
  dso_ExistsActivityDefinition :: "string \<Rightarrow> 's \<Rightarrow> go_error + bool"
  dso_StoreOrchestrationDefinition :: "orchestration_definition \<Rightarrow> 's \<Rightarrow> (go_error + orchestration_definition) \<times> 's"
  dso_StoreActivityDefinition :: "activity_definition \<Rightarrow> 's \<Rightarrow> (go_error + activity_definition) \<times> 's"
  dso_DeleteOrchestrationDefinition :: "string \<Rightarrow> 's \<Rightarrow> (go_error + bool) \<times> 's"
  dso_ActivityDefinitionReferences :: "string \<Rightarrow> 's \<Rightarrow> go_error + string list"
  dso_DeleteActivityDefinition :: "string \<Rightarrow> 's \<Rightarrow> (go_error + bool) \<times> 's"
  dso_ListOrchestrationDefinitions :: "'s \<Rightarrow> go_error + orchestration_definition list"
  dso_ListActivityDefinitions :: "'s \<Rightarrow> go_error + activity_definition list"

text \<open>The in-memory store as a value of the interface, over any state that holds one.\<close>

definition memory_definition_store ::
    "(gval \<Rightarrow> string) \<Rightarrow> ('s \<Rightarrow> definition_store) \<Rightarrow> (definition_store \<Rightarrow> 's \<Rightarrow> 's) \<Rightarrow> 's definition_store_ops" where
  "memory_definition_store fmt_v get_d set_d =
     \<lparr>dso_FindOrchestrationDefinition = \<lambda>t s. FindOrchestrationDefinition t (get_d s),
      dso_FindOrchestrationDefinitionsByPredicate = \<lambda>p s. FindOrchestrationDefinitionsByPredicate fmt_v p (get_d s),
      dso_FindActivityDefinition = \<lambda>t s. FindActivityDefinition t (get_d s),
      dso_ExistsActivityDefinition = \<lambda>t s. Inr (ExistsActivityDefinition t (get_d s)),
      dso_StoreOrchestrationDefinition = \<lambda>def s.
        (let (r, d) = StoreOrchestrationDefinition def (get_d s) in (r, set_d d s)),
      dso_StoreActivityDefinition = \<lambda>def s.
        (let (r, d) = StoreActivityDefinition def (get_d s) in (r, set_d d s)),
      dso_DeleteOrchestrationDefinition = \<lambda>t s.
        (let (r, d) = DeleteOrchestrationDefinition t (get_d s) in (Inr r, set_d d s)),
      dso_ActivityDefinitionReferences = \<lambda>t s. Inr (ActivityDefinitionReferences t (get_d s)),
      dso_DeleteActivityDefinition = \<lambda>t s.
        (let (r, d) = DeleteActivityDefinition t (get_d s) in (Inr r, set_d d s)),
      dso_ListOrchestrationDefinitions = \<lambda>s. Inr (ListOrchestrationDefinitions (get_d s)),
      dso_ListActivityDefinitions = \<lambda>s. Inr (ListActivityDefinitions (get_d s))\<rparr>"

section \<open>The contract\<close>

text \<open>
  \<open>orchs\<close> and \<open>acts\<close> are the definitions that a state holds, by type; \<open>store_ok\<close> is the invariant
  of the store. A store may fail, but then it leaves the definitions as they are, and it never
  reports a reference count that is too small.
\<close>

locale definition_store_laws =
  fixes ops :: "'s definition_store_ops"
    and orchs :: "'s \<Rightarrow> string \<Rightarrow> orchestration_definition option"
    and acts :: "'s \<Rightarrow> string \<Rightarrow> activity_definition option"
    and store_ok :: "'s \<Rightarrow> bool"
  assumes find_activity: "dso_FindActivityDefinition ops t s = Inr def \<Longrightarrow> acts s t = Some def"
    and store_orchestration: "store_ok s \<Longrightarrow> dso_StoreOrchestrationDefinition ops odef s = (r, s') \<Longrightarrow>
      store_ok s' \<and> acts s' = acts s \<and>
      orchs s' = (case r of Inl err \<Rightarrow> orchs s | Inr stored \<Rightarrow> (orchs s)(od_Type odef \<mapsto> odef))"
    and store_activity: "store_ok s \<Longrightarrow> dso_StoreActivityDefinition ops adef s = (ra, s') \<Longrightarrow>
      store_ok s' \<and> orchs s' = orchs s \<and>
      acts s' = (case ra of Inl err \<Rightarrow> acts s | Inr stored \<Rightarrow> (acts s)(ad_Type adef \<mapsto> adef))"
    and delete_orchestration: "store_ok s \<Longrightarrow> dso_DeleteOrchestrationDefinition ops t s = (rd, s') \<Longrightarrow>
      store_ok s' \<and> acts s' = acts s \<and> (orchs s' = orchs s \<or> orchs s' = (orchs s)(t := None))"
    and delete_activity: "store_ok s \<Longrightarrow> dso_DeleteActivityDefinition ops t s = (rd, s') \<Longrightarrow>
      store_ok s' \<and> orchs s' = orchs s \<and> (acts s' = acts s \<or> acts s' = (acts s)(t := None))"
    and references: "store_ok s \<Longrightarrow> dso_ActivityDefinitionReferences ops t s = Inr refs \<Longrightarrow>
      orchs s k = Some odef \<Longrightarrow> t \<in> a_Type ` set (od_Activities odef) \<Longrightarrow> refs \<noteq> []"

text \<open>Every activity of a stored orchestration definition has a definition.\<close>

definition no_dangling :: "(string \<Rightarrow> orchestration_definition option) \<Rightarrow> (string \<Rightarrow> activity_definition option) \<Rightarrow> bool" where
  "no_dangling os as \<longleftrightarrow> (\<forall>k def a. os k = Some def \<longrightarrow> a \<in> set (od_Activities def) \<longrightarrow> as (a_Type a) \<noteq> None)"

context definition_store_laws
begin

definition intact :: "'s \<Rightarrow> bool" where
  "intact s \<longleftrightarrow> store_ok s \<and> no_dangling (orchs s) (acts s)"

lemma intact_store_orchestration:
  assumes "intact s" "dso_StoreOrchestrationDefinition ops def s = (r, s')"
    and "\<And>a. a \<in> set (od_Activities def) \<Longrightarrow> acts s (a_Type a) \<noteq> None"
  shows "intact s'"
  using assms store_orchestration [of s def r s']
  by (auto simp: intact_def no_dangling_def split: sum.splits if_splits)

lemma intact_store_activity:
  "intact s \<Longrightarrow> dso_StoreActivityDefinition ops def s = (r, s') \<Longrightarrow> intact s'"
  using store_activity [of s def r s']
  by (auto simp: intact_def no_dangling_def split: sum.splits if_splits)

lemma intact_delete_orchestration:
  "intact s \<Longrightarrow> dso_DeleteOrchestrationDefinition ops t s = (r, s') \<Longrightarrow> intact s'"
  using delete_orchestration [of s t r s']
  by (auto simp: intact_def no_dangling_def split: if_splits)

lemma intact_delete_activity:
  assumes "intact s" "dso_ActivityDefinitionReferences ops t s = Inr []"
    and "dso_DeleteActivityDefinition ops t s = (r, s')"
  shows "intact s'"
proof -
  have s: "store_ok s" "no_dangling (orchs s) (acts s)" using assms(1) by (simp_all add: intact_def)
  have unused: "t \<notin> a_Type ` set (od_Activities def)" if "orchs s k = Some def" for k def
    using references [OF s(1) assms(2) that] by blast
  have s': "store_ok s'" "orchs s' = orchs s" "acts s' = acts s \<or> acts s' = (acts s)(t := None)"
    using delete_activity [OF s(1) assms(3)] by simp_all
  have "acts s' (a_Type a) \<noteq> None" if "orchs s k = Some def" "a \<in> set (od_Activities def)" for k def a
    using s(2) that unused [OF that(1)] s'(3) by (auto simp: no_dangling_def)
  with s' show ?thesis by (simp add: intact_def no_dangling_def)
qed

end

definition definition_store_ok :: "definition_store \<Rightarrow> bool" where
  "definition_store_ok d \<longleftrightarrow> wf_map (orchestrationDefinitions d) \<and> wf_map (activityDefinitions d)"

text \<open>The in-memory store keeps the contract wherever a state holds one.\<close>

lemma memory_definition_store_laws:
  assumes get_set: "\<And>d s. get_d (set_d d s) = d"
  shows "definition_store_laws (memory_definition_store fmt_v get_d set_d)
    (\<lambda>s. lookup (orchestrationDefinitions (get_d s))) (\<lambda>s. lookup (activityDefinitions (get_d s)))
    (\<lambda>s. definition_store_ok (get_d s))"
proof
  fix t s refs k and odef :: orchestration_definition
  assume r: "dso_ActivityDefinitionReferences (memory_definition_store fmt_v get_d set_d) t s = Inr refs"
    and l: "lookup (orchestrationDefinitions (get_d s)) k = Some odef" and t: "t \<in> a_Type ` set (od_Activities odef)"
  have "(k, odef) \<in> set (orchestrationDefinitions (get_d s))" using l by (rule map_of_SomeD)
  then have "odef \<in> set (map snd (orchestrationDefinitions (get_d s)))" by force
  moreover have "list_ex (\<lambda>a. a_Type a = t) (od_Activities odef)" using t by (auto simp: list_ex_iff)
  ultimately have "odef \<in> set (filter (\<lambda>def. list_ex (\<lambda>a. a_Type a = t) (od_Activities def))
      (map snd (orchestrationDefinitions (get_d s))))"
    by (simp only: set_filter mem_Collect_eq simp_thms)
  moreover have "refs = map od_Type (filter (\<lambda>def. list_ex (\<lambda>a. a_Type a = t) (od_Activities def))
      (map snd (orchestrationDefinitions (get_d s))))"
    using r by (simp add: memory_definition_store_def ActivityDefinitionReferences_def)
  ultimately show "refs \<noteq> []" by (metis map_is_Nil_conv list.set(1) empty_iff)
qed (auto simp: memory_definition_store_def get_set FindActivityDefinition_def StoreOrchestrationDefinition_def
    StoreActivityDefinition_def DeleteOrchestrationDefinition_def DeleteActivityDefinition_def definition_store_ok_def
    lookup_put lookup_del split: option.splits if_splits)

interpretation mem_defs: definition_store_laws "memory_definition_store fmt_v (\<lambda>s. s) (\<lambda>d s. d)"
    "\<lambda>d. lookup (orchestrationDefinitions d)" "\<lambda>d. lookup (activityDefinitions d)" definition_store_ok
  by (rule memory_definition_store_laws) simp

end
