(* ===== verification/Definition_Manager.thy ===== *)
theory Definition_Manager
  imports Definition_Store Entity_Store
begin

text \<open>
  The definition manager (\<open>pmanager/core/definition_manager.go\<close>): creating, deleting and listing
  definitions in transactions, and the check that the schemas of dependent activities fit
  together. It works on any definition store, orchestration index and transaction context.
\<close>

definition quoted_type :: "string \<Rightarrow> string" where
  "quoted_type t = [CHR 0x27] @ t @ [CHR 0x27]"

section \<open>The schemas of dependent activities\<close>

definition json_object_of :: "json option \<Rightarrow> props option" where
  "json_object_of v = (case v of Some (JObj m) \<Rightarrow> Some m | _ \<Rightarrow> None)"

text \<open>\<open>OutputSchema["properties"].(map[string]any)\<close>, and the like for the input.\<close>

definition output_properties :: "activity_definition \<Rightarrow> props" where
  "output_properties def = (case json_object_of (lookup (ad_OutputSchema def) ''properties'') of Some m \<Rightarrow> m | None \<Rightarrow> [])"

definition input_properties :: "activity_definition \<Rightarrow> props" where
  "input_properties def = (case json_object_of (lookup (ad_InputSchema def) ''properties'') of Some m \<Rightarrow> m | None \<Rightarrow> [])"

definition required_fields :: "activity_definition \<Rightarrow> json list" where
  "required_fields def = (case lookup (ad_InputSchema def) ''required'' of Some (JArr fs) \<Rightarrow> fs | _ \<Rightarrow> [])"

definition injected_fields :: props where
  "injected_fields = [(ParticipantIdentifier, JObj [(''type'', JStr ''string'')]),
     (VPAData, JObj [(''type'', JStr ''array'')]), (CredentialData, JObj [(''type'', JStr ''array'')])]"

definition duplicate_error :: "string \<Rightarrow> string \<Rightarrow> go_error" where
  "duplicate_error aid field =
     NewValidationError aid (''field '' @ field @ '' is duplicated in multiple dependent activities'')"

text \<open>The loop over the output fields of one dependency: the merged fields and the errors.\<close>

fun merge_fields :: "string \<Rightarrow> props \<Rightarrow> props \<times> go_error list \<Rightarrow> props \<times> go_error list" where
  "merge_fields aid [] (merged, errs) = (merged, errs)"
| "merge_fields aid ((field, j) # fs) (merged, errs) =
     (if has_key merged field then merge_fields aid fs (merged, errs @ [duplicate_error aid field])
      else merge_fields aid fs (put field j merged, errs))"

text \<open>
  The loop over the dependencies. An ID that is not an activity of the orchestration reads the
  zero activity, whose empty type has no definition: the nil pointer panics.
\<close>

definition type_of_id :: "(string, activity) gomap \<Rightarrow> string \<Rightarrow> string" where
  "type_of_id byId aid = (case lookup byId aid of Some a \<Rightarrow> a_Type a | None \<Rightarrow> [])"

fun merge_dependencies ::
    "string \<Rightarrow> (string, activity) gomap \<Rightarrow> (string, activity_definition) gomap \<Rightarrow> string list \<Rightarrow>
     props \<times> go_error list \<Rightarrow> (props \<times> go_error list) call_result" where
  "merge_dependencies aid byId defs [] acc = Returns acc"
| "merge_dependencies aid byId defs (d # ds) acc =
     (case lookup defs (type_of_id byId d) of
        None \<Rightarrow> Panics ''nil pointer dereference''
      | Some def \<Rightarrow> merge_dependencies aid byId defs ds (merge_fields aid (output_properties def) acc))"

fun check_required :: "string \<Rightarrow> bool \<Rightarrow> props \<Rightarrow> json list \<Rightarrow> go_error list" where
  "check_required aid independent merged [] = []"
| "check_required aid independent merged (r # rs) =
     (case r of
        JStr field \<Rightarrow>
          if has_key merged field then check_required aid independent merged rs
          else if independent then
            [NewValidationError aid ''activity has required input fields in InputSchema but not declared dependencies'']
          else NewValidationError aid (''required input field '' @ field @ '' is not provided by dependent activities as output'')
                 # check_required aid independent merged rs
      | _ \<Rightarrow> check_required aid independent merged rs)"

text \<open>The \<open>type\<close> of a field, empty unless it is a string in an object.\<close>

definition field_type :: "json \<Rightarrow> string" where
  "field_type j = (case j of JObj m \<Rightarrow> string_or_empty (lookup m ''type'') | _ \<Rightarrow> [])"

definition types_differ :: "json \<Rightarrow> json \<Rightarrow> bool" where
  "types_differ i d \<longleftrightarrow> field_type i \<noteq> [] \<and> field_type d \<noteq> [] \<and> field_type i \<noteq> field_type d"

fun check_types :: "string \<Rightarrow> props \<Rightarrow> props \<Rightarrow> go_error list" where
  "check_types aid merged [] = []"
| "check_types aid merged ((field, j) # fs) =
     (case lookup merged field of
        None \<Rightarrow> check_types aid merged fs
      | Some d \<Rightarrow>
          (if types_differ j d
           then [NewValidationError aid (''type of input field '' @ field @ '' differs from dependent activities output'')]
           else []) @ check_types aid merged fs)"

definition validate_activity ::
    "(string, activity) gomap \<Rightarrow> (string, activity_definition) gomap \<Rightarrow> activity \<Rightarrow> go_error list call_result" where
  "validate_activity byId defs a =
     (case merge_dependencies (a_ID a) byId defs (a_DependsOn a) (injected_fields, []) of
        Returns (merged, errs) \<Rightarrow>
          if errs \<noteq> [] then Returns errs
          else (case lookup defs (a_Type a) of
              None \<Rightarrow> Panics ''nil pointer dereference''
            | Some def \<Rightarrow>
                Returns (check_required (a_ID a) (a_DependsOn a = []) merged (required_fields def)
                  @ check_types (a_ID a) merged (input_properties def)))
      | Fails err \<Rightarrow> Fails err
      | Panics txt \<Rightarrow> Panics txt)"

fun validate_activities ::
    "(string, activity) gomap \<Rightarrow> (string, activity_definition) gomap \<Rightarrow> activity list \<Rightarrow> go_error list call_result" where
  "validate_activities byId defs [] = Returns []"
| "validate_activities byId defs (a # as) =
     (case validate_activity byId defs a of
        Returns errs \<Rightarrow>
          (case validate_activities byId defs as of
             Returns rest \<Rightarrow> Returns (errs @ rest) | Fails err \<Rightarrow> Fails err | Panics txt \<Rightarrow> Panics txt)
      | Fails err \<Rightarrow> Fails err
      | Panics txt \<Rightarrow> Panics txt)"

definition activities_by_id :: "activity list \<Rightarrow> (string, activity) gomap" where
  "activities_by_id activities = fold (\<lambda>a m. put (a_ID a) a m) activities []"

text \<open>A nil error is \<open>Returns\<close>.\<close>

definition validateActivitySchema :: "activity list \<Rightarrow> (string, activity_definition) gomap \<Rightarrow> unit call_result" where
  "validateActivitySchema activities defs =
     (case validate_activities (activities_by_id activities) defs activities of
        Returns errs \<Rightarrow> (case errors_Join errs of None \<Rightarrow> Returns () | Some err \<Rightarrow> Fails err)
      | Fails err \<Rightarrow> Fails err
      | Panics txt \<Rightarrow> Panics txt)"

section \<open>The manager\<close>

text \<open>The loop that looks up the activities: the errors of the missing types, or a failure.\<close>

fun find_activities ::
    "'s definition_store_ops \<Rightarrow> 's \<Rightarrow> activity list \<Rightarrow> go_error list \<times> (string, activity_definition) gomap \<Rightarrow>
     go_error + (go_error list \<times> (string, activity_definition) gomap)" where
  "find_activities ops s [] acc = Inr acc"
| "find_activities ops s (a # as) (missing, defs) =
     (case dso_FindActivityDefinition ops (a_Type a) s of
        Inl err \<Rightarrow>
          if errors_Is err ErrNotFound
          then find_activities ops s as (missing @ [NewClientError (''activity type '' @ quoted_type (a_Type a) @ '' not found'')], defs)
          else Inl err
      | Inr def \<Rightarrow> find_activities ops s as (missing, put (a_Type a) def defs))"

text \<open>The callback of the transaction.\<close>

definition create_orchestration_callback ::
    "'s definition_store_ops \<Rightarrow> orchestration_definition \<Rightarrow> 's \<Rightarrow> orchestration_definition call_result \<times> 's" where
  "create_orchestration_callback ops def s =
     (case find_activities ops s (od_Activities def) ([], []) of
        Inl err \<Rightarrow> (Fails err, s)
      | Inr (missing, defs) \<Rightarrow>
          (case errors_Join missing of
             Some err \<Rightarrow> (Fails err, s)
           | None \<Rightarrow>
               (case (if od_Type def = VPADeployType then validateActivitySchema (od_Activities def) defs else Returns ()) of
                  Fails err \<Rightarrow> (Fails err, s)
                | Panics txt \<Rightarrow> (Panics txt, s)
                | Returns _ \<Rightarrow> of_result (dso_StoreOrchestrationDefinition ops def s))))"

definition CreateOrchestrationDefinition ::
    "('s, orchestration_definition) trx \<Rightarrow> 's definition_store_ops \<Rightarrow> orchestration_definition \<Rightarrow> 's \<Rightarrow>
     orchestration_definition call_result \<times> 's" where
  "CreateOrchestrationDefinition execute ops def s = execute (create_orchestration_callback ops def) s"

text \<open>
  The loop over the definitions of a template. \<open>first_entry\<close> is \<open>FindFirstByPredicate\<close> on the
  index of orchestrations.
\<close>

fun delete_definitions ::
    "'s definition_store_ops \<Rightarrow> (predicate \<Rightarrow> 's \<Rightarrow> go_error + orchestration_entry) \<Rightarrow> string \<Rightarrow>
     orchestration_definition list \<Rightarrow> 's \<Rightarrow> unit call_result \<times> 's" where
  "delete_definitions ops first_entry templateRef [] s = (Returns (), s)"
| "delete_definitions ops first_entry templateRef (def # defs) s =
     (let entry = first_entry (Eq ''DefinitionID'' (VStr (od_Type def))) s in
      case entry of
        Inr e \<Rightarrow> (Fails (NewClientError (''Cannot delete orchestration definition '' @ od_Type def @
                     '' because it has ongoing orchestrations'')), s)
      | Inl err \<Rightarrow>
          if \<not> errors_Is err ErrNotFound then
            (Fails (NewRecoverableWrappedError (Some err) (''failed to delete orchestration definition '' @ od_Type def @
               '', because checking for ongoing orchestrations failed'')), s)
          else
            (case dso_DeleteOrchestrationDefinition ops (od_Type def) s of
               (Inl err, s) \<Rightarrow> (Fails (NewRecoverableWrappedError (Some err)
                  (''failed to delete orchestration definition for template-ref '' @ templateRef)), s)
             | (Inr deleted, s) \<Rightarrow>
                 if \<not> deleted then
                   (Fails (NewClientError (''unable to delete orchestration definition template-ref '' @ templateRef)), s)
                 else delete_definitions ops first_entry templateRef defs s))"

definition delete_orchestration_callback ::
    "'s definition_store_ops \<Rightarrow> (predicate \<Rightarrow> 's \<Rightarrow> go_error + orchestration_entry) \<Rightarrow> string \<Rightarrow> 's \<Rightarrow> unit call_result \<times> 's" where
  "delete_orchestration_callback ops first_entry templateRef s =
     (case CollectAll (dso_FindOrchestrationDefinitionsByPredicate ops (Eq ''templateRef'' (VStr templateRef)) s) of
        Inl err \<Rightarrow> (Fails (NewRecoverableWrappedError (Some err)
           (''failed to check orchestration definition for template-ref '' @ templateRef)), s)
      | Inr defs \<Rightarrow>
          if defs = [] then (Fails ErrNotFound, s) else delete_definitions ops first_entry templateRef defs s)"

definition Manager_DeleteOrchestrationDefinition ::
    "('s, unit) trx \<Rightarrow> 's definition_store_ops \<Rightarrow> (predicate \<Rightarrow> 's \<Rightarrow> go_error + orchestration_entry) \<Rightarrow> string \<Rightarrow> 's \<Rightarrow>
     unit call_result \<times> 's" where
  "Manager_DeleteOrchestrationDefinition execute ops first_entry templateRef s =
     execute (delete_orchestration_callback ops first_entry templateRef) s"

definition QueryOrchestrationDefinitions ::
    "('s, orchestration_definition list) trx \<Rightarrow> 's definition_store_ops \<Rightarrow> predicate \<Rightarrow> 's \<Rightarrow>
     orchestration_definition list call_result \<times> 's" where
  "QueryOrchestrationDefinitions execute ops p s =
     execute (\<lambda>s. of_result (CollectAll (dso_FindOrchestrationDefinitionsByPredicate ops p s), s)) s"

definition GetOrchestrationDefinitionsByTemplate ::
    "('s, orchestration_definition list) trx \<Rightarrow> 's definition_store_ops \<Rightarrow> string \<Rightarrow> 's \<Rightarrow>
     orchestration_definition list call_result \<times> 's" where
  "GetOrchestrationDefinitionsByTemplate execute ops templateRef s =
     QueryOrchestrationDefinitions execute ops (Eq ''templateRef'' (VStr templateRef)) s"

definition GetOrchestrationDefinitions ::
    "('s, orchestration_definition list) trx \<Rightarrow> 's definition_store_ops \<Rightarrow> 's \<Rightarrow> orchestration_definition list call_result \<times> 's" where
  "GetOrchestrationDefinitions execute ops s = execute (\<lambda>s. of_result (dso_ListOrchestrationDefinitions ops s, s)) s"

definition CreateActivityDefinition ::
    "('s, activity_definition) trx \<Rightarrow> 's definition_store_ops \<Rightarrow> activity_definition \<Rightarrow> 's \<Rightarrow> activity_definition call_result \<times> 's" where
  "CreateActivityDefinition execute ops def s = execute (\<lambda>s. of_result (dso_StoreActivityDefinition ops def s)) s"

definition delete_activity_callback :: "'s definition_store_ops \<Rightarrow> string \<Rightarrow> 's \<Rightarrow> unit call_result \<times> 's" where
  "delete_activity_callback ops atype s =
     (case dso_ExistsActivityDefinition ops atype s of
        Inl err \<Rightarrow> (Fails (NewRecoverableWrappedError (Some err)
          (''failed to check activity definition for type '' @ atype)), s)
      | Inr exists \<Rightarrow>
          if \<not> exists then (Fails ErrNotFound, s)
          else (case dso_ActivityDefinitionReferences ops atype s of
              Inl err \<Rightarrow> (Fails (NewRecoverableWrappedError (Some err)
                (''failed to check activity definition references for type '' @ atype)), s)
            | Inr referenced \<Rightarrow>
                if length referenced > 0 then
                  (Fails (NewClientError (''activity type '' @ quoted_type atype @
                    '' is referenced by an orchestration definition: '' @ join '', '' referenced)), s)
                else (case dso_DeleteActivityDefinition ops atype s of
                    (Inl err, s) \<Rightarrow> (Fails (NewRecoverableWrappedError (Some err)
                      (''failed to check activity definition references for type '' @ atype)), s)
                  | (Inr deleted, s) \<Rightarrow>
                      if \<not> deleted then (Fails (NewClientError (''unable to delete activity definition type '' @ atype)), s)
                      else (Returns (), s))))"

definition Manager_DeleteActivityDefinition ::
    "('s, unit) trx \<Rightarrow> 's definition_store_ops \<Rightarrow> string \<Rightarrow> 's \<Rightarrow> unit call_result \<times> 's" where
  "Manager_DeleteActivityDefinition execute ops atype s = execute (delete_activity_callback ops atype) s"

definition GetActivityDefinitions ::
    "('s, activity_definition list) trx \<Rightarrow> 's definition_store_ops \<Rightarrow> 's \<Rightarrow> activity_definition list call_result \<times> 's" where
  "GetActivityDefinitions execute ops s = execute (\<lambda>s. of_result (dso_ListActivityDefinitions ops s, s)) s"

section \<open>When schemas fit\<close>

definition deps_resolved :: "(string, activity) gomap \<Rightarrow> (string, activity_definition) gomap \<Rightarrow> activity \<Rightarrow> bool" where
  "deps_resolved byId defs a \<longleftrightarrow> list_all (\<lambda>d. has_key defs (type_of_id byId d)) (a_DependsOn a)"

text \<open>What an activity is given: the injected fields, then the outputs of its dependencies.\<close>

definition outputs_of :: "(string, activity) gomap \<Rightarrow> (string, activity_definition) gomap \<Rightarrow> string list \<Rightarrow> props" where
  "outputs_of byId defs ds = concat (map (\<lambda>d. output_properties (the (lookup defs (type_of_id byId d)))) ds)"

definition provided :: "(string, activity) gomap \<Rightarrow> (string, activity_definition) gomap \<Rightarrow> activity \<Rightarrow> props" where
  "provided byId defs a = injected_fields @ outputs_of byId defs (a_DependsOn a)"

definition required_ok :: "props \<Rightarrow> json \<Rightarrow> bool" where
  "required_ok given r = (case r of JStr field \<Rightarrow> has_key given field | _ \<Rightarrow> True)"

definition type_ok :: "props \<Rightarrow> string \<times> json \<Rightarrow> bool" where
  "type_ok given f = (case lookup given (fst f) of None \<Rightarrow> True | Some d \<Rightarrow> \<not> types_differ (snd f) d)"

definition activity_fits :: "(string, activity) gomap \<Rightarrow> (string, activity_definition) gomap \<Rightarrow> activity \<Rightarrow> bool" where
  "activity_fits byId defs a \<longleftrightarrow>
     distinct (keys (provided byId defs a)) \<and>
     list_all (required_ok (provided byId defs a)) (required_fields (the (lookup defs (a_Type a)))) \<and>
     list_all (type_ok (provided byId defs a)) (input_properties (the (lookup defs (a_Type a))))"

lemma lookup_snoc_new:
  "\<not> has_key m k \<Longrightarrow> lookup (put k v m) = lookup (m @ [(k, v)])"
  by (rule ext) (auto simp: lookup_put map_add_def has_key_def split: option.split)

lemma lookup_append_cong: "lookup m = lookup m' \<Longrightarrow> lookup (m @ fs) = lookup (m' @ fs)"
  by (simp add: map_of_append)

lemma has_key_append: "has_key (m @ fs) k \<longleftrightarrow> has_key m k \<or> has_key fs k"
  by (auto simp: has_key_iff)

lemma has_key_cong: "lookup m = lookup m' \<Longrightarrow> has_key m = has_key m'"
  by (rule ext) (simp add: has_key_def)

text \<open>Fields whose names are new, and pairwise different.\<close>

definition fresh_fields :: "props \<Rightarrow> props \<Rightarrow> bool" where
  "fresh_fields m fs \<longleftrightarrow> distinct (keys fs) \<and> list_all (\<lambda>k. \<not> has_key m k) (keys fs)"

lemma fresh_fields_iff: "fresh_fields m fs \<longleftrightarrow> distinct (keys fs) \<and> set (keys m) \<inter> set (keys fs) = {}"
  by (simp only: fresh_fields_def list_all_iff has_key_iff set_map) blast

lemma fresh_fields_append:
  "fresh_fields m (as @ bs) \<longleftrightarrow> fresh_fields m as \<and> fresh_fields (m @ as) bs"
  by (simp only: fresh_fields_iff map_append distinct_append set_append) blast

lemma fresh_fields_distinct: "distinct (keys m) \<Longrightarrow> fresh_fields m fs \<longleftrightarrow> distinct (keys (m @ fs))"
  by (simp only: fresh_fields_iff map_append distinct_append) blast

lemma fresh_fields_Cons: "fresh_fields m ((k, j) # fs) \<longleftrightarrow> \<not> has_key m k \<and> fresh_fields (put k j m) fs"
  by (auto simp: fresh_fields_def list_all_iff)

lemma fresh_fields_cong: "lookup m = lookup m' \<Longrightarrow> fresh_fields m fs = fresh_fields m' fs"
  by (simp add: fresh_fields_def has_key_def)

lemma merge_fields_props:
  "merge_fields aid fs (m, e) = (m', e') \<Longrightarrow>
     lookup m' = lookup (m @ fs) \<and>
     (\<exists>new. e' = e @ new \<and> list_all IsClientError new \<and>
        (new = [] \<longleftrightarrow> fresh_fields m fs))"
proof (induction aid fs "(m, e)" arbitrary: m e rule: merge_fields.induct)
  case (2 aid field j fs m e)
  show ?case
  proof (cases "has_key m field")
    case True
    then have "merge_fields aid fs (m, e @ [duplicate_error aid field]) = (m', e')" using 2 by simp
    from 2(1) [OF True this] obtain new where "lookup m' = lookup (m @ fs)"
      "e' = e @ duplicate_error aid field # new" "list_all IsClientError new" by auto
    moreover have "lookup (m @ fs) = lookup (m @ (field, j) # fs)"
      using True by (auto simp: map_of_append map_add_def has_key_def fun_eq_iff split: option.split)
    ultimately show ?thesis using True by (auto simp: duplicate_error_def fresh_fields_Cons)
  next
    case False
    then have "merge_fields aid fs (put field j m, e) = (m', e')" using 2 by simp
    from 2(2) [OF False this] obtain new where new: "lookup m' = lookup (put field j m @ fs)"
      "e' = e @ new" "list_all IsClientError new"
      "new = [] \<longleftrightarrow> fresh_fields (put field j m) fs" by auto
    have "lookup m' = lookup (m @ (field, j) # fs)"
      using new(1) lookup_append_cong [OF lookup_snoc_new [OF False, of j], of fs] by simp
    with new False show ?thesis by (auto simp: fresh_fields_Cons)
  qed
qed (simp add: fresh_fields_def)

lemma merge_dependencies_props:
  "merge_dependencies aid byId defs ds (m, e) = Returns (m', e') \<Longrightarrow>
     lookup m' = lookup (m @ outputs_of byId defs ds) \<and>
     (\<exists>new. e' = e @ new \<and> list_all IsClientError new \<and>
        (new = [] \<longleftrightarrow> fresh_fields m (outputs_of byId defs ds)))"
proof (induction ds arbitrary: m e)
  case (Cons d ds)
  then obtain def where def: "lookup defs (type_of_id byId d) = Some def" by (auto split: option.splits)
  obtain m1 e1 where mf: "merge_fields aid (output_properties def) (m, e) = (m1, e1)" by fastforce
  obtain new1 where new1: "lookup m1 = lookup (m @ output_properties def)" "e1 = e @ new1" "list_all IsClientError new1"
    "new1 = [] \<longleftrightarrow> fresh_fields m (output_properties def)"
    using merge_fields_props [OF mf] by auto
  have "merge_dependencies aid byId defs ds (m1, e1) = Returns (m', e')" using Cons.prems def mf by simp
  from Cons.IH [OF this] obtain new2 where new2: "lookup m' = lookup (m1 @ outputs_of byId defs ds)" "e' = e1 @ new2"
    "list_all IsClientError new2"
    "new2 = [] \<longleftrightarrow> fresh_fields m1 (outputs_of byId defs ds)"
    by auto
  have out: "outputs_of byId defs (d # ds) = output_properties def @ outputs_of byId defs ds"
    by (simp add: outputs_of_def def)
  have "lookup m' = lookup (m @ outputs_of byId defs (d # ds))"
    using new2(1) lookup_append_cong [OF new1(1), of "outputs_of byId defs ds"] by (simp add: out)
  moreover have "new1 @ new2 = [] \<longleftrightarrow> fresh_fields m (outputs_of byId defs (d # ds))"
    using new1(4) new2(4) fresh_fields_cong [OF new1(1)] by (simp add: out fresh_fields_append)
  ultimately show ?case using new1(2,3) new2(2,3)
    by (intro conjI exI [of _ "new1 @ new2"]) simp_all
qed (simp add: outputs_of_def fresh_fields_def)

lemma merge_dependencies_outcome:
  "if list_all (\<lambda>d. has_key defs (type_of_id byId d)) ds
   then \<exists>r. merge_dependencies aid byId defs ds acc = Returns r
   else merge_dependencies aid byId defs ds acc = Panics ''nil pointer dereference''"
proof (induction ds arbitrary: acc)
  case (Cons d ds)
  then show ?case
    by (cases "lookup defs (type_of_id byId d)")
      (simp_all only: merge_dependencies.simps list.pred_inject has_key_def option.case simp_thms if_False option.distinct not_False_eq_True)
qed simp

lemma check_required_props:
  "lookup m = lookup m' \<Longrightarrow> (check_required aid ind m rs = [] \<longleftrightarrow> list_all (required_ok m') rs)"
  "list_all IsClientError (check_required aid ind m rs)"
  by (induction rs) (auto simp: required_ok_def dest: has_key_cong split: json.split)

lemma check_types_props:
  "lookup m = lookup m' \<Longrightarrow> (check_types aid m fs = [] \<longleftrightarrow> list_all (type_ok m') fs)"
  "list_all IsClientError (check_types aid m fs)"
  by (induction aid m fs rule: check_types.induct) (auto simp: type_ok_def split: option.split)

lemma injected_keys: "distinct (keys injected_fields)"
  by (simp add: injected_fields_def model_constants)

lemma validate_activity_outcome:
  assumes "has_key defs (a_Type a)"
  shows "if deps_resolved byId defs a
    then \<exists>errs. validate_activity byId defs a = Returns errs \<and> list_all IsClientError errs \<and>
      (errs = [] \<longleftrightarrow> activity_fits byId defs a)
    else validate_activity byId defs a = Panics ''nil pointer dereference''"
proof (cases "deps_resolved byId defs a")
  case False
  then show ?thesis
    using merge_dependencies_outcome [of defs byId "a_DependsOn a" "a_ID a" "(injected_fields, [])"]
    by (simp add: deps_resolved_def validate_activity_def)
next
  case True
  then obtain m e where md: "merge_dependencies (a_ID a) byId defs (a_DependsOn a) (injected_fields, []) = Returns (m, e)"
    using merge_dependencies_outcome [of defs byId "a_DependsOn a" "a_ID a" "(injected_fields, [])"]
    by (auto simp: deps_resolved_def)
  obtain def where def: "lookup defs (a_Type a) = Some def" using assms by (auto simp: has_key_def)
  have m: "lookup m = lookup (provided byId defs a)" and ce: "list_all IsClientError e"
    and e: "e = [] \<longleftrightarrow> distinct (keys (provided byId defs a))"
    using merge_dependencies_props [OF md] fresh_fields_distinct [OF injected_keys]
    by (auto simp: provided_def)
  show ?thesis
  proof (cases "e = []")
    case True
    then show ?thesis
      using \<open>deps_resolved byId defs a\<close> def e check_required_props(1) [OF m] check_types_props(1) [OF m] check_required_props(2) check_types_props(2)
      by (simp add: validate_activity_def md activity_fits_def)
  next
    case False
    then show ?thesis using \<open>deps_resolved byId defs a\<close> e ce by (simp add: validate_activity_def md activity_fits_def)
  qed
qed

lemma validate_activities_outcome:
  assumes "list_all (\<lambda>a. has_key defs (a_Type a)) as"
  shows "if list_all (deps_resolved byId defs) as
    then \<exists>errs. validate_activities byId defs as = Returns errs \<and> list_all IsClientError errs \<and>
      (errs = [] \<longleftrightarrow> list_all (activity_fits byId defs) as)
    else validate_activities byId defs as = Panics ''nil pointer dereference''"
  using assms
proof (induction as)
  case (Cons a as)
  then have a: "has_key defs (a_Type a)" and as: "list_all (\<lambda>a. has_key defs (a_Type a)) as" by simp_all
  note va = validate_activity_outcome [where byId = byId, OF a]
  show ?case
  proof (cases "deps_resolved byId defs a")
    case True
    with va obtain errs where errs: "validate_activity byId defs a = Returns errs" "list_all IsClientError errs"
      "errs = [] \<longleftrightarrow> activity_fits byId defs a" by auto
    show ?thesis
    proof (cases "list_all (deps_resolved byId defs) as")
      case True
      with Cons.IH [OF as] obtain rest where "validate_activities byId defs as = Returns rest" "list_all IsClientError rest"
        "rest = [] \<longleftrightarrow> list_all (activity_fits byId defs) as" by auto
      with errs \<open>deps_resolved byId defs a\<close> True show ?thesis by simp
    qed (use Cons.IH [OF as] errs in simp)
  qed (use va in simp)
qed simp

text \<open>
  C23. The schema check accepts an orchestration exactly when, for every activity, no field is
  given to it twice (by two of its dependencies, or by one and the fields that are always
  injected), every required input is given, and no input is given with another type; otherwise it
  fails with a client error. If some dependency names no activity of the orchestration, the check
  neither accepts nor rejects: it panics.
\<close>

theorem validateActivitySchema_correct:
  assumes "list_all (\<lambda>a. has_key defs (a_Type a)) as"
  shows "case validateActivitySchema as defs of
      Returns u \<Rightarrow> list_all (deps_resolved (activities_by_id as) defs) as \<and> list_all (activity_fits (activities_by_id as) defs) as
    | Fails err \<Rightarrow> list_all (deps_resolved (activities_by_id as) defs) as \<and>
        \<not> list_all (activity_fits (activities_by_id as) defs) as \<and> IsClientError err
    | Panics txt \<Rightarrow> \<not> list_all (deps_resolved (activities_by_id as) defs) as"
proof (cases "list_all (deps_resolved (activities_by_id as) defs) as")
  case True
  with validate_activities_outcome [OF assms, of "activities_by_id as"] obtain errs where
    "validate_activities (activities_by_id as) defs as = Returns errs" "list_all IsClientError errs"
    "errs = [] \<longleftrightarrow> list_all (activity_fits (activities_by_id as) defs) as" by auto
  then show ?thesis using True IsClientError_join [of errs] by (cases errs) (simp_all add: validateActivitySchema_def errors_Join_def)
next
  case False
  with validate_activities_outcome [OF assms, of "activities_by_id as"]
  have "validate_activities (activities_by_id as) defs as = Panics ''nil pointer dereference''" by simp
  with False show ?thesis by (simp add: validateActivitySchema_def)
qed

definition sample_activity :: "string \<Rightarrow> string list \<Rightarrow> activity" where
  "sample_activity aid deps = \<lparr>a_ID = aid, a_Type = ''t'', a_Discriminator = [], a_DependsOn = deps\<rparr>"

definition sample_activity_definition :: activity_definition where
  "sample_activity_definition = \<lparr>ad_Type = ''t'', ad_Version = 0, ad_Description = [], ad_InputSchema = [], ad_OutputSchema = []\<rparr>"

theorem validateActivitySchema_witness:
  "validateActivitySchema [sample_activity ''a'' [''b'']] [(''t'', sample_activity_definition)] = Panics ''nil pointer dereference'' \<and>
   (case validateActivitySchema [sample_activity ''a'' [''b'']] [(''t'', sample_activity_definition)] of
      Returns u \<Rightarrow> False | Fails err \<Rightarrow> False | Panics txt \<Rightarrow>
        \<not> list_all (deps_resolved (activities_by_id [sample_activity ''a'' [''b'']]) [(''t'', sample_activity_definition)])
          [sample_activity ''a'' [''b'']])"
proof -
  have "list_all (\<lambda>a. has_key [(''t'', sample_activity_definition)] (a_Type a)) [sample_activity ''a'' [''b'']]"
    by (simp add: sample_activity_def has_key_def)
  note c = validateActivitySchema_correct [OF this]
  have "validateActivitySchema [sample_activity ''a'' [''b'']] [(''t'', sample_activity_definition)] = Panics ''nil pointer dereference''"
    by (simp add: validateActivitySchema_def validate_activity_def sample_activity_def activities_by_id_def type_of_id_def)
  with c show ?thesis by simp
qed

section \<open>No dangling references\<close>

context definition_store_laws
begin

lemma find_activities_acts:
  assumes "find_activities ops s as (missing, defs) = Inr (missing', defs')"
  shows "(\<exists>new. missing' = missing @ new) \<and> (missing' = missing \<longrightarrow> list_all (\<lambda>a. acts s (a_Type a) \<noteq> None) as)"
  using assms
proof (induction as arbitrary: missing defs)
  case (Cons a as)
  show ?case
  proof (cases "dso_FindActivityDefinition ops (a_Type a) s")
    case (Inl err)
    then have "find_activities ops s as (missing @ [NewClientError (''activity type '' @ quoted_type (a_Type a) @ '' not found'')], defs)
        = Inr (missing', defs')" using Cons.prems by (simp split: if_splits)
    from Cons.IH [OF this] show ?thesis by auto
  next
    case (Inr def)
    then have "find_activities ops s as (missing, put (a_Type a) def defs) = Inr (missing', defs')"
      using Cons.prems by simp
    from Cons.IH [OF this] find_activity [OF Inr] show ?thesis by simp
  qed
qed simp

lemma create_orchestration_intact:
  assumes "intact s"
  shows "intact (snd (create_orchestration_callback ops def s))"
proof (cases "find_activities ops s (od_Activities def) ([], [])")
  case (Inr r)
  obtain missing defs where r: "r = (missing, defs)" by fastforce
  show ?thesis
  proof (cases missing)
    case Nil
    have acts: "\<And>a. a \<in> set (od_Activities def) \<Longrightarrow> acts s (a_Type a) \<noteq> None"
      using find_activities_acts [of s "od_Activities def" "[]" "[]"] Inr r Nil by (auto simp: list_all_iff)
    obtain res s' where st: "dso_StoreOrchestrationDefinition ops def s = (res, s')" by fastforce
    have "intact s'" using intact_store_orchestration [OF assms st acts] .
    with assms st Inr r Nil show ?thesis
      by (cases res) (auto simp: create_orchestration_callback_def errors_Join_def split: call_result.splits)
  qed (use assms Inr r in \<open>simp add: create_orchestration_callback_def errors_Join_def\<close>)
qed (use assms in \<open>simp add: create_orchestration_callback_def\<close>)

lemma delete_definitions_intact:
  "intact s \<Longrightarrow> intact (snd (delete_definitions ops first_entry tr defs s))"
proof (induction defs arbitrary: s)
  case (Cons def defs)
  obtain r s' where d: "dso_DeleteOrchestrationDefinition ops (od_Type def) s = (r, s')" by fastforce
  have "intact s'" using intact_delete_orchestration [OF Cons.prems d] .
  with Cons d show ?case by (auto simp: Let_def split: sum.splits)
qed simp

lemma delete_orchestration_intact:
  "intact s \<Longrightarrow> intact (snd (delete_orchestration_callback ops first_entry tr s))"
  by (auto simp: delete_orchestration_callback_def delete_definitions_intact split: sum.splits)

lemma delete_activity_intact:
  assumes "intact s"
  shows "intact (snd (delete_activity_callback ops t s))"
proof -
  obtain r s' where d: "dso_DeleteActivityDefinition ops t s = (r, s')" by fastforce
  have "intact s'" if "dso_ActivityDefinitionReferences ops t s = Inr []"
    using intact_delete_activity [OF assms that d] .
  with assms d show ?thesis
    by (auto simp: delete_activity_callback_def split: sum.splits)
qed

lemma create_activity_intact:
  assumes "intact s"
  shows "intact (snd (of_result (dso_StoreActivityDefinition ops def s)))"
proof -
  obtain r s' where d: "dso_StoreActivityDefinition ops def s = (r, s')" by fastforce
  from intact_store_activity [OF assms d] d show ?thesis by (cases r) simp_all
qed

end

text \<open>What clients of the manager can do, on the in-memory store.\<close>

inductive manager_step :: "(gval \<Rightarrow> string) \<Rightarrow> definition_store \<Rightarrow> definition_store \<Rightarrow> bool" for fmt_v where
  create_orchestration: "manager_step fmt_v s (snd (CreateOrchestrationDefinition NoOp_Execute
     (memory_definition_store fmt_v (\<lambda>s. s) (\<lambda>d s. d)) def s))"
| delete_orchestration: "manager_step fmt_v s (snd (Manager_DeleteOrchestrationDefinition NoOp_Execute
     (memory_definition_store fmt_v (\<lambda>s. s) (\<lambda>d s. d)) first_entry templateRef s))"
| create_activity: "manager_step fmt_v s (snd (CreateActivityDefinition NoOp_Execute
     (memory_definition_store fmt_v (\<lambda>s. s) (\<lambda>d s. d)) adef s))"
| delete_activity: "manager_step fmt_v s (snd (Manager_DeleteActivityDefinition NoOp_Execute
     (memory_definition_store fmt_v (\<lambda>s. s) (\<lambda>d s. d)) atype s))"

inductive_cases manager_stepE: "manager_step fmt_v s s'"

lemma manager_step_intact: "manager_step fmt_v s s' \<Longrightarrow> mem_defs.intact s \<Longrightarrow> mem_defs.intact s'"
  by (elim manager_stepE)
    (simp_all add: CreateOrchestrationDefinition_def Manager_DeleteOrchestrationDefinition_def
      CreateActivityDefinition_def Manager_DeleteActivityDefinition_def NoOp_Execute_def
      mem_defs.create_orchestration_intact mem_defs.delete_orchestration_intact
      mem_defs.create_activity_intact mem_defs.delete_activity_intact)

text \<open>
  C22. No client can make a definition refer to an activity that is not defined: in every state
  that the manager reaches from an empty store, by any sequence of calls with any arguments,
  every activity of every orchestration definition has an activity definition.
\<close>

theorem manager_no_dangling:
  assumes "(manager_step fmt_v)\<^sup>*\<^sup>* NewDefinitionStore s"
  shows "no_dangling (lookup (orchestrationDefinitions s)) (lookup (activityDefinitions s))"
proof -
  have "mem_defs.intact NewDefinitionStore"
    by (simp add: mem_defs.intact_def definition_store_ok_def NewDefinitionStore_def no_dangling_def)
  with assms have "mem_defs.intact s"
    by (induction rule: rtranclp_induct) (auto intro: manager_step_intact)
  then show ?thesis by (simp add: mem_defs.intact_def)
qed

theorem manager_no_dangling_witness:
  "no_dangling (lookup (orchestrationDefinitions (snd (CreateActivityDefinition NoOp_Execute
       (memory_definition_store (\<lambda>v. []) (\<lambda>s. s) (\<lambda>d s. d)) sample_activity_definition NewDefinitionStore))))
     (lookup (activityDefinitions (snd (CreateActivityDefinition NoOp_Execute
       (memory_definition_store (\<lambda>v. []) (\<lambda>s. s) (\<lambda>d s. d)) sample_activity_definition NewDefinitionStore))))"
  by (rule manager_no_dangling [of "\<lambda>v. []"]) (rule r_into_rtranclp, rule create_activity)

section \<open>Deleting a template\<close>

lemma definition_fields:
  "GetFieldValue (definition_value d) ''templateRef'' = Inr (VStr (od_TemplateRef d))"
proof -
  have s: "split_on (CHR ''.'') ''templateRef'' = [''templateRef'']" by code_simp
  have f: "EqualFold ''Type'' ''templateRef'' = False" "EqualFold ''TemplateRef'' ''templateRef'' = True"
    "EqualFold ''Version'' ''templateRef'' = False" "EqualFold ''Description'' ''templateRef'' = False"
    "EqualFold ''Active'' ''templateRef'' = False" "EqualFold ''Schema'' ''templateRef'' = False"
    "EqualFold ''Activities'' ''templateRef'' = False"
    by code_simp+
  show ?thesis
    by (simp add: GetFieldValue_def s definition_value_def deref_def getFieldValueCaseInsensitive_def f Interface_def)
qed

lemma matches_templateRef:
  "Matches (DefaultFieldMatcher fmt_v) (definition_value d) (Eq ''templateRef'' (VStr tr)) \<longleftrightarrow> od_TemplateRef d = tr"
  by (simp add: Eq_def DefaultFieldMatcher_def definition_fields CompareValues_def compareValueForSingleElement_def
      equal_values_def toFloat64_def)

abbreviation mem_ops :: "(gval \<Rightarrow> string) \<Rightarrow> definition_store definition_store_ops" where
  "mem_ops fmt_v \<equiv> memory_definition_store fmt_v (\<lambda>s. s) (\<lambda>d s. d)"

lemma delete_definitions_ok:
  assumes "delete_definitions (mem_ops fmt_v) first_entry tr defs s = (Returns (), s')"
  shows "activityDefinitions s' = activityDefinitions s \<and>
    lookup (orchestrationDefinitions s') k = (if k \<in> od_Type ` set defs then None else lookup (orchestrationDefinitions s) k) \<and>
    list_all (\<lambda>def. \<exists>t err. first_entry (Eq ''DefinitionID'' (VStr (od_Type def))) t = Inl err \<and> errors_Is err ErrNotFound) defs"
  using assms
proof (induction defs arbitrary: s)
  case (Cons def defs)
  from Cons.prems obtain err where e: "first_entry (Eq ''DefinitionID'' (VStr (od_Type def))) s = Inl err"
    "errors_Is err ErrNotFound"
    by (auto simp: Let_def split: sum.splits if_splits)
  with Cons.prems have has: "has_key (orchestrationDefinitions s) (od_Type def)"
    and rest: "delete_definitions (mem_ops fmt_v) first_entry tr defs
      (s\<lparr>orchestrationDefinitions := del (od_Type def) (orchestrationDefinitions s)\<rparr>) = (Returns (), s')"
    by (auto simp: memory_definition_store_def DeleteOrchestrationDefinition_def split: if_splits)
  from Cons.IH [OF rest] e show ?case by (auto simp: lookup_del)
qed simp

text \<open>
  Deleting a template succeeds only if no orchestration refers to any of its definitions, and
  then removes exactly those: every definition of another template and every activity definition
  is kept.
\<close>

theorem DeleteOrchestrationDefinition_correct:
  assumes "Manager_DeleteOrchestrationDefinition NoOp_Execute (mem_ops fmt_v) first_entry tr s = (Returns (), s')"
    and "wf_map (orchestrationDefinitions s)"
    and "list_all (\<lambda>(k, def). od_Type def = k) (orchestrationDefinitions s)"
  shows "activityDefinitions s' = activityDefinitions s \<and>
    (case lookup (orchestrationDefinitions s) k of
       None \<Rightarrow> lookup (orchestrationDefinitions s') k = None
     | Some def \<Rightarrow>
         if od_TemplateRef def = tr
         then lookup (orchestrationDefinitions s') k = None \<and>
           (\<exists>t err. first_entry (Eq ''DefinitionID'' (VStr k)) t = Inl err \<and> errors_Is err ErrNotFound)
         else lookup (orchestrationDefinitions s') k = Some def)"
proof -
  let ?defs = "filter (\<lambda>d. od_TemplateRef d = tr) (map snd (orchestrationDefinitions s))"
  have "CollectAll (dso_FindOrchestrationDefinitionsByPredicate (mem_ops fmt_v) (Eq ''templateRef'' (VStr tr)) s) = Inr ?defs"
    by (simp add: memory_definition_store_def FindOrchestrationDefinitionsByPredicate_def matches_templateRef)
  with assms(1) have "delete_definitions (mem_ops fmt_v) first_entry tr ?defs s = (Returns (), s')"
    by (simp add: Manager_DeleteOrchestrationDefinition_def NoOp_Execute_def delete_orchestration_callback_def split: if_splits)
  note del = delete_definitions_ok [OF this, of k]
  have types: "k \<in> od_Type ` set ?defs \<longleftrightarrow> (\<exists>def. lookup (orchestrationDefinitions s) k = Some def \<and> od_TemplateRef def = tr)"
  proof
    assume "k \<in> od_Type ` set ?defs"
    then obtain k' def where "(k', def) \<in> set (orchestrationDefinitions s)" "od_TemplateRef def = tr" "k = od_Type def"
      by auto
    moreover from this assms(3) have "k' = k" by (auto simp: list_all_iff)
    ultimately show "\<exists>def. lookup (orchestrationDefinitions s) k = Some def \<and> od_TemplateRef def = tr"
      using wf_map_lookup_iff [OF assms(2), of k def] by blast
  next
    assume "\<exists>def. lookup (orchestrationDefinitions s) k = Some def \<and> od_TemplateRef def = tr"
    then obtain def where def: "(k, def) \<in> set (orchestrationDefinitions s)" "od_TemplateRef def = tr"
      by (auto dest: map_of_SomeD)
    moreover from this assms(3) have "k = od_Type def" by (auto simp: list_all_iff)
    ultimately show "k \<in> od_Type ` set ?defs" by (intro image_eqI [of _ _ def]) (auto intro: rev_image_eqI)
  qed
  show ?thesis
  proof (cases "lookup (orchestrationDefinitions s) k")
    case None
    with del types show ?thesis by simp
  next
    case (Some def)
    show ?thesis
    proof (cases "od_TemplateRef def = tr")
      case True
      with Some types have "k \<in> od_Type ` set ?defs" by blast
      with del True Some show ?thesis by (auto simp: list_all_iff)
    qed (use Some del types in auto)
  qed
qed

definition sample_definition :: orchestration_definition where
  "sample_definition = \<lparr>od_Type = ''d1'', od_TemplateRef = ''t1'', od_Version = 0, od_Description = [], od_Active = True,
     od_Schema = [], od_Activities = [sample_activity ''a'' []]\<rparr>"

theorem DeleteOrchestrationDefinition_witness:
  "lookup (orchestrationDefinitions (snd (Manager_DeleteOrchestrationDefinition NoOp_Execute (mem_ops (\<lambda>v. []))
     (\<lambda>p s. Inl ErrNotFound) ''t1'' \<lparr>orchestrationDefinitions = [(''d1'', sample_definition)], activityDefinitions = []\<rparr>))) ''d1'' = None"
proof -
  let ?s = "\<lparr>orchestrationDefinitions = [(''d1'', sample_definition)], activityDefinitions = []\<rparr>"
  let ?r = "Manager_DeleteOrchestrationDefinition NoOp_Execute (mem_ops (\<lambda>v. [])) (\<lambda>p s. Inl ErrNotFound) ''t1'' ?s"
  have "fst ?r = Returns ()"
    by (simp add: Manager_DeleteOrchestrationDefinition_def NoOp_Execute_def delete_orchestration_callback_def
        memory_definition_store_def FindOrchestrationDefinitionsByPredicate_def matches_templateRef
        DeleteOrchestrationDefinition_def has_key_def sample_definition_def del: Matches.simps)
  then have "?r = (Returns (), snd ?r)" by (metis prod.collapse)
  from DeleteOrchestrationDefinition_correct [OF this, of "''d1''"] show ?thesis
    by (simp add: sample_definition_def wf_map_def)
qed

end
