(* ===== verification/Provision_Manager.thy ===== *)
theory Provision_Manager
  imports Definition_Manager Nats_Orchestrator
begin

text \<open>
  The provision manager (\<open>pmanager/core/provision.go\<close>) on any definition store, orchestrator
  and transaction context, the contract it relies on of its orchestrator, and the orchestrator on
  NATS as a provider of that contract.
\<close>

section \<open>The orchestrator's interface\<close>

text \<open>\<open>Execute\<close> gets a pointer: it returns the orchestration as it left it.\<close>

record 's orchestrator_ops =
  oo_GetOrchestration :: "string \<Rightarrow> 's \<Rightarrow> (go_error + orchestration option) \<times> 's"
  oo_Execute :: "orchestration \<Rightarrow> 's \<Rightarrow> (go_error option \<times> orchestration) \<times> 's"

section \<open>Starting an orchestration\<close>

definition executionError :: "go_error \<Rightarrow> string \<Rightarrow> string \<Rightarrow> go_error" where
  "executionError err orchestrationID manifestID =
     (let message = ''error executing orchestration '' @ orchestrationID @ '' for '' @ manifestID
      in if IsRecoverable err then NewRecoverableWrappedError (Some err) message
         else NewFatalWrappedError (Some err) message)"

definition execute_orchestration ::
    "'s orchestrator_ops \<Rightarrow> string \<Rightarrow> orchestration \<Rightarrow> 's \<Rightarrow> orchestration call_result \<times> 's" where
  "execute_orchestration orc manifestID orch s =
     (case oo_Execute orc orch s of
        ((Some err, orch), s) \<Rightarrow> (Fails (executionError err (o_ID orch) manifestID), s)
      | ((None, orch), s) \<Rightarrow> (Returns orch, s))"

text \<open>
  The callback of the transaction. \<open>ord\<close> and \<open>now\<close> are what instantiating needs of Go's map
  order and of the clock; that instantiating ends is shown in \<open>Orchestration_Types\<close>.
\<close>

definition start_callback ::
    "'s definition_store_ops \<Rightarrow> 's orchestrator_ops \<Rightarrow> range_order \<Rightarrow> int \<Rightarrow> orchestration_manifest \<Rightarrow> 's \<Rightarrow>
     orchestration call_result \<times> 's" where
  "start_callback ops orc ord now manifest s =
     (case dso_FindOrchestrationDefinition ops (om_OrchestrationType manifest) s of
        Inl err \<Rightarrow>
          (Fails (if errors_Is err ErrNotFound
             then NewClientError (''orchestration type '' @ quoted_type (om_OrchestrationType manifest) @ '' not found'')
             else NewFatalWrappedError (Some err)
               (''unable to find orchestration definition for manifest '' @ om_ID manifest)), s)
      | Inr def \<Rightarrow>
          (case oo_GetOrchestration orc (om_ID manifest) s of
             (Inl err, s) \<Rightarrow> (Fails (NewFatalWrappedError (Some err)
                (''error performing de-duplication for '' @ om_ID manifest)), s)
           | (Inr (Some orch), s) \<Rightarrow>
               if o_OrchestrationType orch \<noteq> om_OrchestrationType manifest \<or>
                  o_CorrelationID orch \<noteq> om_CorrelationID manifest then
                 (Fails (WrapError (''orchestration '' @ om_ID manifest @
                    '' already exists with a different type or correlation ID: '' @ error_text ErrConflict) ErrConflict), s)
               else if o_State orch \<noteq> OrchestrationStateInitialized then (Returns orch, s)
               else execute_orchestration orc (om_ID manifest) orch s
           | (Inr None, s) \<Rightarrow>
               (case InstantiateOrchestration ord now (om_ID manifest) (om_CorrelationID manifest)
                    (om_OrchestrationType manifest) (od_Type def) (od_Activities def) (om_Payload manifest) of
                  None \<Rightarrow> (Panics ''instantiating does not end'', s)
                | Some (Inl err) \<Rightarrow> (Fails (NewFatalWrappedError (Some err)
                    (''error instantiating orchestration for '' @ om_ID manifest)), s)
                | Some (Inr orch) \<Rightarrow>
                    execute_orchestration orc (om_ID manifest)
                      (orch\<lparr>o_CompensatedOrchestrationID := om_CompensatedManifestID manifest\<rparr>) s)))"

definition Start ::
    "('s, orchestration) trx \<Rightarrow> 's definition_store_ops \<Rightarrow> 's orchestrator_ops \<Rightarrow> range_order \<Rightarrow> int \<Rightarrow>
     orchestration_manifest \<Rightarrow> 's \<Rightarrow> orchestration call_result \<times> 's" where
  "Start execute ops orc ord now manifest s =
     (if om_ID manifest = [] then (Fails (NewClientError ''Missing required field: id''), s)
      else if om_OrchestrationType manifest = [] then
        (Fails (NewClientError ''Missing required field: orchestrationType''), s)
      else execute (start_callback ops orc ord now manifest) s)"

definition Manager_GetOrchestration :: "'s orchestrator_ops \<Rightarrow> string \<Rightarrow> 's \<Rightarrow> (go_error + orchestration option) \<times> 's" where
  "Manager_GetOrchestration orc oid s = oo_GetOrchestration orc oid s"

definition Cancel :: "string \<Rightarrow> 's \<Rightarrow> unit call_result \<times> 's" where
  "Cancel orchestrationID s = (Panics ''implement me'', s)"

text \<open>\<open>QueryOrchestrations\<close> for a consumer that does not stop: what the index yields, then the
  transaction's error.\<close>

definition QueryOrchestrations ::
    "('s, (go_error + orchestration_entry) list) trx \<Rightarrow> (predicate \<Rightarrow> pagination \<Rightarrow> 's \<Rightarrow> (go_error + orchestration_entry) list) \<Rightarrow>
     predicate \<Rightarrow> pagination \<Rightarrow> 's \<Rightarrow> (go_error + orchestration_entry) list call_result \<times> 's" where
  "QueryOrchestrations execute find_paginated p opts s =
     (case execute (\<lambda>s. (Returns (find_paginated p opts s), s)) s of
        (Returns seq, s) \<Rightarrow> (Returns seq, s)
      | (Fails err, s) \<Rightarrow>
          (Returns (if errors_Is err (Sentinel ''context.Canceled'') then [] else [Inl err]), s)
      | (Panics txt, s) \<Rightarrow> (Panics txt, s))"

definition CountOrchestrations ::
    "('s, int) trx \<Rightarrow> (predicate \<Rightarrow> 's \<Rightarrow> go_error + int) \<Rightarrow> predicate \<Rightarrow> 's \<Rightarrow> int call_result \<times> 's" where
  "CountOrchestrations execute count_by p s = execute (\<lambda>s. of_result (count_by p s, s)) s"

section \<open>What a client of an orchestrator relies on\<close>

text \<open>
  \<open>launches s\<close> are the orchestrations that were started so far, by the calls of this process:
  a read starts none, and a failed \<open>Execute\<close> of an orchestration that was not started has
  started none.
\<close>

locale orchestrator_laws =
  fixes orc :: "'s orchestrator_ops" and launches :: "'s \<Rightarrow> 'l list"
  assumes get_starts_nothing: "launches (snd (oo_GetOrchestration orc oid s)) = launches s"
    and failed_execute: "o_State orch = OrchestrationStateInitialized \<Longrightarrow>
      oo_Execute orc orch s = ((Some err, orch'), s') \<Longrightarrow> launches s' = launches s"
    and execute_once: "o_State orch = OrchestrationStateInitialized \<Longrightarrow>
      oo_Execute orc orch s = ((r, orch'), s') \<Longrightarrow>
      launches s' = launches s \<or> (\<exists>l. launches s' = l # launches s)"
    and execute_keeps: "oo_Execute orc orch s = ((r, orch'), s') \<Longrightarrow>
      o_ID orch' = o_ID orch \<and> o_CorrelationID orch' = o_CorrelationID orch \<and>
      o_OrchestrationType orch' = o_OrchestrationType orch"
begin

definition started_at_most_one :: "'s \<Rightarrow> 'a call_result \<times> 's \<Rightarrow> bool" where
  "started_at_most_one s r \<longleftrightarrow>
     launches (snd r) = launches s \<or> is_success (fst r) \<and> (\<exists>l. launches (snd r) = l # launches s)"

lemma execute_orchestration_launches:
  assumes "o_State orch = OrchestrationStateInitialized"
  shows "started_at_most_one s (execute_orchestration orc mid orch s)"
proof -
  obtain r orch' s' where e: "oo_Execute orc orch s = ((r, orch'), s')" by (metis surj_pair)
  show ?thesis
    using e failed_execute [OF assms, of s _ orch' s'] execute_once [OF assms e]
    by (cases r) (auto simp: execute_orchestration_def started_at_most_one_def)
qed

text \<open>A failed start has started nothing; a successful one starts at most one orchestration.\<close>

lemma start_callback_launches:
  assumes "fair_range ord"
  shows "started_at_most_one s (start_callback ops orc ord now m s)"
proof (cases "dso_FindOrchestrationDefinition ops (om_OrchestrationType m) s")
  case (Inr def)
  obtain g s1 where g: "oo_GetOrchestration orc (om_ID m) s = (g, s1)" by fastforce
  have s1: "launches s1 = launches s" using get_starts_nothing [of "om_ID m" s] g by simp
  then have same: "started_at_most_one s r = started_at_most_one s1 r" for r :: "orchestration call_result \<times> 's"
    by (simp add: started_at_most_one_def)
  have none: "started_at_most_one s1 (r, s1)" for r :: "orchestration call_result"
    by (simp add: started_at_most_one_def)
  show ?thesis
  proof (cases g)
    case (Inl err)
    with Inr g show ?thesis by (simp add: start_callback_def same none)
  next
    case got: (Inr found)
    show ?thesis
    proof (cases found)
      case (Some orch)
      with Inr g got show ?thesis
        by (simp add: start_callback_def same none execute_orchestration_launches)
    next
      case None
      show ?thesis
        by (rule InstantiateOrchestration_cases [OF assms, of now "om_ID m" "om_CorrelationID m"
              "om_OrchestrationType m" "od_Type def" "od_Activities def" "om_Payload m"])
          (use Inr g got None in \<open>simp_all add: start_callback_def same none execute_orchestration_launches\<close>)
    qed
  qed
qed (simp add: start_callback_def started_at_most_one_def)

end

section \<open>The orchestrator on NATS\<close>

text \<open>
  The world of the Provision Manager: the definitions, the orchestration index, and the log of
  what was done on NATS.
\<close>

record pm_world =
  pw_defs :: definition_store
  pw_index :: "orchestration_entry cache"
  pw_log :: log

definition nats_orchestrator :: "env \<Rightarrow> pm_world orchestrator_ops" where
  "nats_orchestrator env =
     \<lparr>oo_GetOrchestration = \<lambda>oid s. (let (r, w) = GetOrchestration env oid (pw_log s) in (r, s\<lparr>pw_log := w\<rparr>)),
      oo_Execute = \<lambda>orch s.
        (let (r, w) = Execute env orch (pw_log s);
             orch' = (if getInitialActivities orch = [] then orch else with_origin env (pw_log s) orch)
         in ((r, orch'), s\<lparr>pw_log := w\<rparr>))\<rparr>"

text \<open>An orchestration is started when a value of it that is not initialized any more is stored.\<close>

fun launch :: "event \<Rightarrow> bool" where
  "launch (EvUpdate b n (Inr m)) = (o_State b \<noteq> OrchestrationStateInitialized)"
| "launch _ = False"

definition launches_of :: "pm_world \<Rightarrow> event list" where
  "launches_of s = filter launch (pw_log s)"

lemma launch_accepted: "launch e \<Longrightarrow> accepted e"
  by (cases e rule: launch.cases) simp_all

lemma quiet_launch: "quiet es \<Longrightarrow> filter launch es = []"
  by (auto simp: quiet_def list_all_iff filter_empty_conv dest: launch_accepted)

lemma publishes_launch: "filter launch (rev (publishes orch as)) = []"
  by (auto simp: publishes_def filter_empty_conv)

lemma with_origin_keeps [simp]:
  "o_State (with_origin env w orch) = o_State orch" "o_ID (with_origin env w orch) = o_ID orch"
  "o_CorrelationID (with_origin env w orch) = o_CorrelationID orch"
  "o_OrchestrationType (with_origin env w orch) = o_OrchestrationType orch"
  by (simp_all add: with_origin_def)

lemma GetOrchestration_log: "snd (GetOrchestration env oid w) = EvGet oid (e_get env w oid) # w"
  using ReadOrchestration_added [of env oid w]
  by (auto simp: GetOrchestration_def split: prod.splits sum.splits)

lemma only_created_launch:
  assumes "only_created mine es" "o_State mine = OrchestrationStateInitialized"
  shows "filter launch es = []"
proof -
  have "\<not> launch e" if "e \<in> set es" for e
  proof
    assume l: "launch e"
    with that have "e \<in> set (filter accepted es)" by (simp add: launch_accepted)
    with assms(1) obtain m where "e = EvUpdate mine 0 (Inr m)" by (auto simp: only_created_def)
    with l assms(2) show False by simp
  qed
  then show ?thesis by (simp add: filter_empty_conv)
qed

lemma Execute_launches:
  assumes "o_State orch = OrchestrationStateInitialized" "Execute env orch w = (r, w')"
  shows "filter launch w' = filter launch w \<or> r = None \<and> (\<exists>e. filter launch w' = e # filter launch w)"
proof -
  let ?mine = "with_origin env w orch"
  obtain es where es: "w' = es @ w" and c: "case r of
      None \<Rightarrow> getInitialActivities orch \<noteq> [] \<and> (started ?mine es \<or> already_started ?mine es)
    | Some err \<Rightarrow> (getInitialActivities orch = [] \<and> es = []) \<or> (\<exists>cause. es = [EvUpdate ?mine 0 (Inl cause)]) \<or>
        (IsRecoverable err \<and> only_created ?mine es)"
    using Execute_outcome [of env orch w] assms(2) by auto
  have created: "\<not> launch (EvUpdate ?mine 0 (Inr m))" for m using assms(1) by simp
  show ?thesis
  proof (cases r)
    case None
    with c consider "started ?mine es" | "already_started ?mine es" by auto
    then show ?thesis
    proof cases
      case 1
      then obtain b n n' pre stored post where "es = EvUpdate b n (Inr n') # pre @ rev (publishes stored (getInitialActivities stored)) @ post"
        "quiet pre" "filter launch post = []" "launch (EvUpdate b n (Inr n'))"
        using created by (auto simp: started_def)
      with None es show ?thesis by (simp add: quiet_launch publishes_launch)
    next
      case 2
      then have "filter launch es = []" by (auto simp: already_started_def)
      with es show ?thesis by simp
    qed
  next
    case (Some err)
    with c have "filter launch es = []"
      using assms(1) by (auto intro: only_created_launch [of ?mine])
    with es show ?thesis by simp
  qed
qed

interpretation nats: orchestrator_laws "nats_orchestrator env" launches_of
proof unfold_locales
  fix oid s show "launches_of (snd (oo_GetOrchestration (nats_orchestrator env) oid s)) = launches_of s"
    using GetOrchestration_log [of env oid "pw_log s"]
    by (auto simp: nats_orchestrator_def launches_of_def split: prod.splits)
next
  fix orch :: orchestration and s s' orch' err
  assume "o_State orch = OrchestrationStateInitialized" "oo_Execute (nats_orchestrator env) orch s = ((Some err, orch'), s')"
  then show "launches_of s' = launches_of s"
    using Execute_launches [of orch env "pw_log s"]
    by (fastforce simp: nats_orchestrator_def launches_of_def split: prod.splits)
next
  fix orch :: orchestration and s s' orch' r
  assume "o_State orch = OrchestrationStateInitialized" "oo_Execute (nats_orchestrator env) orch s = ((r, orch'), s')"
  then show "launches_of s' = launches_of s \<or> (\<exists>l. launches_of s' = l # launches_of s)"
    using Execute_launches [of orch env "pw_log s"]
    by (fastforce simp: nats_orchestrator_def launches_of_def split: prod.splits)
qed (auto simp: nats_orchestrator_def split: prod.splits)

section \<open>Starting on NATS\<close>

lemma execute_nats_started:
  assumes "execute_orchestration (nats_orchestrator env) mid orch s = (Returns orch', s')"
  obtains es where "pw_log s' = es @ pw_log s" "started orch' es \<or> already_started orch' es"
    "orch' = with_origin env (pw_log s) orch"
proof -
  obtain r es where e: "Execute env orch (pw_log s) = (r, es @ pw_log s)"
    and c: "case r of None \<Rightarrow> getInitialActivities orch \<noteq> [] \<and>
          (started (with_origin env (pw_log s) orch) es \<or> already_started (with_origin env (pw_log s) orch) es)
      | Some err \<Rightarrow> True"
    using Execute_outcome [of env orch "pw_log s"] by (auto split: option.splits)
  from assms e have "r = None" by (auto simp: execute_orchestration_def nats_orchestrator_def split: option.splits)
  with assms e c show thesis
    by (intro that [of es]) (auto simp: execute_orchestration_def nats_orchestrator_def)
qed

definition start_returned :: "env \<Rightarrow> orchestration_manifest \<Rightarrow> log \<Rightarrow> orchestration \<Rightarrow> log \<Rightarrow> bool" where
  "start_returned env m w orch w' \<longleftrightarrow>
     o_OrchestrationType orch = om_OrchestrationType m \<and> o_CorrelationID orch = om_CorrelationID m \<and>
     (\<exists>es. w' = es @ EvGet (om_ID m) (e_get env w (om_ID m)) # w \<and>
        (es = [] \<and> o_State orch \<noteq> OrchestrationStateInitialized \<and>
           (\<exists>n. e_get env w (om_ID m) = Inr (Stored orch, n)) \<or>
         started orch es \<or> already_started orch es))"

lemma start_callback_returned:
  assumes "fair_range ord" "start_callback ops (nats_orchestrator env) ord now m s = (Returns orch, s')"
  shows "start_returned env m (pw_log s) orch (pw_log s')"
proof (cases "dso_FindOrchestrationDefinition ops (om_OrchestrationType m) s")
  case (Inr def)
  let ?ev = "EvGet (om_ID m) (e_get env (pw_log s) (om_ID m))"
  let ?s1 = "s\<lparr>pw_log := ?ev # pw_log s\<rparr>"
  obtain g where g: "GetOrchestration env (om_ID m) (pw_log s) = (g, ?ev # pw_log s)"
    using GetOrchestration_log [of env "om_ID m" "pw_log s"] by (metis prod.collapse)
  then have oo: "oo_GetOrchestration (nats_orchestrator env) (om_ID m) s = (g, ?s1)"
    by (simp add: nats_orchestrator_def)
  have exec: ?thesis
    if "execute_orchestration (nats_orchestrator env) (om_ID m) x ?s1 = (Returns orch, s')"
      "o_OrchestrationType x = om_OrchestrationType m" "o_CorrelationID x = om_CorrelationID m" for x
  proof -
    note x = that
    obtain es where es: "pw_log s' = es @ pw_log ?s1" "started orch es \<or> already_started orch es"
      "orch = with_origin env (pw_log ?s1) x"
      by (rule execute_nats_started [OF x(1)])
    have "o_OrchestrationType orch = om_OrchestrationType m" "o_CorrelationID orch = om_CorrelationID m"
      unfolding es(3) using x(2,3) by simp_all
    with es(1,2) show ?thesis by (simp add: start_returned_def)
  qed
  show ?thesis
  proof (cases g)
    case (Inl err)
    with Inr oo assms(2) show ?thesis by (simp add: start_callback_def)
  next
    case got: (Inr found)
    show ?thesis
    proof (cases found)
      case (Some x)
      show ?thesis
      proof (cases "o_State x = OrchestrationStateInitialized")
        case True
        with Inr oo assms(2) got Some show ?thesis
          by (intro exec [of x]) (auto simp: start_callback_def split: if_splits)
      next
        case False
        have "\<exists>n. e_get env (pw_log s) (om_ID m) = Inr (Stored x, n)"
          using g got Some
          by (auto simp: GetOrchestration_def ReadOrchestration_def Let_def
              split: sum.splits prod.splits kv_value.splits if_splits)
        with False Inr oo assms(2) got Some show ?thesis
          by (auto simp: start_callback_def start_returned_def split: if_splits)
      qed
    next
      case None
      from assms(2) Inr oo got None obtain x where
        x: "InstantiateOrchestration ord now (om_ID m) (om_CorrelationID m) (om_OrchestrationType m)
            (od_Type def) (od_Activities def) (om_Payload m) = Some (Inr x)"
        "execute_orchestration (nats_orchestrator env) (om_ID m)
           (x\<lparr>o_CompensatedOrchestrationID := om_CompensatedManifestID m\<rparr>) ?s1 = (Returns orch, s')"
        by (auto simp: start_callback_def split: option.splits sum.splits)
      have "o_OrchestrationType x = om_OrchestrationType m \<and> o_CorrelationID x = om_CorrelationID m"
        by (rule InstantiateOrchestration_cases [OF assms(1), of now "om_ID m" "om_CorrelationID m"
              "om_OrchestrationType m" "od_Type def" "od_Activities def" "om_Payload m"])
          (use x(1) in simp_all)
      then show ?thesis by (intro exec [OF x(2)]) simp_all
    qed
  qed
qed (use assms in \<open>simp add: start_callback_def\<close>)

lemma nats_keeps_stores:
  "pw_defs (snd (oo_GetOrchestration (nats_orchestrator env) oid s)) = pw_defs s"
  "pw_index (snd (oo_GetOrchestration (nats_orchestrator env) oid s)) = pw_index s"
  "pw_defs (snd (oo_Execute (nats_orchestrator env) orch s)) = pw_defs s"
  "pw_index (snd (oo_Execute (nats_orchestrator env) orch s)) = pw_index s"
  by (simp_all add: nats_orchestrator_def Let_def split: prod.splits)

lemma execute_nats_keeps_stores:
  "pw_defs (snd (execute_orchestration (nats_orchestrator env) mid orch s)) = pw_defs s \<and>
   pw_index (snd (execute_orchestration (nats_orchestrator env) mid orch s)) = pw_index s \<and>
   (\<forall>reason. fst (execute_orchestration (nats_orchestrator env) mid orch s) \<noteq> Panics reason)"
  using nats_keeps_stores(3,4) [of env orch s]
  by (auto simp: execute_orchestration_def split: prod.splits option.splits)

lemma start_callback_keeps_stores:
  assumes "fair_range ord"
  shows "pw_defs (snd (start_callback ops (nats_orchestrator env) ord now m s)) = pw_defs s \<and>
    pw_index (snd (start_callback ops (nats_orchestrator env) ord now m s)) = pw_index s \<and>
    (\<forall>reason. fst (start_callback ops (nats_orchestrator env) ord now m s) \<noteq> Panics reason)"
proof (cases "dso_FindOrchestrationDefinition ops (om_OrchestrationType m) s")
  case (Inr def)
  obtain g s1 where g: "oo_GetOrchestration (nats_orchestrator env) (om_ID m) s = (g, s1)" by fastforce
  have s1: "pw_defs s1 = pw_defs s" "pw_index s1 = pw_index s"
    using nats_keeps_stores(1,2) [of env "om_ID m" s] g by simp_all
  show ?thesis
    by (rule InstantiateOrchestration_cases [OF assms, of now "om_ID m" "om_CorrelationID m"
          "om_OrchestrationType m" "od_Type def" "od_Activities def" "om_Payload m"])
      (cases g; (simp add: start_callback_def Inr g s1 execute_nats_keeps_stores split: option.split))+
qed (simp add: start_callback_def)

lemma Start_outcome:
  assumes "fair_range ord" "Start NoOp_Execute ops (nats_orchestrator env) ord now m s = (r, s')"
  shows "(launches_of s' = launches_of s \<or> is_success r \<and> (\<exists>l. launches_of s' = l # launches_of s)) \<and>
    (case r of Returns orch \<Rightarrow> start_returned env m (pw_log s) orch (pw_log s')
     | Fails err \<Rightarrow> pw_defs s' = pw_defs s \<and> pw_index s' = pw_index s
     | Panics reason \<Rightarrow> False)"
proof (cases "om_ID m = [] \<or> om_OrchestrationType m = []")
  case True
  with assms(2) have "\<exists>err. (r, s') = (Fails err, s)" by (auto simp: Start_def split: if_splits)
  then show ?thesis by auto
next
  case False
  with assms(2) have eq: "start_callback ops (nats_orchestrator env) ord now m s = (r, s')"
    by (simp add: Start_def NoOp_Execute_def)
  from nats.start_callback_launches [OF assms(1), where env = env and s = s and ops = ops and now = now and m = m]
    start_callback_keeps_stores [OF assms(1), of ops env now m s]
    start_callback_returned [OF assms(1), of ops env now m s]
  show ?thesis unfolding eq nats.started_at_most_one_def by (cases r) auto
qed


section \<open>A concrete start\<close>

definition sample_definition :: orchestration_definition where
  "sample_definition = \<lparr>od_Type = VPADeployType, od_TemplateRef = ''t'', od_Version = 1, od_Description = [],
     od_Active = True, od_Schema = [], od_Activities = two_step_activities\<rparr>"

definition sample_world :: pm_world where
  "sample_world = \<lparr>pw_defs = \<lparr>orchestrationDefinitions = [(VPADeployType, sample_definition)], activityDefinitions = []\<rparr>,
     pw_index = [], pw_log = []\<rparr>"

definition sample_manifest :: orchestration_manifest where
  "sample_manifest = \<lparr>om_ID = ''m1'', om_CorrelationID = ''c1'', om_OrchestrationType = VPADeployType,
     om_Payload = [], om_CompensatedManifestID = []\<rparr>"

definition pm_definitions :: "(gval \<Rightarrow> string) \<Rightarrow> pm_world definition_store_ops" where
  "pm_definitions fmt_v = memory_definition_store fmt_v pw_defs (\<lambda>d s. s\<lparr>pw_defs := d\<rparr>)"

text \<open>
  The value under an ID appears between the look-up and the creation: \<open>other\<close> is stored by a
  concurrent start.
\<close>

definition racing_env :: "orchestration \<Rightarrow> env" where
  "racing_env other = \<lparr>
     e_get = \<lambda>w k. if w = [] then Inl (Sentinel ''jetstream.ErrKeyNotFound'') else Inr (Stored other, 7),
     e_update = \<lambda>w v n. Inl (APIError 10071 ''wrong last sequence''),
     e_activity = \<lambda>w s i m. None, e_response = \<lambda>w r. None,
     e_run = \<lambda>w h c. RunPanicked [], e_ack = \<lambda>w. None, e_nak = \<lambda>w d. None, e_term = \<lambda>w. None,
     e_now = \<lambda>w. 7, e_uuid = \<lambda>w. ''u'', e_inject = \<lambda>w. []\<rparr>"

lemma sample_instantiated:
  "\<exists>orch. InstantiateOrchestration (\<lambda>n ks. rev ks) 5 ''m1'' ''c1'' VPADeployType VPADeployType two_step_activities [] =
     Some (Inr orch) \<and> getInitialActivities orch \<noteq> [] \<and> o_ID orch = ''m1'' \<and> o_OrchestrationType orch = VPADeployType \<and>
     o_CorrelationID orch = ''c1''"
proof -
  have "(case InstantiateOrchestration (\<lambda>n ks. rev ks) 5 ''m1'' ''c1'' VPADeployType VPADeployType two_step_activities [] of
     Some (Inr orch) \<Rightarrow> getInitialActivities orch \<noteq> [] \<and> o_ID orch = ''m1'' \<and> o_OrchestrationType orch = VPADeployType \<and>
        o_CorrelationID orch = ''c1'' | _ \<Rightarrow> False)"
    by code_simp
  then show ?thesis by (auto split: option.splits sum.splits)
qed

definition other_orchestration :: orchestration where
  "other_orchestration = \<lparr>o_ID = ''m1'', o_CorrelationID = ''c2'', o_DefinitionID = ''d2'',
     o_State = OrchestrationStateRunning, o_StateTimestamp = 5, o_CreatedTimestamp = 5,
     o_OrchestrationType = VPADisposeType, o_Steps = [], o_ProcessingData = [], o_OutputData = [], o_Completed = [],
     o_EngineState = empty_engine_state, o_OriginTraceContext = [], o_CompensatedOrchestrationID = []\<rparr>"


text \<open>
  The check that a manifest does not reuse the ID of another orchestration is not made again
  when the creation meets a value that was stored meanwhile: whatever running orchestration that
  is, with its own type, correlation ID and payload, \<open>Start\<close> reports success, returns an
  orchestration of the manifest's type under the ID, and nothing of the manifest is launched.
\<close>

theorem Start_race_reported_started:
  "\<exists>orch s'. Start NoOp_Execute (pm_definitions fmt_v)
       (nats_orchestrator (racing_env (other\<lparr>o_State := OrchestrationStateRunning\<rparr>))) (\<lambda>n ks. rev ks) 5
       sample_manifest sample_world = (Returns orch, s') \<and>
     o_ID orch = ''m1'' \<and> o_OrchestrationType orch = VPADeployType \<and> o_CorrelationID orch = ''c1'' \<and>
     launches_of s' = [] \<and>
     hd (pw_log s') = EvGet ''m1'' (Inr (Stored (other\<lparr>o_State := OrchestrationStateRunning\<rparr>), 7))"
  using sample_instantiated
  by (auto simp: Start_def NoOp_Execute_def start_callback_def pm_definitions_def memory_definition_store_def
      FindOrchestrationDefinition_def sample_world_def sample_manifest_def sample_definition_def
      nats_orchestrator_def GetOrchestration_def ReadOrchestration_def racing_env_def execute_orchestration_def
      Execute_def with_origin_def isRevisionConflict_def Let_def launches_of_def errors_Is_def getInitialActivities_def model_constants)

end
