(* ===== verification/Provision_Messages.thy ===== *)
theory Provision_Messages
  imports Provision_Manager
begin

text \<open>
  The messages between the Tenant Manager and the Provision Manager: the handler of manifests
  (\<open>pmanager/natsprovision/handler.go\<close>), and the dispatcher of responses
  (\<open>tmanager/natsprovision/client.go\<close>, \<open>provision.go\<close>). Both run in the message processor of
  \<open>Nats_Messages\<close>.
\<close>

section \<open>Handling a manifest\<close>

text \<open>The UUIDs of a call are the values of \<open>uuids\<close>, in the order in which it asks for them.\<close>

definition startErrorDetail :: "go_error \<Rightarrow> string \<Rightarrow> string" where
  "startErrorDetail err uuid =
     (case errors_As (\<lambda>x. client_method x \<noteq> None) err of
        Some clientErr \<Rightarrow> if client_method clientErr = Some True then error_text clientErr
          else ''orchestration could not be started ['' @ uuid @ '']''
      | None \<Rightarrow> ''orchestration could not be started ['' @ uuid @ '']'')"

definition failure_response :: "(nat \<Rightarrow> string) \<Rightarrow> orchestration_manifest \<Rightarrow> go_error \<Rightarrow> orchestration_response" where
  "failure_response uuids manifest err =
     \<lparr>or_ID = uuids 0, or_ManifestID = om_ID manifest, or_CorrelationID = om_CorrelationID manifest,
      or_OrchestrationType = om_OrchestrationType manifest, or_Success = False,
      or_ErrorDetail = startErrorDetail err (uuids 1), or_Properties = [], or_CompensatedManifestID = []\<rparr>"

definition provision_dispatcher ::
    "(orchestration_manifest \<Rightarrow> 's \<Rightarrow> orchestration call_result \<times> 's) \<Rightarrow>
     (orchestration_response \<Rightarrow> 's \<Rightarrow> go_error option \<times> 's) \<Rightarrow> (nat \<Rightarrow> string) \<Rightarrow>
     orchestration_manifest \<Rightarrow> 's \<Rightarrow> unit call_result \<times> 's" where
  "provision_dispatcher start_orchestration publish uuids manifest s =
     (case start_orchestration manifest s of
        (Panics reason, s) \<Rightarrow> (Panics reason, s)
      | (Returns orch, s) \<Rightarrow> (Returns (), s)
      | (Fails err, s) \<Rightarrow>
          if IsRecoverable err then (Fails err, s)
          else (case publish (failure_response uuids manifest err) s of
              (Some err, s) \<Rightarrow> (Fails (NewRecoverableError (''failed to publish response: '' @ error_text err)), s)
            | (None, s) \<Rightarrow> (Returns (), s)))"

section \<open>Dispatching a response\<close>

type_synonym 's callback = "orchestration_response \<Rightarrow> 's \<Rightarrow> unit call_result \<times> 's"

definition Register :: "string \<Rightarrow> 's callback \<Rightarrow> (string, 's callback) gomap \<Rightarrow> (string, 's callback) gomap" where
  "Register orchestrationType handler handlers = put orchestrationType handler handlers"

definition Dispatch :: "(string, 's callback) gomap \<Rightarrow> 's callback" where
  "Dispatch handlers response s =
     (case lookup handlers (or_OrchestrationType response) of
        None \<Rightarrow> (Fails (NewFatalError (''provision handler not found for type: '' @ or_OrchestrationType response)), s)
      | Some handler \<Rightarrow> handler response s)"

text \<open>\<open>validate\<close> is the struct validator of the library.\<close>

definition response_dispatcher ::
    "(orchestration_response \<Rightarrow> go_error option) \<Rightarrow> (string, 's callback) gomap \<Rightarrow> 's callback" where
  "response_dispatcher validate handlers payload s =
     (case validate payload of
        Some err \<Rightarrow> (Fails (NewClientError (''invalid response: '' @ error_text err)), s)
      | None \<Rightarrow> Dispatch handlers payload s)"

section \<open>In the message processor\<close>

text \<open>
  A dispatcher that works on a state, run for one delivery. \<open>exceeded\<close> and \<open>stopped\<close> tell whether
  the deadline of the dispatch and the context of the caller were over when it returned.
\<close>

definition as_run :: "bool \<Rightarrow> bool \<Rightarrow> unit call_result \<Rightarrow> dispatcher_run" where
  "as_run exceeded stopped r =
     (case r of Returns u \<Rightarrow> Returned None exceeded stopped
      | Fails err \<Rightarrow> Returned (Some err) exceeded stopped
      | Panics reason \<Rightarrow> Panicked reason)"

definition process_delivery ::
    "processor \<Rightarrow> bool \<Rightarrow> bool \<Rightarrow> ('p \<Rightarrow> 's \<Rightarrow> unit call_result \<times> 's) \<Rightarrow> delivery \<Rightarrow> go_error + 'p \<Rightarrow> 's \<Rightarrow>
     (disposition list \<times> go_error option) \<times> 's" where
  "process_delivery n exceeded stopped dispatcher m payload s =
     (case payload of
        Inl err \<Rightarrow> (ProcessMessage n (\<lambda>p d. Panicked []) m payload, s)
      | Inr p \<Rightarrow>
          (case dispatcher p s of
             (r, s') \<Rightarrow> (ProcessMessage n (\<lambda>p d. as_run exceeded stopped r) m payload, s')))"

lemma process_delivery_disposition:
  assumes "dispatcher p s = (r, s')"
  shows "\<exists>err. process_delivery n exceeded stopped dispatcher m (Inr p) s =
    (([case r of Returns u \<Rightarrow> DoAck
       | Panics reason \<Rightarrow> DoTerm
       | Fails cause \<Rightarrow>
           let cause = the (dispatch_error n m (Some cause) exceeded stopped)
           in if \<not> shouldRetry cause then DoAck
              else if IsFinalDelivery (NumDelivered m) (maxDeliver n) then DoTerm
              else DoNak (RetryDelay (deliveryCount (NumDelivered m)))], err), s')"
  using assms
  by (cases r)
    (auto simp: process_delivery_def as_run_def ProcessMessage_def AckMessage_def TermOnPanic_def NakWithBackoff_def
      dispatch_error_def Let_def split: option.splits)

lemma dispatch_error_recoverable:
  "IsRecoverable err \<Longrightarrow> IsRecoverable (the (dispatch_error n m (Some err) exceeded stopped))"
  by (simp add: dispatch_error_def Let_def)

section \<open>Handling a manifest on NATS\<close>

definition pm_publish :: "env \<Rightarrow> orchestration_response \<Rightarrow> pm_world \<Rightarrow> go_error option \<times> pm_world" where
  "pm_publish env response s =
     (let r = e_response env (pw_log s) response in (r, s\<lparr>pw_log := EvResponse response r # pw_log s\<rparr>))"

definition manifest_handler ::
    "(gval \<Rightarrow> string) \<Rightarrow> env \<Rightarrow> range_order \<Rightarrow> int \<Rightarrow> (nat \<Rightarrow> string) \<Rightarrow> orchestration_manifest \<Rightarrow> pm_world \<Rightarrow>
     unit call_result \<times> pm_world" where
  "manifest_handler fmt_v env ord now uuids =
     provision_dispatcher (Start NoOp_Execute (pm_definitions fmt_v) (nats_orchestrator env) ord now) (pm_publish env) uuids"

text \<open>The detail of a failure that is not a client error is the same for all such errors.\<close>

lemma startErrorDetail_internal:
  "\<not> IsClientError err \<Longrightarrow> startErrorDetail err uuid = ''orchestration could not be started ['' @ uuid @ '']''"
  by (simp add: startErrorDetail_def IsClientError_def classified_def split: option.splits)

lemma manifest_handler_outcome:
  assumes "fair_range ord" "manifest_handler fmt_v env ord now uuids m s = (r, s')"
  shows "case r of
      Returns u \<Rightarrow>
        (\<exists>orch. start_returned env m (pw_log s) orch (pw_log s')) \<or>
        (\<exists>cause w. \<not> IsRecoverable cause \<and> pw_log s' = EvResponse (failure_response uuids m cause) None # w \<and>
           launches_of s' = launches_of s)
    | Fails err \<Rightarrow> IsRecoverable err \<and> launches_of s' = launches_of s
    | Panics reason \<Rightarrow> False"
proof -
  obtain q t where q: "Start NoOp_Execute (pm_definitions fmt_v) (nats_orchestrator env) ord now m s = (q, t)" by fastforce
  show ?thesis
  proof (cases q)
    case (Fails cause)
    with Start_outcome [OF assms(1) q] have same: "launches_of t = launches_of s" by simp
    show ?thesis
    proof (cases "IsRecoverable cause")
      case True
      with assms(2) q Fails same show ?thesis by (auto simp: manifest_handler_def provision_dispatcher_def)
    next
      case False
      with assms(2) q Fails same show ?thesis
        by (cases "e_response env (pw_log t) (failure_response uuids m cause)")
          (auto simp: manifest_handler_def provision_dispatcher_def pm_publish_def Let_def launches_of_def)
    qed
  qed (use assms(2) q Start_outcome [OF assms(1) q] in
      \<open>auto simp: manifest_handler_def provision_dispatcher_def\<close>)
qed


definition sample_processor :: processor where "sample_processor = \<lparr>MaxDeliver = 0, DispatchTimeout = 0\<rparr>"

definition first_delivery :: delivery where
  "first_delivery = \<lparr>Subject = CFMOrchestrationSubject, NumDelivered = Some 1, ack_result = None, nak_result = None,
     term_result = None\<rparr>"


end
