(* ===== verification/Index_Watcher.thy ===== *)
theory Index_Watcher
  imports Provision_Manager
begin

text \<open>
  The watcher that indexes the orchestrations stored on NATS and starts the compensation of those
  that failed (\<open>pmanager/natsorchestration/watcher.go\<close>), on any index, definition manager,
  provision manager and transaction context.
\<close>

section \<open>The watcher\<close>

record 's index_ops =
  ix_FindByID :: "string \<Rightarrow> 's \<Rightarrow> go_error + orchestration_entry"
  ix_Create :: "orchestration_entry \<Rightarrow> 's \<Rightarrow> (go_error + orchestration_entry) \<times> 's"
  ix_Update :: "orchestration_entry \<Rightarrow> 's \<Rightarrow> go_error option \<times> 's"

record 's watcher =
  w_index :: "'s index_ops"
  w_queryDefinitions :: "predicate \<Rightarrow> 's \<Rightarrow> orchestration_definition list call_result \<times> 's"
  w_start :: "orchestration_manifest \<Rightarrow> 's \<Rightarrow> orchestration call_result \<times> 's"

definition watcherRedeliveryDelay :: int where "watcherRedeliveryDelay = 5000000000"

definition CompensationID :: "string \<Rightarrow> string" where
  "CompensationID orchestrationID = orchestrationID @ ''-compensation''"

definition convertToEntry :: "orchestration \<Rightarrow> orchestration_entry" where
  "convertToEntry orch = \<lparr>oe_ID = o_ID orch, oe_Version = 0, oe_CorrelationID = o_CorrelationID orch,
     oe_State = o_State orch, oe_StateTimestamp = o_StateTimestamp orch,
     oe_CreatedTimestamp = o_CreatedTimestamp orch, oe_OrchestrationType = o_OrchestrationType orch,
     oe_DefinitionID = o_DefinitionID orch\<rparr>"

definition existsCompensationOrchestration :: "('s, 'x) watcher_scheme \<Rightarrow> string \<Rightarrow> string \<Rightarrow> 's \<Rightarrow> bool call_result \<times> 's" where
  "existsCompensationOrchestration w orchestrationType definitionID s =
     bind_outcome (w_queryDefinitions w (Eq ''type'' (VStr definitionID)) s) (\<lambda>definitions s.
       if length definitions \<noteq> 1 then
         (Fails (NewFatalError (''expected exactly one orchestration definition with ID '' @ definitionID @
            '', found '' @ nat_text (length definitions))), s)
       else
         bind_outcome (w_queryDefinitions w
             (And [Eq ''templateRef'' (VStr (od_TemplateRef (hd definitions))), Eq ''type'' (VStr orchestrationType)]) s)
           (\<lambda>compensations s. (Returns (length compensations = 1), s)))"

definition compensation_manifest :: "orchestration \<Rightarrow> orchestration_manifest" where
  "compensation_manifest orch = \<lparr>om_ID = CompensationID (o_ID orch), om_CorrelationID = o_CorrelationID orch,
     om_OrchestrationType = VPADisposeType, om_Payload = o_ProcessingData orch, om_CompensatedManifestID = o_ID orch\<rparr>"

definition startCompensationOrchestration :: "('s, 'x) watcher_scheme \<Rightarrow> orchestration \<Rightarrow> 's \<Rightarrow> unit call_result \<times> 's" where
  "startCompensationOrchestration w orch s =
     bind_outcome (existsCompensationOrchestration w VPADisposeType (o_DefinitionID orch) s) (\<lambda>exists s.
       if \<not> exists then (Returns (), s)
       else bind_outcome (w_start w (compensation_manifest orch) s) (\<lambda>compensation s. (Returns (), s)))"

definition terminal :: "orchestration_state \<Rightarrow> bool" where
  "terminal st \<longleftrightarrow> st = OrchestrationStateCompleted \<or> st = OrchestrationStateErrored"

text \<open>Nothing is done for a value that the index already shows or whose entry is in a terminal state.\<close>

definition skipped :: "orchestration_entry \<Rightarrow> orchestration \<Rightarrow> bool" where
  "skipped current orch \<longleftrightarrow>
     (oe_State current = o_State orch \<and> o_StateTimestamp orch = oe_StateTimestamp current) \<or>
     terminal (oe_State current)"

definition watch_callback :: "('s, 'x) watcher_scheme \<Rightarrow> orchestration \<Rightarrow> 's \<Rightarrow> unit call_result \<times> 's" where
  "watch_callback w orch s =
     (let found = ix_FindByID (w_index w) (o_ID orch) s; entry = convertToEntry orch
      in case found of
           Inl err \<Rightarrow>
             if \<not> errors_Is err ErrNotFound then
               (Fails (WrapError (''failed to look up orchestration entry: '' @ error_text err) err), s)
             else (case ix_Create (w_index w) entry s of
                 (Inl err, s) \<Rightarrow> (Fails (WrapError (''failed to create orchestration entry: '' @ error_text err) err), s)
               | (Inr _, s) \<Rightarrow> (Returns (), s))
         | Inr current \<Rightarrow>
             if skipped current orch then (Returns (), s)
             else (case ix_Update (w_index w) entry s of
                 (Some err, s) \<Rightarrow> (Fails (WrapError (''failed to update orchestration entry: '' @ error_text err) err), s)
               | (None, s) \<Rightarrow>
                   if o_State orch = OrchestrationStateErrored \<and> o_OrchestrationType orch \<noteq> VPADisposeType then
                     (case startCompensationOrchestration w orch s of
                        (Fails err, s) \<Rightarrow> (Fails (WrapError (''failed to start compensation: '' @ error_text err) err), s)
                      | r \<Rightarrow> r)
                   else (Returns (), s)))"

text \<open>How the message is answered. An error of answering is only logged.\<close>

datatype watch_reply = Acked | NakDelayed int | Crashed string

definition onMessage :: "('s, unit) trx \<Rightarrow> ('s, 'x) watcher_scheme \<Rightarrow> go_error + orchestration \<Rightarrow> 's \<Rightarrow> watch_reply \<times> 's" where
  "onMessage execute w data s =
     (case data of
        Inl err \<Rightarrow> (Acked, s)
      | Inr orch \<Rightarrow>
          (case execute (watch_callback w orch) s of
             (Panics reason, s) \<Rightarrow> (Crashed reason, s)
           | (Fails err, s) \<Rightarrow> (NakDelayed watcherRedeliveryDelay, s)
           | (Returns u, s) \<Rightarrow> (Acked, s)))"

section \<open>The watcher with stores in memory and orchestrations on NATS\<close>

definition pm_index :: "pm_world index_ops" where
  "pm_index =
     \<lparr>ix_FindByID = \<lambda>k s. FindByID entry_type k (pw_index s),
      ix_Create = \<lambda>e s. (let (r, c) = Create entry_type e (pw_index s) in (r, s\<lparr>pw_index := c\<rparr>)),
      ix_Update = \<lambda>e s. (let (r, c) = mem_update entry_type e (pw_index s) in (r, s\<lparr>pw_index := c\<rparr>))\<rparr>"

definition pm_watcher :: "(gval \<Rightarrow> string) \<Rightarrow> env \<Rightarrow> range_order \<Rightarrow> int \<Rightarrow> pm_world watcher" where
  "pm_watcher fmt_v env ord now =
     \<lparr>w_index = pm_index,
      w_queryDefinitions = QueryOrchestrationDefinitions NoOp_Execute (pm_definitions fmt_v),
      w_start = Start NoOp_Execute (pm_definitions fmt_v) (nats_orchestrator env) ord now\<rparr>"

abbreviation deliver :: "(gval \<Rightarrow> string) \<Rightarrow> env \<Rightarrow> range_order \<Rightarrow> int \<Rightarrow> go_error + orchestration \<Rightarrow> pm_world \<Rightarrow> watch_reply \<times> pm_world" where
  "deliver fmt_v env ord now \<equiv> onMessage NoOp_Execute (pm_watcher fmt_v env ord now)"

text \<open>What the index shows after an update was handled.\<close>

definition indexed :: "orchestration \<Rightarrow> (string \<Rightarrow> orchestration_entry option) \<Rightarrow> string \<Rightarrow> orchestration_entry option" where
  "indexed orch m =
     (if o_ID orch = [] then m
      else (case m (o_ID orch) of
          None \<Rightarrow> m(o_ID orch \<mapsto> convertToEntry orch)
        | Some e \<Rightarrow> if skipped e orch then m
                   else m(o_ID orch \<mapsto> IncrementVersion entry_type (convertToEntry orch))))"

text \<open>The updates that make the watcher start a compensation.\<close>

definition compensated :: "orchestration \<Rightarrow> (string \<Rightarrow> orchestration_entry option) \<Rightarrow> bool" where
  "compensated orch m \<longleftrightarrow>
     o_ID orch \<noteq> [] \<and> o_State orch = OrchestrationStateErrored \<and> o_OrchestrationType orch \<noteq> VPADisposeType \<and>
     (\<exists>e. m (o_ID orch) = Some e \<and> \<not> skipped e orch)"

lemma convertToEntry_simps [simp]:
  "oe_ID (convertToEntry orch) = o_ID orch" "oe_State (convertToEntry orch) = o_State orch"
  "oe_StateTimestamp (convertToEntry orch) = o_StateTimestamp orch"
  by (simp_all add: convertToEntry_def)

lemma entry_version_simps [simp]:
  "oe_StateTimestamp (IncrementVersion entry_type e) = oe_StateTimestamp e"
  by (simp add: entry_type_def)

lemma pm_index_simps:
  "ix_FindByID pm_index k s = (case lookup (pw_index s) k of None \<Rightarrow> Inl ErrNotFound | Some e \<Rightarrow> Inr e)"
  "ix_Create pm_index e s =
     (if oe_ID e = [] then (Inl ErrInvalidInput, s)
      else if has_key (pw_index s) (oe_ID e) then (Inl ErrConflict, s)
      else (Inr e, s\<lparr>pw_index := put (oe_ID e) e (pw_index s)\<rparr>))"
  "ix_Update pm_index e s =
     (if oe_ID e = [] then (Some ErrInvalidInput, s)
      else if has_key (pw_index s) (oe_ID e)
      then (None, s\<lparr>pw_index := put (oe_ID e) (IncrementVersion entry_type e) (pw_index s)\<rparr>)
      else (Some ErrNotFound, s))"
  by (simp_all add: pm_index_def FindByID_def Create_def mem_update_def Update_def Let_def split: option.split)

lemma pm_query:
  "w_queryDefinitions (pm_watcher fmt_v env ord now) p s =
     (Returns (filter (\<lambda>def. Matches (DefaultFieldMatcher fmt_v) (definition_value def) p)
        (map snd (orchestrationDefinitions (pw_defs s)))), s)"
  by (simp add: pm_watcher_def QueryOrchestrationDefinitions_def NoOp_Execute_def pm_definitions_def
      memory_definition_store_def FindOrchestrationDefinitionsByPredicate_def)

lemma pm_start:
  assumes "fair_range ord" "w_start (pm_watcher fmt_v env ord now) m s = (r, s')"
  shows "pw_defs s' = pw_defs s \<and> pw_index s' = pw_index s \<and> (\<forall>reason. r \<noteq> Panics reason) \<and>
    (launches_of s' = launches_of s \<or> is_success r \<and> (\<exists>l. launches_of s' = l # launches_of s))"
  using start_callback_keeps_stores [OF assms(1), of "pm_definitions fmt_v" env now m s]
    nats.start_callback_launches [OF assms(1), where env = env and s = s and ops = "pm_definitions fmt_v" and now = now and m = m]
    assms(2)
  by (auto simp: pm_watcher_def Start_def NoOp_Execute_def nats.started_at_most_one_def split: if_splits)

text \<open>The definitions by which a failed orchestration is compensated.\<close>

definition has_compensation :: "(gval \<Rightarrow> string) \<Rightarrow> orchestration \<Rightarrow> definition_store \<Rightarrow> bool call_result" where
  "has_compensation fmt_v orch d =
     (let matching = (\<lambda>p. filter (\<lambda>def. Matches (DefaultFieldMatcher fmt_v) (definition_value def) p)
        (map snd (orchestrationDefinitions d)));
          own = matching (Eq ''type'' (VStr (o_DefinitionID orch)))
      in if length own \<noteq> 1 then Fails (NewFatalError (''expected exactly one orchestration definition with ID '' @
            o_DefinitionID orch @ '', found '' @ nat_text (length own)))
         else Returns (length (matching (And [Eq ''templateRef'' (VStr (od_TemplateRef (hd own))),
            Eq ''type'' (VStr VPADisposeType)])) = 1))"

lemma pm_exists_compensation:
  "existsCompensationOrchestration (pm_watcher fmt_v env ord now) VPADisposeType (o_DefinitionID orch) s =
     (has_compensation fmt_v orch (pw_defs s), s)"
  by (simp add: existsCompensationOrchestration_def has_compensation_def pm_query Let_def)

lemma pm_compensation:
  assumes "fair_range ord" "startCompensationOrchestration (pm_watcher fmt_v env ord now) orch s = (r, s')"
  shows "pw_defs s' = pw_defs s \<and> pw_index s' = pw_index s \<and> (\<forall>reason. r \<noteq> Panics reason) \<and>
    (launches_of s' = launches_of s \<or> is_success r \<and> (\<exists>l. launches_of s' = l # launches_of s))"
proof (cases "has_compensation fmt_v orch (pw_defs s)")
  case (Returns b)
  obtain q t where q: "w_start (pm_watcher fmt_v env ord now) (compensation_manifest orch) s = (q, t)" by fastforce
  from pm_start [OF assms(1) q] assms(2) Returns q show ?thesis
    by (cases q) (auto simp: startCompensationOrchestration_def pm_exists_compensation split: if_splits)
qed (use assms(2) in \<open>auto simp: startCompensationOrchestration_def pm_exists_compensation has_compensation_def
    Let_def split: if_splits\<close>)

lemma watch_callback_outcome:
  assumes "fair_range ord" "watch_callback (pm_watcher fmt_v env ord now) orch s = (r, s')"
  shows "pw_defs s' = pw_defs s \<and> lookup (pw_index s') = indexed orch (lookup (pw_index s)) \<and>
    (\<forall>reason. r \<noteq> Panics reason) \<and>
    (launches_of s' = launches_of s \<or> is_success r \<and> (\<exists>l. launches_of s' = l # launches_of s)) \<and>
    (\<not> compensated orch (lookup (pw_index s)) \<longrightarrow>
       pw_log s' = pw_log s \<and> (o_ID orch \<noteq> [] \<longrightarrow> r = Returns ()))"
proof -
  let ?w = "pm_watcher fmt_v env ord now"
  have ix: "w_index ?w = pm_index" by (simp add: pm_watcher_def)
  note cb = watch_callback_def [of ?w orch s] ix pm_index_simps Let_def
  show ?thesis
  proof (cases "lookup (pw_index s) (o_ID orch)")
    case None
    then have "\<not> has_key (pw_index s) (o_ID orch)" by (simp add: has_key_def)
    with assms(2) None show ?thesis
      by (auto simp: cb indexed_def compensated_def lookup_put launches_of_def split: if_splits)
  next
    case (Some e)
    then have key: "has_key (pw_index s) (o_ID orch)" by (simp add: has_key_def)
    show ?thesis
    proof (cases "skipped e orch \<or> o_ID orch = []")
      case True
      with assms(2) Some show ?thesis
        by (auto simp: cb indexed_def compensated_def launches_of_def split: if_splits)
    next
      case False
      let ?t = "s\<lparr>pw_index := put (o_ID orch) (IncrementVersion entry_type (convertToEntry orch)) (pw_index s)\<rparr>"
      have t: "pw_defs ?t = pw_defs s" "lookup (pw_index ?t) = indexed orch (lookup (pw_index s))"
        "launches_of ?t = launches_of s" "pw_log ?t = pw_log s"
        using False Some by (auto simp: indexed_def lookup_put launches_of_def)
      show ?thesis
      proof (cases "o_State orch = OrchestrationStateErrored \<and> o_OrchestrationType orch \<noteq> VPADisposeType")
        case False': False
        with assms(2) Some key False have "r = Returns ()" "s' = ?t" by (auto simp: cb)
        with t show ?thesis by simp
      next
        case True
        obtain q u where q: "startCompensationOrchestration ?w orch ?t = (q, u)" by fastforce
        have comp: "compensated orch (lookup (pw_index s))" using True Some False by (simp add: compensated_def)
        from assms(2) Some key False True q have "s' = u" "is_success r = is_success q" "\<forall>reason. q \<noteq> Panics reason \<longrightarrow> r \<noteq> Panics reason"
          by (auto simp: cb split: call_result.splits)
        with pm_compensation [OF assms(1) q] t comp show ?thesis
          by (cases q; cases r) auto
      qed
    qed
  qed
qed

lemma deliver_outcome:
  assumes "fair_range ord" "deliver fmt_v env ord now (Inr orch) s = (reply, s')"
  shows "pw_defs s' = pw_defs s \<and> lookup (pw_index s') = indexed orch (lookup (pw_index s)) \<and>
    (\<forall>reason. reply \<noteq> Crashed reason) \<and>
    (launches_of s' = launches_of s \<or> reply = Acked \<and> (\<exists>l. launches_of s' = l # launches_of s)) \<and>
    (\<not> compensated orch (lookup (pw_index s)) \<longrightarrow>
       pw_log s' = pw_log s \<and> (o_ID orch \<noteq> [] \<longrightarrow> reply = Acked))"
proof -
  obtain r u where r: "watch_callback (pm_watcher fmt_v env ord now) orch s = (r, u)" by fastforce
  from watch_callback_outcome [OF assms(1) r] assms(2) r show ?thesis
    by (cases r) (auto simp: onMessage_def NoOp_Execute_def)
qed

text \<open>
  The watcher with the stores in memory: an update of an orchestration with an ID creates the
  entry if the index has none and replaces it unless it shows that state and time already or is
  in a terminal state; no other entry changes. Only an update to the errored state of an indexed
  orchestration that is not itself a disposal reaches NATS at all; every other one is just
  acknowledged. One message launches at most one orchestration, and none if it is to be
  redelivered.
\<close>

theorem onMessage_correct:
  assumes "fair_range ord"
  shows "case onMessage NoOp_Execute (pm_watcher fmt_v env ord now) (Inr orch) s of (reply, s') \<Rightarrow>
    pw_defs s' = pw_defs s \<and> lookup (pw_index s') = indexed orch (lookup (pw_index s)) \<and>
    (launches_of s' = launches_of s \<or> reply = Acked \<and> (\<exists>l. launches_of s' = l # launches_of s)) \<and>
    (compensated orch (lookup (pw_index s)) \<or> pw_log s' = pw_log s \<and> (reply = Acked \<or> o_ID orch = []))"
proof -
  obtain reply s' where d: "deliver fmt_v env ord now (Inr orch) s = (reply, s')" by fastforce
  show ?thesis unfolding d prod.case using deliver_outcome [OF assms d] by blast
qed

definition failing :: "orchestration \<Rightarrow> orchestration" where
  "failing orch = orch\<lparr>o_State := OrchestrationStateErrored, o_OrchestrationType := VPADeployType\<rparr>"

theorem onMessage_witness:
  "lookup (pw_index (snd (onMessage NoOp_Execute (pm_watcher (\<lambda>v. []) (racing_env other_orchestration) (\<lambda>n ks. rev ks) 5)
     (Inr (failing other_orchestration)) sample_world))) ''m1'' = Some (convertToEntry (failing other_orchestration)) \<and>
   pw_log (snd (onMessage NoOp_Execute (pm_watcher (\<lambda>v. []) (racing_env other_orchestration) (\<lambda>n ks. rev ks) 5)
     (Inr (failing other_orchestration)) sample_world)) = []"
proof -
  let ?e = "racing_env other_orchestration" and ?o = "failing other_orchestration"
  obtain reply s' where d: "onMessage NoOp_Execute (pm_watcher (\<lambda>v. []) ?e (\<lambda>n ks. rev ks) 5) (Inr ?o) sample_world = (reply, s')"
    by fastforce
  have "pw_index sample_world = []" "pw_log sample_world = []" "o_ID ?o = ''m1''"
    by (simp_all add: sample_world_def failing_def other_orchestration_def)
  with onMessage_correct [OF fair_range_rev, where fmt_v = "\<lambda>v. []" and env = ?e and now = 5 and orch = ?o and
      s = sample_world] d show ?thesis
    by (simp add: indexed_def compensated_def)
qed

section \<open>Sequences of updates\<close>

type_synonym update = "range_order \<times> int \<times> (go_error + orchestration)"

fun deliver_all :: "(gval \<Rightarrow> string) \<Rightarrow> env \<Rightarrow> update list \<Rightarrow> pm_world \<Rightarrow> pm_world" where
  "deliver_all fmt_v env [] s = s"
| "deliver_all fmt_v env ((ord, now, d) # us) s = deliver_all fmt_v env us (snd (deliver fmt_v env ord now d s))"

definition fair_updates :: "update list \<Rightarrow> bool" where
  "fair_updates us \<longleftrightarrow> list_all (\<lambda>(ord, now, d). fair_range ord) us"

fun orchestrations_of :: "update list \<Rightarrow> orchestration list" where
  "orchestrations_of [] = []"
| "orchestrations_of ((ord, now, d) # us) =
     (case d of Inl err \<Rightarrow> orchestrations_of us | Inr orch \<Rightarrow> orch # orchestrations_of us)"

lemma deliver_all_index:
  "fair_updates us \<Longrightarrow>
   lookup (pw_index (deliver_all fmt_v env us s)) = fold indexed (orchestrations_of us) (lookup (pw_index s))"
proof (induction fmt_v env us s rule: deliver_all.induct)
  case (2 fmt_v env ord now d us s)
  then have fair: "fair_range ord" "fair_updates us" by (simp_all add: fair_updates_def)
  show ?case
  proof (cases d)
    case (Inl err)
    with 2 fair show ?thesis by (simp add: onMessage_def)
  next
    case (Inr orch)
    obtain reply t where "deliver fmt_v env ord now (Inr orch) s = (reply, t)" by fastforce
    with 2 fair Inr deliver_outcome [OF fair(1) this] show ?thesis by simp
  qed
qed simp

lemma indexed_kept:
  "m k = Some e \<Longrightarrow> terminal (oe_State e) \<Longrightarrow> indexed orch m k = Some e"
  by (auto simp: indexed_def skipped_def split: option.splits)

lemma fold_indexed_kept:
  "m k = Some e \<Longrightarrow> terminal (oe_State e) \<Longrightarrow> fold indexed os m k = Some e"
  by (induction os arbitrary: m) (simp_all add: indexed_kept)

lemma indexed_terminal:
  assumes "o_ID orch \<noteq> []" "terminal (o_State orch)"
  shows "\<exists>e. indexed orch m (o_ID orch) = Some e \<and> terminal (oe_State e) \<and> (oe_State e = o_State orch \<or> m (o_ID orch) = Some e)"
  using assms by (auto simp: indexed_def skipped_def split: option.splits)

lemma indexed_origin:
  "indexed orch m k = Some e \<Longrightarrow> m k = Some e \<or> o_ID orch = k \<and> oe_State e = o_State orch"
  by (auto simp: indexed_def split: option.splits if_splits)

lemma fold_indexed_origin:
  "fold indexed os m k = Some e \<Longrightarrow> m k = Some e \<or> (\<exists>orch\<in>set os. o_ID orch = k \<and> oe_State e = o_State orch)"
proof (induction os arbitrary: m)
  case (Cons x os)
  then have "indexed x m k = Some e \<or> (\<exists>orch\<in>set os. o_ID orch = k \<and> oe_State e = o_State orch)" by simp
  then show ?case using indexed_origin [of x m k e] by auto
qed simp

lemma fold_indexed_terminal:
  assumes "orch \<in> set os" "o_ID orch \<noteq> []" "terminal (o_State orch)"
  shows "\<exists>e. fold indexed os m (o_ID orch) = Some e \<and> terminal (oe_State e)"
  using assms(1)
proof (induction os arbitrary: m)
  case (Cons x os)
  show ?case
  proof (cases "x = orch")
    case True
    obtain e where "indexed orch m (o_ID orch) = Some e" "terminal (oe_State e)"
      using indexed_terminal [OF assms(2,3), of m] by blast
    with fold_indexed_kept [of "indexed orch m" "o_ID orch" e os] True show ?thesis by auto
  next
    case False
    with Cons show ?thesis by simp
  qed
qed simp



section \<open>Compensation\<close>

lemma indexed_twice: "indexed orch (indexed orch m) = indexed orch m"
  by (auto simp: indexed_def skipped_def fun_eq_iff split: option.splits)

lemma not_compensated_again: "o_ID orch \<noteq> [] \<Longrightarrow> \<not> compensated orch (indexed orch m)"
  by (auto simp: compensated_def indexed_def skipped_def split: option.splits if_splits)

text \<open>
  With the stores in memory a redelivered update does nothing: it is acknowledged, the index
  is as it was and NATS is not reached. That holds too when the first delivery was answered with a
  NAK, because the entry it wrote is not taken back: a compensation whose start failed, even with a
  recoverable error, is never started.
\<close>

theorem redelivery_does_nothing:
  assumes "fair_range ord" "fair_range ord'" "o_ID orch \<noteq> []"
    and "onMessage NoOp_Execute (pm_watcher fmt_v env ord now) (Inr orch) s = (reply, s')"
  shows "case onMessage NoOp_Execute (pm_watcher fmt_v env ord' now') (Inr orch) s' of (reply', s'') \<Rightarrow>
    reply' = Acked \<and> lookup (pw_index s'') = lookup (pw_index s') \<and> pw_defs s'' = pw_defs s' \<and> pw_log s'' = pw_log s'"
proof -
  note 1 = deliver_outcome [OF assms(1,4)]
  obtain reply' s'' where 2: "deliver fmt_v env ord' now' (Inr orch) s' = (reply', s'')" by fastforce
  from deliver_outcome [OF assms(2) 2] 1 indexed_twice [of orch] not_compensated_again [OF assms(3)] assms(3) 2
  show ?thesis by simp
qed

theorem redelivery_witness:
  "case onMessage NoOp_Execute (pm_watcher (\<lambda>v. []) (racing_env other_orchestration) (\<lambda>n ks. rev ks) 6) (Inr other_orchestration)
      (snd (onMessage NoOp_Execute (pm_watcher (\<lambda>v. []) (racing_env other_orchestration) (\<lambda>n ks. rev ks) 5)
         (Inr other_orchestration) sample_world)) of (reply, s) \<Rightarrow> reply = Acked \<and> pw_log s = []"
proof -
  let ?w = "\<lambda>now. pm_watcher (\<lambda>v. []) (racing_env other_orchestration) (\<lambda>n ks. rev ks) now"
  obtain reply s' where d: "onMessage NoOp_Execute (?w 5) (Inr other_orchestration) sample_world = (reply, s')"
    by fastforce
  have "\<not> compensated other_orchestration (lookup (pw_index sample_world))" "pw_log sample_world = []"
    by (simp_all add: compensated_def sample_world_def)
  with deliver_outcome [OF fair_range_rev d] have log: "pw_log s' = []" by simp
  have "o_ID other_orchestration \<noteq> []" by (simp add: other_orchestration_def)
  from redelivery_does_nothing [OF fair_range_rev fair_range_rev this d, where now' = 6] log show ?thesis
    by (auto simp: d split: prod.splits)
qed

text \<open>In a store of definitions, which are kept by type, the one with a type is looked up.\<close>

lemma definition_type_field: "GetFieldValue (definition_value d) ''type'' = Inr (VStr (od_Type d))"
proof -
  have s: "split_on (CHR ''.'') ''type'' = [''type'']" by code_simp
  have f: "EqualFold ''Type'' ''type'' = True" "EqualFold ''TemplateRef'' ''type'' = False"
    "EqualFold ''Version'' ''type'' = False" "EqualFold ''Description'' ''type'' = False"
    "EqualFold ''Active'' ''type'' = False" "EqualFold ''Schema'' ''type'' = False"
    "EqualFold ''Activities'' ''type'' = False"
    by code_simp+
  show ?thesis
    by (simp add: GetFieldValue_def s definition_value_def deref_def getFieldValueCaseInsensitive_def f Interface_def)
qed

lemma matches_type: "Matches (DefaultFieldMatcher fmt_v) (definition_value d) (Eq ''type'' (VStr t)) \<longleftrightarrow> od_Type d = t"
  by (simp add: Eq_def DefaultFieldMatcher_def definition_type_field CompareValues_def
      compareValueForSingleElement_def equal_values_def toFloat64_def)

lemma filter_by_type:
  assumes "wf_map m" "list_all (\<lambda>(k, def). od_Type def = k) m"
  shows "filter (\<lambda>d. od_Type d = t \<and> P d) (map snd m) =
    (case lookup m t of Some d \<Rightarrow> if P d then [d] else [] | None \<Rightarrow> [])"
  using assms
proof (induction m)
  case (Cons x m)
  obtain k d where x: "x = (k, d)" by (cases x)
  have none: "lookup m k = None" using Cons.prems(1) x by (auto simp: wf_map_def map_of_eq_None_iff)
  from Cons x none show ?case by (auto simp: wf_map_def split: option.splits)
qed simp

lemma has_compensation_iff:
  assumes "wf_map (orchestrationDefinitions d)" "list_all (\<lambda>(k, def). od_Type def = k) (orchestrationDefinitions d)"
  shows "case lookup (orchestrationDefinitions d) (o_DefinitionID orch) of
     None \<Rightarrow> \<exists>err. has_compensation fmt_v orch d = Fails err
   | Some own \<Rightarrow> has_compensation fmt_v orch d = Returns
       (case lookup (orchestrationDefinitions d) VPADisposeType of
          None \<Rightarrow> False | Some def \<Rightarrow> od_TemplateRef def = od_TemplateRef own)"
proof -
  note f = filter_by_type [OF assms]
  have both: "Matches (DefaultFieldMatcher fmt_v) (definition_value x)
      (And [Eq ''templateRef'' (VStr tr), Eq ''type'' (VStr t)]) \<longleftrightarrow> od_Type x = t \<and> od_TemplateRef x = tr" for x tr t
    by (auto simp: And_def matches_templateRef matches_type)
  show ?thesis
    using f [of "o_DefinitionID orch" "\<lambda>d. True"]
    by (auto simp: has_compensation_def matches_type both f Let_def split: option.splits)
qed

text \<open>
  The update that takes an indexed orchestration to the errored state, in memory: the entry is
  written first. If the orchestration's definition exists and the definition of disposals has the
  same template, the manifest of the compensation is started, once: with the ID and the
  processing data of the failed orchestration and linked to it, and the message is acknowledged
  only if that succeeded. Without a disposal in the template it is acknowledged and nothing is
  started; without the definition it is to be redelivered.
\<close>

theorem onMessage_compensates:
  assumes "compensated orch (lookup (pw_index s))"
    and "wf_map (orchestrationDefinitions (pw_defs s))"
    and "list_all (\<lambda>(k, def). od_Type def = k) (orchestrationDefinitions (pw_defs s))"
  shows "let t = s\<lparr>pw_index := put (o_ID orch) (IncrementVersion entry_type (convertToEntry orch)) (pw_index s)\<rparr>;
             defs = lookup (orchestrationDefinitions (pw_defs s));
             r = onMessage NoOp_Execute (pm_watcher fmt_v env ord now) (Inr orch) s
    in (case defs (o_DefinitionID orch) of
          None \<Rightarrow> r = (NakDelayed watcherRedeliveryDelay, t)
        | Some own \<Rightarrow>
            if map_option od_TemplateRef (defs VPADisposeType) \<noteq> Some (od_TemplateRef own) then r = (Acked, t)
            else r = (case Start NoOp_Execute (pm_definitions fmt_v) (nats_orchestrator env) ord now (compensation_manifest orch) t of
                (Returns c, u) \<Rightarrow> (Acked, u)
              | (Fails err, u) \<Rightarrow> (NakDelayed watcherRedeliveryDelay, u)
              | (Panics reason, u) \<Rightarrow> (Crashed reason, u)))"
proof -
  let ?w = "pm_watcher fmt_v env ord now"
  let ?t = "s\<lparr>pw_index := put (o_ID orch) (IncrementVersion entry_type (convertToEntry orch)) (pw_index s)\<rparr>"
  from assms(1) obtain e where e: "o_ID orch \<noteq> []" "o_State orch = OrchestrationStateErrored"
    "o_OrchestrationType orch \<noteq> VPADisposeType" "lookup (pw_index s) (o_ID orch) = Some e" "\<not> skipped e orch"
    by (auto simp: compensated_def)
  then have key: "has_key (pw_index s) (o_ID orch)" by (simp add: has_key_def)
  have ix: "w_index ?w = pm_index" by (simp add: pm_watcher_def)
  have cb: "watch_callback ?w orch s = (case startCompensationOrchestration ?w orch ?t of
      (Fails err, s) \<Rightarrow> (Fails (WrapError (''failed to start compensation: '' @ error_text err) err), s) | r \<Rightarrow> r)"
    using e key by (simp add: watch_callback_def ix pm_index_simps Let_def)
  have st: "startCompensationOrchestration ?w orch ?t = bind_outcome (has_compensation fmt_v orch (pw_defs s), ?t) (\<lambda>exists s.
      if \<not> exists then (Returns (), s)
      else bind_outcome (Start NoOp_Execute (pm_definitions fmt_v) (nats_orchestrator env) ord now (compensation_manifest orch) s)
        (\<lambda>c s. (Returns (), s)))"
    unfolding startCompensationOrchestration_def pm_exists_compensation
    unfolding pm_watcher_def watcher.simps by simp
  have hc: "case lookup (orchestrationDefinitions (pw_defs s)) (o_DefinitionID orch) of
     None \<Rightarrow> \<exists>err. has_compensation fmt_v orch (pw_defs s) = Fails err
   | Some own \<Rightarrow> has_compensation fmt_v orch (pw_defs s) = Returns
       (map_option od_TemplateRef (lookup (orchestrationDefinitions (pw_defs s)) VPADisposeType) = Some (od_TemplateRef own))"
    using has_compensation_iff [OF assms(2,3), where orch = orch and fmt_v = fmt_v] by (auto split: option.splits)
  obtain q u where q: "Start NoOp_Execute (pm_definitions fmt_v) (nats_orchestrator env) ord now (compensation_manifest orch) ?t = (q, u)"
    by fastforce
  show ?thesis
    using hc by (cases q) (auto simp: onMessage_def NoOp_Execute_def cb st q Let_def split: option.splits)
qed

definition two_definitions :: pm_world where
  "two_definitions = sample_world\<lparr>pw_defs := \<lparr>orchestrationDefinitions = [(VPADeployType, sample_definition),
     (VPADisposeType, sample_definition\<lparr>od_Type := VPADisposeType\<rparr>)], activityDefinitions = []\<rparr>,
     pw_index := [(''m1'', convertToEntry other_orchestration)]\<rparr>"

text \<open>A failed deployment whose compensation cannot be created because NATS fails for another reason.\<close>

definition broken_env :: env where
  "broken_env = (racing_env other_orchestration)\<lparr>e_get := \<lambda>w k. Inl (ErrorString ''no responders'')\<rparr>"

theorem onMessage_compensates_witness:
  "\<exists>s'. onMessage NoOp_Execute (pm_watcher (\<lambda>v. []) broken_env (\<lambda>n ks. rev ks) 5)
     (Inr ((failing other_orchestration)\<lparr>o_DefinitionID := VPADeployType\<rparr>)) two_definitions = (NakDelayed watcherRedeliveryDelay, s') \<and>
     map_option oe_State (lookup (pw_index s') ''m1'') = Some OrchestrationStateErrored"
proof -
  let ?o = "(failing other_orchestration)\<lparr>o_DefinitionID := VPADeployType\<rparr>"
  have 1: "compensated ?o (lookup (pw_index two_definitions))"
    by (simp add: compensated_def failing_def other_orchestration_def two_definitions_def skipped_def terminal_def)
  have 2: "wf_map (orchestrationDefinitions (pw_defs two_definitions))"
    "list_all (\<lambda>(k, def). od_Type def = k) (orchestrationDefinitions (pw_defs two_definitions))"
    by (simp_all add: two_definitions_def wf_map_def sample_definition_def)
  show ?thesis
    using onMessage_compensates [OF 1 2, where fmt_v = "\<lambda>v. []" and env = broken_env and ord = "\<lambda>n ks. rev ks" and now = 5]
    by (simp add: two_definitions_def failing_def sample_definition_def Start_def NoOp_Execute_def start_callback_def
        compensation_manifest_def CompensationID_def pm_definitions_def memory_definition_store_def
        FindOrchestrationDefinition_def nats_orchestrator_def GetOrchestration_def ReadOrchestration_def broken_env_def
        other_orchestration_def Let_def errors_Is_def model_constants)
qed

text \<open>
  An orchestration that the watcher meets first as errored is indexed and acknowledged, and no
  compensation is started for it, whatever the definitions are.
\<close>

theorem first_seen_errored_not_compensated:
  assumes "lookup (pw_index s) (o_ID orch) = None" "o_ID orch \<noteq> []"
  shows "onMessage NoOp_Execute (pm_watcher fmt_v env ord now) (Inr orch) s =
    (Acked, s\<lparr>pw_index := put (o_ID orch) (convertToEntry orch) (pw_index s)\<rparr>)"
  using assms
  by (simp add: onMessage_def NoOp_Execute_def watch_callback_def pm_watcher_def pm_index_simps Let_def has_key_def)

theorem first_seen_errored_witness:
  "fst (onMessage NoOp_Execute (pm_watcher (\<lambda>v. []) (racing_env other_orchestration) (\<lambda>n ks. rev ks) 5)
     (Inr (failing other_orchestration)) sample_world) = Acked"
proof -
  have "lookup (pw_index sample_world) (o_ID (failing other_orchestration)) = None"
    "o_ID (failing other_orchestration) \<noteq> []"
    by (simp_all add: sample_world_def failing_def other_orchestration_def)
  from first_seen_errored_not_compensated [OF this, where fmt_v = "\<lambda>v. []" and env = "racing_env other_orchestration" and
      ord = "\<lambda>n ks. rev ks" and now = 5] show ?thesis by simp
qed

section \<open>The watcher in an SQL transaction\<close>

text \<open>Operations that work in the transaction that the context carries: they neither commit nor end it.\<close>

definition keeps_tx :: "('d, 'x) db_scheme \<Rightarrow> ('d, 'x) db_scheme \<Rightarrow> bool" where
  "keeps_tx s s' \<longleftrightarrow> (db_tx s \<noteq> None \<longrightarrow> db_committed s' = db_committed s \<and> db_tx s' \<noteq> None)"

definition transactional :: "(('d, 'x) db_scheme, 'y) watcher_scheme \<Rightarrow> bool" where
  "transactional w \<longleftrightarrow>
     (\<forall>e s. keeps_tx s (snd (ix_Create (w_index w) e s))) \<and>
     (\<forall>e s. keeps_tx s (snd (ix_Update (w_index w) e s))) \<and>
     (\<forall>p s. keeps_tx s (snd (w_queryDefinitions w p s))) \<and>
     (\<forall>m s. keeps_tx s (snd (w_start w m s)))"

lemma keeps_tx_refl [simp]: "keeps_tx s s"
  by (simp add: keeps_tx_def)

lemma keeps_tx_trans: "keeps_tx s t \<Longrightarrow> keeps_tx t u \<Longrightarrow> keeps_tx s u"
  by (simp add: keeps_tx_def)

lemma keeps_tx_bind:
  assumes "keeps_tx s (snd r)" "\<And>a t. keeps_tx s t \<Longrightarrow> keeps_tx s (snd (f a t))"
  shows "keeps_tx s (snd (bind_outcome r f))"
  using assms by (cases r; cases "fst r") auto

lemma startCompensation_keeps_tx:
  assumes "transactional w"
  shows "keeps_tx s (snd (startCompensationOrchestration w orch s))"
proof -
  have "keeps_tx s t \<Longrightarrow> keeps_tx s (snd (w_queryDefinitions w p t))"
    "keeps_tx s t \<Longrightarrow> keeps_tx s (snd (w_start w m t))" for p m t
    using assms keeps_tx_trans [of s t] by (auto simp: transactional_def)
  then show ?thesis
    unfolding startCompensationOrchestration_def existsCompensationOrchestration_def
    by (auto intro!: keeps_tx_bind)
qed

lemma watch_callback_tx_local:
  assumes "transactional w"
  shows "tx_local (watch_callback w orch)"
proof -
  have "keeps_tx s (snd (watch_callback w orch s))" for s
  proof (cases "ix_FindByID (w_index w) (o_ID orch) s")
    case (Inl err)
    obtain r t where c: "ix_Create (w_index w) (convertToEntry orch) s = (r, t)" by fastforce
    then have "keeps_tx s t" using assms by (metis snd_conv transactional_def)
    with Inl c show ?thesis by (cases r) (simp_all add: watch_callback_def)
  next
    case (Inr current)
    obtain r t where c: "ix_Update (w_index w) (convertToEntry orch) s = (r, t)" by fastforce
    then have k: "keeps_tx s t" using assms by (metis snd_conv transactional_def)
    have "keeps_tx s (snd (startCompensationOrchestration w orch t))"
      using keeps_tx_trans [OF k startCompensation_keeps_tx [OF assms]] .
    with Inr c k show ?thesis
      by (cases r; cases "startCompensationOrchestration w orch t"; cases "fst (startCompensationOrchestration w orch t)")
        (auto simp: watch_callback_def Let_def)
  qed
  then show ?thesis by (auto simp: tx_local_def keeps_tx_def)
qed

text \<open>
  In an SQL transaction a message that is not acknowledged leaves the committed data as they
  were, so its redelivery finds what the first delivery found and starts the compensation again;
  an acknowledged one committed all of the callback's work. That holds for any index, definition
  manager and provision manager that join the transaction of the context.
\<close>

theorem onMessage_SQL_atomic:
  assumes "transactional w" "db_tx s = None"
  shows "case onMessage (SQL_Execute env) w (Inr orch) s of (reply, s') \<Rightarrow>
    db_tx s' = None \<and>
    db_committed s' = (if reply = Acked then the (db_tx (snd (watch_callback w orch (tx_begin s)))) else db_committed s)"
proof -
  obtain r t where e: "SQL_Execute env (watch_callback w orch) s = (r, t)" by fastforce
  note loc = watch_callback_tx_local [OF assms(1), of orch]
  have "db_tx (snd (watch_callback w orch (tx_begin s))) \<noteq> None"
    using loc by (simp add: tx_local_def tx_begin_def)
  with sql.atomic [OF loc assms(2), of env] sql.stays_outside [OF loc assms(2), of env] e show ?thesis
    by (cases r) (auto simp: onMessage_def)
qed

text \<open>A watcher whose index is a table of the database and whose provision manager always fails.\<close>

definition in_tx :: "('c \<Rightarrow> 'r \<times> 'c) \<Rightarrow> 'c db \<Rightarrow> 'r \<times> 'c db" where
  "in_tx f s = (case f (the (db_tx s)) of (r, c) \<Rightarrow> (r, s\<lparr>db_tx := Some c\<rparr>))"

definition failing_watcher :: "orchestration_entry cache db watcher" where
  "failing_watcher =
     \<lparr>w_index = \<lparr>ix_FindByID = \<lambda>k s. FindByID entry_type k (the (db_tx s)),
        ix_Create = \<lambda>e. in_tx (Create entry_type e), ix_Update = \<lambda>e. in_tx (mem_update entry_type e)\<rparr>,
      w_queryDefinitions = \<lambda>p s. (Returns [sample_definition], s),
      w_start = \<lambda>m s. (Fails (NewRecoverableError ''no responders''), s)\<rparr>"

theorem onMessage_SQL_witness:
  "db_committed (snd (onMessage (SQL_Execute reliable_db) failing_watcher (Inr (failing other_orchestration))
     \<lparr>db_committed = [(''m1'', convertToEntry other_orchestration)], db_tx = None, db_calls = 0\<rparr>)) =
     [(''m1'', convertToEntry other_orchestration)]"
proof -
  let ?s = "\<lparr>db_committed = [(''m1'', convertToEntry other_orchestration)], db_tx = None, db_calls = 0\<rparr>"
  have w: "transactional failing_watcher"
    by (auto simp: transactional_def keeps_tx_def failing_watcher_def in_tx_def split: prod.splits)
  have n: "fst (onMessage (SQL_Execute reliable_db) failing_watcher (Inr (failing other_orchestration)) ?s) \<noteq> Acked"
    by (simp add: onMessage_def SQL_Execute_def reliable_db_def watch_callback_def failing_watcher_def tx_begin_def
        FindByID_def failing_def other_orchestration_def skipped_def terminal_def in_tx_def mem_update_def Update_def
        has_key_def Let_def startCompensationOrchestration_def existsCompensationOrchestration_def)
  from onMessage_SQL_atomic [OF w, where s = ?s and env = reliable_db and orch = "failing other_orchestration"] n show ?thesis
    by (auto split: prod.splits)
qed

end
