(* ===== verification/Participant_Lifecycle.thy ===== *)
theory Participant_Lifecycle
  imports Tenant_Integrity Provision_Messages Index_Watcher
begin

text \<open>
  The life of a participant profile across the Tenant Manager, the Provision Manager and the
  messages between them, with the stores in memory.
\<close>

section \<open>Deploying\<close>

definition hosts :: "dataspace_profile list \<Rightarrow> cell \<Rightarrow> bool" where
  "hosts ds ce \<longleftrightarrow> ce_State ce = DeploymentStateActive \<and>
     (\<exists>d\<in>set ds. \<exists>x\<in>set (dp_Deployments d). dd_State x = DeploymentStateActive \<and> dd_CellID x = ce_ID ce)"

lemma defaultCellSelector_spec:
  "case defaultCellSelector ty cells ds of
     Inl err \<Rightarrow> \<forall>ce\<in>set cells. \<not> hosts ds ce
   | Inr ce \<Rightarrow> \<exists>pre post. cells = pre @ ce # post \<and> hosts ds ce \<and> (\<forall>x\<in>set pre. \<not> hosts ds x)"
proof (induction ty cells ds rule: defaultCellSelector.induct)
  case (2 ty ce cells ds)
  show ?case
  proof (cases "hosts ds ce")
    case True
    then have "defaultCellSelector ty (ce # cells) ds = Inr ce" by (auto simp: hosts_def list_ex_iff)
    with True show ?thesis by (auto intro: exI [of _ "[]"])
  next
    case False
    then have step: "defaultCellSelector ty (ce # cells) ds = defaultCellSelector ty cells ds"
      by (auto simp: hosts_def list_ex_iff)
    from False have "\<not> (ce_State ce = DeploymentStateActive \<and>
        list_ex (\<lambda>d. list_ex (\<lambda>x. dd_State x = DeploymentStateActive \<and> dd_CellID x = ce_ID ce) (dp_Deployments d)) ds)"
      by (auto simp: hosts_def list_ex_iff)
    from 2 [OF this] False show ?thesis
      unfolding step by (cases "defaultCellSelector ty cells ds") (auto, metis append_Cons set_ConsD)
  qed
qed simp

text \<open>A profile as it is stored when its deployment was sent.\<close>

definition deployed_in :: "tm_world \<Rightarrow> string \<Rightarrow> participant_deployment \<Rightarrow> orchestration_manifest \<Rightarrow> participant_profile \<Rightarrow> bool" where
  "deployed_in s tid d m p \<longleftrightarrow>
     pp_TenantID p = tid \<and> pp_Identifier p = pd_Identifier d \<and> has_key (tw_tenants s) tid \<and> length (pp_VPAs p) = 4 \<and>
     (\<exists>ce. lookup (tw_cells s) (ce_ID ce) = Some ce \<and> ce_State ce = DeploymentStateActive \<and>
        (\<forall>v\<in>set (pp_VPAs p). vpa_CellID v = ce_ID ce \<and> vpa_State v = DeploymentStatePending)) \<and>
     (\<forall>k\<in>set (pp_DataspaceProfileIDs p). has_key (tw_dataspaces s) k) \<and>
     om_CorrelationID m = pp_ID p \<and> om_OrchestrationType m = VPADeployType \<and>
     Properties_Get (pp_Properties p) pendingOrchestrationKey =
       Some (JObj [(''manifestId'', JStr (om_ID m)), (''orchestrationType'', JStr VPADeployType)])"

lemma deref_all_not_panics: "deref_all seq \<noteq> Panics reason"
proof (induction seq)
  case (Cons r seq)
  then show ?case by (cases r) (auto simp: deref_all_def split: call_result.splits)
qed (simp add: deref_all_def)

lemma filtered_profiles_not_panics: "getFilteredProfiles t ks s \<noteq> (Panics reason, s')"
  using deref_all_not_panics [of "eo_GetAll (tm_dataspaces t) s"]
  by (cases "deref_all (eo_GetAll (tm_dataspaces t) s)") (auto simp: getFilteredProfiles_def Let_def)

lemma selected_cell:
  assumes "defaultCellSelector ty cells ds = Inr ce"
  shows "ce \<in> set cells" "ce_State ce = DeploymentStateActive"
  using defaultCellSelector_spec [of cells ds ty] assms by (auto simp: hosts_def)

lemma deploy_callback_cases:
  assumes "tm_intact s" "deploy_callback (mem_tm fmt_v cd net) defaultCellSelector ord uuids now ctx tid d s = (r, s')"
  obtains err where "r = Fails err" "s' = s"
  | p m where "r = Returns (p, m)" "s' = s\<lparr>tw_participants := put (pp_ID p) p (tw_participants s)\<rparr>" "deployed_in s tid d m p"
      "lookup (tw_participants s) (pp_ID p) = None" "pp_ID p \<noteq> []" "om_ID m = uuids 5" "pr_ok s p"
proof -
  let ?t = "mem_tm fmt_v cd net"
  let ?early = "(\<exists>err. r = Fails err) \<and> s' = s"
  let ?m = "\<lambda>tn ds p. deploy_manifest (uuids 5) (p\<lparr>pp_Owner := tn_Owner tn\<rparr>) ds"
  obtain g where gf: "getFilteredProfiles ?t (pd_DataspaceProfileIDs d) s = (g, s)"
    by (metis filtered_profiles_state surj_pair)
  have g: "g \<noteq> Panics reason" for reason using gf filtered_profiles_not_panics by metis
  have "?early \<or> (\<exists>tn cells ds p q. lookup (tw_tenants s) tid = Some tn \<and>
      deref_all (eo_GetAll (tm_cells ?t) s) = Returns cells \<and>
      getFilteredProfiles ?t (pd_DataspaceProfileIDs d) s = (Returns ds, s) \<and>
      Generate defaultCellSelector uuids now (pd_Identifier d) tid (pd_ParticipantRoles d) (pd_VPAProperties d)
        (pd_Properties d) cells ds = Inr p \<and>
      eo_Create (tm_participants ?t) (setPendingOrchestration (?m tn ds p) (p\<lparr>pp_Owner := tn_Owner tn\<rparr>)) s = (q, s') \<and>
      r = (case q of Inl err \<Rightarrow> Fails (WrapError (''error creating participant '' @ pd_Identifier d @ '': '' @ error_text err) err)
           | Inr x \<Rightarrow> Returns (x, ?m tn ds p)))"
    using assms(2) deref_all_not_panics g
    by (auto simp: deploy_callback_def find_in_memory [OF assms(1)] bind_outcome_def Let_def gf split: service_splits)
  then consider (early) ?early | (create) tn cells ds p q where "lookup (tw_tenants s) tid = Some tn"
      "deref_all (eo_GetAll (tm_cells ?t) s) = Returns cells"
      "getFilteredProfiles ?t (pd_DataspaceProfileIDs d) s = (Returns ds, s)"
      "Generate defaultCellSelector uuids now (pd_Identifier d) tid (pd_ParticipantRoles d) (pd_VPAProperties d)
        (pd_Properties d) cells ds = Inr p"
      "eo_Create (tm_participants ?t) (setPendingOrchestration (?m tn ds p) (p\<lparr>pp_Owner := tn_Owner tn\<rparr>)) s = (q, s')"
      "r = (case q of Inl err \<Rightarrow> Fails (WrapError (''error creating participant '' @ pd_Identifier d @ '': '' @ error_text err) err)
           | Inr x \<Rightarrow> Returns (x, ?m tn ds p))"
    by blast
  then show thesis
  proof cases
    case early
    then show thesis using that(1) by blast
  next
    case create
    let ?p = "setPendingOrchestration (?m tn ds p) (p\<lparr>pp_Owner := tn_Owner tn\<rparr>)"
    have key: "has_key (tw_tenants s) tid" using create(1) by (simp add: has_key_def)
    note ok = generated_ok [OF assms(1) key create(2-4), of "?m tn ds p" "tn_Owner tn"]
    obtain c where c: "Create participant_type ?p (tw_participants s) = (q, c)" "s' = s\<lparr>tw_participants := c\<rparr>"
      using create(5) by (auto simp: mem_tm_simps split: prod.splits)
    show thesis
    proof (rule Create_cases [OF exact_types(2) intactD(2) [OF assms(1)] c(1)])
      fix err assume "q = Inl err" "c = tw_participants s"
      with c create(6) show thesis by (intro that(1)) auto
    next
      assume x: "q = Inr ?p" "GetID participant_type ?p \<noteq> []" "lookup (tw_participants s) (GetID participant_type ?p) = None"
        "c = put (GetID participant_type ?p) ?p (tw_participants s)" "cache_ok participant_type c"
      obtain ce where ce: "defaultCellSelector VPADeployType cells ds = Inr ce"
        and vs: "\<forall>v\<in>set (pp_VPAs p). vpa_CellID v = ce_ID ce \<and> vpa_State v = DeploymentStatePending"
        and p: "pp_TenantID p = tid" "pp_DataspaceProfileIDs p = map dp_ID ds" "length (pp_VPAs p) = 4"
        using generated_vpas [OF create(4)] by blast
      have "Inr ce \<in> set (GetAll fmt_v cell_type cd (tw_cells s))"
        using selected_cell(1) [OF ce] deref_all_Returns [OF create(2)] by (simp add: mem_tm_simps)
      then obtain k where k: "lookup (tw_cells s) k = Some ce" using GetAll_sound [OF intactD(3) [OF assms(1)]] by blast
      with cache_okD(1) [OF intactD(3) [OF assms(1)] k] have k: "lookup (tw_cells s) (ce_ID ce) = Some ce" by simp
      have id: "pp_Identifier p = pd_Identifier d" using create(4) by (auto simp: Generate_def split: sum.splits)
      have "deployed_in s tid d (?m tn ds p) ?p"
        using p vs id key k selected_cell(2) [OF ce] all_dataspaces_exist [OF assms(1) create(3)]
        by (auto simp: deployed_in_def setPendingOrchestration_def deploy_manifest_def Properties_Get_def lookup_put)
      with x c create(6) ok show thesis by (intro that(2) [of ?p "?m tn ds p"]) (simp_all add: deploy_manifest_def)
    qed
  qed
qed

lemma DeployProfile_correct_lemma:
  assumes "tm_intact s"
  shows "case DeployProfile NoOp_Execute NoOp_Execute (mem_tm fmt_v cd net) defaultCellSelector ord uuids now ctx tid d s of (r, s') \<Rightarrow>
    tw_tenants s' = tw_tenants s \<and> tw_cells s' = tw_cells s \<and> tw_dataspaces s' = tw_dataspaces s \<and>
    (case r of
       Returns p \<Rightarrow> \<exists>m. tw_sent s' = (m, None) # tw_sent s \<and> om_ID m = uuids 5 \<and> deployed_in s tid d m p \<and>
         pp_ID p \<noteq> [] \<and> lookup (tw_participants s) (pp_ID p) = None \<and>
         lookup (tw_participants s') = (lookup (tw_participants s))(pp_ID p \<mapsto> p)
     | Fails err \<Rightarrow> lookup (tw_participants s') = lookup (tw_participants s) \<and>
         (tw_sent s' = tw_sent s \<or> (\<exists>m cause. tw_sent s' = (m, Some cause) # tw_sent s))
     | Panics reason \<Rightarrow> False)"
proof -
  let ?t = "mem_tm fmt_v cd net"
  obtain r s1 where q: "deploy_callback ?t defaultCellSelector ord uuids now ctx tid d s = (r, s1)" by fastforce
  show ?thesis
  proof (rule deploy_callback_cases [OF assms q])
    fix err assume "r = Fails err" "s1 = s"
    with q show ?thesis by (simp add: DeployProfile_def NoOp_Execute_def)
  next
    fix p m assume x: "r = Returns (p, m)" "s1 = s\<lparr>tw_participants := put (pp_ID p) p (tw_participants s)\<rparr>" "deployed_in s tid d m p"
      "lookup (tw_participants s) (pp_ID p) = None" "pp_ID p \<noteq> []" "om_ID m = uuids 5" "pr_ok s p"
    have restored: "lookup (del (pp_ID p) (put (pp_ID p) p (tw_participants s))) = lookup (tw_participants s)"
      using x(4) by (auto simp: fun_eq_iff lookup_del lookup_put)
    have key: "has_key (put (pp_ID p) p (tw_participants s)) (pp_ID p)" by (simp add: has_key_def lookup_put)
    show ?thesis
      by (cases "net (tw_sent s) m")
        (use q x restored key in \<open>auto simp: DeployProfile_def mem_tm_simps Delete_def Let_def lookup_put\<close>)
  qed
qed


text \<open>
  C8. Deploying a profile is all or nothing across the store and the message: if it succeeds, the
  profile is stored under a new ID, with four pending agents in one active cell that exists, for a
  tenant and dataspace profiles that exist, waiting for exactly the manifest that was sent, once.
  If it fails, no profile is left, even when it was stored before the message could not be sent,
  and no manifest was delivered.
\<close>

theorem DeployProfile_correct:
  assumes "tm_intact s"
  shows "case DeployProfile NoOp_Execute NoOp_Execute (mem_tm fmt_v cd net) defaultCellSelector ord uuids now ctx tid d s of (r, s') \<Rightarrow>
    tw_tenants s' = tw_tenants s \<and> tw_cells s' = tw_cells s \<and> tw_dataspaces s' = tw_dataspaces s \<and>
    (case r of
       Returns p \<Rightarrow> \<exists>m. tw_sent s' = (m, None) # tw_sent s \<and> om_ID m = uuids 5 \<and> deployed_in s tid d m p \<and>
         pp_ID p \<noteq> [] \<and> lookup (tw_participants s) (pp_ID p) = None \<and>
         lookup (tw_participants s') = (lookup (tw_participants s))(pp_ID p \<mapsto> p)
     | Fails err \<Rightarrow> lookup (tw_participants s') = lookup (tw_participants s) \<and>
         (tw_sent s' = tw_sent s \<or> (\<exists>m cause. tw_sent s' = (m, Some cause) # tw_sent s))
     | Panics reason \<Rightarrow> False)"
  by (rule DeployProfile_correct_lemma [OF assms])

definition deployable_world :: tm_world where
  "deployable_world = failed_world\<lparr>tw_participants := [], tw_dataspaces := [(''d1'', \<lparr>dp_ID = ''d1'', dp_Version = 0,
     dp_ProtocolStack = [], dp_CredentialSpecs = [], dp_Artifacts = [],
     dp_Deployments = [\<lparr>dd_ID = ''x1'', dd_Version = 0, dd_State = DeploymentStateActive, dd_StateTimestamp = 0,
       dd_CellID = ''c1'', dd_ExternalCellID = [], dd_Properties = []\<rparr>], dp_Properties = None\<rparr>)]\<rparr>"

definition sample_deployment :: participant_deployment where
  "sample_deployment = \<lparr>pd_Identifier = ''did'', pd_CellID = [], pd_DataspaceProfileIDs = [], pd_ParticipantRoles = [],
     pd_VPAProperties = [], pd_Properties = None\<rparr>"

definition sample_deploy :: "participant_profile call_result \<times> tm_world" where
  "sample_deploy = DeployProfile NoOp_Execute NoOp_Execute (mem_tm (\<lambda>v. []) (\<lambda>i. None) (\<lambda>w m. None)) defaultCellSelector
     (\<lambda>ks. ks) (\<lambda>n. ''u'') 5 (Some (AllTenantsAccess ''admin'')) ''t1'' sample_deployment deployable_world"

lemma deployable_world_intact: "tm_intact deployable_world"
  by (auto simp: tm_intact_def deployable_world_def failed_world_def cache_ok_def wf_map_def sample_cell_def tenant_type_def
      dataspace_type_def cell_type_def copy_states_def IsValid_def dataspace_ok_def has_key_def)

lemma sample_deploy_returns: "\<exists>p. fst sample_deploy = Returns p"
proof -
  have "(case fst sample_deploy of Returns p \<Rightarrow> True | _ \<Rightarrow> False)" by code_simp
  then show ?thesis by (cases "fst sample_deploy") auto
qed

theorem DeployProfile_witness:
  "\<exists>p m. fst sample_deploy = Returns p \<and> tw_sent (snd sample_deploy) = [(m, None)] \<and> length (pp_VPAs p) = 4 \<and>
     om_CorrelationID m = pp_ID p \<and> lookup (tw_participants (snd sample_deploy)) (pp_ID p) = Some p"
proof -
  obtain p where p: "fst sample_deploy = Returns p" using sample_deploy_returns by blast
  with DeployProfile_correct [OF deployable_world_intact, where fmt_v = "\<lambda>v. []" and cd = "\<lambda>i. None" and
      net = "\<lambda>w m. None" and ord = "\<lambda>ks. ks" and uuids = "\<lambda>n. ''u''" and now = 5 and
      ctx = "Some (AllTenantsAccess ''admin'')" and tid = "''t1''" and d = sample_deployment]
  obtain m where "tw_sent (snd sample_deploy) = (m, None) # tw_sent deployable_world"
    "deployed_in deployable_world ''t1'' sample_deployment m p"
    "lookup (tw_participants (snd sample_deploy)) (pp_ID p) = Some p"
    by (auto simp: sample_deploy_def [symmetric] split_beta)
  with p show ?thesis by (auto simp: deployed_in_def deployable_world_def failed_world_def)
qed

section \<open>Responses\<close>

text \<open>The handlers that \<open>TMCoreServiceAssembly.Init\<close> registers.\<close>

definition response_handlers :: "('s, unit) trx \<Rightarrow> 's tm \<Rightarrow> (string, 's callback) gomap" where
  "response_handlers execute t =
     Register VPADisposeType (handleDispose execute t) (Register VPADeployType (handleDeploy execute t) [])"

text \<open>What the response leaves of a profile that waited for it.\<close>

definition settled :: "string \<Rightarrow> orchestration_response \<Rightarrow> participant_profile \<Rightarrow> participant_profile \<Rightarrow> bool" where
  "settled st resp p q \<longleftrightarrow>
     pp_ID q = pp_ID p \<and> pp_TenantID q = pp_TenantID p \<and> pp_DataspaceProfileIDs q = pp_DataspaceProfileIDs p \<and>
     pp_VPAs q = map (\<lambda>v. v\<lparr>vpa_State := st\<rparr>) (pp_VPAs p) \<and>
     (if or_Success resp then pending_of q = None \<and> pp_Error q = pp_Error p
      else pending_of q = pending_of p \<and> pp_Error q \<and> pp_ErrorDetail q = or_ErrorDetail resp)"

lemma pending_has_properties: "isPendingOrchestration p resp \<Longrightarrow> \<exists>m. pp_Properties p = Some m"
  by (auto simp: isPendingOrchestration_def pending_of_def Properties_Get_def split: option.splits)

lemma state_data_not_pending [simp]: "VPAStateData \<noteq> pendingOrchestrationKey" "pendingOrchestrationKey \<noteq> VPAStateData"
  by (simp_all add: VPAStateData_def pendingOrchestrationKey_def)

lemma updater_settles:
  assumes "isPendingOrchestration p resp"
  shows "\<exists>q. apply_response deploy_updater resp p = Returns q \<and>
      settled (if or_Success resp then DeploymentStateActive else DeploymentStateError) resp p q \<and>
      Properties_Get (pp_Properties q) VPAStateData = Some (JObj (copy_into (or_Properties resp) []))"
    "\<exists>q. apply_response dispose_updater resp p = Returns q \<and> settled DeploymentStateDisposed resp p q"
  using pending_has_properties [OF assms] removed_not_pending [of p]
  by (auto simp: apply_response_def deploy_updater_def dispose_updater_def settled_def set_states_def remove_pending_def
      pending_of_def Properties_Get_def lookup_put lookup_del)

lemma update_in_memory:
  assumes "tm_intact s" "lookup (tw_participants s) (pp_ID q) = Some p"
    "\<forall>v\<in>set (pp_VPAs q). vpa_State v = st" "IsValid st"
  shows "eo_Update (tm_participants (mem_tm fmt_v cd net)) q s =
    (None, s\<lparr>tw_participants := put (pp_ID q) (IncrementVersion participant_type q) (tw_participants s)\<rparr>)"
proof -
  let ?q = "IncrementVersion participant_type q"
  have "copyEntity participant_type ?q = Inr ?q"
    using assms(3,4) by (auto simp: participant_type_def copy_states_def find_None_iff split: option.splits)
  moreover have "pp_ID q \<noteq> []" using cache_okD(1,2) [OF intactD(2) [OF assms(1)] assms(2)] by simp
  moreover have "GetID participant_type ?q = pp_ID q" by (simp add: participant_type_def)
  ultimately show ?thesis
    using assms(2) by (simp add: mem_tm_simps mem_update_def Update_def Let_def has_key_def)
qed

lemma settled_version [simp]: "settled st resp p (IncrementVersion participant_type q) = settled st resp p q"
  by (simp add: settled_def participant_type_def pending_of_def Properties_Get_def)

lemma handle_settles:
  assumes "tm_intact s" "lookup (tw_participants s) (or_CorrelationID resp) = Some p" "isPendingOrchestration p resp"
    "apply_response h resp p = Returns q" "settled st resp p q" "IsValid st"
  shows "handle NoOp_Execute (mem_tm fmt_v cd net) h resp s = (Returns (),
    s\<lparr>tw_participants := put (or_CorrelationID resp) (IncrementVersion participant_type q) (tw_participants s)\<rparr>)"
proof -
  have "pp_ID q = or_CorrelationID resp"
    using assms(5) cache_okD(1) [OF intactD(2) [OF assms(1)] assms(2)] by (simp add: settled_def)
  moreover have "\<forall>v\<in>set (pp_VPAs q). vpa_State v = st" using assms(5) by (auto simp: settled_def)
  ultimately show ?thesis
    using assms update_in_memory [OF assms(1), of q p st] by (simp add: handle_def NoOp_Execute_def find_in_memory)
qed

lemma handle_ignores:
  assumes "tm_intact s"
    "\<And>p. lookup (tw_participants s) (or_CorrelationID resp) = Some p \<Longrightarrow> \<not> isPendingOrchestration p resp"
  shows "handle NoOp_Execute (mem_tm fmt_v cd net) h resp s = (Returns (), s)"
  using assms by (auto simp: handle_def NoOp_Execute_def find_in_memory split: option.splits sum.splits)

text \<open>The whole dispatch of a valid response.\<close>

abbreviation dispatch_in_memory ::
    "(gval \<Rightarrow> string) \<Rightarrow> (int \<Rightarrow> go_error option) \<Rightarrow> net \<Rightarrow> (orchestration_response \<Rightarrow> go_error option) \<Rightarrow>
     orchestration_response \<Rightarrow> tm_world \<Rightarrow> unit call_result \<times> tm_world" where
  "dispatch_in_memory fmt_v cd net validate \<equiv> response_dispatcher validate (response_handlers NoOp_Execute (mem_tm fmt_v cd net))"

lemma dispatch_by_type:
  assumes "validate resp = None"
  shows "dispatch_in_memory fmt_v cd net validate resp s =
    (if or_OrchestrationType resp = VPADeployType then handleDeploy NoOp_Execute (mem_tm fmt_v cd net) resp s
     else if or_OrchestrationType resp = VPADisposeType then handleDispose NoOp_Execute (mem_tm fmt_v cd net) resp s
     else (Fails (NewFatalError (''provision handler not found for type: '' @ or_OrchestrationType resp)), s))"
  using assms
  by (simp add: response_dispatcher_def Dispatch_def response_handlers_def Register_def lookup_put VPADeployType_def VPADisposeType_def)

lemma settled_states_valid [simp]:
  "IsValid DeploymentStateActive" "IsValid DeploymentStateError" "IsValid DeploymentStateDisposed"
  by (simp_all add: IsValid_def)

lemma deploy_response_settles:
  assumes "tm_intact s" "validate resp = None" "or_OrchestrationType resp = VPADeployType"
    "lookup (tw_participants s) (or_CorrelationID resp) = Some p" "isPendingOrchestration p resp"
  obtains q where "settled (if or_Success resp then DeploymentStateActive else DeploymentStateError) resp p q"
    "Properties_Get (pp_Properties q) VPAStateData = Some (JObj (copy_into (or_Properties resp) []))"
    "dispatch_in_memory fmt_v cd net validate resp s =
      (Returns (), s\<lparr>tw_participants := put (or_CorrelationID resp) q (tw_participants s)\<rparr>)"
proof -
  obtain q where q: "apply_response deploy_updater resp p = Returns q"
    "settled (if or_Success resp then DeploymentStateActive else DeploymentStateError) resp p q"
    "Properties_Get (pp_Properties q) VPAStateData = Some (JObj (copy_into (or_Properties resp) []))"
    using updater_settles(1) [OF assms(5)] by blast
  have "Properties_Get (pp_Properties (IncrementVersion participant_type q)) = Properties_Get (pp_Properties q)"
    by (simp add: participant_type_def)
  with q handle_settles [OF assms(1,4,5) q(1,2)] show thesis
    by (intro that [of "IncrementVersion participant_type q"])
      (simp_all add: dispatch_by_type [where validate = validate, OF assms(2)] assms(3) handleDeploy_def)
qed

lemma dispose_response_settles:
  assumes "tm_intact s" "validate resp = None" "or_OrchestrationType resp = VPADisposeType"
    "lookup (tw_participants s) (or_CorrelationID resp) = Some p" "isPendingOrchestration p resp"
  obtains q where "settled DeploymentStateDisposed resp p q"
    "dispatch_in_memory fmt_v cd net validate resp s =
      (Returns (), s\<lparr>tw_participants := put (or_CorrelationID resp) q (tw_participants s)\<rparr>)"
proof -
  obtain q where q: "apply_response dispose_updater resp p = Returns q" "settled DeploymentStateDisposed resp p q"
    using updater_settles(2) [OF assms(5)] by blast
  with handle_settles [OF assms(1,4,5) q(1,2)] show thesis
    by (intro that [of "IncrementVersion participant_type q"])
      (simp_all add: dispatch_by_type [where validate = validate, OF assms(2)] assms(3) handleDispose_def
        VPADeployType_def VPADisposeType_def)
qed



section \<open>From the deployment to its response\<close>

text \<open>
  The responses that the Provision Manager sends for a manifest: of the orchestration that ran for
  it, or that it could not start one.
\<close>

definition runs_for :: "orchestration_manifest \<Rightarrow> orchestration \<Rightarrow> bool" where
  "runs_for m orch \<longleftrightarrow> o_ID orch = om_ID m \<and> o_CorrelationID orch = om_CorrelationID m \<and>
     o_OrchestrationType orch = om_OrchestrationType m \<and> o_CompensatedOrchestrationID orch = om_CompensatedManifestID m"

definition answers_of_run :: "orchestration_manifest \<Rightarrow> orchestration_response \<Rightarrow> bool" where
  "answers_of_run m resp \<longleftrightarrow>
     (\<exists>env orch w r. runs_for m orch \<and> publishResponse env orch w = (r, EvResponse resp r # w))"

definition answers :: "orchestration_manifest \<Rightarrow> orchestration_response \<Rightarrow> bool" where
  "answers m resp \<longleftrightarrow> answers_of_run m resp \<or> (\<exists>uuids cause. resp = failure_response uuids m cause)"

lemma answers_of_run_ids:
  "answers_of_run m resp \<Longrightarrow> or_ManifestID resp = om_ID m \<and> or_CorrelationID resp = om_CorrelationID m \<and>
     or_OrchestrationType resp = om_OrchestrationType m \<and> or_CompensatedManifestID resp = om_CompensatedManifestID m"
  by (auto simp: answers_of_run_def runs_for_def publishResponse_def Let_def)

lemma answers_ids:
  "answers m resp \<Longrightarrow> or_ManifestID resp = om_ID m \<and> or_CorrelationID resp = om_CorrelationID m \<and>
     or_OrchestrationType resp = om_OrchestrationType m"
  using answers_of_run_ids by (auto simp: answers_def failure_response_def)

lemma deployed_pending_iff:
  assumes "deployed_in s tid d m p" "om_ID m \<noteq> []"
  shows "isPendingOrchestration p resp \<longleftrightarrow>
    (if or_ManifestID resp = om_ID m then or_OrchestrationType resp = VPADeployType
     else or_CompensatedManifestID resp = om_ID m \<and> or_OrchestrationType resp = VPADisposeType)"
proof -
  have "pending_of p = Some [(''manifestId'', JStr (om_ID m)), (''orchestrationType'', JStr VPADeployType)]"
    using assms(1) by (simp add: deployed_in_def pending_of_def)
  with assms(2) show ?thesis by (auto simp: isPendingOrchestration_def string_or_empty_def Let_def)
qed

lemma deployed_pending:
  assumes "deployed_in s tid d m p" "om_ID m \<noteq> []"
  shows "answers m resp \<Longrightarrow> isPendingOrchestration p resp"
    "or_CompensatedManifestID resp = om_ID m \<Longrightarrow> or_OrchestrationType resp = VPADisposeType \<Longrightarrow>
     or_ManifestID resp \<noteq> om_ID m \<Longrightarrow> isPendingOrchestration p resp"
  using answers_ids [of m resp] assms(1) by (auto simp: deployed_pending_iff [OF assms] deployed_in_def)

lemma compensation_ids:
  assumes "runs_for m orch" "answers_of_run (compensation_manifest orch) resp"
  shows "or_CompensatedManifestID resp = om_ID m" "or_CorrelationID resp = om_CorrelationID m"
    "or_OrchestrationType resp = VPADisposeType" "or_ManifestID resp \<noteq> om_ID m"
  using assms by (auto simp: runs_for_def compensation_manifest_def CompensationID_def dest!: answers_of_run_ids)

lemma DeployProfile_intact_eq:
  "tm_intact s \<Longrightarrow> DeployProfile NoOp_Execute NoOp_Execute (mem_tm fmt_v cd net) defaultCellSelector ord uuids now ctx tid d s = (r, s1) \<Longrightarrow> tm_intact s1"
  using DeployProfile_intact by blast

lemma settled_intact:
  assumes "tm_intact s" "dispatch_in_memory fmt_v cd net (\<lambda>r. None) resp s = (r, t)" "or_OrchestrationType resp = VPADeployType"
  shows "tm_intact t"
  using assms handleDeploy_intact [OF assms(1)] by (simp add: dispatch_by_type [where validate = "\<lambda>r. None"])

lemma compensation_settles:
  assumes s1: "tm_intact s1" and m: "deployed_in s tid d m p" "om_ID m \<noteq> []" and a: "answers m resp"
    and q: "dispatch_in_memory fmt_v cd net (\<lambda>r. None) resp s1 = (Returns (), s1\<lparr>tw_participants := put (pp_ID p) q (tw_participants s1)\<rparr>)"
      "settled st resp p q"
    and f: "runs_for m orch" "\<not> or_Success resp" "answers_of_run (compensation_manifest orch) resp'"
  shows "\<exists>x. dispatch_in_memory fmt_v cd net (\<lambda>r. None) resp' (s1\<lparr>tw_participants := put (pp_ID p) q (tw_participants s1)\<rparr>) =
      (Returns (), s1\<lparr>tw_participants := put (pp_ID p) x (put (pp_ID p) q (tw_participants s1))\<rparr>) \<and>
    settled DeploymentStateDisposed resp' q x"
proof -
  let ?s2 = "s1\<lparr>tw_participants := put (pp_ID p) q (tw_participants s1)\<rparr>"
  note c = compensation_ids [OF f(1,3)]
  have corr: "om_CorrelationID m = pp_ID p" and ty: "om_OrchestrationType m = VPADeployType"
    using m(1) by (auto simp: deployed_in_def)
  have "tm_intact ?s2" using settled_intact [OF s1 q(1)] answers_ids [OF a] ty by simp
  moreover have "lookup (tw_participants ?s2) (or_CorrelationID resp') = Some q" by (simp add: c corr lookup_put)
  moreover have "isPendingOrchestration q resp'"
    using deployed_pending(2) [OF m c(1,3,4)] q(2) f(2) by (simp add: settled_def isPendingOrchestration_def)
  ultimately obtain x where "settled DeploymentStateDisposed resp' q x"
    "dispatch_in_memory fmt_v cd net (\<lambda>r. None) resp' ?s2 =
       (Returns (), ?s2\<lparr>tw_participants := put (or_CorrelationID resp') x (tw_participants ?s2)\<rparr>)"
    by (rule dispose_response_settles [where validate = "\<lambda>r. None", OF _ refl c(3)])
  then show ?thesis by (intro exI [of _ x]) (simp add: c corr)
qed



end
