(* ===== verification/Auth_Claims.thy ===== *)
theory Auth_Claims
  imports Model
begin

text \<open>
  The claims of a caller (\<open>common/auth/claims.go\<close>), and the middlewares that attach them to a request:
  the validation of a bearer token, and the one that is used when authentication is disabled
  (\<open>assembly/auth/assembly.go\<close>).
\<close>

section \<open>Claims\<close>

record claims =
  cl_Subject :: string
  cl_Scopes :: "string list"
  cl_allScopes :: bool

definition AnonymousSubject :: string where "AnonymousSubject = ''anonymous''"

definition AnonymousClaims :: claims where
  "AnonymousClaims = \<lparr>cl_Subject = AnonymousSubject, cl_Scopes = [], cl_allScopes = True\<rparr>"

definition HasScope :: "claims \<Rightarrow> string \<Rightarrow> bool" where
  "HasScope c requiredScope \<longleftrightarrow> cl_allScopes c \<or> requiredScope \<in> set (cl_Scopes c)"

section \<open>Bearer tokens\<close>

text \<open>
  The library that verifies tokens is a parameter: for a raw token, an error or its subject and
  its claims, or the error of extracting them. What it is configured with is a \<open>verifier_config\<close>.
\<close>

record verifier_config =
  vc_issuer :: "string option"
  vc_SkipIssuerCheck :: bool
  vc_SkipClientIDCheck :: bool
  vc_ClientID :: string
  vc_keys :: string

record oidc_validator =
  ov_verifier :: verifier_config
  ov_audience :: string
  ov_audienceClaim :: string

type_synonym token_verifier = "verifier_config \<Rightarrow> string \<Rightarrow> go_error + string \<times> (go_error + props)"

datatype auth_validator = NoopValidator | OidcValidator oidc_validator

text \<open>\<open>strings.Fields\<close>, on ASCII white space.\<close>

definition is_space :: "char \<Rightarrow> bool" where
  "is_space c \<longleftrightarrow> c = CHR '' '' \<or> (CHR 0x09 \<le> c \<and> c \<le> CHR 0x0D)"

fun fields_from :: "string \<Rightarrow> string \<Rightarrow> string list" where
  "fields_from word [] = (if word = [] then [] else [rev word])"
| "fields_from word (c # s) =
     (if is_space c then (if word = [] then fields_from [] s else rev word # fields_from [] s)
      else fields_from (c # word) s)"

definition Fields :: "string \<Rightarrow> string list" where "Fields s = fields_from [] s"

definition extractScopes :: "props \<Rightarrow> string list" where
  "extractScopes raw = (case lookup raw ''scope'' of Some (JStr s) \<Rightarrow> if s = [] then [] else Fields s | _ \<Rightarrow> [])"

fun strip_prefix :: "string \<Rightarrow> string \<Rightarrow> string option" where
  "strip_prefix [] s = Some s"
| "strip_prefix (c # p) [] = None"
| "strip_prefix (c # p) (d # s) = (if c = d then strip_prefix p s else None)"

text \<open>The request goes on with the claims, or is refused as unauthorized with a message.\<close>

definition oidc_Middleware :: "token_verifier \<Rightarrow> oidc_validator \<Rightarrow> string \<Rightarrow> string + claims" where
  "oidc_Middleware verify v authHeader =
     (case strip_prefix ''Bearer '' authHeader of
        None \<Rightarrow> Inl ''missing or invalid bearer token''
      | Some rawToken \<Rightarrow>
          (case verify (ov_verifier v) rawToken of
             Inl err \<Rightarrow> Inl ''invalid token''
           | Inr (subject, Inl err) \<Rightarrow> Inl ''invalid token claims''
           | Inr (subject, Inr rawClaims) \<Rightarrow>
               if ov_audienceClaim v \<noteq> ''aud'' \<and> string_or_empty (lookup rawClaims (ov_audienceClaim v)) \<noteq> ov_audience v
               then Inl ''invalid token audience''
               else Inr \<lparr>cl_Subject = subject, cl_Scopes = extractScopes rawClaims, cl_allScopes = False\<rparr>))"

definition validator_Middleware :: "token_verifier \<Rightarrow> auth_validator \<Rightarrow> string \<Rightarrow> string + claims" where
  "validator_Middleware verify v authHeader =
     (case v of NoopValidator \<Rightarrow> Inr AnonymousClaims | OidcValidator ov \<Rightarrow> oidc_Middleware verify ov authHeader)"

section \<open>Configuration\<close>

text \<open>
  What the assembly reads from the configuration, and the discovery of the provider, which gives
  the issuer and the location of the keys that the provider announces, or an error.
\<close>

record auth_config =
  ac_enabled :: "bool option"
  ac_allowDisabled :: bool
  ac_discoveryUrl :: string
  ac_audience :: string
  ac_audienceClaim :: "string option"
  ac_expectedIssuer :: string
  ac_jwksUrl :: string
  ac_skipIssuerCheck :: bool

definition discoverWithPublicIssuer ::
    "(string \<Rightarrow> go_error + string) \<Rightarrow> string \<Rightarrow> string \<Rightarrow> go_error + string option \<times> string" where
  "discoverWithPublicIssuer fetch_jwks discoveryURL expectedIssuer =
     bind_result (fetch_jwks discoveryURL) (\<lambda>jwks.
       if jwks = [] then Inl (ErrorString ''discovery document is missing jwks_uri'')
       else Inr (Some expectedIssuer, jwks))"

definition Auth_Init ::
    "(string \<Rightarrow> go_error + string option \<times> string) \<Rightarrow> (string \<Rightarrow> go_error + string) \<Rightarrow> bool \<Rightarrow> auth_config \<Rightarrow>
     go_error + auth_validator" where
  "Auth_Init discover fetch_jwks production cfg =
     (let enabled = (case ac_enabled cfg of Some b \<Rightarrow> b | None \<Rightarrow> True);
          claim = (case ac_audienceClaim cfg of Some c \<Rightarrow> c | None \<Rightarrow> ''aud'') in
      if \<not> enabled then
        (if production \<and> \<not> ac_allowDisabled cfg
         then Inl (ErrorString ''auth.enabled=false is not allowed in production mode: enable auth, or also set auth.allowDisabled to true'')
         else Inr NoopValidator)
      else if ac_jwksUrl cfg = [] \<and> ac_discoveryUrl cfg = [] then
        Inl (ErrorString ''either auth.jwksUrl or auth.discoveryUrl must be configured when auth.enabled is true'')
      else if ac_audience cfg = [] then Inl (ErrorString ''auth.audience must be configured when auth is enabled'')
      else if ac_skipIssuerCheck cfg \<and> production then
        Inl (ErrorString ''auth.skipIssuerCheck is not allowed in production mode: set auth.expectedIssuer instead if the discovery URL differs from the token issuer'')
      else
        (let validator = (\<lambda>issuer jwks. OidcValidator
               \<lparr>ov_verifier = \<lparr>vc_issuer = issuer, vc_SkipIssuerCheck = ac_skipIssuerCheck cfg, vc_SkipClientIDCheck = (claim \<noteq> ''aud''),
                  vc_ClientID = (if claim = ''aud'' then ac_audience cfg else []), vc_keys = jwks\<rparr>,
                ov_audience = ac_audience cfg, ov_audienceClaim = claim\<rparr>) in
         if ac_jwksUrl cfg \<noteq> [] then
           (if ac_expectedIssuer cfg = [] then Inl (ErrorString ''auth.expectedIssuer must be set when auth.jwksUrl is configured'')
            else Inr (validator (Some (ac_expectedIssuer cfg)) (ac_jwksUrl cfg)))
         else
           (case (if ac_expectedIssuer cfg \<noteq> [] then discoverWithPublicIssuer fetch_jwks (ac_discoveryUrl cfg) (ac_expectedIssuer cfg)
                  else discover (ac_discoveryUrl cfg)) of
              Inl err \<Rightarrow> Inl (WrapError (''OIDC discovery failed for '' @ ac_discoveryUrl cfg @ '': '' @ error_text err) err)
            | Inr (issuer, jwks) \<Rightarrow> Inr (validator issuer jwks))))"

text \<open>
  A verifier keeps what its library documents if a token it accepts was issued by the configured
  issuer, unless that check is skipped, and names the client in its audience, unless that one is.
  \<open>aud\<close> and \<open>iss\<close> are those of a raw token.
\<close>

definition verifier_sound :: "(string \<Rightarrow> string list) \<Rightarrow> (string \<Rightarrow> string) \<Rightarrow> token_verifier \<Rightarrow> bool" where
  "verifier_sound aud iss verify \<longleftrightarrow>
     (\<forall>c raw r. verify c raw = Inr r \<longrightarrow>
        (vc_SkipIssuerCheck c \<or> vc_issuer c = Some (iss raw)) \<and> (vc_SkipClientIDCheck c \<or> vc_ClientID c \<in> set (aud raw)))"

lemma strip_prefix_Some: "strip_prefix p s = Some t \<longleftrightarrow> s = p @ t"
  by (induction p s rule: strip_prefix.induct) auto

lemma oidc_Middleware_ok:
  "oidc_Middleware verify v authHeader = Inr c \<longleftrightarrow>
     (\<exists>raw subject rawClaims. authHeader = ''Bearer '' @ raw \<and> verify (ov_verifier v) raw = Inr (subject, Inr rawClaims) \<and>
        (ov_audienceClaim v \<noteq> ''aud'' \<longrightarrow> string_or_empty (lookup rawClaims (ov_audienceClaim v)) = ov_audience v) \<and>
        c = \<lparr>cl_Subject = subject, cl_Scopes = extractScopes rawClaims, cl_allScopes = False\<rparr>)"
  by (auto simp: oidc_Middleware_def strip_prefix_Some split: option.splits sum.splits if_splits)

text \<open>What the validator of a successful initialisation is configured with.\<close>

lemma Auth_Init_production:
  assumes "Auth_Init discover fetch_jwks True cfg = Inr v" and "\<not> ac_allowDisabled cfg"
  shows "\<exists>issuer jwks. v = OidcValidator
     \<lparr>ov_verifier = \<lparr>vc_issuer = issuer, vc_SkipIssuerCheck = False,
        vc_SkipClientIDCheck = ((case ac_audienceClaim cfg of Some c \<Rightarrow> c | None \<Rightarrow> ''aud'') \<noteq> ''aud''),
        vc_ClientID = (if (case ac_audienceClaim cfg of Some c \<Rightarrow> c | None \<Rightarrow> ''aud'') = ''aud'' then ac_audience cfg else []), vc_keys = jwks\<rparr>,
      ov_audience = ac_audience cfg, ov_audienceClaim = (case ac_audienceClaim cfg of Some c \<Rightarrow> c | None \<Rightarrow> ''aud'')\<rparr> \<and>
    ac_audience cfg \<noteq> []"
  using assms unfolding Auth_Init_def Let_def by (simp split: if_splits sum.splits option.splits prod.splits) blast+


definition production_auth :: auth_config where
  "production_auth = \<lparr>ac_enabled = None, ac_allowDisabled = False, ac_discoveryUrl = [], ac_audience = ''cfm'', ac_audienceClaim = Some ''azp'',
     ac_expectedIssuer = ''https://idp'', ac_jwksUrl = ''https://idp/keys'', ac_skipIssuerCheck = False\<rparr>"

definition sample_verifier :: token_verifier where
  "sample_verifier c raw = (if vc_issuer c = Some ''https://idp'' \<and> (vc_SkipClientIDCheck c \<or> vc_ClientID c = ''cfm'')
     then Inr (''alice'', Inr [(''azp'', JStr ''cfm''), (''scope'', JStr ''tenant-manager-api:read  tenant-manager-api:write'')])
     else Inl (ErrorString ''rejected''))"


end
