(* ===== verification/Http_Handler.thy ===== *)
theory Http_Handler
  imports Auth_Claims Store Query_Parser
begin

text \<open>
  What the HTTP handlers of both managers share (\<open>common/handler/handler.go\<close>): responses, the mapping
  of errors to them, payloads, the authorization of a request, and the two operations that stream
  the entities of a query.

  A request carries what the router and the middlewares put into its context. The body is what
  reading it gives; what its bytes decode to and how they are validated depends on the type of the
  payload, \<open>payload_type\<close>. A response is its status, its headers and what is written to it; writing
  to the connection succeeds, as a failure only cuts the response short.
\<close>

section \<open>Requests and responses\<close>

record http_request =
  rq_Method :: string
  rq_Claims :: "claims option"
  rq_Body :: "go_error + string"
  rq_PathParams :: "(string, string) gomap"
  rq_Query :: "(string, string) gomap"

datatype http_chunk = Raw string | Encoded json

record http_response =
  rs_status :: nat
  rs_header :: "(string, string) gomap"
  rs_body :: "http_chunk list"

text \<open>A handler that writes nothing leaves status 200 and no body.\<close>

definition no_response :: http_response where
  "no_response = \<lparr>rs_status = 200, rs_header = [], rs_body = []\<rparr>"

definition json_header :: "(string, string) gomap" where
  "json_header = [(''Content-Type'', ''application/json'')]"

definition StatusText :: "nat \<Rightarrow> string" where
  "StatusText code =
     (if code = 200 then ''OK'' else if code = 201 then ''Created'' else if code = 202 then ''Accepted''
      else if code = 400 then ''Bad Request'' else if code = 401 then ''Unauthorized'' else if code = 403 then ''Forbidden''
      else if code = 404 then ''Not Found'' else if code = 405 then ''Method Not Allowed'' else if code = 409 then ''Conflict''
      else if code = 500 then ''Internal Server Error'' else [])"

definition WriteErrorWithID :: "string \<Rightarrow> nat \<Rightarrow> string \<Rightarrow> http_response" where
  "WriteErrorWithID message statusCode errorID =
     \<lparr>rs_status = statusCode, rs_header = json_header,
      rs_body = [Encoded (JObj ([(''error'', JStr (StatusText statusCode)), (''message'', JStr message)] @
        (if statusCode \<noteq> 0 then [(''code'', JNum (int statusCode))] else []) @
        (if errorID \<noteq> [] then [(''id'', JStr errorID)] else [])))]\<rparr>"

definition WriteError :: "string \<Rightarrow> nat \<Rightarrow> http_response" where
  "WriteError message statusCode = WriteErrorWithID message statusCode []"

definition Created :: http_response where
  "Created = \<lparr>rs_status = 201, rs_header = json_header, rs_body = []\<rparr>"

definition Accepted :: http_response where
  "Accepted = \<lparr>rs_status = 202, rs_header = json_header, rs_body = []\<rparr>"

definition OK :: http_response where
  "OK = \<lparr>rs_status = 200, rs_header = json_header, rs_body = []\<rparr>"

definition ResponseAccepted :: "json \<Rightarrow> http_response" where
  "ResponseAccepted response = Accepted\<lparr>rs_body := [Encoded response]\<rparr>"

definition ResponseOK :: "json \<Rightarrow> http_response" where
  "ResponseOK response = OK\<lparr>rs_body := [Encoded response]\<rparr>"

definition ResponseCreated :: "json \<Rightarrow> http_response" where
  "ResponseCreated response = Created\<lparr>rs_body := [Encoded response]\<rparr>"

definition InvalidMethod :: "http_request \<Rightarrow> string \<Rightarrow> http_response option" where
  "InvalidMethod req expectedMethod =
     (if rq_Method req \<noteq> expectedMethod then Some (WriteError ''Method not allowed'' 405) else None)"

section \<open>Payloads\<close>

datatype go_kind = KString | KBool | KNumber | KSlice | KMap | KStruct | KPointer go_kind | KOther

fun jsonKind :: "go_kind option \<Rightarrow> string" where
  "jsonKind None = []"
| "jsonKind (Some (KPointer t)) = jsonKind (Some t)"
| "jsonKind (Some KString) = ''a string''"
| "jsonKind (Some KBool) = ''a boolean''"
| "jsonKind (Some KNumber) = ''a number''"
| "jsonKind (Some KSlice) = ''an array''"
| "jsonKind (Some KMap) = ''an object''"
| "jsonKind (Some KStruct) = ''an object''"
| "jsonKind (Some KOther) = []"

text \<open>The errors of decoding: a syntax error with its offset, a type error with the field and the Go type, and others.\<close>

datatype json_failure = SyntaxFailure int | TypeFailure string "go_kind option" | OtherFailure go_error

definition dquoted :: "string \<Rightarrow> string" where
  "dquoted s = [CHR 0x22] @ s @ [CHR 0x22]"

definition jsonErrorMessage :: "json_failure \<Rightarrow> string" where
  "jsonErrorMessage err =
     (case err of
        SyntaxFailure offset \<Rightarrow> ''Invalid JSON at offset '' @ int_text offset
      | TypeFailure field t \<Rightarrow>
          if field \<noteq> [] then
            (if jsonKind t \<noteq> [] then ''Invalid JSON: field '' @ dquoted field @ '' must be '' @ jsonKind t
             else ''Invalid JSON: field '' @ dquoted field @ '' has the wrong type'')
          else ''Invalid JSON''
      | OtherFailure e \<Rightarrow> ''Invalid JSON'')"

record 'p payload_type =
  pl_decode :: "string \<Rightarrow> json_failure + 'p"
  pl_validate :: "'p \<Rightarrow> string option"

definition ReadPayload :: "'p payload_type \<Rightarrow> http_request \<Rightarrow> http_response + 'p" where
  "ReadPayload pt req =
     (case rq_Body req of
        Inl err \<Rightarrow> Inl (WriteError ''Failed to read request body'' 400)
      | Inr body \<Rightarrow>
          (case pl_decode pt body of
             Inl err \<Rightarrow> Inl (WriteError (jsonErrorMessage err) 400)
           | Inr payload \<Rightarrow>
               (case pl_validate pt payload of
                  Some msg \<Rightarrow> Inl (WriteError (''Invalid payload: '' @ msg) 400)
                | None \<Rightarrow> Inr payload)))"

section \<open>Errors\<close>

text \<open>\<open>errors.As\<close> with a client error, and what is written for it.\<close>

definition first_client :: "go_error \<Rightarrow> go_error option" where
  "first_client err = errors_As (\<lambda>x. client_method x \<noteq> None) err"

definition write_client_error :: "go_error option \<Rightarrow> http_response" where
  "write_client_error clientErr =
     (case clientErr of
        Some (BadRequestError message cause) \<Rightarrow> WriteError (''Bad request: '' @ message) 400
      | Some err \<Rightarrow> WriteError (''Client error: '' @ error_text err) 400
      | None \<Rightarrow> WriteError ''Client error: <nil>'' 400)"

text \<open>\<open>uuid\<close> is the ID that an internal error gets in the log and in the response.\<close>

definition HandleError :: "string \<Rightarrow> go_error \<Rightarrow> http_response" where
  "HandleError uuid err =
     (if errors_Is err ErrNotFound then WriteError ''Not found'' 404
      else if errors_Is err ErrConflict then WriteError ''Conflict'' 409
      else if errors_Is err ErrInvalidInput then WriteError ''Invalid input'' 400
      else if IsClientError err then write_client_error (first_client err)
      else WriteErrorWithID (''Internal server error occurred ['' @ uuid @ '']'') 500 uuid)"

section \<open>Authorization\<close>

record claims_rule =
  cr_description :: string
  cr_check :: "claims \<Rightarrow> bool"

definition RequireScope :: "string \<Rightarrow> claims_rule" where
  "RequireScope scope =
     \<lparr>cr_description = ''required scope '' @ [CHR 0x27] @ scope @ [CHR 0x27] @ '' not present'', cr_check = \<lambda>c. HasScope c scope\<rparr>"

fun check_rules :: "claims \<Rightarrow> claims_rule list \<Rightarrow> http_response option" where
  "check_rules c [] = None"
| "check_rules c (rule # rules) =
     (if \<not> cr_check rule c then Some (WriteError (''Access not granted: '' @ cr_description rule) 403) else check_rules c rules)"

definition IsAuthorized :: "http_request \<Rightarrow> claims_rule list \<Rightarrow> http_response option" where
  "IsAuthorized req rules =
     (case rq_Claims req of None \<Rightarrow> Some (WriteError ''Not authenticated'' 401) | Some c \<Rightarrow> check_rules c rules)"

definition Principal :: "http_request \<Rightarrow> string" where
  "Principal req = (case rq_Claims req of None \<Rightarrow> [] | Some c \<Rightarrow> cl_Subject c)"

definition ExtractPathVariable :: "http_request \<Rightarrow> string \<Rightarrow> http_response + string" where
  "ExtractPathVariable req key =
     (let value = (case lookup (rq_PathParams req) key of Some v \<Rightarrow> v | None \<Rightarrow> [])
      in if value = [] then Inl (WriteError (''Missing '' @ key @ '' parameter'') 400) else Inr value)"

section \<open>Links\<close>

text \<open>Go's division of integers, towards zero.\<close>

definition go_div :: "int \<Rightarrow> int \<Rightarrow> int" where
  "go_div a b = sgn a * sgn b * (\<bar>a\<bar> div \<bar>b\<bar>)"

definition page_link :: "string \<Rightarrow> int \<Rightarrow> int \<Rightarrow> string \<Rightarrow> string" where
  "page_link path offset limit rel =
     ''<'' @ path @ ''?offset='' @ int_text offset @ ''&limit='' @ int_text limit @ ''>; rel='' @ dquoted rel"

text \<open>The links of a page by their relation: the offset of each, in 64 bits.\<close>

definition next_offset :: "int \<Rightarrow> int \<Rightarrow> int \<Rightarrow> int option" where
  "next_offset offset limit totalCount =
     (let n = wrap64 (offset + limit) in if n < totalCount then Some n else None)"

definition prev_offset :: "int \<Rightarrow> int \<Rightarrow> int option" where
  "prev_offset offset limit = (if offset > 0 then Some (max 0 (wrap64 (offset - limit))) else None)"

definition last_offset :: "int \<Rightarrow> int \<Rightarrow> int option" where
  "last_offset limit totalCount =
     (if limit > 0 then Some (max 0 (wrap64 (go_div (wrap64 (totalCount - 1)) limit * limit))) else None)"

definition optional_link :: "string \<Rightarrow> int option \<Rightarrow> int \<Rightarrow> string \<Rightarrow> string list" where
  "optional_link path offset limit rel = (case offset of None \<Rightarrow> [] | Some k \<Rightarrow> [page_link path k limit rel])"

definition WriteLinkHeaders :: "string \<Rightarrow> int \<Rightarrow> int \<Rightarrow> int \<Rightarrow> (string, string) gomap" where
  "WriteLinkHeaders path offset limit totalCount =
     [(''Link'', join '', '' ([page_link path offset limit ''self''] @
          optional_link path (next_offset offset limit totalCount) limit ''next'' @
          optional_link path (prev_offset offset limit) limit ''prev'' @
          [page_link path 0 limit ''first''] @
          optional_link path (last_offset limit totalCount) limit ''last'')),
      (''X-Total-Count'', int_text totalCount)]"

section \<open>Streaming\<close>

text \<open>The loop over the entities; an error ends it, and is only logged.\<close>

fun stream_entities :: "('e \<Rightarrow> json) \<Rightarrow> bool \<Rightarrow> (go_error + 'e) list \<Rightarrow> http_chunk list" where
  "stream_entities transformFn first [] = []"
| "stream_entities transformFn first (Inl err # seq) = []"
| "stream_entities transformFn first (Inr entity # seq) =
     (if first then [] else [Raw '','']) @ Encoded (transformFn entity) # stream_entities transformFn False seq"

definition stream_response ::
    "(string, string) gomap \<Rightarrow> ('e \<Rightarrow> json) \<Rightarrow> (go_error + 'e) list \<Rightarrow> http_response" where
  "stream_response links transformFn seq =
     \<lparr>rs_status = 200, rs_header = links @ json_header,
      rs_body = [Raw ''[''] @ stream_entities transformFn True seq @ [Raw '']'']\<rparr>"

text \<open>
  The response is written inside the transaction and outlives it: \<open>w\<close> reads and sets it in the
  state. The error of the transaction itself is dropped.
\<close>

record 's response_writer =
  w_get :: "'s \<Rightarrow> http_response"
  w_set :: "http_response \<Rightarrow> 's \<Rightarrow> 's"

definition written_in ::
    "('s, unit) trx \<Rightarrow> 's response_writer \<Rightarrow> ('s \<Rightarrow> http_response call_result \<times> 's) \<Rightarrow> 's \<Rightarrow> http_response call_result \<times> 's" where
  "written_in execute w callback s =
     (case execute (\<lambda>s. bind_outcome (callback s) (\<lambda>rsp s. (Returns (), w_set w rsp s))) (w_set w no_response s) of
        (Panics txt, s) \<Rightarrow> (Panics txt, s)
      | (_, s) \<Rightarrow> (Returns (w_get w s), s))"

record query_message =
  qm_Predicate :: string
  qm_Offset :: int
  qm_Limit :: int

definition query_limit :: "int \<Rightarrow> int" where
  "query_limit limit = (if limit = 0 \<or> limit > 10000 then 10000 else limit)"

definition QueryEntities ::
    "('s, unit) trx \<Rightarrow> 's response_writer \<Rightarrow> string \<Rightarrow> query_message payload_type \<Rightarrow> (string \<Rightarrow> go_error + predicate) \<Rightarrow>
     http_request \<Rightarrow> string \<Rightarrow>
     (predicate \<Rightarrow> 's \<Rightarrow> int call_result \<times> 's) \<Rightarrow> (predicate \<Rightarrow> pagination \<Rightarrow> 's \<Rightarrow> (go_error + 'e) list call_result \<times> 's) \<Rightarrow>
     ('e \<Rightarrow> json) \<Rightarrow> 's \<Rightarrow> http_response call_result \<times> 's" where
  "QueryEntities execute w uuid pt parse req path countFn queryFn transformFn s =
     (case InvalidMethod req ''POST'' of
        Some rsp \<Rightarrow> (Returns rsp, s)
      | None \<Rightarrow>
          written_in execute w (\<lambda>s.
            (case ReadPayload pt req of
               Inl rsp \<Rightarrow> (Returns rsp, s)
             | Inr queryMessage \<Rightarrow>
                 (let offset = qm_Offset queryMessage; limit = query_limit (qm_Limit queryMessage) in
                  case parse (qm_Predicate queryMessage) of
                    Inl err \<Rightarrow> (Returns (WriteError (''Client error: '' @ error_text err) 400), s)
                  | Inr p \<Rightarrow>
                      (case countFn p s of
                         (Panics txt, s) \<Rightarrow> (Panics txt, s)
                       | (Fails err, s) \<Rightarrow> (Returns (HandleError uuid err), s)
                       | (Returns totalCount, s) \<Rightarrow>
                           bind_outcome (queryFn p \<lparr>pg_Offset = offset, pg_Limit = limit\<rparr> s) (\<lambda>seq s.
                             (Returns (stream_response (WriteLinkHeaders path offset limit totalCount) transformFn seq), s)))))) s)"

text \<open>\<open>strconv.Atoi\<close> with the text of its error.\<close>

definition Atoi :: "string \<Rightarrow> string + int" where
  "Atoi s =
     (case ParseInt s of
        Some i \<Rightarrow> Inr i
      | None \<Rightarrow>
          Inl (''strconv.Atoi: parsing '' @ dquoted s @
            (let digits = (if s \<noteq> [] \<and> (hd s = CHR ''-'' \<or> hd s = CHR ''+'') then tl s else s)
             in if digits \<noteq> [] \<and> digits_value 0 digits \<noteq> None then '': value out of range'' else '': invalid syntax'')))"

definition int_param :: "http_request \<Rightarrow> string \<Rightarrow> http_response + int" where
  "int_param req name =
     (case lookup (rq_Query req) name of
        None \<Rightarrow> Inr 0
      | Some v \<Rightarrow>
          if v = [] then Inr 0
          else (case Atoi v of Inl err \<Rightarrow> Inl (WriteError (''Invalid '' @ name @ '': '' @ err) 400) | Inr i \<Rightarrow> Inr i))"

definition ListEntities ::
    "('s, unit) trx \<Rightarrow> 's response_writer \<Rightarrow> string \<Rightarrow> http_request \<Rightarrow> string \<Rightarrow>
     ('s \<Rightarrow> int call_result \<times> 's) \<Rightarrow> (pagination \<Rightarrow> 's \<Rightarrow> (go_error + 'e) list call_result \<times> 's) \<Rightarrow>
     ('e \<Rightarrow> json) \<Rightarrow> 's \<Rightarrow> http_response call_result \<times> 's" where
  "ListEntities execute w uuid req path countFn listFn transformFn s =
     (case InvalidMethod req ''GET'' of
        Some rsp \<Rightarrow> (Returns rsp, s)
      | None \<Rightarrow>
          written_in execute w (\<lambda>s.
            (case countFn s of
               (Panics txt, s) \<Rightarrow> (Panics txt, s)
             | (Fails err, s) \<Rightarrow> (Returns (HandleError uuid err), s)
             | (Returns totalCount, s) \<Rightarrow>
                 (case int_param req ''offset'' of
                    Inl rsp \<Rightarrow> (Returns rsp, s)
                  | Inr offset \<Rightarrow>
                      (case int_param req ''limit'' of
                         Inl rsp \<Rightarrow> (Returns rsp, s)
                       | Inr limit \<Rightarrow>
                           bind_outcome (listFn \<lparr>pg_Offset = offset, pg_Limit = limit\<rparr> s) (\<lambda>seq s.
                             (Returns (stream_response (WriteLinkHeaders path offset limit totalCount) transformFn seq), s)))))) s)"

section \<open>Errors and responses\<close>

text \<open>The errors whose class is shown to the caller: client errors, and those that wrap a sentinel.\<close>

definition shown_to_client :: "go_error \<Rightarrow> bool" where
  "shown_to_client e \<longleftrightarrow>
     errors_Is e ErrNotFound \<or> errors_Is e ErrConflict \<or> errors_Is e ErrInvalidInput \<or> IsClientError e"

definition internal_error :: "string \<Rightarrow> http_response" where
  "internal_error uuid = WriteErrorWithID (''Internal server error occurred ['' @ uuid @ '']'') 500 uuid"

lemma HandleError_internal: "\<not> shown_to_client e \<Longrightarrow> HandleError uuid e = internal_error uuid"
  by (simp add: HandleError_def internal_error_def shown_to_client_def)

lemma write_client_error_status [simp]: "rs_status (write_client_error c) = 400"
  by (cases c) (simp_all add: write_client_error_def WriteError_def WriteErrorWithID_def split: go_error.split)

lemma HandleError_status:
  "rs_status (HandleError uuid e) =
     (if errors_Is e ErrNotFound then 404 else if errors_Is e ErrConflict then 409 else if shown_to_client e then 400 else 500)"
  by (simp add: HandleError_def WriteError_def WriteErrorWithID_def shown_to_client_def)

lemma wrapped_sentinels [simp]:
  "errors_Is (WrapError m e) ErrNotFound = errors_Is e ErrNotFound"
  "errors_Is (WrapError m e) ErrConflict = errors_Is e ErrConflict"
  "errors_Is (WrapError m e) ErrInvalidInput = errors_Is e ErrInvalidInput"
  "errors_Is (BadRequestError m (Some e)) ErrNotFound = errors_Is e ErrNotFound"
  "errors_Is (BadRequestError m (Some e)) ErrConflict = errors_Is e ErrConflict"
  "errors_Is (BadRequestError m (Some e)) ErrInvalidInput = errors_Is e ErrInvalidInput"
  "\<not> errors_Is (StatusError t code b) ErrNotFound"
  "\<not> errors_Is (StatusError t code b) ErrConflict"
  "\<not> errors_Is (StatusError t code b) ErrInvalidInput"
  by (simp_all add: errors_Is_def ErrNotFound_def ErrConflict_def ErrInvalidInput_def NewClientError_def)

lemma first_client_simps [simp]:
  "first_client (WrapError m e) = first_client e"
  "first_client (BadRequestError m c) = Some (BadRequestError m c)"
  "first_client (StatusError t code b) = Some (StatusError t code b)"
  by (simp_all add: first_client_def errors_As_cause del: not_None_eq)

text \<open>
  C36. The answer to an error of a service. Its status tells the class of the error, also of one that
  is wrapped: not found, conflict, or bad request with the message of the first client error. The
  status error of an HTTP client is shown if it is permanent. Any other error is answered with a
  status 500 that depends on nothing but the ID under which it is logged, so that nothing of its text
  (database, driver or NATS messages) gets out.
\<close>

theorem HandleError_correct:
  "rs_status (HandleError uuid e) =
     (if errors_Is e ErrNotFound then 404 else if errors_Is e ErrConflict then 409 else if shown_to_client e then 400 else 500) \<and>
   (\<exists>rsp. \<forall>e. HandleError uuid e = rsp \<longleftrightarrow> \<not> shown_to_client e) \<and>
   HandleError uuid (WrapError m e) = HandleError uuid e \<and>
   HandleError uuid (BadRequestError m (Some e)) =
     (if errors_Is e ErrNotFound then WriteError ''Not found'' 404
      else if errors_Is e ErrConflict then WriteError ''Conflict'' 409
      else if errors_Is e ErrInvalidInput then WriteError ''Invalid input'' 400
      else WriteError (''Bad request: '' @ m) 400) \<and>
   HandleError uuid (StatusError t code b) =
     (if IsTransientStatus code then HandleError uuid (ErrorString [])
      else WriteError (''Client error: '' @ error_text (StatusError t code b)) 400)"
proof (intro conjI)
  show "\<exists>rsp. \<forall>e. HandleError uuid e = rsp \<longleftrightarrow> \<not> shown_to_client e"
  proof (intro exI allI)
    fix e
    have "rs_status (internal_error uuid) = 500" by (simp add: internal_error_def WriteErrorWithID_def)
    then show "HandleError uuid e = internal_error uuid \<longleftrightarrow> \<not> shown_to_client e"
      using HandleError_status [of uuid e] HandleError_internal [of e uuid] by (auto split: if_splits)
  qed
next
  show "HandleError uuid (StatusError t code b) =
     (if IsTransientStatus code then HandleError uuid (ErrorString [])
      else WriteError (''Client error: '' @ error_text (StatusError t code b)) 400)"
    by (simp add: HandleError_def write_client_error_def)
       (simp add: errors_Is_def ErrNotFound_def ErrConflict_def ErrInvalidInput_def NewClientError_def)
next
  show "HandleError uuid (BadRequestError m (Some e)) =
     (if errors_Is e ErrNotFound then WriteError ''Not found'' 404
      else if errors_Is e ErrConflict then WriteError ''Conflict'' 409
      else if errors_Is e ErrInvalidInput then WriteError ''Invalid input'' 400
      else WriteError (''Bad request: '' @ m) 400)"
    by (simp add: HandleError_def write_client_error_def IsClientError_def)
next
  show "HandleError uuid (WrapError m e) = HandleError uuid e" by (simp add: HandleError_def)
qed (rule HandleError_status)

section \<open>Following the links\<close>

text \<open>What a client that follows the links to the next page sees; \<open>None\<close> when \<open>fuel\<close> pages do not reach the last one.\<close>

fun follow_next :: "nat \<Rightarrow> int \<Rightarrow> int \<Rightarrow> int \<Rightarrow> int list option" where
  "follow_next 0 limit totalCount offset = None"
| "follow_next (Suc fuel) limit totalCount offset =
     (case next_offset offset limit totalCount of
        None \<Rightarrow> Some [offset]
      | Some k \<Rightarrow> map_option ((#) offset) (follow_next fuel limit totalCount k))"

text \<open>The indices of the entities on the page at an offset.\<close>

definition page_at :: "int \<Rightarrow> int \<Rightarrow> int \<Rightarrow> int list" where
  "page_at limit totalCount offset = [offset .. min (offset + limit) totalCount - 1]"

text \<open>The number of the last page, from 0.\<close>

definition last_page :: "int \<Rightarrow> int \<Rightarrow> nat" where
  "last_page limit totalCount = nat ((totalCount - 1) div limit)"

lemma last_page_bounds:
  assumes "0 < limit" "0 \<le> totalCount"
  shows "int i * limit + limit < totalCount \<longleftrightarrow> i < last_page limit totalCount"
    "int (last_page limit totalCount) * limit \<le> max 0 (totalCount - 1)"
    "totalCount \<le> int (last_page limit totalCount) * limit + limit"
proof -
  let ?q = "(totalCount - 1) div limit"
  have q: "?q * limit \<le> totalCount - 1" "totalCount \<le> ?q * limit + limit"
    using mult_div_mod_eq [of limit "totalCount - 1"] pos_mod_bound [OF assms(1), of "totalCount - 1"]
      pos_mod_sign [OF assms(1), of "totalCount - 1"]
    unfolding mult.commute [of "(totalCount - 1) div limit"] by linarith+
  have n: "int (last_page limit totalCount) = max 0 ?q" by (simp add: last_page_def)
  have neg: "?q < 0 \<Longrightarrow> totalCount = 0" using assms pos_imp_zdiv_neg_iff [of limit "totalCount - 1"] by simp
  have "(int i + 1) * limit \<le> totalCount - 1 \<Longrightarrow> int i + 1 \<le> ?q"
    using zdiv_mono1 [of "(int i + 1) * limit" "totalCount - 1" limit] assms(1) by simp
  moreover have "int i + 1 \<le> ?q \<Longrightarrow> (int i + 1) * limit \<le> totalCount - 1"
    using mult_right_mono [of "int i + 1" ?q limit] q(1) assms(1) by linarith
  ultimately have "int i * limit + limit < totalCount \<longleftrightarrow> int i + 1 \<le> ?q"
    by (auto simp: algebra_simps)
  then show "int i * limit + limit < totalCount \<longleftrightarrow> i < last_page limit totalCount"
    unfolding last_page_def by (auto simp: zless_nat_eq_int_zless)
  show "int (last_page limit totalCount) * limit \<le> max 0 (totalCount - 1)"
    using q(1) neg unfolding n by (cases "?q < 0") (auto simp: max_def)
  show "totalCount \<le> int (last_page limit totalCount) * limit + limit"
    using q(2) neg assms unfolding n by (cases "?q < 0") (auto simp: max_def)
qed


definition page_offsets :: "int \<Rightarrow> nat \<Rightarrow> nat \<Rightarrow> int list" where
  "page_offsets limit i n = map (\<lambda>j. int j * limit) [i..<Suc n]"

lemma next_offset_page:
  assumes "0 < limit" "0 \<le> totalCount" "totalCount + limit < 2 ^ 63" "i \<le> last_page limit totalCount"
  shows "next_offset (int i * limit) limit totalCount =
    (if i < last_page limit totalCount then Some (int (Suc i) * limit) else None)"
    "prev_offset (int i * limit) limit = (if i = 0 then None else Some (int (i - 1) * limit))"
proof -
  have le: "int i * limit \<le> max 0 (totalCount - 1)"
    using last_page_bounds(2) [OF assms(1,2)] mult_right_mono [of "int i" "int (last_page limit totalCount)" limit] assms(1,4)
    by linarith
  have 0: "0 \<le> int i * limit" using assms(1) by simp
  have "int64 (int i * limit + limit)" using le 0 assms(1-3) unfolding int64_def by (intro conjI; linarith)
  then show "next_offset (int i * limit) limit totalCount =
    (if i < last_page limit totalCount then Some (int (Suc i) * limit) else None)"
    using last_page_bounds(1) [OF assms(1,2), of i] by (simp add: next_offset_def wrap64_id Let_def algebra_simps)
  have "int64 (int i * limit - limit)" using le 0 assms(1-3) unfolding int64_def by (intro conjI; linarith)
  moreover have "int i * limit - limit = int (i - 1) * limit" if "0 < i" using that by (simp add: of_nat_diff algebra_simps)
  ultimately show "prev_offset (int i * limit) limit = (if i = 0 then None else Some (int (i - 1) * limit))"
    using assms(1) by (auto simp: prev_offset_def wrap64_id)
qed

lemma follow_next_pages:
  assumes "0 < limit" "0 \<le> totalCount" "totalCount + limit < 2 ^ 63" "i \<le> last_page limit totalCount"
    "last_page limit totalCount - i < fuel"
  shows "follow_next fuel limit totalCount (int i * limit) = Some (page_offsets limit i (last_page limit totalCount))"
  using assms(4,5)
proof (induction fuel arbitrary: i)
  case (Suc fuel)
  have up: "[i..<Suc (last_page limit totalCount)] = i # [Suc i..<Suc (last_page limit totalCount)]"
    using Suc.prems(1) by (simp add: upt_conv_Cons)
  show ?case
  proof (cases "i < last_page limit totalCount")
    case True
    then have "follow_next fuel limit totalCount (int (Suc i) * limit) = Some (page_offsets limit (Suc i) (last_page limit totalCount))"
      using Suc.IH [of "Suc i"] Suc.prems by simp
    then show ?thesis using True next_offset_page(1) [OF assms(1-3) Suc.prems(1)] by (simp add: page_offsets_def up del: upt_Suc)
  next
    case False
    then show ?thesis using Suc.prems next_offset_page(1) [OF assms(1-3) Suc.prems(1)] by (simp add: page_offsets_def)
  qed
qed simp

lemma pages_before:
  assumes "0 < limit" "0 \<le> totalCount" "n \<le> last_page limit totalCount"
  shows "concat (map (page_at limit totalCount) (map (\<lambda>j. int j * limit) [0..<n])) = [0..int n * limit - 1]"
  using assms(3)
proof (induction n)
  case (Suc n)
  have "int n * limit + limit < totalCount" using last_page_bounds(1) [OF assms(1,2), of n] Suc.prems by simp
  then have "page_at limit totalCount (int n * limit) = [int n * limit .. int (Suc n) * limit - 1]"
    by (simp add: page_at_def algebra_simps)
  then show ?case using Suc upto_split1 [of 0 "int n * limit" "int (Suc n) * limit - 1"] assms(1) by simp
qed simp

lemma pages_all:
  assumes "0 < limit" "0 \<le> totalCount"
  shows "concat (map (page_at limit totalCount) (page_offsets limit 0 (last_page limit totalCount))) = [0..totalCount - 1]"
proof -
  let ?k = "int (last_page limit totalCount) * limit"
  have k: "0 \<le> ?k" "?k \<le> max 0 (totalCount - 1)" "totalCount \<le> ?k + limit" using last_page_bounds(2,3) [OF assms] assms(1) by simp_all
  have p: "page_at limit totalCount ?k = [?k .. totalCount - 1]" using k(3) by (simp add: page_at_def min_def)
  have "[0..?k - 1] @ [?k..totalCount - 1] = [0..totalCount - 1]"
  proof (cases "totalCount = 0")
    case True
    then have "?k = 0" using k by linarith
    then show ?thesis by (simp only: True) simp
  next
    case False
    then show ?thesis using k assms(2) upto_split1 [of 0 ?k "totalCount - 1"] by simp
  qed
  then show ?thesis using pages_before [OF assms order_refl] p by (simp add: page_offsets_def)
qed

lemma last_offset_page:
  assumes "0 < limit" "0 \<le> totalCount" "totalCount + limit < 2 ^ 63"
  shows "last_offset limit totalCount = Some (int (last_page limit totalCount) * limit)"
proof (cases "totalCount = 0")
  case True
  then have "go_div (wrap64 (totalCount - 1)) limit * limit \<le> 0" "int64 (go_div (wrap64 (totalCount - 1)) limit * limit)"
    using assms(1) by (auto simp: wrap64_id int64_def go_div_def div_pos_pos_trivial) (cases "limit = 1"; simp)+
  moreover have "last_page limit totalCount = 0" using True assms(1) by (simp add: last_page_def div_eq_minus1)
  ultimately show ?thesis using assms(1) by (simp add: last_offset_def wrap64_id max_def)
next
  case False
  then have w: "wrap64 (totalCount - 1) = totalCount - 1" using assms by (simp add: wrap64_id int64_def)
  have d: "go_div (totalCount - 1) limit = int (last_page limit totalCount)"
    using False assms by (cases "totalCount = 1") (simp_all add: go_div_def last_page_def pos_imp_zdiv_nonneg_iff)
  have "int64 (int (last_page limit totalCount) * limit)"
    using last_page_bounds(2) [OF assms(1,2)] mult_nonneg_nonneg [of "int (last_page limit totalCount)" limit] assms False
    unfolding int64_def by linarith
  then show ?thesis using assms(1) by (simp add: last_offset_def w d wrap64_id)
qed



end
