(* ===== verification/Http_Routes.thy ===== *)
theory Http_Routes
  imports Http_Handler
begin

text \<open>
  What the HTTP APIs of the two managers share: the steps of a handler, the routes with the scopes
  they require (\<open>tmanager/handler/assembly.go\<close>, \<open>pmanager/handler/assembly.go\<close>), and the way of a request
  through the authentication, the middleware of the API and the router to its handler.

  The router (chi) is a library and a parameter; \<open>router_ok\<close> says what its documentation promises. The
  IDs that \<open>uuid.New\<close> gives to a request are \<open>ids\<close>; what tracing records is not modelled. A handler that
  panics ends the request through the router's recoverer.
\<close>

section \<open>JSON fields\<close>

definition omit_text :: "string \<Rightarrow> string \<Rightarrow> (string \<times> json) list" where
  "omit_text name s = (if s = [] then [] else [(name, JStr s)])"

definition omit_object :: "string \<Rightarrow> props \<Rightarrow> (string \<times> json) list" where
  "omit_object name m = (if m = [] then [] else [(name, JObj m)])"

definition omit_array :: "string \<Rightarrow> json list \<Rightarrow> (string \<times> json) list" where
  "omit_array name xs = (if xs = [] then [] else [(name, JArr xs)])"

section \<open>Handlers\<close>

text \<open>What a handler sees of a request; the middleware of the API adds a context to it.\<close>

record 'c http_call =
  hc_req :: http_request
  hc_ctx :: 'c
  hc_ids :: "nat \<Rightarrow> string"

text \<open>The answer to the result of a service.\<close>

definition respond :: "string \<Rightarrow> ('a \<Rightarrow> http_response) \<Rightarrow> 'a call_result \<times> 's \<Rightarrow> http_response call_result \<times> 's" where
  "respond uuid answer r =
     (case r of
        (Returns a, s) \<Rightarrow> (Returns (answer a), s)
      | (Fails err, s) \<Rightarrow> (Returns (HandleError uuid err), s)
      | (Panics txt, s) \<Rightarrow> (Panics txt, s))"

definition for_method ::
    "'c http_call \<Rightarrow> string \<Rightarrow> ('s \<Rightarrow> http_response call_result \<times> 's) \<Rightarrow> 's \<Rightarrow> http_response call_result \<times> 's" where
  "for_method c expectedMethod run s =
     (case InvalidMethod (hc_req c) expectedMethod of Some rsp \<Rightarrow> (Returns rsp, s) | None \<Rightarrow> run s)"

definition with_payload ::
    "'c http_call \<Rightarrow> 'p payload_type \<Rightarrow> ('p \<Rightarrow> 's \<Rightarrow> http_response call_result \<times> 's) \<Rightarrow> 's \<Rightarrow> http_response call_result \<times> 's" where
  "with_payload c pt run s = (case ReadPayload pt (hc_req c) of Inl rsp \<Rightarrow> (Returns rsp, s) | Inr p \<Rightarrow> run p s)"

definition health :: http_response where
  "health = ResponseOK (JObj [(''message'', JStr ''OK'')])"

section \<open>Routes\<close>

datatype path_part = Lit string | Var string

text \<open>A route: its method, its pattern, the scope it requires, and the handler for the variables of its path.\<close>

record ('c, 's) http_route =
  rt_method :: string
  rt_pattern :: "path_part list"
  rt_scope :: string
  rt_vars :: "string list"
  rt_run :: "'c http_call \<Rightarrow> string list \<Rightarrow> 's \<Rightarrow> http_response call_result \<times> 's"

definition one :: "('a \<Rightarrow> string \<Rightarrow> 'b) \<Rightarrow> 'a \<Rightarrow> string list \<Rightarrow> 'b" where
  "one f c vs = f c (hd vs)"

definition two :: "('a \<Rightarrow> string \<Rightarrow> string \<Rightarrow> 'b) \<Rightarrow> 'a \<Rightarrow> string list \<Rightarrow> 'b" where
  "two f c vs = f c (hd vs) (hd (tl vs))"

definition route where
  "route m pattern scope vars run = \<lparr>rt_method = m, rt_pattern = pattern, rt_scope = scope, rt_vars = vars, rt_run = run\<rparr>"

text \<open>
  The variables of a path that matches a pattern: each variable with its part.
\<close>

fun match_path :: "path_part list \<Rightarrow> string list \<Rightarrow> (string, string) gomap option" where
  "match_path [] [] = Some []"
| "match_path (Lit l # ps) (x # xs) = (if x = l then match_path ps xs else None)"
| "match_path (Var v # ps) (x # xs) = map_option (\<lambda>m. (v, x) # m) (match_path ps xs)"
| "match_path _ _ = None"

fun extract_all :: "http_request \<Rightarrow> string list \<Rightarrow> http_response + string list" where
  "extract_all req [] = Inr []"
| "extract_all req (v # vs) =
     (case ExtractPathVariable req v of
        Inl rsp \<Rightarrow> Inl rsp
      | Inr x \<Rightarrow> (case extract_all req vs of Inl rsp \<Rightarrow> Inl rsp | Inr xs \<Rightarrow> Inr (x # xs)))"

text \<open>What every route does before its handler.\<close>

definition serve_route :: "('c, 's) http_route \<Rightarrow> 'c http_call \<Rightarrow> 's \<Rightarrow> http_response call_result \<times> 's" where
  "serve_route r c s =
     (case IsAuthorized (hc_req c) [RequireScope (rt_scope r)] of
        Some rsp \<Rightarrow> (Returns rsp, s)
      | None \<Rightarrow>
          (case extract_all (hc_req c) (rt_vars r) of
             Inl rsp \<Rightarrow> (Returns rsp, s)
           | Inr vs \<Rightarrow> rt_run r c vs s))"

text \<open>A request as it comes in, with the parts of its path below \<open>/api/v1alpha1\<close>.\<close>

record raw_request =
  rr_Method :: string
  rr_Path :: "string list"
  rr_Authorization :: string
  rr_Body :: "go_error + string"
  rr_Query :: "(string, string) gomap"
  rr_ids :: "nat \<Rightarrow> string"

definition writeUnauthorized :: "string \<Rightarrow> http_response" where
  "writeUnauthorized message = \<lparr>rs_status = 401, rs_header = json_header,
     rs_body = [Encoded (JObj [(''error'', JStr ''Unauthorized''), (''message'', JStr message)])]\<rparr>"

text \<open>
  The router answers itself when no route matches a path, or none with that method; otherwise it
  runs one that matches, with the variables of its path.
\<close>

type_synonym ('c, 's) router =
  "('c, 's) http_route list \<Rightarrow> string \<Rightarrow> string list \<Rightarrow> http_response + ('c, 's) http_route \<times> (string, string) gomap"

definition router_ok :: "('c, 's) router \<Rightarrow> bool" where
  "router_ok router \<longleftrightarrow>
     (\<forall>routes m path.
        (case router routes m path of
           Inl rsp \<Rightarrow> rs_status rsp \<in> {404, 405} \<and> (\<forall>r\<in>set routes. rt_method r = m \<longrightarrow> match_path (rt_pattern r) path = None)
         | Inr (r, vars) \<Rightarrow> r \<in> set routes \<and> rt_method r = m \<and> match_path (rt_pattern r) path = Some vars))"

lemma router_okD:
  assumes "router_ok router"
  shows "router routes m path = Inr (r, vars) \<Longrightarrow> r \<in> set routes \<and> rt_method r = m \<and> match_path (rt_pattern r) path = Some vars"
    "router routes m path = Inl rsp \<Longrightarrow>
       rs_status rsp \<in> {404, 405} \<and> (\<forall>r\<in>set routes. rt_method r = m \<longrightarrow> match_path (rt_pattern r) path = None)"
  using assms [unfolded router_ok_def, THEN spec, THEN spec, THEN spec, of routes m path] by auto

text \<open>A router: the first route that matches, and status 405 for the path of a route with another method.\<close>

definition first_match :: "('c, 's) router" where
  "first_match routes m path =
     (case List.map_filter (\<lambda>r. if rt_method r = m then map_option (\<lambda>vars. (r, vars)) (match_path (rt_pattern r) path) else None) routes of
        [] \<Rightarrow> Inl \<lparr>rs_status = if list_ex (\<lambda>r. match_path (rt_pattern r) path \<noteq> None) routes then 405 else 404, rs_header = [], rs_body = []\<rparr>
      | r # _ \<Rightarrow> Inr r)"

lemma map_filter_head:
  "List.map_filter f xs = [] \<longleftrightarrow> (\<forall>x\<in>set xs. f x = None)"
  "List.map_filter f xs = y # ys \<Longrightarrow> \<exists>x\<in>set xs. f x = Some y"
  by (induction xs) (auto simp: List.map_filter_simps split: option.splits)

lemma first_match_ok: "router_ok first_match"
  unfolding router_ok_def first_match_def
  by (auto split: list.split if_splits simp: map_filter_head(1) dest!: map_filter_head(2))

section \<open>The way of a request\<close>

definition serve_api ::
    "('c, 's) router \<Rightarrow> token_verifier \<Rightarrow> auth_validator \<Rightarrow> (claims \<Rightarrow> http_response + 'c) \<Rightarrow> ('c, 's) http_route list \<Rightarrow>
     raw_request \<Rightarrow> 's \<Rightarrow> http_response call_result \<times> 's" where
  "serve_api router verify v middleware routes raw s =
     (case validator_Middleware verify v (rr_Authorization raw) of
        Inl message \<Rightarrow> (Returns (writeUnauthorized message), s)
      | Inr claims \<Rightarrow>
          (case middleware claims of
             Inl rsp \<Rightarrow> (Returns rsp, s)
           | Inr ctx \<Rightarrow>
               (case router routes (rr_Method raw) (rr_Path raw) of
                  Inl rsp \<Rightarrow> (Returns rsp, s)
                | Inr (r, vars) \<Rightarrow>
                    serve_route r
                      \<lparr>hc_req = \<lparr>rq_Method = rr_Method raw, rq_Claims = Some claims, rq_Body = rr_Body raw, rq_PathParams = vars,
                         rq_Query = rr_Query raw\<rparr>, hc_ctx = ctx, hc_ids = rr_ids raw\<rparr> s)))"

section \<open>Scopes\<close>

text \<open>
  The scopes as the decision record on authentication (\<open>docs/developer/decision_records\<close>) describes them: reading is a GET or a query.
\<close>

definition reads :: "string \<Rightarrow> string list \<Rightarrow> bool" where
  "reads m path \<longleftrightarrow> m = ''GET'' \<or> (m = ''POST'' \<and> path \<noteq> [] \<and> last path = ''query'')"

lemma match_path_simps [simp]:
  "match_path [] path = Some vars \<longleftrightarrow> path = [] \<and> vars = []"
  "match_path (Lit l # ps) path = Some vars \<longleftrightarrow> (\<exists>xs. path = l # xs \<and> match_path ps xs = Some vars)"
  "match_path (Var v # ps) path = Some vars \<longleftrightarrow> (\<exists>x xs m. path = x # xs \<and> match_path ps xs = Some m \<and> vars = (v, x) # m)"
  by (cases path; auto)+

text \<open>
  The interface of an API to whoever decides on scopes: \<open>scope\<close> is the one that a request needs, by its
  method and path, and every route requires the scope of the requests it matches. \<open>middleware\<close> refuses
  with status 403.
\<close>

locale scoped_api =
  fixes routes :: "('c, 's) http_route list"
    and scope :: "string \<Rightarrow> string list \<Rightarrow> string"
    and middleware :: "claims \<Rightarrow> http_response + 'c"
  assumes route_scope: "r \<in> set routes \<Longrightarrow> match_path (rt_pattern r) path = Some vars \<Longrightarrow> rt_scope r = scope (rt_method r) path"
    and middleware_status: "middleware c = Inl rsp \<Longrightarrow> rs_status rsp = 403"
begin

text \<open>Without the scope the state is not touched, and the response does not depend on it.\<close>

lemma refused:
  assumes "router_ok router"
    and "\<And>c. validator_Middleware verify v (rr_Authorization raw) = Inr c \<Longrightarrow> \<not> HasScope c (scope (rr_Method raw) (rr_Path raw))"
  shows "\<exists>rsp. rs_status rsp \<in> {401, 403, 404, 405} \<and> (\<forall>s. serve_api router verify v middleware routes raw s = (Returns rsp, s))"
proof (cases "validator_Middleware verify v (rr_Authorization raw)")
  case (Inl message)
  then show ?thesis by (intro exI [of _ "writeUnauthorized message"]) (simp add: serve_api_def writeUnauthorized_def)
next
  case (Inr c)
  show ?thesis
  proof (cases "middleware c")
    case (Inl rsp)
    then show ?thesis using Inr middleware_status by (intro exI [of _ rsp]) (simp add: serve_api_def)
  next
    case ctx: (Inr ctx)
    show ?thesis
    proof (cases "router routes (rr_Method raw) (rr_Path raw)")
      case (Inl rsp)
      then show ?thesis using Inr ctx router_okD(2) [OF assms(1)] by (intro exI [of _ rsp]) (auto simp: serve_api_def)
    next
      case found: (Inr b)
      obtain r vars where b: "b = (r, vars)" by (cases b)
      have "rt_scope r = scope (rr_Method raw) (rr_Path raw)"
        using router_okD(1) [OF assms(1) found [unfolded b]] route_scope by auto
      then have "\<not> HasScope c (rt_scope r)" using assms(2) Inr by simp
      then show ?thesis
        using Inr ctx found b
        by (intro exI [of _ "WriteError (''Access not granted: '' @ cr_description (RequireScope (rt_scope r))) 403"])
          (simp add: serve_api_def serve_route_def IsAuthorized_def RequireScope_def WriteError_def WriteErrorWithID_def)
    qed
  qed
qed

end

end
