(* ===== verification/Tenant_Isolation.thy ===== *)
theory Tenant_Isolation
  imports Tenant_Memory Auth_Claims
begin

text \<open>
  Who may see and change what: the middleware that turns the claims of a token into the tenant access
  of a request (\<open>tmanager/handler/access.go\<close>), and the isolation of clients that it gives with the
  services.
\<close>

section \<open>From a token to an access\<close>

definition scopeTmAdmin :: string where "scopeTmAdmin = ''tenant-manager-api:admin''"

text \<open>
  The request goes on with the context it has, or with the access, or is refused (the status of
  the response).
\<close>

definition tenantAccessMiddleware :: "claims option \<Rightarrow> nat + tenant_access option" where
  "tenantAccessMiddleware c =
     (case c of
        None \<Rightarrow> Inr None
      | Some claims \<Rightarrow>
          if HasScope claims scopeTmAdmin then Inr (Some (AllTenantsAccess (cl_Subject claims)))
          else if cl_Subject claims = [] then Inl 403
          else Inr (Some (OwnedTenantsAccess (cl_Subject claims))))"

text \<open>The requests of a client that is not an administrator.\<close>

definition client_request :: "claims \<Rightarrow> tenant_access option \<Rightarrow> bool" where
  "client_request c ctx \<longleftrightarrow> \<not> HasScope c scopeTmAdmin \<and> tenantAccessMiddleware (Some c) = Inr ctx"

lemma client_request_access:
  assumes "client_request c ctx"
  shows "ctx = Some (OwnedTenantsAccess (cl_Subject c))" "cl_Subject c \<noteq> []"
    "Allows (OwnedTenantsAccess (cl_Subject c)) owner \<longleftrightarrow> owner = cl_Subject c"
  using assms by (auto simp: client_request_def tenantAccessMiddleware_def Allows_def OwnedTenantsAccess_def split: if_splits)

lemma client_request_check:
  assumes "client_request c ctx"
  shows "checkAccess ctx owner = (if owner = cl_Subject c then None else Some ErrNotFound)"
  using client_request_access [OF assms] by (simp add: checkAccess_def TenantAccessFromContext_def)

section \<open>Isolation\<close>

text \<open>The entities of a tenant that a client does not own, or of none.\<close>

definition foreign_tenant :: "claims \<Rightarrow> string \<Rightarrow> tm_world \<Rightarrow> bool" where
  "foreign_tenant c tid s \<longleftrightarrow> (case lookup (tw_tenants s) tid of None \<Rightarrow> True | Some tn \<Rightarrow> tn_Owner tn \<noteq> cl_Subject c)"

definition foreign_profile :: "claims \<Rightarrow> string \<Rightarrow> tm_world \<Rightarrow> bool" where
  "foreign_profile c pid s \<longleftrightarrow>
     (case lookup (tw_participants s) pid of None \<Rightarrow> True | Some p \<Rightarrow> pp_Owner p \<noteq> cl_Subject c)"

lemma foreign_tenant_refused:
  assumes "client_request c ctx" "cache_ok tenant_type (tw_tenants s)" "foreign_tenant c tid s"
  shows "GetTenant NoOp_Execute (mem_tm fmt_v cd net) ctx tid s = (Fails ErrNotFound, s)"
    "PatchTenant NoOp_Execute (mem_tm fmt_v cd net) ctx tid ps rs s = (Fails ErrNotFound, s)"
    "DeleteTenant NoOp_Execute (mem_tm fmt_v cd net) ctx tid s = (Fails ErrNotFound, s)"
    "DeployProfile NoOp_Execute NoOp_Execute (mem_tm fmt_v cd net) sel ord uuids now ctx tid d s = (Fails ErrNotFound, s)"
  using assms(3) client_request_check [OF assms(1)] FindByID_ok [OF assms(2), of tid]
  by (auto simp: GetTenant_def PatchTenant_def DeleteTenant_def DeployProfile_def deploy_callback_def mem_tm_simps
      FindByIDAndLock_def foreign_tenant_def errors_Is_def split: option.splits)

lemma foreign_profile_refused:
  assumes "client_request c ctx" "cache_ok participant_type (tw_participants s)" "foreign_profile c pid s"
  shows "GetProfile NoOp_Execute (mem_tm fmt_v cd net) ctx tid pid s = (Fails ErrNotFound, s)"
    "DisposeProfile NoOp_Execute NoOp_Execute (mem_tm fmt_v cd net) uuid ctx tid pid s = (Fails ErrNotFound, s)"
  using assms(3) client_request_check [OF assms(1)] FindByID_ok [OF assms(2), of pid]
  by (auto simp: GetProfile_def DisposeProfile_def dispose_callback_def mem_tm_simps foreign_profile_def split: option.splits)

lemma queries_run:
  assumes "client_request c ctx"
  shows "QueryTenants NoOp_Execute (mem_tm fmt_v cd net) ctx p opts s =
      (Returns (paginateEntities fmt_v tenant_type cd (Some (And [p, Eq ''owner'' (VStr (cl_Subject c))])) opts (tw_tenants s)), s)"
    "GetTenants NoOp_Execute (mem_tm fmt_v cd net) ctx opts s =
      (Returns (paginateEntities fmt_v tenant_type cd (Some (Eq ''owner'' (VStr (cl_Subject c)))) opts (tw_tenants s)), s)"
    "QueryProfiles NoOp_Execute (mem_tm fmt_v cd net) ctx p opts s =
      (Returns (paginateEntities fmt_v participant_type cd (Some (And [p, Eq ''owner'' (VStr (cl_Subject c))])) opts
         (tw_participants s)), s)"
  using client_request_access [OF assms]
  by (simp_all add: QueryTenants_def GetTenants_def QueryProfiles_def TenantAccessFromContext_def executeStoreIterator_def
      mem_tm_simps FindByPredicatePaginated_def restricted_def Restrict_def IsRestricted_def OwnedTenantsAccess_def Let_def)

lemma owned_page:
  "cache_ok tenant_type c \<Longrightarrow>
     list_all (\<lambda>r. case r of Inl err \<Rightarrow> True | Inr tn \<Rightarrow> tn_Owner tn = u)
       (paginateEntities fmt_v tenant_type cd (Some (Eq ''owner'' (VStr u))) opts c)"
  "cache_ok tenant_type c \<Longrightarrow>
     list_all (\<lambda>r. case r of Inl err \<Rightarrow> True | Inr tn \<Rightarrow> tn_Owner tn = u)
       (paginateEntities fmt_v tenant_type cd (Some (And [p, Eq ''owner'' (VStr u)])) opts c)"
  by (auto simp: list_all_iff selected_And selected_tenant_owner dest: paginate_sound split: sum.splits)

lemma owned_profile_page:
  "cache_ok participant_type c \<Longrightarrow>
     list_all (\<lambda>r. case r of Inl err \<Rightarrow> True | Inr pf \<Rightarrow> pp_Owner pf = u)
       (paginateEntities fmt_v participant_type cd (Some (And [p, Eq ''owner'' (VStr u)])) opts c)"
  by (auto simp: list_all_iff selected_And selected_participant_owner dest: paginate_sound split: sum.splits)

text \<open>
  A client without the administrator scope is confined to its own tenants, in memory: for a
  tenant or profile of another client every operation answers exactly as for one that does not
  exist, with "not found", and changes nothing and sends nothing; and the lists it gets, whatever
  it filters by, hold only its own.
\<close>

theorem clients_isolated:
  assumes "client_request c ctx" "cache_ok tenant_type (tw_tenants s)" "cache_ok participant_type (tw_participants s)"
  shows "let t = mem_tm fmt_v cd net in
    (foreign_tenant c tid s \<longrightarrow>
       GetTenant NoOp_Execute t ctx tid s = (Fails ErrNotFound, s) \<and>
       PatchTenant NoOp_Execute t ctx tid ps rs s = (Fails ErrNotFound, s) \<and>
       DeleteTenant NoOp_Execute t ctx tid s = (Fails ErrNotFound, s) \<and>
       DeployProfile NoOp_Execute NoOp_Execute t sel ord uuids now ctx tid d s = (Fails ErrNotFound, s)) \<and>
    (foreign_profile c pid s \<longrightarrow>
       GetProfile NoOp_Execute t ctx tid pid s = (Fails ErrNotFound, s) \<and>
       DisposeProfile NoOp_Execute NoOp_Execute t uuid ctx tid pid s = (Fails ErrNotFound, s)) \<and>
    (\<exists>seq. QueryTenants NoOp_Execute t ctx p opts s = (Returns seq, s) \<and>
       list_all (\<lambda>r. case r of Inl err \<Rightarrow> True | Inr tn \<Rightarrow> tn_Owner tn = cl_Subject c) seq) \<and>
    (\<exists>seq. GetTenants NoOp_Execute t ctx opts s = (Returns seq, s) \<and>
       list_all (\<lambda>r. case r of Inl err \<Rightarrow> True | Inr tn \<Rightarrow> tn_Owner tn = cl_Subject c) seq) \<and>
    (\<exists>seq. QueryProfiles NoOp_Execute t ctx p opts s = (Returns seq, s) \<and>
       list_all (\<lambda>r. case r of Inl err \<Rightarrow> True | Inr pf \<Rightarrow> pp_Owner pf = cl_Subject c) seq)"
  unfolding Let_def queries_run [OF assms(1)]
  using foreign_tenant_refused [OF assms(1,2)] foreign_profile_refused [OF assms(1,3)]
    owned_page [OF assms(2)] owned_profile_page [OF assms(3)]
  by (intro conjI impI exI) auto

definition client_a :: claims where
  "client_a = \<lparr>cl_Subject = ''a'', cl_Scopes = [''tenant-manager-api:write''], cl_allScopes = False\<rparr>"

definition tenant_of_b :: tenant where
  "tenant_of_b = \<lparr>tn_ID = ''t1'', tn_Version = 0, tn_Owner = ''b'', tn_Properties = Some []\<rparr>"

definition world_of_b :: tm_world where
  "world_of_b = \<lparr>tw_tenants = [(''t1'', tenant_of_b)], tw_participants = [], tw_cells = [], tw_dataspaces = [], tw_sent = []\<rparr>"

theorem clients_isolated_witness:
  "DeleteTenant NoOp_Execute (mem_tm (\<lambda>v. []) (\<lambda>i. None) (\<lambda>w m. None)) (Some (OwnedTenantsAccess ''a'')) ''t1'' world_of_b =
     (Fails ErrNotFound, world_of_b)"
proof -
  have 1: "client_request client_a (Some (OwnedTenantsAccess ''a''))"
    by (simp add: client_request_def client_a_def HasScope_def scopeTmAdmin_def tenantAccessMiddleware_def)
  have 2: "cache_ok tenant_type (tw_tenants world_of_b)" "cache_ok participant_type (tw_participants world_of_b)"
    by (simp_all add: cache_ok_def world_of_b_def tenant_of_b_def wf_map_def) (simp add: tenant_type_def)
  have 3: "foreign_tenant client_a ''t1'' world_of_b"
    by (simp add: foreign_tenant_def world_of_b_def tenant_of_b_def client_a_def)
  from clients_isolated [OF 1 2, where tid = "''t1''" and fmt_v = "\<lambda>v. []" and cd = "\<lambda>i. None" and net = "\<lambda>w m. None"] 3
  show ?thesis by (simp add: Let_def)
qed

end
