(* ===== verification/TM_Api.thy ===== *)
theory TM_Api
  imports Http_Routes Tenant_Isolation
begin

text \<open>
  The HTTP API of the Tenant Manager: the conversions between its representation and the entities
  (\<open>tmanager/model/v1alpha1/transformers.go\<close>), the handlers (\<open>tmanager/handler/handlersv1alpha1.go\<close>) and
  the routes with the scopes they require (\<open>tmanager/handler/assembly.go\<close>), behind the
  middlewares.

  A conversion to the API representation gives the JSON that the struct is encoded to; fields
  with \<open>omitempty\<close> are left out when they are empty.
\<close>

section \<open>To the API\<close>

definition props_of :: "props option \<Rightarrow> props" where
  "props_of p = (case p of None \<Rightarrow> [] | Some m \<Rightarrow> m)"

definition entity_fields :: "string \<Rightarrow> int \<Rightarrow> (string \<times> json) list" where
  "entity_fields eid version = [(''id'', JStr eid), (''version'', JNum version)]"

definition deployable_fields :: "string \<Rightarrow> int \<Rightarrow> string \<Rightarrow> int \<Rightarrow> (string \<times> json) list" where
  "deployable_fields eid version state timestamp =
     entity_fields eid version @ [(''state'', JStr state), (''stateTimestamp'', JNum timestamp)]"

definition ToTenant :: "tenant \<Rightarrow> json" where
  "ToTenant input = JObj (entity_fields (tn_ID input) (tn_Version input) @ omit_object ''properties'' (props_of (tn_Properties input)))"

definition ToVPA :: "vpa \<Rightarrow> json" where
  "ToVPA input =
     JObj (deployable_fields (vpa_ID input) (vpa_Version input) (vpa_State input) (vpa_StateTimestamp input) @
       [(''type'', JStr (vpa_Type input)), (''cellId'', JStr (vpa_CellID input))] @ omit_object ''properties'' (vpa_Properties input))"

definition ToVPACollection :: "participant_profile \<Rightarrow> json list" where
  "ToVPACollection input = map ToVPA (pp_VPAs input)"

definition ToParticipantProfile :: "participant_profile \<Rightarrow> json" where
  "ToParticipantProfile input =
     JObj (entity_fields (pp_ID input) (pp_Version input) @
       [(''identifier'', JStr (pp_Identifier input)), (''tenantId'', JStr (pp_TenantID input)),
        (''participantRoles'', JObj (map (\<lambda>(k, rs). (k, JArr (map JStr rs))) (pp_ParticipantRoles input)))] @
       omit_array ''vpas'' (ToVPACollection input) @ omit_object ''properties'' (props_of (pp_Properties input)) @
       [(''error'', JBool (pp_Error input))] @ omit_text ''errorDetail'' (pp_ErrorDetail input))"

definition ToCell :: "cell \<Rightarrow> json" where
  "ToCell input =
     JObj (entity_fields (ce_ID input) (ce_Version input) @
       [(''externalId'', JStr (ce_ExternalID input)), (''state'', JStr (ce_State input)), (''stateTimestamp'', JNum (ce_StateTimestamp input))] @
       omit_object ''properties'' (props_of (ce_Properties input)))"

definition deployment_json :: "dataspace_deployment \<Rightarrow> json" where
  "deployment_json d =
     JObj (deployable_fields (dd_ID d) (dd_Version d) (dd_State d) (dd_StateTimestamp d) @
       omit_text ''cellId'' (dd_CellID d) @ [(''externalCellId'', JStr (dd_ExternalCellID d))] @ omit_object ''properties'' (dd_Properties d))"

definition cspec_json :: "credential_spec \<Rightarrow> json" where
  "cspec_json c =
     JObj ([(''id'', JStr (cs_Id c)), (''type'', JStr (cs_Type c)), (''issuer'', JStr (cs_Issuer c)), (''format'', JStr (cs_Format c))] @
       omit_text ''role'' (cs_ParticipantRole c))"

definition ToDataspaceProfile :: "dataspace_profile \<Rightarrow> json" where
  "ToDataspaceProfile input =
     JObj (entity_fields (dp_ID input) (dp_Version input) @
       [(''dataspaceSpec'', JObj (omit_array ''protocolStack'' (map JStr (dp_ProtocolStack input)) @
          omit_array ''credentialSpecs'' (map cspec_json (dp_CredentialSpecs input))))] @
       omit_array ''artifacts'' (map JStr (dp_Artifacts input)) @ omit_array ''deployments'' (map deployment_json (dp_Deployments input)) @
       omit_object ''properties'' (props_of (dp_Properties input)))"

section \<open>From the API\<close>

record new_tenant =
  nt_Properties :: "props option"

record new_cell =
  nc_ExternalID :: string
  nc_State :: string
  nc_StateTimestamp :: int
  nc_Properties :: "props option"

record new_dataspace_profile =
  nd_ProtocolStack :: "string list"
  nd_CredentialSpecs :: "credential_spec list"
  nd_Artifacts :: "string list"
  nd_Properties :: "props option"

record new_dataspace_deployment =
  ndd_ProfileID :: string
  ndd_CellID :: string

record new_participant_deployment =
  np_Identifier :: string
  np_CellID :: string
  np_DataspaceProfileIDs :: "string list option"
  np_ParticipantRoles :: "(string, string list) gomap option"
  np_VPAProperties :: "(string, props) gomap option"
  np_Properties :: "props option"

record tenant_diff =
  td_Properties :: props
  td_Removed :: "string list"

definition NewAPITenant :: "string \<Rightarrow> new_tenant \<Rightarrow> tenant" where
  "NewAPITenant uuid input =
     \<lparr>tn_ID = uuid, tn_Version = 0, tn_Owner = [], tn_Properties = Some (ToProperties (nt_Properties input))\<rparr>"

definition NewAPIDataspaceProfile :: "string \<Rightarrow> new_dataspace_profile \<Rightarrow> dataspace_profile" where
  "NewAPIDataspaceProfile uuid input =
     \<lparr>dp_ID = uuid, dp_Version = 0, dp_ProtocolStack = nd_ProtocolStack input, dp_CredentialSpecs = nd_CredentialSpecs input,
      dp_Artifacts = nd_Artifacts input, dp_Deployments = [], dp_Properties = Some (ToProperties (nd_Properties input))\<rparr>"

definition NewAPICell :: "string \<Rightarrow> new_cell \<Rightarrow> go_error + cell" where
  "NewAPICell uuid input =
     (case ToDeploymentState (nc_State input) of
        Inl err \<Rightarrow> Inl (NewClientError (error_text err))
      | Inr state \<Rightarrow>
          Inr \<lparr>ce_ID = uuid, ce_Version = 0, ce_State = state, ce_StateTimestamp = nc_StateTimestamp input,
               ce_ExternalID = nc_ExternalID input, ce_Properties = Some (ToProperties (nc_Properties input))\<rparr>)"

definition ToVPAMap :: "(string, props) gomap \<Rightarrow> (string, props) gomap" where
  "ToVPAMap vpaProperties = copy_into vpaProperties []"

definition non_nil :: "'a list option \<Rightarrow> 'a list" where
  "non_nil v = (case v of None \<Rightarrow> [] | Some xs \<Rightarrow> xs)"

definition ToAPINewParticipantProfileDeployment :: "new_participant_deployment \<Rightarrow> participant_deployment" where
  "ToAPINewParticipantProfileDeployment input =
     \<lparr>pd_Identifier = np_Identifier input, pd_CellID = np_CellID input,
      pd_DataspaceProfileIDs = non_nil (np_DataspaceProfileIDs input), pd_ParticipantRoles = non_nil (np_ParticipantRoles input),
      pd_VPAProperties = (case np_VPAProperties input of None \<Rightarrow> [] | Some m \<Rightarrow> ToVPAMap m),
      pd_Properties = Some (non_nil (np_Properties input))\<rparr>"

section \<open>The handler\<close>

text \<open>The services, as the interfaces of \<open>tmanager/api\<close>, for the access of a caller.\<close>

record 's tm_services =
  ts_GetTenant :: "tenant_access option \<Rightarrow> string \<Rightarrow> 's \<Rightarrow> tenant call_result \<times> 's"
  ts_CreateTenant :: "tenant_access option \<Rightarrow> tenant \<Rightarrow> 's \<Rightarrow> tenant call_result \<times> 's"
  ts_PatchTenant :: "tenant_access option \<Rightarrow> string \<Rightarrow> props \<Rightarrow> string list \<Rightarrow> 's \<Rightarrow> unit call_result \<times> 's"
  ts_DeleteTenant :: "tenant_access option \<Rightarrow> string \<Rightarrow> 's \<Rightarrow> unit call_result \<times> 's"
  ts_QueryTenants :: "tenant_access option \<Rightarrow> predicate \<Rightarrow> pagination \<Rightarrow> 's \<Rightarrow> (go_error + tenant) list call_result \<times> 's"
  ts_QueryTenantsCount :: "tenant_access option \<Rightarrow> predicate \<Rightarrow> 's \<Rightarrow> int call_result \<times> 's"
  ts_GetTenants :: "tenant_access option \<Rightarrow> pagination \<Rightarrow> 's \<Rightarrow> (go_error + tenant) list call_result \<times> 's"
  ts_GetTenantsCount :: "tenant_access option \<Rightarrow> 's \<Rightarrow> int call_result \<times> 's"
  ts_GetProfile :: "tenant_access option \<Rightarrow> string \<Rightarrow> string \<Rightarrow> 's \<Rightarrow> participant_profile call_result \<times> 's"
  ts_QueryProfiles :: "tenant_access option \<Rightarrow> predicate \<Rightarrow> pagination \<Rightarrow> 's \<Rightarrow> (go_error + participant_profile) list call_result \<times> 's"
  ts_QueryProfilesCount :: "tenant_access option \<Rightarrow> predicate \<Rightarrow> 's \<Rightarrow> int call_result \<times> 's"
  ts_DeployProfile :: "tenant_access option \<Rightarrow> string \<Rightarrow> participant_deployment \<Rightarrow> 's \<Rightarrow> participant_profile call_result \<times> 's"
  ts_DisposeProfile :: "tenant_access option \<Rightarrow> string \<Rightarrow> string \<Rightarrow> 's \<Rightarrow> unit call_result \<times> 's"
  ts_RecordExternalDeployment :: "cell \<Rightarrow> 's \<Rightarrow> cell call_result \<times> 's"
  ts_DeleteCell :: "string \<Rightarrow> 's \<Rightarrow> unit call_result \<times> 's"
  ts_ListCells :: "'s \<Rightarrow> cell list call_result \<times> 's"
  ts_Dataspace_GetProfile :: "string \<Rightarrow> 's \<Rightarrow> dataspace_profile call_result \<times> 's"
  ts_Dataspace_CreateProfile :: "dataspace_profile \<Rightarrow> 's \<Rightarrow> dataspace_profile call_result \<times> 's"
  ts_Dataspace_DeleteProfile :: "string \<Rightarrow> 's \<Rightarrow> unit call_result \<times> 's"
  ts_Dataspace_DeployProfile :: "string \<Rightarrow> string \<Rightarrow> 's \<Rightarrow> unit call_result \<times> 's"
  ts_Dataspace_ListProfiles :: "'s \<Rightarrow> dataspace_profile list call_result \<times> 's"

record tm_payloads =
  pt_tenant :: "new_tenant payload_type"
  pt_diff :: "tenant_diff payload_type"
  pt_cell :: "new_cell payload_type"
  pt_dataspace :: "new_dataspace_profile payload_type"
  pt_dataspace_deployment :: "new_dataspace_deployment payload_type"
  pt_deployment :: "new_participant_deployment payload_type"
  pt_query :: "query_message payload_type"

record 's tm_handler =
  th_services :: "'s tm_services"
  th_payloads :: tm_payloads
  th_execute :: "('s, unit) trx"
  th_writer :: "'s response_writer"
  th_parse :: "string \<Rightarrow> go_error + predicate"

definition getParticipantProfile where
  "getParticipantProfile h c tenantID participantID =
     for_method c ''GET'' (\<lambda>s. respond (hc_ids c 0) (\<lambda>profile. ResponseOK (ToParticipantProfile profile))
       (ts_GetProfile (th_services h) (hc_ctx c) tenantID participantID s))"

fun collect_profiles :: "(go_error + participant_profile) list \<Rightarrow> go_error + json list" where
  "collect_profiles [] = Inr []"
| "collect_profiles (Inl err # seq) = Inl err"
| "collect_profiles (Inr profile # seq) = bind_result (collect_profiles seq) (\<lambda>rest. Inr (ToParticipantProfile profile # rest))"

definition getProfilesForTenant where
  "getProfilesForTenant h c tenantID =
     for_method c ''GET'' (\<lambda>s.
       (case ts_GetTenant (th_services h) (hc_ctx c) tenantID s of
          (Fails err, s) \<Rightarrow> (Returns (HandleError (hc_ids c 0) err), s)
        | (Panics txt, s) \<Rightarrow> (Panics txt, s)
        | (Returns tenant, s) \<Rightarrow>
            bind_outcome (ts_QueryProfiles (th_services h) (hc_ctx c) (Eq ''tenantId'' (VStr tenantID)) DefaultPaginationOptions s)
              (\<lambda>seq s. respond (hc_ids c 0) (\<lambda>results. ResponseOK (JArr results)) (of_result (collect_profiles seq, s)))))"

definition deployParticipantProfile where
  "deployParticipantProfile h c tenantID =
     for_method c ''POST'' (with_payload c (pt_deployment (th_payloads h)) (\<lambda>newDeployment s.
       respond (hc_ids c 0) (\<lambda>profile. ResponseAccepted (ToParticipantProfile profile))
         (ts_DeployProfile (th_services h) (hc_ctx c) tenantID (ToAPINewParticipantProfileDeployment newDeployment) s)))"

definition disposeParticipantProfile where
  "disposeParticipantProfile h c tenantID participantID =
     for_method c ''DELETE'' (\<lambda>s. respond (hc_ids c 0) (\<lambda>u. Accepted)
       (ts_DisposeProfile (th_services h) (hc_ctx c) tenantID participantID s))"

definition queryParticipantProfiles where
  "queryParticipantProfiles h c path s =
     QueryEntities (th_execute h) (th_writer h) (hc_ids c 0) (pt_query (th_payloads h)) (th_parse h) (hc_req c) path
       (ts_QueryProfilesCount (th_services h) (hc_ctx c)) (ts_QueryProfiles (th_services h) (hc_ctx c)) ToParticipantProfile s"

definition createTenant where
  "createTenant h c =
     for_method c ''POST'' (with_payload c (pt_tenant (th_payloads h)) (\<lambda>newTenant s.
       respond (hc_ids c 0) (\<lambda>tenant. ResponseCreated (ToTenant tenant))
         (ts_CreateTenant (th_services h) (hc_ctx c) (NewAPITenant (hc_ids c 1) newTenant) s)))"

definition patchTenant where
  "patchTenant h c tenantID =
     for_method c ''PATCH'' (with_payload c (pt_diff (th_payloads h)) (\<lambda>diff s.
       respond (hc_ids c 0) (\<lambda>u. OK)
         (ts_PatchTenant (th_services h) (hc_ctx c) tenantID (td_Properties diff) (td_Removed diff) s)))"

definition deleteTenant where
  "deleteTenant h c tenantID =
     for_method c ''DELETE'' (\<lambda>s. respond (hc_ids c 0) (\<lambda>u. OK) (ts_DeleteTenant (th_services h) (hc_ctx c) tenantID s))"

definition getTenants where
  "getTenants h c path s =
     ListEntities (th_execute h) (th_writer h) (hc_ids c 0) (hc_req c) path
       (ts_GetTenantsCount (th_services h) (hc_ctx c)) (ts_GetTenants (th_services h) (hc_ctx c)) ToTenant s"

definition getTenant where
  "getTenant h c tenantID =
     for_method c ''GET'' (\<lambda>s. respond (hc_ids c 0) (\<lambda>tenant. ResponseOK (ToTenant tenant))
       (ts_GetTenant (th_services h) (hc_ctx c) tenantID s))"

definition queryTenants where
  "queryTenants h c path s =
     QueryEntities (th_execute h) (th_writer h) (hc_ids c 0) (pt_query (th_payloads h)) (th_parse h) (hc_req c) path
       (ts_QueryTenantsCount (th_services h) (hc_ctx c)) (ts_QueryTenants (th_services h) (hc_ctx c)) ToTenant s"

definition createCell where
  "createCell h c =
     for_method c ''POST'' (with_payload c (pt_cell (th_payloads h)) (\<lambda>newCell s.
       (case NewAPICell (hc_ids c 1) newCell of
          Inl err \<Rightarrow> (Returns (HandleError (hc_ids c 0) err), s)
        | Inr cell \<Rightarrow>
            respond (hc_ids c 0) (\<lambda>recordedCell. ResponseCreated (ToCell recordedCell))
              (ts_RecordExternalDeployment (th_services h) cell s))))"

definition deleteCell where
  "deleteCell h c cellID =
     for_method c ''DELETE'' (\<lambda>s. respond (hc_ids c 0) (\<lambda>u. OK) (ts_DeleteCell (th_services h) cellID s))"

definition getCells where
  "getCells h c =
     for_method c ''GET'' (\<lambda>s. respond (hc_ids c 0) (\<lambda>cells. ResponseOK (JArr (map ToCell cells))) (ts_ListCells (th_services h) s))"

definition createDataspaceProfile where
  "createDataspaceProfile h c =
     for_method c ''POST'' (with_payload c (pt_dataspace (th_payloads h)) (\<lambda>newProfile s.
       respond (hc_ids c 0) (\<lambda>result. ResponseCreated (ToDataspaceProfile result))
         (ts_Dataspace_CreateProfile (th_services h) (NewAPIDataspaceProfile (hc_ids c 1) newProfile) s)))"

definition deleteDataspaceProfile where
  "deleteDataspaceProfile h c profileID =
     for_method c ''DELETE'' (\<lambda>s. respond (hc_ids c 0) (\<lambda>u. OK) (ts_Dataspace_DeleteProfile (th_services h) profileID s))"

definition getDataspaceProfiles where
  "getDataspaceProfiles h c =
     for_method c ''GET'' (\<lambda>s. respond (hc_ids c 0) (\<lambda>profiles. ResponseOK (JArr (map ToDataspaceProfile profiles)))
       (ts_Dataspace_ListProfiles (th_services h) s))"

definition getDataspaceProfile where
  "getDataspaceProfile h c profileID =
     for_method c ''GET'' (\<lambda>s. respond (hc_ids c 0) (\<lambda>profile. ResponseOK (ToDataspaceProfile profile))
       (ts_Dataspace_GetProfile (th_services h) profileID s))"

definition deployDataspaceProfile where
  "deployDataspaceProfile h c profileID =
     for_method c ''POST'' (with_payload c (pt_dataspace_deployment (th_payloads h)) (\<lambda>newDeployment s.
       if ndd_ProfileID newDeployment \<noteq> profileID
       then (Returns (WriteError ''profileId in body does not match path'' 400), s)
       else respond (hc_ids c 0) (\<lambda>u. Accepted)
         (ts_Dataspace_DeployProfile (th_services h) profileID (ndd_CellID newDeployment) s)))"

section \<open>The routes\<close>

definition scopeTmRead :: string where "scopeTmRead = ''tenant-manager-api:read''"
definition scopeTmWrite :: string where "scopeTmWrite = ''tenant-manager-api:write''"

definition registerParticipantRoutes :: "'s tm_handler \<Rightarrow> (tenant_access option, 's) http_route list" where
  "registerParticipantRoutes h =
     (let base = [Lit ''tenants'', Var ''tenantID'', Lit ''participant-profiles'']; item = base @ [Var ''participantID''] in
      [route ''GET'' base scopeTmRead [''tenantID''] (one (getProfilesForTenant h)),
       route ''POST'' base scopeTmWrite [''tenantID''] (one (deployParticipantProfile h)),
       route ''GET'' item scopeTmRead [''tenantID'', ''participantID''] (two (getParticipantProfile h)),
       route ''DELETE'' item scopeTmWrite [''tenantID'', ''participantID''] (two (disposeParticipantProfile h))])"

definition registerTenantRoutes :: "'s tm_handler \<Rightarrow> (tenant_access option, 's) http_route list" where
  "registerTenantRoutes h =
     (let base = [Lit ''tenants'']; item = base @ [Var ''tenantID''] in
      [route ''GET'' base scopeTmRead [] (\<lambda>c vs. getTenants h c ''/tenants''),
       route ''POST'' base scopeTmWrite [] (\<lambda>c vs. createTenant h c),
       route ''POST'' (base @ [Lit ''query'']) scopeTmRead [] (\<lambda>c vs. queryTenants h c ''/tenants/query''),
       route ''GET'' item scopeTmRead [''tenantID''] (one (getTenant h)),
       route ''DELETE'' item scopeTmWrite [''tenantID''] (one (deleteTenant h)),
       route ''PATCH'' item scopeTmWrite [''tenantID''] (one (patchTenant h))] @ registerParticipantRoutes h)"

definition registerProfileQueryRoutes :: "'s tm_handler \<Rightarrow> (tenant_access option, 's) http_route list" where
  "registerProfileQueryRoutes h =
     [route ''POST'' [Lit ''participant-profiles'', Lit ''query''] scopeTmRead []
        (\<lambda>c vs. queryParticipantProfiles h c ''/participant-profiles/query'')]"

definition registerCellRoutes :: "'s tm_handler \<Rightarrow> (tenant_access option, 's) http_route list" where
  "registerCellRoutes h =
     [route ''GET'' [Lit ''cells''] scopeTmRead [] (\<lambda>c vs. getCells h c),
      route ''POST'' [Lit ''cells''] scopeTmAdmin [] (\<lambda>c vs. createCell h c),
      route ''DELETE'' [Lit ''cells'', Var ''cellID''] scopeTmAdmin [''cellID''] (one (deleteCell h))]"

definition registerDataspaceProfileRoutes :: "'s tm_handler \<Rightarrow> (tenant_access option, 's) http_route list" where
  "registerDataspaceProfileRoutes h =
     (let base = [Lit ''dataspace-profiles''] in
      [route ''GET'' base scopeTmRead [] (\<lambda>c vs. getDataspaceProfiles h c),
       route ''POST'' base scopeTmAdmin [] (\<lambda>c vs. createDataspaceProfile h c),
       route ''GET'' (base @ [Var ''id'']) scopeTmRead [''id''] (one (getDataspaceProfile h)),
       route ''DELETE'' (base @ [Var ''profileID'']) scopeTmAdmin [''profileID''] (one (deleteDataspaceProfile h)),
       route ''POST'' (base @ [Var ''id'', Lit ''deployments'']) scopeTmAdmin [''id''] (one (deployDataspaceProfile h))])"

definition registerV1Alpha1 :: "'s tm_handler \<Rightarrow> (tenant_access option, 's) http_route list" where
  "registerV1Alpha1 h =
     registerTenantRoutes h @ registerProfileQueryRoutes h @ registerCellRoutes h @ registerDataspaceProfileRoutes h"

text \<open>The tenant access of a caller (\<open>tmanager/handler/access.go\<close>) as the middleware of the API.\<close>

definition access_middleware :: "claims \<Rightarrow> http_response + tenant_access option" where
  "access_middleware c =
     (case tenantAccessMiddleware (Some c) of
        Inl status \<Rightarrow> Inl (WriteError ''Access not granted: token has no subject'' status)
      | Inr access \<Rightarrow> Inr access)"

definition serve_tm ::
    "(tenant_access option, 's) router \<Rightarrow> token_verifier \<Rightarrow> auth_validator \<Rightarrow> 's tm_handler \<Rightarrow> raw_request \<Rightarrow> 's \<Rightarrow>
     http_response call_result \<times> 's" where
  "serve_tm router verify v h = serve_api router verify v access_middleware (registerV1Alpha1 h)"

section \<open>Scopes\<close>

text \<open>Platform resources are for administrators, and the rest is writing.\<close>

definition tm_scope :: "string \<Rightarrow> string list \<Rightarrow> string" where
  "tm_scope m path =
     (if reads m path then scopeTmRead
      else if path \<noteq> [] \<and> hd path \<in> {''cells'', ''dataspace-profiles''} then scopeTmAdmin
      else scopeTmWrite)"

lemmas tm_routes = registerV1Alpha1_def registerTenantRoutes_def registerParticipantRoutes_def registerProfileQueryRoutes_def
  registerCellRoutes_def registerDataspaceProfileRoutes_def route_def Let_def

lemma tm_route_scope:
  "r \<in> set (registerV1Alpha1 h) \<Longrightarrow> match_path (rt_pattern r) path = Some vars \<Longrightarrow> rt_scope r = tm_scope (rt_method r) path"
  by (simp add: tm_routes, elim disjE) (clarsimp simp: tm_scope_def reads_def scopeTmRead_def scopeTmWrite_def scopeTmAdmin_def)+

interpretation tm_api: scoped_api "registerV1Alpha1 h" tm_scope access_middleware for h
  by unfold_locales
    (auto dest: tm_route_scope simp: access_middleware_def tenantAccessMiddleware_def WriteError_def WriteErrorWithID_def
      split: if_splits)

text \<open>
  C28. Authorization of the Tenant Manager. A request without a valid token, or whose token lacks the
  scope that the documentation names for it (reading and queries: read; changing cells and dataspace
  profiles: admin; all else: write), is answered with 401 or 403 (or 404 or 405 by the router) and
  neither reads nor changes any state: the response is the same in every state, and the state stays
  as it was. This holds for every implementation of the services.
\<close>

theorem tm_requires_scope:
  assumes "router_ok router"
    and "\<forall>c. validator_Middleware verify v (rr_Authorization raw) = Inr c \<longrightarrow> \<not> HasScope c (tm_scope (rr_Method raw) (rr_Path raw))"
  shows "\<exists>rsp. rs_status rsp \<in> {401, 403, 404, 405} \<and> (\<forall>s. serve_tm router verify v h raw s = (Returns rsp, s))"
  unfolding serve_tm_def using assms by (intro tm_api.refused) auto

end
