(* ===== verification/TM_Isolation.thy ===== *)
theory TM_Isolation
  imports TM_Api
begin

text \<open>
  The Tenant Manager behind its HTTP API, with the stores in memory: what a client that is not an
  administrator can learn and change by requests.
\<close>

section \<open>The Tenant Manager in memory\<close>

text \<open>What the services depend on outside the program, and the response that is being written.\<close>

record tm_env =
  te_fmt :: "gval \<Rightarrow> string"
  te_done :: "int \<Rightarrow> go_error option"
  te_net :: net
  te_selector :: "string \<Rightarrow> cell list \<Rightarrow> dataspace_profile list \<Rightarrow> go_error + cell"
  te_ord :: "string list \<Rightarrow> string list"
  te_uuids :: "nat \<Rightarrow> string"
  te_now :: int

type_synonym http_world = "tm_world \<times> http_response"

definition on_world :: "(tm_world \<Rightarrow> 'a call_result \<times> tm_world) \<Rightarrow> http_world \<Rightarrow> 'a call_result \<times> http_world" where
  "on_world f s = (case f (fst s) of (r, s') \<Rightarrow> (r, (s', snd s)))"

definition mem_services :: "tm_env \<Rightarrow> http_world tm_services" where
  "mem_services env =
     (let t = mem_tm (te_fmt env) (te_done env) (te_net env) in
      \<lparr>ts_GetTenant = \<lambda>ctx tid. on_world (GetTenant NoOp_Execute t ctx tid),
       ts_CreateTenant = \<lambda>ctx tn. on_world (CreateTenant NoOp_Execute t ctx tn),
       ts_PatchTenant = \<lambda>ctx tid ps rs. on_world (PatchTenant NoOp_Execute t ctx tid ps rs),
       ts_DeleteTenant = \<lambda>ctx tid. on_world (DeleteTenant NoOp_Execute t ctx tid),
       ts_QueryTenants = \<lambda>ctx p opts. on_world (QueryTenants NoOp_Execute t ctx p opts),
       ts_QueryTenantsCount = \<lambda>ctx p. on_world (QueryTenantsCount NoOp_Execute t ctx p),
       ts_GetTenants = \<lambda>ctx opts. on_world (GetTenants NoOp_Execute t ctx opts),
       ts_GetTenantsCount = \<lambda>ctx. on_world (\<lambda>s. of_result (GetTenantsCount t ctx s, s)),
       ts_GetProfile = \<lambda>ctx tid pid. on_world (GetProfile NoOp_Execute t ctx tid pid),
       ts_QueryProfiles = \<lambda>ctx p opts. on_world (QueryProfiles NoOp_Execute t ctx p opts),
       ts_QueryProfilesCount = \<lambda>ctx p. on_world (QueryProfilesCount NoOp_Execute t ctx p),
       ts_DeployProfile = \<lambda>ctx tid d. on_world
         (DeployProfile NoOp_Execute NoOp_Execute t (te_selector env) (te_ord env) (te_uuids env) (te_now env) ctx tid d),
       ts_DisposeProfile = \<lambda>ctx tid pid. on_world (DisposeProfile NoOp_Execute NoOp_Execute t (te_uuids env 0) ctx tid pid),
       ts_RecordExternalDeployment = \<lambda>cell. on_world (RecordExternalDeployment NoOp_Execute t cell),
       ts_DeleteCell = \<lambda>cellID. on_world (DeleteCell NoOp_Execute t cellID),
       ts_ListCells = on_world (ListCells NoOp_Execute t),
       ts_Dataspace_GetProfile = \<lambda>pid. on_world (Dataspace_GetProfile NoOp_Execute t pid),
       ts_Dataspace_CreateProfile = \<lambda>p. on_world (Dataspace_CreateProfile NoOp_Execute t p),
       ts_Dataspace_DeleteProfile = \<lambda>pid. on_world (Dataspace_DeleteProfile NoOp_Execute t pid),
       ts_Dataspace_DeployProfile = \<lambda>pid cellID. on_world (Dataspace_DeployProfile NoOp_Execute t (te_uuids env 0) pid cellID),
       ts_Dataspace_ListProfiles = on_world (Dataspace_ListProfiles NoOp_Execute t)\<rparr>)"

definition mem_handler :: "tm_env \<Rightarrow> tm_payloads \<Rightarrow> (string \<Rightarrow> go_error + predicate) \<Rightarrow> http_world tm_handler" where
  "mem_handler env pt parse =
     \<lparr>th_services = mem_services env, th_payloads = pt, th_execute = NoOp_Execute,
      th_writer = \<lparr>w_get = snd, w_set = \<lambda>rsp s. (fst s, rsp)\<rparr>, th_parse = parse\<rparr>"

section \<open>What a client owns\<close>

definition owned_tenants :: "string \<Rightarrow> tm_world \<Rightarrow> tenant list" where
  "owned_tenants u s = filter (\<lambda>tn. tn_Owner tn = u) (map snd (tw_tenants s))"

definition owned_profiles :: "string \<Rightarrow> tm_world \<Rightarrow> participant_profile list" where
  "owned_profiles u s = filter (\<lambda>p. pp_Owner p = u) (map snd (tw_participants s))"

definition same_view :: "string \<Rightarrow> tm_world \<Rightarrow> tm_world \<Rightarrow> bool" where
  "same_view u s1 s2 \<longleftrightarrow> owned_tenants u s1 = owned_tenants u s2 \<and> owned_profiles u s1 = owned_profiles u s2 \<and>
     tw_cells s1 = tw_cells s2 \<and> tw_dataspaces s1 = tw_dataspaces s2"

definition world_ok :: "tm_world \<Rightarrow> bool" where
  "world_ok s \<longleftrightarrow> cache_ok tenant_type (tw_tenants s) \<and> cache_ok participant_type (tw_participants s)"

text \<open>Looking up an entity of the client finds the same in worlds with the same view.\<close>

lemma owned_lookup:
  assumes "cache_ok T c1" "cache_ok T c2" "filter P (map snd c1) = filter P (map snd c2)" "P e"
  shows "lookup c1 k = Some e \<longleftrightarrow> lookup c2 k = Some e"
proof -
  have *: "e \<in> snd ` set c1 \<longleftrightarrow> e \<in> snd ` set c2"
    using arg_cong [OF assms(3), of set] assms(4) by auto
  show ?thesis
    using * cache_ok_snd [OF assms(1), of e] cache_ok_snd [OF assms(2), of e]
      cache_okD(1) [OF assms(1)] cache_okD(1) [OF assms(2)] by metis
qed

section \<open>Reading\<close>

text \<open>A step that answers alike in two worlds, and leaves each of them as it is.\<close>

definition alike :: "tm_world \<Rightarrow> tm_world \<Rightarrow> (http_world \<Rightarrow> 'a call_result \<times> http_world) \<Rightarrow> bool" where
  "alike s1 s2 f \<longleftrightarrow> (\<forall>w. \<exists>r w'. f (s1, w) = (r, (s1, w')) \<and> f (s2, w) = (r, (s2, w')))"

lemma alike_const [simp, intro]: "alike s1 s2 (\<lambda>s. (r, s))"
  by (simp add: alike_def)

lemma alikeE:
  assumes "alike s1 s2 f"
  obtains r w' where "f (s1, w) = (r, (s1, w'))" "f (s2, w) = (r, (s2, w'))"
  using assms unfolding alike_def by blast

lemma alike_bind:
  assumes "alike s1 s2 f" "\<And>a. alike s1 s2 (g a)"
  shows "alike s1 s2 (\<lambda>s. bind_outcome (f s) g)"
  unfolding alike_def
proof (rule allI)
  fix w
  obtain r w' where f: "f (s1, w) = (r, (s1, w'))" "f (s2, w) = (r, (s2, w'))" by (rule alikeE [OF assms(1)])
  show "\<exists>r w'. bind_outcome (f (s1, w)) g = (r, (s1, w')) \<and> bind_outcome (f (s2, w)) g = (r, (s2, w'))"
    using assms(2) [unfolded alike_def] f by (cases r) auto
qed

lemma alike_on_world:
  "f s1 = (r, s1) \<Longrightarrow> f s2 = (r, s2) \<Longrightarrow> alike s1 s2 (on_world f)"
  by (simp add: alike_def on_world_def)

lemma alike_respond:
  assumes "alike s1 s2 f"
  shows "alike s1 s2 (\<lambda>s. respond uuid answer (f s))"
  unfolding alike_def
proof (rule allI)
  fix w
  obtain r w' where "f (s1, w) = (r, (s1, w'))" "f (s2, w) = (r, (s2, w'))" by (rule alikeE [OF assms])
  then show "\<exists>r w'. respond uuid answer (f (s1, w)) = (r, (s1, w')) \<and> respond uuid answer (f (s2, w)) = (r, (s2, w'))"
    by (cases r) (auto simp: respond_def)
qed

lemma alike_for_method: "alike s1 s2 f \<Longrightarrow> alike s1 s2 (for_method c m f)"
  by (cases "InvalidMethod (hc_req c) m") (simp_all add: for_method_def alike_def)

lemma alike_written_in:
  assumes "alike s1 s2 callback"
  shows "alike s1 s2 (written_in NoOp_Execute \<lparr>w_get = snd, w_set = \<lambda>rsp s. (fst s, rsp)\<rparr> callback)"
  unfolding alike_def
proof (rule allI)
  fix w
  obtain r w' where "callback (s1, no_response) = (r, (s1, w'))" "callback (s2, no_response) = (r, (s2, w'))"
    by (rule alikeE [OF assms])
  then show "\<exists>r w'. written_in NoOp_Execute \<lparr>w_get = snd, w_set = \<lambda>rsp s. (fst s, rsp)\<rparr> callback (s1, w) = (r, (s1, w')) \<and>
      written_in NoOp_Execute \<lparr>w_get = snd, w_set = \<lambda>rsp s. (fst s, rsp)\<rparr> callback (s2, w) = (r, (s2, w'))"
    by (cases r) (auto simp: written_in_def NoOp_Execute_def)
qed


text \<open>What the services answer to the client is a function of its view.\<close>

lemma own_lookup:
  assumes "world_ok s1" "world_ok s2" "same_view u s1 s2"
  shows "tn_Owner tn = u \<Longrightarrow> lookup (tw_tenants s1) k = Some tn \<longleftrightarrow> lookup (tw_tenants s2) k = Some tn"
    "pp_Owner p = u \<Longrightarrow> lookup (tw_participants s1) k = Some p \<longleftrightarrow> lookup (tw_participants s2) k = Some p"
proof -
  have ok: "cache_ok tenant_type (tw_tenants s1)" "cache_ok tenant_type (tw_tenants s2)"
      "cache_ok participant_type (tw_participants s1)" "cache_ok participant_type (tw_participants s2)"
    and view: "filter (\<lambda>tn. tn_Owner tn = u) (map snd (tw_tenants s1)) = filter (\<lambda>tn. tn_Owner tn = u) (map snd (tw_tenants s2))"
      "filter (\<lambda>p. pp_Owner p = u) (map snd (tw_participants s1)) = filter (\<lambda>p. pp_Owner p = u) (map snd (tw_participants s2))"
    using assms by (simp_all only: world_ok_def same_view_def owned_tenants_def owned_profiles_def)
  show "tn_Owner tn = u \<Longrightarrow> lookup (tw_tenants s1) k = Some tn \<longleftrightarrow> lookup (tw_tenants s2) k = Some tn"
    by (rule owned_lookup [OF ok(1,2) view(1)])
  show "pp_Owner p = u \<Longrightarrow> lookup (tw_participants s1) k = Some p \<longleftrightarrow> lookup (tw_participants s2) k = Some p"
    by (rule owned_lookup [OF ok(3,4) view(2)])
qed

lemma GetTenant_run:
  assumes "client_request c ctx" "world_ok s"
  shows "GetTenant NoOp_Execute (mem_tm fmt_v cd net) ctx tid s =
    (case lookup (tw_tenants s) tid of
       None \<Rightarrow> Fails ErrNotFound | Some tn \<Rightarrow> if tn_Owner tn = cl_Subject c then Returns tn else Fails ErrNotFound, s)"
  using client_request_check [OF assms(1)] FindByID_ok [of tenant_type "tw_tenants s" tid] assms(2)
  by (simp add: GetTenant_def mem_tm_simps world_ok_def split: option.split)

lemma GetProfile_run:
  assumes "client_request c ctx" "world_ok s"
  shows "GetProfile NoOp_Execute (mem_tm fmt_v cd net) ctx tid pid s =
    (case lookup (tw_participants s) pid of
       None \<Rightarrow> Fails ErrNotFound
     | Some p \<Rightarrow> if pp_Owner p = cl_Subject c \<and> pp_TenantID p = tid then Returns p else Fails ErrNotFound, s)"
  using client_request_check [OF assms(1)] FindByID_ok [of participant_type "tw_participants s" pid] assms(2)
  by (simp add: GetProfile_def mem_tm_simps world_ok_def split: option.split)

lemma selected_owned:
  "filter (selected fmt_v tenant_type (Some (And [p, Eq ''owner'' (VStr u)]))) (map snd (tw_tenants s)) =
     filter (selected fmt_v tenant_type (Some p)) (owned_tenants u s)"
  "filter (selected fmt_v tenant_type (Some (Eq ''owner'' (VStr u)))) (map snd (tw_tenants s)) = owned_tenants u s"
  "filter (selected fmt_v participant_type (Some (And [p, Eq ''owner'' (VStr u)]))) (map snd (tw_participants s)) =
     filter (selected fmt_v participant_type (Some p)) (owned_profiles u s)"
  by (simp_all add: owned_tenants_def owned_profiles_def selected_And selected_tenant_owner selected_participant_owner
      filter_filter conj_commute cong: filter_cong)

lemma count_owned:
  "CountByPredicate fmt_v tenant_type (And [p, Eq ''owner'' (VStr u)]) (tw_tenants s) =
     int (length (filter (selected fmt_v tenant_type (Some p)) (owned_tenants u s)))"
  "CountByPredicate fmt_v tenant_type (Eq ''owner'' (VStr u)) (tw_tenants s) = int (length (owned_tenants u s))"
  "CountByPredicate fmt_v participant_type (And [p, Eq ''owner'' (VStr u)]) (tw_participants s) =
     int (length (filter (selected fmt_v participant_type (Some p)) (owned_profiles u s)))"
  by (simp_all only: CountByPredicate_def selected_owned)

lemma counts_run:
  assumes "client_request c ctx"
  shows "QueryTenantsCount NoOp_Execute (mem_tm fmt_v cd net) ctx p s =
      (Returns (int (length (filter (selected fmt_v tenant_type (Some p)) (owned_tenants (cl_Subject c) s)))), s)"
    "GetTenantsCount (mem_tm fmt_v cd net) ctx s = Inr (int (length (owned_tenants (cl_Subject c) s)))"
    "QueryProfilesCount NoOp_Execute (mem_tm fmt_v cd net) ctx p s =
      (Returns (int (length (filter (selected fmt_v participant_type (Some p)) (owned_profiles (cl_Subject c) s)))), s)"
  using client_request_access [OF assms]
  by (simp_all add: QueryTenantsCount_def GetTenantsCount_def QueryProfilesCount_def TenantAccessFromContext_def
      mem_tm_simps restricted_def Restrict_def IsRestricted_def OwnedTenantsAccess_def count_owned Let_def)

lemma pages_of_view:
  assumes "same_view u s1 s2"
  shows "paginateEntities fmt_v tenant_type cd (Some (And [p, Eq ''owner'' (VStr u)])) opts (tw_tenants s1) =
      paginateEntities fmt_v tenant_type cd (Some (And [p, Eq ''owner'' (VStr u)])) opts (tw_tenants s2)"
    "paginateEntities fmt_v tenant_type cd (Some (Eq ''owner'' (VStr u))) opts (tw_tenants s1) =
      paginateEntities fmt_v tenant_type cd (Some (Eq ''owner'' (VStr u))) opts (tw_tenants s2)"
    "paginateEntities fmt_v participant_type cd (Some (And [p, Eq ''owner'' (VStr u)])) opts (tw_participants s1) =
      paginateEntities fmt_v participant_type cd (Some (And [p, Eq ''owner'' (VStr u)])) opts (tw_participants s2)"
  using assms by (simp_all only: paginateEntities_def selected_owned same_view_def)

lemma case_owned:
  assumes "\<And>e. P e \<Longrightarrow> x = Some e \<longleftrightarrow> y = Some e"
  shows "(case x of None \<Rightarrow> a | Some e \<Rightarrow> if P e then f e else a) = (case y of None \<Rightarrow> a | Some e \<Rightarrow> if P e then f e else a)"
proof (cases "\<exists>e. P e \<and> (x = Some e \<or> y = Some e)")
  case True
  then show ?thesis using assms by auto
next
  case False
  then show ?thesis by (auto split: option.split)
qed

lemma reads_alike:
  assumes "client_request c ctx" "world_ok s1" "world_ok s2" "same_view (cl_Subject c) s1 s2"
    and h_def: "h = mem_services env"
  shows "alike s1 s2 (ts_GetTenant h ctx tid)" "alike s1 s2 (ts_GetProfile h ctx tid pid)"
    "alike s1 s2 (ts_QueryTenants h ctx p opts)" "alike s1 s2 (ts_QueryTenantsCount h ctx p)"
    "alike s1 s2 (ts_GetTenants h ctx opts)" "alike s1 s2 (ts_GetTenantsCount h ctx)"
    "alike s1 s2 (ts_QueryProfiles h ctx p opts)" "alike s1 s2 (ts_QueryProfilesCount h ctx p)"
    "alike s1 s2 (ts_ListCells h)" "alike s1 s2 (ts_Dataspace_GetProfile h pid)" "alike s1 s2 (ts_Dataspace_ListProfiles h)"
proof -
  note own = own_lookup [OF assms(2-4)]
  have view: "owned_tenants (cl_Subject c) s1 = owned_tenants (cl_Subject c) s2"
      "owned_profiles (cl_Subject c) s1 = owned_profiles (cl_Subject c) s2" "tw_cells s1 = tw_cells s2" "tw_dataspaces s1 = tw_dataspaces s2"
    using assms(4) by (simp_all add: same_view_def)
  have t: "(case lookup (tw_tenants s1) tid of
        None \<Rightarrow> Fails ErrNotFound | Some tn \<Rightarrow> if tn_Owner tn = cl_Subject c then Returns tn else Fails ErrNotFound) =
      (case lookup (tw_tenants s2) tid of
        None \<Rightarrow> Fails ErrNotFound | Some tn \<Rightarrow> if tn_Owner tn = cl_Subject c then Returns tn else Fails ErrNotFound)"
    by (rule case_owned) (rule own(1))
  have p: "(case lookup (tw_participants s1) pid of
       None \<Rightarrow> Fails ErrNotFound
     | Some p \<Rightarrow> if pp_Owner p = cl_Subject c \<and> pp_TenantID p = tid then Returns p else Fails ErrNotFound) =
     (case lookup (tw_participants s2) pid of
       None \<Rightarrow> Fails ErrNotFound
     | Some p \<Rightarrow> if pp_Owner p = cl_Subject c \<and> pp_TenantID p = tid then Returns p else Fails ErrNotFound)"
    by (rule case_owned) (rule own(2), simp)
  show "alike s1 s2 (ts_GetTenant h ctx tid)"
    using GetTenant_run [OF assms(1,2)] GetTenant_run [OF assms(1,3)] t
    by (simp add: h_def mem_services_def Let_def alike_on_world)
  show "alike s1 s2 (ts_GetProfile h ctx tid pid)"
    using GetProfile_run [OF assms(1,2)] GetProfile_run [OF assms(1,3)] p
    by (simp add: h_def mem_services_def Let_def alike_on_world)
  show "alike s1 s2 (ts_QueryTenants h ctx p opts)" "alike s1 s2 (ts_GetTenants h ctx opts)" "alike s1 s2 (ts_QueryProfiles h ctx p opts)"
    unfolding h_def mem_services_def Let_def tm_services.simps
    by (rule alike_on_world, rule queries_run [OF assms(1)], simp only: queries_run [OF assms(1)] pages_of_view [OF assms(4)])+
  show "alike s1 s2 (ts_QueryTenantsCount h ctx p)" "alike s1 s2 (ts_GetTenantsCount h ctx)" "alike s1 s2 (ts_QueryProfilesCount h ctx p)"
    by (simp_all add: h_def mem_services_def Let_def alike_on_world counts_run [OF assms(1)] view)
  show "alike s1 s2 (ts_ListCells h)" "alike s1 s2 (ts_Dataspace_ListProfiles h)"
    by (simp_all add: h_def mem_services_def Let_def alike_on_world ListCells_def Dataspace_ListProfiles_def mem_tm_simps view)
  show "alike s1 s2 (ts_Dataspace_GetProfile h pid)"
    by (cases "FindByID dataspace_type pid (tw_dataspaces s2)")
      (simp_all add: h_def mem_services_def Let_def alike_def on_world_def Dataspace_GetProfile_def mem_tm_simps view)
qed


text \<open>The handlers that read.\<close>

lemma alike_getProfilesForTenant:
  assumes "alike s1 s2 (ts_GetTenant (th_services h) (hc_ctx c) tid)"
    "\<And>p opts. alike s1 s2 (ts_QueryProfiles (th_services h) (hc_ctx c) p opts)"
  shows "alike s1 s2 (getProfilesForTenant h c tid)"
  unfolding getProfilesForTenant_def
proof (rule alike_for_method)
  let ?q = "\<lambda>s. bind_outcome (ts_QueryProfiles (th_services h) (hc_ctx c) (Eq ''tenantId'' (VStr tid)) DefaultPaginationOptions s)
      (\<lambda>seq s. respond (hc_ids c 0) (\<lambda>results. ResponseOK (JArr results)) (of_result (collect_profiles seq, s)))"
  have r: "alike s1 s2 (\<lambda>s. of_result (collect_profiles seq, s))" for seq
    by (cases "collect_profiles seq") (simp_all add: alike_const)
  have q: "alike s1 s2 ?q" by (intro alike_bind assms(2) alike_respond r)
  show "alike s1 s2 (\<lambda>s. case ts_GetTenant (th_services h) (hc_ctx c) tid s of
          (Fails err, s) \<Rightarrow> (Returns (HandleError (hc_ids c 0) err), s)
        | (Panics txt, s) \<Rightarrow> (Panics txt, s)
        | (Returns tenant, s) \<Rightarrow> ?q s)"
    unfolding alike_def
  proof (rule allI)
    fix w
    obtain r w' where "ts_GetTenant (th_services h) (hc_ctx c) tid (s1, w) = (r, (s1, w'))"
        "ts_GetTenant (th_services h) (hc_ctx c) tid (s2, w) = (r, (s2, w'))"
      by (rule alikeE [OF assms(1)])
    then show "\<exists>r w'. (case ts_GetTenant (th_services h) (hc_ctx c) tid (s1, w) of
          (Fails err, s) \<Rightarrow> (Returns (HandleError (hc_ids c 0) err), s)
        | (Panics txt, s) \<Rightarrow> (Panics txt, s)
        | (Returns tenant, s) \<Rightarrow> ?q s) = (r, (s1, w')) \<and>
       (case ts_GetTenant (th_services h) (hc_ctx c) tid (s2, w) of
          (Fails err, s) \<Rightarrow> (Returns (HandleError (hc_ids c 0) err), s)
        | (Panics txt, s) \<Rightarrow> (Panics txt, s)
        | (Returns tenant, s) \<Rightarrow> ?q s) = (r, (s2, w'))"
      using q [unfolded alike_def, rule_format, of w'] by (cases r) simp_all
  qed
qed

lemma alike_count_then:
  assumes "alike s1 s2 countFn" "\<And>n. alike s1 s2 (g n)"
  shows "alike s1 s2 (\<lambda>s. case countFn s of
       (Panics txt, s) \<Rightarrow> (Panics txt, s) | (Fails err, s) \<Rightarrow> (Returns (HandleError uuid err), s) | (Returns n, s) \<Rightarrow> g n s)"
  unfolding alike_def
proof (rule allI)
  fix w
  obtain r w' where f: "countFn (s1, w) = (r, (s1, w'))" "countFn (s2, w) = (r, (s2, w'))" by (rule alikeE [OF assms(1)])
  show "\<exists>r w'. (case countFn (s1, w) of
       (Panics txt, s) \<Rightarrow> (Panics txt, s) | (Fails err, s) \<Rightarrow> (Returns (HandleError uuid err), s) | (Returns n, s) \<Rightarrow> g n s) = (r, (s1, w')) \<and>
     (case countFn (s2, w) of
       (Panics txt, s) \<Rightarrow> (Panics txt, s) | (Fails err, s) \<Rightarrow> (Returns (HandleError uuid err), s) | (Returns n, s) \<Rightarrow> g n s) = (r, (s2, w'))"
    using assms(2) [unfolded alike_def] f by (cases r) auto
qed

lemma alike_QueryEntities:
  assumes "\<And>p. alike s1 s2 (countFn p)" "\<And>p opts. alike s1 s2 (queryFn p opts)"
  shows "alike s1 s2 (QueryEntities NoOp_Execute \<lparr>w_get = snd, w_set = \<lambda>rsp s. (fst s, rsp)\<rparr> uuid pt parse req path countFn queryFn tr)"
proof (cases "InvalidMethod req ''POST''")
  case None
  show ?thesis
  proof (cases "ReadPayload pt req")
    case (Inl rsp)
    then show ?thesis using None alike_written_in [OF alike_const] by (simp add: QueryEntities_def [abs_def])
  next
    case (Inr m)
    then show ?thesis using None
      by (cases "parse (qm_Predicate m)")
        (auto simp: QueryEntities_def [abs_def] Let_def intro!: alike_written_in alike_count_then alike_bind assms)
  qed
qed (simp add: QueryEntities_def [abs_def] alike_const)

lemma alike_ListEntities:
  assumes "alike s1 s2 countFn" "\<And>opts. alike s1 s2 (listFn opts)"
  shows "alike s1 s2 (ListEntities NoOp_Execute \<lparr>w_get = snd, w_set = \<lambda>rsp s. (fst s, rsp)\<rparr> uuid req path countFn listFn tr)"
proof (cases "InvalidMethod req ''GET''")
  case None
  show ?thesis using None
    by (cases "int_param req ''offset''"; cases "int_param req ''limit''")
      (auto simp: ListEntities_def [abs_def] intro!: alike_written_in alike_count_then alike_bind assms)
qed (simp add: ListEntities_def [abs_def] alike_const)

text \<open>The routes that a request which reads can be sent to.\<close>

lemma reading_routes:
  assumes "r \<in> set (registerV1Alpha1 h)" "match_path (rt_pattern r) path = Some vars" "reads (rt_method r) path"
  shows "rt_run r \<in> {one (getProfilesForTenant h), two (getParticipantProfile h), (\<lambda>c vs. getTenants h c ''/tenants''),
    (\<lambda>c vs. queryTenants h c ''/tenants/query''), one (getTenant h),
    (\<lambda>c vs. queryParticipantProfiles h c ''/participant-profiles/query''), (\<lambda>c vs. getCells h c),
    (\<lambda>c vs. getDataspaceProfiles h c), one (getDataspaceProfile h)}"
  using assms
  by (simp add: tm_routes, elim disjE) (clarsimp simp: reads_def)+

lemma alike_route:
  assumes "client_request c ctx" "world_ok s1" "world_ok s2" "same_view (cl_Subject c) s1 s2"
    and h: "h = mem_handler env pt parse" and "hc_ctx call = ctx"
    and "r \<in> set (registerV1Alpha1 h)" "match_path (rt_pattern r) path = Some vars" "reads (rt_method r) path"
  shows "alike s1 s2 (rt_run r call vs)"
proof -
  have sv: "th_services h = mem_services env" "th_execute h = NoOp_Execute" "th_writer h = \<lparr>w_get = snd, w_set = \<lambda>rsp s. (fst s, rsp)\<rparr>"
    by (simp_all add: h mem_handler_def)
  note ops = reads_alike [OF assms(1-4) refl, of env]
  show ?thesis
    using reading_routes [OF assms(7-9)]
    by (elim insertE emptyE)
      (simp_all add: one_def two_def getParticipantProfile_def getTenants_def [abs_def] queryTenants_def [abs_def] getTenant_def queryParticipantProfiles_def [abs_def]
        getCells_def getDataspaceProfiles_def getDataspaceProfile_def sv assms(6) ops
        alike_getProfilesForTenant alike_for_method alike_respond alike_QueryEntities alike_ListEntities)
qed


section \<open>Tenants of other clients\<close>

text \<open>The client owns neither the tenant nor a profile in it, or neither exists.\<close>

definition owns_nothing_in :: "string \<Rightarrow> string \<Rightarrow> tm_world \<Rightarrow> bool" where
  "owns_nothing_in u tid s \<longleftrightarrow>
     list_all (\<lambda>tn. tn_ID tn \<noteq> tid) (owned_tenants u s) \<and> list_all (\<lambda>p. pp_TenantID p \<noteq> tid) (owned_profiles u s)"

lemma owns_nothing_foreign:
  assumes "world_ok s" "owns_nothing_in (cl_Subject c) tid s"
  shows "foreign_tenant c tid s"
    "lookup (tw_participants s) pid = Some p \<Longrightarrow> pp_TenantID p = tid \<Longrightarrow> pp_Owner p \<noteq> cl_Subject c"
proof -
  have ok: "cache_ok tenant_type (tw_tenants s)" "cache_ok participant_type (tw_participants s)" using assms(1) by (simp_all add: world_ok_def)
  have "tn_ID tn = k" if "lookup (tw_tenants s) k = Some tn" for k tn
    using cache_okD(1) [OF ok(1) that] by (simp add: tenant_type_def)
  then show "foreign_tenant c tid s"
    using assms(2) cache_ok_snd [OF ok(1)]
    by (fastforce simp: foreign_tenant_def owns_nothing_in_def owned_tenants_def list_all_iff split: option.split)
  show "lookup (tw_participants s) pid = Some p \<Longrightarrow> pp_TenantID p = tid \<Longrightarrow> pp_Owner p \<noteq> cl_Subject c"
    using assms(2) cache_ok_snd [OF ok(2), of p] by (auto simp: owns_nothing_in_def owned_profiles_def list_all_iff)
qed

text \<open>A step that is refused alike in every such world, and changes none.\<close>

definition refuses :: "string \<Rightarrow> string \<Rightarrow> (http_world \<Rightarrow> http_response call_result \<times> http_world) \<Rightarrow> bool" where
  "refuses u tid f \<longleftrightarrow> (\<exists>rsp. rs_status rsp \<in> {400, 403, 404, 405} \<and>
     (\<forall>s w. world_ok s \<longrightarrow> owns_nothing_in u tid s \<longrightarrow> f (s, w) = (Returns rsp, (s, w))))"

lemma refuses_const: "rs_status rsp \<in> {400, 403, 404, 405} \<Longrightarrow> refuses u tid (\<lambda>s. (Returns rsp, s))"
  by (auto simp: refuses_def)

lemma refuses_for_method: "refuses u tid f \<Longrightarrow> refuses u tid (for_method c m f)"
  by (cases "rq_Method (hc_req c) = m")
    (simp_all add: for_method_def [abs_def] InvalidMethod_def refuses_const WriteError_def WriteErrorWithID_def)

lemma ReadPayload_status: "ReadPayload pt req = Inl rsp \<Longrightarrow> rs_status rsp = 400"
  by (auto simp: ReadPayload_def WriteError_def WriteErrorWithID_def split: sum.splits option.splits)

lemma refuses_with_payload: "(\<And>p. refuses u tid (f p)) \<Longrightarrow> refuses u tid (with_payload c pt f)"
  by (cases "ReadPayload pt (hc_req c)")
    (auto simp: with_payload_def [abs_def] dest: ReadPayload_status intro: refuses_const)

lemma refuses_respond:
  assumes "\<And>s. world_ok s \<Longrightarrow> owns_nothing_in u tid s \<Longrightarrow> f s = (Fails ErrNotFound, s)"
  shows "refuses u tid (\<lambda>s. respond uuid answer (on_world f s))"
  unfolding refuses_def
  by (intro exI [of _ "HandleError uuid ErrNotFound"])
    (simp add: assms respond_def on_world_def HandleError_status errors_Is_def)

lemma DisposeProfile_refused:
  assumes "client_request c ctx" "world_ok s" "owns_nothing_in (cl_Subject c) tid s"
  shows "DisposeProfile NoOp_Execute NoOp_Execute (mem_tm fmt_v cd net) uuid ctx tid pid s = (Fails ErrNotFound, s)"
  using owns_nothing_foreign(2) [OF assms(2,3), of pid] client_request_check [OF assms(1)]
    FindByID_ok [of participant_type "tw_participants s" pid] assms(2)
  by (auto simp: DisposeProfile_def dispose_callback_def mem_tm_simps world_ok_def split: option.splits)

lemma foreign_refused:
  assumes "client_request c ctx" "world_ok s" "owns_nothing_in (cl_Subject c) tid s"
  shows "GetTenant NoOp_Execute (mem_tm fmt_v cd net) ctx tid s = (Fails ErrNotFound, s)"
    "PatchTenant NoOp_Execute (mem_tm fmt_v cd net) ctx tid ps rs s = (Fails ErrNotFound, s)"
    "DeleteTenant NoOp_Execute (mem_tm fmt_v cd net) ctx tid s = (Fails ErrNotFound, s)"
    "DeployProfile NoOp_Execute NoOp_Execute (mem_tm fmt_v cd net) sel ord uuids now ctx tid d s = (Fails ErrNotFound, s)"
    "GetProfile NoOp_Execute (mem_tm fmt_v cd net) ctx tid pid s = (Fails ErrNotFound, s)"
proof -
  show "GetProfile NoOp_Execute (mem_tm fmt_v cd net) ctx tid pid s = (Fails ErrNotFound, s)"
    using GetProfile_run [OF assms(1,2), of fmt_v cd net tid pid] owns_nothing_foreign(2) [OF assms(2,3), of pid]
    by (auto split: option.splits)
qed (use foreign_tenant_refused [OF assms(1) _ owns_nothing_foreign(1) [OF assms(2,3)]] assms(2) in \<open>simp_all add: world_ok_def\<close>)

text \<open>The routes below a tenant.\<close>

lemma tenant_routes:
  assumes "r \<in> set (registerV1Alpha1 h)" "match_path (rt_pattern r) (''tenants'' # tid # rest) = Some vars"
    "rest = [] \<longrightarrow> rt_method r \<noteq> ''POST''"
  shows "lookup vars ''tenantID'' = Some tid \<and>
    ((rt_run r, rt_vars r) \<in> {(one (getProfilesForTenant h), [''tenantID'']), (one (deployParticipantProfile h), [''tenantID'']),
       (one (getTenant h), [''tenantID'']), (one (deleteTenant h), [''tenantID'']), (one (patchTenant h), [''tenantID'']),
       (two (getParticipantProfile h), [''tenantID'', ''participantID'']),
       (two (disposeParticipantProfile h), [''tenantID'', ''participantID''])})"
  by (insert assms(1), simp add: tm_routes, (elim disjE; insert assms(2,3); clarsimp split: if_splits))

lemma refuses_run:
  assumes "client_request c ctx" and h: "h = mem_handler env pt parse" and "hc_ctx call = ctx"
    and "r \<in> set (registerV1Alpha1 h)" "match_path (rt_pattern r) (''tenants'' # tid # rest) = Some vars"
    "rest = [] \<longrightarrow> rt_method r \<noteq> ''POST''" and "hd vs = tid"
  shows "refuses (cl_Subject c) tid (rt_run r call vs)"
proof -
  have sv: "th_services h = mem_services env" by (simp add: h mem_handler_def)
  note refused = foreign_refused [OF assms(1)] DisposeProfile_refused [OF assms(1)]
  have profiles: "refuses (cl_Subject c) tid (getProfilesForTenant h call tid)"
    unfolding getProfilesForTenant_def sv assms(3)
  proof (rule refuses_for_method)
    show "refuses (cl_Subject c) tid (\<lambda>s. case ts_GetTenant (mem_services env) ctx tid s of
          (Returns tenant, s) \<Rightarrow>
            bind_outcome (ts_QueryProfiles (mem_services env) ctx (Eq ''tenantId'' (VStr tid)) DefaultPaginationOptions s)
              (\<lambda>seq s. respond (hc_ids call 0) (\<lambda>results. ResponseOK (JArr results)) (of_result (collect_profiles seq, s)))
        | (Fails err, s) \<Rightarrow> (Returns (HandleError (hc_ids call 0) err), s)
        | (Panics txt, s) \<Rightarrow> (Panics txt, s))"
      unfolding refuses_def
      by (intro exI [of _ "HandleError (hc_ids call 0) ErrNotFound"])
        (simp add: mem_services_def Let_def on_world_def refused HandleError_status errors_Is_def)
  qed
  show ?thesis
    using tenant_routes [OF assms(4-6)] assms(7) profiles
    by (elim conjE insertE emptyE)
      (simp_all add: one_def two_def deployParticipantProfile_def getTenant_def deleteTenant_def patchTenant_def
        getParticipantProfile_def disposeParticipantProfile_def sv assms(3) mem_services_def Let_def
        refuses_for_method refuses_with_payload refuses_respond refused)
qed

lemma extract_status: "extract_all req vs = Inl rsp \<Longrightarrow> rs_status rsp = 400"
  by (induction req vs rule: extract_all.induct)
    (auto simp: ExtractPathVariable_def WriteError_def WriteErrorWithID_def Let_def split: sum.splits if_splits)

lemma extract_first: "extract_all req (v # vs) = Inr xs \<Longrightarrow> lookup (rq_PathParams req) v = Some x \<Longrightarrow> hd xs = x"
  by (auto simp: ExtractPathVariable_def Let_def split: sum.splits if_splits)

lemma IsAuthorized_status:
  "rq_Claims req = Some c \<Longrightarrow> IsAuthorized req [RequireScope sc] = Some rsp \<Longrightarrow> rs_status rsp = 403"
  by (auto simp: IsAuthorized_def RequireScope_def WriteError_def WriteErrorWithID_def split: if_splits)

lemma refuses_serve_route:
  assumes "client_request c ctx" and h: "h = mem_handler env pt parse" and "hc_ctx call = ctx" "rq_Claims (hc_req call) = Some c"
    and "r \<in> set (registerV1Alpha1 h)" "match_path (rt_pattern r) (''tenants'' # tid # rest) = Some (rq_PathParams (hc_req call))"
    "rest = [] \<longrightarrow> rt_method r \<noteq> ''POST''"
  shows "refuses (cl_Subject c) tid (serve_route r call)"
proof (cases "IsAuthorized (hc_req call) [RequireScope (rt_scope r)]")
  case None
  show ?thesis
  proof (cases "extract_all (hc_req call) (rt_vars r)")
    case (Inl rsp)
    then show ?thesis using None extract_status [OF Inl] by (simp add: serve_route_def [abs_def] refuses_const)
  next
    case (Inr vs)
    have "hd vs = tid"
      using tenant_routes [OF assms(5-7)] Inr extract_first by fastforce
    then show ?thesis using None Inr refuses_run [OF assms(1-3,5-7)] by (simp add: serve_route_def [abs_def])
  qed
next
  case (Some rsp)
  then show ?thesis using IsAuthorized_status [OF assms(4) Some] by (simp add: serve_route_def [abs_def] refuses_const)
qed

text \<open>
  C7. Tenants of other clients are out of reach. Any request of a client without the administrator
  scope below the path of a tenant (reading, patching or deleting it, listing, reading, deploying or
  disposing profiles in it) is answered with one and the same refusal (404 once the request itself
  is sound) in all worlds in which the client owns neither the tenant nor a profile in it, be it
  that another client does or that there is none, and such a request changes and sends nothing.
\<close>

theorem tm_foreign_tenants_unreachable:
  assumes "router_ok router"
    and "validator_Middleware verify v (rr_Authorization raw) = Inr c" "\<not> HasScope c scopeTmAdmin"
    and "rr_Path raw = ''tenants'' # tid # rest" "rest = [] \<longrightarrow> rr_Method raw \<noteq> ''POST''"
  shows "\<exists>rsp. rs_status rsp \<in> {400, 403, 404, 405} \<and>
    (\<forall>s w. world_ok s \<longrightarrow> owns_nothing_in (cl_Subject c) tid s \<longrightarrow>
       serve_tm router verify v (mem_handler env pt parse) raw (s, w) = (Returns rsp, (s, w)))"
proof (cases "access_middleware c")
  case (Inl rsp)
  then show ?thesis using assms(2) tm_api.middleware_status [OF Inl]
    by (intro exI [of _ rsp]) (simp add: serve_tm_def serve_api_def)
next
  case (Inr ctx)
  then have client: "client_request c ctx" using assms(3) by (simp add: client_request_def access_middleware_def split: sum.splits)
  show ?thesis
  proof (cases "router (registerV1Alpha1 (mem_handler env pt parse)) (rr_Method raw) (rr_Path raw)")
    case rsp: (Inl rsp)
    then show ?thesis using assms(2) Inr router_okD(2) [OF assms(1)]
      by (intro exI [of _ rsp]) (auto simp: serve_tm_def serve_api_def)
  next
    case found: (Inr b)
    obtain r vars where b: "b = (r, vars)" by (cases b)
    let ?call = "\<lparr>hc_req = \<lparr>rq_Method = rr_Method raw, rq_Claims = Some c, rq_Body = rr_Body raw, rq_PathParams = vars,
       rq_Query = rr_Query raw\<rparr>, hc_ctx = ctx, hc_ids = rr_ids raw\<rparr>"
    have r: "r \<in> set (registerV1Alpha1 (mem_handler env pt parse))" "match_path (rt_pattern r) (''tenants'' # tid # rest) = Some vars"
        "rest = [] \<longrightarrow> rt_method r \<noteq> ''POST''"
      using router_okD(1) [OF assms(1) found [unfolded b]] assms(4,5) by auto
    have "refuses (cl_Subject c) tid (serve_route r ?call)"
      by (rule refuses_serve_route [where rest = rest, OF client refl _ _ r(1)]) (simp_all add: r(2,3))
    then show ?thesis
      using assms(2) Inr found b by (simp add: refuses_def serve_tm_def serve_api_def)
  qed
qed

section \<open>An example\<close>

definition client_token :: token_verifier where
  "client_token c raw = Inr (raw, Inr [(''scope'', JStr ''tenant-manager-api:read tenant-manager-api:write'')])"

definition client_validator :: auth_validator where
  "client_validator = OidcValidator \<lparr>ov_verifier = \<lparr>vc_issuer = None, vc_SkipIssuerCheck = False, vc_SkipClientIDCheck = False,
     vc_ClientID = ''cfm'', vc_keys = []\<rparr>, ov_audience = ''cfm'', ov_audienceClaim = ''aud''\<rparr>"

definition claims_of_a :: claims where
  "claims_of_a = \<lparr>cl_Subject = ''a'', cl_Scopes = [scopeTmRead, scopeTmWrite], cl_allScopes = False\<rparr>"

lemma client_a_validated: "validator_Middleware client_token client_validator ''Bearer a'' = Inr claims_of_a"
  by (simp add: validator_Middleware_def client_validator_def oidc_Middleware_def client_token_def extractScopes_def Fields_def
      is_space_def claims_of_a_def scopeTmRead_def scopeTmWrite_def)

lemma client_a_plain: "\<not> HasScope claims_of_a scopeTmAdmin"
  by (simp add: HasScope_def claims_of_a_def scopeTmRead_def scopeTmWrite_def scopeTmAdmin_def)

definition request_of_a :: "string \<Rightarrow> string list \<Rightarrow> raw_request" where
  "request_of_a m path = \<lparr>rr_Method = m, rr_Path = path, rr_Authorization = ''Bearer a'', rr_Body = Inr [], rr_Query = [], rr_ids = \<lambda>n. []\<rparr>"

definition sample_env :: tm_env where
  "sample_env = \<lparr>te_fmt = \<lambda>v. [], te_done = \<lambda>i. None, te_net = \<lambda>sent m. None, te_selector = \<lambda>t cs ds. Inl ErrNotFound,
     te_ord = \<lambda>xs. xs, te_uuids = \<lambda>n. [], te_now = 0\<rparr>"

definition no_payload :: "'p payload_type" where
  "no_payload = \<lparr>pl_decode = \<lambda>body. Inl (SyntaxFailure 0), pl_validate = \<lambda>p. None\<rparr>"

definition sample_handler :: "http_world tm_handler" where
  "sample_handler = mem_handler sample_env
     \<lparr>pt_tenant = no_payload, pt_diff = no_payload, pt_cell = no_payload, pt_dataspace = no_payload, pt_dataspace_deployment = no_payload,
      pt_deployment = no_payload, pt_query = no_payload\<rparr> (\<lambda>s. Inl ErrInvalidInput)"

definition empty_world :: tm_world where
  "empty_world = \<lparr>tw_tenants = [], tw_participants = [], tw_cells = [], tw_dataspaces = [], tw_sent = []\<rparr>"

lemma worlds_ok: "world_ok world_of_b" "world_ok empty_world" "same_view ''a'' world_of_b empty_world"
  "owns_nothing_in ''a'' tid world_of_b" "owns_nothing_in ''a'' tid empty_world"
  by (simp_all add: world_ok_def cache_ok_def world_of_b_def tenant_of_b_def empty_world_def wf_map_def same_view_def
      owned_tenants_def owned_profiles_def owns_nothing_in_def) (simp_all add: tenant_type_def)


theorem tm_foreign_tenants_unreachable_witness:
  "\<exists>rsp. serve_tm first_match client_token client_validator sample_handler
      (request_of_a ''DELETE'' [''tenants'', ''t1'']) (world_of_b, no_response) = (Returns rsp, (world_of_b, no_response)) \<and>
    serve_tm first_match client_token client_validator sample_handler
      (request_of_a ''DELETE'' [''tenants'', ''t1'']) (empty_world, no_response) = (Returns rsp, (empty_world, no_response))"
proof -
  let ?raw = "request_of_a ''DELETE'' [''tenants'', ''t1'']"
  have 1: "validator_Middleware client_token client_validator (rr_Authorization ?raw) = Inr claims_of_a"
    by (simp add: request_of_a_def client_a_validated)
  have 2: "rr_Path ?raw = ''tenants'' # ''t1'' # []" "[] = [] \<longrightarrow> rr_Method ?raw \<noteq> ''POST''"
    by (simp_all add: request_of_a_def)
  have 3: "owns_nothing_in (cl_Subject claims_of_a) ''t1'' world_of_b" "owns_nothing_in (cl_Subject claims_of_a) ''t1'' empty_world"
    using worlds_ok(4,5) by (simp_all add: claims_of_a_def)
  obtain rsp where rsp: "\<forall>s w. world_ok s \<longrightarrow> owns_nothing_in (cl_Subject claims_of_a) ''t1'' s \<longrightarrow>
      serve_tm first_match client_token client_validator sample_handler ?raw (s, w) = (Returns rsp, (s, w))"
    using tm_foreign_tenants_unreachable [OF first_match_ok 1 client_a_plain 2] unfolding sample_handler_def by meson
  show ?thesis
    using rsp [rule_format, OF worlds_ok(1) 3(1)] rsp [rule_format, OF worlds_ok(2) 3(2)] by (intro exI [of _ rsp] conjI)
qed

theorem tm_requires_scope_witness:
  "\<exists>rsp. rs_status rsp \<in> {401, 403, 404, 405} \<and>
     serve_tm first_match client_token client_validator sample_handler
       (request_of_a ''POST'' [''cells'']) (empty_world, no_response) = (Returns rsp, (empty_world, no_response))"
proof -
  have "\<forall>c. validator_Middleware client_token client_validator (rr_Authorization (request_of_a ''POST'' [''cells''])) = Inr c \<longrightarrow>
      \<not> HasScope c (tm_scope (rr_Method (request_of_a ''POST'' [''cells''])) (rr_Path (request_of_a ''POST'' [''cells''])))"
    using client_a_plain by (simp add: request_of_a_def client_a_validated tm_scope_def reads_def)
  from tm_requires_scope [OF first_match_ok this, of sample_handler] show ?thesis by auto
qed

end
