(* ===== verification/PM_Api.thy ===== *)
theory PM_Api
  imports Http_Routes Index_Watcher
begin

text \<open>
  The HTTP API of the Provision Manager: the conversions between its representation and the entities
  (\<open>pmanager/model/v1alpha1/model.go\<close>, \<open>transformers.go\<close>), the handlers
  (\<open>pmanager/handler/handlersv1alpha1.go\<close>) and the routes with the scopes they require
  (\<open>pmanager/handler/assembly.go\<close>).

  The maps of an orchestration are never nil in the model, so a nil one, which is encoded as
  \<open>null\<close>, is an empty object here.
\<close>

section \<open>Activities and definitions\<close>

record activity_dto =
  at_ID :: string
  at_Type :: string
  at_DependsOn :: "string list"

record activity_definition_dto =
  adt_Type :: string
  adt_Description :: string
  adt_InputSchema :: props
  adt_OutputSchema :: props

record orchestration_template =
  ot_Description :: string
  ot_Schema :: props
  ot_ID :: string
  ot_Activities :: "(string, activity_dto list) gomap option"

record orchestration_definition_dto =
  odt_Description :: string
  odt_Schema :: props
  odt_Activities :: "(string, activity_dto list) gomap"
  odt_TemplateRef :: string

text \<open>The arguments that may be nil are options.\<close>

definition ToActivityDefinitionDto :: "activity_definition option \<Rightarrow> activity_definition_dto" where
  "ToActivityDefinitionDto def =
     (case def of
        None \<Rightarrow> \<lparr>adt_Type = [], adt_Description = [], adt_InputSchema = [], adt_OutputSchema = []\<rparr>
      | Some d \<Rightarrow> \<lparr>adt_Type = ad_Type d, adt_Description = ad_Description d, adt_InputSchema = ad_InputSchema d,
                   adt_OutputSchema = ad_OutputSchema d\<rparr>)"

definition ToActivityDefinition :: "activity_definition_dto option \<Rightarrow> activity_definition" where
  "ToActivityDefinition def =
     (case def of
        None \<Rightarrow> \<lparr>ad_Type = [], ad_Version = 0, ad_Description = [], ad_InputSchema = [], ad_OutputSchema = []\<rparr>
      | Some d \<Rightarrow> \<lparr>ad_Type = adt_Type d, ad_Version = 0, ad_Description = adt_Description d, ad_InputSchema = adt_InputSchema d,
                   ad_OutputSchema = adt_OutputSchema d\<rparr>)"

definition to_activity :: "string \<Rightarrow> activity_dto \<Rightarrow> activity" where
  "to_activity orchType d = \<lparr>a_ID = at_ID d, a_Type = at_Type d, a_Discriminator = orchType, a_DependsOn = at_DependsOn d\<rparr>"

definition to_definition :: "orchestration_template \<Rightarrow> string \<Rightarrow> string \<Rightarrow> activity_dto list \<Rightarrow> orchestration_definition" where
  "to_definition template templateRef orchType activities =
     \<lparr>od_Type = orchType, od_TemplateRef = templateRef, od_Version = 0, od_Description = ot_Description template, od_Active = True,
      od_Schema = ot_Schema template, od_Activities = map (to_activity orchType) activities\<rparr>"

text \<open>One definition for each entry of the activities, in the order of the range loop.\<close>

definition ToOrchestrationDefinition ::
    "string \<Rightarrow> range_order \<Rightarrow> orchestration_template option \<Rightarrow> string \<times> orchestration_definition list" where
  "ToOrchestrationDefinition uuid ord template =
     (case template of
        None \<Rightarrow> ([], [])
      | Some t \<Rightarrow>
          (let templateRef = (if ot_ID t = [] then uuid else ot_ID t) in
           (templateRef,
            (if ot_Activities t = Some [] then [to_definition t templateRef [] []] else []) @
            (case ot_Activities t of
               None \<Rightarrow> []
             | Some m \<Rightarrow> map (\<lambda>k. to_definition t templateRef k (the (lookup m k))) (ord 0 (keys m))))))"

definition to_activity_dto :: "activity \<Rightarrow> activity_dto" where
  "to_activity_dto a = \<lparr>at_ID = a_ID a, at_Type = a_Type a, at_DependsOn = a_DependsOn a\<rparr>"

fun by_discriminator :: "activity list \<Rightarrow> (string, activity_dto list) gomap \<Rightarrow> (string, activity_dto list) gomap" where
  "by_discriminator [] m = m"
| "by_discriminator (a # as) m =
     by_discriminator as (put (a_Discriminator a)
       ((case lookup m (a_Discriminator a) of None \<Rightarrow> [] | Some xs \<Rightarrow> xs) @ [to_activity_dto a]) m)"

definition ToOrchestrationDefinitionDto :: "orchestration_definition option \<Rightarrow> orchestration_definition_dto" where
  "ToOrchestrationDefinitionDto def =
     (case def of
        None \<Rightarrow> \<lparr>odt_Description = [], odt_Schema = [], odt_Activities = [], odt_TemplateRef = []\<rparr>
      | Some d \<Rightarrow> \<lparr>odt_Description = od_Description d, odt_Schema = od_Schema d, odt_Activities = by_discriminator (od_Activities d) [],
                   odt_TemplateRef = od_TemplateRef d\<rparr>)"

definition activity_dto_json :: "activity_dto \<Rightarrow> json" where
  "activity_dto_json d =
     JObj ([(''id'', JStr (at_ID d)), (''type'', JStr (at_Type d))] @ omit_array ''dependsOn'' (map JStr (at_DependsOn d)))"

definition activity_definition_json :: "activity_definition_dto \<Rightarrow> json" where
  "activity_definition_json d =
     JObj ([(''type'', JStr (adt_Type d))] @ omit_text ''description'' (adt_Description d) @
       omit_object ''inputSchema'' (adt_InputSchema d) @ omit_object ''outputSchema'' (adt_OutputSchema d))"

definition orchestration_definition_json :: "orchestration_definition_dto \<Rightarrow> json" where
  "orchestration_definition_json d =
     JObj (omit_text ''description'' (odt_Description d) @ omit_object ''schema'' (odt_Schema d) @
       [(''activities'', JObj (map (\<lambda>(k, as). (k, JArr (map activity_dto_json as))) (odt_Activities d))),
        (''templateRef'', JStr (odt_TemplateRef d))])"

section \<open>Orchestrations\<close>

record orchestration_dto =
  pto_ID :: string
  pto_CorrelationID :: string
  pto_DefinitionID :: string
  pto_State :: nat
  pto_StateTimestamp :: int
  pto_CreatedTimestamp :: int
  pto_OrchestrationType :: string
  pto_Steps :: "activity_dto list list"
  pto_ProcessingData :: props
  pto_OutputData :: props
  pto_Completed :: "(string, unit) gomap"
  pto_Error :: string

definition toActivities :: "activity list \<Rightarrow> activity_dto list" where
  "toActivities activities = map to_activity_dto activities"

definition toSteps :: "activity list list \<Rightarrow> activity_dto list list" where
  "toSteps steps = map toActivities steps"

definition ToOrchestration :: "orchestration \<Rightarrow> orchestration_dto" where
  "ToOrchestration o' =
     \<lparr>pto_ID = o_ID o', pto_CorrelationID = o_CorrelationID o', pto_DefinitionID = o_DefinitionID o', pto_State = state_code (o_State o'),
      pto_StateTimestamp = o_StateTimestamp o', pto_CreatedTimestamp = o_CreatedTimestamp o',
      pto_OrchestrationType = o_OrchestrationType o', pto_Steps = toSteps (o_Steps o'), pto_ProcessingData = o_ProcessingData o',
      pto_OutputData = o_OutputData o', pto_Completed = o_Completed o', pto_Error = EngineError (o_EngineState o')\<rparr>"

definition orchestration_json :: "orchestration_dto \<Rightarrow> json" where
  "orchestration_json d =
     JObj ([(''id'', JStr (pto_ID d)), (''correlationId'', JStr (pto_CorrelationID d)), (''definitionId'', JStr (pto_DefinitionID d)),
        (''state'', JNum (int (pto_State d))), (''stateTimestamp'', JNum (pto_StateTimestamp d)),
        (''createdTimestamp'', JNum (pto_CreatedTimestamp d)), (''orchestrationType'', JStr (pto_OrchestrationType d)),
        (''steps'', JArr (map (\<lambda>as. JObj [(''activities'', JArr (map activity_dto_json as))]) (pto_Steps d))),
        (''processingData'', JObj (pto_ProcessingData d)), (''outputData'', JObj (pto_OutputData d)),
        (''completed'', JObj (map (\<lambda>(k, u). (k, JObj [])) (pto_Completed d)))] @ omit_text ''error'' (pto_Error d))"

definition ToOrchestrationEntry :: "orchestration_entry \<Rightarrow> json" where
  "ToOrchestrationEntry e =
     JObj [(''id'', JStr (oe_ID e)), (''correlationId'', JStr (oe_CorrelationID e)), (''state'', JNum (int (state_code (oe_State e)))),
       (''stateTimestamp'', JNum (oe_StateTimestamp e)), (''createdTimestamp'', JNum (oe_CreatedTimestamp e)),
       (''orchestrationType'', JStr (oe_OrchestrationType e)), (''definitionId'', JStr (oe_DefinitionID e))]"

section \<open>The handler\<close>

definition scopePmRead :: string where "scopePmRead = ''provision-manager-api:read''"
definition scopePmWrite :: string where "scopePmWrite = ''provision-manager-api:write''"
definition scopePmAdmin :: string where "scopePmAdmin = ''provision-manager-api:admin''"

text \<open>The services. An orchestration that is not found is nil.\<close>

record 's pm_services =
  ps_CreateActivityDefinition :: "activity_definition \<Rightarrow> 's \<Rightarrow> activity_definition call_result \<times> 's"
  ps_CreateOrchestrationDefinition :: "orchestration_definition \<Rightarrow> 's \<Rightarrow> orchestration_definition call_result \<times> 's"
  ps_DeleteActivityDefinition :: "string \<Rightarrow> 's \<Rightarrow> unit call_result \<times> 's"
  ps_DeleteOrchestrationDefinition :: "string \<Rightarrow> 's \<Rightarrow> unit call_result \<times> 's"
  ps_GetActivityDefinitions :: "'s \<Rightarrow> activity_definition list call_result \<times> 's"
  ps_GetOrchestrationDefinitions :: "'s \<Rightarrow> orchestration_definition list call_result \<times> 's"
  ps_GetOrchestrationDefinitionsByTemplate :: "string \<Rightarrow> 's \<Rightarrow> orchestration_definition list call_result \<times> 's"
  ps_Start :: "orchestration_manifest \<Rightarrow> 's \<Rightarrow> orchestration call_result \<times> 's"
  ps_GetOrchestration :: "string \<Rightarrow> 's \<Rightarrow> orchestration option call_result \<times> 's"
  ps_CountOrchestrations :: "predicate \<Rightarrow> 's \<Rightarrow> int call_result \<times> 's"
  ps_QueryOrchestrations :: "predicate \<Rightarrow> pagination \<Rightarrow> 's \<Rightarrow> (go_error + orchestration_entry) list call_result \<times> 's"

record pm_payloads =
  pt_activity :: "activity_definition_dto payload_type"
  pt_template :: "orchestration_template payload_type"
  pt_manifest :: "orchestration_manifest payload_type"
  pt_pm_query :: "query_message payload_type"

record 's pm_handler =
  ph_services :: "'s pm_services"
  ph_payloads :: pm_payloads
  ph_execute :: "('s, unit) trx"
  ph_writer :: "'s response_writer"
  ph_parse :: "string \<Rightarrow> go_error + predicate"
  ph_ord :: range_order

definition canSeeOrchestrationData :: "http_request \<Rightarrow> bool" where
  "canSeeOrchestrationData req = (case rq_Claims req of None \<Rightarrow> False | Some c \<Rightarrow> HasScope c scopePmAdmin)"

definition toOrchestrationResponse :: "http_request \<Rightarrow> orchestration \<Rightarrow> orchestration_dto" where
  "toOrchestrationResponse req orch =
     (let response = ToOrchestration orch in
      if \<not> canSeeOrchestrationData req then response\<lparr>pto_ProcessingData := [], pto_OutputData := []\<rparr> else response)"

definition createActivityDefinition :: "'s pm_handler \<Rightarrow> unit http_call \<Rightarrow> 's \<Rightarrow> http_response call_result \<times> 's" where
  "createActivityDefinition h c =
     for_method c ''POST'' (with_payload c (pt_activity (ph_payloads h)) (\<lambda>def s.
       respond (hc_ids c 0) (\<lambda>d. Created) (ps_CreateActivityDefinition (ph_services h) (ToActivityDefinition (Some def)) s)))"

text \<open>The loop over the definitions of a template: each is created in a transaction of its own.\<close>

fun create_definitions ::
    "'s pm_services \<Rightarrow> orchestration_definition list \<Rightarrow> 's \<Rightarrow> unit call_result \<times> 's" where
  "create_definitions sv [] s = (Returns (), s)"
| "create_definitions sv (def # defs) s =
     bind_outcome (ps_CreateOrchestrationDefinition sv def s) (\<lambda>d s. create_definitions sv defs s)"

definition id_response :: "string \<Rightarrow> json" where
  "id_response templateRef = JObj [(''id'', JStr templateRef), (''description'', JStr ''ID of the Orchestration Template'')]"

definition createOrchestrationDefinition :: "'s pm_handler \<Rightarrow> unit http_call \<Rightarrow> 's \<Rightarrow> http_response call_result \<times> 's" where
  "createOrchestrationDefinition h c =
     for_method c ''POST'' (with_payload c (pt_template (ph_payloads h)) (\<lambda>template s.
       (let (templateRef, definitions) = ToOrchestrationDefinition (hc_ids c 1) (ph_ord h) (Some template) in
        respond (hc_ids c 0) (\<lambda>u. ResponseCreated (id_response templateRef)) (create_definitions (ph_services h) definitions s))))"

definition createOrchestration :: "'s pm_handler \<Rightarrow> unit http_call \<Rightarrow> 's \<Rightarrow> http_response call_result \<times> 's" where
  "createOrchestration h c =
     for_method c ''POST'' (with_payload c (pt_manifest (ph_payloads h)) (\<lambda>manifest s.
       respond (hc_ids c 0) (\<lambda>orch. ResponseAccepted (orchestration_json (toOrchestrationResponse (hc_req c) orch)))
         (ps_Start (ph_services h) manifest s)))"

definition deleteOrchestrationDefinition :: "'s pm_handler \<Rightarrow> unit http_call \<Rightarrow> string \<Rightarrow> 's \<Rightarrow> http_response call_result \<times> 's" where
  "deleteOrchestrationDefinition h c templateRef =
     for_method c ''DELETE'' (\<lambda>s. respond (hc_ids c 0) (\<lambda>u. OK) (ps_DeleteOrchestrationDefinition (ph_services h) templateRef s))"

definition deleteActivityDefinition :: "'s pm_handler \<Rightarrow> unit http_call \<Rightarrow> string \<Rightarrow> 's \<Rightarrow> http_response call_result \<times> 's" where
  "deleteActivityDefinition h c aType =
     for_method c ''DELETE'' (\<lambda>s. respond (hc_ids c 0) (\<lambda>u. OK) (ps_DeleteActivityDefinition (ph_services h) aType s))"

definition queryOrchestrations :: "'s pm_handler \<Rightarrow> unit http_call \<Rightarrow> string \<Rightarrow> 's \<Rightarrow> http_response call_result \<times> 's" where
  "queryOrchestrations h c path s =
     QueryEntities (ph_execute h) (ph_writer h) (hc_ids c 0) (pt_pm_query (ph_payloads h)) (ph_parse h) (hc_req c) path
       (ps_CountOrchestrations (ph_services h)) (ps_QueryOrchestrations (ph_services h)) ToOrchestrationEntry s"

text \<open>The conversion of nil panics.\<close>

definition getOrchestration :: "'s pm_handler \<Rightarrow> unit http_call \<Rightarrow> string \<Rightarrow> 's \<Rightarrow> http_response call_result \<times> 's" where
  "getOrchestration h c oid =
     for_method c ''GET'' (\<lambda>s.
       (case ps_GetOrchestration (ph_services h) oid s of
          (Fails err, s) \<Rightarrow> (Returns (HandleError (hc_ids c 0) err), s)
        | (Panics txt, s) \<Rightarrow> (Panics txt, s)
        | (Returns None, s) \<Rightarrow> (Panics ''nil pointer dereference'', s)
        | (Returns (Some orch), s) \<Rightarrow> (Returns (ResponseOK (orchestration_json (toOrchestrationResponse (hc_req c) orch))), s)))"

definition getActivityDefinitions :: "'s pm_handler \<Rightarrow> unit http_call \<Rightarrow> 's \<Rightarrow> http_response call_result \<times> 's" where
  "getActivityDefinitions h c =
     for_method c ''GET'' (\<lambda>s. respond (hc_ids c 0)
       (\<lambda>defs. ResponseOK (JArr (map (\<lambda>d. activity_definition_json (ToActivityDefinitionDto (Some d))) defs)))
       (ps_GetActivityDefinitions (ph_services h) s))"

definition definitions_json :: "orchestration_definition list \<Rightarrow> json" where
  "definitions_json defs = JArr (map (\<lambda>d. orchestration_definition_json (ToOrchestrationDefinitionDto (Some d))) defs)"

definition getOrchestrationDefinitions :: "'s pm_handler \<Rightarrow> unit http_call \<Rightarrow> 's \<Rightarrow> http_response call_result \<times> 's" where
  "getOrchestrationDefinitions h c =
     for_method c ''GET'' (\<lambda>s. respond (hc_ids c 0) (\<lambda>defs. ResponseOK (definitions_json defs))
       (ps_GetOrchestrationDefinitions (ph_services h) s))"

text \<open>Collecting no elements gives nil, which is encoded as \<open>null\<close>.\<close>

definition getOrchestrationDefinitionsByTemplate ::
    "'s pm_handler \<Rightarrow> unit http_call \<Rightarrow> string \<Rightarrow> 's \<Rightarrow> http_response call_result \<times> 's" where
  "getOrchestrationDefinitionsByTemplate h c templateRef =
     for_method c ''GET'' (\<lambda>s. respond (hc_ids c 0) (\<lambda>defs. ResponseOK (if defs = [] then JNull else definitions_json defs))
       (ps_GetOrchestrationDefinitionsByTemplate (ph_services h) templateRef s))"

section \<open>The routes\<close>

definition registerOrchestrationRoutes :: "'s pm_handler \<Rightarrow> (unit, 's) http_route list" where
  "registerOrchestrationRoutes h =
     (let base = [Lit ''orchestrations''] in
      [route ''POST'' base scopePmWrite [] (\<lambda>c vs. createOrchestration h c),
       route ''POST'' (base @ [Lit ''query'']) scopePmRead [] (\<lambda>c vs. queryOrchestrations h c ''/orchestrations/query''),
       route ''GET'' (base @ [Var ''orchestrationID'']) scopePmRead [''orchestrationID''] (one (getOrchestration h))])"

definition registerActivityDefinitionRoutes :: "'s pm_handler \<Rightarrow> (unit, 's) http_route list" where
  "registerActivityDefinitionRoutes h =
     (let base = [Lit ''activity-definitions''] in
      [route ''GET'' base scopePmRead [] (\<lambda>c vs. getActivityDefinitions h c),
       route ''POST'' base scopePmAdmin [] (\<lambda>c vs. createActivityDefinition h c),
       route ''DELETE'' (base @ [Var ''activityType'']) scopePmAdmin [''activityType''] (one (deleteActivityDefinition h))])"

definition registerOrchestrationDefinitionRoutes :: "'s pm_handler \<Rightarrow> (unit, 's) http_route list" where
  "registerOrchestrationDefinitionRoutes h =
     (let base = [Lit ''orchestration-definitions'']; item = base @ [Var ''templateRef''] in
      [route ''GET'' base scopePmRead [] (\<lambda>c vs. getOrchestrationDefinitions h c),
       route ''POST'' base scopePmAdmin [] (\<lambda>c vs. createOrchestrationDefinition h c),
       route ''DELETE'' item scopePmAdmin [''templateRef''] (one (deleteOrchestrationDefinition h)),
       route ''GET'' item scopePmRead [''templateRef''] (one (getOrchestrationDefinitionsByTemplate h))])"

definition pm_registerV1Alpha1 :: "'s pm_handler \<Rightarrow> (unit, 's) http_route list" where
  "pm_registerV1Alpha1 h =
     registerActivityDefinitionRoutes h @ registerOrchestrationDefinitionRoutes h @ registerOrchestrationRoutes h"

definition serve_pm ::
    "(unit, 's) router \<Rightarrow> token_verifier \<Rightarrow> auth_validator \<Rightarrow> 's pm_handler \<Rightarrow> raw_request \<Rightarrow> 's \<Rightarrow>
     http_response call_result \<times> 's" where
  "serve_pm router verify v h = serve_api router verify v (\<lambda>c. Inr ()) (pm_registerV1Alpha1 h)"

section \<open>Scopes\<close>

text \<open>Starting an orchestration is writing; definitions are for administrators.\<close>

definition pm_scope :: "string \<Rightarrow> string list \<Rightarrow> string" where
  "pm_scope m path =
     (if reads m path then scopePmRead else if path = [''orchestrations''] then scopePmWrite else scopePmAdmin)"

lemmas pm_routes = pm_registerV1Alpha1_def registerOrchestrationRoutes_def registerActivityDefinitionRoutes_def
  registerOrchestrationDefinitionRoutes_def route_def Let_def

lemma pm_route_scope:
  "r \<in> set (pm_registerV1Alpha1 h) \<Longrightarrow> match_path (rt_pattern r) path = Some vars \<Longrightarrow> rt_scope r = pm_scope (rt_method r) path"
  by (simp add: pm_routes, elim disjE) (clarsimp simp: pm_scope_def reads_def scopePmRead_def scopePmWrite_def scopePmAdmin_def)+

interpretation pm_api: scoped_api "pm_registerV1Alpha1 h" pm_scope "\<lambda>c. Inr ()" for h
  by unfold_locales (auto dest: pm_route_scope)

text \<open>
  C32. Authorization of the Provision Manager. A request without a valid token, or whose token lacks
  the scope that the documentation names for it (reading and queries: read; starting an
  orchestration: write; creating and deleting definitions, which decide what the agents do: admin),
  is refused and neither reads nor changes any state, whatever the services are.
\<close>

theorem pm_requires_scope:
  assumes "router_ok router"
    and "\<forall>c. validator_Middleware verify v (rr_Authorization raw) = Inr c \<longrightarrow> \<not> HasScope c (pm_scope (rr_Method raw) (rr_Path raw))"
  shows "\<exists>rsp. rs_status rsp \<in> {401, 403, 404, 405} \<and> (\<forall>s. serve_pm router verify v h raw s = (Returns rsp, s))"
  unfolding serve_pm_def using assms by (intro pm_api.refused) auto

section \<open>The data of orchestrations\<close>

text \<open>The services with the data of orchestrations replaced by \<open>pd\<close> and \<open>od\<close>.\<close>

definition with_data :: "props \<Rightarrow> props \<Rightarrow> orchestration \<Rightarrow> orchestration" where
  "with_data pd od orch = orch\<lparr>o_ProcessingData := pd, o_OutputData := od\<rparr>"

definition map_call :: "('a \<Rightarrow> 'b) \<Rightarrow> 'a call_result \<times> 's \<Rightarrow> 'b call_result \<times> 's" where
  "map_call f r = bind_outcome r (\<lambda>a s. (Returns (f a), s))"

definition replace_data :: "(orchestration \<Rightarrow> orchestration) \<Rightarrow> 's pm_handler \<Rightarrow> 's pm_handler" where
  "replace_data f h = h\<lparr>ph_services := (ph_services h)
     \<lparr>ps_Start := \<lambda>m s. map_call f (ps_Start (ph_services h) m s),
      ps_GetOrchestration := \<lambda>oid s. map_call (map_option f) (ps_GetOrchestration (ph_services h) oid s)\<rparr>\<rparr>"

lemma response_hides: "\<not> canSeeOrchestrationData req \<Longrightarrow> toOrchestrationResponse req (with_data pd od orch) = toOrchestrationResponse req orch"
  by (simp add: toOrchestrationResponse_def ToOrchestration_def with_data_def)

lemma handlers_hide:
  assumes "\<not> canSeeOrchestrationData (hc_req c)"
  shows "getOrchestration (replace_data (with_data pd od) h) c oid = getOrchestration h c oid"
    "createOrchestration (replace_data (with_data pd od) h) c = createOrchestration h c"
proof -
  have 1: "respond uuid (\<lambda>orch. ResponseAccepted (orchestration_json (toOrchestrationResponse (hc_req c) orch))) (map_call (with_data pd od) r) =
      respond uuid (\<lambda>orch. ResponseAccepted (orchestration_json (toOrchestrationResponse (hc_req c) orch))) r" for uuid r
    by (cases r; cases "fst r") (simp_all add: respond_def map_call_def response_hides [OF assms] split: prod.splits)
  show "createOrchestration (replace_data (with_data pd od) h) c = createOrchestration h c"
    by (simp add: createOrchestration_def replace_data_def 1)
  show "getOrchestration (replace_data (with_data pd od) h) c oid = getOrchestration h c oid"
    by (auto simp: getOrchestration_def replace_data_def map_call_def bind_outcome_def response_hides [OF assms]
        intro!: arg_cong [where f = "for_method c ''GET''"] split: prod.split call_result.split option.split)
qed

text \<open>The routes below \<open>/orchestrations\<close>.\<close>

definition get_route :: "'s pm_handler \<Rightarrow> (unit, 's) http_route" where
  "get_route h =
     route ''GET'' [Lit ''orchestrations'', Var ''orchestrationID''] scopePmRead [''orchestrationID''] (one (getOrchestration h))"

definition start_route :: "'s pm_handler \<Rightarrow> (unit, 's) http_route" where
  "start_route h = route ''POST'' [Lit ''orchestrations''] scopePmWrite [] (\<lambda>c vs. createOrchestration h c)"

lemma only_route:
  assumes "router_ok router" "r0 \<in> set routes" "rt_method r0 = m" "match_path (rt_pattern r0) path = Some vars"
    and "\<And>r vs. r \<in> set routes \<Longrightarrow> rt_method r = m \<Longrightarrow> match_path (rt_pattern r) path = Some vs \<Longrightarrow> r = r0"
  shows "router routes m path = Inr (r0, vars)"
proof (cases "router routes m path")
  case (Inl rsp)
  then show ?thesis using router_okD(2) [OF assms(1) Inl] assms(2-4) by simp
next
  case (Inr b)
  then obtain r vs where b: "b = (r, vs)" by (cases b)
  then show ?thesis using router_okD(1) [OF assms(1) Inr [unfolded b]] assms(4,5) Inr by auto
qed

lemma orchestration_routes:
  assumes "router_ok router"
  shows "router (pm_registerV1Alpha1 h) ''GET'' [''orchestrations'', oid] = Inr (get_route h, [(''orchestrationID'', oid)])"
    "router (pm_registerV1Alpha1 h) ''POST'' [''orchestrations''] = Inr (start_route h, [])"
  by (rule only_route [OF assms], simp_all add: pm_routes get_route_def start_route_def, elim disjE, auto)+

text \<open>
  C31. The processing and output data of an orchestration carry the payload of the caller that
  started it and what the activities produced, so only administrators see them: to any other caller
  the API answers, whether it starts or gets an orchestration, exactly as if the services had any
  other data in it, and leaves the same state.
\<close>

theorem pm_hides_orchestration_data:
  assumes "router_ok router"
    and "validator_Middleware verify v (rr_Authorization raw) = Inr c" "\<not> HasScope c scopePmAdmin"
    and "(rr_Method raw, rr_Path raw) \<in> {(''GET'', [''orchestrations'', oid]), (''POST'', [''orchestrations''])}"
  shows "serve_pm router verify v (replace_data (with_data pd od) h) raw s = serve_pm router verify v h raw s"
proof -
  have hide: "\<not> canSeeOrchestrationData req" if "rq_Claims req = Some c" for req
    using that assms(3) by (simp add: canSeeOrchestrationData_def)
  have "serve_route (get_route (replace_data (with_data pd od) h)) call s = serve_route (get_route h) call s"
    "serve_route (start_route (replace_data (with_data pd od) h)) call s = serve_route (start_route h) call s"
    if "rq_Claims (hc_req call) = Some c" for call
    by (simp_all add: handlers_hide [OF hide [OF that]] serve_route_def get_route_def start_route_def route_def one_def split: option.split sum.split)
  then show ?thesis
    using assms(2,4) orchestration_routes [OF assms(1)] by (auto simp: serve_pm_def serve_api_def)
qed

section \<open>Templates\<close>

lemma to_activity_dto_inverse [simp]: "to_activity_dto (to_activity k d) = d"
  by (simp add: to_activity_dto_def to_activity_def)

lemma by_discriminator_one:
  "by_discriminator (map (to_activity k) as) [(k, bs)] = [(k, bs @ as)]"
  by (induction as arbitrary: bs) (simp_all add: to_activity_def to_activity_dto_def)

lemma dto_of_definition:
  "odt_Activities (ToOrchestrationDefinitionDto (Some (to_definition t templateRef k as))) = (if as = [] then [] else [(k, as)])"
  by (cases as) (simp_all add: ToOrchestrationDefinitionDto_def to_definition_def by_discriminator_one [of k _ "[_]", simplified]
      to_activity_def to_activity_dto_def)

text \<open>
  C38. What is posted as a template is what is shown again. The definitions made from a template have
  one type each, no two the same, and all refer to the template, by its ID or a new one; read back,
  in whatever order the map of the template was visited, they have its description and schema, and
  together exactly its activities: a type has a list of activities in one of them if and only if it
  has that list in the template (an empty list is not shown). Activity definitions are shown
  as posted.
\<close>

theorem template_round_trip:
  assumes "fair_range ord" "ot_Activities t = Some m" "wf_map m"
  shows "(let (ref, defs) = ToOrchestrationDefinition uuid ord (Some t); dto = (\<lambda>d. ToOrchestrationDefinitionDto (Some d)) in
      ref = (if ot_ID t = [] then uuid else ot_ID t) \<and> distinct (map od_Type defs) \<and>
      list_all (\<lambda>d. od_TemplateRef d = ref \<and> od_Active d \<and> odt_Description (dto d) = ot_Description t \<and>
        odt_Schema (dto d) = ot_Schema t \<and> odt_TemplateRef (dto d) = ref) defs \<and>
      (\<forall>k as. list_ex (\<lambda>d. lookup (odt_Activities (dto d)) k = Some as) defs \<longleftrightarrow> lookup m k = Some as \<and> as \<noteq> [])) \<and>
    ToActivityDefinitionDto (Some (ToActivityDefinition (Some a))) = a"
proof -
  let ?ref = "if ot_ID t = [] then uuid else ot_ID t"
  let ?one = "\<lambda>k. to_definition t ?ref k (the (lookup m k))"
  have defs: "ToOrchestrationDefinition uuid ord (Some t) =
      (?ref, (if m = [] then [to_definition t ?ref [] []] else []) @ map ?one (ord 0 (keys m)))"
    by (simp add: ToOrchestrationDefinition_def assms(2) Let_def)
  have ks: "set (ord 0 (keys m)) = fst ` set m" "distinct (ord 0 (keys m))" "m = [] \<Longrightarrow> ord 0 (keys m) = []"
    using assms(1,3) fair_range_facts [OF assms(1), of 0 "keys m"] by (auto simp: wf_map_def)
  have ty: "map od_Type (map ?one ks) = ks" for ks by (simp add: to_definition_def comp_def)
  have dist: "distinct (map od_Type ((if m = [] then [to_definition t ?ref [] []] else []) @ map ?one (ord 0 (keys m))))"
    using ks by (cases "m = []") (simp_all only: if_True if_False append_Nil ty, simp_all)
  have ex: "list_ex (\<lambda>d. lookup (odt_Activities (ToOrchestrationDefinitionDto (Some d))) k = Some as) (map ?one (ord 0 (keys m))) \<longleftrightarrow>
      lookup m k = Some as \<and> as \<noteq> []" for k as
  proof -
    have "lookup (odt_Activities (ToOrchestrationDefinitionDto (Some (?one k')))) k = Some as \<longleftrightarrow>
        k' = k \<and> the (lookup m k) = as \<and> as \<noteq> []" for k'
      by (cases "k' = k") (auto simp: dto_of_definition)
    note step = this
    define K where "K = set (ord 0 (keys m))"
    have "list_ex (\<lambda>d. lookup (odt_Activities (ToOrchestrationDefinitionDto (Some d))) k = Some as) (map ?one (ord 0 (keys m))) \<longleftrightarrow>
        (\<exists>k'\<in>K. k' = k \<and> the (lookup m k) = as \<and> as \<noteq> [])"
      unfolding list_ex_iff set_map K_def [symmetric] bex_simps(7) step ..
    then have "list_ex (\<lambda>d. lookup (odt_Activities (ToOrchestrationDefinitionDto (Some d))) k = Some as) (map ?one (ord 0 (keys m))) \<longleftrightarrow>
        k \<in> fst ` set m \<and> the (lookup m k) = as \<and> as \<noteq> []"
      unfolding K_def ks(1) by blast
    then show ?thesis by (cases "lookup m k") (auto simp: map_of_eq_None_iff dest: lookup_in_keys)
  qed
  have none: "lookup (odt_Activities (ToOrchestrationDefinitionDto (Some (to_definition t ?ref [] [])))) k = None" for k
    by (simp add: dto_of_definition)
  have exall: "list_ex (\<lambda>d. lookup (odt_Activities (ToOrchestrationDefinitionDto (Some d))) k = Some as)
      ((if m = [] then [to_definition t ?ref [] []] else []) @ map ?one (ord 0 (keys m))) \<longleftrightarrow> lookup m k = Some as \<and> as \<noteq> []" for k as
    by (simp only: list_ex_append ex) (simp add: none)
  have same: "ToActivityDefinitionDto (Some (ToActivityDefinition (Some a))) = a"
    by (simp add: ToActivityDefinitionDto_def ToActivityDefinition_def)
  have all: "list_all (\<lambda>d. od_TemplateRef d = ?ref \<and> od_Active d \<and> odt_Description (ToOrchestrationDefinitionDto (Some d)) = ot_Description t \<and>
        odt_Schema (ToOrchestrationDefinitionDto (Some d)) = ot_Schema t \<and> odt_TemplateRef (ToOrchestrationDefinitionDto (Some d)) = ?ref)
      ((if m = [] then [to_definition t ?ref [] []] else []) @ map ?one (ord 0 (keys m)))"
    by (auto simp: list_all_iff to_definition_def ToOrchestrationDefinitionDto_def)
  show ?thesis
    unfolding defs Let_def case_prod_conv
    by (intro conjI allI refl dist all exall same)
qed

section \<open>Examples\<close>

definition sample_template :: orchestration_template where
  "sample_template = \<lparr>ot_Description = [], ot_Schema = [], ot_ID = ''t'',
     ot_Activities = Some [(''deploy'', [\<lparr>at_ID = ''a'', at_Type = ''x'', at_DependsOn = []\<rparr>]), (''dispose'', [])]\<rparr>"

theorem template_round_trip_witness:
  "distinct (map od_Type (snd (ToOrchestrationDefinition ''u'' (\<lambda>n ks. rev ks) (Some sample_template))))"
proof -
  have "ot_Activities sample_template = Some [(''deploy'', [\<lparr>at_ID = ''a'', at_Type = ''x'', at_DependsOn = []\<rparr>]), (''dispose'', [])]"
    by (simp add: sample_template_def)
  from template_round_trip [OF fair_range_rev this, of "''u''" "ToActivityDefinitionDto None"] show ?thesis
    by (simp add: wf_map_def case_prod_beta' Let_def)
qed

definition reader_token :: token_verifier where
  "reader_token c raw = Inr (raw, Inr [(''scope'', JStr ''provision-manager-api:read'')])"

definition reader_validator :: auth_validator where
  "reader_validator = OidcValidator \<lparr>ov_verifier = \<lparr>vc_issuer = None, vc_SkipIssuerCheck = False, vc_SkipClientIDCheck = False,
     vc_ClientID = ''cfm'', vc_keys = []\<rparr>, ov_audience = ''cfm'', ov_audienceClaim = ''aud''\<rparr>"

definition reader_claims :: claims where
  "reader_claims = \<lparr>cl_Subject = ''r'', cl_Scopes = [scopePmRead], cl_allScopes = False\<rparr>"

lemma reader_validated: "validator_Middleware reader_token reader_validator ''Bearer r'' = Inr reader_claims"
  by (simp add: validator_Middleware_def reader_validator_def oidc_Middleware_def reader_token_def extractScopes_def Fields_def
      is_space_def reader_claims_def scopePmRead_def)

definition reader_request :: "string \<Rightarrow> string list \<Rightarrow> raw_request" where
  "reader_request m path = \<lparr>rr_Method = m, rr_Path = path, rr_Authorization = ''Bearer r'', rr_Body = Inr [], rr_Query = [], rr_ids = \<lambda>n. []\<rparr>"

text \<open>Services that hold one orchestration, which is the state.\<close>

definition one_services :: "orchestration pm_services" where
  "one_services = \<lparr>ps_CreateActivityDefinition = \<lambda>d s. (Returns d, s), ps_CreateOrchestrationDefinition = \<lambda>d s. (Returns d, s),
     ps_DeleteActivityDefinition = \<lambda>t s. (Returns (), s), ps_DeleteOrchestrationDefinition = \<lambda>t s. (Returns (), s),
     ps_GetActivityDefinitions = \<lambda>s. (Returns [], s), ps_GetOrchestrationDefinitions = \<lambda>s. (Returns [], s),
     ps_GetOrchestrationDefinitionsByTemplate = \<lambda>t s. (Returns [], s), ps_Start = \<lambda>m s. (Returns s, s),
     ps_GetOrchestration = \<lambda>oid s. (Returns (if oid = o_ID s then Some s else None), s), ps_CountOrchestrations = \<lambda>p s. (Returns 0, s),
     ps_QueryOrchestrations = \<lambda>p opts s. (Returns [], s)\<rparr>"

definition undecodable :: "'p payload_type" where
  "undecodable = \<lparr>pl_decode = \<lambda>body. Inl (SyntaxFailure 0), pl_validate = \<lambda>p. None\<rparr>"

definition one_handler :: "orchestration pm_handler" where
  "one_handler = \<lparr>ph_services = one_services, ph_payloads = \<lparr>pt_activity = undecodable, pt_template = undecodable, pt_manifest = undecodable,
     pt_pm_query = undecodable\<rparr>, ph_execute = NoOp_Execute, ph_writer = \<lparr>w_get = \<lambda>s. no_response, w_set = \<lambda>r s. s\<rparr>,
     ph_parse = \<lambda>s. Inl ErrInvalidInput, ph_ord = \<lambda>n ks. ks\<rparr>"

definition secret_orchestration :: orchestration where
  "secret_orchestration = \<lparr>o_ID = ''o'', o_CorrelationID = [], o_DefinitionID = [], o_State = OrchestrationStateRunning, o_StateTimestamp = 0,
     o_CreatedTimestamp = 0, o_OrchestrationType = [], o_Steps = [], o_ProcessingData = [(''secret'', JStr ''s'')], o_OutputData = [],
     o_Completed = [], o_EngineState = \<lparr>TraceContext = [], Attempts = [], Retries = [], EngineError = []\<rparr>, o_OriginTraceContext = [],
     o_CompensatedOrchestrationID = []\<rparr>"

theorem pm_hides_orchestration_data_witness:
  "serve_pm first_match reader_token reader_validator (replace_data (with_data [] []) one_handler)
      (reader_request ''GET'' [''orchestrations'', ''o'']) secret_orchestration =
    serve_pm first_match reader_token reader_validator one_handler (reader_request ''GET'' [''orchestrations'', ''o'']) secret_orchestration"
  by (rule pm_hides_orchestration_data [OF first_match_ok, where oid = "''o''" and c = reader_claims])
    (simp_all add: reader_request_def reader_validated reader_claims_def HasScope_def scopePmRead_def scopePmAdmin_def)

theorem pm_requires_scope_witness:
  "\<exists>rsp. rs_status rsp \<in> {401, 403, 404, 405} \<and>
     serve_pm first_match reader_token reader_validator one_handler (reader_request ''DELETE'' [''activity-definitions'', ''x''])
       secret_orchestration = (Returns rsp, secret_orchestration)"
proof -
  let ?raw = "reader_request ''DELETE'' [''activity-definitions'', ''x'']"
  have "\<forall>c. validator_Middleware reader_token reader_validator (rr_Authorization ?raw) = Inr c \<longrightarrow>
      \<not> HasScope c (pm_scope (rr_Method ?raw) (rr_Path ?raw))"
    by (simp add: reader_request_def reader_validated pm_scope_def reads_def reader_claims_def HasScope_def scopePmRead_def scopePmAdmin_def)
  from pm_requires_scope [OF first_match_ok this, of one_handler] show ?thesis by auto
qed

end
