(* ===== verification/Sql_Builder.thy ===== *)
theory Sql_Builder
  imports Query
begin

text \<open>
  From a predicate to the WHERE clause of a SQL query and its arguments
  (\<open>common/sqlstore/query.go\<close>): the plain builder, and the builder for Postgres with columns
  that hold JSON.

  The counter that the code passes by reference is threaded through. The type assertion
  \<open>predicate.Value.([]any)\<close> of the operators IN and NOT IN panics when the value is not a list
  of that type; a panic is \<open>None\<close>.
\<close>

datatype jsonb_field_type =
    JSONBFieldTypeUnknown
  | JSONBFieldTypeScalar
  | JSONBFieldTypeArrayOfObjects
  | JSONBFieldTypeArrayOfScalars
  | JSONBFieldTypeMapOfArrays

definition any_slice :: "gval \<Rightarrow> gval list option" where
  "any_slice v =
     (case v of
        VSlice vs \<Rightarrow> if list_all (\<lambda>x. case x of VIface y \<Rightarrow> True | _ \<Rightarrow> False) vs then Some (map Interface vs) else None
      | _ \<Rightarrow> None)"

section \<open>The plain builder\<close>

text \<open>\<open>parts\<close> holds what was built for each operand: its text and its arguments.\<close>

definition all_parts :: "'a option list \<Rightarrow> 'a list option" where
  "all_parts rs = (if list_all (\<lambda>r. r \<noteq> None) rs then Some (map the rs) else None)"

definition paren :: "string \<Rightarrow> string" where
  "paren sql = ''('' @ sql @ '')''"

definition buildSimplePredicateSQL :: "string \<Rightarrow> operator \<Rightarrow> gval \<Rightarrow> (string \<times> gval list) option" where
  "buildSimplePredicateSQL field op v =
     (case op of
        OpIsNull \<Rightarrow> Some (field @ '' IS NULL'', [])
      | OpIsNotNull \<Rightarrow> Some (field @ '' IS NOT NULL'', [])
      | _ \<Rightarrow>
         (if op = OpIn \<or> op = OpNotIn then
            (case any_slice v of
               None \<Rightarrow> None
             | Some values \<Rightarrow>
                 Some (field @ '' '' @ operator_text op @ '' '' @ paren (join '','' (map (\<lambda>_. ''?'') values)), values))
          else Some (field @ '' '' @ operator_text op @ '' ?'', [v])))"

text \<open>A compound, given what was built for its operands.\<close>

definition buildCompoundPredicateSQL ::
    "string \<Rightarrow> (string \<times> gval list) option list \<Rightarrow> (string \<times> gval list) option" where
  "buildCompoundPredicateSQL operator built =
     (case built of
        [] \<Rightarrow> Some (''true'', [])
      | [r] \<Rightarrow> r
      | _ \<Rightarrow>
          (case all_parts built of
             None \<Rightarrow> None
           | Some parts \<Rightarrow>
               Some (join ('' '' @ operator @ '' '') (map (\<lambda>(sql, predArgs). paren sql) parts), concat (map snd parts))))"

fun buildSQL :: "predicate \<Rightarrow> (string \<times> gval list) option" where
  "buildSQL (AtomicPredicate field op v) = buildSimplePredicateSQL field op v"
| "buildSQL (CompoundPredicate operator ps) = buildCompoundPredicateSQL operator (map buildSQL ps)"
| "buildSQL MatchAllPredicate = Some (''true'', [])"

section \<open>The Postgres builder\<close>

record jsonb_builder =
  jsonbFields :: "(string, bool) gomap"
  jsonbFieldTypes :: "(string, jsonb_field_type) gomap"
  fieldMappings :: "(string, string) gomap"

definition NewPostgresJSONBBuilder :: jsonb_builder where
  "NewPostgresJSONBBuilder = \<lparr>jsonbFields = [], jsonbFieldTypes = [], fieldMappings = []\<rparr>"

definition ToLower :: "string \<Rightarrow> string" where
  "ToLower s = map to_lower s"

definition with_jsonb_field :: "string \<Rightarrow> jsonb_builder \<Rightarrow> jsonb_builder" where
  "with_jsonb_field field b =
     (let lowerField = ToLower field; b = b\<lparr>jsonbFields := put lowerField True (jsonbFields b)\<rparr>
      in if has_key (jsonbFieldTypes b) lowerField then b
         else b\<lparr>jsonbFieldTypes := put lowerField JSONBFieldTypeArrayOfObjects (jsonbFieldTypes b)\<rparr>)"

definition WithJSONBFields :: "string list \<Rightarrow> jsonb_builder \<Rightarrow> jsonb_builder" where
  "WithJSONBFields fs b = fold with_jsonb_field fs b"

definition with_jsonb_field_type :: "string \<times> jsonb_field_type \<Rightarrow> jsonb_builder \<Rightarrow> jsonb_builder" where
  "with_jsonb_field_type ft b =
     (let lowerField = ToLower (fst ft)
      in b\<lparr>jsonbFieldTypes := put lowerField (snd ft) (jsonbFieldTypes b),
           jsonbFields := put lowerField True (jsonbFields b)\<rparr>)"

definition WithJSONBFieldTypes :: "(string, jsonb_field_type) gomap \<Rightarrow> jsonb_builder \<Rightarrow> jsonb_builder" where
  "WithJSONBFieldTypes fieldTypes b = fold with_jsonb_field_type fieldTypes b"

definition WithFieldMappings :: "(string, string) gomap \<Rightarrow> jsonb_builder \<Rightarrow> jsonb_builder" where
  "WithFieldMappings mappings b = b\<lparr>fieldMappings := copy_into mappings (fieldMappings b)\<rparr>"

text \<open>\<open>$n\<close>, and the placeholders after \<open>n\<close>.\<close>

definition dollar :: "nat \<Rightarrow> string" where
  "dollar n = CHR ''$'' # nat_text n"

definition placeholders :: "nat \<Rightarrow> nat \<Rightarrow> string list" where
  "placeholders n k = map dollar [Suc n..<Suc n + k]"

definition quoted :: "string \<Rightarrow> string" where
  "quoted p = [CHR 0x27] @ p @ [CHR 0x27]"

definition arrow :: "string \<Rightarrow> string \<Rightarrow> string" where
  "arrow result p = result @ ''->'' @ quoted p"

definition buildJSONBPath :: "string \<Rightarrow> string list \<Rightarrow> string" where
  "buildJSONBPath field path = foldl arrow field path"

definition buildJSONBAccessor :: "string \<Rightarrow> string list \<Rightarrow> bool \<Rightarrow> string" where
  "buildJSONBAccessor field path textCast =
     (if path = [] then field
      else foldl arrow field (butlast path)
             @ (if textCast then ''->>'' else ''->'') @ quoted (last path))"

definition buildArrayElementAccessor :: "string list \<Rightarrow> bool \<Rightarrow> string" where
  "buildArrayElementAccessor path textCast =
     (if path = [] then (if textCast then ''elem::text'' else ''elem'')
      else foldl arrow ''elem'' (butlast path)
             @ (if textCast then ''->>'' else ''->'') @ quoted (last path))"

text \<open>The query over the elements of an array that every array condition is built from.\<close>

definition exists_elem :: "string \<Rightarrow> string \<Rightarrow> string" where
  "exists_elem field cond =
     ''EXISTS (SELECT 1 FROM jsonb_array_elements('' @ field @ '') elem WHERE '' @ cond @ '')''"

definition buildJSONBArraySearch :: "string \<Rightarrow> string list \<Rightarrow> string \<Rightarrow> nat \<Rightarrow> jsonb_field_type \<Rightarrow> string" where
  "buildJSONBArraySearch field path operator paramNum fieldType =
     (if path = [] \<and> fieldType = JSONBFieldTypeArrayOfScalars
      then exists_elem field (''elem = to_jsonb('' @ dollar paramNum @ ''::text)'')
      else exists_elem field (buildArrayElementAccessor path True @ '' '' @ operator @ '' '' @ dollar paramNum))"

definition buildJSONBIsNull :: "string \<Rightarrow> string list \<Rightarrow> jsonb_field_type \<Rightarrow> string" where
  "buildJSONBIsNull field path fieldType =
     (if path = [] then field @ '' IS NULL''
      else if fieldType = JSONBFieldTypeScalar then buildJSONBPath field path @ '' IS NULL''
      else exists_elem field (buildArrayElementAccessor path True @ '' IS NULL''))"

definition buildJSONBIsNotNull :: "string \<Rightarrow> string list \<Rightarrow> jsonb_field_type \<Rightarrow> string" where
  "buildJSONBIsNotNull field path fieldType =
     (if path = [] then field @ '' IS NOT NULL''
      else if fieldType = JSONBFieldTypeScalar then buildJSONBPath field path @ '' IS NOT NULL''
      else exists_elem field (buildArrayElementAccessor path True @ '' IS NOT NULL''))"

definition buildJSONBEqual :: "string \<Rightarrow> string list \<Rightarrow> jsonb_field_type \<Rightarrow> gval \<Rightarrow> nat \<Rightarrow> string \<times> gval list \<times> nat" where
  "buildJSONBEqual field path fieldType value n =
     (let n = Suc n in
      if fieldType = JSONBFieldTypeScalar \<and> path = [] then (field @ '' = '' @ dollar n, [value], n)
      else if fieldType = JSONBFieldTypeMapOfArrays \<and> path \<noteq> [] then
        (buildJSONBAccessor field path False @ '' @> jsonb_build_array('' @ dollar n @ ''::text)'', [value], n)
      else if fieldType = JSONBFieldTypeScalar then
        (buildJSONBAccessor field path True @ '' = '' @ dollar n, [value], n)
      else (buildJSONBArraySearch field path ''='' n fieldType, [value], n))"

definition buildJSONBNotEqual :: "string \<Rightarrow> string list \<Rightarrow> jsonb_field_type \<Rightarrow> gval \<Rightarrow> nat \<Rightarrow> string \<times> gval list \<times> nat" where
  "buildJSONBNotEqual field path fieldType value n =
     (let n = Suc n in
      if fieldType = JSONBFieldTypeScalar \<and> path = [] then (field @ '' != '' @ dollar n, [value], n)
      else if fieldType = JSONBFieldTypeScalar then
        (buildJSONBAccessor field path True @ '' != '' @ dollar n, [value], n)
      else (buildJSONBArraySearch field path ''!='' n fieldType, [value], n))"

definition buildJSONBComparison ::
    "string \<Rightarrow> string list \<Rightarrow> jsonb_field_type \<Rightarrow> string \<Rightarrow> gval \<Rightarrow> nat \<Rightarrow> string \<times> gval list \<times> nat" where
  "buildJSONBComparison field path fieldType operator value n =
     (let n = Suc n in
      if fieldType = JSONBFieldTypeScalar then
        (let jsonPath = (if path = [] then field else buildJSONBAccessor field path True)
         in (paren jsonPath @ ''::numeric '' @ operator @ '' '' @ dollar n @ ''::numeric'', [value], n))
      else if path \<noteq> [] then
        (exists_elem field
           (paren (buildArrayElementAccessor path False) @ ''::numeric '' @ operator @ '' '' @ dollar n @ ''::numeric''),
         [value], n)
      else (exists_elem field (''elem::text::numeric '' @ operator @ '' '' @ dollar n @ ''::numeric''), [value], n))"

definition buildJSONBIn :: "string \<Rightarrow> string list \<Rightarrow> jsonb_field_type \<Rightarrow> gval list \<Rightarrow> nat \<Rightarrow> string \<times> gval list \<times> nat" where
  "buildJSONBIn field path fieldType values n =
     (let phs = placeholders n (length values); n = n + length values in
      if fieldType = JSONBFieldTypeScalar then
        (let jsonPath = (if path = [] then field else buildJSONBAccessor field path True)
         in (jsonPath @ '' IN '' @ paren (join '','' phs), values, n))
      else
        (let accessor = (if path \<noteq> [] then buildArrayElementAccessor path True else ''elem::text'')
         in (exists_elem field (accessor @ '' IN '' @ paren (join '','' phs)), values, n)))"

definition buildJSONBNotIn :: "string \<Rightarrow> string list \<Rightarrow> jsonb_field_type \<Rightarrow> gval list \<Rightarrow> nat \<Rightarrow> string \<times> gval list \<times> nat" where
  "buildJSONBNotIn field path fieldType values n =
     (let phs = placeholders n (length values); n = n + length values in
      if fieldType = JSONBFieldTypeScalar then
        (let jsonPath = (if path = [] then field else buildJSONBAccessor field path True)
         in (jsonPath @ '' NOT IN '' @ paren (join '','' phs), values, n))
      else
        (let accessor = (if path \<noteq> [] then buildArrayElementAccessor path True else ''elem::text'')
         in (exists_elem field (accessor @ '' NOT IN '' @ paren (join '','' phs)), values, n)))"

definition buildJSONBContains :: "string \<Rightarrow> string list \<Rightarrow> jsonb_field_type \<Rightarrow> gval \<Rightarrow> nat \<Rightarrow> string \<times> gval list \<times> nat" where
  "buildJSONBContains field path fieldType value n =
     (let n = Suc n;
          jsonPath = (if fieldType = JSONBFieldTypeScalar
                      then (if path = [] then field else buildJSONBAccessor field path False)
                      else field)
      in (jsonPath @ '' @> '' @ dollar n, [value], n))"

text \<open>\<open>field\<close> is the field as the predicate names it; \<open>rootField\<close> the column.\<close>

definition buildJSONBCondition ::
    "string \<Rightarrow> string list \<Rightarrow> jsonb_field_type \<Rightarrow> string \<Rightarrow> operator \<Rightarrow> gval \<Rightarrow> nat \<Rightarrow> (string \<times> gval list \<times> nat) option" where
  "buildJSONBCondition rootField path fieldType field op v n =
     (case op of
        OpIsNull \<Rightarrow> Some (buildJSONBIsNull rootField path fieldType, [], n)
      | OpIsNotNull \<Rightarrow> Some (buildJSONBIsNotNull rootField path fieldType, [], n)
      | OpEqual \<Rightarrow> Some (buildJSONBEqual rootField path fieldType v n)
      | OpNotEqual \<Rightarrow> Some (buildJSONBNotEqual rootField path fieldType v n)
      | OpIn \<Rightarrow> map_option (\<lambda>vs. buildJSONBIn rootField path fieldType vs n) (any_slice v)
      | OpNotIn \<Rightarrow> map_option (\<lambda>vs. buildJSONBNotIn rootField path fieldType vs n) (any_slice v)
      | OpLess \<Rightarrow> Some (buildJSONBComparison rootField path fieldType ''<'' v n)
      | OpLessEqual \<Rightarrow> Some (buildJSONBComparison rootField path fieldType ''<='' v n)
      | OpGreater \<Rightarrow> Some (buildJSONBComparison rootField path fieldType ''>'' v n)
      | OpGreaterEqual \<Rightarrow> Some (buildJSONBComparison rootField path fieldType ''>='' v n)
      | OpContains \<Rightarrow> Some (buildJSONBContains rootField path fieldType v n)
      | _ \<Rightarrow> Some (field @ '' '' @ operator_text op @ '' '' @ dollar (Suc n), [v], Suc n))"

text \<open>The outer option says whether the field is a JSON column; the inner one is a panic.\<close>

definition tryBuildJSONBSQL ::
    "jsonb_builder \<Rightarrow> string \<Rightarrow> operator \<Rightarrow> gval \<Rightarrow> nat \<Rightarrow> (string \<times> gval list \<times> nat) option option" where
  "tryBuildJSONBSQL b field op v n =
     (let parts = split_on (CHR ''.'') field; rootField = ToLower (hd parts) in
      if lookup (jsonbFields b) rootField \<noteq> Some True then None
      else
        (let fieldType = (case lookup (jsonbFieldTypes b) rootField of
                            Some t \<Rightarrow> t | None \<Rightarrow> JSONBFieldTypeArrayOfObjects);
             mappedRoot = (case lookup (fieldMappings b) (hd parts) of Some name \<Rightarrow> name | None \<Rightarrow> rootField)
         in Some (buildJSONBCondition mappedRoot (tl parts) fieldType field op v n)))"

definition buildStandardPredicateSQL ::
    "jsonb_builder \<Rightarrow> string \<Rightarrow> operator \<Rightarrow> gval \<Rightarrow> nat \<Rightarrow> (string \<times> gval list \<times> nat) option" where
  "buildStandardPredicateSQL b field0 op v n =
     (let field = (case lookup (fieldMappings b) field0 of Some name \<Rightarrow> name | None \<Rightarrow> field0) in
      case op of
        OpIsNull \<Rightarrow> Some (field @ '' IS NULL'', [], n)
      | OpIsNotNull \<Rightarrow> Some (field @ '' IS NOT NULL'', [], n)
      | _ \<Rightarrow>
         (if op = OpIn \<or> op = OpNotIn then
            map_option (\<lambda>values.
                (field @ '' '' @ operator_text op @ '' '' @ paren (join '','' (placeholders n (length values))),
                 values, n + length values)) (any_slice v)
          else Some (field @ '' '' @ operator_text op @ '' '' @ dollar (Suc n), [v], Suc n)))"

definition pg_simple :: "jsonb_builder \<Rightarrow> string \<Rightarrow> operator \<Rightarrow> gval \<Rightarrow> nat \<Rightarrow> (string \<times> gval list \<times> nat) option" where
  "pg_simple b field op v n =
     (case tryBuildJSONBSQL b field op v n of
        Some r \<Rightarrow> r
      | None \<Rightarrow> buildStandardPredicateSQL b field op v n)"

text \<open>The loop over the operands of a compound, the counter going from one to the next.\<close>

fun pg_parts :: "(nat \<Rightarrow> (string \<times> gval list \<times> nat) option) list \<Rightarrow> nat \<Rightarrow> (string list \<times> gval list \<times> nat) option" where
  "pg_parts [] n = Some ([], [], n)"
| "pg_parts (f # fs) n =
     (case f n of
        None \<Rightarrow> None
      | Some (sql, predArgs, n') \<Rightarrow>
          map_option (\<lambda>(parts, args, n''). (paren sql # parts, predArgs @ args, n'')) (pg_parts fs n'))"

definition pg_compound ::
    "string \<Rightarrow> (nat \<Rightarrow> (string \<times> gval list \<times> nat) option) list \<Rightarrow> nat \<Rightarrow> (string \<times> gval list \<times> nat) option" where
  "pg_compound operator operands n =
     (case operands of
        [] \<Rightarrow> Some (''true'', [], n)
      | [f] \<Rightarrow> f n
      | _ \<Rightarrow> map_option (\<lambda>(parts, args, n'). (join ('' '' @ operator @ '' '') parts, args, n'))
               (pg_parts operands n))"

fun pg_buildSQL :: "jsonb_builder \<Rightarrow> predicate \<Rightarrow> nat \<Rightarrow> (string \<times> gval list \<times> nat) option" where
  "pg_buildSQL b (AtomicPredicate field op v) n = pg_simple b field op v n"
| "pg_buildSQL b (CompoundPredicate operator ps) n = pg_compound operator (map (pg_buildSQL b) ps) n"
| "pg_buildSQL b MatchAllPredicate n = Some (''true'', [], n)"

definition PostgresJSONBBuilder_BuildSQL :: "jsonb_builder \<Rightarrow> predicate \<Rightarrow> (string \<times> gval list) option" where
  "PostgresJSONBBuilder_BuildSQL b p = map_option (\<lambda>(sql, args, n). (sql, args)) (pg_buildSQL b p 0)"

section \<open>Placeholders in a text\<close>

definition is_digit :: "char \<Rightarrow> bool" where
  "is_digit c \<longleftrightarrow> CHR ''0'' \<le> c \<and> c \<le> CHR ''9''"

text \<open>The numbers after the dollar signs of a text, in order.\<close>

fun dollars :: "string \<Rightarrow> string list" where
  "dollars [] = []"
| "dollars (c # s) = (if c = CHR ''$'' then takeWhile is_digit s # dollars s else dollars s)"

definition no_dollar :: "string \<Rightarrow> bool" where
  "no_dollar s \<longleftrightarrow> CHR ''$'' \<notin> set s"

definition stops :: "string \<Rightarrow> bool" where
  "stops s \<longleftrightarrow> s = [] \<or> \<not> is_digit (hd s)"

lemma stops_simps [simp]: "stops []" "stops (c # s) \<longleftrightarrow> \<not> is_digit c"
  by (simp_all add: stops_def)

lemma dollars_skip: "no_dollar s \<Longrightarrow> dollars (s @ t) = dollars t"
  by (induction s) (auto simp: no_dollar_def)

lemma dollars_none: "no_dollar s \<Longrightarrow> dollars s = []"
  using dollars_skip [of s "[]"] by simp

lemma dollars_append: "stops t \<Longrightarrow> dollars (s @ t) = dollars s @ dollars t"
proof (induction s)
  case (Cons c s)
  have "takeWhile is_digit (s @ t) = takeWhile is_digit s"
    using Cons.prems by (cases t) (auto simp: stops_def takeWhile_append takeWhile_eq_all_conv [THEN iffD2])
  then show ?case using Cons by simp
qed simp

lemma nat_text_digits: "c \<in> set (nat_text n) \<Longrightarrow> is_digit c"
proof (induction n rule: nat_text.induct)
  case (1 n)
  have d: "is_digit (char_of (48 + k))" if "k < 10" for k :: nat
  proof -
    have "k \<in> {0, 1, 2, 3, 4, 5, 6, 7, 8, 9}" using that by auto
    then show ?thesis by (auto simp: is_digit_def less_eq_char_def)
  qed
  have m: "n mod 10 < 10" by simp
  show ?case using 1 d [of n] d [OF m] by (auto simp: nat_text.simps [of n] split: if_splits)
qed

lemma dollars_dollar: "stops t \<Longrightarrow> dollars (dollar n @ t) = nat_text n # dollars t"
proof -
  assume t: "stops t"
  have all: "takeWhile is_digit (nat_text n) = nat_text n"
    by (simp add: takeWhile_eq_all_conv nat_text_digits)
  have "no_dollar (nat_text n)"
    using nat_text_digits [of "CHR ''$''" n] by (auto simp: no_dollar_def is_digit_def)
  then have "dollars (dollar n) = [nat_text n]"
    by (simp add: dollar_def all dollars_none)
  then show ?thesis by (simp add: dollars_append [OF t])
qed

lemma no_dollar_simps [simp]:
  "no_dollar []" "no_dollar (c # s) \<longleftrightarrow> c \<noteq> CHR ''$'' \<and> no_dollar s"
  "no_dollar (s @ t) \<longleftrightarrow> no_dollar s \<and> no_dollar t"
  by (auto simp: no_dollar_def)

lemma not_digits [simp]:
  "\<not> is_digit (CHR '')'')" "\<not> is_digit (CHR '':'')" "\<not> is_digit (CHR '','')" "\<not> is_digit (CHR '' '')"
  "\<not> is_digit (CHR ''('')"
  by (simp_all add: is_digit_def less_eq_char_def)

section \<open>The placeholders of a built clause\<close>

text \<open>What one operand adds: its text has one placeholder for each argument, numbered on.\<close>

definition numbered :: "nat \<Rightarrow> string \<Rightarrow> gval list \<Rightarrow> nat \<Rightarrow> bool" where
  "numbered n sql args n' \<longleftrightarrow> n' = n + length args \<and> dollars sql = map nat_text [Suc n..<Suc n']"

definition num3 :: "nat \<Rightarrow> string \<times> gval list \<times> nat \<Rightarrow> bool" where
  "num3 n r \<longleftrightarrow> numbered n (fst r) (fst (snd r)) (snd (snd r))"

lemma join_Cons: "join sep (s # t # ts) = s @ sep @ join sep (t # ts)"
proof -
  have "foldl (\<lambda>acc t. acc @ sep @ t) (x @ y) ts = x @ foldl (\<lambda>acc t. acc @ sep @ t) y ts" for x y
    by (induction ts arbitrary: y) simp_all
  from this [of "s @ sep" t] show ?thesis
    by (simp add: join_def)
qed

lemma join_simps [simp]: "join sep [] = []" "join sep [s] = s"
  by (simp_all add: join_def)

lemma dollars_join_dollar:
  "dollars (join '','' (map dollar ns) @ CHR '')'' # t) = map nat_text ns @ dollars t"
proof (induction ns)
  case (Cons n ns)
  then show ?case
    by (cases ns) (simp_all add: join_Cons dollars_dollar)
qed simp

lemma no_dollar_foldl:
  "no_dollar field \<Longrightarrow> list_all no_dollar path \<Longrightarrow> no_dollar (foldl arrow field path)"
  by (induction path arbitrary: field) (simp_all add: arrow_def quoted_def)

lemma list_all_butlast_last: "list_all P xs \<Longrightarrow> xs \<noteq> [] \<Longrightarrow> list_all P (butlast xs) \<and> P (last xs)"
  by (induction xs) auto

lemma no_dollar_accessor: "no_dollar field \<Longrightarrow> list_all no_dollar path \<Longrightarrow> no_dollar (buildJSONBAccessor field path b)"
  by (auto simp: buildJSONBAccessor_def quoted_def no_dollar_foldl dest: list_all_butlast_last)

lemma no_dollar_elem: "list_all no_dollar path \<Longrightarrow> no_dollar (buildArrayElementAccessor path b)"
  by (auto simp: buildArrayElementAccessor_def quoted_def no_dollar_foldl dest: list_all_butlast_last)

lemma no_dollar_path: "no_dollar field \<Longrightarrow> list_all no_dollar path \<Longrightarrow> no_dollar (buildJSONBPath field path)"
  by (simp add: buildJSONBPath_def no_dollar_foldl)

lemmas jsonb_defs = buildJSONBIsNull_def buildJSONBIsNotNull_def buildJSONBEqual_def buildJSONBNotEqual_def
  buildJSONBComparison_def buildJSONBIn_def buildJSONBNotIn_def buildJSONBContains_def
  buildJSONBArraySearch_def exists_elem_def paren_def placeholders_def

lemmas dollar_rules = dollars_skip dollars_dollar dollars_dollar [where t = "[]", simplified]
  dollars_none dollars_join_dollar dollars_join_dollar [where t = "[]", simplified]
  no_dollar_accessor no_dollar_elem no_dollar_path

lemma upt_one: "[m..<Suc m] = [m]"
  by simp

lemma buildJSONB_numbered:
  assumes "no_dollar f" "list_all no_dollar path"
  shows "num3 n (buildJSONBEqual f path t v n)"
    and "num3 n (buildJSONBNotEqual f path t v n)"
    and "num3 n (buildJSONBContains f path t v n)"
    and "no_dollar op \<Longrightarrow> num3 n (buildJSONBComparison f path t op v n)"
    and "num3 n (buildJSONBIn f path t vs n)"
    and "num3 n (buildJSONBNotIn f path t vs n)"
    and "num3 n (buildJSONBIsNull f path t, [], n)"
    and "num3 n (buildJSONBIsNotNull f path t, [], n)"
  using assms
  by (simp_all add: jsonb_defs dollar_rules num3_def numbered_def Let_def upt_one del: upt_Suc)

lemma buildJSONBCondition_numbered:
  assumes "no_dollar f" "list_all no_dollar path" "no_dollar field" "no_dollar (operator_text op)"
    and "buildJSONBCondition f path t field op v n = Some r"
  shows "num3 n r"
  using assms
  by (cases op) (auto simp: buildJSONBCondition_def buildJSONB_numbered num3_def [of n "(_, [v], Suc n)"]
      numbered_def dollar_rules upt_one simp del: upt_Suc operator_text_def)

lemma buildStandardPredicateSQL_numbered:
  assumes "list_all (\<lambda>(k, name). no_dollar name) (fieldMappings b)" "no_dollar field" "no_dollar (operator_text op)"
    and "buildStandardPredicateSQL b field op v n = Some r"
  shows "num3 n r"
proof -
  let ?f = "case lookup (fieldMappings b) field of Some name \<Rightarrow> name | None \<Rightarrow> field"
  have f: "no_dollar ?f"
    using assms(1,2) by (auto simp: list_all_iff dest!: map_of_SomeD split: option.split)
  show ?thesis using assms(3,4) f
    by (cases op) (auto simp: buildStandardPredicateSQL_def num3_def numbered_def dollar_rules upt_one paren_def
        placeholders_def simp del: upt_Suc)
qed

lemma no_dollar_split: "no_dollar s \<Longrightarrow> list_all no_dollar (split_on c s)"
proof (induction c s rule: split_on.induct)
  case (2 c x xs)
  then show ?case by (cases "split_on c xs") auto
qed simp

lemma no_dollar_ToLower: "no_dollar s \<Longrightarrow> no_dollar (ToLower s)"
proof -
  have "to_lower c \<noteq> CHR ''$''" if "c \<noteq> CHR ''$''" for c
  proof (cases "CHR ''A'' \<le> c \<and> c \<le> CHR ''Z''")
    case True
    then have "of_char c \<ge> (65 :: nat)" "of_char c \<le> (90 :: nat)" by (simp_all add: less_eq_char_def)
    then have "of_char (char_of (of_char c + 32 :: nat) :: char) = (of_char c + 32 :: nat)"
      by (simp add: of_char_of take_bit_nat_eq_self)
    then have "char_of (of_char c + 32 :: nat) = CHR ''$'' \<Longrightarrow> of_char c + 32 = (of_char (CHR ''$'') :: nat)"
      by metis
    moreover have "of_char (CHR ''$'') = (36 :: nat)" by simp
    ultimately have "char_of (of_char c + 32 :: nat) \<noteq> CHR ''$''"
      using \<open>of_char c \<ge> (65 :: nat)\<close> by linarith
    with True show ?thesis by (simp add: to_lower_def)
  qed (use that in \<open>auto simp: to_lower_def\<close>)
  note lower = this
  show "no_dollar s \<Longrightarrow> no_dollar (ToLower s)"
    by (induction s) (simp_all add: ToLower_def lower)
qed

lemma pg_simple_numbered:
  assumes "list_all (\<lambda>(k, name). no_dollar name) (fieldMappings b)" "no_dollar field" "no_dollar (operator_text op)"
    and "pg_simple b field op v n = Some r"
  shows "num3 n r"
proof (cases "tryBuildJSONBSQL b field op v n")
  case None
  with assms show ?thesis by (auto simp: pg_simple_def intro: buildStandardPredicateSQL_numbered)
next
  case (Some r')
  let ?parts = "split_on (CHR ''.'') field"
  have parts: "list_all no_dollar ?parts" using assms(2) by (rule no_dollar_split)
  then have "no_dollar (hd ?parts)" "list_all no_dollar (tl ?parts)"
    by (metis split_on_not_Nil list.pred_inject(2) list.collapse)+
  moreover have "no_dollar (case lookup (fieldMappings b) (hd ?parts) of Some name \<Rightarrow> name | None \<Rightarrow> ToLower (hd ?parts))"
    using assms(1) calculation by (auto simp: list_all_iff no_dollar_ToLower dest!: map_of_SomeD split: option.split)
  ultimately show ?thesis using Some assms
    by (auto simp: pg_simple_def tryBuildJSONBSQL_def Let_def split: if_splits intro: buildJSONBCondition_numbered)
qed

fun clean_predicate :: "predicate \<Rightarrow> bool" where
  "clean_predicate MatchAllPredicate \<longleftrightarrow> True"
| "clean_predicate (AtomicPredicate field op v) \<longleftrightarrow> no_dollar field \<and> no_dollar (operator_text op)"
| "clean_predicate (CompoundPredicate operator ps) \<longleftrightarrow> no_dollar operator \<and> list_all clean_predicate ps"

lemma dollars_paren_then:
  "stops t \<Longrightarrow> dollars (paren sql @ t) = dollars sql @ dollars t"
  by (simp add: paren_def dollars_append)

lemma dollars_join:
  assumes "no_dollar sep"
  shows "dollars (join (CHR '' '' # sep) (map paren sqls)) = concat (map dollars sqls)"
proof (induction sqls)
  case (Cons s sqls)
  have p: "dollars (paren s) = dollars s" using dollars_paren_then [of "[]" s] by simp
  show ?case
  proof (cases sqls)
    case (Cons t ts)
    have "dollars (paren s @ (CHR '' '' # sep) @ join (CHR '' '' # sep) (map paren sqls))
        = dollars s @ dollars (join (CHR '' '' # sep) (map paren sqls))"
      using assms by (subst dollars_paren_then) (simp_all add: dollars_skip)
    with Cons Cons.IH show ?thesis by (simp add: join_Cons)
  qed (simp add: p)
qed simp

lemma pg_parts_numbered:
  assumes "\<And>f m r. f \<in> set fs \<Longrightarrow> f m = Some r \<Longrightarrow> num3 m r"
    and "pg_parts fs n = Some (parts, args, n')"
  shows "\<exists>sqls. parts = map paren sqls \<and> n' = n + length args \<and> concat (map dollars sqls) = map nat_text [Suc n..<Suc n']"
  using assms
proof (induction fs arbitrary: n parts args n')
  case (Cons f fs)
  obtain sql as m where f: "f n = Some (sql, as, m)" using Cons.prems(2) by (auto split: option.splits)
  obtain ps bs where rest: "pg_parts fs m = Some (ps, bs, n')"
    and eqs: "parts = paren sql # ps" "args = as @ bs"
    using Cons.prems(2) f by auto
  obtain sqls where sqls: "ps = map paren sqls" "n' = m + length bs"
    "concat (map dollars sqls) = map nat_text [Suc m..<Suc n']"
    using Cons.IH [OF _ rest] Cons.prems(1) by (metis list.set_intros(2))
  have "num3 n (sql, as, m)" by (rule Cons.prems(1) [of f n]) (simp_all add: f)
  then have m: "m = n + length as" "dollars sql = map nat_text [Suc n..<Suc m]"
    by (simp_all only: num3_def numbered_def fst_conv snd_conv)
  have "[Suc n..<Suc n'] = [Suc n..<Suc m] @ [Suc m..<Suc n']"
    using upt_add_eq_append [of "Suc n" "Suc m" "length bs"] m(1) sqls(2) by simp
  then have "concat (map dollars (sql # sqls)) = map nat_text [Suc n..<Suc n']"
    using sqls(3) m(2) by (simp del: upt_Suc)
  then show ?case using eqs sqls m by (intro exI [of _ "sql # sqls"]) simp
qed simp

lemma pg_buildSQL_numbered:
  assumes "list_all (\<lambda>(k, name). no_dollar name) (fieldMappings b)"
  shows "clean_predicate p \<Longrightarrow> pg_buildSQL b p n = Some r \<Longrightarrow> num3 n r"
proof (induction p arbitrary: n r)
  case (AtomicPredicate field op v)
  then show ?case using pg_simple_numbered [OF assms, of field op v n r] by simp
next
  case (CompoundPredicate operator ps)
  consider "ps = []" | p where "ps = [p]" | p q qs where "ps = p # q # qs"
    by (metis list.exhaust)
  then show ?case
  proof cases
    case 3
    then obtain parts args n' where parts: "pg_parts (map (pg_buildSQL b) ps) n = Some (parts, args, n')"
      and r: "r = (join ('' '' @ operator @ '' '') parts, args, n')"
      using CompoundPredicate.prems(2) by (auto simp: pg_compound_def)
    have "num3 m s" if "f \<in> set (map (pg_buildSQL b) ps)" "f m = Some s" for f m s
    proof -
      from that(1) obtain q where q: "q \<in> set ps" "f = pg_buildSQL b q"
        by (meson imageE list.set_map set_map [THEN equalityD1, THEN subsetD])
      with that(2) CompoundPredicate.prems(1) show ?thesis
        by (intro CompoundPredicate.IH [of q]) (simp_all add: list_all_iff)
    qed
    then obtain sqls where "parts = map paren sqls" "n' = n + length args"
      "concat (map dollars sqls) = map nat_text [Suc n..<Suc n']"
      using pg_parts_numbered [OF _ parts] by blast
    then show ?thesis using r CompoundPredicate.prems(1)
      by (simp add: num3_def numbered_def dollars_join del: upt_Suc)
  qed (use CompoundPredicate in \<open>auto simp: num3_def numbered_def pg_compound_def\<close>)
qed (simp add: num3_def numbered_def)

section \<open>Values, panics and placeholders\<close>

text \<open>The values of a predicate in the order of its text, and the predicates whose lists are lists.\<close>

definition needs_list :: "operator \<Rightarrow> bool" where
  "needs_list op \<longleftrightarrow> op = OpIn \<or> op = OpNotIn"

fun lists_ok :: "predicate \<Rightarrow> bool" where
  "lists_ok MatchAllPredicate \<longleftrightarrow> True"
| "lists_ok (AtomicPredicate field op v) \<longleftrightarrow> (needs_list op \<longrightarrow> any_slice v \<noteq> None)"
| "lists_ok (CompoundPredicate operator ps) \<longleftrightarrow> list_all lists_ok ps"

definition atom_values :: "operator \<Rightarrow> gval \<Rightarrow> gval list" where
  "atom_values op v =
     (if op = OpIsNull \<or> op = OpIsNotNull then []
      else if needs_list op then (case any_slice v of Some vs \<Rightarrow> vs | None \<Rightarrow> [])
      else [v])"

fun predicate_values :: "predicate \<Rightarrow> gval list" where
  "predicate_values MatchAllPredicate = []"
| "predicate_values (AtomicPredicate field op v) = atom_values op v"
| "predicate_values (CompoundPredicate operator ps) = concat (map predicate_values ps)"

definition args_of :: "'s \<times> gval list \<times> nat \<Rightarrow> gval list" where
  "args_of r = fst (snd r)"

lemma args_of_simp [simp]: "args_of (s, as, n) = as"
  by (simp add: args_of_def)

lemma jsonb_args:
  "args_of (buildJSONBEqual f path t v n) = [v]"
  "args_of (buildJSONBNotEqual f path t v n) = [v]"
  "args_of (buildJSONBContains f path t v n) = [v]"
  "args_of (buildJSONBComparison f path t op v n) = [v]"
  "args_of (buildJSONBIn f path t vs n) = vs"
  "args_of (buildJSONBNotIn f path t vs n) = vs"
  by (simp_all add: buildJSONBEqual_def buildJSONBNotEqual_def buildJSONBContains_def buildJSONBComparison_def
      buildJSONBIn_def buildJSONBNotIn_def Let_def)

lemma pg_simple_values:
  "map_option args_of (pg_simple b field op v n) =
     (if needs_list op \<longrightarrow> any_slice v \<noteq> None then Some (atom_values op v) else None)"
proof -
  have "map_option args_of (buildStandardPredicateSQL b field op v n) =
      (if needs_list op \<longrightarrow> any_slice v \<noteq> None then Some (atom_values op v) else None)"
    by (cases op; cases "any_slice v") (simp_all add: buildStandardPredicateSQL_def needs_list_def atom_values_def Let_def)
  moreover have "map_option args_of (buildJSONBCondition f path t field op v n) =
      (if needs_list op \<longrightarrow> any_slice v \<noteq> None then Some (atom_values op v) else None)" for f path t
    by (cases op; cases "any_slice v") (simp_all add: buildJSONBCondition_def jsonb_args needs_list_def atom_values_def)
  ultimately show ?thesis
    by (auto simp: pg_simple_def tryBuildJSONBSQL_def Let_def)
qed

lemma pg_parts_values:
  assumes "\<And>p n. p \<in> set ps \<Longrightarrow> map_option args_of (g p n) = (if ok p then Some (vals p) else None)"
  shows "map_option args_of (pg_parts (map g ps) n) =
     (if list_all ok ps then Some (concat (map vals ps)) else None)"
  using assms
proof (induction ps arbitrary: n)
  case (Cons p ps)
  show ?case
  proof (cases "g p n")
    case None
    then show ?thesis using Cons.prems [of p n] by (simp split: if_splits)
  next
    case (Some r)
    obtain sql as m where r: "r = (sql, as, m)" by (cases r) auto
    have "map_option args_of (pg_parts (map g ps) m) =
        (if list_all ok ps then Some (concat (map vals ps)) else None)"
      by (rule Cons.IH) (rule Cons.prems, simp)
    moreover have "ok p" "as = vals p"
      using Cons.prems [of p n] Some r by (simp_all split: if_splits)
    ultimately show ?thesis using Some r
      by (cases "pg_parts (map g ps) m") (auto split: if_splits)
  qed
qed simp

lemma pg_buildSQL_values:
  "map_option args_of (pg_buildSQL b p n) = (if lists_ok p then Some (predicate_values p) else None)"
proof (induction p arbitrary: n)
  case (AtomicPredicate field op v)
  show ?case using pg_simple_values [of b field op v n] by (simp only: pg_buildSQL.simps lists_ok.simps predicate_values.simps)
next
  case (CompoundPredicate operator ps)
  consider "ps = []" | p where "ps = [p]" | p q qs where "ps = p # q # qs"
    by (metis list.exhaust)
  then show ?case
  proof cases
    case 3
    have "map_option args_of (pg_buildSQL b (CompoundPredicate operator ps) n)
        = map_option args_of (pg_parts (map (pg_buildSQL b) ps) n)"
      using 3 by (simp add: option.map_comp comp_def case_prod_beta' args_of_def [abs_def] pg_compound_def del: pg_parts.simps)
    also have "\<dots> = (if list_all lists_ok ps then Some (concat (map predicate_values ps)) else None)"
      by (rule pg_parts_values) (rule CompoundPredicate)
    finally show ?thesis by simp
  qed (use CompoundPredicate in \<open>auto simp: pg_compound_def\<close>)
qed simp

text \<open>
  C25. The clause and its arguments fit together: the arguments are the values of the predicate
  in order, and the text refers to each of them exactly once, as \<open>$1\<close>, \<open>$2\<close>, and so on, provided
  that no name, operator or connective has a dollar sign of its own. The builder panics exactly
  when an IN or NOT IN somewhere in the predicate has a value that is not a list.
\<close>

theorem BuildSQL_placeholders:
  assumes "list_all (\<lambda>(k, name). no_dollar name) (fieldMappings b)" and "clean_predicate p"
  shows "case PostgresJSONBBuilder_BuildSQL b p of
      None \<Rightarrow> \<not> lists_ok p
    | Some (sql, args) \<Rightarrow>
        lists_ok p \<and> args = predicate_values p \<and> dollars sql = map nat_text [1..<Suc (length args)]"
proof (cases "pg_buildSQL b p 0")
  case None
  then show ?thesis using pg_buildSQL_values [of b p 0]
    by (simp add: PostgresJSONBBuilder_BuildSQL_def split: if_splits)
next
  case (Some r)
  obtain sql args n where r: "r = (sql, args, n)" by (cases r)
  have "lists_ok p" "args = predicate_values p"
    using pg_buildSQL_values [of b p 0] Some r by (simp_all split: if_splits)
  moreover have "num3 0 (sql, args, n)"
    using pg_buildSQL_numbered [OF assms] Some r by blast
  ultimately show ?thesis using Some r
    by (simp add: PostgresJSONBBuilder_BuildSQL_def num3_def numbered_def del: upt_Suc)
qed

definition sample_builder :: jsonb_builder where
  "sample_builder = WithFieldMappings [(''tenantId'', ''tenant_id'')]
     (WithJSONBFieldTypes [(''tags'', JSONBFieldTypeArrayOfScalars)] (WithJSONBFields [''vpas''] NewPostgresJSONBBuilder))"

theorem BuildSQL_placeholders_witness:
  "case PostgresJSONBBuilder_BuildSQL sample_builder
      (And [Eq ''vpas.type'' (VStr ''connector''), In ''tenantId'' [VInt 1, VInt 2]]) of
     None \<Rightarrow> \<not> lists_ok (And [Eq ''vpas.type'' (VStr ''connector''), In ''tenantId'' [VInt 1, VInt 2]])
   | Some (sql, args) \<Rightarrow>
       lists_ok (And [Eq ''vpas.type'' (VStr ''connector''), In ''tenantId'' [VInt 1, VInt 2]]) \<and>
       args = predicate_values (And [Eq ''vpas.type'' (VStr ''connector''), In ''tenantId'' [VInt 1, VInt 2]]) \<and>
       dollars sql = map nat_text [1..<Suc (length args)]"
  by (rule BuildSQL_placeholders) code_simp+

section \<open>Values never reach the text\<close>

definition map_value :: "(gval \<Rightarrow> gval) \<Rightarrow> operator \<Rightarrow> gval \<Rightarrow> gval" where
  "map_value g op v =
     (if needs_list op then (case any_slice v of Some vs \<Rightarrow> VSlice (map (\<lambda>x. VIface (g x)) vs) | None \<Rightarrow> v) else g v)"

fun map_values :: "(gval \<Rightarrow> gval) \<Rightarrow> predicate \<Rightarrow> predicate" where
  "map_values g MatchAllPredicate = MatchAllPredicate"
| "map_values g (AtomicPredicate field op v) = AtomicPredicate field op (map_value g op v)"
| "map_values g (CompoundPredicate operator ps) = CompoundPredicate operator (map (map_values g) ps)"

definition map_args :: "(gval \<Rightarrow> gval) \<Rightarrow> 's \<times> gval list \<times> nat \<Rightarrow> 's \<times> gval list \<times> nat" where
  "map_args g r = (fst r, map g (fst (snd r)), snd (snd r))"

lemma map_args_simp [simp]: "map_args g (s, as, n) = (s, map g as, n)"
  by (simp add: map_args_def)

lemma any_slice_map_value:
  "needs_list op \<Longrightarrow> any_slice (map_value g op v) = map_option (map g) (any_slice v)"
  by (auto simp: map_value_def any_slice_def list_all_iff Interface_def split: option.splits gval.splits)

lemma map_value_other: "\<not> needs_list op \<Longrightarrow> map_value g op v = g v"
  by (simp add: map_value_def)

lemma jsonb_map_args:
  "buildJSONBEqual f path t (g v) n = map_args g (buildJSONBEqual f path t v n)"
  "buildJSONBNotEqual f path t (g v) n = map_args g (buildJSONBNotEqual f path t v n)"
  "buildJSONBContains f path t (g v) n = map_args g (buildJSONBContains f path t v n)"
  "buildJSONBComparison f path t op (g v) n = map_args g (buildJSONBComparison f path t op v n)"
  "buildJSONBIn f path t (map g vs) n = map_args g (buildJSONBIn f path t vs n)"
  "buildJSONBNotIn f path t (map g vs) n = map_args g (buildJSONBNotIn f path t vs n)"
  by (simp_all add: buildJSONBEqual_def buildJSONBNotEqual_def buildJSONBContains_def buildJSONBComparison_def
      buildJSONBIn_def buildJSONBNotIn_def Let_def)

lemma pg_simple_map_value:
  "pg_simple b field op (map_value g op v) n = map_option (map_args g) (pg_simple b field op v n)"
proof -
  note rules = needs_list_def any_slice_map_value [of op g v] map_value_other [of op g v]
  have "buildStandardPredicateSQL b field op (map_value g op v) n
      = map_option (map_args g) (buildStandardPredicateSQL b field op v n)"
    using rules(2,3) by (cases op; cases "any_slice v") (simp_all add: rules(1) buildStandardPredicateSQL_def Let_def)
  moreover have "buildJSONBCondition f path t field op (map_value g op v) n
      = map_option (map_args g) (buildJSONBCondition f path t field op v n)" for f path t
    using rules(2,3) by (cases op; cases "any_slice v") (simp_all add: rules(1) buildJSONBCondition_def jsonb_map_args)
  ultimately show ?thesis
    by (simp add: pg_simple_def tryBuildJSONBSQL_def Let_def)
qed

lemma pg_parts_map_args:
  assumes "\<And>p n. p \<in> set ps \<Longrightarrow> h p n = map_option (map_args g) (f p n)"
  shows "pg_parts (map h ps) n = map_option (map_args g) (pg_parts (map f ps) n)"
  using assms
proof (induction ps arbitrary: n)
  case (Cons p ps)
  have h: "h p n = map_option (map_args g) (f p n)" by (rule Cons.prems) simp
  have "pg_parts (map h ps) m = map_option (map_args g) (pg_parts (map f ps) m)" for m
    using Cons by simp
  with h show ?case
    by (cases "f p n") (auto simp: option.map_comp comp_def case_prod_beta' map_args_def)
qed simp

lemma pg_buildSQL_map_values:
  "pg_buildSQL b (map_values g p) n = map_option (map_args g) (pg_buildSQL b p n)"
proof (induction p arbitrary: n)
  case (AtomicPredicate field op v)
  show ?case by (simp add: pg_simple_map_value)
next
  case (CompoundPredicate operator ps)
  consider "ps = []" | p where "ps = [p]" | p q qs where "ps = p # q # qs"
    by (metis list.exhaust)
  then show ?case
  proof cases
    case 3
    have "pg_parts (map (\<lambda>p. pg_buildSQL b (map_values g p)) ps) n
        = map_option (map_args g) (pg_parts (map (pg_buildSQL b) ps) n)"
      by (rule pg_parts_map_args) (rule CompoundPredicate)
    then show ?thesis using 3
      by (simp add: option.map_comp comp_def case_prod_beta' map_args_def pg_compound_def del: pg_parts.simps)
  qed (use CompoundPredicate in \<open>auto simp: pg_compound_def\<close>)
qed simp

text \<open>
  C26. No value of a predicate gets into the text of the clause: changing the values in any way
  (keeping the length of the lists) leaves the text as it is and changes the arguments alike.
  What a client puts into a query can therefore not change the query that the database parses.
\<close>

theorem BuildSQL_values_not_in_text:
  "PostgresJSONBBuilder_BuildSQL b (map_values g p) =
     map_option (\<lambda>(sql, args). (sql, map g args)) (PostgresJSONBBuilder_BuildSQL b p)"
  by (simp add: PostgresJSONBBuilder_BuildSQL_def pg_buildSQL_map_values option.map_comp comp_def case_prod_beta' map_args_def)

text \<open>
  On a column that holds an array of scalars, \<open>!=\<close> is translated to the same clause as \<open>=\<close>:
  the search over the array ignores its operator.
\<close>

theorem array_of_scalars_not_equal:
  "PostgresJSONBBuilder_BuildSQL (WithJSONBFieldTypes [(''tags'', JSONBFieldTypeArrayOfScalars)] NewPostgresJSONBBuilder) (Neq ''tags'' v)
   = PostgresJSONBBuilder_BuildSQL (WithJSONBFieldTypes [(''tags'', JSONBFieldTypeArrayOfScalars)] NewPostgresJSONBBuilder) (Eq ''tags'' v)"
proof -
  have t: "ToLower ''tags'' = ''tags''" by code_simp
  have s: "split_on (CHR ''.'') ''tags'' = [''tags'']" by code_simp
  show ?thesis
    by (simp add: PostgresJSONBBuilder_BuildSQL_def Neq_def Eq_def pg_simple_def tryBuildJSONBSQL_def t s
        WithJSONBFieldTypes_def with_jsonb_field_type_def NewPostgresJSONBBuilder_def Let_def
        buildJSONBCondition_def buildJSONBNotEqual_def buildJSONBEqual_def buildJSONBArraySearch_def)
qed

end
