(* ===== verification/Sql_Store.thy ===== *)
theory Sql_Store
  imports Entity_Store Sql_Builder
begin

text \<open>
  The entity store for Postgres (\<open>common/sqlstore/sqlstore.go\<close>).

  The driver and the database behind \<open>*sql.Tx\<close> are not part of the sources: a transaction is a
  record of the three calls that the store makes on it, each a function of the statement, its
  arguments and the state \<open>'s\<close> of the transaction. A statement is what the code fills its format
  strings with, and \<open>stmt_text\<close> is the text that is sent. A value written to or read from a column is a
  \<open>sql_value\<close>; the bytes of a JSON column are the JSON value they encode, and \<open>SqlValuer\<close> is a value
  that the driver converts through \<open>Value()\<close>, which may fail. \<open>SqlParam\<close> is a value of a predicate.
\<close>

section \<open>Values and records\<close>

datatype sql_value =
    SqlNull
  | SqlText string
  | SqlInt int
  | SqlBool bool
  | SqlTime int
  | SqlBytes json
  | SqlParam gval
  | SqlValuer "go_error + sql_value"

type_synonym db_record = "(string, sql_value) gomap"

definition buildRecordFromScan :: "string list \<Rightarrow> sql_value list \<Rightarrow> db_record" where
  "buildRecordFromScan columnNames scanValues = fold (\<lambda>(colName, val). put colName val) (zip columnNames scanValues) []"

text \<open>The columns of a record in the order of the store's columns, with their values.\<close>

definition record_columns :: "string list \<Rightarrow> db_record \<Rightarrow> (string \<times> sql_value) list" where
  "record_columns columnNames values =
     List.map_filter (\<lambda>colName. map_option (\<lambda>val. (colName, val)) (lookup values colName)) columnNames"

section \<open>Statements\<close>

text \<open>\<open>PageLimit n\<close> and \<open>PageFrom n\<close>: the clauses for a page whose first placeholder comes after \<open>n\<close>
  arguments. The clause of a WHERE is empty when there is none.\<close>

datatype sql_page = AllRows | PageLimit nat | PageFrom nat

datatype sql_stmt =
    SelectByID "string list" string string
  | SelectExists string
  | InsertReturning string "string list" "string list"
  | UpdateByID string "string list"
  | DeleteByID string
  | SelectRows "string list" string string sql_page
  | SelectCount string string
  | DeleteRows string string

definition where_text :: "string \<Rightarrow> string" where
  "where_text whereClause = (if whereClause \<noteq> [] then '' WHERE '' @ whereClause else [])"

definition page_text :: "sql_page \<Rightarrow> string" where
  "page_text pg =
     (case pg of AllRows \<Rightarrow> []
      | PageLimit n \<Rightarrow> '' ORDER BY id LIMIT '' @ dollar (n + 1) @ '' OFFSET '' @ dollar (n + 2)
      | PageFrom n \<Rightarrow> '' ORDER BY id OFFSET '' @ dollar (n + 1))"

definition set_clauses :: "string list \<Rightarrow> string list" where
  "set_clauses columns = map (\<lambda>(colName, ph). colName @ '' = '' @ ph) (zip columns (placeholders 0 (length columns)))"

definition stmt_text :: "sql_stmt \<Rightarrow> string" where
  "stmt_text st =
     (case st of
        SelectByID columns table lockClause \<Rightarrow>
          ''SELECT '' @ join '', '' columns @ '' FROM '' @ table @ '' WHERE id = $1'' @ lockClause
      | SelectExists table \<Rightarrow> ''SELECT EXISTS(SELECT 1 FROM '' @ table @ '' WHERE id = $1)''
      | InsertReturning table columns returning \<Rightarrow>
          ''INSERT INTO '' @ table @ '' ('' @ join '', '' columns @ '') VALUES ('' @
            join '', '' (placeholders 0 (length columns)) @ '') RETURNING '' @ join '', '' returning
      | UpdateByID table columns \<Rightarrow>
          ''UPDATE '' @ table @ '' SET '' @ join '', '' (set_clauses columns) @ '' WHERE id = '' @
            dollar (Suc (length columns))
      | DeleteByID table \<Rightarrow> ''DELETE FROM '' @ table @ '' WHERE id = $1''
      | SelectRows columns table whereClause pg \<Rightarrow>
          ''SELECT '' @ join '', '' columns @ '' FROM '' @ table @ where_text whereClause @ page_text pg
      | SelectCount table whereClause \<Rightarrow> ''SELECT COUNT(*) FROM '' @ table @ where_text whereClause
      | DeleteRows table whereClause \<Rightarrow> ''DELETE FROM '' @ table @ where_text whereClause)"

section \<open>The transaction\<close>

text \<open>
  \<open>tx_QueryRow\<close> is \<open>QueryRowContext\<close> with the \<open>Scan\<close> of the row, \<open>tx_Exec\<close> gives the rows affected, which
  may fail on its own, and \<open>tx_Query\<close> the rows with the error of scanning each, and the error that
  ended the iteration.
\<close>

record 's sql_tx =
  tx_QueryRow :: "sql_stmt \<Rightarrow> sql_value list \<Rightarrow> 's \<Rightarrow> (go_error + sql_value list) \<times> 's"
  tx_Exec :: "sql_stmt \<Rightarrow> sql_value list \<Rightarrow> 's \<Rightarrow> (go_error + (go_error + int)) \<times> 's"
  tx_Query :: "sql_stmt \<Rightarrow> sql_value list \<Rightarrow> 's \<Rightarrow> (go_error + (go_error + sql_value list) list \<times> go_error option) \<times> 's"

definition ErrNoRows :: go_error where "ErrNoRows = Sentinel ''sql: no rows in result set''"

definition ErrNoTransaction :: go_error where
  "ErrNoTransaction = Sentinel ''no transaction in context: store operations must run inside TransactionContext.Execute''"

definition getTxFromContext :: "'s sql_tx option \<Rightarrow> go_error + 's sql_tx" where
  "getTxFromContext ctx = (case ctx of Some tx \<Rightarrow> Inr tx | None \<Rightarrow> Inl ErrNoTransaction)"

definition scan_bool :: "go_error + sql_value list \<Rightarrow> go_error + bool" where
  "scan_bool r = (case r of Inl err \<Rightarrow> Inl err | Inr [SqlBool b] \<Rightarrow> Inr b | _ \<Rightarrow> Inl (ErrorString ''sql: Scan error''))"

definition scan_int :: "go_error + sql_value list \<Rightarrow> go_error + int" where
  "scan_int r = (case r of Inl err \<Rightarrow> Inl err | Inr [SqlInt n] \<Rightarrow> Inr n | _ \<Rightarrow> Inl (ErrorString ''sql: Scan error''))"

definition wrapped :: "string \<Rightarrow> go_error \<Rightarrow> go_error" where
  "wrapped what err = WrapError (what @ '': '' @ error_text err) err"

section \<open>The store\<close>

record 'e pg_store =
  tableName :: string
  columnNames :: "string list"
  recordToEntity :: "db_record \<Rightarrow> go_error + 'e"
  entityToRecord :: "'e \<Rightarrow> go_error + db_record"
  builder :: jsonb_builder
  entity_id :: "'e \<Rightarrow> string"

datatype lock_mode = LockShared | LockExclusive | LockOther int

definition sql_findByID ::
    "'e pg_store \<Rightarrow> 's sql_tx option \<Rightarrow> string \<Rightarrow> string \<Rightarrow> 's \<Rightarrow> (go_error + 'e) \<times> 's" where
  "sql_findByID p ctx eid lockClause s =
     (case getTxFromContext ctx of
        Inl err \<Rightarrow> (Inl err, s)
      | Inr tx \<Rightarrow>
          (case tx_QueryRow tx (SelectByID (columnNames p) (tableName p) lockClause) [SqlText eid] s of
             (Inl err, s) \<Rightarrow>
               (Inl (if errors_Is err ErrNoRows then ErrNotFound else wrapped ''failed to query entity'' err), s)
           | (Inr scanValues, s) \<Rightarrow> (recordToEntity p (buildRecordFromScan (columnNames p) scanValues), s)))"

definition sql_FindByID :: "'e pg_store \<Rightarrow> 's sql_tx option \<Rightarrow> string \<Rightarrow> 's \<Rightarrow> (go_error + 'e) \<times> 's" where
  "sql_FindByID p ctx eid s = sql_findByID p ctx eid [] s"

definition sql_FindByIDAndLock ::
    "'e pg_store \<Rightarrow> 's sql_tx option \<Rightarrow> string \<Rightarrow> lock_mode \<Rightarrow> 's \<Rightarrow> (go_error + 'e) \<times> 's" where
  "sql_FindByIDAndLock p ctx eid mode s =
     (case mode of
        LockShared \<Rightarrow> sql_findByID p ctx eid '' FOR SHARE'' s
      | LockExclusive \<Rightarrow> sql_findByID p ctx eid '' FOR UPDATE'' s
      | LockOther n \<Rightarrow> (Inl (ErrorString (''unsupported lock mode '' @ int_text n)), s))"

definition sql_Exists :: "'e pg_store \<Rightarrow> 's sql_tx option \<Rightarrow> string \<Rightarrow> 's \<Rightarrow> (go_error + bool) \<times> 's" where
  "sql_Exists p ctx eid s =
     (case getTxFromContext ctx of
        Inl err \<Rightarrow> (Inl err, s)
      | Inr tx \<Rightarrow>
          (let (r, s) = tx_QueryRow tx (SelectExists (tableName p)) [SqlText eid] s
           in (case scan_bool r of
                 Inl err \<Rightarrow> (Inl (wrapped ''failed to check entity existence'' err), s)
               | Inr found \<Rightarrow> (Inr found, s))))"

definition sql_Create :: "'e pg_store \<Rightarrow> 's sql_tx option \<Rightarrow> 'e \<Rightarrow> 's \<Rightarrow> (go_error + 'e) \<times> 's" where
  "sql_Create p ctx entity s =
     (case getTxFromContext ctx of
        Inl err \<Rightarrow> (Inl err, s)
      | Inr tx \<Rightarrow>
          (case entityToRecord p entity of
             Inl err \<Rightarrow> (Inl (wrapped ''failed to convert entity to record'' err), s)
           | Inr record \<Rightarrow>
               (let cs = record_columns (columnNames p) record in
                case tx_QueryRow tx (InsertReturning (tableName p) (map fst cs) (columnNames p)) (map snd cs) s of
                  (Inl err, s) \<Rightarrow> (Inl (wrapped ''failed to create entity'' err), s)
                | (Inr scanValues, s) \<Rightarrow> (recordToEntity p (buildRecordFromScan (columnNames p) scanValues), s))))"

text \<open>The rows affected, where none means that the entity was not found.\<close>

definition affected :: "go_error + int \<Rightarrow> go_error option" where
  "affected r =
     (case r of
        Inl err \<Rightarrow> Some (wrapped ''failed to get rows affected'' err)
      | Inr rowsAffected \<Rightarrow> if rowsAffected = 0 then Some ErrNotFound else None)"

definition sql_Update :: "'e pg_store \<Rightarrow> 's sql_tx option \<Rightarrow> 'e \<Rightarrow> 's \<Rightarrow> go_error option \<times> 's" where
  "sql_Update p ctx entity s =
     (case getTxFromContext ctx of
        Inl err \<Rightarrow> (Some err, s)
      | Inr tx \<Rightarrow>
          (case entityToRecord p entity of
             Inl err \<Rightarrow> (Some (wrapped ''failed to convert entity to record'' err), s)
           | Inr record \<Rightarrow>
               (let cs = record_columns (filter (\<lambda>colName. colName \<noteq> ''id'') (columnNames p)) record in
                if cs = [] then (Some (ErrorString ''no columns to update''), s)
                else (case tx_Exec tx (UpdateByID (tableName p) (map fst cs)) (map snd cs @ [SqlText (entity_id p entity)]) s of
                    (Inl err, s) \<Rightarrow> (Some (wrapped ''failed to update entity'' err), s)
                  | (Inr rowsAffected, s) \<Rightarrow> (affected rowsAffected, s)))))"

definition sql_Delete :: "'e pg_store \<Rightarrow> 's sql_tx option \<Rightarrow> string \<Rightarrow> 's \<Rightarrow> go_error option \<times> 's" where
  "sql_Delete p ctx eid s =
     (case getTxFromContext ctx of
        Inl err \<Rightarrow> (Some err, s)
      | Inr tx \<Rightarrow>
          (case tx_Exec tx (DeleteByID (tableName p)) [SqlText eid] s of
             (Inl err, s) \<Rightarrow> (Some (wrapped ''failed to delete entity'' err), s)
           | (Inr rowsAffected, s) \<Rightarrow> (affected rowsAffected, s)))"

text \<open>The loop over the rows of a query: what is yielded for each, and for the end.\<close>

definition yield_row :: "'e pg_store \<Rightarrow> go_error + sql_value list \<Rightarrow> go_error + 'e" where
  "yield_row p row =
     (case row of
        Inl err \<Rightarrow> Inl (wrapped ''failed to scan entity'' err)
      | Inr scanValues \<Rightarrow>
          (case recordToEntity p (buildRecordFromScan (columnNames p) scanValues) of
             Inl err \<Rightarrow> Inl (wrapped ''failed to convert record to entity'' err)
           | Inr entity \<Rightarrow> Inr entity))"

definition yield_rows ::
    "'e pg_store \<Rightarrow> go_error + (go_error + sql_value list) list \<times> go_error option \<Rightarrow> (go_error + 'e) list" where
  "yield_rows p r =
     (case r of
        Inl err \<Rightarrow> [Inl (wrapped ''failed to query entities'' err)]
      | Inr (rows, ended) \<Rightarrow>
          map (yield_row p) rows @
          (case ended of None \<Rightarrow> [] | Some err \<Rightarrow> [Inl (wrapped ''iteration error'' err)]))"

definition sql_GetAll :: "'e pg_store \<Rightarrow> 's sql_tx option \<Rightarrow> 's \<Rightarrow> (go_error + 'e) list \<times> 's" where
  "sql_GetAll p ctx s =
     (case getTxFromContext ctx of
        Inl err \<Rightarrow> ([Inl err], s)
      | Inr tx \<Rightarrow>
          (let (r, s) = tx_Query tx (SelectRows (columnNames p) (tableName p) [] AllRows) [] s
           in (yield_rows p r, s)))"

definition sql_GetAllCount :: "'e pg_store \<Rightarrow> 's sql_tx option \<Rightarrow> 's \<Rightarrow> (go_error + int) \<times> 's" where
  "sql_GetAllCount p ctx s =
     (case getTxFromContext ctx of
        Inl err \<Rightarrow> (Inl err, s)
      | Inr tx \<Rightarrow>
          (let (r, s) = tx_QueryRow tx (SelectCount (tableName p) []) [] s
           in (case scan_int r of
                 Inl err \<Rightarrow> (Inl (wrapped ''failed to count entities'' err), s)
               | Inr n \<Rightarrow> (Inr n, s))))"

text \<open>The clause of a predicate and its arguments: nothing for a nil predicate, a panic of the builder is \<open>None\<close>.\<close>

definition where_of :: "'e pg_store \<Rightarrow> predicate option \<Rightarrow> (string \<times> sql_value list) option" where
  "where_of p predicate =
     (case predicate of
        None \<Rightarrow> Some ([], [])
      | Some q \<Rightarrow> map_option (\<lambda>(sql, args). (sql, map SqlParam args)) (PostgresJSONBBuilder_BuildSQL (builder p) q))"

definition page_of :: "pagination option \<Rightarrow> nat \<Rightarrow> sql_page \<times> sql_value list" where
  "page_of opts n =
     (case opts of
        None \<Rightarrow> (AllRows, [])
      | Some opts \<Rightarrow>
          if pg_Limit opts > 0 then (PageLimit n, [SqlInt (pg_Limit opts), SqlInt (pg_Offset opts)])
          else if pg_Offset opts > 0 then (PageFrom n, [SqlInt (pg_Offset opts)])
          else (AllRows, []))"

definition sql_queryEntities ::
    "'e pg_store \<Rightarrow> 's sql_tx option \<Rightarrow> predicate option \<Rightarrow> pagination option \<Rightarrow> 's \<Rightarrow>
     (go_error + 'e) list call_result \<times> 's" where
  "sql_queryEntities p ctx predicate opts s =
     (case getTxFromContext ctx of
        Inl err \<Rightarrow> (Returns [Inl err], s)
      | Inr tx \<Rightarrow>
          (case where_of p predicate of
             None \<Rightarrow> (Panics ''interface conversion'', s)
           | Some (whereClause, args) \<Rightarrow>
               (let (pg, pageArgs) = page_of opts (length args);
                    (r, s) = tx_Query tx (SelectRows (columnNames p) (tableName p) whereClause pg) (args @ pageArgs) s
                in (Returns (yield_rows p r), s))))"

definition sql_GetAllPaginated where
  "sql_GetAllPaginated p ctx opts s = sql_queryEntities p ctx None (Some opts) s"

definition sql_FindByPredicate where
  "sql_FindByPredicate p ctx predicate s = sql_queryEntities p ctx predicate None s"

definition sql_FindByPredicatePaginated where
  "sql_FindByPredicatePaginated p ctx predicate opts s = sql_queryEntities p ctx predicate (Some opts) s"

fun first_entity :: "(go_error + 'e) list \<Rightarrow> go_error option \<Rightarrow> go_error + 'e" where
  "first_entity [] lastErr = (case lastErr of Some err \<Rightarrow> Inl err | None \<Rightarrow> Inl ErrNotFound)"
| "first_entity (Inl err # seq) lastErr = first_entity seq (Some err)"
| "first_entity (Inr entity # seq) lastErr = Inr entity"

definition sql_FindFirstByPredicate ::
    "'e pg_store \<Rightarrow> 's sql_tx option \<Rightarrow> predicate option \<Rightarrow> 's \<Rightarrow> 'e call_result \<times> 's" where
  "sql_FindFirstByPredicate p ctx predicate s =
     (case sql_queryEntities p ctx predicate (Some \<lparr>pg_Offset = 0, pg_Limit = 1\<rparr>) s of
        (Returns seq, s) \<Rightarrow> of_result (first_entity seq None, s)
      | (Fails err, s) \<Rightarrow> (Fails err, s)
      | (Panics txt, s) \<Rightarrow> (Panics txt, s))"

definition sql_CountByPredicate ::
    "'e pg_store \<Rightarrow> 's sql_tx option \<Rightarrow> predicate option \<Rightarrow> 's \<Rightarrow> int call_result \<times> 's" where
  "sql_CountByPredicate p ctx predicate s =
     (case getTxFromContext ctx of
        Inl err \<Rightarrow> (Fails err, s)
      | Inr tx \<Rightarrow>
          (case where_of p predicate of
             None \<Rightarrow> (Panics ''interface conversion'', s)
           | Some (whereClause, args) \<Rightarrow>
               (let (r, s) = tx_QueryRow tx (SelectCount (tableName p) whereClause) args s
                in (case scan_int r of
                      Inl err \<Rightarrow> (Fails (wrapped ''failed to count entities'' err), s)
                    | Inr n \<Rightarrow> (Returns n, s)))))"

definition sql_DeleteByPredicate ::
    "'e pg_store \<Rightarrow> 's sql_tx option \<Rightarrow> predicate option \<Rightarrow> 's \<Rightarrow> unit call_result \<times> 's" where
  "sql_DeleteByPredicate p ctx predicate s =
     (case getTxFromContext ctx of
        Inl err \<Rightarrow> (Fails err, s)
      | Inr tx \<Rightarrow>
          (case where_of p predicate of
             None \<Rightarrow> (Panics ''interface conversion'', s)
           | Some (whereClause, args) \<Rightarrow>
               (case tx_Exec tx (DeleteRows (tableName p) whereClause) args s of
                  (Inl err, s) \<Rightarrow> (Fails (wrapped ''failed to delete entities'' err), s)
                | (Inr rowsAffected, s) \<Rightarrow>
                    (case affected rowsAffected of Some err \<Rightarrow> (Fails err, s) | None \<Rightarrow> (Returns (), s)))))"

section \<open>What is sent\<close>

text \<open>The calls of the store, and what each leaves of the state of the transaction.\<close>

datatype 'e sql_call =
    CallFind string
  | CallFindAndLock string lock_mode
  | CallExists string
  | CallCreate 'e
  | CallUpdate 'e
  | CallDelete string
  | CallGetAll
  | CallGetAllCount
  | CallQuery "predicate option" "pagination option"
  | CallFindFirst "predicate option"
  | CallCount "predicate option"
  | CallDeleteBy "predicate option"

fun sql_effect :: "'e pg_store \<Rightarrow> 's sql_tx option \<Rightarrow> 'e sql_call \<Rightarrow> 's \<Rightarrow> 's" where
  "sql_effect p ctx (CallFind eid) s = snd (sql_FindByID p ctx eid s)"
| "sql_effect p ctx (CallFindAndLock eid mode) s = snd (sql_FindByIDAndLock p ctx eid mode s)"
| "sql_effect p ctx (CallExists eid) s = snd (sql_Exists p ctx eid s)"
| "sql_effect p ctx (CallCreate e) s = snd (sql_Create p ctx e s)"
| "sql_effect p ctx (CallUpdate e) s = snd (sql_Update p ctx e s)"
| "sql_effect p ctx (CallDelete eid) s = snd (sql_Delete p ctx eid s)"
| "sql_effect p ctx CallGetAll s = snd (sql_GetAll p ctx s)"
| "sql_effect p ctx CallGetAllCount s = snd (sql_GetAllCount p ctx s)"
| "sql_effect p ctx (CallQuery q opts) s = snd (sql_queryEntities p ctx q opts s)"
| "sql_effect p ctx (CallFindFirst q) s = snd (sql_FindFirstByPredicate p ctx q s)"
| "sql_effect p ctx (CallCount q) s = snd (sql_CountByPredicate p ctx q s)"
| "sql_effect p ctx (CallDeleteBy q) s = snd (sql_DeleteByPredicate p ctx q s)"

text \<open>A transaction that answers in any way and records what it is sent.\<close>

definition recording_tx ::
    "(sql_stmt \<Rightarrow> sql_value list \<Rightarrow> go_error + sql_value list) \<Rightarrow>
     (sql_stmt \<Rightarrow> sql_value list \<Rightarrow> go_error + (go_error + int)) \<Rightarrow>
     (sql_stmt \<Rightarrow> sql_value list \<Rightarrow> go_error + (go_error + sql_value list) list \<times> go_error option) \<Rightarrow>
     (sql_stmt \<times> sql_value list) list sql_tx" where
  "recording_tx onRow onExec onQuery =
     \<lparr>tx_QueryRow = \<lambda>st args sent. (onRow st args, sent @ [(st, args)]),
      tx_Exec = \<lambda>st args sent. (onExec st args, sent @ [(st, args)]),
      tx_Query = \<lambda>st args sent. (onQuery st args, sent @ [(st, args)])\<rparr>"

definition args_match :: "sql_stmt \<times> sql_value list \<Rightarrow> bool" where
  "args_match c \<longleftrightarrow> dollars (stmt_text (fst c)) = map nat_text [1..<Suc (length (snd c))]"

definition call_predicate :: "'e sql_call \<Rightarrow> predicate option" where
  "call_predicate c = (case c of CallQuery q opts \<Rightarrow> q | CallFindFirst q \<Rightarrow> q | CallCount q \<Rightarrow> q | CallDeleteBy q \<Rightarrow> q | _ \<Rightarrow> None)"

definition clean_store :: "'e pg_store \<Rightarrow> bool" where
  "clean_store p \<longleftrightarrow> no_dollar (tableName p) \<and> list_all no_dollar (columnNames p) \<and>
     list_all (\<lambda>(k, name). no_dollar name) (fieldMappings (builder p))"

lemma dollars_join_sep:
  assumes "\<not> is_digit c" "no_dollar (c # sep)" "stops t"
  shows "dollars (join (c # sep) ss @ t) = concat (map dollars ss) @ dollars t"
proof (induction ss)
  case (Cons s ss)
  have c: "c \<noteq> CHR ''$''" "no_dollar sep" using assms(2) by simp_all
  show ?case
  proof (cases ss)
    case (Cons u us)
    have "dollars (s @ (c # sep @ join (c # sep) ss @ t)) = dollars s @ dollars (c # sep @ join (c # sep) ss @ t)"
      by (rule dollars_append) (simp add: assms(1))
    then show ?thesis using Cons Cons.IH c by (simp add: join_Cons dollars_skip)
  qed (simp add: dollars_append [OF assms(3)])
qed simp

lemma dollars_join_names: "list_all no_dollar ss \<Longrightarrow> stops t \<Longrightarrow> dollars (join '', '' ss @ t) = dollars t"
  by (subst dollars_join_sep) (simp_all add: list_all_iff dollars_none)

lemma no_dollar_join: "no_dollar sep \<Longrightarrow> list_all no_dollar ss \<Longrightarrow> no_dollar (join sep ss)"
proof (induction ss)
  case (Cons s ss)
  then show ?case by (cases ss) (simp_all add: join_Cons)
qed simp

lemma dollars_placeholders: "stops t \<Longrightarrow> dollars (join '', '' (placeholders n k) @ t) = map nat_text [Suc n..<Suc n + k] @ dollars t"
proof -
  assume "stops t"
  moreover have "concat (map dollars (map dollar ns)) = map nat_text ns" for ns
    using dollars_dollar [of "[]"] by (induction ns) simp_all
  ultimately show ?thesis by (subst dollars_join_sep) (simp_all add: placeholders_def)
qed

lemma dollars_set_clauses:
  assumes "list_all no_dollar cs" "stops t"
  shows "dollars (join '', '' (set_clauses cs) @ t) = map nat_text [1..<Suc (length cs)] @ dollars t"
proof -
  have "concat (map dollars (map (\<lambda>(c, ph). c @ '' = '' @ ph) (zip cs (map dollar ns)))) = map nat_text ns"
    if "length ns = length cs" for ns
    using that assms(1)
  proof (induction cs ns rule: list_induct2')
    case (4 c cs n ns)
    then show ?case using dollars_dollar [of "[]" n] by (simp add: dollars_skip)
  qed simp_all
  from this [of "[1..<Suc (length cs)]"] show ?thesis
    using assms(2) by (subst dollars_join_sep) (simp_all add: set_clauses_def placeholders_def del: upt_Suc)
qed

lemma nat_text_one: "nat_text 1 = ''1''"
  by code_simp

lemma is_digit_one [simp]: "is_digit (CHR ''1'')"
  by (simp add: is_digit_def less_eq_char_def)

lemma stops_takeWhile: "stops t \<Longrightarrow> takeWhile is_digit t = []"
  by (cases t) simp_all

lemma stmt_texts_numbered:
  assumes "no_dollar table" "list_all no_dollar columns" "list_all no_dollar returning"
  shows "no_dollar lockClause \<Longrightarrow> stops lockClause \<Longrightarrow> args_match (SelectByID columns table lockClause, [a])"
    and "args_match (SelectExists table, [a])"
    and "length vs = length columns \<Longrightarrow> args_match (InsertReturning table columns returning, vs)"
    and "length vs = length columns \<Longrightarrow> args_match (UpdateByID table columns, vs @ [a])"
    and "args_match (DeleteByID table, [a])"
proof -
  note rules = args_match_def stmt_text_def no_dollar_join [OF _ assms(2)] assms nat_text_one [unfolded One_nat_def]
    dollars_skip dollars_none stops_takeWhile
  show "no_dollar lockClause \<Longrightarrow> stops lockClause \<Longrightarrow> args_match (SelectByID columns table lockClause, [a])"
    by (simp add: rules)
  show "args_match (SelectExists table, [a])" by (simp add: rules)
  show "args_match (DeleteByID table, [a])" by (simp add: rules)
  show "length vs = length columns \<Longrightarrow> args_match (InsertReturning table columns returning, vs)"
    by (simp add: rules no_dollar_join [OF _ assms(3)] dollars_placeholders del: upt_Suc)
  show "length vs = length columns \<Longrightarrow> args_match (UpdateByID table columns, vs @ [a])"
    using dollars_dollar [of "[]" "Suc (length columns)"]
    by (simp add: rules dollars_set_clauses del: upt_Suc) simp
qed

lemma stops_page: "stops (page_text pg)"
  by (cases pg) (simp_all add: page_text_def)

lemma dollars_where: "stops t \<Longrightarrow> dollars (where_text w @ t) = dollars w @ dollars t"
  by (simp add: where_text_def dollars_append dollars_skip)

lemma dollars_page:
  "dollars (page_text (fst (page_of opts n))) = map nat_text [Suc n..<Suc (n + length (snd (page_of opts n)))]"
  using dollars_dollar [of "[]"]
  by (auto simp: page_of_def page_text_def dollars_skip dollars_dollar split: option.split)

lemma where_texts_numbered:
  assumes "no_dollar table" "list_all no_dollar columns"
    and "dollars w = map nat_text [1..<Suc (length args)]"
  shows "args_match (SelectRows columns table w (fst (page_of opts (length args))), args @ snd (page_of opts (length args)))"
    and "args_match (SelectCount table w, args)"
    and "args_match (DeleteRows table w, args)"
proof -
  note rules = args_match_def stmt_text_def no_dollar_join [OF _ assms(2)] assms(1,2) dollars_skip dollars_where stops_page
  let ?k = "length (snd (page_of opts (length args)))"
  have "[1..<Suc (length args + ?k)] = [1..<Suc (length args)] @ [Suc (length args)..<Suc (length args + ?k)]"
    using upt_add_eq_append [of 1 "Suc (length args)" ?k] by simp
  then show "args_match (SelectRows columns table w (fst (page_of opts (length args))), args @ snd (page_of opts (length args)))"
    using assms(3) by (simp add: rules dollars_page del: upt_Suc)
  show "args_match (SelectCount table w, args)" "args_match (DeleteRows table w, args)"
    using assms(3) dollars_where [of "[]" w] by (simp_all add: rules del: upt_Suc)
qed

lemma where_of_numbered:
  assumes "list_all (\<lambda>(k, name). no_dollar name) (fieldMappings (builder p))" "\<And>q. predicate = Some q \<Longrightarrow> clean_predicate q"
    and "where_of p predicate = Some (w, args)"
  shows "dollars w = map nat_text [1..<Suc (length args)]"
proof (cases predicate)
  case (Some q)
  then obtain vals n where b: "pg_buildSQL (builder p) q 0 = Some (w, vals, n)" and args: "args = map SqlParam vals"
    using assms(3) by (auto simp: where_of_def PostgresJSONBBuilder_BuildSQL_def)
  have "num3 0 (w, vals, n)" by (rule pg_buildSQL_numbered [OF assms(1) assms(2) [OF Some] b])
  then show ?thesis by (simp add: args num3_def numbered_def del: upt_Suc)
qed (use assms(3) in \<open>simp add: where_of_def\<close>)

lemma record_columns_clean: "list_all no_dollar cs \<Longrightarrow> list_all no_dollar (map fst (record_columns cs r))"
  by (auto simp: record_columns_def List.map_filter_def list_all_iff)

text \<open>What one call may send: nothing or one statement with its arguments.\<close>

definition sends_well :: "(sql_stmt \<times> sql_value list) list \<Rightarrow> bool" where
  "sends_well sent \<longleftrightarrow> length sent \<le> 1 \<and> list_all args_match sent"

lemma sends_well_simps [simp]: "sends_well []" "sends_well [c] \<longleftrightarrow> args_match c"
  by (simp_all add: sends_well_def)

lemma recording_simps [simp]:
  "tx_QueryRow (recording_tx f g h) st args sent = (f st args, sent @ [(st, args)])"
  "tx_Exec (recording_tx f g h) st args sent = (g st args, sent @ [(st, args)])"
  "tx_Query (recording_tx f g h) st args sent = (h st args, sent @ [(st, args)])"
  by (simp_all add: recording_tx_def)

lemma snd_of_result [simp]: "snd (of_result (r, s)) = s"
  by (cases r) simp_all

lemmas sql_operation_defs = sql_FindByID_def sql_FindByIDAndLock_def sql_findByID_def sql_Exists_def sql_Create_def
  sql_Update_def sql_Delete_def sql_GetAll_def sql_GetAllCount_def sql_queryEntities_def sql_FindFirstByPredicate_def
  sql_CountByPredicate_def sql_DeleteByPredicate_def getTxFromContext_def

text \<open>
  What the store sends to the database: outside a transaction nothing at all; inside one each of
  its operations sends at most one statement, whatever the database answers, and the placeholders
  of that statement are exactly \<open>$1\<close>, \<open>$2\<close>, and so on up to the number of its arguments, in this order,
  with the limit and the offset of a page after the arguments of the predicate.
\<close>

theorem PostgresEntityStore_statements:
  assumes "clean_store p" and "\<And>q. call_predicate c = Some q \<Longrightarrow> clean_predicate q"
  shows "sql_effect p None c s = s \<and> sends_well (sql_effect p (Some (recording_tx f g h)) c [])"
proof
  show "sql_effect p None c s = s"
    by (cases c) (simp_all add: sql_operation_defs split: lock_mode.split)
  have clean: "no_dollar (tableName p)" "list_all no_dollar (columnNames p)"
    and maps: "list_all (\<lambda>(k, name). no_dollar name) (fieldMappings (builder p))"
    using assms(1) by (simp_all add: clean_store_def)
  have others: "list_all no_dollar (filter (\<lambda>colName. colName \<noteq> ''id'') (columnNames p))"
    using clean(2) by (simp add: list_all_iff)
  note st = stmt_texts_numbered [OF clean(1) clean(2) clean(2)]
  have q: "dollars w = map nat_text [1..<Suc (length args)]"
    if "where_of p (call_predicate c) = Some (w, args)" for w args
    by (rule where_of_numbered [OF maps assms(2) that])
  note wh = where_texts_numbered [OF clean q]
  have all: "args_match (SelectRows (columnNames p) (tableName p) [] AllRows, [])"
    "args_match (SelectCount (tableName p) [], [])"
    using where_texts_numbered(1) [OF clean, where w = "[]" and args = "[]" and opts = None]
      where_texts_numbered(2) [OF clean, where w = "[]" and args = "[]"] by (simp_all add: page_of_def)
  show "sends_well (sql_effect p (Some (recording_tx f g h)) c [])"
  proof (cases c)
    case (CallCreate e)
    then show ?thesis
      using stmt_texts_numbered(3) [OF clean(1) record_columns_clean [OF clean(2)] clean(2)]
      by (auto simp: sql_operation_defs Let_def split: sum.split)
  next
    case (CallUpdate e)
    then show ?thesis
      using stmt_texts_numbered(4) [OF clean(1) record_columns_clean [OF others] clean(2)]
      by (auto simp: sql_operation_defs Let_def split: sum.split)
  next
    case (CallQuery predicate opts)
    then show ?thesis using wh(1)
      by (auto simp: sql_operation_defs call_predicate_def Let_def case_prod_beta' split: option.split)
  next
    case (CallFindFirst predicate)
    then show ?thesis using wh(1)
      by (auto simp: sql_operation_defs call_predicate_def Let_def case_prod_beta' split: option.split)
  next
    case (CallCount predicate)
    then show ?thesis using wh(2)
      by (auto simp: sql_operation_defs call_predicate_def Let_def case_prod_beta' split: option.split sum.split)
  next
    case (CallDeleteBy predicate)
    then show ?thesis using wh(3)
      by (auto simp: sql_operation_defs call_predicate_def Let_def case_prod_beta' split: option.split sum.split)
  qed (use st all in \<open>auto simp: sql_operation_defs Let_def split: sum.split lock_mode.split\<close>)
qed

definition notes_store :: "string pg_store" where
  "notes_store = \<lparr>tableName = ''notes'', columnNames = [''id'', ''body''],
     recordToEntity = \<lambda>r. (case lookup r ''id'' of Some (SqlText t) \<Rightarrow> Inr t | _ \<Rightarrow> Inl ErrInvalidInput),
     entityToRecord = \<lambda>e. Inr [(''id'', SqlText e), (''body'', SqlNull)],
     builder = sample_builder, entity_id = \<lambda>e. e\<rparr>"

theorem PostgresEntityStore_statements_witness:
  "sends_well (sql_effect notes_store (Some (recording_tx (\<lambda>st args. Inl ErrNoRows) (\<lambda>st args. Inl ErrNoRows) (\<lambda>st args. Inl ErrNoRows)))
     (CallQuery (Some (Eq ''tenantId'' (VStr ''t1''))) (Some \<lparr>pg_Offset = 2, pg_Limit = 10\<rparr>)) [])"
proof (rule PostgresEntityStore_statements [where s = "()", THEN conjunct2])
  show "clean_store notes_store" by code_simp
  show "clean_predicate q" if "call_predicate (CallQuery (Some (Eq ''tenantId'' (VStr ''t1''))) (Some \<lparr>pg_Offset = 2, pg_Limit = 10\<rparr>)) = Some q" for q
    using that by (auto simp: call_predicate_def Eq_def operator_text_def)
qed

end
