(* ===== verification/Sql_Table.thy ===== *)
theory Sql_Table
  imports Sql_Store
begin

text \<open>
  What the Postgres entity store relies on and what it provides.

  \<open>sql_table\<close> is the documented behaviour of a table under the statements of the store, for a table
  without constraints beyond its key; \<open>codec_ok\<close> is what the converters of an entity type have to
  satisfy. From both the store implements the contract of an entity store. \<open>table_tx\<close> is a concrete
  table in memory that behaves as assumed: a row is a function from columns to values, and an error
  of a statement leaves the transaction aborted, as in Postgres. What a WHERE clause selects is its
  parameter \<open>holds\<close>.
\<close>

section \<open>Rows\<close>

type_synonym sql_row = "string \<Rightarrow> sql_value"

definition driver_value :: "sql_value \<Rightarrow> go_error + sql_value" where
  "driver_value v = (case v of SqlValuer r \<Rightarrow> r | _ \<Rightarrow> Inr v)"

fun driver_args :: "sql_value list \<Rightarrow> go_error + sql_value list" where
  "driver_args [] = Inr []"
| "driver_args (v # vs) = bind_result (driver_value v) (\<lambda>w. bind_result (driver_args vs) (\<lambda>ws. Inr (w # ws)))"

definition plain :: "sql_value \<Rightarrow> sql_value" where
  "plain v = projr (driver_value v)"

lemma driver_args_Inr: "driver_args vs = Inr ws \<longleftrightarrow> list_all (\<lambda>v. is_ok (driver_value v)) vs \<and> ws = map plain vs"
proof (induction vs arbitrary: ws)
  case (Cons v vs)
  show ?case
  proof (cases "driver_value v")
    case (Inr w)
    then show ?thesis using Cons by (cases "driver_args vs") (auto simp: plain_def)
  qed simp
qed auto

definition set_row :: "(string \<times> sql_value) list \<Rightarrow> sql_row \<Rightarrow> sql_row" where
  "set_row cs r = (\<lambda>c. case lookup cs c of Some v \<Rightarrow> v | None \<Rightarrow> r c)"

definition null_row :: sql_row where "null_row = (\<lambda>c. SqlNull)"

section \<open>The behaviour of a table\<close>

locale sql_table =
  fixes tx :: "'s sql_tx"
    and table :: string
    and cols :: "string list"
    and rows :: "'s \<Rightarrow> string \<Rightarrow> sql_row option"
    and live :: "'s \<Rightarrow> bool"
  assumes select_row: "live s \<Longrightarrow> tx_QueryRow tx (SelectByID cols table lockClause) [SqlText i] s =
      ((case rows s i of None \<Rightarrow> Inl ErrNoRows | Some r \<Rightarrow> Inr (map r cols)), s)"
    and exists_row: "live s \<Longrightarrow> tx_QueryRow tx (SelectExists table) [SqlText i] s = (Inr [SqlBool (rows s i \<noteq> None)], s)"
    and insert_row: "live s \<Longrightarrow> set (map fst cs) \<subseteq> set cols \<Longrightarrow> list_all (\<lambda>(c, v). is_ok (driver_value v)) cs \<Longrightarrow>
      lookup cs ''id'' = Some (SqlText i) \<Longrightarrow> rows s i = None \<Longrightarrow> row = set_row (map (\<lambda>(c, v). (c, plain v)) cs) null_row \<Longrightarrow>
      fst (tx_QueryRow tx (InsertReturning table (map fst cs) cols) (map snd cs) s) = Inr (map row cols) \<and>
      rows (snd (tx_QueryRow tx (InsertReturning table (map fst cs) cols) (map snd cs) s)) = (rows s)(i \<mapsto> row) \<and>
      live (snd (tx_QueryRow tx (InsertReturning table (map fst cs) cols) (map snd cs) s))"
    and update_row: "live s \<Longrightarrow> set (map fst cs) \<subseteq> set cols - {''id''} \<Longrightarrow> list_all (\<lambda>(c, v). is_ok (driver_value v)) cs \<Longrightarrow>
      rows s i = Some old \<Longrightarrow> row = set_row (map (\<lambda>(c, v). (c, plain v)) cs) old \<Longrightarrow>
      fst (tx_Exec tx (UpdateByID table (map fst cs)) (map snd cs @ [SqlText i]) s) = Inr (Inr 1) \<and>
      rows (snd (tx_Exec tx (UpdateByID table (map fst cs)) (map snd cs @ [SqlText i]) s)) = (rows s)(i \<mapsto> row) \<and>
      live (snd (tx_Exec tx (UpdateByID table (map fst cs)) (map snd cs @ [SqlText i]) s))"
    and update_none: "live s \<Longrightarrow> list_all (\<lambda>(c, v). is_ok (driver_value v)) cs \<Longrightarrow> rows s i = None \<Longrightarrow>
      tx_Exec tx (UpdateByID table (map fst cs)) (map snd cs @ [SqlText i]) s = (Inr (Inr 0), s)"
    and delete_row: "live s \<Longrightarrow> rows s i \<noteq> None \<Longrightarrow>
      fst (tx_Exec tx (DeleteByID table) [SqlText i] s) = Inr (Inr 1) \<and>
      rows (snd (tx_Exec tx (DeleteByID table) [SqlText i] s)) = (rows s)(i := None) \<and>
      live (snd (tx_Exec tx (DeleteByID table) [SqlText i] s))"
    and delete_none: "live s \<Longrightarrow> rows s i = None \<Longrightarrow> tx_Exec tx (DeleteByID table) [SqlText i] s = (Inr (Inr 0), s)"

section \<open>Converters\<close>

definition read_row :: "'e pg_store \<Rightarrow> sql_row \<Rightarrow> go_error + 'e" where
  "read_row p r = recordToEntity p (buildRecordFromScan (columnNames p) (map r (columnNames p)))"

text \<open>The row that an entity becomes, given the row that was there.\<close>

definition write_row :: "'e pg_store \<Rightarrow> db_record \<Rightarrow> sql_row \<Rightarrow> sql_row" where
  "write_row p dbr r = set_row (map (\<lambda>(c, v). (c, plain v)) (record_columns (columnNames p) dbr)) r"

definition writable :: "'e pg_store \<Rightarrow> 'e \<Rightarrow> db_record \<Rightarrow> bool" where
  "writable p e dbr \<longleftrightarrow> entityToRecord p e = Inr dbr \<and> lookup dbr ''id'' = Some (SqlText (entity_id p e)) \<and>
     list_all (\<lambda>(c, v). is_ok (driver_value v)) (record_columns (columnNames p) dbr)"

text \<open>Writing an entity and reading the row gives the entity; a full one writes every column.\<close>

definition codec_ok :: "'e pg_store \<Rightarrow> ('e \<Rightarrow> bool) \<Rightarrow> ('e \<Rightarrow> bool) \<Rightarrow> bool" where
  "codec_ok p valid full \<longleftrightarrow>
     ''id'' \<in> set (columnNames p) \<and> (\<exists>c \<in> set (columnNames p). c \<noteq> ''id'') \<and>
     (\<forall>e. valid e \<longrightarrow> (\<exists>dbr. writable p e dbr \<and> read_row p (write_row p dbr null_row) = Inr e \<and>
        (full e \<longrightarrow> set (columnNames p) \<subseteq> set (keys dbr))))"

lemma lookup_record_columns:
  "lookup (record_columns cs dbr) c = (if c \<in> set cs then lookup dbr c else None)"
  by (induction cs) (auto simp: record_columns_def List.map_filter_simps split: option.split)

lemma keys_record_columns: "set (map fst (record_columns cs dbr)) \<subseteq> set cs"
  by (auto simp: record_columns_def List.map_filter_def)

lemma lookup_map_plain: "lookup (map (\<lambda>(c, v). (c, f v)) cs) c = map_option f (lookup cs c)"
  by (induction cs) auto

lemma write_row_at:
  "write_row p dbr r c =
     (if c \<in> set (columnNames p) then (case lookup dbr c of Some v \<Rightarrow> plain v | None \<Rightarrow> r c) else r c)"
  by (simp add: write_row_def set_row_def lookup_map_plain lookup_record_columns split: option.split)

lemma lookup_scan:
  "lookup (buildRecordFromScan cs (map r cs)) c = (if c \<in> set cs then Some (r c) else None)"
proof -
  have "lookup (fold (\<lambda>(colName, val). put colName val) (zip cs (map r cs)) m) c =
      (if c \<in> set cs then Some (r c) else lookup m c)" for m
    by (induction cs arbitrary: m) (auto simp: lookup_put)
  then show ?thesis by (simp add: buildRecordFromScan_def)
qed

lemma read_row_cong: "(\<And>c. c \<in> set (columnNames p) \<Longrightarrow> r c = r' c) \<Longrightarrow> read_row p r = read_row p r'"
proof -
  assume "\<And>c. c \<in> set (columnNames p) \<Longrightarrow> r c = r' c"
  then have "map r (columnNames p) = map r' (columnNames p)" by simp
  then show ?thesis by (simp only: read_row_def)
qed

section \<open>The store over a table\<close>

locale sql_entity_store = sql_table tx table cols rows live
  for tx :: "'s sql_tx" and table cols rows live +
  fixes p :: "'e pg_store"
    and valid :: "'e \<Rightarrow> bool"
    and full :: "'e \<Rightarrow> bool"
  assumes names: "tableName p = table" "columnNames p = cols"
    and codec: "codec_ok p valid full"
begin

definition contents :: "'s \<Rightarrow> string \<Rightarrow> 'e option" where
  "contents s i = (case rows s i of None \<Rightarrow> None | Some r \<Rightarrow> (case read_row p r of Inr e \<Rightarrow> Some e | Inl err \<Rightarrow> None))"

definition readable :: "'s \<Rightarrow> bool" where
  "readable s \<longleftrightarrow> live s \<and> (\<forall>i r. rows s i = Some r \<longrightarrow> r ''id'' = SqlText i \<and> is_ok (read_row p r))"

lemma contents_None: "readable s \<Longrightarrow> contents s i = None \<longleftrightarrow> rows s i = None"
  by (auto simp: contents_def readable_def is_ok_def split: option.split sum.splits)

lemma contents_Some: "readable s \<Longrightarrow> rows s i = Some r \<Longrightarrow> \<exists>e. read_row p r = Inr e \<and> contents s i = Some e"
  by (auto simp: contents_def readable_def is_ok_def split: sum.splits)

lemma codec_record:
  assumes "valid e"
  obtains dbr where "writable p e dbr" "read_row p (write_row p dbr null_row) = Inr e"
    "full e \<Longrightarrow> set (columnNames p) \<subseteq> set (keys dbr)"
  using codec assms unfolding codec_ok_def by blast

lemma find:
  assumes "readable s"
  shows "fst (sql_findByID p (Some tx) i lockClause s) = (case contents s i of None \<Rightarrow> Inl ErrNotFound | Some e \<Rightarrow> Inr e)"
proof (cases "rows s i")
  case None
  then show ?thesis using assms contents_None [OF assms, of i] select_row [of s lockClause i]
    by (simp add: sql_findByID_def getTxFromContext_def names readable_def errors_Is_def ErrNoRows_def)
next
  case (Some r)
  then obtain e where "read_row p r = Inr e" "contents s i = Some e" using contents_Some [OF assms] by blast
  then show ?thesis using assms Some select_row [of s lockClause i]
    by (simp add: sql_findByID_def getTxFromContext_def names readable_def read_row_def)
qed

lemma create:
  assumes "readable s" "valid e" "contents s (entity_id p e) = None"
  shows "fst (sql_Create p (Some tx) e s) = Inr e \<and>
    contents (snd (sql_Create p (Some tx) e s)) = (contents s)(entity_id p e \<mapsto> e) \<and> readable (snd (sql_Create p (Some tx) e s))"
proof -
  obtain dbr where dbr: "writable p e dbr" "read_row p (write_row p dbr null_row) = Inr e"
    using codec_record [OF assms(2)] by metis
  let ?cs = "record_columns cols dbr" and ?row = "write_row p dbr null_row"
  let ?r = "tx_QueryRow tx (InsertReturning table (map fst ?cs) cols) (map snd ?cs) s"
  have "lookup ?cs ''id'' = Some (SqlText (entity_id p e))"
    using dbr(1) codec by (simp add: writable_def lookup_record_columns codec_ok_def names)
  then have ins: "fst ?r = Inr (map ?row cols)" "rows (snd ?r) = (rows s)(entity_id p e \<mapsto> ?row)" "live (snd ?r)"
    using insert_row [of s ?cs "entity_id p e" ?row] assms keys_record_columns [of cols dbr] dbr(1)
      contents_None [OF assms(1), of "entity_id p e"]
    by (simp_all add: readable_def writable_def write_row_def names)
  have c: "sql_Create p (Some tx) e s = (Inr e, snd ?r)"
    using dbr ins(1) by (cases ?r) (simp add: sql_Create_def getTxFromContext_def writable_def names read_row_def)
  have "?row ''id'' = SqlText (entity_id p e)"
    using dbr(1) codec by (simp add: write_row_at writable_def codec_ok_def plain_def driver_value_def)
  then have "readable (snd ?r)" using ins assms(1) dbr(2) by (simp add: readable_def)
  moreover have "contents (snd ?r) = (contents s)(entity_id p e \<mapsto> e)"
    by (rule ext) (simp add: contents_def ins(2) dbr(2))
  ultimately show ?thesis by (simp add: c)
qed

lemma create_taken_rows:
  assumes "readable s" "contents s i \<noteq> None"
  shows "rows s i \<noteq> None"
  using contents_None [OF assms(1), of i] assms(2) by simp

lemma update_columns:
  assumes "readable s" "valid e" "full e"
  obtains dbr cs where "writable p e dbr" "cs = record_columns (filter (\<lambda>c. c \<noteq> ''id'') cols) dbr"
    "cs \<noteq> []" "read_row p (write_row p dbr null_row) = Inr e" "set cols \<subseteq> set (keys dbr)"
    "list_all (\<lambda>(c, v). is_ok (driver_value v)) cs"
proof -
  obtain dbr where dbr: "writable p e dbr" "read_row p (write_row p dbr null_row) = Inr e"
    "set cols \<subseteq> set (keys dbr)"
    using codec_record [OF assms(2)] assms(3) names(2) by metis
  obtain c where c: "c \<in> set cols" "c \<noteq> ''id''" using codec names(2) by (auto simp: codec_ok_def)
  let ?cs = "record_columns (filter (\<lambda>c. c \<noteq> ''id'') cols) dbr"
  have "lookup dbr c \<noteq> None" using dbr(3) c(1) by (auto simp: map_of_eq_None_iff)
  then have "lookup ?cs c \<noteq> None" using c by (simp add: lookup_record_columns)
  then have "?cs \<noteq> []" by auto
  moreover have "set ?cs \<subseteq> set (record_columns cols dbr)"
    by (auto simp: record_columns_def List.map_filter_def)
  then have "list_all (\<lambda>(c, v). is_ok (driver_value v)) ?cs"
    using dbr(1) by (auto simp: writable_def list_all_iff names)
  ultimately show ?thesis using dbr that by blast
qed

lemma update:
  assumes "readable s" "valid e" "full e" "contents s (entity_id p e) \<noteq> None"
  shows "fst (sql_Update p (Some tx) e s) = None \<and>
    contents (snd (sql_Update p (Some tx) e s)) = (contents s)(entity_id p e \<mapsto> e) \<and> readable (snd (sql_Update p (Some tx) e s))"
proof -
  obtain dbr cs where cs: "writable p e dbr" "cs = record_columns (filter (\<lambda>c. c \<noteq> ''id'') cols) dbr"
    "cs \<noteq> []" "read_row p (write_row p dbr null_row) = Inr e" "set cols \<subseteq> set (keys dbr)"
    "list_all (\<lambda>(c, v). is_ok (driver_value v)) cs"
    using update_columns [OF assms(1-3)] by metis
  obtain old where old: "rows s (entity_id p e) = Some old" "old ''id'' = SqlText (entity_id p e)"
    using create_taken_rows [OF assms(1,4)] assms(1) by (auto simp: readable_def)
  let ?row = "set_row (map (\<lambda>(c, v). (c, plain v)) cs) old"
  let ?r = "tx_Exec tx (UpdateByID table (map fst cs)) (map snd cs @ [SqlText (entity_id p e)]) s"
  have keys: "set (map fst cs) \<subseteq> set cols - {''id''}"
    using keys_record_columns [of "filter (\<lambda>c. c \<noteq> ''id'') cols" dbr] by (auto simp: cs(2))
  have upd: "fst ?r = Inr (Inr 1)" "rows (snd ?r) = (rows s)(entity_id p e \<mapsto> ?row)" "live (snd ?r)"
    using update_row [OF _ keys cs(6) old(1) refl] assms(1) by (simp_all add: readable_def)
  have c: "sql_Update p (Some tx) e s = (None, snd ?r)"
    using cs(1,3) upd(1) by (cases ?r) (simp add: sql_Update_def getTxFromContext_def writable_def names cs(2) [symmetric] affected_def Let_def)
  have same: "?row c = write_row p dbr null_row c" if "c \<in> set cols" for c
  proof (cases "c = ''id''")
    case True
    then show ?thesis using that cs(1) old(2)
      by (simp add: cs(2) set_row_def lookup_map_plain lookup_record_columns write_row_at names writable_def plain_def driver_value_def)
  next
    case False
    have "lookup dbr c \<noteq> None" using cs(5) that by (auto simp: map_of_eq_None_iff)
    then show ?thesis using that False
      by (auto simp: cs(2) set_row_def lookup_map_plain lookup_record_columns write_row_at names)
  qed
  have "read_row p ?row = Inr e"
    using read_row_cong [of p ?row "write_row p dbr null_row"] same cs(4) names(2) by simp
  moreover have "?row ''id'' = SqlText (entity_id p e)"
    using old(2) by (simp add: cs(2) set_row_def lookup_map_plain lookup_record_columns)
  ultimately have "readable (snd ?r)" "contents (snd ?r) i = ((contents s)(entity_id p e \<mapsto> e)) i" for i
    using upd assms(1) by (simp_all add: readable_def contents_def)
  with c show ?thesis by (simp add: ext)
qed

lemma update_missing:
  assumes "readable s" "valid e" "full e" "contents s (entity_id p e) = None"
  shows "sql_Update p (Some tx) e s = (Some ErrNotFound, s)"
proof -
  obtain dbr cs where cs: "writable p e dbr" "cs = record_columns (filter (\<lambda>c. c \<noteq> ''id'') cols) dbr"
    "cs \<noteq> []" "list_all (\<lambda>(c, v). is_ok (driver_value v)) cs"
    using update_columns [OF assms(1-3)] by metis
  have "tx_Exec tx (UpdateByID table (map fst cs)) (map snd cs @ [SqlText (entity_id p e)]) s = (Inr (Inr 0), s)"
    using update_none [OF _ cs(4)] assms(1,4) contents_None [OF assms(1), of "entity_id p e"] by (simp add: readable_def)
  then show ?thesis using cs(1,3)
    by (simp add: sql_Update_def getTxFromContext_def writable_def names cs(2) [symmetric] affected_def Let_def)
qed

lemma delete:
  assumes "readable s" "contents s i \<noteq> None"
  shows "fst (sql_Delete p (Some tx) i s) = None \<and> contents (snd (sql_Delete p (Some tx) i s)) = (contents s)(i := None) \<and>
    readable (snd (sql_Delete p (Some tx) i s))"
proof -
  let ?r = "tx_Exec tx (DeleteByID table) [SqlText i] s"
  have del: "fst ?r = Inr (Inr 1)" "rows (snd ?r) = (rows s)(i := None)" "live (snd ?r)"
    using delete_row [of s i] create_taken_rows [OF assms] assms(1) by (auto simp: readable_def)
  have c: "sql_Delete p (Some tx) i s = (None, snd ?r)"
    using del(1) by (cases ?r) (simp add: sql_Delete_def getTxFromContext_def names affected_def)
  have "contents (snd ?r) j = ((contents s)(i := None)) j" for j using del(2) by (simp add: contents_def)
  moreover have "readable (snd ?r)" using del assms(1) by (simp add: readable_def)
  ultimately show ?thesis by (simp add: c ext)
qed

lemma delete_missing:
  assumes "readable s" "contents s i = None"
  shows "sql_Delete p (Some tx) i s = (Some ErrNotFound, s)"
  using assms delete_none [of s i] contents_None [OF assms(1), of i]
  by (simp add: sql_Delete_def getTxFromContext_def names affected_def readable_def)

text \<open>The store keeps the contract of an entity store, except for the error of a creation that fails.\<close>

end

sublocale sql_entity_store \<subseteq> entities: basic_entity_store "\<lambda>eid s. fst (sql_FindByID p (Some tx) eid s)"
    "sql_Create p (Some tx)" "sql_Update p (Some tx)" "sql_Delete p (Some tx)" "entity_id p" "\<lambda>e. e" valid full contents readable
  by unfold_locales (simp_all add: sql_FindByID_def find create update update_missing delete delete_missing)

section \<open>A table in memory\<close>

record sql_table_state =
  tbl_rows :: "(string, sql_row) gomap"
  tbl_aborted :: bool

definition sql_error :: "string \<Rightarrow> go_error" where "sql_error txt = ErrorString (''pq: '' @ txt)"

definition aborted_error :: go_error where
  "aborted_error = sql_error ''current transaction is aborted, commands ignored until end of transaction block''"

definition duplicate_key :: go_error where
  "duplicate_key = sql_error ''duplicate key value violates unique constraint''"

fun stmt_table :: "sql_stmt \<Rightarrow> string" where
  "stmt_table (SelectByID cs t lockClause) = t"
| "stmt_table (SelectExists t) = t"
| "stmt_table (InsertReturning t cs returning) = t"
| "stmt_table (UpdateByID t cs) = t"
| "stmt_table (DeleteByID t) = t"
| "stmt_table (SelectRows cs t w pg) = t"
| "stmt_table (SelectCount t w) = t"
| "stmt_table (DeleteRows t w) = t"

type_synonym where_meaning = "string \<Rightarrow> sql_value list \<Rightarrow> sql_row \<Rightarrow> bool"

definition matching :: "where_meaning \<Rightarrow> string \<Rightarrow> sql_value list \<Rightarrow> (string, sql_row) gomap \<Rightarrow> (string, sql_row) gomap" where
  "matching holds w args m = filter (\<lambda>(i, r). w = [] \<or> holds w args r) m"

fun row_result ::
    "where_meaning \<Rightarrow> sql_stmt \<Rightarrow> sql_value list \<Rightarrow> (string, sql_row) gomap \<Rightarrow>
     (go_error + sql_value list) \<times> (string, sql_row) gomap" where
  "row_result holds (SelectByID cs t lockClause) [SqlText i] m =
     ((case lookup m i of None \<Rightarrow> Inl ErrNoRows | Some r \<Rightarrow> Inr (map r cs)), m)"
| "row_result holds (SelectExists t) [SqlText i] m = (Inr [SqlBool (lookup m i \<noteq> None)], m)"
| "row_result holds (InsertReturning t cs returning) args m =
     (case lookup (zip cs args) ''id'' of
        Some (SqlText i) \<Rightarrow>
          if has_key m i then (Inl duplicate_key, m)
          else (let r = set_row (zip cs args) null_row in (Inr (map r returning), put i r m))
      | _ \<Rightarrow> (Inl (sql_error ''null value violates not-null constraint''), m))"
| "row_result holds (SelectCount t w) args m = (Inr [SqlInt (int (length (matching holds w args m)))], m)"
| "row_result holds st args m = (Inl (sql_error ''unexpected statement''), m)"

fun exec_result ::
    "where_meaning \<Rightarrow> sql_stmt \<Rightarrow> sql_value list \<Rightarrow> (string, sql_row) gomap \<Rightarrow>
     (go_error + (go_error + int)) \<times> (string, sql_row) gomap" where
  "exec_result holds (UpdateByID t cs) args m =
     (case last args of
        SqlText i \<Rightarrow>
          (case lookup m i of
             None \<Rightarrow> (Inr (Inr 0), m)
           | Some r \<Rightarrow> (Inr (Inr 1), put i (set_row (zip cs (butlast args)) r) m))
      | _ \<Rightarrow> (Inr (Inr 0), m))"
| "exec_result holds (DeleteByID t) [SqlText i] m =
     (if has_key m i then (Inr (Inr 1), del i m) else (Inr (Inr 0), m))"
| "exec_result holds (DeleteRows t w) args m =
     (Inr (Inr (int (length (matching holds w args m)))), filter (\<lambda>(i, r). \<not> (w = [] \<or> holds w args r)) m)"
| "exec_result holds st args m = (Inl (sql_error ''unexpected statement''), m)"

fun page_rows :: "where_meaning \<Rightarrow> sql_stmt \<Rightarrow> sql_value list \<Rightarrow> (string, sql_row) gomap \<Rightarrow> go_error + sql_value list list" where
  "page_rows holds (SelectRows cs t w pg) args m =
     (let found = (\<lambda>n. matching holds w (take n args) m); ordered = (\<lambda>n. sort_key fst (found n));
          columns = map (\<lambda>(i, r). map r cs)
      in case (pg, case pg of AllRows \<Rightarrow> [] | PageLimit n \<Rightarrow> drop n args | PageFrom n \<Rightarrow> drop n args) of
          (AllRows, _) \<Rightarrow> Inr (columns (found (length args)))
        | (PageLimit n, [SqlInt l, SqlInt k]) \<Rightarrow>
            (if k < 0 then Inl (sql_error ''OFFSET must not be negative'')
             else Inr (columns (take (nat l) (drop (nat k) (ordered n)))))
        | (PageFrom n, [SqlInt k]) \<Rightarrow> Inr (columns (drop (nat k) (ordered n)))
        | _ \<Rightarrow> Inl (sql_error ''unexpected statement''))"
| "page_rows holds st args m = Inl (sql_error ''unexpected statement'')"

text \<open>Arguments are converted before anything is sent; an error of the database aborts the transaction.\<close>

definition guarded ::
    "string \<Rightarrow> sql_stmt \<Rightarrow> sql_value list \<Rightarrow>
     (sql_value list \<Rightarrow> (string, sql_row) gomap \<Rightarrow> (go_error + 'a) \<times> (string, sql_row) gomap) \<Rightarrow>
     sql_table_state \<Rightarrow> (go_error + 'a) \<times> sql_table_state" where
  "guarded table st args run s =
     (case driver_args args of
        Inl err \<Rightarrow> (Inl (wrapped ''sql: converting argument type'' err), s)
      | Inr args \<Rightarrow>
          if tbl_aborted s then (Inl aborted_error, s)
          else if stmt_table st \<noteq> table then (Inl (sql_error ''relation does not exist''), s\<lparr>tbl_aborted := True\<rparr>)
          else (case run args (tbl_rows s) of
              (Inl err, m) \<Rightarrow> (Inl err, s\<lparr>tbl_aborted := err \<noteq> ErrNoRows\<rparr>)
            | (Inr a, m) \<Rightarrow> (Inr a, s\<lparr>tbl_rows := m\<rparr>)))"

definition table_tx :: "where_meaning \<Rightarrow> string \<Rightarrow> sql_table_state sql_tx" where
  "table_tx holds table =
     \<lparr>tx_QueryRow = \<lambda>st args s. guarded table st args (row_result holds st) s,
      tx_Exec = \<lambda>st args s. guarded table st args (exec_result holds st) s,
      tx_Query = \<lambda>st args s. guarded table st args
        (\<lambda>args m. (map_sum (\<lambda>err. err) (\<lambda>rows. (map Inr rows, None)) (page_rows holds st args m), m)) s\<rparr>"

lemma driver_args_ok: "list_all (\<lambda>(c, v). is_ok (driver_value v)) cs \<Longrightarrow> driver_args (map snd cs) = Inr (map (\<lambda>(c, v). plain v) cs)"
  by (auto simp: driver_args_Inr list_all_iff)

lemma driver_args_append: "driver_args (vs @ ws) = bind_result (driver_args vs) (\<lambda>xs. bind_result (driver_args ws) (\<lambda>ys. Inr (xs @ ys)))"
proof (induction vs)
  case Nil
  show ?case by (cases "driver_args ws") simp_all
next
  case (Cons v vs)
  show ?case using Cons
    by (cases "driver_value v"; cases "driver_args vs"; cases "driver_args ws") simp_all
qed

lemma driver_text [simp]: "driver_value (SqlText i) = Inr (SqlText i)"
  by (simp add: driver_value_def)

lemma plain_text [simp]: "plain (SqlText i) = SqlText i"
  by (simp add: plain_def)

lemma zip_plain: "zip (map fst cs) (map (\<lambda>(c, v). plain v) cs) = map (\<lambda>(c, v). (c, plain v)) cs"
  by (induction cs) auto

lemma table_tx_laws: "sql_table (table_tx holds table) table cols (\<lambda>s. lookup (tbl_rows s)) (\<lambda>s. \<not> tbl_aborted s)"
proof
  fix s :: sql_table_state and cs :: "(string \<times> sql_value) list" and i row old
  assume s: "\<not> tbl_aborted s" and ok: "list_all (\<lambda>(c, v). is_ok (driver_value v)) cs"
  note args = driver_args_ok [OF ok]
  let ?r = "tx_QueryRow (table_tx holds table) (InsertReturning table (map fst cs) cols) (map snd cs) s"
  show "fst ?r = Inr (map row cols) \<and> lookup (tbl_rows (snd ?r)) = (lookup (tbl_rows s))(i \<mapsto> row) \<and> \<not> tbl_aborted (snd ?r)"
    if "set (map fst cs) \<subseteq> set cols" "lookup cs ''id'' = Some (SqlText i)" "lookup (tbl_rows s) i = None"
      "row = set_row (map (\<lambda>(c, v). (c, plain v)) cs) null_row"
    using that s by (simp add: table_tx_def guarded_def args zip_plain lookup_map_plain has_key_def lookup_put Let_def fun_eq_iff)
  let ?u = "tx_Exec (table_tx holds table) (UpdateByID table (map fst cs)) (map snd cs @ [SqlText i]) s"
  show "fst ?u = Inr (Inr 1) \<and> lookup (tbl_rows (snd ?u)) = (lookup (tbl_rows s))(i \<mapsto> row) \<and> \<not> tbl_aborted (snd ?u)"
    if "set (map fst cs) \<subseteq> set cols - {''id''}" "lookup (tbl_rows s) i = Some old"
      "row = set_row (map (\<lambda>(c, v). (c, plain v)) cs) old"
    using that s by (simp add: table_tx_def guarded_def driver_args_append args zip_plain lookup_put fun_eq_iff)
  show "?u = (Inr (Inr 0), s)" if "lookup (tbl_rows s) i = None"
    using that s by (simp add: table_tx_def guarded_def driver_args_append args)
qed (auto simp: table_tx_def guarded_def has_key_def lookup_del ErrNoRows_def split: option.split)

lemma table_entity_store:
  assumes "codec_ok p valid full"
  shows "sql_entity_store (table_tx holds (tableName p)) (tableName p) (columnNames p) (\<lambda>s. lookup (tbl_rows s))
    (\<lambda>s. \<not> tbl_aborted s) p valid full"
  by (intro sql_entity_store.intro table_tx_laws sql_entity_store_axioms.intro assms refl)

section \<open>The store as a map\<close>

text \<open>
  The map that the store stands for in a transaction, \<open>None\<close> once the transaction is aborted. A
  creation of what exists fails with the error of the database, and so does everything after it.
\<close>

fun pg_op :: "'e pg_store \<Rightarrow> 's sql_tx \<Rightarrow> 'e store_op \<Rightarrow> 's \<Rightarrow> go_error option \<times> 's" where
  "pg_op p tx (SCreate e) s = (let (r, s) = sql_Create p (Some tx) e s in (error_of r, s))"
| "pg_op p tx (SUpdate e) s = sql_Update p (Some tx) e s"
| "pg_op p tx (SDelete i) s = sql_Delete p (Some tx) i s"

fun op_failure :: "'e store_op \<Rightarrow> go_error \<Rightarrow> go_error" where
  "op_failure (SCreate e) err = wrapped ''failed to create entity'' err"
| "op_failure (SUpdate e) err = wrapped ''failed to update entity'' err"
| "op_failure (SDelete i) err = wrapped ''failed to delete entity'' err"

fun pg_spec :: "'e pg_store \<Rightarrow> 'e store_op \<Rightarrow> (string \<Rightarrow> 'e option) option \<Rightarrow> go_error option \<times> (string \<Rightarrow> 'e option) option" where
  "pg_spec p x None = (Some (op_failure x aborted_error), None)"
| "pg_spec p (SCreate e) (Some m) =
     (if m (entity_id p e) \<noteq> None then (Some (wrapped ''failed to create entity'' duplicate_key), None)
      else (None, Some (m(entity_id p e \<mapsto> e))))"
| "pg_spec p (SUpdate e) (Some m) =
     (if m (entity_id p e) = None then (Some ErrNotFound, Some m) else (None, Some (m(entity_id p e \<mapsto> e))))"
| "pg_spec p (SDelete i) (Some m) =
     (if m i = None then (Some ErrNotFound, Some m) else (None, Some (m(i := None))))"

fun op_ok :: "('e \<Rightarrow> bool) \<Rightarrow> ('e \<Rightarrow> bool) \<Rightarrow> 'e store_op \<Rightarrow> bool" where
  "op_ok valid full (SCreate e) \<longleftrightarrow> valid e"
| "op_ok valid full (SUpdate e) \<longleftrightarrow> valid e \<and> full e"
| "op_ok valid full (SDelete i) \<longleftrightarrow> True"

definition table_contents :: "'e pg_store \<Rightarrow> sql_table_state \<Rightarrow> string \<Rightarrow> 'e option" where
  "table_contents p s i =
     (case lookup (tbl_rows s) i of None \<Rightarrow> None | Some r \<Rightarrow> (case read_row p r of Inr e \<Rightarrow> Some e | Inl err \<Rightarrow> None))"

definition table_readable :: "'e pg_store \<Rightarrow> sql_table_state \<Rightarrow> bool" where
  "table_readable p s \<longleftrightarrow> \<not> tbl_aborted s \<and>
     (\<forall>i r. lookup (tbl_rows s) i = Some r \<longrightarrow> r ''id'' = SqlText i \<and> is_ok (read_row p r))"

definition table_stands_for :: "'e pg_store \<Rightarrow> sql_table_state \<Rightarrow> (string \<Rightarrow> 'e option) option \<Rightarrow> bool" where
  "table_stands_for p s m \<longleftrightarrow>
     (case m of None \<Rightarrow> tbl_aborted s | Some m \<Rightarrow> table_readable p s \<and> table_contents p s = m)"

lemmas table_entity_facts = sql_entity_store.contents_def [OF table_entity_store] sql_entity_store.readable_def [OF table_entity_store]

lemma table_contents_eq:
  "codec_ok p valid full \<Longrightarrow>
     sql_entity_store.contents (\<lambda>s. lookup (tbl_rows s)) p = table_contents p \<and>
     sql_entity_store.readable (\<lambda>s. lookup (tbl_rows s)) (\<lambda>s. \<not> tbl_aborted s) p = table_readable p"
  by (auto simp: fun_eq_iff table_entity_facts table_contents_def table_readable_def)

lemma aborted_op:
  assumes "codec_ok p valid full" "tbl_aborted s" "op_ok valid full x"
  shows "pg_op p (table_tx holds (tableName p)) x s = (Some (op_failure x aborted_error), s)"
proof -
  note es = table_entity_store [OF assms(1), of holds]
  show ?thesis
  proof (cases x)
    case (SCreate e)
    then obtain dbr where "writable p e dbr"
      using assms(3) sql_entity_store.codec_record [OF es] by (metis op_ok.simps(1))
    then show ?thesis using assms(2) SCreate
      by (simp add: writable_def sql_Create_def getTxFromContext_def table_tx_def guarded_def driver_args_ok error_of_def Let_def)
  next
    case (SUpdate e)
    then obtain dbr where dbr: "writable p e dbr" "set (columnNames p) \<subseteq> set (keys dbr)"
      using assms(3) sql_entity_store.codec_record [OF es] by (metis op_ok.simps(2))
    let ?cs = "record_columns (filter (\<lambda>c. c \<noteq> ''id'') (columnNames p)) dbr"
    obtain c where "c \<in> set (columnNames p)" "c \<noteq> ''id''" using assms(1) by (auto simp: codec_ok_def)
    moreover from this have "lookup dbr c \<noteq> None" using dbr(2) by (auto simp: map_of_eq_None_iff)
    ultimately have "lookup ?cs c \<noteq> None" by (simp add: lookup_record_columns)
    then have "?cs \<noteq> []" by auto
    moreover have "set ?cs \<subseteq> set (record_columns (columnNames p) dbr)"
      by (auto simp: record_columns_def List.map_filter_def)
    then have "list_all (\<lambda>(c, v). is_ok (driver_value v)) ?cs"
      using dbr(1) by (auto simp: writable_def list_all_iff)
    ultimately show ?thesis using assms(2) SUpdate dbr(1)
      by (simp add: writable_def sql_Update_def getTxFromContext_def table_tx_def guarded_def driver_args_append driver_args_ok Let_def)
  next
    case (SDelete i)
    then show ?thesis using assms(2)
      by (simp add: sql_Delete_def getTxFromContext_def table_tx_def guarded_def)
  qed
qed

lemma create_taken:
  assumes "codec_ok p valid full" "table_readable p s" "valid e" "table_contents p s (entity_id p e) \<noteq> None"
  shows "fst (sql_Create p (Some (table_tx holds (tableName p))) e s) = Inl (wrapped ''failed to create entity'' duplicate_key) \<and>
    tbl_aborted (snd (sql_Create p (Some (table_tx holds (tableName p))) e s))"
proof -
  obtain dbr where dbr: "writable p e dbr"
    using assms(3) sql_entity_store.codec_record [OF table_entity_store [OF assms(1)]] by metis
  have "''id'' \<in> set (columnNames p)" using assms(1) by (simp add: codec_ok_def)
  moreover have "has_key (tbl_rows s) (entity_id p e)"
    using assms(4) by (auto simp: table_contents_def has_key_def split: option.splits)
  ultimately show ?thesis using assms(2) dbr
    by (simp add: writable_def table_readable_def sql_Create_def getTxFromContext_def table_tx_def guarded_def driver_args_ok
        zip_plain lookup_map_plain lookup_record_columns duplicate_key_def sql_error_def ErrNoRows_def Let_def)
qed

lemma pg_op_refines:
  assumes "codec_ok p valid full" "op_ok valid full x" "table_stands_for p s m"
  shows "fst (pg_op p (table_tx holds (tableName p)) x s) = fst (pg_spec p x m) \<and>
    table_stands_for p (snd (pg_op p (table_tx holds (tableName p)) x s)) (snd (pg_spec p x m))"
proof -
  note es = table_entity_store [OF assms(1), of holds]
  note eqs = table_contents_eq [OF assms(1)]
  note facts = sql_entity_store.create [OF es] sql_entity_store.update [OF es] sql_entity_store.update_missing [OF es]
    sql_entity_store.delete [OF es] sql_entity_store.delete_missing [OF es]
  note laws = facts [unfolded conjunct1 [OF eqs] conjunct2 [OF eqs]]
  show ?thesis
  proof (cases m)
    case None
    then show ?thesis using assms aborted_op [OF assms(1) _ assms(2), of s holds] by (simp add: table_stands_for_def)
  next
    case (Some m)
    then have s: "table_readable p s" "table_contents p s = m" using assms(3) by (simp_all add: table_stands_for_def)
    show ?thesis
    proof (cases x)
      case (SCreate e)
      then have v: "valid e" using assms(2) by simp
      show ?thesis
      proof (cases "m (entity_id p e) = None")
        case True
        then show ?thesis using laws(1) [OF s(1) v] s Some SCreate
          by (simp add: table_stands_for_def case_prod_beta' error_of_def)
      next
        case False
        then show ?thesis using create_taken [OF assms(1) s(1) v, of holds] s Some SCreate
          by (simp add: table_stands_for_def case_prod_beta' error_of_def)
      qed
    next
      case (SUpdate e)
      then have v: "valid e" "full e" using assms(2) by simp_all
      show ?thesis using laws(2,3) [OF s(1) v] s Some SUpdate
        by (cases "m (entity_id p e) = None") (simp_all add: table_stands_for_def)
    next
      case (SDelete i)
      show ?thesis using laws(4,5) [OF s(1), of i] s Some SDelete
        by (cases "m i = None") (simp_all add: table_stands_for_def)
    qed
  qed
qed

lemma run_pg_ops_refine:
  assumes "codec_ok p valid full" "list_all (op_ok valid full) xs" "table_stands_for p s m"
  shows "fst (run_ops (pg_op p (table_tx holds (tableName p))) xs s) = fst (run_ops (pg_spec p) xs m) \<and>
    table_stands_for p (snd (run_ops (pg_op p (table_tx holds (tableName p))) xs s)) (snd (run_ops (pg_spec p) xs m))"
  using assms(2,3)
proof (induction xs arbitrary: s m)
  case (Cons x xs)
  then have x: "op_ok valid full x" "list_all (op_ok valid full) xs" by simp_all
  note step = pg_op_refines [OF assms(1) x(1) Cons.prems(2), of holds]
  show ?case using step Cons.IH [OF x(2) step [THEN conjunct2]] by (simp add: case_prod_beta' Let_def)
qed simp

definition empty_table :: sql_table_state where "empty_table = \<lparr>tbl_rows = [], tbl_aborted = False\<rparr>"


section \<open>Queries\<close>

definition found_entities ::
    "'e pg_store \<Rightarrow> where_meaning \<Rightarrow> string \<times> sql_value list \<Rightarrow> sql_table_state \<Rightarrow> 'e list" where
  "found_entities p holds wa s =
     map (\<lambda>(i, r). projr (read_row p r)) (sort_key fst (matching holds (fst wa) (snd wa) (tbl_rows s)))"

lemma driver_params: "driver_args (map SqlParam vs) = Inr (map SqlParam vs)"
  by (induction vs) (simp_all add: driver_value_def)

lemma where_of_params: "where_of p q = Some (w, args) \<Longrightarrow> \<exists>vs. args = map SqlParam vs"
  by (auto simp: where_of_def split: option.splits)

lemma driver_int [simp]: "driver_value (SqlInt n) = Inr (SqlInt n)"
  by (simp add: driver_value_def)

lemma yield_readable:
  assumes "table_readable p s" "wf_map (tbl_rows s)" "set rs \<subseteq> set (tbl_rows s)"
  shows "map (\<lambda>row. yield_row p (Inr row)) (map (\<lambda>(i, r). map r (columnNames p)) rs) =
    map (\<lambda>(i, r). Inr (projr (read_row p r))) rs"
proof -
  have "yield_row p (Inr (map r (columnNames p))) = Inr (projr (read_row p r))" if "(i, r) \<in> set rs" for i r
  proof -
    have "lookup (tbl_rows s) i = Some r" using assms(2,3) that by (auto simp: wf_map_def)
    then have "is_ok (read_row p r)" using assms(1) by (simp add: table_readable_def)
    then show ?thesis by (cases "read_row p r") (simp_all add: yield_row_def read_row_def)
  qed
  then show ?thesis by auto
qed

lemma found_subset: "set (take n (drop k (sort_key fst (matching holds w args m)))) \<subseteq> set m"
  by (auto simp: matching_def dest!: in_set_takeD in_set_dropD)

lemma page_yields:
  assumes "table_readable p s" "wf_map (tbl_rows s)" "where_of p q = Some (w, args)" "0 < pg_Limit opts" "0 \<le> pg_Offset opts"
  shows "sql_queryEntities p (Some (table_tx holds (tableName p))) q (Some opts) s =
    (Returns (map Inr (take (nat (pg_Limit opts)) (drop (nat (pg_Offset opts)) (found_entities p holds (w, args) s)))), s)"
proof -
  obtain vs where vs: "args = map SqlParam vs" using where_of_params [OF assms(3)] by blast
  note y = yield_readable [OF assms(1,2) found_subset [of "nat (pg_Limit opts)" "nat (pg_Offset opts)" holds w args]]
  show ?thesis using assms y
    by (simp add: sql_queryEntities_def getTxFromContext_def page_of_def table_tx_def guarded_def driver_args_append
        driver_params vs table_readable_def yield_rows_def found_entities_def take_map drop_map comp_def case_prod_beta' Let_def)
qed

text \<open>
  Queries in a transaction on a table: a page is the slice of the matching entities that its
  offset and limit name, in the order of the IDs, so that the pages of a query partition its result;
  the first match is the one with the least ID, and missing when nothing matches; the count is the
  number of the matching entities; and none of them changes the table. A predicate whose list is not
  a list panics in all of them before anything is sent.
\<close>

theorem PostgresEntityStore_queries:
  assumes "table_readable p s" and "wf_map (tbl_rows s)" and "0 < pg_Limit opts" and "0 \<le> pg_Offset opts"
  shows "case where_of p q of
      None \<Rightarrow> sql_queryEntities p (Some (table_tx holds (tableName p))) q (Some opts) s = (Panics ''interface conversion'', s) \<and>
        sql_CountByPredicate p (Some (table_tx holds (tableName p))) q s = (Panics ''interface conversion'', s)
    | Some wa \<Rightarrow>
        sql_queryEntities p (Some (table_tx holds (tableName p))) q (Some opts) s =
          (Returns (map Inr (take (nat (pg_Limit opts)) (drop (nat (pg_Offset opts)) (found_entities p holds wa s)))), s) \<and>
        sql_FindFirstByPredicate p (Some (table_tx holds (tableName p))) q s =
          (case found_entities p holds wa s of [] \<Rightarrow> Fails ErrNotFound | e # _ \<Rightarrow> Returns e, s) \<and>
        sql_CountByPredicate p (Some (table_tx holds (tableName p))) q s = (Returns (int (length (found_entities p holds wa s))), s)"
proof (cases "where_of p q")
  case None
  then show ?thesis by (simp add: sql_queryEntities_def sql_CountByPredicate_def getTxFromContext_def)
next
  case (Some wa)
  obtain w args where wa: "wa = (w, args)" by (cases wa)
  note page = page_yields [OF assms(1,2) Some [unfolded wa]]
  have first: "sql_FindFirstByPredicate p (Some (table_tx holds (tableName p))) q s =
      (case found_entities p holds wa s of [] \<Rightarrow> Fails ErrNotFound | e # _ \<Rightarrow> Returns e, s)"
    using page [of "\<lparr>pg_Offset = 0, pg_Limit = 1\<rparr>" holds]
    by (cases "found_entities p holds wa s") (simp_all add: sql_FindFirstByPredicate_def wa)
  obtain vs where vs: "args = map SqlParam vs" using where_of_params [OF Some [unfolded wa]] by blast
  have cnt: "sql_CountByPredicate p (Some (table_tx holds (tableName p))) q s = (Returns (int (length (found_entities p holds wa s))), s)"
    using assms(1) Some
    by (simp add: wa sql_CountByPredicate_def getTxFromContext_def table_tx_def guarded_def vs driver_params table_readable_def
        found_entities_def scan_int_def)
  show ?thesis using page [OF assms(3,4), of holds] first cnt Some by (simp add: wa)
qed

end
