(* ===== verification/Json_Codec.thy ===== *)
theory Json_Codec
  imports Query
begin

text \<open>
  What the sources use of \<open>encoding/json\<close> to read a value into a variable of a Go type that holds its zero
  value, on the JSON values of \<open>Model\<close>. A null leaves the variable as it is; the names of the
  fields of a struct are matched regardless of case, the last occurrence wins, and unknown names
  are ignored. The text of a type error is its beginning.
\<close>

section \<open>Decoding\<close>

definition json_kind :: "json \<Rightarrow> string" where
  "json_kind j = (case j of JNull \<Rightarrow> ''null'' | JBool b \<Rightarrow> ''bool'' | JNum n \<Rightarrow> ''number'' | JStr s \<Rightarrow> ''string''
     | JArr xs \<Rightarrow> ''array'' | JObj m \<Rightarrow> ''object'')"

definition unmarshal_error :: "json \<Rightarrow> go_error" where
  "unmarshal_error j = ErrorString (''json: cannot unmarshal '' @ json_kind j)"

definition dec_string :: "json \<Rightarrow> go_error + string" where
  "dec_string j = (case j of JNull \<Rightarrow> Inr [] | JStr s \<Rightarrow> Inr s | _ \<Rightarrow> Inl (unmarshal_error j))"

definition dec_int :: "json \<Rightarrow> go_error + int" where
  "dec_int j = (case j of JNull \<Rightarrow> Inr 0 | JNum n \<Rightarrow> Inr n | _ \<Rightarrow> Inl (unmarshal_error j))"

definition dec_bool :: "json \<Rightarrow> go_error + bool" where
  "dec_bool j = (case j of JNull \<Rightarrow> Inr False | JBool b \<Rightarrow> Inr b | _ \<Rightarrow> Inl (unmarshal_error j))"

fun dec_all :: "('j \<Rightarrow> go_error + 'a) \<Rightarrow> 'j list \<Rightarrow> go_error + 'a list" where
  "dec_all f [] = Inr []"
| "dec_all f (j # js) = bind_result (f j) (\<lambda>x. bind_result (dec_all f js) (\<lambda>xs. Inr (x # xs)))"

definition dec_list :: "(json \<Rightarrow> go_error + 'a) \<Rightarrow> json \<Rightarrow> go_error + 'a list" where
  "dec_list f j = (case j of JNull \<Rightarrow> Inr [] | JArr js \<Rightarrow> dec_all f js | _ \<Rightarrow> Inl (unmarshal_error j))"

definition dec_map :: "(json \<Rightarrow> go_error + 'a) \<Rightarrow> json \<Rightarrow> go_error + (string, 'a) gomap" where
  "dec_map f j =
     (case j of JNull \<Rightarrow> Inr []
      | JObj m \<Rightarrow> bind_result (dec_all (\<lambda>(k, j). bind_result (f j) (\<lambda>x. Inr (k, x))) m) (\<lambda>m. Inr (copy_into m []))
      | _ \<Rightarrow> Inl (unmarshal_error j))"

definition dec_props :: "json \<Rightarrow> go_error + props option" where
  "dec_props j = (case j of JNull \<Rightarrow> Inr None | JObj m \<Rightarrow> Inr (Some (copy_into m [])) | _ \<Rightarrow> Inl (unmarshal_error j))"

definition dec_properties :: "json \<Rightarrow> go_error + props" where
  "dec_properties j = bind_result (dec_props j) (\<lambda>p. Inr (case p of None \<Rightarrow> [] | Some m \<Rightarrow> m))"

definition dec_object :: "json \<Rightarrow> go_error + props" where
  "dec_object j = (case j of JNull \<Rightarrow> Inr [] | JObj m \<Rightarrow> Inr m | _ \<Rightarrow> Inl (unmarshal_error j))"

definition json_field :: "(string \<times> json) list \<Rightarrow> string \<Rightarrow> json" where
  "json_field m name = (case find (\<lambda>(k, j). EqualFold k name) (rev m) of Some (k, j) \<Rightarrow> j | None \<Rightarrow> JNull)"

section \<open>Encoding\<close>

definition enc_list :: "('a \<Rightarrow> json) \<Rightarrow> 'a list \<Rightarrow> json" where
  "enc_list f xs = JArr (map f xs)"

definition enc_map :: "('a \<Rightarrow> json) \<Rightarrow> (string, 'a) gomap \<Rightarrow> json" where
  "enc_map f m = JObj (map (\<lambda>(k, x). (k, f x)) m)"

definition enc_strings :: "string list \<Rightarrow> json" where "enc_strings = enc_list JStr"

definition dec_strings :: "json \<Rightarrow> go_error + string list" where "dec_strings = dec_list dec_string"

section \<open>Decoding what was encoded\<close>

lemma copy_into_fresh: "wf_map (into @ m) \<Longrightarrow> copy_into m into = into @ m"
proof (induction m into rule: copy_into.induct)
  case (2 k v m into)
  then have "k \<notin> fst ` set into" by (auto simp: wf_map_def)
  then have p: "put k v into = into @ [(k, v)]" by (rule keys_put_absent)
  have "wf_map (put k v into @ m)" unfolding p using 2(2) by simp
  from 2(1) [OF this] show ?case by (simp add: p)
qed simp

lemma copy_into_Nil [simp]: "wf_map m \<Longrightarrow> copy_into m [] = m"
  using copy_into_fresh [of "[]" m] by simp

lemma dec_all_map: "(\<And>x. x \<in> set xs \<Longrightarrow> f (g x) = Inr (h x)) \<Longrightarrow> dec_all f (map g xs) = Inr (map h xs)"
  by (induction xs) simp_all

lemma dec_list_enc: "(\<And>x. x \<in> set xs \<Longrightarrow> f (g x) = Inr x) \<Longrightarrow> dec_list f (enc_list g xs) = Inr xs"
  using dec_all_map [of xs f g "\<lambda>x. x"] by (simp add: dec_list_def enc_list_def)

lemma dec_map_enc:
  assumes "wf_map m" "\<And>k x. (k, x) \<in> set m \<Longrightarrow> f (g x) = Inr x"
  shows "dec_map f (enc_map g m) = Inr m"
proof -
  have "dec_all (\<lambda>(k, j). bind_result (f j) (\<lambda>x. Inr (k, x))) (map (\<lambda>(k, x). (k, g x)) m) = Inr (map (\<lambda>x. x) m)"
    by (rule dec_all_map) (use assms(2) in auto)
  then show ?thesis using assms(1) by (simp add: dec_map_def enc_map_def)
qed

lemma dec_simps [simp, go_simps]:
  "dec_string (JStr s) = Inr s" "dec_int (JNum n) = Inr n" "dec_bool (JBool b) = Inr b"
  "dec_string JNull = Inr []" "dec_int JNull = Inr 0" "dec_bool JNull = Inr False" "dec_list f JNull = Inr []"
  "dec_props JNull = Inr None" "dec_properties JNull = Inr []"
  "dec_strings (enc_strings ss) = Inr ss" "dec_object (JObj m) = Inr m"
  "wf_map m \<Longrightarrow> dec_props (JObj m) = Inr (Some m)" "wf_map m \<Longrightarrow> dec_properties (JObj m) = Inr m"
  by (simp_all add: dec_string_def dec_int_def dec_bool_def dec_strings_def enc_strings_def dec_list_enc dec_list_def [of _ JNull]
      dec_object_def dec_props_def dec_properties_def)

lemma find_app: "find P (xs @ ys) = (case find P xs of None \<Rightarrow> find P ys | Some x \<Rightarrow> Some x)"
  by (induction xs) simp_all

lemma json_field_Cons:
  "json_field ((k, j) # m) name =
     (if \<exists>(k', j') \<in> set m. EqualFold k' name then json_field m name
      else if EqualFold k name then j else JNull)"
proof (cases "find (\<lambda>(k, j). EqualFold k name) (rev m)")
  case None
  then have "\<not> (\<exists>(k', j') \<in> set m. EqualFold k' name)" by (auto simp: find_None_iff)
  then show ?thesis using None by (auto simp: json_field_def find_app)
next
  case (Some kj)
  have "find (\<lambda>(k, j). EqualFold k name) (rev m) \<noteq> None" using Some by simp
  then have "\<exists>(k', j') \<in> set m. EqualFold k' name" by (auto simp: find_None_iff)
  then show ?thesis using Some by (auto simp: json_field_def find_app split: option.split)
qed

lemma json_field_Nil [simp]: "json_field [] name = JNull"
  by (simp add: json_field_def)

text \<open>Names of fields, compared regardless of case.\<close>

lemma EqualFold_refl [simp]: "EqualFold s s"
  by (simp add: EqualFold_def)

lemma EqualFold_length: "length s \<noteq> length t \<Longrightarrow> \<not> EqualFold s t"
  by (metis EqualFold_def length_map)

lemma EqualFold_simps [simp]:
  "\<not> EqualFold (c # s) []" "\<not> EqualFold [] (d # t)"
  "EqualFold (c # s) (d # t) \<longleftrightarrow> to_lower c = to_lower d \<and> EqualFold s t"
  by (simp_all add: EqualFold_def)

lemmas json_field_simps = json_field_Cons EqualFold_length to_lower_def less_eq_char_def

end
