(* ===== verification/Sql_Codec.thy ===== *)
theory Sql_Codec
  imports Sql_Table Json_Codec
begin

text \<open>
  What the converters between entities and records share (\<open>recordToEntity\<close> and \<open>entityToRecord\<close> of
  the stores under \<open>tmanager/sqlstore\<close> and \<open>pmanager/sqlstore\<close>): the type assertions on the values of
  a record, and how to show that a pair of converters is a \<open>codec_ok\<close>.

  Whether an empty slice or map of an entity is nil is not part of the model's entities, but the
  converters write a column only if it is not nil: \<open>nonnil\<close> are the columns whose empty values are not
  nil.
\<close>

section \<open>Reading a record\<close>

text \<open>The type assertions of the converters.\<close>

definition text_at :: "db_record \<Rightarrow> string \<Rightarrow> string option" where
  "text_at r c = (case lookup r c of Some (SqlText s) \<Rightarrow> Some s | _ \<Rightarrow> None)"

definition int_at :: "db_record \<Rightarrow> string \<Rightarrow> int option" where
  "int_at r c = (case lookup r c of Some (SqlInt n) \<Rightarrow> Some n | _ \<Rightarrow> None)"

definition bool_at :: "db_record \<Rightarrow> string \<Rightarrow> bool option" where
  "bool_at r c = (case lookup r c of Some (SqlBool b) \<Rightarrow> Some b | _ \<Rightarrow> None)"

definition time_at :: "db_record \<Rightarrow> string \<Rightarrow> int option" where
  "time_at r c = (case lookup r c of Some (SqlTime t) \<Rightarrow> Some t | _ \<Rightarrow> None)"

definition required :: "'a option \<Rightarrow> string \<Rightarrow> go_error + 'a" where
  "required v what = (case v of Some x \<Rightarrow> Inr x | None \<Rightarrow> Inl (ErrorString (''invalid '' @ what @ '' reading record'')))"

definition optional_text :: "db_record \<Rightarrow> string \<Rightarrow> string" where
  "optional_text r c = (case text_at r c of Some s \<Rightarrow> s | None \<Rightarrow> [])"

definition json_at :: "db_record \<Rightarrow> string \<Rightarrow> (json \<Rightarrow> go_error + 'a) \<Rightarrow> 'a \<Rightarrow> go_error + 'a" where
  "json_at r c decode zero = (case lookup r c of Some (SqlBytes j) \<Rightarrow> decode j | _ \<Rightarrow> Inr zero)"

definition column_unless_nil :: "bool \<Rightarrow> string \<Rightarrow> json \<Rightarrow> db_record" where
  "column_unless_nil is_nil c j = (if is_nil then [] else [(c, SqlBytes j)])"

lemmas record_reads = text_at_def int_at_def bool_at_def time_at_def required_def optional_text_def json_at_def

section \<open>Reading what was written\<close>

definition wf_props :: "props option \<Rightarrow> bool" where
  "wf_props p = (case p of None \<Rightarrow> True | Some m \<Rightarrow> wf_map m)"

lemma lookup_append: "lookup (xs @ ys) k = (case lookup xs k of Some v \<Rightarrow> Some v | None \<Rightarrow> lookup ys k)"
  by (simp add: map_add_def split: option.split)

lemma lookup_written:
  "c \<in> set (columnNames p) \<Longrightarrow>
     lookup (buildRecordFromScan (columnNames p) (map (write_row p dbr null_row) (columnNames p))) c =
       Some (case lookup dbr c of Some v \<Rightarrow> plain v | None \<Rightarrow> SqlNull)"
  by (simp add: lookup_scan write_row_at null_row_def)

lemma plain_simps [simp]:
  "plain (SqlInt n) = SqlInt n" "plain (SqlBool b) = SqlBool b" "plain (SqlTime t) = SqlTime t"
  "plain (SqlBytes j) = SqlBytes j" "plain (SqlValuer r) = projr r"
  by (simp_all add: plain_def driver_value_def)

lemma driver_simps [simp]:
  "driver_value (SqlBool b) = Inr (SqlBool b)" "driver_value (SqlTime t) = Inr (SqlTime t)"
  "driver_value (SqlBytes j) = Inr (SqlBytes j)" "driver_value (SqlValuer r) = r"
  by (simp_all add: driver_value_def)

lemma written_ok:
  assumes "list_all (\<lambda>(c, v). is_ok (driver_value v)) dbr"
  shows "list_all (\<lambda>(c, v). is_ok (driver_value v)) (record_columns cs dbr)"
proof -
  have "set (record_columns cs dbr) \<subseteq> set dbr"
    by (auto simp: record_columns_def List.map_filter_def dest: map_of_SomeD)
  then show ?thesis using assms by (auto simp: list_all_iff)
qed

text \<open>What a converter finds in a column that was written from the record \<open>dbr\<close>.\<close>

definition written :: "'e pg_store \<Rightarrow> db_record \<Rightarrow> db_record \<Rightarrow> bool" where
  "written p dbr r \<longleftrightarrow> (\<forall>c \<in> set (columnNames p). lookup r c = Some (case lookup dbr c of Some v \<Rightarrow> plain v | None \<Rightarrow> SqlNull))"

lemma codec_okI:
  assumes "''id'' \<in> set (columnNames p)" "c \<in> set (columnNames p)" "c \<noteq> ''id''"
    and enc: "\<And>e. valid e \<Longrightarrow> entityToRecord p e = Inr (enc e) \<and> lookup (enc e) ''id'' = Some (SqlText (entity_id p e)) \<and>
      list_all (\<lambda>(c, v). is_ok (driver_value v)) (enc e)"
    and dec: "\<And>e r. valid e \<Longrightarrow> written p (enc e) r \<Longrightarrow> recordToEntity p r = Inr e"
    and full: "\<And>e. valid e \<Longrightarrow> full e \<Longrightarrow> set (columnNames p) \<subseteq> fst ` set (enc e)"
  shows "codec_ok p valid full"
  unfolding codec_ok_def
proof (intro conjI allI impI)
  show "\<exists>dbr. writable p e dbr \<and> read_row p (write_row p dbr null_row) = Inr e \<and> (full e \<longrightarrow> set (columnNames p) \<subseteq> set (keys dbr))"
    if v: "valid e" for e
  proof (intro exI [of _ "enc e"] conjI impI)
    show "writable p e (enc e)" using enc [OF v] by (simp add: writable_def written_ok)
    show "read_row p (write_row p (enc e) null_row) = Inr e"
      unfolding read_row_def by (rule dec [OF v]) (simp add: written_def lookup_written)
  qed (use full [OF v] in simp)
qed (use assms(1-3) in auto)

lemma lookup_column_unless_nil [simp]:
  "lookup (column_unless_nil b c j) k = (if k = c \<and> \<not> b then Some (SqlBytes j) else None)"
  by (simp add: column_unless_nil_def)

end
