(* ===== verification/Tenant_Sql.thy ===== *)
theory Tenant_Sql
  imports Sql_Codec Tenant_Types
begin

text \<open>
  The Postgres stores of the Tenant Manager: their tables, columns and query builders, and the converters
  between entities and records (\<open>tmanager/sqlstore/tenant.go\<close>, \<open>cell.go\<close>, \<open>dprofile.go\<close>,
  \<open>pprofile.go\<close>).

  A time is its tick count in JSON too. Encoding to JSON does not fail on these types.
\<close>

section \<open>Tenants\<close>

definition recordToTenantEntity :: "db_record \<Rightarrow> go_error + tenant" where
  "recordToTenantEntity r =
     bind_result (required (text_at r ''id'') ''tenant id'') (\<lambda>tid.
     bind_result (required (int_at r ''version'') ''tenant version'') (\<lambda>version.
     bind_result (json_at r ''properties'' dec_props None) (\<lambda>properties.
       Inr \<lparr>tn_ID = tid, tn_Version = version, tn_Owner = optional_text r ''owner'', tn_Properties = properties\<rparr>)))"

definition tenantEntityToRecord :: "tenant \<Rightarrow> go_error + db_record" where
  "tenantEntityToRecord t =
     Inr ([(''id'', SqlText (tn_ID t)), (''version'', SqlInt (tn_Version t)), (''owner'', SqlText (tn_Owner t))] @
       (case tn_Properties t of None \<Rightarrow> [] | Some m \<Rightarrow> [(''properties'', SqlBytes (JObj m))]))"

definition newTenantStore :: "tenant pg_store" where
  "newTenantStore =
     \<lparr>tableName = ''tenants'', columnNames = [''id'', ''version'', ''owner'', ''properties''],
      recordToEntity = recordToTenantEntity, entityToRecord = tenantEntityToRecord,
      builder = WithJSONBFieldTypes [(''properties'', JSONBFieldTypeScalar)] NewPostgresJSONBBuilder,
      entity_id = tn_ID\<rparr>"

lemma tenant_codec: "codec_ok newTenantStore (\<lambda>t. wf_props (tn_Properties t)) (\<lambda>t. tn_Properties t \<noteq> None)"
proof (rule codec_okI [where c = "''version''" and enc = "\<lambda>t. projr (tenantEntityToRecord t)"])
  fix t r assume v: "wf_props (tn_Properties t)" and w: "written newTenantStore (projr (tenantEntityToRecord t)) r"
  show "recordToEntity newTenantStore r = Inr t"
    using w v by (auto simp: written_def newTenantStore_def tenantEntityToRecord_def recordToTenantEntity_def record_reads
        wf_props_def split: option.splits)
qed (auto simp: newTenantStore_def tenantEntityToRecord_def split: option.splits)

section \<open>Cells\<close>

text \<open>A deployment state is written through \<open>Value()\<close>, which refuses one that is not valid.\<close>

definition DeploymentState_Value :: "string \<Rightarrow> go_error + sql_value" where
  "DeploymentState_Value c =
     (if \<not> IsValid c then Inl (ErrorString (''invalid cell state: '' @ c)) else Inr (SqlText c))"

definition recordToCellEntity :: "db_record \<Rightarrow> go_error + cell" where
  "recordToCellEntity r =
     bind_result (required (text_at r ''id'') ''cell id'') (\<lambda>cid.
     bind_result (required (int_at r ''version'') ''cell version'') (\<lambda>version.
     bind_result (required (text_at r ''state'') ''cell state'') (\<lambda>state.
     bind_result (required (time_at r ''state_timestamp'') ''cell state timestamp'') (\<lambda>timestamp.
     bind_result (json_at r ''properties'' dec_props None) (\<lambda>properties.
       Inr \<lparr>ce_ID = cid, ce_Version = version, ce_State = state, ce_StateTimestamp = timestamp,
            ce_ExternalID = optional_text r ''external_id'', ce_Properties = properties\<rparr>)))))"

definition cellEntityToRecord :: "cell \<Rightarrow> go_error + db_record" where
  "cellEntityToRecord c =
     Inr ([(''id'', SqlText (ce_ID c))] @
       (if ce_ExternalID c \<noteq> [] then [(''external_id'', SqlText (ce_ExternalID c))] else []) @
       [(''version'', SqlInt (ce_Version c)), (''state'', SqlValuer (DeploymentState_Value (ce_State c))),
        (''state_timestamp'', SqlTime (ce_StateTimestamp c))] @
       (case ce_Properties c of None \<Rightarrow> [] | Some m \<Rightarrow> [(''properties'', SqlBytes (JObj m))]))"

definition newCellStore :: "cell pg_store" where
  "newCellStore =
     \<lparr>tableName = ''cells'', columnNames = [''id'', ''external_id'', ''version'', ''state'', ''state_timestamp'', ''properties''],
      recordToEntity = recordToCellEntity, entityToRecord = cellEntityToRecord,
      builder = WithJSONBFieldTypes [(''properties'', JSONBFieldTypeScalar)]
        (WithFieldMappings [(''stateTimestamp'', ''state_timestamp'')] NewPostgresJSONBBuilder),
      entity_id = ce_ID\<rparr>"

definition valid_cell :: "cell \<Rightarrow> bool" where
  "valid_cell c \<longleftrightarrow> IsValid (ce_State c) \<and> wf_props (ce_Properties c)"

lemma cell_codec: "codec_ok newCellStore valid_cell (\<lambda>c. ce_ExternalID c \<noteq> [] \<and> ce_Properties c \<noteq> None)"
proof (rule codec_okI [where c = "''version''" and enc = "\<lambda>c. projr (cellEntityToRecord c)"])
  fix c r assume v: "valid_cell c" and w: "written newCellStore (projr (cellEntityToRecord c)) r"
  show "recordToEntity newCellStore r = Inr c"
    using w v by (auto simp: written_def newCellStore_def cellEntityToRecord_def recordToCellEntity_def record_reads
        wf_props_def valid_cell_def DeploymentState_Value_def split: option.splits if_splits)
qed (auto simp: newCellStore_def cellEntityToRecord_def valid_cell_def DeploymentState_Value_def split: option.split)

section \<open>Dataspace profiles\<close>

definition enc_deployment :: "dataspace_deployment \<Rightarrow> json" where
  "enc_deployment d = JObj ([(''id'', JStr (dd_ID d)), (''version'', JNum (dd_Version d)), (''state'', JStr (dd_State d)),
     (''stateTimestamp'', JNum (dd_StateTimestamp d))] @
     (if dd_CellID d = [] then [] else [(''cellId'', JStr (dd_CellID d))]) @
     [(''externalCellID'', JStr (dd_ExternalCellID d)), (''properties'', JObj (dd_Properties d))])"

definition dec_state :: "json \<Rightarrow> go_error + string" where
  "dec_state j = bind_result (dec_string j) UnmarshalState"

definition dec_deployment :: "json \<Rightarrow> go_error + dataspace_deployment" where
  "dec_deployment j =
     bind_result (dec_object j) (\<lambda>m.
     bind_result (dec_string (json_field m ''id'')) (\<lambda>did.
     bind_result (dec_int (json_field m ''version'')) (\<lambda>version.
     bind_result (dec_state (json_field m ''state'')) (\<lambda>state.
     bind_result (dec_int (json_field m ''stateTimestamp'')) (\<lambda>timestamp.
     bind_result (dec_string (json_field m ''cellId'')) (\<lambda>cellId.
     bind_result (dec_string (json_field m ''externalCellID'')) (\<lambda>externalCellId.
     bind_result (dec_properties (json_field m ''properties'')) (\<lambda>properties.
       Inr \<lparr>dd_ID = did, dd_Version = version, dd_State = state, dd_StateTimestamp = timestamp, dd_CellID = cellId,
            dd_ExternalCellID = externalCellId, dd_Properties = properties\<rparr>))))))))"

definition dec_credential_spec :: "json \<Rightarrow> go_error + credential_spec" where
  "dec_credential_spec j =
     bind_result (dec_object j) (\<lambda>m.
     bind_result (dec_string (json_field m ''id'')) (\<lambda>cid.
     bind_result (dec_string (json_field m ''type'')) (\<lambda>ctype.
     bind_result (dec_string (json_field m ''issuer'')) (\<lambda>issuer.
     bind_result (dec_string (json_field m ''format'')) (\<lambda>format.
     bind_result (dec_string (json_field m ''role'')) (\<lambda>role.
       Inr \<lparr>cs_Id = cid, cs_Type = ctype, cs_Issuer = issuer, cs_Format = format, cs_ParticipantRole = role\<rparr>))))))"

definition enc_dataspace_spec :: "dataspace_profile \<Rightarrow> json" where
  "enc_dataspace_spec p = JObj [(''protocolStack'', enc_strings (dp_ProtocolStack p)),
     (''credentialSpecs'', enc_list credential_spec_json (dp_CredentialSpecs p))]"

definition dec_dataspace_spec :: "json \<Rightarrow> go_error + string list \<times> credential_spec list" where
  "dec_dataspace_spec j =
     bind_result (dec_object j) (\<lambda>m.
     bind_result (dec_strings (json_field m ''protocolStack'')) (\<lambda>stack.
     bind_result (dec_list dec_credential_spec (json_field m ''credentialSpecs'')) (\<lambda>specs. Inr (stack, specs))))"

definition recordToDProfileEntity :: "db_record \<Rightarrow> go_error + dataspace_profile" where
  "recordToDProfileEntity r =
     bind_result (required (text_at r ''id'') ''dataspace profile id'') (\<lambda>pid.
     bind_result (required (int_at r ''version'') ''dataspace profile version'') (\<lambda>version.
     bind_result (json_at r ''dataspace_spec'' dec_dataspace_spec ([], [])) (\<lambda>(stack, specs).
     bind_result (json_at r ''artifacts'' dec_strings []) (\<lambda>artifacts.
     bind_result (json_at r ''deployments'' (dec_list dec_deployment) []) (\<lambda>deployments.
     bind_result (json_at r ''properties'' dec_props None) (\<lambda>properties.
       Inr \<lparr>dp_ID = pid, dp_Version = version, dp_ProtocolStack = stack, dp_CredentialSpecs = specs, dp_Artifacts = artifacts,
            dp_Deployments = deployments, dp_Properties = properties\<rparr>))))))"

definition dProfileEntityToRecord :: "string set \<Rightarrow> dataspace_profile \<Rightarrow> go_error + db_record" where
  "dProfileEntityToRecord nonnil p =
     Inr ([(''id'', SqlText (dp_ID p)), (''version'', SqlInt (dp_Version p)), (''dataspace_spec'', SqlBytes (enc_dataspace_spec p))] @
       column_unless_nil (dp_Artifacts p = [] \<and> ''artifacts'' \<notin> nonnil) ''artifacts'' (enc_strings (dp_Artifacts p)) @
       column_unless_nil (dp_Deployments p = [] \<and> ''deployments'' \<notin> nonnil) ''deployments'' (enc_list enc_deployment (dp_Deployments p)) @
       (case dp_Properties p of None \<Rightarrow> [] | Some m \<Rightarrow> [(''properties'', SqlBytes (JObj m))]))"

definition newDataspaceProfileStore :: "string set \<Rightarrow> dataspace_profile pg_store" where
  "newDataspaceProfileStore nonnil =
     \<lparr>tableName = ''dataspace_profiles'',
      columnNames = [''id'', ''version'', ''dataspace_spec'', ''artifacts'', ''deployments'', ''properties''],
      recordToEntity = recordToDProfileEntity, entityToRecord = dProfileEntityToRecord nonnil,
      builder = WithJSONBFieldTypes [(''artifacts'', JSONBFieldTypeArrayOfScalars), (''deployments'', JSONBFieldTypeArrayOfObjects),
        (''dataspace_spec'', JSONBFieldTypeScalar), (''properties'', JSONBFieldTypeScalar)] NewPostgresJSONBBuilder,
      entity_id = dp_ID\<rparr>"

definition valid_deployment :: "dataspace_deployment \<Rightarrow> bool" where
  "valid_deployment d \<longleftrightarrow> (dd_State d = [] \<or> IsValid (dd_State d)) \<and> wf_map (dd_Properties d)"

lemma UnmarshalState_valid: "s = [] \<or> IsValid s \<Longrightarrow> UnmarshalState s = Inr s"
  by (auto simp: UnmarshalState_def)

lemma deployment_roundtrip: "valid_deployment d \<Longrightarrow> dec_deployment (enc_deployment d) = Inr d"
  by (auto simp: dec_deployment_def enc_deployment_def json_field_simps dec_state_def UnmarshalState_valid valid_deployment_def)

lemma credential_spec_roundtrip [simp]: "dec_credential_spec (credential_spec_json c) = Inr c"
  by (simp add: dec_credential_spec_def credential_spec_json_def json_field_simps)

lemma dataspace_spec_roundtrip [simp]:
  "dec_dataspace_spec (enc_dataspace_spec p) = Inr (dp_ProtocolStack p, dp_CredentialSpecs p)"
  by (simp add: dec_dataspace_spec_def enc_dataspace_spec_def json_field_simps dec_list_enc)

definition valid_dprofile :: "dataspace_profile \<Rightarrow> bool" where
  "valid_dprofile p \<longleftrightarrow> list_all valid_deployment (dp_Deployments p) \<and> wf_props (dp_Properties p)"

lemma dprofile_codec:
  "codec_ok (newDataspaceProfileStore nonnil) valid_dprofile
     (\<lambda>p. dp_Properties p \<noteq> None \<and> (dp_Artifacts p = [] \<longrightarrow> ''artifacts'' \<in> nonnil) \<and>
        (dp_Deployments p = [] \<longrightarrow> ''deployments'' \<in> nonnil))"
proof (rule codec_okI [where c = "''version''" and enc = "\<lambda>p. projr (dProfileEntityToRecord nonnil p)"])
  fix p r assume v: "valid_dprofile p" and w: "written (newDataspaceProfileStore nonnil) (projr (dProfileEntityToRecord nonnil p)) r"
  have "dec_list dec_deployment (enc_list enc_deployment (dp_Deployments p)) = Inr (dp_Deployments p)"
    using v by (intro dec_list_enc deployment_roundtrip) (simp add: valid_dprofile_def list_all_iff)
  then show "recordToEntity (newDataspaceProfileStore nonnil) r = Inr p"
    using w v by (auto simp: written_def newDataspaceProfileStore_def dProfileEntityToRecord_def recordToDProfileEntity_def record_reads
        column_unless_nil_def wf_props_def valid_dprofile_def split: option.splits if_splits)
qed (auto simp: newDataspaceProfileStore_def dProfileEntityToRecord_def column_unless_nil_def split: option.split)

section \<open>Participant profiles\<close>

definition enc_vpa :: "vpa \<Rightarrow> json" where
  "enc_vpa v = JObj [(''id'', JStr (vpa_ID v)), (''version'', JNum (vpa_Version v)), (''state'', JStr (vpa_State v)),
     (''stateTimestamp'', JNum (vpa_StateTimestamp v)), (''type'', JStr (vpa_Type v)), (''cellId'', JStr (vpa_CellID v)),
     (''externalCellId'', JStr (vpa_ExternalCellID v)), (''properties'', JObj (vpa_Properties v))]"

definition dec_vpa :: "json \<Rightarrow> go_error + vpa" where
  "dec_vpa j =
     bind_result (dec_object j) (\<lambda>m.
     bind_result (dec_string (json_field m ''id'')) (\<lambda>vid.
     bind_result (dec_int (json_field m ''version'')) (\<lambda>version.
     bind_result (dec_state (json_field m ''state'')) (\<lambda>state.
     bind_result (dec_int (json_field m ''stateTimestamp'')) (\<lambda>timestamp.
     bind_result (dec_string (json_field m ''type'')) (\<lambda>vtype.
     bind_result (dec_string (json_field m ''cellId'')) (\<lambda>cellId.
     bind_result (dec_string (json_field m ''externalCellId'')) (\<lambda>externalCellId.
     bind_result (dec_properties (json_field m ''properties'')) (\<lambda>properties.
       Inr \<lparr>vpa_ID = vid, vpa_Version = version, vpa_State = state, vpa_StateTimestamp = timestamp, vpa_Type = vtype,
            vpa_CellID = cellId, vpa_ExternalCellID = externalCellId, vpa_Properties = properties\<rparr>)))))))))"

definition dec_roles :: "json \<Rightarrow> go_error + (string, string list) gomap" where
  "dec_roles = dec_map dec_strings"

definition recordToPProfileEntity :: "db_record \<Rightarrow> go_error + participant_profile" where
  "recordToPProfileEntity r =
     bind_result (required (text_at r ''id'') ''participant profile ID'') (\<lambda>pid.
     bind_result (required (int_at r ''version'') ''participant profile version'') (\<lambda>version.
     bind_result (required (text_at r ''tenant_id'') ''participant profile tenant ID'') (\<lambda>tenantId.
     bind_result (required (text_at r ''identifier'') ''participant profile identifier'') (\<lambda>identifier.
     bind_result (required (bool_at r ''error'') ''participant profile error value'') (\<lambda>err.
     bind_result (required (text_at r ''error_detail'') ''participant profile error detail'') (\<lambda>errorDetail.
     bind_result (json_at r ''properties'' dec_props None) (\<lambda>properties.
     bind_result (json_at r ''participant_roles'' dec_roles []) (\<lambda>participantRoles.
     bind_result (json_at r ''vpas'' (dec_list dec_vpa) []) (\<lambda>vpas.
     bind_result (json_at r ''dataspace_profile_ids'' dec_strings []) (\<lambda>profileIds.
       Inr \<lparr>pp_ID = pid, pp_Version = version, pp_Identifier = identifier, pp_TenantID = tenantId,
            pp_Owner = optional_text r ''owner'', pp_DataspaceProfileIDs = profileIds, pp_ParticipantRoles = participantRoles,
            pp_VPAs = vpas, pp_Properties = properties, pp_Error = err, pp_ErrorDetail = errorDetail\<rparr>))))))))))"

definition pProfileEntityToRecord :: "string set \<Rightarrow> participant_profile \<Rightarrow> go_error + db_record" where
  "pProfileEntityToRecord nonnil p =
     Inr ([(''id'', SqlText (pp_ID p)), (''version'', SqlInt (pp_Version p)), (''tenant_id'', SqlText (pp_TenantID p)),
       (''owner'', SqlText (pp_Owner p)), (''identifier'', SqlText (pp_Identifier p)), (''error'', SqlBool (pp_Error p)),
       (''error_detail'', SqlText (pp_ErrorDetail p))] @
       column_unless_nil (pp_DataspaceProfileIDs p = [] \<and> ''dataspace_profile_ids'' \<notin> nonnil) ''dataspace_profile_ids''
         (enc_strings (pp_DataspaceProfileIDs p)) @
       column_unless_nil (pp_VPAs p = [] \<and> ''vpas'' \<notin> nonnil) ''vpas'' (enc_list enc_vpa (pp_VPAs p)) @
       (case pp_Properties p of None \<Rightarrow> [] | Some m \<Rightarrow> [(''properties'', SqlBytes (JObj m))]) @
       column_unless_nil (pp_ParticipantRoles p = [] \<and> ''participant_roles'' \<notin> nonnil) ''participant_roles''
         (enc_map enc_strings (pp_ParticipantRoles p)))"

definition newParticipantProfileStore :: "string set \<Rightarrow> participant_profile pg_store" where
  "newParticipantProfileStore nonnil =
     \<lparr>tableName = ''participant_profiles'',
      columnNames = [''id'', ''version'', ''identifier'', ''tenant_id'', ''owner'', ''dataspace_profile_ids'', ''participant_roles'',
        ''vpas'', ''error'', ''error_detail'', ''properties''],
      recordToEntity = recordToPProfileEntity, entityToRecord = pProfileEntityToRecord nonnil,
      builder = WithJSONBFieldTypes [(''dataspaceProfileIds'', JSONBFieldTypeArrayOfScalars), (''vpas'', JSONBFieldTypeArrayOfObjects),
          (''participantRoles'', JSONBFieldTypeMapOfArrays), (''properties'', JSONBFieldTypeScalar)]
        (WithFieldMappings [(''tenantId'', ''tenant_id''), (''dataspaceProfileIds'', ''dataspace_profile_ids''),
          (''participantRoles'', ''participant_roles''), (''errorDetail'', ''error_detail'')] NewPostgresJSONBBuilder),
      entity_id = pp_ID\<rparr>"

definition valid_vpa :: "vpa \<Rightarrow> bool" where
  "valid_vpa v \<longleftrightarrow> (vpa_State v = [] \<or> IsValid (vpa_State v)) \<and> wf_map (vpa_Properties v)"

lemma vpa_roundtrip: "valid_vpa v \<Longrightarrow> dec_vpa (enc_vpa v) = Inr v"
  by (simp add: dec_vpa_def enc_vpa_def json_field_simps dec_state_def UnmarshalState_valid valid_vpa_def)

definition valid_pprofile :: "participant_profile \<Rightarrow> bool" where
  "valid_pprofile p \<longleftrightarrow> list_all valid_vpa (pp_VPAs p) \<and> wf_map (pp_ParticipantRoles p) \<and> wf_props (pp_Properties p)"

definition full_pprofile :: "string set \<Rightarrow> participant_profile \<Rightarrow> bool" where
  "full_pprofile nonnil p \<longleftrightarrow> pp_Properties p \<noteq> None \<and> (pp_DataspaceProfileIDs p = [] \<longrightarrow> ''dataspace_profile_ids'' \<in> nonnil) \<and>
     (pp_VPAs p = [] \<longrightarrow> ''vpas'' \<in> nonnil) \<and> (pp_ParticipantRoles p = [] \<longrightarrow> ''participant_roles'' \<in> nonnil)"

lemma pprofile_codec: "codec_ok (newParticipantProfileStore nonnil) valid_pprofile (full_pprofile nonnil)"
proof (rule codec_okI [where c = "''version''" and enc = "\<lambda>p. projr (pProfileEntityToRecord nonnil p)"])
  fix p r assume v: "valid_pprofile p" and w: "written (newParticipantProfileStore nonnil) (projr (pProfileEntityToRecord nonnil p)) r"
  have "dec_list dec_vpa (enc_list enc_vpa (pp_VPAs p)) = Inr (pp_VPAs p)"
    using v by (intro dec_list_enc vpa_roundtrip) (simp add: valid_pprofile_def list_all_iff)
  moreover have "dec_roles (enc_map enc_strings (pp_ParticipantRoles p)) = Inr (pp_ParticipantRoles p)"
    unfolding dec_roles_def using v by (intro dec_map_enc) (simp_all add: valid_pprofile_def)
  ultimately show "recordToEntity (newParticipantProfileStore nonnil) r = Inr p"
    using w v by (cases "pp_Properties p") (simp_all add: written_def newParticipantProfileStore_def pProfileEntityToRecord_def
        recordToPProfileEntity_def record_reads wf_props_def valid_pprofile_def map_add_def split: if_splits)
qed (auto simp: newParticipantProfileStore_def pProfileEntityToRecord_def full_pprofile_def column_unless_nil_def split: option.split)

section \<open>The stores over their tables\<close>

interpretation tenant_rows: sql_entity_store "table_tx holds (tableName newTenantStore)" "tableName newTenantStore"
    "columnNames newTenantStore" "\<lambda>s. lookup (tbl_rows s)" "\<lambda>s. \<not> tbl_aborted s" newTenantStore
    "\<lambda>t. wf_props (tn_Properties t)" "\<lambda>t. tn_Properties t \<noteq> None"
  by (rule table_entity_store [OF tenant_codec])

interpretation dprofile_rows: sql_entity_store "table_tx holds (tableName (newDataspaceProfileStore nonnil))"
    "tableName (newDataspaceProfileStore nonnil)" "columnNames (newDataspaceProfileStore nonnil)"
    "\<lambda>s. lookup (tbl_rows s)" "\<lambda>s. \<not> tbl_aborted s" "newDataspaceProfileStore nonnil" valid_dprofile
    "\<lambda>p. dp_Properties p \<noteq> None \<and> (dp_Artifacts p = [] \<longrightarrow> ''artifacts'' \<in> nonnil) \<and>
       (dp_Deployments p = [] \<longrightarrow> ''deployments'' \<in> nonnil)"
  by (rule table_entity_store [OF dprofile_codec])

interpretation pprofile_rows: sql_entity_store "table_tx holds (tableName (newParticipantProfileStore nonnil))"
    "tableName (newParticipantProfileStore nonnil)" "columnNames (newParticipantProfileStore nonnil)"
    "\<lambda>s. lookup (tbl_rows s)" "\<lambda>s. \<not> tbl_aborted s" "newParticipantProfileStore nonnil" valid_pprofile "full_pprofile nonnil"
  by (rule table_entity_store [OF pprofile_codec])

text \<open>
  What the Tenant Manager writes to a table it reads back: for every valid tenant, cell,
  dataspace profile and participant profile (their states are deployment states, their maps have
  each key once), the record of the entity can be written, and the entity read from the columns of
  the new row is the one that was written, whichever of its empty slices and maps are nil.
\<close>

theorem tenant_records_round_trip:
  "codec_ok newTenantStore (\<lambda>t. wf_props (tn_Properties t)) (\<lambda>t. tn_Properties t \<noteq> None) \<and>
   codec_ok newCellStore valid_cell (\<lambda>c. ce_ExternalID c \<noteq> [] \<and> ce_Properties c \<noteq> None) \<and>
   codec_ok (newDataspaceProfileStore nonnil) valid_dprofile
     (\<lambda>p. dp_Properties p \<noteq> None \<and> (dp_Artifacts p = [] \<longrightarrow> ''artifacts'' \<in> nonnil) \<and>
        (dp_Deployments p = [] \<longrightarrow> ''deployments'' \<in> nonnil)) \<and>
   codec_ok (newParticipantProfileStore nonnil) valid_pprofile (full_pprofile nonnil)"
  by (intro conjI tenant_codec cell_codec dprofile_codec pprofile_codec)

definition sample_tenant :: tenant where
  "sample_tenant = \<lparr>tn_ID = ''t1'', tn_Version = 1, tn_Owner = ''alice'', tn_Properties = Some [(''region'', JStr ''eu'')]\<rparr>"

theorem tenant_records_round_trip_witness:
  "\<exists>dbr. entityToRecord newTenantStore sample_tenant = Inr dbr \<and>
     read_row newTenantStore (write_row newTenantStore dbr null_row) = Inr sample_tenant"
  using tenant_records_round_trip [THEN conjunct1]
  by (auto simp: codec_ok_def writable_def sample_tenant_def wf_props_def wf_map_def
      dest!: spec [of _ "\<lparr>tn_ID = ''t1'', tn_Version = 1, tn_Owner = ''alice'', tn_Properties = Some [(''region'', JStr ''eu'')]\<rparr>"])


text \<open>
  An update does not write a column that is absent from the record: a tenant whose properties
  are nil keeps the properties that are stored, whatever they are, and the update reports success.
  The version is stored as the caller gave it.
\<close>

theorem tenant_update_keeps_properties:
  assumes "\<not> tbl_aborted s" and "lookup (tbl_rows s) (tn_ID t) = Some old" and "tn_Properties t = None"
  shows "sql_Update newTenantStore (Some (table_tx holds ''tenants'')) t s =
      (None, s\<lparr>tbl_rows := put (tn_ID t) (old(''version'' := SqlInt (tn_Version t), ''owner'' := SqlText (tn_Owner t))) (tbl_rows s)\<rparr>)"
proof -
  have cs: "record_columns (filter (\<lambda>c. c \<noteq> ''id'') (columnNames newTenantStore)) (projr (tenantEntityToRecord t)) =
      [(''version'', SqlInt (tn_Version t)), (''owner'', SqlText (tn_Owner t))]"
    using assms(3) by (simp add: newTenantStore_def tenantEntityToRecord_def record_columns_def List.map_filter_simps)
  have row: "set_row [(''version'', SqlInt (tn_Version t)), (''owner'', SqlText (tn_Owner t))] old =
      old(''version'' := SqlInt (tn_Version t), ''owner'' := SqlText (tn_Owner t))"
    by (rule ext) (simp add: set_row_def)
  show ?thesis using assms cs row
    by (simp add: sql_Update_def getTxFromContext_def newTenantStore_def tenantEntityToRecord_def table_tx_def guarded_def
        affected_def Let_def)
qed

definition sample_table :: sql_table_state where
  "sample_table = \<lparr>tbl_rows = [(''t1'', (\<lambda>c. SqlNull)(''id'' := SqlText ''t1'', ''version'' := SqlInt 1, ''owner'' := SqlText ''alice'',
     ''properties'' := SqlBytes (JObj [(''region'', JStr ''eu'')])))], tbl_aborted = False\<rparr>"

theorem tenant_update_keeps_properties_witness:
  "lookup (tbl_rows (snd (sql_Update newTenantStore (Some (table_tx (\<lambda>w args r. False) ''tenants''))
      (sample_tenant\<lparr>tn_Properties := None\<rparr>) sample_table))) ''t1'' =
    lookup (tbl_rows sample_table) ''t1''"
proof -
  let ?old = "(\<lambda>c. SqlNull)(''id'' := SqlText ''t1'', ''version'' := SqlInt 1, ''owner'' := SqlText ''alice'',
     ''properties'' := SqlBytes (JObj [(''region'', JStr ''eu'')]))"
  show ?thesis
    using tenant_update_keeps_properties [of sample_table "sample_tenant\<lparr>tn_Properties := None\<rparr>" ?old "\<lambda>w args r. False"]
    by (simp add: sample_table_def sample_tenant_def fun_eq_iff)
qed

theorem PostgresEntityStore_queries_witness:
  "fst (sql_queryEntities newTenantStore (Some (table_tx (\<lambda>w args r. False) (tableName newTenantStore))) None
      (Some \<lparr>pg_Offset = 0, pg_Limit = 10\<rparr>) sample_table) = Returns [Inr sample_tenant]"
proof -
  have read: "read_row newTenantStore ((\<lambda>c. SqlNull)(''id'' := SqlText ''t1'', ''version'' := SqlInt 1, ''owner'' := SqlText ''alice'',
     ''properties'' := SqlBytes (JObj [(''region'', JStr ''eu'')]))) = Inr sample_tenant"
    by (simp add: read_row_def newTenantStore_def buildRecordFromScan_def recordToTenantEntity_def record_reads sample_tenant_def wf_map_def)
  then have r: "table_readable newTenantStore sample_table" "wf_map (tbl_rows sample_table)"
    by (auto simp: table_readable_def sample_table_def wf_map_def)
  have "where_of newTenantStore None = Some ([], [])" by (simp add: where_of_def)
  then show ?thesis
    using PostgresEntityStore_queries [OF r, where opts = "\<lparr>pg_Offset = 0, pg_Limit = 10\<rparr>" and q = None and holds = "\<lambda>w args r. False"] read
    by (simp add: found_entities_def matching_def sample_table_def)
qed

end
