(* ===== verification/Definition_Sql.thy ===== *)
theory Definition_Sql
  imports Sql_Codec Definition_Store
begin

text \<open>
  The Postgres stores of the Provision Manager: the index of the orchestrations
  (\<open>pmanager/sqlstore/orchestration.go\<close>) and the definitions with their converters and the definition
  store over them (\<open>pmanager/sqlstore/definition.go\<close>).

  A pointer that is nil only together with an error is left out of the results.
\<close>

section \<open>The index\<close>

definition state_of_code :: "int \<Rightarrow> orchestration_state" where
  "state_of_code n =
     (if n = 0 then OrchestrationStateInitialized else if n = 1 then OrchestrationStateRunning
      else if n = 2 then OrchestrationStateCompleted else if n = 3 then OrchestrationStateErrored
      else OrchestrationStateUnknown (nat (n mod 2 ^ 64)))"

definition recordToOrchestrationEntry :: "db_record \<Rightarrow> go_error + orchestration_entry" where
  "recordToOrchestrationEntry r =
     bind_result (required (text_at r ''id'') ''orchestration entry id'') (\<lambda>eid.
     bind_result (required (int_at r ''version'') ''orchestration entry version'') (\<lambda>version.
     bind_result (required (text_at r ''correlation_id'') ''orchestration entry correlation_id'') (\<lambda>correlationId.
     bind_result (required (text_at r ''definition_id'') ''orchestration entry definition_id'') (\<lambda>definitionId.
     bind_result (required (int_at r ''state'') ''orchestration entry state'') (\<lambda>state.
     bind_result (required (time_at r ''state_timestamp'') ''orchestration entry state_timestamp'') (\<lambda>timestamp.
     bind_result (required (time_at r ''created_timestamp'') ''orchestration entry created_timestamp'') (\<lambda>created.
     bind_result (required (text_at r ''orchestration_type'') ''orchestration entry type'') (\<lambda>otype.
       Inr \<lparr>oe_ID = eid, oe_Version = version, oe_CorrelationID = correlationId, oe_State = state_of_code state,
            oe_StateTimestamp = timestamp, oe_CreatedTimestamp = created, oe_OrchestrationType = otype,
            oe_DefinitionID = definitionId\<rparr>))))))))"

definition orchestrationEntryToRecord :: "orchestration_entry \<Rightarrow> go_error + db_record" where
  "orchestrationEntryToRecord e =
     Inr [(''id'', SqlText (oe_ID e)), (''version'', SqlInt (oe_Version e)), (''correlation_id'', SqlText (oe_CorrelationID e)),
       (''state'', SqlInt (int (state_code (oe_State e)))), (''state_timestamp'', SqlTime (oe_StateTimestamp e)),
       (''created_timestamp'', SqlTime (oe_CreatedTimestamp e)), (''orchestration_type'', SqlText (oe_OrchestrationType e)),
       (''definition_id'', SqlText (oe_DefinitionID e))]"

definition newOrchestrationEntryStore :: "orchestration_entry pg_store" where
  "newOrchestrationEntryStore =
     \<lparr>tableName = ''orchestration_entries'',
      columnNames = [''id'', ''version'', ''correlation_id'', ''definition_id'', ''state'', ''state_timestamp'', ''created_timestamp'',
        ''orchestration_type''],
      recordToEntity = recordToOrchestrationEntry, entityToRecord = orchestrationEntryToRecord,
      builder = WithFieldMappings [(''correlationId'', ''correlation_id''), (''DefinitionID'', ''definition_id''),
        (''stateTimestamp'', ''state_timestamp''), (''createdTimestamp'', ''created_timestamp''),
        (''orchestrationType'', ''orchestration_type'')] NewPostgresJSONBBuilder,
      entity_id = oe_ID\<rparr>"

definition valid_entry :: "orchestration_entry \<Rightarrow> bool" where
  "valid_entry e \<longleftrightarrow> (case oe_State e of OrchestrationStateUnknown n \<Rightarrow> 3 < n \<and> n < 2 ^ 64 | _ \<Rightarrow> True)"

lemma state_of_code_inverse: "valid_entry e \<Longrightarrow> state_of_code (int (state_code (oe_State e))) = oe_State e"
proof (cases "oe_State e")
  case (OrchestrationStateUnknown n)
  assume "valid_entry e"
  with OrchestrationStateUnknown have n: "3 < n" "int n < 2 ^ 64" by (simp_all add: valid_entry_def)
  then have "int n mod 2 ^ 64 = int n" by (simp add: mod_pos_pos_trivial)
  with n OrchestrationStateUnknown show ?thesis by (simp add: state_of_code_def state_code_def)
qed (simp_all add: state_of_code_def state_code_def)

lemma entry_codec: "codec_ok newOrchestrationEntryStore valid_entry (\<lambda>e. True)"
proof (rule codec_okI [where c = "''version''" and enc = "\<lambda>e. projr (orchestrationEntryToRecord e)"])
  fix e r assume v: "valid_entry e" and w: "written newOrchestrationEntryStore (projr (orchestrationEntryToRecord e)) r"
  show "recordToEntity newOrchestrationEntryStore r = Inr e"
    using w state_of_code_inverse [OF v]
    by (simp add: written_def newOrchestrationEntryStore_def orchestrationEntryToRecord_def recordToOrchestrationEntry_def record_reads)
qed (auto simp: newOrchestrationEntryStore_def orchestrationEntryToRecord_def)

interpretation entry_rows: sql_entity_store "table_tx holds (tableName newOrchestrationEntryStore)" "tableName newOrchestrationEntryStore"
    "columnNames newOrchestrationEntryStore" "\<lambda>s. lookup (tbl_rows s)" "\<lambda>s. \<not> tbl_aborted s" newOrchestrationEntryStore
    valid_entry "\<lambda>e. True"
  by (rule table_entity_store [OF entry_codec])

section \<open>Definitions\<close>

definition enc_activity :: "activity \<Rightarrow> json" where
  "enc_activity a = JObj [(''id'', JStr (a_ID a)), (''type'', JStr (a_Type a)), (''discriminator'', JStr (a_Discriminator a)),
     (''dependsOn'', enc_strings (a_DependsOn a))]"

definition dec_activity :: "json \<Rightarrow> go_error + activity" where
  "dec_activity j =
     bind_result (dec_object j) (\<lambda>m.
     bind_result (dec_string (json_field m ''id'')) (\<lambda>aid.
     bind_result (dec_string (json_field m ''type'')) (\<lambda>atype.
     bind_result (dec_string (json_field m ''discriminator'')) (\<lambda>discriminator.
     bind_result (dec_strings (json_field m ''dependsOn'')) (\<lambda>dependsOn.
       Inr \<lparr>a_ID = aid, a_Type = atype, a_Discriminator = discriminator, a_DependsOn = dependsOn\<rparr>)))))"

lemma activity_roundtrip [simp]: "dec_activity (enc_activity a) = Inr a"
  by (simp add: dec_activity_def enc_activity_def json_field_simps)

definition recordToOrchestrationEntity :: "db_record \<Rightarrow> go_error + orchestration_definition" where
  "recordToOrchestrationEntity r =
     bind_result (required (text_at r ''type'') ''orchestration definition type'') (\<lambda>otype.
     bind_result (required (int_at r ''version'') ''orchestration definition version'') (\<lambda>version.
     bind_result (required (text_at r ''description'') ''orchestration definition description'') (\<lambda>description.
     bind_result (required (bool_at r ''active'') ''orchestration definition active'') (\<lambda>active.
     bind_result (json_at r ''schema'' dec_properties []) (\<lambda>schema.
     bind_result (json_at r ''activities'' (dec_list dec_activity) []) (\<lambda>activities.
     bind_result (required (text_at r ''templateref'') ''orchestration definition templateref'') (\<lambda>templateref.
       Inr \<lparr>od_Type = otype, od_TemplateRef = templateref, od_Version = version, od_Description = description,
            od_Active = active, od_Schema = schema, od_Activities = activities\<rparr>)))))))"

definition orchestrationEntityToRecord :: "string set \<Rightarrow> orchestration_definition \<Rightarrow> go_error + db_record" where
  "orchestrationEntityToRecord nonnil d =
     Inr ([(''id'', SqlText (od_Type d)), (''type'', SqlText (od_Type d)), (''version'', SqlInt (od_Version d)),
       (''description'', SqlText (od_Description d)), (''active'', SqlBool (od_Active d)), (''templateref'', SqlText (od_TemplateRef d))] @
       column_unless_nil (od_Schema d = [] \<and> ''schema'' \<notin> nonnil) ''schema'' (JObj (od_Schema d)) @
       column_unless_nil (od_Activities d = [] \<and> ''activities'' \<notin> nonnil) ''activities'' (enc_list enc_activity (od_Activities d)))"

definition newOrchestrationStore :: "string set \<Rightarrow> orchestration_definition pg_store" where
  "newOrchestrationStore nonnil =
     \<lparr>tableName = ''orchestration_definitions'',
      columnNames = [''id'', ''type'', ''version'', ''description'', ''active'', ''schema'', ''activities'', ''templateref''],
      recordToEntity = recordToOrchestrationEntity, entityToRecord = orchestrationEntityToRecord nonnil,
      builder = WithJSONBFieldTypes [(''schema'', JSONBFieldTypeArrayOfObjects), (''activities'', JSONBFieldTypeArrayOfObjects)]
        NewPostgresJSONBBuilder,
      entity_id = od_Type\<rparr>"

definition recordToActivityEntity :: "db_record \<Rightarrow> go_error + activity_definition" where
  "recordToActivityEntity r =
     bind_result (required (text_at r ''type'') ''activity definition type'') (\<lambda>atype.
     bind_result (required (int_at r ''version'') ''activity definition version'') (\<lambda>version.
     bind_result (required (text_at r ''description'') ''activity definition description'') (\<lambda>description.
     bind_result (json_at r ''input_schema'' dec_properties []) (\<lambda>inputSchema.
     bind_result (json_at r ''output_schema'' dec_properties []) (\<lambda>outputSchema.
       Inr \<lparr>ad_Type = atype, ad_Version = version, ad_Description = description, ad_InputSchema = inputSchema,
            ad_OutputSchema = outputSchema\<rparr>)))))"

definition activityEntityToRecord :: "string set \<Rightarrow> activity_definition \<Rightarrow> go_error + db_record" where
  "activityEntityToRecord nonnil d =
     Inr ([(''id'', SqlText (ad_Type d)), (''type'', SqlText (ad_Type d)), (''version'', SqlInt (ad_Version d)),
       (''description'', SqlText (ad_Description d))] @
       column_unless_nil (ad_InputSchema d = [] \<and> ''input_schema'' \<notin> nonnil) ''input_schema'' (JObj (ad_InputSchema d)) @
       column_unless_nil (ad_OutputSchema d = [] \<and> ''output_schema'' \<notin> nonnil) ''output_schema'' (JObj (ad_OutputSchema d)))"

definition newActivityStore :: "string set \<Rightarrow> activity_definition pg_store" where
  "newActivityStore nonnil =
     \<lparr>tableName = ''activity_definitions'',
      columnNames = [''id'', ''type'', ''version'', ''description'', ''input_schema'', ''output_schema''],
      recordToEntity = recordToActivityEntity, entityToRecord = activityEntityToRecord nonnil,
      builder = WithFieldMappings [(''inputSchema'', ''input_schema''), (''outputSchema'', ''output_schema'')]
        (WithJSONBFieldTypes [(''inputSchema'', JSONBFieldTypeArrayOfObjects), (''outputSchema'', JSONBFieldTypeArrayOfObjects)]
          NewPostgresJSONBBuilder),
      entity_id = ad_Type\<rparr>"

definition full_odef :: "string set \<Rightarrow> orchestration_definition \<Rightarrow> bool" where
  "full_odef nonnil d \<longleftrightarrow> (od_Schema d = [] \<longrightarrow> ''schema'' \<in> nonnil) \<and> (od_Activities d = [] \<longrightarrow> ''activities'' \<in> nonnil)"

definition full_adef :: "string set \<Rightarrow> activity_definition \<Rightarrow> bool" where
  "full_adef nonnil d \<longleftrightarrow> (ad_InputSchema d = [] \<longrightarrow> ''input_schema'' \<in> nonnil) \<and> (ad_OutputSchema d = [] \<longrightarrow> ''output_schema'' \<in> nonnil)"

lemma odef_codec: "codec_ok (newOrchestrationStore nonnil) (\<lambda>d. wf_map (od_Schema d)) (full_odef nonnil)"
proof (rule codec_okI [where c = "''version''" and enc = "\<lambda>d. projr (orchestrationEntityToRecord nonnil d)"])
  fix d r assume v: "wf_map (od_Schema d)" and w: "written (newOrchestrationStore nonnil) (projr (orchestrationEntityToRecord nonnil d)) r"
  have "dec_list dec_activity (enc_list enc_activity (od_Activities d)) = Inr (od_Activities d)"
    by (rule dec_list_enc) simp
  then show "recordToEntity (newOrchestrationStore nonnil) r = Inr d"
    using w v by (simp add: written_def newOrchestrationStore_def orchestrationEntityToRecord_def recordToOrchestrationEntity_def
        record_reads map_add_def split: if_splits)
qed (auto simp: newOrchestrationStore_def orchestrationEntityToRecord_def full_odef_def column_unless_nil_def)

lemma adef_codec: "codec_ok (newActivityStore nonnil) (\<lambda>d. wf_map (ad_InputSchema d) \<and> wf_map (ad_OutputSchema d)) (full_adef nonnil)"
proof (rule codec_okI [where c = "''version''" and enc = "\<lambda>d. projr (activityEntityToRecord nonnil d)"])
  fix d r assume v: "wf_map (ad_InputSchema d) \<and> wf_map (ad_OutputSchema d)"
    and w: "written (newActivityStore nonnil) (projr (activityEntityToRecord nonnil d)) r"
  show "recordToEntity (newActivityStore nonnil) r = Inr d"
    using w v by (simp add: written_def newActivityStore_def activityEntityToRecord_def recordToActivityEntity_def
        record_reads map_add_def split: if_splits)
qed (auto simp: newActivityStore_def activityEntityToRecord_def full_adef_def column_unless_nil_def)

section \<open>The definition store\<close>

record definition_pg_store =
  orchestrationStore :: "orchestration_definition pg_store"
  activityStore :: "activity_definition pg_store"

definition newPostgresDefinitionStore :: "string set \<Rightarrow> definition_pg_store" where
  "newPostgresDefinitionStore nonnil =
     \<lparr>orchestrationStore = newOrchestrationStore nonnil, activityStore = newActivityStore nonnil\<rparr>"

text \<open>What both kinds of definitions have in common, for either store.\<close>

definition store_definition :: "'e pg_store \<Rightarrow> 's sql_tx option \<Rightarrow> 'e \<Rightarrow> 's \<Rightarrow> (go_error + 'e) \<times> 's" where
  "store_definition p ctx def s =
     (case sql_Exists p ctx (entity_id p def) s of
        (Inl err, s) \<Rightarrow> (Inl err, s)
      | (Inr found, s) \<Rightarrow>
          if found then
            (case sql_Update p ctx def s of
               (Some err, s) \<Rightarrow> (Inl err, s)
             | (None, s) \<Rightarrow> sql_FindByID p ctx (entity_id p def) s)
          else sql_Create p ctx def s)"

definition delete_definition :: "'e pg_store \<Rightarrow> 's sql_tx option \<Rightarrow> string \<Rightarrow> 's \<Rightarrow> (go_error + bool) \<times> 's" where
  "delete_definition p ctx t s =
     (case sql_Delete p ctx t s of
        (Some err, s) \<Rightarrow> (if errors_Is err ErrNotFound then Inr False else Inl err, s)
      | (None, s) \<Rightarrow> (Inr True, s))"

definition pg_FindOrchestrationDefinition where
  "pg_FindOrchestrationDefinition p ctx t s = sql_FindByID (orchestrationStore p) ctx t s"

definition pg_FindOrchestrationDefinitionsByPredicate where
  "pg_FindOrchestrationDefinitionsByPredicate p ctx q s = sql_FindByPredicate (orchestrationStore p) ctx q s"

definition pg_ExistsOrchestrationDefinition where
  "pg_ExistsOrchestrationDefinition p ctx t s = sql_Exists (orchestrationStore p) ctx t s"

definition pg_FindActivityDefinition where
  "pg_FindActivityDefinition p ctx t s = sql_FindByID (activityStore p) ctx t s"

definition pg_FindActivityDefinitionsByPredicate where
  "pg_FindActivityDefinitionsByPredicate p ctx q s = sql_FindByPredicate (activityStore p) ctx q s"

definition pg_ExistsActivityDefinition where
  "pg_ExistsActivityDefinition p ctx t s = sql_Exists (activityStore p) ctx t s"

definition pg_StoreOrchestrationDefinition where
  "pg_StoreOrchestrationDefinition p ctx def s = store_definition (orchestrationStore p) ctx def s"

definition pg_StoreActivityDefinition where
  "pg_StoreActivityDefinition p ctx def s = store_definition (activityStore p) ctx def s"

definition pg_DeleteOrchestrationDefinition where
  "pg_DeleteOrchestrationDefinition p ctx t s = delete_definition (orchestrationStore p) ctx t s"

definition pg_DeleteActivityDefinition where
  "pg_DeleteActivityDefinition p ctx t s = delete_definition (activityStore p) ctx t s"

text \<open>The first error ends the loop over the references.\<close>

definition pg_ActivityDefinitionReferences ::
    "definition_pg_store \<Rightarrow> 's sql_tx option \<Rightarrow> string \<Rightarrow> 's \<Rightarrow> string list call_result \<times> 's" where
  "pg_ActivityDefinitionReferences p ctx t s =
     (case sql_FindByPredicate (orchestrationStore p) ctx (Some (Eq ''activities.type'' (VStr t))) s of
        (Returns seq, s) \<Rightarrow> of_result (bind_result (CollectAll seq) (\<lambda>defs. Inr (map od_Type defs)), s)
      | (Fails err, s) \<Rightarrow> (Fails err, s)
      | (Panics txt, s) \<Rightarrow> (Panics txt, s))"

definition pg_ListOrchestrationDefinitions where
  "pg_ListOrchestrationDefinitions p ctx s =
     (let (seq, s) = sql_GetAll (orchestrationStore p) ctx s in (CollectAllDeref (map (map_sum (\<lambda>err. err) Some) seq), s))"

definition pg_ListActivityDefinitions where
  "pg_ListActivityDefinitions p ctx s =
     (let (seq, s) = sql_GetAll (activityStore p) ctx s in (CollectAllDeref (map (map_sum (\<lambda>err. err) Some) seq), s))"

section \<open>Storing a definition\<close>

context sql_entity_store begin

lemma exists_run: "readable s \<Longrightarrow> sql_Exists p (Some tx) i s = (Inr (contents s i \<noteq> None), s)"
  using exists_row [of s i] contents_None [of s i]
  by (simp add: sql_Exists_def getTxFromContext_def names readable_def scan_bool_def)

lemma find_run:
  assumes "readable s"
  shows "sql_FindByID p (Some tx) i s = (case contents s i of None \<Rightarrow> Inl ErrNotFound | Some e \<Rightarrow> Inr e, s)"
proof (rule prod_eqI)
  have "tx_QueryRow tx (SelectByID cols table []) [SqlText i] s =
      ((case rows s i of None \<Rightarrow> Inl ErrNoRows | Some r \<Rightarrow> Inr (map r cols)), s)"
    using assms by (intro select_row) (simp add: readable_def)
  then show "snd (sql_FindByID p (Some tx) i s) = snd (case contents s i of None \<Rightarrow> Inl ErrNotFound | Some e \<Rightarrow> Inr e, s)"
    by (cases "rows s i") (simp_all add: sql_FindByID_def sql_findByID_def getTxFromContext_def names)
qed (use find [OF assms, of i "[]"] in \<open>simp add: sql_FindByID_def\<close>)

text \<open>A definition replaces the one of its type, if there is one.\<close>

lemma store_upsert:
  assumes "readable s" "valid e" "full e" "entity_id p e \<noteq> []"
  shows "fst (store_definition p (Some tx) e s) = Inr e \<and>
    contents (snd (store_definition p (Some tx) e s)) = (contents s)(entity_id p e \<mapsto> e) \<and> readable (snd (store_definition p (Some tx) e s))"
proof (cases "contents s (entity_id p e)")
  case None
  then show ?thesis
    using entities.create [OF assms(1,2,4)] exists_run [OF assms(1)] by (simp add: store_definition_def)
next
  case (Some old)
  obtain r s' where u: "sql_Update p (Some tx) e s = (r, s')" by (cases "sql_Update p (Some tx) e s") auto
  then have "r = None" "contents s' = (contents s)(entity_id p e \<mapsto> e)" "readable s'"
    using entities.update [OF assms] Some by simp_all
  then show ?thesis
    using u Some exists_run [OF assms(1)] find_run [of s' "entity_id p e"] by (simp add: store_definition_def)
qed

lemma delete_run:
  assumes "readable s" "i \<noteq> []"
  shows "fst (delete_definition p (Some tx) i s) = Inr (contents s i \<noteq> None) \<and>
    contents (snd (delete_definition p (Some tx) i s)) = (contents s)(i := None) \<and> readable (snd (delete_definition p (Some tx) i s))"
proof (cases "contents s i")
  case None
  then show ?thesis using entities.delete_missing [OF assms] assms(1)
    by (simp add: delete_definition_def errors_Is_def fun_upd_idem)
next
  case (Some e)
  then show ?thesis using entities.delete [OF assms]
    by (cases "sql_Delete p (Some tx) i s") (auto simp: delete_definition_def)
qed

end

text \<open>The two tables of the store.\<close>

interpretation odef_rows: sql_entity_store "table_tx holds (tableName (newOrchestrationStore nonnil))"
    "tableName (newOrchestrationStore nonnil)" "columnNames (newOrchestrationStore nonnil)" "\<lambda>s. lookup (tbl_rows s)"
    "\<lambda>s. \<not> tbl_aborted s" "newOrchestrationStore nonnil" "\<lambda>d. wf_map (od_Schema d)" "full_odef nonnil"
  by (rule table_entity_store [OF odef_codec])

interpretation adef_rows: sql_entity_store "table_tx holds (tableName (newActivityStore nonnil))"
    "tableName (newActivityStore nonnil)" "columnNames (newActivityStore nonnil)" "\<lambda>s. lookup (tbl_rows s)"
    "\<lambda>s. \<not> tbl_aborted s" "newActivityStore nonnil" "\<lambda>d. wf_map (ad_InputSchema d) \<and> wf_map (ad_OutputSchema d)" "full_adef nonnil"
  by (rule table_entity_store [OF adef_codec])

text \<open>What the table of a store is after a step, and what the step returned.\<close>

definition table_step :: "'e pg_store \<Rightarrow> sql_table_state \<Rightarrow> 'r \<times> sql_table_state \<Rightarrow> 'r \<Rightarrow> (string \<Rightarrow> 'e option) \<Rightarrow> bool" where
  "table_step p s run r contents' \<longleftrightarrow> fst run = r \<and> table_readable p (snd run) \<and> table_contents p (snd run) = contents'"

text \<open>
  The SQL definition store is a map from types to definitions, in any state of its table in
  which every row can be read: storing a definition whose maps and slices are not nil succeeds and
  makes it the definition of its type, whether there was one or not (the store in memory refuses to
  replace one); what is found, and whether one exists, is what was stored; deleting tells whether
  there was one and leaves none.
\<close>

theorem PostgresDefinitionStore_is_map:
  fixes nonnil
  defines "st \<equiv> newPostgresDefinitionStore nonnil"
  defines "otx holds \<equiv> Some (table_tx holds (tableName (orchestrationStore st)))"
  defines "atx holds \<equiv> Some (table_tx holds (tableName (activityStore st)))"
  assumes "table_readable (orchestrationStore st) s" and "table_readable (activityStore st) s'"
  shows "(wf_map (od_Schema d) \<and> full_odef nonnil d \<and> od_Type d \<noteq> [] \<longrightarrow>
       table_step (orchestrationStore st) s (pg_StoreOrchestrationDefinition st (otx holds) d s) (Inr d)
         ((table_contents (orchestrationStore st) s)(od_Type d \<mapsto> d))) \<and>
     (wf_map (ad_InputSchema a) \<and> wf_map (ad_OutputSchema a) \<and> full_adef nonnil a \<and> ad_Type a \<noteq> [] \<longrightarrow>
       table_step (activityStore st) s' (pg_StoreActivityDefinition st (atx holds) a s') (Inr a)
         ((table_contents (activityStore st) s')(ad_Type a \<mapsto> a))) \<and>
     pg_FindOrchestrationDefinition st (otx holds) t s =
       (case table_contents (orchestrationStore st) s t of None \<Rightarrow> Inl ErrNotFound | Some d \<Rightarrow> Inr d, s) \<and>
     pg_FindActivityDefinition st (atx holds) t s' =
       (case table_contents (activityStore st) s' t of None \<Rightarrow> Inl ErrNotFound | Some a \<Rightarrow> Inr a, s') \<and>
     pg_ExistsOrchestrationDefinition st (otx holds) t s = (Inr (table_contents (orchestrationStore st) s t \<noteq> None), s) \<and>
     pg_ExistsActivityDefinition st (atx holds) t s' = (Inr (table_contents (activityStore st) s' t \<noteq> None), s') \<and>
     (t \<noteq> [] \<longrightarrow>
       table_step (orchestrationStore st) s (pg_DeleteOrchestrationDefinition st (otx holds) t s)
         (Inr (table_contents (orchestrationStore st) s t \<noteq> None)) ((table_contents (orchestrationStore st) s)(t := None)) \<and>
       table_step (activityStore st) s' (pg_DeleteActivityDefinition st (atx holds) t s')
         (Inr (table_contents (activityStore st) s' t \<noteq> None)) ((table_contents (activityStore st) s')(t := None)))"
proof -
  have os: "orchestrationStore st = newOrchestrationStore nonnil" "activityStore st = newActivityStore nonnil"
    by (simp_all add: st_def newPostgresDefinitionStore_def)
  have ids: "entity_id (newOrchestrationStore nonnil) = od_Type" "entity_id (newActivityStore nonnil) = ad_Type" for nonnil
    by (simp_all add: newOrchestrationStore_def newActivityStore_def)
  note o = table_contents_eq [OF odef_codec] and a = table_contents_eq [OF adef_codec]
  note ofacts = odef_rows.store_upsert odef_rows.find_run odef_rows.exists_run odef_rows.delete_run
    and afacts = adef_rows.store_upsert adef_rows.find_run adef_rows.exists_run adef_rows.delete_run
  note facts = ofacts [unfolded o [THEN conjunct1] o [THEN conjunct2] ids] afacts [unfolded a [THEN conjunct1] a [THEN conjunct2] ids]
  show ?thesis
    unfolding otx_def atx_def os table_step_def
      pg_StoreOrchestrationDefinition_def pg_StoreActivityDefinition_def pg_FindOrchestrationDefinition_def pg_FindActivityDefinition_def
      pg_ExistsOrchestrationDefinition_def pg_ExistsActivityDefinition_def pg_DeleteOrchestrationDefinition_def pg_DeleteActivityDefinition_def
    using assms(4,5) unfolding os by (simp add: facts)
qed

theorem PostgresDefinitionStore_is_map_witness:
  "fst (pg_DeleteOrchestrationDefinition (newPostgresDefinitionStore {})
      (Some (table_tx (\<lambda>w args r. False) (tableName (orchestrationStore (newPostgresDefinitionStore {}))))) ''deploy'' empty_table) = Inr False"
proof -
  have "table_readable (orchestrationStore (newPostgresDefinitionStore {})) empty_table"
      "table_readable (activityStore (newPostgresDefinitionStore {})) empty_table"
    by (simp_all add: table_readable_def empty_table_def)
  from PostgresDefinitionStore_is_map [OF this, where t = "''deploy''" and holds = "\<lambda>w args r. False"]
  show ?thesis by (simp add: table_step_def table_contents_def empty_table_def)
qed

end
