(* ===== verification/Sql_Schema.thy ===== *)
theory Sql_Schema
  imports Tenant_Sql Definition_Sql
begin

text \<open>
  The schema of the two databases: how it is created (\<open>common/sqlstore/schema.go\<close>, \<open>createTables\<close> of
  the assemblies) and the tables (\<open>tmanager/sqlstore/tables.go\<close>, \<open>pmanager/sqlstore/tables.go\<close>), with
  the types of their columns, which the stores have to meet. Indexes only affect how fast a query is.
\<close>

section \<open>Tables\<close>

datatype column_type = Text | Varchar nat | Integer | Bigint | Boolean | Jsonb | Timestamp

record column =
  col_name :: string
  col_type :: column_type
  col_not_null :: bool
  col_default :: bool
  col_unique :: bool

record db_table =
  tb_name :: string
  tb_columns :: "column list"

definition col :: "string \<Rightarrow> column_type \<Rightarrow> column" where
  "col name ty = \<lparr>col_name = name, col_type = ty, col_not_null = False, col_default = False, col_unique = False\<rparr>"

definition primary_key :: "string \<Rightarrow> column_type \<Rightarrow> column" where
  "primary_key name ty = (col name ty)\<lparr>col_not_null := True, col_unique := True\<rparr>"

definition not_null :: "column \<Rightarrow> column" where "not_null c = c\<lparr>col_not_null := True\<rparr>"
definition defaulted :: "column \<Rightarrow> column" where "defaulted c = c\<lparr>col_default := True\<rparr>"
definition unique_col :: "column \<Rightarrow> column" where "unique_col c = c\<lparr>col_unique := True\<rparr>"

lemmas column_simps = col_def primary_key_def not_null_def defaulted_def unique_col_def

definition tenantsTable :: db_table where
  "tenantsTable = \<lparr>tb_name = ''tenants'', tb_columns =
     [primary_key ''id'' Text, defaulted (col ''version'' Integer), col ''properties'' Jsonb, col ''owner'' (Varchar 255)]\<rparr>"

definition participantProfilesTable :: db_table where
  "participantProfilesTable = \<lparr>tb_name = ''participant_profiles'', tb_columns =
     [primary_key ''id'' (Varchar 255), not_null (col ''version'' Bigint), col ''identifier'' (Varchar 255), col ''tenant_id'' (Varchar 255),
      col ''participant_roles'' Jsonb, col ''dataspace_profile_ids'' Jsonb, col ''vpas'' Jsonb, col ''error'' Boolean,
      col ''error_detail'' Text, col ''properties'' Jsonb, col ''owner'' (Varchar 255)]\<rparr>"

definition dataspaceProfilesTable :: db_table where
  "dataspaceProfilesTable = \<lparr>tb_name = ''dataspace_profiles'', tb_columns =
     [primary_key ''id'' Text, defaulted (col ''version'' Integer), col ''dataspace_spec'' Jsonb, col ''artifacts'' Jsonb,
      col ''deployments'' Jsonb, col ''properties'' Jsonb]\<rparr>"

definition cellsTable :: db_table where
  "cellsTable = \<lparr>tb_name = ''cells'', tb_columns =
     [primary_key ''id'' Text, unique_col (col ''external_id'' Text), defaulted (col ''version'' Integer), not_null (col ''state'' Text),
      defaulted (not_null (col ''state_timestamp'' Timestamp)), col ''properties'' Jsonb]\<rparr>"

definition orchestrationEntriesTable :: db_table where
  "orchestrationEntriesTable = \<lparr>tb_name = ''orchestration_entries'', tb_columns =
     [primary_key ''id'' (Varchar 255), not_null (col ''version'' Bigint), not_null (col ''correlation_id'' (Varchar 255)),
      not_null (col ''definition_id'' (Varchar 255)), col ''state'' Integer, not_null (col ''state_timestamp'' Timestamp),
      defaulted (not_null (col ''created_timestamp'' Timestamp)), col ''orchestration_type'' (Varchar 255)]\<rparr>"

definition orchestrationDefinitionsTable :: db_table where
  "orchestrationDefinitionsTable = \<lparr>tb_name = ''orchestration_definitions'', tb_columns =
     [primary_key ''id'' (Varchar 255), col ''type'' (Varchar 255), not_null (col ''version'' Bigint), col ''description'' Text,
      defaulted (col ''active'' Boolean), col ''schema'' Jsonb, col ''activities'' Jsonb, col ''templateref'' Text]\<rparr>"

definition activityDefinitionsTable :: db_table where
  "activityDefinitionsTable = \<lparr>tb_name = ''activity_definitions'', tb_columns =
     [primary_key ''id'' (Varchar 255), col ''type'' (Varchar 255), not_null (col ''version'' Bigint), col ''description'' Text,
      col ''input_schema'' Jsonb, col ''output_schema'' Jsonb]\<rparr>"

section \<open>Creating the schema\<close>

text \<open>A database for this purpose: beginning, statements in the transaction, committing and rolling back.\<close>

record 's schema_db =
  sd_begin :: "'s \<Rightarrow> go_error option \<times> 's"
  sd_lock :: "int \<Rightarrow> 's \<Rightarrow> go_error option \<times> 's"
  sd_create :: "db_table \<Rightarrow> 's \<Rightarrow> go_error option \<times> 's"
  sd_commit :: "'s \<Rightarrow> go_error option \<times> 's"
  sd_rollback :: "'s \<Rightarrow> 's"

definition schemaLockKey :: int where "schemaLockKey = 0x43464d5f534348"

text \<open>The deferred rollback runs on every return; after a commit it does nothing.\<close>

definition CreateSchema :: "'s schema_db \<Rightarrow> ('s \<Rightarrow> go_error option \<times> 's) \<Rightarrow> 's \<Rightarrow> go_error option \<times> 's" where
  "CreateSchema db create s =
     (case sd_begin db s of
        (Some err, s) \<Rightarrow> (Some (wrapped ''failed to begin schema transaction'' err), s)
      | (None, s) \<Rightarrow>
          (case sd_lock db schemaLockKey s of
             (Some err, s) \<Rightarrow> (Some (wrapped ''failed to acquire schema lock'' err), sd_rollback db s)
           | (None, s) \<Rightarrow>
               (case create s of
                  (Some err, s) \<Rightarrow> (Some err, sd_rollback db s)
                | (None, s) \<Rightarrow>
                    (case sd_commit db s of
                       (Some err, s) \<Rightarrow> (Some (wrapped ''failed to commit schema'' err), sd_rollback db s)
                     | (None, s) \<Rightarrow> (None, s)))))"

fun create_all :: "'s schema_db \<Rightarrow> db_table list \<Rightarrow> 's \<Rightarrow> go_error option \<times> 's" where
  "create_all db [] s = (None, s)"
| "create_all db (t # ts) s = (case sd_create db t s of (Some err, s) \<Rightarrow> (Some err, s) | (None, s) \<Rightarrow> create_all db ts s)"

definition tm_createTablesWith :: "'s schema_db \<Rightarrow> 's \<Rightarrow> go_error option \<times> 's" where
  "tm_createTablesWith db = create_all db [cellsTable, dataspaceProfilesTable, participantProfilesTable, tenantsTable]"

definition tm_createTables :: "'s schema_db \<Rightarrow> 's \<Rightarrow> go_error option \<times> 's" where
  "tm_createTables db = CreateSchema db (tm_createTablesWith db)"

definition pm_createTablesWith :: "'s schema_db \<Rightarrow> 's \<Rightarrow> go_error option \<times> 's" where
  "pm_createTablesWith db = create_all db [orchestrationEntriesTable, orchestrationDefinitionsTable, activityDefinitionsTable]"

definition pm_createTables :: "'s schema_db \<Rightarrow> 's \<Rightarrow> go_error option \<times> 's" where
  "pm_createTables db = CreateSchema db (pm_createTablesWith db)"

section \<open>Types of the values\<close>

fun has_type :: "column_type \<Rightarrow> sql_value \<Rightarrow> bool" where
  "has_type Text (SqlText s) = True"
| "has_type (Varchar n) (SqlText s) = True"
| "has_type Integer (SqlInt i) = True"
| "has_type Bigint (SqlInt i) = True"
| "has_type Boolean (SqlBool b) = True"
| "has_type Jsonb (SqlBytes j) = True"
| "has_type Timestamp (SqlTime t) = True"
| "has_type _ _ = False"

definition column_of :: "db_table \<Rightarrow> string \<Rightarrow> column option" where
  "column_of t c = find (\<lambda>k. col_name k = c) (tb_columns t)"

text \<open>A record is typed by a table: every value goes to a column of its type, and no mandatory column is missing.\<close>

definition typed_record :: "db_table \<Rightarrow> db_record \<Rightarrow> bool" where
  "typed_record t dbr \<longleftrightarrow>
     list_all (\<lambda>(c, v). case column_of t c of None \<Rightarrow> False | Some k \<Rightarrow> is_ok (driver_value v) \<and> has_type (col_type k) (plain v)) dbr \<and>
     list_all (\<lambda>k. col_not_null k \<and> \<not> col_default k \<longrightarrow> has_key dbr (col_name k)) (tb_columns t)"

definition typed_store :: "db_table \<Rightarrow> 'e pg_store \<Rightarrow> ('e \<Rightarrow> bool) \<Rightarrow> bool" where
  "typed_store t p valid \<longleftrightarrow> tb_name t = tableName p \<and> distinct (map col_name (tb_columns t)) \<and>
     set (map col_name (tb_columns t)) = set (columnNames p) \<and>
     (\<forall>e. valid e \<longrightarrow> (\<exists>dbr. entityToRecord p e = Inr dbr \<and> typed_record t dbr))"

lemmas typed_defs = typed_store_def typed_record_def column_of_def column_simps has_key_def column_unless_nil_def

lemma tenant_typed: "typed_store tenantsTable newTenantStore (\<lambda>t. True)"
  by (auto simp: typed_defs tenantsTable_def newTenantStore_def tenantEntityToRecord_def split: option.split)

lemma cell_typed: "typed_store cellsTable newCellStore (\<lambda>c. IsValid (ce_State c))"
  by (auto simp: typed_defs cellsTable_def newCellStore_def cellEntityToRecord_def DeploymentState_Value_def split: option.split)

lemma dprofile_typed: "typed_store dataspaceProfilesTable (newDataspaceProfileStore nonnil) (\<lambda>p. True)"
  by (auto simp: typed_defs dataspaceProfilesTable_def newDataspaceProfileStore_def dProfileEntityToRecord_def split: option.split)

lemma pprofile_typed: "typed_store participantProfilesTable (newParticipantProfileStore nonnil) (\<lambda>p. True)"
  by (auto simp: typed_defs participantProfilesTable_def newParticipantProfileStore_def pProfileEntityToRecord_def split: option.split)

lemma entry_typed: "typed_store orchestrationEntriesTable newOrchestrationEntryStore (\<lambda>e. True)"
  by (auto simp: typed_defs orchestrationEntriesTable_def newOrchestrationEntryStore_def orchestrationEntryToRecord_def)

lemma odef_typed: "typed_store orchestrationDefinitionsTable (newOrchestrationStore nonnil) (\<lambda>d. True)"
  by (auto simp: typed_defs orchestrationDefinitionsTable_def newOrchestrationStore_def orchestrationEntityToRecord_def)

lemma adef_typed: "typed_store activityDefinitionsTable (newActivityStore nonnil) (\<lambda>d. True)"
  by (auto simp: typed_defs activityDefinitionsTable_def newActivityStore_def activityEntityToRecord_def)


end
