(* ===== verification/System_Assembler.thy ===== *)
theory System_Assembler
  imports Dag_Sort Store
begin

text \<open>
  The assembly of a runtime (\<open>common/system/assembler.go\<close>): the registry of services, the runtime
  mode, and the order in which service assemblies are initialized, prepared and started.

  An assembly is a record of its methods. The contexts that the methods get are pointers to the
  registry, the monitor and the configuration, so a method is a function of the state that these
  are part of.
\<close>

section \<open>The registry\<close>

type_synonym 'v registry = "(string, 'v) gomap"

definition NewServiceRegistry :: "'v registry" where
  "NewServiceRegistry = []"

definition Registry_Register :: "string \<Rightarrow> 'v \<Rightarrow> 'v registry \<Rightarrow> 'v registry" where
  "Registry_Register serviceType service r = put serviceType service r"

definition Resolve :: "string \<Rightarrow> 'v registry \<Rightarrow> 'v call_result" where
  "Resolve serviceType r =
     (case lookup r serviceType of
        Some service \<Rightarrow> Returns service | None \<Rightarrow> Panics (''service not found: '' @ serviceType))"

definition ResolveOptional :: "string \<Rightarrow> 'v registry \<Rightarrow> 'v option" where
  "ResolveOptional serviceType r = lookup r serviceType"

section \<open>The runtime mode\<close>

definition DebugMode :: string where "DebugMode = ''debug''"
definition DevelopmentMode :: string where "DevelopmentMode = ''development''"
definition ProductionMode :: string where "ProductionMode = ''production''"

definition RuntimeMode_IsValid :: "string \<Rightarrow> bool" where
  "RuntimeMode_IsValid m \<longleftrightarrow> m = DebugMode \<or> m = DevelopmentMode \<or> m = ProductionMode"

definition ParseRuntimeMode :: "string \<Rightarrow> go_error + string" where
  "ParseRuntimeMode mode =
     (let m = map to_lower mode
      in if m = ''production'' \<or> m = ''prod'' then Inr ProductionMode
         else if m = ''development'' \<or> m = ''dev'' then Inr DevelopmentMode
         else if m = ''debug'' then Inr DebugMode
         else Inl (ErrorString (''invalid runtime mode: '' @ mode)))"

section \<open>Assemblies\<close>

record 's assembly =
  as_Name :: string
  as_Provides :: "string list"
  as_Requires :: "string list"
  as_Init :: "'s \<Rightarrow> unit call_result \<times> 's"
  as_Prepare :: "'s \<Rightarrow> unit call_result \<times> 's"
  as_Start :: "'s \<Rightarrow> unit call_result \<times> 's"
  as_Finalize :: "'s \<Rightarrow> unit call_result \<times> 's"
  as_Shutdown :: "'s \<Rightarrow> unit call_result \<times> 's"

text \<open>The first loop: a vertex per assembly, and the assembly that provides each service.\<close>

definition add_assembly ::
    "'s assembly \<Rightarrow> 's assembly graph \<times> (string, 's assembly) gomap \<Rightarrow> 's assembly graph \<times> (string, 's assembly) gomap" where
  "add_assembly a gm = (AddVertex (as_Name a) a (fst gm), fold (\<lambda>provided m. put provided a m) (as_Provides a) (snd gm))"

text \<open>The second loop: an edge per requirement.\<close>

fun add_requirements ::
    "(string, 's assembly) gomap \<Rightarrow> string \<Rightarrow> string list \<Rightarrow> 's assembly graph \<Rightarrow> go_error + 's assembly graph" where
  "add_requirements mapped name [] g = Inr g"
| "add_requirements mapped name (required # rs) g =
     (case lookup mapped required of
        None \<Rightarrow> Inl (ErrorString (''required assembly not found for assembly '' @ name @ '': '' @ required))
      | Some requiredService \<Rightarrow> add_requirements mapped name rs (AddEdge name (as_Name requiredService) g))"

fun add_all_requirements ::
    "(string, 's assembly) gomap \<Rightarrow> 's assembly list \<Rightarrow> 's assembly graph \<Rightarrow> go_error + 's assembly graph" where
  "add_all_requirements mapped [] g = Inr g"
| "add_all_requirements mapped (a # as) g =
     bind_result (add_requirements mapped (as_Name a) (as_Requires a) g) (add_all_requirements mapped as)"

text \<open>The swaps of \<open>reverse\<close>.\<close>

function reverse_from :: "nat \<Rightarrow> nat \<Rightarrow> 'a list \<Rightarrow> 'a list" where
  "reverse_from i j s = (if i < j then reverse_from (i + 1) (j - 1) (s[i := s ! j, j := s ! i]) else s)"
  by auto
termination by (relation "measure (\<lambda>(i, j, s). j - i)") auto

declare reverse_from.simps [simp del]

definition reverse :: "'a list \<Rightarrow> 'a list" where
  "reverse s = reverse_from 0 (length s - 1) s"

text \<open>A loop over the assemblies that calls one of their methods and stops at the first error.\<close>

fun run_phase ::
    "('s assembly \<Rightarrow> 's \<Rightarrow> unit call_result \<times> 's) \<Rightarrow> string \<Rightarrow> 's assembly list \<Rightarrow> 's \<Rightarrow> unit call_result \<times> 's" where
  "run_phase method doing [] s = (Returns (), s)"
| "run_phase method doing (v # vs) s =
     (case method v s of
        (Returns u, s) \<Rightarrow> run_phase method doing vs s
      | (Fails e, s) \<Rightarrow> (Fails (WrapError (''error '' @ doing @ '' assembly '' @ as_Name v @ '': '' @ error_text e) e), s)
      | (Panics reason, s) \<Rightarrow> (Panics reason, s))"

definition bring_up :: "'s assembly list \<Rightarrow> 's \<Rightarrow> unit call_result \<times> 's" where
  "bring_up order s =
     bind_outcome (run_phase as_Init ''initializing'' order s) (\<lambda>_ s.
     bind_outcome (run_phase as_Prepare ''preparing'' order s) (\<lambda>_ s.
       run_phase as_Start ''starting'' order s))"

text \<open>
  \<open>Assemble\<close>: the error, the assemblies that the assembler holds afterwards, and the state. The
  value of a vertex of the order is the one that \<open>AddVertex\<close> stored.
\<close>

definition Assemble :: "range_order \<Rightarrow> 's assembly list \<Rightarrow> 's \<Rightarrow> (unit call_result \<times> 's assembly list) \<times> 's" where
  "Assemble ord assemblies s =
     (let (assemblyGraph, mappedAssemblies) = fold add_assembly assemblies (NewGraph, [])
      in case add_all_requirements mappedAssemblies assemblies assemblyGraph of
           Inl err \<Rightarrow> ((Fails err, assemblies), s)
         | Inr g \<Rightarrow>
             (case TopologicalSort ord g of
                None \<Rightarrow> ((Panics ''sorting does not end'', assemblies), s)
              | Some res \<Rightarrow>
                  if HasCycle res then ((Fails (ErrorString ''cycle detected in assembly graph''), assemblies), s)
                  else
                    (let reverseOrder = List.map_filter (GetValue g) (reverse (SortedOrder res))
                     in case bring_up reverseOrder s of
                          (Returns u, s) \<Rightarrow> ((Returns (), reverseOrder), s)
                        | (r, s) \<Rightarrow> ((r, assemblies), s))))"

definition Assembler_Shutdown :: "'s assembly list \<Rightarrow> 's \<Rightarrow> unit call_result \<times> 's" where
  "Assembler_Shutdown assemblies s =
     bind_outcome (run_phase as_Finalize ''finalizing'' assemblies s) (\<lambda>_ s.
       run_phase as_Shutdown ''shutting down'' assemblies s)"

section \<open>Reversing\<close>

lemma reverse_from_nth:
  assumes "i + j + 1 = n" "length s = n" "k < n"
  shows "reverse_from i j s ! k = (if i \<le> k \<and> k \<le> j then s ! (n - 1 - k) else s ! k) \<and> length (reverse_from i j s) = n"
  using assms
proof (induction i j s rule: reverse_from.induct)
  case (1 i j s)
  show ?case
  proof (cases "i < j")
    case True
    have "(i + 1) + (j - 1) + 1 = n" using 1(2) True by simp
    from 1(1) [OF True this _ 1(4)] 1(2-4) True show ?thesis
      by (subst (1 2) reverse_from.simps) (auto simp: nth_list_update)
  next
    case False
    with 1(2) have "i \<le> k \<and> k \<le> j \<Longrightarrow> k = n - 1 - k" by arith
    with False 1(3) show ?thesis by (subst (1 2) reverse_from.simps) auto
  qed
qed

lemma reverse_rev: "reverse s = rev s"
proof (cases "s = []")
  case False
  then have n: "0 + (length s - 1) + 1 = length s" by (cases s) auto
  show ?thesis
  proof (rule nth_equalityI)
    show "length (reverse s) = length (rev s)"
      using reverse_from_nth [OF n refl, of 0] False by (simp add: reverse_def)
    fix k assume "k < length (reverse s)"
    then have "k < length s" using reverse_from_nth [OF n refl, of 0] False by (simp add: reverse_def)
    with reverse_from_nth [OF n refl this] show "reverse s ! k = rev s ! k"
      by (simp add: reverse_def rev_nth) (use False in auto)
  qed
qed (simp add: reverse_def reverse_from.simps)

section \<open>The graph of the assemblies\<close>

text \<open>The assembly that a name stands for, and the one that provides a service.\<close>

definition named :: "'s assembly list \<Rightarrow> string \<Rightarrow> 's assembly option" where
  "named as n = find (\<lambda>a. as_Name a = n) as"

definition provider :: "'s assembly list \<Rightarrow> string \<Rightarrow> 's assembly option" where
  "provider as r = find (\<lambda>a. r \<in> set (as_Provides a)) (rev as)"

definition requires_rel :: "'s assembly list \<Rightarrow> (string \<times> string) set" where
  "requires_rel as =
     {(as_Name a, as_Name b) | a b. a \<in> set as \<and> (\<exists>r\<in>set (as_Requires a). provider as r = Some b)}"

lemma find_append: "find P (xs @ ys) = (case find P xs of Some x \<Rightarrow> Some x | None \<Rightarrow> find P ys)"
  by (induction xs) auto

lemma lookup_fold_put: "lookup (fold (\<lambda>p m. put p a m) ps m) r = (if r \<in> set ps then Some a else lookup m r)"
  by (induction ps arbitrary: m) (auto simp: lookup_put)

lemma NewGraph_simps [simp]: "edges_of NewGraph k = []" "GetValue NewGraph n = None" "vids NewGraph = []"
  by (simp_all add: edges_of_def GetValue_def NewGraph_def)

lemma add_assembly_facts:
  assumes "fold add_assembly as (g, m) = (g', m')" "wf_graph g"
  shows "wf_graph g'" "set (vids g') = set (vids g) \<union> as_Name ` set as" "edges_of g' k = edges_of g k"
    "GetValue g' n = (case GetValue g n of Some v \<Rightarrow> Some v | None \<Rightarrow> named as n)"
    "lookup m' r = (case provider as r of Some b \<Rightarrow> Some b | None \<Rightarrow> lookup m r)"
proof -
  have "wf_graph g' \<and> set (vids g') = set (vids g) \<union> as_Name ` set as \<and> edges_of g' k = edges_of g k \<and>
    GetValue g' n = (case GetValue g n of Some v \<Rightarrow> Some v | None \<Rightarrow> named as n) \<and>
    lookup m' r = (case provider as r of Some b \<Rightarrow> Some b | None \<Rightarrow> lookup m r)"
    using assms
  proof (induction as arbitrary: g m)
    case (Cons a as)
    let ?g = "AddVertex (as_Name a) a g"
    from Cons.prems have "fold add_assembly as (?g, fold (\<lambda>p m. put p a m) (as_Provides a) m) = (g', m')"
      by (simp add: add_assembly_def [where a = a])
    note ih = Cons.IH [OF this wf_AddVertex [OF Cons.prems(2)]]
    have ids: "set (vids g') = set (vids g) \<union> as_Name ` set (a # as)"
      using conjunct1 [OF conjunct2 [OF ih]] by (simp only: vids_AddVertex list.set image_insert) blast
    have vals: "GetValue g' n = (case GetValue g n of Some v \<Rightarrow> Some v | None \<Rightarrow> named (a # as) n)"
      using ih by (simp only: GetValue_AddVertex named_def) (simp split: option.split)
    have prov: "lookup m' r = (case provider (a # as) r of Some b \<Rightarrow> Some b | None \<Rightarrow> lookup m r)"
      using ih by (simp only: lookup_fold_put provider_def rev.simps find_append) (simp split: option.split)
    from ih ids vals prov show ?case by (simp only: edges_of_AddVertex simp_thms)
  qed (auto simp: named_def provider_def split: option.split)
  then show "wf_graph g'" "set (vids g') = set (vids g) \<union> as_Name ` set as" "edges_of g' k = edges_of g k"
    "GetValue g' n = (case GetValue g n of Some v \<Rightarrow> Some v | None \<Rightarrow> named as n)"
    "lookup m' r = (case provider as r of Some b \<Rightarrow> Some b | None \<Rightarrow> lookup m r)" by blast+
qed

lemma add_requirements_cases:
  "(\<exists>r\<in>set rs. lookup m r = None) \<and> (\<exists>err. add_requirements m n rs g = Inl err) \<or>
   (\<forall>r\<in>set rs. lookup m r \<noteq> None) \<and>
   add_requirements m n rs g = Inr (fold (\<lambda>r. AddEdge n (as_Name (the (lookup m r)))) rs g)"
  by (induction m n rs g rule: add_requirements.induct) (auto split: option.split)

lemma add_all_requirements_cases:
  "(\<exists>a\<in>set as. \<exists>r\<in>set (as_Requires a). lookup m r = None) \<and> (\<exists>err. add_all_requirements m as g = Inl err) \<or>
   (\<forall>a\<in>set as. \<forall>r\<in>set (as_Requires a). lookup m r \<noteq> None) \<and>
   add_all_requirements m as g =
     Inr (fold (\<lambda>a. fold (\<lambda>r. AddEdge (as_Name a) (as_Name (the (lookup m r)))) (as_Requires a)) as g)"
proof (induction m as g rule: add_all_requirements.induct)
  case (2 m a as g)
  from add_requirements_cases [of "as_Requires a" m "as_Name a" g] show ?case
  proof (elim disjE conjE)
    assume "add_requirements m (as_Name a) (as_Requires a) g =
      Inr (fold (\<lambda>r. AddEdge (as_Name a) (as_Name (the (lookup m r)))) (as_Requires a) g)"
      "\<forall>r\<in>set (as_Requires a). lookup m r \<noteq> None"
    with 2 [of "fold (\<lambda>r. AddEdge (as_Name a) (as_Name (the (lookup m r)))) (as_Requires a) g"] show ?thesis by auto
  qed auto
qed simp

text \<open>Edges are added between vertices that are there.\<close>

lemma fold_AddEdge:
  "\<forall>r\<in>set rs. f r \<in> set (vids g) \<Longrightarrow> n \<in> set (vids g) \<Longrightarrow> wf_graph g \<Longrightarrow>
   wf_graph (fold (\<lambda>r. AddEdge n (f r)) rs g) \<and> vids (fold (\<lambda>r. AddEdge n (f r)) rs g) = vids g \<and>
   GetValue (fold (\<lambda>r. AddEdge n (f r)) rs g) k = GetValue g k \<and>
   set (edges_of (fold (\<lambda>r. AddEdge n (f r)) rs g) k) = set (edges_of g k) \<union> (if k = n then f ` set rs else {})"
proof (induction rs arbitrary: g)
  case (Cons r rs)
  let ?g = "AddEdge n (f r) g"
  have "\<forall>r\<in>set rs. f r \<in> set (vids ?g)" "n \<in> set (vids ?g)" "wf_graph ?g"
    using Cons.prems wf_AddEdge by (simp_all only: vids_AddEdge list.set insert_iff) blast+
  from Cons.IH [OF this] Cons.prems show ?case by (simp add: edges_of_AddEdge)
qed simp

lemma fold_fold_AddEdge:
  "\<forall>a\<in>set as. as_Name a \<in> set (vids g) \<and> (\<forall>r\<in>set (as_Requires a). f r \<in> set (vids g)) \<Longrightarrow> wf_graph g \<Longrightarrow>
   wf_graph (fold (\<lambda>a. fold (\<lambda>r. AddEdge (as_Name a) (f r)) (as_Requires a)) as g) \<and>
   vids (fold (\<lambda>a. fold (\<lambda>r. AddEdge (as_Name a) (f r)) (as_Requires a)) as g) = vids g \<and>
   GetValue (fold (\<lambda>a. fold (\<lambda>r. AddEdge (as_Name a) (f r)) (as_Requires a)) as g) k = GetValue g k \<and>
   set (edges_of (fold (\<lambda>a. fold (\<lambda>r. AddEdge (as_Name a) (f r)) (as_Requires a)) as g) k) =
     set (edges_of g k) \<union> {f r | a r. a \<in> set as \<and> as_Name a = k \<and> r \<in> set (as_Requires a)}"
proof (induction as arbitrary: g)
  case (Cons a as)
  let ?g = "fold (\<lambda>r. AddEdge (as_Name a) (f r)) (as_Requires a) g"
  have 1: "wf_graph ?g \<and> vids ?g = vids g \<and> GetValue ?g k = GetValue g k \<and>
      set (edges_of ?g k) = set (edges_of g k) \<union> (if k = as_Name a then f ` set (as_Requires a) else {})"
    by (rule fold_AddEdge) (use Cons.prems in auto)
  from Cons.IH [of ?g] 1 Cons.prems show ?case by auto
qed simp

section \<open>Assembling\<close>

lemma named_Some: "named as n = Some a \<Longrightarrow> a \<in> set as \<and> as_Name a = n"
  by (auto simp: named_def find_Some_iff)

lemma named_ex: "n \<in> as_Name ` set as \<Longrightarrow> \<exists>a. named as n = Some a"
  by (cases "named as n") (auto simp: named_def find_None_iff)

lemma provider_in: "provider as r = Some b \<Longrightarrow> b \<in> set as"
  unfolding provider_def find_Some_iff by (metis nth_mem set_rev)

lemma map_filter_all: "\<forall>n\<in>set ns. f n \<noteq> None \<Longrightarrow> List.map_filter f ns = map (\<lambda>n. the (f n)) ns"
  by (induction ns) (auto simp: List.map_filter_simps)

definition missing_requirement :: "'s assembly list \<Rightarrow> bool" where
  "missing_requirement as \<longleftrightarrow> (\<exists>a\<in>set as. \<exists>r\<in>set (as_Requires a). provider as r = None)"

lemma assembly_graph:
  obtains (missing) err where "missing_requirement as"
      "\<And>ord s. Assemble ord as s = ((Fails err, as), s)"
  | (graph) g where "\<not> missing_requirement as" "wf_graph g" "set (vids g) = as_Name ` set as" "edge_rel g = requires_rel as"
      "GetValue g = named as"
      "\<And>ord s. Assemble ord as s = (case TopologicalSort ord g of
          None \<Rightarrow> ((Panics ''sorting does not end'', as), s)
        | Some res \<Rightarrow>
            if HasCycle res then ((Fails (ErrorString ''cycle detected in assembly graph''), as), s)
            else (let reverseOrder = List.map_filter (GetValue g) (rev (SortedOrder res))
              in case bring_up reverseOrder s of
                   (Returns u, s) \<Rightarrow> ((Returns (), reverseOrder), s) | (r, s) \<Rightarrow> ((r, as), s)))"
proof -
  obtain g0 m where g0: "fold add_assembly as (NewGraph, []) = (g0, m)" by fastforce
  note facts = add_assembly_facts [OF g0 wf_NewGraph]
  have m: "lookup m = provider as"
    using facts(5) by (auto simp: fun_eq_iff split: option.splits)
  have ids: "set (vids g0) = as_Name ` set as" using facts(2) by simp
  let ?f = "\<lambda>r. as_Name (the (lookup m r))"
  let ?g = "fold (\<lambda>a. fold (\<lambda>r. AddEdge (as_Name a) (?f r)) (as_Requires a)) as g0"
  from add_all_requirements_cases [of as m g0] show thesis
  proof (elim disjE conjE exE)
    fix err assume "\<exists>a\<in>set as. \<exists>r\<in>set (as_Requires a). lookup m r = None" "add_all_requirements m as g0 = Inl err"
    then show thesis by (intro missing [of err]) (simp_all add: missing_requirement_def m Assemble_def g0)
  next
    assume a: "\<forall>a\<in>set as. \<forall>r\<in>set (as_Requires a). lookup m r \<noteq> None" "add_all_requirements m as g0 = Inr ?g"
    have "\<forall>a\<in>set as. as_Name a \<in> set (vids g0) \<and> (\<forall>r\<in>set (as_Requires a). ?f r \<in> set (vids g0))"
      using a(1) unfolding ids m by (metis image_eqI option.collapse provider_in)
    note g = fold_fold_AddEdge [OF this facts(1)]
    have "edge_rel ?g = requires_rel as"
    proof (rule set_eqI, clarify)
      fix x y
      have "y \<in> set (edges_of ?g x) \<longleftrightarrow> (\<exists>a r. a \<in> set as \<and> as_Name a = x \<and> r \<in> set (as_Requires a) \<and> y = ?f r)"
        using g [of x] facts(3) [of x] by auto
      then show "(x, y) \<in> edge_rel ?g \<longleftrightarrow> (x, y) \<in> requires_rel as"
        using a(1) by (fastforce simp: requires_rel_def m)
    qed
    moreover have "GetValue ?g = named as"
      using g facts(4) by (simp add: fun_eq_iff)
    moreover have "\<not> missing_requirement as" using a(1) by (auto simp: missing_requirement_def m)
    moreover have "set (vids ?g) = as_Name ` set as" using g ids by (simp only: simp_thms)
    moreover have "wf_graph ?g" using g by blast
    ultimately show thesis
      by (intro graph [of ?g]) (simp_all only: Assemble_def g0 reverse_rev Let_def prod.case a(2) sum.case not_False_eq_True)
  qed
qed


text \<open>Three assemblies that record their calls, registered in the wrong order.\<close>

definition recording :: "string \<Rightarrow> string list \<Rightarrow> string list \<Rightarrow> (string \<times> string) list assembly" where
  "recording name provides requires =
     \<lparr>as_Name = name, as_Provides = provides, as_Requires = requires,
      as_Init = \<lambda>l. (Returns (), l @ [(''init'', name)]), as_Prepare = \<lambda>l. (Returns (), l @ [(''prepare'', name)]),
      as_Start = \<lambda>l. (Returns (), l @ [(''start'', name)]), as_Finalize = \<lambda>l. (Returns (), l @ [(''finalize'', name)]),
      as_Shutdown = \<lambda>l. (Returns (), l @ [(''shutdown'', name)])\<rparr>"

definition sample_assemblies :: "(string \<times> string) list assembly list" where
  "sample_assemblies = [recording ''core'' [''service''] [''store''], recording ''store'' [''store''] [''db''],
     recording ''db'' [''db''] []]"

lemma sample_provider:
  "provider sample_assemblies ''store'' = Some (recording ''store'' [''store''] [''db''])"
  "provider sample_assemblies ''db'' = Some (recording ''db'' [''db''] [])"
  by (simp_all add: provider_def sample_assemblies_def recording_def)

lemma requires_rel_code:
  "requires_rel as = (\<Union>a\<in>set as. \<Union>r\<in>set (as_Requires a).
     (case provider as r of None \<Rightarrow> {} | Some b \<Rightarrow> {(as_Name a, as_Name b)}))"
  by (fastforce simp: requires_rel_def split: option.splits)

lemma sample_requires: "requires_rel sample_assemblies = {(''core'', ''store''), (''store'', ''db'')}"
proof -
  define P where "P = provider sample_assemblies"
  have "requires_rel sample_assemblies =
      (case P ''store'' of None \<Rightarrow> {} | Some b \<Rightarrow> {(''core'', as_Name b)}) \<union>
      (case P ''db'' of None \<Rightarrow> {} | Some b \<Rightarrow> {(''store'', as_Name b)})"
    unfolding requires_rel_code P_def [symmetric]
    by (cases "P ''store''"; cases "P ''db''") (simp_all add: sample_assemblies_def recording_def)
  then show ?thesis by (simp add: P_def sample_provider) (auto simp: recording_def)
qed

lemma sample_acyclic: "acyclic {(''core'', ''store''), (''store'', ''db'')}"
  by (auto simp: acyclic_insert acyclic_def [of "{}"] elim: rtranclE)


end
