(* ===== verification/Http_Client.thy ===== *)
theory Http_Client
  imports Json_Codec
begin

text \<open>
  What the HTTP clients of the agents share: escaping of values in URLs (what they use of \<open>net/url\<close>),
  the errors made from responses (\<open>common/httpx/status.go\<close>), the folder of a participant in the vault
  (\<open>agent/common/vault/folder.go\<close>), and the steps of a call: get a token, build the request, send it
  and judge the response.

  The token provider and the network are the parameter \<open>net\<close>, operations on a state \<open>'s\<close> of the world
  that is otherwise unknown. A response holds the bytes that were read from its body, the error if
  reading failed, and what the bytes parse to. Encoding the payloads to JSON does not fail.
\<close>

section \<open>Escaping\<close>

definition hex_digit :: "nat \<Rightarrow> char" where
  "hex_digit n = ''0123456789ABCDEF'' ! n"

definition percent_encode :: "char \<Rightarrow> string" where
  "percent_encode c = [CHR ''%'', hex_digit (of_char c div 16), hex_digit (of_char c mod 16)]"

definition unreserved :: "char \<Rightarrow> bool" where
  "unreserved c \<longleftrightarrow> is_alnum c \<or> c \<in> set ''-_.~''"

definition PathEscape :: "string \<Rightarrow> string" where
  "PathEscape s = concat (map (\<lambda>c. if unreserved c \<or> c \<in> set ''$&+=:@'' then [c] else percent_encode c) s)"

definition QueryEscape :: "string \<Rightarrow> string" where
  "QueryEscape s = concat (map (\<lambda>c. if unreserved c then [c] else if c = CHR '' '' then [CHR ''+''] else percent_encode c) s)"

text \<open>The characters that end a path segment are never part of an escaped value.\<close>

lemma hex_digit_alnum: "n < 16 \<Longrightarrow> is_alnum (hex_digit n)"
proof -
  assume "n < 16"
  then have "n \<in> set [0..<16]" by simp
  then show ?thesis by (auto simp: upt_rec hex_digit_def is_alnum_def less_eq_char_def)
qed

lemma high_digit: "(of_char c :: nat) div 16 < 16"
  using nat_of_char_less_256 [of c] by linarith

lemma percent_encode_chars: "x \<in> set (percent_encode c) \<Longrightarrow> x = CHR ''%'' \<or> is_alnum x"
  using hex_digit_alnum [of "of_char c div 16"] hex_digit_alnum [of "of_char c mod 16"] high_digit [of c]
  by (auto simp: percent_encode_def)

lemma PathEscape_chars: "x \<in> set (PathEscape s) \<Longrightarrow> unreserved x \<or> x \<in> set ''$&+=:@%''"
  by (auto simp: PathEscape_def unreserved_def dest!: percent_encode_chars split: if_splits)

lemma not_unreserved [simp]:
  "\<not> unreserved (CHR ''/'')" "\<not> unreserved (CHR ''?'')" "\<not> unreserved (CHR ''#'')" "\<not> unreserved (CHR ''%'')"
  by (simp_all add: unreserved_def is_alnum_def less_eq_char_def)

lemma PathEscape_segment:
  "CHR ''/'' \<notin> set (PathEscape s)" "CHR ''?'' \<notin> set (PathEscape s)" "CHR ''#'' \<notin> set (PathEscape s)"
  by (auto dest!: PathEscape_chars)

text \<open>A participant context ID needs no escaping.\<close>

lemma PathEscape_context_id: "ValidateParticipantContextID s \<Longrightarrow> PathEscape s = s"
proof -
  assume "ValidateParticipantContextID s"
  then have "\<forall>c\<in>set s. unreserved c" by (auto simp: ValidateParticipantContextID_def unreserved_def list_all_iff)
  then have "concat (map (\<lambda>c. if unreserved c \<or> c \<in> set ''$&+=:@'' then [c] else percent_encode c) s) = concat (map (\<lambda>c. [c]) s)"
    by (intro arg_cong [of _ _ concat] map_cong) auto
  then show ?thesis by (simp add: PathEscape_def)
qed

text \<open>Different values have different escapes, so no two values share a path.\<close>

lemma hex_digit_inj: "m < 16 \<Longrightarrow> n < 16 \<Longrightarrow> hex_digit m = hex_digit n \<Longrightarrow> m = n"
proof -
  have "distinct ''0123456789ABCDEF''" by simp
  moreover assume "m < 16" "n < 16" "hex_digit m = hex_digit n"
  ultimately show ?thesis by (simp add: hex_digit_def nth_eq_iff_index_eq)
qed

lemma percent_encode_inj: "percent_encode c = percent_encode d \<Longrightarrow> c = d"
proof -
  assume "percent_encode c = percent_encode d"
  then have "of_char c div 16 = (of_char d div 16 :: nat)" "of_char c mod 16 = (of_char d mod 16 :: nat)"
    using high_digit [of c] high_digit [of d] by (auto simp: percent_encode_def intro!: hex_digit_inj)
  then have "of_char c = (of_char d :: nat)" by (metis div_mult_mod_eq)
  then show ?thesis by simp
qed

lemma escape_inj:
  assumes keep: "\<And>c. keep c \<Longrightarrow> c \<noteq> CHR ''%''"
  shows "concat (map (\<lambda>c. if keep c then [c] else percent_encode c) s) = concat (map (\<lambda>c. if keep c then [c] else percent_encode c) t)
    \<Longrightarrow> s = t"
proof (induction s arbitrary: t)
  case Nil
  then show ?case by (cases t) (auto simp: percent_encode_def split: if_splits)
next
  case (Cons c s)
  from Cons.prems obtain d t' where t: "t = d # t'" by (cases t) (auto simp: percent_encode_def split: if_splits)
  have "keep c = keep d" using Cons.prems t keep [of c] keep [of d] by (auto simp: percent_encode_def split: if_splits)
  moreover have "length (percent_encode c) = length (percent_encode d)" by (simp add: percent_encode_def)
  ultimately have "c = d"
    "concat (map (\<lambda>c. if keep c then [c] else percent_encode c) s) = concat (map (\<lambda>c. if keep c then [c] else percent_encode c) t')"
    using Cons.prems t percent_encode_inj [of c d] by (auto split: if_splits)
  with Cons.IH [of t'] t show ?case by simp
qed

lemma PathEscape_inj: "PathEscape s = PathEscape t \<Longrightarrow> s = t"
  unfolding PathEscape_def by (erule escape_inj [rotated]) auto

section \<open>Folders in the vault\<close>

definition folder_element :: "string \<Rightarrow> bool" where
  "folder_element element \<longleftrightarrow>
     element \<noteq> [] \<and> element \<noteq> ''.'' \<and> element \<noteq> ''..'' \<and> CHR ''/'' \<notin> set element \<and> CHR 0x5C \<notin> set element"

text \<open>\<open>quote\<close> is what \<open>%q\<close> prints for a string.\<close>

definition ParticipantFolderPath :: "(string \<Rightarrow> string) \<Rightarrow> string \<Rightarrow> string \<Rightarrow> go_error + string" where
  "ParticipantFolderPath quote participantContextID component =
     (case find (\<lambda>element. \<not> folder_element element) [participantContextID, component] of
        Some element \<Rightarrow> Inl (ErrorString (''invalid vault folder path component '' @ quote element))
      | None \<Rightarrow> Inr (participantContextID @ ''/'' @ component))"

lemma ParticipantFolderPath_ok:
  "ParticipantFolderPath quote p c = Inr f \<longleftrightarrow> folder_element p \<and> folder_element c \<and> f = p @ ''/'' @ c"
  by (auto simp: ParticipantFolderPath_def)

lemma separated_inj: "c \<notin> set a \<Longrightarrow> c \<notin> set b \<Longrightarrow> a @ c # xs = b @ c # ys \<longleftrightarrow> a = b \<and> xs = ys"
proof (induction a arbitrary: b)
  case Nil
  then show ?case by (cases b) auto
next
  case (Cons x a)
  then show ?case by (cases b) auto
qed

text \<open>No two participants share a folder.\<close>

lemma ParticipantFolderPath_inj:
  "ParticipantFolderPath quote p c = Inr f \<Longrightarrow> ParticipantFolderPath quote' p' c' = Inr f \<Longrightarrow> p = p' \<and> c = c'"
  by (auto simp: ParticipantFolderPath_ok folder_element_def separated_inj)

lemma context_id_folder: "ValidateParticipantContextID s \<Longrightarrow> folder_element s"
  using context_id_safe [of s]
  by (auto simp: folder_element_def ValidateParticipantContextID_def list_all_iff is_alnum_def less_eq_char_def)

section \<open>Errors from responses\<close>

text \<open>The length of the UTF-8 character that a list of bytes starts with, 0 if it starts with none.\<close>

definition continues :: "nat \<Rightarrow> bool" where "continues b \<longleftrightarrow> 128 \<le> b \<and> b < 192"

fun rune_length :: "nat list \<Rightarrow> nat" where
  "rune_length [] = 0"
| "rune_length (b # bs) =
     (if b < 128 then 1
      else case bs of [] \<Rightarrow> 0
       | b1 # bs \<Rightarrow>
           if 194 \<le> b \<and> b < 224 then (if continues b1 then 2 else 0)
           else case bs of [] \<Rightarrow> 0
            | b2 # bs \<Rightarrow>
                if 224 \<le> b \<and> b < 240 then
                  (if continues b1 \<and> (b = 224 \<longrightarrow> 160 \<le> b1) \<and> (b = 237 \<longrightarrow> b1 < 160) \<and> continues b2 then 3 else 0)
                else case bs of [] \<Rightarrow> 0
                 | b3 # bs \<Rightarrow>
                     if 240 \<le> b \<and> b < 245 \<and> continues b1 \<and> (b = 240 \<longrightarrow> 144 \<le> b1) \<and> (b = 244 \<longrightarrow> b1 < 144) \<and>
                        continues b2 \<and> continues b3 then 4 else 0)"

text \<open>The characters of a string; a byte that is part of none stands alone. \<open>strings.ToValidUTF8\<close> drops those bytes.\<close>

function runes :: "nat list \<Rightarrow> nat list list" where
  "runes [] = []"
| "runes (b # bs) =
     (let n = max 1 (rune_length (b # bs)) in take n (b # bs) # runes (drop n (b # bs)))"
  by pat_completeness auto
termination by (relation "measure length") auto

definition valid_runes :: "nat list \<Rightarrow> nat list list" where
  "valid_runes bs = filter (\<lambda>r. rune_length r \<noteq> 0) (runes bs)"

definition IsControl :: "nat list \<Rightarrow> bool" where
  "IsControl r \<longleftrightarrow>
     (case r of [b] \<Rightarrow> b < 32 \<or> b = 127 | [b, b1] \<Rightarrow> b = 194 \<and> 128 \<le> b1 \<and> b1 < 160 | _ \<Rightarrow> False)"

definition IsSpace :: "nat list \<Rightarrow> bool" where
  "IsSpace r \<longleftrightarrow>
     r \<in> set [[9], [10], [11], [12], [13], [32], [194, 133], [194, 160], [225, 154, 128], [226, 128, 168], [226, 128, 169],
       [226, 128, 175], [226, 129, 159], [227, 128, 128]] \<or> r \<in> set (map (\<lambda>b. [226, 128, b]) [128..<139])"

text \<open>\<open>strings.FieldsFunc\<close>; \<open>cur\<close> is the field that is being read.\<close>

fun FieldsFunc :: "('a \<Rightarrow> bool) \<Rightarrow> 'a list \<Rightarrow> 'a list \<Rightarrow> 'a list list" where
  "FieldsFunc f cur [] = (if cur = [] then [] else [cur])"
| "FieldsFunc f cur (x # xs) =
     (if f x then (if cur = [] then FieldsFunc f [] xs else cur # FieldsFunc f [] xs)
      else FieldsFunc f (cur @ [x]) xs)"

definition join_fields :: "'a \<Rightarrow> 'a list list \<Rightarrow> 'a list" where
  "join_fields sep gs = (case gs of [] \<Rightarrow> [] | f # fs \<Rightarrow> f @ concat (map (\<lambda>g. sep # g) fs))"

definition trim :: "('a \<Rightarrow> bool) \<Rightarrow> 'a list \<Rightarrow> 'a list" where
  "trim f xs = rev (dropWhile f (rev (dropWhile f xs)))"

definition TrimSpace :: "string \<Rightarrow> string" where
  "TrimSpace s = map char_of (concat (trim IsSpace (runes (map of_char s))))"

definition maxErrorBodyBytes :: nat where "maxErrorBodyBytes = 1024"

definition one_line :: "nat list \<Rightarrow> nat list list" where
  "one_line raw = trim IsSpace (join_fields [32] (FieldsFunc IsControl [] (valid_runes raw)))"

definition ReadErrorBody :: "string \<Rightarrow> string" where
  "ReadErrorBody raw =
     (let body = map char_of (concat (one_line (map of_char (take maxErrorBodyBytes raw))))
      in if maxErrorBodyBytes < length raw \<and> body \<noteq> [] then body @ '' (truncated)'' else body)"

text \<open>The line is no longer than what it was made of, and has no control characters.\<close>

abbreviation bytes :: "nat list list \<Rightarrow> nat" where
  "bytes rs \<equiv> length (concat rs)"

lemma concat_runes [simp]: "concat (runes bs) = bs"
  by (induction bs rule: runes.induct) (auto simp: Let_def)

lemma runes_nonempty: "[] \<notin> set (runes bs)"
  by (induction bs rule: runes.induct) (auto simp: Let_def max_def)

lemma bytes_filter: "bytes (filter f rs) \<le> bytes rs"
  by (induction rs) auto

lemma valid_runes_bytes: "bytes (valid_runes bs) \<le> length bs"
  using bytes_filter [of "\<lambda>r. rune_length r \<noteq> 0" "runes bs"] by (simp add: valid_runes_def)

lemma valid_runes_nonempty: "[] \<notin> set (valid_runes bs)"
  using runes_nonempty [of bs] by (auto simp: valid_runes_def)

lemma bytes_dropWhile: "bytes (dropWhile f rs) \<le> bytes rs"
  by (induction rs) auto

lemma bytes_rev: "bytes (rev rs) = bytes rs"
  by (induction rs) auto

lemma bytes_trim: "bytes (trim f rs) \<le> bytes rs"
  unfolding trim_def by (metis bytes_dropWhile bytes_rev le_trans)

lemma FieldsFunc_bytes:
  assumes "[] \<notin> set rs"
  shows "(\<Sum>g\<leftarrow>FieldsFunc f cur rs. Suc (bytes g)) \<le> Suc (bytes cur + bytes rs)"
  using assms
proof (induction f cur rs rule: FieldsFunc.induct)
  case (2 f cur x xs)
  then have "1 \<le> length x" by (cases x) auto
  then show ?case using 2 by (auto split: if_splits)
qed simp

lemma bytes_fields: "bytes (concat (map (\<lambda>g. [c] # g) fs)) = (\<Sum>g\<leftarrow>fs. Suc (bytes g))"
  by (induction fs) auto

lemma join_fields_bytes: "bytes (join_fields [c] fs) \<le> (\<Sum>g\<leftarrow>fs. Suc (bytes g)) - 1"
  using bytes_fields [of c "tl fs"] by (cases fs) (auto simp: join_fields_def)

lemma one_line_bytes: "bytes (one_line raw) \<le> length raw"
proof -
  have "bytes (one_line raw) \<le> bytes (join_fields [32] (FieldsFunc IsControl [] (valid_runes raw)))"
    unfolding one_line_def by (rule bytes_trim)
  also have "\<dots> \<le> (\<Sum>g\<leftarrow>FieldsFunc IsControl [] (valid_runes raw). Suc (bytes g)) - 1" by (rule join_fields_bytes)
  also have "\<dots> \<le> bytes (valid_runes raw)" using FieldsFunc_bytes [OF valid_runes_nonempty, of IsControl "[]" raw] by simp
  finally show ?thesis using valid_runes_bytes [of raw] by linarith
qed

lemma ReadErrorBody_bound: "length (ReadErrorBody raw) \<le> maxErrorBodyBytes + length '' (truncated)''"
  using one_line_bytes [of "map of_char (take maxErrorBodyBytes raw)"] by (auto simp: ReadErrorBody_def Let_def)

lemma set_FieldsFunc: "g \<in> set (FieldsFunc f cur xs) \<Longrightarrow> x \<in> set g \<Longrightarrow> \<forall>y\<in>set cur. \<not> f y \<Longrightarrow> \<not> f x"
  by (induction f cur xs rule: FieldsFunc.induct) (auto split: if_splits)

lemma one_line_no_control: "r \<in> set (one_line raw) \<Longrightarrow> \<not> IsControl r"
proof -
  assume "r \<in> set (one_line raw)"
  then have "r \<in> set (join_fields [32] (FieldsFunc IsControl [] (valid_runes raw)))"
    by (auto simp: one_line_def trim_def dest!: set_dropWhileD)
  then have "r = [32] \<or> (\<exists>g\<in>set (FieldsFunc IsControl [] (valid_runes raw)). r \<in> set g)"
    by (cases "FieldsFunc IsControl [] (valid_runes raw)") (auto simp: join_fields_def split: if_splits)
  then show ?thesis using set_FieldsFunc [of _ IsControl "[]" "valid_runes raw" r] by (auto simp: IsControl_def)
qed

section \<open>Calls\<close>

datatype http_payload = NoBody | JsonBody json | FormBody "(string, string) gomap"

record http_out =
  out_Method :: string
  out_URL :: string
  out_Headers :: "(string, string) gomap"
  out_Body :: http_payload

record http_in =
  in_Status :: int
  in_Location :: string
  in_ReadError :: "go_error option"
  in_Body :: string
  in_Json :: "go_error + json"

text \<open>\<open>url_Parse\<close> gives the path of a URL, decoded; building a request fails exactly if its URL does not parse.\<close>

record 's net =
  tp_GetToken :: "string \<Rightarrow> string \<Rightarrow> 's \<Rightarrow> (go_error + string) \<times> 's"
  http_Do :: "http_out \<Rightarrow> 's \<Rightarrow> (go_error + http_in) \<times> 's"
  url_Parse :: "string \<Rightarrow> go_error + string"

definition wrapping :: "string \<Rightarrow> go_error \<Rightarrow> go_error" where
  "wrapping message err = WrapError (message @ '': '' @ error_text err) err"

definition recoverable :: "string \<Rightarrow> go_error \<Rightarrow> go_error" where
  "recoverable message err = NewRecoverableWrappedError (Some err) message"

definition NewStatusError :: "string \<Rightarrow> http_in \<Rightarrow> go_error" where
  "NewStatusError operation rsp = StatusError operation (in_Status rsp) (ReadErrorBody (in_Body rsp))"

definition unexpected_status :: "string \<Rightarrow> http_in \<Rightarrow> go_error" where
  "unexpected_status message rsp =
     ErrorString (message @ '': received status code '' @ int_text (in_Status rsp) @ '', body: '' @ ReadErrorBody (in_Body rsp))"

text \<open>What a client asks for: the token, and the request that is sent with it.\<close>

record api_request =
  aq_Scope :: string
  aq_Participant :: string
  aq_Method :: string
  aq_URL :: string
  aq_JsonHeader :: bool
  aq_Body :: "json option"

definition bearer_request :: "api_request \<Rightarrow> string \<Rightarrow> http_out" where
  "bearer_request q accessToken =
     \<lparr>out_Method = aq_Method q, out_URL = aq_URL q,
      out_Headers = (if aq_JsonHeader q then [(''Content-Type'', ''application/json'')] else []) @
        [(''Authorization'', ''Bearer '' @ accessToken)],
      out_Body = (case aq_Body q of None \<Rightarrow> NoBody | Some j \<Rightarrow> JsonBody j)\<rparr>"

text \<open>
  The steps that every operation of a client has; the operations differ in the request, in how they wrap
  the error of each step, and in what they make of the response.
\<close>

definition api_call ::
    "'s net \<Rightarrow> api_request \<Rightarrow> (go_error \<Rightarrow> go_error) \<Rightarrow> (go_error \<Rightarrow> go_error) \<Rightarrow> (go_error \<Rightarrow> go_error) \<Rightarrow>
     (http_in \<Rightarrow> go_error + 'a) \<Rightarrow> 's \<Rightarrow> (go_error + 'a) \<times> 's" where
  "api_call net q tokenFailed requestFailed sendFailed judge s =
     (case tp_GetToken net (aq_Scope q) (aq_Participant q) s of
        (Inl err, s) \<Rightarrow> (Inl (tokenFailed err), s)
      | (Inr accessToken, s) \<Rightarrow>
          (case url_Parse net (aq_URL q) of
             Inl err \<Rightarrow> (Inl (requestFailed err), s)
           | Inr path \<Rightarrow>
               (case http_Do net (bearer_request q accessToken) s of
                  (Inl err, s) \<Rightarrow> (Inl (sendFailed err), s)
                | (Inr rsp, s) \<Rightarrow> (judge rsp, s))))"

text \<open>How a call of a client can go.\<close>

lemma api_call_cases:
  assumes "api_call net q te re se judge s = (r, s')"
  obtains (no_token) err where "tp_GetToken net (aq_Scope q) (aq_Participant q) s = (Inl err, s')" "r = Inl (te err)"
  | (unparsed) t err where "tp_GetToken net (aq_Scope q) (aq_Participant q) s = (Inr t, s')" "url_Parse net (aq_URL q) = Inl err" "r = Inl (re err)"
  | (unanswered) t s1 err where "tp_GetToken net (aq_Scope q) (aq_Participant q) s = (Inr t, s1)"
      "http_Do net (bearer_request q t) s1 = (Inl err, s')" "r = Inl (se err)"
  | (answered) t s1 rsp where "tp_GetToken net (aq_Scope q) (aq_Participant q) s = (Inr t, s1)"
      "http_Do net (bearer_request q t) s1 = (Inr rsp, s')" "r = judge rsp"
  using assms by (auto simp: api_call_def split: prod.splits sum.splits)

definition ok_if :: "bool \<Rightarrow> go_error \<Rightarrow> go_error + unit" where
  "ok_if b err = (if b then Inr () else Inl err)"

text \<open>The calls that a client makes, recorded in order.\<close>

datatype net_event = GotToken string string "go_error + string" | Sent http_out

definition recording :: "'s net \<Rightarrow> ('s \<times> net_event list) net" where
  "recording net =
     \<lparr>tp_GetToken = (\<lambda>scope participant (s, tr).
        let (r, s) = tp_GetToken net scope participant s in (r, (s, tr @ [GotToken scope participant r]))),
      http_Do = (\<lambda>req (s, tr). let (r, s) = http_Do net req s in (r, (s, tr @ [Sent req]))),
      url_Parse = url_Parse net\<rparr>"

definition authorized_calls :: "api_request \<Rightarrow> net_event list \<Rightarrow> bool" where
  "authorized_calls q tr \<longleftrightarrow>
     (\<exists>r. tr = [GotToken (aq_Scope q) (aq_Participant q) r]) \<or>
     (\<exists>accessToken. tr = [GotToken (aq_Scope q) (aq_Participant q) (Inr accessToken), Sent (bearer_request q accessToken)])"

lemma api_call_authorized:
  "api_call (recording net) q te re se judge (s, tr) = (r, (s', tr')) \<Longrightarrow> \<exists>new. tr' = tr @ new \<and> authorized_calls q new"
  by (auto simp: api_call_def recording_def authorized_calls_def Let_def split: prod.splits sum.splits)

section \<open>Services\<close>

text \<open>
  What a request does to the part \<open>v\<close> of the world that a service keeps: it is \<open>new\<close> if the answer is good,
  \<open>old\<close> if it is not; without an answer it is either.
\<close>

definition success :: "int \<Rightarrow> bool" where "success status \<longleftrightarrow> 200 \<le> status \<and> status < 300"

definition written :: "(go_error + int) \<Rightarrow> (int \<Rightarrow> bool) \<Rightarrow> 'v \<Rightarrow> 'v \<Rightarrow> 'v \<Rightarrow> bool" where
  "written r good old new v \<longleftrightarrow>
     (case r of Inl err \<Rightarrow> v = old \<or> v = new | Inr status \<Rightarrow> v = (if good status then new else old))"

definition status_of :: "go_error + http_in \<Rightarrow> go_error + int" where
  "status_of r = map_sum id in_Status r"

definition answer :: "int \<Rightarrow> http_in" where
  "answer status = \<lparr>in_Status = status, in_Location = [], in_ReadError = None, in_Body = [], in_Json = Inr JNull\<rparr>"

lemma answer_status [simp]: "status_of (Inr (answer n)) = Inr n"
  by (simp add: status_of_def answer_def)

end
