(* ===== verification/Agent_Clients.thy ===== *)
theory Agent_Clients
  imports Http_Client
begin

text \<open>
  The HTTP clients of the agents (\<open>agent/common\<close>): the management API and the data planes of the control
  plane (\<open>controlplane\<close>), the identity API of IdentityHub (\<open>identityhub\<close>), the key mappings and transfer
  type mappings of Siglet (\<open>siglet\<close>) and the admin API of the IssuerService (\<open>issuerservice\<close>).

  An interface of the code is a record of operations on a state; a client is the value of it that makes
  calls on a \<open>net\<close>. What a client asks for is an \<open>api_request\<close> of its own definition.
\<close>

section \<open>Control plane\<close>

definition management_api_admin :: string where "management_api_admin = ''management-api:admin''"

definition participants_path :: string where "participants_path = ''/v5/participants''"

definition contextConnector :: json where
  "contextConnector = JArr [JStr ''https://w3id.org/edc/connector/management/v2'']"

record vault_config =
  vc_VaultURL :: string
  vc_SecretPath :: string
  vc_FolderPath :: string

definition vault_config_json :: "vault_config \<Rightarrow> json" where
  "vault_config_json c = JObj [(''vaultUrl'', JStr (vc_VaultURL c)), (''secretPath'', JStr (vc_SecretPath c)),
     (''folderPath'', JStr (vc_FolderPath c))]"

record participant_context_config =
  pcc_ParticipantContextID :: string
  pcc_Entries :: "(string, string) gomap"
  pcc_SecretEntries :: "(string, string) gomap"

text \<open>\<open>serialize\<close> gives the JSON text of a value.\<close>

definition NewParticipantContextConfig :: "(json \<Rightarrow> string) \<Rightarrow> string \<Rightarrow> string \<Rightarrow> vault_config \<Rightarrow> participant_context_config" where
  "NewParticipantContextConfig serialize participantContextID participantID vConfig =
     \<lparr>pcc_ParticipantContextID = participantContextID,
      pcc_Entries = [(''edc.iam.issuer.id'', participantID), (''edc.participant.id'', participantID)],
      pcc_SecretEntries = [(''edc.vault.hashicorp.config'', serialize (JObj [(''config'', vault_config_json vConfig)]))]\<rparr>"

record participant_context =
  px_ParticipantContextID :: string
  px_Identifier :: string
  px_Properties :: props
  px_State :: string

record data_plane_registration =
  dr_ID :: string
  dr_TransferTypes :: "string list"
  dr_Endpoint :: string
  dr_Authorization :: "props option"

definition data_plane_registration_json :: "data_plane_registration \<Rightarrow> json" where
  "data_plane_registration_json r =
     JObj ([(''dataplaneId'', JStr (dr_ID r)), (''transferTypes'', enc_strings (dr_TransferTypes r)),
        (''endpoint'', JStr (dr_Endpoint r))] @
       (case dr_Authorization r of Some m \<Rightarrow> if m = [] then [] else [(''authorization'', JObj m)] | None \<Rightarrow> []))"

text \<open>The interfaces \<open>ManagementAPIClient\<close> and \<open>DataPlaneRegistrationClient\<close>.\<close>

record 's management_api =
  ma_CreateParticipantContext :: "participant_context \<Rightarrow> 's \<Rightarrow> (go_error + unit) \<times> 's"
  ma_PatchConfig :: "string \<Rightarrow> participant_context_config \<Rightarrow> 's \<Rightarrow> (go_error + unit) \<times> 's"
  ma_DeleteConfig :: "string \<Rightarrow> 's \<Rightarrow> (go_error + unit) \<times> 's"
  ma_DeleteParticipantContext :: "string \<Rightarrow> 's \<Rightarrow> (go_error + unit) \<times> 's"
  ma_AssociateProfiles :: "string \<Rightarrow> string list \<Rightarrow> 's \<Rightarrow> (go_error + unit) \<times> 's"

record 's data_plane_api =
  dp_RegisterDataPlane :: "string \<Rightarrow> data_plane_registration \<Rightarrow> 's \<Rightarrow> (go_error + unit) \<times> 's"
  dp_UnregisterDataPlane :: "string \<Rightarrow> string \<Rightarrow> 's \<Rightarrow> (go_error + unit) \<times> 's"

text \<open>What most operations do with an error, and what they make of a status.\<close>

definition no_token :: "go_error \<Rightarrow> go_error" where
  "no_token = wrapping ''failed to get API access token''"

definition expect :: "(int \<Rightarrow> bool) \<Rightarrow> string \<Rightarrow> http_in \<Rightarrow> go_error + unit" where
  "expect good message rsp = ok_if (good (in_Status rsp)) (unexpected_status message rsp)"

definition not_an_error :: "int \<Rightarrow> bool" where "not_an_error status \<longleftrightarrow> 200 \<le> status \<and> status < 400"

definition delete_context_request :: "string \<Rightarrow> string \<Rightarrow> api_request" where
  "delete_context_request base participantContextID =
     \<lparr>aq_Scope = management_api_admin, aq_Participant = participantContextID, aq_Method = ''DELETE'',
      aq_URL = base @ participants_path @ ''/'' @ PathEscape participantContextID, aq_JsonHeader = False, aq_Body = None\<rparr>"

definition cp_DeleteParticipantContext :: "'s net \<Rightarrow> string \<Rightarrow> string \<Rightarrow> 's \<Rightarrow> (go_error + unit) \<times> 's" where
  "cp_DeleteParticipantContext net base participantContextID =
     api_call net (delete_context_request base participantContextID) no_token id
       (wrapping ''failed to delete participant context on control plane'')
       (\<lambda>rsp. if in_Status rsp = 404 then
            Inl (ErrorString (''participant context '' @ participantContextID @ '' not found in control plane''))
          else expect (\<lambda>status. status = 200) ''failed to delete participant context on control plane'' rsp)"

definition create_context_request :: "string \<Rightarrow> participant_context \<Rightarrow> api_request" where
  "create_context_request base manifest =
     \<lparr>aq_Scope = management_api_admin, aq_Participant = px_ParticipantContextID manifest, aq_Method = ''POST'',
      aq_URL = base @ participants_path, aq_JsonHeader = True,
      aq_Body = Some (JObj [(''@context'', contextConnector), (''@type'', JStr ''ParticipantContext''),
        (''@id'', JStr (px_ParticipantContextID manifest)), (''identity'', JStr (px_Identifier manifest)),
        (''properties'', JObj (px_Properties manifest)), (''state'', JStr (px_State manifest))])\<rparr>"

definition cp_CreateParticipantContext :: "'s net \<Rightarrow> string \<Rightarrow> participant_context \<Rightarrow> 's \<Rightarrow> (go_error + unit) \<times> 's" where
  "cp_CreateParticipantContext net base manifest =
     api_call net (create_context_request base manifest) no_token id
       (wrapping ''failed to create participant context on control plane'')
       (expect (\<lambda>status. status = 200) ''failed to create participant context on control plane'')"

definition enc_string_map :: "(string, string) gomap \<Rightarrow> json" where "enc_string_map = enc_map JStr"

definition patch_config_request :: "string \<Rightarrow> string \<Rightarrow> participant_context_config \<Rightarrow> api_request" where
  "patch_config_request base participantContextID config =
     \<lparr>aq_Scope = management_api_admin, aq_Participant = participantContextID, aq_Method = ''PATCH'',
      aq_URL = base @ participants_path @ ''/'' @ PathEscape participantContextID @ ''/config'', aq_JsonHeader = True,
      aq_Body = Some (JObj [(''@context'', contextConnector), (''@type'', JStr ''ParticipantContextConfig''),
        (''entries'', enc_string_map (pcc_Entries config)), (''privateEntries'', enc_string_map (pcc_SecretEntries config)),
        (''identity'', JStr (pcc_ParticipantContextID config))])\<rparr>"

definition cp_PatchConfig :: "'s net \<Rightarrow> string \<Rightarrow> string \<Rightarrow> participant_context_config \<Rightarrow> 's \<Rightarrow> (go_error + unit) \<times> 's" where
  "cp_PatchConfig net base participantContextID config =
     api_call net (patch_config_request base participantContextID config)
       (recoverable ''failed to get API access token'') id
       (recoverable ''failed to patch participant context config on control plane'')
       (\<lambda>rsp. ok_if (not_an_error (in_Status rsp))
          (NewStatusError ''failed to patch participant context config on control plane'' rsp))"

definition register_request :: "string \<Rightarrow> string \<Rightarrow> data_plane_registration \<Rightarrow> api_request" where
  "register_request base participantContextID registration =
     \<lparr>aq_Scope = management_api_admin, aq_Participant = participantContextID, aq_Method = ''PUT'',
      aq_URL = base @ participants_path @ ''/'' @ PathEscape participantContextID @ ''/dataplanes'', aq_JsonHeader = True,
      aq_Body = Some (data_plane_registration_json registration)\<rparr>"

definition cp_RegisterDataPlane :: "'s net \<Rightarrow> string \<Rightarrow> string \<Rightarrow> data_plane_registration \<Rightarrow> 's \<Rightarrow> (go_error + unit) \<times> 's" where
  "cp_RegisterDataPlane net base participantContextID registration =
     api_call net (register_request base participantContextID registration) no_token id
       (wrapping ''failed to register data plane on control plane'')
       (expect not_an_error ''failed to register data plane on control plane'')"

definition unregister_request :: "string \<Rightarrow> string \<Rightarrow> string \<Rightarrow> api_request" where
  "unregister_request base participantContextID dataPlaneID =
     \<lparr>aq_Scope = management_api_admin, aq_Participant = participantContextID, aq_Method = ''DELETE'',
      aq_URL = base @ participants_path @ ''/'' @ PathEscape participantContextID @ ''/dataplanes/'' @ PathEscape dataPlaneID,
      aq_JsonHeader = False, aq_Body = None\<rparr>"

definition cp_UnregisterDataPlane :: "'s net \<Rightarrow> string \<Rightarrow> string \<Rightarrow> string \<Rightarrow> 's \<Rightarrow> (go_error + unit) \<times> 's" where
  "cp_UnregisterDataPlane net base participantContextID dataPlaneID =
     api_call net (unregister_request base participantContextID dataPlaneID) no_token id
       (wrapping ''failed to unregister data plane on control plane'')
       (expect (\<lambda>status. status = 404 \<or> not_an_error status) ''failed to unregister data plane on control plane'')"

definition profiles_request :: "string \<Rightarrow> string \<Rightarrow> string list \<Rightarrow> api_request" where
  "profiles_request base participantContextID profiles =
     \<lparr>aq_Scope = management_api_admin, aq_Participant = participantContextID, aq_Method = ''PUT'',
      aq_URL = base @ participants_path @ ''/'' @ PathEscape participantContextID @ ''/profiles'', aq_JsonHeader = True,
      aq_Body = Some (JObj [(''@context'', contextConnector), (''@type'', JStr ''AssociateDataspaceProfile''),
        (''profiles'', enc_strings profiles)])\<rparr>"

definition cp_AssociateProfiles :: "'s net \<Rightarrow> string \<Rightarrow> string \<Rightarrow> string list \<Rightarrow> 's \<Rightarrow> (go_error + unit) \<times> 's" where
  "cp_AssociateProfiles net base participantContextID profiles =
     api_call net (profiles_request base participantContextID profiles) no_token id
       (wrapping ''failed to associate dataspace profiles on control plane'')
       (expect not_an_error ''failed to associate dataspace profiles on control plane'')"

text \<open>Deleting a config does nothing: the control plane has no endpoint for it.\<close>

definition cp_DeleteConfig :: "string \<Rightarrow> 's \<Rightarrow> (go_error + unit) \<times> 's" where
  "cp_DeleteConfig participantContextID s = (Inr (), s)"

definition HttpManagementAPIClient :: "'s net \<Rightarrow> string \<Rightarrow> 's management_api" where
  "HttpManagementAPIClient net base =
     \<lparr>ma_CreateParticipantContext = cp_CreateParticipantContext net base, ma_PatchConfig = cp_PatchConfig net base,
      ma_DeleteConfig = cp_DeleteConfig, ma_DeleteParticipantContext = cp_DeleteParticipantContext net base,
      ma_AssociateProfiles = cp_AssociateProfiles net base\<rparr>"

definition HttpDataPlaneClient :: "'s net \<Rightarrow> string \<Rightarrow> 's data_plane_api" where
  "HttpDataPlaneClient net base =
     \<lparr>dp_RegisterDataPlane = cp_RegisterDataPlane net base, dp_UnregisterDataPlane = cp_UnregisterDataPlane net base\<rparr>"

section \<open>IdentityHub\<close>

definition identity_api_admin :: string where "identity_api_admin = ''identity-api:admin''"
definition credentials_read :: string where "credentials_read = ''identity-api:credentials:read''"
definition credentials_write :: string where "credentials_write = ''identity-api:credentials:write''"

definition CredentialRequestStateCreated :: string where "CredentialRequestStateCreated = ''CREATED''"
definition CredentialRequestStateIssued :: string where "CredentialRequestStateIssued = ''ISSUED''"
definition CredentialRequestStateError :: string where "CredentialRequestStateError = ''ERROR''"

record key_generator_parameters =
  kg_KeyID :: string
  kg_PrivateKeyAlias :: string
  kg_KeyAlgorithm :: string
  kg_Curve :: string

record participant_manifest =
  pm_CredentialServiceURL :: string
  pm_CredentialServiceID :: string
  pm_ProtocolServiceURL :: string
  pm_ProtocolServiceID :: string
  pm_DataServiceURL :: string
  pm_DataServiceID :: string
  pm_IsActive :: bool
  pm_ParticipantContextID :: string
  pm_DID :: string
  pm_KeyGeneratorParameters :: key_generator_parameters
  pm_VaultConfig :: vault_config
  pm_ProvisionStsAccount :: bool
  pm_ProvisionApiKey :: bool

definition has_prefix :: "string \<Rightarrow> string \<Rightarrow> bool" where
  "has_prefix s p \<longleftrightarrow> take (length p) s = p"

text \<open>The key ID becomes a fragment of the DID, unless it starts with the DID.\<close>

definition qualified_key_id :: "string \<Rightarrow> string \<Rightarrow> string" where
  "qualified_key_id did keyID =
     (if has_prefix keyID did then keyID else did @ (if has_prefix keyID ''#'' then keyID else CHR ''#'' # keyID))"

definition NewParticipantManifest ::
    "string \<Rightarrow> string \<Rightarrow> string \<Rightarrow> string \<Rightarrow> string \<Rightarrow> string \<Rightarrow> (participant_manifest \<Rightarrow> participant_manifest) list \<Rightarrow> participant_manifest" where
  "NewParticipantManifest uuid participantContextID did credentialServiceURL protocolServiceURL dataServiceURL opts =
     (let manifest = \<lparr>pm_CredentialServiceURL = credentialServiceURL,
            pm_CredentialServiceID = participantContextID @ ''-credentialservice'',
            pm_ProtocolServiceURL = protocolServiceURL, pm_ProtocolServiceID = participantContextID @ ''-dsp'',
            pm_DataServiceURL = dataServiceURL, pm_DataServiceID = participantContextID @ ''-dataservice'',
            pm_IsActive = True, pm_ParticipantContextID = participantContextID, pm_DID = did,
            pm_KeyGeneratorParameters = \<lparr>kg_KeyID = ''key1'', kg_PrivateKeyAlias = uuid, kg_KeyAlgorithm = ''EDDSA'',
              kg_Curve = ''Ed25519''\<rparr>,
            pm_VaultConfig = \<lparr>vc_VaultURL = [], vc_SecretPath = ''v1/participants'',
              vc_FolderPath = participantContextID @ ''/identityhub''\<rparr>,
            pm_ProvisionStsAccount = False, pm_ProvisionApiKey = False\<rparr>;
          manifest = fold (\<lambda>opt m. opt m) opts manifest;
          params = pm_KeyGeneratorParameters manifest
      in manifest\<lparr>pm_KeyGeneratorParameters := params\<lparr>kg_KeyID := qualified_key_id did (kg_KeyID params)\<rparr>\<rparr>)"

record credential_type =
  ct_Format :: string
  ct_Type :: string
  ct_CredentialDefinitionID :: string

record credential_request =
  cq_IssuerDID :: string
  cq_Credentials :: "credential_type list"

definition credential_request_json :: "credential_request \<Rightarrow> json" where
  "credential_request_json r =
     JObj [(''issuerDid'', JStr (cq_IssuerDID r)),
       (''credentials'', enc_list (\<lambda>c. JObj [(''format'', JStr (ct_Format c)), (''type'', JStr (ct_Type c)),
          (''id'', JStr (ct_CredentialDefinitionID c))]) (cq_Credentials r))]"

record 's identity_api =
  ia_CreateParticipantContext :: "participant_manifest \<Rightarrow> 's \<Rightarrow> (go_error + unit) \<times> 's"
  ia_RequestCredentials :: "string \<Rightarrow> credential_request \<Rightarrow> 's \<Rightarrow> (go_error + string) \<times> 's"
  ia_GetCredentialRequestState :: "string \<Rightarrow> string \<Rightarrow> 's \<Rightarrow> (go_error + string) \<times> 's"
  ia_DeleteParticipantContext :: "string \<Rightarrow> 's \<Rightarrow> (go_error + unit) \<times> 's"

definition ih_delete_request :: "string \<Rightarrow> string \<Rightarrow> api_request" where
  "ih_delete_request base participantContextID =
     \<lparr>aq_Scope = identity_api_admin, aq_Participant = participantContextID, aq_Method = ''DELETE'',
      aq_URL = base @ ''/v1/participants/'' @ PathEscape participantContextID, aq_JsonHeader = False, aq_Body = None\<rparr>"

definition ih_DeleteParticipantContext :: "'s net \<Rightarrow> string \<Rightarrow> string \<Rightarrow> 's \<Rightarrow> (go_error + unit) \<times> 's" where
  "ih_DeleteParticipantContext net base participantContextID =
     api_call net (ih_delete_request base participantContextID) no_token id
       (wrapping ''failed to delete participant context on IdentityHub'')
       (\<lambda>rsp. if in_Status rsp = 404 then
            Inl (ErrorString (''participant context '' @ participantContextID @ '' not found in Identity''))
          else expect (\<lambda>status. status = 200) ''failed to delete participant context on IdentityHub'' rsp)"

definition request_credentials_request :: "string \<Rightarrow> string \<Rightarrow> credential_request \<Rightarrow> api_request" where
  "request_credentials_request base participantContextID credentialRequest =
     \<lparr>aq_Scope = credentials_write, aq_Participant = participantContextID, aq_Method = ''POST'',
      aq_URL = base @ ''/v1/participants/'' @ PathEscape participantContextID @ ''/credentials/request'', aq_JsonHeader = True,
      aq_Body = Some (credential_request_json credentialRequest)\<rparr>"

definition ih_RequestCredentials :: "'s net \<Rightarrow> string \<Rightarrow> string \<Rightarrow> credential_request \<Rightarrow> 's \<Rightarrow> (go_error + string) \<times> 's" where
  "ih_RequestCredentials net base participantContextID credentialRequest =
     api_call net (request_credentials_request base participantContextID credentialRequest) no_token id
       (wrapping (''failed to create credentials request for '' @ participantContextID))
       (\<lambda>rsp. if in_Status rsp = 201 then Inr (in_Location rsp)
          else Inl (unexpected_status ''failed to request credentials for participant context on IdentityHub'' rsp))"

definition get_state_request :: "string \<Rightarrow> string \<Rightarrow> string \<Rightarrow> api_request" where
  "get_state_request base participantContextID credentialRequestID =
     \<lparr>aq_Scope = credentials_read, aq_Participant = participantContextID, aq_Method = ''GET'',
      aq_URL = base @ ''/v1/participants/'' @ PathEscape participantContextID @ ''/credentials/request/'' @
        PathEscape credentialRequestID,
      aq_JsonHeader = False, aq_Body = None\<rparr>"

text \<open>\<open>stateResponse["status"].(string)\<close>: the last entry of this name.\<close>

definition ih_GetCredentialRequestState :: "'s net \<Rightarrow> string \<Rightarrow> string \<Rightarrow> string \<Rightarrow> 's \<Rightarrow> (go_error + string) \<times> 's" where
  "ih_GetCredentialRequestState net base participantContextID credentialRequestID =
     api_call net (get_state_request base participantContextID credentialRequestID) no_token id
       (wrapping (''failed to get credential request state for '' @ participantContextID))
       (\<lambda>rsp. if in_Status rsp \<noteq> 200 then Inl (unexpected_status ''failed to get credential request state'' rsp)
          else (case bind_result (in_Json rsp) dec_properties of
              Inl err \<Rightarrow> Inl (wrapping ''failed to unmarshal credential request state response'' err)
            | Inr stateResponse \<Rightarrow>
                (case lookup stateResponse ''status'' of
                   Some (JStr stateStr) \<Rightarrow> Inr stateStr
                 | _ \<Rightarrow> Inl (ErrorString ''invalid status format in response''))))"

text \<open>\<open>path.Base\<close>: the last element of a path, without trailing slashes.\<close>

definition path_Base :: "string \<Rightarrow> string" where
  "path_Base path =
     (if path = [] then ''.''
      else let p = rev (dropWhile (\<lambda>c. c = CHR ''/'') (rev path));
               b = rev (takeWhile (\<lambda>c. c \<noteq> CHR ''/'') (rev p))
           in if b = [] then ''/'' else b)"

definition HolderPIDFromLocation :: "(string \<Rightarrow> go_error + string) \<Rightarrow> string \<Rightarrow> go_error + string" where
  "HolderPIDFromLocation parse location =
     (case parse location of
        Inl err \<Rightarrow> Inl (WrapError (''invalid credential request location '' @ [CHR 0x27] @ location @ [CHR 0x27] @ '': '' @
          error_text err) err)
      | Inr path \<Rightarrow>
          (let holderPID = path_Base path
           in if holderPID = [] \<or> holderPID = ''.'' \<or> holderPID = ''/'' \<or> holderPID = ''request'' then
                Inl (ErrorString (''credential request location '' @ [CHR 0x27] @ location @ [CHR 0x27] @
                  '' does not contain a holderPid''))
              else Inr holderPID))"

definition service_endpoint_json :: "string \<Rightarrow> string \<Rightarrow> string \<Rightarrow> json" where
  "service_endpoint_json type sid url =
     JObj [(''type'', JStr type), (''id'', JStr sid), (''serviceEndpoint'', JStr url)]"

definition participant_manifest_json :: "participant_manifest \<Rightarrow> json" where
  "participant_manifest_json m =
     (let k = pm_KeyGeneratorParameters m; v = pm_VaultConfig m
      in JObj [(''roles'', enc_strings [''participant'']), (''provisionStsAccount'', JBool (pm_ProvisionStsAccount m)),
        (''provisionApiKey'', JBool (pm_ProvisionApiKey m)),
        (''serviceEndpoints'', JArr [
           service_endpoint_json ''CredentialService'' (pm_CredentialServiceID m) (pm_CredentialServiceURL m),
           service_endpoint_json ''ProtocolEndpoint'' (pm_ProtocolServiceID m) (pm_ProtocolServiceURL m),
           service_endpoint_json ''DataService'' (pm_DataServiceID m) (pm_DataServiceURL m)]),
        (''active'', JBool (pm_IsActive m)), (''participantContextId'', JStr (pm_ParticipantContextID m)),
        (''did'', JStr (pm_DID m)),
        (''key'', JObj [(''keyId'', JStr (kg_KeyID k)), (''privateKeyAlias'', JStr (kg_PrivateKeyAlias k)),
           (''keyGeneratorParams'', JObj [(''algorithm'', JStr (kg_KeyAlgorithm k)), (''curve'', JStr (kg_Curve k))])]),
        (''additionalProperties'', JObj [(''edc.vault.hashicorp.config'', JObj [(''config'',
           JObj [(''secretPath'', JStr (vc_SecretPath v)), (''folderPath'', JStr (vc_FolderPath v)),
             (''vaultUrl'', JStr (vc_VaultURL v))])])])])"

definition ih_create_request :: "string \<Rightarrow> participant_manifest \<Rightarrow> api_request" where
  "ih_create_request base manifest =
     \<lparr>aq_Scope = identity_api_admin, aq_Participant = pm_ParticipantContextID manifest, aq_Method = ''POST'',
      aq_URL = base @ ''/v1/participants'', aq_JsonHeader = True, aq_Body = Some (participant_manifest_json manifest)\<rparr>"

definition ih_CreateParticipantContext :: "'s net \<Rightarrow> string \<Rightarrow> participant_manifest \<Rightarrow> 's \<Rightarrow> (go_error + unit) \<times> 's" where
  "ih_CreateParticipantContext net base manifest =
     api_call net (ih_create_request base manifest) no_token id
       (wrapping ''failed to create participant context on IdentityHub'')
       (expect (\<lambda>status. 200 \<le> status \<and> status < 300) ''failed to create participant context on IdentityHub'')"

definition HttpIdentityAPIClient :: "'s net \<Rightarrow> string \<Rightarrow> 's identity_api" where
  "HttpIdentityAPIClient net base =
     \<lparr>ia_CreateParticipantContext = ih_CreateParticipantContext net base,
      ia_RequestCredentials = ih_RequestCredentials net base,
      ia_GetCredentialRequestState = ih_GetCredentialRequestState net base,
      ia_DeleteParticipantContext = ih_DeleteParticipantContext net base\<rparr>"

section \<open>Siglet\<close>

definition siglet_read :: string where "siglet_read = ''siglet-mgmt-api:read''"
definition siglet_write :: string where "siglet_write = ''siglet-mgmt-api:write''"

record key_mapping =
  km_ParticipantContextID :: string
  km_KeyName :: string
  km_KeyID :: string

definition key_mapping_json :: "key_mapping \<Rightarrow> json" where
  "key_mapping_json m = JObj [(''participantContextId'', JStr (km_ParticipantContextID m)),
     (''keyName'', JStr (km_KeyName m)), (''kid'', JStr (km_KeyID m))]"

definition dec_field :: "(json \<Rightarrow> go_error + 'a) \<Rightarrow> (string \<times> json) list \<Rightarrow> string \<Rightarrow> go_error + 'a" where
  "dec_field dec m name = dec (json_field m name)"

definition dec_key_mapping :: "json \<Rightarrow> go_error + key_mapping" where
  "dec_key_mapping j =
     bind_result (dec_object j) (\<lambda>m.
     bind_result (dec_field dec_string m ''participantContextId'') (\<lambda>p.
     bind_result (dec_field dec_string m ''keyName'') (\<lambda>n.
     bind_result (dec_field dec_string m ''kid'') (\<lambda>k.
       Inr \<lparr>km_ParticipantContextID = p, km_KeyName = n, km_KeyID = k\<rparr>))))"

record claim_mapping =
  cm_From :: string
  cm_To :: string
  cm_Optional :: bool

record endpoint_mapping =
  em_Key :: string
  em_Value :: string
  em_Endpoint :: string
  em_ClaimMappings :: "claim_mapping list"

record transfer_type =
  tt_TransferType :: string
  tt_EndpointType :: string
  tt_TokenSource :: string
  tt_Endpoint :: string
  tt_EndpointMappings :: "endpoint_mapping list"
  tt_TxRenewalSupport :: bool
  tt_ClaimMappings :: "claim_mapping list"

record transfer_type_mapping =
  tm_ParticipantContextID :: string
  tm_Mappings :: "(string, transfer_type) gomap"

text \<open>Fields with \<open>omitempty\<close>, and slices of structs in JSON.\<close>

definition unless_empty :: "string \<Rightarrow> ('a list \<Rightarrow> json) \<Rightarrow> 'a list \<Rightarrow> (string \<times> json) list" where
  "unless_empty name enc xs = (if xs = [] then [] else [(name, enc xs)])"

definition claim_mapping_json :: "claim_mapping \<Rightarrow> json" where
  "claim_mapping_json c = JObj ([(''from'', JStr (cm_From c)), (''to'', JStr (cm_To c))] @
     (if cm_Optional c then [(''optional'', JBool True)] else []))"

definition endpoint_mapping_json :: "endpoint_mapping \<Rightarrow> json" where
  "endpoint_mapping_json e = JObj ([(''key'', JStr (em_Key e)), (''value'', JStr (em_Value e)),
     (''endpoint'', JStr (em_Endpoint e))] @ unless_empty ''claimMappings'' (enc_list claim_mapping_json) (em_ClaimMappings e))"

definition transfer_type_json :: "transfer_type \<Rightarrow> json" where
  "transfer_type_json t =
     JObj ([(''transferType'', JStr (tt_TransferType t)), (''endpointType'', JStr (tt_EndpointType t)),
        (''tokenSource'', JStr (tt_TokenSource t))] @
       unless_empty ''endpoint'' JStr (tt_Endpoint t) @
       unless_empty ''endpointMappings'' (enc_list endpoint_mapping_json) (tt_EndpointMappings t) @
       [(''txRenewalSupport'', JBool (tt_TxRenewalSupport t))] @
       unless_empty ''claimMappings'' (enc_list claim_mapping_json) (tt_ClaimMappings t))"

definition transfer_type_mapping_json :: "transfer_type_mapping \<Rightarrow> json" where
  "transfer_type_mapping_json m =
     JObj [(''participantContextId'', JStr (tm_ParticipantContextID m)), (''mappings'', enc_map transfer_type_json (tm_Mappings m))]"

definition dec_claim_mapping :: "json \<Rightarrow> go_error + claim_mapping" where
  "dec_claim_mapping j =
     bind_result (dec_object j) (\<lambda>m.
     bind_result (dec_field dec_string m ''from'') (\<lambda>f.
     bind_result (dec_field dec_string m ''to'') (\<lambda>t.
     bind_result (dec_field dec_bool m ''optional'') (\<lambda>b.
       Inr \<lparr>cm_From = f, cm_To = t, cm_Optional = b\<rparr>))))"

definition dec_endpoint_mapping :: "json \<Rightarrow> go_error + endpoint_mapping" where
  "dec_endpoint_mapping j =
     bind_result (dec_object j) (\<lambda>m.
     bind_result (dec_field dec_string m ''key'') (\<lambda>k.
     bind_result (dec_field dec_string m ''value'') (\<lambda>v.
     bind_result (dec_field dec_string m ''endpoint'') (\<lambda>e.
     bind_result (dec_field (dec_list dec_claim_mapping) m ''claimMappings'') (\<lambda>cs.
       Inr \<lparr>em_Key = k, em_Value = v, em_Endpoint = e, em_ClaimMappings = cs\<rparr>)))))"

definition dec_transfer_type :: "json \<Rightarrow> go_error + transfer_type" where
  "dec_transfer_type j =
     bind_result (dec_object j) (\<lambda>m.
     bind_result (dec_field dec_string m ''transferType'') (\<lambda>t.
     bind_result (dec_field dec_string m ''endpointType'') (\<lambda>et.
     bind_result (dec_field dec_string m ''tokenSource'') (\<lambda>ts.
     bind_result (dec_field dec_string m ''endpoint'') (\<lambda>e.
     bind_result (dec_field (dec_list dec_endpoint_mapping) m ''endpointMappings'') (\<lambda>es.
     bind_result (dec_field dec_bool m ''txRenewalSupport'') (\<lambda>b.
     bind_result (dec_field (dec_list dec_claim_mapping) m ''claimMappings'') (\<lambda>cs.
       Inr \<lparr>tt_TransferType = t, tt_EndpointType = et, tt_TokenSource = ts, tt_Endpoint = e,
         tt_EndpointMappings = es, tt_TxRenewalSupport = b, tt_ClaimMappings = cs\<rparr>))))))))"

definition dec_transfer_type_mapping :: "json \<Rightarrow> go_error + transfer_type_mapping" where
  "dec_transfer_type_mapping j =
     bind_result (dec_object j) (\<lambda>m.
     bind_result (dec_field dec_string m ''participantContextId'') (\<lambda>p.
     bind_result (dec_field (dec_map dec_transfer_type) m ''mappings'') (\<lambda>ms.
       Inr \<lparr>tm_ParticipantContextID = p, tm_Mappings = ms\<rparr>)))"

text \<open>The interfaces \<open>ManagementAPIClient\<close> and \<open>TransferTypeMappingClient\<close>; a nil pointer is \<open>None\<close>.\<close>

record 's key_mapping_api =
  ka_Create :: "key_mapping \<Rightarrow> 's \<Rightarrow> (go_error + unit) \<times> 's"
  ka_Update :: "key_mapping \<Rightarrow> 's \<Rightarrow> (go_error + unit) \<times> 's"
  ka_Get :: "string \<Rightarrow> 's \<Rightarrow> (go_error + key_mapping option) \<times> 's"
  ka_Delete :: "string \<Rightarrow> 's \<Rightarrow> (go_error + unit) \<times> 's"

record 's transfer_type_api =
  ta_Create :: "transfer_type_mapping \<Rightarrow> 's \<Rightarrow> (go_error + unit) \<times> 's"
  ta_Get :: "string \<Rightarrow> 's \<Rightarrow> (go_error + transfer_type_mapping option) \<times> 's"
  ta_Replace :: "transfer_type_mapping \<Rightarrow> 's \<Rightarrow> (go_error + unit) \<times> 's"
  ta_Delete :: "string \<Rightarrow> 's \<Rightarrow> (go_error + unit) \<times> 's"

definition siglet_request :: "string \<Rightarrow> string \<Rightarrow> string \<Rightarrow> string \<Rightarrow> json option \<Rightarrow> api_request" where
  "siglet_request scope participantContextID verb url payload =
     \<lparr>aq_Scope = scope, aq_Participant = participantContextID, aq_Method = verb, aq_URL = url, aq_JsonHeader = True,
      aq_Body = payload\<rparr>"

definition key_mappings_url :: "string \<Rightarrow> string \<Rightarrow> string" where
  "key_mappings_url base participantContextID = base @ ''/key-mappings/'' @ PathEscape participantContextID"

definition sg_CreateKeyMapping :: "'s net \<Rightarrow> string \<Rightarrow> key_mapping \<Rightarrow> 's \<Rightarrow> (go_error + unit) \<times> 's" where
  "sg_CreateKeyMapping net base mapping =
     api_call net (siglet_request siglet_write (km_ParticipantContextID mapping) ''POST'' (base @ ''/key-mappings'')
         (Some (key_mapping_json mapping)))
       (recoverable ''failed to get API access token'') id (recoverable ''failed to create Siglet Mapping'')
       (\<lambda>rsp. ok_if (in_Status rsp = 201) (NewStatusError ''failed to create Siglet Mapping'' rsp))"

definition sg_UpdateKeyMapping :: "'s net \<Rightarrow> string \<Rightarrow> key_mapping \<Rightarrow> 's \<Rightarrow> (go_error + unit) \<times> 's" where
  "sg_UpdateKeyMapping net base mapping =
     api_call net (siglet_request siglet_write (km_ParticipantContextID mapping) ''PUT''
         (key_mappings_url base (km_ParticipantContextID mapping)) (Some (key_mapping_json mapping)))
       (recoverable ''failed to get API access token'') id (recoverable ''failed to create Siglet Mapping'')
       (\<lambda>rsp. ok_if (in_Status rsp = 204) (NewStatusError ''failed to create Siglet Mapping'' rsp))"

definition sg_GetKeyMapping :: "'s net \<Rightarrow> string \<Rightarrow> string \<Rightarrow> 's \<Rightarrow> (go_error + key_mapping option) \<times> 's" where
  "sg_GetKeyMapping net base participantContextID =
     api_call net (siglet_request siglet_read participantContextID ''GET'' (key_mappings_url base participantContextID) None)
       (recoverable ''failed to get API access token'') (wrapping ''failed to create Siglet Mapping request'')
       (recoverable ''failed to get Siglet Mapping'')
       (\<lambda>rsp. if in_Status rsp = 404 then Inr None
          else if in_Status rsp \<noteq> 200 then Inl (NewStatusError ''failed to get Siglet Mapping'' rsp)
          else (case in_ReadError rsp of
              Some err \<Rightarrow> Inl (recoverable ''failed to read response body'' err)
            | None \<Rightarrow> (case bind_result (in_Json rsp) dec_key_mapping of
                  Inl err \<Rightarrow> Inl (wrapping ''failed to unmarshal key mapping'' err)
                | Inr keyMapping \<Rightarrow> Inr (Some keyMapping))))"

definition sg_DeleteKeyMapping :: "'s net \<Rightarrow> string \<Rightarrow> string \<Rightarrow> 's \<Rightarrow> (go_error + unit) \<times> 's" where
  "sg_DeleteKeyMapping net base participantContextID =
     api_call net (siglet_request siglet_write participantContextID ''DELETE'' (key_mappings_url base participantContextID) None)
       (recoverable ''failed to get API access token'') (wrapping ''failed to create Siglet Mapping request'')
       (recoverable ''failed to get Siglet Mapping'')
       (\<lambda>rsp. if in_Status rsp = 404 then Inr ()
          else ok_if (in_Status rsp = 204) (NewStatusError ''error deleting Siglet Mapping'' rsp))"

definition SigletKeyClient :: "'s net \<Rightarrow> string \<Rightarrow> 's key_mapping_api" where
  "SigletKeyClient net base =
     \<lparr>ka_Create = sg_CreateKeyMapping net base, ka_Update = sg_UpdateKeyMapping net base,
      ka_Get = sg_GetKeyMapping net base, ka_Delete = sg_DeleteKeyMapping net base\<rparr>"

definition transfer_types_url :: "string \<Rightarrow> string \<Rightarrow> string" where
  "transfer_types_url base participantContextID = base @ ''/transfer-type-mappings/'' @ PathEscape participantContextID"

definition bad_status :: "string \<Rightarrow> http_in \<Rightarrow> go_error" where
  "bad_status message rsp = ErrorString (message @ '': received status code '' @ int_text (in_Status rsp))"

definition sg_CreateTransferTypeMapping :: "'s net \<Rightarrow> string \<Rightarrow> transfer_type_mapping \<Rightarrow> 's \<Rightarrow> (go_error + unit) \<times> 's" where
  "sg_CreateTransferTypeMapping net base mapping =
     api_call net (siglet_request siglet_write (tm_ParticipantContextID mapping) ''POST'' (base @ ''/transfer-type-mappings'')
         (Some (transfer_type_mapping_json mapping)))
       no_token id (wrapping ''failed to create Siglet transfer type mapping'')
       (\<lambda>rsp. ok_if (in_Status rsp = 201) (bad_status ''failed to create Siglet transfer type mapping'' rsp))"

definition sg_GetTransferTypeMapping :: "'s net \<Rightarrow> string \<Rightarrow> string \<Rightarrow> 's \<Rightarrow> (go_error + transfer_type_mapping option) \<times> 's" where
  "sg_GetTransferTypeMapping net base participantContextID =
     api_call net (siglet_request siglet_read participantContextID ''GET'' (transfer_types_url base participantContextID) None)
       no_token (wrapping ''failed to create Siglet transfer type mapping request'')
       (wrapping ''failed to get Siglet transfer type mapping'')
       (\<lambda>rsp. if in_Status rsp = 404 then Inr None
          else if in_Status rsp \<noteq> 200 then Inl (bad_status ''failed to get Siglet transfer type mapping'' rsp)
          else (case in_ReadError rsp of
              Some err \<Rightarrow> Inl (wrapping ''failed to read response body'' err)
            | None \<Rightarrow> (case bind_result (in_Json rsp) dec_transfer_type_mapping of
                  Inl err \<Rightarrow> Inl (wrapping ''failed to unmarshal transfer type mapping'' err)
                | Inr mapping \<Rightarrow> Inr (Some mapping))))"

definition sg_ReplaceTransferTypeMapping :: "'s net \<Rightarrow> string \<Rightarrow> transfer_type_mapping \<Rightarrow> 's \<Rightarrow> (go_error + unit) \<times> 's" where
  "sg_ReplaceTransferTypeMapping net base mapping =
     api_call net (siglet_request siglet_write (tm_ParticipantContextID mapping) ''PUT''
         (transfer_types_url base (tm_ParticipantContextID mapping)) (Some (transfer_type_mapping_json mapping)))
       no_token id (wrapping ''failed to replace Siglet transfer type mapping'')
       (\<lambda>rsp. ok_if (in_Status rsp = 204) (bad_status ''failed to replace Siglet transfer type mapping'' rsp))"

definition sg_DeleteTransferTypeMapping :: "'s net \<Rightarrow> string \<Rightarrow> string \<Rightarrow> 's \<Rightarrow> (go_error + unit) \<times> 's" where
  "sg_DeleteTransferTypeMapping net base participantContextID =
     api_call net (siglet_request siglet_write participantContextID ''DELETE'' (transfer_types_url base participantContextID) None)
       no_token (wrapping ''failed to create Siglet transfer type mapping request'')
       (wrapping ''failed to delete Siglet transfer type mapping'')
       (\<lambda>rsp. if in_Status rsp = 404 then Inr ()
          else ok_if (in_Status rsp = 204) (bad_status ''error deleting Siglet transfer type mapping'' rsp))"

definition SigletTransferClient :: "'s net \<Rightarrow> string \<Rightarrow> 's transfer_type_api" where
  "SigletTransferClient net base =
     \<lparr>ta_Create = sg_CreateTransferTypeMapping net base, ta_Get = sg_GetTransferTypeMapping net base,
      ta_Replace = sg_ReplaceTransferTypeMapping net base, ta_Delete = sg_DeleteTransferTypeMapping net base\<rparr>"

section \<open>IssuerService\<close>

definition issuer_api_admin :: string where "issuer_api_admin = ''issuer-admin-api:admin''"

text \<open>Queries (\<open>agent/common/api_types.go\<close>).\<close>

record criterion =
  cr_OperandLeft :: json
  cr_Operator :: string
  cr_OperandRight :: json

record query_spec =
  qs_Offset :: int
  qs_Limit :: int
  qs_SortOrder :: string
  qs_SortField :: "string option"
  qs_FilterExpression :: "criterion list"

definition WithOffset :: "int \<Rightarrow> query_spec \<Rightarrow> query_spec" where "WithOffset offset q = q\<lparr>qs_Offset := offset\<rparr>"
definition WithLimit :: "int \<Rightarrow> query_spec \<Rightarrow> query_spec" where "WithLimit limit q = q\<lparr>qs_Limit := limit\<rparr>"
definition WithSortOrder :: "string \<Rightarrow> query_spec \<Rightarrow> query_spec" where "WithSortOrder order q = q\<lparr>qs_SortOrder := order\<rparr>"
definition WithSortField :: "string \<Rightarrow> query_spec \<Rightarrow> query_spec" where "WithSortField f q = q\<lparr>qs_SortField := Some f\<rparr>"
definition WithFilterCriteria :: "criterion list \<Rightarrow> query_spec \<Rightarrow> query_spec" where
  "WithFilterCriteria criteria q = q\<lparr>qs_FilterExpression := qs_FilterExpression q @ criteria\<rparr>"

definition NewQuerySpec :: "(query_spec \<Rightarrow> query_spec) list \<Rightarrow> query_spec" where
  "NewQuerySpec opts = fold (\<lambda>opt q. opt q) opts
     \<lparr>qs_Offset = 0, qs_Limit = 50, qs_SortOrder = ''DESC'', qs_SortField = None, qs_FilterExpression = []\<rparr>"

definition query_spec_json :: "query_spec \<Rightarrow> json" where
  "query_spec_json q =
     JObj ([(''offset'', JNum (qs_Offset q)), (''limit'', JNum (qs_Limit q)), (''sortOrder'', JStr (qs_SortOrder q))] @
       (case qs_SortField q of None \<Rightarrow> [] | Some f \<Rightarrow> [(''sortField'', JStr f)]) @
       [(''filterExpression'', if qs_FilterExpression q = [] then JNull
         else enc_list (\<lambda>c. JObj [(''operandLeft'', cr_OperandLeft c), (''operator'', JStr (cr_Operator c)),
           (''operandRight'', cr_OperandRight c)]) (qs_FilterExpression q))])"

text \<open>
  Credentials (\<open>agent/common/credential_types.go\<close>). \<open>dec_time\<close> reads a time; a time is its tick count.
\<close>

record typed_ref =
  tr_ID :: string
  tr_Type :: string

record verifiable_credential =
  vcr_ID :: string
  vcr_Types :: "string list"
  vcr_Issuer :: string
  vcr_IssuanceDate :: int
  vcr_ExpirationDate :: "int option"
  vcr_CredentialStatus :: "typed_ref list"
  vcr_CredentialSchema :: "typed_ref list"
  vcr_CredentialSubject :: "props list"
  vcr_Name :: string
  vcr_Description :: string
  vcr_DataModelVersion :: string

record issuer_credential =
  ic_ID :: string
  ic_ParticipantContextID :: string
  ic_CredentialFormat :: string
  ic_VerifiableCredential :: verifiable_credential

definition dec_typed_ref :: "json \<Rightarrow> go_error + typed_ref" where
  "dec_typed_ref j =
     bind_result (dec_object j) (\<lambda>m.
     bind_result (dec_field dec_string m ''id'') (\<lambda>i.
     bind_result (dec_field dec_string m ''type'') (\<lambda>t. Inr \<lparr>tr_ID = i, tr_Type = t\<rparr>)))"

text \<open>The issuer is read as an object with an ID.\<close>

definition dec_issuer :: "json \<Rightarrow> go_error + string" where
  "dec_issuer j = bind_result (dec_object j) (\<lambda>m. dec_field dec_string m ''id'')"

definition dec_optional :: "(json \<Rightarrow> go_error + 'a) \<Rightarrow> json \<Rightarrow> go_error + 'a option" where
  "dec_optional dec j = (if j = JNull then Inr None else bind_result (dec j) (\<lambda>x. Inr (Some x)))"

definition dec_verifiable_credential :: "(json \<Rightarrow> go_error + int) \<Rightarrow> json \<Rightarrow> go_error + verifiable_credential" where
  "dec_verifiable_credential dec_time j =
     bind_result (dec_object j) (\<lambda>m.
     bind_result (dec_field dec_string m ''id'') (\<lambda>i.
     bind_result (dec_field dec_strings m ''type'') (\<lambda>ts.
     bind_result (dec_field dec_issuer m ''issuer'') (\<lambda>is.
     bind_result (dec_field (\<lambda>j. if j = JNull then Inr 0 else dec_time j) m ''issuanceDate'') (\<lambda>d.
     bind_result (dec_field (dec_optional dec_time) m ''expirationDate'') (\<lambda>e.
     bind_result (dec_field (dec_list dec_typed_ref) m ''credentialStatus'') (\<lambda>st.
     bind_result (dec_field (dec_list dec_typed_ref) m ''credentialSchema'') (\<lambda>sc.
     bind_result (dec_field (dec_list dec_properties) m ''credentialSubject'') (\<lambda>su.
     bind_result (dec_field dec_string m ''name'') (\<lambda>n.
     bind_result (dec_field dec_string m ''description'') (\<lambda>de.
     bind_result (dec_field dec_string m ''dataModelVersion'') (\<lambda>v.
       Inr \<lparr>vcr_ID = i, vcr_Types = ts, vcr_Issuer = is, vcr_IssuanceDate = d, vcr_ExpirationDate = e,
         vcr_CredentialStatus = st, vcr_CredentialSchema = sc, vcr_CredentialSubject = su, vcr_Name = n,
         vcr_Description = de, vcr_DataModelVersion = v\<rparr>))))))))))))"

definition dec_issuer_credential :: "(json \<Rightarrow> go_error + int) \<Rightarrow> json \<Rightarrow> go_error + issuer_credential" where
  "dec_issuer_credential dec_time j =
     bind_result (dec_object j) (\<lambda>m.
     bind_result (dec_field dec_string m ''id'') (\<lambda>i.
     bind_result (dec_field dec_string m ''participantContextId'') (\<lambda>p.
     bind_result (dec_field dec_string m ''format'') (\<lambda>f.
     bind_result (dec_field (dec_verifiable_credential dec_time) m ''credential'') (\<lambda>c.
       Inr \<lparr>ic_ID = i, ic_ParticipantContextID = p, ic_CredentialFormat = f, ic_VerifiableCredential = c\<rparr>)))))"

record 's issuer_api =
  is_CreateHolder :: "string \<Rightarrow> string \<Rightarrow> string \<Rightarrow> string \<Rightarrow> props option \<Rightarrow> 's \<Rightarrow> (go_error + unit) \<times> 's"
  is_DeleteHolder :: "string \<Rightarrow> string \<Rightarrow> 's \<Rightarrow> (go_error + unit) \<times> 's"
  is_RevokeCredential :: "string \<Rightarrow> string \<Rightarrow> 's \<Rightarrow> (go_error + unit) \<times> 's"
  is_QueryCredentialsByType :: "string \<Rightarrow> string \<Rightarrow> 's \<Rightarrow> (go_error + issuer_credential list) \<times> 's"

definition query_credentials_request :: "string \<Rightarrow> string \<Rightarrow> string \<Rightarrow> string \<Rightarrow> api_request" where
  "query_credentials_request base issuerID holderID credentialType =
     \<lparr>aq_Scope = issuer_api_admin, aq_Participant = holderID, aq_Method = ''POST'',
      aq_URL = base @ ''/v1/participants/'' @ PathEscape issuerID @ ''/credentials/query'', aq_JsonHeader = True,
      aq_Body = Some (query_spec_json (NewQuerySpec [WithFilterCriteria
        [\<lparr>cr_OperandLeft = JStr ''verifiableCredential.credential.type'', cr_Operator = ''contains'', cr_OperandRight = JStr credentialType\<rparr>,
         \<lparr>cr_OperandLeft = JStr ''holderId'', cr_Operator = ''='', cr_OperandRight = JStr holderID\<rparr>]]))\<rparr>"

definition isv_QueryCredentialsByType ::
    "(json \<Rightarrow> go_error + int) \<Rightarrow> 's net \<Rightarrow> string \<Rightarrow> string \<Rightarrow> string \<Rightarrow> string \<Rightarrow> 's \<Rightarrow> (go_error + issuer_credential list) \<times> 's" where
  "isv_QueryCredentialsByType dec_time net base issuerID holderID credentialType =
     api_call net (query_credentials_request base issuerID holderID credentialType) no_token
       (wrapping ''error creating request'') (wrapping ''error querying credentials on IssuerService'')
       (\<lambda>rsp. if in_Status rsp \<noteq> 200 then Inl (unexpected_status ''failed to query credentials on IssuerService'' rsp)
          else (case bind_result (in_Json rsp) (dec_list (dec_issuer_credential dec_time)) of
              Inl err \<Rightarrow> Inl (wrapping ''error parsing credentials response'' err)
            | Inr credentials \<Rightarrow> Inr credentials))"

definition holders_path :: "string \<Rightarrow> string" where
  "holders_path issuerID = ''/v1/participants/'' @ PathEscape issuerID @ ''/holders''"

definition delete_holder_request :: "string \<Rightarrow> string \<Rightarrow> string \<Rightarrow> string \<Rightarrow> api_request" where
  "delete_holder_request base issuerID participantContextID holderID =
     \<lparr>aq_Scope = issuer_api_admin, aq_Participant = participantContextID, aq_Method = ''DELETE'',
      aq_URL = base @ holders_path issuerID @ ''/'' @ PathEscape holderID, aq_JsonHeader = False, aq_Body = None\<rparr>"

definition isv_DeleteHolder :: "'s net \<Rightarrow> string \<Rightarrow> string \<Rightarrow> string \<Rightarrow> string \<Rightarrow> 's \<Rightarrow> (go_error + unit) \<times> 's" where
  "isv_DeleteHolder net base issuerID participantContextID holderID =
     api_call net (delete_holder_request base issuerID participantContextID holderID) no_token id
       (wrapping ''failed to delete Holder on IssuerService'')
       (expect (\<lambda>status. status = 204) ''failed to delete Holder on IssuerService'')"

definition create_holder_request :: "string \<Rightarrow> string \<Rightarrow> string \<Rightarrow> string \<Rightarrow> string \<Rightarrow> string \<Rightarrow> props option \<Rightarrow> api_request" where
  "create_holder_request base issuerID participantContextID did holderID name properties =
     \<lparr>aq_Scope = issuer_api_admin, aq_Participant = participantContextID, aq_Method = ''POST'',
      aq_URL = base @ holders_path issuerID, aq_JsonHeader = True,
      aq_Body = Some (JObj ([(''did'', JStr did), (''holderId'', JStr holderID), (''name'', JStr name)] @
        (case properties of None \<Rightarrow> [] | Some m \<Rightarrow> [(''properties'', JObj m)])))\<rparr>"

definition isv_CreateHolder ::
    "'s net \<Rightarrow> string \<Rightarrow> string \<Rightarrow> string \<Rightarrow> string \<Rightarrow> string \<Rightarrow> string \<Rightarrow> props option \<Rightarrow> 's \<Rightarrow> (go_error + unit) \<times> 's" where
  "isv_CreateHolder net base issuerID participantContextID did holderID name properties =
     api_call net (create_holder_request base issuerID participantContextID did holderID name properties) no_token
       (wrapping ''error creating request'') (wrapping ''failed to create Holder on IssuerService'')
       (expect (\<lambda>status. status = 201) ''failed to create Holder on ApiClient'')"

definition revoke_request :: "string \<Rightarrow> string \<Rightarrow> string \<Rightarrow> api_request" where
  "revoke_request base participantContextID credentialID =
     \<lparr>aq_Scope = issuer_api_admin, aq_Participant = participantContextID, aq_Method = ''POST'',
      aq_URL = base @ ''/v1/participants/'' @ PathEscape participantContextID @ ''/credentials/'' @ PathEscape credentialID @ ''/revoke'',
      aq_JsonHeader = False, aq_Body = None\<rparr>"

definition isv_RevokeCredential :: "'s net \<Rightarrow> string \<Rightarrow> string \<Rightarrow> string \<Rightarrow> 's \<Rightarrow> (go_error + unit) \<times> 's" where
  "isv_RevokeCredential net base participantContextID credentialID =
     (let message = ''failed to revoke credential with ID '' @ [CHR 0x27] @ credentialID @ [CHR 0x27] @
            '' for participant context '' @ [CHR 0x27] @ participantContextID @ [CHR 0x27]
      in api_call net (revoke_request base participantContextID credentialID) id id (wrapping message)
           (\<lambda>rsp. ok_if (in_Status rsp = 200) (ErrorString (message @ '': received status code '' @ int_text (in_Status rsp) @
              '' with message ['' @ ReadErrorBody (in_Body rsp) @ '']''))))"

definition HttpIssuerClient :: "(json \<Rightarrow> go_error + int) \<Rightarrow> 's net \<Rightarrow> string \<Rightarrow> string \<Rightarrow> 's issuer_api" where
  "HttpIssuerClient dec_time net base issuerID =
     \<lparr>is_CreateHolder = isv_CreateHolder net base issuerID, is_DeleteHolder = isv_DeleteHolder net base issuerID,
      is_RevokeCredential = isv_RevokeCredential net base,
      is_QueryCredentialsByType = isv_QueryCredentialsByType dec_time net base issuerID\<rparr>"

end
