(* ===== verification/Agent_Activities.thy ===== *)
theory Agent_Activities
  imports Agent_Clients Activity_Context
begin

text \<open>
  The activities that the agents run for the engine (\<open>agent/orchestration\<close>): reading the values of an
  orchestration (\<open>ReadValues\<close> of \<open>pmanager/api/provision.go\<close>), and the deploy and dispose steps of the
  agents for IdentityHub (\<open>ih\<close>), the control plane (\<open>edcv\<close>), Certo (\<open>certo\<close>) and the holders of the
  IssuerService (\<open>registration\<close>).

  A processor gets the context of the activity and the state of the world that its clients work on; it
  returns its result, the context with the values it has set, and the new state. What the code uses of
  libraries whose text does not matter to it is \<open>text_lib\<close>: the message of the validator for the fields
  and checks that failed, \<open>%q\<close>, the JSON text of a value, and a format applied to one string. Logging
  and tracing are left out.
\<close>

section \<open>Values\<close>

record text_lib =
  validation_text :: "(string \<times> string) list \<Rightarrow> string"
  quote :: "string \<Rightarrow> string"
  json_text :: "json \<Rightarrow> string"
  Sprintf :: "string \<Rightarrow> string \<Rightarrow> string"

text \<open>A value that was written as JSON and read again has its keys sorted.\<close>

fun sorted_json :: "json \<Rightarrow> json" and sorted_members :: "(string \<times> json) list \<Rightarrow> (string \<times> json) list"
  and sorted_elements :: "json list \<Rightarrow> json list" where
  "sorted_json (JObj m) = JObj (sort_key fst (sorted_members m))"
| "sorted_json (JArr xs) = JArr (sorted_elements xs)"
| "sorted_json j = j"
| "sorted_members [] = []"
| "sorted_members ((k, j) # m) = (k, sorted_json j) # sorted_members m"
| "sorted_elements [] = []"
| "sorted_elements (j # js) = sorted_json j # sorted_elements js"

text \<open>
  The values are written as JSON and read into a struct; then the checks of its fields are done.
  \<open>checks\<close> gives those that failed.
\<close>

definition ReadValues ::
    "text_lib \<Rightarrow> (json \<Rightarrow> go_error + 'a) \<Rightarrow> ('a \<Rightarrow> (string \<times> string) list) \<Rightarrow> activity_context \<Rightarrow> go_error + 'a" where
  "ReadValues lib dec checks d =
     bind_result (dec (sorted_json (JObj (ctx_ProcessingData d)))) (\<lambda>x.
       if checks x = [] then Inr x else Inl (ErrorString (validation_text lib (checks x))))"

definition required :: "string \<Rightarrow> string \<Rightarrow> (string \<times> string) list" where
  "required name s = (if s = [] then [(name, ''required'')] else [])"

definition required_context_id :: "string \<Rightarrow> string \<Rightarrow> (string \<times> string) list" where
  "required_context_id name s =
     (if s = [] then [(name, ''required'')]
      else if ValidateParticipantContextID s then [] else [(name, ''participantcontextid'')])"

lemma required_context_id_ok [simp]: "required_context_id name s = [] \<longleftrightarrow> ValidateParticipantContextID s"
  by (auto simp: required_context_id_def ValidateParticipantContextID_def)

definition ParticipantContextIDKey :: string where "ParticipantContextIDKey = ''participantContextId''"

lemma ReadValues_ok:
  "ReadValues lib dec checks d = Inr x \<longleftrightarrow> dec (sorted_json (JObj (ctx_ProcessingData d))) = Inr x \<and> checks x = []"
  by (auto simp: ReadValues_def bind_result_Inr)

section \<open>Results\<close>

type_synonym 's activity_processor = "activity_context \<Rightarrow> 's \<Rightarrow> activity_result \<times> activity_context \<times> 's"

definition complete :: activity_result where
  "complete = \<lparr>ar_Result = ActivityResultComplete, ar_WaitOnReschedule = 0, ar_Error = None\<rparr>"

definition fatal :: "go_error \<Rightarrow> activity_result" where
  "fatal err = \<lparr>ar_Result = ActivityResultFatalError, ar_WaitOnReschedule = 0, ar_Error = Some err\<rparr>"

text \<open>A call whose error ends the activity, with the text that it is wrapped in.\<close>

definition or_fatal ::
    "string \<Rightarrow> (go_error + 'a) \<times> 's \<Rightarrow> activity_context \<Rightarrow>
     ('a \<Rightarrow> 's \<Rightarrow> activity_result \<times> activity_context \<times> 's) \<Rightarrow> activity_result \<times> activity_context \<times> 's" where
  "or_fatal message call d continue =
     (case call of (Inl err, s) \<Rightarrow> (fatal (wrapping message err), d, s) | (Inr x, s) \<Rightarrow> continue x s)"

definition read_or_fatal ::
    "string \<Rightarrow> go_error + 'a \<Rightarrow> activity_context \<Rightarrow> 's \<Rightarrow> ('a \<Rightarrow> activity_result \<times> activity_context \<times> 's) \<Rightarrow>
     activity_result \<times> activity_context \<times> 's" where
  "read_or_fatal message r d s continue =
     (case r of Inl err \<Rightarrow> (fatal (wrapping message err), d, s) | Inr x \<Rightarrow> continue x)"

lemmas activity_flow = or_fatal_def read_or_fatal_def

section \<open>Control plane\<close>

record edc_data =
  ed_ParticipantID :: string
  ed_ParticipantContextId :: string
  ed_CredentialServiceURL :: string
  ed_ProtocolServiceURL :: string

definition dec_edc_data :: "json \<Rightarrow> go_error + edc_data" where
  "dec_edc_data j =
     bind_result (dec_object j) (\<lambda>m.
     bind_result (dec_field dec_string m ''cfm.participant.id'') (\<lambda>p.
     bind_result (dec_field dec_string m ParticipantContextIDKey) (\<lambda>c.
     bind_result (dec_field dec_string m ''cfm.participant.credentialservice'') (\<lambda>cs.
     bind_result (dec_field dec_string m ''cfm.participant.protocolservice'') (\<lambda>ps.
       Inr \<lparr>ed_ParticipantID = p, ed_ParticipantContextId = c, ed_CredentialServiceURL = cs, ed_ProtocolServiceURL = ps\<rparr>)))))"

definition edc_checks :: "edc_data \<Rightarrow> (string \<times> string) list" where
  "edc_checks x = required ''cfm.participant.id'' (ed_ParticipantID x) @
     required_context_id ParticipantContextIDKey (ed_ParticipantContextId x)"

definition DataspaceProfilesKey :: string where "DataspaceProfilesKey = ''dataspaceProfiles''"

definition extractProfiles :: "props option \<Rightarrow> go_error + string list" where
  "extractProfiles properties =
     (case properties of None \<Rightarrow> Inr []
      | Some m \<Rightarrow> (case lookup m DataspaceProfilesKey of None \<Rightarrow> Inr [] | Some raw \<Rightarrow> dec_strings (sorted_json raw)))"

record 's edcv_processor =
  ev_ManagementAPIClient :: "'s management_api"
  ev_VaultURL :: string

definition edcv_message :: "activity_context \<Rightarrow> string" where
  "edcv_message d = ''error processing EDC-V activity for orchestration '' @ ctx_OID d"

definition edcv_handleDeployAction ::
    "text_lib \<Rightarrow> 's edcv_processor \<Rightarrow> edc_data \<Rightarrow> string \<Rightarrow> string list \<Rightarrow> 's activity_processor" where
  "edcv_handleDeployAction lib p data participantContextId profiles d s =
     (let api = ev_ManagementAPIClient p; did = ed_ParticipantID data in
      read_or_fatal (edcv_message d) (ParticipantFolderPath (quote lib) participantContextId ''controlplane'') d s (\<lambda>folderPath.
      let vaultConfig = \<lparr>vc_VaultURL = ev_VaultURL p, vc_SecretPath = ''v1/participants'', vc_FolderPath = folderPath\<rparr> in
      or_fatal ''cannot create participant context in control plane''
        (ma_CreateParticipantContext api \<lparr>px_ParticipantContextID = participantContextId, px_Identifier = did,
           px_Properties = [], px_State = ''ACTIVATED''\<rparr> s) d (\<lambda>_ s.
      or_fatal ''cannot create participant config in control plane''
        (ma_PatchConfig api participantContextId
           (NewParticipantContextConfig (json_text lib) participantContextId (ed_ParticipantID data) vaultConfig) s) d (\<lambda>_ s.
      if 0 < length profiles then
        or_fatal (''cannot associate dataspace profiles in control plane for orchestration '' @ ctx_OID d)
          (ma_AssociateProfiles api participantContextId profiles s) d (\<lambda>_ s. (complete, d, s))
      else (complete, d, s)))))"

definition edcv_ProcessDeploy :: "text_lib \<Rightarrow> 's edcv_processor \<Rightarrow> 's activity_processor" where
  "edcv_ProcessDeploy lib p d s =
     read_or_fatal (edcv_message d) (ReadValues lib dec_edc_data edc_checks d) d s (\<lambda>data.
     read_or_fatal (''error reading connector VPA properties for orchestration '' @ ctx_OID d) (VpaProperties d ConnectorType) d s (\<lambda>props.
     read_or_fatal (''error parsing dataspace profiles for orchestration '' @ ctx_OID d) (extractProfiles props) d s (\<lambda>profiles.
       edcv_handleDeployAction lib p data (ed_ParticipantContextId data) profiles d s)))"

text \<open>Both deletions are tried; their errors are only logged.\<close>

definition edcv_handleDisposeAction :: "'s edcv_processor \<Rightarrow> string \<Rightarrow> 's activity_processor" where
  "edcv_handleDisposeAction p participantContextID d s =
     (let (_, s) = ma_DeleteConfig (ev_ManagementAPIClient p) participantContextID s;
          (_, s) = ma_DeleteParticipantContext (ev_ManagementAPIClient p) participantContextID s
      in (complete, d, s))"

definition edcv_ProcessDispose :: "text_lib \<Rightarrow> 's edcv_processor \<Rightarrow> 's activity_processor" where
  "edcv_ProcessDispose lib p d s =
     read_or_fatal (edcv_message d) (ReadValues lib dec_edc_data edc_checks d) d s (\<lambda>data.
       edcv_handleDisposeAction p (ed_ParticipantContextId data) d s)"

section \<open>IdentityHub\<close>

record ih_data =
  hd_ParticipantID :: string
  hd_ParticipantContextId :: string
  hd_CredentialServiceURL :: string
  hd_ProtocolServiceURL :: string
  hd_DataServiceURL :: string

definition dec_ih_data :: "json \<Rightarrow> go_error + ih_data" where
  "dec_ih_data j =
     bind_result (dec_object j) (\<lambda>m.
     bind_result (dec_field dec_string m ''cfm.participant.id'') (\<lambda>p.
     bind_result (dec_field dec_string m ParticipantContextIDKey) (\<lambda>c.
     bind_result (dec_field dec_string m ''cfm.participant.credentialservice'') (\<lambda>cs.
     bind_result (dec_field dec_string m ''cfm.participant.protocolservice'') (\<lambda>ps.
     bind_result (dec_field dec_string m ''cfm.participant.dataservice'') (\<lambda>ds.
       Inr \<lparr>hd_ParticipantID = p, hd_ParticipantContextId = c, hd_CredentialServiceURL = cs, hd_ProtocolServiceURL = ps,
         hd_DataServiceURL = ds\<rparr>))))))"

definition ih_checks :: "ih_data \<Rightarrow> (string \<times> string) list" where
  "ih_checks x = required ''cfm.participant.id'' (hd_ParticipantID x) @
     required_context_id ParticipantContextIDKey (hd_ParticipantContextId x)"

record 's ih_processor =
  hp_IdentityAPIClient :: "'s identity_api"
  hp_VaultURL :: string
  hp_CredentialServiceURL :: string
  hp_ProtocolServiceURL :: string
  hp_DataServiceURL :: string

text \<open>A configured template for a URL takes precedence over the value of the orchestration.\<close>

definition from_template :: "text_lib \<Rightarrow> string \<Rightarrow> string \<Rightarrow> string \<Rightarrow> string" where
  "from_template lib template participantContextId url = (if template \<noteq> [] then Sprintf lib template participantContextId else url)"

definition ih_message :: "activity_context \<Rightarrow> string" where
  "ih_message d = ''error processing IH activity for orchestration '' @ ctx_OID d"

definition ih_handleDeployAction :: "text_lib \<Rightarrow> string \<Rightarrow> 's ih_processor \<Rightarrow> ih_data \<Rightarrow> string \<Rightarrow> 's activity_processor" where
  "ih_handleDeployAction lib uuid p data participantContextId d s =
     (let credentialService = from_template lib (hp_CredentialServiceURL p) participantContextId (hd_CredentialServiceURL data);
          protocolService = from_template lib (hp_ProtocolServiceURL p) participantContextId (hd_ProtocolServiceURL data);
          dataService = from_template lib (hp_DataServiceURL p) participantContextId (hd_DataServiceURL data);
          did = hd_ParticipantID data
      in if credentialService = [] then (fatal (ErrorString ''CredentialServiceURL is empty''), d, s)
         else if protocolService = [] then (fatal (ErrorString ''ProtocolServiceURL is empty''), d, s)
         else if dataService = [] then (fatal (ErrorString ''DataServiceURL is empty''), d, s)
         else read_or_fatal ''cannot create participant in IdentityHub''
           (ParticipantFolderPath (quote lib) participantContextId ''identityhub'') d s (\<lambda>folderPath.
           let manifest = NewParticipantManifest uuid participantContextId did credentialService protocolService dataService
                 [\<lambda>m. m\<lparr>pm_VaultConfig := (pm_VaultConfig m)\<lparr>vc_VaultURL := hp_VaultURL p, vc_FolderPath := folderPath\<rparr>\<rparr>]
           in or_fatal ''cannot create participant in IdentityHub''
             (ia_CreateParticipantContext (hp_IdentityAPIClient p) manifest s) d (\<lambda>_ s. (complete, d, s))))"

definition ih_ProcessDeploy :: "text_lib \<Rightarrow> string \<Rightarrow> 's ih_processor \<Rightarrow> 's activity_processor" where
  "ih_ProcessDeploy lib uuid p d s =
     read_or_fatal (ih_message d) (ReadValues lib dec_ih_data ih_checks d) d s (\<lambda>data.
       ih_handleDeployAction lib uuid p data (hd_ParticipantContextId data) d s)"

definition ih_ProcessDispose :: "text_lib \<Rightarrow> 's ih_processor \<Rightarrow> 's activity_processor" where
  "ih_ProcessDispose lib p d s =
     read_or_fatal (ih_message d) (ReadValues lib dec_ih_data ih_checks d) d s (\<lambda>data.
       let (_, s) = ia_DeleteParticipantContext (hp_IdentityAPIClient p) (hd_ParticipantContextId data) s
       in (complete, d, s))"

section \<open>Certo\<close>

record certo_data =
  cd_ParticipantID :: string
  cd_ParticipantContextId :: string

definition dec_certo_data :: "json \<Rightarrow> go_error + certo_data" where
  "dec_certo_data j =
     bind_result (dec_object j) (\<lambda>m.
     bind_result (dec_field dec_string m ''cfm.participant.id'') (\<lambda>p.
     bind_result (dec_field dec_string m ParticipantContextIDKey) (\<lambda>c.
       Inr \<lparr>cd_ParticipantID = p, cd_ParticipantContextId = c\<rparr>)))"

definition certo_checks :: "certo_data \<Rightarrow> (string \<times> string) list" where
  "certo_checks x = required ''cfm.participant.id'' (cd_ParticipantID x) @
     required_context_id ParticipantContextIDKey (cd_ParticipantContextId x)"

definition dataspaceIdentifier :: "props option \<Rightarrow> string" where
  "dataspaceIdentifier properties =
     string_or_empty (case properties of None \<Rightarrow> None | Some m \<Rightarrow> lookup m ''dataspaceIdentifier'')"

definition certo_message :: "activity_context \<Rightarrow> string" where
  "certo_message d = ''error processing Certo activity for orchestration '' @ ctx_OID d"

definition certo_create_request :: "string \<Rightarrow> certo_data \<Rightarrow> string \<Rightarrow> api_request" where
  "certo_create_request certoURL data identifier =
     \<lparr>aq_Scope = ''certo-mgmt-api:write'', aq_Participant = ''sudo'', aq_Method = ''POST'',
      aq_URL = certoURL @ ''/management/v1/participant-contexts'', aq_JsonHeader = True,
      aq_Body = Some (JObj ([(ParticipantContextIDKey, JStr (cd_ParticipantContextId data)), (''did'', JStr (cd_ParticipantID data))] @
        unless_empty ''dataspaceIdentifier'' JStr identifier))\<rparr>"

definition certo_delete_request :: "string \<Rightarrow> string \<Rightarrow> api_request" where
  "certo_delete_request certoURL participantContextId =
     \<lparr>aq_Scope = ''certo-mgmt-api:write'', aq_Participant = ''sudo'', aq_Method = ''DELETE'',
      aq_URL = certoURL @ ''/management/v1/participant-contexts/'' @ PathEscape participantContextId, aq_JsonHeader = True,
      aq_Body = None\<rparr>"

definition certo_ProcessDeploy :: "text_lib \<Rightarrow> 's net \<Rightarrow> string \<Rightarrow> 's activity_processor" where
  "certo_ProcessDeploy lib net certoURL d s =
     read_or_fatal (certo_message d) (ReadValues lib dec_certo_data certo_checks d) d s (\<lambda>data.
     read_or_fatal ''error reading vpa data'' (VpaProperties d IssuerServiceType) d s (\<lambda>properties.
     case api_call net (certo_create_request certoURL data (dataspaceIdentifier properties))
         (wrapping ''error getting token'') (wrapping ''error creating request'') (wrapping ''error executing request'')
         (\<lambda>rsp. ok_if (in_Status rsp = 201) (unexpected_status ''failed to create participant context on Certo'' rsp)) s of
       (Inl err, s) \<Rightarrow> (fatal err, d, s)
     | (Inr _, s) \<Rightarrow> (complete, d, s)))"

text \<open>Without a token the disposal fails; whatever happens to the request is only logged.\<close>

definition certo_ProcessDispose :: "text_lib \<Rightarrow> 's net \<Rightarrow> string \<Rightarrow> 's activity_processor" where
  "certo_ProcessDispose lib net certoURL d s =
     read_or_fatal (certo_message d) (ReadValues lib dec_certo_data certo_checks d) d s (\<lambda>data.
       let q = certo_delete_request certoURL (cd_ParticipantContextId data) in
       or_fatal ''error getting token'' (tp_GetToken net (aq_Scope q) (aq_Participant q) s) d (\<lambda>exchangedToken s.
         case url_Parse net (aq_URL q) of
           Inl err \<Rightarrow> (complete, d, s)
         | Inr _ \<Rightarrow> (let (_, s) = http_Do net (bearer_request q exchangedToken) s in (complete, d, s))))"

section \<open>Holders\<close>

record registration_data =
  rd_DID :: string
  rd_HolderName :: string
  rd_ParticipantContextId :: string

definition dec_registration_data :: "json \<Rightarrow> go_error + registration_data" where
  "dec_registration_data j =
     bind_result (dec_object j) (\<lambda>m.
     bind_result (dec_field dec_string m ''cfm.participant.id'') (\<lambda>p.
     bind_result (dec_field dec_string m ''cfm.participant.holdername'') (\<lambda>n.
     bind_result (dec_field dec_string m ParticipantContextIDKey) (\<lambda>c.
       Inr \<lparr>rd_DID = p, rd_HolderName = n, rd_ParticipantContextId = c\<rparr>))))"

definition registration_checks :: "registration_data \<Rightarrow> (string \<times> string) list" where
  "registration_checks x = required ''cfm.participant.id'' (rd_DID x) @
     required_context_id ParticipantContextIDKey (rd_ParticipantContextId x)"

definition registration_message :: "activity_context \<Rightarrow> string" where
  "registration_message d = ''error processing Registration activity for orchestration '' @ ctx_OID d"

definition registration_ProcessDeploy :: "text_lib \<Rightarrow> 's issuer_api \<Rightarrow> 's activity_processor" where
  "registration_ProcessDeploy lib issuer d s =
     read_or_fatal (registration_message d) (ReadValues lib dec_registration_data registration_checks d) d s (\<lambda>regData.
       let holderName = (if rd_HolderName regData = [] then rd_DID regData else rd_HolderName regData);
           holderID = rd_DID regData in
       read_or_fatal ''error reading vpa data'' (VpaProperties d IssuerServiceType) d s (\<lambda>properties.
       or_fatal ''error creating holder in ApiClient''
         (is_CreateHolder issuer (rd_ParticipantContextId regData) (rd_DID regData) holderID holderName properties s) d
         (\<lambda>_ s. (complete, d, s))))"

definition registration_ProcessDispose :: "text_lib \<Rightarrow> 's issuer_api \<Rightarrow> 's activity_processor" where
  "registration_ProcessDispose lib issuer d s =
     read_or_fatal (registration_message d) (ReadValues lib dec_registration_data registration_checks d) d s (\<lambda>regData.
       or_fatal ''registration rollback: error deleting holder in IssuerService''
         (is_DeleteHolder issuer (rd_ParticipantContextId regData) (rd_DID regData) s) d (\<lambda>_ s. (complete, d, s)))"

end
