(* ===== verification/Siglet_Activity.thy ===== *)
theory Siglet_Activity
  imports Agent_Activities
begin

text \<open>
  The agent of the Siglet data plane (\<open>agent/orchestration/siglet/activity/activity.go\<close>): it configures
  the transfer types that the data plane properties of a participant name, and registers the data plane
  with the control plane, with an authorization profile if the properties ask for one.
\<close>

section \<open>Reading the properties\<close>

definition TransferTypeMappingsKey :: string where "TransferTypeMappingsKey = ''transferTypeMappings''"
definition AuthorizationKey :: string where "AuthorizationKey = ''authorization''"
definition authorizationType :: string where "authorizationType = ''oauth2_token_exchange''"
definition defaultTokenSource :: string where "defaultTokenSource = ''provider''"

record authorization_config =
  ac_TokenExchangeEndpoint :: string
  ac_Issuer :: string
  ac_JwksUri :: string
  ac_Scope :: string

record authorization_properties =
  ap_Type :: string
  ap_TokenExchangeEndpoint :: string
  ap_Issuer :: string
  ap_JwksUri :: string
  ap_Resource :: string
  ap_Scope :: string

definition dec_authorization_properties :: "json \<Rightarrow> go_error + authorization_properties" where
  "dec_authorization_properties j =
     bind_result (dec_object j) (\<lambda>m.
     bind_result (dec_field dec_string m ''type'') (\<lambda>t.
     bind_result (dec_field dec_string m ''tokenExchangeEndpoint'') (\<lambda>e.
     bind_result (dec_field dec_string m ''issuer'') (\<lambda>i.
     bind_result (dec_field dec_string m ''jwksUri'') (\<lambda>jw.
     bind_result (dec_field dec_string m ''resource'') (\<lambda>r.
     bind_result (dec_field dec_string m ''scope'') (\<lambda>sc.
       Inr \<lparr>ap_Type = t, ap_TokenExchangeEndpoint = e, ap_Issuer = i, ap_JwksUri = jw, ap_Resource = r, ap_Scope = sc\<rparr>)))))))"

text \<open>The value of a key, unless the properties, the key or its value are missing.\<close>

definition present :: "props option \<Rightarrow> string \<Rightarrow> json option" where
  "present properties key =
     (case properties of None \<Rightarrow> None
      | Some m \<Rightarrow> (case lookup m key of None \<Rightarrow> None | Some raw \<Rightarrow> if raw = JNull then None else Some raw))"

definition with_token_source :: "transfer_type \<Rightarrow> transfer_type" where
  "with_token_source t = (if tt_TokenSource t = [] then t\<lparr>tt_TokenSource := defaultTokenSource\<rparr> else t)"

definition extractMappings :: "props option \<Rightarrow> go_error + (string, transfer_type) gomap" where
  "extractMappings properties =
     (case present properties TransferTypeMappingsKey of
        None \<Rightarrow> Inr []
      | Some raw \<Rightarrow> bind_result (dec_map dec_transfer_type (sorted_json raw))
          (\<lambda>mappings. Inr (map (\<lambda>(name, t). (name, with_token_source t)) mappings)))"

definition extractAuthorization :: "props option \<Rightarrow> go_error + authorization_properties option" where
  "extractAuthorization properties =
     (case present properties AuthorizationKey of
        None \<Rightarrow> Inr None
      | Some raw \<Rightarrow> bind_result (dec_authorization_properties (sorted_json raw)) (\<lambda>a. Inr (Some a)))"

section \<open>The authorization profile\<close>

definition firstNonEmpty :: "string list \<Rightarrow> string" where
  "firstNonEmpty values =
     (case find (\<lambda>value. TrimSpace value \<noteq> []) values of Some value \<Rightarrow> TrimSpace value | None \<Rightarrow> [])"

definition quoted :: "string \<Rightarrow> string" where
  "quoted s = [CHR 0x27] @ s @ [CHR 0x27]"

definition profile_unset :: "string \<times> string \<times> string \<Rightarrow> go_error" where
  "profile_unset r =
     (case r of (property, value, configKey) \<Rightarrow>
        ErrorString (''data plane authorization property '' @ quoted property @ '' is not set in the '' @ DataPlaneType @ '' VPA'' @
          (if configKey = [] then [] else '' and no fallback is configured ('' @ configKey @ '')'')))"

definition authorizationProfile ::
    "authorization_config \<Rightarrow> string \<Rightarrow> authorization_properties option \<Rightarrow> go_error + props option" where
  "authorizationProfile config participantContextId vpa =
     (case vpa of None \<Rightarrow> Inr None
      | Some vpa \<Rightarrow>
          (let profileType = TrimSpace (ap_Type vpa) in
           if profileType \<noteq> authorizationType then
             Inl (ErrorString
               (if profileType = [] then
                  ''data plane authorization property '' @ quoted ''type'' @ '' is not set in the '' @ DataPlaneType @
                  '' VPA: the only supported type is '' @ quoted authorizationType
                else ''unsupported data plane authorization type '' @ quoted profileType @ '' in the '' @ DataPlaneType @
                  '' VPA: the only supported type is '' @ quoted authorizationType))
           else
             let endpoint = firstNonEmpty [ap_TokenExchangeEndpoint vpa, ac_TokenExchangeEndpoint config];
                 issuer = firstNonEmpty [ap_Issuer vpa, ac_Issuer config];
                 jwksUri = firstNonEmpty [ap_JwksUri vpa, ac_JwksUri config];
                 resource = firstNonEmpty [ap_Resource vpa, participantContextId];
                 scope = firstNonEmpty [ap_Scope vpa, ac_Scope config]
             in (case find (\<lambda>(property, value, configKey). value = [])
                   [(''tokenExchangeEndpoint'', endpoint, ''tokenexchange.url''), (''issuer'', issuer, ''tokenexchange.issuer''),
                    (''jwksUri'', jwksUri, ''tokenexchange.jwksUri''), (''resource'', resource, [])] of
                   Some r \<Rightarrow> Inl (profile_unset r)
                 | None \<Rightarrow>
                     Inr (Some ([(''type'', JStr authorizationType), (''tokenExchangeEndpoint'', JStr endpoint),
                       (''issuer'', JStr issuer), (''jwksUri'', JStr jwksUri), (''resource'', JStr resource)] @
                       unless_empty ''scope'' JStr scope)))))"

section \<open>The activity\<close>

definition isSigletConfigurable :: "transfer_type \<Rightarrow> bool" where
  "isSigletConfigurable tt \<longleftrightarrow>
     TrimSpace (tt_EndpointType tt) \<noteq> [] \<and> (TrimSpace (tt_Endpoint tt) \<noteq> [] \<or> 0 < length (tt_EndpointMappings tt))"

definition dataPlaneID :: "string \<Rightarrow> string" where
  "dataPlaneID participantContextId = participantContextId @ ''-siglet''"

definition TrimRightSlash :: "string \<Rightarrow> string" where
  "TrimRightSlash s = rev (dropWhile (\<lambda>c. c = CHR ''/'') (rev s))"

definition dataPlaneEndpoint :: "string \<Rightarrow> string \<Rightarrow> string" where
  "dataPlaneEndpoint sigletSignalingURL participantContextId =
     TrimRightSlash sigletSignalingURL @ ''/api/v1/'' @ PathEscape participantContextId @ ''/dataflows''"

definition dataPlaneRegistration ::
    "string \<Rightarrow> string \<Rightarrow> (string, transfer_type) gomap \<Rightarrow> props option \<Rightarrow> data_plane_registration" where
  "dataPlaneRegistration sigletSignalingURL participantContextId mappings authorization =
     \<lparr>dr_ID = dataPlaneID participantContextId, dr_TransferTypes = keys mappings,
      dr_Endpoint = dataPlaneEndpoint sigletSignalingURL participantContextId, dr_Authorization = authorization\<rparr>"

record 's siglet_processor =
  sp_sigletSignalingURL :: string
  sp_transferTypeMappingClient :: "'s transfer_type_api"
  sp_dataPlaneClient :: "'s data_plane_api"
  sp_authorization :: authorization_config

definition dec_siglet_data :: "json \<Rightarrow> go_error + string" where
  "dec_siglet_data j = bind_result (dec_object j) (\<lambda>m. dec_field dec_string m ParticipantContextIDKey)"

definition siglet_checks :: "string \<Rightarrow> (string \<times> string) list" where
  "siglet_checks participantContextId = required_context_id ParticipantContextIDKey participantContextId"

text \<open>Replacing the mapping of a participant if there is one, creating it otherwise.\<close>

definition upsert_mapping ::
    "'s transfer_type_api \<Rightarrow> transfer_type_mapping \<Rightarrow> activity_context \<Rightarrow> 's \<Rightarrow>
     ('s \<Rightarrow> activity_result \<times> activity_context \<times> 's) \<Rightarrow> activity_result \<times> activity_context \<times> 's" where
  "upsert_mapping api mapping d s continue =
     or_fatal ''cannot read transfer type mapping from Siglet'' (ta_Get api (tm_ParticipantContextID mapping) s) d (\<lambda>existing s.
       case existing of
         Some _ \<Rightarrow> or_fatal ''cannot replace transfer type mapping in Siglet'' (ta_Replace api mapping s) d (\<lambda>_ s. continue s)
       | None \<Rightarrow> or_fatal ''cannot create transfer type mapping in Siglet'' (ta_Create api mapping s) d (\<lambda>_ s. continue s))"

definition register_data_plane ::
    "'s siglet_processor \<Rightarrow> string \<Rightarrow> data_plane_registration \<Rightarrow> activity_context \<Rightarrow> 's \<Rightarrow> activity_result \<times> activity_context \<times> 's" where
  "register_data_plane p participantContextId registration d s =
     or_fatal ''cannot register data plane in control plane''
       (dp_RegisterDataPlane (sp_dataPlaneClient p) participantContextId registration s) d (\<lambda>_ s. (complete, d, s))"

definition siglet_handleDeployAction ::
    "'s siglet_processor \<Rightarrow> string \<Rightarrow> (string, transfer_type) gomap \<Rightarrow> authorization_properties option \<Rightarrow> 's activity_processor" where
  "siglet_handleDeployAction p participantContextId mappings authorization d s =
     (case authorizationProfile (sp_authorization p) participantContextId authorization of
        Inl err \<Rightarrow> (fatal err, d, s)
      | Inr profile \<Rightarrow>
          (let sigletMappings = filter (\<lambda>(name, tt). isSigletConfigurable tt) mappings;
               registration = dataPlaneRegistration (sp_sigletSignalingURL p) participantContextId mappings profile
           in if 0 < length sigletMappings then
                upsert_mapping (sp_transferTypeMappingClient p)
                  \<lparr>tm_ParticipantContextID = participantContextId, tm_Mappings = sigletMappings\<rparr> d s
                  (register_data_plane p participantContextId registration d)
              else register_data_plane p participantContextId registration d s))"

definition siglet_message :: "activity_context \<Rightarrow> string" where
  "siglet_message d = ''error processing Siglet activity for orchestration '' @ ctx_OID d"

definition siglet_ProcessDeploy :: "text_lib \<Rightarrow> 's siglet_processor \<Rightarrow> 's activity_processor" where
  "siglet_ProcessDeploy lib p d s =
     read_or_fatal (''error reading data plane VPA properties for orchestration '' @ ctx_OID d) (VpaProperties d DataPlaneType) d s (\<lambda>props.
     read_or_fatal (''error parsing transfer type mappings for orchestration '' @ ctx_OID d) (extractMappings props) d s (\<lambda>mappings.
     if length mappings = 0 then (complete, d, s)
     else
       read_or_fatal (''error parsing data plane authorization for orchestration '' @ ctx_OID d) (extractAuthorization props) d s (\<lambda>authorization.
       read_or_fatal (siglet_message d) (ReadValues lib dec_siglet_data siglet_checks d) d s (\<lambda>participantContextId.
         siglet_handleDeployAction p participantContextId mappings authorization d s))))"

definition siglet_handleDisposeAction :: "'s siglet_processor \<Rightarrow> string \<Rightarrow> 's activity_processor" where
  "siglet_handleDisposeAction p participantContextId d s =
     (let (_, s) = ta_Delete (sp_transferTypeMappingClient p) participantContextId s;
          (_, s) = dp_UnregisterDataPlane (sp_dataPlaneClient p) participantContextId (dataPlaneID participantContextId) s
      in (complete, d, s))"

definition siglet_ProcessDispose :: "text_lib \<Rightarrow> 's siglet_processor \<Rightarrow> 's activity_processor" where
  "siglet_ProcessDispose lib p d s =
     read_or_fatal (siglet_message d) (ReadValues lib dec_siglet_data siglet_checks d) d s (\<lambda>participantContextId.
       siglet_handleDisposeAction p participantContextId d s)"

section \<open>The profile is complete\<close>

text \<open>The settings of a profile, each with the places where its value is looked for, in order.\<close>

definition authorization_settings :: "authorization_config \<Rightarrow> string \<Rightarrow> authorization_properties \<Rightarrow> (string \<times> string list) list" where
  "authorization_settings config participantContextId vpa =
     [(''tokenExchangeEndpoint'', [ap_TokenExchangeEndpoint vpa, ac_TokenExchangeEndpoint config]),
      (''issuer'', [ap_Issuer vpa, ac_Issuer config]), (''jwksUri'', [ap_JwksUri vpa, ac_JwksUri config]),
      (''resource'', [ap_Resource vpa, participantContextId])]"

definition blank :: "string \<Rightarrow> bool" where "blank s \<longleftrightarrow> TrimSpace s = []"

lemma firstNonEmpty_blank: "firstNonEmpty vs = [] \<longleftrightarrow> list_all blank vs"
  by (auto simp: firstNonEmpty_def blank_def list_all_iff find_None_iff find_Some_iff split: option.split)

lemma firstNonEmpty_found:
  "firstNonEmpty vs \<noteq> [] \<Longrightarrow> \<exists>v. find (\<lambda>v. \<not> blank v) vs = Some v \<and> firstNonEmpty vs = TrimSpace v"
  by (auto simp: firstNonEmpty_def blank_def split: option.splits)

text \<open>
  The authorization profile of a data plane is complete or not written at all. If the properties ask for one, it
  is of the supported type, and each of its settings has the first value that is not blank, trimmed: that of the
  properties or else the configured one (of the resource: the participant). If the type is another, or a
  setting is blank everywhere, the activity fails before it has configured or registered anything.
\<close>

theorem siglet_profile_never_partial:
  "case authorizationProfile (sp_authorization p) pc (Some vpa) of
     Inr profile \<Rightarrow>
       TrimSpace (ap_Type vpa) = authorizationType \<and>
       (\<exists>m. profile = Some m \<and> lookup m ''type'' = Some (JStr authorizationType) \<and>
          list_all (\<lambda>(name, sources). \<exists>v. find (\<lambda>v. \<not> blank v) sources = Some v \<and> lookup m name = Some (JStr (TrimSpace v)))
            (authorization_settings (sp_authorization p) pc vpa))
   | Inl err \<Rightarrow>
       siglet_handleDeployAction p pc mappings (Some vpa) d s = (fatal err, d, s) \<and>
       (TrimSpace (ap_Type vpa) \<noteq> authorizationType \<or>
        list_ex (\<lambda>(name, sources). list_all blank sources) (authorization_settings (sp_authorization p) pc vpa))"
proof (cases "authorizationProfile (sp_authorization p) pc (Some vpa)")
  case (Inl err)
  then have "TrimSpace (ap_Type vpa) \<noteq> authorizationType \<or>
    list_ex (\<lambda>(name, sources). list_all blank sources) (authorization_settings (sp_authorization p) pc vpa)"
    unfolding authorizationProfile_def authorization_settings_def
    by (auto simp: Let_def firstNonEmpty_blank split: if_splits)
  with Inl show ?thesis by (simp add: siglet_handleDeployAction_def)
next
  case (Inr profile)
  let ?settings = "authorization_settings (sp_authorization p) pc vpa"
  have ok: "TrimSpace (ap_Type vpa) = authorizationType" "list_all (\<lambda>(name, sources). firstNonEmpty sources \<noteq> []) ?settings"
    "\<exists>rest. profile = Some ((''type'', JStr authorizationType) #
       map (\<lambda>(name, sources). (name, JStr (firstNonEmpty sources))) ?settings @ rest)"
    using Inr unfolding authorizationProfile_def authorization_settings_def by (auto simp: Let_def split: if_splits)
  then obtain rest where profile: "profile = Some ((''type'', JStr authorizationType) #
       map (\<lambda>(name, sources). (name, JStr (firstNonEmpty sources))) ?settings @ rest)" by blast
  have "list_all (\<lambda>(name, sources). \<exists>v. find (\<lambda>v. \<not> blank v) sources = Some v \<and> firstNonEmpty sources = TrimSpace v) ?settings"
    using ok(2) firstNonEmpty_found by (fastforce simp: list_all_iff)
  then have "list_all (\<lambda>(name, sources). \<exists>v. find (\<lambda>v. \<not> blank v) sources = Some v \<and>
      lookup (the profile) name = Some (JStr (TrimSpace v))) ?settings"
    unfolding profile authorization_settings_def by auto
  with Inr ok(1) profile show ?thesis by auto
qed

end
