(* ===== verification/Onboarding_Activity.thy ===== *)
theory Onboarding_Activity
  imports Agent_Activities
begin

text \<open>
  The onboarding agent (\<open>agent/orchestration/onboarding/activity/activity.go\<close>): it requests the credentials of
  a participant from IdentityHub, and looks at their state each time the engine runs it again, until they
  are issued. The ID of the request is kept in the values of the orchestration.
\<close>

section \<open>Values\<close>

record credential_request_data =
  cr_ParticipantContextID :: string
  cr_HolderPID :: string
  cr_CredentialRequestURL :: string

definition dec_credential_request_data :: "json \<Rightarrow> go_error + credential_request_data" where
  "dec_credential_request_data j =
     bind_result (dec_object j) (\<lambda>m.
     bind_result (dec_field dec_string m ParticipantContextIDKey) (\<lambda>p.
     bind_result (dec_field dec_string m ''holderPid'') (\<lambda>h.
     bind_result (dec_field dec_string m ''credentialRequest'') (\<lambda>u.
       Inr \<lparr>cr_ParticipantContextID = p, cr_HolderPID = h, cr_CredentialRequestURL = u\<rparr>))))"

definition credential_request_checks :: "credential_request_data \<Rightarrow> (string \<times> string) list" where
  "credential_request_checks x = required_context_id ParticipantContextIDKey (cr_ParticipantContextID x)"

definition dec_credential_spec :: "json \<Rightarrow> go_error + credential_spec" where
  "dec_credential_spec j =
     bind_result (dec_object j) (\<lambda>m.
     bind_result (dec_field dec_string m ''id'') (\<lambda>i.
     bind_result (dec_field dec_string m ''type'') (\<lambda>t.
     bind_result (dec_field dec_string m ''issuer'') (\<lambda>is.
     bind_result (dec_field dec_string m ''format'') (\<lambda>f.
     bind_result (dec_field dec_string m ''role'') (\<lambda>r.
       Inr \<lparr>cs_Id = i, cs_Type = t, cs_Issuer = is, cs_Format = f, cs_ParticipantRole = r\<rparr>))))))"

text \<open>The values of \<open>cfm.vpa.credentials\<close>; \<open>None\<close> is a nil slice.\<close>

definition dec_onboarding_data :: "json \<Rightarrow> go_error + credential_spec list option" where
  "dec_onboarding_data j =
     bind_result (dec_object j) (\<lambda>m. dec_field (dec_optional (dec_list dec_credential_spec)) m CredentialData)"

fun spec_checks :: "nat \<Rightarrow> credential_spec list \<Rightarrow> (string \<times> string) list" where
  "spec_checks i [] = []"
| "spec_checks i (c # cs) =
     (let name = (\<lambda>field. CredentialData @ ''['' @ nat_text i @ ''].'' @ field)
      in required (name ''id'') (cs_Id c) @ required (name ''type'') (cs_Type c) @
         required (name ''issuer'') (cs_Issuer c) @ required (name ''format'') (cs_Format c)) @ spec_checks (Suc i) cs"

definition onboarding_checks :: "credential_spec list option \<Rightarrow> (string \<times> string) list" where
  "onboarding_checks specs =
     (case specs of None \<Rightarrow> [(CredentialData, ''required'')] | Some cs \<Rightarrow> spec_checks 0 cs)"

section \<open>Deploying\<close>

record 's onboarding_processor =
  op_IdentityApiClient :: "'s identity_api"
  op_IssuerServiceApiClient :: "'s issuer_api"
  op_url_Parse :: "string \<Rightarrow> go_error + string"

definition second_ns :: int where "second_ns = 1000000000"

definition reschedule :: "int \<Rightarrow> activity_result" where
  "reschedule delay = \<lparr>ar_Result = ActivityResultSchedule, ar_WaitOnReschedule = delay, ar_Error = None\<rparr>"

definition onboarding_message :: "activity_context \<Rightarrow> string" where
  "onboarding_message d = ''error processing Onboarding activity for orchestration '' @ ctx_OID d"

definition processExistingRequest :: "'s onboarding_processor \<Rightarrow> credential_request_data \<Rightarrow> 's activity_processor" where
  "processExistingRequest p credentialRequest d s =
     or_fatal ''error getting credential request state''
       (ia_GetCredentialRequestState (op_IdentityApiClient p) (cr_ParticipantContextID credentialRequest)
          (cr_HolderPID credentialRequest) s) d (\<lambda>state s.
       if state = CredentialRequestStateCreated then (reschedule (5 * second_ns), d, s)
       else if state = CredentialRequestStateIssued then
         (complete,
          SetOutputValue ParticipantContextIDKey (JStr (cr_ParticipantContextID credentialRequest))
            (SetOutputValue ''credentialRequest'' (JStr (cr_CredentialRequestURL credentialRequest))
              (SetOutputValue ''holderPid'' (JStr (cr_HolderPID credentialRequest)) d)), s)
       else if state = CredentialRequestStateError then
         (fatal (ErrorString (''credential request for participant '' @ [CHR 0x27] @
            cr_ParticipantContextID credentialRequest @ [CHR 0x27] @ '' failed'')), d, s)
       else
         (\<lparr>ar_Result = ActivityResultRetryError, ar_WaitOnReschedule = 30 * second_ns,
           ar_Error = Some (ErrorString (''unexpected credential request state '' @ [CHR 0x27] @ state @ [CHR 0x27]))\<rparr>, d, s))"

definition processNewRequest ::
    "'s onboarding_processor \<Rightarrow> credential_spec list \<Rightarrow> credential_request_data \<Rightarrow> 's activity_processor" where
  "processNewRequest p specs credentialRequest d s =
     (let participantContextID = cr_ParticipantContextID credentialRequest in
      if length specs = 0 then (fatal (ErrorString ''no credential specs provided''), d, s)
      else
        let credentials = map (\<lambda>spec. \<lparr>ct_Format = cs_Format spec, ct_Type = cs_Type spec, ct_CredentialDefinitionID = cs_Id spec\<rparr>) specs;
            issuers = remdups (map cs_Issuer specs);
            issuer = cs_Issuer (last specs)
        in if 1 < length issuers then (fatal (ErrorString ''multiple issuers not supported yet''), d, s)
           else
             or_fatal ''error requesting credentials''
               (ia_RequestCredentials (op_IdentityApiClient p) participantContextID \<lparr>cq_IssuerDID = issuer, cq_Credentials = credentials\<rparr> s) d
               (\<lambda>location s.
             read_or_fatal ''error requesting credentials'' (HolderPIDFromLocation (op_url_Parse p) location) d s (\<lambda>holderPid.
               (reschedule (5 * second_ns),
                SetValue ''credentialRequest'' (JStr location)
                  (SetValue ''holderPid'' (JStr holderPid)
                    (SetValue ParticipantContextIDKey (JStr participantContextID) d)), s))))"

definition onboarding_ProcessDeploy :: "text_lib \<Rightarrow> 's onboarding_processor \<Rightarrow> 's activity_processor" where
  "onboarding_ProcessDeploy lib p d s =
     read_or_fatal (onboarding_message d) (ReadValues lib dec_credential_request_data credential_request_checks d) d s
       (\<lambda>credentialRequest.
       if cr_HolderPID credentialRequest = [] then
         read_or_fatal (onboarding_message d) (ReadValues lib dec_onboarding_data onboarding_checks d) d s (\<lambda>data.
           processNewRequest p (case data of None \<Rightarrow> [] | Some specs \<Rightarrow> specs) credentialRequest d s)
       else processExistingRequest p credentialRequest d s)"

section \<open>Disposing\<close>

fun revoke_all :: "'s issuer_api \<Rightarrow> string \<Rightarrow> issuer_credential list \<Rightarrow> go_error list \<Rightarrow> 's \<Rightarrow> go_error list \<times> 's" where
  "revoke_all issuer participantContextID [] revocationErrors s = (revocationErrors, s)"
| "revoke_all issuer participantContextID (c # credentials) revocationErrors s =
     (case is_RevokeCredential issuer participantContextID (vcr_ID (ic_VerifiableCredential c)) s of
        (Inl err, s) \<Rightarrow> revoke_all issuer participantContextID credentials (revocationErrors @ [err]) s
      | (Inr _, s) \<Rightarrow> revoke_all issuer participantContextID credentials revocationErrors s)"

text \<open>The loop over the types of the credentials; an error of a query ends it.\<close>

fun revoke_types ::
    "'s issuer_api \<Rightarrow> string \<Rightarrow> credential_spec list \<Rightarrow> go_error list \<Rightarrow> 's \<Rightarrow> (go_error + go_error list) \<times> 's" where
  "revoke_types issuer participantContextID [] revocationErrors s = (Inr revocationErrors, s)"
| "revoke_types issuer participantContextID (spec # specs) revocationErrors s =
     (case is_QueryCredentialsByType issuer participantContextID (cs_Type spec) s of
        (Inl err, s) \<Rightarrow>
          (Inl (wrapping (''error querying credentials by type '' @ cs_Type spec @ '' for participant context '' @
             participantContextID) err), s)
      | (Inr credentials, s) \<Rightarrow>
          (let (revocationErrors, s) = revoke_all issuer participantContextID credentials revocationErrors s
           in revoke_types issuer participantContextID specs revocationErrors s))"

text \<open>\<open>%v\<close> of a slice of errors.\<close>

definition errors_text :: "go_error list \<Rightarrow> string" where
  "errors_text es = ''['' @ join '' '' (map error_text es) @ '']''"

definition onboarding_ProcessDispose :: "text_lib \<Rightarrow> 's onboarding_processor \<Rightarrow> 's activity_processor" where
  "onboarding_ProcessDispose lib p d s =
     read_or_fatal (onboarding_message d) (ReadValues lib dec_credential_request_data credential_request_checks d) d s
       (\<lambda>credentialRequest.
     read_or_fatal (onboarding_message d) (ReadValues lib dec_onboarding_data onboarding_checks d) d s (\<lambda>data.
       (case revoke_types (op_IssuerServiceApiClient p) (cr_ParticipantContextID credentialRequest)
           (case data of None \<Rightarrow> [] | Some specs \<Rightarrow> specs) [] s of
          (Inl err, s) \<Rightarrow> (fatal err, d, s)
        | (Inr revocationErrors, s) \<Rightarrow>
            if 0 < length revocationErrors then
              (fatal (ErrorString (''error revoking one or more credentials: '' @ errors_text revocationErrors)), d, s)
            else (complete, d, s))))"

end
