(* ===== verification/Jwtlet_Activity.thy ===== *)
theory Jwtlet_Activity
  imports Agent_Activities
begin

text \<open>
  The token exchange agent (\<open>agent/orchestration/jwtletagent/activity/activity.go\<close>): it gives a new
  participant its context ID, and lets the agents and workloads exchange their tokens for tokens of the
  participant, by resource mappings in jwtlet.

  What the code uses of libraries are parameters of the processor: the file of the workload token, name-based
  UUIDs, base64 and JSON.
\<close>

section \<open>Configuration\<close>

definition agentScopes :: "string list" where
  "agentScopes = [management_api_admin, identity_api_admin, credentials_read, credentials_write, issuer_api_admin,
     siglet_read, siglet_write, ''read'', ''write'']"

record client_mapping =
  cl_Name :: string
  cl_Scopes :: "string list"

definition defaultClientMappings :: "client_mapping list" where
  "defaultClientMappings =
     [\<lparr>cl_Name = ''controlplane'', cl_Scopes = [''read'', ''signaling'']\<rparr>,
      \<lparr>cl_Name = ''identityhub'', cl_Scopes = [''read'']\<rparr>,
      \<lparr>cl_Name = ''siglet-sa'', cl_Scopes = [''read'']\<rparr>]"

definition serviceAccountIdentifier :: "string \<Rightarrow> string \<Rightarrow> string" where
  "serviceAccountIdentifier namespace name = ''system:serviceaccount:'' @ namespace @ '':'' @ name"

record resource_mapping =
  rm_ClientIdentifier :: string
  rm_ParticipantContext :: string
  rm_Scopes :: "string list"
  rm_Audiences :: "string list"

definition resource_mapping_json :: "resource_mapping \<Rightarrow> json" where
  "resource_mapping_json m =
     JObj [(''clientIdentifier'', JStr (rm_ClientIdentifier m)), (''participantContext'', JStr (rm_ParticipantContext m)),
       (''scopes'', enc_strings (rm_Scopes m)), (''audiences'', enc_strings (rm_Audiences m))]"

record jwtlet_lib =
  jl_sha1_uuid :: "string \<Rightarrow> string"
  jl_base64 :: "string \<Rightarrow> go_error + string"
  jl_json :: "string \<Rightarrow> go_error + json"

record 's jwtlet_processor =
  jp_net :: "'s net"
  jp_ReadFile :: "string \<Rightarrow> 's \<Rightarrow> go_error + string"
  jp_TokenFilePath :: string
  jp_Audience :: string
  jp_ManagementBasePath :: string
  jp_clientIdentifier :: string
  jp_resolvedMappings :: "(string \<times> string list) list"
  jp_lib :: jwtlet_lib

definition jwtlet_NewProcessor ::
    "'s net \<Rightarrow> (string \<Rightarrow> 's \<Rightarrow> go_error + string) \<Rightarrow> jwtlet_lib \<Rightarrow> string \<Rightarrow> string \<Rightarrow> string \<Rightarrow> string \<Rightarrow>
     client_mapping list \<Rightarrow> 's jwtlet_processor" where
  "jwtlet_NewProcessor net readFile lib managementBasePath tokenFilePath audience namespace clientMappings =
     (let mappings = (if length clientMappings = 0 then defaultClientMappings else clientMappings)
      in \<lparr>jp_net = net, jp_ReadFile = readFile, jp_TokenFilePath = tokenFilePath, jp_Audience = audience,
          jp_ManagementBasePath = managementBasePath,
          jp_clientIdentifier = serviceAccountIdentifier namespace ''cfm-agents'',
          jp_resolvedMappings = map (\<lambda>m. (serviceAccountIdentifier namespace (cl_Name m), cl_Scopes m)) mappings,
          jp_lib = lib\<rparr>)"

definition deriveParticipantContextID :: "jwtlet_lib \<Rightarrow> string \<Rightarrow> string \<Rightarrow> string" where
  "deriveParticipantContextID lib orchestrationID activityID =
     filter (\<lambda>c. c \<noteq> CHR ''-'') (jl_sha1_uuid lib (orchestrationID @ ''/'' @ activityID))"

section \<open>Requests\<close>

definition mappingPath :: "string \<Rightarrow> string \<Rightarrow> string" where
  "mappingPath clientIdentifier participantContextID =
     ''/api/v1/mappings/'' @ PathEscape clientIdentifier @ ''/'' @ PathEscape participantContextID"

definition send :: "'s jwtlet_processor \<Rightarrow> string \<Rightarrow> string \<Rightarrow> json option \<Rightarrow> 's \<Rightarrow> (go_error + int) \<times> 's" where
  "send p verb path body s =
     (case jp_ReadFile p (jp_TokenFilePath p) s of
        Inl err \<Rightarrow> (Inl (wrapping (''error reading token file from '' @ jp_TokenFilePath p) err), s)
      | Inr tokenBytes \<Rightarrow>
          (let url = jp_ManagementBasePath p @ path in
           case url_Parse (jp_net p) url of
             Inl err \<Rightarrow> (Inl (wrapping ''error creating request'' err), s)
           | Inr _ \<Rightarrow>
               (case http_Do (jp_net p)
                   \<lparr>out_Method = verb, out_URL = url,
                    out_Headers = (if body \<noteq> None then [(''Content-Type'', ''application/json'')] else []) @
                      [(''Authorization'', ''Bearer '' @ tokenBytes)],
                    out_Body = (case body of None \<Rightarrow> NoBody | Some j \<Rightarrow> JsonBody j)\<rparr> s of
                  (Inl err, s) \<Rightarrow> (Inl (wrapping (''error sending request '' @ [CHR 0x27] @ verb @ '' '' @ url @ [CHR 0x27]) err), s)
                | (Inr rsp, s) \<Rightarrow> (Inr (in_Status rsp), s))))"

definition checkStatus :: "string \<Rightarrow> string \<Rightarrow> int \<Rightarrow> go_error option" where
  "checkStatus verb clientIdentifier status =
     (if status < 200 \<or> 300 \<le> status then
        Some (ErrorString (''request '' @ [CHR 0x27] @ verb @ [CHR 0x27] @ '' for the resource mapping of '' @ clientIdentifier @
          '' failed with status '' @ int_text status))
      else None)"

definition createOrReplaceMapping :: "'s jwtlet_processor \<Rightarrow> resource_mapping \<Rightarrow> 's \<Rightarrow> go_error option \<times> 's" where
  "createOrReplaceMapping p mapping s =
     (case send p ''POST'' ''/api/v1/mappings'' (Some (resource_mapping_json mapping)) s of
        (Inl err, s) \<Rightarrow> (Some err, s)
      | (Inr status, s) \<Rightarrow>
          if status = 409 then
            (case send p ''PUT'' (mappingPath (rm_ClientIdentifier mapping) (rm_ParticipantContext mapping))
                (Some (resource_mapping_json mapping)) s of
               (Inl err, s) \<Rightarrow> (Some err, s)
             | (Inr status, s) \<Rightarrow> (checkStatus ''PUT'' (rm_ClientIdentifier mapping) status, s))
          else (checkStatus ''POST'' (rm_ClientIdentifier mapping) status, s))"

definition deleteMapping :: "'s jwtlet_processor \<Rightarrow> string \<Rightarrow> string \<Rightarrow> 's \<Rightarrow> go_error option \<times> 's" where
  "deleteMapping p clientIdentifier participantContextID s =
     (case send p ''DELETE'' (mappingPath clientIdentifier participantContextID) None s of
        (Inl err, s) \<Rightarrow> (Some err, s)
      | (Inr status, s) \<Rightarrow> if status = 404 then (None, s) else (checkStatus ''DELETE'' clientIdentifier status, s))"

section \<open>Deploying and disposing\<close>

definition decodeJWTClaims :: "jwtlet_lib \<Rightarrow> string \<Rightarrow> go_error + props" where
  "decodeJWTClaims lib jwtToken =
     (let parts = split_on (CHR ''.'') jwtToken in
      if length parts < 3 then Inl (ErrorString ''invalid JWT format'')
      else (case jl_base64 lib (parts ! 1) of
          Inl err \<Rightarrow> Inl (wrapping ''error decoding JWT payload'' err)
        | Inr payload \<Rightarrow>
            (case bind_result (jl_json lib payload) dec_properties of
               Inl err \<Rightarrow> Inl (wrapping ''error parsing JWT payload'' err)
             | Inr claims \<Rightarrow> Inr claims)))"

definition mapping_for :: "'s jwtlet_processor \<Rightarrow> string \<Rightarrow> string \<times> string list \<Rightarrow> resource_mapping" where
  "mapping_for p participantContextID m =
     \<lparr>rm_ClientIdentifier = fst m, rm_ParticipantContext = participantContextID, rm_Scopes = snd m, rm_Audiences = [jp_Audience p]\<rparr>"

fun create_workload_mappings ::
    "'s jwtlet_processor \<Rightarrow> string \<Rightarrow> (string \<times> string list) list \<Rightarrow> 's \<Rightarrow> go_error option \<times> 's" where
  "create_workload_mappings p participantContextID [] s = (None, s)"
| "create_workload_mappings p participantContextID (m # ms) s =
     (case createOrReplaceMapping p (mapping_for p participantContextID m) s of
        (Some err, s) \<Rightarrow> (Some (wrapping (''error creating resource mapping for '' @ fst m) err), s)
      | (None, s) \<Rightarrow> create_workload_mappings p participantContextID ms s)"

fun delete_workload_mappings ::
    "'s jwtlet_processor \<Rightarrow> string \<Rightarrow> (string \<times> string list) list \<Rightarrow> 's \<Rightarrow> go_error option \<times> 's" where
  "delete_workload_mappings p participantContextID [] s = (None, s)"
| "delete_workload_mappings p participantContextID (m # ms) s =
     (case deleteMapping p (fst m) participantContextID s of
        (Some err, s) \<Rightarrow> (Some (wrapping (''error deleting resource mapping for '' @ fst m) err), s)
      | (None, s) \<Rightarrow> delete_workload_mappings p participantContextID ms s)"

definition verify_exchange :: "'s jwtlet_processor \<Rightarrow> string \<Rightarrow> 's \<Rightarrow> go_error option \<times> 's" where
  "verify_exchange p participantContextID s =
     (case tp_GetToken (jp_net p) (join '' '' agentScopes) participantContextID s of
        (Inl err, s) \<Rightarrow> (Some (wrapping ''testing token exchange failed: error getting scoped token'' err), s)
      | (Inr scopedToken, s) \<Rightarrow>
          (case decodeJWTClaims (jp_lib p) scopedToken of
             Inl err \<Rightarrow> (Some (wrapping ''testing token exchange failed: error decoding JWT claims'' err), s)
           | Inr claims \<Rightarrow> (None, s)))"

definition dec_participant_id :: "json \<Rightarrow> go_error + string" where
  "dec_participant_id j = bind_result (dec_object j) (\<lambda>m. dec_field dec_string m ''cfm.participant.id'')"

definition jwtlet_ProcessDeploy :: "text_lib \<Rightarrow> 's jwtlet_processor \<Rightarrow> 's activity_processor" where
  "jwtlet_ProcessDeploy lib p d s =
     read_or_fatal (''error processing token exchange deploy for orchestration '' @ ctx_OID d)
       (ReadValues lib dec_participant_id (required ''cfm.participant.id'') d) d s (\<lambda>_.
     let participantContextID = deriveParticipantContextID (jp_lib p) (ctx_OID d) (a_ID (ctx_Activity d));
         d = SetValue ParticipantContextIDKey (JStr participantContextID) d
     in case createOrReplaceMapping p (mapping_for p participantContextID (jp_clientIdentifier p, agentScopes)) s of
          (Some err, s) \<Rightarrow> (fatal (wrapping ''error creating resource mapping'' err), d, s)
        | (None, s) \<Rightarrow>
            (case create_workload_mappings p participantContextID (jp_resolvedMappings p) s of
               (Some err, s) \<Rightarrow> (fatal err, d, s)
             | (None, s) \<Rightarrow>
                 (case verify_exchange p participantContextID s of
                    (Some err, s) \<Rightarrow> (fatal err, d, s)
                  | (None, s) \<Rightarrow> (complete, SetOutputValue ParticipantContextIDKey (JStr participantContextID) d, s))))"

definition dispose_error :: "activity_context \<Rightarrow> string \<Rightarrow> go_error" where
  "dispose_error d message = ErrorString (''error processing token exchange dispose for orchestration '' @ ctx_OID d @ '': '' @ message)"

definition jwtlet_ProcessDispose :: "text_lib \<Rightarrow> 's jwtlet_processor \<Rightarrow> 's activity_processor" where
  "jwtlet_ProcessDispose lib p d s =
     (case Value d ParticipantContextIDKey of
        None \<Rightarrow> (fatal (dispose_error d ''participant context ID not found in context''), d, s)
      | Some (JStr participantContextID) \<Rightarrow>
          if \<not> ValidateParticipantContextID participantContextID then
            (fatal (wrapping (''error processing token exchange dispose for orchestration '' @ ctx_OID d)
               (ErrorString (''invalid participant context ID '' @ quote lib participantContextID))), d, s)
          else (case deleteMapping p (jp_clientIdentifier p) participantContextID s of
              (Some err, s) \<Rightarrow> (fatal (wrapping ''error deleting resource mapping'' err), d, s)
            | (None, s) \<Rightarrow>
                (case delete_workload_mappings p participantContextID (jp_resolvedMappings p) s of
                   (Some err, s) \<Rightarrow> (fatal err, d, s)
                 | (None, s) \<Rightarrow> (complete, d, s)))
      | Some _ \<Rightarrow> (fatal (dispose_error d ''participant context ID is not a string''), d, s))"

section \<open>What jwtlet does\<close>

text \<open>
  The resource mappings that jwtlet holds are \<open>view s\<close>, by client and participant context. A POST creates a
  mapping, and is answered with a conflict if there is one; a PUT replaces it; a DELETE removes it, and is
  answered with not found if there is none. Any other status leaves the mappings as they are. When no
  response arrives, the request may have been processed or not. Getting a token changes nothing.
\<close>

definition mapping_key :: "resource_mapping \<Rightarrow> string \<times> string" where
  "mapping_key m = (rm_ClientIdentifier m, rm_ParticipantContext m)"

definition jwtlet_server :: "'s jwtlet_processor \<Rightarrow> ('s \<Rightarrow> string \<times> string \<Rightarrow> resource_mapping option) \<Rightarrow> bool" where
  "jwtlet_server p view \<longleftrightarrow>
     (\<forall>scope participant s r s'. tp_GetToken (jp_net p) scope participant s = (r, s') \<longrightarrow> view s' = view s) \<and>
     (\<forall>req s r s'. http_Do (jp_net p) req s = (r, s') \<longrightarrow>
        (\<forall>m. out_Method req = ''POST'' \<and> out_URL req = jp_ManagementBasePath p @ ''/api/v1/mappings'' \<and>
           out_Body req = JsonBody (resource_mapping_json m) \<longrightarrow>
           written (status_of r) success (view s) ((view s)(mapping_key m \<mapsto> m)) (view s')) \<and>
        (\<forall>m. out_Method req = ''PUT'' \<and>
           out_URL req = jp_ManagementBasePath p @ mappingPath (rm_ClientIdentifier m) (rm_ParticipantContext m) \<and>
           out_Body req = JsonBody (resource_mapping_json m) \<longrightarrow>
           written (status_of r) success (view s) ((view s)(mapping_key m \<mapsto> m)) (view s')) \<and>
        (\<forall>c pc. out_Method req = ''DELETE'' \<and> out_URL req = jp_ManagementBasePath p @ mappingPath c pc \<longrightarrow>
           written (status_of r) (\<lambda>status. status = 404 \<or> success status) (view s) ((view s)((c, pc) := None)) (view s')))"

lemma jwtlet_serverD:
  assumes "jwtlet_server p view"
  shows "tp_GetToken (jp_net p) scope participant s = (r, s') \<Longrightarrow> view s' = view s"
    "http_Do (jp_net p) req s = (r2, s') \<Longrightarrow> out_Method req = ''POST'' \<Longrightarrow>
       out_URL req = jp_ManagementBasePath p @ ''/api/v1/mappings'' \<Longrightarrow> out_Body req = JsonBody (resource_mapping_json m) \<Longrightarrow>
       written (status_of r2) success (view s) ((view s)(mapping_key m \<mapsto> m)) (view s')"
    "http_Do (jp_net p) req s = (r2, s') \<Longrightarrow> out_Method req = ''PUT'' \<Longrightarrow>
       out_URL req = jp_ManagementBasePath p @ mappingPath (rm_ClientIdentifier m) (rm_ParticipantContext m) \<Longrightarrow>
       out_Body req = JsonBody (resource_mapping_json m) \<Longrightarrow>
       written (status_of r2) success (view s) ((view s)(mapping_key m \<mapsto> m)) (view s')"
    "http_Do (jp_net p) req s = (r2, s') \<Longrightarrow> out_Method req = ''DELETE'' \<Longrightarrow>
       out_URL req = jp_ManagementBasePath p @ mappingPath c pc \<Longrightarrow>
       written (status_of r2) (\<lambda>status. status = 404 \<or> success status) (view s) ((view s)((c, pc) := None)) (view s')"
  using assms unfolding jwtlet_server_def by blast+

text \<open>What one request does.\<close>

lemma send_cases:
  assumes "send p verb path body s = (r, s')"
  obtains (unsent) err where "r = Inl err" "s' = s"
  | (sent) req r2 where "http_Do (jp_net p) req s = (r2, s')" "out_Method req = verb" "out_URL req = jp_ManagementBasePath p @ path"
      "out_Body req = (case body of None \<Rightarrow> NoBody | Some j \<Rightarrow> JsonBody j)"
      "written r good old new v \<longleftrightarrow> written (status_of r2) good old new v"
  using assms by (auto simp: send_def Let_def written_def status_of_def split: sum.splits prod.splits)

lemma send_written:
  assumes "jwtlet_server p view"
  shows "send p ''POST'' ''/api/v1/mappings'' (Some (resource_mapping_json m)) s = (r, s') \<Longrightarrow>
      written r success (view s) ((view s)(mapping_key m \<mapsto> m)) (view s')"
    "send p ''PUT'' (mappingPath (rm_ClientIdentifier m) (rm_ParticipantContext m)) (Some (resource_mapping_json m)) s = (r, s') \<Longrightarrow>
      written r success (view s) ((view s)(mapping_key m \<mapsto> m)) (view s')"
    "send p ''DELETE'' (mappingPath c pc) None s = (r, s') \<Longrightarrow>
      written r (\<lambda>status. status = 404 \<or> success status) (view s) ((view s)((c, pc) := None)) (view s')"
proof -
  assume "send p ''POST'' ''/api/v1/mappings'' (Some (resource_mapping_json m)) s = (r, s')"
  then show "written r success (view s) ((view s)(mapping_key m \<mapsto> m)) (view s')"
    by (rule send_cases) (auto simp: written_def [of "Inl _"] dest: jwtlet_serverD(2) [OF assms])
next
  assume "send p ''PUT'' (mappingPath (rm_ClientIdentifier m) (rm_ParticipantContext m)) (Some (resource_mapping_json m)) s = (r, s')"
  then show "written r success (view s) ((view s)(mapping_key m \<mapsto> m)) (view s')"
    by (rule send_cases) (auto simp: written_def [of "Inl _"] dest: jwtlet_serverD(3) [OF assms])
next
  assume "send p ''DELETE'' (mappingPath c pc) None s = (r, s')"
  then show "written r (\<lambda>status. status = 404 \<or> success status) (view s) ((view s)((c, pc) := None)) (view s')"
    by (rule send_cases) (auto simp: written_def [of "Inl _"] dest: jwtlet_serverD(4) [OF assms])
qed

lemma checkStatus_None: "checkStatus verb c status = None \<longleftrightarrow> success status"
  by (auto simp: checkStatus_def success_def)

text \<open>A mapping is written if there is no error; if there is one, it may be.\<close>

lemma createOrReplaceMapping_view:
  assumes srv: "jwtlet_server p view" and run: "createOrReplaceMapping p m s = (r, s')"
  shows "if r = None then view s' = (view s)(mapping_key m \<mapsto> m)
    else view s' = view s \<or> view s' = (view s)(mapping_key m \<mapsto> m)"
proof -
  obtain r1 s1 where post: "send p ''POST'' ''/api/v1/mappings'' (Some (resource_mapping_json m)) s = (r1, s1)" by fastforce
  obtain r2 s2 where put: "send p ''PUT'' (mappingPath (rm_ClientIdentifier m) (rm_ParticipantContext m))
    (Some (resource_mapping_json m)) s1 = (r2, s2)" by fastforce
  from send_written(1) [OF srv post] send_written(2) [OF srv put] run post put show ?thesis
    by (cases r1; cases r2)
       (auto simp: createOrReplaceMapping_def written_def checkStatus_None success_def split: if_splits)
qed

lemma deleteMapping_view:
  assumes srv: "jwtlet_server p view" and run: "deleteMapping p c pc s = (r, s')"
  shows "if r = None then view s' = (view s)((c, pc) := None)
    else view s' = view s \<or> view s' = (view s)((c, pc) := None)"
proof -
  obtain r1 s1 where del: "send p ''DELETE'' (mappingPath c pc) None s = (r1, s1)" by fastforce
  from send_written(3) [OF srv del] run del show ?thesis
    by (cases r1) (auto simp: deleteMapping_def written_def checkStatus_None split: if_splits)
qed

section \<open>Granting and revoking\<close>

definition clients :: "'s jwtlet_processor \<Rightarrow> (string \<times> string list) list" where
  "clients p = (jp_clientIdentifier p, agentScopes) # jp_resolvedMappings p"

text \<open>The mappings of a participant when all its clients have theirs (of two entries for a client the last counts), and when none has.\<close>

definition granted ::
    "'s jwtlet_processor \<Rightarrow> string \<Rightarrow> (string \<times> string list) list \<Rightarrow> (string \<times> string \<Rightarrow> resource_mapping option) \<Rightarrow>
     string \<times> string \<Rightarrow> resource_mapping option" where
  "granted p pc ms V k =
     (if snd k = pc then
        (case map_of (rev ms) (fst k) of Some scopes \<Rightarrow> Some (mapping_for p pc (fst k, scopes)) | None \<Rightarrow> V k)
      else V k)"

definition revoked ::
    "string \<Rightarrow> (string \<times> string list) list \<Rightarrow> (string \<times> string \<Rightarrow> resource_mapping option) \<Rightarrow>
     string \<times> string \<Rightarrow> resource_mapping option" where
  "revoked pc ms V k = (if snd k = pc \<and> fst k \<in> set (map fst ms) then None else V k)"

text \<open>Views that agree on everything but the mappings of these clients for the participant.\<close>

definition same_but :: "string \<Rightarrow> (string \<times> string list) list \<Rightarrow> (string \<times> string \<Rightarrow> 'm option) \<Rightarrow> (string \<times> string \<Rightarrow> 'm option) \<Rightarrow> bool" where
  "same_but pc ms V V' \<longleftrightarrow> (\<forall>k. snd k = pc \<and> fst k \<in> set (map fst ms) \<or> V' k = V k)"

lemma same_but_refl [simp]: "same_but pc ms V V"
  by (simp add: same_but_def)

lemma same_but_trans: "same_but pc ms V V' \<Longrightarrow> same_but pc ms V' V'' \<Longrightarrow> same_but pc ms V V''"
  unfolding same_but_def by metis

lemma same_but_Cons_granted: "same_but pc ms (V((c, pc) \<mapsto> x)) V' \<Longrightarrow> same_but pc ((c, sc) # ms) V V'"
  unfolding same_but_def by (intro allI, drule spec) (auto split: if_splits)

lemma same_but_Cons_revoked: "same_but pc ms (V((c, pc) := None)) V' \<Longrightarrow> same_but pc ((c, sc) # ms) V V'"
  unfolding same_but_def by (intro allI, drule spec) (auto split: if_splits)

lemma granted_Nil [simp]: "granted p pc [] V = V"
  by (auto simp: granted_def)

lemma granted_Cons: "granted p pc (m # ms) V = granted p pc ms (V((fst m, pc) \<mapsto> mapping_for p pc m))"
  by (cases m) (auto simp: granted_def fun_eq_iff map_add_def split: option.split)

lemma revoked_Cons: "revoked pc (m # ms) V = revoked pc ms (V((fst m, pc) := None))"
  by (auto simp: revoked_def fun_eq_iff)

lemma revoked_Nil [simp]: "revoked pc [] V = V"
  by (auto simp: revoked_def)

lemma map_of_rev_None: "map_of (rev ms) c = None \<longleftrightarrow> c \<notin> set (map fst ms)"
  by (simp add: map_of_eq_None_iff)

lemma granted_other: "\<not> (snd k = pc \<and> fst k \<in> set (map fst ms)) \<Longrightarrow> granted p pc ms V k = V k"
  using map_of_rev_None [of ms "fst k"] by (simp add: granted_def) (metis option.simps(4))

lemma granted_own: "snd k = pc \<Longrightarrow> fst k \<in> set (map fst ms) \<Longrightarrow> granted p pc ms V k = granted p pc ms V' k"
  using map_of_rev_None [of ms "fst k"] by (cases "map_of (rev ms) (fst k)") (simp_all add: granted_def)

lemma granted_same_but: "same_but pc ms V V' \<Longrightarrow> granted p pc ms V' = granted p pc ms V"
  unfolding same_but_def by (rule ext) (metis granted_other granted_own)

lemma revoked_same_but: "same_but pc ms V V' \<Longrightarrow> revoked pc ms V' = revoked pc ms V"
  by (auto simp: revoked_def same_but_def fun_eq_iff)

lemma granted_is_same_but: "same_but pc ms V (granted p pc ms V)"
  unfolding same_but_def by (metis granted_other)

lemma key_of_mapping_for [simp]: "mapping_key (mapping_for p pc m) = (fst m, pc)"
  by (simp add: mapping_key_def mapping_for_def)

lemma create_workload_view:
  assumes "jwtlet_server p view"
  shows "create_workload_mappings p pc ms s = (r, s') \<Longrightarrow>
    if r = None then view s' = granted p pc ms (view s) else same_but pc ms (view s) (view s')"
proof (induction ms arbitrary: s)
  case (Cons m ms)
  obtain r1 s1 where m: "createOrReplaceMapping p (mapping_for p pc m) s = (r1, s1)" by fastforce
  note m' = createOrReplaceMapping_view [OF assms m, simplified]
  show ?case
  proof (cases r1)
    case None
    with m' have v: "view s1 = (view s)((fst m, pc) \<mapsto> mapping_for p pc m)" by simp
    have "create_workload_mappings p pc ms s1 = (r, s')" using Cons.prems m None by simp
    note IH = Cons.IH [OF this]
    show ?thesis
    proof (cases "r = None")
      case True
      then show ?thesis using IH by (simp only: granted_Cons v [symmetric] if_True simp_thms)
    next
      case False
      then have "same_but pc ms (view s1) (view s')" using IH by (simp only: if_False)
      then have "same_but pc ((fst m, snd m) # ms) (view s) (view s')" unfolding v by (rule same_but_Cons_granted)
      then show ?thesis using False by auto
    qed
  next
    case (Some err)
    with Cons.prems m m' show ?thesis by (auto simp: same_but_def split: if_splits)
  qed
qed simp

lemma delete_workload_view:
  assumes "jwtlet_server p view"
  shows "delete_workload_mappings p pc ms s = (r, s') \<Longrightarrow>
    if r = None then view s' = revoked pc ms (view s) else same_but pc ms (view s) (view s')"
proof (induction ms arbitrary: s)
  case (Cons m ms)
  obtain r1 s1 where m: "deleteMapping p (fst m) pc s = (r1, s1)" by fastforce
  note m' = deleteMapping_view [OF assms m]
  show ?case
  proof (cases r1)
    case None
    with m' have v: "view s1 = (view s)((fst m, pc) := None)" by simp
    have "delete_workload_mappings p pc ms s1 = (r, s')" using Cons.prems m None by simp
    note IH = Cons.IH [OF this]
    show ?thesis
    proof (cases "r = None")
      case True
      then show ?thesis using IH by (simp only: revoked_Cons v [symmetric] if_True simp_thms)
    next
      case False
      then have "same_but pc ms (view s1) (view s')" using IH by (simp only: if_False)
      then have "same_but pc ((fst m, snd m) # ms) (view s) (view s')" unfolding v by (rule same_but_Cons_revoked)
      then show ?thesis using False by auto
    qed
  next
    case (Some err)
    with Cons.prems m m' show ?thesis by (auto simp: same_but_def split: if_splits)
  qed
qed simp

lemma verify_exchange_view: "jwtlet_server p view \<Longrightarrow> verify_exchange p pc s = (r, s') \<Longrightarrow> view s' = view s"
  by (auto simp: verify_exchange_def dest: jwtlet_serverD(1) split: prod.splits sum.splits)

lemma flow_results [simp]:
  "ar_Result complete = ActivityResultComplete" "ar_Result (fatal err) = ActivityResultFatalError"
  "ActivityResultFatalError \<noteq> ActivityResultComplete"
  by (simp_all add: complete_def fatal_def activity_result_defs)

definition context_of :: "'s jwtlet_processor \<Rightarrow> activity_context \<Rightarrow> string" where
  "context_of p d = deriveParticipantContextID (jp_lib p) (ctx_OID d) (a_ID (ctx_Activity d))"

lemma jwtlet_deploy_view:
  assumes srv: "jwtlet_server p view" and run: "jwtlet_ProcessDeploy lib p d s = (r, d', s')"
  shows "if ar_Result r = ActivityResultComplete
    then view s' = granted p (context_of p d) (clients p) (view s) \<and> Value d' ParticipantContextIDKey = Some (JStr (context_of p d))
    else same_but (context_of p d) (clients p) (view s) (view s')"
proof (cases "ReadValues lib dec_participant_id (required ''cfm.participant.id'') d")
  case (Inl err)
  with run show ?thesis by (auto simp: jwtlet_ProcessDeploy_def read_or_fatal_def)
next
  case (Inr x)
  let ?pc = "context_of p d"
  obtain r1 s1 where a: "createOrReplaceMapping p (mapping_for p ?pc (jp_clientIdentifier p, agentScopes)) s = (r1, s1)" by fastforce
  obtain r2 s2 where w: "create_workload_mappings p ?pc (jp_resolvedMappings p) s1 = (r2, s2)" by fastforce
  obtain r3 s3 where x: "verify_exchange p ?pc s2 = (r3, s3)" by fastforce
  have all: "create_workload_mappings p ?pc (clients p) s =
      (case r1 of Some err \<Rightarrow> (Some (wrapping (''error creating resource mapping for '' @ jp_clientIdentifier p) err), s1) | None \<Rightarrow> (r2, s2))"
    using a w by (simp add: clients_def split: option.split)
  have r: "(ar_Result r = ActivityResultComplete \<longleftrightarrow> r1 = None \<and> r2 = None \<and> r3 = None) \<and>
      s' = (if r1 \<noteq> None then s1 else if r2 \<noteq> None then s2 else s3) \<and>
      (r1 = None \<and> r2 = None \<and> r3 = None \<longrightarrow> Value d' ParticipantContextIDKey = Some (JStr ?pc))"
    using run a w x Inr
    by (auto simp: jwtlet_ProcessDeploy_def read_or_fatal_def Let_def context_of_def split: option.splits)
  have v: "view s3 = view s2" by (rule verify_exchange_view [OF srv x])
  from r all v create_workload_view [OF srv, of ?pc "clients p" s] granted_is_same_but [of ?pc "clients p" "view s" p]
  show ?thesis by (cases r1; cases r2; cases r3) auto
qed

lemma jwtlet_dispose_view:
  assumes srv: "jwtlet_server p view" and run: "jwtlet_ProcessDispose lib p d s = (r, d', s')"
    and pc: "Value d ParticipantContextIDKey = Some (JStr pc)"
  shows "if ar_Result r = ActivityResultComplete then view s' = revoked pc (clients p) (view s)
    else same_but pc (clients p) (view s) (view s')"
proof (cases "ValidateParticipantContextID pc")
  case False
  with run pc show ?thesis by (auto simp: jwtlet_ProcessDispose_def)
next
  case True
  obtain r1 s1 where a: "deleteMapping p (jp_clientIdentifier p) pc s = (r1, s1)" by fastforce
  obtain r2 s2 where w: "delete_workload_mappings p pc (jp_resolvedMappings p) s1 = (r2, s2)" by fastforce
  have all: "delete_workload_mappings p pc (clients p) s =
      (case r1 of Some err \<Rightarrow> (Some (wrapping (''error deleting resource mapping for '' @ jp_clientIdentifier p) err), s1) | None \<Rightarrow> (r2, s2))"
    using a w by (simp add: clients_def split: option.split)
  have r: "(ar_Result r = ActivityResultComplete \<longleftrightarrow> r1 = None \<and> r2 = None) \<and> s' = (if r1 \<noteq> None then s1 else s2)"
    using run a w True pc by (auto simp: jwtlet_ProcessDispose_def split: option.splits)
  from r all delete_workload_view [OF srv, of pc "clients p" s]
  show ?thesis by (cases r1; cases r2) auto
qed

text \<open>The world after a number of attempts to deploy, completed or not.\<close>

fun after_deploys :: "text_lib \<Rightarrow> 's jwtlet_processor \<Rightarrow> activity_context \<Rightarrow> nat \<Rightarrow> 's \<Rightarrow> 's" where
  "after_deploys lib p d 0 s = s"
| "after_deploys lib p d (Suc n) s = after_deploys lib p d n (snd (snd (jwtlet_ProcessDeploy lib p d s)))"

lemma after_deploys_view:
  assumes "jwtlet_server p view"
  shows "same_but (context_of p d) (clients p) (view s) (view (after_deploys lib p d n s))"
proof (induction n arbitrary: s)
  case (Suc n)
  obtain r d' s' where run: "jwtlet_ProcessDeploy lib p d s = (r, d', s')" by (metis prod_cases3)
  have "same_but (context_of p d) (clients p) (view s) (view s')"
    using jwtlet_deploy_view [OF assms run] granted_is_same_but [of "context_of p d" "clients p" "view s" p]
    by (auto split: if_splits)
  with Suc.IH [of s'] run show ?case by (auto intro: same_but_trans)
qed simp


section \<open>A service in memory\<close>

definition dec_resource_mapping :: "json \<Rightarrow> go_error + resource_mapping" where
  "dec_resource_mapping j =
     bind_result (dec_object j) (\<lambda>m.
     bind_result (dec_field dec_string m ''clientIdentifier'') (\<lambda>c.
     bind_result (dec_field dec_string m ''participantContext'') (\<lambda>p.
     bind_result (dec_field dec_strings m ''scopes'') (\<lambda>sc.
     bind_result (dec_field dec_strings m ''audiences'') (\<lambda>a.
       Inr \<lparr>rm_ClientIdentifier = c, rm_ParticipantContext = p, rm_Scopes = sc, rm_Audiences = a\<rparr>)))))"

lemma dec_resource_mapping_json [simp]: "dec_resource_mapping (resource_mapping_json m) = Inr m"
  by (cases m) (simp add: dec_resource_mapping_def resource_mapping_json_def dec_field_def json_field_simps)

text \<open>The mappings are a list, with one entry for a key.\<close>

definition held :: "resource_mapping list \<Rightarrow> string \<times> string \<Rightarrow> resource_mapping option" where
  "held ms k = find (\<lambda>m. mapping_key m = k) ms"

definition hold :: "resource_mapping \<Rightarrow> resource_mapping list \<Rightarrow> resource_mapping list" where
  "hold m ms = m # filter (\<lambda>m'. mapping_key m' \<noteq> mapping_key m) ms"

lemma held_filter: "held (filter P ms) k = (if \<forall>m. mapping_key m = k \<longrightarrow> P m then held ms k else held (filter P ms) k)"
  by (induction ms) (auto simp: held_def)

lemma held_hold: "held (hold m ms) = (held ms)(mapping_key m \<mapsto> m)"
proof
  fix k
  show "held (hold m ms) k = ((held ms)(mapping_key m \<mapsto> m)) k"
    using held_filter [of "\<lambda>m'. mapping_key m' \<noteq> mapping_key m" ms k] by (auto simp: hold_def held_def)
qed

lemma held_none: "\<forall>m\<in>set ms. mapping_key m \<noteq> k \<Longrightarrow> held ms k = None"
  by (simp add: held_def find_None_iff)

lemma held_remove: "held (filter (\<lambda>m. mapping_key m \<noteq> k) ms) = (held ms)(k := None)"
proof
  fix k'
  show "held (filter (\<lambda>m. mapping_key m \<noteq> k) ms) k' = ((held ms)(k := None)) k'"
    using held_filter [of "\<lambda>m. mapping_key m \<noteq> k" ms k'] held_none [of "filter (\<lambda>m. mapping_key m \<noteq> k) ms" k] by auto
qed

definition mapping_url :: "string \<Rightarrow> resource_mapping \<Rightarrow> string" where
  "mapping_url base m = base @ mappingPath (rm_ClientIdentifier m) (rm_ParticipantContext m)"

definition memory_Do :: "string \<Rightarrow> http_out \<Rightarrow> resource_mapping list \<Rightarrow> (go_error + http_in) \<times> resource_mapping list" where
  "memory_Do base req ms =
     (case out_Body req of
        JsonBody j \<Rightarrow>
          (case dec_resource_mapping j of
             Inl err \<Rightarrow> (Inr (answer 400), ms)
           | Inr m \<Rightarrow>
               if out_Method req = ''POST'' then
                 (if held ms (mapping_key m) \<noteq> None then (Inr (answer 409), ms) else (Inr (answer 201), hold m ms))
               else if out_Method req = ''PUT'' \<and> out_URL req = mapping_url base m then (Inr (answer 200), hold m ms)
               else if out_Method req = ''DELETE'' then (Inr (answer 204), filter (\<lambda>m. mapping_url base m \<noteq> out_URL req) ms)
               else (Inr (answer 405), ms))
      | _ \<Rightarrow>
          if out_Method req = ''DELETE'' then
            (Inr (answer (if \<exists>m\<in>set ms. mapping_url base m = out_URL req then 204 else 404)),
             filter (\<lambda>m. mapping_url base m \<noteq> out_URL req) ms)
          else (Inr (answer 405), ms))"

definition memory_net :: "string \<Rightarrow> string \<Rightarrow> resource_mapping list net" where
  "memory_net base token =
     \<lparr>tp_GetToken = (\<lambda>scope participant s. (Inr token, s)), http_Do = memory_Do base, url_Parse = (\<lambda>url. Inr url)\<rparr>"

text \<open>Paths of different mappings differ.\<close>

lemma mappingPath_inj: "mappingPath c p = mappingPath c' p' \<longleftrightarrow> c = c' \<and> p = p'"
  using separated_inj [OF PathEscape_segment(1) [of c] PathEscape_segment(1) [of c'], of "PathEscape p" "PathEscape p'"]
    PathEscape_inj [of c c'] PathEscape_inj [of p p']
  by (auto simp: mappingPath_def)

lemma mapping_url_key: "mapping_url base m = base @ mappingPath c p \<longleftrightarrow> mapping_key m = (c, p)"
  by (auto simp: mapping_url_def mappingPath_inj mapping_key_def)

lemma memory_post:
  assumes "memory_Do base req ms = (r, ms')" "out_Method req = ''POST''" "out_Body req = JsonBody (resource_mapping_json m)"
  shows "written (status_of r) success (held ms) ((held ms)(mapping_key m \<mapsto> m)) (held ms')"
  using assms by (auto simp: memory_Do_def written_def success_def held_hold split: if_splits)

lemma memory_put:
  assumes "memory_Do base req ms = (r, ms')" "out_Method req = ''PUT''" "out_Body req = JsonBody (resource_mapping_json m)"
    and "out_URL req = base @ mappingPath (rm_ClientIdentifier m) (rm_ParticipantContext m)"
  shows "written (status_of r) success (held ms) ((held ms)(mapping_key m \<mapsto> m)) (held ms')"
  using assms by (auto simp: memory_Do_def written_def success_def held_hold mapping_url_def)

lemma memory_delete:
  assumes "memory_Do base req ms = (r, ms')" "out_Method req = ''DELETE''" "out_URL req = base @ mappingPath c pc"
  shows "written (status_of r) (\<lambda>status. status = 404 \<or> success status) (held ms) ((held ms)((c, pc) := None)) (held ms')"
  using assms unfolding memory_Do_def
  by (cases "out_Body req") (auto simp: written_def success_def mapping_url_key held_remove held_none split: sum.splits if_splits)

lemma memory_jwtlet: "jp_net p = memory_net (jp_ManagementBasePath p) token \<Longrightarrow> jwtlet_server p held"
  unfolding jwtlet_server_def by (simp add: memory_net_def) (blast intro: memory_post memory_put memory_delete)

section \<open>Repeated runs\<close>

text \<open>
  C17. The engine runs an activity again when an attempt failed or its outcome is unknown. After any number of
  attempts to deploy, completed or not, a deployment that completes leaves every client of the agent with
  exactly its mapping for the participant's context, all other mappings as they were before the first attempt,
  and the context ID in the values; one that does not complete has touched no other mapping. A disposal that
  completes removes all mappings of the clients for the context, also when the deployment before it failed
  half way, and no other. This holds for every service that behaves as \<open>jwtlet_server\<close> says, where each request
  may or may not be processed when its response is lost.
\<close>

theorem jwtlet_repeatable:
  assumes srv: "jwtlet_server p view"
    and deploy: "jwtlet_ProcessDeploy lib p d (after_deploys lib p d n s) = (r, d', s')"
    and dispose: "jwtlet_ProcessDispose lib p e s' = (r2, e', s'')"
    and e: "Value e ParticipantContextIDKey = Some (JStr (context_of p d))"
  shows "(if ar_Result r = ActivityResultComplete
      then view s' = granted p (context_of p d) (clients p) (view s) \<and>
        Value d' ParticipantContextIDKey = Some (JStr (context_of p d))
      else same_but (context_of p d) (clients p) (view s) (view s')) \<and>
    (if ar_Result r2 = ActivityResultComplete then view s'' = revoked (context_of p d) (clients p) (view s)
      else same_but (context_of p d) (clients p) (view s) (view s''))"
proof -
  let ?same = "same_but (context_of p d) (clients p)" and ?t = "after_deploys lib p d n s"
  note before = after_deploys_view [OF srv, of d s lib n]
  note D = jwtlet_deploy_view [OF srv deploy] and E = jwtlet_dispose_view [OF srv dispose e]
  have s': "?same (view s) (view s')"
    using D same_but_trans [OF before granted_is_same_but] same_but_trans [OF before] by (auto split: if_splits)
  show ?thesis
    using D E s' granted_same_but [OF before, of p] revoked_same_but [OF s'] same_but_trans [OF s'] by (auto split: if_splits)
qed

definition sample_text_lib :: text_lib where
  "sample_text_lib = \<lparr>validation_text = (\<lambda>failed. join '', '' (map fst failed)), quote = (\<lambda>s. s), json_text = (\<lambda>j. []),
     Sprintf = (\<lambda>template s. template @ s)\<rparr>"

definition sample_jwtlet :: "resource_mapping list jwtlet_processor" where
  "sample_jwtlet = jwtlet_NewProcessor (memory_net ''http://jwtlet'' ''h.p.s'') (\<lambda>path s. Inr ''sa'')
     \<lparr>jl_sha1_uuid = (\<lambda>s. ''0f-1e''), jl_base64 = Inr, jl_json = (\<lambda>s. Inr (JObj []))\<rparr>
     ''http://jwtlet'' ''/token'' ''edc'' ''ns'' []"

definition sample_activity_context :: activity_context where
  "sample_activity_context = NewActivityContext ''o1''
     \<lparr>a_ID = ''a1'', a_Type = ''jwtlet'', a_Discriminator = ''deploy'', a_DependsOn = []\<rparr>
     [(''cfm.participant.id'', JStr ''did:web:x'')] []"

lemma jwtlet_repeatable_witness:
  "(let D = jwtlet_ProcessDeploy sample_text_lib sample_jwtlet sample_activity_context
       (after_deploys sample_text_lib sample_jwtlet sample_activity_context 1 []);
     E = jwtlet_ProcessDispose sample_text_lib sample_jwtlet (fst (snd D)) (snd (snd D)) in
   ar_Result (fst D) = ActivityResultComplete \<and> ar_Result (fst E) = ActivityResultComplete \<and>
   held (snd (snd D)) = granted sample_jwtlet ''0f1e'' (clients sample_jwtlet) (held []) \<and>
   held (snd (snd E)) = revoked ''0f1e'' (clients sample_jwtlet) (held []))"
proof -
  let ?D = "jwtlet_ProcessDeploy sample_text_lib sample_jwtlet sample_activity_context
       (after_deploys sample_text_lib sample_jwtlet sample_activity_context 1 [])"
  let ?E = "jwtlet_ProcessDispose sample_text_lib sample_jwtlet (fst (snd ?D)) (snd (snd ?D))"
  have srv: "jwtlet_server sample_jwtlet held"
    by (rule memory_jwtlet [of _ "''h.p.s''"]) (simp add: sample_jwtlet_def jwtlet_NewProcessor_def Let_def)
  have c: "context_of sample_jwtlet sample_activity_context = ''0f1e''" by code_simp
  have r: "ar_Result (fst ?D) = ActivityResultComplete" by code_simp
  have e: "Value (fst (snd ?D)) ParticipantContextIDKey = Some (JStr (context_of sample_jwtlet sample_activity_context))" by code_simp
  have r2: "ar_Result (fst ?E) = ActivityResultComplete" by code_simp
  have "?D = (fst ?D, fst (snd ?D), snd (snd ?D))" "?E = (fst ?E, fst (snd ?E), snd (snd ?E))" by simp_all
  from jwtlet_repeatable [OF srv this e] show ?thesis unfolding Let_def by (simp only: r r2 c if_True simp_thms)
qed

end
