(* ===== verification/Agents_Confined.thy ===== *)
theory Agents_Confined
  imports Siglet_Activity Onboarding_Activity Jwtlet_Activity
begin

text \<open>
  What the agents may do in the name of a participant. The activities are run with the HTTP clients that their
  launchers (\<open>agent/orchestration/*/launcher\<close>) give them, and their calls are recorded.
\<close>

section \<open>The agents\<close>

record agent_config =
  controlplane_url :: string
  identityhub_url :: string
  siglet_management_url :: string
  siglet_signaling_url :: string
  issuerservice_url :: string
  issuerservice_id :: string
  certo_url :: string
  vault_url :: string
  credentialservice_template :: string
  protocolservice_template :: string
  dataservice_template :: string
  siglet_authorization :: authorization_config

definition edcv_agent :: "'s net \<Rightarrow> agent_config \<Rightarrow> 's edcv_processor" where
  "edcv_agent net c = \<lparr>ev_ManagementAPIClient = HttpManagementAPIClient net (controlplane_url c), ev_VaultURL = vault_url c\<rparr>"

definition ih_agent :: "'s net \<Rightarrow> agent_config \<Rightarrow> 's ih_processor" where
  "ih_agent net c =
     \<lparr>hp_IdentityAPIClient = HttpIdentityAPIClient net (identityhub_url c), hp_VaultURL = vault_url c,
      hp_CredentialServiceURL = credentialservice_template c, hp_ProtocolServiceURL = protocolservice_template c,
      hp_DataServiceURL = dataservice_template c\<rparr>"

definition siglet_agent :: "'s net \<Rightarrow> agent_config \<Rightarrow> 's siglet_processor" where
  "siglet_agent net c =
     \<lparr>sp_sigletSignalingURL = siglet_signaling_url c,
      sp_transferTypeMappingClient = SigletTransferClient net (siglet_management_url c),
      sp_dataPlaneClient = HttpDataPlaneClient net (controlplane_url c), sp_authorization = siglet_authorization c\<rparr>"

definition issuer_client :: "(json \<Rightarrow> go_error + int) \<Rightarrow> 's net \<Rightarrow> agent_config \<Rightarrow> 's issuer_api" where
  "issuer_client dec_time net c = HttpIssuerClient dec_time net (issuerservice_url c) (issuerservice_id c)"

definition onboarding_agent :: "(json \<Rightarrow> go_error + int) \<Rightarrow> 's net \<Rightarrow> agent_config \<Rightarrow> 's onboarding_processor" where
  "onboarding_agent dec_time net c =
     \<lparr>op_IdentityApiClient = HttpIdentityAPIClient net (identityhub_url c),
      op_IssuerServiceApiClient = issuer_client dec_time net c, op_url_Parse = url_Parse net\<rparr>"

text \<open>Every activity, with the scopes and the participants it may ask tokens for, given the context ID of its orchestration.\<close>

definition own_tokens :: "string \<Rightarrow> string \<Rightarrow> string \<Rightarrow> bool" where
  "own_tokens pc scope participant \<longleftrightarrow> participant = pc \<and> scope \<in> set agentScopes"

definition certo_tokens :: "string \<Rightarrow> string \<Rightarrow> string \<Rightarrow> bool" where
  "certo_tokens pc scope participant \<longleftrightarrow> participant = ''sudo'' \<and> scope = ''certo-mgmt-api:write''"

definition agent_activities ::
    "text_lib \<Rightarrow> (json \<Rightarrow> go_error + int) \<Rightarrow> string \<Rightarrow> 's net \<Rightarrow> agent_config \<Rightarrow>
     ('s activity_processor \<times> (string \<Rightarrow> string \<Rightarrow> string \<Rightarrow> bool)) list" where
  "agent_activities lib dec_time uuid net c =
     [(edcv_ProcessDeploy lib (edcv_agent net c), own_tokens), (edcv_ProcessDispose lib (edcv_agent net c), own_tokens),
      (ih_ProcessDeploy lib uuid (ih_agent net c), own_tokens), (ih_ProcessDispose lib (ih_agent net c), own_tokens),
      (siglet_ProcessDeploy lib (siglet_agent net c), own_tokens), (siglet_ProcessDispose lib (siglet_agent net c), own_tokens),
      (registration_ProcessDeploy lib (issuer_client dec_time net c), own_tokens),
      (registration_ProcessDispose lib (issuer_client dec_time net c), own_tokens),
      (onboarding_ProcessDeploy lib (onboarding_agent dec_time net c), own_tokens),
      (onboarding_ProcessDispose lib (onboarding_agent dec_time net c), own_tokens),
      (certo_ProcessDeploy lib net (certo_url c), certo_tokens), (certo_ProcessDispose lib net (certo_url c), certo_tokens)]"

section \<open>Calls with tokens\<close>

text \<open>
  A sequence of calls, each of which asks for a token and, with a token it got, sends one request: all tokens are allowed.
\<close>

definition confined :: "(string \<Rightarrow> string \<Rightarrow> bool) \<Rightarrow> net_event list \<Rightarrow> bool" where
  "confined A tr \<longleftrightarrow>
     (\<exists>calls. tr = concat calls \<and> (\<forall>c\<in>set calls. \<exists>q. authorized_calls q c \<and> A (aq_Scope q) (aq_Participant q)))"

definition extends :: "(string \<Rightarrow> string \<Rightarrow> bool) \<Rightarrow> 's \<times> net_event list \<Rightarrow> 's \<times> net_event list \<Rightarrow> bool" where
  "extends A st st' \<longleftrightarrow> (\<exists>new. snd st' = snd st @ new \<and> confined A new)"

lemma confined_Nil [simp]: "confined A []"
  unfolding confined_def by (rule exI [of _ "[]"]) simp

lemma confined_append: "confined A xs \<Longrightarrow> confined A ys \<Longrightarrow> confined A (xs @ ys)"
  unfolding confined_def by (elim exE conjE, rule_tac x = "calls @ callsa" in exI) auto

lemma confined_none: "confined (\<lambda>_ _. False) tr \<longleftrightarrow> tr = []"
  by (auto simp: confined_def)

lemma trace_extends_refl [simp]: "extends A st st"
  by (simp add: extends_def)

lemma trace_extends_trans: "extends A st st' \<Longrightarrow> extends A st' st'' \<Longrightarrow> extends A st st''"
  unfolding extends_def by (elim exE conjE, rule_tac x = "new @ newa" in exI) (simp add: confined_append)

text \<open>Operations of clients, and activities, all of whose calls are allowed.\<close>

definition calls_ok :: "(string \<Rightarrow> string \<Rightarrow> bool) \<Rightarrow> ('s \<times> net_event list \<Rightarrow> 'r \<times> 's \<times> net_event list) \<Rightarrow> bool" where
  "calls_ok A f \<longleftrightarrow> (\<forall>st. extends A st (snd (f st)))"

definition runs_ok :: "(string \<Rightarrow> string \<Rightarrow> bool) \<Rightarrow> ('s \<times> net_event list \<Rightarrow> 'r \<times> 'd \<times> 's \<times> net_event list) \<Rightarrow> bool" where
  "runs_ok A f \<longleftrightarrow> (\<forall>st. extends A st (snd (snd (f st))))"

named_theorems confine

lemma calls_ok_api_call [confine]:
  "A (aq_Scope q) (aq_Participant q) \<Longrightarrow> calls_ok A (api_call (recording net) q te re se judge)"
  unfolding calls_ok_def extends_def
proof (intro allI)
  fix st :: "'a \<times> net_event list"
  assume ok: "A (aq_Scope q) (aq_Participant q)"
  obtain r s' tr' where run: "api_call (recording net) q te re se judge st = (r, (s', tr'))" by (metis prod_cases3)
  from run have "api_call (recording net) q te re se judge (fst st, snd st) = (r, (s', tr'))" by simp
  then obtain new where new: "tr' = snd st @ new" "authorized_calls q new" by (blast dest: api_call_authorized)
  then have "confined A new" unfolding confined_def using ok by (intro exI [of _ "[new]"]) auto
  with new run show "\<exists>new. snd (snd (api_call (recording net) q te re se judge st)) = snd st @ new \<and> confined A new" by simp
qed

lemma runs_ok_return [confine]: "runs_ok A (\<lambda>st. (r, d, st))"
  by (simp add: runs_ok_def)

lemma runs_ok_or_fatal [confine]:
  "calls_ok A f \<Longrightarrow> (\<And>x. runs_ok A (k x)) \<Longrightarrow> runs_ok A (\<lambda>st. or_fatal message (f st) d k)"
  unfolding calls_ok_def runs_ok_def or_fatal_def
proof (intro allI)
  fix st
  assume f: "\<forall>st. extends A st (snd (f st))" and k: "\<And>x. \<forall>st. extends A st (snd (snd (k x st)))"
  show "extends A st (snd (snd (case f st of (Inl err, s) \<Rightarrow> (fatal (wrapping message err), d, s) | (Inr x, s) \<Rightarrow> k x s)))"
    using f [rule_format, of st] k by (cases "f st") (auto split: sum.split intro: trace_extends_trans)
qed

lemma runs_ok_read_or_fatal [confine]:
  "(\<And>x. y = Inr x \<Longrightarrow> runs_ok A (\<lambda>st. k x st)) \<Longrightarrow> runs_ok A (\<lambda>st. read_or_fatal message y d st (\<lambda>x. k x st))"
  by (cases y) (simp_all add: runs_ok_def read_or_fatal_def)

lemma runs_ok_if [confine]:
  "(b \<Longrightarrow> runs_ok A f) \<Longrightarrow> (\<not> b \<Longrightarrow> runs_ok A g) \<Longrightarrow> runs_ok A (\<lambda>st. if b then f st else g st)"
  by (cases b) simp_all

lemma runs_ok_option [confine]:
  "runs_ok A f \<Longrightarrow> (\<And>y. runs_ok A (g y)) \<Longrightarrow> runs_ok A (\<lambda>st. case x of None \<Rightarrow> f st | Some y \<Rightarrow> g y st)"
  by (cases x) simp_all

lemma runs_ok_two [confine]:
  "calls_ok A f \<Longrightarrow> calls_ok A g \<Longrightarrow> runs_ok A (\<lambda>st. let (_, st) = f st; (_, st) = g st in (r, d, st))"
  unfolding calls_ok_def runs_ok_def Let_def split_beta by (metis trace_extends_trans snd_conv)

lemma runs_ok_one [confine]: "calls_ok A f \<Longrightarrow> runs_ok A (\<lambda>st. let (_, st) = f st in (r, d, st))"
  by (auto simp: calls_ok_def runs_ok_def Let_def split_beta)

lemma runs_ok_call [confine]:
  "calls_ok A f \<Longrightarrow> (\<And>e. runs_ok A (g e)) \<Longrightarrow> (\<And>y. runs_ok A (h y)) \<Longrightarrow>
     runs_ok A (\<lambda>st. case f st of (Inl e, s) \<Rightarrow> g e s | (Inr y, s) \<Rightarrow> h y s)"
  unfolding calls_ok_def runs_ok_def
proof (intro allI)
  fix st
  assume f: "\<forall>st. extends A st (snd (f st))" and k: "\<And>e. \<forall>st. extends A st (snd (snd (g e st)))" "\<And>y. \<forall>st. extends A st (snd (snd (h y st)))"
  show "extends A st (snd (snd (case f st of (Inl e, s) \<Rightarrow> g e s | (Inr y, s) \<Rightarrow> h y s)))"
    using f [rule_format, of st] k by (cases "f st") (auto split: sum.split intro: trace_extends_trans)
qed

lemma calls_ok_return [confine]: "calls_ok A (\<lambda>st. (x, st))"
  by (simp add: calls_ok_def)

lemma calls_ok_call [confine]:
  "calls_ok A f \<Longrightarrow> (\<And>e. calls_ok A (g e)) \<Longrightarrow> (\<And>y. calls_ok A (h y)) \<Longrightarrow>
     calls_ok A (\<lambda>st. case f st of (Inl e, s) \<Rightarrow> g e s | (Inr y, s) \<Rightarrow> h y s)"
  unfolding calls_ok_def
proof (intro allI)
  fix st
  assume f: "\<forall>st. extends A st (snd (f st))" and k: "\<And>e. \<forall>st. extends A st (snd (g e st))" "\<And>y. \<forall>st. extends A st (snd (h y st))"
  show "extends A st (snd (case f st of (Inl e, s) \<Rightarrow> g e s | (Inr y, s) \<Rightarrow> h y s))"
    using f [rule_format, of st] k by (cases "f st") (auto split: sum.split intro: trace_extends_trans)
qed

lemma calls_ok_let [confine]: "calls_ok A f \<Longrightarrow> (\<And>x. calls_ok A (g x)) \<Longrightarrow> calls_ok A (\<lambda>st. let (x, s) = f st in g x s)"
  unfolding calls_ok_def Let_def split_beta by (metis trace_extends_trans)

lemma confined_one: "authorized_calls q c \<Longrightarrow> A (aq_Scope q) (aq_Participant q) \<Longrightarrow> confined A c"
  unfolding confined_def by (rule exI [of _ "[c]"]) auto

text \<open>Every operation of the clients makes one call, for the participant that it is given.\<close>

lemmas client_operations =
  cp_CreateParticipantContext_def cp_DeleteParticipantContext_def cp_PatchConfig_def cp_RegisterDataPlane_def
  cp_UnregisterDataPlane_def cp_AssociateProfiles_def ih_CreateParticipantContext_def ih_DeleteParticipantContext_def
  ih_RequestCredentials_def ih_GetCredentialRequestState_def sg_CreateTransferTypeMapping_def sg_GetTransferTypeMapping_def
  sg_ReplaceTransferTypeMapping_def sg_DeleteTransferTypeMapping_def isv_QueryCredentialsByType_def isv_DeleteHolder_def
  isv_CreateHolder_def isv_RevokeCredential_def

lemmas client_requests =
  create_context_request_def delete_context_request_def patch_config_request_def register_request_def unregister_request_def
  profiles_request_def ih_create_request_def ih_delete_request_def request_credentials_request_def get_state_request_def
  siglet_request_def query_credentials_request_def delete_holder_request_def create_holder_request_def revoke_request_def

lemma agent_scopes:
  "own_tokens pc management_api_admin pc" "own_tokens pc identity_api_admin pc" "own_tokens pc credentials_read pc"
  "own_tokens pc credentials_write pc" "own_tokens pc issuer_api_admin pc" "own_tokens pc siglet_read pc" "own_tokens pc siglet_write pc"
  by (simp_all add: own_tokens_def agentScopes_def)

lemma control_plane_calls [confine]:
  "calls_ok (own_tokens (px_ParticipantContextID m)) (cp_CreateParticipantContext (recording net) base m)"
  "calls_ok (own_tokens pc) (cp_DeleteParticipantContext (recording net) base pc)"
  "calls_ok (own_tokens pc) (cp_PatchConfig (recording net) base pc c)"
  "calls_ok (own_tokens pc) (cp_RegisterDataPlane (recording net) base pc r)"
  "calls_ok (own_tokens pc) (cp_UnregisterDataPlane (recording net) base pc i)"
  "calls_ok (own_tokens pc) (cp_AssociateProfiles (recording net) base pc ps)"
  "calls_ok A (cp_DeleteConfig pc)"
  by (simp_all add: client_operations calls_ok_api_call client_requests agent_scopes cp_DeleteConfig_def calls_ok_def [of A])

lemma identity_hub_calls [confine]:
  "calls_ok (own_tokens (pm_ParticipantContextID m)) (ih_CreateParticipantContext (recording net) base m)"
  "calls_ok (own_tokens pc) (ih_DeleteParticipantContext (recording net) base pc)"
  "calls_ok (own_tokens pc) (ih_RequestCredentials (recording net) base pc q)"
  "calls_ok (own_tokens pc) (ih_GetCredentialRequestState (recording net) base pc i)"
  by (simp_all add: client_operations calls_ok_api_call client_requests agent_scopes)

lemma siglet_calls [confine]:
  "calls_ok (own_tokens (tm_ParticipantContextID t)) (sg_CreateTransferTypeMapping (recording net) base t)"
  "calls_ok (own_tokens pc) (sg_GetTransferTypeMapping (recording net) base pc)"
  "calls_ok (own_tokens (tm_ParticipantContextID t)) (sg_ReplaceTransferTypeMapping (recording net) base t)"
  "calls_ok (own_tokens pc) (sg_DeleteTransferTypeMapping (recording net) base pc)"
  by (simp_all add: client_operations calls_ok_api_call client_requests agent_scopes)

lemma issuer_calls [confine]:
  "calls_ok (own_tokens holder) (isv_QueryCredentialsByType dec_time (recording net) base issuer holder t)"
  "calls_ok (own_tokens pc) (isv_DeleteHolder (recording net) base issuer pc h)"
  "calls_ok (own_tokens pc) (isv_CreateHolder (recording net) base issuer pc did h n ps)"
  "calls_ok (own_tokens pc) (isv_RevokeCredential (recording net) base pc i)"
  by (simp_all add: client_operations Let_def calls_ok_api_call client_requests agent_scopes)

section \<open>The stored participant\<close>

definition stored_context_id :: "activity_context \<Rightarrow> string" where
  "stored_context_id d = (case dec_siglet_data (sorted_json (JObj (ctx_ProcessingData d))) of Inr pc \<Rightarrow> pc | Inl _ \<Rightarrow> [])"

lemmas dec_data_defs = dec_siglet_data_def dec_edc_data_def dec_ih_data_def dec_certo_data_def dec_registration_data_def
  dec_credential_request_data_def

lemma stored_by_decoders:
  "dec_edc_data j = Inr x1 \<Longrightarrow> dec_siglet_data j = Inr (ed_ParticipantContextId x1)"
  "dec_ih_data j = Inr x2 \<Longrightarrow> dec_siglet_data j = Inr (hd_ParticipantContextId x2)"
  "dec_certo_data j = Inr x3 \<Longrightarrow> dec_siglet_data j = Inr (cd_ParticipantContextId x3)"
  "dec_registration_data j = Inr x4 \<Longrightarrow> dec_siglet_data j = Inr (rd_ParticipantContextId x4)"
  "dec_credential_request_data j = Inr x5 \<Longrightarrow> dec_siglet_data j = Inr (cr_ParticipantContextID x5)"
  by (auto simp: dec_data_defs bind_result_Inr)

lemma read_values:
  "ReadValues lib dec_edc_data edc_checks d = Inr x1 \<Longrightarrow>
     ValidateParticipantContextID (stored_context_id d) \<and> ed_ParticipantContextId x1 = stored_context_id d"
  "ReadValues lib dec_ih_data ih_checks d = Inr x2 \<Longrightarrow>
     ValidateParticipantContextID (stored_context_id d) \<and> hd_ParticipantContextId x2 = stored_context_id d"
  "ReadValues lib dec_certo_data certo_checks d = Inr x3 \<Longrightarrow>
     ValidateParticipantContextID (stored_context_id d) \<and> cd_ParticipantContextId x3 = stored_context_id d"
  "ReadValues lib dec_registration_data registration_checks d = Inr x4 \<Longrightarrow>
     ValidateParticipantContextID (stored_context_id d) \<and> rd_ParticipantContextId x4 = stored_context_id d"
  "ReadValues lib dec_credential_request_data credential_request_checks d = Inr x5 \<Longrightarrow>
     ValidateParticipantContextID (stored_context_id d) \<and> cr_ParticipantContextID x5 = stored_context_id d"
  "ReadValues lib dec_siglet_data siglet_checks d = Inr pc \<Longrightarrow>
     ValidateParticipantContextID (stored_context_id d) \<and> pc = stored_context_id d"
  by (auto simp: ReadValues_ok stored_context_id_def dest!: stored_by_decoders
      simp: edc_checks_def ih_checks_def certo_checks_def registration_checks_def credential_request_checks_def siglet_checks_def)

section \<open>Every activity\<close>

definition allowed :: "activity_context \<Rightarrow> (string \<Rightarrow> string \<Rightarrow> string \<Rightarrow> bool) \<Rightarrow> string \<Rightarrow> string \<Rightarrow> bool" where
  "allowed d tokens =
     (if ValidateParticipantContextID (stored_context_id d) then tokens (stored_context_id d) else (\<lambda>_ _. False))"

lemma allowed_valid: "ValidateParticipantContextID (stored_context_id d) \<Longrightarrow> allowed d tokens = tokens (stored_context_id d)"
  by (simp add: allowed_def)

lemmas agent_defs = edcv_agent_def ih_agent_def siglet_agent_def issuer_client_def onboarding_agent_def
  HttpManagementAPIClient_def HttpDataPlaneClient_def HttpIdentityAPIClient_def SigletTransferClient_def HttpIssuerClient_def

lemma edcv_confined:
  "runs_ok (allowed d own_tokens) (\<lambda>st. edcv_ProcessDeploy lib (edcv_agent (recording net) c) d st)"
  "runs_ok (allowed d own_tokens) (\<lambda>st. edcv_ProcessDispose lib (edcv_agent (recording net) c) d st)"
proof -
  have create: "calls_ok (own_tokens pc) (cp_CreateParticipantContext (recording net) base
      \<lparr>px_ParticipantContextID = pc, px_Identifier = did, px_Properties = [], px_State = st\<rparr>)" for pc base did st
    using control_plane_calls(1) [of "\<lparr>px_ParticipantContextID = pc, px_Identifier = did, px_Properties = [], px_State = st\<rparr>"] by simp
  show "runs_ok (allowed d own_tokens) (\<lambda>st. edcv_ProcessDeploy lib (edcv_agent (recording net) c) d st)"
    unfolding edcv_ProcessDeploy_def edcv_handleDeployAction_def Let_def agent_defs
    by (intro confine) (auto dest!: read_values(1) simp: allowed_valid intro!: create confine)
  show "runs_ok (allowed d own_tokens) (\<lambda>st. edcv_ProcessDispose lib (edcv_agent (recording net) c) d st)"
    unfolding edcv_ProcessDispose_def edcv_handleDisposeAction_def agent_defs
    by (intro confine) (auto dest!: read_values(1) simp: allowed_valid intro!: confine)
qed

lemma ih_confined:
  "runs_ok (allowed d own_tokens) (\<lambda>st. ih_ProcessDeploy lib uuid (ih_agent (recording net) c) d st)"
  "runs_ok (allowed d own_tokens) (\<lambda>st. ih_ProcessDispose lib (ih_agent (recording net) c) d st)"
proof -
  have create: "calls_ok (own_tokens pc) (ih_CreateParticipantContext (recording net) base
      (NewParticipantManifest uuid pc did cs ps ds [\<lambda>m. m\<lparr>pm_VaultConfig := f m\<rparr>]))" for pc base did cs ps ds f
    using identity_hub_calls(1) [of "NewParticipantManifest uuid pc did cs ps ds [\<lambda>m. m\<lparr>pm_VaultConfig := f m\<rparr>]"]
    by (simp add: NewParticipantManifest_def Let_def)
  show "runs_ok (allowed d own_tokens) (\<lambda>st. ih_ProcessDeploy lib uuid (ih_agent (recording net) c) d st)"
    unfolding ih_ProcessDeploy_def ih_handleDeployAction_def Let_def agent_defs
    by (intro confine) (auto dest!: read_values(2) simp: allowed_valid intro!: create confine)
  show "runs_ok (allowed d own_tokens) (\<lambda>st. ih_ProcessDispose lib (ih_agent (recording net) c) d st)"
    unfolding ih_ProcessDispose_def agent_defs
    by (intro confine) (auto dest!: read_values(2) simp: allowed_valid intro!: confine)
qed

lemma registration_confined:
  "runs_ok (allowed d own_tokens) (\<lambda>st. registration_ProcessDeploy lib (issuer_client dec_time (recording net) c) d st)"
  "runs_ok (allowed d own_tokens) (\<lambda>st. registration_ProcessDispose lib (issuer_client dec_time (recording net) c) d st)"
  unfolding registration_ProcessDeploy_def registration_ProcessDispose_def agent_defs Let_def
  by (intro confine; auto dest!: read_values(4) simp: allowed_valid intro!: confine)+

lemma siglet_confined:
  "runs_ok (allowed d own_tokens) (\<lambda>st. siglet_ProcessDeploy lib (siglet_agent (recording net) c) d st)"
  "runs_ok (allowed d own_tokens) (\<lambda>st. siglet_ProcessDispose lib (siglet_agent (recording net) c) d st)"
proof -
  have register: "runs_ok (own_tokens pc) (\<lambda>st. register_data_plane (siglet_agent (recording net) c) pc r d st)" for pc r
    unfolding register_data_plane_def agent_defs by (intro confine) (auto intro!: confine)
  have upsert: "runs_ok (own_tokens pc) (\<lambda>st. upsert_mapping (SigletTransferClient (recording net) base) m d st k)"
    if "tm_ParticipantContextID m = pc" "runs_ok (own_tokens pc) k" for pc m k base
    unfolding upsert_mapping_def agent_defs that(1) [symmetric]
    by (intro confine) (use that in \<open>auto intro!: confine\<close>)
  have "runs_ok (own_tokens pc) (\<lambda>st. siglet_handleDeployAction (siglet_agent (recording net) c) pc ms au d st)" for pc ms au
  proof (cases "authorizationProfile (sp_authorization (siglet_agent (recording net) c)) pc au")
    case (Inl err)
    then show ?thesis unfolding siglet_handleDeployAction_def by (simp add: confine)
  next
    case (Inr profile)
    have client: "sp_transferTypeMappingClient (siglet_agent (recording net) c) = SigletTransferClient (recording net) (siglet_management_url c)"
      by (simp add: siglet_agent_def)
    show ?thesis unfolding siglet_handleDeployAction_def Inr sum.case Let_def client
      by (intro runs_ok_if upsert register) simp
  qed
  then show "runs_ok (allowed d own_tokens) (\<lambda>st. siglet_ProcessDeploy lib (siglet_agent (recording net) c) d st)"
    unfolding siglet_ProcessDeploy_def by (intro confine) (auto dest!: read_values(6) simp: allowed_valid intro!: confine)
  show "runs_ok (allowed d own_tokens) (\<lambda>st. siglet_ProcessDispose lib (siglet_agent (recording net) c) d st)"
    unfolding siglet_ProcessDispose_def siglet_handleDisposeAction_def agent_defs
    by (intro confine) (auto dest!: read_values(6) simp: allowed_valid intro!: confine)
qed

lemma issuer_fields:
  "is_RevokeCredential (HttpIssuerClient dec_time net base issuer) = isv_RevokeCredential net base"
  "is_QueryCredentialsByType (HttpIssuerClient dec_time net base issuer) = isv_QueryCredentialsByType dec_time net base issuer"
  by (simp_all add: HttpIssuerClient_def)

lemma revoke_all_calls: "calls_ok (own_tokens pc) (revoke_all (HttpIssuerClient dec_time (recording net) base issuer) pc cs es)"
proof (induction cs arbitrary: es)
  case Nil
  have "revoke_all (HttpIssuerClient dec_time (recording net) base issuer) pc [] es = (\<lambda>st. (es, st))" by (rule ext) simp
  then show ?case by (simp add: confine)
next
  case (Cons c cs)
  let ?api = "HttpIssuerClient dec_time (recording net) base issuer"
  have "revoke_all ?api pc (c # cs) es =
    (\<lambda>st. case isv_RevokeCredential (recording net) base pc (vcr_ID (ic_VerifiableCredential c)) st of
        (Inl err, s) \<Rightarrow> revoke_all ?api pc cs (es @ [err]) s | (Inr _, s) \<Rightarrow> revoke_all ?api pc cs es s)"
    by (rule ext) (simp add: issuer_fields)
  then show ?case by (simp only:) (intro confine Cons)
qed

lemma revoke_types_calls: "calls_ok (own_tokens pc) (revoke_types (HttpIssuerClient dec_time (recording net) base issuer) pc specs es)"
proof (induction specs arbitrary: es)
  case Nil
  have "revoke_types (HttpIssuerClient dec_time (recording net) base issuer) pc [] es = (\<lambda>st. (Inr es, st))" by (rule ext) simp
  then show ?case by (simp add: confine)
next
  case (Cons spec specs)
  let ?api = "HttpIssuerClient dec_time (recording net) base issuer"
  have "revoke_types ?api pc (spec # specs) es =
    (\<lambda>st. case isv_QueryCredentialsByType dec_time (recording net) base issuer pc (cs_Type spec) st of
        (Inl err, s) \<Rightarrow> (Inl (wrapping (''error querying credentials by type '' @ cs_Type spec @ '' for participant context '' @ pc) err), s)
      | (Inr credentials, s) \<Rightarrow>
          (let (es, s) = revoke_all ?api pc credentials es s in revoke_types ?api pc specs es s))"
    by (rule ext) (simp add: issuer_fields)
  then show ?case by (simp only:) (intro confine Cons revoke_all_calls)
qed

lemma onboarding_confined:
  "runs_ok (allowed d own_tokens) (\<lambda>st. onboarding_ProcessDeploy lib (onboarding_agent dec_time (recording net) c) d st)"
  "runs_ok (allowed d own_tokens) (\<lambda>st. onboarding_ProcessDispose lib (onboarding_agent dec_time (recording net) c) d st)"
proof -
  have exists: "runs_ok (own_tokens (cr_ParticipantContextID q)) (\<lambda>st. processExistingRequest (onboarding_agent dec_time (recording net) c) q d st)" for q
    unfolding processExistingRequest_def agent_defs by (intro confine) (auto intro!: confine)
  have new: "runs_ok (own_tokens (cr_ParticipantContextID q)) (\<lambda>st. processNewRequest (onboarding_agent dec_time (recording net) c) specs q d st)" for q specs
    unfolding processNewRequest_def agent_defs Let_def by (intro confine) (auto intro!: confine)
  show "runs_ok (allowed d own_tokens) (\<lambda>st. onboarding_ProcessDeploy lib (onboarding_agent dec_time (recording net) c) d st)"
    unfolding onboarding_ProcessDeploy_def
    by (intro confine; drule read_values(5); elim conjE) (metis allowed_valid exists new)+
  show "runs_ok (allowed d own_tokens) (\<lambda>st. onboarding_ProcessDispose lib (onboarding_agent dec_time (recording net) c) d st)"
    unfolding onboarding_ProcessDispose_def agent_defs
    by (intro confine; drule read_values(5); elim conjE)
       (auto simp: allowed_valid HttpIssuerClient_def [symmetric] intro!: revoke_types_calls confine)
qed

lemma token_then_send:
  assumes "A (aq_Scope q) (aq_Participant q)"
  shows "runs_ok A (\<lambda>st. or_fatal message (tp_GetToken (recording net) (aq_Scope q) (aq_Participant q) st) d (\<lambda>token s.
    case url_Parse (recording net) (aq_URL q) of
      Inl err \<Rightarrow> (complete, d, s)
    | Inr _ \<Rightarrow> case http_Do (recording net) (bearer_request q token) s of (_, s) \<Rightarrow> (complete, d, s)))"
proof -
  have one: "confined A [GotToken (aq_Scope q) (aq_Participant q) r]"
    "confined A [GotToken (aq_Scope q) (aq_Participant q) (Inr token), Sent (bearer_request q token)]" for r token
    using assms by (auto simp: authorized_calls_def intro!: confined_one [of q])
  show ?thesis
    unfolding runs_ok_def extends_def or_fatal_def
    by (auto simp: recording_def Let_def one split: prod.splits sum.splits)
qed

lemma certo_confined:
  "runs_ok (allowed d certo_tokens) (\<lambda>st. certo_ProcessDeploy lib (recording net) base d st)"
  "runs_ok (allowed d certo_tokens) (\<lambda>st. certo_ProcessDispose lib (recording net) base d st)"
proof -
  show "runs_ok (allowed d certo_tokens) (\<lambda>st. certo_ProcessDeploy lib (recording net) base d st)"
    unfolding certo_ProcessDeploy_def
    by (intro confine; drule read_values(3); elim conjE) (auto simp: allowed_valid certo_tokens_def certo_create_request_def intro!: confine)
  show "runs_ok (allowed d certo_tokens) (\<lambda>st. certo_ProcessDispose lib (recording net) base d st)"
    unfolding certo_ProcessDispose_def Let_def
    by (rule runs_ok_read_or_fatal, drule read_values(3), elim conjE, simp only: allowed_valid, rule token_then_send)
       (simp add: certo_tokens_def certo_delete_request_def)
qed

lemma activities_confined:
  assumes "(P, tokens) \<in> set (agent_activities lib dec_time uuid (recording net) c)"
  shows "runs_ok (allowed d tokens) (\<lambda>st. P d st)"
  using assms unfolding agent_activities_def
  by (auto intro: edcv_confined ih_confined siglet_confined registration_confined onboarding_confined certo_confined)


definition accepting_net :: "unit net" where
  "accepting_net =
     \<lparr>tp_GetToken = (\<lambda>scope participant s. (Inr ''t'', s)), http_Do = (\<lambda>req s. (Inr (answer 200), s)), url_Parse = (\<lambda>url. Inr url)\<rparr>"

definition sample_agent_config :: agent_config where
  "sample_agent_config =
     \<lparr>controlplane_url = ''http://cp'', identityhub_url = ''http://ih'', siglet_management_url = ''http://siglet'',
      siglet_signaling_url = ''http://siglet'', issuerservice_url = ''http://issuer'', issuerservice_id = ''issuer'',
      certo_url = ''http://certo'', vault_url = ''http://vault'', credentialservice_template = [], protocolservice_template = [],
      dataservice_template = [],
      siglet_authorization = \<lparr>ac_TokenExchangeEndpoint = [], ac_Issuer = [], ac_JwksUri = [], ac_Scope = []\<rparr>\<rparr>"

definition sample_agent_context :: "activity_context" where
  "sample_agent_context = NewActivityContext ''o1'' \<lparr>a_ID = ''a1'', a_Type = ''ih'', a_Discriminator = ''dispose'', a_DependsOn = []\<rparr>
     [(''cfm.participant.id'', JStr ''did:web:x''), (ParticipantContextIDKey, JStr ''p1'')] []"


end
