(* ===== verification/Onboarding_Polling.thy ===== *)
theory Onboarding_Polling
  imports Agents_Confined
begin

text \<open>
  How often the onboarding agent requests credentials. The engine runs the activity again after each result
  that asks for it, with the values that the runs before have set.
\<close>

section \<open>Values that were set\<close>

text \<open>No other name of a value differs from a name only in case.\<close>

definition plain_name :: "props \<Rightarrow> string \<Rightarrow> bool" where
  "plain_name m name \<longleftrightarrow> (\<forall>k\<in>set (keys m). EqualFold k name \<longrightarrow> k = name)"

lemma json_field_unique:
  assumes "(name, v) \<in> set m" "\<And>k j. (k, j) \<in> set m \<Longrightarrow> EqualFold k name \<Longrightarrow> j = v"
  shows "json_field m name = v"
proof -
  have "find (\<lambda>(k, j). EqualFold k name) (rev m) \<noteq> None" using assms(1) by (auto simp: find_None_iff)
  then obtain k j where f: "find (\<lambda>(k, j). EqualFold k name) (rev m) = Some (k, j)" by auto
  then have "(k, j) \<in> set (rev m)" "EqualFold k name" unfolding find_Some_iff by (auto simp del: set_rev length_rev dest: nth_mem)
  with assms(2) f show ?thesis by (simp add: json_field_def)
qed

lemma set_sorted_members: "set (sorted_members m) = (\<lambda>(k, j). (k, sorted_json j)) ` set m"
  by (induction m) (auto simp: image_iff)

lemma stored_field:
  assumes "wf_map m" "plain_name m name" "lookup m name = Some j"
  shows "json_field (sort_key fst (sorted_members m)) name = sorted_json j"
proof (rule json_field_unique)
  show "(name, sorted_json j) \<in> set (sort_key fst (sorted_members m))"
    using map_of_SomeD [OF assms(3)] by (force simp: set_sorted_members)
next
  fix k j'
  assume "(k, j') \<in> set (sort_key fst (sorted_members m))" and k: "EqualFold k name"
  then obtain j'' where j'': "(k, j'') \<in> set m" "j' = sorted_json j''" by (auto simp: set_sorted_members)
  then have "k = name" using assms(2) k by (force simp: plain_name_def)
  with j'' assms show "j' = sorted_json j" by (auto simp: wf_map_def dest: map_of_is_SomeI)
qed

lemma plain_name_put [simp]: "plain_name (put k v m) name \<longleftrightarrow> plain_name m name \<and> (EqualFold k name \<longrightarrow> k = name)"
  by (auto simp: plain_name_def)

section \<open>The first request\<close>

abbreviation run_onboarding ::
    "text_lib \<Rightarrow> (json \<Rightarrow> go_error + int) \<Rightarrow> 's net \<Rightarrow> agent_config \<Rightarrow> ('s \<times> net_event list) activity_processor" where
  "run_onboarding lib dec_time net c \<equiv> onboarding_ProcessDeploy lib (onboarding_agent dec_time (recording net) c)"

definition requested :: "string \<Rightarrow> string \<Rightarrow> string \<Rightarrow> activity_context \<Rightarrow> activity_context" where
  "requested pc holderPid location d =
     SetValue ''credentialRequest'' (JStr location) (SetValue ''holderPid'' (JStr holderPid) (SetValue ParticipantContextIDKey (JStr pc) d))"

lemma onboarding_clients:
  "ia_RequestCredentials (op_IdentityApiClient (onboarding_agent dec_time net c)) = ih_RequestCredentials net (identityhub_url c)"
  "ia_GetCredentialRequestState (op_IdentityApiClient (onboarding_agent dec_time net c)) = ih_GetCredentialRequestState net (identityhub_url c)"
  by (simp_all add: onboarding_agent_def HttpIdentityAPIClient_def)

lemma schedule_differs [simp]:
  "ActivityResultFatalError \<noteq> ActivityResultSchedule" "ActivityResultSchedule \<noteq> ActivityResultComplete"
  "ActivityResultRetryError \<noteq> ActivityResultComplete"
  by (simp_all add: activity_result_defs)

lemma reschedule_result [simp]: "ar_Result (reschedule t) = ActivityResultSchedule"
  by (simp add: reschedule_def)

lemma holder_nonempty: "HolderPIDFromLocation parse location = Inr holderPid \<Longrightarrow> holderPid \<noteq> []"
  by (auto simp: HolderPIDFromLocation_def Let_def split: sum.splits if_splits)

lemma request_recorded:
  assumes "ih_RequestCredentials (recording net) base pc q (s, tr) = (Inr location, st)"
  obtains token where "snd st = tr @ [GotToken credentials_write pc (Inr token),
    Sent (bearer_request (request_credentials_request base pc q) token)]"
  using assms unfolding ih_RequestCredentials_def
  by (cases rule: api_call_cases)
     (auto simp: recording_def Let_def request_credentials_request_def split: prod.splits)

lemma first_request:
  assumes run: "run_onboarding lib dec_time net c d (s, tr) = (r, d1, st1)" and r: "ar_Result r = ActivityResultSchedule"
    and q: "ReadValues lib dec_credential_request_data credential_request_checks d = Inr q" "cr_HolderPID q = []"
  obtains holderPid location token request where "holderPid \<noteq> []"
    "d1 = requested (cr_ParticipantContextID q) holderPid location d"
    "snd st1 = tr @ [GotToken credentials_write (cr_ParticipantContextID q) (Inr token),
       Sent (bearer_request (request_credentials_request (identityhub_url c) (cr_ParticipantContextID q) request) token)]"
proof -
  obtain data where d: "ReadValues lib dec_onboarding_data onboarding_checks d = Inr data"
    using run r q by (auto simp: onboarding_ProcessDeploy_def read_or_fatal_def split: sum.splits)
  have "processNewRequest (onboarding_agent dec_time (recording net) c) (case data of None \<Rightarrow> [] | Some specs \<Rightarrow> specs) q d (s, tr) = (r, d1, st1)"
    using run q d by (simp add: onboarding_ProcessDeploy_def read_or_fatal_def)
  then obtain request location holderPid where
      "ih_RequestCredentials (recording net) (identityhub_url c) (cr_ParticipantContextID q) request (s, tr) = (Inr location, st1)"
      "HolderPIDFromLocation (op_url_Parse (onboarding_agent dec_time (recording net) c)) location = Inr holderPid"
      "d1 = requested (cr_ParticipantContextID q) holderPid location d"
    using r unfolding processNewRequest_def onboarding_clients or_fatal_def read_or_fatal_def requested_def
    by (auto simp: Let_def split: if_splits prod.splits sum.splits)
  then show thesis using that request_recorded holder_nonempty by metis
qed

section \<open>The runs after\<close>

lemma requested_values:
  assumes "wf_map (ctx_ProcessingData d)"
    and "plain_name (ctx_ProcessingData d) ParticipantContextIDKey" "plain_name (ctx_ProcessingData d) ''holderPid''"
      "plain_name (ctx_ProcessingData d) ''credentialRequest''"
    and "ctx_ProcessingData d' = ctx_ProcessingData (requested pc holderPid location d)" and "ValidateParticipantContextID pc"
  shows "ReadValues lib dec_credential_request_data credential_request_checks d' =
    Inr \<lparr>cr_ParticipantContextID = pc, cr_HolderPID = holderPid, cr_CredentialRequestURL = location\<rparr>"
proof -
  let ?m = "ctx_ProcessingData (requested pc holderPid location d)"
  have m: "?m = put ''credentialRequest'' (JStr location) (put ''holderPid'' (JStr holderPid) (put ParticipantContextIDKey (JStr pc) (ctx_ProcessingData d)))"
    by (simp add: requested_def SetValue_def)
  have other: "\<not> EqualFold ''credentialRequest'' ''holderPid''" "\<not> EqualFold ''holderPid'' ''credentialRequest''"
    "\<not> EqualFold ''credentialRequest'' ParticipantContextIDKey" "\<not> EqualFold ParticipantContextIDKey ''credentialRequest''"
    "\<not> EqualFold ''holderPid'' ParticipantContextIDKey" "\<not> EqualFold ParticipantContextIDKey ''holderPid''"
    by (auto simp: ParticipantContextIDKey_def to_lower_def less_eq_char_def)
  have wf: "wf_map ?m" using assms(1) by (simp add: m)
  have fields: "json_field (sort_key fst (sorted_members ?m)) name = JStr v"
    if "lookup ?m name = Some (JStr v)" "plain_name ?m name" for name v
    using stored_field [OF wf that(2,1)] by simp
  have "json_field (sort_key fst (sorted_members ?m)) ParticipantContextIDKey = JStr pc"
    "json_field (sort_key fst (sorted_members ?m)) ''holderPid'' = JStr holderPid"
    "json_field (sort_key fst (sorted_members ?m)) ''credentialRequest'' = JStr location"
    by (rule fields; use assms(2-4) other in \<open>simp add: m ParticipantContextIDKey_def\<close>)+
  then show ?thesis
    using assms(5,6) by (simp add: ReadValues_def dec_credential_request_data_def dec_field_def credential_request_checks_def)
qed

definition poll_only :: "string \<Rightarrow> string \<Rightarrow> string \<Rightarrow> net_event list \<Rightarrow> bool" where
  "poll_only base pc holderPid tr \<longleftrightarrow>
     list_all (\<lambda>e. case e of GotToken scope participant r \<Rightarrow> scope = credentials_read \<and> participant = pc
       | Sent req \<Rightarrow> \<exists>token. req = bearer_request (get_state_request base pc holderPid) token) tr"

lemma poll_recorded:
  assumes "ih_GetCredentialRequestState (recording net) base pc holderPid st = (r, st')"
  shows "\<exists>polls. snd st' = snd st @ polls \<and> poll_only base pc holderPid polls"
proof -
  have "api_call (recording net) (get_state_request base pc holderPid) te re se judge (fst st, snd st) = (r, (s', tr')) \<Longrightarrow>
    \<exists>new. tr' = snd st @ new \<and> poll_only base pc holderPid new" for te re se judge s' tr'
    by (drule api_call_authorized) (auto simp: authorized_calls_def poll_only_def get_state_request_def)
  with assms show ?thesis unfolding ih_GetCredentialRequestState_def by (cases st; cases st') auto
qed

lemma later_run:
  assumes q: "ReadValues lib dec_credential_request_data credential_request_checks d = Inr q" "cr_HolderPID q \<noteq> []"
    and run: "run_onboarding lib dec_time net c d st = (r, d', st')"
  shows "ctx_ProcessingData d' = ctx_ProcessingData d"
    "\<exists>polls. snd st' = snd st @ polls \<and> poll_only (identityhub_url c) (cr_ParticipantContextID q) (cr_HolderPID q) polls"
    "ar_Result r = ActivityResultComplete \<longleftrightarrow>
       fst (ih_GetCredentialRequestState (recording net) (identityhub_url c) (cr_ParticipantContextID q) (cr_HolderPID q) st) =
       Inr CredentialRequestStateIssued"
proof -
  obtain x st2 where x: "ih_GetCredentialRequestState (recording net) (identityhub_url c) (cr_ParticipantContextID q) (cr_HolderPID q) st = (x, st2)"
    by (metis surj_pair)
  have p: "processExistingRequest (onboarding_agent dec_time (recording net) c) q d st = (r, d', st')"
    using run q by (simp add: onboarding_ProcessDeploy_def read_or_fatal_def)
  have st: "st' = st2 \<and> ctx_ProcessingData d' = ctx_ProcessingData d \<and> (ar_Result r = ActivityResultComplete \<longleftrightarrow> x = Inr CredentialRequestStateIssued)"
    using p x unfolding processExistingRequest_def onboarding_clients or_fatal_def
    by (auto simp: SetOutputValue_def CredentialRequestStateCreated_def CredentialRequestStateIssued_def CredentialRequestStateError_def
        split: sum.splits if_splits)
  then show "ctx_ProcessingData d' = ctx_ProcessingData d"
    "\<exists>polls. snd st' = snd st @ polls \<and> poll_only (identityhub_url c) (cr_ParticipantContextID q) (cr_HolderPID q) polls"
    "ar_Result r = ActivityResultComplete \<longleftrightarrow>
       fst (ih_GetCredentialRequestState (recording net) (identityhub_url c) (cr_ParticipantContextID q) (cr_HolderPID q) st) =
       Inr CredentialRequestStateIssued"
    using poll_recorded [OF x] x by auto
qed

text \<open>The engine runs the activity again, with the values of the run before.\<close>

fun onboarding_again ::
    "text_lib \<Rightarrow> 's onboarding_processor \<Rightarrow> nat \<Rightarrow> activity_context \<Rightarrow> 's \<Rightarrow> activity_context \<times> 's" where
  "onboarding_again lib p 0 d st = (d, st)"
| "onboarding_again lib p (Suc n) d st =
     (let (r, d, st) = onboarding_ProcessDeploy lib p d st in onboarding_again lib p n d st)"

lemma poll_only_append: "poll_only base pc h xs \<Longrightarrow> poll_only base pc h ys \<Longrightarrow> poll_only base pc h (xs @ ys)"
  by (simp add: poll_only_def)

lemma later_runs:
  assumes vals: "\<And>d'. ctx_ProcessingData d' = m \<Longrightarrow> ReadValues lib dec_credential_request_data credential_request_checks d' = Inr q"
    and q: "cr_HolderPID q \<noteq> []"
  shows "onboarding_again lib (onboarding_agent dec_time (recording net) c) n d st = (d', st') \<Longrightarrow> ctx_ProcessingData d = m \<Longrightarrow>
    ctx_ProcessingData d' = m \<and>
    (\<exists>polls. snd st' = snd st @ polls \<and> poll_only (identityhub_url c) (cr_ParticipantContextID q) (cr_HolderPID q) polls)"
proof (induction n arbitrary: d st)
  case 0
  then show ?case by (auto simp: poll_only_def)
next
  case (Suc n)
  obtain r d1 st1 where run: "run_onboarding lib dec_time net c d st = (r, d1, st1)" by (metis prod_cases3)
  note L = later_run [OF vals [OF Suc.prems(2)] q run]
  have "onboarding_again lib (onboarding_agent dec_time (recording net) c) n d1 st1 = (d', st')" using Suc.prems(1) run by simp
  from Suc.IH [OF this] L Suc.prems(2) poll_only_append show ?case by (metis append_assoc)
qed


text \<open>An IdentityHub that has issued the credentials when it is asked the third time.\<close>

definition issuing_net :: "nat net" where
  "issuing_net =
     \<lparr>tp_GetToken = (\<lambda>scope participant s. (Inr ''t'', s)),
      http_Do = (\<lambda>req s.
        if out_Method req = ''POST'' then (Inr ((answer 201)\<lparr>in_Location := ''/v1/participants/p1/credentials/request/r1''\<rparr>), s)
        else (Inr ((answer 200)\<lparr>in_Json := Inr (JObj [(''status'', JStr (if s < 2 then ''CREATED'' else ''ISSUED''))])\<rparr>), s + 1)),
      url_Parse = (\<lambda>url. Inr url)\<rparr>"

definition onboarding_context :: activity_context where
  "onboarding_context = NewActivityContext ''o1'' \<lparr>a_ID = ''a1'', a_Type = ''onboarding'', a_Discriminator = ''deploy'', a_DependsOn = []\<rparr>
     [(ParticipantContextIDKey, JStr ''p1''),
      (CredentialData, JArr [JObj [(''id'', JStr ''c1''), (''type'', JStr ''MembershipCredential''), (''issuer'', JStr ''did:web:i''),
         (''format'', JStr ''VC1_0_JWT'')]])] []"


end
