(* ===== verification/Nats_Setup.thy ===== *)
theory Nats_Setup
  imports Nats_Messages Nats_Subjects System_Assembler
begin

text \<open>
  Connecting to NATS and preparing the bucket, the streams and the consumers of a component:
  \<open>common/natsclient/auth.go\<close>, \<open>tls.go\<close>, \<open>nats.go\<close>, \<open>stream.go\<close> and \<open>jetstream.go\<close>.

  The state is the list of all calls that the component has made to the NATS library and the file system.
  The answers are parameters: functions of all the calls so far, the one that is answered included. So
  nothing is assumed about the server, nor about what other components do to it in between.
\<close>

section \<open>Configuration\<close>

text \<open>What is read from \<open>viper\<close>: the value of a key in each type, and whether it is set.\<close>

record viper =
  v_GetString :: "string \<Rightarrow> string"
  v_GetBool :: "string \<Rightarrow> bool"
  v_GetInt :: "string \<Rightarrow> int"
  v_GetDuration :: "string \<Rightarrow> int"
  v_GetStringSlice :: "string \<Rightarrow> string list"
  v_IsSet :: "string \<Rightarrow> bool"

definition AuthMethodKey :: string where "AuthMethodKey = ''nats.auth.method''"
definition AuthUsernameKey :: string where "AuthUsernameKey = ''nats.auth.username''"
definition AuthPasswordKey :: string where "AuthPasswordKey = ''nats.auth.password''"
definition AuthTokenKey :: string where "AuthTokenKey = ''nats.auth.token''"
definition AuthNKeySeedFileKey :: string where "AuthNKeySeedFileKey = ''nats.auth.nkeySeedFile''"
definition AuthCredsFileKey :: string where "AuthCredsFileKey = ''nats.auth.credsFile''"
definition AuthAllowAnonymousKey :: string where "AuthAllowAnonymousKey = ''nats.auth.allowAnonymous''"

definition TLSEnabledKey :: string where "TLSEnabledKey = ''nats.tls.enabled''"
definition TLSCAFileKey :: string where "TLSCAFileKey = ''nats.tls.ca''"
definition TLSCertFileKey :: string where "TLSCertFileKey = ''nats.tls.cert''"
definition TLSKeyFileKey :: string where "TLSKeyFileKey = ''nats.tls.key''"

definition JetStreamReplicasKey :: string where "JetStreamReplicasKey = ''nats.jetstream.replicas''"
definition JetStreamStreamMaxAgeKey :: string where "JetStreamStreamMaxAgeKey = ''nats.jetstream.stream.maxAge''"
definition JetStreamStreamMaxBytesKey :: string where "JetStreamStreamMaxBytesKey = ''nats.jetstream.stream.maxBytes''"
definition JetStreamKVMaxBytesKey :: string where "JetStreamKVMaxBytesKey = ''nats.jetstream.kv.maxBytes''"

definition JetStreamFromConfig :: "viper \<Rightarrow> go_error + jetstream_config" where
  "JetStreamFromConfig v =
     (let config = \<lparr>Replicas = v_GetInt v JetStreamReplicasKey, StreamMaxAge = v_GetDuration v JetStreamStreamMaxAgeKey,
                    StreamMaxBytes = v_GetInt v JetStreamStreamMaxBytesKey, KVMaxBytes = v_GetInt v JetStreamKVMaxBytesKey\<rparr>
      in case JetStreamConfig_Validate config of Some err \<Rightarrow> Inl err | None \<Rightarrow> Inr config)"

section \<open>Calls\<close>

datatype nats_option =
    PingInterval int | MaxPingsOutstanding int | ReconnectWait int | RetryOnFailedConnect bool | MaxReconnects int
  | Secure | RootCAs string | ClientCert string string
  | UserInfo string string | Token string | Nkey string | UserCredentials string

record kv_config =
  kv_Bucket :: string
  kv_Replicas :: int
  kv_MaxBytes :: int

datatype retention_policy = LimitsPolicy | InterestPolicy | WorkQueuePolicy
datatype storage_type = FileStorage | MemoryStorage

record stream_config =
  sm_Name :: string
  sm_Retention :: retention_policy
  sm_Subjects :: "string list"
  sm_Storage :: storage_type
  sm_Replicas :: int
  sm_MaxAge :: int
  sm_MaxBytes :: int

text \<open>A consumer as it is sent to the server. All consumers are durable and acknowledge explicitly.\<close>

record server_consumer =
  sv_Durable :: string
  sv_FilterSubjects :: "string list"
  sv_AckWait :: int
  sv_MaxDeliver :: int

datatype nats_call =
    CallStat string
  | CallNkeySeed string
  | CallConnect string "nats_option list"
  | CallNewJetStream nat
  | CallClose nat
  | CallKeyValue nat string
  | CallCreateKeyValue nat kv_config
  | CallStream nat string
  | CallCreateStream nat stream_config
  | CallInfo nat string
  | CallUpdateStream nat stream_config
  | CallConsumer nat string server_consumer
  | CallGetConsumer nat string string

record nats_env =
  ne_error :: "nats_call list \<Rightarrow> go_error option"
  ne_connection :: "nats_call list \<Rightarrow> go_error + nat"
  ne_info :: "nats_call list \<Rightarrow> go_error + stream_config"
  ne_quote :: "string \<Rightarrow> string"

definition try_call :: "nats_env \<Rightarrow> nats_call \<Rightarrow> nats_call list \<Rightarrow> go_error option \<times> nats_call list" where
  "try_call env c h = (ne_error env (h @ [c]), h @ [c])"

definition and_then :: "(go_error + 'a) \<times> 's \<Rightarrow> ('a \<Rightarrow> 's \<Rightarrow> (go_error + 'b) \<times> 's) \<Rightarrow> (go_error + 'b) \<times> 's" where
  "and_then r f = (case r of (Inl err, s) \<Rightarrow> (Inl err, s) | (Inr x, s) \<Rightarrow> f x s)"

text \<open>A result whose error is wrapped in a message.\<close>

definition wrap_result :: "string \<Rightarrow> (go_error + 'a) \<times> 's \<Rightarrow> (go_error + 'a) \<times> 's" where
  "wrap_result message r =
     (case r of (Inl err, s) \<Rightarrow> (Inl (WrapError (message @ error_text err) err), s) | (Inr x, s) \<Rightarrow> (Inr x, s))"

definition checked :: "go_error option \<times> 's \<Rightarrow> 'a \<Rightarrow> (go_error + 'a) \<times> 's" where
  "checked r x = (case r of (Some err, s) \<Rightarrow> (Inl err, s) | (None, s) \<Rightarrow> (Inr x, s))"

section \<open>Authentication\<close>

datatype auth_strategy = UserInfoAuth string string | TokenAuth string | NKeyAuth string | CredentialsAuth string

fun auth_Options :: "nats_env \<Rightarrow> auth_strategy \<Rightarrow> nats_call list \<Rightarrow> (go_error + nats_option list) \<times> nats_call list" where
  "auth_Options env (UserInfoAuth username password) h =
     (if username = [] \<or> password = [] then
        (Inl (ErrorString (''user/password authentication requires '' @ AuthUsernameKey @ '' and '' @
           AuthPasswordKey @ '' to be set'')), h)
      else (Inr [UserInfo username password], h))"
| "auth_Options env (TokenAuth token) h =
     (if token = [] then (Inl (ErrorString (''token authentication requires '' @ AuthTokenKey @ '' to be set'')), h)
      else (Inr [Token token], h))"
| "auth_Options env (NKeyAuth seedFile) h =
     (if seedFile = [] then
        (Inl (ErrorString (''NKey authentication requires '' @ AuthNKeySeedFileKey @ '' to be set'')), h)
      else wrap_result (''failed to load NKey seed file '' @ seedFile @ '': '')
             (checked (try_call env (CallNkeySeed seedFile) h) [Nkey seedFile]))"
| "auth_Options env (CredentialsAuth credsFile) h =
     (if credsFile = [] then
        (Inl (ErrorString (''credentials authentication requires '' @ AuthCredsFileKey @ '' to be set'')), h)
      else wrap_result (''failed to read credentials file '' @ credsFile @ '': '')
             (checked (try_call env (CallStat credsFile) h) [UserCredentials credsFile]))"

definition AuthFromConfig :: "(string \<Rightarrow> string) \<Rightarrow> viper \<Rightarrow> string \<Rightarrow> go_error + auth_strategy option" where
  "AuthFromConfig quote v mode =
     (let auth_method = map to_lower (v_GetString v AuthMethodKey)
      in if auth_method = [] \<or> auth_method = ''none'' then
           (if mode = ProductionMode \<and> \<not> v_GetBool v AuthAllowAnonymousKey then
              Inl (ErrorString (''anonymous NATS connections are not allowed in production mode: set '' @ AuthMethodKey @
                '' to one of userinfo, token, nkey or credentials, or set '' @ AuthAllowAnonymousKey @ '' to true''))
            else Inr None)
         else if auth_method = ''userinfo'' then
           Inr (Some (UserInfoAuth (v_GetString v AuthUsernameKey) (v_GetString v AuthPasswordKey)))
         else if auth_method = ''token'' then Inr (Some (TokenAuth (v_GetString v AuthTokenKey)))
         else if auth_method = ''nkey'' then Inr (Some (NKeyAuth (v_GetString v AuthNKeySeedFileKey)))
         else if auth_method = ''credentials'' then Inr (Some (CredentialsAuth (v_GetString v AuthCredsFileKey)))
         else Inl (ErrorString (''unsupported NATS authentication method '' @ quote auth_method @
           '': must be one of none, userinfo, token, nkey or credentials'')))"

section \<open>Transport security\<close>

record tls_config =
  tls_CAFile :: string
  tls_CertFile :: string
  tls_KeyFile :: string

fun check_files :: "nats_env \<Rightarrow> string list \<Rightarrow> nats_call list \<Rightarrow> (go_error + unit) \<times> nats_call list" where
  "check_files env [] h = (Inr (), h)"
| "check_files env (file # files) h =
     and_then (wrap_result (''failed to read NATS client certificate file '' @ file @ '': '')
                 (checked (try_call env (CallStat file) h) ()))
       (\<lambda>_. check_files env files)"

definition tls_Options :: "nats_env \<Rightarrow> tls_config \<Rightarrow> nats_call list \<Rightarrow> (go_error + nats_option list) \<times> nats_call list" where
  "tls_Options env c h =
     (if (tls_CertFile c = []) \<noteq> (tls_KeyFile c = []) then
        (Inl (ErrorString (''mutual TLS requires both '' @ TLSCertFileKey @ '' and '' @ TLSKeyFileKey @ '' to be set'')), h)
      else
        and_then
          (if tls_CAFile c \<noteq> [] then
             wrap_result (''failed to read NATS CA file '' @ tls_CAFile c @ '': '')
               (checked (try_call env (CallStat (tls_CAFile c)) h) [Secure, RootCAs (tls_CAFile c)])
           else (Inr [Secure], h))
          (\<lambda>options h.
             if tls_CertFile c \<noteq> [] then
               and_then (check_files env [tls_CertFile c, tls_KeyFile c] h)
                 (\<lambda>_ h. (Inr (options @ [ClientCert (tls_CertFile c) (tls_KeyFile c)]), h))
             else (Inr options, h)))"

definition TLSFromConfig :: "viper \<Rightarrow> tls_config option" where
  "TLSFromConfig v =
     (let config = \<lparr>tls_CAFile = v_GetString v TLSCAFileKey, tls_CertFile = v_GetString v TLSCertFileKey,
                    tls_KeyFile = v_GetString v TLSKeyFileKey\<rparr>
      in if \<not> v_GetBool v TLSEnabledKey \<and> config = \<lparr>tls_CAFile = [], tls_CertFile = [], tls_KeyFile = []\<rparr> then None
         else Some config)"

section \<open>The client\<close>

record client_config =
  cc_URL :: string
  cc_Bucket :: string
  cc_Auth :: "auth_strategy option"
  cc_TLS :: "tls_config option"
  cc_Resources :: jetstream_config

record nats_client =
  nc_Connection :: nat
  nc_Resources :: jetstream_config

definition setupKeyValue :: "nats_env \<Rightarrow> nat \<Rightarrow> string \<Rightarrow> jetstream_config \<Rightarrow> nats_call list \<Rightarrow> (go_error + unit) \<times> nats_call list" where
  "setupKeyValue env conn bucket resources h =
     (case try_call env (CallKeyValue conn bucket) h of
        (None, h) \<Rightarrow> (Inr (), h)
      | (Some err, h) \<Rightarrow>
          if \<not> errors_Is err (Sentinel ''jetstream.ErrBucketNotFound'') then
            (Inl (WrapError (''unable to access jetstream key value store with bucket '' @ bucket @ '': '' @
               error_text err) err), h)
          else
            (case try_call env (CallCreateKeyValue conn
                \<lparr>kv_Bucket = bucket, kv_Replicas = replicas resources, kv_MaxBytes = KVMaxBytes resources\<rparr>) h of
               (None, h) \<Rightarrow> (Inr (), h)
             | (Some err, h) \<Rightarrow>
                 if errors_Is err (Sentinel ''jetstream.ErrBucketExists'') then
                   checked (try_call env (CallKeyValue conn bucket) h) ()
                 else (Inl (WrapError (''failed to create jetstream key value store with bucket '' @ bucket @ '': '' @
                   error_text err) err), h)))"

definition default_options :: "nats_option list" where
  "default_options =
     [PingInterval (20 * second), MaxPingsOutstanding 5, ReconnectWait second, RetryOnFailedConnect True, MaxReconnects (-1)]"

definition NewNatsClient :: "nats_env \<Rightarrow> client_config \<Rightarrow> nats_option list \<Rightarrow> nats_call list \<Rightarrow> (go_error + nats_client) \<times> nats_call list" where
  "NewNatsClient env cfg extra h =
     and_then
       (case cc_TLS cfg of None \<Rightarrow> (Inr [], h)
        | Some tls \<Rightarrow> wrap_result ''failed to configure NATS TLS: '' (tls_Options env tls h)) (\<lambda>tlsOptions h.
     and_then
       (case cc_Auth cfg of None \<Rightarrow> (Inr [], h)
        | Some auth \<Rightarrow> wrap_result ''failed to configure NATS authentication: '' (auth_Options env auth h)) (\<lambda>authOptions h.
     let h = h @ [CallConnect (cc_URL cfg) (default_options @ tlsOptions @ authOptions @ extra)]
     in case ne_connection env h of
          Inl err \<Rightarrow> (Inl (WrapError (''failed to connect to NATS: '' @ error_text err) err), h)
        | Inr conn \<Rightarrow>
            (case try_call env (CallNewJetStream conn) h of
               (Some err, h) \<Rightarrow>
                 (Inl (WrapError (''failed to create jetstream context: '' @ error_text err) err), h @ [CallClose conn])
             | (None, h) \<Rightarrow>
                 (case setupKeyValue env conn (cc_Bucket cfg) (cc_Resources cfg) h of
                    (Inl err, h) \<Rightarrow> (Inl err, h @ [CallClose conn])
                  | (Inr _, h) \<Rightarrow> (Inr \<lparr>nc_Connection = conn, nc_Resources = cc_Resources cfg\<rparr>, h)))))"

section \<open>Streams and consumers\<close>

definition createStream :: "nats_env \<Rightarrow> nats_client \<Rightarrow> stream_config \<Rightarrow> nats_call list \<Rightarrow> (go_error + string) \<times> nats_call list" where
  "createStream env client cfg h =
     (let cfg = cfg\<lparr>sm_Storage := FileStorage, sm_Replicas := replicas (nc_Resources client),
                    sm_MaxAge := StreamMaxAge (nc_Resources client), sm_MaxBytes := streamMaxBytes (nc_Resources client)\<rparr>
      in case try_call env (CallCreateStream (nc_Connection client) cfg) h of
           (None, h) \<Rightarrow> (Inr (sm_Name cfg), h)
         | (Some err, h) \<Rightarrow>
             if errors_Is err (Sentinel ''jetstream.ErrStreamNameAlreadyInUse'') then
               checked (try_call env (CallStream (nc_Connection client) (sm_Name cfg)) h) (sm_Name cfg)
             else (Inl (WrapError (''unable to create NATS stream '' @ ne_quote env (sm_Name cfg) @ '': '' @
               error_text err) err), h))"

definition new_stream :: "string \<Rightarrow> retention_policy \<Rightarrow> string list \<Rightarrow> stream_config" where
  "new_stream streamName retention subjects =
     \<lparr>sm_Name = streamName, sm_Retention = retention, sm_Subjects = subjects, sm_Storage = FileStorage,
      sm_Replicas = 0, sm_MaxAge = 0, sm_MaxBytes = 0\<rparr>"

definition SetupStream :: "nats_env \<Rightarrow> nats_client \<Rightarrow> string \<Rightarrow> nats_call list \<Rightarrow> (go_error + string) \<times> nats_call list" where
  "SetupStream env client streamName h =
     (case try_call env (CallStream (nc_Connection client) streamName) h of
        (None, h) \<Rightarrow> (Inr streamName, h)
      | (Some err, h) \<Rightarrow>
          if errors_Is err (Sentinel ''jetstream.ErrStreamNotFound'') then
            createStream env client (new_stream streamName WorkQueuePolicy [CFMSubjectPrefix @ ''.*'']) h
          else (Inl (WrapError (''unable to access NATS stream: '' @ error_text err) err), h))"

text \<open>A stream is its name. \<open>Info\<close> asks the server for its configuration.\<close>

definition EnsureStreamSubjects ::
    "nats_env \<Rightarrow> nats_client \<Rightarrow> string \<Rightarrow> string list \<Rightarrow> nats_call list \<Rightarrow> (go_error + string) \<times> nats_call list" where
  "EnsureStreamSubjects env client stream subjects h =
     (let h = h @ [CallInfo (nc_Connection client) stream]
      in case ne_info env h of
           Inl err \<Rightarrow>
             (Inl (WrapError (''unable to read configuration of stream '' @ ne_quote env stream @ '': '' @ error_text err) err), h)
         | Inr info \<Rightarrow>
             (case mergeStreamSubjects (sm_Subjects info) subjects of
                Inl err \<Rightarrow>
                  (Inl (WrapError (''cannot add subjects to stream '' @ ne_quote env (sm_Name info) @ '': '' @ error_text err) err), h)
              | Inr (merged, changed) \<Rightarrow>
                  if \<not> changed then (Inr stream, h)
                  else
                    wrap_result (''unable to update subjects of stream '' @ ne_quote env (sm_Name info) @ '': '')
                      (checked (try_call env (CallUpdateStream (nc_Connection client) (info\<lparr>sm_Subjects := merged\<rparr>)) h)
                         (sm_Name info))))"

definition GetStream ::
    "nats_env \<Rightarrow> nats_client \<Rightarrow> string \<Rightarrow> string list \<Rightarrow> nats_call list \<Rightarrow> (go_error + string) \<times> nats_call list" where
  "GetStream env client streamName subjects h =
     (case try_call env (CallStream (nc_Connection client) streamName) h of
        (None, h) \<Rightarrow> EnsureStreamSubjects env client streamName subjects h
      | (Some err, h) \<Rightarrow>
          if errors_Is err (Sentinel ''jetstream.ErrStreamNotFound'') then
            and_then (createStream env client (new_stream streamName InterestPolicy subjects) h)
              (\<lambda>stream. EnsureStreamSubjects env client stream subjects)
          else (Inl (WrapError (''unable to access NATS stream '' @ ne_quote env streamName @ '': '' @ error_text err) err), h))"

definition GetExistingStream :: "nats_env \<Rightarrow> nats_client \<Rightarrow> string \<Rightarrow> nats_call list \<Rightarrow> (go_error + string) \<times> nats_call list" where
  "GetExistingStream env client streamName h =
     wrap_result (''unable to access NATS stream '' @ ne_quote env streamName @ '': '')
       (checked (try_call env (CallStream (nc_Connection client) streamName) h) streamName)"

definition CreateOrUpdateConsumer ::
    "nats_env \<Rightarrow> nats_client \<Rightarrow> string \<Rightarrow> server_consumer \<Rightarrow> nats_call list \<Rightarrow> (go_error + server_consumer) \<times> nats_call list" where
  "CreateOrUpdateConsumer env client stream c h =
     checked (try_call env (CallConsumer (nc_Connection client) stream c) h) c"

definition subject_consumer :: "consumer_config \<Rightarrow> server_consumer" where
  "subject_consumer c =
     \<lparr>sv_Durable = Durable c, sv_FilterSubjects = [FilterSubject c], sv_AckWait = DefaultAckWait,
      sv_MaxDeliver = ConsumerMaxDeliver c\<rparr>"

definition SetupConsumer ::
    "nats_env \<Rightarrow> nats_client \<Rightarrow> string \<Rightarrow> string \<Rightarrow> nats_call list \<Rightarrow> (go_error + server_consumer) \<times> nats_call list" where
  "SetupConsumer env client stream subject =
     CreateOrUpdateConsumer env client stream (subject_consumer (setupSubjectConsumer subject DefaultMaxDeliver))"

definition SetupActivityConsumer ::
    "nats_env \<Rightarrow> nats_client \<Rightarrow> string \<Rightarrow> string \<Rightarrow> nats_call list \<Rightarrow> (go_error + server_consumer) \<times> nats_call list" where
  "SetupActivityConsumer env client stream activityType =
     CreateOrUpdateConsumer env client stream (subject_consumer (setupSubjectConsumer activityType ActivityMaxDeliver))"

definition SetupMultiSubjectConsumer ::
    "nats_env \<Rightarrow> nats_client \<Rightarrow> string \<Rightarrow> string \<Rightarrow> string list \<Rightarrow> nats_call list \<Rightarrow>
     (go_error + server_consumer) \<times> nats_call list" where
  "SetupMultiSubjectConsumer env client stream durable subjects =
     CreateOrUpdateConsumer env client stream
       \<lparr>sv_Durable = durable, sv_FilterSubjects = subjects, sv_AckWait = DefaultAckWait, sv_MaxDeliver = DefaultMaxDeliver\<rparr>"

end
