(* ===== verification/Health.thy ===== *)
theory Health
  imports Nats_Messages "HOL-Library.List_Lexorder" "HOL-Library.Char_ord"
begin

text \<open>
  The health of a process (\<open>common/health/health.go\<close>): named liveness and readiness checks, and the two
  endpoints that serve them. A check is a function of the state of the world when the probe arrives.
  That every check must answer in two seconds is left out.
\<close>

section \<open>The registry\<close>

definition ConsumerReadinessMaxAge :: int where "ConsumerReadinessMaxAge = 30 * second"
definition ConsumerLivenessMaxAge :: int where "ConsumerLivenessMaxAge = 2 * minute"

record 'w health_registry =
  hr_liveness :: "(string, 'w \<Rightarrow> go_error option) gomap"
  hr_readiness :: "(string, 'w \<Rightarrow> go_error option) gomap"

definition NewRegistry :: "'w health_registry" where
  "NewRegistry = \<lparr>hr_liveness = [], hr_readiness = []\<rparr>"

definition AddLiveness :: "string \<Rightarrow> ('w \<Rightarrow> go_error option) \<Rightarrow> 'w health_registry \<Rightarrow> 'w health_registry" where
  "AddLiveness name check r = r\<lparr>hr_liveness := put name check (hr_liveness r)\<rparr>"

definition AddReadiness :: "string \<Rightarrow> ('w \<Rightarrow> go_error option) \<Rightarrow> 'w health_registry \<Rightarrow> 'w health_registry" where
  "AddReadiness name check r = r\<lparr>hr_readiness := put name check (hr_readiness r)\<rparr>"

text \<open>\<open>loop_check maxAge\<close> is what \<open>Check\<close> of a consumer loop answers.\<close>

definition AddConsumerLoop :: "string \<Rightarrow> (int \<Rightarrow> 'w \<Rightarrow> go_error option) \<Rightarrow> 'w health_registry \<Rightarrow> 'w health_registry" where
  "AddConsumerLoop name loop_check r =
     AddReadiness name (loop_check ConsumerReadinessMaxAge) (AddLiveness name (loop_check ConsumerLivenessMaxAge) r)"

text \<open>A registry is optional: a process without health endpoints has none.\<close>

definition RegisterOptional :: "('w health_registry \<Rightarrow> 'w health_registry) \<Rightarrow> 'w health_registry option \<Rightarrow> 'w health_registry option" where
  "RegisterOptional register registry = map_option register registry"

section \<open>Checks\<close>

text \<open>The status of a connection that is not connected is a text of the library.\<close>

definition NatsConnectionCheck :: "('w \<Rightarrow> string option) option \<Rightarrow> 'w \<Rightarrow> go_error option" where
  "NatsConnectionCheck conn w =
     (case conn of
        None \<Rightarrow> Some (ErrorString ''no NATS connection'')
      | Some status \<Rightarrow>
          (case status w of None \<Rightarrow> None | Some text \<Rightarrow> Some (ErrorString (''NATS connection is '' @ text))))"

definition DatabaseCheck :: "('w \<Rightarrow> go_error option) \<Rightarrow> 'w \<Rightarrow> go_error option" where
  "DatabaseCheck ping w = ping w"

section \<open>The endpoints\<close>

record health_response =
  hs_Code :: int
  hs_Status :: string
  hs_Checks :: "(string, string) gomap"

definition check_status :: "go_error option \<Rightarrow> string" where
  "check_status r = (if r = None then ''UP'' else ''DOWN'')"

definition serve_health :: "'w \<Rightarrow> (string, 'w \<Rightarrow> go_error option) gomap \<Rightarrow> health_response" where
  "serve_health w checks =
     (let names = sort (keys checks);
          results = map (\<lambda>name. (name, check_status (the (lookup checks name) w))) names;
          status = (if list_ex (\<lambda>(name, result). result = ''DOWN'') results then ''DOWN'' else ''UP'')
      in \<lparr>hs_Code = (if status = ''DOWN'' then 503 else 200), hs_Status = status, hs_Checks = results\<rparr>)"

definition LivenessHandler :: "'w health_registry \<Rightarrow> 'w \<Rightarrow> health_response" where
  "LivenessHandler r w = serve_health w (hr_liveness r)"

definition ReadinessHandler :: "'w health_registry \<Rightarrow> 'w \<Rightarrow> health_response" where
  "ReadinessHandler r w = serve_health w (copy_into (hr_readiness r) (hr_liveness r))"

section \<open>What the endpoints report\<close>

definition healthy :: "'w \<Rightarrow> (string, 'w \<Rightarrow> go_error option) gomap \<Rightarrow> bool" where
  "healthy w checks \<longleftrightarrow> (\<forall>name check. lookup checks name = Some check \<longrightarrow> check w = None)"

lemma serve_health_code:
  assumes "wf_map checks"
  shows "hs_Code (serve_health w checks) = (if healthy w checks then 200 else 503)"
proof -
  have "healthy w checks \<longleftrightarrow> (\<forall>name\<in>fst ` set checks. (the (lookup checks name)) w = None)"
    unfolding healthy_def by (metis in_keys_lookup lookup_in_keys option.sel)
  then show ?thesis
    by (auto simp: serve_health_def Let_def list_ex_iff check_status_def)
qed

text \<open>Of every check the response says only whether it passed.\<close>

lemma serve_health_checks:
  "lookup (hs_Checks (serve_health w checks)) name = map_option (\<lambda>check. check_status (check w)) (lookup checks name)"
proof -
  have "lookup (map (\<lambda>n. (n, f n)) ns) name = (if name \<in> set ns then Some (f name) else None)" for f :: "string \<Rightarrow> string" and ns
    by (induction ns) auto
  then show ?thesis
    by (cases "lookup checks name") (auto simp: serve_health_def Let_def lookup_in_keys map_of_eq_None_iff)
qed

text \<open>
  Every readiness check that has the name of a liveness check, and so replaces it on the readiness endpoint, is
  stricter.
\<close>

definition registry_ok :: "'w health_registry \<Rightarrow> bool" where
  "registry_ok r \<longleftrightarrow> wf_map (hr_liveness r) \<and> wf_map (hr_readiness r) \<and>
     (\<forall>name live ready. lookup (hr_liveness r) name = Some live \<longrightarrow> lookup (hr_readiness r) name = Some ready \<longrightarrow>
        (\<forall>w. ready w = None \<longrightarrow> live w = None))"

lemma FetchLoop_Check_mono:
  "FetchLoop_Check inFlight lastFetch now maxAge = None \<Longrightarrow> maxAge \<le> maxAge' \<Longrightarrow>
     FetchLoop_Check inFlight lastFetch now maxAge' = None"
  by (auto simp: FetchLoop_Check_def split: if_splits)

lemma registry_ok_empty [simp]: "registry_ok NewRegistry"
  by (simp add: registry_ok_def NewRegistry_def)

lemma registry_ok_AddReadiness:
  "registry_ok r \<Longrightarrow> lookup (hr_liveness r) name = None \<Longrightarrow> registry_ok (AddReadiness name check r)"
  by (auto simp: registry_ok_def AddReadiness_def lookup_put split: if_splits)

lemma registry_ok_AddConsumerLoop:
  "registry_ok r \<Longrightarrow> (\<And>w. loop_check ConsumerReadinessMaxAge w = None \<Longrightarrow> loop_check ConsumerLivenessMaxAge w = None) \<Longrightarrow>
     registry_ok (AddConsumerLoop name loop_check r)"
  by (auto simp: registry_ok_def AddConsumerLoop_def AddReadiness_def AddLiveness_def lookup_put split: if_splits)

lemma ready_implies_live:
  assumes "registry_ok r" "hs_Code (ReadinessHandler r w) = 200"
  shows "hs_Code (LivenessHandler r w) = 200"
proof -
  have "healthy w (copy_into (hr_readiness r) (hr_liveness r))"
    using assms serve_health_code [of "copy_into (hr_readiness r) (hr_liveness r)" w]
    by (auto simp: ReadinessHandler_def registry_ok_def split: if_splits)
  then have "healthy w (hr_liveness r)"
    using assms(1) unfolding healthy_def registry_ok_def
    by (fastforce simp: lookup_copy_into split: option.splits)
  then show ?thesis using assms(1) by (simp add: LivenessHandler_def serve_health_code registry_ok_def)
qed

end
