(* ===== verification/Key_Agent.thy ===== *)
theory Key_Agent
  imports Agent_Clients Nats_Messages
begin

text \<open>
  The key management agent (\<open>agent/lifecycle/keymanagementagent/handler\<close>) and what it takes from the
  lifecycle agents (\<open>common/lifecycleagent\<close>): the events it receives, and how it keeps the key of a
  participant in Siglet and in the configuration of the control plane. The messages are processed by the
  processor of \<open>Nats_Messages\<close>.
\<close>

section \<open>Events\<close>

record 'a cloud_event =
  ce_SpecVersion :: string
  ce_ID :: string
  ce_Source :: string
  ce_Type :: string
  ce_Subject :: string
  ce_Time :: int
  ce_DataContentType :: string
  ce_Data :: 'a

record key_pair_resource =
  kr_KeyID :: string
  kr_KeyContextID :: string
  kr_IsDefault :: bool
  kr_UseDuration :: int
  kr_RotationDuration :: int
  kr_SerializedPublicKey :: string
  kr_PrivateKeyAlias :: string
  kr_Usage :: "string list"

record key_descriptor =
  ky_ResourceID :: string
  ky_KeyID :: string
  ky_Type :: string
  ky_PrivateKeyAlias :: string
  ky_PublicKeyJWK :: props
  ky_IsActive :: bool
  ky_Usage :: "string list"

record key_pair_event =
  ke_ParticipantContextID :: string
  ke_KeyID :: string
  ke_KeyPairResource :: key_pair_resource
  ke_PublicKeySerialized :: string
  ke_Type :: string
  ke_NewKey :: key_descriptor

text \<open>\<open>dec_time\<close> reads a time; a missing one is zero.\<close>

definition dec_cloud_event :: "(json \<Rightarrow> go_error + int) \<Rightarrow> (json \<Rightarrow> go_error + 'a) \<Rightarrow> json \<Rightarrow> go_error + 'a cloud_event" where
  "dec_cloud_event dec_time dec_data j =
     bind_result (dec_object j) (\<lambda>m.
     bind_result (dec_field dec_string m ''specversion'') (\<lambda>v.
     bind_result (dec_field dec_string m ''id'') (\<lambda>i.
     bind_result (dec_field dec_string m ''source'') (\<lambda>so.
     bind_result (dec_field dec_string m ''type'') (\<lambda>t.
     bind_result (dec_field dec_string m ''subject'') (\<lambda>su.
     bind_result (dec_field (\<lambda>j. if j = JNull then Inr 0 else dec_time j) m ''time'') (\<lambda>ti.
     bind_result (dec_field dec_string m ''datacontenttype'') (\<lambda>c.
     bind_result (dec_field dec_data m ''data'') (\<lambda>d.
       Inr \<lparr>ce_SpecVersion = v, ce_ID = i, ce_Source = so, ce_Type = t, ce_Subject = su, ce_Time = ti,
         ce_DataContentType = c, ce_Data = d\<rparr>)))))))))"

definition dec_key_pair_resource :: "json \<Rightarrow> go_error + key_pair_resource" where
  "dec_key_pair_resource j =
     bind_result (dec_object j) (\<lambda>m.
     bind_result (dec_field dec_string m ''keyId'') (\<lambda>i.
     bind_result (dec_field dec_string m ''keyContext'') (\<lambda>c.
     bind_result (dec_field dec_bool m ''defaultPair'') (\<lambda>b.
     bind_result (dec_field dec_int m ''useDuration'') (\<lambda>u.
     bind_result (dec_field dec_int m ''rotationDuration'') (\<lambda>r.
     bind_result (dec_field dec_string m ''serializedPublicKey'') (\<lambda>k.
     bind_result (dec_field dec_string m ''privateKeyAlias'') (\<lambda>a.
     bind_result (dec_field dec_strings m ''usage'') (\<lambda>us.
       Inr \<lparr>kr_KeyID = i, kr_KeyContextID = c, kr_IsDefault = b, kr_UseDuration = u, kr_RotationDuration = r,
         kr_SerializedPublicKey = k, kr_PrivateKeyAlias = a, kr_Usage = us\<rparr>)))))))))"

definition dec_key_descriptor :: "json \<Rightarrow> go_error + key_descriptor" where
  "dec_key_descriptor j =
     bind_result (dec_object j) (\<lambda>m.
     bind_result (dec_field dec_string m ''resourceId'') (\<lambda>r.
     bind_result (dec_field dec_string m ''keyId'') (\<lambda>i.
     bind_result (dec_field dec_string m ''type'') (\<lambda>t.
     bind_result (dec_field dec_string m ''privateKeyAlias'') (\<lambda>a.
     bind_result (dec_field dec_properties m ''publicKeyJwk'') (\<lambda>k.
     bind_result (dec_field dec_bool m ''isActive'') (\<lambda>b.
     bind_result (dec_field dec_strings m ''usage'') (\<lambda>us.
       Inr \<lparr>ky_ResourceID = r, ky_KeyID = i, ky_Type = t, ky_PrivateKeyAlias = a, ky_PublicKeyJWK = k,
         ky_IsActive = b, ky_Usage = us\<rparr>))))))))"

definition dec_key_pair_event :: "json \<Rightarrow> go_error + key_pair_event" where
  "dec_key_pair_event j =
     bind_result (dec_object j) (\<lambda>m.
     bind_result (dec_field dec_string m ''participantContextId'') (\<lambda>p.
     bind_result (dec_field dec_string m ''keyId'') (\<lambda>i.
     bind_result (dec_field dec_key_pair_resource m ''keyPairResource'') (\<lambda>r.
     bind_result (dec_field dec_string m ''publicKeySerialized'') (\<lambda>k.
     bind_result (dec_field dec_string m ''type'') (\<lambda>t.
     bind_result (dec_field dec_key_descriptor m ''newKeyDescriptor'') (\<lambda>n.
       Inr \<lparr>ke_ParticipantContextID = p, ke_KeyID = i, ke_KeyPairResource = r, ke_PublicKeySerialized = k,
         ke_Type = t, ke_NewKey = n\<rparr>)))))))"

section \<open>The handler\<close>

record 's key_processor =
  kp_SigletClient :: "'s key_mapping_api"
  kp_ControlPlaneClient :: "'s management_api"

definition stsTypeKey :: string where "stsTypeKey = ''edc.iam.sts.type''"
definition stsTypeSignature :: string where "stsTypeSignature = ''signature''"
definition stsKeyNameKey :: string where "stsKeyNameKey = ''edc.iam.sts.signature.keyname''"
definition stsKidKey :: string where "stsKidKey = ''edc.iam.sts.signature.kid''"

text \<open>\<open>quote\<close> is what \<open>%q\<close> prints for a string.\<close>

definition validate_event :: "(string \<Rightarrow> string) \<Rightarrow> string \<Rightarrow> key_pair_event \<Rightarrow> go_error option" where
  "validate_event quote subject data =
     (if ValidateParticipantContextID (ke_ParticipantContextID data) then None
      else Some (NewClientWrappedError
        (Some (ErrorString (''invalid participant context ID '' @ quote (ke_ParticipantContextID data))))
        (''rejecting key management event '' @ subject)))"

definition key_mapping_of :: "key_pair_event \<Rightarrow> key_mapping" where
  "key_mapping_of data =
     \<lparr>km_ParticipantContextID = ke_ParticipantContextID data,
      km_KeyName = kr_PrivateKeyAlias (ke_KeyPairResource data), km_KeyID = ke_KeyID data\<rparr>"

definition key_config :: "key_pair_event \<Rightarrow> participant_context_config" where
  "key_config data =
     \<lparr>pcc_ParticipantContextID = ke_ParticipantContextID data,
      pcc_Entries = [(stsTypeKey, stsTypeSignature), (stsKeyNameKey, kr_PrivateKeyAlias (ke_KeyPairResource data)),
        (stsKidKey, ke_KeyID data)],
      pcc_SecretEntries = []\<rparr>"

fun is_status_error :: "go_error \<Rightarrow> bool" where
  "is_status_error (StatusError operation code body) = True"
| "is_status_error _ = False"

definition has_status :: "int \<Rightarrow> go_error \<Rightarrow> bool" where
  "has_status status err =
     (case errors_As is_status_error err of Some (StatusError operation code body) \<Rightarrow> code = status | _ \<Rightarrow> False)"

definition updateControlPlaneKeyAssociation :: "'s key_processor \<Rightarrow> key_pair_event \<Rightarrow> 's \<Rightarrow> go_error option \<times> 's" where
  "updateControlPlaneKeyAssociation p data s =
     (let pid = ke_ParticipantContextID data in
      case ma_PatchConfig (kp_ControlPlaneClient p) pid (key_config data) s of
        (Inl err, s) \<Rightarrow>
          (Some (if has_status 404 err
             then NewRecoverableWrappedError (Some err) (''participant config '' @ pid @ '' not provisioned yet'')
             else err), s)
      | (Inr _, s) \<Rightarrow> (None, s))"

definition store_key_mapping :: "'s key_mapping_api \<Rightarrow> key_mapping \<Rightarrow> 's \<Rightarrow> go_error option \<times> 's" where
  "store_key_mapping api mapping s =
     (case ka_Get api (km_ParticipantContextID mapping) s of
        (Inl err, s) \<Rightarrow> (Some err, s)
      | (Inr km, s) \<Rightarrow>
          (case (if km \<noteq> None then ka_Update api mapping s else ka_Create api mapping s) of
             (Inl err, s) \<Rightarrow> (Some err, s)
           | (Inr _, s) \<Rightarrow> (None, s)))"

definition handleKeyActivated :: "'s key_processor \<Rightarrow> key_pair_event \<Rightarrow> 's \<Rightarrow> go_error option \<times> 's" where
  "handleKeyActivated p data s =
     (case store_key_mapping (kp_SigletClient p) (key_mapping_of data) s of
        (Some err, s) \<Rightarrow> (Some err, s)
      | (None, s) \<Rightarrow> updateControlPlaneKeyAssociation p data s)"

definition handleKeyDecommissioned :: "'s key_processor \<Rightarrow> key_pair_event \<Rightarrow> 's \<Rightarrow> go_error option \<times> 's" where
  "handleKeyDecommissioned p data s =
     (case ka_Delete (kp_SigletClient p) (ke_ParticipantContextID data) s of
        (Inl err, s) \<Rightarrow> (Some err, s)
      | (Inr _, s) \<Rightarrow> (None, s))"

definition rotated :: string where "rotated = ''events.keypair.rotated''"
definition revoked_event :: string where "revoked_event = ''events.keypair.revoked''"
definition activated :: string where "activated = ''events.keypair.activated''"

text \<open>A case of a Go switch does not fall through: nothing is done when a key is rotated.\<close>

definition key_Process ::
    "(string \<Rightarrow> string) \<Rightarrow> 's key_processor \<Rightarrow> string \<Rightarrow> key_pair_event cloud_event \<Rightarrow> 's \<Rightarrow> go_error option \<times> 's" where
  "key_Process quote p subject evt s =
     (let keyEventData = ce_Data evt in
      if subject = rotated then (None, s)
      else if subject = revoked_event then
        (case validate_event quote subject keyEventData of
           Some err \<Rightarrow> (Some err, s)
         | None \<Rightarrow> handleKeyDecommissioned p keyEventData s)
      else if subject = activated then
        (case validate_event quote subject keyEventData of
           Some err \<Rightarrow> (Some err, s)
         | None \<Rightarrow> handleKeyActivated p keyEventData s)
      else (None, s))"

text \<open>The processor with the HTTP clients that the launcher gives it.\<close>

definition http_key_processor :: "'s net \<Rightarrow> string \<Rightarrow> string \<Rightarrow> 's key_processor" where
  "http_key_processor net sigletURL controlPlaneURL =
     \<lparr>kp_SigletClient = SigletKeyClient net sigletURL,
      kp_ControlPlaneClient = HttpManagementAPIClient net controlPlaneURL\<rparr>"

section \<open>Subjects and consumer of a lifecycle agent\<close>

definition mergeSubjects :: "string list \<Rightarrow> string list \<Rightarrow> string \<Rightarrow> string list" where
  "mergeSubjects defaults configured one =
     fold (\<lambda>s result. if s = [] \<or> s \<in> set result then result else result @ [s]) (defaults @ configured @ [one]) []"

definition durableName :: "string \<Rightarrow> string" where
  "durableName agentName =
     map to_lower (map (\<lambda>c. if c \<in> set '' ./*>'' \<or> c = CHR 0x09 then CHR ''-'' else c) agentName)"

lemma mergeSubjects_spec: "set (mergeSubjects ds cs s) = set (ds @ cs @ [s]) - {[]} \<and> distinct (mergeSubjects ds cs s)"
proof -
  have "set (fold (\<lambda>s result. if s = [] \<or> s \<in> set result then result else result @ [s]) xs acc) = set acc \<union> (set xs - {[]}) \<and>
      (distinct acc \<longrightarrow> distinct (fold (\<lambda>s result. if s = [] \<or> s \<in> set result then result else result @ [s]) xs acc))"
    for xs acc :: "string list"
    by (induction xs arbitrary: acc) auto
  from this [of "ds @ cs @ [s]" "[]"] show ?thesis by (simp add: mergeSubjects_def)
qed

section \<open>What Siglet and the control plane do\<close>

text \<open>
  The keys that Siglet has, by participant, and the configuration entries of the participants in the control
  plane, are \<open>view s\<close>. Getting a token or a GET changes nothing; a POST or PUT stores a mapping, a DELETE removes
  the one of a participant, a PATCH overwrites the entries of a configuration. A request that is refused changes
  nothing; one without an answer was processed or not. The client has followed redirections of a PATCH.
\<close>

type_synonym key_view = "(string \<Rightarrow> key_mapping option) \<times> (string \<Rightarrow> string \<Rightarrow> string option)"

definition put_key :: "key_mapping \<Rightarrow> key_view \<Rightarrow> key_view" where
  "put_key m V = ((fst V)(km_ParticipantContextID m \<mapsto> m), snd V)"

definition remove_key :: "string \<Rightarrow> key_view \<Rightarrow> key_view" where
  "remove_key pc V = ((fst V)(pc := None), snd V)"

definition patched :: "string \<Rightarrow> participant_context_config \<Rightarrow> key_view \<Rightarrow> key_view" where
  "patched pc c V = (fst V, (snd V)(pc := snd V pc ++ map_of (pcc_Entries c)))"

definition asks :: "http_out \<Rightarrow> api_request \<Rightarrow> bool" where
  "asks req q \<longleftrightarrow> out_Method req = aq_Method q \<and> out_URL req = aq_URL q \<and>
     out_Body req = (case aq_Body q of None \<Rightarrow> NoBody | Some j \<Rightarrow> JsonBody j)"

definition create_key_request :: "string \<Rightarrow> key_mapping \<Rightarrow> api_request" where
  "create_key_request base m =
     siglet_request siglet_write (km_ParticipantContextID m) ''POST'' (base @ ''/key-mappings'') (Some (key_mapping_json m))"

definition update_key_request :: "string \<Rightarrow> key_mapping \<Rightarrow> api_request" where
  "update_key_request base m =
     siglet_request siglet_write (km_ParticipantContextID m) ''PUT'' (key_mappings_url base (km_ParticipantContextID m))
       (Some (key_mapping_json m))"

definition delete_key_request :: "string \<Rightarrow> string \<Rightarrow> api_request" where
  "delete_key_request base pc = siglet_request siglet_write pc ''DELETE'' (key_mappings_url base pc) None"

definition key_servers :: "'s net \<Rightarrow> string \<Rightarrow> string \<Rightarrow> ('s \<Rightarrow> key_view) \<Rightarrow> bool" where
  "key_servers net sigletURL controlPlaneURL view \<longleftrightarrow>
     (\<forall>scope participant s r s'. tp_GetToken net scope participant s = (r, s') \<longrightarrow> view s' = view s) \<and>
     (\<forall>req s r s'. http_Do net req s = (r, s') \<longrightarrow>
        (out_Method req = ''GET'' \<longrightarrow> view s' = view s) \<and>
        (\<forall>m. asks req (create_key_request sigletURL m) \<or> asks req (update_key_request sigletURL m) \<longrightarrow>
           written (status_of r) success (view s) (put_key m (view s)) (view s')) \<and>
        (\<forall>pc. asks req (delete_key_request sigletURL pc) \<longrightarrow>
           written (status_of r) (\<lambda>status. status = 404 \<or> success status) (view s) (remove_key pc (view s)) (view s')) \<and>
        (\<forall>pc c. asks req (patch_config_request controlPlaneURL pc c) \<longrightarrow>
           written (status_of r) success (view s) (patched pc c (view s)) (view s') \<and>
           (\<forall>status. status_of r = Inr status \<longrightarrow> \<not> (300 \<le> status \<and> status < 400))))"

lemma key_serversD:
  assumes "key_servers net sb cb view"
  shows "tp_GetToken net scope participant s = (r1, s') \<Longrightarrow> view s' = view s"
    "http_Do net req s = (r, s') \<Longrightarrow> out_Method req = ''GET'' \<Longrightarrow> view s' = view s"
    "http_Do net req s = (r, s') \<Longrightarrow> asks req (create_key_request sb m) \<Longrightarrow>
       written (status_of r) success (view s) (put_key m (view s)) (view s')"
    "http_Do net req s = (r, s') \<Longrightarrow> asks req (update_key_request sb m) \<Longrightarrow>
       written (status_of r) success (view s) (put_key m (view s)) (view s')"
    "http_Do net req s = (r, s') \<Longrightarrow> asks req (delete_key_request sb pc) \<Longrightarrow>
       written (status_of r) (\<lambda>status. status = 404 \<or> success status) (view s) (remove_key pc (view s)) (view s')"
    "http_Do net req s = (r, s') \<Longrightarrow> asks req (patch_config_request cb pc c) \<Longrightarrow>
       written (status_of r) success (view s) (patched pc c (view s)) (view s')"
    "http_Do net req s = (r, s') \<Longrightarrow> asks req (patch_config_request cb pc c) \<Longrightarrow> status_of r = Inr status \<Longrightarrow>
       \<not> (300 \<le> status \<and> status < 400)"
  using assms unfolding key_servers_def by blast+

lemma asks_bearer [simp]: "asks (bearer_request q t) q"
  by (simp add: asks_def bearer_request_def)

text \<open>A call that writes: what it does to the view, when only some of the good statuses are taken for success.\<close>

lemma api_call_written:
  assumes call: "api_call net q te re se judge s = (r, s')"
    and token: "\<And>scope participant s r s'. tp_GetToken net scope participant s = (r, s') \<Longrightarrow> view s' = view s"
    and send: "\<And>req s r s'. http_Do net req s = (r, s') \<Longrightarrow> asks req q \<Longrightarrow> written (status_of r) good (view s) (f (view s)) (view s')"
    and judge: "\<And>rsp x. judge rsp = Inr x \<Longrightarrow> good (in_Status rsp)"
  shows "if \<exists>x. r = Inr x then view s' = f (view s) else view s' = view s \<or> view s' = f (view s)"
  using call
proof (cases rule: api_call_cases)
  case (unanswered t s1 err)
  with token [OF unanswered(1)] send [OF unanswered(2) asks_bearer] show ?thesis by (auto simp: written_def status_of_def)
next
  case (answered t s1 rsp)
  with token [OF answered(1)] send [OF answered(2) asks_bearer] judge [of rsp] show ?thesis
    by (auto simp: written_def status_of_def split: if_splits)
qed (use token in auto)

lemma key_client_writes:
  assumes srv: "key_servers net sb cb view"
  shows "sg_CreateKeyMapping net sb m s = (r, s') \<Longrightarrow>
      if \<exists>x. r = Inr x then view s' = put_key m (view s) else view s' = view s \<or> view s' = put_key m (view s)"
    "sg_UpdateKeyMapping net sb m s = (r, s') \<Longrightarrow>
      if \<exists>x. r = Inr x then view s' = put_key m (view s) else view s' = view s \<or> view s' = put_key m (view s)"
    "sg_DeleteKeyMapping net sb pc s = (r, s') \<Longrightarrow>
      if \<exists>x. r = Inr x then view s' = remove_key pc (view s) else view s' = view s \<or> view s' = remove_key pc (view s)"
    "cp_PatchConfig net cb pc c s = (r, s') \<Longrightarrow>
      if \<exists>x. r = Inr x then view s' = patched pc c (view s) else view s' = view s \<or> view s' = patched pc c (view s)"
    "sg_GetKeyMapping net sb pc s = (r2, s') \<Longrightarrow> view s' = view s"
proof -
  note token = key_serversD(1) [OF srv]
  show "if \<exists>x. r = Inr x then view s' = put_key m (view s) else view s' = view s \<or> view s' = put_key m (view s)"
    if "sg_CreateKeyMapping net sb m s = (r, s')"
    using that [unfolded sg_CreateKeyMapping_def] token key_serversD(3) [OF srv, unfolded create_key_request_def]
    by (rule api_call_written) (auto simp: ok_if_def success_def split: if_splits)
  show "if \<exists>x. r = Inr x then view s' = put_key m (view s) else view s' = view s \<or> view s' = put_key m (view s)"
    if "sg_UpdateKeyMapping net sb m s = (r, s')"
    using that [unfolded sg_UpdateKeyMapping_def] token key_serversD(4) [OF srv, unfolded update_key_request_def]
    by (rule api_call_written) (auto simp: ok_if_def success_def split: if_splits)
  show "if \<exists>x. r = Inr x then view s' = remove_key pc (view s) else view s' = view s \<or> view s' = remove_key pc (view s)"
    if "sg_DeleteKeyMapping net sb pc s = (r, s')"
    using that [unfolded sg_DeleteKeyMapping_def] token key_serversD(5) [OF srv, unfolded delete_key_request_def]
    by (rule api_call_written) (auto simp: ok_if_def success_def split: if_splits)
  show "view s' = view s" if "sg_GetKeyMapping net sb pc s = (r2, s')"
    using that unfolding sg_GetKeyMapping_def
    by (cases rule: api_call_cases)
       (auto dest!: token key_serversD(2) [OF srv] simp: bearer_request_def siglet_request_def)
  show "if \<exists>x. r = Inr x then view s' = patched pc c (view s) else view s' = view s \<or> view s' = patched pc c (view s)"
    if call: "cp_PatchConfig net cb pc c s = (r, s')"
    using call [unfolded cp_PatchConfig_def]
  proof (cases rule: api_call_cases)
    case (unanswered t s1 err)
    with token [OF unanswered(1)] key_serversD(6) [OF srv unanswered(2) asks_bearer] show ?thesis
      by (auto simp: written_def status_of_def)
  next
    case (answered t s1 rsp)
    with token [OF answered(1)] key_serversD(6) [OF srv answered(2) asks_bearer] key_serversD(7) [OF srv answered(2) asks_bearer]
    show ?thesis by (auto simp: written_def status_of_def ok_if_def success_def not_an_error_def split: if_splits)
  qed (use token in auto)
qed

section \<open>Errors\<close>

text \<open>An error without a class anywhere in it, as those of \<open>net/url\<close> and \<open>encoding/json\<close> are, is retried.\<close>

definition has_class :: "go_error \<Rightarrow> bool" where
  "has_class err \<longleftrightarrow> recoverable_method err \<noteq> None \<or> client_method err \<noteq> None \<or> fatal_method err \<noteq> None"

definition unclassified :: "go_error \<Rightarrow> bool" where
  "unclassified err \<longleftrightarrow> \<not> chain_has has_class err"

lemma unclassified_retried: "unclassified err \<Longrightarrow> shouldRetry err"
proof -
  assume "unclassified err"
  then have "\<not> chain_has (\<lambda>x. client_method x \<noteq> None) err" "\<not> chain_has (\<lambda>x. fatal_method x \<noteq> None) err"
    unfolding unclassified_def using chain_has_mono [of _ err has_class] by (auto simp: has_class_def)
  then show ?thesis by (simp add: shouldRetry_def error_class_defs(1-3) classified_def errors_As_None [symmetric])
qed

lemma unclassified_wrapping: "unclassified err \<Longrightarrow> unclassified (wrapping message err)"
  by (simp add: unclassified_def wrapping_def has_class_def)

definition rejected :: "go_error \<Rightarrow> bool" where
  "rejected err \<longleftrightarrow> (\<exists>operation code body. err = StatusError operation code body \<and> \<not> IsTransientStatus code)"

lemma status_error_retried: "shouldRetry (NewStatusError operation rsp) \<or> rejected (NewStatusError operation rsp)"
  by (auto simp: NewStatusError_def rejected_def shouldRetry_def error_class_defs)

lemma recoverable_retried [simp]: "shouldRetry (recoverable message err)"
  by (simp add: recoverable_def)

definition plain_errors :: "'s net \<Rightarrow> bool" where
  "plain_errors net \<longleftrightarrow>
     (\<forall>url err. url_Parse net url = Inl err \<longrightarrow> unclassified err) \<and>
     (\<forall>req s rsp s' err. http_Do net req s = (Inr rsp, s') \<longrightarrow> in_Json rsp = Inl err \<longrightarrow> unclassified err)"

lemma decoding_unclassified: "dec_key_mapping j = Inl err \<Longrightarrow> unclassified err"
  by (auto simp: dec_key_mapping_def dec_field_def dec_object_def dec_string_def unmarshal_error_def unclassified_def has_class_def
      elim!: bind_result.elims split: json.splits)

lemma key_client_errors:
  assumes net: "plain_errors net"
  shows "sg_CreateKeyMapping net sb m s = (Inl err, s') \<Longrightarrow> shouldRetry err \<or> rejected err"
    "sg_UpdateKeyMapping net sb m s = (Inl err, s') \<Longrightarrow> shouldRetry err \<or> rejected err"
    "sg_DeleteKeyMapping net sb pc s = (Inl err, s') \<Longrightarrow> shouldRetry err \<or> rejected err"
    "cp_PatchConfig net cb pc c s = (Inl err, s') \<Longrightarrow> shouldRetry err \<or> rejected err"
    "sg_GetKeyMapping net sb pc s = (Inl err, s') \<Longrightarrow> shouldRetry err \<or> rejected err"
proof -
  have url: "shouldRetry err" "shouldRetry (wrapping message err)" if "url_Parse net url = Inl err" for url err message
    using that net unclassified_retried unclassified_wrapping by (auto simp: plain_errors_def)
  note simps = ok_if_def
  show "shouldRetry err \<or> rejected err" if "sg_CreateKeyMapping net sb m s = (Inl err, s')"
    using that unfolding sg_CreateKeyMapping_def
    by (cases rule: api_call_cases) (use url status_error_retried in \<open>auto simp: simps split: if_splits\<close>)
  show "shouldRetry err \<or> rejected err" if "sg_UpdateKeyMapping net sb m s = (Inl err, s')"
    using that unfolding sg_UpdateKeyMapping_def
    by (cases rule: api_call_cases) (use url status_error_retried in \<open>auto simp: simps split: if_splits\<close>)
  show "shouldRetry err \<or> rejected err" if "sg_DeleteKeyMapping net sb pc s = (Inl err, s')"
    using that unfolding sg_DeleteKeyMapping_def
    by (cases rule: api_call_cases) (use url status_error_retried in \<open>auto simp: simps split: if_splits\<close>)
  show "shouldRetry err \<or> rejected err" if "cp_PatchConfig net cb pc c s = (Inl err, s')"
    using that unfolding cp_PatchConfig_def
    by (cases rule: api_call_cases) (use url status_error_retried in \<open>auto simp: simps split: if_splits\<close>)
  have json: "shouldRetry (wrapping message err)"
    if "http_Do net req t = (Inr rsp, t')" "bind_result (in_Json rsp) dec_key_mapping = Inl err" for message err req t rsp t'
  proof -
    have "unclassified err"
      using that(2) net [unfolded plain_errors_def, THEN conjunct2, rule_format, OF that(1)] decoding_unclassified
      by (cases "in_Json rsp") auto
    then show ?thesis by (intro unclassified_retried unclassified_wrapping)
  qed
  show "shouldRetry err \<or> rejected err" if "sg_GetKeyMapping net sb pc s = (Inl err, s')"
    using that unfolding sg_GetKeyMapping_def
    by (cases rule: api_call_cases)
       (use url status_error_retried json in \<open>auto simp: simps split: if_splits option.splits sum.splits\<close>)
qed

section \<open>Events that are delivered again\<close>

text \<open>What an event is for, and the states between that a failure can leave.\<close>

definition outcome :: "string \<Rightarrow> key_pair_event \<Rightarrow> key_view \<Rightarrow> key_view" where
  "outcome subject data V =
     (if subject = revoked_event then remove_key (ke_ParticipantContextID data) V
      else if subject = activated then patched (ke_ParticipantContextID data) (key_config data) (put_key (key_mapping_of data) V)
      else V)"

definition progress :: "string \<Rightarrow> key_pair_event \<Rightarrow> key_view \<Rightarrow> key_view set" where
  "progress subject data V =
     insert V (insert (outcome subject data V) (if subject = activated then {put_key (key_mapping_of data) V} else {}))"

lemma map_add_twice [simp]: "(A ++ B) ++ B = A ++ B"
  by (rule ext) (simp add: map_add_def split: option.split)

lemma view_idem [simp]:
  "remove_key pc (remove_key pc V) = remove_key pc V" "put_key m (put_key m V) = put_key m V"
  "put_key m (patched pc c V) = patched pc c (put_key m V)" "patched pc c (patched pc c V) = patched pc c V"
  by (simp_all add: remove_key_def put_key_def patched_def)

lemma event_subjects [simp]: "revoked_event \<noteq> activated" "activated \<noteq> revoked_event" "activated \<noteq> rotated" "revoked_event \<noteq> rotated"
  by (simp_all add: revoked_event_def activated_def rotated_def)

lemma progress_outcome: "V' \<in> progress subject data V \<Longrightarrow> outcome subject data V' = outcome subject data V"
  by (auto simp: progress_def outcome_def split: if_splits)

lemma progress_trans: "V' \<in> progress subject data V \<Longrightarrow> V'' \<in> progress subject data V' \<Longrightarrow> V'' \<in> progress subject data V"
  by (auto simp: progress_def outcome_def split: if_splits)

lemma progress_refl [simp]: "V \<in> progress subject data V" "outcome subject data V \<in> progress subject data V"
  by (simp_all add: progress_def)

lemma http_key_processor_simps [simp]:
  "ka_Get (kp_SigletClient (http_key_processor net sb cb)) = sg_GetKeyMapping net sb"
  "ka_Update (kp_SigletClient (http_key_processor net sb cb)) = sg_UpdateKeyMapping net sb"
  "ka_Create (kp_SigletClient (http_key_processor net sb cb)) = sg_CreateKeyMapping net sb"
  "ka_Delete (kp_SigletClient (http_key_processor net sb cb)) = sg_DeleteKeyMapping net sb"
  "ma_PatchConfig (kp_ControlPlaneClient (http_key_processor net sb cb)) = cp_PatchConfig net cb"
  by (simp_all add: http_key_processor_def SigletKeyClient_def HttpManagementAPIClient_def)

lemma store_key_mapping_view:
  assumes srv: "key_servers net sb cb view"
    and run: "store_key_mapping (kp_SigletClient (http_key_processor net sb cb)) m s = (err, s')"
  shows "if err = None then view s' = put_key m (view s) else view s' = view s \<or> view s' = put_key m (view s)"
proof -
  obtain r1 s1 where g: "sg_GetKeyMapping net sb (km_ParticipantContextID m) s = (r1, s1)" by fastforce
  obtain r2 s2 where u: "sg_UpdateKeyMapping net sb m s1 = (r2, s2)" by fastforce
  obtain r3 s3 where c: "sg_CreateKeyMapping net sb m s1 = (r3, s3)" by fastforce
  from key_client_writes(5) [OF srv g] key_client_writes(2) [OF srv u] key_client_writes(1) [OF srv c] run g u c show ?thesis
    by (cases r1; cases r2; cases r3) (auto simp: store_key_mapping_def split: if_splits)
qed

lemma key_Process_view:
  assumes srv: "key_servers net sb cb view"
    and run: "key_Process quote (http_key_processor net sb cb) subject evt s = (err, s')"
    and ok: "ValidateParticipantContextID (ke_ParticipantContextID (ce_Data evt)) \<or> subject \<noteq> revoked_event \<and> subject \<noteq> activated"
  shows "if err = None then view s' = outcome subject (ce_Data evt) (view s) else view s' \<in> progress subject (ce_Data evt) (view s)"
proof -
  let ?d = "ce_Data evt" and ?p = "http_key_processor net sb cb"
  consider (revoked) "subject = revoked_event" | (activated) "subject = activated" | (other) "subject \<noteq> revoked_event" "subject \<noteq> activated"
    by blast
  then show ?thesis
  proof cases
    case revoked
    obtain r1 s1 where d: "sg_DeleteKeyMapping net sb (ke_ParticipantContextID ?d) s = (r1, s1)" by fastforce
    from key_client_writes(3) [OF srv d] d run revoked ok show ?thesis
      by (cases r1) (auto simp: key_Process_def Let_def validate_event_def handleKeyDecommissioned_def outcome_def progress_def)
  next
    case activated
    obtain r1 s1 where st: "store_key_mapping (kp_SigletClient ?p) (key_mapping_of ?d) s = (r1, s1)" by fastforce
    obtain r2 s2 where pa: "cp_PatchConfig net cb (ke_ParticipantContextID ?d) (key_config ?d) s1 = (r2, s2)" by fastforce
    from store_key_mapping_view [OF srv st] key_client_writes(4) [OF srv pa] st pa run activated ok show ?thesis
      by (cases r1; cases r2)
         (auto simp: key_Process_def Let_def validate_event_def handleKeyActivated_def updateControlPlaneKeyAssociation_def outcome_def
           progress_def split: if_splits)
  next
    case other
    with run show ?thesis by (auto simp: key_Process_def Let_def outcome_def split: if_splits)
  qed
qed

lemma key_Process_error:
  assumes net: "plain_errors net"
    and run: "key_Process quote (http_key_processor net sb cb) subject evt s = (Some err, s')"
    and ok: "ValidateParticipantContextID (ke_ParticipantContextID (ce_Data evt))"
  shows "shouldRetry err \<or> rejected err"
  using run ok key_client_errors [OF net]
  by (auto simp: key_Process_def validate_event_def handleKeyDecommissioned_def handleKeyActivated_def store_key_mapping_def
      updateControlPlaneKeyAssociation_def Let_def split: if_splits prod.splits sum.splits option.splits)

fun key_attempts :: "(string \<Rightarrow> string) \<Rightarrow> 's key_processor \<Rightarrow> string \<Rightarrow> key_pair_event cloud_event \<Rightarrow> nat \<Rightarrow> 's \<Rightarrow> 's" where
  "key_attempts quote p subject evt 0 s = s"
| "key_attempts quote p subject evt (Suc k) s = key_attempts quote p subject evt k (snd (key_Process quote p subject evt s))"

lemma key_attempts_view:
  assumes "key_servers net sb cb view"
    and "ValidateParticipantContextID (ke_ParticipantContextID (ce_Data evt)) \<or> subject \<noteq> revoked_event \<and> subject \<noteq> activated"
  shows "view (key_attempts quote (http_key_processor net sb cb) subject evt k s) \<in> progress subject (ce_Data evt) (view s)"
proof (induction k arbitrary: s)
  case (Suc k)
  obtain err s' where run: "key_Process quote (http_key_processor net sb cb) subject evt s = (err, s')" by fastforce
  have "view s' \<in> progress subject (ce_Data evt) (view s)"
    using key_Process_view [OF assms(1) run assms(2)] by (auto split: if_splits)
  with Suc.IH [of s'] run show ?case by (auto intro: progress_trans)
qed simp

lemma key_attempts_invalid:
  assumes "\<not> ValidateParticipantContextID (ke_ParticipantContextID (ce_Data evt))" "subject = revoked_event \<or> subject = activated"
  shows "key_attempts quote p subject evt k s = s"
    "key_Process quote p subject evt s = (err, s') \<Longrightarrow> s' = s \<and> err \<noteq> None"
proof -
  show run: "key_Process quote p subject evt s = (err, s') \<Longrightarrow> s' = s \<and> err \<noteq> None" for s err s'
    using assms by (auto simp: key_Process_def Let_def validate_event_def)
  show "key_attempts quote p subject evt k s = s"
    by (induction k) (simp_all add: run [OF prod.collapse [symmetric]])
qed

lemma ProcessMessage_returned:
  assumes "ProcessMessage n (\<lambda>p m. Returned err exceeded callerDone) m (Inr evt) = (ds, e)"
  shows "ds = [if err = None \<or> \<not> shouldRetry (the err) \<and> \<not> (exceeded \<and> \<not> callerDone) then DoAck
    else if IsFinalDelivery (NumDelivered m) (maxDeliver n) then DoTerm
    else DoNak (RetryDelay (deliveryCount (NumDelivered m)))]"
  using ProcessMessage_disposition [of n "\<lambda>p m. Returned err exceeded callerDone" m "Inr evt"] assms
  by (cases err) (auto simp: disposition_of_def transient_run_def)


section \<open>Services in memory\<close>

text \<open>The state is the view.\<close>

definition sent_strings :: "json \<Rightarrow> (string, string) gomap" where
  "sent_strings j =
     (case j of JObj m \<Rightarrow>
        (case lookup m ''entries'' of
           Some (JObj es) \<Rightarrow> concat (map (\<lambda>(k, j). case j of JStr s \<Rightarrow> [(k, s)] | _ \<Rightarrow> []) es)
         | _ \<Rightarrow> [])
      | _ \<Rightarrow> [])"

definition config_url :: "string \<Rightarrow> string \<Rightarrow> string" where
  "config_url base pc = base @ participants_path @ ''/'' @ PathEscape pc @ ''/config''"

definition memory_services :: "string \<Rightarrow> string \<Rightarrow> http_out \<Rightarrow> key_view \<Rightarrow> (go_error + http_in) \<times> key_view" where
  "memory_services sigletURL controlPlaneURL req V =
     (if out_Method req = ''DELETE'' then
        (Inr (answer 204), (\<lambda>pc. if key_mappings_url sigletURL pc = out_URL req then None else fst V pc, snd V))
      else case out_Body req of
        JsonBody j \<Rightarrow>
          if out_Method req = ''PATCH'' then
            (Inr (answer 200),
             (fst V, \<lambda>pc. if config_url controlPlaneURL pc = out_URL req then snd V pc ++ map_of (sent_strings j) else snd V pc))
          else if out_Method req = ''POST'' \<or> out_Method req = ''PUT'' then
            (case dec_key_mapping j of
               Inl err \<Rightarrow> (Inr (answer 400), V)
             | Inr m \<Rightarrow> (Inr (answer (if out_Method req = ''POST'' then 201 else 204)), put_key m V))
          else (Inr (answer 404), V)
      | _ \<Rightarrow> (Inr (answer 404), V))"

definition memory_services_net :: "string \<Rightarrow> string \<Rightarrow> key_view net" where
  "memory_services_net sigletURL controlPlaneURL =
     \<lparr>tp_GetToken = (\<lambda>scope participant s. (Inr ''t'', s)), http_Do = memory_services sigletURL controlPlaneURL,
      url_Parse = (\<lambda>url. Inr url)\<rparr>"

lemma dec_key_mapping_json [simp]: "dec_key_mapping (key_mapping_json m) = Inr m"
  by (cases m) (simp add: dec_key_mapping_def key_mapping_json_def dec_field_def json_field_simps)

lemma urls_inj [simp]:
  "key_mappings_url base pc' = key_mappings_url base pc \<longleftrightarrow> pc' = pc" "config_url base pc' = config_url base pc \<longleftrightarrow> pc' = pc"
  by (auto simp: key_mappings_url_def config_url_def dest: PathEscape_inj)

lemma sent_entries: "sent_strings (the (aq_Body (patch_config_request base pc c))) = pcc_Entries c"
proof -
  have "concat (map (\<lambda>(k, j). case j of JStr s \<Rightarrow> [(k, s)] | _ \<Rightarrow> []) (map (\<lambda>(k, x). (k, JStr x)) es)) = es"
    for es :: "(string, string) gomap"
    by (induction es) auto
  then show ?thesis by (simp add: sent_strings_def patch_config_request_def enc_string_map_def enc_map_def)
qed

lemma memory_key_servers: "key_servers (memory_services_net sb cb) sb cb (\<lambda>s. s)"
proof -
  note simps = memory_services_def asks_def written_def success_def siglet_request_def
  have "written (status_of r) success V (put_key m V) V'"
    if "memory_services sb cb req V = (r, V')" "asks req (create_key_request sb m) \<or> asks req (update_key_request sb m)" for req V r V' m
    using that by (auto simp: simps create_key_request_def update_key_request_def)
  moreover have "written (status_of r) (\<lambda>status. status = 404 \<or> success status) V (remove_key pc V) V'"
    if "memory_services sb cb req V = (r, V')" "asks req (delete_key_request sb pc)" for req V r V' pc
    using that by (auto simp: simps delete_key_request_def remove_key_def fun_eq_iff)
  moreover have "written (status_of r) success V (patched pc c V) V' \<and> (\<forall>status. status_of r = Inr status \<longrightarrow> \<not> (300 \<le> status \<and> status < 400))"
    if run: "memory_services sb cb req V = (r, V')" and q: "asks req (patch_config_request cb pc c)" for req V r V' pc c
  proof -
    have "out_Method req = ''PATCH''" "out_URL req = config_url cb pc"
      "out_Body req = JsonBody (the (aq_Body (patch_config_request cb pc c)))"
      using q by (auto simp: asks_def patch_config_request_def config_url_def)
    then show ?thesis
      using run sent_entries [of cb pc c] by (auto simp: memory_services_def written_def success_def patched_def fun_eq_iff)
  qed
  moreover have "V' = V" if "memory_services sb cb req V = (r, V')" "out_Method req = ''GET''" for req V r V'
    using that by (auto simp: memory_services_def split: http_payload.splits)
  ultimately show ?thesis unfolding key_servers_def by (simp add: memory_services_net_def)
qed

lemma memory_plain_errors: "plain_errors (memory_services_net sb cb)"
  by (auto simp: plain_errors_def memory_services_net_def memory_services_def answer_def split: if_splits http_payload.splits sum.splits)

definition sample_key_event :: "key_pair_event cloud_event" where
  "sample_key_event =
     \<lparr>ce_SpecVersion = ''1.0'', ce_ID = ''e1'', ce_Source = ''ih'', ce_Type = ''activated'', ce_Subject = [], ce_Time = 0,
      ce_DataContentType = [],
      ce_Data = \<lparr>ke_ParticipantContextID = ''p1'', ke_KeyID = ''did:web:x#key1'',
        ke_KeyPairResource = \<lparr>kr_KeyID = ''did:web:x#key1'', kr_KeyContextID = ''p1'', kr_IsDefault = True, kr_UseDuration = 0,
          kr_RotationDuration = 0, kr_SerializedPublicKey = [], kr_PrivateKeyAlias = ''alias1'', kr_Usage = []\<rparr>,
        ke_PublicKeySerialized = [], ke_Type = [],
        ke_NewKey = \<lparr>ky_ResourceID = [], ky_KeyID = [], ky_Type = [], ky_PrivateKeyAlias = [], ky_PublicKeyJWK = [],
          ky_IsActive = False, ky_Usage = []\<rparr>\<rparr>\<rparr>"


end
