(* ===== verification/Startup.thy ===== *)
theory Startup
  imports Nats_Setup Health Key_Agent
begin

text \<open>
  How the processes start: the configuration that the launchers load (\<open>*/launcher/launcher.go\<close>,
  \<open>pmanager/natsagent\<close>, \<open>common/lifecycleagent\<close>), the assemblies that connect them to NATS
  (\<open>natsprovision\<close> of both managers, \<open>pmanager/natsorchestration/assembly.go\<close>, and the agents), and their
  health checks. The assemblies are run by the assembler of \<open>System_Assembler\<close>. Loading the configuration file,
  logging and telemetry are left out; what a process does after its start is in the theories of its parts.
\<close>

section \<open>Configuration\<close>

datatype param = ParamNil | ParamString string | ParamOther string

fun param_text :: "param \<Rightarrow> string" where
  "param_text ParamNil = ''<nil>''"
| "param_text (ParamString s) = s"
| "param_text (ParamOther s) = s"

definition param_errors :: "param list \<Rightarrow> nat \<Rightarrow> string list" where
  "param_errors params i =
     (if i mod 2 = 1 then
        (case params ! i of
           ParamNil \<Rightarrow> [param_text (params ! (i - 1)) @ '' not specified'']
         | ParamString s \<Rightarrow> (if s = [] then [param_text (params ! (i - 1)) @ '' is empty''] else [])
         | ParamOther s \<Rightarrow> [])
      else [])"

definition CheckRequiredParams :: "param list \<Rightarrow> go_error option" where
  "CheckRequiredParams params =
     (let errors = (if length params mod 2 \<noteq> 0 then [''arguments must be even, got '' @ int_text (int (length params))] else []) @
                   concat (map (param_errors params) [0..<length params])
      in if errors \<noteq> [] then Some (ErrorString (''missing parameters: '' @ join '', '' errors)) else None)"

definition uriKey :: string where "uriKey = ''uri''"
definition bucketKey :: string where "bucketKey = ''bucket''"
definition streamKey :: string where "streamKey = ''stream''"

definition required_nats_params :: "viper \<Rightarrow> string \<Rightarrow> go_error option" where
  "required_nats_params v configPrefix =
     CheckRequiredParams (concat (map (\<lambda>k. [ParamString (configPrefix @ ''.'' @ k), ParamString (v_GetString v k)])
       [uriKey, bucketKey, streamKey]))"

text \<open>The same steps in all launchers: authentication, resources, and the configuration of the client.\<close>

definition nats_config :: "(string \<Rightarrow> string) \<Rightarrow> string \<Rightarrow> viper \<Rightarrow> string \<Rightarrow> client_config call_result" where
  "nats_config quote message v mode =
     (case AuthFromConfig quote v mode of
        Inl err \<Rightarrow> Panics (message @ error_text err)
      | Inr auth \<Rightarrow>
          (case JetStreamFromConfig v of
             Inl err \<Rightarrow> Panics (message @ error_text err)
           | Inr jetStreamConfig \<Rightarrow>
               Returns \<lparr>cc_URL = v_GetString v uriKey, cc_Bucket = v_GetString v bucketKey, cc_Auth = auth,
                 cc_TLS = TLSFromConfig v, cc_Resources = jetStreamConfig\<rparr>))"

definition manager_config :: "(string \<Rightarrow> string) \<Rightarrow> string \<Rightarrow> string \<Rightarrow> viper \<Rightarrow> string \<Rightarrow> client_config call_result" where
  "manager_config quote name configPrefix v mode =
     (let message = ''error launching '' @ name @ '': ''
      in case required_nats_params v configPrefix of
           Some err \<Rightarrow> Panics (message @ error_text err)
         | None \<Rightarrow> nats_config quote message v mode)"

definition natsagent_loadAgentConfig :: "(string \<Rightarrow> string) \<Rightarrow> string \<Rightarrow> viper \<Rightarrow> string \<Rightarrow> client_config call_result" where
  "natsagent_loadAgentConfig quote configPrefix v mode =
     (let message = ''error loading agent configuration: ''
      in case required_nats_params v configPrefix of
           Some err \<Rightarrow> Panics (message @ error_text err)
         | None \<Rightarrow> nats_config quote message v mode)"

definition configured_subjects :: "string list \<Rightarrow> viper \<Rightarrow> string list" where
  "configured_subjects defaultSubjects v =
     mergeSubjects defaultSubjects (v_GetStringSlice v ''subjects'') (v_GetString v ''subject'')"

definition lifecycle_loadAgentConfig ::
    "(string \<Rightarrow> string) \<Rightarrow> string \<Rightarrow> string list \<Rightarrow> viper \<Rightarrow> string \<Rightarrow> client_config call_result" where
  "lifecycle_loadAgentConfig quote configPrefix defaultSubjects v mode =
     (let message = ''error loading agent configuration: ''
      in case required_nats_params v configPrefix of
           Some err \<Rightarrow> Panics (message @ error_text err)
         | None \<Rightarrow>
             if configured_subjects defaultSubjects v = [] then
               Panics (message @ ''at least one subject must be configured via LauncherConfig.Subjects, '' @
                 configPrefix @ ''.subjects or '' @ configPrefix @ ''.subject'')
             else nats_config quote message v mode)"

section \<open>The state of a starting process\<close>

text \<open>
  Its calls, its NATS client (the field of the assembly, which the Provision Manager also registers as a service),
  and its registry of health checks. The probes say what a check sees: the status of a connection, and of the loop
  of a consumer whether it is processing, the time of its last fetch, and the current time.
\<close>

record 'w startup =
  st_calls :: "nats_call list"
  st_client :: "nats_client option"
  st_health :: "'w health_registry option"

record 'w probes =
  pb_connection :: "nat \<Rightarrow> 'w \<Rightarrow> string option"
  pb_loop :: "string \<Rightarrow> 'w \<Rightarrow> bool \<times> int \<times> int"

definition fresh_process :: "'w startup" where
  "fresh_process = \<lparr>st_calls = [], st_client = None, st_health = None\<rparr>"

definition on_calls :: "(nats_call list \<Rightarrow> (go_error + 'a) \<times> nats_call list) \<Rightarrow> 'w startup \<Rightarrow> 'a call_result \<times> 'w startup" where
  "on_calls f s =
     (case f (st_calls s) of
        (Inl err, h) \<Rightarrow> (Fails err, s\<lparr>st_calls := h\<rparr>)
      | (Inr x, h) \<Rightarrow> (Returns x, s\<lparr>st_calls := h\<rparr>))"

definition connect ::
    "(nats_call list \<Rightarrow> (go_error + nats_client) \<times> nats_call list) \<Rightarrow> 'w startup \<Rightarrow> nats_client call_result \<times> 'w startup" where
  "connect f s = bind_outcome (on_calls f s) (\<lambda>client s. (Returns client, s\<lparr>st_client := Some client\<rparr>))"

definition with_client :: "(nats_client \<Rightarrow> 'w startup \<Rightarrow> 'a call_result \<times> 'w startup) \<Rightarrow> 'w startup \<Rightarrow> 'a call_result \<times> 'w startup" where
  "with_client f s = (case st_client s of Some client \<Rightarrow> f client s | None \<Rightarrow> (Panics ''nil pointer dereference'', s))"

definition loop_check :: "'w probes \<Rightarrow> string \<Rightarrow> int \<Rightarrow> 'w \<Rightarrow> go_error option" where
  "loop_check probes consumer maxAge w =
     (case pb_loop probes consumer w of (inFlight, lastFetch, now) \<Rightarrow> FetchLoop_Check inFlight lastFetch now maxAge)"

definition add_nats_check :: "'w probes \<Rightarrow> nats_client \<Rightarrow> 'w startup \<Rightarrow> 'w startup" where
  "add_nats_check probes client s =
     s\<lparr>st_health := RegisterOptional
         (AddReadiness ''nats'' (NatsConnectionCheck (Some (pb_connection probes (nc_Connection client))))) (st_health s)\<rparr>"

definition add_loop_check :: "'w probes \<Rightarrow> string \<Rightarrow> 'w startup \<Rightarrow> 'w startup" where
  "add_loop_check probes consumer s =
     s\<lparr>st_health := RegisterOptional (AddConsumerLoop (''consumer:'' @ consumer) (loop_check probes consumer)) (st_health s)\<rparr>"

definition default_assembly :: "'w startup assembly" where
  "default_assembly =
     \<lparr>as_Name = [], as_Provides = [], as_Requires = [], as_Init = \<lambda>s. (Returns (), s), as_Prepare = \<lambda>s. (Returns (), s),
      as_Start = \<lambda>s. (Returns (), s), as_Finalize = \<lambda>s. (Returns (), s), as_Shutdown = \<lambda>s. (Returns (), s)\<rparr>"

definition close_client :: "'w startup \<Rightarrow> unit call_result \<times> 'w startup" where
  "close_client s =
     (case st_client s of
        Some client \<Rightarrow> (Returns (), s\<lparr>st_calls := st_calls s @ [CallClose (nc_Connection client)]\<rparr>)
      | None \<Rightarrow> (Returns (), s))"

section \<open>The health assembly\<close>

text \<open>\<open>Prepare\<close>, which only mounts the two endpoints in the router, is left out.\<close>

definition RouterKey :: string where "RouterKey = ''router:Router''"

definition HealthServiceAssembly :: "'w startup assembly" where
  "HealthServiceAssembly =
     default_assembly\<lparr>as_Name := ''Health'', as_Provides := [''health:Registry''], as_Requires := [RouterKey],
       as_Init := \<lambda>s. (Returns (), s\<lparr>st_health := Some NewRegistry\<rparr>)\<rparr>"

definition AgentAssemblies :: "viper \<Rightarrow> 'w startup assembly \<Rightarrow> 'w startup assembly list" where
  "AgentAssemblies v router = (if \<not> v_IsSet v ''httpPort'' then [] else [router, HealthServiceAssembly])"

section \<open>The Tenant Manager\<close>

definition tm_setupConsumer :: "nats_env \<Rightarrow> string \<Rightarrow> nats_client \<Rightarrow> nats_call list \<Rightarrow> (go_error + server_consumer) \<times> nats_call list" where
  "tm_setupConsumer env streamName client h =
     and_then (wrap_result ''error initializing NATS stream: '' (SetupStream env client streamName h)) (\<lambda>stream h.
       wrap_result ''error initializing NATS orchestration consumer: '' (SetupConsumer env client stream CFMOrchestrationResponse h))"

definition tm_nats_Init :: "nats_env \<Rightarrow> client_config \<Rightarrow> 'w startup \<Rightarrow> unit call_result \<times> 'w startup" where
  "tm_nats_Init env cfg s = bind_outcome (connect (NewNatsClient env cfg []) s) (\<lambda>_ s. (Returns (), s))"

definition tm_nats_Start :: "nats_env \<Rightarrow> 'w probes \<Rightarrow> string \<Rightarrow> 'w startup \<Rightarrow> unit call_result \<times> 'w startup" where
  "tm_nats_Start env probes streamName =
     with_client (\<lambda>client s.
       bind_outcome (on_calls (tm_setupConsumer env streamName client) s) (\<lambda>_ s.
         (Returns (), add_loop_check probes CFMOrchestrationResponse (add_nats_check probes client s))))"

definition NewNatsOrchestrationServiceAssembly ::
    "nats_env \<Rightarrow> 'w probes \<Rightarrow> client_config \<Rightarrow> string \<Rightarrow> 'w startup assembly" where
  "NewNatsOrchestrationServiceAssembly env probes cfg streamName =
     default_assembly\<lparr>as_Name := ''NATs Orchestration Client'', as_Provides := [''tmapi:ProvisionClient''],
       as_Init := tm_nats_Init env cfg, as_Start := tm_nats_Start env probes streamName, as_Shutdown := close_client\<rparr>"

section \<open>The Provision Manager\<close>

text \<open>
  The other services that \<open>Prepare\<close> and \<open>Init\<close> resolve are left out: of the registry only the NATS client and the
  health checks are modelled. The index watcher itself is in \<open>Index_Watcher\<close>.
\<close>

definition IndexWatcherConsumer :: string where "IndexWatcherConsumer = ''pmanager-index-watcher''"

definition SetupIndexWatcherConsumer ::
    "nats_env \<Rightarrow> nats_client \<Rightarrow> string \<Rightarrow> nats_call list \<Rightarrow> (go_error + server_consumer) \<times> nats_call list" where
  "SetupIndexWatcherConsumer env client bucket h =
     and_then (GetExistingStream env client (''KV_'' @ bucket) h) (\<lambda>stream.
       CreateOrUpdateConsumer env client stream
         \<lparr>sv_Durable = IndexWatcherConsumer, sv_FilterSubjects = [''$KV.'' @ bucket @ ''.>''], sv_AckWait = 0, sv_MaxDeliver = 0\<rparr>)"

definition pm_orchestrator_Init :: "nats_env \<Rightarrow> viper \<Rightarrow> client_config \<Rightarrow> string \<Rightarrow> 'w startup \<Rightarrow> unit call_result \<times> 'w startup" where
  "pm_orchestrator_Init env v cfg streamName s =
     bind_outcome (connect (NewNatsClient env cfg []) s) (\<lambda>client s.
       let setupStream = (if v_IsSet v ''setupStream'' then v_GetBool v ''setupStream'' else True)
       in if setupStream then
            bind_outcome (on_calls (\<lambda>h. wrap_result ''error initializing NATS stream: '' (SetupStream env client streamName h)) s)
              (\<lambda>_ s. (Returns (), s))
          else (Returns (), s))"

definition pm_orchestrator_Prepare :: "nats_env \<Rightarrow> 'w probes \<Rightarrow> string \<Rightarrow> 'w startup \<Rightarrow> unit call_result \<times> 'w startup" where
  "pm_orchestrator_Prepare env probes bucket =
     with_client (\<lambda>client s.
       bind_outcome (on_calls (SetupIndexWatcherConsumer env client bucket) (add_nats_check probes client s)) (\<lambda>_ s.
         (Returns (), add_loop_check probes IndexWatcherConsumer s)))"

definition NewOrchestratorServiceAssembly ::
    "nats_env \<Rightarrow> viper \<Rightarrow> 'w probes \<Rightarrow> client_config \<Rightarrow> string \<Rightarrow> 'w startup assembly" where
  "NewOrchestratorServiceAssembly env v probes cfg streamName =
     default_assembly\<lparr>as_Name := ''NATs Provisioning'', as_Provides := [''pmapi:Orchestrator'', ''pmapi:NatsClient''],
       as_Requires := [''pmstore:OrchestrationIndex'', ''store:TransactionContext''],
       as_Init := pm_orchestrator_Init env v cfg streamName, as_Prepare := pm_orchestrator_Prepare env probes (cc_Bucket cfg),
       as_Shutdown := close_client\<rparr>"

definition pm_provision_Init :: "'w startup \<Rightarrow> unit call_result \<times> 'w startup" where
  "pm_provision_Init s =
     (case st_client s of None \<Rightarrow> (Panics ''service not found: pmapi:NatsClient'', s) | Some client \<Rightarrow> (Returns (), s))"

definition pm_setupConsumer :: "nats_env \<Rightarrow> string \<Rightarrow> nats_client \<Rightarrow> nats_call list \<Rightarrow> (go_error + server_consumer) \<times> nats_call list" where
  "pm_setupConsumer env streamName client h =
     and_then (wrap_result ''error initializing NATS stream: '' (SetupStream env client streamName h)) (\<lambda>stream h.
       wrap_result ''error initializing NATS orchestration manifest consumer: '' (SetupConsumer env client stream CFMOrchestration h))"

definition pm_provision_Start :: "nats_env \<Rightarrow> 'w probes \<Rightarrow> string \<Rightarrow> 'w startup \<Rightarrow> unit call_result \<times> 'w startup" where
  "pm_provision_Start env probes streamName =
     with_client (\<lambda>client s.
       bind_outcome (on_calls (pm_setupConsumer env streamName client) s) (\<lambda>_ s.
         (Returns (), add_loop_check probes CFMOrchestration s)))"

definition NewProvisionServiceAssembly :: "nats_env \<Rightarrow> 'w probes \<Rightarrow> string \<Rightarrow> 'w startup assembly" where
  "NewProvisionServiceAssembly env probes streamName =
     default_assembly\<lparr>as_Name := ''NATs Provision'', as_Requires := [''pmapi:ProvisionManager'', ''pmapi:NatsClient''],
       as_Init := pm_provision_Init, as_Start := pm_provision_Start env probes streamName, as_Shutdown := close_client\<rparr>"

section \<open>The agents\<close>

text \<open>\<open>newProcessor\<close> is what the constructor of the processor does: it panics when its configuration is incomplete.\<close>

definition agent_setupConsumer :: "nats_env \<Rightarrow> string \<Rightarrow> string \<Rightarrow> nats_client \<Rightarrow> nats_call list \<Rightarrow> (go_error + server_consumer) \<times> nats_call list" where
  "agent_setupConsumer env streamName activityType client h =
     and_then (wrap_result ''error setting up agent stream: '' (SetupStream env client streamName h)) (\<lambda>stream h.
       wrap_result ''error setting up agent consumer: '' (SetupActivityConsumer env client stream activityType h))"

definition executor_Execute :: "nats_env \<Rightarrow> string \<Rightarrow> string \<Rightarrow> nats_client \<Rightarrow> nats_call list \<Rightarrow> (go_error + unit) \<times> nats_call list" where
  "executor_Execute env streamName activityType client h =
     and_then (wrap_result ''error opening stream: ''
                 (checked (try_call env (CallStream (nc_Connection client) streamName) h) streamName)) (\<lambda>stream h.
       let consumerName = sanitized_subject activityType
       in wrap_result (''error connecting to consumer '' @ consumerName @ '': '')
            (checked (try_call env (CallGetConsumer (nc_Connection client) stream consumerName) h) ()))"

definition agent_Start ::
    "nats_env \<Rightarrow> 'w probes \<Rightarrow> client_config \<Rightarrow> string \<Rightarrow> string \<Rightarrow> unit call_result \<Rightarrow> 'w startup \<Rightarrow> unit call_result \<times> 'w startup" where
  "agent_Start env probes cfg streamName activityType newProcessor s =
     bind_outcome (connect (\<lambda>h. wrap_result ''failed to create NATS client: '' (NewNatsClient env cfg [] h)) s) (\<lambda>client s.
     bind_outcome (on_calls (\<lambda>h. wrap_result ''failed to create setup agent consumer: ''
                      (agent_setupConsumer env streamName activityType client h)) s) (\<lambda>_ s.
     bind_outcome (newProcessor, s) (\<lambda>_ s.
       on_calls (executor_Execute env streamName activityType client)
         (add_loop_check probes activityType (add_nats_check probes client s)))))"

definition agent_assembly ::
    "nats_env \<Rightarrow> 'w probes \<Rightarrow> string \<Rightarrow> string list \<Rightarrow> client_config \<Rightarrow> string \<Rightarrow> string \<Rightarrow> unit call_result \<Rightarrow> 'w startup assembly" where
  "agent_assembly env probes agentName requires cfg streamName activityType newProcessor =
     default_assembly\<lparr>as_Name := agentName, as_Requires := requires,
       as_Start := agent_Start env probes cfg streamName activityType newProcessor, as_Shutdown := close_client\<rparr>"

definition lifecycle_setupConsumer ::
    "nats_env \<Rightarrow> string \<Rightarrow> string \<Rightarrow> string list \<Rightarrow> bool \<Rightarrow> nats_client \<Rightarrow> nats_call list \<Rightarrow>
     (go_error + server_consumer) \<times> nats_call list" where
  "lifecycle_setupConsumer env agentName streamName subjects create client h =
     and_then
       (wrap_result ''error resolving agent stream: ''
          (if create then GetStream env client streamName subjects h else GetExistingStream env client streamName h))
       (\<lambda>stream h. wrap_result ''error setting up agent consumer: ''
          (SetupMultiSubjectConsumer env client stream (durableName agentName) subjects h))"

definition lifecycle_Start ::
    "nats_env \<Rightarrow> 'w probes \<Rightarrow> string \<Rightarrow> client_config \<Rightarrow> string \<Rightarrow> string list \<Rightarrow> bool \<Rightarrow> unit call_result \<Rightarrow>
     'w startup \<Rightarrow> unit call_result \<times> 'w startup" where
  "lifecycle_Start env probes agentName cfg streamName subjects create newProcessor s =
     bind_outcome (connect (\<lambda>h. wrap_result ''failed to create NATS client: '' (NewNatsClient env cfg [] h)) s) (\<lambda>client s.
     bind_outcome (on_calls (\<lambda>h. wrap_result ''failed to set up agent consumer: ''
                      (lifecycle_setupConsumer env agentName streamName subjects create client h)) s) (\<lambda>_ s.
     bind_outcome (newProcessor, s) (\<lambda>_ s.
       (Returns (), add_loop_check probes (durableName agentName) (add_nats_check probes client s)))))"

definition event_agent_assembly ::
    "nats_env \<Rightarrow> 'w probes \<Rightarrow> string \<Rightarrow> string list \<Rightarrow> client_config \<Rightarrow> string \<Rightarrow> string list \<Rightarrow> bool \<Rightarrow> unit call_result \<Rightarrow>
     'w startup assembly" where
  "event_agent_assembly env probes agentName requires cfg streamName subjects create newProcessor =
     default_assembly\<lparr>as_Name := agentName, as_Requires := requires,
       as_Start := lifecycle_Start env probes agentName cfg streamName subjects create newProcessor,
       as_Shutdown := close_client\<rparr>"

section \<open>Launching\<close>

text \<open>
  The processes, with the assemblies that the launchers register besides the ones above, and for an agent the
  constructor of its processor. \<open>AssembleAndLaunch\<close> is modelled up to the point where the process waits for a
  signal; its state then has what was done to start it.
\<close>

definition AssembleAndLaunch :: "range_order \<Rightarrow> 'w startup assembly list \<Rightarrow> 'w startup \<Rightarrow> 'w startup assembly list call_result \<times> 'w startup" where
  "AssembleAndLaunch ord assemblies s =
     (case Assemble ord assemblies s of
        ((Returns u, order), s) \<Rightarrow> (Returns order, s)
      | ((Fails err, order), s) \<Rightarrow> (Panics (''error assembling runtime: '' @ error_text err), s)
      | ((Panics reason, order), s) \<Rightarrow> (Panics reason, s))"

record 'w manager_assemblies =
  ma_Router :: "'w startup assembly"
  ma_Auth :: "'w startup assembly"
  ma_Handler :: "'w startup assembly"
  ma_Core :: "'w startup assembly"
  ma_Postgres :: "'w startup assembly"
  ma_NoOpTrx :: "'w startup assembly"
  ma_Memory :: "'w startup assembly"

definition store_assemblies :: "viper \<Rightarrow> 'w manager_assemblies \<Rightarrow> 'w startup assembly list" where
  "store_assemblies v ma = (if v_IsSet v ''postgres'' then [ma_Postgres ma] else [ma_NoOpTrx ma, ma_Memory ma])"

definition tm_Launch ::
    "nats_env \<Rightarrow> 'w probes \<Rightarrow> range_order \<Rightarrow> viper \<Rightarrow> string \<Rightarrow> 'w manager_assemblies \<Rightarrow> 'w startup \<Rightarrow>
     'w startup assembly list call_result \<times> 'w startup" where
  "tm_Launch env probes ord v mode ma s =
     bind_outcome (manager_config (ne_quote env) ''Tenant Manager'' ''tm'' v mode, s) (\<lambda>cfg.
       AssembleAndLaunch ord
         ([ma_Router ma, HealthServiceAssembly, ma_Auth ma, ma_Handler ma, ma_Core ma] @ store_assemblies v ma @
          [NewNatsOrchestrationServiceAssembly env probes cfg (v_GetString v streamKey)]))"

definition pm_Launch ::
    "nats_env \<Rightarrow> 'w probes \<Rightarrow> range_order \<Rightarrow> viper \<Rightarrow> string \<Rightarrow> 'w manager_assemblies \<Rightarrow> 'w startup \<Rightarrow>
     'w startup assembly list call_result \<times> 'w startup" where
  "pm_Launch env probes ord v mode ma s =
     bind_outcome (manager_config (ne_quote env) ''Provision Manager'' ''pm'' v mode, s) (\<lambda>cfg.
       AssembleAndLaunch ord
         ([ma_Router ma, HealthServiceAssembly, ma_Auth ma, ma_Handler ma] @ store_assemblies v ma @
          [NewOrchestratorServiceAssembly env v probes cfg (v_GetString v streamKey),
           NewProvisionServiceAssembly env probes (v_GetString v streamKey), ma_Core ma]))"

record 'w agent_launcher =
  al_AgentName :: string
  al_ConfigPrefix :: string
  al_Assemblies :: "'w startup assembly list"
  al_Router :: "'w startup assembly"
  al_NewProcessor :: "unit call_result"

definition natsagent_LaunchAgent ::
    "nats_env \<Rightarrow> 'w probes \<Rightarrow> range_order \<Rightarrow> viper \<Rightarrow> string \<Rightarrow> 'w agent_launcher \<Rightarrow> string \<Rightarrow> 'w startup \<Rightarrow>
     'w startup assembly list call_result \<times> 'w startup" where
  "natsagent_LaunchAgent env probes ord v mode l activityType s =
     bind_outcome (natsagent_loadAgentConfig (ne_quote env) (al_ConfigPrefix l) v mode, s) (\<lambda>cfg.
       AssembleAndLaunch ord
         (al_Assemblies l @
          [agent_assembly env probes (al_AgentName l) (concat (map as_Provides (al_Assemblies l))) cfg
             (v_GetString v streamKey) activityType (al_NewProcessor l)] @
          AgentAssemblies v (al_Router l)))"

definition lifecycle_LaunchAgent ::
    "nats_env \<Rightarrow> 'w probes \<Rightarrow> range_order \<Rightarrow> viper \<Rightarrow> string \<Rightarrow> 'w agent_launcher \<Rightarrow> string list \<Rightarrow> 'w startup \<Rightarrow>
     'w startup assembly list call_result \<times> 'w startup" where
  "lifecycle_LaunchAgent env probes ord v mode l defaultSubjects s =
     bind_outcome (lifecycle_loadAgentConfig (ne_quote env) (al_ConfigPrefix l) defaultSubjects v mode, s) (\<lambda>cfg.
       AssembleAndLaunch ord
         (al_Assemblies l @
          [event_agent_assembly env probes (al_AgentName l) (concat (map as_Provides (al_Assemblies l))) cfg
             (v_GetString v streamKey) (configured_subjects defaultSubjects v) (v_GetBool v ''createStream'')
             (al_NewProcessor l)] @
          AgentAssemblies v (al_Router l)))"

datatype 'w process =
    TenantManager "'w manager_assemblies"
  | ProvisionManager "'w manager_assemblies"
  | ActivityAgent "'w agent_launcher" string
  | LifecycleAgent "'w agent_launcher" "string list"

fun launch ::
    "nats_env \<Rightarrow> 'w probes \<Rightarrow> range_order \<Rightarrow> viper \<Rightarrow> string \<Rightarrow> 'w process \<Rightarrow> 'w startup assembly list call_result \<times> 'w startup" where
  "launch env probes ord v mode (TenantManager ma) = tm_Launch env probes ord v mode ma fresh_process"
| "launch env probes ord v mode (ProvisionManager ma) = pm_Launch env probes ord v mode ma fresh_process"
| "launch env probes ord v mode (ActivityAgent l activityType) =
     natsagent_LaunchAgent env probes ord v mode l activityType fresh_process"
| "launch env probes ord v mode (LifecycleAgent l subjects) =
     lifecycle_LaunchAgent env probes ord v mode l subjects fresh_process"

end
