(* ===== verification/Startup_Safety.thy ===== *)
theory Startup_Safety
  imports Startup
begin

text \<open>
  What a process may do to NATS while it starts, whatever the server answers: how it connects, and which streams
  and buckets it creates or changes. And what its health endpoints say.
\<close>

section \<open>Allowed calls\<close>

definition all_allowed :: "(nats_call list \<Rightarrow> nats_call \<Rightarrow> bool) \<Rightarrow> nats_call list \<Rightarrow> bool" where
  "all_allowed A h \<longleftrightarrow> (\<forall>pre c post. h = pre @ c # post \<longrightarrow> A pre c)"

lemma all_allowed_Nil [simp]: "all_allowed A []"
  by (simp add: all_allowed_def)

fun allowed_from :: "(nats_call list \<Rightarrow> nats_call \<Rightarrow> bool) \<Rightarrow> nats_call list \<Rightarrow> nats_call list \<Rightarrow> bool" where
  "allowed_from A h [] = True"
| "allowed_from A h (c # cs) = (A h c \<and> allowed_from A (h @ [c]) cs)"

lemma all_allowed_snoc: "all_allowed A (h @ [c]) \<longleftrightarrow> all_allowed A h \<and> A h c"
proof -
  have "h @ [c] = pre @ c' # post \<longleftrightarrow> post = [] \<and> pre = h \<and> c' = c \<or> (\<exists>post'. post = post' @ [c] \<and> h = pre @ c' # post')" for pre c' post
    by (cases post rule: rev_cases) auto
  then show ?thesis by (auto simp: all_allowed_def)
qed

lemma all_allowed_append [simp]: "all_allowed A (h @ cs) \<longleftrightarrow> all_allowed A h \<and> allowed_from A h cs"
proof (induction cs arbitrary: h)
  case (Cons c cs)
  have "h @ c # cs = (h @ [c]) @ cs" by simp
  then show ?case by (simp only: Cons.IH all_allowed_snoc allowed_from.simps conj_assoc)
qed simp

text \<open>An option that carries a secret of the component.\<close>

fun authenticates :: "nats_option \<Rightarrow> bool" where
  "authenticates (UserInfo username password) = (username \<noteq> [] \<and> password \<noteq> [])"
| "authenticates (Token token) = (token \<noteq> [])"
| "authenticates (Nkey seedFile) = (seedFile \<noteq> [])"
| "authenticates (UserCredentials credsFile) = (credsFile \<noteq> [])"
| "authenticates _ = False"

definition must_authenticate :: "viper \<Rightarrow> string \<Rightarrow> bool" where
  "must_authenticate v mode \<longleftrightarrow>
     mode = ProductionMode \<and> \<not> v_GetBool v AuthAllowAnonymousKey \<or>
     map to_lower (v_GetString v AuthMethodKey) \<notin> {[], ''none''}"

text \<open>The trust store and the client certificate are those of the configuration.\<close>

definition secured_by :: "tls_config \<Rightarrow> nats_option list \<Rightarrow> bool" where
  "secured_by tls options \<longleftrightarrow> Secure \<in> set options \<and>
     (tls_CAFile tls \<noteq> [] \<longrightarrow> RootCAs (tls_CAFile tls) \<in> set options) \<and>
     (tls_CertFile tls \<noteq> [] \<or> tls_KeyFile tls \<noteq> [] \<longrightarrow> ClientCert (tls_CertFile tls) (tls_KeyFile tls) \<in> set options)"

definition connection_ok :: "viper \<Rightarrow> string \<Rightarrow> string \<Rightarrow> nats_option list \<Rightarrow> bool" where
  "connection_ok v mode url options \<longleftrightarrow>
     url = v_GetString v uriKey \<and> url \<noteq> [] \<and>
     (must_authenticate v mode \<longrightarrow> list_ex authenticates options) \<and>
     (case TLSFromConfig v of None \<Rightarrow> True | Some tls \<Rightarrow> secured_by tls options)"

text \<open>The last call was \<open>q\<close>, and the server answered that the object does not exist.\<close>

definition found_missing :: "nats_env \<Rightarrow> nats_call list \<Rightarrow> nats_call \<Rightarrow> string \<Rightarrow> bool" where
  "found_missing env h q sentinel \<longleftrightarrow>
     h \<noteq> [] \<and> last h = q \<and> (\<exists>err. ne_error env h = Some err \<and> errors_Is err (Sentinel sentinel))"

definition created_stream_ok :: "jetstream_config \<Rightarrow> stream_config \<Rightarrow> bool" where
  "created_stream_ok r cfg \<longleftrightarrow>
     sm_Storage cfg = FileStorage \<and> sm_Replicas cfg = replicas r \<and> sm_MaxAge cfg = StreamMaxAge r \<and>
     sm_MaxBytes cfg = streamMaxBytes r"

text \<open>
  An update of a stream writes the configuration that the server has just reported, with the subjects changed to
  those that carry the old ones and the new ones.
\<close>

definition updated_stream_ok :: "nats_env \<Rightarrow> nats_call list \<Rightarrow> string list \<Rightarrow> stream_config \<Rightarrow> bool" where
  "updated_stream_ok env h subjects cfg \<longleftrightarrow>
     (\<exists>info. ne_info env h = Inr info \<and> cfg = info\<lparr>sm_Subjects := sm_Subjects cfg\<rparr> \<and>
        carried (sm_Subjects cfg) = carried (sm_Subjects info) \<union> carried subjects \<and>
        (non_overlapping (sm_Subjects info) \<longrightarrow> non_overlapping (sm_Subjects cfg)))"

text \<open>\<open>subjects\<close> are those that the process adds to a stream, if it may change streams at all.\<close>

fun call_allowed :: "nats_env \<Rightarrow> viper \<Rightarrow> string \<Rightarrow> string list option \<Rightarrow> nats_call list \<Rightarrow> nats_call \<Rightarrow> bool" where
  "call_allowed env v mode subjects h (CallConnect url options) = connection_ok v mode url options"
| "call_allowed env v mode subjects h (CallCreateKeyValue conn cfg) =
     (found_missing env h (CallKeyValue conn (kv_Bucket cfg)) ''jetstream.ErrBucketNotFound'' \<and>
      (\<exists>r. JetStreamFromConfig v = Inr r \<and> kv_Replicas cfg = replicas r \<and> kv_MaxBytes cfg = KVMaxBytes r))"
| "call_allowed env v mode subjects h (CallCreateStream conn cfg) =
     (found_missing env h (CallStream conn (sm_Name cfg)) ''jetstream.ErrStreamNotFound'' \<and>
      (\<exists>r. JetStreamFromConfig v = Inr r \<and> created_stream_ok r cfg))"
| "call_allowed env v mode subjects h (CallUpdateStream conn cfg) =
     (case subjects of None \<Rightarrow> False | Some ss \<Rightarrow> updated_stream_ok env h ss cfg)"
| "call_allowed env v mode subjects h _ = True"

lemma resources_valid: "JetStreamFromConfig v = Inr r \<Longrightarrow> JetStreamConfig_Validate r = None"
  by (auto simp: JetStreamFromConfig_def Let_def split: option.splits)

lemma replicas_bounds: "JetStreamFromConfig v = Inr r \<Longrightarrow> 1 \<le> replicas r" "JetStreamFromConfig v = Inr r \<Longrightarrow> replicas r \<le> 5"
  using valid_config_resources [OF resources_valid] by blast+

section \<open>The operations\<close>

lemma step_simps [simp]:
  "snd (try_call env c h) = h @ [c]" "snd (checked r x) = snd r" "snd (wrap_result m r2) = snd r2"
  by (auto simp: try_call_def checked_def wrap_result_def split: prod.split option.split sum.split)

lemma results [simp]:
  "wrap_result m r = (Inr x, h) \<longleftrightarrow> r = (Inr x, h)"
  "checked r3 x = (Inr y, h) \<longleftrightarrow> r3 = (None, h) \<and> y = x"
  "and_then r4 f = (Inr z, h) \<longleftrightarrow> (\<exists>w h'. r4 = (Inr w, h') \<and> f w h' = (Inr z, h))"
  by (auto simp: wrap_result_def checked_def and_then_def split: prod.split option.split sum.split)

lemma allowed_and_then:
  assumes "all_allowed A (snd r)" "\<And>x h. r = (Inr x, h) \<Longrightarrow> all_allowed A h \<Longrightarrow> all_allowed A (snd (f x h))"
  shows "all_allowed A (snd (and_then r f))"
  using assms by (auto simp: and_then_def split: prod.split sum.split)

lemma check_files_allowed: "all_allowed (call_allowed env v mode ss) h \<Longrightarrow> all_allowed (call_allowed env v mode ss) (snd (check_files env fs h))"
  by (induction env fs h rule: check_files.induct) (auto intro!: allowed_and_then)

lemma tls_Options_allowed:
  "all_allowed (call_allowed env v mode ss) h \<Longrightarrow> all_allowed (call_allowed env v mode ss) (snd (tls_Options env c h))"
  unfolding tls_Options_def by (auto intro!: allowed_and_then simp: check_files_allowed)

lemma tls_Options_secure: "tls_Options env c h = (Inr options, h') \<Longrightarrow> secured_by c options"
  unfolding tls_Options_def secured_by_def by (auto split: if_splits)

lemma auth_Options_allowed:
  "all_allowed (call_allowed env v mode ss) h \<Longrightarrow> all_allowed (call_allowed env v mode ss) (snd (auth_Options env a h))"
  by (cases a) auto

lemma auth_Options_authenticate: "auth_Options env a h = (Inr options, h') \<Longrightarrow> list_ex authenticates options"
  by (cases a) (auto split: if_splits)

lemma AuthFromConfig_must: "AuthFromConfig quote v mode = Inr auth \<Longrightarrow> must_authenticate v mode \<Longrightarrow> auth \<noteq> None"
  by (auto simp: AuthFromConfig_def must_authenticate_def Let_def split: if_splits)

lemma setupKeyValue_allowed:
  assumes "JetStreamFromConfig v = Inr r" "all_allowed (call_allowed env v mode ss) h"
  shows "all_allowed (call_allowed env v mode ss) (snd (setupKeyValue env conn bucket r h))"
  using assms
  by (auto simp: setupKeyValue_def try_call_def checked_def found_missing_def split: option.split prod.split)

text \<open>A configuration of the client that the launchers make.\<close>

definition config_ok :: "viper \<Rightarrow> string \<Rightarrow> client_config \<Rightarrow> bool" where
  "config_ok v mode cfg \<longleftrightarrow>
     cc_URL cfg = v_GetString v uriKey \<and> cc_URL cfg \<noteq> [] \<and> (must_authenticate v mode \<longrightarrow> cc_Auth cfg \<noteq> None) \<and>
     cc_TLS cfg = TLSFromConfig v \<and> JetStreamFromConfig v = Inr (cc_Resources cfg)"

lemma NewNatsClient_connection:
  assumes "config_ok v mode cfg"
    "(case cc_TLS cfg of None \<Rightarrow> (Inr [], h) | Some tls \<Rightarrow> wrap_result m (tls_Options env tls h)) = (Inr tlsOptions, h1)"
    "(case cc_Auth cfg of None \<Rightarrow> (Inr [], h1) | Some auth \<Rightarrow> wrap_result m' (auth_Options env auth h1)) = (Inr authOptions, h2)"
  shows "connection_ok v mode (cc_URL cfg) (default_options @ tlsOptions @ authOptions)"
proof -
  have "must_authenticate v mode \<longrightarrow> list_ex authenticates authOptions"
    using assms(1,3) by (auto simp: config_ok_def split: option.splits dest: auth_Options_authenticate)
  moreover have "case TLSFromConfig v of None \<Rightarrow> True | Some tls \<Rightarrow> secured_by tls tlsOptions"
    using assms(1,2) by (auto simp: config_ok_def split: option.splits dest: tls_Options_secure)
  ultimately show ?thesis
    using assms(1) by (auto simp: connection_ok_def config_ok_def secured_by_def split: option.splits)
qed

lemma NewNatsClient_allowed:
  assumes "config_ok v mode cfg" "all_allowed (call_allowed env v mode ss) h"
  shows "all_allowed (call_allowed env v mode ss) (snd (NewNatsClient env cfg [] h))"
  unfolding NewNatsClient_def
proof (rule allowed_and_then)
  fix tlsOptions h1
  assume tls: "(case cc_TLS cfg of None \<Rightarrow> (Inr [], h)
      | Some tls \<Rightarrow> wrap_result ''failed to configure NATS TLS: '' (tls_Options env tls h)) = (Inr tlsOptions, h1)"
    and h1: "all_allowed (call_allowed env v mode ss) h1"
  show "all_allowed (call_allowed env v mode ss) (snd (and_then
      (case cc_Auth cfg of None \<Rightarrow> (Inr [], h1)
       | Some auth \<Rightarrow> wrap_result ''failed to configure NATS authentication: '' (auth_Options env auth h1))
      (\<lambda>authOptions h. let h = h @ [CallConnect (cc_URL cfg) (default_options @ tlsOptions @ authOptions @ [])]
        in case ne_connection env h of
             Inl err \<Rightarrow> (Inl (WrapError (''failed to connect to NATS: '' @ error_text err) err), h)
           | Inr conn \<Rightarrow>
               (case try_call env (CallNewJetStream conn) h of
                  (Some err, h) \<Rightarrow>
                    (Inl (WrapError (''failed to create jetstream context: '' @ error_text err) err), h @ [CallClose conn])
                | (None, h) \<Rightarrow>
                    (case setupKeyValue env conn (cc_Bucket cfg) (cc_Resources cfg) h of
                       (Inl err, h) \<Rightarrow> (Inl err, h @ [CallClose conn])
                     | (Inr _, h) \<Rightarrow> (Inr \<lparr>nc_Connection = conn, nc_Resources = cc_Resources cfg\<rparr>, h))))))"
    (is "all_allowed ?A (snd (and_then _ ?connect))")
  proof (rule allowed_and_then)
    fix authOptions h2
    assume auth: "(case cc_Auth cfg of None \<Rightarrow> (Inr [], h1)
        | Some auth \<Rightarrow> wrap_result ''failed to configure NATS authentication: '' (auth_Options env auth h1)) = (Inr authOptions, h2)"
      and h2: "all_allowed ?A h2"
    have ok: "connection_ok v mode (cc_URL cfg) (default_options @ tlsOptions @ authOptions)"
      by (rule NewNatsClient_connection [OF assms(1) tls auth])
    have "all_allowed ?A (snd (setupKeyValue env conn (cc_Bucket cfg) (cc_Resources cfg)
        (h2 @ [CallConnect (cc_URL cfg) (default_options @ tlsOptions @ authOptions), CallNewJetStream conn])))" for conn
      using setupKeyValue_allowed [of v "cc_Resources cfg" env mode ss
          "(h2 @ [CallConnect (cc_URL cfg) (default_options @ tlsOptions @ authOptions)]) @ [CallNewJetStream conn]"] h2 ok assms(1)
      by (simp add: config_ok_def del: append_assoc) simp
    then show "all_allowed ?A (snd (?connect authOptions h2))"
      using h2 ok by (auto simp: Let_def try_call_def split: sum.split option.split prod.split) (metis snd_conv)+
  qed (use h1 in \<open>auto simp: auth_Options_allowed split: option.split\<close>)
qed (use assms(2) in \<open>auto simp: tls_Options_allowed split: option.split\<close>)

lemma NewNatsClient_resources:
  "NewNatsClient env cfg extra h = (Inr client, h') \<Longrightarrow> nc_Resources client = cc_Resources cfg"
  unfolding NewNatsClient_def Let_def try_call_def results
  by (elim exE conjE) (auto split: sum.splits prod.splits option.splits)

section \<open>Streams\<close>

definition client_ok :: "viper \<Rightarrow> nats_client \<Rightarrow> bool" where
  "client_ok v client \<longleftrightarrow> JetStreamFromConfig v = Inr (nc_Resources client)"

lemma created_ok [simp]:
  "created_stream_ok r (cfg\<lparr>sm_Storage := FileStorage, sm_Replicas := replicas r, sm_MaxAge := StreamMaxAge r,
     sm_MaxBytes := streamMaxBytes r\<rparr>)"
  by (simp add: created_stream_ok_def)

lemma createStream_allowed:
  assumes "client_ok v client" "all_allowed (call_allowed env v mode ss) h"
    "found_missing env h (CallStream (nc_Connection client) (sm_Name cfg)) ''jetstream.ErrStreamNotFound''"
  shows "all_allowed (call_allowed env v mode ss) (snd (createStream env client cfg h))"
  using assms by (auto simp: createStream_def Let_def try_call_def client_ok_def split: option.split)

lemma SetupStream_allowed:
  assumes "client_ok v client" "all_allowed (call_allowed env v mode ss) h"
  shows "all_allowed (call_allowed env v mode ss) (snd (SetupStream env client streamName h))"
  unfolding SetupStream_def try_call_def
  using assms
  by (auto split: option.split intro!: createStream_allowed simp: found_missing_def new_stream_def)

lemma EnsureStreamSubjects_allowed:
  assumes "all_allowed (call_allowed env v mode (Some subjects)) h"
  shows "all_allowed (call_allowed env v mode (Some subjects)) (snd (EnsureStreamSubjects env client stream subjects h))"
proof (cases "ne_info env (h @ [CallInfo (nc_Connection client) stream])")
  case (Inr info)
  show ?thesis
  proof (cases "mergeStreamSubjects (sm_Subjects info) subjects")
    case (Inr result)
    then obtain merged changed where m: "mergeStreamSubjects (sm_Subjects info) subjects = Inr (merged, changed)"
      by (cases result) simp
    with mergeStreamSubjects_correct [where existing = "sm_Subjects info" and additional = subjects]
    have "updated_stream_ok env (h @ [CallInfo (nc_Connection client) stream]) subjects (info\<lparr>sm_Subjects := merged\<rparr>)"
      using \<open>ne_info env (h @ [CallInfo (nc_Connection client) stream]) = Inr info\<close> by (auto simp: updated_stream_ok_def)
    then show ?thesis
      using assms m \<open>ne_info env (h @ [CallInfo (nc_Connection client) stream]) = Inr info\<close>
      by (simp add: EnsureStreamSubjects_def Let_def)
  qed (use assms Inr in \<open>simp add: EnsureStreamSubjects_def Let_def\<close>)
qed (use assms in \<open>simp add: EnsureStreamSubjects_def Let_def\<close>)

lemma GetStream_allowed:
  assumes "client_ok v client" "all_allowed (call_allowed env v mode (Some subjects)) h"
  shows "all_allowed (call_allowed env v mode (Some subjects)) (snd (GetStream env client streamName subjects h))"
  unfolding GetStream_def try_call_def
  using assms
  by (auto split: option.split intro!: allowed_and_then createStream_allowed EnsureStreamSubjects_allowed
      simp: found_missing_def new_stream_def)

lemma consumers_allowed:
  assumes "all_allowed (call_allowed env v mode ss) h"
  shows "all_allowed (call_allowed env v mode ss) (snd (GetExistingStream env client streamName h))"
    "all_allowed (call_allowed env v mode ss) (snd (CreateOrUpdateConsumer env client stream c h))"
    "all_allowed (call_allowed env v mode ss) (snd (SetupConsumer env client stream subject h))"
    "all_allowed (call_allowed env v mode ss) (snd (SetupActivityConsumer env client stream subject h))"
    "all_allowed (call_allowed env v mode ss) (snd (SetupMultiSubjectConsumer env client stream durable subjects h))"
    "all_allowed (call_allowed env v mode ss) (snd (executor_Execute env streamName subject client h))"
  using assms
  by (auto simp: GetExistingStream_def CreateOrUpdateConsumer_def SetupConsumer_def SetupActivityConsumer_def
      SetupMultiSubjectConsumer_def executor_Execute_def Let_def intro!: allowed_and_then)

lemma setupConsumers_allowed:
  assumes "client_ok v client" "all_allowed (call_allowed env v mode ss) h"
  shows "all_allowed (call_allowed env v mode ss) (snd (tm_setupConsumer env streamName client h))"
    "all_allowed (call_allowed env v mode ss) (snd (pm_setupConsumer env streamName client h))"
    "all_allowed (call_allowed env v mode ss) (snd (agent_setupConsumer env streamName activityType client h))"
    "all_allowed (call_allowed env v mode ss) (snd (SetupIndexWatcherConsumer env client bucket h))"
    "(\<And>subjects. create \<Longrightarrow> ss = Some subjects') \<Longrightarrow>
       all_allowed (call_allowed env v mode ss) (snd (lifecycle_setupConsumer env agentName streamName subjects' create client h))"
  using assms
  by (auto simp: tm_setupConsumer_def pm_setupConsumer_def agent_setupConsumer_def SetupIndexWatcherConsumer_def
      lifecycle_setupConsumer_def intro!: allowed_and_then SetupStream_allowed consumers_allowed GetStream_allowed)

section \<open>The state of a process\<close>

definition health_ok :: "'w health_registry option \<Rightarrow> bool" where
  "health_ok hr \<longleftrightarrow> (\<forall>r. hr = Some r \<longrightarrow> registry_ok r \<and> lookup (hr_liveness r) ''nats'' = None \<and>
     lookup (hr_liveness r) ''postgres'' = None)"

definition startup_ok :: "(nats_call list \<Rightarrow> nats_call \<Rightarrow> bool) \<Rightarrow> viper \<Rightarrow> 'w startup \<Rightarrow> bool" where
  "startup_ok A v s \<longleftrightarrow> all_allowed A (st_calls s) \<and> (\<forall>client. st_client s = Some client \<longrightarrow> client_ok v client) \<and>
     health_ok (st_health s)"

definition keeps :: "('s \<Rightarrow> bool) \<Rightarrow> ('s \<Rightarrow> 'r \<times> 's) \<Rightarrow> bool" where
  "keeps I m \<longleftrightarrow> (\<forall>s. I s \<longrightarrow> I (snd (m s)))"

definition assembly_keeps :: "('s \<Rightarrow> bool) \<Rightarrow> 's assembly \<Rightarrow> bool" where
  "assembly_keeps I a \<longleftrightarrow> keeps I (as_Init a) \<and> keeps I (as_Prepare a) \<and> keeps I (as_Start a)"

lemma keeps_run_phase:
  "list_all (\<lambda>a. keeps I (method a)) order \<Longrightarrow> I s \<Longrightarrow> I (snd (run_phase method doing order s))"
proof (induction order arbitrary: s)
  case (Cons a order)
  then have "I (snd (method a s))" by (simp add: keeps_def)
  with Cons show ?case by (auto split: prod.split call_result.split)
qed simp

lemma keeps_bind:
  assumes "I (snd r)" "\<And>x s. r = (Returns x, s) \<Longrightarrow> I s \<Longrightarrow> I (snd (f x s))"
  shows "I (snd (bind_outcome r f))"
  using assms by (cases r) (auto simp: bind_outcome_def split: call_result.split)

lemma keeps_bring_up:
  assumes "list_all (assembly_keeps I) order" "I s"
  shows "I (snd (bring_up order s))"
proof -
  have ks: "list_all (\<lambda>a. keeps I (as_Init a)) order" "list_all (\<lambda>a. keeps I (as_Prepare a)) order"
    "list_all (\<lambda>a. keeps I (as_Start a)) order"
    using assms(1) by (auto simp: assembly_keeps_def list_all_iff)
  show ?thesis
    unfolding bring_up_def
    by (rule keeps_bind [where I = I], rule keeps_run_phase [OF ks(1) assms(2)],
      rule keeps_bind [where I = I], rule keeps_run_phase [OF ks(2)], assumption, rule keeps_run_phase [OF ks(3)])
qed

lemma named_elements: "a \<in> set (List.map_filter (named as) ns) \<Longrightarrow> a \<in> set as"
  by (auto simp: List.map_filter_def named_Some dest: named_Some)

lemma keeps_Assemble:
  assumes "list_all (assembly_keeps I) assemblies" "I s"
  shows "I (snd (Assemble ord assemblies s))"
proof (cases rule: assembly_graph [of assemblies])
  case (graph g)
  show ?thesis
  proof (cases "TopologicalSort ord g")
    case (Some res)
    let ?order = "List.map_filter (GetValue g) (rev (SortedOrder res))"
    have "list_all (assembly_keeps I) (List.map_filter (GetValue g) ns)" for ns
      using assms(1) unfolding graph(5) list_all_iff by (metis named_elements)
    from keeps_bring_up [OF this assms(2)] obtain r s' where "bring_up ?order s = (r, s')" "I s'"
      by (metis prod.collapse)
    with Some assms(2) show ?thesis unfolding graph(6) by (cases r) (simp_all add: Let_def)
  qed (use assms(2) in \<open>simp add: graph(6)\<close>)
qed (use assms(2) in simp)

section \<open>The assemblies\<close>

lemma on_calls_ok:
  assumes "startup_ok A v s" "all_allowed A (snd (f (st_calls s)))"
  shows "startup_ok A v (snd (on_calls f s))"
  using assms by (auto simp: on_calls_def startup_ok_def split: prod.split sum.split)

lemma on_calls_client: "on_calls f s = (Returns x, s') \<Longrightarrow> st_client s' = st_client s"
  by (auto simp: on_calls_def split: prod.splits sum.splits)

lemma connect_ok:
  assumes "startup_ok A v s" "all_allowed A (snd (f (st_calls s)))"
    "\<And>client h. f (st_calls s) = (Inr client, h) \<Longrightarrow> client_ok v client"
  shows "startup_ok A v (snd (connect f s))"
    "connect f s = (Returns client, s') \<Longrightarrow> client_ok v client \<and> st_client s' = Some client"
  using assms by (auto simp: connect_def on_calls_def bind_outcome_def startup_ok_def split: prod.splits sum.splits)

lemma new_client_ok:
  assumes "config_ok v mode cfg" "NewNatsClient env cfg extra h = (Inr client, h')"
  shows "client_ok v client"
  using assms by (simp add: client_ok_def config_ok_def NewNatsClient_resources)

lemma health_ok_RegisterOptional:
  assumes "health_ok hr" "\<And>r. registry_ok r \<Longrightarrow> lookup (hr_liveness r) ''nats'' = None \<Longrightarrow>
      lookup (hr_liveness r) ''postgres'' = None \<Longrightarrow> health_ok (Some (register r))"
  shows "health_ok (RegisterOptional register hr)"
  using assms by (cases hr) (auto simp: health_ok_def RegisterOptional_def)

lemma loop_check_mono:
  "loop_check probes consumer ConsumerReadinessMaxAge w = None \<Longrightarrow> loop_check probes consumer ConsumerLivenessMaxAge w = None"
  by (auto simp: loop_check_def ConsumerReadinessMaxAge_def ConsumerLivenessMaxAge_def second_def minute_def
      split: prod.splits elim!: FetchLoop_Check_mono)

lemma checks_ok [simp]:
  assumes "startup_ok A v s"
  shows "startup_ok A v (add_nats_check probes client s)" "startup_ok A v (add_loop_check probes consumer s)"
  using assms
  by (auto simp: startup_ok_def add_nats_check_def add_loop_check_def AddConsumerLoop_def AddReadiness_def AddLiveness_def
      health_ok_def RegisterOptional_def lookup_put intro!: registry_ok_AddReadiness [unfolded AddReadiness_def]
      registry_ok_AddConsumerLoop [unfolded AddConsumerLoop_def AddReadiness_def AddLiveness_def, simplified] loop_check_mono)

lemma with_client_ok:
  assumes "startup_ok A v s" "\<And>client. client_ok v client \<Longrightarrow> startup_ok A v (snd (f client s))"
  shows "startup_ok A v (snd (with_client f s))"
  using assms by (auto simp: with_client_def startup_ok_def split: option.split)

text \<open>The other assemblies of a process: they do not use NATS, and register at most the check of the database.\<close>

definition leaves_nats :: "('w startup \<Rightarrow> unit call_result \<times> 'w startup) \<Rightarrow> bool" where
  "leaves_nats m \<longleftrightarrow>
     (\<forall>s. st_calls (snd (m s)) = st_calls s \<and> st_client (snd (m s)) = st_client s \<and>
        (st_health (snd (m s)) = st_health s \<or>
         (\<exists>check. st_health (snd (m s)) = RegisterOptional (AddReadiness ''postgres'' check) (st_health s))))"

definition foreign :: "'w startup assembly \<Rightarrow> bool" where
  "foreign a \<longleftrightarrow> leaves_nats (as_Init a) \<and> leaves_nats (as_Prepare a) \<and> leaves_nats (as_Start a)"

fun other_assemblies :: "'w process \<Rightarrow> 'w startup assembly list" where
  "other_assemblies (TenantManager ma) =
     [ma_Router ma, ma_Auth ma, ma_Handler ma, ma_Core ma, ma_Postgres ma, ma_NoOpTrx ma, ma_Memory ma]"
| "other_assemblies (ProvisionManager ma) =
     [ma_Router ma, ma_Auth ma, ma_Handler ma, ma_Core ma, ma_Postgres ma, ma_NoOpTrx ma, ma_Memory ma]"
| "other_assemblies (ActivityAgent l activityType) = al_Router l # al_Assemblies l"
| "other_assemblies (LifecycleAgent l subjects) = al_Router l # al_Assemblies l"

lemma leaves_nats_keeps: "leaves_nats (m :: 'w startup \<Rightarrow> _) \<Longrightarrow> keeps (startup_ok A v) m"
  unfolding keeps_def
proof (intro allI impI)
  fix s :: "'w startup" assume m: "leaves_nats m" and ok: "startup_ok A v s"
  have "health_ok (RegisterOptional (AddReadiness ''postgres'' check) (st_health s))" for check
    by (rule health_ok_RegisterOptional)
      (use ok in \<open>auto simp: startup_ok_def health_ok_def AddReadiness_def intro: registry_ok_AddReadiness [unfolded AddReadiness_def]\<close>)
  with m ok show "startup_ok A v (snd (m s))" unfolding leaves_nats_def startup_ok_def by metis
qed

lemma foreign_keeps: "foreign a \<Longrightarrow> assembly_keeps (startup_ok A v) a"
  by (simp add: foreign_def assembly_keeps_def leaves_nats_keeps)

lemma default_keeps [simp]:
  "keeps I (as_Init default_assembly)" "keeps I (as_Prepare default_assembly)" "keeps I (as_Start default_assembly)"
  by (simp_all add: keeps_def default_assembly_def)

lemma health_keeps: "assembly_keeps (startup_ok A v) HealthServiceAssembly"
  by (auto simp: assembly_keeps_def HealthServiceAssembly_def keeps_def startup_ok_def health_ok_def NewRegistry_def
      registry_ok_def default_assembly_def)

lemma connected:
  assumes "config_ok v mode cfg" "startup_ok (call_allowed env v mode ss) v s"
  shows "startup_ok (call_allowed env v mode ss) v (snd (connect (NewNatsClient env cfg []) s))"
    "startup_ok (call_allowed env v mode ss) v (snd (connect (\<lambda>h. wrap_result m (NewNatsClient env cfg [] h)) s))"
    "connect (NewNatsClient env cfg []) s = (Returns client, s') \<Longrightarrow> client_ok v client"
    "connect (\<lambda>h. wrap_result m (NewNatsClient env cfg [] h)) s = (Returns client, s') \<Longrightarrow> client_ok v client"
proof -
  have h: "all_allowed (call_allowed env v mode ss) (snd (NewNatsClient env cfg [] (st_calls s)))"
    using NewNatsClient_allowed [OF assms(1)] assms(2) by (simp add: startup_ok_def)
  note c = connect_ok [OF assms(2), of "NewNatsClient env cfg []"]
    connect_ok [OF assms(2), of "\<lambda>h. wrap_result m (NewNatsClient env cfg [] h)"]
  show "startup_ok (call_allowed env v mode ss) v (snd (connect (NewNatsClient env cfg []) s))"
    "startup_ok (call_allowed env v mode ss) v (snd (connect (\<lambda>h. wrap_result m (NewNatsClient env cfg [] h)) s))"
    "connect (NewNatsClient env cfg []) s = (Returns client, s') \<Longrightarrow> client_ok v client"
    "connect (\<lambda>h. wrap_result m (NewNatsClient env cfg [] h)) s = (Returns client, s') \<Longrightarrow> client_ok v client"
    using c h new_client_ok [OF assms(1)] by simp_all
qed

lemma on_calls_step:
  assumes "startup_ok (call_allowed env v mode ss) v s"
    "\<And>h. all_allowed (call_allowed env v mode ss) h \<Longrightarrow> all_allowed (call_allowed env v mode ss) (snd (f h))"
  shows "startup_ok (call_allowed env v mode ss) v (snd (on_calls f s))"
  by (rule on_calls_ok [OF assms(1)]) (use assms in \<open>simp add: startup_ok_def\<close>)

lemma tm_nats_keeps:
  assumes "config_ok v mode cfg"
  shows "assembly_keeps (startup_ok (call_allowed env v mode ss) v) (NewNatsOrchestrationServiceAssembly env probes cfg streamName)"
proof -
  let ?I = "startup_ok (call_allowed env v mode ss) v"
  have "keeps ?I (tm_nats_Init env cfg)"
    unfolding keeps_def tm_nats_Init_def by (intro allI impI keeps_bind [where I = ?I] connected(1) [OF assms]) simp_all
  moreover have "keeps ?I (tm_nats_Start env probes streamName)"
    unfolding keeps_def tm_nats_Start_def
    by (intro allI impI with_client_ok keeps_bind [where I = ?I] on_calls_step) (simp_all add: setupConsumers_allowed)
  ultimately show ?thesis
    by (simp add: assembly_keeps_def NewNatsOrchestrationServiceAssembly_def)
qed

lemma pm_orchestrator_keeps:
  assumes "config_ok v mode cfg"
  shows "assembly_keeps (startup_ok (call_allowed env v mode ss) v) (NewOrchestratorServiceAssembly env v probes cfg streamName)"
proof -
  let ?I = "startup_ok (call_allowed env v mode ss) v"
  have "keeps ?I (pm_orchestrator_Init env v cfg streamName)"
    unfolding keeps_def pm_orchestrator_Init_def Let_def
    by (intro allI impI keeps_bind [where I = ?I] connected(1) [OF assms])
      (auto intro!: keeps_bind [where I = ?I] on_calls_step simp: SetupStream_allowed dest: connected(3) [OF assms, rotated])
  moreover have "keeps ?I (pm_orchestrator_Prepare env probes (cc_Bucket cfg))"
    unfolding keeps_def pm_orchestrator_Prepare_def
    by (intro allI impI with_client_ok keeps_bind [where I = ?I] on_calls_step) (simp_all add: setupConsumers_allowed)
  ultimately show ?thesis
    by (simp add: assembly_keeps_def NewOrchestratorServiceAssembly_def)
qed

lemma pm_provision_keeps:
  "assembly_keeps (startup_ok (call_allowed env v mode ss) v) (NewProvisionServiceAssembly env probes streamName)"
proof -
  let ?I = "startup_ok (call_allowed env v mode ss) v"
  have "keeps ?I pm_provision_Init" by (simp add: keeps_def pm_provision_Init_def split: option.split)
  moreover have "keeps ?I (pm_provision_Start env probes streamName)"
    unfolding keeps_def pm_provision_Start_def
    by (intro allI impI with_client_ok keeps_bind [where I = ?I] on_calls_step) (simp_all add: setupConsumers_allowed)
  ultimately show ?thesis by (simp add: assembly_keeps_def NewProvisionServiceAssembly_def)
qed

lemma agent_keeps:
  assumes "config_ok v mode cfg"
  shows "assembly_keeps (startup_ok (call_allowed env v mode ss) v)
    (agent_assembly env probes agentName requires cfg streamName activityType newProcessor)"
proof -
  let ?I = "startup_ok (call_allowed env v mode ss) v"
  have "?I (snd (agent_Start env probes cfg streamName activityType newProcessor s))" if s: "?I s" for s
    unfolding agent_Start_def
  proof (rule keeps_bind [where I = ?I, OF connected(2) [OF assms s]])
    fix client s1
    assume c: "connect (\<lambda>h. wrap_result ''failed to create NATS client: '' (NewNatsClient env cfg [] h)) s = (Returns client, s1)"
      and s1: "?I s1"
    show "?I (snd (bind_outcome (on_calls (\<lambda>h. wrap_result ''failed to create setup agent consumer: ''
        (agent_setupConsumer env streamName activityType client h)) s1) (\<lambda>_ s.
      bind_outcome (newProcessor, s) (\<lambda>_ s. on_calls (executor_Execute env streamName activityType client)
         (add_loop_check probes activityType (add_nats_check probes client s))))))"
      using connected(4) [OF assms s c] s1
      by (intro keeps_bind [where I = ?I] on_calls_step) (simp_all add: setupConsumers_allowed consumers_allowed)
  qed
  then show ?thesis by (simp add: assembly_keeps_def agent_assembly_def keeps_def) (simp add: default_assembly_def)
qed

lemma event_agent_keeps:
  assumes "config_ok v mode cfg" "create \<Longrightarrow> ss = Some subjects"
  shows "assembly_keeps (startup_ok (call_allowed env v mode ss) v)
    (event_agent_assembly env probes agentName requires cfg streamName subjects create newProcessor)"
proof -
  let ?I = "startup_ok (call_allowed env v mode ss) v"
  have "?I (snd (lifecycle_Start env probes agentName cfg streamName subjects create newProcessor s))" if s: "?I s" for s
    unfolding lifecycle_Start_def
  proof (rule keeps_bind [where I = ?I, OF connected(2) [OF assms(1) s]])
    fix client s1
    assume c: "connect (\<lambda>h. wrap_result ''failed to create NATS client: '' (NewNatsClient env cfg [] h)) s = (Returns client, s1)"
      and s1: "?I s1"
    show "?I (snd (bind_outcome (on_calls (\<lambda>h. wrap_result ''failed to set up agent consumer: ''
        (lifecycle_setupConsumer env agentName streamName subjects create client h)) s1) (\<lambda>_ s.
      bind_outcome (newProcessor, s) (\<lambda>_ s.
        (Returns (), add_loop_check probes (durableName agentName) (add_nats_check probes client s))))))"
      using connected(4) [OF assms(1) s c] s1 assms(2)
      by (intro keeps_bind [where I = ?I] on_calls_step) (simp_all add: setupConsumers_allowed)
  qed
  then show ?thesis by (simp add: assembly_keeps_def event_agent_assembly_def keeps_def) (simp add: default_assembly_def)
qed

section \<open>Launching\<close>

lemma required_uri: "required_nats_params v configPrefix = None \<Longrightarrow> v_GetString v uriKey \<noteq> []"
  by (simp add: required_nats_params_def CheckRequiredParams_def param_errors_def Let_def upt_rec split: if_splits)

lemma nats_config_ok:
  "nats_config quote message v mode = Returns cfg \<Longrightarrow> v_GetString v uriKey \<noteq> [] \<Longrightarrow> config_ok v mode cfg"
  by (auto simp: nats_config_def config_ok_def split: sum.splits dest: AuthFromConfig_must)

lemma configs_ok:
  "manager_config quote name configPrefix v mode = Returns cfg \<Longrightarrow> config_ok v mode cfg"
  "natsagent_loadAgentConfig quote configPrefix v mode = Returns cfg \<Longrightarrow> config_ok v mode cfg"
  "lifecycle_loadAgentConfig quote configPrefix subjects v mode = Returns cfg \<Longrightarrow> config_ok v mode cfg"
  by (auto simp: manager_config_def natsagent_loadAgentConfig_def lifecycle_loadAgentConfig_def Let_def
      split: option.splits if_splits dest: nats_config_ok required_uri)

lemma AssembleAndLaunch_ok:
  assumes "list_all (assembly_keeps I) assemblies" "I s"
  shows "I (snd (AssembleAndLaunch ord assemblies s))"
  using keeps_Assemble [OF assms, of ord]
  by (auto simp: AssembleAndLaunch_def split: prod.split call_result.split)

lemma fresh_ok [simp]: "startup_ok A v fresh_process"
  by (simp add: startup_ok_def fresh_process_def health_ok_def)

text \<open>The subjects that a process may add to a stream: only a lifecycle agent that is told to create streams.\<close>

fun added_subjects :: "viper \<Rightarrow> 'w process \<Rightarrow> string list option" where
  "added_subjects v (LifecycleAgent l subjects) =
     (if v_GetBool v ''createStream'' then Some (configured_subjects subjects v) else None)"
| "added_subjects v _ = None"

lemma launch_ok:
  assumes "list_all foreign (other_assemblies p)"
  shows "startup_ok (call_allowed env v mode (added_subjects v p)) v (snd (launch env probes ord v mode p))"
proof (cases p)
  case (TenantManager ma)
  let ?I = "startup_ok (call_allowed env v mode None) v"
  have "?I (snd (tm_Launch env probes ord v mode ma fresh_process))"
    unfolding tm_Launch_def
    by (rule keeps_bind [where I = ?I], simp, rule AssembleAndLaunch_ok)
      (use assms TenantManager in \<open>auto simp: store_assemblies_def health_keeps foreign_keeps intro: tm_nats_keeps configs_ok\<close>)
  then show ?thesis by (simp add: TenantManager)
next
  case (ProvisionManager ma)
  let ?I = "startup_ok (call_allowed env v mode None) v"
  have "?I (snd (pm_Launch env probes ord v mode ma fresh_process))"
    unfolding pm_Launch_def
    by (rule keeps_bind [where I = ?I], simp, rule AssembleAndLaunch_ok)
      (use assms ProvisionManager in \<open>auto simp: store_assemblies_def health_keeps foreign_keeps pm_provision_keeps
         intro: pm_orchestrator_keeps configs_ok\<close>)
  then show ?thesis by (simp add: ProvisionManager)
next
  case (ActivityAgent l activityType)
  let ?I = "startup_ok (call_allowed env v mode None) v"
  have "?I (snd (natsagent_LaunchAgent env probes ord v mode l activityType fresh_process))"
    unfolding natsagent_LaunchAgent_def
    by (rule keeps_bind [where I = ?I], simp, rule AssembleAndLaunch_ok)
      (use assms ActivityAgent in \<open>auto simp: AgentAssemblies_def health_keeps foreign_keeps list_all_iff intro: agent_keeps configs_ok\<close>)
  then show ?thesis by (simp add: ActivityAgent)
next
  case (LifecycleAgent l subjects)
  let ?I = "startup_ok (call_allowed env v mode (added_subjects v p)) v"
  have "?I (snd (lifecycle_LaunchAgent env probes ord v mode l subjects fresh_process))"
    unfolding lifecycle_LaunchAgent_def
    by (rule keeps_bind [where I = ?I], simp, rule AssembleAndLaunch_ok)
      (use assms LifecycleAgent in \<open>auto simp: AgentAssemblies_def health_keeps foreign_keeps list_all_iff
         intro!: event_agent_keeps intro: configs_ok\<close>)
  then show ?thesis by (simp add: LifecycleAgent)
qed

lemma launch_calls:
  assumes "list_all foreign (other_assemblies p)" "st_calls (snd (launch env probes ord v mode p)) = pre @ c # post"
  shows "call_allowed env v mode (added_subjects v p) pre c"
  using launch_ok [OF assms(1)] assms(2) unfolding startup_ok_def all_allowed_def by blast

lemma added_subjects_Some:
  "added_subjects v p = Some ss \<Longrightarrow>
     \<exists>l subjects. p = LifecycleAgent l subjects \<and> v_GetBool v ''createStream'' \<and> ss = configured_subjects subjects v"
  by (cases p) (auto split: if_splits)

text \<open>
  C19. Whatever NATS answers, a process connects only as it is configured: to the configured URL, in production mode
  never without a secret of its own unless anonymous connections are allowed, with one in every mode if a method is
  configured, and if TLS is configured then over TLS with the configured trust store and client certificate.
\<close>

theorem connections_as_configured:
  assumes "list_all foreign (other_assemblies p)"
    "CallConnect url options \<in> set (st_calls (snd (launch env probes ord v mode p)))"
  shows "url = v_GetString v ''uri'' \<and> url \<noteq> [] \<and>
    (must_authenticate v mode \<longrightarrow> list_ex authenticates options) \<and>
    (case TLSFromConfig v of None \<Rightarrow> True | Some tls \<Rightarrow> secured_by tls options)"
proof -
  from assms(2) obtain pre post where "st_calls (snd (launch env probes ord v mode p)) = pre @ CallConnect url options # post"
    by (meson split_list)
  from launch_calls [OF assms(1) this] show ?thesis unfolding call_allowed.simps connection_ok_def uriKey_def by blast
qed


text \<open>A process that reports that it is ready is alive.\<close>

theorem ready_process_is_alive:
  assumes "list_all foreign (other_assemblies p)" "st_health (snd (launch env probes ord v mode p)) = Some r"
    "hs_Code (ReadinessHandler r w) = 200"
  shows "hs_Code (LivenessHandler r w) = 200"
  using launch_ok [OF assms(1)] assms(2,3) by (intro ready_implies_live) (auto simp: startup_ok_def health_ok_def)

text \<open>
  Two activity types can have the same queue: the dots of a type become dashes. An agent of one of them
  then gets the activities of the other. The type \<open>cfm-orchestration\<close> has the queue of the Provision Manager.
\<close>

lemma activity_types_share_queues:
  "valid_modeltype ''vendor.edcv'' \<and> valid_modeltype ''vendor-edcv'' \<and>
   setupSubjectConsumer ''vendor.edcv'' n = setupSubjectConsumer ''vendor-edcv'' n \<and>
   FilterSubject (setupSubjectConsumer ''cfm.orchestration'' n) = CFMOrchestrationSubject"
  by (simp add: setupSubjectConsumer_def sanitized_subject_def replace_char_def valid_modeltype_def is_alnum_def
      CFMOrchestrationSubject_def CFMOrchestration_def less_eq_char_def)

section \<open>Samples\<close>

definition quiet_assembly :: "string \<Rightarrow> 'w startup assembly" where
  "quiet_assembly name = default_assembly\<lparr>as_Name := name\<rparr>"

lemma quiet_foreign [simp]: "foreign (quiet_assembly name)"
  by (auto simp: foreign_def leaves_nats_def quiet_assembly_def default_assembly_def)

text \<open>A lifecycle agent in production mode with a token and TLS, and a server on which its stream does not exist.\<close>

definition sample_viper :: viper where
  "sample_viper =
     \<lparr>v_GetString = (\<lambda>k. if k = ''uri'' then ''nats://broker'' else if k = ''bucket'' then ''cfm'' else if k = ''stream'' then ''events''
        else if k = ''nats.auth.method'' then ''Token'' else if k = ''nats.auth.token'' then ''secret''
        else if k = ''nats.tls.ca'' then ''/ca.pem'' else []),
      v_GetBool = (\<lambda>k. k = ''createStream''), v_GetInt = (\<lambda>k. 0), v_GetDuration = (\<lambda>k. 0), v_GetStringSlice = (\<lambda>k. []),
      v_IsSet = (\<lambda>k. False)\<rparr>"

definition sample_env :: nats_env where
  "sample_env =
     \<lparr>ne_error = (\<lambda>h. case last h of CallStream conn name \<Rightarrow> Some (Sentinel ''jetstream.ErrStreamNotFound'') | _ \<Rightarrow> None),
      ne_connection = (\<lambda>h. Inr 1),
      ne_info = (\<lambda>h. Inr (new_stream ''events'' InterestPolicy [''events.a.>''])), ne_quote = (\<lambda>s. s)\<rparr>"

definition sample_agent :: "unit agent_launcher" where
  "sample_agent =
     \<lparr>al_AgentName = ''Key Management Agent'', al_ConfigPrefix = ''kmagent'', al_Assemblies = [quiet_assembly ''HttpClient''],
      al_Router = quiet_assembly ''Router'', al_NewProcessor = Returns ()\<rparr>"

definition sample_probes :: "unit probes" where
  "sample_probes = \<lparr>pb_connection = (\<lambda>conn w. None), pb_loop = (\<lambda>name w. (False, 1, 1))\<rparr>"

definition sample_launch :: "unit startup assembly list call_result \<times> unit startup" where
  "sample_launch = launch sample_env sample_probes (\<lambda>n ks. ks) sample_viper ProductionMode (LifecycleAgent sample_agent [''events.keypair.>''])"

lemma sample_foreign: "list_all foreign (other_assemblies (LifecycleAgent sample_agent ss))"
  by (simp add: sample_agent_def)

lemma sample_calls:
  "st_calls (snd sample_launch) =
     [CallStat ''/ca.pem'', CallConnect ''nats://broker'' (default_options @ [Secure, RootCAs ''/ca.pem'', Token ''secret'']),
      CallNewJetStream 1, CallKeyValue 1 ''cfm'', CallStream 1 ''events'',
      CallCreateStream 1 \<lparr>sm_Name = ''events'', sm_Retention = InterestPolicy, sm_Subjects = [''events.keypair.>''],
        sm_Storage = FileStorage, sm_Replicas = 1, sm_MaxAge = 0, sm_MaxBytes = - 1\<rparr>,
      CallInfo 1 ''events'', CallUpdateStream 1 (new_stream ''events'' InterestPolicy [''events.a.>'', ''events.keypair.>'']),
      CallConsumer 1 ''events'' \<lparr>sv_Durable = ''key-management-agent'', sv_FilterSubjects = [''events.keypair.>''],
        sv_AckWait = 30 * second, sv_MaxDeliver = 10\<rparr>]"
  by code_simp

theorem connections_as_configured_witness:
  "must_authenticate sample_viper ProductionMode \<and> TLSFromConfig sample_viper = Some \<lparr>tls_CAFile = ''/ca.pem'', tls_CertFile = [], tls_KeyFile = []\<rparr> \<and>
   (\<exists>options. CallConnect ''nats://broker'' options \<in> set (st_calls (snd sample_launch)) \<and> list_ex authenticates options \<and>
      Secure \<in> set options \<and> RootCAs ''/ca.pem'' \<in> set options)"
proof -
  let ?options = "default_options @ [Secure, RootCAs ''/ca.pem'', Token ''secret'']"
  have config: "must_authenticate sample_viper ProductionMode"
    "TLSFromConfig sample_viper = Some \<lparr>tls_CAFile = ''/ca.pem'', tls_CertFile = [], tls_KeyFile = []\<rparr>"
    by code_simp+
  have call: "CallConnect ''nats://broker'' ?options \<in> set (st_calls (snd sample_launch))"
    by (simp add: sample_calls)
  with connections_as_configured [OF sample_foreign call [unfolded sample_launch_def]] config show ?thesis
    by (auto simp: secured_by_def)
qed


end
