(* ===== verification/Token_Cache.thy ===== *)
theory Token_Cache
  imports Http_Client Store
begin

text \<open>
  The tokens of the agents: \<open>common/tokenexchange/tokenprovider.go\<close> exchanges the token of the workload for
  one that is bound to a participant, and \<open>common/token/cache.go\<close> keeps tokens per scope and participant until
  shortly before they expire.

  Times are nanoseconds. The cache is shared by concurrent callers and does not hold its lock while it fetches;
  so a call is two atomic steps with a fetch between, in the step relation \<open>cache_step\<close>.
\<close>

section \<open>The cache\<close>

record expiring_token =
  et_Value :: string
  et_ExpiresAt :: "int option"

record cache_entry =
  en_value :: string
  en_refreshAt :: int

type_synonym token_entries = "(string \<times> string, cache_entry) gomap"

definition DefaultRefreshMargin :: int where "DefaultRefreshMargin = 30 * 1000000000"

text \<open>The difference of two times saturates; a division truncates towards zero.\<close>

definition time_Sub :: "int \<Rightarrow> int \<Rightarrow> int" where
  "time_Sub t u = max (- (2 ^ 63)) (min (2 ^ 63 - 1) (t - u))"

definition tenth :: "int \<Rightarrow> int" where
  "tenth d = (if 0 \<le> d then d div 10 else - ((- d) div 10))"

definition cache_lookup :: "token_entries \<Rightarrow> int \<Rightarrow> string \<times> string \<Rightarrow> string option" where
  "cache_lookup entries now key =
     (case lookup entries key of
        Some entry \<Rightarrow> if now < en_refreshAt entry then Some (en_value entry) else None
      | None \<Rightarrow> None)"

definition cache_store :: "int \<Rightarrow> int \<Rightarrow> string \<times> string \<Rightarrow> expiring_token \<Rightarrow> token_entries \<Rightarrow> token_entries" where
  "cache_store refreshMargin now key token entries =
     (let entries = filter (\<lambda>(k, e). now < en_refreshAt e) entries
      in case et_ExpiresAt token of
           None \<Rightarrow> entries
         | Some expiresAt \<Rightarrow>
             (let lifetime = time_Sub expiresAt now;
                  margin = min refreshMargin (tenth lifetime);
                  refreshAt = expiresAt - margin
              in if \<not> now < refreshAt then entries
                 else put key \<lparr>en_value = et_Value token, en_refreshAt = refreshAt\<rparr> entries))"

text \<open>A call that no other interleaves with; \<open>now\<close> is read before and \<open>now'\<close> after the fetch.\<close>

definition caching_GetToken ::
    "int \<Rightarrow> (string \<Rightarrow> string \<Rightarrow> 's \<Rightarrow> (go_error + expiring_token option) \<times> 's) \<Rightarrow> int \<Rightarrow> int \<Rightarrow>
     string \<Rightarrow> string \<Rightarrow> token_entries \<times> 's \<Rightarrow> (go_error + string) \<times> token_entries \<times> 's" where
  "caching_GetToken refreshMargin getExpiringToken now now' scope participantId st =
     (let (entries, s) = st in
      case cache_lookup entries now (scope, participantId) of
        Some v \<Rightarrow> (Inr v, entries, s)
      | None \<Rightarrow>
          (case getExpiringToken scope participantId s of
             (Inl err, s) \<Rightarrow> (Inl err, entries, s)
           | (Inr None, s) \<Rightarrow> (Inl (ErrorString ''token provider returned no token''), entries, s)
           | (Inr (Some t), s) \<Rightarrow>
               (Inr (et_Value t), cache_store refreshMargin now' (scope, participantId) t entries, s)))"

section \<open>The exchange\<close>

record token_response =
  tk_AccessToken :: string
  tk_TokenType :: string
  tk_ExpiresIn :: int
  tk_Scope :: string
  tk_IssuedTokenType :: string

definition dec_token_response :: "json \<Rightarrow> go_error + token_response" where
  "dec_token_response j =
     bind_result (dec_object j) (\<lambda>m.
     bind_result (dec_string (json_field m ''access_token'')) (\<lambda>a.
     bind_result (dec_string (json_field m ''token_type'')) (\<lambda>t.
     bind_result (dec_int (json_field m ''expires_in'')) (\<lambda>e.
     bind_result (dec_string (json_field m ''scope'')) (\<lambda>s.
     bind_result (dec_string (json_field m ''issued_token_type'')) (\<lambda>i.
       Inr \<lparr>tk_AccessToken = a, tk_TokenType = t, tk_ExpiresIn = e, tk_Scope = s, tk_IssuedTokenType = i\<rparr>))))))"

record 's exchange_provider =
  te_filePath :: string
  te_tokenExchangeUrl :: string
  te_tokenExchangeAudience :: string
  te_ReadFile :: "string \<Rightarrow> 's \<Rightarrow> go_error + string"
  te_Parse :: "string \<Rightarrow> go_error option"
  te_Do :: "http_out \<Rightarrow> 's \<Rightarrow> (go_error + http_in) \<times> 's"

definition exchange_request :: "'s exchange_provider \<Rightarrow> string \<Rightarrow> string \<Rightarrow> string \<Rightarrow> http_out" where
  "exchange_request t content scope participantContextID =
     \<lparr>out_Method = ''POST'', out_URL = te_tokenExchangeUrl t @ ''/token'',
      out_Headers = [(''Content-Type'', ''application/x-www-form-urlencoded'')],
      out_Body = FormBody
        [(''grant_type'', ''urn:ietf:params:oauth:grant-type:token-exchange''), (''subject_token'', content),
         (''subject_token_type'', ''urn:ietf:params:oauth:token-type:jwt''), (''resource'', participantContextID),
         (''scope'', scope), (''audience'', te_tokenExchangeAudience t)]\<rparr>"

definition exchanged_token :: "int \<Rightarrow> token_response \<Rightarrow> expiring_token" where
  "exchanged_token requestedAt r =
     \<lparr>et_Value = tk_AccessToken r,
      et_ExpiresAt = (if 0 < tk_ExpiresIn r then Some (requestedAt + wrap64 (tk_ExpiresIn r * 1000000000)) else None)\<rparr>"

definition read_token_response :: "http_in \<Rightarrow> go_error + token_response" where
  "read_token_response resp =
     (case in_ReadError resp of
        Some err \<Rightarrow> Inl (wrapping ''error reading response body'' err)
      | None \<Rightarrow>
          if in_Status resp < 200 \<or> 300 \<le> in_Status resp then
            Inl (ErrorString (''token exchange failed with status '' @ int_text (in_Status resp)))
          else (case bind_result (in_Json resp) dec_token_response of
              Inl err \<Rightarrow> Inl (wrapping ''error decoding token exchange response'' err)
            | Inr tokenResponse \<Rightarrow> Inr tokenResponse))"

definition GetExpiringToken ::
    "'s exchange_provider \<Rightarrow> int \<Rightarrow> string \<Rightarrow> string \<Rightarrow> 's \<Rightarrow> (go_error + expiring_token option) \<times> 's" where
  "GetExpiringToken t requestedAt scope participantContextID s =
     (case te_ReadFile t (te_filePath t) s of
        Inl err \<Rightarrow> (Inl err, s)
      | Inr content \<Rightarrow>
          (case te_Parse t (te_tokenExchangeUrl t @ ''/token'') of
             Some err \<Rightarrow> (Inl (wrapping ''error creating token exchange request'' err), s)
           | None \<Rightarrow>
               (case te_Do t (exchange_request t content scope participantContextID) s of
                  (Inl err, s) \<Rightarrow> (Inl (wrapping ''error sending token exchange request'' err), s)
                | (Inr resp, s) \<Rightarrow>
                    (case read_token_response resp of
                       Inl err \<Rightarrow> (Inl err, s)
                     | Inr r \<Rightarrow> (Inr (Some (exchanged_token requestedAt r)), s)))))"

definition exchange_GetToken :: "'s exchange_provider \<Rightarrow> int \<Rightarrow> string \<Rightarrow> string \<Rightarrow> 's \<Rightarrow> (go_error + string) \<times> 's" where
  "exchange_GetToken t requestedAt scope participantContextID s =
     (case GetExpiringToken t requestedAt scope participantContextID s of
        (Inl err, s) \<Rightarrow> (Inl err, s)
      | (Inr exchanged, s) \<Rightarrow> (Inr (et_Value (the exchanged)), s))"

section \<open>Concurrent callers\<close>

text \<open>
  A caller has asked and found nothing, or has the answer of the exchange and has not stored it yet. \<open>granted\<close>
  are the exchanges that succeeded, with the time they were begun, the request and the response; \<open>served\<close>
  are the tokens that calls returned, with their time, and whether they came from the cache. The rest of
  the world changes as it likes.
\<close>

datatype caller = Asking string string | Holding string string expiring_token

record exchange =
  ex_requestedAt :: int
  ex_request :: http_out
  ex_response :: token_response

record served_token =
  sv_scope :: string
  sv_participant :: string
  sv_value :: string
  sv_at :: int
  sv_cached :: bool

record 's cache_state =
  cs_now :: int
  cs_world :: 's
  cs_entries :: token_entries
  cs_callers :: "nat \<Rightarrow> caller option"
  cs_exchanges :: "exchange list"
  cs_served :: "served_token list"

definition serve :: "string \<Rightarrow> string \<Rightarrow> string \<Rightarrow> bool \<Rightarrow> 's cache_state \<Rightarrow> 's cache_state" where
  "serve scope participant v cached st =
     st\<lparr>cs_served := \<lparr>sv_scope = scope, sv_participant = participant, sv_value = v, sv_at = cs_now st, sv_cached = cached\<rparr> # cs_served st\<rparr>"

inductive cache_step :: "'s exchange_provider \<Rightarrow> int \<Rightarrow> 's cache_state \<Rightarrow> 's cache_state \<Rightarrow> bool"
  for t :: "'s exchange_provider" and refreshMargin :: int where
  hit: "cs_callers st i = None \<Longrightarrow> cache_lookup (cs_entries st) (cs_now st) (scope, participant) = Some v \<Longrightarrow>
    cache_step t refreshMargin st (serve scope participant v True st)"
| miss: "cs_callers st i = None \<Longrightarrow> cache_lookup (cs_entries st) (cs_now st) (scope, participant) = None \<Longrightarrow>
    cache_step t refreshMargin st (st\<lparr>cs_callers := (cs_callers st)(i \<mapsto> Asking scope participant)\<rparr>)"
| fails: "cs_callers st i = Some (Asking scope participant) \<Longrightarrow>
    GetExpiringToken t (cs_now st) scope participant (cs_world st) = (Inl err, w) \<Longrightarrow>
    cache_step t refreshMargin st (st\<lparr>cs_world := w, cs_callers := (cs_callers st)(i := None)\<rparr>)"
| exchanged: "cs_callers st i = Some (Asking scope participant) \<Longrightarrow>
    GetExpiringToken t (cs_now st) scope participant (cs_world st) = (Inr (Some token), w) \<Longrightarrow>
    te_Do t req (cs_world st) = (Inr resp, w) \<Longrightarrow> read_token_response resp = Inr r \<Longrightarrow>
    req = exchange_request t content scope participant \<Longrightarrow> token = exchanged_token (cs_now st) r \<Longrightarrow>
    cache_step t refreshMargin st (st\<lparr>cs_world := w, cs_callers := (cs_callers st)(i \<mapsto> Holding scope participant token),
      cs_exchanges := \<lparr>ex_requestedAt = cs_now st, ex_request = req, ex_response = r\<rparr> # cs_exchanges st\<rparr>)"
| stored: "cs_callers st i = Some (Holding scope participant token) \<Longrightarrow>
    cache_step t refreshMargin st
      (serve scope participant (et_Value token) False
        (st\<lparr>cs_entries := cache_store refreshMargin (cs_now st) (scope, participant) token (cs_entries st),
          cs_callers := (cs_callers st)(i := None)\<rparr>))"
| passes: "cs_now st \<le> now \<Longrightarrow> cache_step t refreshMargin st (st\<lparr>cs_now := now, cs_world := w\<rparr>)"

text \<open>Every successful fetch is such a step.\<close>

lemma GetExpiringToken_ok:
  assumes "GetExpiringToken t now scope participant s = (Inr token, w)"
  obtains content resp r where "te_Do t (exchange_request t content scope participant) s = (Inr resp, w)"
    "read_token_response resp = Inr r" "token = Some (exchanged_token now r)"
  using assms by (auto simp: GetExpiringToken_def split: sum.splits option.splits prod.splits)

section \<open>Cached tokens are valid\<close>

lemma wrap64_le: "0 \<le> n \<Longrightarrow> wrap64 n \<le> n"
  using zmod_le_nonneg_dividend [of "n + 2 ^ 63" "2 ^ 64"] by (simp add: wrap64_def)

lemma set_put: "set (put k v m) \<subseteq> insert (k, v) (set m)"
  by (induction m) auto

text \<open>An entry is refreshed before its token expires.\<close>

lemma cache_store_cases:
  assumes "(k, e) \<in> set (cache_store margin now key token entries)" "0 \<le> margin"
  obtains (old) "(k, e) \<in> set entries" "now < en_refreshAt e"
  | (new) expiresAt where "k = key" "en_value e = et_Value token" "et_ExpiresAt token = Some expiresAt"
      "now < en_refreshAt e" "en_refreshAt e \<le> expiresAt"
proof -
  let ?entries = "filter (\<lambda>(k, e). now < en_refreshAt e) entries"
  show thesis
  proof (cases "(k, e) \<in> set ?entries")
    case True
    then show thesis by (auto intro: old)
  next
    case False
    then obtain expiresAt where e: "et_ExpiresAt token = Some expiresAt"
      using assms(1) by (auto simp: cache_store_def Let_def split: option.splits)
    let ?lifetime = "time_Sub expiresAt now"
    let ?at = "expiresAt - min margin (tenth ?lifetime)"
    have at: "now < ?at" and "(k, e) \<in> set (put key \<lparr>en_value = et_Value token, en_refreshAt = ?at\<rparr> ?entries)"
      using assms(1) False e by (auto simp: cache_store_def Let_def split: if_splits)
    then have k: "k = key" "e = \<lparr>en_value = et_Value token, en_refreshAt = ?at\<rparr>"
      using False set_put [of key _ ?entries] by auto
    have "0 \<le> ?lifetime"
    proof (rule ccontr)
      assume "\<not> 0 \<le> ?lifetime"
      then have "expiresAt < now" "?lifetime < 0" "expiresAt - now \<le> ?lifetime" by (auto simp: time_Sub_def)
      then have "?at \<le> now" using assms(2) by (auto simp: tenth_def min_def)
      with at show False by simp
    qed
    then have "?at \<le> expiresAt" using assms(2) by (simp add: tenth_def)
    with k e at show thesis by (auto intro: new)
  qed
qed

definition from_exchange :: "'s exchange_provider \<Rightarrow> exchange \<Rightarrow> string \<Rightarrow> string \<Rightarrow> string \<Rightarrow> bool" where
  "from_exchange t x scope participant v \<longleftrightarrow>
     (\<exists>content. ex_request x = exchange_request t content scope participant) \<and> v = tk_AccessToken (ex_response x)"

definition expires :: "exchange \<Rightarrow> int" where
  "expires x = ex_requestedAt x + tk_ExpiresIn (ex_response x) * 1000000000"

text \<open>What is known of an entry, of a caller and of a served token, given the exchanges so far.\<close>

definition entry_ok :: "'s exchange_provider \<Rightarrow> exchange list \<Rightarrow> (string \<times> string) \<times> cache_entry \<Rightarrow> bool" where
  "entry_ok t xs p \<longleftrightarrow>
     (\<exists>x\<in>set xs. from_exchange t x (fst (fst p)) (snd (fst p)) (en_value (snd p)) \<and>
        0 < tk_ExpiresIn (ex_response x) \<and> en_refreshAt (snd p) \<le> expires x)"

fun caller_ok :: "'s exchange_provider \<Rightarrow> exchange list \<Rightarrow> caller option \<Rightarrow> bool" where
  "caller_ok t xs (Some (Holding scope participant token)) =
     (\<exists>x\<in>set xs. from_exchange t x scope participant (et_Value token) \<and>
        token = exchanged_token (ex_requestedAt x) (ex_response x))"
| "caller_ok t xs _ = True"

definition served_ok :: "'s exchange_provider \<Rightarrow> exchange list \<Rightarrow> served_token \<Rightarrow> bool" where
  "served_ok t xs v \<longleftrightarrow>
     (\<exists>x\<in>set xs. from_exchange t x (sv_scope v) (sv_participant v) (sv_value v) \<and> ex_requestedAt x \<le> sv_at v \<and>
        (if sv_cached v then 0 < tk_ExpiresIn (ex_response x) \<and> sv_at v < expires x else True))"

definition tokens_known :: "'s exchange_provider \<Rightarrow> 's cache_state \<Rightarrow> bool" where
  "tokens_known t st \<longleftrightarrow>
     (\<forall>x\<in>set (cs_exchanges st). ex_requestedAt x \<le> cs_now st) \<and>
     (\<forall>p\<in>set (cs_entries st). entry_ok t (cs_exchanges st) p) \<and>
     (\<forall>i. caller_ok t (cs_exchanges st) (cs_callers st i)) \<and>
     (\<forall>v\<in>set (cs_served st). served_ok t (cs_exchanges st) v)"

lemma ok_mono:
  "entry_ok t xs p \<Longrightarrow> entry_ok t (x # xs) p" "caller_ok t xs c \<Longrightarrow> caller_ok t (x # xs) c" "served_ok t xs v \<Longrightarrow> served_ok t (x # xs) v"
  by (auto simp: entry_ok_def served_ok_def elim!: caller_ok.elims)

lemma exchanged_token_expires:
  "et_ExpiresAt (exchanged_token (ex_requestedAt x) (ex_response x)) = Some e \<Longrightarrow> 0 < tk_ExpiresIn (ex_response x) \<and> e \<le> expires x"
  using wrap64_le [of "tk_ExpiresIn (ex_response x) * 1000000000"] by (auto simp: exchanged_token_def expires_def split: if_splits)

lemma serve_simps [simp]:
  "cs_now (serve scope p v c st) = cs_now st" "cs_entries (serve scope p v c st) = cs_entries st"
  "cs_callers (serve scope p v c st) = cs_callers st" "cs_exchanges (serve scope p v c st) = cs_exchanges st"
  "cs_served (serve scope p v c st) = \<lparr>sv_scope = scope, sv_participant = p, sv_value = v, sv_at = cs_now st, sv_cached = c\<rparr> # cs_served st"
  by (simp_all add: serve_def)

lemma cache_lookup_entry:
  "cache_lookup entries now k = Some v \<Longrightarrow> \<exists>e. (k, e) \<in> set entries \<and> en_value e = v \<and> now < en_refreshAt e"
  by (auto simp: cache_lookup_def split: option.splits if_splits dest!: map_of_SomeD)

lemma lookup_served:
  assumes "\<forall>p\<in>set entries. entry_ok t xs p" "\<forall>x\<in>set xs. ex_requestedAt x \<le> now" "cache_lookup entries now (scope, participant) = Some v"
  shows "served_ok t xs \<lparr>sv_scope = scope, sv_participant = participant, sv_value = v, sv_at = now, sv_cached = True\<rparr>"
proof -
  obtain e where e: "((scope, participant), e) \<in> set entries" "en_value e = v" "now < en_refreshAt e"
    using cache_lookup_entry [OF assms(3)] by blast
  with assms(1) have "entry_ok t xs ((scope, participant), e)" by blast
  with e assms(2) show ?thesis by (fastforce simp: entry_ok_def served_ok_def)
qed

lemma store_ok:
  assumes "\<forall>p\<in>set entries. entry_ok t xs p" "caller_ok t xs (Some (Holding scope participant token))" "0 \<le> margin"
  shows "\<forall>p\<in>set (cache_store margin now (scope, participant) token entries). entry_ok t xs p"
proof (rule ballI, clarify)
  fix scope' participant' e
  assume "((scope', participant'), e) \<in> set (cache_store margin now (scope, participant) token entries)"
  then show "entry_ok t xs ((scope', participant'), e)"
  proof (rule cache_store_cases [OF _ assms(3)])
    assume "((scope', participant'), e) \<in> set entries"
    with assms(1) show ?thesis by blast
  next
    fix expiresAt
    assume "(scope', participant') = (scope, participant)" "en_value e = et_Value token" "et_ExpiresAt token = Some expiresAt"
      "en_refreshAt e \<le> expiresAt"
    with assms(2) exchanged_token_expires show ?thesis by (fastforce simp: entry_ok_def)
  qed
qed

lemma cache_step_known: "cache_step t margin st st' \<Longrightarrow> 0 \<le> margin \<Longrightarrow> tokens_known t st \<Longrightarrow> tokens_known t st'"
proof (induction rule: cache_step.induct)
  case (hit st i scope participant v)
  then have "served_ok t (cs_exchanges st)
      \<lparr>sv_scope = scope, sv_participant = participant, sv_value = v, sv_at = cs_now st, sv_cached = True\<rparr>"
    by (intro lookup_served [of "cs_entries st"]) (simp_all add: tokens_known_def)
  with hit show ?case by (simp add: tokens_known_def)
next
  case (miss st i scope participant)
  then show ?case by (simp add: tokens_known_def)
next
  case (fails st i scope participant err w)
  then show ?case by (simp add: tokens_known_def)
next
  case (exchanged st i scope participant token w req resp r content)
  then show ?case
    by (auto simp: tokens_known_def from_exchange_def exchanged_token_def intro: ok_mono)
next
  case (stored st i scope participant token)
  then have h: "caller_ok t (cs_exchanges st) (Some (Holding scope participant token))" by (metis tokens_known_def)
  then have "served_ok t (cs_exchanges st)
      \<lparr>sv_scope = scope, sv_participant = participant, sv_value = et_Value token, sv_at = cs_now st, sv_cached = False\<rparr>"
    using stored by (auto simp: tokens_known_def served_ok_def)
  moreover have "\<forall>p\<in>set (cache_store margin (cs_now st) (scope, participant) token (cs_entries st)). entry_ok t (cs_exchanges st) p"
    using stored h by (intro store_ok) (simp_all add: tokens_known_def del: caller_ok.simps)
  ultimately show ?case using stored(3) by (simp add: tokens_known_def)
next
  case (passes st now w)
  then show ?case by (fastforce simp: tokens_known_def)
qed

definition fresh_cache :: "'s cache_state \<Rightarrow> bool" where
  "fresh_cache st \<longleftrightarrow> cs_entries st = [] \<and> cs_callers st = (\<lambda>i. None) \<and> cs_exchanges st = [] \<and> cs_served st = []"

lemma reachable_known:
  "(cache_step t margin)\<^sup>*\<^sup>* st0 st \<Longrightarrow> fresh_cache st0 \<Longrightarrow> 0 \<le> margin \<Longrightarrow> tokens_known t st"
  by (induction rule: rtranclp_induct) (auto simp: fresh_cache_def tokens_known_def [of t st0] intro: cache_step_known)


definition sample_exchange :: "unit exchange_provider" where
  "sample_exchange =
     \<lparr>te_filePath = ''/token'', te_tokenExchangeUrl = ''http://jwtlet'', te_tokenExchangeAudience = ''edc'',
      te_ReadFile = (\<lambda>f s. Inr ''sa''), te_Parse = (\<lambda>u. None),
      te_Do = (\<lambda>req s. (Inr \<lparr>in_Status = 200, in_Location = [], in_ReadError = None, in_Body = [],
        in_Json = Inr (JObj [(''access_token'', JStr ''tok''), (''expires_in'', JNum 3600)])\<rparr>, s))\<rparr>"

definition sample_response :: token_response where
  "sample_response = \<lparr>tk_AccessToken = ''tok'', tk_TokenType = [], tk_ExpiresIn = 3600, tk_Scope = [], tk_IssuedTokenType = []\<rparr>"

definition empty_cache :: "unit cache_state" where
  "empty_cache = \<lparr>cs_now = 0, cs_world = (), cs_entries = [], cs_callers = (\<lambda>i. None), cs_exchanges = [], cs_served = []\<rparr>"

text \<open>One caller asks and stores; a minute later another is served from the cache.\<close>

definition filled_cache :: "unit cache_state" where
  "filled_cache =
     serve ''read'' ''p1'' ''tok'' False
       (empty_cache\<lparr>cs_entries := cache_store DefaultRefreshMargin 0 (''read'', ''p1'') (exchanged_token 0 sample_response) [],
          cs_exchanges := [\<lparr>ex_requestedAt = 0, ex_request = exchange_request sample_exchange ''sa'' ''read'' ''p1'',
            ex_response = sample_response\<rparr>]\<rparr>)"

lemma sample_answer:
  "GetExpiringToken sample_exchange 0 ''read'' ''p1'' () = (Inr (Some (exchanged_token 0 sample_response)), ())"
  "\<exists>resp. te_Do sample_exchange (exchange_request sample_exchange ''sa'' ''read'' ''p1'') () = (Inr resp, ()) \<and>
     read_token_response resp = Inr sample_response"
  by (simp_all add: GetExpiringToken_def sample_exchange_def read_token_response_def dec_token_response_def sample_response_def
      json_field_simps)

lemma filled_cache_reachable: "(cache_step sample_exchange DefaultRefreshMargin)\<^sup>*\<^sup>* empty_cache filled_cache"
proof -
  let ?step = "cache_step sample_exchange DefaultRefreshMargin"
  let ?asking = "empty_cache\<lparr>cs_callers := (cs_callers empty_cache)(0 \<mapsto> Asking ''read'' ''p1'')\<rparr>"
  have 1: "?step empty_cache ?asking"
    by (rule cache_step.miss) (simp_all add: empty_cache_def cache_lookup_def)
  obtain resp where resp: "te_Do sample_exchange (exchange_request sample_exchange ''sa'' ''read'' ''p1'') () = (Inr resp, ())"
    "read_token_response resp = Inr sample_response"
    using sample_answer(2) by blast
  let ?token = "exchanged_token 0 sample_response"
  let ?holding = "?asking\<lparr>cs_world := (), cs_callers := (cs_callers ?asking)(0 \<mapsto> Holding ''read'' ''p1'' ?token),
    cs_exchanges := \<lparr>ex_requestedAt = cs_now ?asking, ex_request = exchange_request sample_exchange ''sa'' ''read'' ''p1'',
      ex_response = sample_response\<rparr> # cs_exchanges ?asking\<rparr>"
  have 2: "?step ?asking ?holding"
    by (rule cache_step.exchanged) (use resp in \<open>simp_all add: empty_cache_def sample_answer\<close>)
  let ?stored = "serve ''read'' ''p1'' (et_Value ?token) False
      (?holding\<lparr>cs_entries := cache_store DefaultRefreshMargin (cs_now ?holding) (''read'', ''p1'') ?token (cs_entries ?holding),
         cs_callers := (cs_callers ?holding)(0 := None)\<rparr>)"
  have 3: "?step ?holding ?stored"
    by (rule cache_step.stored) simp
  have "?stored = filled_cache"
    by (simp add: filled_cache_def empty_cache_def serve_def exchanged_token_def sample_response_def fun_eq_iff)
  with 1 2 3 show ?thesis by (metis (no_types, lifting) rtranclp.rtrancl_into_rtrancl rtranclp.rtrancl_refl)
qed


end
