(* ===== verification/Agent_Launchers.thy ===== *)
theory Agent_Launchers
  imports Startup_Safety Agents_Confined Token_Cache
begin

text \<open>
  The processors that the launchers of the agents build from their configuration
  (\<open>agent/orchestration/*/launcher/launcher.go\<close>, \<open>agent/lifecycle/keymanagementagent/launcher/launcher.go\<close>), with
  the token provider of every agent: the token exchange behind a cache.
\<close>

section \<open>The token provider\<close>

text \<open>What a process uses of its machine: files, the network, the clock and the parsing of URLs.\<close>

record 's machine =
  mc_ReadFile :: "string \<Rightarrow> 's \<Rightarrow> go_error + string"
  mc_Do :: "http_out \<Rightarrow> 's \<Rightarrow> (go_error + http_in) \<times> 's"
  mc_Parse :: "string \<Rightarrow> go_error + string"
  mc_now :: "'s \<Rightarrow> int"

definition launcher_provider :: "viper \<Rightarrow> 's machine \<Rightarrow> 's exchange_provider" where
  "launcher_provider v mc =
     \<lparr>te_filePath = v_GetString v ''tokenexchange.tokenFilePath'',
      te_tokenExchangeUrl = v_GetString v ''tokenexchange.url'',
      te_tokenExchangeAudience = v_GetString v ''tokenexchange.audience'', te_ReadFile = mc_ReadFile mc,
      te_Parse = (\<lambda>url. case mc_Parse mc url of Inl err \<Rightarrow> Some err | Inr _ \<Rightarrow> None), te_Do = mc_Do mc\<rparr>"

text \<open>A token is stored in the cache at the time when its exchange has ended.\<close>

definition launcher_GetToken ::
    "viper \<Rightarrow> 's machine \<Rightarrow> string \<Rightarrow> string \<Rightarrow> token_entries \<times> 's \<Rightarrow> (go_error + string) \<times> token_entries \<times> 's" where
  "launcher_GetToken v mc scope participantContextID st =
     (let exchange = GetExpiringToken (launcher_provider v mc) (mc_now mc (snd st))
      in caching_GetToken DefaultRefreshMargin exchange (mc_now mc (snd st))
           (mc_now mc (snd (exchange scope participantContextID (snd st)))) scope participantContextID st)"

definition launcher_net :: "viper \<Rightarrow> 's machine \<Rightarrow> (token_entries \<times> 's) net" where
  "launcher_net v mc =
     \<lparr>tp_GetToken = launcher_GetToken v mc,
      http_Do = (\<lambda>req (entries, s). case mc_Do mc req s of (r, s) \<Rightarrow> (r, entries, s)), url_Parse = mc_Parse mc\<rparr>"

section \<open>The processors\<close>

definition launcher_config :: "viper \<Rightarrow> agent_config" where
  "launcher_config v =
     \<lparr>controlplane_url = v_GetString v ''controlplane.url'', identityhub_url = v_GetString v ''identityhub.url'',
      siglet_management_url = v_GetString v ''siglet.management.url'',
      siglet_signaling_url = v_GetString v ''siglet.signaling.url'',
      issuerservice_url = v_GetString v ''issuerservice.url'', issuerservice_id = v_GetString v ''issuer.id'',
      certo_url = v_GetString v ''certo.url'', vault_url = v_GetString v ''vault.url'',
      credentialservice_template = v_GetString v ''identityhub.cs.url'',
      protocolservice_template = v_GetString v ''controlplane.protocol.url'',
      dataservice_template = v_GetString v ''controlplane.dataservice.url'',
      siglet_authorization =
        \<lparr>ac_TokenExchangeEndpoint = v_GetString v ''tokenexchange.url'' @ ''/token'',
         ac_Issuer = v_GetString v ''tokenexchange.issuer'', ac_JwksUri = v_GetString v ''tokenexchange.jwksUri'',
         ac_Scope = v_GetString v ''tokenexchange.scope''\<rparr>\<rparr>"

definition required :: "viper \<Rightarrow> string list \<Rightarrow> 'p \<Rightarrow> 'p call_result" where
  "required v ks p =
     (case CheckRequiredParams (concat (map (\<lambda>k. [ParamString k, ParamString (v_GetString v k)]) ks)) of
        Some err \<Rightarrow> Panics (error_text err)
      | None \<Rightarrow> Returns p)"

definition ih_NewProcessor :: "viper \<Rightarrow> 's machine \<Rightarrow> (token_entries \<times> 's) ih_processor call_result" where
  "ih_NewProcessor v mc = required v [''identityhub.url''] (ih_agent (launcher_net v mc) (launcher_config v))"

definition registration_NewProcessor ::
    "(json \<Rightarrow> go_error + int) \<Rightarrow> viper \<Rightarrow> 's machine \<Rightarrow> (token_entries \<times> 's) issuer_api call_result" where
  "registration_NewProcessor dec_time v mc =
     required v [''issuerservice.url'', ''issuer.id''] (issuer_client dec_time (launcher_net v mc) (launcher_config v))"

definition certo_NewProcessor :: "viper \<Rightarrow> 's machine \<Rightarrow> ((token_entries \<times> 's) net \<times> string) call_result" where
  "certo_NewProcessor v mc = required v [''certo.url''] (launcher_net v mc, certo_url (launcher_config v))"

definition edcv_NewProcessor :: "viper \<Rightarrow> 's machine \<Rightarrow> (token_entries \<times> 's) edcv_processor call_result" where
  "edcv_NewProcessor v mc = required v [''controlplane.url''] (edcv_agent (launcher_net v mc) (launcher_config v))"

definition siglet_NewProcessor :: "viper \<Rightarrow> 's machine \<Rightarrow> (token_entries \<times> 's) siglet_processor call_result" where
  "siglet_NewProcessor v mc =
     required v [''siglet.management.url'', ''siglet.signaling.url'', ''controlplane.url'', ''tokenexchange.url'',
       ''tokenexchange.tokenFilePath'', ''tokenexchange.audience''] (siglet_agent (launcher_net v mc) (launcher_config v))"

definition onboarding_NewProcessor ::
    "(json \<Rightarrow> go_error + int) \<Rightarrow> viper \<Rightarrow> 's machine \<Rightarrow> (token_entries \<times> 's) onboarding_processor call_result" where
  "onboarding_NewProcessor dec_time v mc =
     required v [''identityhub.url''] (onboarding_agent dec_time (launcher_net v mc) (launcher_config v))"

definition keymanagement_NewProcessor :: "viper \<Rightarrow> 's machine \<Rightarrow> (token_entries \<times> 's) key_processor call_result" where
  "keymanagement_NewProcessor v mc =
     required v [''siglet.management.url'', ''controlplane.management.url'']
       (http_key_processor (launcher_net v mc) (v_GetString v ''siglet.management.url'')
          (v_GetString v ''controlplane.management.url''))"

section \<open>The token exchange agent\<close>

text \<open>The client mappings are not configured, a text with JSON, or a list that \<open>viper\<close> decodes.\<close>

datatype mapping_source = NoMappings | JsonMappings string | StructuredMappings "go_error + client_mapping list"

definition dec_client_mapping :: "json \<Rightarrow> go_error + client_mapping" where
  "dec_client_mapping j =
     bind_result (dec_object j) (\<lambda>m.
     bind_result (dec_field dec_string m ''name'') (\<lambda>n.
     bind_result (dec_field dec_strings m ''scopes'') (\<lambda>s.
       Inr \<lparr>cl_Name = n, cl_Scopes = s\<rparr>)))"

fun check_mappings :: "(string \<Rightarrow> string) \<Rightarrow> string list \<Rightarrow> client_mapping list \<Rightarrow> go_error option" where
  "check_mappings q seen [] = None"
| "check_mappings q seen (m # ms) =
     (if cl_Name m = [] then Some (ErrorString ''error reading clientmappings: service account name is empty'')
      else if length (cl_Scopes m) = 0 then
        Some (ErrorString (''error reading clientmappings: service account '' @ q (cl_Name m) @ '' has no scopes''))
      else if cl_Name m \<in> set seen then
        Some (ErrorString (''error reading clientmappings: service account '' @ q (cl_Name m) @ '' is mapped more than once''))
      else check_mappings q (cl_Name m # seen) ms)"

definition validateClientMappings :: "(string \<Rightarrow> string) \<Rightarrow> client_mapping list \<Rightarrow> go_error option" where
  "validateClientMappings q mappings =
     (if length mappings = 0 then
        Some (ErrorString ''error reading clientmappings: no client mappings configured; remove the key to use the defaults'')
      else check_mappings q [] mappings)"

definition parseClientMappings ::
    "(string \<Rightarrow> string) \<Rightarrow> (string \<Rightarrow> go_error + json) \<Rightarrow> mapping_source \<Rightarrow> go_error + client_mapping list" where
  "parseClientMappings q parse source =
     (let checked = (\<lambda>mappings. case validateClientMappings q mappings of Some err \<Rightarrow> Inl err | None \<Rightarrow> Inr mappings)
      in case source of
           NoMappings \<Rightarrow> Inr []
         | JsonMappings raw \<Rightarrow>
             (case bind_result (parse raw) (dec_list dec_client_mapping) of
                Inl err \<Rightarrow> Inl (WrapError (''error reading clientmappings: '' @ q raw @
                  '' is not a JSON list of client mappings: '' @ error_text err) err)
              | Inr mappings \<Rightarrow> checked mappings)
         | StructuredMappings (Inl err) \<Rightarrow> Inl (WrapError (''error reading clientmappings: '' @ error_text err) err)
         | StructuredMappings (Inr mappings) \<Rightarrow> checked mappings)"

definition jwtlet_agent_NewProcessor ::
    "(string \<Rightarrow> string) \<Rightarrow> jwtlet_lib \<Rightarrow> mapping_source \<Rightarrow> viper \<Rightarrow> 's machine \<Rightarrow> (token_entries \<times> 's) jwtlet_processor call_result" where
  "jwtlet_agent_NewProcessor q lib source v mc =
     (case required v [''tokenexchange.url'', ''tokenexchange.tokenFilePath'', ''management.url''] () of
        Fails err \<Rightarrow> Fails err
      | Panics reason \<Rightarrow> Panics reason
      | Returns _ \<Rightarrow>
          (case parseClientMappings q (jl_json lib) source of
             Inl err \<Rightarrow> Panics (error_text err)
           | Inr clientMappings \<Rightarrow>
               Returns (jwtlet_NewProcessor (launcher_net v mc) (\<lambda>path (entries, s). mc_ReadFile mc path s) lib
                 (v_GetString v ''management.url'') (v_GetString v ''tokenexchange.tokenFilePath'')
                 (v_GetString v ''tokenexchange.audience'')
                 (if v_IsSet v ''serviceaccount.namespace'' then v_GetString v ''serviceaccount.namespace'' else ''edc-v'')
                 clientMappings)))"

section \<open>The HTTP client of an agent\<close>

definition GetConfigIntOrDefault :: "viper \<Rightarrow> string \<Rightarrow> int \<Rightarrow> int" where
  "GetConfigIntOrDefault v key defaultValue = (if \<not> v_IsSet v key then defaultValue else v_GetInt v key)"

record http_client_config =
  hc_retryMax :: int
  hc_retryWaitMin :: int
  hc_retryWaitMax :: int
  hc_timeout :: int

definition http_client_settings :: "viper \<Rightarrow> http_client_config" where
  "http_client_settings v =
     \<lparr>hc_retryMax = GetConfigIntOrDefault v ''httpclient.retrymax'' 5,
      hc_retryWaitMin = GetConfigIntOrDefault v ''httpclient.retrywaitmin'' 1 * second,
      hc_retryWaitMax = GetConfigIntOrDefault v ''httpclient.retrywaitmax'' 5 * second,
      hc_timeout = GetConfigIntOrDefault v ''httpclient.timeout'' 30 * second\<rparr>"

text \<open>Whether a request is sent again: the error of the context, the status of a response, and the policy of the library.\<close>

definition customCheckRetry :: "go_error option \<Rightarrow> int option \<Rightarrow> bool \<times> go_error option \<Rightarrow> bool \<times> go_error option" where
  "customCheckRetry ctxErr status defaultPolicy =
     (if ctxErr \<noteq> None then (False, ctxErr)
      else case status of
             Some code \<Rightarrow> (if 400 \<le> code \<and> code < 500 then (False, None) else defaultPolicy)
           | None \<Rightarrow> defaultPolicy)"

section \<open>What a launched agent is\<close>

lemma nth_pairs:
  "i < length ks \<Longrightarrow> concat (map (\<lambda>k. [f k, g k]) ks) ! (2 * i + 1) = g (ks ! i)"
  "length (concat (map (\<lambda>k. [f k, g k]) ks)) = 2 * length ks"
  by (induction ks arbitrary: i) (auto simp: nth_Cons split: nat.split)

lemma required_iff: "required v ks p = Returns p' \<longleftrightarrow> p' = p \<and> (\<forall>k\<in>set ks. v_GetString v k \<noteq> [])"
proof -
  let ?ps = "concat (map (\<lambda>k. [ParamString k, ParamString (v_GetString v k)]) ks)"
  have odd: "param_errors ?ps (2 * i + 1) = [] \<longleftrightarrow> v_GetString v (ks ! i) \<noteq> []" if "i < length ks" for i
    using nth_pairs(1) [OF that, of ParamString "\<lambda>k. ParamString (v_GetString v k)"] by (simp add: param_errors_def)
  have "(\<forall>i<2 * length ks. param_errors ?ps i = []) \<longleftrightarrow> (\<forall>i<length ks. param_errors ?ps (2 * i + 1) = [])"
  proof (intro iffI allI impI)
    fix i assume all: "\<forall>i<length ks. param_errors ?ps (2 * i + 1) = []" and i: "i < 2 * length ks"
    show "param_errors ?ps i = []"
    proof (cases "even i")
      case False
      then obtain j where "i = 2 * j + 1" by (auto elim: oddE)
      with all i show ?thesis by auto
    qed (simp add: param_errors_def even_iff_mod_2_eq_zero)
  qed simp
  then have "(\<forall>i<2 * length ks. param_errors ?ps i = []) \<longleftrightarrow> (\<forall>k\<in>set ks. v_GetString v k \<noteq> [])"
    using odd unfolding all_set_conv_all_nth by simp
  then show ?thesis
    by (auto simp: required_def CheckRequiredParams_def Let_def nth_pairs(2))
qed

text \<open>The agents that start with a configuration, with what each is guaranteed to have.\<close>

lemma launched_agents:
  "ih_NewProcessor v mc = Returns p1 \<Longrightarrow> p1 = ih_agent (launcher_net v mc) (launcher_config v) \<and> identityhub_url (launcher_config v) \<noteq> []"
  "edcv_NewProcessor v mc = Returns p2 \<Longrightarrow> p2 = edcv_agent (launcher_net v mc) (launcher_config v) \<and> controlplane_url (launcher_config v) \<noteq> []"
  "certo_NewProcessor v mc = Returns p3 \<Longrightarrow> p3 = (launcher_net v mc, certo_url (launcher_config v)) \<and> certo_url (launcher_config v) \<noteq> []"
  "registration_NewProcessor dec_time v mc = Returns p4 \<Longrightarrow> p4 = issuer_client dec_time (launcher_net v mc) (launcher_config v) \<and>
     issuerservice_url (launcher_config v) \<noteq> [] \<and> issuerservice_id (launcher_config v) \<noteq> []"
  "siglet_NewProcessor v mc = Returns p5 \<Longrightarrow> p5 = siglet_agent (launcher_net v mc) (launcher_config v) \<and>
     siglet_management_url (launcher_config v) \<noteq> [] \<and> siglet_signaling_url (launcher_config v) \<noteq> [] \<and>
     controlplane_url (launcher_config v) \<noteq> []"
  by (auto simp: ih_NewProcessor_def edcv_NewProcessor_def certo_NewProcessor_def registration_NewProcessor_def
      siglet_NewProcessor_def required_iff launcher_config_def)

text \<open>
  The onboarding agent starts whenever it has the URL of IdentityHub. The issuer service, which its disposal calls, need not
  be configured.
\<close>

lemma onboarding_starts_without_issuer:
  "(\<exists>p. onboarding_NewProcessor dec_time v mc = Returns p) \<longleftrightarrow> identityhub_url (launcher_config v) \<noteq> []"
  by (auto simp: onboarding_NewProcessor_def required_iff launcher_config_def)

lemma check_mappings_ok:
  "check_mappings q seen ms = None \<Longrightarrow>
     distinct (map cl_Name ms) \<and> set (map cl_Name ms) \<inter> set seen = {} \<and> (\<forall>m\<in>set ms. cl_Name m \<noteq> [] \<and> cl_Scopes m \<noteq> [])"
proof (induction ms arbitrary: seen)
  case (Cons m ms)
  from Cons.prems have "check_mappings q (cl_Name m # seen) ms = None" and m: "cl_Name m \<noteq> []" "cl_Scopes m \<noteq> []" "cl_Name m \<notin> set seen"
    by (auto split: if_splits)
  from Cons.IH [OF this(1)] m show ?case by auto
qed simp

text \<open>Every client of a launched token exchange agent has one mapping, with scopes.\<close>

lemma launched_jwtlet_mappings:
  assumes "jwtlet_agent_NewProcessor q lib source v mc = Returns p"
  shows "distinct (map fst (jp_resolvedMappings p))" "\<forall>m\<in>set (jp_resolvedMappings p). snd m \<noteq> []"
proof -
  obtain ms namespace readFile where ms: "parseClientMappings q (jl_json lib) source = Inr ms"
    and p: "p = jwtlet_NewProcessor (launcher_net v mc) readFile lib (v_GetString v ''management.url'')
      (v_GetString v ''tokenexchange.tokenFilePath'') (v_GetString v ''tokenexchange.audience'') namespace ms"
    using assms by (auto simp: jwtlet_agent_NewProcessor_def split: call_result.splits sum.splits)
  have "ms = [] \<or> distinct (map cl_Name ms) \<and> (\<forall>m\<in>set ms. cl_Scopes m \<noteq> [])"
    using ms check_mappings_ok [of q "[]" ms]
    by (auto simp: parseClientMappings_def validateClientMappings_def Let_def split: mapping_source.splits sum.splits option.splits if_splits)
  then have "distinct (map cl_Name (if ms = [] then defaultClientMappings else ms))"
    "\<forall>m\<in>set (if ms = [] then defaultClientMappings else ms). cl_Scopes m \<noteq> []"
    by (auto simp: defaultClientMappings_def)
  moreover have "inj (serviceAccountIdentifier namespace)" by (auto simp: inj_def serviceAccountIdentifier_def)
  ultimately show "distinct (map fst (jp_resolvedMappings p))" "\<forall>m\<in>set (jp_resolvedMappings p). snd m \<noteq> []"
    using p by (auto simp: jwtlet_NewProcessor_def Let_def distinct_map inj_on_def comp_def split: if_splits)
qed

end
