(* ===== verification/Stream_Race.thy ===== *)
theory Stream_Race
  imports Nats_Subjects
begin

text \<open>
  Several agents that add their subjects to one stream (\<open>EnsureStreamSubjects\<close> of
  \<open>common/natsclient/stream.go\<close>): each reads the configuration of the stream, and then writes it back with the
  merged subjects. The server handles one call at a time, in any order.
\<close>

section \<open>Steps\<close>

text \<open>How far an agent is: it has not started, it has read these subjects, it has finished, or it has failed.\<close>

datatype ensure_state = Waiting | HasRead "string list" | Ensured | Refused

text \<open>The subjects of the stream, and the subjects and the progress of every agent.\<close>

type_synonym ensure_world = "string list \<times> (string list \<times> ensure_state) list"

fun finish_ensure :: "string list \<Rightarrow> string list \<Rightarrow> string list \<Rightarrow> string list \<times> ensure_state" where
  "finish_ensure stream info subjects =
     (case mergeStreamSubjects info subjects of
        Inl err \<Rightarrow> (stream, Refused)
      | Inr (merged, changed) \<Rightarrow> (if changed then merged else stream, Ensured))"

inductive ensure_step :: "ensure_world \<Rightarrow> ensure_world \<Rightarrow> bool" where
  read_info: "i < length agents \<Longrightarrow> agents ! i = (subjects, Waiting) \<Longrightarrow>
     ensure_step (stream, agents) (stream, agents[i := (subjects, HasRead stream)])"
| write_back: "i < length agents \<Longrightarrow> agents ! i = (subjects, HasRead info) \<Longrightarrow>
     finish_ensure stream info subjects = (stream', state) \<Longrightarrow>
     ensure_step (stream, agents) (stream', agents[i := (subjects, state)])"

inductive_cases ensure_stepE: "ensure_step (stream, agents) w"

text \<open>A step of an agent while no other one is between its read and its write.\<close>

definition undisturbed :: "ensure_world \<Rightarrow> bool" where
  "undisturbed w \<longleftrightarrow> (\<forall>i<length (snd w). \<forall>subjects info. snd w ! i = (subjects, HasRead info) \<longrightarrow> info = fst w)"

definition ensured_subjects_carried :: "ensure_world \<Rightarrow> bool" where
  "ensured_subjects_carried w \<longleftrightarrow>
     (\<forall>i<length (snd w). \<forall>subjects. snd w ! i = (subjects, Ensured) \<longrightarrow> carried subjects \<subseteq> carried (fst w))"

section \<open>Without interference\<close>

lemma finish_ensure_carries:
  assumes "finish_ensure stream stream subjects = (stream', state)"
  shows "carried stream \<subseteq> carried stream'" "state = Ensured \<Longrightarrow> carried subjects \<subseteq> carried stream'"
  using assms mergeStreamSubjects_correct [where existing = stream and additional = subjects]
  by (auto split: sum.splits prod.splits if_splits)

text \<open>
  As long as every agent writes back what the stream still has, the stream never loses a subject, and it carries
  the subjects of every agent that has finished.
\<close>

lemma undisturbed_step_keeps:
  assumes "ensure_step w w'" "undisturbed w" "ensured_subjects_carried w"
  shows "carried (fst w) \<subseteq> carried (fst w') \<and> ensured_subjects_carried w'"
  using assms(1)
proof cases
  case (read_info i agents subjects stream)
  with assms(3) show ?thesis by (auto simp: ensured_subjects_carried_def nth_list_update)
next
  case (write_back i agents subjects info stream stream' state)
  then have "finish_ensure stream stream subjects = (stream', state)"
    using assms(2) by (auto simp: undisturbed_def)
  note carries = finish_ensure_carries [OF this]
  have "carried s \<subseteq> carried stream'" if "j < length agents" "agents[i := (subjects, state)] ! j = (s, Ensured)" for j s
    using that carries assms(3) write_back by (cases "j = i") (fastforce simp: ensured_subjects_carried_def)+
  then show ?thesis using carries(1) write_back by (auto simp: ensured_subjects_carried_def)
qed

lemma ensured_subjects_carried_undisturbed:
  assumes "(\<lambda>a b. ensure_step a b \<and> undisturbed a)\<^sup>*\<^sup>* w w'" "ensured_subjects_carried w"
  shows "ensured_subjects_carried w' \<and> carried (fst w) \<subseteq> carried (fst w')"
  using assms by (induction rule: rtranclp_induct) (blast dest: undisturbed_step_keeps)+

section \<open>With interference\<close>

text \<open>
  Two agents that start at the same time: both read the stream before either writes. Both finish without an error,
  and the subjects of the first are gone.
\<close>

theorem concurrent_updates_lose_subjects:
  "\<exists>stream. ensure_step\<^sup>*\<^sup>* ([''events.a''], [([''events.b''], Waiting), ([''events.c''], Waiting)])
       (stream, [([''events.b''], Ensured), ([''events.c''], Ensured)]) \<and>
     [''events'', ''b''] \<notin> carried stream \<and> [''events'', ''b''] \<in> subject_set ''events.b''"
proof -
  have finish: "finish_ensure [''events.a''] [''events.a''] [''events.b''] = ([''events.a'', ''events.b''], Ensured)"
    "finish_ensure [''events.a'', ''events.b''] [''events.a''] [''events.c''] = ([''events.a'', ''events.c''], Ensured)"
    by code_simp+
  have "ensure_step ([''events.a''], [([''events.b''], Waiting), ([''events.c''], Waiting)])
      ([''events.a''], [([''events.b''], HasRead [''events.a'']), ([''events.c''], Waiting)])"
    using ensure_step.read_info [of 0 "[([''events.b''], Waiting), ([''events.c''], Waiting)]"] by simp
  moreover have "ensure_step ([''events.a''], [([''events.b''], HasRead [''events.a'']), ([''events.c''], Waiting)])
      ([''events.a''], [([''events.b''], HasRead [''events.a'']), ([''events.c''], HasRead [''events.a''])])"
    using ensure_step.read_info [of 1 "[([''events.b''], HasRead [''events.a'']), ([''events.c''], Waiting)]"] by simp
  moreover have "ensure_step ([''events.a''], [([''events.b''], HasRead [''events.a'']), ([''events.c''], HasRead [''events.a''])])
      ([''events.a'', ''events.b''], [([''events.b''], Ensured), ([''events.c''], HasRead [''events.a''])])"
    using ensure_step.write_back [of 0 "[([''events.b''], HasRead [''events.a'']), ([''events.c''], HasRead [''events.a''])]", OF _ _ finish(1)]
    by simp
  moreover have "ensure_step ([''events.a'', ''events.b''], [([''events.b''], Ensured), ([''events.c''], HasRead [''events.a''])])
      ([''events.a'', ''events.c''], [([''events.b''], Ensured), ([''events.c''], Ensured)])"
    using ensure_step.write_back [of 1 "[([''events.b''], Ensured), ([''events.c''], HasRead [''events.a''])]", OF _ _ finish(2)]
    by simp
  ultimately have run: "ensure_step\<^sup>*\<^sup>* ([''events.a''], [([''events.b''], Waiting), ([''events.c''], Waiting)])
      ([''events.a'', ''events.c''], [([''events.b''], Ensured), ([''events.c''], Ensured)])"
    by (meson rtranclp.rtrancl_into_rtrancl rtranclp.rtrancl_refl)
  have "[''events'', ''b''] \<notin> carried [''events.a'', ''events.c'']" "[''events'', ''b''] \<in> subject_set ''events.b''"
    by (auto simp: carried_def subject_set_def) (code_simp | simp)+
  with run show ?thesis by blast
qed

end
