(* ===== verification/Spec2Isabelle.thy ===== *)
theory Spec2Isabelle
  imports Executor_Results Query_Parser Participant_Lifecycle TM_Isolation PM_Api Sql_Schema System_Assembler Onboarding_Polling Agent_Launchers Stream_Race
begin

text \<open>
  The Connector Fabric Manager (CFM).

  The program provisions participants of dataspaces. A \<^bold>\<open>Tenant Manager\<close> (\<open>tmanager\<close>) keeps
  tenants, cells, dataspace profiles and participant profiles. To deploy a profile it sends a
  manifest to a \<^bold>\<open>Provision Manager\<close> (\<open>pmanager\<close>), which turns the manifest into an orchestration:
  activities in steps, computed from a definition with a dependency graph (\<open>common/dag\<close>). The
  \<^bold>\<open>engine\<close> (\<open>pmanager/natsorchestration\<close>) keeps the state of an orchestration in a NATS key-value
  store, publishes its activities on queues, and runs in every agent that executes an activity and in
  the Provision Manager. A watcher copies the orchestrations into an index and starts the compensation
  of those that failed. The response goes back to the Tenant Manager as a message. Both managers
  have an HTTP API with bearer tokens and scopes, and stores in memory or in Postgres. The \<^bold>\<open>agents\<close>
  (\<open>agent\<close>) execute the activities: each calls the HTTP APIs of the services that it prepares for a participant,
  with tokens that it exchanges for its own. A lifecycle agent reacts to events of these services instead.

  \<^bold>\<open>Theories and the code they model\<close>

  Shared foundations:
  \<^item> \<open>Prelude\<close>: Go maps, the order in which they are ranged over, results \<open>(value, error)\<close>.
  \<^item> \<open>Go_Errors\<close>: \<open>common/types/errors.go\<close> and what is used of \<open>errors\<close> and \<open>fmt\<close>.
  \<^item> \<open>Model\<close>, \<open>Json_Codec\<close>: \<open>common/model/model.go\<close>, JSON values and decoding them into Go types.
  \<^item> \<open>Dag\<close>, \<open>Dag_Cycle\<close>, \<open>Dag_Sort\<close>: \<open>common/dag/dag.go\<close>; cycle detection finds exactly the cycles,
    the sorts are topological and the levels are the earliest possible.
  \<^item> \<open>System_Assembler\<close>: \<open>common/system/assembler.go\<close>; the order in which a process is brought up.

  The engine:
  \<^item> \<open>Orchestration_Types\<close>, \<open>Activity_Context\<close>: \<open>pmanager/api/types.go\<close>, \<open>provision.go\<close>.
  \<^item> \<open>Nats_Subjects\<close>, \<open>Nats_Messages\<close>: \<open>common/natsclient\<close>: filters of subjects, the retry
    schedule, the disposition of every delivery and the fetch loop.
  \<^item> \<open>Nats_Client\<close>, \<open>Activity_Executor\<close>, \<open>Nats_Orchestrator\<close>: \<open>client.go\<close>, \<open>activity.go\<close>,
    \<open>orchestration.go\<close> of \<open>pmanager/natsorchestration\<close>. The world is the parameter \<open>env\<close>: the answer to a
    call, as a function of all calls the process made so far. So nothing is assumed about what other
    processes do between two calls.
  \<^item> \<open>Executor_Safety\<close>, \<open>Executor_Results\<close>: what one call of an executor may do.
  \<^item> \<open>Engine_System\<close>: an abstract step relation of any number of executors and orchestrators on one
    orchestration, its invariant, and the refinement of it by \<open>processMessage\<close>.
  \<^item> \<open>Index_Watcher\<close>: \<open>watcher.go\<close>.

  Queries and stores:
  \<^item> \<open>Query\<close>, \<open>Query_Parser\<close>: \<open>common/query\<close>: predicates, reflection, matching and the parser's listener.
  \<^item> \<open>Sql_Builder\<close>, \<open>Sql_Store\<close>, \<open>Sql_Table\<close>, \<open>Sql_Codec\<close>: \<open>common/sqlstore\<close>: predicates to SQL text and
    arguments, the generic store, and its contract on a table.
  \<^item> \<open>Store\<close>, \<open>Entity_Store\<close>: \<open>common/store\<close>, \<open>common/memorystore\<close>, transactions.
  \<^item> \<open>Definition_Store\<close>, \<open>Definition_Sql\<close>, \<open>Tenant_Stores\<close>, \<open>Tenant_Sql\<close>, \<open>Sql_Schema\<close>: the stores of the two
    managers in memory and on Postgres, and the tables.

  The managers:
  \<^item> \<open>Definition_Manager\<close>, \<open>Provision_Manager\<close>: \<open>pmanager/core\<close>.
  \<^item> \<open>Provision_Messages\<close>: \<open>natsprovision\<close> of both managers.
  \<^item> \<open>Tenant_Types\<close>, \<open>Tenant_Services\<close>, \<open>Participant_Service\<close>: \<open>tmanager/api\<close> and \<open>tmanager/core\<close>.
  \<^item> \<open>Tenant_Memory\<close>, \<open>Tenant_Integrity\<close>, \<open>Tenant_Isolation\<close>: the Tenant Manager on its stores in memory:
    references stay intact, and clients see only their tenants.
  \<^item> \<open>Participant_Lifecycle\<close>: deploying and disposing a profile across both managers.

  The HTTP APIs:
  \<^item> \<open>Auth_Claims\<close>: \<open>common/auth\<close>, \<open>assembly/auth\<close>; \<open>Http_Handler\<close>, \<open>Http_Routes\<close>: \<open>common/handler\<close> and the
    way of a request through middlewares and router.
  \<^item> \<open>TM_Api\<close>, \<open>TM_Isolation\<close>, \<open>PM_Api\<close>: handlers, routes, scopes and representations of both APIs.

  The agents:
  \<^item> \<open>Http_Client\<close>, \<open>Agent_Clients\<close>: \<open>common/httpx\<close> and the clients of the services in \<open>agent/common\<close>: requests, the
    errors made from responses, escaped paths.
  \<^item> \<open>Agent_Activities\<close>, \<open>Siglet_Activity\<close>, \<open>Onboarding_Activity\<close>, \<open>Jwtlet_Activity\<close>: the deployment and
    disposal of the seven agents of \<open>agent/orchestration\<close>, on any network. \<open>Jwtlet_Activity\<close> also has the contract of
    jwtlet (\<open>jwtlet_server\<close>): repeated runs end with exactly the mappings of the participant, and touch no others.
  \<^item> \<open>Onboarding_Polling\<close>: credentials are requested once, and then only polled.
  \<^item> \<open>Agents_Confined\<close>: an agent acts only for the participant of its orchestration, and not at all if its ID is
    not a plain identifier.
  \<^item> \<open>Key_Agent\<close>: the key management agent, and that no event of a key is lost.
  \<^item> \<open>Token_Cache\<close>: \<open>common/token\<close>, \<open>common/tokenexchange\<close>: tokens of the cache are valid for what was asked.
  \<^item> \<open>Agent_Launchers\<close>: the processors and token providers that the launchers build.

  Starting a process:
  \<^item> \<open>Nats_Setup\<close>: \<open>common/natsclient\<close>: authentication, TLS, the connection, buckets, streams and consumers, as the
    calls they make.
  \<^item> \<open>Health\<close>: \<open>common/health\<close>.
  \<^item> \<open>Startup\<close>, \<open>Startup_Safety\<close>: the configuration and the assemblies of every process up to its start: it connects
    only as configured, leaves existing streams as they are, and is alive if it says that it is ready.
  \<^item> \<open>Stream_Race\<close>: agents that add their subjects to one stream at the same time.

  \<^bold>\<open>Conventions\<close>

  A struct is a record, a map an association list with distinct keys, a result \<open>(value, error)\<close> a
  pair or a sum. Every branch of the code is a branch of the model, errors and panics included. A
  Go map is ranged over in some order: the order of the list that represents it, about which no
  theorem assumes anything. Mutexes serialize the operations they guard, so an operation under a
  lock is one function. Times and durations are integers; integers are bounded where their width
  matters (page offsets, counters).

  An interface of the code is a record of operations on a state, so that a component is modelled on any
  provider. What a component relies on is a locale (\<open>entity_store\<close> and \<open>sql_table\<close>, for
  example); every locale is interpreted on the model of the code that provides it.

  \<^bold>\<open>Bounds and fuel\<close>

  Cycle detection and the sorts of \<open>Dag\<close> take fuel computed from the number of vertices and edges, and
  are proved to return. \<open>update_loop\<close> is bounded by the 50 attempts of the code. Following
  the links between pages takes at most one step per entity and one more. Everything else is
  structural recursion.

  \<^bold>\<open>Not modelled\<close>

  Third-party code and the services behind it: NATS, the database driver, the router, the HTTP client,
  \<open>viper\<close>, the ANTLR runtime, the validator, the verification of tokens, and the services that the agents
  call. Where the code depends on what they do, they are parameters, with their documented behaviour as hypotheses
  (\<open>router_ok\<close>, \<open>sql_table\<close>, \<open>jwtlet_server\<close>, \<open>key_servers\<close>). Logging, tracing and metrics are left out. So are
  loading the configuration file, signals and the HTTP server, which only set up libraries, generated code
  (the recognizer of the query language), mocks and fixtures.
\<close>

end
